(* ===== verification/Sla_Prelude.thy ===== *)
theory Sla_Prelude
  imports Main
begin

text \<open>
  Shared vocabulary of the development: bytes and byte strings as the Zig and Rust sources
  use them (a byte is a \<^typ>\<open>char\<close>, a slice of bytes a \<^typ>\<open>string\<close>), the handful of
  standard-library string operations the sources call, decimal rendering and parsing, and
  the lemma collections the component theories extend.
\<close>

named_theorems byte_class \<open>definitions of the ASCII classes\<close>
named_theorems bounds_intro \<open>bounds on scanning positions\<close>
named_theorems outcome_simps \<open>evaluation of computations that may fail\<close>

section \<open>Bytes\<close>

abbreviation byte_val :: "char \<Rightarrow> nat" where
  "byte_val c \<equiv> of_char c"

text \<open>\<open>std.ascii\<close>: the classes the lexer and the metadata validator test.\<close>

definition is_digit :: "char \<Rightarrow> bool" where
  [byte_class]: "is_digit c \<longleftrightarrow> 48 \<le> byte_val c \<and> byte_val c \<le> 57"

definition is_lower :: "char \<Rightarrow> bool" where
  [byte_class]: "is_lower c \<longleftrightarrow> 97 \<le> byte_val c \<and> byte_val c \<le> 122"

definition is_upper :: "char \<Rightarrow> bool" where
  [byte_class]: "is_upper c \<longleftrightarrow> 65 \<le> byte_val c \<and> byte_val c \<le> 90"

definition is_alphabetic :: "char \<Rightarrow> bool" where
  [byte_class]: "is_alphabetic c \<longleftrightarrow> is_lower c \<or> is_upper c"

definition is_alphanumeric :: "char \<Rightarrow> bool" where
  [byte_class]: "is_alphanumeric c \<longleftrightarrow> is_alphabetic c \<or> is_digit c"

definition is_hex :: "char \<Rightarrow> bool" where
  [byte_class]: "is_hex c \<longleftrightarrow> is_digit c \<or>
     (97 \<le> byte_val c \<and> byte_val c \<le> 102) \<or> (65 \<le> byte_val c \<and> byte_val c \<le> 70)"

lemma is_digit_alphanumeric: "is_digit c \<Longrightarrow> is_alphanumeric c"
  by (simp add: is_alphanumeric_def)

lemma char_eq_byte_val: "(c = d) = (byte_val c = byte_val d)"
  by (simp add: of_char_eq_iff)

section \<open>Substrings\<close>

text \<open>\<open>std.mem.startsWith\<close>, \<open>str::starts_with\<close> and \<open>str::contains\<close>.\<close>

fun starts_with :: "string \<Rightarrow> string \<Rightarrow> bool" where
  "starts_with s [] = True"
| "starts_with [] (p # ps) = False"
| "starts_with (c # cs) (p # ps) = (c = p \<and> starts_with cs ps)"

fun str_contains :: "string \<Rightarrow> string \<Rightarrow> bool" where
  "str_contains [] p = (p = [])"
| "str_contains (c # cs) p = (starts_with (c # cs) p \<or> str_contains cs p)"

lemma starts_with_iff: "starts_with s p \<longleftrightarrow> (\<exists>r. s = p @ r)"
  by (induction s p rule: starts_with.induct) auto

lemma str_contains_iff: "str_contains s p \<longleftrightarrow> (\<exists>l r. s = l @ p @ r)"
proof (induction s)
  case Nil
  then show ?case by simp
next
  case (Cons c cs)
  have "(\<exists>l r. c # cs = l @ p @ r) \<longleftrightarrow>
        (\<exists>r. c # cs = p @ r) \<or> (\<exists>l r. cs = l @ p @ r)"
    by (metis append_Cons append_Nil neq_Nil_conv list.inject)
  with Cons show ?case by (simp add: starts_with_iff)
qed

lemma str_contains_append:
  "str_contains s p \<Longrightarrow> str_contains (l @ s) p \<and> str_contains (s @ r) p"
  unfolding str_contains_iff by (metis append.assoc)

text \<open>\<open>str::find\<close>: the byte offset of the first occurrence.\<close>

fun str_find :: "string \<Rightarrow> string \<Rightarrow> nat option" where
  "str_find [] p = (if p = [] then Some 0 else None)"
| "str_find (c # cs) p =
     (if starts_with (c # cs) p then Some 0 else map_option Suc (str_find cs p))"

lemma str_find_contains: "(str_find s p \<noteq> None) = str_contains s p"
  by (induction s p rule: str_find.induct) auto

text \<open>\<open>str::split\<close> on one byte, and \<open>std.mem.splitScalar\<close>: never empty.\<close>

fun split_on :: "char \<Rightarrow> string \<Rightarrow> string list" where
  "split_on d [] = [[]]"
| "split_on d (c # cs) =
     (if c = d then [] # split_on d cs
      else (case split_on d cs of [] \<Rightarrow> [[c]] | w # ws \<Rightarrow> (c # w) # ws))"

lemma split_on_not_Nil [simp]: "split_on d s \<noteq> []"
  by (induction s) (auto split: list.splits)

lemma split_on_absent: "d \<notin> set w \<Longrightarrow> split_on d w = [w]"
  by (induction w) auto

lemma split_on_append:
  "d \<notin> set w \<Longrightarrow> split_on d (w @ d # r) = w # split_on d r"
  by (induction w) (auto split: list.splits)

section \<open>Decimal numbers\<close>

text \<open>The \<open>{d}\<close> and \<open>{}\<close> format directives on unsigned and signed integers.\<close>

fun dec_nat :: "nat \<Rightarrow> string" where
  "dec_nat n = (if n < 10 then [char_of (48 + n)]
                else dec_nat (n div 10) @ [char_of (48 + n mod 10)])"

declare dec_nat.simps [simp del]

definition dec_int :: "int \<Rightarrow> string" where
  "dec_int i = (if i < 0 then CHR ''-'' # dec_nat (nat (- i)) else dec_nat (nat i))"

text \<open>The value of a digit string, most significant digit first.\<close>

fun digits_val :: "nat \<Rightarrow> string \<Rightarrow> nat option" where
  "digits_val acc [] = Some acc"
| "digits_val acc (c # cs) =
     (if is_digit c then digits_val (10 * acc + (byte_val c - 48)) cs else None)"

text \<open>
  \<open>str::parse::<u32>()\<close> up to the error value: an optional plus sign, at least one digit,
  no other byte, and a value below \<open>2 ^ 32\<close>.
\<close>

definition parse_u32 :: "string \<Rightarrow> nat option" where
  "parse_u32 s =
     (let ds = (case s of c # cs \<Rightarrow> if c = CHR ''+'' then cs else s | [] \<Rightarrow> s)
      in if ds = [] then None
         else case digits_val 0 ds of
                None \<Rightarrow> None
              | Some v \<Rightarrow> if v < 2 ^ 32 then Some v else None)"

lemma byte_val_digit: "n < 10 \<Longrightarrow> byte_val (char_of (48 + n)) = 48 + n"
  by simp

lemma dec_nat_not_Nil [simp]: "dec_nat n \<noteq> []"
  by (subst dec_nat.simps) simp

lemma dec_nat_digits: "c \<in> set (dec_nat n) \<Longrightarrow> is_digit c"
proof (induction n rule: dec_nat.induct)
  case (1 n)
  show ?case
  proof (cases "n < 10")
    case True
    with "1.prems" have "c = char_of (48 + n)" by (simp add: dec_nat.simps [of n])
    with True show ?thesis by (simp add: is_digit_def)
  next
    case False
    with "1.prems" have "c \<in> set (dec_nat (n div 10)) \<or> c = char_of (48 + n mod 10)"
      by (auto simp: dec_nat.simps [of n])
    moreover have "n mod 10 < 10" by simp
    ultimately show ?thesis using "1.IH" False by (auto simp: is_digit_def)
  qed
qed

lemma digits_val_append:
  "digits_val a (xs @ ys) = Option.bind (digits_val a xs) (\<lambda>b. digits_val b ys)"
  by (induction a xs rule: digits_val.induct) auto

lemma digits_val_dec_nat: "digits_val 0 (dec_nat n) = Some n"
proof (induction n rule: dec_nat.induct)
  case (1 n)
  show ?case
  proof (cases "n < 10")
    case True
    then show ?thesis
      by (simp add: dec_nat.simps [of n] is_digit_def)
  next
    case False
    have "n mod 10 < 10" by simp
    then have "is_digit (char_of (48 + n mod 10))"
      and "byte_val (char_of (48 + n mod 10)) - 48 = n mod 10"
      by (simp_all add: is_digit_def)
    with False "1.IH" show ?thesis
      by (simp add: dec_nat.simps [of n] digits_val_append)
  qed
qed

lemma dec_nat_inj: "dec_nat m = dec_nat n \<Longrightarrow> m = n"
  by (metis digits_val_dec_nat option.inject)

lemma parse_u32_dec_nat: "n < 2 ^ 32 \<Longrightarrow> parse_u32 (dec_nat n) = Some n"
proof -
  assume n: "n < 2 ^ 32"
  obtain c cs where d: "dec_nat n = c # cs"
    by (cases "dec_nat n") auto
  then have "is_digit c" by (metis dec_nat_digits list.set_intros(1))
  then have "c \<noteq> CHR ''+''" by (auto simp: is_digit_def)
  with d n digits_val_dec_nat [of n] show ?thesis
    by (simp add: parse_u32_def)
qed

end
