(* ===== verification/Sla_Shader_Ast.thy ===== *)
theory Sla_Shader_Ast
  imports Main "HOL-Library.Word"
begin

text \<open>
  The shader declarations of \<open>src/ast.zig\<close> (the payload of a \<open>@sublanguage\<close> declaration):
  the shader types with their component arithmetic, expressions, statements and the
  declaration record.  An \<open>f64\<close> is its 64-bit pattern, an \<open>i64\<close> an \<^typ>\<open>int\<close>.
\<close>

section \<open>Shader types\<close>

datatype shader_type =
  Sh_float | Sh_int | Sh_uint | Sh_bool | Sh_vec2 | Sh_vec3 | Sh_vec4 | Sh_mat3 | Sh_mat4
| Sh_sampler2d

fun shader_type_name :: "shader_type \<Rightarrow> string" where
  "shader_type_name Sh_float = ''f32''"
| "shader_type_name Sh_int = ''i32''"
| "shader_type_name Sh_uint = ''u32''"
| "shader_type_name Sh_bool = ''bool''"
| "shader_type_name Sh_vec2 = ''vec2''"
| "shader_type_name Sh_vec3 = ''vec3''"
| "shader_type_name Sh_vec4 = ''vec4''"
| "shader_type_name Sh_mat3 = ''mat3''"
| "shader_type_name Sh_mat4 = ''mat4''"
| "shader_type_name Sh_sampler2d = ''sampler2D''"

fun components :: "shader_type \<Rightarrow> nat" where
  "components Sh_float = 1"
| "components Sh_int = 1"
| "components Sh_uint = 1"
| "components Sh_vec2 = 2"
| "components Sh_vec3 = 3"
| "components Sh_vec4 = 4"
| "components _ = 0"

definition isScalar :: "shader_type \<Rightarrow> bool" where
  "isScalar t \<longleftrightarrow> t = Sh_float \<or> t = Sh_int \<or> t = Sh_uint"

definition isVector :: "shader_type \<Rightarrow> bool" where
  "isVector t \<longleftrightarrow> t = Sh_vec2 \<or> t = Sh_vec3 \<or> t = Sh_vec4"

definition isMatrix :: "shader_type \<Rightarrow> bool" where
  "isMatrix t \<longleftrightarrow> t = Sh_mat3 \<or> t = Sh_mat4"

definition vecOf :: "nat \<Rightarrow> shader_type option" where
  "vecOf n = (if n = 1 then Some Sh_float else if n = 2 then Some Sh_vec2
              else if n = 3 then Some Sh_vec3 else if n = 4 then Some Sh_vec4 else None)"

section \<open>Shader expressions, statements and declarations\<close>

datatype shader_literal = Sh_float_lit "64 word" | Sh_int_lit int | Sh_boolean_lit bool

datatype shader_bin_op =
  Sh_add | Sh_sub | Sh_mul | Sh_div | Sh_mod | Sh_eq | Sh_ne | Sh_lt | Sh_le | Sh_gt | Sh_ge
| Sh_and | Sh_or

datatype shader_un_op = Sh_neg | Sh_not

datatype (plugins only: code size) shader_expr =
  Sh_float_literal "64 word"
| Sh_int_literal int
| Sh_bool_literal bool
| Sh_ident string
| Sh_member_access shader_expr string
| Sh_binary shader_bin_op shader_expr shader_expr
| Sh_unary shader_un_op shader_expr
| Sh_construct shader_type "shader_expr list"
| Sh_sample shader_expr shader_expr
| Sh_call string "shader_expr list"

datatype (plugins only: code size) shader_stmt =
  Sh_assign shader_expr shader_expr
| Sh_if_stmt shader_expr "shader_stmt list"

record shader_field =
  shf_name :: string
  shf_ty :: shader_type

record shader_const =
  shc_name :: string
  shc_ty :: shader_type
  shc_value :: shader_literal

record shader_global_group =
  shg_name :: string
  shg_fields :: "shader_field list"

record shader_decl =
  shd_name :: string
  shd_priority :: "int option"
  shd_globals :: "shader_global_group list"
  shd_inputs :: "shader_field list"
  shd_params :: "shader_field list"
  shd_consts :: "shader_const list"
  shd_vars :: "shader_field list"
  shd_init :: "shader_stmt list"
  shd_vertex :: "shader_stmt list"
  shd_fragment :: "shader_stmt list"

section \<open>Component arithmetic\<close>

lemma components_bound: "components t \<le> 4"
  by (cases t) auto

lemma isVector_components: "isVector t \<longleftrightarrow> 2 \<le> components t"
  by (cases t) (auto simp: isVector_def)

lemma isScalar_components: "isScalar t \<longleftrightarrow> components t = 1"
  by (cases t) (auto simp: isScalar_def)

lemma vecOf_components: "vecOf n = Some t \<Longrightarrow> components t = n"
  by (auto simp: vecOf_def split: if_splits)

lemma components_vecOf: "isVector t \<Longrightarrow> vecOf (components t) = Some t"
  by (auto simp: isVector_def vecOf_def)

lemma shader_type_name_inj: "shader_type_name s = shader_type_name t \<Longrightarrow> s = t"
  by (cases s; cases t) simp_all

end
