(* ===== verification/Sla_Ast.thy ===== *)
theory Sla_Ast
  imports Sla_Shader_Ast
begin

text \<open>
  The abstract syntax of \<open>src/ast.zig\<close>.  The tagged union \<open>Node\<close> is the datatype
  \<open>node\<close>, one constructor per tag in the source's order; the payload structs that hold no
  node are records, the payload structs that hold nodes are constructor arguments in field
  order, and the structs that occur in slices (\<open>SelectCase\<close>, \<open>IfLetCond\<close>, \<open>Case\<close>,
  \<open>MatchCase\<close>, the literal fields) are datatypes of their own, mutually recursive with
  \<open>node\<close>.  A slice is a list, \<open>?T\<close> is \<^typ>\<open>'a option\<close>; pointers are not modelled
  (the tree is a value), so a pass that writes through a pointer returns the new node.
\<close>

section \<open>Types\<close>

datatype primitive =
  P_i8 | P_i16 | P_i32 | P_i64 | P_isize | P_u8 | P_u16 | P_u32 | P_u64 | P_usize
| P_f32 | P_f64 | P_integer | P_float | P_boolean | P_raw_ptr | P_void_type | P_va_list

datatype (plugins only: code size) ty =
  Ty_infer
| Ty_primitive primitive
| Ty_pointer ty
| Ty_borrow ty
| Ty_array ty nat                           \<comment> \<open>\<open>elem\<close>, \<open>len\<close>\<close>
| Ty_tuple "ty list"
| Ty_future ty
| Ty_closure "ty list" ty                   \<comment> \<open>\<open>params\<close>, \<open>ret\<close>\<close>
| Ty_fn_ptr "string option" "ty list" ty bool \<comment> \<open>\<open>abi\<close>, \<open>params\<close>, \<open>ret\<close>, \<open>is_variadic\<close>\<close>
| Ty_user_defined string "ty list"          \<comment> \<open>\<open>name\<close>, \<open>generics\<close>\<close>

section \<open>Payloads that hold no node\<close>

record field =
  field_name :: string
  field_ty :: ty

record struct_decl =
  sd_name :: string
  sd_derives :: "string list"
  sd_generics :: "string list"
  sd_fields :: "field list"
  sd_is_union :: bool
  sd_is_opaque :: bool

record enum_variant =
  ev_name :: string
  ev_fields :: "field list"
  ev_discriminant :: "int option"

record enum_decl =
  ed_name :: string
  ed_generics :: "string list"
  ed_variants :: "enum_variant list"

datatype type_alias_component = Alias_ty ty | Alias_inline_struct "field list"

record type_alias_decl =
  tad_name :: string
  tad_components :: "type_alias_component list"

record param =
  pm_name :: string
  pm_ty :: ty
  pm_is_borrow :: bool
  pm_is_move :: bool
  pm_is_fallible_sugar :: bool

record trait_method =
  tm_name :: string
  tm_params :: "param list"
  tm_ret_ty :: ty

record trait_decl =
  trd_name :: string
  trd_supertraits :: "string list"
  trd_methods :: "trait_method list"

datatype binary_op =
  Bop_add | Bop_sub | Bop_mul | Bop_div | Bop_mod | Bop_bit_and | Bop_bit_or | Bop_bit_xor
| Bop_shl | Bop_shr | Bop_eq | Bop_ne | Bop_lt | Bop_le | Bop_gt | Bop_ge | Bop_spaceship
| Bop_logical_and | Bop_logical_or

record func_sig =
  fd_name :: string
  fd_is_pub :: bool
  fd_is_extern :: bool
  fd_abi :: "string option"
  fd_no_mangle :: bool
  fd_is_decl_only :: bool
  fd_generics :: "string list"
  fd_params :: "param list"
  fd_ret_ty :: ty
  fd_is_inline :: bool
  fd_is_async :: bool
  fd_is_arena :: bool
  fd_operator :: "binary_op option"
  fd_is_variadic :: bool
  fd_ret_fallible_sugar :: bool
  fd_ret_borrow_origin :: "string option"

record macro_sig =
  md_name :: string
  md_params :: "string list"
  md_param_types :: "ty option list"

text \<open>\<open>MacroDecl.declaredParamType\<close>: past the end of the parallel array means untyped.\<close>

definition declaredParamType :: "macro_sig \<Rightarrow> nat \<Rightarrow> ty option" where
  "declaredParamType m i =
     (if i \<ge> length (md_param_types m) then None else md_param_types m ! i)"

record test_sig =
  td_name :: string
  td_is_ignored :: bool
  td_should_panic :: bool

record sublanguage_decl =
  sl_kind :: string
  sl_name :: string
  sl_shader :: shader_decl

record enum_pattern =
  ep_enum_name :: string
  ep_variant_name :: string
  ep_bindings :: "string list"

record destructure_sig =
  ds_names :: "string list"
  ds_rest_name :: "string option"
  ds_rest_alias :: "string option"
  ds_is_slice :: bool

record inline_asm_operand =
  asm_constraint :: string
  asm_var_name :: string

datatype literal =
  Int_val int | Float_val "64 word" | Bool_val bool | String_val string

datatype select_kind = Sel_recv | Sel_send

section \<open>Nodes\<close>

datatype (plugins only: code size) node =
  Program "node list"
| Struct_decl struct_decl
| Enum_decl enum_decl
| Trait_decl trait_decl
| Impl_decl "string option" ty "node list"          \<comment> \<open>\<open>trait_name\<close>, \<open>target_ty\<close>, \<open>methods\<close>\<close>
| Type_alias_decl type_alias_decl
| Overload_decl ty "node list"                      \<comment> \<open>\<open>target_ty\<close>, \<open>methods\<close>\<close>
| Func_decl func_sig "node list"                    \<comment> \<open>signature, \<open>body\<close>\<close>
| Macro_decl macro_sig "node list"
| Import_decl string
| Using_decl string
| Test_decl test_sig "node list"
| Sublanguage_decl sublanguage_decl
| Sublanguage_registration string
| Check_hook_decl string
| Let_stmt string "ty option" node
| Let_else_stmt enum_pattern node "node list"
| Let_destructure_stmt destructure_sig node
| Const_stmt string "ty option" node
| Var_stmt string ty
| Assign_stmt node node                             \<comment> \<open>\<open>target\<close>, \<open>value\<close>\<close>
| Block_stmt "node list"
| Arena_stmt "node list"
| Expr_stmt node
| Return_stmt "node option"
| For_stmt string node "node option" "node list"    \<comment> \<open>\<open>var_name\<close>, \<open>start\<close>, \<open>end\<close>, \<open>body\<close>\<close>
| While_stmt node "enum_pattern option" "node list" \<comment> \<open>\<open>cond\<close>, \<open>let_pattern\<close>, \<open>body\<close>\<close>
| Break_stmt
| Continue_stmt
| Release_stmt string
| Defer_stmt node
| Select_stmt "select_case list" "node list option" "node option" "node list option"
| Literal literal
| Identifier string
| Generic_func_ref string "ty list"
| Go_expr bool node
| If_expr node "if_let_cond list option" "node list" "node list option"
| Switch_expr node "switch_case list"
| Match_expr node "match_case list"
| Unsafe_expr "node list"
| Await_expr node
| Inline_asm_expr string "inline_asm_operand list"
| Binary_expr binary_op node node
| Call_expr string "string option" "ty list" "node list" "node option"
    \<comment> \<open>\<open>func_name\<close>, \<open>associated_target\<close>, \<open>generics\<close>, \<open>args\<close>, \<open>callee\<close>\<close>
| Closure_literal "param list" node
| Borrow_expr node
| Move_expr node
| Deref_expr node
| Cast_expr node ty
| Field_expr node string
| Struct_literal ty "struct_literal_field list" "node option"
| Enum_literal string string "enum_literal_field list"
| Tuple_literal "node list"
| Array_literal "node list"
| Repeat_array_literal node nat
| Index_expr node node                              \<comment> \<open>\<open>target\<close>, \<open>index\<close>\<close>
| Slice_expr node node node                         \<comment> \<open>\<open>target\<close>, \<open>start\<close>, \<open>end\<close>\<close>
| Try_expr node
and select_case =
  Select_case select_kind node "string option" "string option" "node list"
and if_let_cond = If_let_cond enum_pattern node
and switch_case = Switch_case node "node list"
and match_case = Match_case enum_pattern "node option" "node list"
and struct_literal_field = Struct_literal_field string node
and enum_literal_field = Enum_literal_field string node

text \<open>The comparisons \<open>node.* == .tag\<close> the passes make.\<close>

fun is_identifier :: "node \<Rightarrow> bool" where
  "is_identifier (Identifier _) = True"
| "is_identifier _ = False"

fun is_literal :: "node \<Rightarrow> bool" where
  "is_literal (Literal _) = True"
| "is_literal _ = False"

text \<open>The case \<open>default\<close> of a \<open>switch\<close>, and whether there is one.\<close>

definition isSwitchDefaultPattern :: "node \<Rightarrow> bool" where
  "isSwitchDefaultPattern p \<longleftrightarrow> p = Identifier ''default''"

fun is_default_case :: "switch_case \<Rightarrow> bool" where
  "is_default_case (Switch_case p b) = isSwitchDefaultPattern p"

definition switch_has_default :: "switch_case list \<Rightarrow> bool" where
  "switch_has_default cs = list_ex is_default_case cs"

lemma is_identifierE: "is_identifier n \<Longrightarrow> (\<And>x. n = Identifier x \<Longrightarrow> P) \<Longrightarrow> P"
  by (cases n) auto

end
