(* ===== verification/Sla_Control_Flow.thy ===== *)
theory Sla_Control_Flow
  imports Sla_Prelude Sla_Ast
begin

text \<open>
  \<open>src/control_flow_rules.zig\<close>: the rules both emitters share for values across control
  flow.  (1) What happens to a value at a function exit and how the value states of the
  branches of an \<open>if\<close> or \<open>match\<close> are merged.  (2) Whether a macro body consumes a
  parameter: never, always or on some paths only.  The second is stated against a path
  semantics of macro bodies, \<open>outcomes\<close>, which records for every way of leaving a node
  whether the parameter has been consumed by then.
\<close>

section \<open>Branch merging and exit cleanup\<close>

datatype branch_state_merge_action = Restore_pre | Restore_then | Restore_else | Keep_current

fun restoresPre :: "branch_state_merge_action \<Rightarrow> bool" where
  "restoresPre a = (a = Restore_pre)"

fun restoresThen :: "branch_state_merge_action \<Rightarrow> bool" where
  "restoresThen a = (a = Restore_then)"

fun restoresElse :: "branch_state_merge_action \<Rightarrow> bool" where
  "restoresElse a = (a = Restore_else)"

datatype function_exit_cleanup_action = Release | Transfer_result

fun releasesValue :: "function_exit_cleanup_action \<Rightarrow> bool" where
  "releasesValue a = (a = Release)"

fun transfersResult :: "function_exit_cleanup_action \<Rightarrow> bool" where
  "transfersResult a = (a = Transfer_result)"

fun planFunctionExitCleanup :: "string \<Rightarrow> node \<Rightarrow> function_exit_cleanup_action" where
  "planFunctionExitCleanup cleanup_name (Identifier n) =
     (if cleanup_name = n then Transfer_result else Release)"
| "planFunctionExitCleanup cleanup_name (Move_expr e) =
     (case e of Identifier n \<Rightarrow> if cleanup_name = n then Transfer_result else Release
              | _ \<Rightarrow> Release)"
| "planFunctionExitCleanup cleanup_name _ = Release"

datatype value_state = Uninitialized | Active | Consumed

datatype multi_branch_state_merge_action = Multi_restore_pre | Restore_single | Intersect_live

fun multiRestoresPre :: "multi_branch_state_merge_action \<Rightarrow> bool" where
  "multiRestoresPre a = (a = Multi_restore_pre)"

fun multiRestoresSingle :: "multi_branch_state_merge_action \<Rightarrow> bool" where
  "multiRestoresSingle a = (a = Restore_single)"

fun multiIntersectsLive :: "multi_branch_state_merge_action \<Rightarrow> bool" where
  "multiIntersectsLive a = (a = Intersect_live)"

fun planBranchStateMerge :: "bool \<Rightarrow> bool \<Rightarrow> branch_state_merge_action" where
  "planBranchStateMerge then_terminated else_terminated =
     (if then_terminated \<and> else_terminated then Restore_pre
      else if then_terminated then Restore_else
      else if else_terminated then Restore_then
      else Keep_current)"

fun planMultiBranchStateMerge :: "nat \<Rightarrow> multi_branch_state_merge_action" where
  "planMultiBranchStateMerge live =
     (if live = 0 then Multi_restore_pre else if live = 1 then Restore_single else Intersect_live)"

text \<open>The loop of \<open>intersectLiveBranchValueStates\<close>: its two flags over the tail.\<close>

fun intersect_loop :: "value_state \<Rightarrow> bool \<Rightarrow> bool \<Rightarrow> value_state list \<Rightarrow> value_state" where
  "intersect_loop first all_same has_uninit [] =
     (if all_same then first else if has_uninit then Uninitialized else Consumed)"
| "intersect_loop first all_same has_uninit (s # ss) =
     intersect_loop first (all_same \<and> s = first) (has_uninit \<or> s = Uninitialized) ss"

fun intersectLiveBranchValueStates :: "value_state list \<Rightarrow> value_state" where
  "intersectLiveBranchValueStates [] = Active"
| "intersectLiveBranchValueStates (s # ss) = intersect_loop s True (s = Uninitialized) ss"

text \<open>
  The order behind the merge: an uninitialised value is the least usable, an active one the
  most.
\<close>

instantiation value_state :: linorder
begin

fun rank_value_state :: "value_state \<Rightarrow> nat" where
  "rank_value_state Uninitialized = 0"
| "rank_value_state Consumed = 1"
| "rank_value_state Active = 2"

definition less_eq_value_state :: "value_state \<Rightarrow> value_state \<Rightarrow> bool" where
  "less_eq_value_state a b \<longleftrightarrow> rank_value_state a \<le> rank_value_state b"

definition less_value_state :: "value_state \<Rightarrow> value_state \<Rightarrow> bool" where
  "less_value_state a b \<longleftrightarrow> rank_value_state a < rank_value_state b"

instance
proof
  fix x y :: value_state
  show "x \<le> y \<Longrightarrow> y \<le> x \<Longrightarrow> x = y"
    by (cases x; cases y) (simp_all add: less_eq_value_state_def)
qed (auto simp: less_eq_value_state_def less_value_state_def)

end

lemmas value_state_order = less_eq_value_state_def less_value_state_def min_def

lemma Active_greatest [simp]: "s \<le> (Active :: value_state)"
  by (cases s) (simp_all add: less_eq_value_state_def)

lemma Uninitialized_least [simp]: "(Uninitialized :: value_state) \<le> s"
  by (simp add: less_eq_value_state_def)

lemma min_Active [simp]: "min s (Active :: value_state) = s" "min (Active :: value_state) s = s"
  by (simp_all add: min_absorb1 min_absorb2)

text \<open>The loop computes the minimum of the states it has seen.\<close>

lemma intersect_loop_min:
  assumes "all_same \<Longrightarrow> (has_uninit \<longleftrightarrow> first = Uninitialized) \<and> m = first"
    and "\<not> all_same \<Longrightarrow> m = (if has_uninit then Uninitialized else Consumed)"
  shows "intersect_loop first all_same has_uninit ss = fold min ss m"
  using assms
proof (induction ss arbitrary: all_same has_uninit m)
  case Nil
  then show ?case by (cases all_same) simp_all
next
  case (Cons s ss)
  have "intersect_loop first (all_same \<and> s = first) (has_uninit \<or> s = Uninitialized) ss
        = fold min ss (min s m)"
  proof (rule Cons.IH)
    show "all_same \<and> s = first \<Longrightarrow>
        (has_uninit \<or> s = Uninitialized) = (first = Uninitialized) \<and> min s m = first"
      using Cons.prems by auto
    show "\<not> (all_same \<and> s = first) \<Longrightarrow>
        min s m = (if has_uninit \<or> s = Uninitialized then Uninitialized else Consumed)"
      using Cons.prems
      by (cases s; cases first; cases all_same; cases has_uninit)
         (simp_all add: value_state_order)
  qed
  then show ?case by simp
qed

lemma intersect_fold: "intersectLiveBranchValueStates ss = fold min ss Active"
proof (cases ss)
  case (Cons s rest)
  then show ?thesis
    using intersect_loop_min [of True "s = Uninitialized" s s rest] by simp
qed simp

lemma fold_min_le: "fold min ss m \<le> m" for m :: value_state
proof (induction ss arbitrary: m)
  case (Cons s ss)
  have "fold min ss (min s m) \<le> min s m" by (rule Cons.IH)
  then show ?case by simp
qed simp

lemma fold_min_lower: "s \<in> set ss \<Longrightarrow> fold min ss m \<le> s" for m :: value_state
proof (induction ss arbitrary: m)
  case (Cons a ss)
  then show ?case
    using fold_min_le [of ss "min a m"] by auto
qed simp

lemma fold_min_greatest:
  "l \<le> m \<Longrightarrow> \<forall>s\<in>set ss. l \<le> s \<Longrightarrow> l \<le> fold min ss m" for m :: value_state
  by (induction ss arbitrary: m) simp_all

section \<open>Consumption of macro parameters\<close>

datatype macro_param_consumption = Never | Always | Conditional

fun sequenceMacroParamConsumption ::
  "macro_param_consumption \<Rightarrow> macro_param_consumption \<Rightarrow> macro_param_consumption" where
  "sequenceMacroParamConsumption l r =
     (if l = Always \<or> r = Always then Always
      else if l = Conditional \<or> r = Conditional then Conditional
      else Never)"

fun branchMacroParamConsumption ::
  "macro_param_consumption \<Rightarrow> macro_param_consumption \<Rightarrow> macro_param_consumption" where
  "branchMacroParamConsumption l r = (if l = r then l else Conditional)"

text \<open>
  The analysis of one node maps a parameter name to its effect.  \<open>seqEffectsFrom\<close> is the
  \<open>for\<close> loop that folds \<open>sequenceMacroParamConsumption\<close> over the effects of a slice,
  \<open>branchEffects\<close> the loop over the cases of a \<open>switch\<close> or \<open>match\<close> (no cases: never).
\<close>

type_synonym effect = "string \<Rightarrow> macro_param_consumption"

definition seqEffectsFrom :: "macro_param_consumption \<Rightarrow> effect list \<Rightarrow> effect" where
  "seqEffectsFrom acc fs x = foldl (\<lambda>eff f. sequenceMacroParamConsumption eff (f x)) acc fs"

abbreviation seqEffects :: "effect list \<Rightarrow> effect" where
  "seqEffects \<equiv> seqEffectsFrom Never"

fun branchEffects :: "effect list \<Rightarrow> effect" where
  "branchEffects [] x = Never"
| "branchEffects (f # fs) x =
     foldl (\<lambda>eff g. branchMacroParamConsumption eff (g x)) (f x) fs"

primrec macroNodeConsumption :: "node \<Rightarrow> effect"
and switchCaseConsumption :: "switch_case \<Rightarrow> effect"
and matchCaseConsumption :: "match_case \<Rightarrow> effect"
and structFieldConsumption :: "struct_literal_field \<Rightarrow> effect"
and enumFieldConsumption :: "enum_literal_field \<Rightarrow> effect"
where
  "macroNodeConsumption (Program ds) = (\<lambda>x. Never)"
| "macroNodeConsumption (Struct_decl d) = (\<lambda>x. Never)"
| "macroNodeConsumption (Enum_decl d) = (\<lambda>x. Never)"
| "macroNodeConsumption (Trait_decl d) = (\<lambda>x. Never)"
| "macroNodeConsumption (Impl_decl t u ms) = (\<lambda>x. Never)"
| "macroNodeConsumption (Type_alias_decl d) = (\<lambda>x. Never)"
| "macroNodeConsumption (Overload_decl t ms) = (\<lambda>x. Never)"
| "macroNodeConsumption (Func_decl d b) = (\<lambda>x. Never)"
| "macroNodeConsumption (Macro_decl d b) = (\<lambda>x. Never)"
| "macroNodeConsumption (Import_decl p) = (\<lambda>x. Never)"
| "macroNodeConsumption (Using_decl p) = (\<lambda>x. Never)"
| "macroNodeConsumption (Test_decl d b) = (\<lambda>x. Never)"
| "macroNodeConsumption (Sublanguage_decl d) = (\<lambda>x. Never)"
| "macroNodeConsumption (Sublanguage_registration k) = (\<lambda>x. Never)"
| "macroNodeConsumption (Check_hook_decl k) = (\<lambda>x. Never)"
| "macroNodeConsumption (Let_stmt v t e) = macroNodeConsumption e"
| "macroNodeConsumption (Let_else_stmt p e b) = (\<lambda>x. Never)"
| "macroNodeConsumption (Let_destructure_stmt d e) = (\<lambda>x. Never)"
| "macroNodeConsumption (Const_stmt v t e) = (\<lambda>x. Never)"
| "macroNodeConsumption (Var_stmt v t) = (\<lambda>x. Never)"
| "macroNodeConsumption (Assign_stmt t v) = macroNodeConsumption v"
| "macroNodeConsumption (Block_stmt b) = seqEffects (map macroNodeConsumption b)"
| "macroNodeConsumption (Arena_stmt b) = (\<lambda>x. Never)"
| "macroNodeConsumption (Expr_stmt e) = macroNodeConsumption e"
| "macroNodeConsumption (Return_stmt vo) = (\<lambda>x. case map_option macroNodeConsumption vo of Some f \<Rightarrow> f x | None \<Rightarrow> Never)"
| "macroNodeConsumption (For_stmt v s eo b) = (\<lambda>x. if seqEffects (map macroNodeConsumption b) x = Never then Never else Conditional)"
| "macroNodeConsumption (While_stmt c p b) = (\<lambda>x. if seqEffects (map macroNodeConsumption b) x = Never then Never else Conditional)"
| "macroNodeConsumption Break_stmt = (\<lambda>x. Never)"
| "macroNodeConsumption Continue_stmt = (\<lambda>x. Never)"
| "macroNodeConsumption (Release_stmt v) = (\<lambda>x. if v = x then Always else Never)"
| "macroNodeConsumption (Defer_stmt c) = (\<lambda>x. Never)"
| "macroNodeConsumption (Select_stmt cs d t tb) = (\<lambda>x. Never)"
| "macroNodeConsumption (Literal l) = (\<lambda>x. Never)"
| "macroNodeConsumption (Identifier v) = (\<lambda>x. Never)"
| "macroNodeConsumption (Generic_func_ref f gs) = (\<lambda>x. Never)"
| "macroNodeConsumption (Go_expr s c) = (\<lambda>x. Never)"
| "macroNodeConsumption (If_expr c lc t eo) = (\<lambda>x.
     sequenceMacroParamConsumption (macroNodeConsumption c x)
       (branchMacroParamConsumption (seqEffects (map macroNodeConsumption t) x)
          (case map_option (map macroNodeConsumption) eo of Some fs \<Rightarrow> seqEffects fs x | None \<Rightarrow> Never)))"
| "macroNodeConsumption (Switch_expr v cs) = branchEffects (map switchCaseConsumption cs)"
| "macroNodeConsumption (Match_expr v cs) = branchEffects (map matchCaseConsumption cs)"
| "macroNodeConsumption (Unsafe_expr b) = seqEffects (map macroNodeConsumption b)"
| "macroNodeConsumption (Await_expr e) = macroNodeConsumption e"
| "macroNodeConsumption (Inline_asm_expr t ops) = (\<lambda>x. Never)"
| "macroNodeConsumption (Binary_expr bop l r) = (\<lambda>x. sequenceMacroParamConsumption (macroNodeConsumption l x) (macroNodeConsumption r x))"
| "macroNodeConsumption (Call_expr f at gs args callee) = seqEffects (map macroNodeConsumption args)"
| "macroNodeConsumption (Closure_literal ps b) = (\<lambda>x. Never)"
| "macroNodeConsumption (Borrow_expr e) = macroNodeConsumption e"
| "macroNodeConsumption (Move_expr e) = (\<lambda>x. if e = Identifier x then Always else macroNodeConsumption e x)"
| "macroNodeConsumption (Deref_expr e) = macroNodeConsumption e"
| "macroNodeConsumption (Cast_expr e t) = macroNodeConsumption e"
| "macroNodeConsumption (Field_expr e f) = macroNodeConsumption e"
| "macroNodeConsumption (Struct_literal t fs u) = (\<lambda>x.
     seqEffectsFrom (case map_option macroNodeConsumption u of Some f \<Rightarrow> f x | None \<Rightarrow> Never)
       (map structFieldConsumption fs) x)"
| "macroNodeConsumption (Enum_literal en vn fs) = seqEffects (map enumFieldConsumption fs)"
| "macroNodeConsumption (Tuple_literal es) = seqEffects (map macroNodeConsumption es)"
| "macroNodeConsumption (Array_literal es) = seqEffects (map macroNodeConsumption es)"
| "macroNodeConsumption (Repeat_array_literal v n) = macroNodeConsumption v"
| "macroNodeConsumption (Index_expr t i) = (\<lambda>x. sequenceMacroParamConsumption (macroNodeConsumption t x) (macroNodeConsumption i x))"
| "macroNodeConsumption (Slice_expr t s e) = (\<lambda>x. sequenceMacroParamConsumption (macroNodeConsumption t x)
     (sequenceMacroParamConsumption (macroNodeConsumption s x) (macroNodeConsumption e x)))"
| "macroNodeConsumption (Try_expr e) = (\<lambda>x. if e = Identifier x then Always else macroNodeConsumption e x)"
| "switchCaseConsumption (Switch_case p b) = seqEffects (map macroNodeConsumption b)"
| "matchCaseConsumption (Match_case p g b) = seqEffects (map macroNodeConsumption b)"
| "structFieldConsumption (Struct_literal_field n v) = macroNodeConsumption v"
| "enumFieldConsumption (Enum_literal_field n v) = macroNodeConsumption v"

definition macroParamConsumption :: "node list \<Rightarrow> effect" where
  "macroParamConsumption body = seqEffects (map macroNodeConsumption body)"

definition macroParamConsumesValue :: "node list \<Rightarrow> string \<Rightarrow> bool" where
  "macroParamConsumesValue body x \<longleftrightarrow> macroParamConsumption body x \<noteq> Never"

text \<open>Does a macro body propagate errors, and is a parameter the operand of a \<open>?\<close>.\<close>

primrec macroNodeHasTry :: "node \<Rightarrow> bool"
where
  "macroNodeHasTry (Program ds) = False"
| "macroNodeHasTry (Struct_decl d) = False"
| "macroNodeHasTry (Enum_decl d) = False"
| "macroNodeHasTry (Trait_decl d) = False"
| "macroNodeHasTry (Impl_decl t u ms) = False"
| "macroNodeHasTry (Type_alias_decl d) = False"
| "macroNodeHasTry (Overload_decl t ms) = False"
| "macroNodeHasTry (Func_decl d b) = False"
| "macroNodeHasTry (Macro_decl d b) = False"
| "macroNodeHasTry (Import_decl p) = False"
| "macroNodeHasTry (Using_decl p) = False"
| "macroNodeHasTry (Test_decl d b) = False"
| "macroNodeHasTry (Sublanguage_decl d) = False"
| "macroNodeHasTry (Sublanguage_registration k) = False"
| "macroNodeHasTry (Check_hook_decl k) = False"
| "macroNodeHasTry (Let_stmt v t e) = macroNodeHasTry e"
| "macroNodeHasTry (Let_else_stmt p e b) = False"
| "macroNodeHasTry (Let_destructure_stmt d e) = False"
| "macroNodeHasTry (Const_stmt v t e) = False"
| "macroNodeHasTry (Var_stmt v t) = False"
| "macroNodeHasTry (Assign_stmt t v) = macroNodeHasTry v"
| "macroNodeHasTry (Block_stmt b) = list_ex id (map macroNodeHasTry b)"
| "macroNodeHasTry (Arena_stmt b) = False"
| "macroNodeHasTry (Expr_stmt e) = macroNodeHasTry e"
| "macroNodeHasTry (Return_stmt vo) = (case map_option macroNodeHasTry vo of Some h \<Rightarrow> h | None \<Rightarrow> False)"
| "macroNodeHasTry (For_stmt v s eo b) = list_ex id (map macroNodeHasTry b)"
| "macroNodeHasTry (While_stmt c p b) = list_ex id (map macroNodeHasTry b)"
| "macroNodeHasTry Break_stmt = False"
| "macroNodeHasTry Continue_stmt = False"
| "macroNodeHasTry (Release_stmt v) = False"
| "macroNodeHasTry (Defer_stmt c) = False"
| "macroNodeHasTry (Select_stmt cs d t tb) = False"
| "macroNodeHasTry (Literal l) = False"
| "macroNodeHasTry (Identifier v) = False"
| "macroNodeHasTry (Generic_func_ref f gs) = False"
| "macroNodeHasTry (Go_expr s c) = False"
| "macroNodeHasTry (If_expr c lc t eo) = 
     (macroNodeHasTry c \<or> list_ex id (map macroNodeHasTry t) \<or>
      (case map_option (map macroNodeHasTry) eo of Some hs \<Rightarrow> list_ex id hs | None \<Rightarrow> False))"
| "macroNodeHasTry (Switch_expr v cs) = False"
| "macroNodeHasTry (Match_expr v cs) = False"
| "macroNodeHasTry (Unsafe_expr b) = list_ex id (map macroNodeHasTry b)"
| "macroNodeHasTry (Await_expr e) = False"
| "macroNodeHasTry (Inline_asm_expr t ops) = False"
| "macroNodeHasTry (Binary_expr bop l r) = False"
| "macroNodeHasTry (Call_expr f at gs args callee) = False"
| "macroNodeHasTry (Closure_literal ps b) = False"
| "macroNodeHasTry (Borrow_expr e) = False"
| "macroNodeHasTry (Move_expr e) = False"
| "macroNodeHasTry (Deref_expr e) = False"
| "macroNodeHasTry (Cast_expr e t) = False"
| "macroNodeHasTry (Field_expr e f) = False"
| "macroNodeHasTry (Struct_literal t fs u) = False"
| "macroNodeHasTry (Enum_literal en vn fs) = False"
| "macroNodeHasTry (Tuple_literal es) = False"
| "macroNodeHasTry (Array_literal es) = False"
| "macroNodeHasTry (Repeat_array_literal v n) = False"
| "macroNodeHasTry (Index_expr t i) = False"
| "macroNodeHasTry (Slice_expr t s e) = False"
| "macroNodeHasTry (Try_expr e) = True"

definition macroBodyHasTry :: "node list \<Rightarrow> bool" where
  "macroBodyHasTry body = list_ex macroNodeHasTry body"

primrec macroNodeHasTrySource :: "node \<Rightarrow> string \<Rightarrow> bool"
where
  "macroNodeHasTrySource (Program ds) = (\<lambda>x. False)"
| "macroNodeHasTrySource (Struct_decl d) = (\<lambda>x. False)"
| "macroNodeHasTrySource (Enum_decl d) = (\<lambda>x. False)"
| "macroNodeHasTrySource (Trait_decl d) = (\<lambda>x. False)"
| "macroNodeHasTrySource (Impl_decl t u ms) = (\<lambda>x. False)"
| "macroNodeHasTrySource (Type_alias_decl d) = (\<lambda>x. False)"
| "macroNodeHasTrySource (Overload_decl t ms) = (\<lambda>x. False)"
| "macroNodeHasTrySource (Func_decl d b) = (\<lambda>x. False)"
| "macroNodeHasTrySource (Macro_decl d b) = (\<lambda>x. False)"
| "macroNodeHasTrySource (Import_decl p) = (\<lambda>x. False)"
| "macroNodeHasTrySource (Using_decl p) = (\<lambda>x. False)"
| "macroNodeHasTrySource (Test_decl d b) = (\<lambda>x. False)"
| "macroNodeHasTrySource (Sublanguage_decl d) = (\<lambda>x. False)"
| "macroNodeHasTrySource (Sublanguage_registration k) = (\<lambda>x. False)"
| "macroNodeHasTrySource (Check_hook_decl k) = (\<lambda>x. False)"
| "macroNodeHasTrySource (Let_stmt v t e) = macroNodeHasTrySource e"
| "macroNodeHasTrySource (Let_else_stmt p e b) = (\<lambda>x. False)"
| "macroNodeHasTrySource (Let_destructure_stmt d e) = (\<lambda>x. False)"
| "macroNodeHasTrySource (Const_stmt v t e) = (\<lambda>x. False)"
| "macroNodeHasTrySource (Var_stmt v t) = (\<lambda>x. False)"
| "macroNodeHasTrySource (Assign_stmt t v) = macroNodeHasTrySource v"
| "macroNodeHasTrySource (Block_stmt b) = (\<lambda>x. list_ex (\<lambda>h. h x) (map macroNodeHasTrySource b))"
| "macroNodeHasTrySource (Arena_stmt b) = (\<lambda>x. False)"
| "macroNodeHasTrySource (Expr_stmt e) = macroNodeHasTrySource e"
| "macroNodeHasTrySource (Return_stmt vo) = (\<lambda>x. case map_option macroNodeHasTrySource vo of Some h \<Rightarrow> h x | None \<Rightarrow> False)"
| "macroNodeHasTrySource (For_stmt v s eo b) = (\<lambda>x. list_ex (\<lambda>h. h x) (map macroNodeHasTrySource b))"
| "macroNodeHasTrySource (While_stmt c p b) = (\<lambda>x. list_ex (\<lambda>h. h x) (map macroNodeHasTrySource b))"
| "macroNodeHasTrySource Break_stmt = (\<lambda>x. False)"
| "macroNodeHasTrySource Continue_stmt = (\<lambda>x. False)"
| "macroNodeHasTrySource (Release_stmt v) = (\<lambda>x. False)"
| "macroNodeHasTrySource (Defer_stmt c) = (\<lambda>x. False)"
| "macroNodeHasTrySource (Select_stmt cs d t tb) = (\<lambda>x. False)"
| "macroNodeHasTrySource (Literal l) = (\<lambda>x. False)"
| "macroNodeHasTrySource (Identifier v) = (\<lambda>x. False)"
| "macroNodeHasTrySource (Generic_func_ref f gs) = (\<lambda>x. False)"
| "macroNodeHasTrySource (Go_expr s c) = (\<lambda>x. False)"
| "macroNodeHasTrySource (If_expr c lc t eo) = (\<lambda>x.
     macroNodeHasTrySource c x \<or> list_ex (\<lambda>h. h x) (map macroNodeHasTrySource t) \<or>
     (case map_option (map macroNodeHasTrySource) eo of Some hs \<Rightarrow> list_ex (\<lambda>h. h x) hs | None \<Rightarrow> False))"
| "macroNodeHasTrySource (Switch_expr v cs) = (\<lambda>x. False)"
| "macroNodeHasTrySource (Match_expr v cs) = (\<lambda>x. False)"
| "macroNodeHasTrySource (Unsafe_expr b) = (\<lambda>x. list_ex (\<lambda>h. h x) (map macroNodeHasTrySource b))"
| "macroNodeHasTrySource (Await_expr e) = (\<lambda>x. False)"
| "macroNodeHasTrySource (Inline_asm_expr t ops) = (\<lambda>x. False)"
| "macroNodeHasTrySource (Binary_expr bop l r) = (\<lambda>x. False)"
| "macroNodeHasTrySource (Call_expr f at gs args callee) = (\<lambda>x. False)"
| "macroNodeHasTrySource (Closure_literal ps b) = (\<lambda>x. False)"
| "macroNodeHasTrySource (Borrow_expr e) = (\<lambda>x. False)"
| "macroNodeHasTrySource (Move_expr e) = (\<lambda>x. False)"
| "macroNodeHasTrySource (Deref_expr e) = (\<lambda>x. False)"
| "macroNodeHasTrySource (Cast_expr e t) = (\<lambda>x. False)"
| "macroNodeHasTrySource (Field_expr e f) = (\<lambda>x. False)"
| "macroNodeHasTrySource (Struct_literal t fs u) = (\<lambda>x. False)"
| "macroNodeHasTrySource (Enum_literal en vn fs) = (\<lambda>x. False)"
| "macroNodeHasTrySource (Tuple_literal es) = (\<lambda>x. False)"
| "macroNodeHasTrySource (Array_literal es) = (\<lambda>x. False)"
| "macroNodeHasTrySource (Repeat_array_literal v n) = (\<lambda>x. False)"
| "macroNodeHasTrySource (Index_expr t i) = (\<lambda>x. False)"
| "macroNodeHasTrySource (Slice_expr t s e) = (\<lambda>x. False)"
| "macroNodeHasTrySource (Try_expr e) = (\<lambda>x. e = Identifier x)"

definition macroParamIsTrySource :: "node list \<Rightarrow> string \<Rightarrow> bool" where
  "macroParamIsTrySource body x = list_ex (\<lambda>n. macroNodeHasTrySource n x) body"

section \<open>Path semantics of macro bodies\<close>

text \<open>
  The specification the analysis is measured against.  An outcome of a node is a way of
  leaving it together with whether the parameter has been consumed by then; \<open>outcomes\<close>
  collects the outcomes of every path, following the evaluation order of the language: both
  branches of a condition, any number of iterations of a loop, short-circuit operators, the
  error exit of \<open>?\<close>.  A \<open>match\<close> with cases takes one of them, as no match is a panic in the emitted code.
  A \<open>switch\<close> takes one of its cases, and one without a \<open>default\<close> case may take none: the emitted code
  then goes on behind it (\<open>L_SWITCH_SKIP\<close> in \<open>codegen.zig\<close>).
\<close>

datatype exit_kind = Normal | Breaks | Continues | Returns

type_synonym outs = "(exit_kind \<times> bool) set"

definition done_outs :: outs where
  "done_outs = {(Normal, False)}"

definition then_outs :: "outs \<Rightarrow> outs \<Rightarrow> outs" where
  "then_outs A B =
     {(e, t) | e t. (e, t) \<in> A \<and> e \<noteq> Normal} \<union>
     {(e, t \<or> u) | e t u. (Normal, t) \<in> A \<and> (e, u) \<in> B}"

definition seq_outs :: "outs list \<Rightarrow> outs" where
  "seq_outs Ss = foldl then_outs done_outs Ss"

text \<open>The conditions of an \<open>if let\<close> chain: any of them may fail and leave to the else part.\<close>

fun chain_outs :: "outs list \<Rightarrow> outs \<Rightarrow> outs \<Rightarrow> bool \<Rightarrow> outs" where
  "chain_outs [] T E plain = (if plain then T \<union> E else T)"
| "chain_outs (S # Ss) T E plain = then_outs S (chain_outs Ss T E plain \<union> E)"

text \<open>Match cases are tried in order; a guard is evaluated before its body is chosen.\<close>

fun match_outs :: "(outs option \<times> outs) list \<Rightarrow> outs" where
  "match_outs [] = {}"
| "match_outs ((g, B) # cs) =
     (case g of None \<Rightarrow> B \<union> match_outs cs | Some G \<Rightarrow> then_outs G (B \<union> match_outs cs))"

text \<open>
  A loop with condition outcomes \<open>C\<close> and body outcomes \<open>B\<close>: \<open>before\<close> is what can have been
  consumed by complete earlier iterations; the last one leaves through the condition, a
  \<open>break\<close> or a \<open>return\<close>.
\<close>

definition loop_outs :: "outs \<Rightarrow> outs \<Rightarrow> outs" where
  "loop_outs C B =
     (let I = then_outs C B;
          before = {t. \<not> t \<or> (Normal, True) \<in> I \<or> (Continues, True) \<in> I}
      in {(e, t \<or> u) | e t u. t \<in> before \<and> (e, u) \<in> C \<and> (e = Normal \<or> e = Returns)} \<union>
         {(Normal, t \<or> u) | t u. t \<in> before \<and> (Breaks, u) \<in> I} \<union>
         {(Returns, t \<or> u) | t u. t \<in> before \<and> (Returns, u) \<in> I})"

primrec outcomes :: "node \<Rightarrow> string \<Rightarrow> outs"
and selectCaseOutcomes :: "select_case \<Rightarrow> string \<Rightarrow> outs"
and ifLetOutcomes :: "if_let_cond \<Rightarrow> string \<Rightarrow> outs"
and switchCaseOutcomes :: "switch_case \<Rightarrow> string \<Rightarrow> outs"
and matchCaseOutcomes :: "match_case \<Rightarrow> string \<Rightarrow> outs option \<times> outs"
and structFieldOutcomes :: "struct_literal_field \<Rightarrow> string \<Rightarrow> outs"
and enumFieldOutcomes :: "enum_literal_field \<Rightarrow> string \<Rightarrow> outs"
where
  "outcomes (Program ds) = (\<lambda>x. done_outs)"
| "outcomes (Struct_decl d) = (\<lambda>x. done_outs)"
| "outcomes (Enum_decl d) = (\<lambda>x. done_outs)"
| "outcomes (Trait_decl d) = (\<lambda>x. done_outs)"
| "outcomes (Impl_decl t u ms) = (\<lambda>x. done_outs)"
| "outcomes (Type_alias_decl d) = (\<lambda>x. done_outs)"
| "outcomes (Overload_decl t ms) = (\<lambda>x. done_outs)"
| "outcomes (Func_decl d b) = (\<lambda>x. done_outs)"
| "outcomes (Macro_decl d b) = (\<lambda>x. done_outs)"
| "outcomes (Import_decl p) = (\<lambda>x. done_outs)"
| "outcomes (Using_decl p) = (\<lambda>x. done_outs)"
| "outcomes (Test_decl d b) = (\<lambda>x. done_outs)"
| "outcomes (Sublanguage_decl d) = (\<lambda>x. done_outs)"
| "outcomes (Sublanguage_registration k) = (\<lambda>x. done_outs)"
| "outcomes (Check_hook_decl k) = (\<lambda>x. done_outs)"
| "outcomes (Let_stmt v t e) = outcomes e"
| "outcomes (Let_else_stmt p e b) = (\<lambda>x. then_outs (outcomes e x) (done_outs \<union> seq_outs (map (\<lambda>f. f x) (map outcomes b))))"
| "outcomes (Let_destructure_stmt d e) = outcomes e"
| "outcomes (Const_stmt v t e) = outcomes e"
| "outcomes (Var_stmt v t) = (\<lambda>x. done_outs)"
| "outcomes (Assign_stmt t v) = (\<lambda>x. seq_outs [outcomes t x, outcomes v x])"
| "outcomes (Block_stmt b) = (\<lambda>x. seq_outs (map (\<lambda>f. f x) (map outcomes b)))"
| "outcomes (Arena_stmt b) = (\<lambda>x. seq_outs (map (\<lambda>f. f x) (map outcomes b)))"
| "outcomes (Expr_stmt e) = outcomes e"
| "outcomes (Return_stmt vo) = (\<lambda>x. then_outs (case map_option outcomes vo of Some f \<Rightarrow> f x | None \<Rightarrow> done_outs) {(Returns, False)})"
| "outcomes (For_stmt v s eo b) = (\<lambda>x.
     seq_outs [outcomes s x, (case map_option outcomes eo of Some f \<Rightarrow> f x | None \<Rightarrow> done_outs),
       loop_outs done_outs (seq_outs (map (\<lambda>f. f x) (map outcomes b)))])"
| "outcomes (While_stmt c p b) = (\<lambda>x. loop_outs (outcomes c x) (seq_outs (map (\<lambda>f. f x) (map outcomes b))))"
| "outcomes Break_stmt = (\<lambda>x. {(Breaks, False)})"
| "outcomes Continue_stmt = (\<lambda>x. {(Continues, False)})"
| "outcomes (Release_stmt v) = (\<lambda>x. {(Normal, v = x)})"
| "outcomes (Defer_stmt c) = outcomes c"
| "outcomes (Select_stmt cs d t tb) = (\<lambda>x.
     (\<Union>f\<in>set (map selectCaseOutcomes cs). f x) \<union>
     (case map_option (map outcomes) d of Some fs \<Rightarrow> seq_outs (map (\<lambda>f. f x) fs) | None \<Rightarrow> {}) \<union>
     (case map_option outcomes t of None \<Rightarrow> {}
      | Some f \<Rightarrow> then_outs (f x)
          (case map_option (map outcomes) tb of Some fs \<Rightarrow> seq_outs (map (\<lambda>f. f x) fs)
           | None \<Rightarrow> done_outs)))"
| "outcomes (Literal l) = (\<lambda>x. done_outs)"
| "outcomes (Identifier v) = (\<lambda>x. done_outs)"
| "outcomes (Generic_func_ref f gs) = (\<lambda>x. done_outs)"
| "outcomes (Go_expr s c) = outcomes c"
| "outcomes (If_expr c lc t eo) = (\<lambda>x.
     then_outs (outcomes c x)
       (chain_outs (case map_option (map ifLetOutcomes) lc of Some fs \<Rightarrow> map (\<lambda>f. f x) fs | None \<Rightarrow> [])
          (seq_outs (map (\<lambda>f. f x) (map outcomes t)))
          (case map_option (map outcomes) eo of Some fs \<Rightarrow> seq_outs (map (\<lambda>f. f x) fs)
           | None \<Rightarrow> done_outs)
          (lc = None)))"
| "outcomes (Switch_expr v cs) = (\<lambda>x.
     then_outs (outcomes v x)
       ((\<Union>f\<in>set (map switchCaseOutcomes cs). f x) \<union> (if switch_has_default cs then {} else done_outs)))"
| "outcomes (Match_expr v cs) = (\<lambda>x.
     then_outs (outcomes v x)
       (if cs = [] then done_outs else match_outs (map (\<lambda>f. f x) (map matchCaseOutcomes cs))))"
| "outcomes (Unsafe_expr b) = (\<lambda>x. seq_outs (map (\<lambda>f. f x) (map outcomes b)))"
| "outcomes (Await_expr e) = outcomes e"
| "outcomes (Inline_asm_expr t ops) = (\<lambda>x. done_outs)"
| "outcomes (Binary_expr bop l r) = (\<lambda>x.
     then_outs (outcomes l x)
       (if bop = Bop_logical_and \<or> bop = Bop_logical_or then done_outs \<union> outcomes r x else outcomes r x))"
| "outcomes (Call_expr f at gs args callee) = (\<lambda>x.
     then_outs (case map_option outcomes callee of Some f \<Rightarrow> f x | None \<Rightarrow> done_outs) (seq_outs (map (\<lambda>f. f x) (map outcomes args))))"
| "outcomes (Closure_literal ps b) = (\<lambda>x. done_outs)"
| "outcomes (Borrow_expr e) = outcomes e"
| "outcomes (Move_expr e) = (\<lambda>x. if e = Identifier x then {(Normal, True)} else outcomes e x)"
| "outcomes (Deref_expr e) = outcomes e"
| "outcomes (Cast_expr e t) = outcomes e"
| "outcomes (Field_expr e f) = outcomes e"
| "outcomes (Struct_literal t fs u) = (\<lambda>x.
     then_outs (case map_option outcomes u of Some f \<Rightarrow> f x | None \<Rightarrow> done_outs) (seq_outs (map (\<lambda>f. f x) (map structFieldOutcomes fs))))"
| "outcomes (Enum_literal en vn fs) = (\<lambda>x. seq_outs (map (\<lambda>f. f x) (map enumFieldOutcomes fs)))"
| "outcomes (Tuple_literal es) = (\<lambda>x. seq_outs (map (\<lambda>f. f x) (map outcomes es)))"
| "outcomes (Array_literal es) = (\<lambda>x. seq_outs (map (\<lambda>f. f x) (map outcomes es)))"
| "outcomes (Repeat_array_literal v n) = outcomes v"
| "outcomes (Index_expr t i) = (\<lambda>x. seq_outs [outcomes t x, outcomes i x])"
| "outcomes (Slice_expr t s e) = (\<lambda>x. seq_outs [outcomes t x, outcomes s x, outcomes e x])"
| "outcomes (Try_expr e) = (\<lambda>x.
     if e = Identifier x then {(Normal, True), (Returns, True)}
     else outcomes e x \<union> {(Returns, t) | t. (Normal, t) \<in> outcomes e x})"
| "selectCaseOutcomes (Select_case k c bn bc b) = (\<lambda>x. then_outs (outcomes c x) (seq_outs (map (\<lambda>f. f x) (map outcomes b))))"
| "ifLetOutcomes (If_let_cond p v) = outcomes v"
| "switchCaseOutcomes (Switch_case p b) = (\<lambda>x. seq_outs (map (\<lambda>f. f x) (map outcomes b)))"
| "matchCaseOutcomes (Match_case p g b) = (\<lambda>x. (case map_option outcomes g of Some f \<Rightarrow> Some (f x) | None \<Rightarrow> None, seq_outs (map (\<lambda>f. f x) (map outcomes b))))"
| "structFieldOutcomes (Struct_literal_field n v) = outcomes v"
| "enumFieldOutcomes (Enum_literal_field n v) = outcomes v"

definition body_outcomes :: "node list \<Rightarrow> string \<Rightarrow> outs" where
  "body_outcomes body x = seq_outs (map (\<lambda>n. outcomes n x) body)"

text \<open>No path consumes the parameter.\<close>

definition keeps :: "outs \<Rightarrow> bool" where
  "keeps S \<longleftrightarrow> (\<forall>(e, t)\<in>S. \<not> t)"

text \<open>
  The nodes the analysis is right about: the subterms it does not look at (the scrutinee of
  a \<open>switch\<close> or \<open>match\<close>, a loop condition, loop bounds, an assignment target, guards, an
  immediately invoked callee, the statements outside its list) do not consume the parameter,
  neither does the operand a short-circuit operator may skip, and a \<open>switch\<close> whose cases all
  consume it has a \<open>default\<close> case.
\<close>

primrec analysable :: "node \<Rightarrow> string \<Rightarrow> bool"
and switchCaseAnalysable :: "switch_case \<Rightarrow> string \<Rightarrow> bool"
and matchCaseAnalysable :: "match_case \<Rightarrow> string \<Rightarrow> bool"
and structFieldAnalysable :: "struct_literal_field \<Rightarrow> string \<Rightarrow> bool"
and enumFieldAnalysable :: "enum_literal_field \<Rightarrow> string \<Rightarrow> bool"
where
  "analysable (Program ds) = (\<lambda>x. True)"
| "analysable (Struct_decl d) = (\<lambda>x. True)"
| "analysable (Enum_decl d) = (\<lambda>x. True)"
| "analysable (Trait_decl d) = (\<lambda>x. True)"
| "analysable (Impl_decl t u ms) = (\<lambda>x. True)"
| "analysable (Type_alias_decl d) = (\<lambda>x. True)"
| "analysable (Overload_decl t ms) = (\<lambda>x. True)"
| "analysable (Func_decl d b) = (\<lambda>x. True)"
| "analysable (Macro_decl d b) = (\<lambda>x. True)"
| "analysable (Import_decl p) = (\<lambda>x. True)"
| "analysable (Using_decl p) = (\<lambda>x. True)"
| "analysable (Test_decl d b) = (\<lambda>x. True)"
| "analysable (Sublanguage_decl d) = (\<lambda>x. True)"
| "analysable (Sublanguage_registration k) = (\<lambda>x. True)"
| "analysable (Check_hook_decl k) = (\<lambda>x. True)"
| "analysable (Let_stmt v t e) = analysable e"
| "analysable (Let_else_stmt p e b) = (\<lambda>x. keeps (outcomes (Let_else_stmt p e b) x))"
| "analysable (Let_destructure_stmt d e) = (\<lambda>x. keeps (outcomes (Let_destructure_stmt d e) x))"
| "analysable (Const_stmt v t e) = (\<lambda>x. keeps (outcomes (Const_stmt v t e) x))"
| "analysable (Var_stmt v t) = (\<lambda>x. True)"
| "analysable (Assign_stmt t v) = (\<lambda>x. keeps (outcomes t x) \<and> analysable v x)"
| "analysable (Block_stmt b) = (\<lambda>x. list_all (\<lambda>f. f x) (map analysable b))"
| "analysable (Arena_stmt b) = (\<lambda>x. keeps (outcomes (Arena_stmt b) x))"
| "analysable (Expr_stmt e) = analysable e"
| "analysable (Return_stmt vo) = (\<lambda>x. case map_option analysable vo of Some f \<Rightarrow> f x | None \<Rightarrow> True)"
| "analysable (For_stmt v s eo b) = (\<lambda>x.
     keeps (outcomes s x) \<and> (case eo of Some e \<Rightarrow> keeps (outcomes e x) | None \<Rightarrow> True) \<and> list_all (\<lambda>f. f x) (map analysable b))"
| "analysable (While_stmt c p b) = (\<lambda>x. keeps (outcomes c x) \<and> list_all (\<lambda>f. f x) (map analysable b))"
| "analysable Break_stmt = (\<lambda>x. keeps (outcomes Break_stmt x))"
| "analysable Continue_stmt = (\<lambda>x. keeps (outcomes Continue_stmt x))"
| "analysable (Release_stmt v) = (\<lambda>x. True)"
| "analysable (Defer_stmt c) = (\<lambda>x. keeps (outcomes (Defer_stmt c) x))"
| "analysable (Select_stmt cs d t tb) = (\<lambda>x. keeps (outcomes (Select_stmt cs d t tb) x))"
| "analysable (Literal l) = (\<lambda>x. True)"
| "analysable (Identifier v) = (\<lambda>x. True)"
| "analysable (Generic_func_ref f gs) = (\<lambda>x. True)"
| "analysable (Go_expr s c) = (\<lambda>x. keeps (outcomes (Go_expr s c) x))"
| "analysable (If_expr c lc t eo) = (\<lambda>x.
     analysable c x \<and>
     (case lc of Some cs \<Rightarrow> \<forall>d\<in>set cs. keeps (ifLetOutcomes d x) | None \<Rightarrow> True) \<and>
     list_all (\<lambda>f. f x) (map analysable t) \<and>
     (case map_option (map analysable) eo of Some fs \<Rightarrow> list_all (\<lambda>f. f x) fs | None \<Rightarrow> True))"
| "analysable (Switch_expr v cs) = (\<lambda>x. keeps (outcomes v x) \<and> list_all (\<lambda>f. f x) (map switchCaseAnalysable cs) \<and>
     (switch_has_default cs \<or> branchEffects (map switchCaseConsumption cs) x \<noteq> Always))"
| "analysable (Match_expr v cs) = (\<lambda>x. keeps (outcomes v x) \<and> list_all (\<lambda>f. f x) (map matchCaseAnalysable cs))"
| "analysable (Unsafe_expr b) = (\<lambda>x. list_all (\<lambda>f. f x) (map analysable b))"
| "analysable (Await_expr e) = analysable e"
| "analysable (Inline_asm_expr t ops) = (\<lambda>x. True)"
| "analysable (Binary_expr bop l r) = (\<lambda>x.
     analysable l x \<and>
     (if bop = Bop_logical_and \<or> bop = Bop_logical_or
      then keeps (outcomes r x) \<and> macroNodeConsumption r x = Never else analysable r x))"
| "analysable (Call_expr f at gs args callee) = (\<lambda>x.
     (case callee of Some e \<Rightarrow> keeps (outcomes e x) | None \<Rightarrow> True) \<and> list_all (\<lambda>f. f x) (map analysable args))"
| "analysable (Closure_literal ps b) = (\<lambda>x. True)"
| "analysable (Borrow_expr e) = analysable e"
| "analysable (Move_expr e) = (\<lambda>x. e = Identifier x \<or> analysable e x)"
| "analysable (Deref_expr e) = analysable e"
| "analysable (Cast_expr e t) = analysable e"
| "analysable (Field_expr e f) = analysable e"
| "analysable (Struct_literal t fs u) = (\<lambda>x.
     (case map_option analysable u of Some f \<Rightarrow> f x | None \<Rightarrow> True) \<and>
     list_all (\<lambda>f. f x) (map structFieldAnalysable fs))"
| "analysable (Enum_literal en vn fs) = (\<lambda>x. list_all (\<lambda>f. f x) (map enumFieldAnalysable fs))"
| "analysable (Tuple_literal es) = (\<lambda>x. list_all (\<lambda>f. f x) (map analysable es))"
| "analysable (Array_literal es) = (\<lambda>x. list_all (\<lambda>f. f x) (map analysable es))"
| "analysable (Repeat_array_literal v n) = analysable v"
| "analysable (Index_expr t i) = (\<lambda>x. analysable t x \<and> analysable i x)"
| "analysable (Slice_expr t s e) = (\<lambda>x. analysable t x \<and> analysable s x \<and> analysable e x)"
| "analysable (Try_expr e) = (\<lambda>x. e = Identifier x \<or> analysable e x)"
| "switchCaseAnalysable (Switch_case p b) = (\<lambda>x. list_all (\<lambda>f. f x) (map analysable b))"
| "matchCaseAnalysable (Match_case p g b) = (\<lambda>x. (case g of Some e \<Rightarrow> keeps (outcomes e x) | None \<Rightarrow> True) \<and> list_all (\<lambda>f. f x) (map analysable b))"
| "structFieldAnalysable (Struct_literal_field n v) = analysable v"
| "enumFieldAnalysable (Enum_literal_field n v) = analysable v"

section \<open>Soundness of the analysis\<close>

text \<open>What a result of the analysis promises about the outcomes.\<close>

definition sound :: "macro_param_consumption \<Rightarrow> outs \<Rightarrow> bool" where
  "sound c S \<longleftrightarrow>
     (c = Never \<longrightarrow> keeps S) \<and> (c = Always \<longrightarrow> (\<forall>(e, t)\<in>S. e = Normal \<longrightarrow> t))"

named_theorems sound_intro \<open>composition of sound analysis results\<close>

lemma keeps_iff: "keeps S \<longleftrightarrow> (\<forall>e. (e, True) \<notin> S)"
  unfolding keeps_def by (auto; metis (full_types))

lemma sound_always: "sound Always S \<longleftrightarrow> (Normal, False) \<notin> S"
  unfolding sound_def by (auto; metis (full_types))

lemma sound_never [simp]: "sound Never S = keeps S"
  by (simp add: sound_def)

lemma sound_conditional [simp]: "sound Conditional S"
  by (simp add: sound_def)

lemma then_outs_True:
  "(e, True) \<in> then_outs A B \<longleftrightarrow>
     e \<noteq> Normal \<and> (e, True) \<in> A \<or> (Normal, True) \<in> A \<and> ((e, True) \<in> B \<or> (e, False) \<in> B) \<or>
     (Normal, False) \<in> A \<and> (e, True) \<in> B"
  unfolding then_outs_def by (simp add: ex_bool_eq) blast

lemma then_outs_False:
  "(e, False) \<in> then_outs A B \<longleftrightarrow>
     e \<noteq> Normal \<and> (e, False) \<in> A \<or> (Normal, False) \<in> A \<and> (e, False) \<in> B"
  unfolding then_outs_def by auto

lemma keeps_done [simp]: "keeps done_outs"
  by (simp add: keeps_def done_outs_def)

lemma keeps_then [simp]: "keeps A \<Longrightarrow> keeps B \<Longrightarrow> keeps (then_outs A B)"
  by (simp add: keeps_iff then_outs_True)

lemma keeps_Un [simp]: "keeps (A \<union> B) \<longleftrightarrow> keeps A \<and> keeps B"
  by (auto simp: keeps_iff)

lemma sound_then [sound_intro]:
  "sound a A \<Longrightarrow> sound b B \<Longrightarrow> sound (sequenceMacroParamConsumption a b) (then_outs A B)"
  by (cases a; cases b) (simp_all add: sound_always then_outs_False)

lemma sound_branch [sound_intro]:
  "sound a A \<Longrightarrow> sound b B \<Longrightarrow> sound (branchMacroParamConsumption a b) (A \<union> B)"
  by (cases a; cases b) (simp_all add: sound_always)

lemma sound_keeps_then [sound_intro]: "keeps Z \<Longrightarrow> sound a A \<Longrightarrow> sound a (then_outs Z A)"
  by (cases a) (simp_all add: sound_always then_outs_False)

lemma sound_then_keeps [sound_intro]: "sound a A \<Longrightarrow> keeps Z \<Longrightarrow> sound a (then_outs A Z)"
  by (cases a) (simp_all add: sound_always then_outs_False)

lemma keeps_loop [simp]:
  assumes "keeps C" and "keeps B"
  shows "keeps (loop_outs C B)"
proof -
  have I: "(e, True) \<notin> then_outs C B" for e
    using keeps_then [OF assms] by (simp add: keeps_iff)
  with assms(1) show ?thesis
    by (auto simp: loop_outs_def Let_def keeps_iff)
qed

lemma then_outs_assoc: "then_outs (then_outs P Q) R = then_outs P (then_outs Q R)"
proof (rule set_eqI, clarify)
  fix e t
  show "(e, t) \<in> then_outs (then_outs P Q) R \<longleftrightarrow> (e, t) \<in> then_outs P (then_outs Q R)"
    by (cases "e = Normal"; cases t; simp add: then_outs_True then_outs_False; blast)
qed

lemma then_outs_done [simp]: "then_outs P done_outs = P"
  unfolding then_outs_def done_outs_def by auto

lemma sound_foldl_seq:
  "sound acc A \<Longrightarrow> list_all2 (\<lambda>f S. sound (f x) S) fs Ss \<Longrightarrow>
   sound (seqEffectsFrom acc fs x) (foldl then_outs A Ss)"
proof (induction fs arbitrary: acc A Ss)
  case Nil
  then show ?case by (simp add: seqEffectsFrom_def)
next
  case (Cons f fs)
  then obtain S Ts where Ss: "Ss = S # Ts" "sound (f x) S" "list_all2 (\<lambda>f S. sound (f x) S) fs Ts"
    by (auto simp: list_all2_Cons1)
  from Cons.IH [OF sound_then [OF Cons.prems(1) Ss(2)] Ss(3)] show ?case
    by (simp add: seqEffectsFrom_def Ss(1))
qed

lemma sound_seq_nodes [sound_intro]:
  "(\<And>n. n \<in> set ns \<Longrightarrow> sound (f n x) (g n x)) \<Longrightarrow>
   sound (seqEffects (map f ns) x) (seq_outs (map (\<lambda>h. h x) (map g ns)))"
  unfolding seq_outs_def
  by (rule sound_foldl_seq) (auto simp: list.rel_map list_all2_same)

lemma sound_seq_from [sound_intro]:
  "sound acc A \<Longrightarrow> (\<And>n. n \<in> set ns \<Longrightarrow> sound (f n x) (g n x)) \<Longrightarrow>
   sound (seqEffectsFrom acc (map f ns) x)
     (then_outs A (seq_outs (map (\<lambda>h. h x) (map g ns))))"
proof -
  assume a: "sound acc A" and n: "\<And>n. n \<in> set ns \<Longrightarrow> sound (f n x) (g n x)"
  have "foldl then_outs A Ss = then_outs A (seq_outs Ss)" for Ss
  proof -
    have "foldl then_outs (then_outs A B) Ss = then_outs A (foldl then_outs B Ss)" for B
      by (induction Ss arbitrary: B) (simp_all add: then_outs_assoc)
    from this [of done_outs] show ?thesis by (simp add: seq_outs_def)
  qed
  moreover have "sound (seqEffectsFrom acc (map f ns) x)
      (foldl then_outs A (map (\<lambda>h. h x) (map g ns)))"
    by (rule sound_foldl_seq) (use a n in \<open>auto simp: list.rel_map list_all2_same\<close>)
  ultimately show ?thesis by simp
qed

lemma sound_foldl_branch:
  "foldl (\<lambda>eff g. branchMacroParamConsumption eff (g x)) a fs = Never \<longleftrightarrow>
     a = Never \<and> (\<forall>f\<in>set fs. f x = Never)"
  "foldl (\<lambda>eff g. branchMacroParamConsumption eff (g x)) a fs = Always \<longleftrightarrow>
     a = Always \<and> (\<forall>f\<in>set fs. f x = Always)"
  by (induction fs arbitrary: a) auto

lemma branchEffects_iff:
  assumes "fs \<noteq> []"
  shows "branchEffects fs x = Never \<longleftrightarrow> (\<forall>f\<in>set fs. f x = Never)"
    and "branchEffects fs x = Always \<longleftrightarrow> (\<forall>f\<in>set fs. f x = Always)"
proof -
  obtain g gs where "fs = g # gs" using assms by (cases fs) auto
  then show "branchEffects fs x = Never \<longleftrightarrow> (\<forall>f\<in>set fs. f x = Never)"
    and "branchEffects fs x = Always \<longleftrightarrow> (\<forall>f\<in>set fs. f x = Always)"
    by (simp_all only: branchEffects.simps sound_foldl_branch list.set ball_simps)
qed

text \<open>A set of outcomes each of which a sound branch explains is soundly described.\<close>

lemma sound_branchEffects:
  assumes "fs \<noteq> []"
    and "\<And>e t. (e, t) \<in> S \<Longrightarrow> (\<exists>f\<in>set fs. \<exists>B. sound (f x) B \<and> (e, t) \<in> B) \<or> e \<noteq> Normal \<and> \<not> t"
  shows "sound (branchEffects fs x) S"
  unfolding sound_def branchEffects_iff [OF assms(1)]
proof (intro conjI impI)
  assume never: "\<forall>f\<in>set fs. f x = Never"
  show "keeps S"
    unfolding keeps_def
  proof (clarify, rename_tac e t)
    fix e t assume "(e, t) \<in> S" and "t"
    with assms(2) obtain f B where "f \<in> set fs" "sound (f x) B" "(e, t) \<in> B" by blast
    moreover from this never have "keeps B" by (simp add: sound_def)
    ultimately show False using \<open>t\<close> by (auto simp: keeps_def)
  qed
next
  assume always: "\<forall>f\<in>set fs. f x = Always"
  show "\<forall>(e, t)\<in>S. e = Normal \<longrightarrow> t"
  proof clarify
    fix e t assume "(Normal, t) \<in> S"
    with assms(2) obtain f B where "f \<in> set fs" "sound (f x) B" "(Normal, t) \<in> B" by blast
    with always show t by (auto simp: sound_def)
  qed
qed

lemma match_outs_elem:
  "(e, t) \<in> match_outs cs \<Longrightarrow> \<forall>c\<in>set cs. case fst c of Some G \<Rightarrow> keeps G | None \<Rightarrow> True \<Longrightarrow>
   (\<exists>c\<in>set cs. (e, t) \<in> snd c) \<or> e \<noteq> Normal \<and> \<not> t"
proof (induction cs arbitrary: e t)
  case (Cons c cs)
  obtain g B where c: "c = (g, B)" by (cases c)
  show ?case
  proof (cases g)
    case None
    with Cons c show ?thesis by fastforce
  next
    case (Some G)
    with Cons.prems c have "keeps G" by simp
    moreover from Some c Cons.prems(1) have "(e, t) \<in> then_outs G (B \<union> match_outs cs)" by simp
    ultimately have "(e \<noteq> Normal \<and> \<not> t) \<or> (e, t) \<in> B \<union> match_outs cs"
      by (cases t) (auto simp: then_outs_True then_outs_False keeps_iff)
    with Cons c show ?thesis by fastforce
  qed
qed simp

lemma keeps_chain:
  "keeps T \<Longrightarrow> keeps E \<Longrightarrow> \<forall>S\<in>set Ss. keeps S \<Longrightarrow> keeps (chain_outs Ss T E plain)"
  by (induction Ss) auto

lemma sound_chain [sound_intro]:
  "sound a T \<Longrightarrow> sound b E \<Longrightarrow> \<forall>S\<in>set Ss. keeps S \<Longrightarrow>
   sound (branchMacroParamConsumption a b) (chain_outs Ss T E plain)"
proof (induction Ss)
  case Nil
  then show ?case by (cases a; cases b) (auto simp: sound_always keeps_iff)
next
  case (Cons S Ss)
  then have "sound (branchMacroParamConsumption a b) (chain_outs Ss T E plain)" by simp
  with Cons.prems(2)
  have "sound (branchMacroParamConsumption a b) (chain_outs Ss T E plain \<union> E)"
    by (cases a; cases b) (auto simp: sound_always keeps_iff)
  with Cons.prems(3) show ?case by (auto intro: sound_keeps_then)
qed

lemma sound_loop [sound_intro]:
  "keeps C \<Longrightarrow> sound b B \<Longrightarrow> sound (if b = Never then Never else Conditional) (loop_outs C B)"
  by (cases b) simp_all

lemma sound_try [sound_intro]:
  "sound a A \<Longrightarrow> sound a (A \<union> {(Returns, t) | t. (Normal, t) \<in> A})"
  by (cases a) (auto simp: sound_always keeps_iff)

lemma sound_short [sound_intro]:
  "sound a A \<Longrightarrow> keeps B \<Longrightarrow> sound (sequenceMacroParamConsumption a Never) (then_outs A (done_outs \<union> B))"
  using sound_then [of a A Never "done_outs \<union> B"] by simp

lemma keeps_seq [simp]:
  "\<forall>S\<in>set Ss. keeps S \<Longrightarrow> keeps (seq_outs Ss)"
proof -
  assume "\<forall>S\<in>set Ss. keeps S"
  then have "keeps A \<Longrightarrow> keeps (foldl then_outs A Ss)" for A
    by (induction Ss arbitrary: A) auto
  then show ?thesis by (simp add: seq_outs_def)
qed

declare sequenceMacroParamConsumption.simps [simp del] branchMacroParamConsumption.simps [simp del]

lemma list_all_apply_map: "list_all (\<lambda>f. f x) (map g ns) \<longleftrightarrow> (\<forall>n\<in>set ns. g n x)"
  by (simp add: list_all_iff)

lemma map_apply_map: "map (\<lambda>f. f x) (map g ns) = map (\<lambda>n. g n x) ns"
  by simp

lemma keeps_option:
  "(case vo of Some e \<Rightarrow> keeps (outcomes e x) | None \<Rightarrow> True) \<Longrightarrow>
   keeps (case map_option outcomes vo of Some f \<Rightarrow> f x | None \<Rightarrow> done_outs)"
  by (cases vo) simp_all

lemma sound_option [sound_intro]:
  "(\<And>e. vo = Some e \<Longrightarrow> sound (f e x) (g e x)) \<Longrightarrow>
   sound (case map_option f vo of Some h \<Rightarrow> h x | None \<Rightarrow> Never)
         (case map_option g vo of Some h \<Rightarrow> h x | None \<Rightarrow> done_outs)"
  by (cases vo) simp_all

lemma sound_option_seq [sound_intro]:
  "(\<And>e n. vo = Some e \<Longrightarrow> n \<in> set e \<Longrightarrow> sound (f n x) (g n x)) \<Longrightarrow>
   sound (case map_option (map f) vo of Some hs \<Rightarrow> seqEffects hs x | None \<Rightarrow> Never)
         (case map_option (map g) vo of Some hs \<Rightarrow> seq_outs (map (\<lambda>h. h x) hs)
          | None \<Rightarrow> done_outs)"
  by (cases vo) (auto intro!: sound_intro simp del: map_map)

text \<open>The cases of a \<open>switch\<close> and of a \<open>match\<close>.\<close>

lemma sound_switch [sound_intro]:
  assumes "keeps Z" and "\<And>c. c \<in> set cs \<Longrightarrow> sound (f c x) (g c x)"
    and "d \<or> branchEffects (map f cs) x \<noteq> Always"
  shows "sound (branchEffects (map f cs) x)
    (then_outs Z ((\<Union>h\<in>set (map g cs). h x) \<union> (if d then {} else done_outs)))"
proof (rule sound_keeps_then [OF assms(1)])
  have "sound (branchEffects (map f cs) x) (\<Union>h\<in>set (map g cs). h x)"
    by (cases "cs = []") (use assms(2) in \<open>auto simp: keeps_iff intro!: sound_branchEffects\<close>)
  with assms(3) show "sound (branchEffects (map f cs) x) ((\<Union>h\<in>set (map g cs). h x) \<union> (if d then {} else done_outs))"
    by (cases "branchEffects (map f cs) x") (auto simp: keeps_iff done_outs_def)
qed

lemma sound_match [sound_intro]:
  assumes "keeps Z"
    and "\<And>c. c \<in> set cs \<Longrightarrow> sound (f c x) (snd (g c x))"
    and "\<And>c G. c \<in> set cs \<Longrightarrow> fst (g c x) = Some G \<Longrightarrow> keeps G"
  shows "sound (branchEffects (map f cs) x)
    (then_outs Z (if cs = [] then done_outs else match_outs (map (\<lambda>h. h x) (map g cs))))"
proof (cases "cs = []")
  case True
  with assms(1) show ?thesis by simp
next
  case False
  have "sound (branchEffects (map f cs) x) (match_outs (map (\<lambda>h. h x) (map g cs)))"
  proof (rule sound_branchEffects)
    fix e t
    assume "(e, t) \<in> match_outs (map (\<lambda>h. h x) (map g cs))"
    then have "(\<exists>c\<in>set (map (\<lambda>h. h x) (map g cs)). (e, t) \<in> snd c) \<or> e \<noteq> Normal \<and> \<not> t"
      by (rule match_outs_elem) (use assms(3) in \<open>auto split: option.split\<close>)
    then consider c where "c \<in> set cs" "(e, t) \<in> snd (g c x)" | "e \<noteq> Normal \<and> \<not> t"
      by auto
    then show "(\<exists>h\<in>set (map f cs). \<exists>B. sound (h x) B \<and> (e, t) \<in> B) \<or> e \<noteq> Normal \<and> \<not> t"
      using assms(2) by cases (auto intro!: exI)
  qed (use False in simp)
  with False assms(1) show ?thesis by (simp add: sound_keeps_then)
qed

lemma sound_return [sound_intro]:
  "sound a A \<Longrightarrow> sound a (then_outs A {(Returns, False)})"
  by (cases a) (simp_all add: sound_always then_outs_False keeps_iff then_outs_True)

lemma then_done [simp]: "then_outs done_outs A = A"
  unfolding then_outs_def done_outs_def by auto

lemma seq_outs_simps:
  "seq_outs [] = done_outs"
  "seq_outs (S # Ss) = then_outs S (seq_outs Ss)"
proof -
  have "foldl then_outs (then_outs A B) Ss = then_outs A (foldl then_outs B Ss)" for A B
    by (induction Ss arbitrary: B) (simp_all add: then_outs_assoc)
  from this [of S done_outs] show "seq_outs (S # Ss) = then_outs S (seq_outs Ss)"
    by (simp add: seq_outs_def)
qed (simp add: seq_outs_def)

abbreviation body_outs :: "node list \<Rightarrow> string \<Rightarrow> outs" where
  "body_outs b x \<equiv> seq_outs (map (\<lambda>f. f x) (map outcomes b))"

abbreviation opt_outs :: "node option \<Rightarrow> string \<Rightarrow> outs" where
  "opt_outs vo x \<equiv> (case map_option outcomes vo of Some f \<Rightarrow> f x | None \<Rightarrow> done_outs)"

lemma sound_body:
  "(\<And>n. n \<in> set b \<Longrightarrow> analysable n x \<Longrightarrow> sound (macroNodeConsumption n x) (outcomes n x)) \<Longrightarrow>
   list_all (\<lambda>f. f x) (map analysable b) \<Longrightarrow>
   sound (seqEffects (map macroNodeConsumption b) x) (body_outs b x)"
  by (rule sound_seq_nodes) (simp add: list_all_iff)

lemma analysis_sound:
  "analysable n x \<Longrightarrow> sound (macroNodeConsumption n x) (outcomes n x)"
  "sel = (sel :: select_case)"
  "il = (il :: if_let_cond)"
  "switchCaseAnalysable sc x \<Longrightarrow> sound (switchCaseConsumption sc x) (switchCaseOutcomes sc x)"
  "matchCaseAnalysable mc x \<Longrightarrow>
     sound (matchCaseConsumption mc x) (snd (matchCaseOutcomes mc x)) \<and>
     (\<forall>G. fst (matchCaseOutcomes mc x) = Some G \<longrightarrow> keeps G)"
  "structFieldAnalysable sf x \<Longrightarrow> sound (structFieldConsumption sf x) (structFieldOutcomes sf x)"
  "enumFieldAnalysable ef x \<Longrightarrow> sound (enumFieldConsumption ef x) (enumFieldOutcomes ef x)"
proof (induct n and sel and il and sc and mc and sf and ef
    rule: node.induct select_case.induct if_let_cond.induct switch_case.induct match_case.induct
      struct_literal_field.induct enum_literal_field.induct)
  case (For_stmt v s eo b)
  then have "keeps (outcomes s x)" "keeps (opt_outs eo x)"
    and "sound (seqEffects (map macroNodeConsumption b) x) (body_outs b x)"
    by (auto simp: keeps_option sound_body simp del: map_map case_map_option)
  then show ?case
    by (simp only: seq_outs_simps then_outs_done macroNodeConsumption.simps outcomes.simps)
       (intro sound_keeps_then sound_loop keeps_done)
next
  case (If_expr c lc t eo)
  have chain: "\<forall>S\<in>set (case map_option (map ifLetOutcomes) lc of Some fs \<Rightarrow> map (\<lambda>f. f x) fs
      | None \<Rightarrow> []). keeps S"
    using If_expr.prems by (cases lc) auto
  have "sound (macroNodeConsumption c x) (outcomes c x)"
    and "sound (seqEffects (map macroNodeConsumption t) x) (body_outs t x)"
    and "sound (case map_option (map macroNodeConsumption) eo of Some fs \<Rightarrow> seqEffects fs x
      | None \<Rightarrow> Never) (case map_option (map outcomes) eo of Some fs \<Rightarrow> seq_outs (map (\<lambda>f. f x) fs)
      | None \<Rightarrow> done_outs)"
    using If_expr by (auto simp: sound_body list_all_iff intro!: sound_option_seq simp del: map_map case_map_option)
  with chain show ?case
    by (simp only: macroNodeConsumption.simps outcomes.simps) (intro sound_then sound_chain)
next
  case (Switch_expr v cs)
  then show ?case
    by (simp only: macroNodeConsumption.simps outcomes.simps)
       (rule sound_switch, auto simp: list_all_iff)
next
  case (Match_expr v cs)
  then show ?case
    by (simp only: macroNodeConsumption.simps outcomes.simps)
       (rule sound_match, auto simp: list_all_iff)
next
  case (Binary_expr bop l r)
  then show ?case
    by (cases "bop = Bop_logical_and \<or> bop = Bop_logical_or")
       (auto intro: sound_short sound_then)
next
  case (Call_expr f at gs args callee)
  then have "keeps (opt_outs callee x)"
    and "sound (seqEffects (map macroNodeConsumption args) x) (body_outs args x)"
    by (auto simp: keeps_option sound_body simp del: map_map case_map_option)
  then show ?case
    by (simp only: macroNodeConsumption.simps outcomes.simps) (rule sound_keeps_then)
next
  case (Struct_literal t fs u)
  then show ?case
    by (simp only: macroNodeConsumption.simps outcomes.simps)
       (intro sound_seq_from sound_option, auto simp: list_all_iff)
next
  case (Return_stmt vo)
  then show ?case
    by (simp only: macroNodeConsumption.simps outcomes.simps)
       (intro sound_return sound_option, auto)
next
  case (Enum_literal en vn fs)
  then show ?case
    by (simp only: macroNodeConsumption.simps outcomes.simps)
       (intro sound_seq_nodes, auto simp: list_all_iff)
next
  case (Match_case p g b)
  then show ?case
    by (cases g) (auto simp: sound_body simp del: map_map)
next
  case (Slice_expr t s e)
  then show ?case
    by (auto simp: seq_outs_simps intro!: sound_then)
next
  case (Index_expr t i)
  then show ?case
    by (auto simp: seq_outs_simps intro!: sound_then)
next
  case (While_stmt c p b)
  then have "sound (seqEffects (map macroNodeConsumption b) x) (body_outs b x)"
    by (auto simp: sound_body simp del: map_map)
  with While_stmt.prems show ?case
    by (simp only: macroNodeConsumption.simps outcomes.simps) (intro sound_loop, simp)
next
  case (Release_stmt v)
  then show ?case by (simp add: sound_always keeps_iff)
next
  case (Try_expr e)
  then show ?case by (auto simp: sound_always intro: sound_try)
next
  case (Move_expr e)
  then show ?case by (auto simp: sound_always)
qed (auto simp: sound_body seq_outs_simps list_all_iff intro!: sound_then sound_keeps_then
       simp del: map_map)

section \<open>Error propagation inside macro bodies\<close>

lemma sequence_Never: "sequenceMacroParamConsumption a b = Never \<longleftrightarrow> a = Never \<and> b = Never"
  by (cases a; cases b) (simp_all add: sequenceMacroParamConsumption.simps)

lemma branch_Never: "branchMacroParamConsumption a b = Never \<longleftrightarrow> a = Never \<and> b = Never"
  by (cases a; cases b) (simp_all add: branchMacroParamConsumption.simps)

lemma seqEffectsFrom_Never:
  "seqEffectsFrom acc fs x = Never \<longleftrightarrow> acc = Never \<and> (\<forall>f\<in>set fs. f x = Never)"
proof -
  have "foldl (\<lambda>eff f. sequenceMacroParamConsumption eff (f x)) acc fs = Never \<longleftrightarrow>
        acc = Never \<and> (\<forall>f\<in>set fs. f x = Never)"
    by (induction fs arbitrary: acc) (auto simp: sequence_Never)
  then show ?thesis by (simp add: seqEffectsFrom_def)
qed

lemmas effect_Never = sequence_Never branch_Never seqEffectsFrom_Never

lemma try_source_has_try:
  "macroNodeHasTrySource n x \<Longrightarrow> macroNodeHasTry n \<and> macroNodeConsumption n x \<noteq> Never"
proof (induct n rule: node.induct [where ?P2.0 = "\<lambda>_. True" and ?P3.0 = "\<lambda>_. True"
      and ?P4.0 = "\<lambda>_. True" and ?P5.0 = "\<lambda>_. True" and ?P6.0 = "\<lambda>_. True" and ?P7.0 = "\<lambda>_. True"])
  case (If_expr c lc t eo)
  show ?case
  proof (cases eo)
    case None
    with If_expr show ?thesis by (auto simp: effect_Never list_ex_iff)
  next
    case (Some a)
    with If_expr(4) [of a] have else_part:
      "\<And>n. n \<in> set a \<Longrightarrow> macroNodeHasTrySource n x \<Longrightarrow>
         macroNodeHasTry n \<and> macroNodeConsumption n x \<noteq> Never"
      by simp
    from If_expr.prems Some consider "macroNodeHasTrySource c x"
      | n where "n \<in> set t" "macroNodeHasTrySource n x"
      | n where "n \<in> set a" "macroNodeHasTrySource n x"
      by (auto simp: list_ex_iff)
    then show ?thesis
      using If_expr(1,3) else_part Some by cases (auto simp: effect_Never list_ex_iff)
  qed
next
  case (Return_stmt vo)
  then show ?case by (cases vo) auto
qed (auto simp: effect_Never list_ex_iff)

section \<open>Properties\<close>

text \<open>
  Merging the states a value has at the end of the live branches gives the least usable
  of them: the minimum in the order uninitialised, consumed, active (active when no branch
  is live).  In particular the result does not depend on the order of the branches.
\<close>

lemma intersect_is_minimum:
  "intersectLiveBranchValueStates ss = Min (insert Active (set ss))"
proof (rule Min_eqI [symmetric])
  show "finite (insert Active (set ss))" by simp
next
  fix s assume "s \<in> insert Active (set ss)"
  then show "intersectLiveBranchValueStates ss \<le> s"
    by (auto simp: intersect_fold fold_min_lower fold_min_le)
next
  show "intersectLiveBranchValueStates ss \<in> insert Active (set ss)"
  proof -
    have "fold min ss m \<in> insert m (set ss)" for m :: value_state
      by (induction ss arbitrary: m) (auto simp: min_def)
    then show ?thesis by (simp add: intersect_fold)
  qed
qed

text \<open>The two-way plan and the many-way plan agree: for an \<open>if\<close> whose branches may have
  ended in an exit, \<open>planBranchStateMerge\<close> restores the pre-state, restores one branch or
  keeps the merged state exactly when \<open>planMultiBranchStateMerge\<close> of the number of live
  branches says so, and the branch it restores is the live one.
\<close>

lemma branch_plans_agree:
  "restoresPre (planBranchStateMerge t e) =
     multiRestoresPre (planMultiBranchStateMerge (length (filter Not [t, e]))) \<and>
   (restoresThen (planBranchStateMerge t e) \<or> restoresElse (planBranchStateMerge t e)) =
     multiRestoresSingle (planMultiBranchStateMerge (length (filter Not [t, e]))) \<and>
   (planBranchStateMerge t e = Keep_current) =
     multiIntersectsLive (planMultiBranchStateMerge (length (filter Not [t, e]))) \<and>
   restoresThen (planBranchStateMerge t e) = (\<not> t \<and> e) \<and>
   restoresElse (planBranchStateMerge t e) = (t \<and> \<not> e)"
  by (cases t; cases e) simp_all

text \<open>
  At a function exit the ownership of a cleaned-up value is transferred to the caller
  exactly when the result expression is that variable or a move of it; every other value
  of the cleanup list is released.
\<close>

lemma exit_cleanup_transfers:
  "filter (\<lambda>n. transfersResult (planFunctionExitCleanup n e)) names =
     filter (\<lambda>n. e = Identifier n \<or> e = Move_expr (Identifier n)) names \<and>
   filter (\<lambda>n. releasesValue (planFunctionExitCleanup n e)) names =
     filter (\<lambda>n. e \<noteq> Identifier n \<and> e \<noteq> Move_expr (Identifier n)) names"
proof -
  have plan: "planFunctionExitCleanup n e =
      (if e = Identifier n \<or> e = Move_expr (Identifier n) then Transfer_result else Release)" for n
    by (cases "(n, e)" rule: planFunctionExitCleanup.cases) (auto split: node.split)
  show ?thesis by (auto simp: plan intro: filter_cong)
qed

text \<open>
  C34: the consumption analysis is sound on the bodies it covers.  If it answers never, no
  path through the body, whichever way it leaves, consumes the parameter; if it answers
  always, every path that runs to the end of the body does.
\<close>

theorem macro_consumption_sound:
  assumes "\<forall>n\<in>set body. analysable n x"
  shows "(macroParamConsumption body x = Never \<longrightarrow> (\<forall>e. (e, True) \<notin> body_outcomes body x)) \<and>
    (macroParamConsumption body x = Always \<longrightarrow> (Normal, False) \<notin> body_outcomes body x)"
proof -
  have "sound (macroParamConsumption body x) (body_outcomes body x)"
    unfolding macroParamConsumption_def body_outcomes_def
    using sound_seq_nodes [of body macroNodeConsumption x outcomes] assms
    by (simp add: analysis_sound comp_def)
  then show ?thesis
    by (cases "macroParamConsumption body x") (simp_all add: sound_always keeps_iff)
qed

theorem macro_consumption_sound_witness:
  "(Normal, False) \<notin> body_outcomes
     [If_expr (Identifier ''c'') None [Move_expr (Identifier ''v'')]
        (Some [Switch_expr (Identifier ''k'')
          [Switch_case (Literal (Int_val 1)) [Move_expr (Identifier ''v'')],
           Switch_case (Identifier ''default'') [Release_stmt ''v'']]])] ''v''"
  using macro_consumption_sound [of
    "[If_expr (Identifier ''c'') None [Move_expr (Identifier ''v'')]
        (Some [Switch_expr (Identifier ''k'')
          [Switch_case (Literal (Int_val 1)) [Move_expr (Identifier ''v'')],
           Switch_case (Identifier ''default'') [Release_stmt ''v'']]])]"
    "''v''"]
  by (simp add: macroParamConsumption_def seqEffectsFrom_def sequenceMacroParamConsumption.simps
      branchMacroParamConsumption.simps switch_has_default_def isSwitchDefaultPattern_def)

text \<open>
  Outside that fragment it is not.  A parameter moved into the scrutinee of a \<open>match\<close>
  or \<open>switch\<close> is reported as never consumed although every path consumes it, and one moved
  in the right operand of a short-circuit operator is reported as always consumed although
  the path that skips the operand does not.
\<close>

lemma macro_consumption_gaps:
  "macroParamConsumption [Match_expr (Move_expr (Identifier x)) [Match_case p None []]] x = Never \<and>
   body_outcomes [Match_expr (Move_expr (Identifier x)) [Match_case p None []]] x
     = {(Normal, True)} \<and>
   macroParamConsumption [Switch_expr (Move_expr (Identifier x)) [Switch_case q []]] x = Never \<and>
   body_outcomes [Switch_expr (Move_expr (Identifier x)) [Switch_case q []]] x
     = {(Normal, True)} \<and>
   macroParamConsumption
     [Binary_expr Bop_logical_and (Literal b) (Move_expr (Identifier x))] x = Always \<and>
   (Normal, False) \<in> body_outcomes
     [Binary_expr Bop_logical_and (Literal b) (Move_expr (Identifier x))] x"
  by (auto simp: macroParamConsumption_def body_outcomes_def seqEffectsFrom_def seq_outs_simps
      sequenceMacroParamConsumption.simps then_outs_False)
     (auto simp: then_outs_def done_outs_def)

text \<open>
  A \<open>switch\<close> without a \<open>default\<close> case whose cases all consume the parameter is reported as always
  consuming it, although a value that no case matches skips them all.
\<close>

lemma switch_fall_through_missed:
  assumes "\<not> isSwitchDefaultPattern p"
  shows "macroParamConsumption [Switch_expr (Identifier v) [Switch_case p [Move_expr (Identifier x)]]] x = Always \<and>
    (Normal, False) \<in> body_outcomes [Switch_expr (Identifier v) [Switch_case p [Move_expr (Identifier x)]]] x"
  using assms
  by (simp add: macroParamConsumption_def body_outcomes_def seqEffectsFrom_def seq_outs_simps switch_has_default_def
      sequenceMacroParamConsumption.simps) (simp add: done_outs_def)

text \<open>
  A parameter that some \<open>?\<close> of the body is applied to makes the body error-propagating
  and counts as consumed.
\<close>

lemma try_source_consumes:
  assumes "macroParamIsTrySource body x"
  shows "macroBodyHasTry body \<and> macroParamConsumesValue body x"
proof -
  from assms obtain n where "n \<in> set body" "macroNodeHasTrySource n x"
    by (auto simp: macroParamIsTrySource_def list_ex_iff)
  with try_source_has_try [of n x] show ?thesis
    by (auto simp: macroBodyHasTry_def list_ex_iff macroParamConsumesValue_def
        macroParamConsumption_def seqEffectsFrom_Never)
qed

lemma try_source_consumes_witness:
  "macroParamConsumesValue [Let_stmt ''r'' None (Try_expr (Identifier ''v''))] ''v''"
  using try_source_consumes [of "[Let_stmt ''r'' None (Try_expr (Identifier ''v''))]" "''v''"]
  by (simp add: macroParamIsTrySource_def)

end
