(* ===== verification/Sla_Lexer.thy ===== *)
theory Sla_Lexer
  imports Sla_Prelude "HOL-Library.Word"
begin

text \<open>
  \<open>src/lexer.zig\<close>: the tokens and the scanner.  The record \<open>lexer\<close> is the struct \<open>Lexer\<close>
  with the same fields; \<open>lexer_next\<close> is the method \<open>next\<close>, returning the token and the new
  state, and the methods that move \<open>index\<close> return the new index.  \<open>interp_depth\<close> is a
  \<open>u16\<close>: the increment that would overflow it is the error \<open>Depth_overflow\<close> (a safety panic).
\<close>

section \<open>Tokens\<close>

datatype (plugins only: code size) keyword =
  K_struct | K_union | K_enum | K_trait | K_overload | K_dyn | K_impl | K_mod | K_using | K_pub
| K_extern | K_async | K_await | K_unsafe | K_as | K_fn | K_if | K_else | K_match | K_switch
| K_return | K_for | K_while | K_break | K_continue | K_in | K_let | K_const | K_var | K_inline
| K_macro | K_mut | K_type | K_go | K_defer | K_select

datatype (plugins only: code size) punctuator =
  P_plus | P_plus_equal | P_minus_equal | P_asterisk_equal | P_slash_equal | P_percent_equal
| P_pipe_equal | P_ampersand_equal | P_minus | P_asterisk | P_slash | P_percent | P_equal
| P_equal_equal | P_bang_equal | P_less_equal | P_greater_equal | P_ampersand | P_amp_amp
| P_caret | P_bang | P_pipe | P_pipe_pipe | P_less_less | P_greater_greater | P_spaceship
| P_dot | P_comma | P_semicolon | P_colon | P_double_colon | P_l_paren | P_r_paren | P_l_brace
| P_r_brace | P_l_bracket | P_r_bracket | P_less_than | P_greater_than | P_arrow | P_fat_arrow
| P_range | P_question_mark | P_question_question | P_question_question_equal | P_question_dot
| P_at

text \<open>The enum \<open>Token.Tag\<close>: its literal and template tags, its keywords, its punctuators.\<close>

datatype tag =
  T_eof | T_invalid | T_identifier | T_int_literal | T_float_literal | T_string_literal
| T_template_start | T_template_string | T_template_interp | T_template_end | T_keyword keyword
| T_punct punctuator

record token =
  tok_tag :: tag
  loc_start :: nat
  loc_end :: nat

record lexer =
  buffer :: string
  index :: nat
  in_template :: bool
  interp_depth :: "16 word"
  tmpl_stack :: "16 word list"
  tmpl_sp :: nat

datatype lexer_panic = Depth_overflow

definition lexer_init :: "string \<Rightarrow> lexer" where
  "lexer_init buf = \<lparr>buffer = buf, index = 0, in_template = False, interp_depth = 0,
     tmpl_stack = replicate 8 0, tmpl_sp = 0\<rparr>"

text \<open>\<open>index < buffer.len and buffer[index] == c\<close>, and the same for a class of bytes.\<close>

definition byte_at :: "string \<Rightarrow> nat \<Rightarrow> char \<Rightarrow> bool" where
  "byte_at buf i c \<longleftrightarrow> i < length buf \<and> buf ! i = c"

definition class_at :: "(char \<Rightarrow> bool) \<Rightarrow> string \<Rightarrow> nat \<Rightarrow> bool" where
  "class_at P buf i \<longleftrightarrow> i < length buf \<and> P (buf ! i)"

text \<open>\<open>while (index < buffer.len and P(buffer[index])) index += 1\<close>.\<close>

function scan_while :: "(char \<Rightarrow> bool) \<Rightarrow> string \<Rightarrow> nat \<Rightarrow> nat" where
  "scan_while P buf i = (if class_at P buf i then scan_while P buf (Suc i) else i)"
  by pat_completeness auto
termination
  by (relation "measure (\<lambda>(P, buf, i). length buf - i)") (auto simp: class_at_def)

definition is_space :: "char \<Rightarrow> bool" where
  "is_space c \<longleftrightarrow> c = CHR '' '' \<or> c = CHR 0x09 \<or> c = CHR 0x0A \<or> c = CHR 0x0D"

definition skipWhitespace :: "string \<Rightarrow> nat \<Rightarrow> nat" where
  "skipWhitespace buf i = scan_while is_space buf i"

text \<open>The body of a string literal: a backslash skips the byte after it.\<close>

function scan_string :: "string \<Rightarrow> nat \<Rightarrow> nat" where
  "scan_string buf i =
     (if class_at (\<lambda>c. c \<noteq> CHR 0x22) buf i
      then scan_string buf (if buf ! i = CHR 0x5C then i + 2 else i + 1)
      else i)"
  by pat_completeness auto
termination
  by (relation "measure (\<lambda>(buf, i). length buf - i)") (auto simp: class_at_def)

text \<open>A literal chunk of a template: up to an interpolation, a backtick or the end.\<close>

function scan_template :: "string \<Rightarrow> nat \<Rightarrow> nat" where
  "scan_template buf i =
     (if i < length buf then
        (if buf ! i = CHR 0x5C then scan_template buf (i + 2)
         else if buf ! i = CHR 0x60 then i
         else if buf ! i = CHR ''$'' \<and> byte_at buf (i + 1) (CHR 0x7B) then i
         else scan_template buf (i + 1))
      else i)"
  by pat_completeness auto
termination
  by (relation "measure (\<lambda>(buf, i). length buf - i)") auto

text \<open>Hexadecimal digits, with single underscores between digits.\<close>

definition hex_continues :: "string \<Rightarrow> nat \<Rightarrow> bool" where
  "hex_continues buf i \<longleftrightarrow>
     class_at is_hex buf i \<or> byte_at buf i (CHR ''_'') \<and> class_at is_hex buf (i + 1)"

function scan_hex :: "string \<Rightarrow> nat \<Rightarrow> nat" where
  "scan_hex buf i = (if hex_continues buf i then scan_hex buf (i + 1) else i)"
  by pat_completeness auto
termination
  by (relation "measure (\<lambda>(buf, i). length buf - i)")
     (auto simp: hex_continues_def class_at_def byte_at_def)

text \<open>
  The digits of a decimal literal: a dot continues it when a digit follows (and makes it a
  float), an underscore when a digit follows.
\<close>

definition dec_continues :: "string \<Rightarrow> nat \<Rightarrow> bool" where
  "dec_continues buf i \<longleftrightarrow>
     i < length buf \<and>
     (let c = buf ! i in
      if c = CHR ''.'' then
        \<not> byte_at buf (i + 1) (CHR ''.'') \<and> class_at is_digit buf (i + 1)
      else if c = CHR ''_'' then class_at is_digit buf (i + 1)
      else is_digit c)"

function scan_decimal :: "string \<Rightarrow> nat \<Rightarrow> bool \<Rightarrow> nat \<times> bool" where
  "scan_decimal buf i is_float =
     (if dec_continues buf i then scan_decimal buf (i + 1) (is_float \<or> buf ! i = CHR ''.'')
      else (i, is_float))"
  by pat_completeness auto
termination
  by (relation "measure (\<lambda>(buf, i, f). length buf - i)") (auto simp: dec_continues_def)

declare scan_while.simps [simp del] scan_string.simps [simp del] scan_template.simps [simp del]
  scan_hex.simps [simp del] scan_decimal.simps [simp del]

definition keyword_table :: "(string \<times> keyword) list" where
  "keyword_table =
    [(''struct'', K_struct), (''union'', K_union), (''enum'', K_enum), (''trait'', K_trait),
     (''overload'', K_overload), (''dyn'', K_dyn), (''impl'', K_impl), (''mod'', K_mod),
     (''using'', K_using), (''pub'', K_pub), (''extern'', K_extern), (''async'', K_async),
     (''await'', K_await), (''unsafe'', K_unsafe), (''as'', K_as), (''fn'', K_fn),
     (''if'', K_if), (''else'', K_else), (''match'', K_match), (''switch'', K_switch),
     (''return'', K_return), (''for'', K_for), (''while'', K_while), (''break'', K_break),
     (''continue'', K_continue), (''in'', K_in), (''let'', K_let), (''const'', K_const),
     (''var'', K_var), (''inline'', K_inline), (''macro'', K_macro), (''mut'', K_mut),
     (''type'', K_type), (''go'', K_go), (''defer'', K_defer), (''select'', K_select)]"

definition checkKeyword :: "string \<Rightarrow> tag" where
  "checkKeyword s = (case map_of keyword_table s of Some k \<Rightarrow> T_keyword k | None \<Rightarrow> T_identifier)"

section \<open>The scanner\<close>

definition slice :: "string \<Rightarrow> nat \<Rightarrow> nat \<Rightarrow> string" where
  "slice buf i j = take (j - i) (drop i buf)"

text \<open>A token from \<open>start\<close> to the new index, and the state moved there.\<close>

definition emit :: "lexer \<Rightarrow> nat \<Rightarrow> tag \<Rightarrow> nat \<Rightarrow> token \<times> lexer" where
  "emit l start t i = (\<lparr>tok_tag = t, loc_start = start, loc_end = i\<rparr>, l\<lparr>index := i\<rparr>)"

definition nextTemplate :: "lexer \<Rightarrow> token \<times> lexer" where
  "nextTemplate l =
     (let buf = buffer l; i = index l in
      if byte_at buf i (CHR ''$'') \<and> byte_at buf (i + 1) (CHR 0x7B) then
        emit (l\<lparr>in_template := False, interp_depth := 1\<rparr>) i T_template_interp (i + 2)
      else if byte_at buf i (CHR 0x60) then
        (if tmpl_sp l = 0 then emit l i T_invalid (i + 1)
         else emit (l\<lparr>tmpl_sp := tmpl_sp l - 1, interp_depth := tmpl_stack l ! (tmpl_sp l - 1),
                     in_template := False\<rparr>) i T_template_end (i + 1))
      else
        (let j = scan_template buf i
         in emit l i (if j \<ge> length buf then T_invalid else T_template_string) j))"

text \<open>The punctuation cases: the tag and how far it extends after the first byte.\<close>

definition punct :: "string \<Rightarrow> char \<Rightarrow> nat \<Rightarrow> (punctuator \<times> nat) option" where
  "punct buf c i =
    (if c = CHR ''@'' then Some (P_at, i)
     else if c = CHR ''?'' then
       (if byte_at buf i (CHR ''?'') then
          (if byte_at buf (i + 1) (CHR ''='') \<and> \<not> byte_at buf (i + 2) (CHR ''='')
           then Some (P_question_question_equal, i + 2)
           else Some (P_question_question, i + 1))
        else if byte_at buf i (CHR ''.'') \<and> \<not> class_at is_digit buf (i + 1)
        then Some (P_question_dot, i + 1)
        else Some (P_question_mark, i))
     else if c = CHR ''+'' then
       (if byte_at buf i (CHR ''='') then Some (P_plus_equal, i + 1) else Some (P_plus, i))
     else if c = CHR ''-'' then
       (if byte_at buf i (CHR ''>'') then Some (P_arrow, i + 1)
        else if byte_at buf i (CHR ''='') then Some (P_minus_equal, i + 1)
        else Some (P_minus, i))
     else if c = CHR ''*'' then
       (if byte_at buf i (CHR ''='') then Some (P_asterisk_equal, i + 1)
        else Some (P_asterisk, i))
     else if c = CHR ''/'' then
       (if byte_at buf i (CHR ''='') then Some (P_slash_equal, i + 1) else Some (P_slash, i))
     else if c = CHR ''%'' then
       (if byte_at buf i (CHR ''='') then Some (P_percent_equal, i + 1)
        else Some (P_percent, i))
     else if c = CHR ''='' then
       (if byte_at buf i (CHR ''>'') then Some (P_fat_arrow, i + 1)
        else if byte_at buf i (CHR ''='') then Some (P_equal_equal, i + 1)
        else Some (P_equal, i))
     else if c = CHR ''&'' then
       (if byte_at buf i (CHR ''='') then Some (P_ampersand_equal, i + 1)
        else if byte_at buf i (CHR ''&'') then Some (P_amp_amp, i + 1)
        else Some (P_ampersand, i))
     else if c = CHR ''^'' then Some (P_caret, i)
     else if c = CHR ''|'' then
       (if byte_at buf i (CHR ''|'') then Some (P_pipe_pipe, i + 1)
        else if byte_at buf i (CHR ''='') then Some (P_pipe_equal, i + 1)
        else Some (P_pipe, i))
     else if c = CHR ''!'' then
       (if byte_at buf i (CHR ''='') then Some (P_bang_equal, i + 1) else Some (P_bang, i))
     else if c = CHR ''.'' then
       (if byte_at buf i (CHR ''.'') then Some (P_range, i + 1) else Some (P_dot, i))
     else if c = CHR '','' then Some (P_comma, i)
     else if c = CHR '';'' then Some (P_semicolon, i)
     else if c = CHR '':'' then
       (if byte_at buf i (CHR '':'') then Some (P_double_colon, i + 1) else Some (P_colon, i))
     else if c = CHR ''('' then Some (P_l_paren, i)
     else if c = CHR '')'' then Some (P_r_paren, i)
     else if c = CHR ''['' then Some (P_l_bracket, i)
     else if c = CHR '']'' then Some (P_r_bracket, i)
     else if c = CHR ''<'' then
       (if byte_at buf i (CHR ''<'') then Some (P_less_less, i + 1)
        else if byte_at buf i (CHR ''='') \<and> byte_at buf (i + 1) (CHR ''>'')
        then Some (P_spaceship, i + 2)
        else if byte_at buf i (CHR ''='') then Some (P_less_equal, i + 1)
        else Some (P_less_than, i))
     else if c = CHR ''>'' then
       (if byte_at buf i (CHR ''>'') then Some (P_greater_greater, i + 1)
        else if byte_at buf i (CHR ''='') then Some (P_greater_equal, i + 1)
        else Some (P_greater_than, i))
     else None)"

text \<open>String literals, names and numbers.\<close>

definition lex_string :: "string \<Rightarrow> nat \<Rightarrow> tag \<times> nat" where
  "lex_string buf i =
     (let j = scan_string buf i
      in if j < length buf then (T_string_literal, j + 1) else (T_invalid, j))"

definition is_name_start :: "char \<Rightarrow> bool" where
  "is_name_start c \<longleftrightarrow> is_alphabetic c \<or> c = CHR ''_''"

definition is_name_char :: "char \<Rightarrow> bool" where
  "is_name_char c \<longleftrightarrow> is_alphanumeric c \<or> c = CHR ''_''"

definition lex_name :: "string \<Rightarrow> nat \<Rightarrow> nat \<Rightarrow> tag \<times> nat" where
  "lex_name buf start i =
     (let j = scan_while is_name_char buf i in (checkKeyword (slice buf start j), j))"

definition lex_number :: "string \<Rightarrow> char \<Rightarrow> nat \<Rightarrow> tag \<times> nat" where
  "lex_number buf c i =
     (if c = CHR ''0'' \<and> (byte_at buf i (CHR ''x'') \<or> byte_at buf i (CHR ''X'')) then
        (T_int_literal,
         scan_while is_digit buf (scan_while is_alphabetic buf (scan_hex buf (i + 1))))
      else
        (let (j, is_float) = scan_decimal buf i False
         in if is_float then (T_float_literal, j)
            else (T_int_literal, scan_while is_alphanumeric buf j)))"

text \<open>The braces count the depth of an interpolation; the backtick opens a template.\<close>

definition lex_open_brace :: "lexer \<Rightarrow> lexer_panic + lexer" where
  "lex_open_brace l =
     (if interp_depth l > 0 then
        (if interp_depth l = - 1 then Inl Depth_overflow
         else Inr (l\<lparr>interp_depth := interp_depth l + 1\<rparr>))
      else Inr l)"

definition lex_close_brace :: "lexer \<Rightarrow> lexer" where
  "lex_close_brace l =
     (if interp_depth l > 0 then
        l\<lparr>interp_depth := interp_depth l - 1,
          in_template := (if interp_depth l - 1 = 0 then True else in_template l)\<rparr>
      else l)"

definition lex_backtick :: "lexer \<Rightarrow> nat \<Rightarrow> nat \<Rightarrow> token \<times> lexer" where
  "lex_backtick l start i =
     (if tmpl_sp l \<ge> length (tmpl_stack l) then emit l start T_invalid i
      else emit (l\<lparr>tmpl_stack := (tmpl_stack l)[tmpl_sp l := interp_depth l],
                  tmpl_sp := tmpl_sp l + 1, interp_depth := 0, in_template := True\<rparr>)
                start T_template_start i)"

text \<open>The \<open>switch\<close> of \<open>next\<close> on the byte at \<open>start\<close>, after the comment case.\<close>

definition lex_byte :: "lexer \<Rightarrow> nat \<Rightarrow> lexer_panic + token \<times> lexer" where
  "lex_byte l start =
     (let buf = buffer l; c = buf ! start; i = start + 1 in
      if c = CHR 0x7B then
        (case lex_open_brace l of Inl p \<Rightarrow> Inl p | Inr l' \<Rightarrow> Inr (emit l' start (T_punct P_l_brace) i))
      else if c = CHR 0x7D then Inr (emit (lex_close_brace l) start (T_punct P_r_brace) i)
      else if c = CHR 0x22 then (let (t, j) = lex_string buf i in Inr (emit l start t j))
      else if is_name_start c then (let (t, j) = lex_name buf start i in Inr (emit l start t j))
      else if is_digit c then (let (t, j) = lex_number buf c i in Inr (emit l start t j))
      else if c = CHR 0x60 then Inr (lex_backtick l start i)
      else (case punct buf c i of Some (p, j) \<Rightarrow> Inr (emit l start (T_punct p) j)
            | None \<Rightarrow> Inr (emit l start T_invalid i)))"

definition comment_end :: "string \<Rightarrow> nat \<Rightarrow> nat" where
  "comment_end buf i = scan_while (\<lambda>c. c \<noteq> CHR 0x0A) buf i"

lemma scan_while_ge: "i \<le> scan_while P buf i"
proof (induction P buf i rule: scan_while.induct)
  case (1 P buf i)
  then show ?case by (subst scan_while.simps) (auto dest: Suc_leD)
qed

text \<open>
  The method \<open>next\<close>: inside template text \<open>nextTemplate\<close>, otherwise whitespace is skipped
  and a line comment restarts the method after it.
\<close>

function lexer_next :: "lexer \<Rightarrow> lexer_panic + token \<times> lexer" where
  "lexer_next l =
     (if in_template l then Inr (nextTemplate l)
      else
        (let buf = buffer l; start = skipWhitespace buf (index l) in
         if start \<ge> length buf then Inr (emit l start T_eof start)
         else if buf ! start = CHR ''/'' \<and> byte_at buf (start + 1) (CHR ''/'')
         then lexer_next (l\<lparr>index := comment_end buf (start + 2)\<rparr>)
         else lex_byte l start))"
  by pat_completeness auto
termination
proof (relation "measure (\<lambda>l. length (buffer l) - index l)")
  fix l buf start
  assume buf: "buf = buffer l" "start = skipWhitespace buf (index l)" "\<not> length buf \<le> start"
  have "index l \<le> start" using buf by (simp add: skipWhitespace_def scan_while_ge)
  moreover have "start + 2 \<le> comment_end buf (start + 2)"
    by (simp add: comment_end_def scan_while_ge)
  ultimately show "(l\<lparr>index := comment_end buf (start + 2)\<rparr>, l)
      \<in> measure (\<lambda>l. length (buffer l) - index l)"
    using buf by simp
qed simp

declare lexer_next.simps [simp del]

section \<open>The state of the scanner\<close>

lemma scan_while_le: "i \<le> length buf \<Longrightarrow> scan_while P buf i \<le> length buf"
proof (induction P buf i rule: scan_while.induct)
  case (1 P buf i)
  then show ?case by (subst scan_while.simps) (auto simp: class_at_def)
qed

lemma scan_string_ge: "i \<le> scan_string buf i"
proof (induction buf i rule: scan_string.induct)
  case (1 buf i)
  then show ?case by (subst scan_string.simps) (auto split: if_splits)
qed

lemma scan_string_le: "i \<le> Suc (length buf) \<Longrightarrow> scan_string buf i \<le> Suc (length buf)"
proof (induction buf i rule: scan_string.induct)
  case (1 buf i)
  then show ?case by (subst scan_string.simps) (auto simp: class_at_def split: if_splits)
qed

lemma scan_template_ge: "i \<le> scan_template buf i"
proof (induction buf i rule: scan_template.induct)
  case (1 buf i)
  then show ?case by (subst scan_template.simps) (auto split: if_splits)
qed

lemma scan_template_le: "i \<le> Suc (length buf) \<Longrightarrow> scan_template buf i \<le> Suc (length buf)"
proof (induction buf i rule: scan_template.induct)
  case (1 buf i)
  then show ?case by (subst scan_template.simps) (auto split: if_splits)
qed

lemma scan_template_progress:
  assumes "i < length buf" "buf ! i \<noteq> CHR 0x60"
    and "\<not> (buf ! i = CHR ''$'' \<and> byte_at buf (i + 1) (CHR 0x7B))"
  shows "i < scan_template buf i"
  using assms scan_template_ge [of "i + 1" buf] scan_template_ge [of "i + 2" buf]
  by (subst scan_template.simps) auto

lemma scan_hex_ge: "i \<le> scan_hex buf i"
proof (induction buf i rule: scan_hex.induct)
  case (1 buf i)
  then show ?case by (subst scan_hex.simps) auto
qed

lemma scan_hex_le: "i \<le> length buf \<Longrightarrow> scan_hex buf i \<le> length buf"
proof (induction buf i rule: scan_hex.induct)
  case (1 buf i)
  then show ?case
    by (subst scan_hex.simps) (auto simp: hex_continues_def class_at_def byte_at_def)
qed

lemma scan_decimal_ge: "i \<le> fst (scan_decimal buf i f)"
proof (induction buf i f rule: scan_decimal.induct)
  case (1 buf i f)
  then show ?case by (subst scan_decimal.simps) auto
qed

lemma scan_decimal_le: "i \<le> length buf \<Longrightarrow> fst (scan_decimal buf i f) \<le> length buf"
proof (induction buf i f rule: scan_decimal.induct)
  case (1 buf i f)
  then show ?case by (subst scan_decimal.simps) (auto simp: dec_continues_def)
qed

lemmas scan_ge = scan_while_ge scan_string_ge scan_template_ge scan_hex_ge scan_decimal_ge
lemmas scan_le = scan_while_le scan_string_le scan_template_le scan_hex_le scan_decimal_le

lemma lex_name_bounds:
  assumes "start < i" "i \<le> length buf"
  shows "i \<le> snd (lex_name buf start i)" "snd (lex_name buf start i) \<le> length buf"
  using assms by (simp_all add: lex_name_def Let_def scan_ge scan_le)

lemma lex_number_bounds:
  assumes "i \<le> length buf"
  shows "i \<le> snd (lex_number buf c i) \<and> snd (lex_number buf c i) \<le> length buf"
proof (cases "c = CHR ''0'' \<and> (byte_at buf i (CHR ''x'') \<or> byte_at buf i (CHR ''X''))")
  case True
  then have "i + 1 \<le> length buf" by (auto simp: byte_at_def)
  moreover have "i + 1 \<le> scan_while is_digit buf (scan_while is_alphabetic buf (scan_hex buf (i + 1)))"
    by (meson order_trans scan_hex_ge scan_while_ge)
  ultimately show ?thesis using True by (simp add: lex_number_def scan_le)
next
  case False
  have "i \<le> fst (scan_decimal buf i False)" "fst (scan_decimal buf i False) \<le> length buf"
    using assms by (simp_all add: scan_ge scan_le)
  moreover have "fst (scan_decimal buf i False)
      \<le> scan_while is_alphanumeric buf (fst (scan_decimal buf i False))"
    by (simp add: scan_ge)
  ultimately show ?thesis
    using False by (auto simp: lex_number_def case_prod_beta Let_def scan_le)
qed

lemma punct_bounds:
  assumes "punct buf c i = Some (p, j)" "i \<le> length buf"
  shows "i \<le> j" "j \<le> length buf"
  using assms
  by (auto simp: punct_def byte_at_def class_at_def split: if_splits)

lemma checkKeyword_not_eof [simp]: "checkKeyword w \<noteq> T_eof"
  by (simp add: checkKeyword_def split: option.split)

text \<open>
  The invariant of \<open>Lexer\<close>: at most eight templates are open, template text is only scanned
  inside one, and an interpolation is only open inside one; the outermost saved depth is 0.  The
  depths never exceed the number of bytes consumed.
\<close>

definition lexer_wf :: "lexer \<Rightarrow> bool" where
  "lexer_wf l \<longleftrightarrow>
     length (tmpl_stack l) = 8 \<and> tmpl_sp l \<le> 8 \<and>
     (in_template l \<longrightarrow> 0 < tmpl_sp l \<and> interp_depth l = 0) \<and>
     (0 < interp_depth l \<longrightarrow> 0 < tmpl_sp l) \<and>
     (0 < tmpl_sp l \<longrightarrow> tmpl_stack l ! 0 = 0) \<and>
     unat (interp_depth l) \<le> index l \<and>
     (\<forall>k < tmpl_sp l. unat (tmpl_stack l ! k) \<le> index l) \<and>
     index l \<le> Suc (length (buffer l))"

lemma lexer_wf_init [intro]: "lexer_wf (lexer_init buf)"
  by (simp add: lexer_wf_def lexer_init_def)

text \<open>What one token of the scanner may look like, from a state \<open>l\<close> to a state \<open>l'\<close>.\<close>

definition token_ok :: "lexer \<Rightarrow> token \<Rightarrow> lexer \<Rightarrow> bool" where
  "token_ok l t l' \<longleftrightarrow>
     index l \<le> loc_start t \<and> loc_end t = index l' \<and> buffer l' = buffer l \<and>
     (if tok_tag t = T_eof then loc_start t = loc_end t \<and> length (buffer l) \<le> loc_start t
      else if tok_tag t = T_invalid
      then loc_start t \<le> loc_end t \<and> loc_end t \<le> Suc (length (buffer l)) \<and>
           (loc_start t < length (buffer l) \<longrightarrow> loc_start t < loc_end t)
      else loc_start t < loc_end t \<and> loc_end t \<le> length (buffer l))"

lemma lexer_wf_move:
  assumes "lexer_wf l" "index l \<le> i" "i \<le> Suc (length (buffer l))"
  shows "lexer_wf (l\<lparr>index := i\<rparr>)"
  using assms by (auto simp: lexer_wf_def)

lemma nextTemplate_ok:
  assumes wf: "lexer_wf l" and tmpl: "in_template l" and "nextTemplate l = (t, l')"
  shows "lexer_wf l' \<and> token_ok l t l'"
proof -
  let ?buf = "buffer l" and ?i = "index l"
  consider (interp) "byte_at ?buf ?i (CHR ''$'')" "byte_at ?buf (?i + 1) (CHR 0x7B)"
    | (close) "\<not> (byte_at ?buf ?i (CHR ''$'') \<and> byte_at ?buf (?i + 1) (CHR 0x7B))"
        "byte_at ?buf ?i (CHR 0x60)"
    | (chunk) "\<not> (byte_at ?buf ?i (CHR ''$'') \<and> byte_at ?buf (?i + 1) (CHR 0x7B))"
        "\<not> byte_at ?buf ?i (CHR 0x60)"
    by blast
  then show ?thesis
  proof cases
    case interp
    then show ?thesis using assms
      by (auto simp: nextTemplate_def Let_def emit_def lexer_wf_def token_ok_def byte_at_def)
  next
    case close
    from wf tmpl have sp: "0 < tmpl_sp l" by (simp add: lexer_wf_def)
    with close assms show ?thesis
      by (auto simp: nextTemplate_def Let_def emit_def lexer_wf_def token_ok_def byte_at_def
            less_Suc_eq_le le_SucI)
        (cases "tmpl_sp l = Suc 0"; simp)
  next
    case chunk
    have "?i \<le> Suc (length ?buf)" using wf by (simp add: lexer_wf_def)
    then have "scan_template ?buf ?i \<le> Suc (length ?buf)" by (rule scan_template_le)
    moreover have "?i < length ?buf \<Longrightarrow> ?i < scan_template ?buf ?i"
      using chunk by (intro scan_template_progress) (auto simp: byte_at_def)
    ultimately show ?thesis
      using chunk assms scan_template_ge [of ?i ?buf]
      by (auto simp: nextTemplate_def Let_def emit_def token_ok_def not_le
            intro!: lexer_wf_move split: if_splits)
  qed
qed

lemma emit_ok:
  assumes "emit m start tg i = (t, l')" and "lexer_wf m" "buffer m = buffer l" "index m = index l"
    and "index l \<le> start" "start < length (buffer l)" "start < i"
    and "tg \<noteq> T_eof" and "i \<le> length (buffer l) \<or> tg = T_invalid \<and> i \<le> Suc (length (buffer l))"
  shows "lexer_wf l' \<and> token_ok l t l'"
  using assms lexer_wf_move [of m i]
  by (auto simp: emit_def token_ok_def)

lemma lex_open_brace_ok:
  assumes "lexer_wf l" "lex_open_brace l = Inr m" "index l < i" "i \<le> Suc (length (buffer l))"
  shows "lexer_wf (m\<lparr>index := i\<rparr>)" "buffer m = buffer l"
proof -
  have "interp_depth l \<noteq> - 1 \<Longrightarrow> unat (interp_depth l + 1) \<le> Suc (unat (interp_depth l))"
    by (metis add.commute add.inverse_inverse eq_neg_iff_add_eq_0 le_refl unatSuc)
  then show "lexer_wf (m\<lparr>index := i\<rparr>)" "buffer m = buffer l"
    using assms unfolding lex_open_brace_def lexer_wf_def
    by (force split: if_splits)+
qed

lemma lex_open_brace_total:
  assumes "lexer_wf l" "length (buffer l) < 65536" "index l < length (buffer l)"
  shows "\<exists>m. lex_open_brace l = Inr m"
proof -
  have "unat (interp_depth l) \<noteq> 65535" using assms by (simp add: lexer_wf_def)
  moreover have "unat (- 1 :: 16 word) = 65535" 
    by (simp add: unat_eq_nat_uint unsigned_minus_1_eq_mask mask_eq_exp_minus_1)
  ultimately have "interp_depth l \<noteq> - 1" by metis
  then show ?thesis by (simp add: lex_open_brace_def)
qed

lemma lex_close_brace_ok:
  assumes "lexer_wf l" "index l \<le> i" "i \<le> Suc (length (buffer l))"
  shows "lexer_wf ((lex_close_brace l)\<lparr>index := i\<rparr>)"
proof -
  have "unat (interp_depth l - 1) \<le> unat (interp_depth l)" if "0 < interp_depth l"
    using that by (simp add: unat_minus_one word_gt_0)
  then show ?thesis
    using assms unfolding lex_close_brace_def lexer_wf_def by force
qed

lemma lex_backtick_ok:
  assumes "lexer_wf l" "lex_backtick l start (start + 1) = (t, l')"
    "index l \<le> start" "start < length (buffer l)"
  shows "lexer_wf l' \<and> token_ok l t l'"
proof (cases "tmpl_sp l \<ge> length (tmpl_stack l)")
  case True
  then show ?thesis using assms lexer_wf_move [of l "start + 1"]
    by (auto simp: lex_backtick_def emit_def token_ok_def)
next
  case False
  have d: "unat (interp_depth l) \<le> start"
    and o: "\<forall>k < tmpl_sp l. unat (tmpl_stack l ! k) \<le> Suc start"
    and z: "tmpl_sp l = 0 \<Longrightarrow> interp_depth l = 0"
    and s: "tmpl_sp l < 8" "length (tmpl_stack l) = 8"
    and st: "tmpl_sp l > 0 \<longrightarrow> tmpl_stack l ! 0 = 0"
    using assms False unfolding lexer_wf_def by (auto simp: word_gt_0)
  have t: "t = \<lparr>tok_tag = T_template_start, loc_start = start, loc_end = start + 1\<rparr>"
    and l': "l' = l\<lparr>tmpl_stack := (tmpl_stack l)[tmpl_sp l := interp_depth l],
      tmpl_sp := tmpl_sp l + 1, interp_depth := 0, in_template := True, index := start + 1\<rparr>"
    using assms(2) False by (simp_all add: lex_backtick_def emit_def)
  have "lexer_wf l'"
    unfolding lexer_wf_def l' using d o s st z assms(4)
    by (auto simp: nth_list_update less_Suc_eq)
  moreover have "token_ok l t l'" using assms by (simp add: token_ok_def t l')
  ultimately show ?thesis by simp
qed

lemma lex_byte_ok:
  assumes wf: "lexer_wf l" and step: "lex_byte l start = Inr (t, l')"
    and start: "index l \<le> start" "start < length (buffer l)"
  shows "lexer_wf l' \<and> token_ok l t l'"
proof -
  let ?buf = "buffer l" and ?c = "buffer l ! start"
  have up: "start + 1 \<le> length ?buf" using start by simp
  show ?thesis
  proof (cases "?c = CHR 0x7B \<or> ?c = CHR 0x7D \<or> ?c = CHR 0x60")
    case True
    have n: "\<not> is_name_start (CHR 0x60)" "\<not> is_digit (CHR 0x60)"
      by (simp_all add: is_name_start_def byte_class)
    from True show ?thesis
    proof (elim disjE)
      assume "?c = CHR 0x7B"
      with step obtain m where m: "lex_open_brace l = Inr m"
        and e: "emit m start (T_punct P_l_brace) (start + 1) = (t, l')"
        by (auto simp: lex_byte_def Let_def split: sum.splits)
      from lex_open_brace_ok [OF wf m, of "start + 1"] e start show ?thesis
        by (auto simp: emit_def token_ok_def)
    next
      assume "?c = CHR 0x7D"
      with step have "emit (lex_close_brace l) start (T_punct P_r_brace) (start + 1) = (t, l')"
        by (simp add: lex_byte_def Let_def)
      with lex_close_brace_ok [OF wf, of "start + 1"] start show ?thesis
        by (auto simp: emit_def token_ok_def lex_close_brace_def)
    next
      assume "?c = CHR 0x60"
      with step n have "lex_backtick l start (start + 1) = (t, l')"
        by (simp add: lex_byte_def Let_def)
      with wf start show ?thesis by (intro lex_backtick_ok)
    qed
  next
    case False
    then obtain tg i where e: "emit l start tg i = (t, l')" and
      t: "(?c = CHR 0x22 \<and> (tg, i) = lex_string ?buf (start + 1)) \<or>
        (is_name_start ?c \<and> (tg, i) = lex_name ?buf start (start + 1)) \<or>
        (is_digit ?c \<and> (tg, i) = lex_number ?buf ?c (start + 1)) \<or>
        (\<exists>p. punct ?buf ?c (start + 1) = Some (p, i) \<and> tg = T_punct p) \<or>
        (tg = T_invalid \<and> i = start + 1)"
      using step
      by (auto simp: lex_byte_def Let_def case_prod_beta split: if_splits option.splits)
    have "start < i \<and> tg \<noteq> T_eof \<and>
        (i \<le> length ?buf \<or> tg = T_invalid \<and> i \<le> Suc (length ?buf))"
      using t
    proof (elim disjE conjE exE)
      assume "(tg, i) = lex_string ?buf (start + 1)"
      then show ?thesis
        using scan_string_ge [of "start + 1" ?buf] scan_string_le [of "start + 1" ?buf] up
        by (auto simp: lex_string_def Let_def split: if_splits)
    next
      assume "(tg, i) = lex_name ?buf start (start + 1)"
      moreover from this lex_name_bounds [of start "start + 1" ?buf] up
      have "start + 1 \<le> i" "i \<le> length ?buf" by (metis snd_conv less_add_one)+
      ultimately show ?thesis by (simp add: lex_name_def Let_def)
    next
      assume a: "(tg, i) = lex_number ?buf ?c (start + 1)"
      with lex_number_bounds [of "start + 1" ?buf ?c] up
      have "start + 1 \<le> i" "i \<le> length ?buf" by (metis snd_conv)+
      then show ?thesis
        using a by (auto simp: lex_number_def case_prod_beta Let_def split: if_splits)
    next
      fix p assume "punct ?buf ?c (start + 1) = Some (p, i)" "tg = T_punct p"
      then show ?thesis using punct_bounds [of ?buf ?c "start + 1" p i] up by simp
    qed (use up in simp_all)
    with e wf start show ?thesis by (intro emit_ok [OF e wf]) auto
  qed
qed

text \<open>One call of \<open>next\<close>: it keeps the invariant, and its token lies where it should.\<close>

lemma lexer_next_ok:
  "lexer_wf l \<Longrightarrow> lexer_next l = Inr (t, l') \<Longrightarrow> lexer_wf l' \<and> token_ok l t l'"
proof (induction l rule: lexer_next.induct)
  case (1 l)
  define start where "start = skipWhitespace (buffer l) (index l)"
  have ge: "index l \<le> start" by (simp add: start_def skipWhitespace_def scan_while_ge)
  have wf: "lexer_wf l" by fact
  consider "in_template l" | "\<not> in_template l" "length (buffer l) \<le> start"
    | (comment) "\<not> in_template l" "start < length (buffer l)"
        "buffer l ! start = CHR ''/'' \<and> byte_at (buffer l) (start + 1) (CHR ''/'')"
    | (byte) "\<not> in_template l" "start < length (buffer l)"
        "\<not> (buffer l ! start = CHR ''/'' \<and> byte_at (buffer l) (start + 1) (CHR ''/''))"
    by linarith
  then show ?case
  proof cases
    case 1
    with \<open>lexer_next l = Inr (t, l')\<close> wf show ?thesis
      by (intro nextTemplate_ok) (simp_all add: lexer_next.simps [of l])
  next
    case 2
    have "start \<le> Suc (length (buffer l))"
    proof (cases "index l \<le> length (buffer l)")
      case True
      then show ?thesis by (simp add: start_def skipWhitespace_def scan_while_le le_SucI)
    next
      case False
      then show ?thesis using wf
        by (simp add: start_def skipWhitespace_def scan_while.simps class_at_def lexer_wf_def)
    qed
    with 2 \<open>lexer_next l = Inr (t, l')\<close> ge wf show ?thesis
      by (auto simp: lexer_next.simps [of l] Let_def start_def [symmetric] emit_def token_ok_def
          intro: lexer_wf_move)
  next
    case comment
    let ?i = "comment_end (buffer l) (start + 2)"
    have i: "index l \<le> ?i" "?i \<le> length (buffer l)"
      using comment ge scan_while_ge [of "start + 2"]
      by (auto simp: comment_end_def byte_at_def intro!: scan_while_le order_trans [OF _ scan_while_ge])
    have "lexer_next (l\<lparr>index := ?i\<rparr>) = Inr (t, l')"
      using comment \<open>lexer_next l = Inr (t, l')\<close>
      by (simp add: lexer_next.simps [of l] Let_def start_def [symmetric])
    with "1.IH" [OF comment(1) refl refl] comment wf i
    have "lexer_wf l' \<and> token_ok (l\<lparr>index := ?i\<rparr>) t l'"
      by (simp add: start_def [symmetric] lexer_wf_move)
    then show ?thesis using i by (auto simp: token_ok_def)
  next
    case byte
    have "lexer_next l = lex_byte l start"
      unfolding lexer_next.simps [of l] Let_def start_def [symmetric]
      by (rule trans [OF if_not_P [OF byte(1)] trans [OF if_not_P if_not_P [OF byte(3)]]])
        (simp add: byte(2) not_le)
    with \<open>lexer_next l = Inr (t, l')\<close> have "lex_byte l start = Inr (t, l')" by simp
    with wf ge byte show ?thesis by (intro lex_byte_ok)
  qed
qed

end
