(* ===== verification/Sla_Systems.thy ===== *)
theory Sla_Systems
  imports Main
begin

text \<open>
  Step relations with an invariant, as interfaces: a system whose steps keep an invariant, and one
  that in addition never gets stuck before its final states and cannot run for ever.  The
  concurrent programs and the scanner are interpretations.
\<close>

locale safe_system =
  fixes initial :: "'s \<Rightarrow> bool"
    and step :: "'s \<Rightarrow> 's \<Rightarrow> bool"
    and inv :: "'s \<Rightarrow> bool"
  assumes inv_initial: "initial s \<Longrightarrow> inv s"
    and inv_step: "inv s \<Longrightarrow> step s s' \<Longrightarrow> inv s'"
begin

lemma inv_star: "step\<^sup>*\<^sup>* s s' \<Longrightarrow> inv s \<Longrightarrow> inv s'"
  by (induction rule: rtranclp_induct) (auto intro: inv_step)

lemma reachable_inv: "initial s \<Longrightarrow> step\<^sup>*\<^sup>* s s' \<Longrightarrow> inv s'"
  by (blast intro: inv_star inv_initial)

end

locale ending_system = safe_system initial step inv
  for initial :: "'s \<Rightarrow> bool"
    and step :: "'s \<Rightarrow> 's \<Rightarrow> bool"
    and inv :: "'s \<Rightarrow> bool" +
  fixes final :: "'s \<Rightarrow> bool"
    and todo :: "'s \<Rightarrow> nat"
  assumes progress: "inv s \<Longrightarrow> \<not> final s \<Longrightarrow> \<exists>s'. step s s'"
    and decreases: "inv s \<Longrightarrow> step s s' \<Longrightarrow> todo s' < todo s"
begin

lemma stuck_final: "initial s \<Longrightarrow> step\<^sup>*\<^sup>* s s' \<Longrightarrow> (\<nexists>s''. step s' s'') \<Longrightarrow> final s'"
  using reachable_inv progress by blast

lemma run_bounded: "(step ^^ n) s s' \<Longrightarrow> inv s \<Longrightarrow> n + todo s' \<le> todo s \<and> inv s'"
proof (induction n arbitrary: s')
  case (Suc n)
  then obtain u where "(step ^^ n) s u" "step u s'" by auto
  with Suc.IH [of u] Suc.prems decreases [of u s'] inv_step [of u s'] show ?case by simp
qed simp

lemma can_finish: "inv s \<Longrightarrow> \<exists>s'. step\<^sup>*\<^sup>* s s' \<and> final s'"
proof (induction "todo s" arbitrary: s rule: less_induct)
  case less
  show ?case
  proof (cases "final s")
    case False
    with less.prems progress obtain u where u: "step s u" by blast
    with less decreases inv_step obtain s' where "step\<^sup>*\<^sup>* u s'" "final s'" by blast
    with u show ?thesis by (meson converse_rtranclp_into_rtranclp)
  qed auto
qed

text \<open>Every run ends within \<open>todo\<close> steps, and where no step is left it is final.\<close>

lemma ends:
  assumes "initial s"
  shows "((step ^^ n) s s' \<longrightarrow> n \<le> todo s) \<and>
    (step\<^sup>*\<^sup>* s s' \<and> (\<nexists>s''. step s' s'') \<longrightarrow> final s') \<and> (\<exists>s'. step\<^sup>*\<^sup>* s s' \<and> final s')"
  using run_bounded [of n s s'] stuck_final [OF assms, of s'] can_finish [of s] inv_initial [OF assms]
  by auto

end

end
