(* ===== verification/Sla_Lexer_Run.thy ===== *)
theory Sla_Lexer_Run
  imports Sla_Lexer Sla_Systems
begin

text \<open>
  Running the scanner of \<open>src/lexer.zig\<close>: the tokens of successive calls of \<open>next\<close>, their
  order and the end of the input; the scanner reads a suffix of a buffer as it reads the suffix
  alone; and a program printed as lexemes with spaces between them is scanned back.
\<close>

section \<open>Successive calls of next\<close>

primrec lexer_run :: "nat \<Rightarrow> lexer \<Rightarrow> lexer_panic + token list \<times> lexer" where
  "lexer_run 0 l = Inr ([], l)"
| "lexer_run (Suc n) l =
     (case lexer_next l of
        Inl p \<Rightarrow> Inl p
      | Inr (t, l') \<Rightarrow>
          (case lexer_run n l' of Inl p \<Rightarrow> Inl p | Inr (ts, m) \<Rightarrow> Inr (t # ts, m)))"

text \<open>The method on a byte that is neither template text nor the start of a comment.\<close>

lemma lexer_next_byte:
  assumes "\<not> in_template l" "skipWhitespace (buffer l) (index l) < length (buffer l)"
    and "\<not> (buffer l ! skipWhitespace (buffer l) (index l) = CHR ''/'' \<and>
      byte_at (buffer l) (skipWhitespace (buffer l) (index l) + 1) (CHR ''/''))"
  shows "lexer_next l = lex_byte l (skipWhitespace (buffer l) (index l))"
  unfolding lexer_next.simps [of l] Let_def
  by (rule trans [OF if_not_P [OF assms(1)] trans [OF if_not_P if_not_P [OF assms(3)]]])
    (use assms(2) in \<open>simp add: not_le\<close>)

lemma lex_byte_total:
  assumes "lexer_wf l" "length (buffer l) < 65536"
    "index l \<le> start" "start < length (buffer l)"
  shows "\<exists>r. lex_byte l start = Inr r"
  using assms lex_open_brace_total [of l]
  by (auto simp: lex_byte_def Let_def case_prod_beta split: option.split sum.split)

lemma lexer_next_total:
  "lexer_wf l \<Longrightarrow> length (buffer l) < 65536 \<Longrightarrow> \<exists>r. lexer_next l = Inr r"
proof (induction l rule: lexer_next.induct)
  case (1 l)
  define start where "start = skipWhitespace (buffer l) (index l)"
  have ge: "index l \<le> start" by (simp add: start_def skipWhitespace_def scan_while_ge)
  show ?case
  proof (cases "\<not> in_template l \<and> start < length (buffer l)")
    case False
    then show ?thesis
      by (auto simp: lexer_next.simps [of l] Let_def start_def)
  next
    case True
    show ?thesis
    proof (cases "buffer l ! start = CHR ''/'' \<and> byte_at (buffer l) (start + 1) (CHR ''/'')")
      case comment: True
      let ?i = "comment_end (buffer l) (start + 2)"
      have i: "index l \<le> ?i" "?i \<le> length (buffer l)"
        using comment ge scan_while_ge [of "start + 2"]
        by (auto simp: comment_end_def byte_at_def
              intro!: scan_while_le order_trans [OF _ scan_while_ge])
      with "1.IH" [OF _ refl refl] True comment "1.prems"
      have "\<exists>r. lexer_next (l\<lparr>index := ?i\<rparr>) = Inr r"
        by (simp add: start_def [symmetric] lexer_wf_move)
      then show ?thesis
        using True comment by (simp add: lexer_next.simps [of l] Let_def start_def [symmetric])
    next
      case byte: False
      have "lexer_next l = lex_byte l start"
        unfolding start_def using True byte unfolding start_def by (intro lexer_next_byte) simp_all
      then show ?thesis using lex_byte_total [OF "1.prems" ge] True by simp
    qed
  qed
qed

text \<open>The tokens lie one after another in the buffer, from a position on.\<close>

fun tokens_from :: "nat \<Rightarrow> token list \<Rightarrow> bool" where
  "tokens_from i [] = True"
| "tokens_from i (t # ts) =
     (i \<le> loc_start t \<and> loc_start t \<le> loc_end t \<and> tokens_from (loc_end t) ts)"

lemma lexer_run_ok:
  assumes "lexer_wf l" "length (buffer l) < 65536"
  shows "\<exists>ts l'. lexer_run n l = Inr (ts, l') \<and> lexer_wf l' \<and> buffer l' = buffer l \<and>
    length ts = n \<and> tokens_from (index l) ts \<and>
    (index l + n \<le> index l' \<or> length (buffer l) \<le> index l')"
  using assms
proof (induction n arbitrary: l)
  case (Suc n)
  from lexer_next_total [OF Suc.prems] obtain t l1 where n: "lexer_next l = Inr (t, l1)" by auto
  with lexer_next_ok Suc.prems have ok: "lexer_wf l1" "token_ok l t l1" by blast+
  with Suc.IH [of l1] Suc.prems obtain ts l' where
    r: "lexer_run n l1 = Inr (ts, l')" "lexer_wf l'" "buffer l' = buffer l" "length ts = n"
      "tokens_from (index l1) ts"
      "index l1 + n \<le> index l' \<or> length (buffer l) \<le> index l'"
    by (auto simp: token_ok_def)
  have "index l < index l1 \<or> length (buffer l) \<le> index l1"
    "index l \<le> loc_start t" "loc_start t \<le> loc_end t" "loc_end t = index l1"
    using ok by (auto simp: token_ok_def split: if_splits)
  moreover have "length (buffer l) \<le> index l1 \<Longrightarrow> length (buffer l) \<le> index l'"
  proof -
    assume "length (buffer l) \<le> index l1"
    with r(6) show ?thesis by auto
  qed
  ultimately show ?case using n r by auto
qed simp

text \<open>
  Calling \<open>next\<close> until the end of the buffer, as a system: it never gets stuck before the end and
  every call brings the end nearer.
\<close>

definition scan_step :: "lexer \<Rightarrow> lexer \<Rightarrow> bool" where
  "scan_step l l' \<longleftrightarrow> index l < length (buffer l) \<and> (\<exists>t. lexer_next l = Inr (t, l'))"

interpretation scanner: ending_system "\<lambda>l. l = lexer_init buf \<and> length buf < 65536" scan_step
    "\<lambda>l. lexer_wf l \<and> length (buffer l) < 65536" "\<lambda>l. length (buffer l) \<le> index l"
    "\<lambda>l. length (buffer l) - index l"
proof unfold_locales
  fix l l' assume l: "lexer_wf l \<and> length (buffer l) < 65536" and "scan_step l l'"
  then obtain t where t: "lexer_next l = Inr (t, l')" "index l < length (buffer l)"
    by (auto simp: scan_step_def)
  with l lexer_next_ok have ok: "lexer_wf l'" "token_ok l t l'" by blast+
  then show "lexer_wf l' \<and> length (buffer l') < 65536" using l by (auto simp: token_ok_def)
  show "length (buffer l') - index l' < length (buffer l) - index l"
    using ok t by (auto simp: token_ok_def split: if_splits)
next
  fix l assume "lexer_wf l \<and> length (buffer l) < 65536" "\<not> length (buffer l) \<le> index l"
  then show "\<exists>l'. scan_step l l'"
    using lexer_next_total [of l] by (auto simp: scan_step_def)
qed (auto simp: lexer_wf_init, simp add: lexer_init_def)

text \<open>Past the end of the buffer the scanner stays where it is.\<close>

lemma scan_past_end:
  assumes "length buf \<le> i"
  shows "scan_while P buf i = i" "scan_template buf i = i" "byte_at buf i c = False"
    "byte_at buf (Suc i) c = False"
  using assms
  by (simp_all add: scan_while.simps [of P buf i] scan_template.simps [of buf i] class_at_def
      byte_at_def)

lemma lexer_next_at_end:
  assumes "length (buffer l) \<le> index l"
  shows "lexer_next l =
    Inr (\<lparr>tok_tag = (if in_template l then T_invalid else T_eof), loc_start = index l,
          loc_end = index l\<rparr>, l)"
  using assms
  by (simp add: lexer_next.simps [of l] nextTemplate_def skipWhitespace_def Let_def
      scan_past_end emit_def)

text \<open>C10: the scanner is safe and makes progress.  On every buffer below 64 KiB any number of
  calls of \<open>next\<close> returns (the 16-bit interpolation depth never overflows), keeps the invariant,
  yields tokens in the order of the buffer without overlap, and after as many calls as the buffer
  has bytes the end is reached.\<close>

theorem scanner_runs:
  assumes "length buf < 65536"
  shows "\<exists>ts l'. lexer_run n (lexer_init buf) = Inr (ts, l') \<and> lexer_wf l' \<and> length ts = n \<and>
    tokens_from 0 ts \<and> index l' \<le> length buf + 1 \<and> (length buf \<le> n \<longrightarrow> length buf \<le> index l')"
proof -
  have "lexer_wf (lexer_init buf)" "buffer (lexer_init buf) = buf" "index (lexer_init buf) = 0"
    by (simp_all add: lexer_wf_init) (simp_all add: lexer_init_def)
  with lexer_run_ok [of "lexer_init buf" n] assms show ?thesis
    by (fastforce simp: lexer_wf_def)
qed

theorem scanner_runs_witness:
  "\<exists>ts l'. lexer_run 3 (lexer_init ''a`b'') = Inr (ts, l') \<and> lexer_wf l' \<and> length ts = 3 \<and>
    tokens_from 0 ts \<and> index l' \<le> 4 \<and> 3 \<le> index l'"
proof -
  have len: "length ''a`b'' = 3" by simp
  show ?thesis using scanner_runs [of "''a`b''" 3, unfolded len] by simp
qed

section \<open>A suffix of a buffer\<close>

definition shift_token :: "nat \<Rightarrow> token \<Rightarrow> token" where
  "shift_token n t = \<lparr>tok_tag = tok_tag t, loc_start = n + loc_start t, loc_end = n + loc_end t\<rparr>"

definition shift_lexer :: "string \<Rightarrow> lexer \<Rightarrow> lexer" where
  "shift_lexer pre l = l\<lparr>buffer := pre @ buffer l, index := length pre + index l\<rparr>"

lemma at_shift [simp]:
  "byte_at (pre @ buf) (length pre + i) c = byte_at buf i c"
  "class_at P (pre @ buf) (length pre + i) = class_at P buf i"
  "byte_at (pre @ buf) (Suc (length pre + i)) c = byte_at buf (Suc i) c"
  "class_at P (pre @ buf) (Suc (length pre + i)) = class_at P buf (Suc i)"
  "byte_at (pre @ buf) (Suc (Suc (length pre + i))) c = byte_at buf (Suc (Suc i)) c"
  using nth_append_length_plus [of pre buf i] nth_append_length_plus [of pre buf "Suc i"]
    nth_append_length_plus [of pre buf "Suc (Suc i)"]
  by (simp_all add: byte_at_def class_at_def)

lemma scan_while_shift:
  "scan_while P (pre @ buf) (length pre + i) = length pre + scan_while P buf i"
proof (induction P buf i rule: scan_while.induct)
  case (1 P buf i)
  then show ?case
    by (simp add: scan_while.simps [of P buf i] scan_while.simps [of P "pre @ buf"])
qed

lemma scan_string_shift:
  "scan_string (pre @ buf) (length pre + i) = length pre + scan_string buf i"
proof (induction buf i rule: scan_string.induct)
  case (1 buf i)
  then show ?case
    by (auto simp: scan_string.simps [of buf i] scan_string.simps [of "pre @ buf" "length pre + i"])
qed

lemma scan_template_shift:
  "scan_template (pre @ buf) (length pre + i) = length pre + scan_template buf i"
proof (induction buf i rule: scan_template.induct)
  case (1 buf i)
  then show ?case
    by (auto simp: scan_template.simps [of buf i]
        scan_template.simps [of "pre @ buf" "length pre + i"])
qed

lemma scan_hex_shift:
  "scan_hex (pre @ buf) (length pre + i) = length pre + scan_hex buf i"
proof (induction buf i rule: scan_hex.induct)
  case (1 buf i)
  then show ?case
    by (auto simp: scan_hex.simps [of buf i] scan_hex.simps [of "pre @ buf" "length pre + i"]
        hex_continues_def)
qed

lemma scan_decimal_shift:
  "scan_decimal (pre @ buf) (length pre + i) f = map_prod ((+) (length pre)) id (scan_decimal buf i f)"
proof (induction buf i f rule: scan_decimal.induct)
  case (1 buf i f)
  have "dec_continues (pre @ buf) (length pre + i) = dec_continues buf i"
    by (auto simp: dec_continues_def Let_def)
  with 1 show ?case
    by (simp add: scan_decimal.simps [of buf i] scan_decimal.simps [of "pre @ buf" "length pre + i"])
qed

lemmas scan_shift = scan_while_shift scan_string_shift scan_template_shift scan_hex_shift
  scan_decimal_shift

lemma scan_shift_Suc:
  "scan_while P (pre @ buf) (Suc (length pre + i)) = length pre + scan_while P buf (Suc i)"
  "scan_while P (pre @ buf) (Suc (Suc (length pre + i))) = length pre + scan_while P buf (Suc (Suc i))"
  "scan_string (pre @ buf) (Suc (length pre + i)) = length pre + scan_string buf (Suc i)"
  "scan_hex (pre @ buf) (Suc (length pre + i)) = length pre + scan_hex buf (Suc i)"
  "scan_hex (pre @ buf) (Suc (Suc (length pre + i))) = length pre + scan_hex buf (Suc (Suc i))"
  using scan_while_shift [of P pre buf "Suc i"] scan_while_shift [of P pre buf "Suc (Suc i)"]
    scan_string_shift [of pre buf "Suc i"] scan_hex_shift [of pre buf "Suc i"]
    scan_hex_shift [of pre buf "Suc (Suc i)"]
  by simp_all

lemma punct_shift:
  "punct (pre @ buf) c (length pre + i) = map_option (map_prod id ((+) (length pre))) (punct buf c i)"
  unfolding punct_def by (simp only: at_shift add_2_eq_Suc' Suc_eq_plus1 [symmetric] if_distrib
      [of "map_option (map_prod id ((+) (length pre)))"] option.map map_prod_simp id_apply
      add_Suc_right cong: if_cong)

lemma slice_shift: "slice (pre @ buf) (length pre + i) (length pre + j) = slice buf i j"
  by (simp add: slice_def)

lemma lex_string_shift:
  "lex_string (pre @ buf) (length pre + i) = map_prod id ((+) (length pre)) (lex_string buf i)"
  by (simp add: lex_string_def Let_def scan_shift)

lemma lex_name_shift:
  "lex_name (pre @ buf) (length pre + s) (length pre + i) =
    map_prod id ((+) (length pre)) (lex_name buf s i)"
  by (simp add: lex_name_def Let_def scan_shift slice_shift)

lemma lex_number_shift:
  "lex_number (pre @ buf) c (length pre + i) = map_prod id ((+) (length pre)) (lex_number buf c i)"
  unfolding lex_number_def at_shift
  by (simp only: if_distrib [of "map_prod id ((+) (length pre))"] map_prod_simp id_apply
      Suc_eq_plus1 [symmetric] add_Suc_right [symmetric] scan_shift Let_def case_prod_beta
      fst_map_prod snd_map_prod)

abbreviation shift_result ::
  "string \<Rightarrow> lexer_panic + token \<times> lexer \<Rightarrow> lexer_panic + token \<times> lexer" where
  "shift_result pre \<equiv> map_sum id (map_prod (shift_token (length pre)) (shift_lexer pre))"

lemma emit_shift:
  "emit (shift_lexer pre l) (length pre + s) t (length pre + i) =
    map_prod (shift_token (length pre)) (shift_lexer pre) (emit l s t i)"
  by (simp add: emit_def shift_lexer_def shift_token_def)

lemma shift_lexer_sel [simp]:
  "buffer (shift_lexer pre l) = pre @ buffer l" "index (shift_lexer pre l) = length pre + index l"
  "in_template (shift_lexer pre l) = in_template l"
  "interp_depth (shift_lexer pre l) = interp_depth l"
  "tmpl_stack (shift_lexer pre l) = tmpl_stack l" "tmpl_sp (shift_lexer pre l) = tmpl_sp l"
  by (simp_all add: shift_lexer_def)

lemma nextTemplate_shift:
  "nextTemplate (shift_lexer pre l) =
    map_prod (shift_token (length pre)) (shift_lexer pre) (nextTemplate l)"
  by (simp add: nextTemplate_def Let_def scan_shift emit_def shift_token_def shift_lexer_def)

lemma lex_byte_shift:
  assumes "s < length (buffer l)"
  shows "lex_byte (shift_lexer pre l) (length pre + s) = shift_result pre (lex_byte l s)"
proof -
  have c: "(pre @ buffer l) ! (length pre + s) = buffer l ! s" by simp
  have e: "emit (shift_lexer pre m) (length pre + s) t (Suc (length pre + s)) =
      map_prod (shift_token (length pre)) (shift_lexer pre) (emit m s t (Suc s))" for m t
    using emit_shift [of pre m s t "Suc s"] by simp
  have S: "length pre + s + 1 = length pre + (s + 1)" by simp
  have open_b: "lex_open_brace (shift_lexer pre l) = map_sum id (shift_lexer pre) (lex_open_brace l)"
    by (simp add: lex_open_brace_def shift_lexer_def)
  have close_b: "lex_close_brace (shift_lexer pre l) = shift_lexer pre (lex_close_brace l)"
    by (simp add: lex_close_brace_def shift_lexer_def)
  have tick: "lex_backtick (shift_lexer pre l) (length pre + s) (length pre + i) =
      map_prod (shift_token (length pre)) (shift_lexer pre) (lex_backtick l s i)" for i
    by (simp add: lex_backtick_def emit_def shift_token_def shift_lexer_def)
  show ?thesis
    unfolding lex_byte_def Let_def shift_lexer_sel c S open_b close_b tick lex_string_shift
      lex_name_shift lex_number_shift punct_shift emit_shift
    by (simp add: case_prod_beta emit_shift e split: sum.split option.split)
qed

lemma lexer_next_shift:
  "lexer_next (shift_lexer pre l) = shift_result pre (lexer_next l)"
proof (induction l rule: lexer_next.induct)
  case (1 l)
  define start where "start = skipWhitespace (buffer l) (index l)"
  have start': "skipWhitespace (pre @ buffer l) (length pre + index l) = length pre + start"
    by (simp add: start_def skipWhitespace_def scan_while_shift)
  show ?case
  proof (cases "\<not> in_template l \<and> start < length (buffer l)")
    case False
    then show ?thesis
      by (auto simp: lexer_next.simps [of l] lexer_next.simps [of "shift_lexer pre l"] Let_def
          start_def [symmetric] start' nextTemplate_shift emit_shift)
  next
    case True
    have c: "(pre @ buffer l) ! (length pre + start) = buffer l ! start" by simp
    have S: "length pre + start + 1 = length pre + (start + 1)"
      "length pre + start + 2 = length pre + (start + 2)" by simp_all
    show ?thesis
    proof (cases "buffer l ! start = CHR ''/'' \<and> byte_at (buffer l) (start + 1) (CHR ''/'')")
      case comment: True
      have "comment_end (pre @ buffer l) (length pre + (start + 2)) =
          length pre + comment_end (buffer l) (start + 2)"
        by (simp only: comment_end_def scan_while_shift)
      then have "(shift_lexer pre l)\<lparr>index := comment_end (pre @ buffer l) (length pre + start + 2)\<rparr> =
          shift_lexer pre (l\<lparr>index := comment_end (buffer l) (start + 2)\<rparr>)"
        by (simp add: shift_lexer_def)
      then show ?thesis
        using 1 [OF _ refl start_def] True comment
        by (simp add: lexer_next.simps [of l] lexer_next.simps [of "shift_lexer pre l"] Let_def
            start_def [symmetric] start')
    next
      case byte: False
      have "lexer_next l = lex_byte l start"
        unfolding start_def using True byte unfolding start_def by (intro lexer_next_byte) simp_all
      moreover have "lexer_next (shift_lexer pre l) = lex_byte (shift_lexer pre l) (length pre + start)"
        unfolding lexer_next.simps [of "shift_lexer pre l"] Let_def shift_lexer_sel start'
        by (rule trans [OF if_not_P trans [OF if_not_P if_not_P]])
          (use True byte in \<open>simp_all add: not_le\<close>)
      ultimately show ?thesis using True by (simp only: lex_byte_shift)
    qed
  qed
qed

text \<open>Scanning is local.  A scanner placed inside a larger buffer yields the tokens of the
  suffix alone, with every location moved by the length of the prefix; this is what the parser
  relies on when it starts a fresh scanner at \<open>buffer[loc.start..]\<close>.\<close>

lemma lexer_run_shift:
  "lexer_run n (shift_lexer pre l) =
    map_sum id (map_prod (map (shift_token (length pre))) (shift_lexer pre)) (lexer_run n l)"
proof (induction n arbitrary: l)
  case (Suc n)
  show ?case
    by (cases "lexer_next l"; cases "lexer_run n (snd (projr (lexer_next l)))")
      (auto simp: lexer_next_shift Suc split: sum.split)
qed simp

section \<open>Printing lexemes\<close>

datatype lexeme = Lex_word string | Lex_number string | Lex_punct punctuator

primrec spell_punct :: "punctuator \<Rightarrow> string" where
  "spell_punct P_plus = ''+''"
| "spell_punct P_plus_equal = ''+=''"
| "spell_punct P_minus_equal = ''-=''"
| "spell_punct P_asterisk_equal = ''*=''"
| "spell_punct P_slash_equal = ''/=''"
| "spell_punct P_percent_equal = ''%=''"
| "spell_punct P_pipe_equal = ''|=''"
| "spell_punct P_ampersand_equal = ''&=''"
| "spell_punct P_minus = ''-''"
| "spell_punct P_asterisk = ''*''"
| "spell_punct P_slash = ''/''"
| "spell_punct P_percent = ''%''"
| "spell_punct P_equal = ''=''"
| "spell_punct P_equal_equal = ''==''"
| "spell_punct P_bang_equal = ''!=''"
| "spell_punct P_less_equal = ''<=''"
| "spell_punct P_greater_equal = ''>=''"
| "spell_punct P_ampersand = ''&''"
| "spell_punct P_amp_amp = ''&&''"
| "spell_punct P_caret = ''^''"
| "spell_punct P_bang = ''!''"
| "spell_punct P_pipe = ''|''"
| "spell_punct P_pipe_pipe = ''||''"
| "spell_punct P_less_less = ''<<''"
| "spell_punct P_greater_greater = ''>>''"
| "spell_punct P_spaceship = ''<=>''"
| "spell_punct P_dot = ''.''"
| "spell_punct P_comma = '',''"
| "spell_punct P_semicolon = '';''"
| "spell_punct P_colon = '':''"
| "spell_punct P_double_colon = ''::''"
| "spell_punct P_l_paren = ''(''"
| "spell_punct P_r_paren = '')''"
| "spell_punct P_l_brace = ''{''"
| "spell_punct P_r_brace = ''}''"
| "spell_punct P_l_bracket = ''[''"
| "spell_punct P_r_bracket = '']''"
| "spell_punct P_less_than = ''<''"
| "spell_punct P_greater_than = ''>''"
| "spell_punct P_arrow = ''->''"
| "spell_punct P_fat_arrow = ''=>''"
| "spell_punct P_range = ''..''"
| "spell_punct P_question_mark = ''?''"
| "spell_punct P_question_question = ''??''"
| "spell_punct P_question_question_equal = ''??=''"
| "spell_punct P_question_dot = ''?.''"
| "spell_punct P_at = ''@''"

primrec spell :: "lexeme \<Rightarrow> string" where
  "spell (Lex_word w) = w"
| "spell (Lex_number w) = w"
| "spell (Lex_punct p) = spell_punct p"

primrec lexeme_tag :: "lexeme \<Rightarrow> tag" where
  "lexeme_tag (Lex_word w) = checkKeyword w"
| "lexeme_tag (Lex_number w) = T_int_literal"
| "lexeme_tag (Lex_punct p) = T_punct p"

primrec lexeme_ok :: "lexeme \<Rightarrow> bool" where
  "lexeme_ok (Lex_word w) \<longleftrightarrow> w \<noteq> [] \<and> is_name_start (hd w) \<and> list_all is_name_char w"
| "lexeme_ok (Lex_number w) \<longleftrightarrow> w \<noteq> [] \<and> list_all is_digit w"
| "lexeme_ok (Lex_punct p) \<longleftrightarrow> True"

lemma scan_while_all:
  assumes "list_all P w" "\<not> class_at P (w @ suf) (length w)" "k \<le> length w"
  shows "scan_while P (w @ suf) k = length w"
  using assms(3)
proof (induction "length w - k" arbitrary: k)
  case 0
  with assms show ?case by (simp add: scan_while.simps [of P "w @ suf" k])
next
  case (Suc n)
  then have "k < length w" by simp
  moreover from this assms(1) have "class_at P (w @ suf) k"
    by (simp add: class_at_def nth_append list_all_length)
  ultimately show ?case
    using Suc by (simp add: scan_while.simps [of P "w @ suf" k])
qed

lemma scan_decimal_all:
  assumes "list_all is_digit w" "k \<le> length w"
  shows "scan_decimal (w @ CHR '' '' # suf) k False = (length w, False)"
  using assms(2)
proof (induction "length w - k" arbitrary: k)
  case 0
  then show ?case
    by (simp add: scan_decimal.simps [of _ k] dec_continues_def nth_append Let_def byte_class)
next
  case (Suc n)
  then have k: "k < length w" by simp
  then have d: "is_digit (w ! k)" using assms(1) by (simp add: list_all_length)
  then have "w ! k \<noteq> CHR ''.''" "w ! k \<noteq> CHR ''_''" by (auto simp: byte_class)
  with k d Suc show ?case
    by (simp add: scan_decimal.simps [of _ k] dec_continues_def nth_append Let_def)
qed

lemma digit_not_x: "is_digit c \<Longrightarrow> c \<noteq> CHR ''x'' \<and> c \<noteq> CHR ''X''"
  by (auto simp: byte_class)

lemma digit_alnum: "is_digit c \<Longrightarrow> is_alphanumeric c"
  by (simp add: byte_class)

lemma space_no_name: "\<not> is_name_char (CHR '' '')" "\<not> is_alphanumeric (CHR '' '')"
  by (simp_all add: byte_class is_name_char_def)

lemma name_start_other:
  assumes "is_name_start c"
  shows "c \<noteq> CHR 0x7B" "c \<noteq> CHR 0x7D" "c \<noteq> CHR 0x22" "c \<noteq> CHR ''/''" "\<not> is_space c"
  using assms by (auto simp: is_name_start_def byte_class is_space_def)

lemma digit_other:
  assumes "is_digit c"
  shows "c \<noteq> CHR 0x7B" "c \<noteq> CHR 0x7D" "c \<noteq> CHR 0x22" "c \<noteq> CHR ''/''" "\<not> is_space c"
    "\<not> is_name_start c"
  using assms by (auto simp: is_name_start_def byte_class is_space_def)

lemma lex_byte_word:
  assumes "lexeme_ok (Lex_word w)" "buffer l = w @ CHR '' '' # suf"
  shows "lex_byte l 0 = Inr (emit l 0 (checkKeyword w) (length w))"
proof -
  from assms obtain c w' where w: "w = c # w'" "is_name_start c" by (cases w) auto
  have "scan_while is_name_char (w @ CHR '' '' # suf) 1 = length w"
    using assms w by (intro scan_while_all) (auto simp: class_at_def space_no_name)
  then show ?thesis
    using w name_start_other [of c] assms(2)
    by (simp add: lex_byte_def Let_def lex_name_def slice_def)
qed

lemma lex_byte_number:
  assumes "lexeme_ok (Lex_number w)" "buffer l = w @ CHR '' '' # suf"
  shows "lex_byte l 0 = Inr (emit l 0 T_int_literal (length w))"
proof -
  from assms obtain c w' where w: "w = c # w'" "is_digit c" by (cases w) auto
  have "scan_decimal (w @ CHR '' '' # suf) 1 False = (length w, False)"
    using assms w by (intro scan_decimal_all) auto
  moreover have "scan_while is_alphanumeric (w @ CHR '' '' # suf) (length w) = length w"
    using assms by (intro scan_while_all)
      (auto simp: class_at_def space_no_name list_all_iff digit_alnum)
  moreover have "\<not> byte_at (w @ CHR '' '' # suf) 1 (CHR ''x'')"
    "\<not> byte_at (w @ CHR '' '' # suf) 1 (CHR ''X'')"
    using assms(1) w by (cases w'; auto simp: byte_at_def dest: digit_not_x)+
  ultimately show ?thesis
    using w digit_other [of c] assms(2)
    by (simp add: lex_byte_def Let_def lex_number_def)
qed

lemma punct_spell:
  assumes "p \<noteq> P_l_brace" "p \<noteq> P_r_brace"
  shows "punct (spell_punct p @ CHR '' '' # suf) (hd (spell_punct p)) 1 =
    Some (p, length (spell_punct p))"
  using assms by (cases p) (simp_all add: punct_def byte_at_def class_at_def byte_class)

lemma spell_punct_start:
  shows "spell_punct p \<noteq> []" "\<not> is_name_start (hd (spell_punct p))"
    "\<not> is_digit (hd (spell_punct p))" "hd (spell_punct p) \<noteq> CHR 0x22"
    "hd (spell_punct p) \<noteq> CHR 0x60" "\<not> is_space (hd (spell_punct p))"
    "hd (spell_punct p) = CHR ''/'' \<Longrightarrow> \<not> byte_at (spell_punct p @ CHR '' '' # suf) 1 (CHR ''/'')"
    "hd (spell_punct p) = CHR 0x7B \<longleftrightarrow> p = P_l_brace"
    "hd (spell_punct p) = CHR 0x7D \<longleftrightarrow> p = P_r_brace"
  by (cases p; simp add: is_name_start_def byte_class is_space_def byte_at_def)+

lemma lex_byte_punct:
  assumes "buffer l = spell_punct p @ CHR '' '' # suf" "interp_depth l = 0"
  shows "lex_byte l 0 = Inr (emit l 0 (T_punct p) (length (spell_punct p)))"
proof -
  have c: "buffer l ! 0 = hd (spell_punct p)"
    using assms spell_punct_start(1) [of p] by (cases "spell_punct p") auto
  show ?thesis
  proof (cases "p = P_l_brace \<or> p = P_r_brace")
    case True
    then show ?thesis using assms c
      by (auto simp: lex_byte_def Let_def lex_open_brace_def lex_close_brace_def)
  next
    case False
    with punct_spell [of p suf] show ?thesis
      unfolding lex_byte_def Let_def c using assms
      by (simp add: spell_punct_start)
  qed
qed

lemma lex_byte_lexeme:
  assumes "lexeme_ok x" "buffer l = spell x @ CHR '' '' # suf" "interp_depth l = 0"
  shows "lex_byte l 0 = Inr (emit l 0 (lexeme_tag x) (length (spell x)))"
  using assms by (cases x) (simp_all add: lex_byte_word lex_byte_number lex_byte_punct)

lemma lexeme_start:
  assumes "lexeme_ok x"
  shows "spell x \<noteq> []" "\<not> is_space (hd (spell x))"
    "hd (spell x) = CHR ''/'' \<Longrightarrow> \<not> byte_at (spell x @ CHR '' '' # suf) 1 (CHR ''/'')"
proof -
  have "spell x \<noteq> [] \<and> \<not> is_space (hd (spell x)) \<and>
    (hd (spell x) = CHR ''/'' \<longrightarrow> \<not> byte_at (spell x @ CHR '' '' # suf) 1 (CHR ''/''))"
  proof (cases x)
    case (Lex_word w)
    with assms name_start_other [of "hd w"] show ?thesis by simp
  next
    case (Lex_number w)
    with assms have "is_digit (hd w)" by (cases w) simp_all
    with Lex_number assms digit_other [of "hd w"] show ?thesis by simp
  next
    case (Lex_punct p)
    with spell_punct_start [of p] show ?thesis by simp
  qed
  then show "spell x \<noteq> []" "\<not> is_space (hd (spell x))"
    "hd (spell x) = CHR ''/'' \<Longrightarrow> \<not> byte_at (spell x @ CHR '' '' # suf) 1 (CHR ''/'')"
    by auto
qed

lemma lex_byte_index: "lex_byte (l\<lparr>index := i\<rparr>) s = lex_byte l s"
  by (simp add: lex_byte_def Let_def lex_open_brace_def lex_close_brace_def lex_backtick_def emit_def
      case_prod_beta split: option.split sum.split)

lemma lex_byte_lexeme_at:
  assumes "lexeme_ok x" "buffer l = pre @ spell x @ CHR '' '' # suf" "interp_depth l = 0"
  shows "lex_byte l (length pre) =
    Inr (emit l (length pre) (lexeme_tag x) (length pre + length (spell x)))"
proof -
  define m where "m = l\<lparr>buffer := spell x @ CHR '' '' # suf, index := 0\<rparr>"
  have l: "l\<lparr>index := length pre\<rparr> = shift_lexer pre m"
    using assms(2) by (simp add: m_def shift_lexer_def)
  have "lex_byte m 0 = Inr (emit m 0 (lexeme_tag x) (length (spell x)))"
    using assms by (intro lex_byte_lexeme) (simp_all add: m_def)
  moreover have "lex_byte (shift_lexer pre m) (length pre) = shift_result pre (lex_byte m 0)"
    using lex_byte_shift [of 0 m pre] by (simp add: m_def)
  ultimately have "lex_byte (shift_lexer pre m) (length pre) =
      Inr (emit (shift_lexer pre m) (length pre) (lexeme_tag x) (length pre + length (spell x)))"
    using emit_shift [of pre m 0 "lexeme_tag x" "length (spell x)"] by simp
  then show ?thesis
    by (simp add: l [symmetric] lex_byte_index) (simp add: emit_def)
qed

text \<open>One lexeme, after at most one space.\<close>

lemma lexer_next_lexeme:
  assumes x: "lexeme_ok x" and sp: "sp = [] \<or> sp = '' ''"
    and l: "buffer l = (pre @ sp) @ spell x @ CHR '' '' # suf" "index l = length pre"
      "\<not> in_template l" "interp_depth l = 0"
  shows "lexer_next l = Inr (emit l (length (pre @ sp)) (lexeme_tag x)
    (length (pre @ sp) + length (spell x)))"
proof -
  let ?b = "spell x @ CHR '' '' # suf"
  obtain c w where c: "spell x = c # w" using lexeme_start(1) [OF x] by (cases "spell x") auto
  have nsp: "\<not> is_space c" using lexeme_start(2) [OF x] c by simp
  have "skipWhitespace (sp @ ?b) 0 = length sp"
    using sp nsp c
    by (auto simp: skipWhitespace_def scan_while.simps [of _ _ 0] scan_while.simps [of _ _ "Suc 0"]
        class_at_def is_space_def)
  then have skip: "skipWhitespace (buffer l) (index l) = length (pre @ sp)"
    using scan_while_shift [of is_space pre "sp @ ?b" 0] by (simp add: skipWhitespace_def l)
  have "\<not> (?b ! 0 = CHR ''/'' \<and> byte_at ?b 1 (CHR ''/''))"
    using lexeme_start(3) [OF x, of suf] c by auto
  then have "\<not> (buffer l ! length (pre @ sp) = CHR ''/'' \<and>
      byte_at (buffer l) (length (pre @ sp) + 1) (CHR ''/''))"
    using at_shift(1) [of "pre @ sp" ?b 1] nth_append_length_plus [of "pre @ sp" ?b 0]
    unfolding l(1) by simp
  then have "lexer_next l = lex_byte l (length (pre @ sp))"
    by (intro lexer_next_byte [of l, unfolded skip]) (use l(3) c in \<open>simp_all add: l(1)\<close>)
  with lex_byte_lexeme_at [OF x l(1) l(4)] show ?thesis by simp
qed

text \<open>The printed program, one space after every lexeme, and where its tokens are.\<close>

definition print_lexemes :: "lexeme list \<Rightarrow> string" where
  "print_lexemes xs = concat (map (\<lambda>x. spell x @ '' '') xs)"

primrec place_tokens :: "nat \<Rightarrow> lexeme list \<Rightarrow> token list" where
  "place_tokens i [] = []"
| "place_tokens i (x # xs) =
     \<lparr>tok_tag = lexeme_tag x, loc_start = i, loc_end = i + length (spell x)\<rparr> #
     place_tokens (i + length (spell x) + 1) xs"

lemma lexer_run_lexemes:
  assumes "\<forall>x \<in> set xs. lexeme_ok x" "sp = [] \<or> sp = '' ''"
    and "buffer l = pre @ sp @ print_lexemes xs" "index l = length pre"
    and "\<not> in_template l" "interp_depth l = 0"
  shows "lexer_run (Suc (length xs)) l =
    Inr (place_tokens (length (pre @ sp)) xs @
           [\<lparr>tok_tag = T_eof, loc_start = length (buffer l), loc_end = length (buffer l)\<rparr>],
         l\<lparr>index := length (buffer l)\<rparr>)"
  using assms
proof (induction xs arbitrary: l pre sp)
  case Nil
  then have "skipWhitespace (buffer l) (index l) = length (buffer l)"
    using scan_while_shift [of is_space pre sp 0]
    by (auto simp: print_lexemes_def skipWhitespace_def scan_while.simps [of _ _ 0]
        scan_while.simps [of _ _ "Suc 0"] class_at_def is_space_def)
  with Nil show ?case
    by (simp add: lexer_next.simps [of l] Let_def emit_def print_lexemes_def)
next
  case (Cons x xs)
  have b: "buffer l = (pre @ sp) @ spell x @ CHR '' '' # print_lexemes xs"
    using Cons.prems by (simp add: print_lexemes_def)
  define l1 where "l1 = l\<lparr>index := length (pre @ sp @ spell x)\<rparr>"
  have "lexer_next l = Inr (emit l (length (pre @ sp)) (lexeme_tag x)
      (length (pre @ sp) + length (spell x)))"
    using Cons.prems by (intro lexer_next_lexeme [OF _ _ b]) auto
  moreover have "lexer_run (Suc (length xs)) l1 =
      Inr (place_tokens (length ((pre @ sp @ spell x) @ '' '')) xs @
        [\<lparr>tok_tag = T_eof, loc_start = length (buffer l1), loc_end = length (buffer l1)\<rparr>],
        l1\<lparr>index := length (buffer l1)\<rparr>)"
    using Cons.prems b by (intro Cons.IH) (auto simp: l1_def)
  ultimately show ?case
    by (simp add: emit_def l1_def add.assoc)
qed

text \<open>C11: printing and scanning.  Words, decimal numbers and punctuators printed with a space
  after each are scanned back to exactly their tags and places, then the end of the file, and the
  scanner ends in its initial state at the end of the buffer.\<close>

theorem scan_printed:
  assumes "\<forall>x \<in> set xs. lexeme_ok x"
  shows "lexer_run (Suc (length xs)) (lexer_init (print_lexemes xs)) =
    Inr (place_tokens 0 xs @ [\<lparr>tok_tag = T_eof, loc_start = length (print_lexemes xs),
           loc_end = length (print_lexemes xs)\<rparr>],
         (lexer_init (print_lexemes xs))\<lparr>index := length (print_lexemes xs)\<rparr>)"
  using lexer_run_lexemes [of xs "[]" "lexer_init (print_lexemes xs)" "[]"] assms
  by (simp add: lexer_init_def)

theorem scan_printed_witness:
  "lexer_run 6 (lexer_init ''let x1 = 42 ; '') =
    Inr ([\<lparr>tok_tag = T_keyword K_let, loc_start = 0, loc_end = 3\<rparr>,
          \<lparr>tok_tag = T_identifier, loc_start = 4, loc_end = 6\<rparr>,
          \<lparr>tok_tag = T_punct P_equal, loc_start = 7, loc_end = 8\<rparr>,
          \<lparr>tok_tag = T_int_literal, loc_start = 9, loc_end = 11\<rparr>,
          \<lparr>tok_tag = T_punct P_semicolon, loc_start = 12, loc_end = 13\<rparr>,
          \<lparr>tok_tag = T_eof, loc_start = 14, loc_end = 14\<rparr>],
         (lexer_init ''let x1 = 42 ; '')\<lparr>index := 14\<rparr>)"
  using scan_printed [of "[Lex_word ''let'', Lex_word ''x1'', Lex_punct P_equal, Lex_number ''42'',
    Lex_punct P_semicolon]"]
  by (simp add: print_lexemes_def is_name_start_def is_name_char_def byte_class checkKeyword_def
      keyword_table_def numeral_eq_Suc del: lexer_run.simps)

end
