(* ===== verification/Sla_Block_Span.thy ===== *)
theory Sla_Block_Span
  imports Sla_Lexer_Run
begin

text \<open>
  \<open>src/parser.zig\<close>: \<open>peekBlockSpan\<close> and \<open>skipBlockSpan\<close>, the two loops that find the end of a
  brace block by running the scanner.  Both keep a copy of the scanner's template state in local
  variables, the record \<open>span_state\<close>.  A loop that does not return is the value \<open>None\<close>.
\<close>

section \<open>The loops\<close>

record span_state =
  s_in_template :: bool
  s_interp_depth :: "16 word"
  s_tmpl_stack :: "16 word list"
  s_tmpl_sp :: nat
  s_depth :: nat
  s_end :: nat

datatype span_error = Syntax_error | Integer_overflow

datatype span_step = Continue span_state | Finish nat | Fail span_error

definition span_init :: "nat \<Rightarrow> nat \<Rightarrow> span_state" where
  "span_init d e = \<lparr>s_in_template = False, s_interp_depth = 0, s_tmpl_stack = replicate 8 0,
     s_tmpl_sp = 0, s_depth = d, s_end = e\<rparr>"

text \<open>\<open>interp_depth += 1\<close> on a \<open>u16\<close>, when it is positive.\<close>

definition bump_depth :: "span_state \<Rightarrow> span_state option" where
  "bump_depth s =
     (if s_interp_depth s > 0 then
        (if s_interp_depth s = - 1 then None
         else Some (s\<lparr>s_interp_depth := s_interp_depth s + 1\<rparr>))
      else Some s)"

definition push_template :: "span_state \<Rightarrow> span_state" where
  "push_template s = s\<lparr>s_tmpl_stack := (s_tmpl_stack s)[s_tmpl_sp s := s_interp_depth s],
     s_tmpl_sp := s_tmpl_sp s + 1, s_interp_depth := 0, s_in_template := True\<rparr>"

definition pop_template :: "span_state \<Rightarrow> span_state" where
  "pop_template s = s\<lparr>s_tmpl_sp := s_tmpl_sp s - 1,
     s_interp_depth := s_tmpl_stack s ! (s_tmpl_sp s - 1), s_in_template := False\<rparr>"

definition open_interp :: "span_state \<Rightarrow> span_state" where
  "open_interp s = s\<lparr>s_in_template := False, s_interp_depth := 1\<rparr>"

text \<open>The body of the loop of \<open>peekBlockSpan\<close> on one token; \<open>base\<close> is \<open>self.tok.loc.start\<close>.\<close>

definition peek_close_brace :: "nat \<Rightarrow> token \<Rightarrow> span_state \<Rightarrow> span_step" where
  "peek_close_brace base t s =
     (let s' = (if s_interp_depth s > 0 then s\<lparr>s_interp_depth := s_interp_depth s - 1\<rparr> else s)
      in if s_interp_depth s > 0 \<and> s_interp_depth s' = 0 then Continue (s'\<lparr>s_in_template := True\<rparr>)
         else if s_depth s' = 0 then Fail Syntax_error
         else if s_depth s' - 1 = 0 then Finish (base + loc_end t)
         else Continue (s'\<lparr>s_depth := s_depth s' - 1, s_end := base + loc_end t\<rparr>))"

definition peek_step :: "nat \<Rightarrow> token \<Rightarrow> span_state \<Rightarrow> span_step" where
  "peek_step base t s =
     (if tok_tag t = T_template_start then
        (if s_tmpl_sp s \<ge> length (s_tmpl_stack s) then Fail Syntax_error
         else Continue (push_template s))
      else if s_in_template s then
        (if tok_tag t = T_template_interp then Continue (open_interp s)
         else if tok_tag t = T_template_end then
           (if s_tmpl_sp s = 0 then Fail Syntax_error else Continue (pop_template s))
         else if tok_tag t = T_eof then Fail Syntax_error
         else Continue s)
      else if tok_tag t = T_template_interp then Continue (open_interp s)
      else if tok_tag t = T_punct P_l_brace then
        (case bump_depth s of
           None \<Rightarrow> Fail Integer_overflow
         | Some s' \<Rightarrow> Continue (s'\<lparr>s_depth := s_depth s' + 1, s_end := base + loc_end t\<rparr>))
      else if tok_tag t = T_punct P_r_brace then peek_close_brace base t s
      else if tok_tag t = T_eof then Fail Syntax_error
      else Continue s)"

partial_function (option) peek_loop ::
  "nat \<Rightarrow> lexer \<Rightarrow> span_state \<Rightarrow> (span_error + nat) option" where
  "peek_loop base l s =
     (case lexer_next l of
        Inl p \<Rightarrow> Some (Inl Integer_overflow)
      | Inr (t, l') \<Rightarrow>
          (case peek_step base t s of
             Fail e \<Rightarrow> Some (Inl e)
           | Finish e \<Rightarrow> Some (Inr e)
           | Continue s' \<Rightarrow> peek_loop base l' s'))"

text \<open>
  The parser's scanner and current token.  \<open>peekBlockSpan\<close> starts a fresh scanner at the current
  token and returns the bounds of the slice of the buffer.
\<close>

record parser =
  lex :: lexer
  tok :: token
  last_expected :: "string option"

definition peekBlockSpan :: "parser \<Rightarrow> (span_error + nat \<times> nat) option" where
  "peekBlockSpan p =
     (if tok_tag (tok p) \<noteq> T_punct P_l_brace then Some (Inl Syntax_error)
      else
        (let start = loc_start (tok p) in
         map_option (map_sum id (Pair start))
           (peek_loop start (lexer_init (drop start (buffer (lex p)))) (span_init 0 start))))"

definition advance :: "parser \<Rightarrow> span_error + parser" where
  "advance p = (case lexer_next (lex p) of
     Inl e \<Rightarrow> Inl Integer_overflow | Inr (t, l) \<Rightarrow> Inr (p\<lparr>lex := l, tok := t\<rparr>))"

text \<open>The body of the loop of \<open>skipBlockSpan\<close> on the current token, before it advances.\<close>

definition skip_step :: "token \<Rightarrow> span_state \<Rightarrow> span_error + span_state" where
  "skip_step t s =
     (if tok_tag t = T_template_start then
        (if s_tmpl_sp s \<ge> length (s_tmpl_stack s) then Inl Syntax_error
         else Inr (push_template s))
      else if s_in_template s then
        (if tok_tag t = T_template_interp then Inr (open_interp s)
         else if tok_tag t = T_template_end then
           (if s_tmpl_sp s = 0 then Inl Syntax_error else Inr (pop_template s))
         else Inr s)
      else if tok_tag t = T_template_interp then Inr (open_interp s)
      else if tok_tag t = T_punct P_l_brace then
        (case bump_depth s of
           None \<Rightarrow> Inl Integer_overflow
         | Some s' \<Rightarrow> Inr (s'\<lparr>s_depth := s_depth s' + 1, s_end := loc_end t\<rparr>))
      else if tok_tag t = T_punct P_r_brace then
        (let s' = (if s_interp_depth s > 0 then s\<lparr>s_interp_depth := s_interp_depth s - 1\<rparr> else s)
         in if s_interp_depth s > 0 \<and> s_interp_depth s' = 0
            then Inr (s'\<lparr>s_in_template := True, s_end := loc_end t\<rparr>)
            else Inr (s'\<lparr>s_depth := s_depth s' - 1, s_end := loc_end t\<rparr>))
      else Inr s)"

partial_function (option) skip_loop ::
  "parser \<Rightarrow> span_state \<Rightarrow> (span_error + parser \<times> span_state) option" where
  "skip_loop p s =
     (if s_depth s > 0 \<and> tok_tag (tok p) \<noteq> T_eof then
        (case skip_step (tok p) s of
           Inl e \<Rightarrow> Some (Inl e)
         | Inr s' \<Rightarrow>
             (case advance p of Inl e \<Rightarrow> Some (Inl e) | Inr p' \<Rightarrow> skip_loop p' s'))
      else Some (Inr (p, s)))"

definition skipBlockSpan :: "parser \<Rightarrow> (span_error + parser \<times> nat \<times> nat) option" where
  "skipBlockSpan p =
     (if tok_tag (tok p) \<noteq> T_punct P_l_brace then Some (Inl Syntax_error)
      else
        (case advance p of
           Inl e \<Rightarrow> Some (Inl e)
         | Inr p1 \<Rightarrow>
             (case skip_loop p1 (span_init 1 (loc_end (tok p))) of
                None \<Rightarrow> None
              | Some (Inl e) \<Rightarrow> Some (Inl e)
              | Some (Inr (p2, s)) \<Rightarrow>
                  (if s_depth s \<noteq> 0 then Some (Inl Syntax_error)
                   else Some (Inr (p2, loc_start (tok p), s_end s))))))"

declare peek_loop.simps [code] skip_loop.simps [code]

section \<open>The local variables follow the scanner\<close>

text \<open>What one call of \<open>next\<close> does to the template state, by the tag of its token.\<close>

definition tmpl_view :: "lexer \<Rightarrow> bool \<times> 16 word \<times> 16 word list" where
  "tmpl_view l = (in_template l, interp_depth l, take (tmpl_sp l) (tmpl_stack l))"

lemma last_take:
  assumes "0 < n" "n \<le> length xs"
  shows "last (take n xs) = xs ! (n - 1)"
proof -
  have "take n xs \<noteq> []" using assms by auto
  then show ?thesis using assms by (simp add: last_conv_nth min_absorb2)
qed

lemma take_Suc_update:
  "n < length xs \<Longrightarrow> take (Suc n) (xs[n := y]) = take n xs @ [y]"
  by (simp add: take_Suc_conv_app_nth)

definition view_step :: "tag \<Rightarrow> bool \<times> 16 word \<times> 16 word list \<Rightarrow> bool \<times> 16 word \<times> 16 word list" where
  "view_step t v = (case v of (b, d, ds) \<Rightarrow>
     (if t = T_template_start then (True, 0, ds @ [d])
      else if b \<and> t = T_template_interp then (False, 1, ds)
      else if b \<and> t = T_template_end then (False, last ds, butlast ds)
      else if \<not> b \<and> t = T_punct P_l_brace then (False, if 0 < d then d + 1 else d, ds)
      else if \<not> b \<and> t = T_punct P_r_brace
      then (if 0 < d then (d - 1 = 0, d - 1, ds) else v)
      else v))"

lemma nextTemplate_view:
  assumes "lexer_wf l" "in_template l" "nextTemplate l = (t, l')"
  shows "tmpl_view l' = view_step (tok_tag t) (tmpl_view l) \<and>
    (tok_tag t \<in> {T_invalid, T_template_string, T_template_interp, T_template_end})"
proof -
  have sp: "0 < tmpl_sp l" "tmpl_sp l \<le> length (tmpl_stack l)"
    using assms by (auto simp: lexer_wf_def)
  with assms show ?thesis
    by (auto simp: last_take butlast_take nextTemplate_def Let_def emit_def tmpl_view_def view_step_def split: if_splits)
qed

lemma punct_no_brace: "punct buf c i = Some (p, j) \<Longrightarrow> p \<noteq> P_l_brace \<and> p \<noteq> P_r_brace"
  by (simp add: punct_def split: if_splits)

definition plain_tag :: "tag \<Rightarrow> bool" where
  "plain_tag t \<longleftrightarrow> t \<notin> {T_eof, T_template_start, T_template_string, T_template_interp,
     T_template_end, T_punct P_l_brace, T_punct P_r_brace}"

lemma lex_byte_cases:
  assumes "lex_byte l start = Inr (t, l')"
  obtains (open_brace) m where "lex_open_brace l = Inr m"
      "emit m start (T_punct P_l_brace) (start + 1) = (t, l')"
  | (close_brace) "emit (lex_close_brace l) start (T_punct P_r_brace) (start + 1) = (t, l')"
  | (backtick) "lex_backtick l start (start + 1) = (t, l')"
  | (plain) tg i where "emit l start tg i = (t, l')" "plain_tag tg"
proof -
  let ?buf = "buffer l" and ?c = "buffer l ! start"
  have s: "plain_tag (fst (lex_string ?buf (start + 1)))"
    by (simp add: lex_string_def Let_def plain_tag_def)
  have w: "plain_tag (fst (lex_name ?buf start (start + 1)))"
    by (simp add: lex_name_def Let_def plain_tag_def checkKeyword_def split: option.split)
  have n: "plain_tag (fst (lex_number ?buf ?c (start + 1)))"
    by (simp add: lex_number_def Let_def plain_tag_def case_prod_beta)
  have p: "plain_tag (T_punct q)" if "punct ?buf ?c (start + 1) = Some (q, j)" for q j
    using punct_no_brace [OF that] by (simp add: plain_tag_def)
  have i: "plain_tag T_invalid" by (simp add: plain_tag_def)
  from assms s w n p i that show thesis
    by (auto simp only: lex_byte_def Let_def case_prod_beta sum.inject old.sum.simps
          option.inject prod.inject fst_conv snd_conv
        split: if_splits sum.splits option.splits prod.splits)
qed

lemma lex_byte_view:
  assumes "lexer_wf l" "\<not> in_template l" "lex_byte l start = Inr (t, l')"
  shows "tmpl_view l' = view_step (tok_tag t) (tmpl_view l) \<and>
    tok_tag t \<notin> {T_eof, T_template_string, T_template_interp, T_template_end} \<and>
    (tok_tag t = T_punct P_l_brace \<longrightarrow> interp_depth l \<noteq> - 1)"
  using assms(3)
proof (cases rule: lex_byte_cases)
  case (open_brace m)
  with assms(2) show ?thesis
    by (auto simp: emit_def lex_open_brace_def tmpl_view_def view_step_def word_gt_0 split: if_splits)
next
  case close_brace
  with assms(2) show ?thesis
    by (auto simp: emit_def lex_close_brace_def tmpl_view_def view_step_def split: if_splits)
next
  case backtick
  have "length (tmpl_stack l) = 8" using assms by (simp add: lexer_wf_def)
  with backtick assms(2) show ?thesis
    by (auto simp: emit_def lex_backtick_def tmpl_view_def view_step_def take_Suc_update
        split: if_splits)
next
  case (plain tg i)
  with assms(2) show ?thesis
    by (auto simp: emit_def tmpl_view_def view_step_def plain_tag_def)
qed

text \<open>One call of \<open>next\<close>, outside the end of the file.\<close>

lemma lexer_next_view:
  assumes "lexer_wf l" "lexer_next l = Inr (t, l')"
  shows "tmpl_view l' = view_step (tok_tag t) (tmpl_view l) \<and>
    (if in_template l then tok_tag t \<in> {T_invalid, T_template_string, T_template_interp, T_template_end}
     else tok_tag t \<notin> {T_template_string, T_template_interp, T_template_end}) \<and>
    (tok_tag t = T_punct P_l_brace \<longrightarrow> interp_depth l \<noteq> - 1)"
  using assms
proof (induction l rule: lexer_next.induct)
  case (1 l)
  define start where "start = skipWhitespace (buffer l) (index l)"
  show ?case
  proof (cases "in_template l")
    case True
    with 1 nextTemplate_view [of l t l'] show ?thesis by (auto simp: lexer_next.simps [of l])
  next
    case tmpl: False
    show ?thesis
    proof (cases "start < length (buffer l)")
      case False
      with tmpl 1 show ?thesis
        by (auto simp: lexer_next.simps [of l] Let_def start_def emit_def tmpl_view_def view_step_def)
    next
      case True
      show ?thesis
      proof (cases "buffer l ! start = CHR ''/'' \<and> byte_at (buffer l) (start + 1) (CHR ''/'')")
        case byte: False
        with tmpl True 1 have "lex_byte l start = Inr (t, l')"
          using lexer_next_byte [of l] by (simp add: start_def)
        with lex_byte_view [OF \<open>lexer_wf l\<close> tmpl] tmpl show ?thesis by simp
      next
        case comment: True
        let ?m = "l\<lparr>index := comment_end (buffer l) (start + 2)\<rparr>"
        have "start \<le> length (buffer l)" "index l \<le> start"
          using True by (simp_all add: start_def skipWhitespace_def scan_while_ge)
        with comment have "index l \<le> comment_end (buffer l) (start + 2)"
            "comment_end (buffer l) (start + 2) \<le> length (buffer l)"
          using scan_while_ge [of "start + 2"]
          by (auto simp: comment_end_def byte_at_def
              intro!: scan_while_le order_trans [OF _ scan_while_ge])
        then have "lexer_wf ?m" using 1 by (simp add: lexer_wf_move)
        moreover have "lexer_next ?m = Inr (t, l')"
          using 1 tmpl True comment by (simp add: lexer_next.simps [of l] Let_def start_def)
        ultimately show ?thesis
          using "1.IH" [OF tmpl refl start_def] True comment tmpl by (simp add: tmpl_view_def)
      qed
    qed
  qed
qed

definition mirrors :: "span_state \<Rightarrow> lexer \<Rightarrow> bool" where
  "mirrors s l \<longleftrightarrow>
     length (s_tmpl_stack s) = 8 \<and> s_tmpl_sp s \<le> 8 \<and>
     tmpl_view l = (s_in_template s, s_interp_depth s, take (s_tmpl_sp s) (s_tmpl_stack s))"

lemma mirrors_sp: "mirrors s l \<Longrightarrow> lexer_wf l \<Longrightarrow> s_tmpl_sp s = tmpl_sp l"
  by (auto simp: mirrors_def tmpl_view_def lexer_wf_def dest: arg_cong [of _ _ length])

text \<open>The next token leads the copy where it leads the scanner.\<close>

lemma mirrors_peek_step:
  assumes m: "mirrors s l" and wf: "lexer_wf l" and n: "lexer_next l = Inr (t, l')"
  shows "case peek_step base t s of
      Continue s' \<Rightarrow> mirrors s' l' \<and> tok_tag t \<noteq> T_eof
    | Finish e \<Rightarrow> tok_tag t = T_punct P_r_brace \<and> e = base + loc_end t \<and> \<not> in_template l
    | Fail e \<Rightarrow> e = Syntax_error \<and> \<not> in_template l \<and>
        (tok_tag t = T_eof \<or> tok_tag t = T_punct P_r_brace \<and> s_depth s = 0)"
proof -
  let ?tag = "tok_tag t"
  have wf': "lexer_wf l'" using lexer_next_ok [OF wf n] by simp
  have sp: "s_tmpl_sp s = tmpl_sp l" using mirrors_sp [OF m wf] .
  have st: "length (s_tmpl_stack s) = 8" "s_tmpl_sp s \<le> 8"
    "in_template l = s_in_template s" "interp_depth l = s_interp_depth s"
    using m by (simp_all add: mirrors_def tmpl_view_def)
  have v: "tmpl_view l' = view_step ?tag
      (s_in_template s, s_interp_depth s, take (s_tmpl_sp s) (s_tmpl_stack s))"
    and tags: "if s_in_template s
       then ?tag \<in> {T_invalid, T_template_string, T_template_interp, T_template_end}
       else ?tag \<notin> {T_template_string, T_template_interp, T_template_end}"
    and nov: "?tag = T_punct P_l_brace \<longrightarrow> s_interp_depth s \<noteq> - 1"
    using lexer_next_view [OF wf n] m st by (auto simp: mirrors_def)
  have len: "length (snd (snd (tmpl_view l'))) \<le> 8"
    using wf' by (simp add: tmpl_view_def lexer_wf_def)
  have pos: "s_in_template s \<Longrightarrow> 0 < s_tmpl_sp s"
    using wf st sp by (simp add: lexer_wf_def)
  consider "?tag = T_template_start" | "s_in_template s" "?tag \<noteq> T_template_start"
    | "\<not> s_in_template s" "?tag = T_punct P_l_brace" | "\<not> s_in_template s" "?tag = T_punct P_r_brace"
    | "\<not> s_in_template s" "?tag \<noteq> T_template_start" "?tag \<noteq> T_punct P_l_brace"
        "?tag \<noteq> T_punct P_r_brace"
    by blast
  then show ?thesis
  proof cases
    case 1
    with v len st have "s_tmpl_sp s < 8" by (simp add: view_step_def)
    with 1 v st show ?thesis
      by (simp add: peek_step_def push_template_def mirrors_def view_step_def take_Suc_update)
  next
    case 2
    with tags v st pos show ?thesis
      by (auto simp: peek_step_def open_interp_def pop_template_def mirrors_def view_step_def
          last_take butlast_take)
  next
    case 3
    with v st nov show ?thesis
      by (auto simp: peek_step_def bump_depth_def mirrors_def view_step_def)
  next
    case 4
    with v st show ?thesis
      by (auto simp: peek_step_def peek_close_brace_def Let_def mirrors_def view_step_def
          split: if_splits)
  next
    case 5
    with v st tags show ?thesis
      by (auto simp: peek_step_def mirrors_def view_step_def)
  qed
qed

section \<open>When peekBlockSpan returns\<close>

lemma mirrors_init: "mirrors (span_init d e) (lexer_init buf)"
  by (simp add: mirrors_def span_init_def lexer_init_def tmpl_view_def)

lemma peek_loop_returns:
  assumes "mirrors s l" "lexer_wf l" "lexer_run n l = Inr (ts, m)"
    and "\<not> in_template m" "length (buffer m) \<le> index m"
  shows "\<exists>r. peek_loop base l s = Some r \<and> r \<noteq> Inl Integer_overflow"
  using assms
proof (induction n arbitrary: l s ts)
  case 0
  then have n: "lexer_next l = Inr (\<lparr>tok_tag = T_eof, loc_start = index l, loc_end = index l\<rparr>, l)"
    by (simp add: lexer_next_at_end)
  with mirrors_peek_step [OF 0(1,2) n, of base] show ?case
    by (simp add: peek_loop.simps [of base l s] split: span_step.splits)
next
  case (Suc n)
  then obtain t l' ts' where n: "lexer_next l = Inr (t, l')" and r: "lexer_run n l' = Inr (ts', m)"
    by (auto split: sum.splits)
  have wf: "lexer_wf l'" using lexer_next_ok [OF Suc.prems(2) n] by simp
  note step = mirrors_peek_step [OF Suc.prems(1,2) n, of base]
  show ?case
  proof (cases "peek_step base t s")
    case (Continue s')
    with step have "mirrors s' l'" by simp
    from Suc.IH [OF this wf r] Suc.prems Continue n show ?thesis
      by (simp add: peek_loop.simps [of base l s])
  qed (use step n in \<open>simp_all add: peek_loop.simps [of base l s]\<close>)
qed

lemma lexer_run_init:
  assumes "length buf < 65536" "lexer_run n (lexer_init buf) = Inr (ts, m)" "length buf \<le> n"
  shows "lexer_wf m \<and> buffer m = buf \<and> length buf \<le> index m"
proof -
  have "buffer (lexer_init buf) = buf" "index (lexer_init buf) = 0" by (simp_all add: lexer_init_def)
  with lexer_run_ok [OF lexer_wf_init [of buf], of n] assms show ?thesis by auto
qed

text \<open>C31: when the search for the end of a block returns.  If scanning the text from the opening
  brace to the end of the buffer leaves no template literal open, \<open>peekBlockSpan\<close> returns: a span
  that starts at the brace, or a syntax error, and its copy of the interpolation depth does not
  overflow.\<close>

theorem peekBlockSpan_returns:
  assumes "length (buffer (lex p)) < 65536"
    and "lexer_run (length (buffer (lex p))) (lexer_init (drop (loc_start (tok p)) (buffer (lex p))))
      = Inr (ts, m)"
    and "\<not> in_template m"
  shows "peekBlockSpan p = Some (Inl Syntax_error) \<or>
    (\<exists>e. peekBlockSpan p = Some (Inr (loc_start (tok p), e)))"
proof -
  let ?suf = "drop (loc_start (tok p)) (buffer (lex p))"
  have "lexer_wf (lexer_init ?suf)" by (rule lexer_wf_init)
  moreover have "length (buffer m) \<le> index m"
    using lexer_run_init [OF _ assms(2)] assms(1) by simp
  ultimately obtain r where "peek_loop (loc_start (tok p)) (lexer_init ?suf)
      (span_init 0 (loc_start (tok p))) = Some r" "r \<noteq> Inl Integer_overflow"
    using peek_loop_returns [OF mirrors_init _ assms(2,3)] by blast
  then show ?thesis
    by (cases r; cases "projl r") (auto simp: peekBlockSpan_def Let_def)
qed

theorem peekBlockSpan_returns_witness:
  "peekBlockSpan \<lparr>lex = lexer_init ''{}'', tok = \<lparr>tok_tag = T_punct P_l_brace, loc_start = 0,
     loc_end = 1\<rparr>, last_expected = None\<rparr> = Some (Inl Syntax_error) \<or>
   (\<exists>e. peekBlockSpan \<lparr>lex = lexer_init ''{}'', tok = \<lparr>tok_tag = T_punct P_l_brace,
     loc_start = 0, loc_end = 1\<rparr>, last_expected = None\<rparr> = Some (Inr (0, e)))"
proof -
  let ?p = "\<lparr>lex = lexer_init ''{}'', tok = \<lparr>tok_tag = T_punct P_l_brace, loc_start = 0,
     loc_end = 1\<rparr>, last_expected = None\<rparr>"
  have "map_sum id (in_template \<circ> snd) (lexer_run 2 (lexer_init ''{}'')) = Inr False"
    by code_simp
  then obtain ts m where "lexer_run 2 (lexer_init ''{}'') = Inr (ts, m)" "\<not> in_template m"
    by (cases "lexer_run 2 (lexer_init ''{}'')") auto
  then show ?thesis
    using peekBlockSpan_returns [of ?p ts m] by (simp add: lexer_init_def numeral_2_eq_2)
qed

text \<open>A template literal that is not closed: the scanner answers \<open>invalid\<close> for ever.\<close>

lemma peek_loop_stuck:
  assumes "mirrors s l" "lexer_wf l" "in_template l" "length (buffer l) \<le> index l"
  shows "peek_loop base l s = None"
proof (rule ccontr)
  let ?bad = "\<lambda>l s. mirrors s l \<and> lexer_wf l \<and> in_template l \<and> length (buffer l) \<le> index l"
  assume "\<not> ?thesis"
  then obtain r where "peek_loop base l s = Some r" by auto
  then have "\<not> ?bad l s"
  proof (rule peek_loop.raw_induct [where P = "\<lambda>base l s r. \<not> ?bad l s", rotated])
    fix f base l s r
    assume IH: "\<And>base l s r. f base l s = Some r \<Longrightarrow> \<not> ?bad l s"
      and r: "(case lexer_next l of Inl p \<Rightarrow> Some (Inl Integer_overflow)
        | Inr (t, l') \<Rightarrow> case peek_step base t s of
            Fail e \<Rightarrow> Some (Inl e) | Finish e \<Rightarrow> Some (Inr e) | Continue s' \<Rightarrow> f base l' s') = Some r"
    show "\<not> ?bad l s"
    proof
      assume bad: "?bad l s"
      then have n: "lexer_next l =
          Inr (\<lparr>tok_tag = T_invalid, loc_start = index l, loc_end = index l\<rparr>, l)"
        by (simp add: lexer_next_at_end)
      from mirrors_peek_step [OF _ _ n, of s base] bad n r IH show False
        by (auto split: span_step.splits)
    qed
  qed
  with assms show False by blast
qed

lemma peek_loop_continues:
  assumes "mirrors s l" "lexer_wf l" "lexer_run n l = Inr (ts, m)"
    and "\<forall>t \<in> set ts. tok_tag t \<noteq> T_punct P_r_brace \<and> tok_tag t \<noteq> T_eof"
  shows "\<exists>s'. mirrors s' m \<and> lexer_wf m \<and> peek_loop base l s = peek_loop base m s'"
  using assms
proof (induction n arbitrary: l s ts)
  case (Suc n)
  then obtain t l' ts' where n: "lexer_next l = Inr (t, l')" and r: "lexer_run n l' = Inr (ts', m)"
    and ts: "ts = t # ts'"
    by (auto split: sum.splits)
  have "lexer_wf l'" using lexer_next_ok [OF \<open>lexer_wf l\<close> n] by simp
  with mirrors_peek_step [OF \<open>mirrors s l\<close> \<open>lexer_wf l\<close> n, of base] n r ts Suc show ?case
    by (auto simp: peek_loop.simps [of base l s] split: span_step.splits)
qed auto

text \<open>C32: an unterminated template literal hangs the parser.  If the scanner runs from the
  opening brace into a template literal that is not closed before the end of the buffer, with no
  closing brace before, \<open>peekBlockSpan\<close> never returns: the end-of-file test inside its template
  branch is dead, because the scanner answers \<open>invalid\<close> there.\<close>

theorem peekBlockSpan_hangs:
  assumes "tok_tag (tok p) = T_punct P_l_brace"
    and "lexer_run n (lexer_init (drop (loc_start (tok p)) (buffer (lex p)))) = Inr (ts, m)"
    and "\<forall>t \<in> set ts. tok_tag t \<noteq> T_punct P_r_brace \<and> tok_tag t \<noteq> T_eof"
    and "in_template m" "length (buffer m) \<le> index m"
  shows "peekBlockSpan p = None"
proof -
  obtain s' where "mirrors s' m" "lexer_wf m" "peek_loop (loc_start (tok p))
      (lexer_init (drop (loc_start (tok p)) (buffer (lex p)))) (span_init 0 (loc_start (tok p))) =
      peek_loop (loc_start (tok p)) m s'"
    using peek_loop_continues [OF mirrors_init lexer_wf_init assms(2,3)] by blast
  with assms show ?thesis by (simp add: peekBlockSpan_def Let_def peek_loop_stuck)
qed

theorem peekBlockSpan_hangs_witness:
  "peekBlockSpan \<lparr>lex = lexer_init ''{`a'', tok = \<lparr>tok_tag = T_punct P_l_brace, loc_start = 0,
     loc_end = 1\<rparr>, last_expected = None\<rparr> = None"
proof -
  let ?p = "\<lparr>lex = lexer_init ''{`a'', tok = \<lparr>tok_tag = T_punct P_l_brace, loc_start = 0,
     loc_end = 1\<rparr>, last_expected = None\<rparr>"
  have "map_sum id (\<lambda>(ts, m). (list_all (\<lambda>t. tok_tag t \<noteq> T_punct P_r_brace \<and> tok_tag t \<noteq> T_eof) ts,
      in_template m, length (buffer m) \<le> index m)) (lexer_run 3 (lexer_init ''{`a'')) =
      Inr (True, True, True)"
    by code_simp
  then obtain ts m where "lexer_run 3 (lexer_init ''{`a'') = Inr (ts, m)"
    "\<forall>t \<in> set ts. tok_tag t \<noteq> T_punct P_r_brace \<and> tok_tag t \<noteq> T_eof"
    "in_template m" "length (buffer m) \<le> index m"
    by (cases "lexer_run 3 (lexer_init ''{`a'')") (auto simp: list_all_iff)
  then show ?thesis
    using peekBlockSpan_hangs [of ?p 3 ts m] by (simp add: lexer_init_def)
qed

section \<open>The two loops agree\<close>

definition same_but_end :: "span_state \<Rightarrow> span_state \<Rightarrow> bool" where
  "same_but_end s s' \<longleftrightarrow> s' = s\<lparr>s_end := s_end s'\<rparr>"

lemma skip_follows_peek:
  assumes "same_but_end s s2" "0 < s_depth s"
  shows "case peek_step base t s of
      Continue s' \<Rightarrow> 0 < s_depth s' \<and>
        (\<exists>s2'. skip_step (shift_token base t) s2 = Inr s2' \<and> same_but_end s' s2')
    | Finish e \<Rightarrow> tok_tag t \<noteq> T_eof \<and>
        (\<exists>s2'. skip_step (shift_token base t) s2 = Inr s2' \<and> s_depth s2' = 0 \<and> s_end s2' = e)
    | Fail e \<Rightarrow> True"
proof -
  obtain e where s2: "s2 = s\<lparr>s_end := e\<rparr>" using assms by (auto simp: same_but_end_def)
  show ?thesis
    using assms(2) unfolding s2
    by (auto simp: peek_step_def skip_step_def peek_close_brace_def bump_depth_def Let_def
        shift_token_def same_but_end_def push_template_def pop_template_def open_interp_def
        split: option.splits)
qed

definition skip_next :: "parser \<Rightarrow> span_state \<Rightarrow> (span_error + parser \<times> span_state) option" where
  "skip_next p s =
     (case advance p of Inl e \<Rightarrow> Some (Inl e) | Inr p' \<Rightarrow> skip_loop p' s)"

lemma peek_eof_fails: "tok_tag t = T_eof \<Longrightarrow> \<exists>e. peek_step base t s = Fail e"
  by (auto simp: peek_step_def)

lemma skip_loop_step:
  assumes "s_depth s > 0" "tok_tag (tok p) \<noteq> T_eof" "skip_step (tok p) s = Inr s'"
  shows "skip_loop p s = skip_next p s'"
  using assms by (simp add: skip_loop.simps [of p s] skip_next_def)

lemma advance_shift:
  assumes "lex p = shift_lexer pre l" "lexer_next l = Inr (t, l')"
  shows "advance p = Inr (p\<lparr>lex := shift_lexer pre l', tok := shift_token (length pre) t\<rparr>)"
  using assms by (simp add: advance_def lexer_next_shift)

lemma skip_next_of_peek:
  assumes "peek_loop base l s = Some r"
  shows "\<forall>pre p s2 e. r = Inr e \<and> length pre = base \<and> lexer_wf l \<and> length (buffer l) < 65536 \<and>
    lex p = shift_lexer pre l \<and> same_but_end s s2 \<and> 0 < s_depth s \<longrightarrow>
    (\<exists>p2 s2'. skip_next p s2 = Some (Inr (p2, s2')) \<and> s_depth s2' = 0 \<and> s_end s2' = e)"
    (is "?P base l s r")
  using assms
proof (rule peek_loop.raw_induct [where P = ?P, rotated])
  fix f base l s r
  assume IH: "\<And>base l s r. f base l s = Some r \<Longrightarrow> ?P base l s r"
    and r: "(case lexer_next l of Inl p \<Rightarrow> Some (Inl Integer_overflow)
      | Inr (t, l') \<Rightarrow> case peek_step base t s of
          Fail e \<Rightarrow> Some (Inl e) | Finish e \<Rightarrow> Some (Inr e) | Continue s' \<Rightarrow> f base l' s') = Some r"
  show "?P base l s r"
  proof (intro allI impI, elim conjE)
    fix pre :: string and p :: parser and s2 :: span_state and e :: nat
    assume e: "r = Inr e" and base: "length pre = base" and wf: "lexer_wf l"
      and len: "length (buffer l) < 65536" and p: "lex p = shift_lexer pre l"
      and s2: "same_but_end s s2" and d: "0 < s_depth s"
    from r e obtain t l' where n: "lexer_next l = Inr (t, l')" by (auto split: sum.splits)
    define p1 where "p1 = p\<lparr>lex := shift_lexer pre l', tok := shift_token base t\<rparr>"
    have adv: "advance p = Inr p1" using advance_shift [OF p n] base by (simp add: p1_def)
    have wf': "lexer_wf l'" "length (buffer l') < 65536"
      using lexer_next_ok [OF wf n] len by (auto simp: token_ok_def)
    have d2: "0 < s_depth s2" using s2 d by (simp add: same_but_end_def) (metis span_state.select_convs
        span_state.simps(5) span_state.surjective span_state.update_convs(6))
    have step: "skip_next p s2 = skip_next p1 s2'"
      if "tok_tag t \<noteq> T_eof" "skip_step (shift_token base t) s2 = Inr s2'" for s2'
      using that d2 skip_loop_step [of s2 p1 s2']
      by (simp add: skip_next_def [of p] adv p1_def shift_token_def)
    show "\<exists>p2 s2'. skip_next p s2 = Some (Inr (p2, s2')) \<and> s_depth s2' = 0 \<and> s_end s2' = e"
    proof (cases "peek_step base t s")
      case (Continue s')
      then have "tok_tag t \<noteq> T_eof" using peek_eof_fails [of t base s] by auto
      with skip_follows_peek [OF s2 d, of base t] Continue step obtain s2' where
        "0 < s_depth s'" "same_but_end s' s2'" "skip_next p s2 = skip_next p1 s2'"
        by auto
      moreover have "f base l' s' = Some r" using r n Continue by simp
      ultimately show ?thesis
        using IH [of base l' s' r] e base wf' by (auto simp: p1_def)
    next
      case (Finish e')
      then have "e' = e" using r n e by simp
      with skip_follows_peek [OF s2 d, of base t] Finish step obtain s2' where
        s2': "s_depth s2' = 0" "s_end s2' = e" "skip_next p s2 = skip_next p1 s2'"
        by auto
      obtain t2 l2 where "lexer_next l' = Inr (t2, l2)" using lexer_next_total [OF wf'] by auto
      then obtain p2 where "advance p1 = Inr p2"
        using advance_shift [of p1 pre l'] by (simp add: p1_def)
      with s2' show ?thesis by (simp add: skip_next_def [of p1] skip_loop.simps)
    next
      case (Fail e')
      then show ?thesis using r n e by simp
    qed
  qed
qed

text \<open>C33: \<open>skipBlockSpan\<close> finds what \<open>peekBlockSpan\<close> finds.  When the current token is an opening
  brace and the scanner stands behind it outside every template literal, a span returned by
  \<open>peekBlockSpan\<close> is also the one that \<open>skipBlockSpan\<close> returns, so a body that is skipped is
  the body that would have been parsed.\<close>

theorem skip_agrees_with_peek:
  assumes "peekBlockSpan p = Some (Inr (a, b))"
    and "length (buffer (lex p)) < 65536"
    and "tok p = \<lparr>tok_tag = T_punct P_l_brace, loc_start = a, loc_end = a + 1\<rparr>"
    and "byte_at (buffer (lex p)) a (CHR 0x7B)"
    and "lex p = (lexer_init (buffer (lex p)))\<lparr>index := a + 1\<rparr>"
  shows "\<exists>p'. skipBlockSpan p = Some (Inr (p', a, b))"
proof -
  let ?suf = "drop a (buffer (lex p))" and ?pre = "take a (buffer (lex p))"
  let ?l = "(lexer_init ?suf)\<lparr>index := 1\<rparr>"
  have a: "a < length (buffer (lex p))" "?suf ! 0 = CHR 0x7B" "length ?pre = a"
    using assms(4) by (simp_all add: byte_at_def)
  then obtain w where w: "?suf = CHR 0x7B # w" by (cases ?suf) auto
  have n: "lexer_next (lexer_init ?suf) =
      Inr (\<lparr>tok_tag = T_punct P_l_brace, loc_start = 0, loc_end = 1\<rparr>, ?l)"
    unfolding w
    by (simp add: lexer_next.simps skipWhitespace_def scan_while.simps class_at_def is_space_def
        lexer_init_def lex_byte_def lex_open_brace_def emit_def)
  have inr: "map_sum id (Pair a) z = Inr (a, b) \<Longrightarrow> z = Inr b" for z :: "span_error + nat"
    by (cases z) simp_all
  have peek: "peek_loop a ?l ((span_init 1 (a + 1))) = Some (Inr b)"
    using assms(1,3) n
    by (auto dest!: inr simp: peekBlockSpan_def peek_loop.simps [of a "lexer_init ?suf"] peek_step_def
        span_init_def bump_depth_def)
  have wf: "lexer_wf ?l" using lexer_next_ok [OF lexer_wf_init n] by simp
  have "lex p = shift_lexer ?pre ?l"
    using a assms(5) by (simp add: shift_lexer_def lexer_init_def)
  moreover have "length (buffer ?l) < 65536" using assms(2) by (simp add: lexer_init_def)
  ultimately obtain p2 s2 where "skip_next p (span_init 1 (a + 1)) = Some (Inr (p2, s2))"
    "s_depth s2 = 0" "s_end s2 = b"
    using skip_next_of_peek [OF peek, rule_format, of b ?pre p "span_init 1 (a + 1)"] a wf
    by (auto simp: same_but_end_def span_init_def)
  then show ?thesis
    using assms(3) by (auto simp: skipBlockSpan_def skip_next_def split: sum.splits)
qed

theorem skip_agrees_with_peek_witness:
  "\<exists>p'. skipBlockSpan \<lparr>lex = (lexer_init ''{}'')\<lparr>index := 1\<rparr>,
     tok = \<lparr>tok_tag = T_punct P_l_brace, loc_start = 0, loc_end = 1\<rparr>, last_expected = None\<rparr> =
     Some (Inr (p', 0, 2))"
proof -
  let ?p = "\<lparr>lex = (lexer_init ''{}'')\<lparr>index := 1\<rparr>,
     tok = \<lparr>tok_tag = T_punct P_l_brace, loc_start = 0, loc_end = 1\<rparr>, last_expected = None\<rparr>"
  have "peekBlockSpan ?p = Some (Inr (0, 2))"
    by code_simp
  then show ?thesis
    using skip_agrees_with_peek [of ?p 0 2] by (simp add: lexer_init_def byte_at_def)
qed

end
