(* ===== verification/Sla_Defer.thy ===== *)
theory Sla_Defer
  imports Sla_Ast Sla_Prelude
begin

text \<open>
  \<open>src/defer_desugar.zig\<close>: the pass that replaces \<open>defer\<close> statements by copies of their calls at
  every exit of the block.  The counter of \<open>freshName\<close> is threaded through; a failed pass is an
  error value.  \<open>processStmtChildren\<close> and \<open>processExpr\<close> call each other and \<open>processBlock\<close> on
  the parts of a node; \<open>handlers\<close> computes the two of them for a node from those of its parts, and
  the tree that the source rewrites in place is the returned one.
\<close>

section \<open>The counter and the errors\<close>

datatype desugar_error = Not_a_call | Not_deferrable

type_synonym 'a desugar = "nat \<Rightarrow> desugar_error + 'a \<times> nat"

definition ret_d :: "'a \<Rightarrow> 'a desugar" where
  "ret_d x = (\<lambda>k. Inr (x, k))"

definition fail_d :: "desugar_error \<Rightarrow> 'a desugar" where
  "fail_d e = (\<lambda>k. Inl e)"

definition bind_d :: "'a desugar \<Rightarrow> ('a \<Rightarrow> 'b desugar) \<Rightarrow> 'b desugar" where
  "bind_d m f = (\<lambda>k. case m k of Inl e \<Rightarrow> Inl e | Inr (x, k') \<Rightarrow> f x k')"

text \<open>The loops over slices, from the left.\<close>

fun map_d :: "('a \<Rightarrow> 'b desugar) \<Rightarrow> 'a list \<Rightarrow> 'b list desugar" where
  "map_d f [] = ret_d []"
| "map_d f (x # xs) = bind_d (f x) (\<lambda>y. bind_d (map_d f xs) (\<lambda>ys. ret_d (y # ys)))"

fun option_d :: "('a \<Rightarrow> 'b desugar) \<Rightarrow> 'a option \<Rightarrow> 'b option desugar" where
  "option_d f None = ret_d None"
| "option_d f (Some x) = bind_d (f x) (\<lambda>y. ret_d (Some y))"

definition freshName :: "string \<Rightarrow> string desugar" where
  "freshName pre = (\<lambda>k. Inr (pre @ dec_nat (k + 1), k + 1))"

section \<open>Cloning\<close>

text \<open>\<open>cloneExpr\<close> rebuilds the expressions that may be copied and fails on the others.\<close>

type_synonym 'a clone = "desugar_error + 'a"

definition bind_c :: "'a clone \<Rightarrow> ('a \<Rightarrow> 'b clone) \<Rightarrow> 'b clone" where
  "bind_c m f = (case m of Inl e \<Rightarrow> Inl e | Inr x \<Rightarrow> f x)"

fun all_c :: "'a clone list \<Rightarrow> 'a list clone" where
  "all_c [] = Inr []"
| "all_c (m # ms) = bind_c m (\<lambda>x. bind_c (all_c ms) (\<lambda>xs. Inr (x # xs)))"

fun opt_c :: "'a clone option \<Rightarrow> 'a option clone" where
  "opt_c None = Inr None"
| "opt_c (Some m) = bind_c m (\<lambda>x. Inr (Some x))"

abbreviation map_c :: "('a \<Rightarrow> 'b) \<Rightarrow> 'a clone \<Rightarrow> 'b clone" where
  "map_c f m \<equiv> bind_c m (\<lambda>x. Inr (f x))"

abbreviation map2_c :: "('a \<Rightarrow> 'b \<Rightarrow> 'c) \<Rightarrow> 'a clone \<Rightarrow> 'b clone \<Rightarrow> 'c clone" where
  "map2_c f m n \<equiv> bind_c m (\<lambda>x. bind_c n (\<lambda>y. Inr (f x y)))"

primrec cloneExpr :: "node \<Rightarrow> node clone"
and cloneStructField :: "struct_literal_field \<Rightarrow> struct_literal_field clone"
and cloneEnumField :: "enum_literal_field \<Rightarrow> enum_literal_field clone"
where
  "cloneExpr (Program ds) = Inl Not_deferrable"
| "cloneExpr (Struct_decl d) = Inl Not_deferrable"
| "cloneExpr (Enum_decl d) = Inl Not_deferrable"
| "cloneExpr (Trait_decl d) = Inl Not_deferrable"
| "cloneExpr (Impl_decl t u ms) = Inl Not_deferrable"
| "cloneExpr (Type_alias_decl d) = Inl Not_deferrable"
| "cloneExpr (Overload_decl t ms) = Inl Not_deferrable"
| "cloneExpr (Func_decl d b) = Inl Not_deferrable"
| "cloneExpr (Macro_decl d b) = Inl Not_deferrable"
| "cloneExpr (Import_decl p) = Inl Not_deferrable"
| "cloneExpr (Using_decl p) = Inl Not_deferrable"
| "cloneExpr (Test_decl d b) = Inl Not_deferrable"
| "cloneExpr (Sublanguage_decl d) = Inl Not_deferrable"
| "cloneExpr (Sublanguage_registration k) = Inl Not_deferrable"
| "cloneExpr (Check_hook_decl k) = Inl Not_deferrable"
| "cloneExpr (Let_stmt v t e) = Inl Not_deferrable"
| "cloneExpr (Let_else_stmt p e b) = Inl Not_deferrable"
| "cloneExpr (Let_destructure_stmt d e) = Inl Not_deferrable"
| "cloneExpr (Const_stmt v t e) = Inl Not_deferrable"
| "cloneExpr (Var_stmt v t) = Inl Not_deferrable"
| "cloneExpr (Assign_stmt t v) = Inl Not_deferrable"
| "cloneExpr (Block_stmt b) = Inl Not_deferrable"
| "cloneExpr (Arena_stmt b) = Inl Not_deferrable"
| "cloneExpr (Expr_stmt e) = Inl Not_deferrable"
| "cloneExpr (Return_stmt vo) = Inl Not_deferrable"
| "cloneExpr (For_stmt v s eo b) = Inl Not_deferrable"
| "cloneExpr (While_stmt c p b) = Inl Not_deferrable"
| "cloneExpr Break_stmt = Inl Not_deferrable"
| "cloneExpr Continue_stmt = Inl Not_deferrable"
| "cloneExpr (Release_stmt v) = Inl Not_deferrable"
| "cloneExpr (Defer_stmt c) = Inl Not_deferrable"
| "cloneExpr (Select_stmt cs d t tb) = Inl Not_deferrable"
| "cloneExpr (Literal l) = Inr (Literal l)"
| "cloneExpr (Identifier v) = Inr (Identifier v)"
| "cloneExpr (Generic_func_ref f gs) = Inr (Generic_func_ref f gs)"
| "cloneExpr (Go_expr s c) = Inl Not_deferrable"
| "cloneExpr (If_expr c lc t eo) = Inl Not_deferrable"
| "cloneExpr (Switch_expr v cs) = Inl Not_deferrable"
| "cloneExpr (Match_expr v cs) = Inl Not_deferrable"
| "cloneExpr (Unsafe_expr b) = Inl Not_deferrable"
| "cloneExpr (Await_expr e) = map_c Await_expr (cloneExpr e)"
| "cloneExpr (Inline_asm_expr t ops) = Inl Not_deferrable"
| "cloneExpr (Binary_expr bop l r) = map2_c (Binary_expr bop) (cloneExpr l) (cloneExpr r)"
| "cloneExpr (Call_expr f at gs args callee) = bind_c (all_c (map cloneExpr args)) (\<lambda>args'. map_c (Call_expr f at gs args') (opt_c (map_option cloneExpr callee)))"
| "cloneExpr (Closure_literal ps b) = Inl Not_deferrable"
| "cloneExpr (Borrow_expr e) = map_c Borrow_expr (cloneExpr e)"
| "cloneExpr (Move_expr e) = map_c Move_expr (cloneExpr e)"
| "cloneExpr (Deref_expr e) = map_c Deref_expr (cloneExpr e)"
| "cloneExpr (Cast_expr e t) = map_c (\<lambda>e'. Cast_expr e' t) (cloneExpr e)"
| "cloneExpr (Field_expr e f) = map_c (\<lambda>e'. Field_expr e' f) (cloneExpr e)"
| "cloneExpr (Struct_literal t fs u) = map2_c (Struct_literal t) (all_c (map cloneStructField fs)) (opt_c (map_option cloneExpr u))"
| "cloneExpr (Enum_literal en vn fs) = map_c (Enum_literal en vn) (all_c (map cloneEnumField fs))"
| "cloneExpr (Tuple_literal es) = map_c Tuple_literal (all_c (map cloneExpr es))"
| "cloneExpr (Array_literal es) = map_c Array_literal (all_c (map cloneExpr es))"
| "cloneExpr (Repeat_array_literal v n) = map_c (\<lambda>v'. Repeat_array_literal v' n) (cloneExpr v)"
| "cloneExpr (Index_expr t i) = map2_c Index_expr (cloneExpr t) (cloneExpr i)"
| "cloneExpr (Slice_expr t s e) = bind_c (cloneExpr t) (\<lambda>t'. map2_c (Slice_expr t') (cloneExpr s) (cloneExpr e))"
| "cloneExpr (Try_expr e) = map_c Try_expr (cloneExpr e)"
| "cloneStructField (Struct_literal_field n v) = map_c (Struct_literal_field n) (cloneExpr v)"
| "cloneEnumField (Enum_literal_field n v) = map_c (Enum_literal_field n) (cloneExpr v)"

section \<open>Deferred calls\<close>

type_synonym chain = "node list list"

definition clone_d :: "node \<Rightarrow> node desugar" where
  "clone_d n = (case cloneExpr n of Inl e \<Rightarrow> fail_d e | Inr m \<Rightarrow> ret_d m)"

text \<open>
  \<open>snapshotCall\<close> returns the synthetic lets and the call over their names; its argument loop.
\<close>

definition snapshot_arg :: "node \<Rightarrow> (node \<times> node) desugar" where
  "snapshot_arg arg = bind_d (freshName ''__dfa_'') (\<lambda>x. ret_d (Let_stmt x None arg, Identifier x))"

primrec snapshotCall :: "node \<Rightarrow> (node list \<times> node) desugar"
where
  "snapshotCall (Program ds) = fail_d Not_a_call"
| "snapshotCall (Struct_decl d) = fail_d Not_a_call"
| "snapshotCall (Enum_decl d) = fail_d Not_a_call"
| "snapshotCall (Trait_decl d) = fail_d Not_a_call"
| "snapshotCall (Impl_decl t u ms) = fail_d Not_a_call"
| "snapshotCall (Type_alias_decl d) = fail_d Not_a_call"
| "snapshotCall (Overload_decl t ms) = fail_d Not_a_call"
| "snapshotCall (Func_decl d b) = fail_d Not_a_call"
| "snapshotCall (Macro_decl d b) = fail_d Not_a_call"
| "snapshotCall (Import_decl p) = fail_d Not_a_call"
| "snapshotCall (Using_decl p) = fail_d Not_a_call"
| "snapshotCall (Test_decl d b) = fail_d Not_a_call"
| "snapshotCall (Sublanguage_decl d) = fail_d Not_a_call"
| "snapshotCall (Sublanguage_registration k) = fail_d Not_a_call"
| "snapshotCall (Check_hook_decl k) = fail_d Not_a_call"
| "snapshotCall (Let_stmt v t e) = fail_d Not_a_call"
| "snapshotCall (Let_else_stmt p e b) = fail_d Not_a_call"
| "snapshotCall (Let_destructure_stmt d e) = fail_d Not_a_call"
| "snapshotCall (Const_stmt v t e) = fail_d Not_a_call"
| "snapshotCall (Var_stmt v t) = fail_d Not_a_call"
| "snapshotCall (Assign_stmt t v) = fail_d Not_a_call"
| "snapshotCall (Block_stmt b) = fail_d Not_a_call"
| "snapshotCall (Arena_stmt b) = fail_d Not_a_call"
| "snapshotCall (Expr_stmt e) = fail_d Not_a_call"
| "snapshotCall (Return_stmt vo) = fail_d Not_a_call"
| "snapshotCall (For_stmt v s eo b) = fail_d Not_a_call"
| "snapshotCall (While_stmt c p b) = fail_d Not_a_call"
| "snapshotCall Break_stmt = fail_d Not_a_call"
| "snapshotCall Continue_stmt = fail_d Not_a_call"
| "snapshotCall (Release_stmt v) = fail_d Not_a_call"
| "snapshotCall (Defer_stmt c) = fail_d Not_a_call"
| "snapshotCall (Select_stmt cs d t tb) = fail_d Not_a_call"
| "snapshotCall (Literal l) = fail_d Not_a_call"
| "snapshotCall (Identifier v) = fail_d Not_a_call"
| "snapshotCall (Generic_func_ref f gs) = fail_d Not_a_call"
| "snapshotCall (Go_expr s c) = fail_d Not_a_call"
| "snapshotCall (If_expr c lc t eo) = fail_d Not_a_call"
| "snapshotCall (Switch_expr v cs) = fail_d Not_a_call"
| "snapshotCall (Match_expr v cs) = fail_d Not_a_call"
| "snapshotCall (Unsafe_expr b) = fail_d Not_a_call"
| "snapshotCall (Await_expr e) = fail_d Not_a_call"
| "snapshotCall (Inline_asm_expr t ops) = fail_d Not_a_call"
| "snapshotCall (Binary_expr bop l r) = fail_d Not_a_call"
| "snapshotCall (Call_expr f at gs args callee) = bind_d (map_d snapshot_arg args) (\<lambda>lets.
     bind_d (option_d clone_d callee) (\<lambda>callee'.
       ret_d (map fst lets, Call_expr f at gs (map snd lets) callee')))"
| "snapshotCall (Closure_literal ps b) = fail_d Not_a_call"
| "snapshotCall (Borrow_expr e) = fail_d Not_a_call"
| "snapshotCall (Move_expr e) = fail_d Not_a_call"
| "snapshotCall (Deref_expr e) = fail_d Not_a_call"
| "snapshotCall (Cast_expr e t) = fail_d Not_a_call"
| "snapshotCall (Field_expr e f) = fail_d Not_a_call"
| "snapshotCall (Struct_literal t fs u) = fail_d Not_a_call"
| "snapshotCall (Enum_literal en vn fs) = fail_d Not_a_call"
| "snapshotCall (Tuple_literal es) = fail_d Not_a_call"
| "snapshotCall (Array_literal es) = fail_d Not_a_call"
| "snapshotCall (Repeat_array_literal v n) = fail_d Not_a_call"
| "snapshotCall (Index_expr t i) = fail_d Not_a_call"
| "snapshotCall (Slice_expr t s e) = fail_d Not_a_call"
| "snapshotCall (Try_expr e) = fail_d Not_a_call"

text \<open>
  \<open>emitDefers\<close>: the lists of the chain from the innermost (the last) out, each list backwards.
\<close>

definition emitDefers :: "chain \<Rightarrow> node list desugar" where
  "emitDefers chain = map_d (\<lambda>call. bind_d (clone_d call) (\<lambda>c. ret_d (Expr_stmt c)))
     (concat (map rev (rev chain)))"

section \<open>Blocks\<close>

text \<open>What \<open>processBlock\<close> distinguishes of a statement.\<close>

datatype stmt_class = Kind_defer node | Kind_return "node option" | Kind_jump | Kind_other

primrec stmt_kind :: "node \<Rightarrow> stmt_class"
where
  "stmt_kind (Program ds) = Kind_other"
| "stmt_kind (Struct_decl d) = Kind_other"
| "stmt_kind (Enum_decl d) = Kind_other"
| "stmt_kind (Trait_decl d) = Kind_other"
| "stmt_kind (Impl_decl t u ms) = Kind_other"
| "stmt_kind (Type_alias_decl d) = Kind_other"
| "stmt_kind (Overload_decl t ms) = Kind_other"
| "stmt_kind (Func_decl d b) = Kind_other"
| "stmt_kind (Macro_decl d b) = Kind_other"
| "stmt_kind (Import_decl p) = Kind_other"
| "stmt_kind (Using_decl p) = Kind_other"
| "stmt_kind (Test_decl d b) = Kind_other"
| "stmt_kind (Sublanguage_decl d) = Kind_other"
| "stmt_kind (Sublanguage_registration k) = Kind_other"
| "stmt_kind (Check_hook_decl k) = Kind_other"
| "stmt_kind (Let_stmt v t e) = Kind_other"
| "stmt_kind (Let_else_stmt p e b) = Kind_other"
| "stmt_kind (Let_destructure_stmt d e) = Kind_other"
| "stmt_kind (Const_stmt v t e) = Kind_other"
| "stmt_kind (Var_stmt v t) = Kind_other"
| "stmt_kind (Assign_stmt t v) = Kind_other"
| "stmt_kind (Block_stmt b) = Kind_other"
| "stmt_kind (Arena_stmt b) = Kind_other"
| "stmt_kind (Expr_stmt e) = Kind_other"
| "stmt_kind (Return_stmt vo) = Kind_return vo"
| "stmt_kind (For_stmt v s eo b) = Kind_other"
| "stmt_kind (While_stmt c p b) = Kind_other"
| "stmt_kind Break_stmt = Kind_jump"
| "stmt_kind Continue_stmt = Kind_jump"
| "stmt_kind (Release_stmt v) = Kind_other"
| "stmt_kind (Defer_stmt c) = Kind_defer c"
| "stmt_kind (Select_stmt cs d t tb) = Kind_other"
| "stmt_kind (Literal l) = Kind_other"
| "stmt_kind (Identifier v) = Kind_other"
| "stmt_kind (Generic_func_ref f gs) = Kind_other"
| "stmt_kind (Go_expr s c) = Kind_other"
| "stmt_kind (If_expr c lc t eo) = Kind_other"
| "stmt_kind (Switch_expr v cs) = Kind_other"
| "stmt_kind (Match_expr v cs) = Kind_other"
| "stmt_kind (Unsafe_expr b) = Kind_other"
| "stmt_kind (Await_expr e) = Kind_other"
| "stmt_kind (Inline_asm_expr t ops) = Kind_other"
| "stmt_kind (Binary_expr bop l r) = Kind_other"
| "stmt_kind (Call_expr f at gs args callee) = Kind_other"
| "stmt_kind (Closure_literal ps b) = Kind_other"
| "stmt_kind (Borrow_expr e) = Kind_other"
| "stmt_kind (Move_expr e) = Kind_other"
| "stmt_kind (Deref_expr e) = Kind_other"
| "stmt_kind (Cast_expr e t) = Kind_other"
| "stmt_kind (Field_expr e f) = Kind_other"
| "stmt_kind (Struct_literal t fs u) = Kind_other"
| "stmt_kind (Enum_literal en vn fs) = Kind_other"
| "stmt_kind (Tuple_literal es) = Kind_other"
| "stmt_kind (Array_literal es) = Kind_other"
| "stmt_kind (Repeat_array_literal v n) = Kind_other"
| "stmt_kind (Index_expr t i) = Kind_other"
| "stmt_kind (Slice_expr t s e) = Kind_other"
| "stmt_kind (Try_expr e) = Kind_other"

definition has_defers :: "chain \<Rightarrow> bool" where
  "has_defers chain \<longleftrightarrow> (\<exists>calls \<in> set chain. calls \<noteq> [])"

text \<open>The statements that \<open>processBlock\<close> emits for a \<open>return\<close>.\<close>

definition process_return :: "chain \<Rightarrow> node option \<Rightarrow> node list desugar" where
  "process_return chain v =
     (case v of
        Some value \<Rightarrow>
          if has_defers chain \<and> \<not> is_identifier value \<and> \<not> is_literal value then
            bind_d (freshName ''__dfret_'') (\<lambda>x.
            bind_d (emitDefers chain) (\<lambda>calls.
              ret_d (Let_stmt x None value # calls @ [Return_stmt (Some (Identifier x))])))
          else bind_d (emitDefers chain) (\<lambda>calls. ret_d (calls @ [Return_stmt v]))
      | None \<Rightarrow> bind_d (emitDefers chain) (\<lambda>calls. ret_d (calls @ [Return_stmt v])))"

type_synonym handler = "chain \<Rightarrow> node desugar"

text \<open>
  The loop of \<open>processBlock\<close> over the statements with the handlers of their children: \<open>calls\<close>
  are the calls the block has registered, \<open>exited\<close> is \<open>last_was_exit\<close>.
\<close>

fun process_stmts :: "(node \<times> handler) list \<Rightarrow> chain \<Rightarrow> node list \<Rightarrow> bool \<Rightarrow> node list desugar" where
  "process_stmts [] outer calls exited =
     (if exited then ret_d [] else emitDefers [calls])"
| "process_stmts ((s, h) # ss) outer calls exited =
     (case stmt_kind s of
        Kind_defer call \<Rightarrow>
          bind_d (snapshotCall call) (\<lambda>(lets, snapshot).
          bind_d (process_stmts ss outer (calls @ [snapshot]) False) (\<lambda>out. ret_d (lets @ out)))
      | Kind_return v \<Rightarrow>
          bind_d (process_return (outer @ [calls]) v) (\<lambda>exit.
          bind_d (process_stmts ss outer calls True) (\<lambda>out. ret_d (exit @ out)))
      | Kind_jump \<Rightarrow>
          bind_d (emitDefers (outer @ [calls])) (\<lambda>exit.
          bind_d (process_stmts ss outer calls True) (\<lambda>out. ret_d (exit @ s # out)))
      | Kind_other \<Rightarrow>
          bind_d (h (outer @ [calls])) (\<lambda>s'.
          bind_d (process_stmts ss outer calls False) (\<lambda>out. ret_d (s' # out))))"

definition process_block :: "(node \<times> handler) list \<Rightarrow> chain \<Rightarrow> node list desugar" where
  "process_block ss outer = process_stmts ss outer [] False"

section \<open>Statements and expressions\<close>

text \<open>
  The two handlers of a node, as a statement (\<open>processStmtChildren\<close>) and as an expression
  (\<open>processExpr\<close>).
\<close>

type_synonym handler_pair = "handler \<times> handler"

definition leave :: "node \<Rightarrow> handler" where
  "leave n = (\<lambda>chain. ret_d n)"

definition as_stmt :: "node \<Rightarrow> handler \<Rightarrow> handler_pair" where
  "as_stmt n h = (h, leave n)"

definition as_expr :: "node \<Rightarrow> handler \<Rightarrow> handler_pair" where
  "as_expr n h = (leave n, h)"

abbreviation block_of :: "node list \<Rightarrow> handler_pair list \<Rightarrow> chain \<Rightarrow> node list desugar" where
  "block_of b hs chain \<equiv> process_block (zip b (map fst hs)) chain"

fun block_opt :: "node list option \<Rightarrow> handler_pair list option \<Rightarrow> chain \<Rightarrow> node list option desugar" where
  "block_opt (Some b) (Some hs) chain = bind_d (block_of b hs chain) (\<lambda>b'. ret_d (Some b'))"
| "block_opt _ _ chain = ret_d None"

definition expr1 :: "node \<Rightarrow> (node \<Rightarrow> node) \<Rightarrow> handler_pair \<Rightarrow> handler_pair" where
  "expr1 n f h = as_expr n (\<lambda>ch. bind_d (snd h ch) (\<lambda>e. ret_d (f e)))"

definition expr2 :: "node \<Rightarrow> (node \<Rightarrow> node \<Rightarrow> node) \<Rightarrow> handler_pair \<Rightarrow> handler_pair \<Rightarrow> handler_pair" where
  "expr2 n f h h' = as_expr n (\<lambda>ch. bind_d (snd h ch) (\<lambda>l. bind_d (snd h' ch) (\<lambda>r. ret_d (f l r))))"

primrec handlers :: "node \<Rightarrow> handler_pair"
and switch_handler :: "switch_case \<Rightarrow> chain \<Rightarrow> switch_case desugar"
and match_handler :: "match_case \<Rightarrow> chain \<Rightarrow> match_case desugar"
and struct_field_handler :: "struct_literal_field \<Rightarrow> chain \<Rightarrow> struct_literal_field desugar"
and enum_field_handler :: "enum_literal_field \<Rightarrow> chain \<Rightarrow> enum_literal_field desugar"
where
  "handlers (Program ds) = (leave (Program ds), leave (Program ds))"
| "handlers (Struct_decl d) = (leave (Struct_decl d), leave (Struct_decl d))"
| "handlers (Enum_decl d) = (leave (Enum_decl d), leave (Enum_decl d))"
| "handlers (Trait_decl d) = (leave (Trait_decl d), leave (Trait_decl d))"
| "handlers (Impl_decl t u ms) = (leave (Impl_decl t u ms), leave (Impl_decl t u ms))"
| "handlers (Type_alias_decl d) = (leave (Type_alias_decl d), leave (Type_alias_decl d))"
| "handlers (Overload_decl t ms) = (leave (Overload_decl t ms), leave (Overload_decl t ms))"
| "handlers (Func_decl d b) = (leave (Func_decl d b), leave (Func_decl d b))"
| "handlers (Macro_decl d b) = (leave (Macro_decl d b), leave (Macro_decl d b))"
| "handlers (Import_decl p) = (leave (Import_decl p), leave (Import_decl p))"
| "handlers (Using_decl p) = (leave (Using_decl p), leave (Using_decl p))"
| "handlers (Test_decl d b) = (leave (Test_decl d b), leave (Test_decl d b))"
| "handlers (Sublanguage_decl d) = (leave (Sublanguage_decl d), leave (Sublanguage_decl d))"
| "handlers (Sublanguage_registration k) = (leave (Sublanguage_registration k), leave (Sublanguage_registration k))"
| "handlers (Check_hook_decl k) = (leave (Check_hook_decl k), leave (Check_hook_decl k))"
| "handlers (Let_stmt v t e) = as_stmt (Let_stmt v t e) (\<lambda>ch. bind_d (snd (handlers e) ch) (\<lambda>e'. ret_d (Let_stmt v t e')))"
| "handlers (Let_else_stmt p e b) = as_stmt (Let_else_stmt p e b) (\<lambda>ch. bind_d (snd (handlers e) ch) (\<lambda>e'. bind_d (block_of b (map handlers b) ch) (\<lambda>b'. ret_d (Let_else_stmt p e' b'))))"
| "handlers (Let_destructure_stmt d e) = as_stmt (Let_destructure_stmt d e) (\<lambda>ch. bind_d (snd (handlers e) ch) (\<lambda>e'. ret_d (Let_destructure_stmt d e')))"
| "handlers (Const_stmt v t e) = as_stmt (Const_stmt v t e) (\<lambda>ch. bind_d (snd (handlers e) ch) (\<lambda>e'. ret_d (Const_stmt v t e')))"
| "handlers (Var_stmt v t) = (leave (Var_stmt v t), leave (Var_stmt v t))"
| "handlers (Assign_stmt t v) = as_stmt (Assign_stmt t v) (\<lambda>ch. bind_d (snd (handlers t) ch) (\<lambda>t'. bind_d (snd (handlers v) ch) (\<lambda>v'. ret_d (Assign_stmt t' v'))))"
| "handlers (Block_stmt b) = as_stmt (Block_stmt b) (\<lambda>ch. bind_d (block_of b (map handlers b) ch) (\<lambda>b'. ret_d (Block_stmt b')))"
| "handlers (Arena_stmt b) = (leave (Arena_stmt b), leave (Arena_stmt b))"
| "handlers (Expr_stmt e) = as_stmt (Expr_stmt e) (\<lambda>ch. bind_d (snd (handlers e) ch) (\<lambda>e'. ret_d (Expr_stmt e')))"
| "handlers (Return_stmt vo) = as_stmt (Return_stmt vo) (\<lambda>ch. bind_d (option_d (\<lambda>h. snd h ch) (map_option handlers vo)) (\<lambda>vo'. ret_d (Return_stmt vo')))"
| "handlers (For_stmt v s eo b) = as_stmt (For_stmt v s eo b) (\<lambda>ch. bind_d (snd (handlers s) ch) (\<lambda>s'. bind_d (option_d (\<lambda>h. snd h ch) (map_option handlers eo)) (\<lambda>eo'. bind_d (block_of b (map handlers b) []) (\<lambda>b'. ret_d (For_stmt v s' eo' b')))))"
| "handlers (While_stmt c p b) = as_stmt (While_stmt c p b) (\<lambda>ch. bind_d (snd (handlers c) ch) (\<lambda>c'. bind_d (block_of b (map handlers b) []) (\<lambda>b'. ret_d (While_stmt c' p b'))))"
| "handlers Break_stmt = (leave Break_stmt, leave Break_stmt)"
| "handlers Continue_stmt = (leave Continue_stmt, leave Continue_stmt)"
| "handlers (Release_stmt v) = (leave (Release_stmt v), leave (Release_stmt v))"
| "handlers (Defer_stmt c) = (leave (Defer_stmt c), leave (Defer_stmt c))"
| "handlers (Select_stmt cs d t tb) = (leave (Select_stmt cs d t tb), leave (Select_stmt cs d t tb))"
| "handlers (Literal l) = (leave (Literal l), leave (Literal l))"
| "handlers (Identifier v) = (leave (Identifier v), leave (Identifier v))"
| "handlers (Generic_func_ref f gs) = (leave (Generic_func_ref f gs), leave (Generic_func_ref f gs))"
| "handlers (Go_expr s c) = (leave (Go_expr s c), leave (Go_expr s c))"
| "handlers (If_expr c lc t eo) = as_expr (If_expr c lc t eo) (\<lambda>ch. bind_d (snd (handlers c) ch) (\<lambda>c'. bind_d (block_of t (map handlers t) ch) (\<lambda>t'. bind_d (block_opt eo (map_option (map handlers) eo) ch) (\<lambda>eo'. ret_d (If_expr c' lc t' eo')))))"
| "handlers (Switch_expr v cs) = as_expr (Switch_expr v cs) (\<lambda>ch. bind_d (snd (handlers v) ch) (\<lambda>v'. bind_d (map_d (\<lambda>h. h ch) (map switch_handler cs)) (\<lambda>cs'. ret_d (Switch_expr v' cs'))))"
| "handlers (Match_expr v cs) = as_expr (Match_expr v cs) (\<lambda>ch. bind_d (snd (handlers v) ch) (\<lambda>v'. bind_d (map_d (\<lambda>h. h ch) (map match_handler cs)) (\<lambda>cs'. ret_d (Match_expr v' cs'))))"
| "handlers (Unsafe_expr b) = as_expr (Unsafe_expr b) (\<lambda>ch. bind_d (block_of b (map handlers b) ch) (\<lambda>b'. ret_d (Unsafe_expr b')))"
| "handlers (Await_expr e) = expr1 (Await_expr e) Await_expr (handlers e)"
| "handlers (Inline_asm_expr t ops) = (leave (Inline_asm_expr t ops), leave (Inline_asm_expr t ops))"
| "handlers (Binary_expr bop l r) = expr2 (Binary_expr bop l r) (Binary_expr bop) (handlers l) (handlers r)"
| "handlers (Call_expr f at gs args callee) = as_expr (Call_expr f at gs args callee) (\<lambda>ch. bind_d (option_d (\<lambda>h. snd h ch) (map_option handlers callee)) (\<lambda>callee'. bind_d (map_d (\<lambda>h. snd h ch) (map handlers args)) (\<lambda>args'. ret_d (Call_expr f at gs args' callee'))))"
| "handlers (Closure_literal ps b) = as_expr (Closure_literal ps b) (\<lambda>ch. bind_d (snd (handlers b) []) (\<lambda>b'. ret_d (Closure_literal ps b')))"
| "handlers (Borrow_expr e) = expr1 (Borrow_expr e) Borrow_expr (handlers e)"
| "handlers (Move_expr e) = expr1 (Move_expr e) Move_expr (handlers e)"
| "handlers (Deref_expr e) = expr1 (Deref_expr e) Deref_expr (handlers e)"
| "handlers (Cast_expr e t) = expr1 (Cast_expr e t) (\<lambda>e'. Cast_expr e' t) (handlers e)"
| "handlers (Field_expr e f) = expr1 (Field_expr e f) (\<lambda>e'. Field_expr e' f) (handlers e)"
| "handlers (Struct_literal t fs u) = as_expr (Struct_literal t fs u) (\<lambda>ch. bind_d (map_d (\<lambda>h. h ch) (map struct_field_handler fs)) (\<lambda>fs'. bind_d (option_d (\<lambda>h. snd h ch) (map_option handlers u)) (\<lambda>u'. ret_d (Struct_literal t fs' u'))))"
| "handlers (Enum_literal en vn fs) = as_expr (Enum_literal en vn fs) (\<lambda>ch. bind_d (map_d (\<lambda>h. h ch) (map enum_field_handler fs)) (\<lambda>fs'. ret_d (Enum_literal en vn fs')))"
| "handlers (Tuple_literal es) = as_expr (Tuple_literal es) (\<lambda>ch. bind_d (map_d (\<lambda>h. snd h ch) (map handlers es)) (\<lambda>es'. ret_d (Tuple_literal es')))"
| "handlers (Array_literal es) = as_expr (Array_literal es) (\<lambda>ch. bind_d (map_d (\<lambda>h. snd h ch) (map handlers es)) (\<lambda>es'. ret_d (Array_literal es')))"
| "handlers (Repeat_array_literal v n) = expr1 (Repeat_array_literal v n) (\<lambda>v'. Repeat_array_literal v' n) (handlers v)"
| "handlers (Index_expr t i) = expr2 (Index_expr t i) Index_expr (handlers t) (handlers i)"
| "handlers (Slice_expr t s e) = as_expr (Slice_expr t s e) (\<lambda>ch. bind_d (snd (handlers t) ch) (\<lambda>t'. bind_d (snd (handlers s) ch) (\<lambda>s'. bind_d (snd (handlers e) ch) (\<lambda>e'. ret_d (Slice_expr t' s' e')))))"
| "handlers (Try_expr e) = expr1 (Try_expr e) Try_expr (handlers e)"
| "switch_handler (Switch_case v b) = (\<lambda>ch. bind_d (block_of b (map handlers b) ch) (\<lambda>b'. ret_d (Switch_case v b')))"
| "match_handler (Match_case p g b) = (\<lambda>ch. bind_d (option_d (\<lambda>h. snd h ch) (map_option handlers g)) (\<lambda>g'. bind_d (block_of b (map handlers b) ch) (\<lambda>b'. ret_d (Match_case p g' b'))))"
| "struct_field_handler (Struct_literal_field n v) = (\<lambda>ch. bind_d (snd (handlers v) ch) (\<lambda>v'. ret_d (Struct_literal_field n v')))"
| "enum_field_handler (Enum_literal_field n v) = (\<lambda>ch. bind_d (snd (handlers v) ch) (\<lambda>v'. ret_d (Enum_literal_field n v')))"

definition processStmtChildren :: "node \<Rightarrow> handler" where
  "processStmtChildren s = fst (handlers s)"

definition processExpr :: "node \<Rightarrow> handler" where
  "processExpr e = snd (handlers e)"

definition processBlock :: "node list \<Rightarrow> chain \<Rightarrow> node list desugar" where
  "processBlock b outer = process_block (zip b (map processStmtChildren b)) outer"

section \<open>Programs\<close>

primrec desugar_method :: "node \<Rightarrow> node desugar"
where
  "desugar_method (Program ds) = ret_d (Program ds)"
| "desugar_method (Struct_decl d) = ret_d (Struct_decl d)"
| "desugar_method (Enum_decl d) = ret_d (Enum_decl d)"
| "desugar_method (Trait_decl d) = ret_d (Trait_decl d)"
| "desugar_method (Impl_decl t u ms) = ret_d (Impl_decl t u ms)"
| "desugar_method (Type_alias_decl d) = ret_d (Type_alias_decl d)"
| "desugar_method (Overload_decl t ms) = ret_d (Overload_decl t ms)"
| "desugar_method (Func_decl d b) = bind_d (processBlock b []) (\<lambda>b'. ret_d (Func_decl d b'))"
| "desugar_method (Macro_decl d b) = ret_d (Macro_decl d b)"
| "desugar_method (Import_decl p) = ret_d (Import_decl p)"
| "desugar_method (Using_decl p) = ret_d (Using_decl p)"
| "desugar_method (Test_decl d b) = ret_d (Test_decl d b)"
| "desugar_method (Sublanguage_decl d) = ret_d (Sublanguage_decl d)"
| "desugar_method (Sublanguage_registration k) = ret_d (Sublanguage_registration k)"
| "desugar_method (Check_hook_decl k) = ret_d (Check_hook_decl k)"
| "desugar_method (Let_stmt v t e) = ret_d (Let_stmt v t e)"
| "desugar_method (Let_else_stmt p e b) = ret_d (Let_else_stmt p e b)"
| "desugar_method (Let_destructure_stmt d e) = ret_d (Let_destructure_stmt d e)"
| "desugar_method (Const_stmt v t e) = ret_d (Const_stmt v t e)"
| "desugar_method (Var_stmt v t) = ret_d (Var_stmt v t)"
| "desugar_method (Assign_stmt t v) = ret_d (Assign_stmt t v)"
| "desugar_method (Block_stmt b) = ret_d (Block_stmt b)"
| "desugar_method (Arena_stmt b) = ret_d (Arena_stmt b)"
| "desugar_method (Expr_stmt e) = ret_d (Expr_stmt e)"
| "desugar_method (Return_stmt vo) = ret_d (Return_stmt vo)"
| "desugar_method (For_stmt v s eo b) = ret_d (For_stmt v s eo b)"
| "desugar_method (While_stmt c p b) = ret_d (While_stmt c p b)"
| "desugar_method Break_stmt = ret_d Break_stmt"
| "desugar_method Continue_stmt = ret_d Continue_stmt"
| "desugar_method (Release_stmt v) = ret_d (Release_stmt v)"
| "desugar_method (Defer_stmt c) = ret_d (Defer_stmt c)"
| "desugar_method (Select_stmt cs d t tb) = ret_d (Select_stmt cs d t tb)"
| "desugar_method (Literal l) = ret_d (Literal l)"
| "desugar_method (Identifier v) = ret_d (Identifier v)"
| "desugar_method (Generic_func_ref f gs) = ret_d (Generic_func_ref f gs)"
| "desugar_method (Go_expr s c) = ret_d (Go_expr s c)"
| "desugar_method (If_expr c lc t eo) = ret_d (If_expr c lc t eo)"
| "desugar_method (Switch_expr v cs) = ret_d (Switch_expr v cs)"
| "desugar_method (Match_expr v cs) = ret_d (Match_expr v cs)"
| "desugar_method (Unsafe_expr b) = ret_d (Unsafe_expr b)"
| "desugar_method (Await_expr e) = ret_d (Await_expr e)"
| "desugar_method (Inline_asm_expr t ops) = ret_d (Inline_asm_expr t ops)"
| "desugar_method (Binary_expr bop l r) = ret_d (Binary_expr bop l r)"
| "desugar_method (Call_expr f at gs args callee) = ret_d (Call_expr f at gs args callee)"
| "desugar_method (Closure_literal ps b) = ret_d (Closure_literal ps b)"
| "desugar_method (Borrow_expr e) = ret_d (Borrow_expr e)"
| "desugar_method (Move_expr e) = ret_d (Move_expr e)"
| "desugar_method (Deref_expr e) = ret_d (Deref_expr e)"
| "desugar_method (Cast_expr e t) = ret_d (Cast_expr e t)"
| "desugar_method (Field_expr e f) = ret_d (Field_expr e f)"
| "desugar_method (Struct_literal t fs u) = ret_d (Struct_literal t fs u)"
| "desugar_method (Enum_literal en vn fs) = ret_d (Enum_literal en vn fs)"
| "desugar_method (Tuple_literal es) = ret_d (Tuple_literal es)"
| "desugar_method (Array_literal es) = ret_d (Array_literal es)"
| "desugar_method (Repeat_array_literal v n) = ret_d (Repeat_array_literal v n)"
| "desugar_method (Index_expr t i) = ret_d (Index_expr t i)"
| "desugar_method (Slice_expr t s e) = ret_d (Slice_expr t s e)"
| "desugar_method (Try_expr e) = ret_d (Try_expr e)"

primrec desugar_decl :: "node \<Rightarrow> node desugar"
where
  "desugar_decl (Program ds) = ret_d (Program ds)"
| "desugar_decl (Struct_decl d) = ret_d (Struct_decl d)"
| "desugar_decl (Enum_decl d) = ret_d (Enum_decl d)"
| "desugar_decl (Trait_decl d) = ret_d (Trait_decl d)"
| "desugar_decl (Impl_decl t u ms) = bind_d (map_d desugar_method ms) (\<lambda>ms'. ret_d (Impl_decl t u ms'))"
| "desugar_decl (Type_alias_decl d) = ret_d (Type_alias_decl d)"
| "desugar_decl (Overload_decl t ms) = ret_d (Overload_decl t ms)"
| "desugar_decl (Func_decl d b) = bind_d (processBlock b []) (\<lambda>b'. ret_d (Func_decl d b'))"
| "desugar_decl (Macro_decl d b) = bind_d (processBlock b []) (\<lambda>b'. ret_d (Macro_decl d b'))"
| "desugar_decl (Import_decl p) = ret_d (Import_decl p)"
| "desugar_decl (Using_decl p) = ret_d (Using_decl p)"
| "desugar_decl (Test_decl d b) = bind_d (processBlock b []) (\<lambda>b'. ret_d (Test_decl d b'))"
| "desugar_decl (Sublanguage_decl d) = ret_d (Sublanguage_decl d)"
| "desugar_decl (Sublanguage_registration k) = ret_d (Sublanguage_registration k)"
| "desugar_decl (Check_hook_decl k) = ret_d (Check_hook_decl k)"
| "desugar_decl (Let_stmt v t e) = ret_d (Let_stmt v t e)"
| "desugar_decl (Let_else_stmt p e b) = ret_d (Let_else_stmt p e b)"
| "desugar_decl (Let_destructure_stmt d e) = ret_d (Let_destructure_stmt d e)"
| "desugar_decl (Const_stmt v t e) = ret_d (Const_stmt v t e)"
| "desugar_decl (Var_stmt v t) = ret_d (Var_stmt v t)"
| "desugar_decl (Assign_stmt t v) = ret_d (Assign_stmt t v)"
| "desugar_decl (Block_stmt b) = ret_d (Block_stmt b)"
| "desugar_decl (Arena_stmt b) = ret_d (Arena_stmt b)"
| "desugar_decl (Expr_stmt e) = ret_d (Expr_stmt e)"
| "desugar_decl (Return_stmt vo) = ret_d (Return_stmt vo)"
| "desugar_decl (For_stmt v s eo b) = ret_d (For_stmt v s eo b)"
| "desugar_decl (While_stmt c p b) = ret_d (While_stmt c p b)"
| "desugar_decl Break_stmt = ret_d Break_stmt"
| "desugar_decl Continue_stmt = ret_d Continue_stmt"
| "desugar_decl (Release_stmt v) = ret_d (Release_stmt v)"
| "desugar_decl (Defer_stmt c) = ret_d (Defer_stmt c)"
| "desugar_decl (Select_stmt cs d t tb) = ret_d (Select_stmt cs d t tb)"
| "desugar_decl (Literal l) = ret_d (Literal l)"
| "desugar_decl (Identifier v) = ret_d (Identifier v)"
| "desugar_decl (Generic_func_ref f gs) = ret_d (Generic_func_ref f gs)"
| "desugar_decl (Go_expr s c) = ret_d (Go_expr s c)"
| "desugar_decl (If_expr c lc t eo) = ret_d (If_expr c lc t eo)"
| "desugar_decl (Switch_expr v cs) = ret_d (Switch_expr v cs)"
| "desugar_decl (Match_expr v cs) = ret_d (Match_expr v cs)"
| "desugar_decl (Unsafe_expr b) = ret_d (Unsafe_expr b)"
| "desugar_decl (Await_expr e) = ret_d (Await_expr e)"
| "desugar_decl (Inline_asm_expr t ops) = ret_d (Inline_asm_expr t ops)"
| "desugar_decl (Binary_expr bop l r) = ret_d (Binary_expr bop l r)"
| "desugar_decl (Call_expr f at gs args callee) = ret_d (Call_expr f at gs args callee)"
| "desugar_decl (Closure_literal ps b) = ret_d (Closure_literal ps b)"
| "desugar_decl (Borrow_expr e) = ret_d (Borrow_expr e)"
| "desugar_decl (Move_expr e) = ret_d (Move_expr e)"
| "desugar_decl (Deref_expr e) = ret_d (Deref_expr e)"
| "desugar_decl (Cast_expr e t) = ret_d (Cast_expr e t)"
| "desugar_decl (Field_expr e f) = ret_d (Field_expr e f)"
| "desugar_decl (Struct_literal t fs u) = ret_d (Struct_literal t fs u)"
| "desugar_decl (Enum_literal en vn fs) = ret_d (Enum_literal en vn fs)"
| "desugar_decl (Tuple_literal es) = ret_d (Tuple_literal es)"
| "desugar_decl (Array_literal es) = ret_d (Array_literal es)"
| "desugar_decl (Repeat_array_literal v n) = ret_d (Repeat_array_literal v n)"
| "desugar_decl (Index_expr t i) = ret_d (Index_expr t i)"
| "desugar_decl (Slice_expr t s e) = ret_d (Slice_expr t s e)"
| "desugar_decl (Try_expr e) = ret_d (Try_expr e)"

text \<open>\<open>desugarProgram\<close> on the declarations of a program; the counter starts at 0.\<close>

definition desugarProgram :: "node list \<Rightarrow> desugar_error + node list" where
  "desugarProgram decls =
     (case map_d desugar_decl decls 0 of Inl e \<Rightarrow> Inl e | Inr (decls', k) \<Rightarrow> Inr decls')"

end
