(* ===== verification/Sla_Defer_Runs.thy ===== *)
theory Sla_Defer_Runs
  imports Sla_Defer
begin

text \<open>
  What blocks with \<open>defer\<close> mean: the traces of a statement and how it ends.  A block runs its
  registered calls, the last first, at every exit; the arguments of a deferred call are evaluated
  when it is registered and a return value before the calls run.  The trace of a desugared
  program binds synthetic names instead; \<open>resolve\<close> reads them back.
\<close>

section \<open>Traces\<close>

datatype event = Bind string node | Eval node

datatype leaving = Falls | Breaks_off | Goes_on | Returns_with "node option"

type_synonym run = "event list \<times> leaving"

definition done_run :: "run set" where
  "done_run = {([], Falls)}"

definition plain_run :: "node \<Rightarrow> run set" where
  "plain_run n = {([Eval n], Falls)}"

definition then_run :: "run set \<Rightarrow> run set \<Rightarrow> run set" where
  "then_run R S = {(t @ u, x) | t u x. (t, Falls) \<in> R \<and> (u, x) \<in> S} \<union> {(t, x) \<in> R. x \<noteq> Falls}"

text \<open>The calls that run when a block is left in another way than falling through.\<close>

definition exits :: "node list \<Rightarrow> run set \<Rightarrow> run set" where
  "exits calls R = (\<lambda>(t, x). (if x = Falls then t else t @ map Eval calls, x)) ` R"

text \<open>The statements of a block and its registered calls, the last one first.\<close>

primrec call_args :: "node \<Rightarrow> node list"
where
  "call_args (Program ds) = []"
| "call_args (Struct_decl d) = []"
| "call_args (Enum_decl d) = []"
| "call_args (Trait_decl d) = []"
| "call_args (Impl_decl t u ms) = []"
| "call_args (Type_alias_decl d) = []"
| "call_args (Overload_decl t ms) = []"
| "call_args (Func_decl d b) = []"
| "call_args (Macro_decl d b) = []"
| "call_args (Import_decl p) = []"
| "call_args (Using_decl p) = []"
| "call_args (Test_decl d b) = []"
| "call_args (Sublanguage_decl d) = []"
| "call_args (Sublanguage_registration k) = []"
| "call_args (Check_hook_decl k) = []"
| "call_args (Let_stmt v t e) = []"
| "call_args (Let_else_stmt p e b) = []"
| "call_args (Let_destructure_stmt d e) = []"
| "call_args (Const_stmt v t e) = []"
| "call_args (Var_stmt v t) = []"
| "call_args (Assign_stmt t v) = []"
| "call_args (Block_stmt b) = []"
| "call_args (Arena_stmt b) = []"
| "call_args (Expr_stmt e) = []"
| "call_args (Return_stmt vo) = []"
| "call_args (For_stmt v s eo b) = []"
| "call_args (While_stmt c p b) = []"
| "call_args Break_stmt = []"
| "call_args Continue_stmt = []"
| "call_args (Release_stmt v) = []"
| "call_args (Defer_stmt c) = []"
| "call_args (Select_stmt cs d t tb) = []"
| "call_args (Literal l) = []"
| "call_args (Identifier v) = []"
| "call_args (Generic_func_ref f gs) = []"
| "call_args (Go_expr s c) = []"
| "call_args (If_expr c lc t eo) = []"
| "call_args (Switch_expr v cs) = []"
| "call_args (Match_expr v cs) = []"
| "call_args (Unsafe_expr b) = []"
| "call_args (Await_expr e) = []"
| "call_args (Inline_asm_expr t ops) = []"
| "call_args (Binary_expr bop l r) = []"
| "call_args (Call_expr f at gs args callee) = args"
| "call_args (Closure_literal ps b) = []"
| "call_args (Borrow_expr e) = []"
| "call_args (Move_expr e) = []"
| "call_args (Deref_expr e) = []"
| "call_args (Cast_expr e t) = []"
| "call_args (Field_expr e f) = []"
| "call_args (Struct_literal t fs u) = []"
| "call_args (Enum_literal en vn fs) = []"
| "call_args (Tuple_literal es) = []"
| "call_args (Array_literal es) = []"
| "call_args (Repeat_array_literal v n) = []"
| "call_args (Index_expr t i) = []"
| "call_args (Slice_expr t s e) = []"
| "call_args (Try_expr e) = []"

fun block_runs :: "(node \<times> run set) list \<Rightarrow> node list \<Rightarrow> run set" where
  "block_runs [] calls = {(map Eval calls, Falls)}"
| "block_runs ((s, R) # ss) calls =
     (case stmt_kind s of
        Kind_defer c \<Rightarrow> then_run {(map Eval (call_args c), Falls)} (block_runs ss (c # calls))
      | _ \<Rightarrow> then_run (exits calls R) (block_runs ss calls))"

text \<open>
  A loop: before every iteration \<open>C\<close> is evaluated (nothing for a \<open>for\<close>); it may end there.
\<close>

inductive_set loop_runs :: "event list \<Rightarrow> run set \<Rightarrow> run set" for C :: "event list" and B :: "run set" where
  loop_stop: "(C, Falls) \<in> loop_runs C B"
| loop_break: "(t, Breaks_off) \<in> B \<Longrightarrow> (C @ t, Falls) \<in> loop_runs C B"
| loop_return: "(t, Returns_with v) \<in> B \<Longrightarrow> (C @ t, Returns_with v) \<in> loop_runs C B"
| loop_next: "(t, x) \<in> B \<Longrightarrow> x = Falls \<or> x = Goes_on \<Longrightarrow> (u, y) \<in> loop_runs C B \<Longrightarrow>
    (C @ t @ u, y) \<in> loop_runs C B"

text \<open>The cases of a \<open>match\<close>: guards are evaluated in order until a case is taken.\<close>

fun case_runs :: "(event list \<times> run set) list \<Rightarrow> run set" where
  "case_runs [] = done_run"
| "case_runs ((g, B) # cs) = then_run {(g, Falls)} (B \<union> case_runs cs) \<union> case_runs cs"

definition opt_event :: "node option \<Rightarrow> event list" where
  "opt_event vo = (case vo of None \<Rightarrow> [] | Some v \<Rightarrow> [Eval v])"

text \<open>The names the pass makes up.\<close>

definition synthetic :: "string \<Rightarrow> bool" where
  "synthetic x \<longleftrightarrow> starts_with x ''__dfa_'' \<or> starts_with x ''__dfret_''"

primrec ident_of :: "node \<Rightarrow> string option"
where
  "ident_of (Program ds) = None"
| "ident_of (Struct_decl d) = None"
| "ident_of (Enum_decl d) = None"
| "ident_of (Trait_decl d) = None"
| "ident_of (Impl_decl t u ms) = None"
| "ident_of (Type_alias_decl d) = None"
| "ident_of (Overload_decl t ms) = None"
| "ident_of (Func_decl d b) = None"
| "ident_of (Macro_decl d b) = None"
| "ident_of (Import_decl p) = None"
| "ident_of (Using_decl p) = None"
| "ident_of (Test_decl d b) = None"
| "ident_of (Sublanguage_decl d) = None"
| "ident_of (Sublanguage_registration k) = None"
| "ident_of (Check_hook_decl k) = None"
| "ident_of (Let_stmt v t e) = None"
| "ident_of (Let_else_stmt p e b) = None"
| "ident_of (Let_destructure_stmt d e) = None"
| "ident_of (Const_stmt v t e) = None"
| "ident_of (Var_stmt v t) = None"
| "ident_of (Assign_stmt t v) = None"
| "ident_of (Block_stmt b) = None"
| "ident_of (Arena_stmt b) = None"
| "ident_of (Expr_stmt e) = None"
| "ident_of (Return_stmt vo) = None"
| "ident_of (For_stmt v s eo b) = None"
| "ident_of (While_stmt c p b) = None"
| "ident_of Break_stmt = None"
| "ident_of Continue_stmt = None"
| "ident_of (Release_stmt v) = None"
| "ident_of (Defer_stmt c) = None"
| "ident_of (Select_stmt cs d t tb) = None"
| "ident_of (Literal l) = None"
| "ident_of (Identifier v) = Some v"
| "ident_of (Generic_func_ref f gs) = None"
| "ident_of (Go_expr s c) = None"
| "ident_of (If_expr c lc t eo) = None"
| "ident_of (Switch_expr v cs) = None"
| "ident_of (Match_expr v cs) = None"
| "ident_of (Unsafe_expr b) = None"
| "ident_of (Await_expr e) = None"
| "ident_of (Inline_asm_expr t ops) = None"
| "ident_of (Binary_expr bop l r) = None"
| "ident_of (Call_expr f at gs args callee) = None"
| "ident_of (Closure_literal ps b) = None"
| "ident_of (Borrow_expr e) = None"
| "ident_of (Move_expr e) = None"
| "ident_of (Deref_expr e) = None"
| "ident_of (Cast_expr e t) = None"
| "ident_of (Field_expr e f) = None"
| "ident_of (Struct_literal t fs u) = None"
| "ident_of (Enum_literal en vn fs) = None"
| "ident_of (Tuple_literal es) = None"
| "ident_of (Array_literal es) = None"
| "ident_of (Repeat_array_literal v n) = None"
| "ident_of (Index_expr t i) = None"
| "ident_of (Slice_expr t s e) = None"
| "ident_of (Try_expr e) = None"

text \<open>
  The value of a \<open>return\<close> is evaluated, a name read, except that a literal has nothing to evaluate and the value of a
  synthetic name was evaluated where the name was bound.
\<close>

definition value_event :: "node option \<Rightarrow> event list" where
  "value_event vo = (case vo of None \<Rightarrow> [] | Some v \<Rightarrow>
     if is_literal v then []
     else (case ident_of v of Some x \<Rightarrow> if synthetic x then [] else [Eval v] | None \<Rightarrow> [Eval v]))"

abbreviation body_of :: "node list \<Rightarrow> run set list \<Rightarrow> run set" where
  "body_of b Rs \<equiv> block_runs (zip b Rs) []"

fun else_runs :: "node list option \<Rightarrow> run set list option \<Rightarrow> run set" where
  "else_runs (Some b) (Some Rs) = body_of b Rs"
| "else_runs _ _ = done_run"

text \<open>Everything that is not a statement with statements in it is one event.\<close>

primrec runs :: "node \<Rightarrow> run set"
and switch_case_runs :: "switch_case \<Rightarrow> event list \<times> run set"
and match_case_runs :: "match_case \<Rightarrow> event list \<times> run set"
where
  "runs (Program ds) = plain_run (Program ds)"
| "runs (Struct_decl d) = plain_run (Struct_decl d)"
| "runs (Enum_decl d) = plain_run (Enum_decl d)"
| "runs (Trait_decl d) = plain_run (Trait_decl d)"
| "runs (Impl_decl t u ms) = plain_run (Impl_decl t u ms)"
| "runs (Type_alias_decl d) = plain_run (Type_alias_decl d)"
| "runs (Overload_decl t ms) = plain_run (Overload_decl t ms)"
| "runs (Func_decl d b) = plain_run (Func_decl d b)"
| "runs (Macro_decl d b) = plain_run (Macro_decl d b)"
| "runs (Import_decl p) = plain_run (Import_decl p)"
| "runs (Using_decl p) = plain_run (Using_decl p)"
| "runs (Test_decl d b) = plain_run (Test_decl d b)"
| "runs (Sublanguage_decl d) = plain_run (Sublanguage_decl d)"
| "runs (Sublanguage_registration k) = plain_run (Sublanguage_registration k)"
| "runs (Check_hook_decl k) = plain_run (Check_hook_decl k)"
| "runs (Let_stmt v t e) = {([Bind v e], Falls)}"
| "runs (Let_else_stmt p e b) = plain_run (Let_else_stmt p e b)"
| "runs (Let_destructure_stmt d e) = plain_run (Let_destructure_stmt d e)"
| "runs (Const_stmt v t e) = plain_run (Const_stmt v t e)"
| "runs (Var_stmt v t) = plain_run (Var_stmt v t)"
| "runs (Assign_stmt t v) = plain_run (Assign_stmt t v)"
| "runs (Block_stmt b) = body_of b (map runs b)"
| "runs (Arena_stmt b) = plain_run (Arena_stmt b)"
| "runs (Expr_stmt e) = runs e"
| "runs (Return_stmt vo) = {(value_event vo, Returns_with vo)}"
| "runs (For_stmt v s eo b) = then_run {(Eval s # opt_event eo, Falls)} (loop_runs [] (body_of b (map runs b)))"
| "runs (While_stmt c p b) = loop_runs [Eval c] (body_of b (map runs b))"
| "runs Break_stmt = {([], Breaks_off)}"
| "runs Continue_stmt = {([], Goes_on)}"
| "runs (Release_stmt v) = plain_run (Release_stmt v)"
| "runs (Defer_stmt c) = plain_run (Defer_stmt c)"
| "runs (Select_stmt cs d t tb) = plain_run (Select_stmt cs d t tb)"
| "runs (Literal l) = plain_run (Literal l)"
| "runs (Identifier v) = plain_run (Identifier v)"
| "runs (Generic_func_ref f gs) = plain_run (Generic_func_ref f gs)"
| "runs (Go_expr s c) = plain_run (Go_expr s c)"
| "runs (If_expr c lc t eo) = then_run {([Eval c], Falls)} (body_of t (map runs t) \<union> else_runs eo (map_option (map runs) eo))"
| "runs (Switch_expr v cs) = then_run {([Eval v], Falls)} (case_runs (map switch_case_runs cs))"
| "runs (Match_expr v cs) = then_run {([Eval v], Falls)} (case_runs (map match_case_runs cs))"
| "runs (Unsafe_expr b) = body_of b (map runs b)"
| "runs (Await_expr e) = plain_run (Await_expr e)"
| "runs (Inline_asm_expr t ops) = plain_run (Inline_asm_expr t ops)"
| "runs (Binary_expr bop l r) = plain_run (Binary_expr bop l r)"
| "runs (Call_expr f at gs args callee) = plain_run (Call_expr f at gs args callee)"
| "runs (Closure_literal ps b) = plain_run (Closure_literal ps b)"
| "runs (Borrow_expr e) = plain_run (Borrow_expr e)"
| "runs (Move_expr e) = plain_run (Move_expr e)"
| "runs (Deref_expr e) = plain_run (Deref_expr e)"
| "runs (Cast_expr e t) = plain_run (Cast_expr e t)"
| "runs (Field_expr e f) = plain_run (Field_expr e f)"
| "runs (Struct_literal t fs u) = plain_run (Struct_literal t fs u)"
| "runs (Enum_literal en vn fs) = plain_run (Enum_literal en vn fs)"
| "runs (Tuple_literal es) = plain_run (Tuple_literal es)"
| "runs (Array_literal es) = plain_run (Array_literal es)"
| "runs (Repeat_array_literal v n) = plain_run (Repeat_array_literal v n)"
| "runs (Index_expr t i) = plain_run (Index_expr t i)"
| "runs (Slice_expr t s e) = plain_run (Slice_expr t s e)"
| "runs (Try_expr e) = plain_run (Try_expr e)"
| "switch_case_runs (Switch_case v b) = ([], body_of b (map runs b))"
| "match_case_runs (Match_case p g b) = (opt_event g, body_of b (map runs b))"

definition body_runs :: "node list \<Rightarrow> run set" where
  "body_runs b = body_of b (map runs b)"

section \<open>Reading synthetic names back\<close>

type_synonym env = "string \<rightharpoonup> node"

definition subst_name :: "env \<Rightarrow> node \<Rightarrow> node" where
  "subst_name env n = (case ident_of n of
     Some x \<Rightarrow> (case env x of Some v \<Rightarrow> v | None \<Rightarrow> n) | None \<Rightarrow> n)"

text \<open>The arguments of a call are looked up.\<close>

primrec subst_call :: "node \<Rightarrow> env \<Rightarrow> node"
where
  "subst_call (Program ds) = (\<lambda>env. Program ds)"
| "subst_call (Struct_decl d) = (\<lambda>env. Struct_decl d)"
| "subst_call (Enum_decl d) = (\<lambda>env. Enum_decl d)"
| "subst_call (Trait_decl d) = (\<lambda>env. Trait_decl d)"
| "subst_call (Impl_decl t u ms) = (\<lambda>env. Impl_decl t u ms)"
| "subst_call (Type_alias_decl d) = (\<lambda>env. Type_alias_decl d)"
| "subst_call (Overload_decl t ms) = (\<lambda>env. Overload_decl t ms)"
| "subst_call (Func_decl d b) = (\<lambda>env. Func_decl d b)"
| "subst_call (Macro_decl d b) = (\<lambda>env. Macro_decl d b)"
| "subst_call (Import_decl p) = (\<lambda>env. Import_decl p)"
| "subst_call (Using_decl p) = (\<lambda>env. Using_decl p)"
| "subst_call (Test_decl d b) = (\<lambda>env. Test_decl d b)"
| "subst_call (Sublanguage_decl d) = (\<lambda>env. Sublanguage_decl d)"
| "subst_call (Sublanguage_registration k) = (\<lambda>env. Sublanguage_registration k)"
| "subst_call (Check_hook_decl k) = (\<lambda>env. Check_hook_decl k)"
| "subst_call (Let_stmt v t e) = (\<lambda>env. Let_stmt v t e)"
| "subst_call (Let_else_stmt p e b) = (\<lambda>env. Let_else_stmt p e b)"
| "subst_call (Let_destructure_stmt d e) = (\<lambda>env. Let_destructure_stmt d e)"
| "subst_call (Const_stmt v t e) = (\<lambda>env. Const_stmt v t e)"
| "subst_call (Var_stmt v t) = (\<lambda>env. Var_stmt v t)"
| "subst_call (Assign_stmt t v) = (\<lambda>env. Assign_stmt t v)"
| "subst_call (Block_stmt b) = (\<lambda>env. Block_stmt b)"
| "subst_call (Arena_stmt b) = (\<lambda>env. Arena_stmt b)"
| "subst_call (Expr_stmt e) = (\<lambda>env. Expr_stmt e)"
| "subst_call (Return_stmt vo) = (\<lambda>env. Return_stmt vo)"
| "subst_call (For_stmt v s eo b) = (\<lambda>env. For_stmt v s eo b)"
| "subst_call (While_stmt c p b) = (\<lambda>env. While_stmt c p b)"
| "subst_call Break_stmt = (\<lambda>env. Break_stmt)"
| "subst_call Continue_stmt = (\<lambda>env. Continue_stmt)"
| "subst_call (Release_stmt v) = (\<lambda>env. Release_stmt v)"
| "subst_call (Defer_stmt c) = (\<lambda>env. Defer_stmt c)"
| "subst_call (Select_stmt cs d t tb) = (\<lambda>env. Select_stmt cs d t tb)"
| "subst_call (Literal l) = (\<lambda>env. Literal l)"
| "subst_call (Identifier v) = (\<lambda>env. Identifier v)"
| "subst_call (Generic_func_ref f gs) = (\<lambda>env. Generic_func_ref f gs)"
| "subst_call (Go_expr s c) = (\<lambda>env. Go_expr s c)"
| "subst_call (If_expr c lc t eo) = (\<lambda>env. If_expr c lc t eo)"
| "subst_call (Switch_expr v cs) = (\<lambda>env. Switch_expr v cs)"
| "subst_call (Match_expr v cs) = (\<lambda>env. Match_expr v cs)"
| "subst_call (Unsafe_expr b) = (\<lambda>env. Unsafe_expr b)"
| "subst_call (Await_expr e) = (\<lambda>env. Await_expr e)"
| "subst_call (Inline_asm_expr t ops) = (\<lambda>env. Inline_asm_expr t ops)"
| "subst_call (Binary_expr bop l r) = (\<lambda>env. Binary_expr bop l r)"
| "subst_call (Call_expr f at gs args callee) = (\<lambda>env. Call_expr f at gs (map (subst_name env) args) callee)"
| "subst_call (Closure_literal ps b) = (\<lambda>env. Closure_literal ps b)"
| "subst_call (Borrow_expr e) = (\<lambda>env. Borrow_expr e)"
| "subst_call (Move_expr e) = (\<lambda>env. Move_expr e)"
| "subst_call (Deref_expr e) = (\<lambda>env. Deref_expr e)"
| "subst_call (Cast_expr e t) = (\<lambda>env. Cast_expr e t)"
| "subst_call (Field_expr e f) = (\<lambda>env. Field_expr e f)"
| "subst_call (Struct_literal t fs u) = (\<lambda>env. Struct_literal t fs u)"
| "subst_call (Enum_literal en vn fs) = (\<lambda>env. Enum_literal en vn fs)"
| "subst_call (Tuple_literal es) = (\<lambda>env. Tuple_literal es)"
| "subst_call (Array_literal es) = (\<lambda>env. Array_literal es)"
| "subst_call (Repeat_array_literal v n) = (\<lambda>env. Repeat_array_literal v n)"
| "subst_call (Index_expr t i) = (\<lambda>env. Index_expr t i)"
| "subst_call (Slice_expr t s e) = (\<lambda>env. Slice_expr t s e)"
| "subst_call (Try_expr e) = (\<lambda>env. Try_expr e)"

fun env_after :: "env \<Rightarrow> event list \<Rightarrow> env" where
  "env_after env [] = env"
| "env_after env (Bind x v # t) = env_after (if synthetic x then env(x \<mapsto> v) else env) t"
| "env_after env (Eval n # t) = env_after env t"

fun resolve :: "env \<Rightarrow> event list \<Rightarrow> event list" where
  "resolve env [] = []"
| "resolve env (Bind x v # t) =
     (if synthetic x then Eval v # resolve (env(x \<mapsto> v)) t else Bind x v # resolve env t)"
| "resolve env (Eval n # t) = Eval (subst_call n env) # resolve env t"

fun resolve_leaving :: "env \<Rightarrow> leaving \<Rightarrow> leaving" where
  "resolve_leaving env (Returns_with vo) = Returns_with (map_option (subst_name env) vo)"
| "resolve_leaving env x = x"

definition resolve_runs :: "env \<Rightarrow> run set \<Rightarrow> run set" where
  "resolve_runs env R = (\<lambda>(t, x). (resolve env t, resolve_leaving (env_after env t) x)) ` R"

section \<open>The fragment\<close>

text \<open>
  Expressions that hold no statements (those that may be cloned) and no synthetic name where it
  would be looked up.
\<close>

definition user_expr :: "node \<Rightarrow> bool" where
  "user_expr n \<longleftrightarrow> cloneExpr n = Inr n \<and>
     (\<forall>x. (ident_of n = Some x \<or> (\<exists>a \<in> set (call_args n). ident_of a = Some x)) \<longrightarrow> \<not> synthetic x)"

text \<open>
  Structured statements over such expressions.  The first flag says whether a \<open>return\<close> may occur: it may not inside a
  loop, whose body the pass cuts off from the blocks around it.  The second says whether deferred calls are pending, of
  the blocks around or registered before in the list: then a bare name may not be returned, which the pass does not read
  before the calls run (\<open>returned_name_late\<close> in \<open>Sla_Defer_Gone\<close>).
\<close>

definition is_defer :: "node \<Rightarrow> bool" where
  "is_defer s \<longleftrightarrow> (case stmt_kind s of Kind_defer c \<Rightarrow> True | _ \<Rightarrow> False)"

definition bare_name :: "node option \<Rightarrow> bool" where
  "bare_name vo = pred_option is_identifier vo"

inductive core :: "bool \<Rightarrow> bool \<Rightarrow> node \<Rightarrow> bool" and core_list :: "bool \<Rightarrow> bool \<Rightarrow> node list \<Rightarrow> bool" where
  core_let: "user_expr e \<Longrightarrow> \<not> synthetic x \<Longrightarrow> core r d (Let_stmt x ty e)"
| core_assign: "user_expr a \<Longrightarrow> user_expr v \<Longrightarrow> core r d (Assign_stmt a v)"
| core_expr: "user_expr e \<Longrightarrow> core r d (Expr_stmt e)"
| core_return: "pred_option user_expr vo \<Longrightarrow> d \<longrightarrow> vo = None \<or> \<not> bare_name vo \<Longrightarrow> core True d (Return_stmt vo)"
| core_break: "core r d Break_stmt"
| core_continue: "core r d Continue_stmt"
| core_defer: "\<forall>a \<in> set args. user_expr a \<Longrightarrow> pred_option user_expr callee \<Longrightarrow>
    core r d (Defer_stmt (Call_expr f at gs args callee))"
| core_block: "core_list r d b \<Longrightarrow> core r d (Block_stmt b)"
| core_unsafe: "core_list r d b \<Longrightarrow> core r d (Expr_stmt (Unsafe_expr b))"
| core_if: "user_expr c \<Longrightarrow> core_list r d b \<Longrightarrow> core_list r d b' \<Longrightarrow>
    eo = None \<or> eo = Some b' \<Longrightarrow> core r d (Expr_stmt (If_expr c None b eo))"
| core_while: "user_expr c \<Longrightarrow> core_list False False b \<Longrightarrow> core r d (While_stmt c None b)"
| core_for: "user_expr i \<Longrightarrow> pred_option user_expr eo \<Longrightarrow> core_list False False b \<Longrightarrow>
    core r d (For_stmt x i eo b)"
| core_match: "user_expr v \<Longrightarrow>
    \<forall>c \<in> set cs. \<exists>p g b. c = Match_case p g b \<and> pred_option user_expr g \<and> core_list r d b \<Longrightarrow>
    core r d (Expr_stmt (Match_expr v cs))"
| core_switch: "user_expr v \<Longrightarrow>
    \<forall>c \<in> set cs. \<exists>p b. c = Switch_case p b \<and> core_list r d b \<Longrightarrow>
    core r d (Expr_stmt (Switch_expr v cs))"
| core_nil: "core_list r d []"
| core_cons: "core r d s \<Longrightarrow> core_list r (d \<or> is_defer s) ss \<Longrightarrow> core_list r d (s # ss)"

inductive_cases core_deferE: "core r d (Defer_stmt c)"
inductive_cases core_returnE: "core r d (Return_stmt vo)"

end
