(* ===== verification/Sla_Defer_Refines.thy ===== *)
theory Sla_Defer_Refines
  imports Sla_Defer_Runs
begin

text \<open>
  The pass of \<open>defer_desugar.zig\<close> implements the block semantics on the structured fragment: every
  desugared body has exactly the traces of the original, and no \<open>defer\<close> is left in it.
\<close>

section \<open>The error monads\<close>

named_theorems desugar_eval

lemma bind_d_simps [desugar_eval]:
  "bind_d (ret_d x) f = f x" "bind_d (fail_d e) g = fail_d e"
  by (auto simp: bind_d_def ret_d_def fail_d_def)

lemma bind_d_Inr: "m k = Inr (x, k') \<Longrightarrow> bind_d m f k = f x k'"
  by (simp add: bind_d_def)

lemma ret_d_Inr [simp]: "ret_d x k = Inr (x, k)"
  by (simp add: ret_d_def)

lemma bind_d_eq_Inr: "bind_d m f k = Inr r \<longleftrightarrow> (\<exists>x k'. m k = Inr (x, k') \<and> f x k' = Inr r)"
  by (auto simp: bind_d_def split: sum.splits prod.splits)

lemma bind_c_eq_Inr [simp]: "bind_c m f = Inr r \<longleftrightarrow> (\<exists>x. m = Inr x \<and> f x = Inr r)"
  by (cases m) (auto simp: bind_c_def)

lemma all_c_eq_Inr [simp]: "all_c ms = Inr xs \<longleftrightarrow> ms = map Inr xs"
  by (induction ms arbitrary: xs) auto

lemma opt_c_eq_Inr [simp]: "opt_c m = Inr x \<longleftrightarrow> m = map_option Inr x"
  by (cases m; cases x) auto

section \<open>Clones are copies\<close>

lemma map_Inr_id:
  "map f xs = map Inr ys \<Longrightarrow> (\<And>x m. x \<in> set xs \<Longrightarrow> f x = Inr m \<Longrightarrow> m = x) \<Longrightarrow> ys = xs"
proof (induction xs arbitrary: ys)
  case (Cons x xs)
  then show ?case by (cases ys) auto
qed simp

lemma map_option_Inr_id:
  "map_option f x = map_option Inr y \<Longrightarrow> (\<And>a m. x = Some a \<Longrightarrow> f a = Inr m \<Longrightarrow> m = a) \<Longrightarrow> y = x"
  by (cases x; cases y) auto

lemma clone_id:
  "cloneExpr n = Inr m \<Longrightarrow> m = n"
  "sel = (sel :: select_case)"
  "il = (il :: if_let_cond)"
  "sc = (sc :: switch_case)"
  "mc = (mc :: match_case)"
  "cloneStructField sf = Inr sf' \<Longrightarrow> sf' = sf"
  "cloneEnumField ef = Inr ef' \<Longrightarrow> ef' = ef"
proof (induct n and sel and il and sc and mc and sf and ef arbitrary: m and and and and and sf' and ef'
    rule: node.induct select_case.induct if_let_cond.induct switch_case.induct match_case.induct
      struct_literal_field.induct enum_literal_field.induct)
  case (Call_expr f at gs args callee)
  then show ?case by (auto dest!: map_Inr_id map_option_Inr_id)
next
  case (Struct_literal t fs u)
  then show ?case by (auto dest!: map_Inr_id map_option_Inr_id)
next
  case (Enum_literal en vn fs)
  then show ?case by (auto dest!: map_Inr_id)
next
  case (Tuple_literal es)
  then show ?case by (auto dest!: map_Inr_id)
next
  case (Array_literal es)
  then show ?case by (auto dest!: map_Inr_id)
qed auto

text \<open>An expression that can be cloned holds no statements: \<open>processExpr\<close> leaves it as it is.\<close>

lemma map_d_leave:
  "(\<And>x. x \<in> set xs \<Longrightarrow> f x k = Inr (x, k)) \<Longrightarrow> map_d f xs k = Inr (xs, k)"
  by (induction xs) (simp_all add: bind_d_Inr)

lemma map_d_map: "map_d f (map g xs) = map_d (\<lambda>x. f (g x)) xs"
  by (induction xs) simp_all

lemma option_d_leave:
  "(\<And>x. xo = Some x \<Longrightarrow> f x k = Inr (x, k)) \<Longrightarrow> option_d f xo k = Inr (xo, k)"
  by (cases xo) (simp_all add: bind_d_Inr)

lemma option_d_map: "option_d f (map_option g xo) = option_d (\<lambda>x. f (g x)) xo"
  by (cases xo) simp_all

lemma map_Inr_self: "map f xs = map Inr xs \<longleftrightarrow> (\<forall>x \<in> set xs. f x = Inr x)"
  by (simp add: map_eq_conv)

lemma clone_handler:
  "cloneExpr n = Inr n \<Longrightarrow> snd (handlers n) ch k = Inr (n, k)"
  "sel = (sel :: select_case)"
  "il = (il :: if_let_cond)"
  "sc = (sc :: switch_case)"
  "mc = (mc :: match_case)"
  "cloneStructField sf = Inr sf \<Longrightarrow> struct_field_handler sf ch k = Inr (sf, k)"
  "cloneEnumField ef = Inr ef \<Longrightarrow> enum_field_handler ef ch k = Inr (ef, k)"
proof (induct n and sel and il and sc and mc and sf and ef
    rule: node.induct select_case.induct if_let_cond.induct switch_case.induct match_case.induct
      struct_literal_field.induct enum_literal_field.induct)
  case (Call_expr f at gs args callee)
  have "map_option cloneExpr callee = map_option Inr callee" "\<forall>x \<in> set args. cloneExpr x = Inr x"
    using Call_expr.prems by (auto simp: map_Inr_self dest: map_Inr_id map_option_Inr_id)
  with Call_expr.hyps show ?case
    by (cases callee) (simp_all add: as_expr_def bind_d_Inr map_d_map map_d_leave option_d_leave)
next
  case (Struct_literal t fs u)
  then have "map_option cloneExpr u = map_option Inr u" "\<forall>x \<in> set fs. cloneStructField x = Inr x"
    by (auto simp: map_Inr_self)
  with Struct_literal.hyps show ?case
    by (cases u) (simp_all add: as_expr_def bind_d_Inr map_d_map map_d_leave option_d_leave)
next
  case (Enum_literal en vn fs)
  then show ?case by (auto simp: as_expr_def bind_d_Inr map_d_map map_Inr_self map_d_leave)
next
  case (Tuple_literal es)
  then show ?case by (auto simp: as_expr_def bind_d_Inr map_d_map map_Inr_self map_d_leave)
next
  case (Array_literal es)
  then show ?case by (auto simp: as_expr_def bind_d_Inr map_d_map map_Inr_self map_d_leave)
qed (auto simp: as_expr_def expr1_def expr2_def leave_def bind_d_Inr)

lemma clone_runs: "cloneExpr n = Inr n \<Longrightarrow> runs n = plain_run n"
  by (cases n) auto

section \<open>The algebra of traces\<close>

lemma then_run_iff:
  "(a, x) \<in> then_run R S \<longleftrightarrow>
    (\<exists>t u. a = t @ u \<and> (t, Falls) \<in> R \<and> (u, x) \<in> S) \<or> (x \<noteq> Falls \<and> (a, x) \<in> R)"
  by (auto simp: then_run_def)

lemma exits_iff:
  "(a, x) \<in> exits calls R \<longleftrightarrow>
    (if x = Falls then (a, x) \<in> R else \<exists>t. a = t @ map Eval calls \<and> (t, x) \<in> R)"
  by (force simp: exits_def image_iff split_beta)

lemma then_run_done [simp]: "then_run done_run S = S"
  by (auto simp: then_run_def done_run_def)

lemma then_run_done_right [simp]: "then_run R done_run = R"
proof -
  have "(t, x) \<in> R \<Longrightarrow> x = Falls \<Longrightarrow> (t, Falls) \<in> R" for t x by simp
  then show ?thesis by (auto simp: then_run_def done_run_def)
qed

lemma then_run_assoc: "then_run (then_run R S) T = then_run R (then_run S T)"
proof (intro set_eqI iffI; clarify)
  fix a x
  assume "(a, x) \<in> then_run (then_run R S) T"
  then show "(a, x) \<in> then_run R (then_run S T)" by (fastforce simp: then_run_iff)
next
  fix a x
  assume "(a, x) \<in> then_run R (then_run S T)"
  then show "(a, x) \<in> then_run (then_run R S) T" by (auto simp: then_run_iff) (metis append.assoc)+
qed

lemma then_run_single [simp]: "then_run {(t, Falls)} {(u, x)} = {(t @ u, x)}"
  by (auto simp: then_run_def)

lemma then_run_left: "x \<noteq> Falls \<Longrightarrow> then_run {(t, x)} S = {(t, x)}"
  by (auto simp: then_run_def)

lemma exits_Nil [simp]: "exits [] R = R"
  by (auto simp: exits_iff split: if_splits)

lemma exits_exits [simp]: "exits ps (exits qs R) = exits (qs @ ps) R"
  by (auto simp: exits_iff split: if_splits)

lemma exits_then: "exits ps (then_run R S) = then_run (exits ps R) (exits ps S)"
proof (intro set_eqI iffI; clarify)
  fix a x
  assume "(a, x) \<in> exits ps (then_run R S)"
  then show "(a, x) \<in> then_run (exits ps R) (exits ps S)"
    by (auto simp: exits_iff then_run_iff split: if_splits)
next
  fix a x
  assume "(a, x) \<in> then_run (exits ps R) (exits ps S)"
  then show "(a, x) \<in> exits ps (then_run R S)"
    by (auto simp: exits_iff then_run_iff split: if_splits) (metis append.assoc)+
qed

lemma exits_Un: "exits ps (R \<union> S) = exits ps R \<union> exits ps S"
  by (auto simp: exits_def)

lemma exits_falls [simp]: "exits ps {(t, Falls)} = {(t, Falls)}"
  by (auto simp: exits_def)

lemma exits_left: "x \<noteq> Falls \<Longrightarrow> exits ps {(t, x)} = {(t @ map Eval ps, x)}"
  by (auto simp: exits_def)

text \<open>The traces of a list of statements without \<open>defer\<close>.\<close>

fun seq_runs :: "node list \<Rightarrow> run set" where
  "seq_runs [] = done_run"
| "seq_runs (s # ss) = then_run (runs s) (seq_runs ss)"

abbreviation no_defer :: "node \<Rightarrow> bool" where
  "no_defer s \<equiv> \<forall>c. stmt_kind s \<noteq> Kind_defer c"

lemma body_runs_seq: "\<forall>s \<in> set b. no_defer s \<Longrightarrow> body_runs b = seq_runs b"
  unfolding body_runs_def
  by (induction b) (auto simp: done_run_def split: stmt_class.split)

lemma seq_runs_append: "seq_runs (ss @ ts) = then_run (seq_runs ss) (seq_runs ts)"
  by (induction ss) (simp_all add: then_run_assoc)

lemma seq_runs_calls:
  "(\<And>c. c \<in> set cs \<Longrightarrow> runs c = plain_run c) \<Longrightarrow> seq_runs (map Expr_stmt cs) = {(map Eval cs, Falls)}"
  by (induction cs) (simp_all add: done_run_def plain_run_def)

section \<open>Reading a trace\<close>

lemma resolve_append:
  "resolve env (t @ u) = resolve env t @ resolve (env_after env t) u"
  "env_after env (t @ u) = env_after (env_after env t) u"
  by (induction env t rule: resolve.induct) auto

lemma resolve_leaving_falls [simp]: "resolve_leaving env x = Falls \<longleftrightarrow> x = Falls"
  by (cases x) auto

lemma resolve_iff:
  "(a, x) \<in> resolve_runs env R \<longleftrightarrow>
    (\<exists>t y. (t, y) \<in> R \<and> a = resolve env t \<and> x = resolve_leaving (env_after env t) y)"
  by (auto simp: resolve_runs_def)

lemma resolve_falls: "(a, Falls) \<in> resolve_runs env R \<longleftrightarrow> (\<exists>t. (t, Falls) \<in> R \<and> a = resolve env t)"
  by (auto simp: resolve_iff) (metis resolve_leaving_falls)+

lemma resolve_runs_then:
  assumes "\<And>t. (t, Falls) \<in> R \<Longrightarrow> resolve_runs (env_after env t) S = S'"
  shows "resolve_runs env (then_run R S) = then_run (resolve_runs env R) S'"
proof (intro set_eqI iffI; clarify)
  fix a x
  assume "(a, x) \<in> resolve_runs env (then_run R S)"
  then obtain b y where b: "(b, y) \<in> then_run R S" "a = resolve env b"
    "x = resolve_leaving (env_after env b) y"
    by (auto simp: resolve_iff)
  from b(1) consider t u where "b = t @ u" "(t, Falls) \<in> R" "(u, y) \<in> S"
    | "y \<noteq> Falls" "(b, y) \<in> R"
    by (auto simp: then_run_iff)
  then show "(a, x) \<in> then_run (resolve_runs env R) S'"
  proof cases
    case 1
    then have "(resolve (env_after env t) u, x) \<in> S'"
      using b(3) by (auto simp: resolve_iff resolve_append simp flip: assms [OF 1(2)])
    with 1 b(2) show ?thesis by (auto simp: then_run_iff resolve_falls resolve_append)
  next
    case 2
    with b(2,3) show ?thesis by (auto simp: then_run_iff resolve_iff)
  qed
next
  fix a x
  assume "(a, x) \<in> then_run (resolve_runs env R) S'"
  then consider t u where "a = t @ u" "(t, Falls) \<in> resolve_runs env R" "(u, x) \<in> S'"
    | "(a, x) \<in> resolve_runs env R" "x \<noteq> Falls"
    by (auto simp: then_run_iff)
  then show "(a, x) \<in> resolve_runs env (then_run R S)"
  proof cases
    case 1
    from 1(2) obtain t' where t': "(t', Falls) \<in> R" "t = resolve env t'"
      by (auto simp: resolve_falls)
    with assms 1(3) have "(u, x) \<in> resolve_runs (env_after env t') S" by simp
    then obtain u' y where "(u', y) \<in> S" "u = resolve (env_after env t') u'"
      "x = resolve_leaving (env_after (env_after env t') u') y"
      by (auto simp: resolve_iff)
    then have "(t' @ u', y) \<in> then_run R S" "a = resolve env (t' @ u')"
      "x = resolve_leaving (env_after env (t' @ u')) y"
      using t' 1(1) by (auto simp: then_run_iff resolve_append)
    then show ?thesis by (auto simp: resolve_iff)
  next
    case 2
    then obtain t y where "(t, y) \<in> R" "a = resolve env t" "x = resolve_leaving (env_after env t) y"
      by (auto simp: resolve_iff)
    moreover from this have "y \<noteq> Falls" using 2 by auto
    ultimately show ?thesis by (auto simp: resolve_iff then_run_iff)
  qed
qed

lemma resolve_runs_Un: "resolve_runs env (R \<union> S) = resolve_runs env R \<union> resolve_runs env S"
  by (auto simp: resolve_runs_def)

lemma resolve_runs_single:
  "resolve_runs env {(t, x)} = {(resolve env t, resolve_leaving (env_after env t) x)}"
  by (simp add: resolve_runs_def)

lemma resolve_done [simp]: "resolve_runs env done_run = done_run"
  by (simp add: resolve_runs_def done_run_def)

section \<open>Synthetic names\<close>

definition names :: "nat \<Rightarrow> nat \<Rightarrow> string set" where
  "names k k' = {p @ dec_nat j | p j. p \<in> {''__dfa_'', ''__dfret_''} \<and> k < j \<and> j \<le> k'}"

lemma names_synthetic: "x \<in> names k k' \<Longrightarrow> synthetic x"
  by (auto simp: names_def synthetic_def starts_with_iff)

lemma names_mono: "i \<le> k \<Longrightarrow> k' \<le> i' \<Longrightarrow> names k k' \<subseteq> names i i'"
  by (fastforce simp: names_def)

lemma names_disjoint: "i' \<le> k \<Longrightarrow> x \<in> names i i' \<Longrightarrow> x \<notin> names k k'"
  by (auto simp: names_def dest: dec_nat_inj)

definition bound_names :: "event list \<Rightarrow> string set" where
  "bound_names t = {x. synthetic x \<and> (\<exists>v. Bind x v \<in> set t)}"

lemma bound_names_simps [simp]:
  "bound_names [] = {}" "bound_names (Eval n # t) = bound_names t"
  "bound_names (Bind x v # t) = (if synthetic x then insert x (bound_names t) else bound_names t)"
  by (auto simp: bound_names_def)

lemma bound_names_append [simp]: "bound_names (t @ u) = bound_names t \<union> bound_names u"
  by (auto simp: bound_names_def)

lemma env_after_other: "x \<notin> bound_names t \<Longrightarrow> env_after env t x = env x"
  by (induction env t rule: env_after.induct) (auto simp: bound_names_def split: if_splits)

definition bounds :: "nat \<Rightarrow> nat \<Rightarrow> run set \<Rightarrow> bool" where
  "bounds k k' R \<longleftrightarrow> (\<forall>t x. (t, x) \<in> R \<longrightarrow> bound_names t \<subseteq> names k k')"

lemma bounds_then:
  "bounds k i R \<Longrightarrow> bounds i k' S \<Longrightarrow> k \<le> i \<Longrightarrow> i \<le> k' \<Longrightarrow> bounds k k' (then_run R S)"
  using names_mono [of k k i k'] names_mono [of k i k' k']
  unfolding bounds_def then_run_iff by (auto 0 3 simp: subset_iff)

definition good_env :: "env \<Rightarrow> bool" where
  "good_env env \<longleftrightarrow> (\<forall>x. \<not> synthetic x \<longrightarrow> env x = None)"

lemma good_env_after [intro]: "good_env env \<Longrightarrow> good_env (env_after env t)"
  by (induction env t rule: env_after.induct) (simp_all add: good_env_def split: if_splits)

lemma user_subst:
  assumes "user_expr n" "good_env env"
  shows "subst_name env n = n" "subst_call n env = n"
proof -
  have "env x = None" if "\<not> synthetic x" for x using assms(2) that by (auto simp: good_env_def)
  then have name: "subst_name env a = a" if "\<forall>x. ident_of a = Some x \<longrightarrow> \<not> synthetic x" for a
    using that by (simp add: subst_name_def split: option.splits)
  with assms(1) show "subst_name env n = n" by (auto simp: user_expr_def)
  have "\<forall>a \<in> set (call_args n). subst_name env a = a" using assms(1) name by (auto simp: user_expr_def)
  then show "subst_call n env = n" by (cases n) (auto simp: map_idI)
qed

section \<open>Pending calls\<close>

definition pend :: "chain \<Rightarrow> node list" where
  "pend chain = concat (map rev (rev chain))"

lemma pend_simps [simp]: "pend [] = []" "pend (chain @ [calls]) = rev calls @ pend chain"
  by (simp_all add: pend_def)

definition pending :: "nat \<Rightarrow> node list \<Rightarrow> bool" where
  "pending k P \<longleftrightarrow> (\<forall>c \<in> set P. \<exists>f at gs xs callee. c = Call_expr f at gs (map Identifier xs) callee \<and>
     pred_option user_expr callee \<and> set xs \<subseteq> names 0 k)"

lemma pending_simps [simp]: "pending k []" "pending k (P @ Q) \<longleftrightarrow> pending k P \<and> pending k Q"
  "pending k (rev P) \<longleftrightarrow> pending k P"
  by (auto simp: pending_def)

lemma pending_mono: "pending k P \<Longrightarrow> k \<le> k' \<Longrightarrow> pending k' P"
  unfolding pending_def using names_mono [of 0 0 k k'] by (meson order_refl subset_trans)

lemma pending_clone:
  assumes "pending k P" "c \<in> set P"
  shows "cloneExpr c = Inr c"
proof -
  obtain f at gs xs callee where "c = Call_expr f at gs (map Identifier xs) callee"
    "pred_option user_expr callee"
    using assms by (auto simp: pending_def)
  moreover have "map_option cloneExpr callee = map_option Inr callee"
    using calculation(2) by (cases callee) (simp_all add: user_expr_def)
  ultimately show ?thesis by (simp add: map_Inr_self comp_def)
qed

definition sub :: "env \<Rightarrow> node list \<Rightarrow> node list" where
  "sub env P = map (\<lambda>c. subst_call c env) P"

lemma sub_simps [simp]: "sub env [] = []" "sub env (c # P) = subst_call c env # sub env P"
  "sub env (P @ Q) = sub env P @ sub env Q" "sub env (rev P) = rev (sub env P)"
  by (simp_all add: sub_def rev_map)

lemma sub_agree:
  assumes "pending k P" "\<And>x. x \<in> names 0 k \<Longrightarrow> env' x = env x"
  shows "sub env' P = sub env P"
  unfolding sub_def
proof (rule map_cong [OF refl])
  fix c assume "c \<in> set P"
  with assms obtain f at gs xs callee where "c = Call_expr f at gs (map Identifier xs) callee"
    "set xs \<subseteq> names 0 k"
    by (fastforce simp: pending_def)
  with assms(2) show "subst_call c env' = subst_call c env" by (auto simp: subst_name_def)
qed

lemma resolve_evals [simp]:
  "resolve env (map Eval P) = map Eval (sub env P)" "env_after env (map Eval P) = env"
  "bound_names (map Eval P) = {}"
  by (induction P) simp_all

lemma emit_pending:
  assumes "pending k (pend chain)"
  shows "emitDefers chain i = Inr (map Expr_stmt (pend chain), i)"
proof -
  have "\<forall>c \<in> set P. cloneExpr c = Inr c \<Longrightarrow>
      map_d (\<lambda>call. bind_d (clone_d call) (\<lambda>c. ret_d (Expr_stmt c))) P i = Inr (map Expr_stmt P, i)" for P
    by (induction P) (simp_all add: clone_d_def desugar_eval bind_d_Inr)
  then show ?thesis using pending_clone [OF assms] by (simp add: emitDefers_def pend_def)
qed

lemma seq_runs_pending:
  assumes "pending k P"
  shows "seq_runs (map Expr_stmt P) = {(map Eval P, Falls)}"
  by (rule seq_runs_calls) (rule clone_runs, rule pending_clone [OF assms])

section \<open>Snapshots\<close>

lemma snapshot_args:
  "\<exists>xs. length xs = length args \<and> distinct xs \<and> set xs \<subseteq> names k (k + length args) \<and>
    map_d snapshot_arg args k =
      Inr (map2 (\<lambda>x a. (Let_stmt x None a, Identifier x)) xs args, k + length args)"
proof (induction args arbitrary: k)
  case (Cons a args)
  obtain xs where xs: "length xs = length args" "distinct xs"
    "set xs \<subseteq> names (Suc k) (Suc k + length args)"
    "map_d snapshot_arg args (Suc k) =
      Inr (map2 (\<lambda>x a. (Let_stmt x None a, Identifier x)) xs args, Suc k + length args)"
    using Cons [of "Suc k"] by blast
  let ?x = "''__dfa_'' @ dec_nat (Suc k)"
  have x: "?x \<in> names k (Suc k)" unfolding names_def by blast
  then have "?x \<notin> set xs" using xs(3) names_disjoint [of "Suc k" "Suc k" ?x k] by blast
  moreover have "set (?x # xs) \<subseteq> names k (k + length (a # args))"
    using xs(3) x names_mono [of k k "Suc k" "k + length (a # args)"]
      names_mono [of k "Suc k" "Suc k + length args" "k + length (a # args)"] by auto
  moreover have "map_d snapshot_arg (a # args) k =
      Inr (map2 (\<lambda>x a. (Let_stmt x None a, Identifier x)) (?x # xs) (a # args), k + length (a # args))"
    using xs(4) by (simp add: snapshot_arg_def freshName_def bind_d_def)
  ultimately show ?case
    using xs(1,2) by (intro exI [of _ "?x # xs"]) simp
qed simp

lemma snapshot_lets:
  assumes "length xs = length args" "\<forall>x \<in> set xs. synthetic x"
  shows "seq_runs (map2 (\<lambda>x a. Let_stmt x None a) xs args) = {(map2 Bind xs args, Falls)}"
    and "resolve env (map2 Bind xs args) = map Eval args"
    and "env_after env (map2 Bind xs args) = env(xs [\<mapsto>] args)"
    and "bound_names (map2 Bind xs args) = set xs"
  using assms
  by (induction xs args arbitrary: env rule: list_induct2) (simp_all add: done_run_def)

lemma snapshot_names:
  assumes "length xs = length args" "distinct xs"
  shows "map (subst_name (env(xs [\<mapsto>] args))) (map Identifier xs) = args"
  using assms
proof (induction xs args arbitrary: env rule: list_induct2)
  case (Cons x xs a args)
  then have "(env(x \<mapsto> a, xs [\<mapsto>] args)) x = Some a" by (simp add: map_upds_apply_nontin)
  moreover have "map (subst_name (env(x \<mapsto> a, xs [\<mapsto>] args))) (map Identifier xs) = args"
    by (rule Cons.IH) (use Cons.prems in simp)
  ultimately show ?case
    by (simp add: subst_name_def [of _ "Identifier x"] del: fun_upd_apply map_upds_twist map_map)
qed simp

section \<open>The simulation\<close>

text \<open>
  \<open>R'\<close> are the traces of the output, with synthetic names numbered from \<open>k\<close> to \<open>k'\<close>; \<open>R\<close> those
  of the input; \<open>Ps\<close> the calls of the blocks around, which the output runs itself when it leaves.
\<close>

definition sim :: "nat \<Rightarrow> nat \<Rightarrow> env \<Rightarrow> node list \<Rightarrow> run set \<Rightarrow> run set \<Rightarrow> bool" where
  "sim k k' env Ps R' R \<longleftrightarrow> k \<le> k' \<and> bounds k k' R' \<and> resolve_runs env R' = exits Ps R"

lemma agree_after:
  assumes "bounds k k' R" "(t, x) \<in> R" "y \<in> names 0 k"
  shows "env_after env t y = env y"
proof (rule env_after_other)
  show "y \<notin> bound_names t" using assms names_disjoint [of k k y 0 k'] by (auto simp: bounds_def)
qed

lemma sim_then:
  assumes "sim k i env Ps R' R"
    and "\<And>t. (t, Falls) \<in> R' \<Longrightarrow> sim i k' (env_after env t) Ps S' S"
    and "i \<le> k'" "bounds i k' S'"
  shows "sim k k' env Ps (then_run R' S') (then_run R S)"
proof -
  have "resolve_runs env (then_run R' S') = then_run (resolve_runs env R') (exits Ps S)"
    by (rule resolve_runs_then) (use assms(2) in \<open>simp add: sim_def\<close>)
  with assms(1,3,4) show ?thesis
    by (auto simp: sim_def exits_then intro: bounds_then)
qed

lemma sim_falls:
  assumes "bound_names t \<subseteq> names k k'" "k \<le> k'" "resolve env t = u"
  shows "sim k k' env Ps {(t, Falls)} {(u, Falls)}"
  using assms by (simp add: sim_def bounds_def resolve_runs_single)

text \<open>A statement the pass is right about, in blocks without pending calls where \<open>d\<close> is false.\<close>

definition good_stmt :: "bool \<Rightarrow> node \<Rightarrow> bool" where
  "good_stmt d s \<longleftrightarrow> (\<forall>chain k env. pending k (pend chain) \<and> good_env env \<and> (d \<or> pend chain = []) \<longrightarrow>
     (\<exists>s' k'. processStmtChildren s chain k = Inr (s', k') \<and> stmt_kind s' = Kind_other \<and>
       sim k k' env (sub env (pend chain)) (runs s') (runs s)))"

text \<open>The source of a block whose statements are good, with \<open>calls\<close> registered.\<close>

abbreviation stmts_of :: "node list \<Rightarrow> (node \<times> handler) list" where
  "stmts_of ss \<equiv> zip ss (map processStmtChildren ss)"

definition good_stmts :: "nat \<Rightarrow> env \<Rightarrow> chain \<Rightarrow> node list \<Rightarrow> bool \<Rightarrow> node list \<Rightarrow> bool" where
  "good_stmts k env outer calls flag ss \<longleftrightarrow>
     (\<exists>out k'. process_stmts (stmts_of ss) outer calls flag k = Inr (out, k') \<and> k \<le> k' \<and>
       (\<forall>s \<in> set out. no_defer s) \<and>
       (flag \<and> ss = [] \<or> sim k k' env (sub env (pend outer)) (seq_runs out)
          (block_runs (zip ss (map runs ss)) (sub env (rev calls)))))"

lemma good_stmts_Nil:
  assumes "pending k (rev calls)"
  shows "good_stmts k env outer calls flag []"
proof -
  have "emitDefers [calls] k = Inr (map Expr_stmt (rev calls), k)"
    using emit_pending [of k "[calls]" k] assms by (simp add: pend_def)
  moreover have "sim k k env P (seq_runs (map Expr_stmt (rev calls)))
      {(map Eval (sub env (rev calls)), Falls)}" for P
    using seq_runs_pending [OF assms] by (simp add: sim_falls del: sub_simps)
  ultimately show ?thesis
    by (cases flag) (auto simp: good_stmts_def simp del: sub_simps)
qed

text \<open>A statement that leaves: what follows it never runs.\<close>

lemma good_stmts_leave:
  assumes rest: "good_stmts i env outer calls True ss" and "k \<le> i"
    and step: "\<And>out k'. process_stmts (stmts_of ss) outer calls True i = Inr (out, k') \<Longrightarrow>
      process_stmts (stmts_of (s # ss)) outer calls flag k = Inr (exit @ out, k')"
    and exit: "seq_runs exit = {(t, x)}" "x \<noteq> Falls" "\<forall>s \<in> set exit. no_defer s"
    and bound: "bound_names t \<subseteq> names k i"
    and read: "resolve env t = u @ map Eval (sub env (rev calls @ pend outer))"
      "resolve_leaving (env_after env t) x = y" "runs s = {(u, y)}"
    and kind: "no_defer s"
  shows "good_stmts k env outer calls flag (s # ss)"
proof -
  obtain out k' where out: "process_stmts (stmts_of ss) outer calls True i = Inr (out, k')" "i \<le> k'"
    "\<forall>s \<in> set out. no_defer s"
    using rest by (auto simp: good_stmts_def)
  have y: "y \<noteq> Falls" using read(2) exit(2) by auto
  have "seq_runs (exit @ out) = {(t, x)}" using exit by (simp add: seq_runs_append then_run_left)
  moreover have "block_runs (zip (s # ss) (map runs (s # ss))) (sub env (rev calls)) =
      {(u @ map Eval (sub env (rev calls)), y)}"
    using kind read(3) y by (auto simp: exits_left then_run_left split: stmt_class.split)
  moreover have "names k i \<subseteq> names k k'" using out(2) by (intro names_mono) simp_all
  ultimately have "sim k k' env (sub env (pend outer)) (seq_runs (exit @ out))
      (block_runs (zip (s # ss) (map runs (s # ss))) (sub env (rev calls)))"
    using read(1,2) y bound assms(2) out(2)
    by (auto simp: sim_def bounds_def resolve_runs_single exits_left)
  with step [OF out(1)] out exit(3) assms(2) show ?thesis
    unfolding good_stmts_def by (intro exI [of _ "exit @ out"] exI [of _ k']) auto
qed

lemma stmt_kind_inv:
  "stmt_kind s = Kind_defer c \<longleftrightarrow> s = Defer_stmt c"
  "stmt_kind s = Kind_return vo \<longleftrightarrow> s = Return_stmt vo"
  "stmt_kind s = Kind_jump \<longleftrightarrow> s = Break_stmt \<or> s = Continue_stmt"
  by (cases s; simp)+

lemma good_stmts_jump:
  assumes "s = Break_stmt \<or> s = Continue_stmt" "pending k (pend (outer @ [calls]))"
    and "good_stmts k env outer calls True ss"
  shows "good_stmts k env outer calls flag (s # ss)"
proof (rule good_stmts_leave [OF assms(3), where exit = "map Expr_stmt (pend (outer @ [calls])) @ [s]"])
  let ?P = "pend (outer @ [calls])" and ?x = "if s = Break_stmt then Breaks_off else Goes_on"
  have s: "runs s = {([], ?x)}" "stmt_kind s = Kind_jump" using assms(1) by auto
  show "process_stmts (stmts_of (s # ss)) outer calls flag k = Inr ((map Expr_stmt ?P @ [s]) @ out, k')"
    if "process_stmts (stmts_of ss) outer calls True k = Inr (out, k')" for out k'
    using that emit_pending [OF assms(2)] s(2) by (simp add: bind_d_Inr del: pend_simps)
  show "seq_runs (map Expr_stmt ?P @ [s]) = {(map Eval ?P, ?x)}"
    using seq_runs_pending [OF assms(2)] s(1)
    by (simp add: seq_runs_append del: pend_simps)
  show "\<forall>s \<in> set (map Expr_stmt ?P @ [s]). no_defer s" using s(2) by auto
  show "resolve_leaving (env_after env (map Eval ?P)) ?x = ?x" by simp
  show "runs s = {([], ?x)}" "no_defer s" using s by auto
qed (simp_all add: resolve_append)

lemma no_ident: "\<not> is_identifier v \<Longrightarrow> ident_of v = None"
  by (cases v) simp_all

lemma value_event_user:
  "pred_option user_expr vo \<Longrightarrow> value_event vo = (case vo of None \<Rightarrow> [] | Some v \<Rightarrow> if is_literal v then [] else [Eval v])"
  by (auto simp: value_event_def user_expr_def split: option.split)

lemma good_stmts_return:
  assumes "pred_option user_expr vo" "pending k (pend (outer @ [calls]))" "good_env env"
    and bare: "pend (outer @ [calls]) = [] \<or> vo = None \<or> \<not> bare_name vo"
    and rest: "\<And>i. k \<le> i \<Longrightarrow> good_stmts i env outer calls True ss"
  shows "good_stmts k env outer calls flag (Return_stmt vo # ss)"
proof -
  let ?P = "pend (outer @ [calls])" and ?chain = "outer @ [calls]"
  have emit: "emitDefers ?chain i = Inr (map Expr_stmt ?P, i)" for i
    by (rule emit_pending [OF assms(2)])
  note calls = seq_runs_pending [OF assms(2)]
  have has: "has_defers ?chain \<longleftrightarrow> ?P \<noteq> []" by (auto simp: has_defers_def pend_def)
  show ?thesis
  proof (cases "value_event vo = [] \<or> ?P = []")
    case True
    have out: "process_return ?chain vo i = Inr (map Expr_stmt ?P @ [Return_stmt vo], i)" for i
    proof (cases "\<exists>v. vo = Some v \<and> ?P \<noteq> [] \<and> \<not> is_identifier v \<and> \<not> is_literal v")
      case False
      then have "process_return ?chain vo =
          bind_d (emitDefers ?chain) (\<lambda>calls. ret_d (calls @ [Return_stmt vo]))"
        using has by (cases vo) (auto simp: process_return_def simp del: pend_simps)
      then show ?thesis by (simp add: bind_d_Inr [OF emit] del: pend_simps)
    qed (use True in \<open>auto simp: value_event_def no_ident simp del: pend_simps\<close>)
    show ?thesis
    proof (rule good_stmts_leave [OF rest [OF order_refl], where exit = "map Expr_stmt ?P @ [Return_stmt vo]"])
      show "seq_runs (map Expr_stmt ?P @ [Return_stmt vo]) =
          {(value_event vo @ map Eval ?P, Returns_with vo)}"
      proof -
        have "seq_runs (map Expr_stmt ?P @ [Return_stmt vo]) =
            {(map Eval ?P @ value_event vo, Returns_with vo)}"
          using calls by (simp add: seq_runs_append del: pend_simps)
        moreover have "map Eval ?P @ value_event vo = value_event vo @ map Eval ?P"
          using True by (elim disjE) (simp_all del: pend_simps)
        ultimately show ?thesis by simp
      qed
      have v: "resolve env (value_event vo) = value_event vo" "env_after env (value_event vo) = env"
        "bound_names (value_event vo) = {}"
        using assms(1,3) by (auto simp: value_event_user user_subst split: option.split)
      then show "resolve env (value_event vo @ map Eval ?P) =
          value_event vo @ map Eval (sub env (rev calls @ pend outer))"
        "bound_names (value_event vo @ map Eval ?P) \<subseteq> names k k"
        by (simp_all add: resolve_append)
      show "resolve_leaving (env_after env (value_event vo @ map Eval ?P)) (Returns_with vo) = Returns_with vo"
        using v(2) assms(1,3) by (cases vo) (simp_all add: resolve_append user_subst del: pend_simps)
      show "process_stmts (stmts_of (Return_stmt vo # ss)) outer calls flag k =
          Inr ((map Expr_stmt ?P @ [Return_stmt vo]) @ out', k')"
        if "process_stmts (stmts_of ss) outer calls True k = Inr (out', k')" for out' k'
        using that out by (simp add: bind_d_Inr del: pend_simps)
    qed auto
  next
    case False
    then obtain v where v: "vo = Some v" "\<not> is_identifier v" "\<not> is_literal v" "user_expr v"
      using assms(1) bare by (auto simp: value_event_user bare_name_def simp del: pend_simps split: option.splits if_splits)
    let ?x = "''__dfret_'' @ dec_nat (Suc k)"
    have x: "?x \<in> names k (Suc k)" unfolding names_def by blast
    then have syn: "synthetic ?x" by (rule names_synthetic)
    let ?exit = "Let_stmt ?x None v # map Expr_stmt ?P @ [Return_stmt (Some (Identifier ?x))]"
    have out: "process_return ?chain vo k = Inr (?exit, Suc k)"
      using False v emit has
      by (simp add: process_return_def freshName_def bind_d_def del: pend_simps)
    have sub: "sub (env(?x \<mapsto> v)) ?P = sub env ?P"
      using names_disjoint [of k k ?x 0 "Suc k"] x names_disjoint [of k k _ 0 "Suc k"]
      by (intro sub_agree [OF assms(2)]) auto
    show ?thesis
    proof (rule good_stmts_leave [OF rest [of "Suc k"], where exit = ?exit])
      show "seq_runs ?exit = {(Bind ?x v # map Eval ?P, Returns_with (Some (Identifier ?x)))}"
        using calls syn by (simp add: seq_runs_append value_event_def del: pend_simps)
      show "resolve env (Bind ?x v # map Eval ?P) = [Eval v] @ map Eval (sub env (rev calls @ pend outer))"
        by (simp only: resolve.simps syn if_True resolve_evals sub) simp
      show "bound_names (Bind ?x v # map Eval ?P) \<subseteq> names k (Suc k)" using x syn by simp
      show "resolve_leaving (env_after env (Bind ?x v # map Eval ?P)) (Returns_with (Some (Identifier ?x))) =
          Returns_with vo"
        using v(1) syn by (simp add: subst_name_def del: pend_simps)
      show "runs (Return_stmt vo) = {([Eval v], Returns_with vo)}" using v by (simp add: value_event_user)
      show "process_stmts (stmts_of (Return_stmt vo # ss)) outer calls flag k = Inr (?exit @ out', k')"
        if "process_stmts (stmts_of ss) outer calls True (Suc k) = Inr (out', k')" for out' k'
        using that out by (simp add: bind_d_Inr del: pend_simps)
    qed auto
  qed
qed

lemma good_stmts_defer:
  assumes args: "\<forall>a \<in> set args. user_expr a" "pred_option user_expr callee"
    and k: "pending k (pend (outer @ [calls]))" "good_env env"
    and rest: "\<And>i env' snapshot. k \<le> i \<Longrightarrow> good_env env' \<Longrightarrow>
      pending i (pend (outer @ [calls @ [snapshot]])) \<Longrightarrow>
      good_stmts i env' outer (calls @ [snapshot]) False ss"
  shows "good_stmts k env outer calls flag (Defer_stmt (Call_expr f at gs args callee) # ss)"
proof -
  let ?c = "Call_expr f at gs args callee" and ?i = "k + length args"
  obtain xs where xs: "length xs = length args" "distinct xs" "set xs \<subseteq> names k ?i"
    "map_d snapshot_arg args k =
      Inr (map2 (\<lambda>x a. (Let_stmt x None a, Identifier x)) xs args, ?i)"
    using snapshot_args [of args k] by blast
  let ?lets = "map2 (\<lambda>x a. Let_stmt x None a) xs args" and ?env = "env(xs [\<mapsto>] args)"
    and ?snap = "Call_expr f at gs (map Identifier xs) callee"
  have syn: "\<forall>x \<in> set xs. synthetic x" using xs(3) by (auto dest: names_synthetic)
  note lets = snapshot_lets [OF xs(1) syn]
  have "option_d clone_d callee ?i = Inr (callee, ?i)"
    using args(2) by (intro option_d_leave) (auto simp: clone_d_def user_expr_def)
  moreover have "map snd (map2 (\<lambda>x a. (Let_stmt x None a, Identifier x)) xs args) = map Identifier xs"
    "map fst (map2 (\<lambda>x a. (Let_stmt x None a, Identifier x)) xs args) = ?lets"
    using xs(1) by (simp_all add: list_eq_iff_nth_eq)
  ultimately have snap: "snapshotCall ?c k = Inr ((?lets, ?snap), ?i)"
    using xs(4) by (simp add: bind_d_Inr)
  have env': "good_env ?env" using k(2) lets(3) [of env] by (metis good_env_after)
  have pend': "pending ?i (pend (outer @ [calls @ [?snap]]))"
  proof -
    have "pending ?i [?snap]"
      using args(2) xs(3) names_mono [of 0 k ?i ?i] by (auto simp: pending_def)
    moreover have "pending ?i (pend (outer @ [calls]))" by (rule pending_mono [OF k(1)]) simp
    ultimately show ?thesis using pending_simps(2) [of ?i "[?snap]" "rev calls @ pend outer"] by simp
  qed
  have agree: "?env x = env x" if "x \<in> names 0 k" for x
    using that names_disjoint [of k k x 0 ?i] xs(3) by (auto intro: map_upds_apply_nontin)
  have sub: "sub ?env (rev (calls @ [?snap])) = ?c # sub env (rev calls)" "sub ?env (pend outer) = sub env (pend outer)"
    using snapshot_names [OF xs(1,2), of env] k(1)
      sub_agree [of k "rev calls" ?env env] sub_agree [of k "pend outer" ?env env] agree
    by (simp_all del: map_map)
  obtain out k' where out: "process_stmts (stmts_of ss) outer (calls @ [?snap]) False ?i = Inr (out, k')"
    "?i \<le> k'" "\<forall>s \<in> set out. no_defer s" "sim ?i k' ?env (sub ?env (pend outer)) (seq_runs out)
      (block_runs (zip ss (map runs ss)) (sub ?env (rev (calls @ [?snap]))))"
    using rest [OF _ env' pend'] by (auto simp: good_stmts_def simp del: sub_simps)
  have "sim k ?i env (sub env (pend outer)) (seq_runs ?lets) {(map Eval args, Falls)}"
    unfolding lets(1) by (rule sim_falls) (use lets(2,4) xs(3) in simp_all)
  then have "sim k k' env (sub env (pend outer)) (then_run (seq_runs ?lets) (seq_runs out))
      (then_run {(map Eval args, Falls)} (block_runs (zip ss (map runs ss)) (?c # sub env (rev calls))))"
    using out(2,4) lets(1,3) sub by (intro sim_then) (auto simp: sim_def)
  then have "sim k k' env (sub env (pend outer)) (seq_runs (?lets @ out))
      (block_runs (zip (Defer_stmt ?c # ss) (map runs (Defer_stmt ?c # ss))) (sub env (rev calls)))"
    by (simp add: seq_runs_append)
  moreover have "process_stmts (stmts_of (Defer_stmt ?c # ss)) outer calls flag k = Inr (?lets @ out, k')"
    using snap out(1) by (simp add: bind_d_Inr del: snapshotCall.simps)
  moreover have "\<forall>s \<in> set ?lets. no_defer s" by (auto simp: set_zip)
  ultimately show ?thesis
    using out(2,3) unfolding good_stmts_def by (intro exI [of _ "?lets @ out"] exI [of _ k']) auto
qed

lemma good_stmts_other:
  assumes "good_stmt d s" "stmt_kind s = Kind_other" "pending k (pend (outer @ [calls]))" "good_env env"
    and d: "d \<or> pend (outer @ [calls]) = []"
    and rest: "\<And>i env'. k \<le> i \<Longrightarrow> good_env env' \<Longrightarrow> good_stmts i env' outer calls False ss"
  shows "good_stmts k env outer calls flag (s # ss)"
proof -
  let ?P = "pend (outer @ [calls])"
  obtain s' i where s': "processStmtChildren s (outer @ [calls]) k = Inr (s', i)"
    "stmt_kind s' = Kind_other" and sim: "sim k i env (sub env ?P) (runs s') (runs s)"
    using assms(1,3,4) d unfolding good_stmt_def by blast
  then have i: "k \<le> i" "bounds k i (runs s')" by (simp_all add: sim_def)
  obtain out k' where out: "process_stmts (stmts_of ss) outer calls False i = Inr (out, k')" "i \<le> k'"
    "\<forall>s \<in> set out. no_defer s" "bounds i k' (seq_runs out)"
    using rest [OF i(1) assms(4)] by (auto simp: good_stmts_def sim_def)
  have after: "sim i k' (env_after env t) (sub env (pend outer)) (seq_runs out)
      (block_runs (zip ss (map runs ss)) (sub env (rev calls)))" if "(t, Falls) \<in> runs s'" for t
  proof -
    have agree: "env_after env t x = env x" if "x \<in> names 0 k" for x
      using agree_after [OF i(2) \<open>(t, Falls) \<in> runs s'\<close> that] .
    then have "sub (env_after env t) (rev calls) = sub env (rev calls)"
      "sub (env_after env t) (pend outer) = sub env (pend outer)"
      using assms(3) by (auto intro!: sub_agree simp del: sub_simps)
    with rest [OF i(1) good_env_after [OF assms(4)], of t] out(1) show ?thesis
      by (auto simp: good_stmts_def)
  qed
  have "sim k i env (sub env (pend outer)) (runs s') (exits (sub env (rev calls)) (runs s))"
    using sim by (simp add: sim_def)
  then have "sim k k' env (sub env (pend outer)) (then_run (runs s') (seq_runs out))
      (then_run (exits (sub env (rev calls)) (runs s)) (block_runs (zip ss (map runs ss)) (sub env (rev calls))))"
    using after out by (intro sim_then) auto
  then have "sim k k' env (sub env (pend outer)) (seq_runs (s' # out))
      (block_runs (zip (s # ss) (map runs (s # ss))) (sub env (rev calls)))"
    using assms(2) by simp
  moreover have "process_stmts (stmts_of (s # ss)) outer calls flag k = Inr (s' # out, k')"
    using s'(1) out(1) assms(2) by (simp add: bind_d_Inr)
  ultimately show ?thesis
    using out(2,3) i(1) s'(2) unfolding good_stmts_def
    by (intro exI [of _ "s' # out"] exI [of _ k']) auto
qed

text \<open>The statements of the fragment: the good ones and those that \<open>processBlock\<close> treats itself.\<close>

definition fit :: "bool \<Rightarrow> node \<Rightarrow> bool" where
  "fit d s \<longleftrightarrow> (case stmt_kind s of
     Kind_defer c \<Rightarrow> \<exists>f at gs args callee. c = Call_expr f at gs args callee \<and>
       (\<forall>a \<in> set args. user_expr a) \<and> pred_option user_expr callee
   | Kind_return vo \<Rightarrow> pred_option user_expr vo \<and> (d \<longrightarrow> vo = None \<or> \<not> bare_name vo)
   | Kind_jump \<Rightarrow> True
   | Kind_other \<Rightarrow> good_stmt d s)"

fun fit_list :: "bool \<Rightarrow> node list \<Rightarrow> bool" where
  "fit_list d [] = True"
| "fit_list d (s # ss) \<longleftrightarrow> fit d s \<and> fit_list (d \<or> is_defer s) ss"

lemma good_stmts_fit:
  assumes "fit_list d ss" "pending k (pend (outer @ [calls]))" "good_env env" "d \<or> pend (outer @ [calls]) = []"
  shows "good_stmts k env outer calls flag ss"
  using assms
proof (induction ss arbitrary: k env calls flag d)
  case Nil
  then show ?case using good_stmts_Nil [of k calls] by simp
next
  case (Cons s ss)
  have mono: "pending i (pend (outer @ [calls]))" if "k \<le> i" for i
    using pending_mono [OF Cons.prems(2) that] .
  have fit: "fit d s" "fit_list (d \<or> is_defer s) ss" using Cons.prems(1) by simp_all
  have rest: "good_stmts i env' outer calls flag' ss" if "k \<le> i" "good_env env'" "\<not> is_defer s" for i env' flag'
    using Cons.IH [OF fit(2) mono [OF that(1)] that(2)] Cons.prems(4) that(3) by blast
  show ?case
  proof (cases "stmt_kind s")
    case (Kind_defer c)
    with fit(1) obtain f at gs args callee where s: "s = Defer_stmt (Call_expr f at gs args callee)"
      "\<forall>a \<in> set args. user_expr a" "pred_option user_expr callee"
      by (auto simp: fit_def stmt_kind_inv)
    moreover have "good_stmts i env' outer (calls @ [snapshot]) False ss"
      if "good_env env'" "pending i (pend (outer @ [calls @ [snapshot]]))" for i env' snapshot
      using Cons.IH [OF fit(2) that(2,1)] s(1) by (simp add: is_defer_def del: pend_simps)
    ultimately show ?thesis
      using good_stmts_defer [of args callee k outer calls env ss flag f at gs] Cons.prems(2,3) by blast
  next
    case (Kind_return vo)
    with fit(1) have s: "s = Return_stmt vo" "pred_option user_expr vo" "d \<longrightarrow> vo = None \<or> \<not> bare_name vo"
      by (simp_all add: fit_def stmt_kind_inv)
    with Cons.prems(4) have "pend (outer @ [calls]) = [] \<or> vo = None \<or> \<not> bare_name vo" by blast
    moreover have "\<not> is_defer s" using Kind_return by (simp add: is_defer_def)
    ultimately show ?thesis
      using good_stmts_return [of vo k outer calls env ss flag] s rest Cons.prems(2,3) by blast
  next
    case Kind_jump
    then have "s = Break_stmt \<or> s = Continue_stmt" "\<not> is_defer s"
      using stmt_kind_inv(3) [of s] by (simp_all add: is_defer_def)
    with good_stmts_jump [of s k outer calls env ss flag] rest Cons.prems(2,3) show ?thesis by blast
  next
    case Kind_other
    with fit(1) have "good_stmt d s" "\<not> is_defer s" by (simp_all add: fit_def is_defer_def)
    with good_stmts_other [of d s k outer calls env ss flag] Kind_other rest Cons.prems(2-4)
    show ?thesis by blast
  qed
qed

section \<open>Statements\<close>

lemma processBlock_fit:
  assumes "fit_list d b" "pending k (pend outer)" "good_env env" "d \<or> pend outer = []"
  shows "\<exists>b' k'. processBlock b outer k = Inr (b', k') \<and> (\<forall>s \<in> set b'. no_defer s) \<and>
    sim k k' env (sub env (pend outer)) (body_runs b') (body_runs b)"
proof -
  have "good_stmts k env outer [] False b"
    using good_stmts_fit [OF assms(1), of k outer "[]" env False] assms(2-4) by simp
  then show ?thesis
    unfolding good_stmts_def processBlock_def process_block_def
    by (auto simp: body_runs_def [of b] simp flip: body_runs_seq)
qed

lemma block_eq: "process_block (zip b (map fst (map handlers b))) outer = processBlock b outer"
  by (simp add: processBlock_def processStmtChildren_def [abs_def] comp_def)

lemma body_eq: "body_of b (map runs b) = body_runs b"
  by (simp add: body_runs_def)

lemma bounds_weaken: "bounds i i' R \<Longrightarrow> k \<le> i \<Longrightarrow> i' \<le> k' \<Longrightarrow> bounds k k' R"
  unfolding bounds_def using names_mono [of k i i' k'] by (meson subset_trans)

lemma sim_weaken: "sim i i' env Ps R' R \<Longrightarrow> k \<le> i \<Longrightarrow> i' \<le> k' \<Longrightarrow> sim k k' env Ps R' R"
  by (auto simp: sim_def intro: bounds_weaken)

lemma sim_Un:
  "sim k k' env Ps A' A \<Longrightarrow> sim k k' env Ps B' B \<Longrightarrow> sim k k' env Ps (A' \<union> B') (A \<union> B)"
  by (auto simp: sim_def bounds_def resolve_runs_Un exits_Un)

lemma sim_Un_seq:
  "sim k i env Ps A' A \<Longrightarrow> sim i k' env Ps B' B \<Longrightarrow> sim k k' env Ps (A' \<union> B') (A \<union> B)"
  by (rule sim_Un; erule sim_weaken) (simp_all add: sim_def)

text \<open>Events without names, before a statement.\<close>

definition clean :: "event list \<Rightarrow> bool" where
  "clean g \<longleftrightarrow> bound_names g = {} \<and> (\<forall>env. good_env env \<longrightarrow> resolve env g = g \<and> env_after env g = env)"

lemma clean_events [intro]:
  "clean []" "user_expr e \<Longrightarrow> clean [Eval e]" "pred_option user_expr eo \<Longrightarrow> clean (opt_event eo)"
  "user_expr e \<Longrightarrow> pred_option user_expr eo \<Longrightarrow> clean (Eval e # opt_event eo)"
  by (auto simp: clean_def user_subst opt_event_def split: option.split)

lemma sim_after_clean:
  assumes "clean g" "good_env env" "sim k k' env Ps R' R"
  shows "sim k k' env Ps (then_run {(g, Falls)} R') (then_run {(g, Falls)} R)"
proof (rule sim_then [OF sim_falls])
  show "bound_names g \<subseteq> names k k" "resolve env g = g" using assms(1,2) by (simp_all add: clean_def)
  show "sim k k' (env_after env t) Ps R' R" if "(t, Falls) \<in> {(g, Falls)}" for t
    using that assms by (simp add: clean_def)
qed (use assms(3) in \<open>simp_all add: sim_def\<close>)

lemma sim_eval:
  assumes "user_expr e" "good_env env"
  shows "sim k k env Ps (plain_run e) (plain_run e)"
  unfolding plain_run_def by (rule sim_falls) (use assms in \<open>simp_all add: user_subst\<close>)

lemma user_handler: "user_expr e \<Longrightarrow> snd (handlers e) ch k = Inr (e, k)"
  by (simp add: user_expr_def clone_handler)

lemma good_simple:
  assumes "stmt_kind s = Kind_other" "\<And>chain k. processStmtChildren s chain k = Inr (s, k)"
    and "\<And>env k Ps. good_env env \<Longrightarrow> sim k k env Ps (runs s) (runs s)"
  shows "good_stmt d s"
  using assms by (auto simp: good_stmt_def)

lemma good_let: "user_expr e \<Longrightarrow> \<not> synthetic x \<Longrightarrow> good_stmt d (Let_stmt x ty e)"
  by (rule good_simple)
    (simp_all add: processStmtChildren_def as_stmt_def bind_d_Inr user_handler sim_falls)

lemma good_assign: "user_expr a \<Longrightarrow> user_expr v \<Longrightarrow> good_stmt d (Assign_stmt a v)"
  by (rule good_simple)
    (simp_all add: processStmtChildren_def as_stmt_def bind_d_Inr user_handler sim_falls plain_run_def)

lemma good_expr: "user_expr e \<Longrightarrow> good_stmt d (Expr_stmt e)"
  by (rule good_simple)
    (simp_all add: processStmtChildren_def as_stmt_def bind_d_Inr user_handler sim_eval clone_runs
      user_expr_def [THEN iffD1])

text \<open>A statement whose only part is a block.\<close>

lemma good_of_block:
  assumes "fit_list d b"
    and "\<And>chain k b' k'. processBlock b chain k = Inr (b', k') \<Longrightarrow>
      processStmtChildren (f b) chain k = Inr (f b', k')"
    and "\<And>b. stmt_kind (f b) = Kind_other" "\<And>b. runs (f b) = body_runs b"
  shows "good_stmt d (f b)"
  unfolding good_stmt_def
proof (intro allI impI)
  fix chain k env assume "pending k (pend chain) \<and> good_env env \<and> (d \<or> pend chain = [])"
  with processBlock_fit [OF assms(1), of k chain env] obtain b' k' where
    "processBlock b chain k = Inr (b', k')"
    "sim k k' env (sub env (pend chain)) (body_runs b') (body_runs b)"
    by blast
  with assms(2-4) show "\<exists>s' k'. processStmtChildren (f b) chain k = Inr (s', k') \<and>
      stmt_kind s' = Kind_other \<and> sim k k' env (sub env (pend chain)) (runs s') (runs (f b))"
    by (intro exI [of _ "f b'"] exI [of _ k']) simp
qed

lemma good_block: "fit_list d b \<Longrightarrow> good_stmt d (Block_stmt b)"
  by (rule good_of_block [where f = Block_stmt])
    (simp_all add: processStmtChildren_def [of "Block_stmt _"] as_stmt_def block_eq bind_d_Inr body_eq
      del: map_map)

lemma good_unsafe: "fit_list d b \<Longrightarrow> good_stmt d (Expr_stmt (Unsafe_expr b))"
  by (rule good_of_block [where f = "\<lambda>b. Expr_stmt (Unsafe_expr b)"])
    (simp_all add: processStmtChildren_def [of "Expr_stmt _"] as_stmt_def as_expr_def block_eq bind_d_Inr
      body_eq del: map_map)

lemma good_if:
  assumes "user_expr c" "fit_list d b" "fit_list d e" "eo = None \<or> eo = Some e"
  shows "good_stmt d (Expr_stmt (If_expr c None b eo))"
  unfolding good_stmt_def
proof (intro allI impI)
  fix ch k env assume pre: "pending k (pend ch) \<and> good_env env \<and> (d \<or> pend ch = [])"
  let ?Ps = "sub env (pend ch)" and ?else = "\<lambda>eo. else_runs eo (map_option (map runs) eo)"
  obtain b' i where b': "processBlock b ch k = Inr (b', i)" "sim k i env ?Ps (body_runs b') (body_runs b)"
    using processBlock_fit [OF assms(2)] pre by blast
  then have "k \<le> i" by (simp add: sim_def)
  then have pre': "pending i (pend ch)" "good_env env" "d \<or> pend ch = []" using pre pending_mono by auto
  obtain eo' k' where eo': "block_opt eo (map_option (map handlers) eo) ch i = Inr (eo', k')"
    "sim i k' env ?Ps (?else eo') (?else eo)"
  proof (cases "eo = None")
    case True
    then show ?thesis using that [of None i] by (simp add: sim_def bounds_def done_run_def resolve_runs_def)
  next
    case False
    with assms(4) have eo: "eo = Some e" by simp
    obtain e' k' where "processBlock e ch i = Inr (e', k')" "sim i k' env ?Ps (body_runs e') (body_runs e)"
      using processBlock_fit [OF assms(3) pre'] by blast
    then show ?thesis
      using that [of "Some e'" k'] eo by (simp add: block_eq bind_d_Inr body_eq del: map_map)
  qed
  have "sim k k' env ?Ps (runs (Expr_stmt (If_expr c None b' eo')))
      (runs (Expr_stmt (If_expr c None b eo)))"
    using sim_after_clean [OF _ _ sim_Un_seq [OF b'(2) eo'(2)], of "[Eval c]"] assms(1) pre
    by (simp add: body_eq clean_events)
  moreover have "processStmtChildren (Expr_stmt (If_expr c None b eo)) ch k =
      Inr (Expr_stmt (If_expr c None b' eo'), k')"
    using b'(1) eo'(1) assms(1)
    by (simp add: processStmtChildren_def [of "Expr_stmt _"] as_stmt_def as_expr_def block_eq bind_d_Inr
        user_handler del: map_map)
  ultimately show "\<exists>s' k'. processStmtChildren (Expr_stmt (If_expr c None b eo)) ch k = Inr (s', k') \<and>
      stmt_kind s' = Kind_other \<and> sim k k' env ?Ps (runs s') (runs (Expr_stmt (If_expr c None b eo)))"
    by (intro exI [of _ "Expr_stmt (If_expr c None b' eo')"] exI [of _ k']) simp
qed

section \<open>Loops\<close>

definition quiet :: "run set \<Rightarrow> bool" where
  "quiet R \<longleftrightarrow> (\<forall>t v. (t, Returns_with v) \<notin> R)"

lemma resolve_loop:
  assumes B: "\<And>env. good_env env \<Longrightarrow> resolve_runs env B' = B" and C: "clean C" and env: "good_env env"
  shows "resolve_runs env (loop_runs C B') = loop_runs C B"
proof (intro set_eqI iffI; clarify)
  fix a x assume "(a, x) \<in> resolve_runs env (loop_runs C B')"
  then obtain t y where t: "(t, y) \<in> loop_runs C B'" "a = resolve env t"
    "x = resolve_leaving (env_after env t) y"
    by (auto simp: resolve_iff)
  from t(1) env have "(resolve env t, resolve_leaving (env_after env t) y) \<in> loop_runs C B"
  proof (induction arbitrary: env)
    case loop_stop
    then show ?case using C by (simp add: clean_def loop_runs.loop_stop)
  next
    case (loop_break t)
    then have "(resolve env t, Breaks_off) \<in> B"
      using B [of env] by (metis resolve_iff resolve_leaving.simps(3))
    with loop_break C show ?case by (simp add: resolve_append clean_def loop_runs.loop_break)
  next
    case (loop_return t v)
    then have "(resolve env t, resolve_leaving (env_after env t) (Returns_with v)) \<in> B"
      using B [of env] by (metis resolve_iff)
    with loop_return C show ?case by (simp add: resolve_append clean_def loop_runs.loop_return)
  next
    case (loop_next t x u y)
    then have "(resolve env t, x) \<in> B"
      using B [of env] by (metis resolve_iff resolve_leaving.simps(2,4))
    moreover have "(resolve (env_after env t) u, resolve_leaving (env_after (env_after env t) u) y)
        \<in> loop_runs C B"
      using loop_next.IH [OF good_env_after [OF loop_next.prems]] .
    ultimately show ?case
      using loop_next.hyps(2) loop_next.prems C
      by (simp add: resolve_append clean_def loop_runs.loop_next)
  qed
  with t show "(a, x) \<in> loop_runs C B" by simp
next
  fix a x assume "(a, x) \<in> loop_runs C B"
  then show "(a, x) \<in> resolve_runs env (loop_runs C B')" using env
  proof (induction arbitrary: env)
    case loop_stop
    then show ?case using C loop_runs.loop_stop [of C B'] by (force simp: resolve_iff clean_def)
  next
    case (loop_break t)
    then obtain t' y where "(t', y) \<in> B'" "t = resolve env t'" "Breaks_off = resolve_leaving (env_after env t') y"
      using B [of env] by (metis resolve_iff)
    moreover from this have "y = Breaks_off" by (cases y) auto
    ultimately show ?case using C loop_break.prems loop_runs.loop_break [of t' B' C]
      by (force simp: resolve_iff resolve_append clean_def)
  next
    case (loop_return t v)
    then obtain t' y where t': "(t', y) \<in> B'" "t = resolve env t'"
      "Returns_with v = resolve_leaving (env_after env t') y"
      using B [of env] by (metis resolve_iff)
    moreover from this obtain w where "y = Returns_with w" by (cases y) auto
    ultimately show ?case using C loop_return.prems loop_runs.loop_return [of t' w B' C]
      by (force simp: resolve_iff resolve_append clean_def)
  next
    case (loop_next t x u y)
    then obtain t' z where t': "(t', z) \<in> B'" "t = resolve env t'" "x = resolve_leaving (env_after env t') z"
      using B [of env] by (metis resolve_iff)
    then have z: "z = x" using loop_next.hyps(2) by (cases z) auto
    obtain u' w where u': "(u', w) \<in> loop_runs C B'" "u = resolve (env_after env t') u'"
      "y = resolve_leaving (env_after (env_after env t') u') w"
      using loop_next.IH [OF good_env_after [OF loop_next.prems], of t'] by (auto simp: resolve_iff)
    have "(C @ t' @ u', w) \<in> loop_runs C B'"
      using loop_runs.loop_next [OF _ _ u'(1)] t'(1) z loop_next.hyps(2) by blast
    then show ?case
      using t'(2) u'(2,3) C loop_next.prems by (force simp: resolve_iff resolve_append clean_def)
  qed
qed

lemma bounds_loop:
  assumes "bounds k k' B" "clean C"
  shows "bounds k k' (loop_runs C B)"
proof -
  have "(t, x) \<in> loop_runs C B \<Longrightarrow> bound_names t \<subseteq> names k k'" for t x
    by (induction rule: loop_runs.induct) (use assms in \<open>auto simp: bounds_def clean_def\<close>)
  then show ?thesis by (simp add: bounds_def)
qed

lemma quiet_loop: "(t, x) \<in> loop_runs C B \<Longrightarrow> quiet B \<Longrightarrow> x = Falls"
  by (induction rule: loop_runs.induct) (auto simp: quiet_def)

lemma exits_all_fall: "(\<And>t x. (t, x) \<in> R \<Longrightarrow> x = Falls) \<Longrightarrow> exits Ps R = R"
  by (force simp: exits_def)

text \<open>The body of a loop, in every environment.\<close>

lemma loop_body:
  assumes "fit_list False b" "quiet (body_runs b)" "clean C"
  shows "\<exists>b' k'. processBlock b [] k = Inr (b', k') \<and>
    (\<forall>env Ps. good_env env \<longrightarrow> sim k k' env Ps (loop_runs C (body_runs b')) (loop_runs C (body_runs b)))"
proof -
  have empty: "good_env Map.empty" by (simp add: good_env_def)
  obtain b' k' where b': "processBlock b [] k = Inr (b', k')"
    using processBlock_fit [OF assms(1), of k "[]", OF _ empty] by auto
  have sim: "sim k k' env [] (body_runs b') (body_runs b)" if "good_env env" for env
    using processBlock_fit [OF assms(1), of k "[]", OF _ that] b' by auto
  then have res: "resolve_runs env (body_runs b') = body_runs b" if "good_env env" for env
    using that by (simp add: sim_def)
  have "k \<le> k'" "bounds k k' (body_runs b')" using sim [OF empty] by (simp_all add: sim_def)
  then have "sim k k' env Ps (loop_runs C (body_runs b')) (loop_runs C (body_runs b))" if "good_env env" for env Ps
    using resolve_loop [OF res assms(3) that] bounds_loop [OF _ assms(3)] exits_all_fall [OF quiet_loop [OF _ assms(2)]]
    by (simp add: sim_def)
  with b' show ?thesis by blast
qed

lemma good_while:
  assumes "user_expr c" "fit_list False b" "quiet (body_runs b)"
  shows "good_stmt d (While_stmt c None b)"
  unfolding good_stmt_def
proof (intro allI impI)
  fix ch k env assume pre: "pending k (pend ch) \<and> good_env env \<and> (d \<or> pend ch = [])"
  obtain b' k' where b': "processBlock b [] k = Inr (b', k')"
    "sim k k' env (sub env (pend ch)) (loop_runs [Eval c] (body_runs b')) (loop_runs [Eval c] (body_runs b))"
    using loop_body [OF assms(2,3), of "[Eval c]" k] assms(1) pre by (auto simp: clean_events)
  moreover have "processStmtChildren (While_stmt c None b) ch k = Inr (While_stmt c None b', k')"
    using b'(1) assms(1)
    by (simp add: processStmtChildren_def [of "While_stmt _ _ _"] as_stmt_def block_eq bind_d_Inr user_handler
        del: map_map)
  ultimately show "\<exists>s' k'. processStmtChildren (While_stmt c None b) ch k = Inr (s', k') \<and>
      stmt_kind s' = Kind_other \<and> sim k k' env (sub env (pend ch)) (runs s') (runs (While_stmt c None b))"
    by (intro exI [of _ "While_stmt c None b'"] exI [of _ k']) (simp add: body_eq)
qed

lemma good_for:
  assumes "user_expr i" "pred_option user_expr eo" "fit_list False b" "quiet (body_runs b)"
  shows "good_stmt d (For_stmt x i eo b)"
  unfolding good_stmt_def
proof (intro allI impI)
  fix ch k env assume pre: "pending k (pend ch) \<and> good_env env \<and> (d \<or> pend ch = [])"
  obtain b' k' where b': "processBlock b [] k = Inr (b', k')"
    "sim k k' env (sub env (pend ch)) (loop_runs [] (body_runs b')) (loop_runs [] (body_runs b))"
    using loop_body [OF assms(3,4), of "[]" k] pre by (auto simp: clean_events)
  have "option_d (\<lambda>h. snd h ch) (map_option handlers eo) k = Inr (eo, k)"
    unfolding option_d_map by (rule option_d_leave) (use assms(2) in \<open>auto simp: user_handler\<close>)
  then have "processStmtChildren (For_stmt x i eo b) ch k = Inr (For_stmt x i eo b', k')"
    using b'(1) assms(1)
    by (simp add: processStmtChildren_def [of "For_stmt _ _ _ _"] as_stmt_def block_eq bind_d_Inr user_handler
        del: map_map)
  moreover have "sim k k' env (sub env (pend ch)) (runs (For_stmt x i eo b')) (runs (For_stmt x i eo b))"
    using sim_after_clean [OF _ _ b'(2)] clean_events(4) [OF assms(1,2)] pre by (simp add: body_eq)
  ultimately show "\<exists>s' k'. processStmtChildren (For_stmt x i eo b) ch k = Inr (s', k') \<and>
      stmt_kind s' = Kind_other \<and> sim k k' env (sub env (pend ch)) (runs s') (runs (For_stmt x i eo b))"
    by (intro exI [of _ "For_stmt x i eo b'"] exI [of _ k']) simp
qed

section \<open>Cases\<close>

text \<open>\<open>h\<close> processes a case and \<open>r\<close> gives its guard and its body.\<close>

definition good_case :: "bool \<Rightarrow> ('c \<Rightarrow> chain \<Rightarrow> 'c desugar) \<Rightarrow> ('c \<Rightarrow> event list \<times> run set) \<Rightarrow> 'c \<Rightarrow> bool" where
  "good_case d h r c \<longleftrightarrow> clean (fst (r c)) \<and>
     (\<forall>ch k env. pending k (pend ch) \<and> good_env env \<and> (d \<or> pend ch = []) \<longrightarrow>
       (\<exists>c' k'. h c ch k = Inr (c', k') \<and> fst (r c') = fst (r c) \<and>
          sim k k' env (sub env (pend ch)) (snd (r c')) (snd (r c))))"

lemma good_cases:
  assumes "\<forall>c \<in> set cs. good_case d h r c" "pending k (pend ch)" "good_env env" "d \<or> pend ch = []"
  shows "\<exists>cs' k'. map_d (\<lambda>f. f ch) (map h cs) k = Inr (cs', k') \<and>
    sim k k' env (sub env (pend ch)) (case_runs (map r cs')) (case_runs (map r cs))"
  using assms
proof (induction cs arbitrary: k)
  case Nil
  then show ?case by (simp add: sim_def bounds_def done_run_def resolve_runs_def)
next
  case (Cons c cs)
  obtain c' i where c': "h c ch k = Inr (c', i)" "fst (r c') = fst (r c)"
    "sim k i env (sub env (pend ch)) (snd (r c')) (snd (r c))" and g: "clean (fst (r c))"
    using Cons.prems unfolding good_case_def by (meson list.set_intros(1))
  have "k \<le> i" using c'(3) by (simp add: sim_def)
  then obtain cs' k' where cs': "map_d (\<lambda>f. f ch) (map h cs) i = Inr (cs', k')"
    "sim i k' env (sub env (pend ch)) (case_runs (map r cs')) (case_runs (map r cs))"
    using Cons.IH [OF _ pending_mono [OF Cons.prems(2)] Cons.prems(3,4)] Cons.prems(1) by fastforce
  have "sim k k' env (sub env (pend ch)) (case_runs (map r (c' # cs'))) (case_runs (map r (c # cs)))"
  proof -
    have "sim k k' env (sub env (pend ch)) (case_runs (map r cs')) (case_runs (map r cs))"
      using cs'(2) \<open>k \<le> i\<close> by (rule sim_weaken) simp
    from sim_Un [OF sim_after_clean [OF g Cons.prems(3) sim_Un_seq [OF c'(3) cs'(2)]] this] show ?thesis
      using c'(2) by (cases "r c"; cases "r c'") simp
  qed
  with c'(1) cs'(1) show ?case by (auto simp: bind_d_Inr)
qed

lemma good_match:
  assumes "user_expr v"
    and "\<forall>c \<in> set cs. \<exists>p g b. c = Match_case p g b \<and> pred_option user_expr g \<and> fit_list d b"
  shows "good_stmt d (Expr_stmt (Match_expr v cs))"
  unfolding good_stmt_def
proof (intro allI impI)
  fix ch k env assume pre: "pending k (pend ch) \<and> good_env env \<and> (d \<or> pend ch = [])"
  have "\<forall>c \<in> set cs. good_case d match_handler match_case_runs c"
  proof
    fix c assume "c \<in> set cs"
    with assms(2) obtain p g b where c: "c = Match_case p g b" "pred_option user_expr g" "fit_list d b"
      by blast
    have "option_d (\<lambda>h. snd h ch) (map_option handlers g) k = Inr (g, k)" for ch k
      unfolding option_d_map by (rule option_d_leave) (use c(2) in \<open>auto simp: user_handler\<close>)
    then have "match_handler c ch k = Inr (Match_case p g b', k')"
      if "processBlock b ch k = Inr (b', k')" for ch k b' k'
      using that by (simp add: c(1) bind_d_Inr block_eq del: map_map)
    with processBlock_fit [OF c(3)] clean_events(3) [OF c(2)]
    show "good_case d match_handler match_case_runs c"
      unfolding good_case_def by (fastforce simp: c(1) body_eq)
  qed
  from good_cases [OF this, of k ch env] pre obtain cs' k' where cs':
    "map_d (\<lambda>f. f ch) (map match_handler cs) k = Inr (cs', k')"
    "sim k k' env (sub env (pend ch)) (case_runs (map match_case_runs cs')) (case_runs (map match_case_runs cs))"
    by blast
  then have "processStmtChildren (Expr_stmt (Match_expr v cs)) ch k = Inr (Expr_stmt (Match_expr v cs'), k')"
    using assms(1) by (simp add: processStmtChildren_def as_stmt_def as_expr_def bind_d_Inr user_handler)
  moreover have "sim k k' env (sub env (pend ch)) (runs (Expr_stmt (Match_expr v cs')))
      (runs (Expr_stmt (Match_expr v cs)))"
    using sim_after_clean [OF _ _ cs'(2), of "[Eval v]"] assms(1) pre by (simp add: clean_events)
  ultimately show "\<exists>s' k'. processStmtChildren (Expr_stmt (Match_expr v cs)) ch k = Inr (s', k') \<and>
      stmt_kind s' = Kind_other \<and>
      sim k k' env (sub env (pend ch)) (runs s') (runs (Expr_stmt (Match_expr v cs)))"
    by (intro exI [of _ "Expr_stmt (Match_expr v cs')"] exI [of _ k']) simp
qed

lemma good_switch:
  assumes "user_expr v" "\<forall>c \<in> set cs. \<exists>p b. c = Switch_case p b \<and> fit_list d b"
  shows "good_stmt d (Expr_stmt (Switch_expr v cs))"
  unfolding good_stmt_def
proof (intro allI impI)
  fix ch k env assume pre: "pending k (pend ch) \<and> good_env env \<and> (d \<or> pend ch = [])"
  have "\<forall>c \<in> set cs. good_case d switch_handler switch_case_runs c"
  proof
    fix c assume "c \<in> set cs"
    with assms(2) obtain p b where c: "c = Switch_case p b" "fit_list d b" by blast
    have "switch_handler c ch k = Inr (Switch_case p b', k')"
      if "processBlock b ch k = Inr (b', k')" for ch k b' k'
      using that by (simp add: c(1) bind_d_Inr block_eq del: map_map)
    with processBlock_fit [OF c(2)] show "good_case d switch_handler switch_case_runs c"
      unfolding good_case_def by (fastforce simp: c(1) body_eq)
  qed
  from good_cases [OF this, of k ch env] pre obtain cs' k' where cs':
    "map_d (\<lambda>f. f ch) (map switch_handler cs) k = Inr (cs', k')"
    "sim k k' env (sub env (pend ch)) (case_runs (map switch_case_runs cs')) (case_runs (map switch_case_runs cs))"
    by blast
  then have "processStmtChildren (Expr_stmt (Switch_expr v cs)) ch k = Inr (Expr_stmt (Switch_expr v cs'), k')"
    using assms(1) by (simp add: processStmtChildren_def as_stmt_def as_expr_def bind_d_Inr user_handler)
  moreover have "sim k k' env (sub env (pend ch)) (runs (Expr_stmt (Switch_expr v cs')))
      (runs (Expr_stmt (Switch_expr v cs)))"
    using sim_after_clean [OF _ _ cs'(2), of "[Eval v]"] assms(1) pre by (simp add: clean_events)
  ultimately show "\<exists>s' k'. processStmtChildren (Expr_stmt (Switch_expr v cs)) ch k = Inr (s', k') \<and>
      stmt_kind s' = Kind_other \<and>
      sim k k' env (sub env (pend ch)) (runs s') (runs (Expr_stmt (Switch_expr v cs)))"
    by (intro exI [of _ "Expr_stmt (Switch_expr v cs')"] exI [of _ k']) simp
qed

section \<open>The fragment\<close>

lemma quiet_simps [simp]:
  "quiet {(t, Falls)}" "quiet (exits Ps R) \<longleftrightarrow> quiet R" "quiet (R \<union> S) \<longleftrightarrow> quiet R \<and> quiet S"
  "quiet (plain_run n)" "quiet done_run" "quiet {(t, Breaks_off)}" "quiet {(t, Goes_on)}"
  by (auto simp: quiet_def exits_iff plain_run_def done_run_def)

lemma quiet_then: "quiet R \<Longrightarrow> quiet S \<Longrightarrow> quiet (then_run R S)"
  by (auto simp: quiet_def then_run_iff)

lemma quiet_body:
  assumes "\<forall>s \<in> set b. quiet (runs s)"
  shows "quiet (body_runs b)"
proof -
  have "quiet (block_runs (zip b (map runs b)) calls)" for calls
    using assms
    by (induction b arbitrary: calls) (auto intro!: quiet_then split: stmt_class.split)
  then show ?thesis by (simp add: body_runs_def)
qed

lemma quiet_cases: "\<forall>(g, B) \<in> set cs. quiet B \<Longrightarrow> quiet (case_runs cs)"
  by (induction cs rule: case_runs.induct) (auto intro!: quiet_then)

lemma quiet_loop_runs: "quiet B \<Longrightarrow> quiet (loop_runs C B)"
  unfolding quiet_def [of "loop_runs C B"] by (blast dest: quiet_loop)

lemma core_quiet:
  "core r d s \<Longrightarrow> \<not> r \<Longrightarrow> quiet (runs s)"
  "core_list r d b \<Longrightarrow> \<not> r \<Longrightarrow> \<forall>s \<in> set b. quiet (runs s)"
proof (induction rule: core_core_list.inducts)
  case (core_match v cs r d)
  then have "quiet (case_runs (map match_case_runs cs))"
    by (intro quiet_cases) (fastforce simp: body_eq intro!: quiet_body)
  then show ?case by (simp add: quiet_then)
next
  case (core_switch v cs r d)
  then have "quiet (case_runs (map switch_case_runs cs))"
    by (intro quiet_cases) (fastforce simp: body_eq intro!: quiet_body)
  then show ?case by (simp add: quiet_then)
next
  case (core_expr e r d)
  then show ?case by (simp add: user_expr_def clone_runs)
qed (auto simp: body_eq intro!: quiet_then quiet_body quiet_loop_runs)

lemma core_fit: "core r d s \<Longrightarrow> fit d s" "core_list r d b \<Longrightarrow> fit_list d b"
proof (induction rule: core_core_list.inducts)
  case (core_while c b r d)
  then have "quiet (body_runs b)" using core_quiet(2) [of False False b] by (intro quiet_body) simp_all
  with core_while show ?case by (simp add: fit_def good_while)
next
  case (core_for i eo b r d x)
  then have "quiet (body_runs b)" using core_quiet(2) [of False False b] by (intro quiet_body) simp_all
  with core_for show ?case by (simp add: fit_def good_for)
next
  case (core_if c r d b b' eo)
  then show ?case using good_if [of c d b b' eo] by (simp add: fit_def)
next
  case (core_match v cs r d)
  then show ?case using good_match [of v cs d] by (fastforce simp: fit_def)
next
  case (core_switch v cs r d)
  then show ?case using good_switch [of v cs d] by (fastforce simp: fit_def)
qed (auto simp: fit_def good_let good_assign good_expr good_block good_unsafe)

text \<open>
  The pass on a structured body in which no \<open>return\<close> stands inside a loop and no bare name is returned
  while deferred calls are pending: it succeeds from every counter, no \<open>defer\<close> is left, and once the synthetic names are read back the desugared body has
  exactly the traces of the original.
\<close>

lemma processBlock_refines:
  assumes "core_list True False b"
  shows "\<exists>b' k'. processBlock b [] k = Inr (b', k') \<and> k \<le> k' \<and> (\<forall>s \<in> set b'. no_defer s) \<and>
    resolve_runs Map.empty (body_runs b') = body_runs b"
proof -
  have "fit_list False b" using assms core_fit(2) by blast
  moreover have "good_env Map.empty" by (simp add: good_env_def)
  ultimately show ?thesis
    using processBlock_fit [of False b k "[]" Map.empty] by (auto simp: sim_def)
qed

text \<open>The body \<open>defer f(x); while c { defer g(); break; } return h();\<close>\<close>

definition deferring_body :: "node list" where
  "deferring_body =
    [Defer_stmt (Call_expr ''f'' None [] [Identifier ''x''] None),
     While_stmt (Identifier ''c'') None [Defer_stmt (Call_expr ''g'' None [] [] None), Break_stmt],
     Return_stmt (Some (Call_expr ''h'' None [] [] None))]"

lemma deferring_body_core: "core_list True False deferring_body"
  unfolding deferring_body_def
  by (auto simp: user_expr_def synthetic_def bind_c_def bare_name_def intro!: core_core_list.intros)

text \<open>What the pass makes of it.\<close>

lemma deferring_body_desugared:
  "processBlock deferring_body [] 0 = Inr (
    [Let_stmt ''__dfa_1'' None (Identifier ''x''),
     While_stmt (Identifier ''c'') None [Expr_stmt (Call_expr ''g'' None [] [] None), Break_stmt],
     Let_stmt ''__dfret_2'' None (Call_expr ''h'' None [] [] None),
     Expr_stmt (Call_expr ''f'' None [] [Identifier ''__dfa_1''] None),
     Return_stmt (Some (Identifier ''__dfret_2''))], 2)"
  by code_simp

end
