(* ===== verification/Sla_Defer_Gone.thy ===== *)
theory Sla_Defer_Gone
  imports Sla_Defer_Refines
begin

text \<open>
  Where the pass of \<open>defer_desugar.zig\<close> looks for \<open>defer\<close> statements, that it leaves none there,
  and what it does not do: whole programs, and the gaps of the pass.
\<close>

section \<open>No defer is left\<close>

text \<open>No \<open>defer\<close> anywhere in a tree.\<close>

abbreviation every :: "bool list \<Rightarrow> bool" where "every \<equiv> list_all (\<lambda>b. b)"
abbreviation if_any :: "bool option \<Rightarrow> bool" where "if_any \<equiv> pred_option (\<lambda>b. b)"

primrec defer_free :: "node \<Rightarrow> bool"
and select_case_free :: "select_case \<Rightarrow> bool"
and if_let_free :: "if_let_cond \<Rightarrow> bool"
and switch_case_free :: "switch_case \<Rightarrow> bool"
and match_case_free :: "match_case \<Rightarrow> bool"
and struct_field_free :: "struct_literal_field \<Rightarrow> bool"
and enum_field_free :: "enum_literal_field \<Rightarrow> bool"
where
  "defer_free (Program ds) = (every (map defer_free ds))"
| "defer_free (Struct_decl d) = True"
| "defer_free (Enum_decl d) = True"
| "defer_free (Trait_decl d) = True"
| "defer_free (Impl_decl t u ms) = (every (map defer_free ms))"
| "defer_free (Type_alias_decl d) = True"
| "defer_free (Overload_decl t ms) = (every (map defer_free ms))"
| "defer_free (Func_decl d b) = (every (map defer_free b))"
| "defer_free (Macro_decl d b) = (every (map defer_free b))"
| "defer_free (Import_decl p) = True"
| "defer_free (Using_decl p) = True"
| "defer_free (Test_decl d b) = (every (map defer_free b))"
| "defer_free (Sublanguage_decl d) = True"
| "defer_free (Sublanguage_registration k) = True"
| "defer_free (Check_hook_decl k) = True"
| "defer_free (Let_stmt v t e) = (defer_free e)"
| "defer_free (Let_else_stmt p e b) = (defer_free e \<and> every (map defer_free b))"
| "defer_free (Let_destructure_stmt d e) = (defer_free e)"
| "defer_free (Const_stmt v t e) = (defer_free e)"
| "defer_free (Var_stmt v t) = True"
| "defer_free (Assign_stmt t v) = (defer_free t \<and> defer_free v)"
| "defer_free (Block_stmt b) = (every (map defer_free b))"
| "defer_free (Arena_stmt b) = (every (map defer_free b))"
| "defer_free (Expr_stmt e) = (defer_free e)"
| "defer_free (Return_stmt vo) = (if_any (map_option defer_free vo))"
| "defer_free (For_stmt v s eo b) = (defer_free s \<and> if_any (map_option defer_free eo) \<and> every (map defer_free b))"
| "defer_free (While_stmt c p b) = (defer_free c \<and> every (map defer_free b))"
| "defer_free Break_stmt = True"
| "defer_free Continue_stmt = True"
| "defer_free (Release_stmt v) = True"
| "defer_free (Defer_stmt c) = (False)"
| "defer_free (Select_stmt cs d t tb) = (every (map select_case_free cs) \<and> pred_option every (map_option (map defer_free) d) \<and> if_any (map_option defer_free t) \<and> pred_option every (map_option (map defer_free) tb))"
| "defer_free (Literal l) = True"
| "defer_free (Identifier v) = True"
| "defer_free (Generic_func_ref f gs) = True"
| "defer_free (Go_expr s c) = (defer_free c)"
| "defer_free (If_expr c lc t eo) = (defer_free c \<and> pred_option every (map_option (map if_let_free) lc) \<and> every (map defer_free t) \<and> pred_option every (map_option (map defer_free) eo))"
| "defer_free (Switch_expr v cs) = (defer_free v \<and> every (map switch_case_free cs))"
| "defer_free (Match_expr v cs) = (defer_free v \<and> every (map match_case_free cs))"
| "defer_free (Unsafe_expr b) = (every (map defer_free b))"
| "defer_free (Await_expr e) = (defer_free e)"
| "defer_free (Inline_asm_expr t ops) = True"
| "defer_free (Binary_expr bop l r) = (defer_free l \<and> defer_free r)"
| "defer_free (Call_expr f at gs args callee) = (every (map defer_free args) \<and> if_any (map_option defer_free callee))"
| "defer_free (Closure_literal ps b) = (defer_free b)"
| "defer_free (Borrow_expr e) = (defer_free e)"
| "defer_free (Move_expr e) = (defer_free e)"
| "defer_free (Deref_expr e) = (defer_free e)"
| "defer_free (Cast_expr e t) = (defer_free e)"
| "defer_free (Field_expr e f) = (defer_free e)"
| "defer_free (Struct_literal t fs u) = (every (map struct_field_free fs) \<and> if_any (map_option defer_free u))"
| "defer_free (Enum_literal en vn fs) = (every (map enum_field_free fs))"
| "defer_free (Tuple_literal es) = (every (map defer_free es))"
| "defer_free (Array_literal es) = (every (map defer_free es))"
| "defer_free (Repeat_array_literal v n) = (defer_free v)"
| "defer_free (Index_expr t i) = (defer_free t \<and> defer_free i)"
| "defer_free (Slice_expr t s e) = (defer_free t \<and> defer_free s \<and> defer_free e)"
| "defer_free (Try_expr e) = (defer_free e)"
| "select_case_free (Select_case k c x y b) = (defer_free c \<and> every (map defer_free b))"
| "if_let_free (If_let_cond p e) = defer_free e"
| "switch_case_free (Switch_case v b) = every (map defer_free b)"
| "match_case_free (Match_case p g b) = (if_any (map_option defer_free g) \<and> every (map defer_free b))"
| "struct_field_free (Struct_literal_field n v) = defer_free v"
| "enum_field_free (Enum_literal_field n v) = defer_free v"

text \<open>
  The trees whose \<open>defer\<close> statements stand where the pass comes by, as a statement and as an
  expression.  It does not come by the value of a \<open>return\<close>, the arguments of a deferred call, the
  body of an \<open>arena\<close> or \<open>select\<close>, or the operand of \<open>go\<close>.
\<close>

abbreviation stmts_clear :: "(bool \<times> bool) list \<Rightarrow> bool" where
  "stmts_clear \<equiv> list_all fst"

primrec clear :: "node \<Rightarrow> bool \<times> bool"
and switch_clear :: "switch_case \<Rightarrow> bool"
and match_clear :: "match_case \<Rightarrow> bool"
and struct_field_clear :: "struct_literal_field \<Rightarrow> bool"
and enum_field_clear :: "enum_literal_field \<Rightarrow> bool"
where
  "clear (Program ds) = (defer_free (Program ds), defer_free (Program ds))"
| "clear (Struct_decl d) = (defer_free (Struct_decl d), defer_free (Struct_decl d))"
| "clear (Enum_decl d) = (defer_free (Enum_decl d), defer_free (Enum_decl d))"
| "clear (Trait_decl d) = (defer_free (Trait_decl d), defer_free (Trait_decl d))"
| "clear (Impl_decl t u ms) = (defer_free (Impl_decl t u ms), defer_free (Impl_decl t u ms))"
| "clear (Type_alias_decl d) = (defer_free (Type_alias_decl d), defer_free (Type_alias_decl d))"
| "clear (Overload_decl t ms) = (defer_free (Overload_decl t ms), defer_free (Overload_decl t ms))"
| "clear (Func_decl d b) = (defer_free (Func_decl d b), defer_free (Func_decl d b))"
| "clear (Macro_decl d b) = (defer_free (Macro_decl d b), defer_free (Macro_decl d b))"
| "clear (Import_decl p) = (defer_free (Import_decl p), defer_free (Import_decl p))"
| "clear (Using_decl p) = (defer_free (Using_decl p), defer_free (Using_decl p))"
| "clear (Test_decl d b) = (defer_free (Test_decl d b), defer_free (Test_decl d b))"
| "clear (Sublanguage_decl d) = (defer_free (Sublanguage_decl d), defer_free (Sublanguage_decl d))"
| "clear (Sublanguage_registration k) = (defer_free (Sublanguage_registration k), defer_free (Sublanguage_registration k))"
| "clear (Check_hook_decl k) = (defer_free (Check_hook_decl k), defer_free (Check_hook_decl k))"
| "clear (Let_stmt v t e) = ((snd (clear e)), defer_free (Let_stmt v t e))"
| "clear (Let_else_stmt p e b) = ((snd (clear e) \<and> stmts_clear (map clear b)), defer_free (Let_else_stmt p e b))"
| "clear (Let_destructure_stmt d e) = ((snd (clear e)), defer_free (Let_destructure_stmt d e))"
| "clear (Const_stmt v t e) = ((snd (clear e)), defer_free (Const_stmt v t e))"
| "clear (Var_stmt v t) = (defer_free (Var_stmt v t), defer_free (Var_stmt v t))"
| "clear (Assign_stmt t v) = ((snd (clear t) \<and> snd (clear v)), defer_free (Assign_stmt t v))"
| "clear (Block_stmt b) = ((stmts_clear (map clear b)), defer_free (Block_stmt b))"
| "clear (Arena_stmt b) = (defer_free (Arena_stmt b), defer_free (Arena_stmt b))"
| "clear (Expr_stmt e) = ((snd (clear e)), defer_free (Expr_stmt e))"
| "clear (Return_stmt vo) = ((pred_option defer_free vo), defer_free (Return_stmt vo))"
| "clear (For_stmt v s eo b) = ((snd (clear s) \<and> pred_option snd (map_option clear eo) \<and> stmts_clear (map clear b)), defer_free (For_stmt v s eo b))"
| "clear (While_stmt c p b) = ((snd (clear c) \<and> stmts_clear (map clear b)), defer_free (While_stmt c p b))"
| "clear Break_stmt = (defer_free Break_stmt, defer_free Break_stmt)"
| "clear Continue_stmt = (defer_free Continue_stmt, defer_free Continue_stmt)"
| "clear (Release_stmt v) = (defer_free (Release_stmt v), defer_free (Release_stmt v))"
| "clear (Defer_stmt c) = ((list_all defer_free (call_args c)), defer_free (Defer_stmt c))"
| "clear (Select_stmt cs d t tb) = (defer_free (Select_stmt cs d t tb), defer_free (Select_stmt cs d t tb))"
| "clear (Literal l) = (defer_free (Literal l), defer_free (Literal l))"
| "clear (Identifier v) = (defer_free (Identifier v), defer_free (Identifier v))"
| "clear (Generic_func_ref f gs) = (defer_free (Generic_func_ref f gs), defer_free (Generic_func_ref f gs))"
| "clear (Go_expr s c) = (defer_free (Go_expr s c), defer_free (Go_expr s c))"
| "clear (If_expr c lc t eo) = (defer_free (If_expr c lc t eo), (snd (clear c) \<and> pred_option (list_all if_let_free) lc \<and> stmts_clear (map clear t) \<and> pred_option stmts_clear (map_option (map clear) eo)))"
| "clear (Switch_expr v cs) = (defer_free (Switch_expr v cs), (snd (clear v) \<and> every (map switch_clear cs)))"
| "clear (Match_expr v cs) = (defer_free (Match_expr v cs), (snd (clear v) \<and> every (map match_clear cs)))"
| "clear (Unsafe_expr b) = (defer_free (Unsafe_expr b), (stmts_clear (map clear b)))"
| "clear (Await_expr e) = (defer_free (Await_expr e), (snd (clear e)))"
| "clear (Inline_asm_expr t ops) = (defer_free (Inline_asm_expr t ops), defer_free (Inline_asm_expr t ops))"
| "clear (Binary_expr bop l r) = (defer_free (Binary_expr bop l r), (snd (clear l) \<and> snd (clear r)))"
| "clear (Call_expr f at gs args callee) = (defer_free (Call_expr f at gs args callee), (list_all snd (map clear args) \<and> pred_option snd (map_option clear callee)))"
| "clear (Closure_literal ps b) = (defer_free (Closure_literal ps b), (snd (clear b)))"
| "clear (Borrow_expr e) = (defer_free (Borrow_expr e), (snd (clear e)))"
| "clear (Move_expr e) = (defer_free (Move_expr e), (snd (clear e)))"
| "clear (Deref_expr e) = (defer_free (Deref_expr e), (snd (clear e)))"
| "clear (Cast_expr e t) = (defer_free (Cast_expr e t), (snd (clear e)))"
| "clear (Field_expr e f) = (defer_free (Field_expr e f), (snd (clear e)))"
| "clear (Struct_literal t fs u) = (defer_free (Struct_literal t fs u), (every (map struct_field_clear fs) \<and> pred_option snd (map_option clear u)))"
| "clear (Enum_literal en vn fs) = (defer_free (Enum_literal en vn fs), (every (map enum_field_clear fs)))"
| "clear (Tuple_literal es) = (defer_free (Tuple_literal es), (list_all snd (map clear es)))"
| "clear (Array_literal es) = (defer_free (Array_literal es), (list_all snd (map clear es)))"
| "clear (Repeat_array_literal v n) = (defer_free (Repeat_array_literal v n), (snd (clear v)))"
| "clear (Index_expr t i) = (defer_free (Index_expr t i), (snd (clear t) \<and> snd (clear i)))"
| "clear (Slice_expr t s e) = (defer_free (Slice_expr t s e), (snd (clear t) \<and> snd (clear s) \<and> snd (clear e)))"
| "clear (Try_expr e) = (defer_free (Try_expr e), (snd (clear e)))"
| "switch_clear (Switch_case v b) = stmts_clear (map clear b)"
| "match_clear (Match_case p g b) = (pred_option snd (map_option clear g) \<and> stmts_clear (map clear b))"
| "struct_field_clear (Struct_literal_field n v) = snd (clear v)"
| "enum_field_clear (Enum_literal_field n v) = snd (clear v)"

lemma list_all_id_map [simp]: "list_all (\<lambda>b. b) (map f xs) = list_all f xs"
  by (simp add: list.pred_map comp_def)

lemma pred_option_map [simp]: "pred_option P (map_option f xo) = pred_option (\<lambda>x. P (f x)) xo"
  by (cases xo) auto

lemma clone_defer_free: "cloneExpr n = Inr n \<Longrightarrow> defer_free n"
  "sel = (sel :: select_case)"
  "il = (il :: if_let_cond)"
  "sc = (sc :: switch_case)"
  "mc = (mc :: match_case)"
  "cloneStructField sf = Inr sf \<Longrightarrow> struct_field_free sf"
  "cloneEnumField ef = Inr ef \<Longrightarrow> enum_field_free ef"
proof (induct n and sel and il and sc and mc and sf and ef
    rule: node.induct select_case.induct if_let_cond.induct switch_case.induct match_case.induct
      struct_literal_field.induct enum_literal_field.induct)
  case (Call_expr f at gs args callee)
  then show ?case by (cases callee) (auto simp: map_Inr_self list_all_iff)
next
  case (Struct_literal t fs u)
  then show ?case by (cases u) (auto simp: map_Inr_self list_all_iff)
qed (auto simp: map_Inr_self list_all_iff)

definition chain_free :: "chain \<Rightarrow> bool" where
  "chain_free ch \<longleftrightarrow> list_all (list_all defer_free) ch"

text \<open>What every result of a step of the pass satisfies.\<close>

definition sat :: "('a \<Rightarrow> bool) \<Rightarrow> 'a desugar \<Rightarrow> bool" where
  "sat Q m \<longleftrightarrow> (\<forall>k x k'. m k = Inr (x, k') \<longrightarrow> Q x)"

lemma sat_simps [simp]: "sat Q (ret_d x) \<longleftrightarrow> Q x" "sat Q (fail_d e)"
  by (auto simp: sat_def ret_d_def fail_d_def)

lemma sat_bind: "sat P m \<Longrightarrow> (\<And>x. P x \<Longrightarrow> sat Q (f x)) \<Longrightarrow> sat Q (bind_d m f)"
  unfolding sat_def bind_d_eq_Inr by blast

lemma sat_map: "(\<And>x. x \<in> set xs \<Longrightarrow> sat Q (f x)) \<Longrightarrow> sat (list_all Q) (map_d f xs)"
  by (induction xs) (auto intro!: sat_bind [where P = Q] sat_bind [where P = "list_all Q"])

lemma sat_option: "(\<And>x. xo = Some x \<Longrightarrow> sat Q (f x)) \<Longrightarrow> sat (pred_option Q) (option_d f xo)"
  by (cases xo) (auto intro!: sat_bind [where P = Q])

lemma sat_clone: "defer_free n \<Longrightarrow> sat defer_free (clone_d n)"
  by (auto simp: clone_d_def split: sum.split dest: clone_id(1))

lemma sat_fresh: "sat (\<lambda>x. True) (freshName p)"
  by (simp add: sat_def)

lemma sat_emit: "chain_free ch \<Longrightarrow> sat (list_all defer_free) (emitDefers ch)"
  unfolding emitDefers_def
  by (rule sat_map, rule sat_bind [OF sat_clone]) (auto simp: chain_free_def list_all_iff)

lemma sat_snapshot:
  assumes "list_all defer_free (call_args c)"
  shows "sat (\<lambda>(lets, call). list_all defer_free lets \<and> defer_free call) (snapshotCall c)"
proof (cases "\<exists>f at gs args callee. c = Call_expr f at gs args callee")
  case True
  then obtain f at gs args callee where c: "c = Call_expr f at gs args callee" by blast
  have "sat (\<lambda>(l, i). defer_free l \<and> defer_free i) (snapshot_arg a)" if "a \<in> set args" for a
    using that assms c unfolding snapshot_arg_def
    by (intro sat_bind [OF sat_fresh]) (auto simp: list_all_iff)
  then have "sat (list_all (\<lambda>(l, i). defer_free l \<and> defer_free i)) (map_d snapshot_arg args)"
    by (rule sat_map)
  moreover have "sat (pred_option defer_free) (option_d clone_d callee)"
    by (rule sat_option) (auto simp: clone_d_def split: sum.split dest: clone_id(1) clone_defer_free(1))
  ultimately show ?thesis
    unfolding c snapshotCall.simps
    by (elim sat_bind) (auto simp: list_all_iff split: option.splits)
next
  case False
  then have "snapshotCall c = fail_d Not_a_call" by (cases c) auto
  then show ?thesis by simp
qed

lemma sat_return:
  assumes "chain_free ch" "pred_option defer_free vo"
  shows "sat (list_all defer_free) (process_return ch vo)"
proof -
  have "sat (list_all defer_free) (bind_d (emitDefers ch) (\<lambda>calls. ret_d (calls @ [Return_stmt vo])))"
    using assms(2) by (intro sat_bind [OF sat_emit [OF assms(1)]]) (cases vo; simp)
  moreover have "sat (list_all defer_free) (bind_d (freshName p) (\<lambda>x. bind_d (emitDefers ch)
      (\<lambda>calls. ret_d (Let_stmt x None v # calls @ [Return_stmt (Some (Identifier x))]))))"
    if "vo = Some v" for v p
    using assms(2) that by (intro sat_bind [OF sat_fresh] sat_bind [OF sat_emit [OF assms(1)]]) simp
  ultimately show ?thesis by (cases vo) (simp_all add: process_return_def)
qed

text \<open>What a statement and the handler of its children have to satisfy.\<close>

definition settled :: "node \<Rightarrow> handler \<Rightarrow> bool" where
  "settled s h \<longleftrightarrow> (case stmt_kind s of
     Kind_defer c \<Rightarrow> list_all defer_free (call_args c)
   | Kind_return vo \<Rightarrow> pred_option defer_free vo
   | Kind_jump \<Rightarrow> defer_free s
   | Kind_other \<Rightarrow> \<forall>ch. chain_free ch \<longrightarrow> sat defer_free (h ch))"

lemma chain_free_simps [simp]:
  "chain_free []" "chain_free (ch @ [calls]) \<longleftrightarrow> chain_free ch \<and> list_all defer_free calls"
  "chain_free [calls] \<longleftrightarrow> list_all defer_free calls"
  by (auto simp: chain_free_def)

lemma sat_stmts:
  "list_all (\<lambda>(s, h). settled s h) ss \<Longrightarrow> chain_free outer \<Longrightarrow> list_all defer_free calls \<Longrightarrow>
    sat (list_all defer_free) (process_stmts ss outer calls exited)"
proof (induction ss outer calls exited rule: process_stmts.induct)
  case (1 outer calls exited)
  then show ?case by (simp add: sat_emit)
next
  case (2 s h ss outer calls exited)
  then have s: "settled s h" and ss: "list_all (\<lambda>(s, h). settled s h) ss" by auto
  show ?case
  proof (cases "stmt_kind s")
    case (Kind_defer c)
    with s have "list_all defer_free (call_args c)" by (simp add: settled_def)
    from sat_snapshot [OF this] show ?thesis
      unfolding process_stmts.simps Kind_defer stmt_class.case
      by (rule sat_bind, clarify, intro sat_bind [OF "2.IH"(1) [OF Kind_defer]])
        (use ss "2.prems" in auto)
  next
    case (Kind_return v)
    with s have v: "pred_option defer_free v" by (simp add: settled_def)
    show ?thesis
      unfolding process_stmts.simps Kind_return stmt_class.case
      by (rule sat_bind [OF sat_return [OF _ v]], use "2.prems" in simp)
        (intro sat_bind [OF "2.IH"(2) [OF Kind_return ss "2.prems"(2,3)]], simp)
  next
    case Kind_jump
    with s have s': "defer_free s" by (simp add: settled_def)
    show ?thesis
      unfolding process_stmts.simps Kind_jump stmt_class.case
      by (rule sat_bind [OF sat_emit], use "2.prems" in simp)
        (intro sat_bind [OF "2.IH"(3) [OF Kind_jump ss "2.prems"(2,3)]], use s' in simp)
  next
    case Kind_other
    with s "2.prems" have h: "sat defer_free (h (outer @ [calls]))" by (simp add: settled_def)
    show ?thesis
      unfolding process_stmts.simps Kind_other stmt_class.case
      by (rule sat_bind [OF h], intro sat_bind [OF "2.IH"(4) [OF Kind_other ss "2.prems"(2,3)]]) simp
  qed
qed

definition freed :: "('a \<Rightarrow> bool) \<Rightarrow> (chain \<Rightarrow> 'a desugar) \<Rightarrow> bool" where
  "freed Q h \<longleftrightarrow> (\<forall>ch k x k'. chain_free ch \<longrightarrow> h ch k = Inr (x, k') \<longrightarrow> Q x)"

lemma freed_sat: "freed Q h \<Longrightarrow> chain_free ch \<Longrightarrow> sat Q (h ch)"
  unfolding freed_def sat_def by blast

lemma freedI: "(\<And>ch. chain_free ch \<Longrightarrow> sat Q (h ch)) \<Longrightarrow> freed Q h"
  unfolding freed_def sat_def by blast

lemma freed_bind [intro]:
  "freed P g \<Longrightarrow> (\<And>x. P x \<Longrightarrow> freed Q (\<lambda>ch. f x ch)) \<Longrightarrow> freed Q (\<lambda>ch. bind_d (g ch) (\<lambda>x. f x ch))"
  unfolding freed_def bind_d_eq_Inr by blast

lemma freed_simps [simp]: "freed Q (\<lambda>ch. ret_d x) \<longleftrightarrow> Q x" "freed defer_free (leave n) \<longleftrightarrow> defer_free n"
  by (auto simp: freed_def ret_d_def leave_def intro!: exI [of _ "[]"])

lemma freed_map: "(\<And>x. x \<in> set xs \<Longrightarrow> freed Q (h x)) \<Longrightarrow> freed (list_all Q) (\<lambda>ch. map_d (\<lambda>x. h x ch) xs)"
  by (intro freedI sat_map) (auto dest: freed_sat)

lemma freed_option: "(\<And>x. xo = Some x \<Longrightarrow> freed Q (h x)) \<Longrightarrow> freed (pred_option Q) (\<lambda>ch. option_d (\<lambda>x. h x ch) xo)"
  by (intro freedI sat_option) (auto dest: freed_sat)

lemma freed_fresh_chain: "freed Q h \<Longrightarrow> freed Q (\<lambda>ch. h [])"
  unfolding freed_def using chain_free_simps(1) by blast

definition cleared :: "node \<Rightarrow> bool" where
  "cleared n \<longleftrightarrow> (fst (clear n) \<longrightarrow> settled n (fst (handlers n))) \<and>
     (snd (clear n) \<longrightarrow> freed defer_free (snd (handlers n)))"

lemma settled_other: "stmt_kind s = Kind_other \<Longrightarrow> settled s h \<longleftrightarrow> freed defer_free h"
  by (auto simp: settled_def sat_def freed_def)

lemma settled_block:
  assumes "list_all fst (map clear b)" "\<And>s. s \<in> set b \<Longrightarrow> cleared s"
  shows "freed (list_all defer_free) (block_of b (map handlers b))"
proof -
  have "list_all (\<lambda>(s, h). settled s h) (zip b (map fst (map handlers b)))"
    using assms by (induction b) (auto simp: cleared_def)
  then show ?thesis unfolding process_block_def by (intro freedI sat_stmts) auto
qed

lemma freed_exprs:
  assumes "list_all snd (map clear es)" "\<And>e. e \<in> set es \<Longrightarrow> cleared e"
  shows "freed (list_all defer_free) (\<lambda>ch. map_d (\<lambda>h. snd h ch) (map handlers es))"
  using assms unfolding map_d_map by (intro freed_map) (auto simp: cleared_def list_all_iff)

lemma freed_opt_expr:
  assumes "pred_option snd (map_option clear eo)" "\<And>e. eo = Some e \<Longrightarrow> cleared e"
  shows "freed (pred_option defer_free) (\<lambda>ch. option_d (\<lambda>h. snd h ch) (map_option handlers eo))"
  using assms unfolding option_d_map by (intro freed_option) (auto simp: cleared_def)

lemma freed_block_opt:
  assumes "pred_option stmts_clear (map_option (map clear) bo)" "\<And>b s. bo = Some b \<Longrightarrow> s \<in> set b \<Longrightarrow> cleared s"
  shows "freed (pred_option (list_all defer_free)) (block_opt bo (map_option (map handlers) bo))"
proof (cases bo)
  case None
  then show ?thesis by (simp add: freed_def ret_d_def)
next
  case (Some b)
  with assms have "freed (list_all defer_free) (block_of b (map handlers b))"
    by (intro settled_block) auto
  then have "freed (pred_option (list_all defer_free))
      (\<lambda>ch. bind_d (block_of b (map handlers b) ch) (\<lambda>b'. ret_d (Some b')))"
    by (rule freed_bind) simp
  then show ?thesis by (simp add: Some freed_def)
qed

lemma freed_cases:
  assumes "\<And>c. c \<in> set cs \<Longrightarrow> freed Q (h c)"
  shows "freed (list_all Q) (\<lambda>ch. map_d (\<lambda>h. h ch) (map h cs))"
  using assms unfolding map_d_map by (intro freed_map)

lemma freed_loop_body: "freed Q (process_block ss) \<Longrightarrow> freed Q (\<lambda>ch. process_block ss [])"
  by (rule freed_fresh_chain)

lemma freed_closure_body: "freed Q (snd h) \<Longrightarrow> freed Q (\<lambda>ch. snd h [])"
  by (rule freed_fresh_chain)

lemma list_all_mem: "list_all P xs \<Longrightarrow> x \<in> set xs \<Longrightarrow> P x"
  by (simp add: list_all_iff)

lemma clearedD: "cleared e \<Longrightarrow> snd (clear e) \<Longrightarrow> freed defer_free (snd (handlers e))"
  by (simp add: cleared_def)

lemma cleared_stmt:
  assumes "stmt_kind n = Kind_other" "snd (clear n) = defer_free n" "snd (handlers n) = leave n"
    "fst (clear n) \<Longrightarrow> freed defer_free (fst (handlers n))"
  shows "cleared n"
  using assms by (simp add: cleared_def settled_other)

lemma cleared_expr:
  assumes "stmt_kind n = Kind_other" "fst (clear n) = defer_free n" "fst (handlers n) = leave n"
    "snd (clear n) \<Longrightarrow> freed defer_free (snd (handlers n))"
  shows "cleared n"
  using assms by (simp add: cleared_def settled_other)

lemma cleared_leaf:
  assumes "stmt_kind n = Kind_other" "clear n = (defer_free n, defer_free n)" "handlers n = (leave n, leave n)"
  shows "cleared n"
  using assms by (simp add: cleared_def settled_other)

lemmas free_intros = freed_bind freed_exprs freed_cases settled_block freed_opt_expr freed_block_opt
  freed_loop_body freed_closure_body clearedD

lemma handlers_free: "cleared n"
  "sel = (sel :: select_case)"
  "il = (il :: if_let_cond)"
  "switch_clear sc \<Longrightarrow> freed switch_case_free (switch_handler sc)"
  "match_clear mc \<Longrightarrow> freed match_case_free (match_handler mc)"
  "struct_field_clear sf \<Longrightarrow> freed struct_field_free (struct_field_handler sf)"
  "enum_field_clear ef \<Longrightarrow> freed enum_field_free (enum_field_handler ef)"
proof (induct n and sel and il and sc and mc and sf and ef
    rule: node.induct select_case.induct if_let_cond.induct switch_case.induct match_case.induct
      struct_literal_field.induct enum_literal_field.induct)
  case (Program ds)
  show ?case by (rule cleared_leaf) simp_all
next
  case (Struct_decl d)
  show ?case by (rule cleared_leaf) simp_all
next
  case (Enum_decl d)
  show ?case by (rule cleared_leaf) simp_all
next
  case (Trait_decl d)
  show ?case by (rule cleared_leaf) simp_all
next
  case (Impl_decl t u ms)
  show ?case by (rule cleared_leaf) simp_all
next
  case (Type_alias_decl d)
  show ?case by (rule cleared_leaf) simp_all
next
  case (Overload_decl t ms)
  show ?case by (rule cleared_leaf) simp_all
next
  case (Func_decl d b)
  show ?case by (rule cleared_leaf) simp_all
next
  case (Macro_decl d b)
  show ?case by (rule cleared_leaf) simp_all
next
  case (Import_decl p)
  show ?case by (rule cleared_leaf) simp_all
next
  case (Using_decl p)
  show ?case by (rule cleared_leaf) simp_all
next
  case (Test_decl d b)
  show ?case by (rule cleared_leaf) simp_all
next
  case (Sublanguage_decl d)
  show ?case by (rule cleared_leaf) simp_all
next
  case (Sublanguage_registration k)
  show ?case by (rule cleared_leaf) simp_all
next
  case (Check_hook_decl k)
  show ?case by (rule cleared_leaf) simp_all
next
  case (Let_stmt v t e)
  then show ?case by (intro cleared_stmt) (auto simp: as_stmt_def simp del: map_map intro!: free_intros)
next
  case (Let_else_stmt p e b)
  then show ?case by (intro cleared_stmt) (auto simp: as_stmt_def simp del: map_map intro!: free_intros)
next
  case (Let_destructure_stmt d e)
  then show ?case by (intro cleared_stmt) (auto simp: as_stmt_def simp del: map_map intro!: free_intros)
next
  case (Const_stmt v t e)
  then show ?case by (intro cleared_stmt) (auto simp: as_stmt_def simp del: map_map intro!: free_intros)
next
  case (Var_stmt v t)
  show ?case by (rule cleared_leaf) simp_all
next
  case (Assign_stmt t v)
  then show ?case by (intro cleared_stmt) (auto simp: as_stmt_def simp del: map_map intro!: free_intros)
next
  case (Block_stmt b)
  then show ?case by (intro cleared_stmt) (auto simp: as_stmt_def simp del: map_map intro!: free_intros)
next
  case (Arena_stmt b)
  show ?case by (rule cleared_leaf) simp_all
next
  case (Expr_stmt e)
  then show ?case by (intro cleared_stmt) (auto simp: as_stmt_def simp del: map_map intro!: free_intros)
next
  case (Return_stmt vo)
  then show ?case by (simp add: cleared_def settled_def as_stmt_def)
next
  case (For_stmt v s eo b)
  then show ?case by (intro cleared_stmt) (auto simp: as_stmt_def simp del: map_map intro!: free_intros)
next
  case (While_stmt c p b)
  then show ?case by (intro cleared_stmt) (auto simp: as_stmt_def simp del: map_map intro!: free_intros)
next
  case Break_stmt
  then show ?case by (simp add: cleared_def settled_def as_stmt_def)
next
  case Continue_stmt
  then show ?case by (simp add: cleared_def settled_def as_stmt_def)
next
  case (Release_stmt v)
  show ?case by (rule cleared_leaf) simp_all
next
  case (Defer_stmt c)
  then show ?case by (simp add: cleared_def settled_def as_stmt_def)
next
  case (Select_stmt cs d t tb)
  show ?case by (rule cleared_leaf) simp_all
next
  case (Literal l)
  show ?case by (rule cleared_leaf) simp_all
next
  case (Identifier v)
  show ?case by (rule cleared_leaf) simp_all
next
  case (Generic_func_ref f gs)
  show ?case by (rule cleared_leaf) simp_all
next
  case (Go_expr s c)
  show ?case by (rule cleared_leaf) simp_all
next
  case (If_expr c lc t eo)
  then show ?case by (intro cleared_expr) (auto simp: as_expr_def expr1_def expr2_def simp del: map_map intro!: free_intros dest: list_all_mem)
next
  case (Switch_expr v cs)
  then show ?case by (intro cleared_expr) (auto simp: as_expr_def expr1_def expr2_def simp del: map_map intro!: free_intros dest: list_all_mem)
next
  case (Match_expr v cs)
  then show ?case by (intro cleared_expr) (auto simp: as_expr_def expr1_def expr2_def simp del: map_map intro!: free_intros dest: list_all_mem)
next
  case (Unsafe_expr b)
  then show ?case by (intro cleared_expr) (auto simp: as_expr_def expr1_def expr2_def simp del: map_map intro!: free_intros dest: list_all_mem)
next
  case (Await_expr e)
  then show ?case by (intro cleared_expr) (auto simp: as_expr_def expr1_def expr2_def simp del: map_map intro!: free_intros dest: list_all_mem)
next
  case (Inline_asm_expr t ops)
  show ?case by (rule cleared_leaf) simp_all
next
  case (Binary_expr bop l r)
  then show ?case by (intro cleared_expr) (auto simp: as_expr_def expr1_def expr2_def simp del: map_map intro!: free_intros dest: list_all_mem)
next
  case (Call_expr f at gs args callee)
  then show ?case by (intro cleared_expr) (auto simp: as_expr_def expr1_def expr2_def simp del: map_map intro!: free_intros dest: list_all_mem)
next
  case (Closure_literal ps b)
  then show ?case by (intro cleared_expr) (auto simp: as_expr_def expr1_def expr2_def simp del: map_map intro!: free_intros dest: list_all_mem)
next
  case (Borrow_expr e)
  then show ?case by (intro cleared_expr) (auto simp: as_expr_def expr1_def expr2_def simp del: map_map intro!: free_intros dest: list_all_mem)
next
  case (Move_expr e)
  then show ?case by (intro cleared_expr) (auto simp: as_expr_def expr1_def expr2_def simp del: map_map intro!: free_intros dest: list_all_mem)
next
  case (Deref_expr e)
  then show ?case by (intro cleared_expr) (auto simp: as_expr_def expr1_def expr2_def simp del: map_map intro!: free_intros dest: list_all_mem)
next
  case (Cast_expr e t)
  then show ?case by (intro cleared_expr) (auto simp: as_expr_def expr1_def expr2_def simp del: map_map intro!: free_intros dest: list_all_mem)
next
  case (Field_expr e f)
  then show ?case by (intro cleared_expr) (auto simp: as_expr_def expr1_def expr2_def simp del: map_map intro!: free_intros dest: list_all_mem)
next
  case (Struct_literal t fs u)
  then show ?case by (intro cleared_expr)
      (auto simp: as_expr_def simp del: map_map dest: list_all_mem
        intro!: freed_bind [OF freed_cases] freed_bind [OF freed_opt_expr])
next
  case (Enum_literal en vn fs)
  then show ?case by (intro cleared_expr) (auto simp: as_expr_def expr1_def expr2_def simp del: map_map intro!: free_intros dest: list_all_mem)
next
  case (Tuple_literal es)
  then show ?case by (intro cleared_expr) (auto simp: as_expr_def expr1_def expr2_def simp del: map_map intro!: free_intros dest: list_all_mem)
next
  case (Array_literal es)
  then show ?case by (intro cleared_expr) (auto simp: as_expr_def expr1_def expr2_def simp del: map_map intro!: free_intros dest: list_all_mem)
next
  case (Repeat_array_literal v n)
  then show ?case by (intro cleared_expr) (auto simp: as_expr_def expr1_def expr2_def simp del: map_map intro!: free_intros dest: list_all_mem)
next
  case (Index_expr t i)
  then show ?case by (intro cleared_expr) (auto simp: as_expr_def expr1_def expr2_def simp del: map_map intro!: free_intros dest: list_all_mem)
next
  case (Slice_expr t s e)
  then show ?case by (intro cleared_expr) (auto simp: as_expr_def expr1_def expr2_def simp del: map_map intro!: free_intros dest: list_all_mem)
next
  case (Try_expr e)
  then show ?case by (intro cleared_expr) (auto simp: as_expr_def expr1_def expr2_def simp del: map_map intro!: free_intros dest: list_all_mem)
next
  case (Select_case k c x y b)
  show ?case by simp
next
  case (If_let_cond p e)
  show ?case by simp
next
  case (Switch_case v b)
  then show ?case by (auto simp del: map_map intro!: free_intros)
next
  case (Match_case p g b)
  then show ?case by (auto simp del: map_map intro!: free_intros)
next
  case (Struct_literal_field n v)
  then show ?case by (auto simp del: map_map intro!: free_intros)
next
  case (Enum_literal_field n v)
  then show ?case by (auto simp del: map_map intro!: free_intros)
qed

lemma processBlock_free:
  assumes "\<forall>s \<in> set b. fst (clear s)" "processBlock b [] k = Inr (b', k')"
  shows "\<forall>s \<in> set b'. defer_free s"
proof -
  have "freed (list_all defer_free) (block_of b (map handlers b))"
    by (rule settled_block) (use assms(1) handlers_free(1) in \<open>auto simp: list_all_iff\<close>)
  then show ?thesis
    using assms(2) chain_free_simps(1) unfolding block_eq freed_def list_all_iff by blast
qed

section \<open>Programs\<close>

text \<open>The bodies that \<open>desugarProgram\<close> replaces.\<close>

primrec method_bodies :: "node \<Rightarrow> node list list"
where
  "method_bodies (Program ds) = []"
| "method_bodies (Struct_decl d) = []"
| "method_bodies (Enum_decl d) = []"
| "method_bodies (Trait_decl d) = []"
| "method_bodies (Impl_decl t u ms) = []"
| "method_bodies (Type_alias_decl d) = []"
| "method_bodies (Overload_decl t ms) = []"
| "method_bodies (Func_decl d b) = [b]"
| "method_bodies (Macro_decl d b) = []"
| "method_bodies (Import_decl p) = []"
| "method_bodies (Using_decl p) = []"
| "method_bodies (Test_decl d b) = []"
| "method_bodies (Sublanguage_decl d) = []"
| "method_bodies (Sublanguage_registration k) = []"
| "method_bodies (Check_hook_decl k) = []"
| "method_bodies (Let_stmt v t e) = []"
| "method_bodies (Let_else_stmt p e b) = []"
| "method_bodies (Let_destructure_stmt d e) = []"
| "method_bodies (Const_stmt v t e) = []"
| "method_bodies (Var_stmt v t) = []"
| "method_bodies (Assign_stmt t v) = []"
| "method_bodies (Block_stmt b) = []"
| "method_bodies (Arena_stmt b) = []"
| "method_bodies (Expr_stmt e) = []"
| "method_bodies (Return_stmt vo) = []"
| "method_bodies (For_stmt v s eo b) = []"
| "method_bodies (While_stmt c p b) = []"
| "method_bodies Break_stmt = []"
| "method_bodies Continue_stmt = []"
| "method_bodies (Release_stmt v) = []"
| "method_bodies (Defer_stmt c) = []"
| "method_bodies (Select_stmt cs d t tb) = []"
| "method_bodies (Literal l) = []"
| "method_bodies (Identifier v) = []"
| "method_bodies (Generic_func_ref f gs) = []"
| "method_bodies (Go_expr s c) = []"
| "method_bodies (If_expr c lc t eo) = []"
| "method_bodies (Switch_expr v cs) = []"
| "method_bodies (Match_expr v cs) = []"
| "method_bodies (Unsafe_expr b) = []"
| "method_bodies (Await_expr e) = []"
| "method_bodies (Inline_asm_expr t ops) = []"
| "method_bodies (Binary_expr bop l r) = []"
| "method_bodies (Call_expr f at gs args callee) = []"
| "method_bodies (Closure_literal ps b) = []"
| "method_bodies (Borrow_expr e) = []"
| "method_bodies (Move_expr e) = []"
| "method_bodies (Deref_expr e) = []"
| "method_bodies (Cast_expr e t) = []"
| "method_bodies (Field_expr e f) = []"
| "method_bodies (Struct_literal t fs u) = []"
| "method_bodies (Enum_literal en vn fs) = []"
| "method_bodies (Tuple_literal es) = []"
| "method_bodies (Array_literal es) = []"
| "method_bodies (Repeat_array_literal v n) = []"
| "method_bodies (Index_expr t i) = []"
| "method_bodies (Slice_expr t s e) = []"
| "method_bodies (Try_expr e) = []"

primrec decl_bodies :: "node \<Rightarrow> node list list"
where
  "decl_bodies (Program ds) = []"
| "decl_bodies (Struct_decl d) = []"
| "decl_bodies (Enum_decl d) = []"
| "decl_bodies (Trait_decl d) = []"
| "decl_bodies (Impl_decl t u ms) = concat (map method_bodies ms)"
| "decl_bodies (Type_alias_decl d) = []"
| "decl_bodies (Overload_decl t ms) = []"
| "decl_bodies (Func_decl d b) = [b]"
| "decl_bodies (Macro_decl d b) = [b]"
| "decl_bodies (Import_decl p) = []"
| "decl_bodies (Using_decl p) = []"
| "decl_bodies (Test_decl d b) = [b]"
| "decl_bodies (Sublanguage_decl d) = []"
| "decl_bodies (Sublanguage_registration k) = []"
| "decl_bodies (Check_hook_decl k) = []"
| "decl_bodies (Let_stmt v t e) = []"
| "decl_bodies (Let_else_stmt p e b) = []"
| "decl_bodies (Let_destructure_stmt d e) = []"
| "decl_bodies (Const_stmt v t e) = []"
| "decl_bodies (Var_stmt v t) = []"
| "decl_bodies (Assign_stmt t v) = []"
| "decl_bodies (Block_stmt b) = []"
| "decl_bodies (Arena_stmt b) = []"
| "decl_bodies (Expr_stmt e) = []"
| "decl_bodies (Return_stmt vo) = []"
| "decl_bodies (For_stmt v s eo b) = []"
| "decl_bodies (While_stmt c p b) = []"
| "decl_bodies Break_stmt = []"
| "decl_bodies Continue_stmt = []"
| "decl_bodies (Release_stmt v) = []"
| "decl_bodies (Defer_stmt c) = []"
| "decl_bodies (Select_stmt cs d t tb) = []"
| "decl_bodies (Literal l) = []"
| "decl_bodies (Identifier v) = []"
| "decl_bodies (Generic_func_ref f gs) = []"
| "decl_bodies (Go_expr s c) = []"
| "decl_bodies (If_expr c lc t eo) = []"
| "decl_bodies (Switch_expr v cs) = []"
| "decl_bodies (Match_expr v cs) = []"
| "decl_bodies (Unsafe_expr b) = []"
| "decl_bodies (Await_expr e) = []"
| "decl_bodies (Inline_asm_expr t ops) = []"
| "decl_bodies (Binary_expr bop l r) = []"
| "decl_bodies (Call_expr f at gs args callee) = []"
| "decl_bodies (Closure_literal ps b) = []"
| "decl_bodies (Borrow_expr e) = []"
| "decl_bodies (Move_expr e) = []"
| "decl_bodies (Deref_expr e) = []"
| "decl_bodies (Cast_expr e t) = []"
| "decl_bodies (Field_expr e f) = []"
| "decl_bodies (Struct_literal t fs u) = []"
| "decl_bodies (Enum_literal en vn fs) = []"
| "decl_bodies (Tuple_literal es) = []"
| "decl_bodies (Array_literal es) = []"
| "decl_bodies (Repeat_array_literal v n) = []"
| "decl_bodies (Index_expr t i) = []"
| "decl_bodies (Slice_expr t s e) = []"
| "decl_bodies (Try_expr e) = []"

definition body_refines :: "node list \<Rightarrow> node list \<Rightarrow> bool" where
  "body_refines b b' \<longleftrightarrow> resolve_runs Map.empty (body_runs b') = body_runs b"

definition core_body :: "node list \<Rightarrow> bool" where
  "core_body b \<longleftrightarrow> core_list True False b"

definition clear_body :: "node list \<Rightarrow> bool" where
  "clear_body b \<longleftrightarrow> (\<forall>s \<in> set b. fst (clear s))"

definition free_body :: "node list \<Rightarrow> bool" where
  "free_body b \<longleftrightarrow> (\<forall>s \<in> set b. defer_free s)"

lemma map_d_all2:
  "\<forall>x \<in> set xs. \<forall>k. \<exists>y k'. f x k = Inr (y, k') \<and> R x y \<Longrightarrow>
    \<exists>ys k'. map_d f xs k = Inr (ys, k') \<and> list_all2 R xs ys"
proof (induction xs arbitrary: k)
  case (Cons x xs)
  obtain y k1 where y: "f x k = Inr (y, k1)" "R x y" using Cons.prems by force
  obtain ys k2 where ys: "map_d f xs k1 = Inr (ys, k2)" "list_all2 R xs ys"
    using Cons.IH [of k1] Cons.prems by auto
  show ?case using y ys by (simp add: bind_d_Inr)
qed simp

lemma map_d_result:
  "map_d f xs k = Inr (ys, k') \<Longrightarrow> (\<forall>x \<in> set xs. \<forall>k y k'. f x k = Inr (y, k') \<longrightarrow> Q y) \<Longrightarrow>
    \<forall>y \<in> set ys. Q y"
proof (induction xs arbitrary: k ys k')
  case Nil
  then show ?case by (simp add: ret_d_def)
next
  case (Cons x xs)
  then obtain y k1 ys' k2 where y: "f x k = Inr (y, k1)" "map_d f xs k1 = Inr (ys', k2)" "ys = y # ys'"
    by (auto simp: bind_d_eq_Inr ret_d_def)
  with Cons.IH [OF y(2)] Cons.prems(2) show ?case by auto
qed

lemma list_all2_concat: "list_all2 (\<lambda>x y. list_all2 R (f x) (g y)) xs ys \<Longrightarrow>
    list_all2 R (concat (map f xs)) (concat (map g ys))"
  by (induction rule: list_all2_induct) (auto intro: list_all2_appendI)

definition bodies_related :: "(node list \<Rightarrow> node list \<Rightarrow> bool) \<Rightarrow> node \<Rightarrow> node \<Rightarrow> bool" where
  "bodies_related R d d' \<longleftrightarrow> list_all2 R (decl_bodies d) (decl_bodies d')"

lemma desugar_method_runs:
  assumes "\<forall>b \<in> set (method_bodies m). core_body b"
  shows "\<exists>m' k'. desugar_method m k = Inr (m', k') \<and> list_all2 body_refines (method_bodies m) (method_bodies m')"
proof (cases "\<exists>d b. m = Func_decl d b")
  case True
  then obtain d b where m: "m = Func_decl d b" by blast
  with assms obtain b' k' where "processBlock b [] k = Inr (b', k')" "body_refines b b'"
    using processBlock_refines [of b k] by (auto simp: core_body_def body_refines_def)
  then show ?thesis by (simp add: m bind_d_Inr)
next
  case False
  then have "desugar_method m = ret_d m" "method_bodies m = []" by (cases m; simp)+
  then show ?thesis by simp
qed

lemma decl_shapes: "(\<exists>t u ms. d = Impl_decl t u ms) \<or> (\<exists>x b. d = Func_decl x b) \<or>
    (\<exists>x b. d = Test_decl x b) \<or> (\<exists>x b. d = Macro_decl x b) \<or> (desugar_decl d = ret_d d \<and> decl_bodies d = [])"
  by (cases d; simp)

lemma desugar_decl_runs:
  assumes "\<forall>b \<in> set (decl_bodies d). core_body b"
  shows "\<exists>d' k'. desugar_decl d k = Inr (d', k') \<and> bodies_related body_refines d d'"
proof -
  have body: "\<exists>b' k'. processBlock b [] k = Inr (b', k') \<and> body_refines b b'" if "core_body b" for b
    using processBlock_refines [of b k] that by (auto simp: core_body_def body_refines_def)
  consider (impl) t u ms where "d = Impl_decl t u ms" | (func) x b where "d = Func_decl x b"
    | (test) x b where "d = Test_decl x b" | (macro) x b where "d = Macro_decl x b"
    | (other) "desugar_decl d = ret_d d" "decl_bodies d = []"
    using decl_shapes [of d] by blast
  then show ?thesis
  proof cases
    case impl
    with assms have "\<forall>m \<in> set ms. \<forall>b \<in> set (method_bodies m). core_body b" by auto
    then have "\<forall>m \<in> set ms. \<forall>k. \<exists>m' k'. desugar_method m k = Inr (m', k') \<and>
        list_all2 body_refines (method_bodies m) (method_bodies m')"
      using desugar_method_runs by blast
    from map_d_all2 [OF this, of k] obtain ms' k' where "map_d desugar_method ms k = Inr (ms', k')"
      "list_all2 (\<lambda>m m'. list_all2 body_refines (method_bodies m) (method_bodies m')) ms ms'"
      by blast
    then show ?thesis
      by (simp add: impl bind_d_Inr bodies_related_def list_all2_concat)
  next
    case func
    with assms obtain b' k' where "processBlock b [] k = Inr (b', k')" "body_refines b b'"
      using body [of b] by auto
    then show ?thesis by (simp add: func bind_d_Inr bodies_related_def)
  next
    case test
    with assms obtain b' k' where "processBlock b [] k = Inr (b', k')" "body_refines b b'"
      using body [of b] by auto
    then show ?thesis by (simp add: test bind_d_Inr bodies_related_def)
  next
    case macro
    with assms obtain b' k' where "processBlock b [] k = Inr (b', k')" "body_refines b b'"
      using body [of b] by auto
    then show ?thesis by (simp add: macro bind_d_Inr bodies_related_def)
  next
    case other
    then show ?thesis by (simp add: bodies_related_def)
  qed
qed


text \<open>The macro \<open>m\<close> and the test \<open>t\<close> with that body.\<close>

definition deferring_decls :: "node list" where
  "deferring_decls =
    [Macro_decl \<lparr>md_name = ''m'', md_params = [], md_param_types = []\<rparr> deferring_body,
     Test_decl \<lparr>td_name = ''t'', td_is_ignored = False, td_should_panic = False\<rparr> deferring_body]"


text \<open>C23: no \<open>defer\<close> is left where the pass comes by.  When every \<open>defer\<close> of the bodies stands in a
  block the pass visits, at any depth of statements, expressions and closures, then the bodies
  of the desugared program contain no \<open>defer\<close> at all.\<close>

theorem program_free:
  assumes "\<forall>d \<in> set decls. \<forall>b \<in> set (decl_bodies d). clear_body b" "desugarProgram decls = Inr decls'"
  shows "\<forall>d \<in> set decls'. \<forall>b \<in> set (decl_bodies d). free_body b"
proof -
  have body: "free_body b'" if "processBlock b [] k = Inr (b', k')" "clear_body b" for b b' k k'
    using processBlock_free that by (auto simp: clear_body_def free_body_def)
  have one_method: "\<forall>b' \<in> set (method_bodies m'). free_body b'"
    if "desugar_method m k = Inr (m', k')" "\<forall>b \<in> set (method_bodies m). clear_body b" for m m' k k'
    using that body by (cases m) (auto simp: bind_d_eq_Inr ret_d_def)
  have methods: "\<forall>m' \<in> set ms'. \<forall>b' \<in> set (method_bodies m'). free_body b'"
    if "map_d desugar_method ms k = Inr (ms', k')" "\<forall>m \<in> set ms. \<forall>b \<in> set (method_bodies m). clear_body b"
    for ms ms' k k'
    using that(1) by (rule map_d_result) (use that(2) one_method in blast)
  have decl: "\<forall>b' \<in> set (decl_bodies d'). free_body b'"
    if "desugar_decl d k = Inr (d', k')" "\<forall>b \<in> set (decl_bodies d). clear_body b" for d d' k k'
    using that body methods by (cases d) (auto simp: bind_d_eq_Inr ret_d_def)
  obtain k where "map_d desugar_decl decls 0 = Inr (decls', k)"
    using assms(2) by (auto simp: desugarProgram_def split: sum.splits)
  then show ?thesis by (rule map_d_result) (use assms(1) decl in blast)
qed

text \<open>A closure whose body has a \<open>defer\<close> in an \<open>unsafe\<close> block and one under an \<open>if\<close>.\<close>

definition deferring_closure :: "node list" where
  "deferring_closure =
    [Macro_decl \<lparr>md_name = ''m'', md_params = [], md_param_types = []\<rparr>
      [Let_stmt ''h'' None (Closure_literal [] (Unsafe_expr [
        Defer_stmt (Call_expr ''f'' None [] [Identifier ''x''] None),
        Expr_stmt (If_expr (Identifier ''c'') None
          [Defer_stmt (Call_expr ''g'' None [] [] None), Return_stmt None] None)]))]]"

definition desugared_body :: "node list" where
  "desugared_body =
    [Let_stmt ''h'' None (Closure_literal [] (Unsafe_expr [
       Let_stmt ''__dfa_1'' None (Identifier ''x''),
       Expr_stmt (If_expr (Identifier ''c'') None
         [Expr_stmt (Call_expr ''g'' None [] [] None),
          Expr_stmt (Call_expr ''f'' None [] [Identifier ''__dfa_1''] None), Return_stmt None] None),
       Expr_stmt (Call_expr ''f'' None [] [Identifier ''__dfa_1''] None)]))]"

definition desugared_closure :: "node list" where
  "desugared_closure =
    [Macro_decl \<lparr>md_name = ''m'', md_params = [], md_param_types = []\<rparr> desugared_body]"

lemma closure_desugared: "desugarProgram deferring_closure = Inr desugared_closure"
  by code_simp

theorem program_free_witness: "free_body desugared_body"
proof -
  have "\<forall>d \<in> set desugared_closure. \<forall>b \<in> set (decl_bodies d). free_body b"
    by (rule program_free [OF _ closure_desugared]) (simp add: deferring_closure_def clear_body_def)
  then show ?thesis by (simp add: desugared_closure_def)
qed

section \<open>What the pass does not do\<close>

lemma call_free [simp]: "handlers (Call_expr f at gs [] None) =
    as_expr (Call_expr f at gs [] None) (\<lambda>ch. ret_d (Call_expr f at gs [] None))"
  by (simp add: as_expr_def bind_d_def ret_d_def fun_eq_iff)

abbreviation call0 :: "string \<Rightarrow> node" where
  "call0 f \<equiv> Call_expr f None [] [] None"

text \<open>A \<open>return\<close> inside a loop leaves without the calls of the blocks around the loop.  The body
  \<open>defer f(); while c { return; }\<close> becomes \<open>while c { return; } f();\<close>: the desugared body can
  return after one evaluation of \<open>c\<close> alone, which no run of the original does.\<close>

lemma loop_returns_skip_defers:
  "processBlock [Defer_stmt (call0 f), While_stmt (Identifier c) None [Return_stmt None]] [] k =
     Inr ([While_stmt (Identifier c) None [Return_stmt None], Expr_stmt (call0 f)], k) \<and>
   ([Eval (Identifier c)], Returns_with None) \<in>
     body_runs [While_stmt (Identifier c) None [Return_stmt None], Expr_stmt (call0 f)] \<and>
   ([Eval (Identifier c)], Returns_with None) \<notin>
     body_runs [Defer_stmt (call0 f), While_stmt (Identifier c) None [Return_stmt None]]"
proof (intro conjI)
  show "processBlock [Defer_stmt (call0 f), While_stmt (Identifier c) None [Return_stmt None]] [] k =
     Inr ([While_stmt (Identifier c) None [Return_stmt None], Expr_stmt (call0 f)], k)"
    by (simp add: processBlock_def process_block_def processStmtChildren_def bind_d_def ret_d_def
        as_stmt_def leave_def process_return_def emitDefers_def clone_d_def bind_c_def)
  have "([Eval (Identifier c)], Returns_with None) \<in> runs (While_stmt (Identifier c) None [Return_stmt None])"
    using loop_return [of "[]" None "body_of [Return_stmt None] (map runs [Return_stmt None])" "[Eval (Identifier c)]"]
    by (simp add: value_event_def then_run_left)
  then show "([Eval (Identifier c)], Returns_with None) \<in>
     body_runs [While_stmt (Identifier c) None [Return_stmt None], Expr_stmt (call0 f)]"
    by (simp add: body_runs_def then_run_iff)
  show "([Eval (Identifier c)], Returns_with None) \<notin>
     body_runs [Defer_stmt (call0 f), While_stmt (Identifier c) None [Return_stmt None]]"
    by (auto simp: body_runs_def then_run_iff exits_iff append_eq_Cons_conv)
qed

text \<open>A returned name is read after the deferred calls.  The body \<open>defer f(); return x;\<close> becomes
  \<open>f(); return x;\<close>: the original reads \<open>x\<close> and then calls \<open>f\<close>, as its value is evaluated before the
  deferred calls run; the desugared body calls \<open>f\<close> first, which may have changed \<open>x\<close>.\<close>

lemma returned_name_late:
  assumes "\<not> synthetic x"
  shows "processBlock [Defer_stmt (call0 f), Return_stmt (Some (Identifier x))] [] k =
      Inr ([Expr_stmt (call0 f), Return_stmt (Some (Identifier x))], k)"
    and "body_runs [Defer_stmt (call0 f), Return_stmt (Some (Identifier x))] =
      {([Eval (Identifier x), Eval (call0 f)], Returns_with (Some (Identifier x)))}"
    and "body_runs [Expr_stmt (call0 f), Return_stmt (Some (Identifier x))] =
      {([Eval (call0 f), Eval (Identifier x)], Returns_with (Some (Identifier x)))}"
proof -
  show "processBlock [Defer_stmt (call0 f), Return_stmt (Some (Identifier x))] [] k =
      Inr ([Expr_stmt (call0 f), Return_stmt (Some (Identifier x))], k)"
    by (simp add: processBlock_def process_block_def processStmtChildren_def bind_d_def ret_d_def
        process_return_def has_defers_def emitDefers_def clone_d_def bind_c_def)
qed (use assms in \<open>simp_all add: body_runs_def value_event_def exits_left then_run_left plain_run_def done_run_def\<close>)

text \<open>The calls of a body are put behind its last expression.  For every expression that can be
  copied, \<open>defer f(); e\<close> becomes \<open>e; f();\<close>, so the value of the body as its last expression
  statement is no longer that of \<open>e\<close> but that of the deferred call.\<close>

lemma tail_value_replaced:
  "cloneExpr e = Inr e \<longrightarrow>
   processBlock [Defer_stmt (call0 f), Expr_stmt e] [] k = Inr ([Expr_stmt e, Expr_stmt (call0 f)], k)"
  by (auto simp: processBlock_def process_block_def processStmtChildren_def bind_d_def ret_d_def
        as_stmt_def emitDefers_def clone_d_def bind_c_def clone_handler)

lemma tail_value_replaced_witness:
  "processBlock [Defer_stmt (call0 ''f''), Expr_stmt (call0 ''g'')] [] 0 =
    Inr ([Expr_stmt (call0 ''g''), Expr_stmt (call0 ''f'')], 0)"
  using tail_value_replaced [of "call0 ''g''" "''f''" 0] by (simp add: bind_c_def)

text \<open>A \<open>return\<close> is not visited.  Whatever the value of a \<open>return\<close> is, also a closure with blocks
  in it, the pass keeps it as it is, and so keeps every \<open>defer\<close> in it.\<close>

lemma return_value_kept:
  "\<exists>k'. processBlock [Return_stmt (Some v)] [] k = Inr ([Return_stmt (Some v)], k')"
  by (simp add: processBlock_def process_block_def process_return_def has_defers_def emitDefers_def
      bind_d_def ret_d_def)

end
