(* ===== verification/Sla_Stability.thy ===== *)
theory Sla_Stability
  imports Sla_Prelude Complex_Main
begin

text \<open>
  \<open>src/stability_metadata.zig\<close>: the validator of stability-metadata manifests and the writers of
  its report.  A manifest is the value \<open>std.json\<close> parses; the parser itself is a parameter of
  \<open>validateManifestText\<close>.  The report is threaded through the checks, every \<open>continue\<close> and early
  \<open>return\<close> is a branch.  Every loop over entries is \<open>check_all\<close> of the check of one entry; the
  locale \<open>entry_checker\<close> states what such a check promises and proves it for the loop.
\<close>

section \<open>Values and reports\<close>

text \<open>
  \<open>std.json.Value\<close>; numbers that are no \<open>i64\<close> keep their text, an object its fields in order with
  unique names.
\<close>

datatype json = J_null | J_bool bool | J_integer int | J_float string | J_number_string string
  | J_string string | J_array "json list" | J_object "(string \<times> json) list"

abbreviation get_field :: "(string \<times> json) list \<Rightarrow> string \<Rightarrow> json option" where
  "get_field \<equiv> map_of"

record validation_report =
  valid :: bool
  label_count :: nat
  artifact_count :: nat
  evidence_count :: nat
  errors :: "string list"

definition report_init :: validation_report where
  "report_init = \<lparr>valid = True, label_count = 0, artifact_count = 0, evidence_count = 0, errors = []\<rparr>"

definition addError :: "string \<Rightarrow> validation_report \<Rightarrow> validation_report" where
  "addError msg r = r\<lparr>valid := False, errors := errors r @ [msg]\<rparr>"

section \<open>Names, paths and statuses\<close>

definition isLabelStart :: "char \<Rightarrow> bool" where
  "isLabelStart c \<longleftrightarrow> is_alphanumeric c"

definition isLabelChar :: "char \<Rightarrow> bool" where
  "isLabelChar c \<longleftrightarrow> is_alphanumeric c \<or> c = CHR ''_'' \<or> c = CHR ''-'' \<or> c = CHR ''.''"

fun isValidLabelName :: "string \<Rightarrow> bool" where
  "isValidLabelName [] = False"
| "isValidLabelName (c # cs) = (isLabelStart c \<and> list_all isLabelChar cs)"

text \<open>\<open>std.fs.path.isAbsolute\<close> on POSIX.\<close>

definition isAbsolute :: "string \<Rightarrow> bool" where
  "isAbsolute p \<longleftrightarrow> (case p of [] \<Rightarrow> False | c # cs \<Rightarrow> c = CHR ''/'')"

definition isValidArtifactPath :: "string \<Rightarrow> bool" where
  "isValidArtifactPath p \<longleftrightarrow> p \<noteq> [] \<and> \<not> isAbsolute p \<and> list_all (\<lambda>part. part \<noteq> ''..'') (split_on CHR ''/'' p)"

definition isValidEvidenceStatus :: "string \<Rightarrow> bool" where
  "isValidEvidenceStatus s \<longleftrightarrow> s = ''pass'' \<or> s = ''fail'' \<or> s = ''unknown''"

definition string_with :: "(string \<Rightarrow> bool) \<Rightarrow> json \<Rightarrow> bool" where
  "string_with P v \<longleftrightarrow> (case v of J_string s \<Rightarrow> P s | _ \<Rightarrow> False)"

abbreviation nonempty_string :: "json \<Rightarrow> bool" where
  "nonempty_string \<equiv> string_with (\<lambda>s. s \<noteq> [])"

section \<open>The checks\<close>

text \<open>The loops \<open>for (items, 0..) |entry, idx|\<close>.\<close>

definition check_all :: "(nat \<Rightarrow> 'e \<Rightarrow> 's \<Rightarrow> 's) \<Rightarrow> 'e list \<Rightarrow> 's \<Rightarrow> 's" where
  "check_all check entries s = fold (\<lambda>(i, e). check i e) (enumerate 0 entries) s"

definition at_index :: "string \<Rightarrow> nat \<Rightarrow> string" where
  "at_index name i = name @ ''['' @ dec_nat i @ '']''"

definition evidence_entry :: "nat \<Rightarrow> nat \<Rightarrow> json \<Rightarrow> validation_report \<Rightarrow> validation_report" where
  "evidence_entry a i entry r =
     (let place = at_index ''artifacts'' a @ at_index ''.evidence'' i in
      case entry of
        J_object fs \<Rightarrow>
          (case get_field fs ''kind'' of
             None \<Rightarrow> addError (place @ '' missing kind'') r
           | Some kind \<Rightarrow>
               let r = (if string_with (\<lambda>s. s \<noteq> []) kind then r
                        else addError (place @ ''.kind must be a non-empty string'') r) in
               (case get_field fs ''status'' of
                  None \<Rightarrow> addError (place @ '' missing status'') r
                | Some status \<Rightarrow>
                    let r = (if string_with isValidEvidenceStatus status then r
                             else addError (place @ ''.status must be pass, fail, or unknown'') r) in
                    r\<lparr>evidence_count := evidence_count r + 1\<rparr>))
      | _ \<Rightarrow> addError (place @ '' must be an object'') r)"

definition validateEvidence :: "json \<Rightarrow> nat \<Rightarrow> validation_report \<Rightarrow> validation_report" where
  "validateEvidence v a r =
     (case v of J_array items \<Rightarrow> check_all (evidence_entry a) items r
      | _ \<Rightarrow> addError (at_index ''artifacts'' a @ ''.evidence must be an array'') r)"

definition artifact_label :: "string list \<Rightarrow> nat \<Rightarrow> nat \<Rightarrow> json \<Rightarrow> validation_report \<Rightarrow> validation_report" where
  "artifact_label declared a i v r =
     (let place = at_index ''artifacts'' a @ at_index ''.labels'' i in
      case v of
        J_string name \<Rightarrow>
          if \<not> isValidLabelName name then addError (place @ '' has invalid label name: '' @ name) r
          else if name \<notin> set declared then
            addError (place @ '' references undeclared label: '' @ name) r
          else r
      | _ \<Rightarrow> addError (place @ '' must be a string'') r)"

definition validateArtifactLabels :: "json \<Rightarrow> nat \<Rightarrow> string list \<Rightarrow> validation_report \<Rightarrow> validation_report" where
  "validateArtifactLabels v a declared r =
     (case v of J_array items \<Rightarrow> check_all (artifact_label declared a) items r
      | _ \<Rightarrow> addError (at_index ''artifacts'' a @ ''.labels must be an array'') r)"

definition artifact_entry :: "string list \<Rightarrow> nat \<Rightarrow> json \<Rightarrow> validation_report \<Rightarrow> validation_report" where
  "artifact_entry declared i entry r =
     (let place = at_index ''artifacts'' i in
      case entry of
        J_object fs \<Rightarrow>
          (case get_field fs ''path'' of
             None \<Rightarrow> addError (place @ '' missing path'') r
           | Some path \<Rightarrow>
               let r = (if string_with isValidArtifactPath path then r
                        else addError (place @ ''.path must be a non-empty relative path without '' @
                          [CHR 0x27] @ ''..'' @ [CHR 0x27] @ '' segments'') r);
                   r = (case get_field fs ''labels'' of
                          Some labels \<Rightarrow> validateArtifactLabels labels i declared r
                        | None \<Rightarrow> addError (place @ '' missing labels'') r);
                   r = (case get_field fs ''evidence'' of
                          Some evidence \<Rightarrow> validateEvidence evidence i r
                        | None \<Rightarrow> r)
               in r\<lparr>artifact_count := artifact_count r + 1\<rparr>)
      | _ \<Rightarrow> addError (place @ '' must be an object'') r)"

definition validateArtifacts :: "json \<Rightarrow> string list \<Rightarrow> validation_report \<Rightarrow> validation_report" where
  "validateArtifacts v declared r =
     (case v of J_array items \<Rightarrow> check_all (artifact_entry declared) items r
      | _ \<Rightarrow> addError ''artifacts must be an array'' r)"

text \<open>The labels are checked with the names declared so far.\<close>

definition label_entry :: "nat \<Rightarrow> json \<Rightarrow> validation_report \<times> string list \<Rightarrow> validation_report \<times> string list" where
  "label_entry i entry s =
     (case s of (r, declared) \<Rightarrow>
      case entry of
        J_object fs \<Rightarrow>
          (case get_field fs ''name'' of
             None \<Rightarrow> (addError (at_index ''labels'' i @ '' missing name'') r, declared)
           | Some (J_string name) \<Rightarrow>
               if \<not> isValidLabelName name then
                 (addError (at_index ''labels'' i @ ''.name must match [A-Za-z0-9][A-Za-z0-9_.-]*'') r, declared)
               else
                 (case get_field fs ''description'' of
                    None \<Rightarrow> (addError (at_index ''labels'' i @ '' missing description'') r, declared)
                  | Some description \<Rightarrow>
                      let r = (if string_with (\<lambda>s. s \<noteq> []) description then r
                               else addError (at_index ''labels'' i @
                                 ''.description must be a non-empty string'') r) in
                      if name \<in> set declared then (addError (''duplicate label: '' @ name) r, declared)
                      else (r\<lparr>label_count := label_count r + 1\<rparr>, name # declared))
           | Some _ \<Rightarrow>
               (addError (at_index ''labels'' i @ ''.name must match [A-Za-z0-9][A-Za-z0-9_.-]*'') r, declared))
      | _ \<Rightarrow> (addError (at_index ''labels'' i @ '' must be an object'') r, declared))"

definition validateLabels :: "json \<Rightarrow> validation_report \<times> string list \<Rightarrow> validation_report \<times> string list" where
  "validateLabels v s =
     (case v of J_array items \<Rightarrow> check_all label_entry items s
      | _ \<Rightarrow> (addError ''labels must be an array'' (fst s), snd s))"

definition validateRoot :: "json \<Rightarrow> validation_report \<Rightarrow> validation_report" where
  "validateRoot v r =
     (case v of
        J_object fs \<Rightarrow>
          let r = (case get_field fs ''schema_version'' of
                     Some version \<Rightarrow> if version = J_integer 1 then r
                       else addError ''schema_version must be integer 1'' r
                   | None \<Rightarrow> addError ''missing required field: schema_version'' r);
              r = (case get_field fs ''project'' of
                     Some project \<Rightarrow> if string_with (\<lambda>s. s \<noteq> []) project then r
                       else addError ''project must be a non-empty string when present'' r
                   | None \<Rightarrow> r);
              (r, declared) = (case get_field fs ''labels'' of
                     Some labels \<Rightarrow> validateLabels labels (r, [])
                   | None \<Rightarrow> (addError ''missing required field: labels'' r, []))
          in (case get_field fs ''artifacts'' of
                Some artifacts \<Rightarrow> validateArtifacts artifacts declared r
              | None \<Rightarrow> addError ''missing required field: artifacts'' r)
      | _ \<Rightarrow> addError ''root must be an object'' r)"

definition validateManifestText :: "(string \<Rightarrow> string + json) \<Rightarrow> string \<Rightarrow> validation_report" where
  "validateManifestText parse_json text =
     (case parse_json text of
        Inl err \<Rightarrow> addError (''invalid JSON: '' @ err) report_init
      | Inr v \<Rightarrow> validateRoot v report_init)"

section \<open>The writers\<close>

definition escape_byte :: "char \<Rightarrow> string" where
  "escape_byte c =
     (if c = CHR 0x5C then [CHR 0x5C, CHR 0x5C]
      else if c = CHR 0x22 then [CHR 0x5C, CHR 0x22]
      else if c = CHR 0x0A then [CHR 0x5C, CHR ''n'']
      else if c = CHR 0x0D then [CHR 0x5C, CHR ''r'']
      else if c = CHR 0x09 then [CHR 0x5C, CHR ''t'']
      else [c])"

definition writeJsonString :: "string \<Rightarrow> string" where
  "writeJsonString s = [CHR 0x22] @ concat (map escape_byte s) @ [CHR 0x22]"

fun write_errors :: "string list \<Rightarrow> string" where
  "write_errors [] = []"
| "write_errors [m] = writeJsonString m"
| "write_errors (m # ms) = writeJsonString m @ '','' @ write_errors ms"

definition key :: "string \<Rightarrow> string" where
  "key name = [CHR 0x22] @ name @ [CHR 0x22, CHR '':'']"

definition writeReportJson :: "validation_report \<Rightarrow> string" where
  "writeReportJson r =
     ''{'' @ key ''status'' @ writeJsonString (if valid r then ''ok'' else ''error'') @
     '','' @ key ''valid'' @ (if valid r then ''true'' else ''false'') @
     '','' @ key ''labels'' @ dec_nat (label_count r) @
     '','' @ key ''artifacts'' @ dec_nat (artifact_count r) @
     '','' @ key ''evidence'' @ dec_nat (evidence_count r) @
     '','' @ key ''errors'' @ ''['' @ write_errors (errors r) @ '']}'' @ [CHR 0x0A]"

definition writeReportText :: "validation_report \<Rightarrow> string" where
  "writeReportText r =
     (if valid r then ''stability metadata manifest ok'' else ''stability metadata manifest invalid'') @ [CHR 0x0A] @
     ''labels: '' @ dec_nat (label_count r) @ [CHR 0x0A] @
     ''artifacts: '' @ dec_nat (artifact_count r) @ [CHR 0x0A] @
     ''evidence: '' @ dec_nat (evidence_count r) @ [CHR 0x0A] @
     concat (map (\<lambda>m. ''error: '' @ m @ [CHR 0x0A]) (errors r))"

section \<open>What a check promises\<close>

text \<open>Reports that are valid exactly when they list no error.\<close>

definition consistent :: "validation_report \<Rightarrow> bool" where
  "consistent r \<longleftrightarrow> (valid r \<longleftrightarrow> errors r = [])"

text \<open>From \<open>r\<close> to \<open>r'\<close> errors were only added, and validity says whether.\<close>

definition extends :: "validation_report \<Rightarrow> validation_report \<Rightarrow> bool" where
  "extends r r' \<longleftrightarrow> (\<exists>es. errors r' = errors r @ es \<and> (valid r' \<longleftrightarrow> valid r \<and> es = []))"

named_theorems report_simps

lemma addError_simps [report_simps, simp]:
  "\<not> valid (addError m r)" "errors (addError m r) = errors r @ [m]"
  "label_count (addError m r) = label_count r" "artifact_count (addError m r) = artifact_count r"
  "evidence_count (addError m r) = evidence_count r"
  by (simp_all add: addError_def)

lemma extends_refl [simp]: "extends r r"
  by (auto simp: extends_def)

lemma extends_trans: "extends r s \<Longrightarrow> extends s t \<Longrightarrow> extends r t"
  by (auto simp: extends_def)

lemma extends_addError [simp]: "extends r s \<Longrightarrow> extends r (addError m s)"
  by (auto simp: extends_def)

lemma extends_counts [simp]:
  "extends r (s\<lparr>label_count := n\<rparr>) = extends r s"
  "extends r (s\<lparr>artifact_count := n\<rparr>) = extends r s"
  "extends r (s\<lparr>evidence_count := n\<rparr>) = extends r s"
  by (auto simp: extends_def)

lemma extends_consistent: "extends r s \<Longrightarrow> consistent r \<Longrightarrow> consistent s"
  by (auto simp: extends_def consistent_def)

text \<open>
  The contract of the check of one entry: it only adds errors, adds one exactly when the entry is
  not \<open>ok\<close>, and counts an entry that is.
\<close>

locale entry_checker =
  fixes check :: "nat \<Rightarrow> 'e \<Rightarrow> validation_report \<Rightarrow> validation_report"
    and ok :: "'e \<Rightarrow> bool"
    and artifacts_in :: "'e \<Rightarrow> nat"
    and evidence_in :: "'e \<Rightarrow> nat"
  assumes check_extends: "extends r (check i e r)"
    and check_valid: "valid (check i e r) \<longleftrightarrow> valid r \<and> ok e"
    and check_labels: "label_count (check i e r) = label_count r"
    and check_artifacts: "ok e \<Longrightarrow> artifact_count (check i e r) = artifact_count r + artifacts_in e"
    and check_evidence: "ok e \<Longrightarrow> evidence_count (check i e r) = evidence_count r + evidence_in e"
begin

lemma fold_laws:
  "extends r (fold (\<lambda>(i, e). check i e) (enumerate k es) r) \<and>
   (valid (fold (\<lambda>(i, e). check i e) (enumerate k es) r) \<longleftrightarrow> valid r \<and> list_all ok es) \<and>
   label_count (fold (\<lambda>(i, e). check i e) (enumerate k es) r) = label_count r"
proof (induction es arbitrary: k r)
  case (Cons e es)
  from Cons [of "check k e r" "Suc k"] show ?case
    by (auto simp: check_valid check_labels intro: extends_trans [OF check_extends])
qed simp

lemma all_extends: "extends r s \<Longrightarrow> extends r (check_all check es s)"
  using fold_laws by (auto simp: check_all_def intro: extends_trans)

lemma all_valid: "valid (check_all check es r) \<longleftrightarrow> valid r \<and> list_all ok es"
  using fold_laws by (auto simp: check_all_def)

lemma all_labels: "label_count (check_all check es r) = label_count r"
  using fold_laws by (auto simp: check_all_def)

lemma fold_counts:
  "list_all ok es \<Longrightarrow>
   artifact_count (fold (\<lambda>(i, e). check i e) (enumerate k es) r) =
     artifact_count r + sum_list (map artifacts_in es) \<and>
   evidence_count (fold (\<lambda>(i, e). check i e) (enumerate k es) r) =
     evidence_count r + sum_list (map evidence_in es)"
  by (induction es arbitrary: k r) (auto simp: check_artifacts check_evidence)

lemma all_artifacts: "list_all ok es \<Longrightarrow>
    artifact_count (check_all check es r) = artifact_count r + sum_list (map artifacts_in es)"
  using fold_counts by (auto simp: check_all_def)

lemma all_evidence: "list_all ok es \<Longrightarrow>
    evidence_count (check_all check es r) = evidence_count r + sum_list (map evidence_in es)"
  using fold_counts by (auto simp: check_all_def)

end

section \<open>The manifests the validator admits\<close>

definition field_with :: "(json \<Rightarrow> bool) \<Rightarrow> string \<Rightarrow> (string \<times> json) list \<Rightarrow> bool" where
  "field_with P name fs \<longleftrightarrow> (case get_field fs name of Some v \<Rightarrow> P v | None \<Rightarrow> False)"

definition optional_with :: "(json \<Rightarrow> bool) \<Rightarrow> string \<Rightarrow> (string \<times> json) list \<Rightarrow> bool" where
  "optional_with P name fs \<longleftrightarrow> (case get_field fs name of Some v \<Rightarrow> P v | None \<Rightarrow> True)"

definition object_with :: "((string \<times> json) list \<Rightarrow> bool) \<Rightarrow> json \<Rightarrow> bool" where
  "object_with P v \<longleftrightarrow> (case v of J_object fs \<Rightarrow> P fs | _ \<Rightarrow> False)"

definition array_with :: "(json list \<Rightarrow> bool) \<Rightarrow> json \<Rightarrow> bool" where
  "array_with P v \<longleftrightarrow> (case v of J_array vs \<Rightarrow> P vs | _ \<Rightarrow> False)"

definition items_of :: "json option \<Rightarrow> json list" where
  "items_of vo = (case vo of Some (J_array vs) \<Rightarrow> vs | _ \<Rightarrow> [])"

definition fields_of :: "json \<Rightarrow> (string \<times> json) list" where
  "fields_of v = (case v of J_object fs \<Rightarrow> fs | _ \<Rightarrow> [])"

definition evidence_ok :: "json \<Rightarrow> bool" where
  "evidence_ok = object_with (\<lambda>fs.
     field_with nonempty_string ''kind'' fs \<and> field_with (string_with isValidEvidenceStatus) ''status'' fs)"

definition artifact_label_ok :: "string list \<Rightarrow> json \<Rightarrow> bool" where
  "artifact_label_ok names = string_with (\<lambda>s. isValidLabelName s \<and> s \<in> set names)"

definition evidence_of :: "json \<Rightarrow> json list" where
  "evidence_of artifact = items_of (get_field (fields_of artifact) ''evidence'')"

definition artifact_ok :: "string list \<Rightarrow> json \<Rightarrow> bool" where
  "artifact_ok names = object_with (\<lambda>fs.
     field_with (string_with isValidArtifactPath) ''path'' fs \<and>
     field_with (array_with (list_all (artifact_label_ok names))) ''labels'' fs \<and>
     optional_with (array_with (list_all evidence_ok)) ''evidence'' fs)"

definition label_ok :: "json \<Rightarrow> bool" where
  "label_ok = object_with (\<lambda>fs.
     field_with (string_with isValidLabelName) ''name'' fs \<and> field_with nonempty_string ''description'' fs)"

definition label_name :: "json \<Rightarrow> string" where
  "label_name v = (case get_field (fields_of v) ''name'' of Some (J_string s) \<Rightarrow> s | _ \<Rightarrow> [])"

definition labels_of :: "json \<Rightarrow> json list" where
  "labels_of manifest = items_of (get_field (fields_of manifest) ''labels'')"

definition artifacts_of :: "json \<Rightarrow> json list" where
  "artifacts_of manifest = items_of (get_field (fields_of manifest) ''artifacts'')"

definition admitted :: "json \<Rightarrow> bool" where
  "admitted manifest \<longleftrightarrow> object_with (\<lambda>fs.
     get_field fs ''schema_version'' = Some (J_integer 1) \<and>
     optional_with nonempty_string ''project'' fs \<and>
     field_with (array_with (\<lambda>ls. list_all label_ok ls \<and> distinct (map label_name ls))) ''labels'' fs \<and>
     field_with (array_with (list_all (artifact_ok (map label_name (labels_of manifest))))) ''artifacts'' fs) manifest"

text \<open>The checks meet the contract.\<close>

lemmas value_defs = field_with_def optional_with_def object_with_def array_with_def

interpretation evidence: entry_checker "evidence_entry a" evidence_ok "\<lambda>e. 0" "\<lambda>e. 1"
  by unfold_locales
    (auto simp: evidence_entry_def evidence_ok_def value_defs Let_def split: json.splits option.splits)

interpretation artifact_label: entry_checker "artifact_label names a" "artifact_label_ok names" "\<lambda>e. 0" "\<lambda>e. 0"
  by unfold_locales
    (auto simp: artifact_label_def artifact_label_ok_def string_with_def Let_def split: json.splits)

lemma validateEvidence_laws:
  "extends r s \<Longrightarrow> extends r (validateEvidence v a s)"
  "valid (validateEvidence v a r) \<longleftrightarrow> valid r \<and> array_with (list_all evidence_ok) v"
  "label_count (validateEvidence v a r) = label_count r"
  "array_with (list_all evidence_ok) v \<Longrightarrow> artifact_count (validateEvidence v a r) = artifact_count r"
  "array_with (list_all evidence_ok) v \<Longrightarrow>
     evidence_count (validateEvidence v a r) = evidence_count r + length (items_of (Some v))"
  by (auto simp: validateEvidence_def array_with_def items_of_def evidence.all_extends evidence.all_valid
      evidence.all_labels evidence.all_artifacts evidence.all_evidence sum_list_triv split: json.splits)

lemma validateArtifactLabels_laws:
  "extends r s \<Longrightarrow> extends r (validateArtifactLabels v a names s)"
  "valid (validateArtifactLabels v a names r) \<longleftrightarrow> valid r \<and> array_with (list_all (artifact_label_ok names)) v"
  "label_count (validateArtifactLabels v a names r) = label_count r"
  "array_with (list_all (artifact_label_ok names)) v \<Longrightarrow>
     artifact_count (validateArtifactLabels v a names r) = artifact_count r \<and>
     evidence_count (validateArtifactLabels v a names r) = evidence_count r"
  by (auto simp: validateArtifactLabels_def array_with_def artifact_label.all_extends artifact_label.all_valid
      artifact_label.all_labels artifact_label.all_artifacts artifact_label.all_evidence split: json.splits)

interpretation artifact: entry_checker "artifact_entry names" "artifact_ok names" "\<lambda>e. 1"
    "\<lambda>e. length (evidence_of e)"
  by unfold_locales
    (auto simp: artifact_entry_def artifact_ok_def value_defs evidence_of_def fields_of_def items_of_def [of None]
      validateEvidence_laws validateArtifactLabels_laws Let_def split: json.splits option.splits if_splits)

section \<open>Labels\<close>

definition fresh_label :: "string list \<Rightarrow> json \<Rightarrow> bool" where
  "fresh_label declared e \<longleftrightarrow> label_ok e \<and> label_name e \<notin> set declared"

lemma label_entry_laws:
  "extends r (fst (label_entry i e (r, names)))"
  "valid (fst (label_entry i e (r, names))) \<longleftrightarrow> valid r \<and> fresh_label names e"
  "artifact_count (fst (label_entry i e (r, names))) = artifact_count r"
  "evidence_count (fst (label_entry i e (r, names))) = evidence_count r"
  "fresh_label names e \<Longrightarrow> label_count (fst (label_entry i e (r, names))) = label_count r + 1 \<and>
     snd (label_entry i e (r, names)) = label_name e # names"
  by (auto simp: label_entry_def fresh_label_def label_ok_def value_defs label_name_def fields_of_def
      string_with_def [of isValidLabelName] Let_def split: json.splits option.splits)

definition fold_labels :: "nat \<Rightarrow> json list \<Rightarrow> validation_report \<times> string list \<Rightarrow> validation_report \<times> string list" where
  "fold_labels k es s = fold (\<lambda>(i, e). label_entry i e) (enumerate k es) s"

lemma fold_labels_simps [simp]:
  "fold_labels k [] s = s"
  "fold_labels k (e # es) s = fold_labels (Suc k) es (label_entry k e s)"
  by (simp_all add: fold_labels_def)

lemma fold_labels_extends:
  "extends r (fst (fold_labels k es (r, names))) \<and>
   artifact_count (fst (fold_labels k es (r, names))) = artifact_count r \<and>
   evidence_count (fst (fold_labels k es (r, names))) = evidence_count r"
proof (induction es arbitrary: k r names)
  case (Cons e es)
  obtain r' names' where e: "label_entry k e (r, names) = (r', names')" by force
  with label_entry_laws(1,3,4) [where r = r and i = k and e = e and names = names] Cons [of r' "Suc k" names'] show ?case
    by (auto intro: extends_trans)
qed simp

lemma fold_labels_valid:
  "valid (fst (fold_labels k es (r, names))) \<longleftrightarrow>
    valid r \<and> list_all label_ok es \<and> distinct (map label_name es) \<and>
    (\<forall>e \<in> set es. label_name e \<notin> set names)"
proof (induction es arbitrary: k r names)
  case (Cons e es)
  obtain r' names' where e: "label_entry k e (r, names) = (r', names')" by force
  show ?case
  proof (cases "fresh_label names e")
    case True
    with e label_entry_laws(2,5) [where r = r and i = k and e = e and names = names] have "valid r' = valid r" "names' = label_name e # names"
      by auto
    with True e Cons [of "Suc k" r' names'] show ?thesis
      by (auto simp: fresh_label_def image_iff)
  next
    case False
    with e label_entry_laws(2) [where r = r and i = k and e = e and names = names] have "\<not> valid r'" by auto
    then have "\<not> valid (fst (fold_labels (Suc k) es (r', names')))"
      using fold_labels_extends [of r' "Suc k" es names'] by (auto simp: extends_def)
    with False e show ?thesis by (auto simp: fresh_label_def)
  qed
qed simp

lemma fold_labels_counts:
  "list_all label_ok es \<Longrightarrow> distinct (map label_name es) \<Longrightarrow> \<forall>e \<in> set es. label_name e \<notin> set names \<Longrightarrow>
    label_count (fst (fold_labels k es (r, names))) = label_count r + length es \<and>
    snd (fold_labels k es (r, names)) = rev (map label_name es) @ names"
proof (induction es arbitrary: k r names)
  case (Cons e es)
  then have fresh: "fresh_label names e" by (simp add: fresh_label_def)
  obtain r' names' where e: "label_entry k e (r, names) = (r', names')" by force
  with fresh label_entry_laws(5) [where r = r and i = k and e = e and names = names]
  have r': "label_count r' = label_count r + 1" "names' = label_name e # names" by auto
  have "\<forall>e' \<in> set es. label_name e' \<notin> set names'"
    using Cons.prems(2,3) r'(2) by (auto simp: image_iff)
  with Cons.IH [of names' "Suc k" r'] Cons.prems e r' show ?case by simp
qed simp

definition labels_ok :: "json \<Rightarrow> bool" where
  "labels_ok = array_with (\<lambda>ls. list_all label_ok ls \<and> distinct (map label_name ls))"

lemma validateLabels_laws:
  "extends r (fst (validateLabels v (r, [])))"
  "valid (fst (validateLabels v (r, []))) \<longleftrightarrow> valid r \<and> labels_ok v"
  "artifact_count (fst (validateLabels v (r, []))) = artifact_count r"
  "evidence_count (fst (validateLabels v (r, []))) = evidence_count r"
  "labels_ok v \<Longrightarrow> label_count (fst (validateLabels v (r, []))) = label_count r + length (items_of (Some v)) \<and>
     snd (validateLabels v (r, [])) = rev (map label_name (items_of (Some v)))"
  using fold_labels_extends [of r 0 _ "[]"] fold_labels_valid [of 0 _ r "[]"]
    fold_labels_counts [of _ "[]" 0 r]
  by (auto simp: validateLabels_def labels_ok_def array_with_def items_of_def check_all_def
      fold_labels_def [symmetric] split: json.splits)

section \<open>Manifests\<close>

lemma artifact_ok_cong: "set names = set names' \<Longrightarrow> artifact_ok names = artifact_ok names'"
  by (simp add: artifact_ok_def artifact_label_ok_def)

lemma artifact_ok_rev [simp]: "artifact_ok (rev names) = artifact_ok names"
  by (rule artifact_ok_cong) simp

lemma validateArtifacts_laws:
  "extends r s \<Longrightarrow> extends r (validateArtifacts v names s)"
  "valid (validateArtifacts v names r) \<longleftrightarrow> valid r \<and> array_with (list_all (artifact_ok names)) v"
  "label_count (validateArtifacts v names r) = label_count r"
  "array_with (list_all (artifact_ok names)) v \<Longrightarrow>
     artifact_count (validateArtifacts v names r) = artifact_count r + length (items_of (Some v)) \<and>
     evidence_count (validateArtifacts v names r) =
       evidence_count r + sum_list (map (\<lambda>a. length (evidence_of a)) (items_of (Some v)))"
  by (auto simp: validateArtifacts_def array_with_def items_of_def artifact.all_extends artifact.all_valid
      artifact.all_labels artifact.all_artifacts artifact.all_evidence sum_list_triv split: json.splits)

lemma admitted_object: "admitted (J_object fs) \<longleftrightarrow>
    get_field fs ''schema_version'' = Some (J_integer 1) \<and>
    optional_with nonempty_string ''project'' fs \<and>
    field_with labels_ok ''labels'' fs \<and>
    field_with (array_with (list_all (artifact_ok (map label_name (items_of (get_field fs ''labels''))))))
      ''artifacts'' fs"
  by (simp add: admitted_def object_with_def labels_ok_def labels_of_def fields_of_def)

lemma validateRoot_laws:
  "extends r (validateRoot v r)"
  "valid (validateRoot v r) \<longleftrightarrow> valid r \<and> admitted v"
  "admitted v \<Longrightarrow> label_count (validateRoot v r) = label_count r + length (labels_of v) \<and>
     artifact_count (validateRoot v r) = artifact_count r + length (artifacts_of v) \<and>
     evidence_count (validateRoot v r) = evidence_count r +
       sum_list (map (\<lambda>a. length (evidence_of a)) (artifacts_of v))"
proof -
  show "extends r (validateRoot v r)"
    by (auto simp: validateRoot_def Let_def case_prod_beta split: json.split option.split
        intro!: validateArtifacts_laws(1) extends_addError extends_trans [OF _ validateLabels_laws(1)])
  show "valid (validateRoot v r) \<longleftrightarrow> valid r \<and> admitted v"
  proof (cases v)
    case (J_object fs)
    show ?thesis
    proof (cases "field_with labels_ok ''labels'' fs")
      case True
      then obtain ls where ls: "get_field fs ''labels'' = Some ls" "labels_ok ls"
        by (auto simp: field_with_def split: option.splits)
      then show ?thesis unfolding J_object admitted_object
        by (simp add: validateRoot_def Let_def case_prod_beta field_with_def optional_with_def
            validateArtifacts_laws(2) validateLabels_laws split: option.split)
    next
      case False
      then show ?thesis unfolding J_object admitted_object
        by (auto simp: validateRoot_def Let_def case_prod_beta field_with_def
            validateArtifacts_laws(2) validateLabels_laws(2) split: option.splits)
    qed
  qed (simp_all add: validateRoot_def admitted_def object_with_def)
  show "label_count (validateRoot v r) = label_count r + length (labels_of v) \<and>
     artifact_count (validateRoot v r) = artifact_count r + length (artifacts_of v) \<and>
     evidence_count (validateRoot v r) = evidence_count r +
       sum_list (map (\<lambda>a. length (evidence_of a)) (artifacts_of v))" if "admitted v"
  proof (cases v)
    case (J_object fs)
    with that obtain ls as where "get_field fs ''labels'' = Some ls" "labels_ok ls"
      "get_field fs ''artifacts'' = Some as"
      "array_with (list_all (artifact_ok (map label_name (items_of (Some ls))))) as"
      "get_field fs ''schema_version'' = Some (J_integer 1)" "optional_with nonempty_string ''project'' fs"
      unfolding admitted_object J_object by (auto simp: field_with_def split: option.splits)
    then show ?thesis
      by (simp add: J_object validateRoot_def Let_def case_prod_beta optional_with_def labels_of_def
          artifacts_of_def fields_of_def validateArtifacts_laws(3,4) validateLabels_laws(3-5)
          split: option.splits)
  qed (use that in \<open>simp_all add: admitted_def object_with_def\<close>)
qed

section \<open>The schema\<close>

text \<open>
  The constructs of JSON Schema that \<open>schema_json\<close> uses.  A pattern is one character of a class and any number of
  another, a class a list of ranges; the objects of \<open>schema_json\<close> all have \<open>additionalProperties: false\<close>.
\<close>

type_synonym char_class = "(char \<times> char) list"

datatype schema =
  Sch_const int
| Sch_string nat                                        \<comment> \<open>\<open>minLength\<close>\<close>
| Sch_pattern char_class char_class
| Sch_enum "string list"
| Sch_array schema bool                                 \<comment> \<open>\<open>items\<close>, \<open>uniqueItems\<close>\<close>
| Sch_object "string list" "(string \<times> schema) list"    \<comment> \<open>\<open>required\<close>, \<open>properties\<close>\<close>

definition in_class :: "char_class \<Rightarrow> char \<Rightarrow> bool" where
  "in_class cls c = list_ex (\<lambda>(a, b). byte_val a \<le> byte_val c \<and> byte_val c \<le> byte_val b) cls"

fun matches_pattern :: "char_class \<Rightarrow> char_class \<Rightarrow> string \<Rightarrow> bool" where
  "matches_pattern cls rest [] = False"
| "matches_pattern cls rest (c # cs) = (in_class cls c \<and> list_all (in_class rest) cs)"

text \<open>The values that JSON Schema takes for equal: numbers by the rational number that their text denotes, which
  \<open>num\<close> gives for those that are no \<open>i64\<close>, and objects whatever the order of their fields is.\<close>

definition number_of :: "(string \<Rightarrow> rat) \<Rightarrow> json \<Rightarrow> rat option" where
  "number_of num v = (case v of J_integer i \<Rightarrow> Some (of_int i) | J_float s \<Rightarrow> Some (num s)
     | J_number_string s \<Rightarrow> Some (num s) | _ \<Rightarrow> None)"

fun same_json :: "(string \<Rightarrow> rat) \<Rightarrow> json \<Rightarrow> json \<Rightarrow> bool" where
  "same_json num (J_array vs) w \<longleftrightarrow> (case w of J_array ws \<Rightarrow> list_all2 (same_json num) vs ws | _ \<Rightarrow> False)"
| "same_json num (J_object fs) w \<longleftrightarrow> (case w of
     J_object gs \<Rightarrow> fst ` set fs = fst ` set gs \<and>
       (\<forall>(k, v) \<in> set fs. case get_field gs k of Some u \<Rightarrow> same_json num v u | None \<Rightarrow> False)
   | _ \<Rightarrow> False)"
| "same_json num v w \<longleftrightarrow> v = w \<or> number_of num v \<noteq> None \<and> number_of num v = number_of num w"

fun unique_items :: "(string \<Rightarrow> rat) \<Rightarrow> json list \<Rightarrow> bool" where
  "unique_items num [] = True"
| "unique_items num (v # vs) = (list_all (\<lambda>w. \<not> same_json num v w) vs \<and> unique_items num vs)"

fun satisfies :: "(string \<Rightarrow> rat) \<Rightarrow> schema \<Rightarrow> json \<Rightarrow> bool" where
  "satisfies num (Sch_const n) v \<longleftrightarrow> number_of num v = Some (of_int n)"
| "satisfies num (Sch_string m) v \<longleftrightarrow> string_with (\<lambda>s. m \<le> length s) v"
| "satisfies num (Sch_pattern cls rest) v \<longleftrightarrow> string_with (matches_pattern cls rest) v"
| "satisfies num (Sch_enum ss) v \<longleftrightarrow> string_with (\<lambda>s. s \<in> set ss) v"
| "satisfies num (Sch_array item unique) v \<longleftrightarrow>
     array_with (\<lambda>vs. list_all (satisfies num item) vs \<and> (unique \<longrightarrow> unique_items num vs)) v"
| "satisfies num (Sch_object required props) v \<longleftrightarrow>
     object_with (\<lambda>fs. (\<forall>k \<in> set required. get_field fs k \<noteq> None) \<and>
       (\<forall>(k, sch) \<in> set props. optional_with (satisfies num sch) k fs) \<and> fst ` set fs \<subseteq> fst ` set props) v"

definition alnum_class :: char_class where
  "alnum_class = [(CHR ''A'', CHR ''Z''), (CHR ''a'', CHR ''z''), (CHR ''0'', CHR ''9'')]"

definition label_schema :: schema where
  "label_schema = Sch_object [''name'', ''description'']
     [(''name'', Sch_pattern alnum_class
         (alnum_class @ [(CHR ''_'', CHR ''_''), (CHR ''.'', CHR ''.''), (CHR ''-'', CHR ''-'')])),
      (''description'', Sch_string 1)]"

definition evidence_schema :: schema where
  "evidence_schema = Sch_object [''kind'', ''status'']
     [(''kind'', Sch_string 1), (''status'', Sch_enum [''pass'', ''fail'', ''unknown'']),
      (''command'', Sch_string 0), (''note'', Sch_string 0)]"

definition artifact_schema :: schema where
  "artifact_schema = Sch_object [''path'', ''labels'']
     [(''path'', Sch_string 1), (''labels'', Sch_array (Sch_string 0) False),
      (''evidence'', Sch_array evidence_schema False)]"

definition manifest_schema :: schema where
  "manifest_schema = Sch_object [''schema_version'', ''labels'', ''artifacts'']
     [(''schema_version'', Sch_const 1), (''project'', Sch_string 1), (''labels'', Sch_array label_schema True),
      (''artifacts'', Sch_array artifact_schema False)]"

text \<open>What the validator asks for beyond the schema: the version written as an integer, labels with different
  names, relative paths that do not climb, and declared labels.\<close>

definition artifact_rules :: "string list \<Rightarrow> json \<Rightarrow> bool" where
  "artifact_rules names a \<longleftrightarrow>
     field_with (string_with isValidArtifactPath) ''path'' (fields_of a) \<and>
     list_all (string_with (\<lambda>s. s \<in> set names)) (items_of (get_field (fields_of a) ''labels''))"

definition extra_rules :: "json \<Rightarrow> bool" where
  "extra_rules v \<longleftrightarrow> get_field (fields_of v) ''schema_version'' = Some (J_integer 1) \<and>
     distinct (map label_name (labels_of v)) \<and>
     list_all (artifact_rules (map label_name (labels_of v))) (artifacts_of v)"

text \<open>What the schema asks for and the validator does not look at: no other fields, and the types of \<open>command\<close>
  and \<open>note\<close>.\<close>

definition only_fields :: "string list \<Rightarrow> json \<Rightarrow> bool" where
  "only_fields ks v \<longleftrightarrow> fst ` set (fields_of v) \<subseteq> set ks"

definition closed_evidence :: "json \<Rightarrow> bool" where
  "closed_evidence e \<longleftrightarrow> only_fields [''kind'', ''status'', ''command'', ''note''] e \<and>
     optional_with (string_with (\<lambda>_. True)) ''command'' (fields_of e) \<and>
     optional_with (string_with (\<lambda>_. True)) ''note'' (fields_of e)"

definition closed_artifact :: "json \<Rightarrow> bool" where
  "closed_artifact a \<longleftrightarrow> only_fields [''path'', ''labels'', ''evidence''] a \<and> list_all closed_evidence (evidence_of a)"

definition closed_manifest :: "json \<Rightarrow> bool" where
  "closed_manifest v \<longleftrightarrow> only_fields [''schema_version'', ''project'', ''labels'', ''artifacts''] v \<and>
     list_all (only_fields [''name'', ''description'']) (labels_of v) \<and> list_all closed_artifact (artifacts_of v)"

lemma string_with_any: "string_with P v \<longleftrightarrow> (\<exists>s. v = J_string s \<and> P s)"
  by (cases v) (auto simp: string_with_def)

lemma alnum_class: "in_class alnum_class c \<longleftrightarrow> is_alphanumeric c"
  by (auto simp: in_class_def alnum_class_def byte_class)

lemma label_class:
  "in_class (alnum_class @ [(CHR ''_'', CHR ''_''), (CHR ''.'', CHR ''.''), (CHR ''-'', CHR ''-'')]) c \<longleftrightarrow> isLabelChar c"
proof -
  have "byte_val a \<le> byte_val c \<and> byte_val c \<le> byte_val a \<longleftrightarrow> c = a" for a :: char
  proof -
    have "byte_val a \<le> byte_val c \<and> byte_val c \<le> byte_val a \<longleftrightarrow> byte_val c = byte_val a" by auto
    then show ?thesis by simp
  qed
  then have "in_class [(CHR ''_'', CHR ''_''), (CHR ''.'', CHR ''.''), (CHR ''-'', CHR ''-'')] c \<longleftrightarrow>
      c = CHR ''_'' \<or> c = CHR ''.'' \<or> c = CHR ''-''"
    by (simp only: in_class_def list_ex_iff list.set bex_simps case_prod_conv simp_thms)
  moreover have "in_class (alnum_class @ cls) c \<longleftrightarrow> is_alphanumeric c \<or> in_class cls c" for cls
    using alnum_class [of c] by (simp add: in_class_def)
  ultimately show ?thesis unfolding isLabelChar_def by blast
qed

lemma label_pattern: "matches_pattern alnum_class
    (alnum_class @ [(CHR ''_'', CHR ''_''), (CHR ''.'', CHR ''.''), (CHR ''-'', CHR ''-'')]) s \<longleftrightarrow> isValidLabelName s"
  by (cases s) (simp_all add: alnum_class label_class isLabelStart_def list_all_iff)

lemma evidence_status: "isValidEvidenceStatus = (\<lambda>s. s = ''pass'' \<or> s = ''fail'' \<or> s = ''unknown'')"
  by (simp add: fun_eq_iff isValidEvidenceStatus_def)

lemma nonempty_iff: "(\<lambda>s. Suc 0 \<le> length s) = (\<lambda>s. s \<noteq> [])"
  by (simp add: fun_eq_iff Suc_le_eq)

lemmas schema_simps = value_defs fields_of_def only_fields_def nonempty_iff

lemma evidence_schema_iff: "satisfies num evidence_schema e \<longleftrightarrow> evidence_ok e \<and> closed_evidence e"
proof (cases e)
  case (J_object fs)
  then show ?thesis
    by (cases "get_field fs ''kind''"; cases "get_field fs ''status''"; cases "get_field fs ''command''";
        cases "get_field fs ''note''")
      (auto simp: evidence_schema_def evidence_ok_def closed_evidence_def evidence_status schema_simps)
qed (simp_all add: evidence_schema_def evidence_ok_def object_with_def)

lemma label_schema_iff: "satisfies num label_schema l \<longleftrightarrow> label_ok l \<and> only_fields [''name'', ''description''] l"
proof (cases l)
  case (J_object fs)
  have "matches_pattern alnum_class
    (alnum_class @ [(CHR ''_'', CHR ''_''), (CHR ''.'', CHR ''.''), (CHR ''-'', CHR ''-'')]) = isValidLabelName"
    by (simp add: fun_eq_iff label_pattern)
  with J_object show ?thesis
    by (cases "get_field fs ''name''"; cases "get_field fs ''description''")
      (auto simp: label_schema_def label_ok_def schema_simps)
qed (simp_all add: label_schema_def label_ok_def object_with_def)

lemma same_label:
  assumes "same_json num v w" "label_ok v" "label_ok w"
  shows "label_name v = label_name w"
proof -
  from assms(2,3) obtain fs gs s where v: "v = J_object fs" "w = J_object gs" "get_field fs ''name'' = Some (J_string s)"
    by (auto simp: label_ok_def value_defs string_with_any split: json.splits option.splits)
  from v(3) have "(''name'', J_string s) \<in> set fs" by (rule map_of_SomeD)
  with assms(1) v have "get_field gs ''name'' = Some (J_string s)"
    by (auto simp: number_of_def split: option.splits)
  with v show ?thesis by (simp add: label_name_def fields_of_def)
qed

lemma distinct_labels: "list_all label_ok vs \<Longrightarrow> distinct (map label_name vs) \<Longrightarrow> unique_items num vs"
  by (induction vs) (auto simp: list_all_iff dest: same_label)

lemma artifact_schema_iff:
  assumes "\<forall>s \<in> set names. isValidLabelName s"
  shows "satisfies num artifact_schema a \<and> artifact_rules names a \<longleftrightarrow> artifact_ok names a \<and> closed_artifact a"
proof (cases a)
  case (J_object fs)
  have labels: "array_with (list_all (artifact_label_ok names)) v \<longleftrightarrow>
      array_with (list_all (string_with (\<lambda>_. True))) v \<and> list_all (string_with (\<lambda>s. s \<in> set names)) (items_of (Some v))" for v
    using assms by (cases v) (auto simp: array_with_def items_of_def artifact_label_ok_def list_all_iff string_with_any)
  have evidence: "array_with (list_all (satisfies num evidence_schema)) v \<longleftrightarrow>
      array_with (list_all evidence_ok) v \<and> list_all closed_evidence (items_of (Some v))" for v
    by (cases v) (auto simp: array_with_def items_of_def list_all_iff evidence_schema_iff)
  have any: "satisfies num (Sch_string 0) = string_with (\<lambda>_. True)" by (simp add: fun_eq_iff)
  have path: "string_with isValidArtifactPath v \<Longrightarrow> nonempty_string v" for v
    by (auto simp: string_with_any isValidArtifactPath_def)
  show ?thesis
    by (cases "get_field fs ''path''"; cases "get_field fs ''labels''"; cases "get_field fs ''evidence''")
      (auto simp: J_object artifact_schema_def artifact_ok_def closed_artifact_def artifact_rules_def evidence_of_def
        object_with_def field_with_def optional_with_def fields_of_def only_fields_def nonempty_iff any labels evidence
        items_of_def [of None] dest: path)
qed (simp_all add: artifact_schema_def artifact_ok_def object_with_def)

lemma manifest_schema_iff:
  "satisfies num manifest_schema v \<and> extra_rules v \<longleftrightarrow> admitted v \<and> closed_manifest v"
proof (cases v)
  case (J_object fs)
  define names where "names = map label_name (labels_of v)"
  have labels: "array_with (\<lambda>vs. list_all (satisfies num label_schema) vs \<and> unique_items num vs) l \<and>
      distinct (map label_name (items_of (Some l))) \<longleftrightarrow>
      labels_ok l \<and> list_all (only_fields [''name'', ''description'']) (items_of (Some l))" for l
    by (cases l) (auto simp: array_with_def labels_ok_def items_of_def list_all_iff label_schema_iff
        intro: distinct_labels [unfolded list_all_iff])
  have artifacts: "array_with (list_all (satisfies num artifact_schema)) as \<and> list_all (artifact_rules names) (items_of (Some as)) \<longleftrightarrow>
      array_with (list_all (artifact_ok names)) as \<and> list_all closed_artifact (items_of (Some as))"
    if "\<forall>s \<in> set names. isValidLabelName s" for as
    using artifact_schema_iff [OF that, of num]
    by (cases as) (simp_all add: array_with_def items_of_def list_all_iff, blast)
  have valid_names: "\<forall>s \<in> set (map label_name ls). isValidLabelName s" if "list_all label_ok ls" for ls
  proof -
    have "label_ok l \<Longrightarrow> isValidLabelName (label_name l)" for l
      by (cases l) (auto simp: label_ok_def label_name_def value_defs fields_of_def string_with_any split: option.splits)
    with that show ?thesis by (auto simp: list_all_iff)
  qed
  show ?thesis
  proof (cases "get_field fs ''labels'' = None \<or> get_field fs ''artifacts'' = None")
    case True
    then show ?thesis
      by (auto simp: J_object manifest_schema_def object_with_def admitted_object field_with_def)
  next
    case False
    then obtain l as where f: "get_field fs ''labels'' = Some l" "get_field fs ''artifacts'' = Some as" by auto
    define first where "first \<longleftrightarrow> get_field fs ''schema_version'' = Some (J_integer 1) \<and>
      optional_with nonempty_string ''project'' fs \<and> fst ` set fs \<subseteq> {''schema_version'', ''project'', ''labels'', ''artifacts''}"
    have names: "names = map label_name (items_of (Some l))"
      by (simp add: names_def J_object labels_of_def fields_of_def f)
    have one: "satisfies num (Sch_string (Suc 0)) = nonempty_string" by (simp add: fun_eq_iff nonempty_iff)
    have "satisfies num manifest_schema v \<and> extra_rules v \<longleftrightarrow> first \<and>
        (array_with (\<lambda>vs. list_all (satisfies num label_schema) vs \<and> unique_items num vs) l \<and>
          distinct (map label_name (items_of (Some l)))) \<and>
        array_with (list_all (satisfies num artifact_schema)) as \<and> list_all (artifact_rules names) (items_of (Some as))"
      unfolding manifest_schema_def extra_rules_def names_def [symmetric] satisfies.simps J_object object_with_def
      by (cases "get_field fs ''project''") (auto simp: one first_def optional_with_def fields_of_def labels_of_def artifacts_of_def names f number_of_def
          J_object)
    also have "\<dots> \<longleftrightarrow> first \<and> (labels_ok l \<and> list_all (only_fields [''name'', ''description'']) (items_of (Some l))) \<and>
        array_with (list_all (artifact_ok names)) as \<and> list_all closed_artifact (items_of (Some as))"
    proof (cases "labels_ok l")
      case True
      then have "\<forall>s \<in> set names. isValidLabelName s"
        unfolding names by (intro valid_names) (auto simp: labels_ok_def array_with_def items_of_def split: json.splits)
      from artifacts [OF this] labels show ?thesis by blast
    qed (use labels in blast)
    also have "\<dots> \<longleftrightarrow> admitted v \<and> closed_manifest v"
      by (auto simp: J_object admitted_object closed_manifest_def first_def field_with_def f only_fields_def fields_of_def
          labels_of_def artifacts_of_def names)
    finally show ?thesis .
  qed
qed (simp_all add: manifest_schema_def admitted_def object_with_def)

text \<open>C35: the validator against the schema.  A report is valid if and only if it lists no error, and if and only if the
  validator's rules admit the manifest (\<open>admitted\<close>); on such a manifest it counts every label, artifact and evidence
  entry.  Those rules are \<open>schema_json\<close> with the extra rules of the validator (the version is written as an integer,
  labels have different names, paths are relative and do not climb, labels are declared) on the manifests that have no
  field the schema does not name and only strings as \<open>command\<close> and \<open>note\<close>; these two the schema asks for and the
  validator does not look at.\<close>

theorem manifest_valid_iff:
  "(valid (validateRoot v report_init) \<longleftrightarrow> admitted v) \<and>
   (errors (validateRoot v report_init) = [] \<longleftrightarrow> admitted v) \<and>
   (admitted v \<longrightarrow>
     label_count (validateRoot v report_init) = length (labels_of v) \<and>
     artifact_count (validateRoot v report_init) = length (artifacts_of v) \<and>
     evidence_count (validateRoot v report_init) = sum_list (map (\<lambda>a. length (evidence_of a)) (artifacts_of v))) \<and>
   (valid (validateRoot v report_init) \<and> closed_manifest v \<longleftrightarrow> satisfies num manifest_schema v \<and> extra_rules v)"
proof -
  have "valid (validateRoot v report_init) \<longleftrightarrow> errors (validateRoot v report_init) = []"
    using validateRoot_laws(1) [of report_init v] by (auto simp: extends_def report_init_def)
  then show ?thesis
    using validateRoot_laws(2,3) [of v report_init] manifest_schema_iff [of num v] by (auto simp: report_init_def)
qed

text \<open>The manifest of \<open>example_manifest_json\<close>, its label descriptions shortened.\<close>

definition example_label :: "string \<Rightarrow> json" where
  "example_label name = J_object [(''name'', J_string name), (''description'', J_string ''d'')]"

definition example_manifest :: json where
  "example_manifest = J_object
    [(''schema_version'', J_integer 1), (''project'', J_string ''downstream-project''),
     (''labels'', J_array (map example_label [''stable-demo'', ''verified-sa-backend'', ''verified-sab-backend'',
        ''experimental-parallel'', ''shape-only-reflect''])),
     (''artifacts'', J_array [J_object
       [(''path'', J_string ''lib/parallel.sla''),
        (''labels'', J_array [J_string ''verified-sab-backend'', J_string ''experimental-parallel'']),
        (''evidence'', J_array [J_object [(''kind'', J_string ''command''), (''status'', J_string ''pass''),
          (''command'', J_string ''sa sla test'')]])]])]"

lemma example_admitted: "admitted example_manifest"
  by code_simp

lemma example_closed: "closed_manifest example_manifest"
  by code_simp

theorem manifest_valid_iff_witness:
  "satisfies (\<lambda>_. 0) manifest_schema example_manifest \<and>
   valid (validateRoot example_manifest report_init) \<and>
   label_count (validateRoot example_manifest report_init) = 5 \<and>
   artifact_count (validateRoot example_manifest report_init) = 1 \<and>
   evidence_count (validateRoot example_manifest report_init) = 1"
proof -
  have "length (labels_of example_manifest) = 5" "length (artifacts_of example_manifest) = 1"
    "sum_list (map (\<lambda>a. length (evidence_of a)) (artifacts_of example_manifest)) = 1"
    by (simp_all add: example_manifest_def labels_of_def artifacts_of_def evidence_of_def fields_of_def items_of_def)
  with manifest_valid_iff [of example_manifest "\<lambda>_. 0"] example_admitted example_closed show ?thesis by argo
qed

text \<open>A manifest that the validator accepts and the schema does not: the \<open>note\<close> of its evidence is no string.\<close>

lemma schema_gap:
  fixes n :: json
  assumes "\<nexists>s. n = J_string s"
  defines "manifest \<equiv> J_object [(''schema_version'', J_integer 1), (''labels'', J_array []), (''artifacts'', J_array [J_object
    [(''path'', J_string ''a''), (''labels'', J_array []), (''evidence'', J_array [J_object
       [(''kind'', J_string ''k''), (''status'', J_string ''pass''), (''note'', n)]])]])]"
  shows "admitted manifest \<and> \<not> satisfies num manifest_schema manifest"
proof
  show "admitted manifest"
    by (simp add: manifest_def admitted_object field_with_def optional_with_def labels_ok_def array_with_def artifact_ok_def
        object_with_def evidence_ok_def string_with_def isValidArtifactPath_def isAbsolute_def 
        isValidEvidenceStatus_def)
  have "\<not> closed_manifest manifest"
    using assms(1) by (simp add: manifest_def closed_manifest_def closed_artifact_def closed_evidence_def artifacts_of_def
        evidence_of_def fields_of_def items_of_def optional_with_def string_with_any)
  moreover have "extra_rules manifest"
    by (simp add: manifest_def extra_rules_def artifacts_of_def labels_of_def fields_of_def items_of_def artifact_rules_def
        field_with_def string_with_def isValidArtifactPath_def isAbsolute_def )
  ultimately show "\<not> satisfies num manifest_schema manifest" using manifest_schema_iff by blast
qed

text \<open>
  Fields the checks do not know are not looked at, where \<open>schema_json\<close> forbids additional properties.
\<close>

lemma extra_field_accepted:
  "k \<notin> {''schema_version'', ''project'', ''labels'', ''artifacts''} \<Longrightarrow>
   validateRoot (J_object ((k, v) # fs)) r = validateRoot (J_object fs) r"
proof -
  assume "k \<notin> {''schema_version'', ''project'', ''labels'', ''artifacts''}"
  then have "''schema_version'' \<noteq> k" "''project'' \<noteq> k" "''labels'' \<noteq> k" "''artifacts'' \<noteq> k"
    by auto
  then show ?thesis by (simp add: validateRoot_def)
qed

section \<open>Written strings\<close>

text \<open>
  A reader of JSON strings behind the opening quote, without \<open>\u\<close> escapes: it returns the bytes and
  the rest; control bytes below 32 have to be escaped.
\<close>

definition unescape :: "char \<Rightarrow> char option" where
  "unescape c =
     (if c = CHR 0x22 \<or> c = CHR 0x5C \<or> c = CHR 0x2F then Some c
      else if c = CHR ''n'' then Some (CHR 0x0A)
      else if c = CHR ''r'' then Some (CHR 0x0D)
      else if c = CHR ''t'' then Some (CHR 0x09)
      else if c = CHR ''b'' then Some (CHR 0x08)
      else if c = CHR ''f'' then Some (CHR 0x0C)
      else None)"

fun read_body :: "string \<Rightarrow> (string \<times> string) option" where
  "read_body [] = None"
| "read_body (c # cs) =
     (if c = CHR 0x22 then Some ([], cs)
      else if c = CHR 0x5C then
        (case cs of [] \<Rightarrow> None
         | e # ds \<Rightarrow> (case unescape e of None \<Rightarrow> None
             | Some b \<Rightarrow> map_option (\<lambda>(s, rest). (b # s, rest)) (read_body ds)))
      else if byte_val c < 32 then None
      else map_option (\<lambda>(s, rest). (c # s, rest)) (read_body cs))"

fun read_string :: "string \<Rightarrow> (string \<times> string) option" where
  "read_string [] = None"
| "read_string (c # cs) = (if c = CHR 0x22 then read_body cs else None)"

text \<open>The bytes that the writer copies although JSON forbids them.\<close>

definition raw_control :: "char \<Rightarrow> bool" where
  "raw_control c \<longleftrightarrow> byte_val c < 32 \<and> c \<notin> {CHR 0x09, CHR 0x0A, CHR 0x0D}"

lemma read_escaped: "read_body (escape_byte c @ cs) =
    (if raw_control c then None else map_option (\<lambda>(s, rest). (c # s, rest)) (read_body cs))"
  by (auto simp: escape_byte_def raw_control_def unescape_def)

lemma read_written: "read_body (concat (map escape_byte s) @ CHR 0x22 # rest) =
    (if list_ex raw_control s then None else Some (s, rest))"
  by (induction s) (simp_all add: read_escaped)

text \<open>C36: what \<open>writeJsonString\<close> writes is read back, with whatever follows it, exactly when no byte of
  the string is a control character other than tab, newline and carriage return; on the others,
  which the report's messages can contain, the output is no JSON string.\<close>

theorem writeJsonString_roundtrip:
  "read_string (writeJsonString s @ rest) = (if list_ex raw_control s then None else Some (s, rest))"
  by (simp add: writeJsonString_def read_written)

text \<open>A label of an artifact is copied into its error message.\<close>

lemma control_in_report:
  "errors (validateRoot (J_object [(''schema_version'', J_integer 1), (''labels'', J_array []),
     (''artifacts'', J_array [J_object [(''path'', J_string ''a''), (''labels'', J_array [J_string [CHR 0x01]])]])])
     report_init) = [''artifacts[0].labels[0] has invalid label name: '' @ [CHR 0x01]]"
  by code_simp

end
