(* ===== verification/Sla_Layout.thy ===== *)
theory Sla_Layout
  imports Sla_Prelude Sla_Ast "HOL-Library.Word"
begin

text \<open>
  The layout rules of \<open>src/lowering_rules.zig\<close> that both emitters follow: the ABI size of a type, and
  where the elements of a tuple, the fields of a struct and the payload fields of an enum variant
  lie.  \<open>usize\<close> arithmetic is checked: an overflow is an error value.  The lemmas show that the
  fields of an aggregate lie in it one after another without overlap, and which are aligned.
\<close>

section \<open>Checked usize arithmetic\<close>

datatype overflow = Usize_overflow

type_synonym 'a usize_r = "overflow + 'a"

definition bind_u :: "'a usize_r \<Rightarrow> ('a \<Rightarrow> 'b usize_r) \<Rightarrow> 'b usize_r" where
  "bind_u m f = (case m of Inl e \<Rightarrow> Inl e | Inr x \<Rightarrow> f x)"

definition in_usize :: "nat \<Rightarrow> nat usize_r" where
  "in_usize n = (if n < 2 ^ 64 then Inr n else Inl Usize_overflow)"

lemma bind_u_Inr [simp]: "bind_u (Inr x) f = f x" "bind_u (Inl e) f = Inl e"
  by (simp_all add: bind_u_def)

lemma bind_u_eq_Inr [simp]: "bind_u m f = Inr y \<longleftrightarrow> (\<exists>x. m = Inr x \<and> f x = Inr y)"
  by (cases m) simp_all

lemma in_usize_eq_Inr [simp]: "in_usize n = Inr m \<longleftrightarrow> m = n \<and> n < 2 ^ 64"
  by (auto simp: in_usize_def)

section \<open>Sizes\<close>

text \<open>\<open>(offset + 7) & ~7\<close>: the last three bits are cleared.\<close>

definition alignAggregateOffset :: "nat \<Rightarrow> nat \<Rightarrow> nat usize_r" where
  "alignAggregateOffset offset sz =
     (if sz = 8 then bind_u (in_usize (offset + 7)) (\<lambda>n. Inr (n - n mod 8)) else Inr offset)"

fun primitive_size :: "primitive \<Rightarrow> nat" where
  "primitive_size p =
     (if p \<in> {P_boolean, P_u8, P_i8} then 1
      else if p \<in> {P_u16, P_i16} then 2
      else if p \<in> {P_u32, P_i32, P_f32} then 4
      else 8)"

text \<open>The step of every loop over fields: align, then add the size.\<close>

definition place :: "nat \<Rightarrow> nat \<Rightarrow> nat \<Rightarrow> (nat \<times> nat) usize_r" where
  "place offset align sz =
     bind_u (alignAggregateOffset offset align) (\<lambda>at. bind_u (in_usize (at + sz)) (\<lambda>next. Inr (at, next)))"

fun total_size :: "(nat \<times> nat) usize_r list \<Rightarrow> nat \<Rightarrow> nat usize_r" where
  "total_size [] offset = Inr offset"
| "total_size (m # ms) offset =
     bind_u m (\<lambda>(align, sz). bind_u (place offset align sz) (\<lambda>(at, next). total_size ms next))"

definition at_least_one :: "nat usize_r \<Rightarrow> nat usize_r" where
  "at_least_one m = bind_u m (\<lambda>n. Inr (max n 1))"

text \<open>The loop of \<open>tupleAbiSize\<close> over the sizes of the elements.\<close>

definition tuple_size :: "nat usize_r list \<Rightarrow> nat usize_r" where
  "tuple_size sizes = at_least_one (total_size (map (\<lambda>m. bind_u m (\<lambda>n. Inr (n, n))) sizes) 0)"

primrec abiTypeSize :: "ty \<Rightarrow> nat usize_r" where
  "abiTypeSize Ty_infer = Inr 8"
| "abiTypeSize (Ty_primitive p) = Inr (primitive_size p)"
| "abiTypeSize (Ty_pointer t) = Inr 8"
| "abiTypeSize (Ty_borrow t) = Inr 8"
| "abiTypeSize (Ty_array t n) = Inr 8"
| "abiTypeSize (Ty_tuple ts) = tuple_size (map abiTypeSize ts)"
| "abiTypeSize (Ty_future t) = Inr 8"
| "abiTypeSize (Ty_closure ps r) = Inr 8"
| "abiTypeSize (Ty_fn_ptr abi ps r v) = Inr 8"
| "abiTypeSize (Ty_user_defined n gs) = Inr 8"

definition tupleAbiSize :: "ty list \<Rightarrow> nat usize_r" where
  "tupleAbiSize elems = tuple_size (map abiTypeSize elems)"

definition inlineArrayStride :: "ty \<Rightarrow> nat usize_r" where
  "inlineArrayStride elem = bind_u (abiTypeSize elem) (\<lambda>n. Inr (max n 1))"

definition inlineArraySize :: "ty \<Rightarrow> nat \<Rightarrow> nat usize_r" where
  "inlineArraySize elem len = at_least_one (bind_u (inlineArrayStride elem) (\<lambda>stride. in_usize (stride * len)))"

fun structFieldStorageSize :: "ty \<Rightarrow> nat usize_r" where
  "structFieldStorageSize (Ty_array elem len) =
     bind_u (inlineArraySize elem len) (\<lambda>n. bind_u (abiTypeSize (Ty_array elem len)) (\<lambda>m. Inr (max n m)))"
| "structFieldStorageSize t = abiTypeSize t"

fun structFieldAlignmentSize :: "ty \<Rightarrow> nat usize_r" where
  "structFieldAlignmentSize (Ty_array elem len) = abiTypeSize elem"
| "structFieldAlignmentSize t = abiTypeSize t"

section \<open>Aggregates\<close>

record abi_field_layout =
  fl_offset :: nat
  fl_size :: nat
  fl_ty :: ty

definition arrayElementLayout :: "ty \<Rightarrow> nat \<Rightarrow> nat \<Rightarrow> abi_field_layout option usize_r" where
  "arrayElementLayout elem len index =
     (if len \<le> index then Inr None
      else bind_u (inlineArrayStride elem) (\<lambda>stride. bind_u (in_usize (stride * index)) (\<lambda>at.
        Inr (Some \<lparr>fl_offset = at, fl_size = stride, fl_ty = elem\<rparr>))))"

definition arrayRestLen :: "nat \<Rightarrow> nat \<Rightarrow> nat option" where
  "arrayRestLen len prefix_count = (if len < prefix_count then None else Some (len - prefix_count))"

text \<open>
  The loops that look a field up: over the fields with a selector, stopping before the size of the
  field found is added.
\<close>

fun find_field :: "('f \<Rightarrow> bool) \<Rightarrow> ('f \<Rightarrow> ty) \<Rightarrow> (ty \<Rightarrow> nat usize_r) \<Rightarrow> (ty \<Rightarrow> nat usize_r) \<Rightarrow> 'f list \<Rightarrow> nat \<Rightarrow>
    abi_field_layout option usize_r" where
  "find_field sel ty_of align_of size_of [] offset = Inr None"
| "find_field sel ty_of align_of size_of (f # fs) offset =
     bind_u (size_of (ty_of f)) (\<lambda>sz.
     bind_u (align_of (ty_of f)) (\<lambda>align.
     bind_u (alignAggregateOffset offset align) (\<lambda>at.
       if sel f then Inr (Some \<lparr>fl_offset = at, fl_size = sz, fl_ty = ty_of f\<rparr>)
       else bind_u (in_usize (at + sz)) (\<lambda>next. find_field sel ty_of align_of size_of fs next))))"

definition tupleFieldLayout :: "ty list \<Rightarrow> nat \<Rightarrow> abi_field_layout option usize_r" where
  "tupleFieldLayout elems index =
     find_field (\<lambda>(i, t). i = index) snd abiTypeSize abiTypeSize (enumerate 0 elems) 0"

definition field_space :: "(ty \<Rightarrow> nat usize_r) \<Rightarrow> (ty \<Rightarrow> nat usize_r) \<Rightarrow> ty \<Rightarrow> (nat \<times> nat) usize_r" where
  "field_space align_of size_of t = bind_u (size_of t) (\<lambda>sz. bind_u (align_of t) (\<lambda>align. Inr (align, sz)))"

fun union_size :: "ty list \<Rightarrow> nat \<Rightarrow> nat usize_r" where
  "union_size [] n = Inr n"
| "union_size (t # ts) n = bind_u (abiTypeSize t) (\<lambda>sz. union_size ts (max n sz))"

definition structAbiSize :: "struct_decl \<Rightarrow> nat usize_r" where
  "structAbiSize d =
     (if sd_is_opaque d then Inr 1
      else if sd_is_union d then at_least_one (union_size (map field_ty (sd_fields d)) 0)
      else at_least_one (total_size
        (map (\<lambda>f. field_space structFieldAlignmentSize structFieldStorageSize (field_ty f)) (sd_fields d)) 0))"

fun is_primitive :: "ty \<Rightarrow> bool" where
  "is_primitive (Ty_primitive p) = True"
| "is_primitive t = False"

definition structDeclIsInlinePod :: "struct_decl \<Rightarrow> bool usize_r" where
  "structDeclIsInlinePod d =
     (if sd_is_opaque d \<or> sd_is_union d \<or> sd_generics d \<noteq> [] \<or> sd_fields d = [] \<or>
         \<not> list_all (\<lambda>f. is_primitive (field_ty f)) (sd_fields d) then Inr False
      else bind_u (structAbiSize d) (\<lambda>n. Inr (n = 8)))"

definition structFieldLayout :: "struct_decl \<Rightarrow> string \<Rightarrow> abi_field_layout option usize_r" where
  "structFieldLayout d name =
     (if sd_is_union d then
        (case List.find (\<lambda>f. field_name f = name) (sd_fields d) of
           None \<Rightarrow> Inr None
         | Some f \<Rightarrow> bind_u (abiTypeSize (field_ty f)) (\<lambda>sz.
             Inr (Some \<lparr>fl_offset = 0, fl_size = sz, fl_ty = field_ty f\<rparr>)))
      else find_field (\<lambda>f. field_name f = name) field_ty structFieldAlignmentSize structFieldStorageSize
        (sd_fields d) 0)"

definition enum_payload_offset :: nat where
  "enum_payload_offset = 8"

definition enumFieldLayout :: "enum_variant \<Rightarrow> string \<Rightarrow> abi_field_layout option usize_r" where
  "enumFieldLayout v name =
     find_field (\<lambda>f. field_name f = name) field_ty abiTypeSize abiTypeSize (ev_fields v) enum_payload_offset"

definition variant_end :: "enum_variant \<Rightarrow> nat usize_r" where
  "variant_end v =
     total_size (map (\<lambda>f. field_space abiTypeSize abiTypeSize (field_ty f)) (ev_fields v)) enum_payload_offset"

fun max_payload :: "enum_variant list \<Rightarrow> nat \<Rightarrow> nat usize_r" where
  "max_payload [] n = Inr n"
| "max_payload (v # vs) n =
     bind_u (variant_end v) (\<lambda>offset. max_payload vs (max n (offset - enum_payload_offset)))"

definition enumAbiSize :: "enum_decl \<Rightarrow> nat usize_r" where
  "enumAbiSize d =
     bind_u (max_payload (ed_variants d) 0) (\<lambda>m.
     bind_u (in_usize (enum_payload_offset + m)) (\<lambda>n. Inr (max n enum_payload_offset)))"

text \<open>
  The tag values: a variant without a discriminant has the one after its predecessor's.  \<open>value + 1\<close>
  is checked \<open>i64\<close> arithmetic.
\<close>

definition enumVariantIndex :: "enum_decl \<Rightarrow> string \<Rightarrow> nat option" where
  "enumVariantIndex d name = (let i = length (takeWhile (\<lambda>v. ev_name v \<noteq> name) (ed_variants d)) in
     if i < length (ed_variants d) then Some i else None)"

datatype 'a tagged = Tag_overflow | Tag_value 'a

fun variant_value :: "enum_variant list \<Rightarrow> string \<Rightarrow> int \<Rightarrow> int option tagged" where
  "variant_value [] name next_auto = Tag_value None"
| "variant_value (v # vs) name next_auto =
     (let value = (case ev_discriminant v of Some d \<Rightarrow> d | None \<Rightarrow> next_auto) in
      if ev_name v = name then Tag_value (Some value)
      else if value + 1 < 2 ^ 63 then variant_value vs name (value + 1)
      else Tag_overflow)"

definition enumVariantValue :: "enum_decl \<Rightarrow> string \<Rightarrow> int option tagged" where
  "enumVariantValue d name = variant_value (ed_variants d) name 0"

section \<open>Positions\<close>

text \<open>The mask of the source on 64-bit words is the subtraction of the remainder.\<close>

unbundle bit_operations_syntax

lemma clear_three_bits: "unat ((x :: 64 word) AND NOT 7) = unat x - unat x mod 8"
proof -
  have "x AND NOT 7 = x AND NOT (mask 3)" by (simp add: mask_eq_exp_minus_1)
  also have "\<dots> = push_bit 3 (drop_bit 3 x)"
    by (auto simp: bit_eq_iff bit_simps)
  also have "\<dots> = (x div 8) * 8"
    by (simp add: push_bit_eq_mult drop_bit_eq_div)
  finally have eq: "x AND NOT 7 = (x div 8) * 8" .
  have x64: "unat x < 2 ^ 64" using unsigned_less [of x] by simp
  have "unat (x div 8) * unat (8 :: 64 word) < 2 ^ 64"
    using x64 by (simp add: unat_div)
  then have "unat ((x div 8) * 8) = unat x div 8 * 8"
    using unat_mult_lem [of "x div 8" "8 :: 64 word"] by (simp add: unat_div)
  then show ?thesis unfolding eq by (simp add: minus_mod_eq_div_mult)
qed

text \<open>Where the fields of the given spaces lie, when nothing overflows.\<close>

fun offsets :: "(nat \<times> nat) usize_r list \<Rightarrow> nat \<Rightarrow> (nat \<times> nat) list" where
  "offsets [] off = []"
| "offsets (m # ms) off =
     (case m of
        Inr (align, sz) \<Rightarrow>
          (case place off align sz of Inr (pos, after) \<Rightarrow> (pos, sz) # offsets ms after | Inl e \<Rightarrow> [])
      | Inl e \<Rightarrow> [])"

definition before :: "nat \<times> nat \<Rightarrow> nat \<times> nat \<Rightarrow> bool" where
  "before a b \<longleftrightarrow> fst a + snd a \<le> fst b"

lemma align_sound:
  assumes "alignAggregateOffset off align = Inr pos"
  shows "off \<le> pos" "align = 8 \<Longrightarrow> 8 dvd pos"
proof -
  have "(off + 7) mod 8 \<le> 7" using mod_less_divisor [of 8 "off + 7"] by linarith
  then show "off \<le> pos" using assms by (auto simp: alignAggregateOffset_def split: if_splits)
  show "8 dvd pos" if "align = 8"
    using assms that by (auto simp: alignAggregateOffset_def minus_mod_eq_mult_div)
qed

lemma place_sound:
  "place off align sz = Inr (pos, after) \<Longrightarrow>
    off \<le> pos \<and> after = pos + sz \<and> (align = 8 \<longrightarrow> 8 dvd pos)"
  using align_sound by (auto simp: place_def)

lemma offsets_sound:
  "total_size ms off = Inr n \<Longrightarrow>
    off \<le> n \<and> length (offsets ms off) = length ms \<and> sorted_wrt before (offsets ms off) \<and>
    (\<forall>a \<in> set (offsets ms off). off \<le> fst a \<and> fst a + snd a \<le> n) \<and>
    list_all2 (\<lambda>m a. \<exists>align. m = Inr (align, snd a) \<and> (align = 8 \<longrightarrow> 8 dvd fst a)) ms (offsets ms off)"
proof (induction ms arbitrary: off)
  case (Cons m ms)
  then obtain align sz pos after where m: "m = Inr (align, sz)" "place off align sz = Inr (pos, after)"
    "total_size ms after = Inr n" by auto
  from place_sound [OF m(2)] Cons.IH [OF m(3)] m show ?case
    by (force simp: before_def)
qed simp

lemma find_field_offsets:
  "total_size (map (\<lambda>f. field_space align_of size_of (ty_of f)) fs) off = Inr n \<Longrightarrow>
   i < length fs \<Longrightarrow> sel (fs ! i) \<Longrightarrow> \<forall>j < i. \<not> sel (fs ! j) \<Longrightarrow>
   find_field sel ty_of align_of size_of fs off =
     Inr (Some \<lparr>fl_offset = fst (offsets (map (\<lambda>f. field_space align_of size_of (ty_of f)) fs) off ! i),
                fl_size = snd (offsets (map (\<lambda>f. field_space align_of size_of (ty_of f)) fs) off ! i),
                fl_ty = ty_of (fs ! i)\<rparr>)"
proof (induction fs arbitrary: off i)
  case (Cons f fs)
  from Cons.prems(1) obtain sz align pos after where f:
    "size_of (ty_of f) = Inr sz" "align_of (ty_of f) = Inr align"
    "place off align sz = Inr (pos, after)"
    "total_size (map (\<lambda>f. field_space align_of size_of (ty_of f)) fs) after = Inr n"
    by (auto simp: field_space_def)
  then have pos: "alignAggregateOffset off align = Inr pos" "in_usize (pos + sz) = Inr after"
    by (auto simp: place_def)
  show ?case
  proof (cases i)
    case 0
    with Cons.prems(3) f pos show ?thesis by (simp add: field_space_def)
  next
    case (Suc k)
    with Cons.prems have "\<not> sel f" "k < length fs" "sel (fs ! k)" "\<forall>j < k. \<not> sel (fs ! j)" by auto
    with Cons.IH [OF f(4)] f pos Suc show ?thesis by (simp add: field_space_def)
  qed
qed simp

section \<open>Aggregates are laid out\<close>

definition apart :: "abi_field_layout \<Rightarrow> abi_field_layout \<Rightarrow> bool" where
  "apart l l' \<longleftrightarrow> fl_offset l + fl_size l \<le> fl_offset l' \<or> fl_offset l' + fl_size l' \<le> fl_offset l"

text \<open>
  Every key is found between \<open>lo\<close> and \<open>hi\<close> with the size and the type \<open>ty_of\<close> says, at a multiple
  of eight if its alignment is eight, and different keys lie apart.
\<close>

definition laid_out :: "(ty \<Rightarrow> nat usize_r) \<Rightarrow> (ty \<Rightarrow> nat usize_r) \<Rightarrow> ('k \<Rightarrow> abi_field_layout option usize_r) \<Rightarrow>
    ('k \<times> ty) list \<Rightarrow> nat \<Rightarrow> nat \<Rightarrow> bool" where
  "laid_out align_of size_of look keys lo hi \<longleftrightarrow>
     (\<forall>(k, t) \<in> set keys. \<exists>l. look k = Inr (Some l) \<and> fl_ty l = t \<and> size_of t = Inr (fl_size l) \<and>
        lo \<le> fl_offset l \<and> fl_offset l + fl_size l \<le> hi \<and> (align_of t = Inr 8 \<longrightarrow> 8 dvd fl_offset l) \<and>
        (\<forall>(k', t') \<in> set keys. \<forall>l'. k' \<noteq> k \<longrightarrow> look k' = Inr (Some l') \<longrightarrow> apart l l'))"

lemma find_field_laid_out:
  assumes total: "total_size (map (\<lambda>f. field_space align_of size_of (ty_of f)) fs) lo = Inr hi"
    and dist: "distinct (map key_of fs)"
  shows "laid_out align_of size_of (\<lambda>k. find_field (\<lambda>f. key_of f = k) ty_of align_of size_of fs lo)
    (map (\<lambda>f. (key_of f, ty_of f)) fs) lo hi"
proof -
  let ?ms = "map (\<lambda>f. field_space align_of size_of (ty_of f)) fs"
  let ?os = "offsets ?ms lo"
  let ?lay = "\<lambda>i. \<lparr>fl_offset = fst (?os ! i), fl_size = snd (?os ! i), fl_ty = ty_of (fs ! i)\<rparr>"
  have found: "find_field (\<lambda>f. key_of f = key_of (fs ! i)) ty_of align_of size_of fs lo = Inr (Some (?lay i))"
    if "i < length fs" for i
    by (rule find_field_offsets [OF total that]) (use dist that in \<open>auto simp: distinct_conv_nth\<close>)
  have len: "length ?os = length fs" and sorted: "sorted_wrt before ?os"
    and within: "\<forall>a \<in> set ?os. lo \<le> fst a \<and> fst a + snd a \<le> hi"
    and all2: "list_all2 (\<lambda>m a. \<exists>align. m = Inr (align, snd a) \<and> (align = 8 \<longrightarrow> 8 dvd fst a)) ?ms ?os"
    using offsets_sound [OF total] by simp_all
  have spaces: "\<exists>align. field_space align_of size_of (ty_of (fs ! i)) = Inr (align, snd (?os ! i)) \<and>
      (align = 8 \<longrightarrow> 8 dvd fst (?os ! i))" if "i < length fs" for i
    using list_all2_nthD [OF all2, of i] that by simp
  have inside: "lo \<le> fst (?os ! i) \<and> fst (?os ! i) + snd (?os ! i) \<le> hi" if "i < length fs" for i
    using within nth_mem [of i ?os] that len by metis
  have order: "before (?os ! i) (?os ! j)" if "i < j" "j < length fs" for i j
    using sorted_wrt_nth_less [OF sorted that(1)] that(2) len by simp
  have far: "apart (?lay i) (?lay j)" if "i < length fs" "j < length fs" "i \<noteq> j" for i j
  proof (cases "i < j")
    case True
    with order [of i j] that show ?thesis unfolding before_def apart_def by simp
  next
    case False
    with order [of j i] that show ?thesis unfolding before_def apart_def by simp
  qed
  show ?thesis
    unfolding laid_out_def
  proof (clarify, goal_cases)
    case (1 k t)
    then obtain i where i: "i < length fs" "k = key_of (fs ! i)" "t = ty_of (fs ! i)"
      by (auto simp: in_set_conv_nth)
    have "apart (?lay i) l'" if "(k', t') \<in> set (map (\<lambda>f. (key_of f, ty_of f)) fs)" "k' \<noteq> k"
      "find_field (\<lambda>f. key_of f = k') ty_of align_of size_of fs lo = Inr (Some l')" for k' t' l'
    proof -
      from that(1) obtain j where j: "j < length fs" "k' = key_of (fs ! j)"
        by (auto simp: in_set_conv_nth)
      with that(2) i have "i \<noteq> j" by auto
      with far i(1) j(1) have "apart (?lay i) (?lay j)" by blast
      moreover have "l' = ?lay j" using that(3) found [OF j(1)] j(2) by simp
      ultimately show ?thesis by simp
    qed
    moreover obtain align where "field_space align_of size_of (ty_of (fs ! i)) = Inr (align, snd (?os ! i))"
      "align = 8 \<longrightarrow> 8 dvd fst (?os ! i)"
      using spaces [OF i(1)] by blast
    ultimately show ?case
      using found [OF i(1)] inside [OF i(1)] unfolding i(2,3)
      by (intro exI [of _ "?lay i"] conjI ballI) (auto simp: field_space_def)
  qed
qed

lemma at_least_one_Inr [simp]: "at_least_one m = Inr n \<longleftrightarrow> (\<exists>k. m = Inr k \<and> n = max k 1)"
  by (auto simp: at_least_one_def)

lemma laid_out_mono: "laid_out al sz look keys lo hi \<Longrightarrow> hi \<le> hi' \<Longrightarrow> laid_out al sz look keys lo hi'"
  unfolding laid_out_def case_prod_beta by (meson order_trans)

definition field_keys :: "field list \<Rightarrow> (string \<times> ty) list" where
  "field_keys fs = map (\<lambda>f. (field_name f, field_ty f)) fs"

lemma structFieldLayout_loop: "\<not> sd_is_union d \<Longrightarrow> structFieldLayout d =
    (\<lambda>k. find_field (\<lambda>f. field_name f = k) field_ty structFieldAlignmentSize structFieldStorageSize (sd_fields d) 0)"
  by (simp add: structFieldLayout_def fun_eq_iff)

lemma struct_fields_laid_out:
  assumes "\<not> sd_is_union d" "\<not> sd_is_opaque d" "distinct (map field_name (sd_fields d))"
    "structAbiSize d = Inr n"
  shows "laid_out structFieldAlignmentSize structFieldStorageSize (structFieldLayout d)
    (field_keys (sd_fields d)) 0 n"
proof -
  from assms obtain k where k:
    "total_size (map (\<lambda>f. field_space structFieldAlignmentSize structFieldStorageSize (field_ty f)) (sd_fields d)) 0 = Inr k"
    "n = max k 1" by (auto simp: structAbiSize_def)
  have "k \<le> n" using k(2) by simp
  with find_field_laid_out [OF k(1) assms(3)] show ?thesis
    unfolding structFieldLayout_loop [OF assms(1)] field_keys_def by (rule laid_out_mono)
qed

text \<open>C25: the fields of a struct lie in it, apart from each other.  For every struct that is no union
  and not opaque, whose size does not overflow and whose field names differ, \<open>structFieldLayout\<close>
  finds every field, with the storage size of its type, inside the first \<open>structAbiSize\<close> bytes, at a
  multiple of eight when the field (or the element of an inline array) is eight bytes wide, and
  no two fields overlap.\<close>

theorem struct_laid_out:
  assumes "\<not> sd_is_union d" "\<not> sd_is_opaque d" "distinct (map field_name (sd_fields d))"
    "structAbiSize d = Inr n"
  shows "laid_out structFieldAlignmentSize structFieldStorageSize (structFieldLayout d)
    (field_keys (sd_fields d)) 0 n"
  using assms by (rule struct_fields_laid_out)

text \<open>The struct \<open>{ a: u8, b: [i64; 2], c: i32 }\<close>.\<close>

definition padded_struct :: struct_decl where
  "padded_struct = \<lparr>sd_name = ''P'', sd_derives = [], sd_generics = [],
     sd_fields = [\<lparr>field_name = ''a'', field_ty = Ty_primitive P_u8\<rparr>,
       \<lparr>field_name = ''b'', field_ty = Ty_array (Ty_primitive P_i64) 2\<rparr>,
       \<lparr>field_name = ''c'', field_ty = Ty_primitive P_i32\<rparr>],
     sd_is_union = False, sd_is_opaque = False\<rparr>"

lemmas layout_eval = place_def alignAggregateOffset_def in_usize_def field_space_def inlineArraySize_def
  inlineArrayStride_def at_least_one_def bind_u_def

lemma padded_struct_size: "structAbiSize padded_struct = Inr 28"
  by (simp add: padded_struct_def structAbiSize_def layout_eval)

theorem struct_laid_out_witness:
  "laid_out structFieldAlignmentSize structFieldStorageSize (structFieldLayout padded_struct)
    (field_keys (sd_fields padded_struct)) 0 28"
proof (rule struct_laid_out [OF _ _ _ padded_struct_size])
  show "\<not> sd_is_union padded_struct" "\<not> sd_is_opaque padded_struct"
    by (simp_all add: padded_struct_def)
  show "distinct (map field_name (sd_fields padded_struct))" by code_simp
qed

text \<open>An inline POD is one word, and its fields are in it.\<close>

lemma inline_pod_word:
  assumes "structDeclIsInlinePod d = Inr True" "distinct (map field_name (sd_fields d))"
  shows "structAbiSize d = Inr 8"
    "laid_out structFieldAlignmentSize structFieldStorageSize (structFieldLayout d) (field_keys (sd_fields d)) 0 8"
proof -
  show size: "structAbiSize d = Inr 8"
    using assms(1) by (auto simp: structDeclIsInlinePod_def split: if_splits)
  from assms(1) have kind: "\<not> sd_is_union d" "\<not> sd_is_opaque d"
    by (auto simp: structDeclIsInlinePod_def split: if_splits)
  show "laid_out structFieldAlignmentSize structFieldStorageSize (structFieldLayout d) (field_keys (sd_fields d)) 0 8"
    by (rule struct_fields_laid_out [OF kind assms(2) size])
qed

lemma tuple_laid_out:
  assumes "tupleAbiSize ts = Inr n"
  shows "laid_out abiTypeSize abiTypeSize (tupleFieldLayout ts) (enumerate 0 ts) 0 n"
proof -
  have "map (\<lambda>m. bind_u m (\<lambda>n. Inr (n, n))) (map abiTypeSize ts) =
      map (\<lambda>f. field_space abiTypeSize abiTypeSize (snd f)) (enumerate 0 ts)"
    by (rule nth_equalityI) (auto simp: field_space_def bind_u_def nth_enumerate_eq split: sum.split)
  with assms obtain k where
    "total_size (map (\<lambda>f. field_space abiTypeSize abiTypeSize (snd f)) (enumerate 0 ts)) 0 = Inr k" "n = max k 1"
    by (auto simp: tupleAbiSize_def tuple_size_def)
  moreover have "distinct (map fst (enumerate 0 ts))" by simp
  ultimately have "laid_out abiTypeSize abiTypeSize
      (\<lambda>k. find_field (\<lambda>f. fst f = k) snd abiTypeSize abiTypeSize (enumerate 0 ts) 0)
      (map (\<lambda>f. (fst f, snd f)) (enumerate 0 ts)) 0 n"
    using find_field_laid_out [where key_of = fst and ty_of = snd] laid_out_mono max.cobounded1 by blast
  moreover have "tupleFieldLayout ts = (\<lambda>k. find_field (\<lambda>f. fst f = k) snd abiTypeSize abiTypeSize (enumerate 0 ts) 0)"
    unfolding tupleFieldLayout_def case_prod_beta by (rule ext) (simp add: eq_commute)
  ultimately show ?thesis by simp
qed

lemma max_payload_bound:
  "max_payload vs n = Inr m \<Longrightarrow> n \<le> m \<and> (\<forall>v \<in> set vs. \<exists>e. variant_end v = Inr e \<and> e - enum_payload_offset \<le> m)"
  by (induction vs arbitrary: n) (auto, (meson max.bounded_iff)+)

text \<open>C29: the payload of every variant of an enum lies behind the tag word and inside the enum.  When
  the size of the enum does not overflow, \<open>enumFieldLayout\<close> finds every field of a variant with
  different field names between \<open>enum_payload_offset\<close> and \<open>enumAbiSize\<close>, with the size of its type,
  eight-byte fields at multiples of eight, and no two fields of the variant overlap.\<close>

theorem enum_laid_out:
  assumes "enumAbiSize d = Inr n" "v \<in> set (ed_variants d)" "distinct (map field_name (ev_fields v))"
  shows "enum_payload_offset \<le> n \<and>
    laid_out abiTypeSize abiTypeSize (enumFieldLayout v) (field_keys (ev_fields v)) enum_payload_offset n"
proof -
  from assms(1) obtain m where m: "max_payload (ed_variants d) 0 = Inr m" "n = enum_payload_offset + m"
    by (auto simp: enumAbiSize_def)
  with max_payload_bound [OF m(1)] assms(2) obtain e where
    e: "variant_end v = Inr e" "e - enum_payload_offset \<le> m" by blast
  from find_field_laid_out [OF e(1) [unfolded variant_end_def] assms(3)]
  have "laid_out abiTypeSize abiTypeSize (enumFieldLayout v) (field_keys (ev_fields v)) enum_payload_offset e"
    unfolding enumFieldLayout_def field_keys_def .
  moreover have "e \<le> n" using e(2) m(2) by simp
  ultimately show ?thesis using m(2) laid_out_mono by simp
qed

definition shape_enum :: enum_decl where
  "shape_enum = \<lparr>ed_name = ''S'', ed_generics = [], ed_variants =
     [\<lparr>ev_name = ''Dot'', ev_fields = [], ev_discriminant = None\<rparr>,
      \<lparr>ev_name = ''Box'', ev_fields = [\<lparr>field_name = ''w'', field_ty = Ty_primitive P_i32\<rparr>,
         \<lparr>field_name = ''h'', field_ty = Ty_primitive P_i64\<rparr>], ev_discriminant = None\<rparr>]\<rparr>"

definition box_variant :: enum_variant where
  "box_variant = ed_variants shape_enum ! 1"

theorem enum_laid_out_witness:
  "laid_out abiTypeSize abiTypeSize (enumFieldLayout box_variant) (field_keys (ev_fields box_variant))
    enum_payload_offset 24"
proof -
  have sz: "enumAbiSize shape_enum = Inr 24"
    by (simp add: shape_enum_def enumAbiSize_def variant_end_def enum_payload_offset_def layout_eval)
  have mem: "box_variant \<in> set (ed_variants shape_enum)"
    by (simp add: box_variant_def shape_enum_def)
  have dist: "distinct (map field_name (ev_fields box_variant))" by code_simp
  from enum_laid_out [OF sz mem dist] show ?thesis by (rule conjunct2)
qed

end
