(* ===== verification/Sla_Loop_Rules.thy ===== *)
theory Sla_Loop_Rules
  imports Sla_Ast
begin

text \<open>
  The facts of \<open>src/lowering_rules.zig\<close> about leaving blocks: whether a block cannot fall through,
  whether a loop body breaks or continues the loop, and whether a statement can escape the loop
  around it.  They are stated against \<open>ways\<close>, the ways control can leave a tree.
\<close>

section \<open>Termination\<close>

definition ends_block :: "(bool \<times> bool) list \<Rightarrow> bool" where
  "ends_block ts \<longleftrightarrow> ts \<noteq> [] \<and> fst (last ts)"

text \<open>
  \<open>stmtTerminates\<close> and \<open>exprTerminates\<close> of a node.
\<close>

primrec terminates :: "node \<Rightarrow> bool \<times> bool"
and switch_case_terminates :: "switch_case \<Rightarrow> bool \<times> bool"
and match_case_terminates :: "match_case \<Rightarrow> bool"
where
  "terminates (Program ds) = (False, False)"
| "terminates (Struct_decl d) = (False, False)"
| "terminates (Enum_decl d) = (False, False)"
| "terminates (Trait_decl d) = (False, False)"
| "terminates (Impl_decl t u ms) = (False, False)"
| "terminates (Type_alias_decl d) = (False, False)"
| "terminates (Overload_decl t ms) = (False, False)"
| "terminates (Func_decl d b) = (False, False)"
| "terminates (Macro_decl d b) = (False, False)"
| "terminates (Import_decl p) = (False, False)"
| "terminates (Using_decl p) = (False, False)"
| "terminates (Test_decl d b) = (False, False)"
| "terminates (Sublanguage_decl d) = (False, False)"
| "terminates (Sublanguage_registration k) = (False, False)"
| "terminates (Check_hook_decl k) = (False, False)"
| "terminates (Let_stmt v t e) = (False, False)"
| "terminates (Let_else_stmt p e b) = (False, False)"
| "terminates (Let_destructure_stmt d e) = (False, False)"
| "terminates (Const_stmt v t e) = (False, False)"
| "terminates (Var_stmt v t) = (False, False)"
| "terminates (Assign_stmt t v) = (False, False)"
| "terminates (Block_stmt b) = (False, False)"
| "terminates (Arena_stmt b) = (False, False)"
| "terminates (Expr_stmt e) = (snd (terminates e), False)"
| "terminates (Return_stmt vo) = (True, False)"
| "terminates (For_stmt v s eo b) = (False, False)"
| "terminates (While_stmt c p b) = (False, False)"
| "terminates Break_stmt = (True, False)"
| "terminates Continue_stmt = (True, False)"
| "terminates (Release_stmt v) = (False, False)"
| "terminates (Defer_stmt c) = (False, False)"
| "terminates (Select_stmt cs d t tb) = (False, False)"
| "terminates (Literal l) = (False, False)"
| "terminates (Identifier v) = (False, False)"
| "terminates (Generic_func_ref f gs) = (False, False)"
| "terminates (Go_expr s c) = (False, False)"
| "terminates (If_expr c lc t eo) = (False, ends_block (map terminates t) \<and> (case map_option (map terminates) eo of Some ts \<Rightarrow> ends_block ts | None \<Rightarrow> False))"
| "terminates (Switch_expr v cs) = (False, cs \<noteq> [] \<and> list_all snd (map switch_case_terminates cs) \<and> list_ex fst (map switch_case_terminates cs))"
| "terminates (Match_expr v cs) = (False, cs \<noteq> [] \<and> list_all (\<lambda>b. b) (map match_case_terminates cs))"
| "terminates (Unsafe_expr b) = (False, ends_block (map terminates b))"
| "terminates (Await_expr e) = (False, False)"
| "terminates (Inline_asm_expr t ops) = (False, False)"
| "terminates (Binary_expr bop l r) = (False, False)"
| "terminates (Call_expr f at gs args callee) = (False, f = ''panic'')"
| "terminates (Closure_literal ps b) = (False, False)"
| "terminates (Borrow_expr e) = (False, False)"
| "terminates (Move_expr e) = (False, False)"
| "terminates (Deref_expr e) = (False, False)"
| "terminates (Cast_expr e t) = (False, False)"
| "terminates (Field_expr e f) = (False, False)"
| "terminates (Struct_literal t fs u) = (False, False)"
| "terminates (Enum_literal en vn fs) = (False, False)"
| "terminates (Tuple_literal es) = (False, False)"
| "terminates (Array_literal es) = (False, False)"
| "terminates (Repeat_array_literal v n) = (False, False)"
| "terminates (Index_expr t i) = (False, False)"
| "terminates (Slice_expr t s e) = (False, False)"
| "terminates (Try_expr e) = (False, False)"
| "switch_case_terminates (Switch_case v b) = (isSwitchDefaultPattern v, ends_block (map terminates b))"
| "match_case_terminates (Match_case p g b) = ends_block (map terminates b)"

definition stmtTerminates :: "node \<Rightarrow> bool" where
  "stmtTerminates s = fst (terminates s)"

definition exprTerminates :: "node \<Rightarrow> bool" where
  "exprTerminates e = snd (terminates e)"

definition blockTerminates :: "node list \<Rightarrow> bool" where
  "blockTerminates b \<longleftrightarrow> b \<noteq> [] \<and> stmtTerminates (last b)"

section \<open>Loop control\<close>

text \<open>\<open>stmtContainsCurrentLoopBreak\<close> and \<open>exprContainsCurrentLoopBreak\<close> of a node, and for \<open>continue\<close>.\<close>

abbreviation any_stmt :: "(bool \<times> bool) list \<Rightarrow> bool" where
  "any_stmt \<equiv> list_ex fst"

abbreviation any_else :: "(bool \<times> bool) list option \<Rightarrow> bool" where
  "any_else eo \<equiv> (case eo of Some ts \<Rightarrow> any_stmt ts | None \<Rightarrow> False)"

primrec breaks :: "node \<Rightarrow> bool \<times> bool"
and switch_breaks :: "switch_case \<Rightarrow> bool"
and match_breaks :: "match_case \<Rightarrow> bool"
where
  "breaks (Program ds) = (False, False)"
| "breaks (Struct_decl d) = (False, False)"
| "breaks (Enum_decl d) = (False, False)"
| "breaks (Trait_decl d) = (False, False)"
| "breaks (Impl_decl t u ms) = (False, False)"
| "breaks (Type_alias_decl d) = (False, False)"
| "breaks (Overload_decl t ms) = (False, False)"
| "breaks (Func_decl d b) = (False, False)"
| "breaks (Macro_decl d b) = (False, False)"
| "breaks (Import_decl p) = (False, False)"
| "breaks (Using_decl p) = (False, False)"
| "breaks (Test_decl d b) = (False, False)"
| "breaks (Sublanguage_decl d) = (False, False)"
| "breaks (Sublanguage_registration k) = (False, False)"
| "breaks (Check_hook_decl k) = (False, False)"
| "breaks (Let_stmt v t e) = (False, False)"
| "breaks (Let_else_stmt p e b) = (any_stmt (map breaks b), False)"
| "breaks (Let_destructure_stmt d e) = (False, False)"
| "breaks (Const_stmt v t e) = (False, False)"
| "breaks (Var_stmt v t) = (False, False)"
| "breaks (Assign_stmt t v) = (False, False)"
| "breaks (Block_stmt b) = (any_stmt (map breaks b), False)"
| "breaks (Arena_stmt b) = (False, False)"
| "breaks (Expr_stmt e) = (snd (breaks e), False)"
| "breaks (Return_stmt vo) = (False, False)"
| "breaks (For_stmt v s eo b) = (False, False)"
| "breaks (While_stmt c p b) = (False, False)"
| "breaks Break_stmt = (True, False)"
| "breaks Continue_stmt = (False, False)"
| "breaks (Release_stmt v) = (False, False)"
| "breaks (Defer_stmt c) = (False, False)"
| "breaks (Select_stmt cs d t tb) = (False, False)"
| "breaks (Literal l) = (False, False)"
| "breaks (Identifier v) = (False, False)"
| "breaks (Generic_func_ref f gs) = (False, False)"
| "breaks (Go_expr s c) = (False, False)"
| "breaks (If_expr c lc t eo) = (False, any_stmt (map breaks t) \<or> any_else (map_option (map breaks) eo))"
| "breaks (Switch_expr v cs) = (False, list_ex (\<lambda>b. b) (map switch_breaks cs))"
| "breaks (Match_expr v cs) = (False, list_ex (\<lambda>b. b) (map match_breaks cs))"
| "breaks (Unsafe_expr b) = (False, any_stmt (map breaks b))"
| "breaks (Await_expr e) = (False, False)"
| "breaks (Inline_asm_expr t ops) = (False, False)"
| "breaks (Binary_expr bop l r) = (False, False)"
| "breaks (Call_expr f at gs args callee) = (False, False)"
| "breaks (Closure_literal ps b) = (False, False)"
| "breaks (Borrow_expr e) = (False, False)"
| "breaks (Move_expr e) = (False, False)"
| "breaks (Deref_expr e) = (False, False)"
| "breaks (Cast_expr e t) = (False, False)"
| "breaks (Field_expr e f) = (False, False)"
| "breaks (Struct_literal t fs u) = (False, False)"
| "breaks (Enum_literal en vn fs) = (False, False)"
| "breaks (Tuple_literal es) = (False, False)"
| "breaks (Array_literal es) = (False, False)"
| "breaks (Repeat_array_literal v n) = (False, False)"
| "breaks (Index_expr t i) = (False, False)"
| "breaks (Slice_expr t s e) = (False, False)"
| "breaks (Try_expr e) = (False, False)"
| "switch_breaks (Switch_case v b) = any_stmt (map breaks b)"
| "match_breaks (Match_case p g b) = any_stmt (map breaks b)"

primrec continues :: "node \<Rightarrow> bool \<times> bool"
and switch_continues :: "switch_case \<Rightarrow> bool"
and match_continues :: "match_case \<Rightarrow> bool"
where
  "continues (Program ds) = (False, False)"
| "continues (Struct_decl d) = (False, False)"
| "continues (Enum_decl d) = (False, False)"
| "continues (Trait_decl d) = (False, False)"
| "continues (Impl_decl t u ms) = (False, False)"
| "continues (Type_alias_decl d) = (False, False)"
| "continues (Overload_decl t ms) = (False, False)"
| "continues (Func_decl d b) = (False, False)"
| "continues (Macro_decl d b) = (False, False)"
| "continues (Import_decl p) = (False, False)"
| "continues (Using_decl p) = (False, False)"
| "continues (Test_decl d b) = (False, False)"
| "continues (Sublanguage_decl d) = (False, False)"
| "continues (Sublanguage_registration k) = (False, False)"
| "continues (Check_hook_decl k) = (False, False)"
| "continues (Let_stmt v t e) = (False, False)"
| "continues (Let_else_stmt p e b) = (any_stmt (map continues b), False)"
| "continues (Let_destructure_stmt d e) = (False, False)"
| "continues (Const_stmt v t e) = (False, False)"
| "continues (Var_stmt v t) = (False, False)"
| "continues (Assign_stmt t v) = (False, False)"
| "continues (Block_stmt b) = (any_stmt (map continues b), False)"
| "continues (Arena_stmt b) = (False, False)"
| "continues (Expr_stmt e) = (snd (continues e), False)"
| "continues (Return_stmt vo) = (False, False)"
| "continues (For_stmt v s eo b) = (False, False)"
| "continues (While_stmt c p b) = (False, False)"
| "continues Break_stmt = (False, False)"
| "continues Continue_stmt = (True, False)"
| "continues (Release_stmt v) = (False, False)"
| "continues (Defer_stmt c) = (False, False)"
| "continues (Select_stmt cs d t tb) = (False, False)"
| "continues (Literal l) = (False, False)"
| "continues (Identifier v) = (False, False)"
| "continues (Generic_func_ref f gs) = (False, False)"
| "continues (Go_expr s c) = (False, False)"
| "continues (If_expr c lc t eo) = (False, any_stmt (map continues t) \<or> any_else (map_option (map continues) eo))"
| "continues (Switch_expr v cs) = (False, list_ex (\<lambda>b. b) (map switch_continues cs))"
| "continues (Match_expr v cs) = (False, list_ex (\<lambda>b. b) (map match_continues cs))"
| "continues (Unsafe_expr b) = (False, any_stmt (map continues b))"
| "continues (Await_expr e) = (False, False)"
| "continues (Inline_asm_expr t ops) = (False, False)"
| "continues (Binary_expr bop l r) = (False, False)"
| "continues (Call_expr f at gs args callee) = (False, False)"
| "continues (Closure_literal ps b) = (False, False)"
| "continues (Borrow_expr e) = (False, False)"
| "continues (Move_expr e) = (False, False)"
| "continues (Deref_expr e) = (False, False)"
| "continues (Cast_expr e t) = (False, False)"
| "continues (Field_expr e f) = (False, False)"
| "continues (Struct_literal t fs u) = (False, False)"
| "continues (Enum_literal en vn fs) = (False, False)"
| "continues (Tuple_literal es) = (False, False)"
| "continues (Array_literal es) = (False, False)"
| "continues (Repeat_array_literal v n) = (False, False)"
| "continues (Index_expr t i) = (False, False)"
| "continues (Slice_expr t s e) = (False, False)"
| "continues (Try_expr e) = (False, False)"
| "switch_continues (Switch_case v b) = any_stmt (map continues b)"
| "match_continues (Match_case p g b) = any_stmt (map continues b)"

definition stmtContainsCurrentLoopBreak :: "node \<Rightarrow> bool" where
  "stmtContainsCurrentLoopBreak s = fst (breaks s)"

definition stmtContainsCurrentLoopContinue :: "node \<Rightarrow> bool" where
  "stmtContainsCurrentLoopContinue s = fst (continues s)"

definition exprContainsCurrentLoopBreak :: "node \<Rightarrow> bool" where
  "exprContainsCurrentLoopBreak e = snd (breaks e)"

definition exprContainsCurrentLoopContinue :: "node \<Rightarrow> bool" where
  "exprContainsCurrentLoopContinue e = snd (continues e)"

definition blockContainsCurrentLoopBreak :: "node list \<Rightarrow> bool" where
  "blockContainsCurrentLoopBreak b = list_ex stmtContainsCurrentLoopBreak b"

definition blockContainsCurrentLoopContinue :: "node list \<Rightarrow> bool" where
  "blockContainsCurrentLoopContinue b = list_ex stmtContainsCurrentLoopContinue b"

record loop_control_plan =
  has_break :: bool
  has_continue :: bool

definition planLoopControl :: "node list \<Rightarrow> loop_control_plan" where
  "planLoopControl body = \<lparr>has_break = blockContainsCurrentLoopBreak body,
     has_continue = blockContainsCurrentLoopContinue body\<rparr>"

primrec nodeContainsLoopEscape :: "node \<Rightarrow> bool"
and switch_escape :: "switch_case \<Rightarrow> bool"
and match_escape :: "match_case \<Rightarrow> bool"
where
  "nodeContainsLoopEscape (Program ds) = False"
| "nodeContainsLoopEscape (Struct_decl d) = False"
| "nodeContainsLoopEscape (Enum_decl d) = False"
| "nodeContainsLoopEscape (Trait_decl d) = False"
| "nodeContainsLoopEscape (Impl_decl t u ms) = False"
| "nodeContainsLoopEscape (Type_alias_decl d) = False"
| "nodeContainsLoopEscape (Overload_decl t ms) = False"
| "nodeContainsLoopEscape (Func_decl d b) = False"
| "nodeContainsLoopEscape (Macro_decl d b) = False"
| "nodeContainsLoopEscape (Import_decl p) = False"
| "nodeContainsLoopEscape (Using_decl p) = False"
| "nodeContainsLoopEscape (Test_decl d b) = False"
| "nodeContainsLoopEscape (Sublanguage_decl d) = False"
| "nodeContainsLoopEscape (Sublanguage_registration k) = False"
| "nodeContainsLoopEscape (Check_hook_decl k) = False"
| "nodeContainsLoopEscape (Let_stmt v t e) = False"
| "nodeContainsLoopEscape (Let_else_stmt p e b) = list_ex (\<lambda>b. b) (map nodeContainsLoopEscape b)"
| "nodeContainsLoopEscape (Let_destructure_stmt d e) = False"
| "nodeContainsLoopEscape (Const_stmt v t e) = False"
| "nodeContainsLoopEscape (Var_stmt v t) = False"
| "nodeContainsLoopEscape (Assign_stmt t v) = False"
| "nodeContainsLoopEscape (Block_stmt b) = list_ex (\<lambda>b. b) (map nodeContainsLoopEscape b)"
| "nodeContainsLoopEscape (Arena_stmt b) = False"
| "nodeContainsLoopEscape (Expr_stmt e) = False"
| "nodeContainsLoopEscape (Return_stmt vo) = False"
| "nodeContainsLoopEscape (For_stmt v s eo b) = False"
| "nodeContainsLoopEscape (While_stmt c p b) = False"
| "nodeContainsLoopEscape Break_stmt = True"
| "nodeContainsLoopEscape Continue_stmt = True"
| "nodeContainsLoopEscape (Release_stmt v) = False"
| "nodeContainsLoopEscape (Defer_stmt c) = False"
| "nodeContainsLoopEscape (Select_stmt cs d t tb) = False"
| "nodeContainsLoopEscape (Literal l) = False"
| "nodeContainsLoopEscape (Identifier v) = False"
| "nodeContainsLoopEscape (Generic_func_ref f gs) = False"
| "nodeContainsLoopEscape (Go_expr s c) = False"
| "nodeContainsLoopEscape (If_expr c lc t eo) = (list_ex (\<lambda>b. b) (map nodeContainsLoopEscape t) \<or> (case map_option (map nodeContainsLoopEscape) eo of Some ts \<Rightarrow> list_ex (\<lambda>b. b) ts | None \<Rightarrow> False))"
| "nodeContainsLoopEscape (Switch_expr v cs) = list_ex (\<lambda>b. b) (map switch_escape cs)"
| "nodeContainsLoopEscape (Match_expr v cs) = list_ex (\<lambda>b. b) (map match_escape cs)"
| "nodeContainsLoopEscape (Unsafe_expr b) = list_ex (\<lambda>b. b) (map nodeContainsLoopEscape b)"
| "nodeContainsLoopEscape (Await_expr e) = False"
| "nodeContainsLoopEscape (Inline_asm_expr t ops) = False"
| "nodeContainsLoopEscape (Binary_expr bop l r) = False"
| "nodeContainsLoopEscape (Call_expr f at gs args callee) = False"
| "nodeContainsLoopEscape (Closure_literal ps b) = False"
| "nodeContainsLoopEscape (Borrow_expr e) = False"
| "nodeContainsLoopEscape (Move_expr e) = False"
| "nodeContainsLoopEscape (Deref_expr e) = False"
| "nodeContainsLoopEscape (Cast_expr e t) = False"
| "nodeContainsLoopEscape (Field_expr e f) = False"
| "nodeContainsLoopEscape (Struct_literal t fs u) = False"
| "nodeContainsLoopEscape (Enum_literal en vn fs) = False"
| "nodeContainsLoopEscape (Tuple_literal es) = False"
| "nodeContainsLoopEscape (Array_literal es) = False"
| "nodeContainsLoopEscape (Repeat_array_literal v n) = False"
| "nodeContainsLoopEscape (Index_expr t i) = False"
| "nodeContainsLoopEscape (Slice_expr t s e) = False"
| "nodeContainsLoopEscape (Try_expr e) = False"
| "switch_escape (Switch_case v b) = list_ex (\<lambda>b. b) (map nodeContainsLoopEscape b)"
| "match_escape (Match_case p g b) = list_ex (\<lambda>b. b) (map nodeContainsLoopEscape b)"

definition blockContainsLoopEscape :: "node list \<Rightarrow> bool" where
  "blockContainsLoopEscape b = list_ex nodeContainsLoopEscape b"

section \<open>The ways out of a tree\<close>

text \<open>
  Falling through, breaking or continuing the loop around the tree, returning, panicking.  A call is
  entered as one step, of which only \<open>panic\<close> does not come back; a \<open>match\<close> takes one of its cases; a
  \<open>switch\<close> without a default may take none; a loop may end after any iteration; what a closure,
  a started task or a deferred call does is not a way out of the tree it stands in.
\<close>

datatype way = Falls_out | Breaks_out | Continues_out | Returns_out | Panics_out

definition after :: "way set \<Rightarrow> way set \<Rightarrow> way set" where
  "after A B = (if Falls_out \<in> A then (A - {Falls_out}) \<union> B else A)"

definition in_turn :: "way set list \<Rightarrow> way set" where
  "in_turn Ws = foldr after Ws {Falls_out}"

definition one_of :: "way set list \<Rightarrow> way set" where
  "one_of Ws = \<Union> (set Ws)"

definition opt_ways :: "way set option \<Rightarrow> way set" where
  "opt_ways Wo = (case Wo of Some W \<Rightarrow> W | None \<Rightarrow> {Falls_out})"

definition loop_ways :: "way set \<Rightarrow> way set" where
  "loop_ways W = insert Falls_out (W - {Breaks_out, Continues_out})"

primrec ways :: "node \<Rightarrow> way set"
and select_ways :: "select_case \<Rightarrow> way set"
and if_let_ways :: "if_let_cond \<Rightarrow> way set"
and switch_ways :: "switch_case \<Rightarrow> bool \<times> way set"
and match_ways :: "match_case \<Rightarrow> way set"
and struct_field_ways :: "struct_literal_field \<Rightarrow> way set"
and enum_field_ways :: "enum_literal_field \<Rightarrow> way set"
where
  "ways (Program ds) = {Falls_out}"
| "ways (Struct_decl d) = {Falls_out}"
| "ways (Enum_decl d) = {Falls_out}"
| "ways (Trait_decl d) = {Falls_out}"
| "ways (Impl_decl t u ms) = {Falls_out}"
| "ways (Type_alias_decl d) = {Falls_out}"
| "ways (Overload_decl t ms) = {Falls_out}"
| "ways (Func_decl d b) = {Falls_out}"
| "ways (Macro_decl d b) = {Falls_out}"
| "ways (Import_decl p) = {Falls_out}"
| "ways (Using_decl p) = {Falls_out}"
| "ways (Test_decl d b) = {Falls_out}"
| "ways (Sublanguage_decl d) = {Falls_out}"
| "ways (Sublanguage_registration k) = {Falls_out}"
| "ways (Check_hook_decl k) = {Falls_out}"
| "ways (Let_stmt v t e) = (ways e)"
| "ways (Let_else_stmt p e b) = (after (ways e) (insert Falls_out (in_turn (map ways b))))"
| "ways (Let_destructure_stmt d e) = (ways e)"
| "ways (Const_stmt v t e) = (ways e)"
| "ways (Var_stmt v t) = {Falls_out}"
| "ways (Assign_stmt t v) = (after (ways t) (ways v))"
| "ways (Block_stmt b) = (in_turn (map ways b))"
| "ways (Arena_stmt b) = (in_turn (map ways b))"
| "ways (Expr_stmt e) = (ways e)"
| "ways (Return_stmt vo) = (after (opt_ways (map_option ways vo)) {Returns_out})"
| "ways (For_stmt v s eo b) = (after (ways s) (after (opt_ways (map_option ways eo)) (loop_ways (in_turn (map ways b)))))"
| "ways (While_stmt c p b) = (loop_ways ((ways c) \<union> (in_turn (map ways b))))"
| "ways Break_stmt = {Breaks_out}"
| "ways Continue_stmt = {Continues_out}"
| "ways (Release_stmt v) = {Falls_out}"
| "ways (Defer_stmt c) = {Falls_out}"
| "ways (Select_stmt cs d t tb) = (one_of (map select_ways cs) \<union> (opt_ways (map_option in_turn (map_option (map ways) d))) \<union> (after (opt_ways (map_option ways t)) (opt_ways (map_option in_turn (map_option (map ways) tb)))))"
| "ways (Literal l) = {Falls_out}"
| "ways (Identifier v) = {Falls_out}"
| "ways (Generic_func_ref f gs) = {Falls_out}"
| "ways (Go_expr s c) = {Falls_out}"
| "ways (If_expr c lc t eo) = (after (ways c) (after (opt_ways (map_option in_turn (map_option (map if_let_ways) lc))) ((in_turn (map ways t)) \<union> (opt_ways (map_option in_turn (map_option (map ways) eo))))))"
| "ways (Switch_expr v cs) = (after (ways v) (one_of (map snd (map switch_ways cs)) \<union> (if list_ex fst (map switch_ways cs) then {} else {Falls_out})))"
| "ways (Match_expr v cs) = (after (ways v) (if cs = [] then {Falls_out} else one_of (map match_ways cs)))"
| "ways (Unsafe_expr b) = (in_turn (map ways b))"
| "ways (Await_expr e) = (ways e)"
| "ways (Inline_asm_expr t ops) = {Falls_out}"
| "ways (Binary_expr bop l r) = (after (ways l) (if bop \<in> {Bop_logical_and, Bop_logical_or} then insert Falls_out (ways r) else ways r))"
| "ways (Call_expr f at gs args callee) = (after (opt_ways (map_option ways callee)) (after (in_turn (map ways args)) (if f = ''panic'' then {Panics_out} else {Falls_out})))"
| "ways (Closure_literal ps b) = {Falls_out}"
| "ways (Borrow_expr e) = (ways e)"
| "ways (Move_expr e) = (ways e)"
| "ways (Deref_expr e) = (ways e)"
| "ways (Cast_expr e t) = (ways e)"
| "ways (Field_expr e f) = (ways e)"
| "ways (Struct_literal t fs u) = (after (in_turn (map struct_field_ways fs)) (opt_ways (map_option ways u)))"
| "ways (Enum_literal en vn fs) = (in_turn (map enum_field_ways fs))"
| "ways (Tuple_literal es) = (in_turn (map ways es))"
| "ways (Array_literal es) = (in_turn (map ways es))"
| "ways (Repeat_array_literal v n) = (ways v)"
| "ways (Index_expr t i) = (after (ways t) (ways i))"
| "ways (Slice_expr t s e) = (after (ways t) (after (ways s) (ways e)))"
| "ways (Try_expr e) = (after (ways e) {Falls_out, Returns_out})"
| "select_ways (Select_case k c x y b) = (after (ways c) (in_turn (map ways b)))"
| "if_let_ways (If_let_cond p e) = (ways e)"
| "switch_ways (Switch_case v b) = (isSwitchDefaultPattern v, (in_turn (map ways b)))"
| "match_ways (Match_case p g b) = (after (opt_ways (map_option ways g)) (in_turn (map ways b)))"
| "struct_field_ways (Struct_literal_field n v) = (ways v)"
| "enum_field_ways (Enum_literal_field n v) = (ways v)"

section \<open>What terminates does not fall through\<close>

lemma opt_ways_simps [simp]: "opt_ways None = {Falls_out}" "opt_ways (Some W) = W"
  by (simp_all add: opt_ways_def)

lemma falls_after [simp]: "Falls_out \<in> after A B \<longleftrightarrow> Falls_out \<in> A \<and> Falls_out \<in> B"
  by (auto simp: after_def)

lemma jumps_after [simp]: "w \<noteq> Falls_out \<Longrightarrow> w \<in> after A B \<longleftrightarrow> w \<in> A \<or> (Falls_out \<in> A \<and> w \<in> B)"
  by (auto simp: after_def)

lemma in_turn_simps [simp]: "in_turn [] = {Falls_out}" "in_turn (W # Ws) = after W (in_turn Ws)"
  by (simp_all add: in_turn_def)

lemma falls_in_turn: "Falls_out \<in> in_turn Ws \<longleftrightarrow> (\<forall>W \<in> set Ws. Falls_out \<in> W)"
  by (induction Ws) auto

lemma ends_block_ways:
  assumes "ends_block (map terminates b)" "\<And>s. s \<in> set b \<Longrightarrow> fst (terminates s) \<longrightarrow> Falls_out \<notin> ways s"
  shows "Falls_out \<notin> in_turn (map ways b)"
proof -
  have "b \<noteq> []" "fst (terminates (last b))" using assms(1) by (auto simp: ends_block_def last_map)
  then show ?thesis using assms(2) [of "last b"] by (auto simp: falls_in_turn)
qed

lemma terminates_ways:
  "(fst (terminates n) \<longrightarrow> Falls_out \<notin> ways n) \<and> (snd (terminates n) \<longrightarrow> Falls_out \<notin> ways n)"
  "sel = (sel :: select_case)"
  "il = (il :: if_let_cond)"
  "fst (switch_case_terminates sc) = fst (switch_ways sc) \<and>
    (snd (switch_case_terminates sc) \<longrightarrow> Falls_out \<notin> snd (switch_ways sc))"
  "match_case_terminates mc \<longrightarrow> Falls_out \<notin> match_ways mc"
  "sf = (sf :: struct_literal_field)"
  "ef = (ef :: enum_literal_field)"
proof (induct n and sel and il and sc and mc and sf and ef
    rule: node.induct select_case.induct if_let_cond.induct switch_case.induct match_case.induct
      struct_literal_field.induct enum_literal_field.induct)
  case (If_expr c lc t eo)
  show ?case
  proof (cases eo)
    case (Some e)
    then show ?thesis using If_expr ends_block_ways [of t] ends_block_ways [of e] by (auto simp: opt_ways_def)
  qed simp
next
  case (Unsafe_expr b)
  then show ?case using ends_block_ways [of b] by auto
next
  case (Switch_expr v cs)
  then show ?case by (auto simp: one_of_def list_all_iff list_ex_iff)
next
  case (Match_expr v cs)
  then show ?case by (auto simp: one_of_def list_all_iff)
next
  case (Switch_case v b)
  then show ?case using ends_block_ways [of b] by auto
next
  case (Match_case p g b)
  then show ?case using ends_block_ways [of b] by auto
qed (auto simp: opt_ways_def)

text \<open>C26: a block that \<open>blockTerminates\<close> accepts is never left at its end: no way out of it falls
  through, whatever calls, loops, \<open>match\<close>, \<open>switch\<close> with a default and nested blocks it contains.\<close>

theorem terminating_blocks_never_fall:
  assumes "blockTerminates b"
  shows "Falls_out \<notin> in_turn (map ways b)"
  by (rule ends_block_ways)
    (use assms terminates_ways(1) in \<open>auto simp: blockTerminates_def stmtTerminates_def ends_block_def last_map\<close>)

text \<open>The block \<open>switch x { 1 => { return; } default => { panic(); } }\<close>.\<close>

definition diverging_block :: "node list" where
  "diverging_block =
    [Expr_stmt (Switch_expr (Identifier ''x'')
      [Switch_case (Literal (Int_val 1)) [Return_stmt None],
       Switch_case (Identifier ''default'') [Expr_stmt (Call_expr ''panic'' None [] [] None)]])]"

theorem terminating_blocks_never_fall_witness: "Falls_out \<notin> in_turn (map ways diverging_block)"
  by (rule terminating_blocks_never_fall) code_simp

section \<open>Breaks and continues that are seen\<close>

definition steady_ways :: "way set \<Rightarrow> bool" where
  "steady_ways W \<longleftrightarrow> Breaks_out \<notin> W \<and> Continues_out \<notin> W"

abbreviation steady :: "node \<Rightarrow> bool" where
  "steady n \<equiv> steady_ways (ways n)"

text \<open>
  The trees whose jumps stand in statements, as a statement and as the expression of a statement: an
  expression whose value is used does not break or continue the loop, nor does an \<open>arena\<close> or
  \<open>select\<close>.
\<close>

primrec placed :: "node \<Rightarrow> bool \<times> bool"
and switch_placed :: "switch_case \<Rightarrow> bool"
and match_placed :: "match_case \<Rightarrow> bool"
where
  "placed (Program ds) = (steady (Program ds), steady (Program ds))"
| "placed (Struct_decl d) = (steady (Struct_decl d), steady (Struct_decl d))"
| "placed (Enum_decl d) = (steady (Enum_decl d), steady (Enum_decl d))"
| "placed (Trait_decl d) = (steady (Trait_decl d), steady (Trait_decl d))"
| "placed (Impl_decl t u ms) = (steady (Impl_decl t u ms), steady (Impl_decl t u ms))"
| "placed (Type_alias_decl d) = (steady (Type_alias_decl d), steady (Type_alias_decl d))"
| "placed (Overload_decl t ms) = (steady (Overload_decl t ms), steady (Overload_decl t ms))"
| "placed (Func_decl d b) = (steady (Func_decl d b), steady (Func_decl d b))"
| "placed (Macro_decl d b) = (steady (Macro_decl d b), steady (Macro_decl d b))"
| "placed (Import_decl p) = (steady (Import_decl p), steady (Import_decl p))"
| "placed (Using_decl p) = (steady (Using_decl p), steady (Using_decl p))"
| "placed (Test_decl d b) = (steady (Test_decl d b), steady (Test_decl d b))"
| "placed (Sublanguage_decl d) = (steady (Sublanguage_decl d), steady (Sublanguage_decl d))"
| "placed (Sublanguage_registration k) = (steady (Sublanguage_registration k), steady (Sublanguage_registration k))"
| "placed (Check_hook_decl k) = (steady (Check_hook_decl k), steady (Check_hook_decl k))"
| "placed (Let_stmt v t e) = (steady e, steady (Let_stmt v t e))"
| "placed (Let_else_stmt p e b) = ((steady e \<and> list_all fst (map placed b)), steady (Let_else_stmt p e b))"
| "placed (Let_destructure_stmt d e) = (steady e, steady (Let_destructure_stmt d e))"
| "placed (Const_stmt v t e) = (steady e, steady (Const_stmt v t e))"
| "placed (Var_stmt v t) = (steady (Var_stmt v t), steady (Var_stmt v t))"
| "placed (Assign_stmt t v) = ((steady t \<and> steady v), steady (Assign_stmt t v))"
| "placed (Block_stmt b) = (list_all fst (map placed b), steady (Block_stmt b))"
| "placed (Arena_stmt b) = (steady (Arena_stmt b), steady (Arena_stmt b))"
| "placed (Expr_stmt e) = (snd (placed e), steady (Expr_stmt e))"
| "placed (Return_stmt vo) = (steady (Return_stmt vo), steady (Return_stmt vo))"
| "placed (For_stmt v s eo b) = ((steady s \<and> pred_option steady eo), steady (For_stmt v s eo b))"
| "placed (While_stmt c p b) = (True, steady (While_stmt c p b))"
| "placed Break_stmt = (True, steady Break_stmt)"
| "placed Continue_stmt = (True, steady Continue_stmt)"
| "placed (Release_stmt v) = (steady (Release_stmt v), steady (Release_stmt v))"
| "placed (Defer_stmt c) = (steady (Defer_stmt c), steady (Defer_stmt c))"
| "placed (Select_stmt cs d t tb) = (steady (Select_stmt cs d t tb), steady (Select_stmt cs d t tb))"
| "placed (Literal l) = (steady (Literal l), steady (Literal l))"
| "placed (Identifier v) = (steady (Identifier v), steady (Identifier v))"
| "placed (Generic_func_ref f gs) = (steady (Generic_func_ref f gs), steady (Generic_func_ref f gs))"
| "placed (Go_expr s c) = (steady (Go_expr s c), steady (Go_expr s c))"
| "placed (If_expr c lc t eo) = (steady (If_expr c lc t eo), (steady c \<and> pred_option (list_all (\<lambda>i. steady_ways (if_let_ways i))) lc \<and> list_all fst (map placed t) \<and> pred_option (list_all fst) (map_option (map placed) eo)))"
| "placed (Switch_expr v cs) = (steady (Switch_expr v cs), (steady v \<and> list_all (\<lambda>b. b) (map switch_placed cs)))"
| "placed (Match_expr v cs) = (steady (Match_expr v cs), (steady v \<and> list_all (\<lambda>b. b) (map match_placed cs)))"
| "placed (Unsafe_expr b) = (steady (Unsafe_expr b), list_all fst (map placed b))"
| "placed (Await_expr e) = (steady (Await_expr e), steady (Await_expr e))"
| "placed (Inline_asm_expr t ops) = (steady (Inline_asm_expr t ops), steady (Inline_asm_expr t ops))"
| "placed (Binary_expr bop l r) = (steady (Binary_expr bop l r), steady (Binary_expr bop l r))"
| "placed (Call_expr f at gs args callee) = (steady (Call_expr f at gs args callee), steady (Call_expr f at gs args callee))"
| "placed (Closure_literal ps b) = (steady (Closure_literal ps b), steady (Closure_literal ps b))"
| "placed (Borrow_expr e) = (steady (Borrow_expr e), steady (Borrow_expr e))"
| "placed (Move_expr e) = (steady (Move_expr e), steady (Move_expr e))"
| "placed (Deref_expr e) = (steady (Deref_expr e), steady (Deref_expr e))"
| "placed (Cast_expr e t) = (steady (Cast_expr e t), steady (Cast_expr e t))"
| "placed (Field_expr e f) = (steady (Field_expr e f), steady (Field_expr e f))"
| "placed (Struct_literal t fs u) = (steady (Struct_literal t fs u), steady (Struct_literal t fs u))"
| "placed (Enum_literal en vn fs) = (steady (Enum_literal en vn fs), steady (Enum_literal en vn fs))"
| "placed (Tuple_literal es) = (steady (Tuple_literal es), steady (Tuple_literal es))"
| "placed (Array_literal es) = (steady (Array_literal es), steady (Array_literal es))"
| "placed (Repeat_array_literal v n) = (steady (Repeat_array_literal v n), steady (Repeat_array_literal v n))"
| "placed (Index_expr t i) = (steady (Index_expr t i), steady (Index_expr t i))"
| "placed (Slice_expr t s e) = (steady (Slice_expr t s e), steady (Slice_expr t s e))"
| "placed (Try_expr e) = (steady (Try_expr e), steady (Try_expr e))"
| "switch_placed (Switch_case v b) = list_all fst (map placed b)"
| "match_placed (Match_case p g b) = (pred_option steady g \<and> list_all fst (map placed b))"

definition seen :: "bool \<Rightarrow> bool \<Rightarrow> way set \<Rightarrow> bool" where
  "seen b c W \<longleftrightarrow> (Breaks_out \<in> W \<longrightarrow> b) \<and> (Continues_out \<in> W \<longrightarrow> c)"

lemma seen_steady: "steady_ways W \<Longrightarrow> seen b c W"
  by (simp add: seen_def steady_ways_def)

lemma seen_after: "seen b c A \<Longrightarrow> seen b c B \<Longrightarrow> seen b c (after A B)"
  by (auto simp: seen_def)

lemma seen_in_turn: "(\<And>W. W \<in> set Ws \<Longrightarrow> seen b c W) \<Longrightarrow> seen b c (in_turn Ws)"
  by (induction Ws) (simp add: seen_def, auto intro!: seen_after)

lemma seen_mono: "seen b c W \<Longrightarrow> (b \<Longrightarrow> b') \<Longrightarrow> (c \<Longrightarrow> c') \<Longrightarrow> seen b' c' W"
  by (auto simp: seen_def)

lemma seen_Un: "seen b c A \<Longrightarrow> seen b c B \<Longrightarrow> seen b c (A \<union> B)"
  by (auto simp: seen_def)

lemma seen_insert [simp]: "seen b c (insert Falls_out W) = seen b c W"
  by (auto simp: seen_def)

lemma seen_loop [simp]: "seen b c (loop_ways W)"
  by (simp add: seen_def loop_ways_def)

lemma seen_opt: "pred_option steady eo \<Longrightarrow> seen b c (opt_ways (map_option ways eo))"
  by (cases eo) (auto simp: opt_ways_def seen_def steady_ways_def)

lemma seen_falls [simp]: "seen b c {Falls_out}" "seen b c {}"
  by (simp_all add: seen_def)

lemma seen_lets: "pred_option (list_all (\<lambda>i. steady_ways (if_let_ways i))) lc \<Longrightarrow>
    seen b c (opt_ways (map_option in_turn (map_option (map if_let_ways) lc)))"
proof (cases lc)
  case (Some ls)
  assume "pred_option (list_all (\<lambda>i. steady_ways (if_let_ways i))) lc"
  with Some have "seen b c W" if "W \<in> set (map if_let_ways ls)" for W
    using that by (auto simp: list_all_iff seen_steady)
  then have "seen b c (in_turn (map if_let_ways ls))" by (rule seen_in_turn)
  with Some show ?thesis by simp
qed simp

lemma seen_block:
  assumes "list_all fst (map placed ss)"
    "\<And>s. s \<in> set ss \<Longrightarrow> fst (placed s) \<longrightarrow> seen (fst (breaks s)) (fst (continues s)) (ways s)"
  shows "seen (any_stmt (map breaks ss)) (any_stmt (map continues ss)) (in_turn (map ways ss))"
proof (rule seen_in_turn)
  fix W assume "W \<in> set (map ways ss)"
  then obtain s where s: "s \<in> set ss" "W = ways s" by auto
  with assms have "seen (fst (breaks s)) (fst (continues s)) W" by (auto simp: list_all_iff)
  then show "seen (any_stmt (map breaks ss)) (any_stmt (map continues ss)) W"
    by (rule seen_mono) (use s in \<open>auto simp: list_ex_iff\<close>)
qed

lemma seen_one_of: "(\<And>W. W \<in> set Ws \<Longrightarrow> seen b c W) \<Longrightarrow> seen b c (one_of Ws)"
  by (auto simp: seen_def one_of_def)

definition placed_ok :: "node \<Rightarrow> bool" where
  "placed_ok n \<longleftrightarrow>
     (fst (placed n) \<longrightarrow> seen (fst (breaks n)) (fst (continues n)) (ways n)) \<and>
     (snd (placed n) \<longrightarrow> seen (snd (breaks n)) (snd (continues n)) (ways n))"

lemma placed_stmt:
  assumes "snd (placed n) = steady n" "fst (placed n) \<Longrightarrow> seen (fst (breaks n)) (fst (continues n)) (ways n)"
  shows "placed_ok n"
  using assms by (simp add: placed_ok_def seen_steady)

lemma placed_expr:
  assumes "fst (placed n) = steady n" "snd (placed n) \<Longrightarrow> seen (snd (breaks n)) (snd (continues n)) (ways n)"
  shows "placed_ok n"
  using assms by (simp add: placed_ok_def seen_steady)

lemma placed_leaf: "placed n = (steady n, steady n) \<Longrightarrow> placed_ok n"
  by (simp add: placed_ok_def seen_steady)

lemma seen_placed_block:
  "list_all fst (map placed ss) \<Longrightarrow> (\<And>s. s \<in> set ss \<Longrightarrow> placed_ok s) \<Longrightarrow>
    seen (any_stmt (map breaks ss)) (any_stmt (map continues ss)) (in_turn (map ways ss))"
  by (rule seen_block) (simp_all add: placed_ok_def)

lemma seen_cases:
  assumes "list_all (\<lambda>b. b) (map P cs)" "\<And>c. c \<in> set cs \<Longrightarrow> P c \<longrightarrow> seen (f c) (g c) (W c)"
  shows "seen (list_ex (\<lambda>b. b) (map f cs)) (list_ex (\<lambda>b. b) (map g cs)) (one_of (map W cs))"
proof (rule seen_one_of)
  fix V assume "V \<in> set (map W cs)"
  then obtain c where c: "c \<in> set cs" "V = W c" by auto
  with assms have "seen (f c) (g c) V" by (auto simp: list_all_iff)
  then show "seen (list_ex (\<lambda>b. b) (map f cs)) (list_ex (\<lambda>b. b) (map g cs)) V"
    by (rule seen_mono) (use c in \<open>auto simp: list_ex_iff\<close>)
qed

lemma placed_seen: "placed_ok n"
  "sel = (sel :: select_case)"
  "il = (il :: if_let_cond)"
  "switch_placed sc \<longrightarrow> seen (switch_breaks sc) (switch_continues sc) (snd (switch_ways sc))"
  "match_placed mc \<longrightarrow> seen (match_breaks mc) (match_continues mc) (match_ways mc)"
  "sf = (sf :: struct_literal_field)"
  "ef = (ef :: enum_literal_field)"
proof (induct n and sel and il and sc and mc and sf and ef
    rule: node.induct select_case.induct if_let_cond.induct switch_case.induct match_case.induct
      struct_literal_field.induct enum_literal_field.induct)
  case (Program ds)
  show ?case by (rule placed_leaf) simp
next
  case (Struct_decl d)
  show ?case by (rule placed_leaf) simp
next
  case (Enum_decl d)
  show ?case by (rule placed_leaf) simp
next
  case (Trait_decl d)
  show ?case by (rule placed_leaf) simp
next
  case (Impl_decl t u ms)
  show ?case by (rule placed_leaf) simp
next
  case (Type_alias_decl d)
  show ?case by (rule placed_leaf) simp
next
  case (Overload_decl t ms)
  show ?case by (rule placed_leaf) simp
next
  case (Func_decl d b)
  show ?case by (rule placed_leaf) simp
next
  case (Macro_decl d b)
  show ?case by (rule placed_leaf) simp
next
  case (Import_decl p)
  show ?case by (rule placed_leaf) simp
next
  case (Using_decl p)
  show ?case by (rule placed_leaf) simp
next
  case (Test_decl d b)
  show ?case by (rule placed_leaf) simp
next
  case (Sublanguage_decl d)
  show ?case by (rule placed_leaf) simp
next
  case (Sublanguage_registration k)
  show ?case by (rule placed_leaf) simp
next
  case (Check_hook_decl k)
  show ?case by (rule placed_leaf) simp
next
  case (Let_stmt v t e)
  show ?case by (intro placed_stmt) (auto intro: seen_steady)
next
  case (Let_else_stmt p e b)
  then show ?case by (intro placed_stmt) (auto intro!: seen_after seen_placed_block intro: seen_steady simp del: map_map list.map_comp)
next
  case (Let_destructure_stmt d e)
  show ?case by (intro placed_stmt) (auto intro: seen_steady)
next
  case (Const_stmt v t e)
  show ?case by (intro placed_stmt) (auto intro: seen_steady)
next
  case (Var_stmt v t)
  show ?case by (rule placed_leaf) simp
next
  case (Assign_stmt t v)
  show ?case by (intro placed_stmt) (auto intro!: seen_after intro: seen_steady)
next
  case (Block_stmt b)
  then show ?case by (intro placed_stmt) (auto intro!: seen_placed_block)
next
  case (Arena_stmt b)
  show ?case by (rule placed_leaf) simp
next
  case (Expr_stmt e)
  then show ?case by (intro placed_stmt) (auto simp: placed_ok_def)
next
  case (Return_stmt vo)
  show ?case by (rule placed_leaf) simp
next
  case (For_stmt v s eo b)
  show ?case by (intro placed_stmt) (auto intro!: seen_after seen_opt intro: seen_steady)
next
  case (While_stmt c p b)
  show ?case by (intro placed_stmt) (auto simp: seen_def loop_ways_def)
next
  case Break_stmt
  show ?case by (intro placed_stmt) (auto simp: seen_def loop_ways_def)
next
  case Continue_stmt
  show ?case by (intro placed_stmt) (auto simp: seen_def loop_ways_def)
next
  case (Release_stmt v)
  show ?case by (rule placed_leaf) simp
next
  case (Defer_stmt c)
  show ?case by (rule placed_leaf) simp
next
  case (Select_stmt cs d t tb)
  show ?case by (rule placed_leaf) simp
next
  case (Literal l)
  show ?case by (rule placed_leaf) simp
next
  case (Identifier v)
  show ?case by (rule placed_leaf) simp
next
  case (Generic_func_ref f gs)
  show ?case by (rule placed_leaf) simp
next
  case (Go_expr s c)
  show ?case by (rule placed_leaf) simp
next
  case (If_expr c lc t eo)
  show ?case
  proof (cases eo)
    case None
    with If_expr show ?thesis
      by (intro placed_expr) (auto intro!: seen_after seen_lets seen_placed_block intro: seen_steady)
  next
    case (Some e)
    have "seen (any_stmt (map breaks t) \<or> any_stmt (map breaks e)) (any_stmt (map continues t) \<or> any_stmt (map continues e))
        (in_turn (map ways t) \<union> in_turn (map ways e))"
      if "list_all fst (map placed t)" "list_all fst (map placed e)"
      using seen_placed_block [OF that(1)] seen_placed_block [OF that(2)] If_expr Some
      by (intro seen_Un) (auto elim: seen_mono)
    then show ?thesis unfolding Some
      by (intro placed_expr) (auto intro!: seen_after seen_lets intro: seen_steady)
  qed
next
  case (Switch_expr v cs)
  show ?case
    by (intro placed_expr)
      (use Switch_expr seen_cases [of switch_placed cs switch_breaks switch_continues "\<lambda>c. snd (switch_ways c)"] in
        \<open>auto intro!: seen_after seen_Un intro: seen_steady simp: comp_def\<close>)
next
  case (Match_expr v cs)
  show ?case
    by (intro placed_expr)
      (use Match_expr seen_cases [of match_placed cs match_breaks match_continues match_ways] in
        \<open>auto intro!: seen_after intro: seen_steady\<close>)
next
  case (Unsafe_expr b)
  then show ?case by (intro placed_expr) (auto intro!: seen_placed_block)
next
  case (Await_expr e)
  show ?case by (rule placed_leaf) simp
next
  case (Inline_asm_expr t ops)
  show ?case by (rule placed_leaf) simp
next
  case (Binary_expr bop l r)
  show ?case by (rule placed_leaf) simp
next
  case (Call_expr f at gs args callee)
  show ?case by (rule placed_leaf) simp
next
  case (Closure_literal ps b)
  show ?case by (rule placed_leaf) simp
next
  case (Borrow_expr e)
  show ?case by (rule placed_leaf) simp
next
  case (Move_expr e)
  show ?case by (rule placed_leaf) simp
next
  case (Deref_expr e)
  show ?case by (rule placed_leaf) simp
next
  case (Cast_expr e t)
  show ?case by (rule placed_leaf) simp
next
  case (Field_expr e f)
  show ?case by (rule placed_leaf) simp
next
  case (Struct_literal t fs u)
  show ?case by (rule placed_leaf) simp
next
  case (Enum_literal en vn fs)
  show ?case by (rule placed_leaf) simp
next
  case (Tuple_literal es)
  show ?case by (rule placed_leaf) simp
next
  case (Array_literal es)
  show ?case by (rule placed_leaf) simp
next
  case (Repeat_array_literal v n)
  show ?case by (rule placed_leaf) simp
next
  case (Index_expr t i)
  show ?case by (rule placed_leaf) simp
next
  case (Slice_expr t s e)
  show ?case by (rule placed_leaf) simp
next
  case (Try_expr e)
  show ?case by (rule placed_leaf) simp
next
  case (Select_case k c x y b)
  show ?case by simp
next
  case (If_let_cond p e)
  show ?case by simp
next
  case (Switch_case v b)
  then show ?case using seen_placed_block [of b] by auto
next
  case (Match_case p g b)
  then show ?case using seen_placed_block [of b] by (auto intro!: seen_after seen_opt)
next
  case (Struct_literal_field n v)
  show ?case by simp
next
  case (Enum_literal_field n v)
  show ?case by simp
qed

text \<open>C30: the plan of a loop knows its breaks and continues.  When the jumps of the body stand in
  statements, every way to leave the body by \<open>break\<close> is announced by \<open>has_break\<close> and every way by
  \<open>continue\<close> by \<open>has_continue\<close>.\<close>

theorem loop_control_sound:
  assumes "list_all (\<lambda>s. fst (placed s)) body"
  shows "(Breaks_out \<in> in_turn (map ways body) \<longrightarrow> has_break (planLoopControl body)) \<and>
    (Continues_out \<in> in_turn (map ways body) \<longrightarrow> has_continue (planLoopControl body))"
proof -
  have "seen (any_stmt (map breaks body)) (any_stmt (map continues body)) (in_turn (map ways body))"
    by (rule seen_placed_block) (use assms placed_seen(1) in \<open>simp_all add: list_all_iff\<close>)
  then show ?thesis
    by (auto simp: seen_def planLoopControl_def blockContainsCurrentLoopBreak_def
        blockContainsCurrentLoopContinue_def stmtContainsCurrentLoopBreak_def
        stmtContainsCurrentLoopContinue_def list_ex_iff)
qed

text \<open>The body \<open>if x { { break; } } while y { continue; }\<close>.\<close>

definition breaking_body :: "node list" where
  "breaking_body =
    [Expr_stmt (If_expr (Identifier ''x'') None [Block_stmt [Break_stmt]] None),
     While_stmt (Identifier ''y'') None [Continue_stmt]]"

theorem loop_control_sound_witness:
  "has_break (planLoopControl breaking_body) \<and> Continues_out \<notin> in_turn (map ways breaking_body)"
proof -
  have placed: "list_all (\<lambda>s. fst (placed s)) breaking_body"
    by (simp add: breaking_body_def steady_ways_def)
  have "Breaks_out \<in> in_turn (map ways breaking_body)" by code_simp
  with loop_control_sound [OF placed] have "has_break (planLoopControl breaking_body)" by blast
  moreover have "Continues_out \<notin> in_turn (map ways breaking_body)" by code_simp
  ultimately show ?thesis by blast
qed

text \<open>Escapes that are missed.  \<open>nodeContainsLoopEscape\<close> answers no for every expression statement,
  so also for \<open>if c { break; }\<close>, which can leave the loop; and \<open>planLoopControl\<close> does not see the
  \<open>break\<close> of \<open>let x = if c { break; } else { e };\<close>.\<close>

lemma loop_escapes_missed:
  "\<not> nodeContainsLoopEscape (Expr_stmt e) \<and>
   Breaks_out \<in> ways (Expr_stmt (If_expr (Identifier c) None [Break_stmt] None)) \<and>
   \<not> has_break (planLoopControl [Let_stmt x ty (If_expr (Identifier c) None [Break_stmt] (Some b))]) \<and>
   Breaks_out \<in> ways (Let_stmt x ty (If_expr (Identifier c) None [Break_stmt] (Some b)))"
  by (simp add: planLoopControl_def blockContainsCurrentLoopBreak_def
      stmtContainsCurrentLoopBreak_def)

end
