(* ===== verification/Sla_Async.thy ===== *)
theory Sla_Async
  imports Sla_Ast
begin

text \<open>
  The planning of single-await continuations in \<open>src/lowering_rules.zig\<close>: what an \<open>async\<close> function
  computes after its \<open>await\<close> is collected into a linear form of the awaited value and at most two
  captured values, so that the state machine stores coefficients instead of code.  Coefficients are
  \<open>i64\<close> with checked arithmetic; a form that does not fit is no plan.  The forms are compared with
  the evaluation of the source in an arbitrary commutative ring, so with exact integers as well as
  with wrapping 64-bit words.
\<close>

section \<open>Addends\<close>

definition add_i64 :: "int \<Rightarrow> int \<Rightarrow> int option" where
  "add_i64 a b = (if - (2 ^ 63) \<le> a + b \<and> a + b < 2 ^ 63 then Some (a + b) else None)"

definition mul_i64 :: "int \<Rightarrow> int \<Rightarrow> int option" where
  "mul_i64 a b = (if - (2 ^ 63) \<le> a * b \<and> a * b < 2 ^ 63 then Some (a * b) else None)"

record addend =
  immediate :: int
  has_immediate :: bool
  has_await_binding :: bool
  captured_addend_name :: "string option"
  captured2_addend_name :: "string option"
  captured_field_name :: "string option"
  captured2_field_name :: "string option"
  awaited_coeff :: int
  captured_coeff :: int
  captured2_coeff :: int

definition no_addend :: addend where
  "no_addend = \<lparr>immediate = 0, has_immediate = False, has_await_binding = False,
     captured_addend_name = None, captured2_addend_name = None, captured_field_name = None,
     captured2_field_name = None, awaited_coeff = 0, captured_coeff = 0, captured2_coeff = 0\<rparr>"

fun captureNameIndex :: "string \<Rightarrow> string list \<Rightarrow> nat option" where
  "captureNameIndex name [] = None"
| "captureNameIndex name (c # cs) = (if name = c then Some 0 else map_option Suc (captureNameIndex name cs))"

text \<open>The functions that update a field through a pointer and answer whether they could return it.\<close>

definition mergeOptionalCaptureField :: "string option \<Rightarrow> string option \<Rightarrow> string option option" where
  "mergeOptionalCaptureField existing field =
     (case existing of
        Some current \<Rightarrow> (case field of None \<Rightarrow> None | Some next \<Rightarrow> if current = next then Some existing else None)
      | None \<Rightarrow> (case field of Some f \<Rightarrow> Some (Some f) | None \<Rightarrow> Some None))"

definition merge_name :: "string option \<Rightarrow> string \<Rightarrow> string option option" where
  "merge_name existing name =
     (case existing of Some e \<Rightarrow> if e = name then Some (Some e) else None | None \<Rightarrow> Some (Some name))"

definition addAsyncContinuationCapturedTerm ::
  "addend \<Rightarrow> string \<Rightarrow> string option \<Rightarrow> int \<Rightarrow> string list \<Rightarrow> addend option" where
  "addAsyncContinuationCapturedTerm a name field coeff capture_names =
     (case captureNameIndex name capture_names of
        None \<Rightarrow> None
      | Some idx \<Rightarrow>
          if idx = 0 then
            Option.bind (merge_name (captured_addend_name a) name) (\<lambda>n.
            Option.bind (mergeOptionalCaptureField (captured_field_name a) field) (\<lambda>f.
            Option.bind (add_i64 (captured_coeff a) coeff) (\<lambda>c.
              Some (a\<lparr>captured_addend_name := n, captured_field_name := f, captured_coeff := c\<rparr>))))
          else if idx = 1 then
            Option.bind (merge_name (captured2_addend_name a) name) (\<lambda>n.
            Option.bind (mergeOptionalCaptureField (captured2_field_name a) field) (\<lambda>f.
            Option.bind (add_i64 (captured2_coeff a) coeff) (\<lambda>c.
              Some (a\<lparr>captured2_addend_name := n, captured2_field_name := f, captured2_coeff := c\<rparr>))))
          else None)"

definition scaleAsyncContinuationAddend :: "addend \<Rightarrow> int \<Rightarrow> addend option" where
  "scaleAsyncContinuationAddend a factor =
     Option.bind (mul_i64 (immediate a) factor) (\<lambda>i.
     Option.bind (mul_i64 (awaited_coeff a) factor) (\<lambda>w.
     Option.bind (mul_i64 (captured_coeff a) factor) (\<lambda>c.
     Option.bind (mul_i64 (captured2_coeff a) factor) (\<lambda>c2.
       Some (a\<lparr>immediate := i, awaited_coeff := w, captured_coeff := c, captured2_coeff := c2\<rparr>)))))"

definition mergeAddendFieldName :: "string option \<Rightarrow> string option \<Rightarrow> int \<Rightarrow> string option option" where
  "mergeAddendFieldName target field coeff =
     (if coeff = 0 \<and> field = None then Some target else mergeOptionalCaptureField target field)"

text \<open>The two blocks of \<open>addAsyncContinuationAddend\<close> that merge a captured term: name, field, coefficient.\<close>

definition merge_term :: "string option \<times> string option \<times> int \<Rightarrow> string option \<times> string option \<times> int \<Rightarrow>
    (string option \<times> string option \<times> int) option" where
  "merge_term target term =
     (case (target, term) of
        ((name, field, coeff), (None, field', coeff')) \<Rightarrow> Some target
      | ((name, field, coeff), (Some captured, field', coeff')) \<Rightarrow>
          Option.bind (merge_name name captured) (\<lambda>n.
          Option.bind (mergeAddendFieldName field field' coeff') (\<lambda>f.
          Option.bind (add_i64 coeff coeff') (\<lambda>c. Some (n, f, c)))))"

definition addAsyncContinuationAddend :: "addend \<Rightarrow> addend \<Rightarrow> addend option" where
  "addAsyncContinuationAddend target a =
     Option.bind (add_i64 (immediate target) (immediate a)) (\<lambda>i.
     Option.bind (add_i64 (awaited_coeff target) (awaited_coeff a)) (\<lambda>w.
     Option.bind (merge_term (captured_addend_name target, captured_field_name target, captured_coeff target)
       (captured_addend_name a, captured_field_name a, captured_coeff a)) (\<lambda>(n, f, c).
     Option.bind (merge_term (captured2_addend_name target, captured2_field_name target, captured2_coeff target)
       (captured2_addend_name a, captured2_field_name a, captured2_coeff a)) (\<lambda>(n2, f2, c2).
       Some \<lparr>immediate = i, has_immediate = has_immediate a \<or> has_immediate target,
         has_await_binding = has_await_binding a \<or> has_await_binding target,
         captured_addend_name = n, captured2_addend_name = n2, captured_field_name = f,
         captured2_field_name = f2, awaited_coeff = w, captured_coeff = c, captured2_coeff = c2\<rparr>))))"

section \<open>Collecting\<close>

primrec intLiteral :: "node \<Rightarrow> int option"
where
  "intLiteral (Program ds) = None"
| "intLiteral (Struct_decl d) = None"
| "intLiteral (Enum_decl d) = None"
| "intLiteral (Trait_decl d) = None"
| "intLiteral (Impl_decl t u ms) = None"
| "intLiteral (Type_alias_decl d) = None"
| "intLiteral (Overload_decl t ms) = None"
| "intLiteral (Func_decl d b) = None"
| "intLiteral (Macro_decl d b) = None"
| "intLiteral (Import_decl p) = None"
| "intLiteral (Using_decl p) = None"
| "intLiteral (Test_decl d b) = None"
| "intLiteral (Sublanguage_decl d) = None"
| "intLiteral (Sublanguage_registration k) = None"
| "intLiteral (Check_hook_decl k) = None"
| "intLiteral (Let_stmt v t e) = None"
| "intLiteral (Let_else_stmt p e b) = None"
| "intLiteral (Let_destructure_stmt d e) = None"
| "intLiteral (Const_stmt v t e) = None"
| "intLiteral (Var_stmt v t) = None"
| "intLiteral (Assign_stmt t v) = None"
| "intLiteral (Block_stmt b) = None"
| "intLiteral (Arena_stmt b) = None"
| "intLiteral (Expr_stmt e) = None"
| "intLiteral (Return_stmt vo) = None"
| "intLiteral (For_stmt v s eo b) = None"
| "intLiteral (While_stmt c p b) = None"
| "intLiteral Break_stmt = None"
| "intLiteral Continue_stmt = None"
| "intLiteral (Release_stmt v) = None"
| "intLiteral (Defer_stmt c) = None"
| "intLiteral (Select_stmt cs d t tb) = None"
| "intLiteral (Literal l) = (case l of Int_val i \<Rightarrow> Some i | _ \<Rightarrow> None)"
| "intLiteral (Identifier v) = None"
| "intLiteral (Generic_func_ref f gs) = None"
| "intLiteral (Go_expr s c) = None"
| "intLiteral (If_expr c lc t eo) = None"
| "intLiteral (Switch_expr v cs) = None"
| "intLiteral (Match_expr v cs) = None"
| "intLiteral (Unsafe_expr b) = None"
| "intLiteral (Await_expr e) = None"
| "intLiteral (Inline_asm_expr t ops) = None"
| "intLiteral (Binary_expr bop l r) = None"
| "intLiteral (Call_expr f at gs args callee) = None"
| "intLiteral (Closure_literal ps b) = None"
| "intLiteral (Borrow_expr e) = None"
| "intLiteral (Move_expr e) = None"
| "intLiteral (Deref_expr e) = None"
| "intLiteral (Cast_expr e t) = None"
| "intLiteral (Field_expr e f) = None"
| "intLiteral (Struct_literal t fs u) = None"
| "intLiteral (Enum_literal en vn fs) = None"
| "intLiteral (Tuple_literal es) = None"
| "intLiteral (Array_literal es) = None"
| "intLiteral (Repeat_array_literal v n) = None"
| "intLiteral (Index_expr t i) = None"
| "intLiteral (Slice_expr t s e) = None"
| "intLiteral (Try_expr e) = None"

primrec identifier_name :: "node \<Rightarrow> string option"
where
  "identifier_name (Program ds) = None"
| "identifier_name (Struct_decl d) = None"
| "identifier_name (Enum_decl d) = None"
| "identifier_name (Trait_decl d) = None"
| "identifier_name (Impl_decl t u ms) = None"
| "identifier_name (Type_alias_decl d) = None"
| "identifier_name (Overload_decl t ms) = None"
| "identifier_name (Func_decl d b) = None"
| "identifier_name (Macro_decl d b) = None"
| "identifier_name (Import_decl p) = None"
| "identifier_name (Using_decl p) = None"
| "identifier_name (Test_decl d b) = None"
| "identifier_name (Sublanguage_decl d) = None"
| "identifier_name (Sublanguage_registration k) = None"
| "identifier_name (Check_hook_decl k) = None"
| "identifier_name (Let_stmt v t e) = None"
| "identifier_name (Let_else_stmt p e b) = None"
| "identifier_name (Let_destructure_stmt d e) = None"
| "identifier_name (Const_stmt v t e) = None"
| "identifier_name (Var_stmt v t) = None"
| "identifier_name (Assign_stmt t v) = None"
| "identifier_name (Block_stmt b) = None"
| "identifier_name (Arena_stmt b) = None"
| "identifier_name (Expr_stmt e) = None"
| "identifier_name (Return_stmt vo) = None"
| "identifier_name (For_stmt v s eo b) = None"
| "identifier_name (While_stmt c p b) = None"
| "identifier_name Break_stmt = None"
| "identifier_name Continue_stmt = None"
| "identifier_name (Release_stmt v) = None"
| "identifier_name (Defer_stmt c) = None"
| "identifier_name (Select_stmt cs d t tb) = None"
| "identifier_name (Literal l) = None"
| "identifier_name (Identifier v) = Some v"
| "identifier_name (Generic_func_ref f gs) = None"
| "identifier_name (Go_expr s c) = None"
| "identifier_name (If_expr c lc t eo) = None"
| "identifier_name (Switch_expr v cs) = None"
| "identifier_name (Match_expr v cs) = None"
| "identifier_name (Unsafe_expr b) = None"
| "identifier_name (Await_expr e) = None"
| "identifier_name (Inline_asm_expr t ops) = None"
| "identifier_name (Binary_expr bop l r) = None"
| "identifier_name (Call_expr f at gs args callee) = None"
| "identifier_name (Closure_literal ps b) = None"
| "identifier_name (Borrow_expr e) = None"
| "identifier_name (Move_expr e) = None"
| "identifier_name (Deref_expr e) = None"
| "identifier_name (Cast_expr e t) = None"
| "identifier_name (Field_expr e f) = None"
| "identifier_name (Struct_literal t fs u) = None"
| "identifier_name (Enum_literal en vn fs) = None"
| "identifier_name (Tuple_literal es) = None"
| "identifier_name (Array_literal es) = None"
| "identifier_name (Repeat_array_literal v n) = None"
| "identifier_name (Index_expr t i) = None"
| "identifier_name (Slice_expr t s e) = None"
| "identifier_name (Try_expr e) = None"

text \<open>
  \<open>collectAsyncContinuationAddend\<close>; the counter of the awaited value is only ever counted up from 0.
\<close>

primrec collectAsyncContinuationAddend :: "node \<Rightarrow> string \<Rightarrow> string list \<Rightarrow> addend \<Rightarrow> addend option"
where
  "collectAsyncContinuationAddend (Program ds) = (\<lambda>bn caps a. None)"
| "collectAsyncContinuationAddend (Struct_decl d) = (\<lambda>bn caps a. None)"
| "collectAsyncContinuationAddend (Enum_decl d) = (\<lambda>bn caps a. None)"
| "collectAsyncContinuationAddend (Trait_decl d) = (\<lambda>bn caps a. None)"
| "collectAsyncContinuationAddend (Impl_decl t u ms) = (\<lambda>bn caps a. None)"
| "collectAsyncContinuationAddend (Type_alias_decl d) = (\<lambda>bn caps a. None)"
| "collectAsyncContinuationAddend (Overload_decl t ms) = (\<lambda>bn caps a. None)"
| "collectAsyncContinuationAddend (Func_decl d b) = (\<lambda>bn caps a. None)"
| "collectAsyncContinuationAddend (Macro_decl d b) = (\<lambda>bn caps a. None)"
| "collectAsyncContinuationAddend (Import_decl p) = (\<lambda>bn caps a. None)"
| "collectAsyncContinuationAddend (Using_decl p) = (\<lambda>bn caps a. None)"
| "collectAsyncContinuationAddend (Test_decl d b) = (\<lambda>bn caps a. None)"
| "collectAsyncContinuationAddend (Sublanguage_decl d) = (\<lambda>bn caps a. None)"
| "collectAsyncContinuationAddend (Sublanguage_registration k) = (\<lambda>bn caps a. None)"
| "collectAsyncContinuationAddend (Check_hook_decl k) = (\<lambda>bn caps a. None)"
| "collectAsyncContinuationAddend (Let_stmt v t e) = (\<lambda>bn caps a. None)"
| "collectAsyncContinuationAddend (Let_else_stmt p e b) = (\<lambda>bn caps a. None)"
| "collectAsyncContinuationAddend (Let_destructure_stmt d e) = (\<lambda>bn caps a. None)"
| "collectAsyncContinuationAddend (Const_stmt v t e) = (\<lambda>bn caps a. None)"
| "collectAsyncContinuationAddend (Var_stmt v t) = (\<lambda>bn caps a. None)"
| "collectAsyncContinuationAddend (Assign_stmt t v) = (\<lambda>bn caps a. None)"
| "collectAsyncContinuationAddend (Block_stmt b) = (\<lambda>bn caps a. None)"
| "collectAsyncContinuationAddend (Arena_stmt b) = (\<lambda>bn caps a. None)"
| "collectAsyncContinuationAddend (Expr_stmt e) = (\<lambda>bn caps a. None)"
| "collectAsyncContinuationAddend (Return_stmt vo) = (\<lambda>bn caps a. None)"
| "collectAsyncContinuationAddend (For_stmt v s eo b) = (\<lambda>bn caps a. None)"
| "collectAsyncContinuationAddend (While_stmt c p b) = (\<lambda>bn caps a. None)"
| "collectAsyncContinuationAddend Break_stmt = (\<lambda>bn caps a. None)"
| "collectAsyncContinuationAddend Continue_stmt = (\<lambda>bn caps a. None)"
| "collectAsyncContinuationAddend (Release_stmt v) = (\<lambda>bn caps a. None)"
| "collectAsyncContinuationAddend (Defer_stmt c) = (\<lambda>bn caps a. None)"
| "collectAsyncContinuationAddend (Select_stmt cs d t tb) = (\<lambda>bn caps a. None)"
| "collectAsyncContinuationAddend (Literal l) = (\<lambda>bn caps a.
     case l of Int_val i \<Rightarrow> if has_immediate a then None else Some (a\<lparr>immediate := i, has_immediate := True\<rparr>)
     | _ \<Rightarrow> None)"
| "collectAsyncContinuationAddend (Identifier v) = (\<lambda>bn caps a.
     if v = bn then Some (a\<lparr>has_await_binding := True, awaited_coeff := awaited_coeff a + 1\<rparr>)
     else addAsyncContinuationCapturedTerm a v None 1 caps)"
| "collectAsyncContinuationAddend (Generic_func_ref f gs) = (\<lambda>bn caps a. None)"
| "collectAsyncContinuationAddend (Go_expr s c) = (\<lambda>bn caps a. None)"
| "collectAsyncContinuationAddend (If_expr c lc t eo) = (\<lambda>bn caps a. None)"
| "collectAsyncContinuationAddend (Switch_expr v cs) = (\<lambda>bn caps a. None)"
| "collectAsyncContinuationAddend (Match_expr v cs) = (\<lambda>bn caps a. None)"
| "collectAsyncContinuationAddend (Unsafe_expr b) = (\<lambda>bn caps a. None)"
| "collectAsyncContinuationAddend (Await_expr e) = (\<lambda>bn caps a. None)"
| "collectAsyncContinuationAddend (Inline_asm_expr t ops) = (\<lambda>bn caps a. None)"
| "collectAsyncContinuationAddend (Binary_expr bop l r) = (\<lambda>bn caps a.
     if bop = Bop_mul then
       (case (intLiteral l, intLiteral r) of
          (Some i, Some j) \<Rightarrow> None
        | (Some i, None) \<Rightarrow>
            Option.bind (collectAsyncContinuationAddend r bn caps no_addend) (\<lambda>nested.
            Option.bind (scaleAsyncContinuationAddend nested i) (addAsyncContinuationAddend a))
        | (None, Some j) \<Rightarrow>
            Option.bind (collectAsyncContinuationAddend l bn caps no_addend) (\<lambda>nested.
            Option.bind (scaleAsyncContinuationAddend nested j) (addAsyncContinuationAddend a))
        | (None, None) \<Rightarrow> None)
     else if bop = Bop_add \<or> bop = Bop_sub then
       Option.bind (collectAsyncContinuationAddend l bn caps no_addend) (\<lambda>left.
       Option.bind (collectAsyncContinuationAddend r bn caps no_addend) (\<lambda>right.
       Option.bind (if bop = Bop_sub then scaleAsyncContinuationAddend right (- 1) else Some right) (\<lambda>right.
       Option.bind (addAsyncContinuationAddend a left) (\<lambda>sum. addAsyncContinuationAddend sum right))))
     else None)"
| "collectAsyncContinuationAddend (Call_expr f at gs args callee) = (\<lambda>bn caps a. None)"
| "collectAsyncContinuationAddend (Closure_literal ps b) = (\<lambda>bn caps a. None)"
| "collectAsyncContinuationAddend (Borrow_expr e) = (\<lambda>bn caps a. None)"
| "collectAsyncContinuationAddend (Move_expr e) = (\<lambda>bn caps a. None)"
| "collectAsyncContinuationAddend (Deref_expr e) = (\<lambda>bn caps a. None)"
| "collectAsyncContinuationAddend (Cast_expr e t) = (\<lambda>bn caps a. None)"
| "collectAsyncContinuationAddend (Field_expr e f) = (\<lambda>bn caps a.
     case identifier_name e of None \<Rightarrow> None
     | Some x \<Rightarrow> addAsyncContinuationCapturedTerm a x (Some f) 1 caps)"
| "collectAsyncContinuationAddend (Struct_literal t fs u) = (\<lambda>bn caps a. None)"
| "collectAsyncContinuationAddend (Enum_literal en vn fs) = (\<lambda>bn caps a. None)"
| "collectAsyncContinuationAddend (Tuple_literal es) = (\<lambda>bn caps a. None)"
| "collectAsyncContinuationAddend (Array_literal es) = (\<lambda>bn caps a. None)"
| "collectAsyncContinuationAddend (Repeat_array_literal v n) = (\<lambda>bn caps a. None)"
| "collectAsyncContinuationAddend (Index_expr t i) = (\<lambda>bn caps a. None)"
| "collectAsyncContinuationAddend (Slice_expr t s e) = (\<lambda>bn caps a. None)"
| "collectAsyncContinuationAddend (Try_expr e) = (\<lambda>bn caps a. None)"

definition addendHasInvalidCapture :: "addend \<Rightarrow> bool" where
  "addendHasInvalidCapture a \<longleftrightarrow>
     (captured_addend_name a = None \<and> captured_coeff a \<noteq> 0) \<or>
     (captured2_addend_name a = None \<and> captured2_coeff a \<noteq> 0)"

definition asyncContinuationScalarExpr :: "node \<Rightarrow> string \<Rightarrow> string list \<Rightarrow> addend option" where
  "asyncContinuationScalarExpr e bn caps =
     Option.bind (collectAsyncContinuationAddend e bn caps no_addend) (\<lambda>a.
       if addendHasInvalidCapture a then None else Some a)"

definition asyncContinuationAddend :: "node \<Rightarrow> string \<Rightarrow> string list \<Rightarrow> addend option" where
  "asyncContinuationAddend e bn caps =
     Option.bind (collectAsyncContinuationAddend e bn caps no_addend) (\<lambda>a.
       if \<not> has_await_binding a \<or> awaited_coeff a = 0 then None
       else if addendHasInvalidCapture a then None else Some a)"

section \<open>Scalars\<close>

record scalar_plan =
  sp_awaited_coeff :: int
  sp_captured_coeff :: int
  sp_captured2_coeff :: int
  sp_captured_field_name :: "string option"
  sp_captured2_field_name :: "string option"
  sp_immediate :: int

definition identity_scalar :: scalar_plan where
  "identity_scalar = \<lparr>sp_awaited_coeff = 1, sp_captured_coeff = 0, sp_captured2_coeff = 0,
     sp_captured_field_name = None, sp_captured2_field_name = None, sp_immediate = 0\<rparr>"

definition scalarPlanFromAddend :: "addend \<Rightarrow> scalar_plan" where
  "scalarPlanFromAddend a = \<lparr>sp_awaited_coeff = awaited_coeff a, sp_captured_coeff = captured_coeff a,
     sp_captured2_coeff = captured2_coeff a, sp_captured_field_name = captured_field_name a,
     sp_captured2_field_name = captured2_field_name a, sp_immediate = immediate a\<rparr>"

definition mergeScalarFieldName :: "string option \<Rightarrow> int \<Rightarrow> string option \<Rightarrow> int \<Rightarrow> string option option" where
  "mergeScalarFieldName base_field base_coeff expr_field expr_coeff =
     (if \<not> (base_coeff \<noteq> 0 \<or> base_field \<noteq> None) then Some expr_field
      else if \<not> (expr_coeff \<noteq> 0 \<or> expr_field \<noteq> None) then Some base_field
      else case base_field of
        Some base \<Rightarrow> (case expr_field of None \<Rightarrow> None | Some e \<Rightarrow> if base = e then Some (Some base) else None)
      | None \<Rightarrow> if expr_field \<noteq> None then None else Some None)"

definition composeContinuationScalar :: "scalar_plan \<Rightarrow> addend \<Rightarrow> scalar_plan option" where
  "composeContinuationScalar base e =
     Option.bind (mul_i64 (sp_awaited_coeff base) (awaited_coeff e)) (\<lambda>w.
     Option.bind (mul_i64 (sp_captured_coeff base) (awaited_coeff e)) (\<lambda>bc.
     Option.bind (add_i64 bc (captured_coeff e)) (\<lambda>c.
     Option.bind (mul_i64 (sp_captured2_coeff base) (awaited_coeff e)) (\<lambda>bc2.
     Option.bind (add_i64 bc2 (captured2_coeff e)) (\<lambda>c2.
     Option.bind (mergeScalarFieldName (sp_captured_field_name base) bc (captured_field_name e) (captured_coeff e)) (\<lambda>f.
     Option.bind (mergeScalarFieldName (sp_captured2_field_name base) bc2 (captured2_field_name e) (captured2_coeff e)) (\<lambda>f2.
     Option.bind (mul_i64 (sp_immediate base) (awaited_coeff e)) (\<lambda>bi.
     Option.bind (add_i64 bi (immediate e)) (\<lambda>i.
       Some \<lparr>sp_awaited_coeff = w, sp_captured_coeff = c, sp_captured2_coeff = c2,
         sp_captured_field_name = f, sp_captured2_field_name = f2, sp_immediate = i\<rparr>)))))))))"

section \<open>Continuations\<close>

record branch_plan =
  br_condition_op :: binary_op
  br_threshold :: int
  br_then_scalar :: scalar_plan
  br_else_scalar :: scalar_plan

record continuation_result =
  cr_post_binding_name :: "string option"
  cr_addend :: int
  cr_captured_addend_name :: "string option"
  cr_captured2_addend_name :: "string option"
  cr_captured_field_name :: "string option"
  cr_captured2_field_name :: "string option"
  cr_scalar :: scalar_plan
  cr_branch :: "branch_plan option"

text \<open>The payloads of the nodes the planner looks into.\<close>

primrec let_payload :: "node \<Rightarrow> (string \<times> node) option"
where
  "let_payload (Program ds) = None"
| "let_payload (Struct_decl d) = None"
| "let_payload (Enum_decl d) = None"
| "let_payload (Trait_decl d) = None"
| "let_payload (Impl_decl t u ms) = None"
| "let_payload (Type_alias_decl d) = None"
| "let_payload (Overload_decl t ms) = None"
| "let_payload (Func_decl d b) = None"
| "let_payload (Macro_decl d b) = None"
| "let_payload (Import_decl p) = None"
| "let_payload (Using_decl p) = None"
| "let_payload (Test_decl d b) = None"
| "let_payload (Sublanguage_decl d) = None"
| "let_payload (Sublanguage_registration k) = None"
| "let_payload (Check_hook_decl k) = None"
| "let_payload (Let_stmt v t e) = Some (v, e)"
| "let_payload (Let_else_stmt p e b) = None"
| "let_payload (Let_destructure_stmt d e) = None"
| "let_payload (Const_stmt v t e) = None"
| "let_payload (Var_stmt v t) = None"
| "let_payload (Assign_stmt t v) = None"
| "let_payload (Block_stmt b) = None"
| "let_payload (Arena_stmt b) = None"
| "let_payload (Expr_stmt e) = None"
| "let_payload (Return_stmt vo) = None"
| "let_payload (For_stmt v s eo b) = None"
| "let_payload (While_stmt c p b) = None"
| "let_payload Break_stmt = None"
| "let_payload Continue_stmt = None"
| "let_payload (Release_stmt v) = None"
| "let_payload (Defer_stmt c) = None"
| "let_payload (Select_stmt cs d t tb) = None"
| "let_payload (Literal l) = None"
| "let_payload (Identifier v) = None"
| "let_payload (Generic_func_ref f gs) = None"
| "let_payload (Go_expr s c) = None"
| "let_payload (If_expr c lc t eo) = None"
| "let_payload (Switch_expr v cs) = None"
| "let_payload (Match_expr v cs) = None"
| "let_payload (Unsafe_expr b) = None"
| "let_payload (Await_expr e) = None"
| "let_payload (Inline_asm_expr t ops) = None"
| "let_payload (Binary_expr bop l r) = None"
| "let_payload (Call_expr f at gs args callee) = None"
| "let_payload (Closure_literal ps b) = None"
| "let_payload (Borrow_expr e) = None"
| "let_payload (Move_expr e) = None"
| "let_payload (Deref_expr e) = None"
| "let_payload (Cast_expr e t) = None"
| "let_payload (Field_expr e f) = None"
| "let_payload (Struct_literal t fs u) = None"
| "let_payload (Enum_literal en vn fs) = None"
| "let_payload (Tuple_literal es) = None"
| "let_payload (Array_literal es) = None"
| "let_payload (Repeat_array_literal v n) = None"
| "let_payload (Index_expr t i) = None"
| "let_payload (Slice_expr t s e) = None"
| "let_payload (Try_expr e) = None"

primrec expr_payload :: "node \<Rightarrow> node option"
where
  "expr_payload (Program ds) = None"
| "expr_payload (Struct_decl d) = None"
| "expr_payload (Enum_decl d) = None"
| "expr_payload (Trait_decl d) = None"
| "expr_payload (Impl_decl t u ms) = None"
| "expr_payload (Type_alias_decl d) = None"
| "expr_payload (Overload_decl t ms) = None"
| "expr_payload (Func_decl d b) = None"
| "expr_payload (Macro_decl d b) = None"
| "expr_payload (Import_decl p) = None"
| "expr_payload (Using_decl p) = None"
| "expr_payload (Test_decl d b) = None"
| "expr_payload (Sublanguage_decl d) = None"
| "expr_payload (Sublanguage_registration k) = None"
| "expr_payload (Check_hook_decl k) = None"
| "expr_payload (Let_stmt v t e) = None"
| "expr_payload (Let_else_stmt p e b) = None"
| "expr_payload (Let_destructure_stmt d e) = None"
| "expr_payload (Const_stmt v t e) = None"
| "expr_payload (Var_stmt v t) = None"
| "expr_payload (Assign_stmt t v) = None"
| "expr_payload (Block_stmt b) = None"
| "expr_payload (Arena_stmt b) = None"
| "expr_payload (Expr_stmt e) = Some e"
| "expr_payload (Return_stmt vo) = None"
| "expr_payload (For_stmt v s eo b) = None"
| "expr_payload (While_stmt c p b) = None"
| "expr_payload Break_stmt = None"
| "expr_payload Continue_stmt = None"
| "expr_payload (Release_stmt v) = None"
| "expr_payload (Defer_stmt c) = None"
| "expr_payload (Select_stmt cs d t tb) = None"
| "expr_payload (Literal l) = None"
| "expr_payload (Identifier v) = None"
| "expr_payload (Generic_func_ref f gs) = None"
| "expr_payload (Go_expr s c) = None"
| "expr_payload (If_expr c lc t eo) = None"
| "expr_payload (Switch_expr v cs) = None"
| "expr_payload (Match_expr v cs) = None"
| "expr_payload (Unsafe_expr b) = None"
| "expr_payload (Await_expr e) = None"
| "expr_payload (Inline_asm_expr t ops) = None"
| "expr_payload (Binary_expr bop l r) = None"
| "expr_payload (Call_expr f at gs args callee) = None"
| "expr_payload (Closure_literal ps b) = None"
| "expr_payload (Borrow_expr e) = None"
| "expr_payload (Move_expr e) = None"
| "expr_payload (Deref_expr e) = None"
| "expr_payload (Cast_expr e t) = None"
| "expr_payload (Field_expr e f) = None"
| "expr_payload (Struct_literal t fs u) = None"
| "expr_payload (Enum_literal en vn fs) = None"
| "expr_payload (Tuple_literal es) = None"
| "expr_payload (Array_literal es) = None"
| "expr_payload (Repeat_array_literal v n) = None"
| "expr_payload (Index_expr t i) = None"
| "expr_payload (Slice_expr t s e) = None"
| "expr_payload (Try_expr e) = None"

primrec binary_payload :: "node \<Rightarrow> (binary_op \<times> node \<times> node) option"
where
  "binary_payload (Program ds) = None"
| "binary_payload (Struct_decl d) = None"
| "binary_payload (Enum_decl d) = None"
| "binary_payload (Trait_decl d) = None"
| "binary_payload (Impl_decl t u ms) = None"
| "binary_payload (Type_alias_decl d) = None"
| "binary_payload (Overload_decl t ms) = None"
| "binary_payload (Func_decl d b) = None"
| "binary_payload (Macro_decl d b) = None"
| "binary_payload (Import_decl p) = None"
| "binary_payload (Using_decl p) = None"
| "binary_payload (Test_decl d b) = None"
| "binary_payload (Sublanguage_decl d) = None"
| "binary_payload (Sublanguage_registration k) = None"
| "binary_payload (Check_hook_decl k) = None"
| "binary_payload (Let_stmt v t e) = None"
| "binary_payload (Let_else_stmt p e b) = None"
| "binary_payload (Let_destructure_stmt d e) = None"
| "binary_payload (Const_stmt v t e) = None"
| "binary_payload (Var_stmt v t) = None"
| "binary_payload (Assign_stmt t v) = None"
| "binary_payload (Block_stmt b) = None"
| "binary_payload (Arena_stmt b) = None"
| "binary_payload (Expr_stmt e) = None"
| "binary_payload (Return_stmt vo) = None"
| "binary_payload (For_stmt v s eo b) = None"
| "binary_payload (While_stmt c p b) = None"
| "binary_payload Break_stmt = None"
| "binary_payload Continue_stmt = None"
| "binary_payload (Release_stmt v) = None"
| "binary_payload (Defer_stmt c) = None"
| "binary_payload (Select_stmt cs d t tb) = None"
| "binary_payload (Literal l) = None"
| "binary_payload (Identifier v) = None"
| "binary_payload (Generic_func_ref f gs) = None"
| "binary_payload (Go_expr s c) = None"
| "binary_payload (If_expr c lc t eo) = None"
| "binary_payload (Switch_expr v cs) = None"
| "binary_payload (Match_expr v cs) = None"
| "binary_payload (Unsafe_expr b) = None"
| "binary_payload (Await_expr e) = None"
| "binary_payload (Inline_asm_expr t ops) = None"
| "binary_payload (Binary_expr bop l r) = Some (bop, l, r)"
| "binary_payload (Call_expr f at gs args callee) = None"
| "binary_payload (Closure_literal ps b) = None"
| "binary_payload (Borrow_expr e) = None"
| "binary_payload (Move_expr e) = None"
| "binary_payload (Deref_expr e) = None"
| "binary_payload (Cast_expr e t) = None"
| "binary_payload (Field_expr e f) = None"
| "binary_payload (Struct_literal t fs u) = None"
| "binary_payload (Enum_literal en vn fs) = None"
| "binary_payload (Tuple_literal es) = None"
| "binary_payload (Array_literal es) = None"
| "binary_payload (Repeat_array_literal v n) = None"
| "binary_payload (Index_expr t i) = None"
| "binary_payload (Slice_expr t s e) = None"
| "binary_payload (Try_expr e) = None"

primrec if_payload :: "node \<Rightarrow> (node \<times> if_let_cond list option \<times> node list \<times> node list option) option"
where
  "if_payload (Program ds) = None"
| "if_payload (Struct_decl d) = None"
| "if_payload (Enum_decl d) = None"
| "if_payload (Trait_decl d) = None"
| "if_payload (Impl_decl t u ms) = None"
| "if_payload (Type_alias_decl d) = None"
| "if_payload (Overload_decl t ms) = None"
| "if_payload (Func_decl d b) = None"
| "if_payload (Macro_decl d b) = None"
| "if_payload (Import_decl p) = None"
| "if_payload (Using_decl p) = None"
| "if_payload (Test_decl d b) = None"
| "if_payload (Sublanguage_decl d) = None"
| "if_payload (Sublanguage_registration k) = None"
| "if_payload (Check_hook_decl k) = None"
| "if_payload (Let_stmt v t e) = None"
| "if_payload (Let_else_stmt p e b) = None"
| "if_payload (Let_destructure_stmt d e) = None"
| "if_payload (Const_stmt v t e) = None"
| "if_payload (Var_stmt v t) = None"
| "if_payload (Assign_stmt t v) = None"
| "if_payload (Block_stmt b) = None"
| "if_payload (Arena_stmt b) = None"
| "if_payload (Expr_stmt e) = None"
| "if_payload (Return_stmt vo) = None"
| "if_payload (For_stmt v s eo b) = None"
| "if_payload (While_stmt c p b) = None"
| "if_payload Break_stmt = None"
| "if_payload Continue_stmt = None"
| "if_payload (Release_stmt v) = None"
| "if_payload (Defer_stmt c) = None"
| "if_payload (Select_stmt cs d t tb) = None"
| "if_payload (Literal l) = None"
| "if_payload (Identifier v) = None"
| "if_payload (Generic_func_ref f gs) = None"
| "if_payload (Go_expr s c) = None"
| "if_payload (If_expr c lc t eo) = Some (c, lc, t, eo)"
| "if_payload (Switch_expr v cs) = None"
| "if_payload (Match_expr v cs) = None"
| "if_payload (Unsafe_expr b) = None"
| "if_payload (Await_expr e) = None"
| "if_payload (Inline_asm_expr t ops) = None"
| "if_payload (Binary_expr bop l r) = None"
| "if_payload (Call_expr f at gs args callee) = None"
| "if_payload (Closure_literal ps b) = None"
| "if_payload (Borrow_expr e) = None"
| "if_payload (Move_expr e) = None"
| "if_payload (Deref_expr e) = None"
| "if_payload (Cast_expr e t) = None"
| "if_payload (Field_expr e f) = None"
| "if_payload (Struct_literal t fs u) = None"
| "if_payload (Enum_literal en vn fs) = None"
| "if_payload (Tuple_literal es) = None"
| "if_payload (Array_literal es) = None"
| "if_payload (Repeat_array_literal v n) = None"
| "if_payload (Index_expr t i) = None"
| "if_payload (Slice_expr t s e) = None"
| "if_payload (Try_expr e) = None"

primrec asyncContinuationReturnExpr :: "node \<Rightarrow> node option"
where
  "asyncContinuationReturnExpr (Program ds) = None"
| "asyncContinuationReturnExpr (Struct_decl d) = None"
| "asyncContinuationReturnExpr (Enum_decl d) = None"
| "asyncContinuationReturnExpr (Trait_decl d) = None"
| "asyncContinuationReturnExpr (Impl_decl t u ms) = None"
| "asyncContinuationReturnExpr (Type_alias_decl d) = None"
| "asyncContinuationReturnExpr (Overload_decl t ms) = None"
| "asyncContinuationReturnExpr (Func_decl d b) = None"
| "asyncContinuationReturnExpr (Macro_decl d b) = None"
| "asyncContinuationReturnExpr (Import_decl p) = None"
| "asyncContinuationReturnExpr (Using_decl p) = None"
| "asyncContinuationReturnExpr (Test_decl d b) = None"
| "asyncContinuationReturnExpr (Sublanguage_decl d) = None"
| "asyncContinuationReturnExpr (Sublanguage_registration k) = None"
| "asyncContinuationReturnExpr (Check_hook_decl k) = None"
| "asyncContinuationReturnExpr (Let_stmt v t e) = None"
| "asyncContinuationReturnExpr (Let_else_stmt p e b) = None"
| "asyncContinuationReturnExpr (Let_destructure_stmt d e) = None"
| "asyncContinuationReturnExpr (Const_stmt v t e) = None"
| "asyncContinuationReturnExpr (Var_stmt v t) = None"
| "asyncContinuationReturnExpr (Assign_stmt t v) = None"
| "asyncContinuationReturnExpr (Block_stmt b) = None"
| "asyncContinuationReturnExpr (Arena_stmt b) = None"
| "asyncContinuationReturnExpr (Expr_stmt e) = Some e"
| "asyncContinuationReturnExpr (Return_stmt vo) = vo"
| "asyncContinuationReturnExpr (For_stmt v s eo b) = None"
| "asyncContinuationReturnExpr (While_stmt c p b) = None"
| "asyncContinuationReturnExpr Break_stmt = None"
| "asyncContinuationReturnExpr Continue_stmt = None"
| "asyncContinuationReturnExpr (Release_stmt v) = None"
| "asyncContinuationReturnExpr (Defer_stmt c) = None"
| "asyncContinuationReturnExpr (Select_stmt cs d t tb) = None"
| "asyncContinuationReturnExpr (Literal l) = None"
| "asyncContinuationReturnExpr (Identifier v) = None"
| "asyncContinuationReturnExpr (Generic_func_ref f gs) = None"
| "asyncContinuationReturnExpr (Go_expr s c) = None"
| "asyncContinuationReturnExpr (If_expr c lc t eo) = None"
| "asyncContinuationReturnExpr (Switch_expr v cs) = None"
| "asyncContinuationReturnExpr (Match_expr v cs) = None"
| "asyncContinuationReturnExpr (Unsafe_expr b) = None"
| "asyncContinuationReturnExpr (Await_expr e) = None"
| "asyncContinuationReturnExpr (Inline_asm_expr t ops) = None"
| "asyncContinuationReturnExpr (Binary_expr bop l r) = None"
| "asyncContinuationReturnExpr (Call_expr f at gs args callee) = None"
| "asyncContinuationReturnExpr (Closure_literal ps b) = None"
| "asyncContinuationReturnExpr (Borrow_expr e) = None"
| "asyncContinuationReturnExpr (Move_expr e) = None"
| "asyncContinuationReturnExpr (Deref_expr e) = None"
| "asyncContinuationReturnExpr (Cast_expr e t) = None"
| "asyncContinuationReturnExpr (Field_expr e f) = None"
| "asyncContinuationReturnExpr (Struct_literal t fs u) = None"
| "asyncContinuationReturnExpr (Enum_literal en vn fs) = None"
| "asyncContinuationReturnExpr (Tuple_literal es) = None"
| "asyncContinuationReturnExpr (Array_literal es) = None"
| "asyncContinuationReturnExpr (Repeat_array_literal v n) = None"
| "asyncContinuationReturnExpr (Index_expr t i) = None"
| "asyncContinuationReturnExpr (Slice_expr t s e) = None"
| "asyncContinuationReturnExpr (Try_expr e) = None"

definition captureNameForScalar :: "string option \<Rightarrow> int \<Rightarrow> string option" where
  "captureNameForScalar name coeff = (if coeff \<noteq> 0 then name else None)"

definition continuationBlockTailExpr :: "node list \<Rightarrow> node option" where
  "continuationBlockTailExpr b = (case b of [s] \<Rightarrow> expr_payload s | _ \<Rightarrow> None)"

definition branchConditionPlan :: "node \<Rightarrow> string \<Rightarrow> (binary_op \<times> int) option" where
  "branchConditionPlan cond bn =
     (case binary_payload cond of
        None \<Rightarrow> None
      | Some (bop, l, r) \<Rightarrow>
          if bop \<notin> {Bop_gt, Bop_ge, Bop_lt, Bop_le, Bop_eq, Bop_ne} then None
          else if identifier_name l \<noteq> Some bn then None
          else map_option (\<lambda>threshold. (bop, threshold)) (intLiteral r))"

definition mergeBranchCaptureName :: "string option \<Rightarrow> string option \<Rightarrow> string option" where
  "mergeBranchCaptureName left right =
     (case left of
        Some l \<Rightarrow> (case right of Some r \<Rightarrow> if l = r then Some l else None | None \<Rightarrow> Some l)
      | None \<Rightarrow> right)"

definition mergeBranchCaptureField :: "string option \<Rightarrow> string option \<Rightarrow> bool \<Rightarrow> bool \<Rightarrow> string option option" where
  "mergeBranchCaptureField left right left_active right_active =
     (if \<not> left_active then Some right
      else if \<not> right_active then Some left
      else case left of
        Some l \<Rightarrow> (case right of None \<Rightarrow> None | Some r \<Rightarrow> if l = r then Some (Some l) else None)
      | None \<Rightarrow> if right \<noteq> None then None else Some None)"

definition mergeBranchCaptureResult :: "addend \<Rightarrow> addend \<Rightarrow>
    (string option \<times> string option \<times> string option \<times> string option) option" where
  "mergeBranchCaptureResult left right =
     (let first = mergeBranchCaptureName (captured_addend_name left) (captured_addend_name right);
          second = mergeBranchCaptureName (captured2_addend_name left) (captured2_addend_name right) in
      if (captured_addend_name left \<noteq> None \<or> captured_addend_name right \<noteq> None) \<and> first = None then None
      else if (captured2_addend_name left \<noteq> None \<or> captured2_addend_name right \<noteq> None) \<and> second = None then None
      else
        Option.bind (mergeBranchCaptureField (captured_field_name left) (captured_field_name right)
          (captured_addend_name left \<noteq> None \<or> captured_coeff left \<noteq> 0)
          (captured_addend_name right \<noteq> None \<or> captured_coeff right \<noteq> 0)) (\<lambda>first_field.
        Option.bind (mergeBranchCaptureField (captured2_field_name left) (captured2_field_name right)
          (captured2_addend_name left \<noteq> None \<or> captured2_coeff left \<noteq> 0)
          (captured2_addend_name right \<noteq> None \<or> captured2_coeff right \<noteq> 0)) (\<lambda>second_field.
          Some (first, second, first_field, second_field))))"

definition asyncContinuationBranch :: "node \<Rightarrow> string \<Rightarrow> string option \<Rightarrow> continuation_result option" where
  "asyncContinuationBranch e bn capture_name =
     (case if_payload e of
        Some (c, None, then_block, Some else_block) \<Rightarrow>
          Option.bind (branchConditionPlan c bn) (\<lambda>(bop, threshold).
          Option.bind (continuationBlockTailExpr then_block) (\<lambda>then_expr.
          Option.bind (continuationBlockTailExpr else_block) (\<lambda>else_expr.
            let capture_names = (case capture_name of Some c \<Rightarrow> [c] | None \<Rightarrow> []) in
          Option.bind (asyncContinuationScalarExpr then_expr bn capture_names) (\<lambda>then_addend.
          Option.bind (asyncContinuationScalarExpr else_expr bn capture_names) (\<lambda>else_addend.
          Option.bind (mergeBranchCaptureResult then_addend else_addend) (\<lambda>(first, second, first_field, second_field).
            Some \<lparr>cr_post_binding_name = None, cr_addend = 0, cr_captured_addend_name = first,
              cr_captured2_addend_name = second, cr_captured_field_name = first_field,
              cr_captured2_field_name = second_field, cr_scalar = identity_scalar,
              cr_branch = Some \<lparr>br_condition_op = bop, br_threshold = threshold,
                br_then_scalar = scalarPlanFromAddend then_addend,
                br_else_scalar = scalarPlanFromAddend else_addend\<rparr>\<rparr>))))))
      | _ \<Rightarrow> None)"

text \<open>The loop over the statements after the \<open>await\<close>.\<close>

record post_state =
  ps_name :: string
  ps_scalar :: scalar_plan
  ps_capture_name :: "string option"
  ps_capture2_name :: "string option"
  ps_capture_field_name :: "string option"
  ps_capture2_field_name :: "string option"

definition or_else :: "'a option \<Rightarrow> 'a option \<Rightarrow> 'a option" where
  "or_else new old = (case new of Some x \<Rightarrow> Some x | None \<Rightarrow> old)"

fun post_loop :: "string list \<Rightarrow> node list \<Rightarrow> post_state \<Rightarrow> post_state option" where
  "post_loop caps [] s = Some s"
| "post_loop caps (stmt # stmts) s =
     (case let_payload stmt of
        None \<Rightarrow> None
      | Some (name, value) \<Rightarrow>
          Option.bind (asyncContinuationScalarExpr value (ps_name s) caps) (\<lambda>a.
          if \<not> has_await_binding a \<or> awaited_coeff a = 0 then None
          else Option.bind (composeContinuationScalar (ps_scalar s) a) (\<lambda>scalar.
            post_loop caps stmts
              \<lparr>ps_name = name, ps_scalar = scalar,
               ps_capture_name = or_else (captured_addend_name a) (ps_capture_name s),
               ps_capture2_name = or_else (captured2_addend_name a) (ps_capture2_name s),
               ps_capture_field_name = or_else (captured_field_name a) (ps_capture_field_name s),
               ps_capture2_field_name = or_else (captured2_field_name a) (ps_capture2_field_name s)\<rparr>)))"

definition post_result :: "post_state \<Rightarrow> scalar_plan \<Rightarrow> continuation_result" where
  "post_result s scalar =
     \<lparr>cr_post_binding_name = Some (ps_name s), cr_addend = sp_immediate scalar,
      cr_captured_addend_name = captureNameForScalar (ps_capture_name s) (sp_captured_coeff scalar),
      cr_captured2_addend_name = captureNameForScalar (ps_capture2_name s) (sp_captured2_coeff scalar),
      cr_captured_field_name = captureNameForScalar (ps_capture_field_name s) (sp_captured_coeff scalar),
      cr_captured2_field_name = captureNameForScalar (ps_capture2_field_name s) (sp_captured2_coeff scalar),
      cr_scalar = scalar, cr_branch = None\<rparr>"

definition asyncContinuationResult :: "string \<Rightarrow> string list \<Rightarrow> node list \<Rightarrow> node \<Rightarrow> continuation_result option" where
  "asyncContinuationResult bn caps post_stmts ret =
     (if post_stmts \<noteq> [] then
        if length post_stmts > 2 then None
        else Option.bind (post_loop caps post_stmts
            \<lparr>ps_name = bn, ps_scalar = identity_scalar, ps_capture_name = None, ps_capture2_name = None,
             ps_capture_field_name = None, ps_capture2_field_name = None\<rparr>) (\<lambda>s.
          if identifier_name ret = Some (ps_name s) then Some (post_result s (ps_scalar s))
          else Option.bind (asyncContinuationScalarExpr ret (ps_name s) []) (\<lambda>a.
            if \<not> has_await_binding a \<or> awaited_coeff a = 0 then None
            else map_option (post_result s) (composeContinuationScalar (ps_scalar s) a)))
      else
        let branch = (if length caps \<le> 1
          then asyncContinuationBranch ret bn (if length caps = 1 then Some (caps ! 0) else None) else None) in
        case branch of
          Some res \<Rightarrow> Some res
        | None \<Rightarrow> map_option (\<lambda>a.
            \<lparr>cr_post_binding_name = None, cr_addend = immediate a, cr_captured_addend_name = captured_addend_name a,
             cr_captured2_addend_name = captured2_addend_name a, cr_captured_field_name = captured_field_name a,
             cr_captured2_field_name = captured2_field_name a, cr_scalar = scalarPlanFromAddend a,
             cr_branch = None\<rparr>) (asyncContinuationAddend ret bn caps))"

section \<open>What the source computes\<close>

text \<open>
  Expressions over the values of the scalar variables and of the fields of the captured structs.
\<close>

type_synonym 'a scalars = "string \<Rightarrow> 'a"
type_synonym 'a fields = "string \<Rightarrow> string \<Rightarrow> 'a"

primrec eval_expr :: "node \<Rightarrow> 'a::comm_ring_1 scalars \<Rightarrow> 'a fields \<Rightarrow> 'a"
where
  "eval_expr (Program ds) = (\<lambda>vs fs. 0)"
| "eval_expr (Struct_decl d) = (\<lambda>vs fs. 0)"
| "eval_expr (Enum_decl d) = (\<lambda>vs fs. 0)"
| "eval_expr (Trait_decl d) = (\<lambda>vs fs. 0)"
| "eval_expr (Impl_decl t u ms) = (\<lambda>vs fs. 0)"
| "eval_expr (Type_alias_decl d) = (\<lambda>vs fs. 0)"
| "eval_expr (Overload_decl t ms) = (\<lambda>vs fs. 0)"
| "eval_expr (Func_decl d b) = (\<lambda>vs fs. 0)"
| "eval_expr (Macro_decl d b) = (\<lambda>vs fs. 0)"
| "eval_expr (Import_decl p) = (\<lambda>vs fs. 0)"
| "eval_expr (Using_decl p) = (\<lambda>vs fs. 0)"
| "eval_expr (Test_decl d b) = (\<lambda>vs fs. 0)"
| "eval_expr (Sublanguage_decl d) = (\<lambda>vs fs. 0)"
| "eval_expr (Sublanguage_registration k) = (\<lambda>vs fs. 0)"
| "eval_expr (Check_hook_decl k) = (\<lambda>vs fs. 0)"
| "eval_expr (Let_stmt v t e) = (\<lambda>vs fs. 0)"
| "eval_expr (Let_else_stmt p e b) = (\<lambda>vs fs. 0)"
| "eval_expr (Let_destructure_stmt d e) = (\<lambda>vs fs. 0)"
| "eval_expr (Const_stmt v t e) = (\<lambda>vs fs. 0)"
| "eval_expr (Var_stmt v t) = (\<lambda>vs fs. 0)"
| "eval_expr (Assign_stmt t v) = (\<lambda>vs fs. 0)"
| "eval_expr (Block_stmt b) = (\<lambda>vs fs. 0)"
| "eval_expr (Arena_stmt b) = (\<lambda>vs fs. 0)"
| "eval_expr (Expr_stmt e) = (\<lambda>vs fs. 0)"
| "eval_expr (Return_stmt vo) = (\<lambda>vs fs. 0)"
| "eval_expr (For_stmt v s eo b) = (\<lambda>vs fs. 0)"
| "eval_expr (While_stmt c p b) = (\<lambda>vs fs. 0)"
| "eval_expr Break_stmt = (\<lambda>vs fs. 0)"
| "eval_expr Continue_stmt = (\<lambda>vs fs. 0)"
| "eval_expr (Release_stmt v) = (\<lambda>vs fs. 0)"
| "eval_expr (Defer_stmt c) = (\<lambda>vs fs. 0)"
| "eval_expr (Select_stmt cs d t tb) = (\<lambda>vs fs. 0)"
| "eval_expr (Literal l) = (\<lambda>vs fs. case l of Int_val i \<Rightarrow> of_int i | _ \<Rightarrow> 0)"
| "eval_expr (Identifier v) = (\<lambda>vs fs. vs v)"
| "eval_expr (Generic_func_ref f gs) = (\<lambda>vs fs. 0)"
| "eval_expr (Go_expr s c) = (\<lambda>vs fs. 0)"
| "eval_expr (If_expr c lc t eo) = (\<lambda>vs fs. 0)"
| "eval_expr (Switch_expr v cs) = (\<lambda>vs fs. 0)"
| "eval_expr (Match_expr v cs) = (\<lambda>vs fs. 0)"
| "eval_expr (Unsafe_expr b) = (\<lambda>vs fs. 0)"
| "eval_expr (Await_expr e) = (\<lambda>vs fs. 0)"
| "eval_expr (Inline_asm_expr t ops) = (\<lambda>vs fs. 0)"
| "eval_expr (Binary_expr bop l r) = (\<lambda>vs fs.
     if bop = Bop_add then eval_expr l vs fs + eval_expr r vs fs
     else if bop = Bop_sub then eval_expr l vs fs - eval_expr r vs fs
     else if bop = Bop_mul then eval_expr l vs fs * eval_expr r vs fs else 0)"
| "eval_expr (Call_expr f at gs args callee) = (\<lambda>vs fs. 0)"
| "eval_expr (Closure_literal ps b) = (\<lambda>vs fs. 0)"
| "eval_expr (Borrow_expr e) = (\<lambda>vs fs. 0)"
| "eval_expr (Move_expr e) = (\<lambda>vs fs. 0)"
| "eval_expr (Deref_expr e) = (\<lambda>vs fs. 0)"
| "eval_expr (Cast_expr e t) = (\<lambda>vs fs. 0)"
| "eval_expr (Field_expr e f) = (\<lambda>vs fs. case identifier_name e of Some x \<Rightarrow> fs x f | None \<Rightarrow> 0)"
| "eval_expr (Struct_literal t fs u) = (\<lambda>vs fs. 0)"
| "eval_expr (Enum_literal en vn fs) = (\<lambda>vs fs. 0)"
| "eval_expr (Tuple_literal es) = (\<lambda>vs fs. 0)"
| "eval_expr (Array_literal es) = (\<lambda>vs fs. 0)"
| "eval_expr (Repeat_array_literal v n) = (\<lambda>vs fs. 0)"
| "eval_expr (Index_expr t i) = (\<lambda>vs fs. 0)"
| "eval_expr (Slice_expr t s e) = (\<lambda>vs fs. 0)"
| "eval_expr (Try_expr e) = (\<lambda>vs fs. 0)"

text \<open>
  A body that passes the type checker uses a captured struct only through its fields and a scalar
  only as a whole; \<open>S\<close> are the names of the structs.
\<close>

primrec shaped :: "node \<Rightarrow> string set \<Rightarrow> bool"
where
  "shaped (Program ds) = (\<lambda>S. True)"
| "shaped (Struct_decl d) = (\<lambda>S. True)"
| "shaped (Enum_decl d) = (\<lambda>S. True)"
| "shaped (Trait_decl d) = (\<lambda>S. True)"
| "shaped (Impl_decl t u ms) = (\<lambda>S. True)"
| "shaped (Type_alias_decl d) = (\<lambda>S. True)"
| "shaped (Overload_decl t ms) = (\<lambda>S. True)"
| "shaped (Func_decl d b) = (\<lambda>S. True)"
| "shaped (Macro_decl d b) = (\<lambda>S. True)"
| "shaped (Import_decl p) = (\<lambda>S. True)"
| "shaped (Using_decl p) = (\<lambda>S. True)"
| "shaped (Test_decl d b) = (\<lambda>S. True)"
| "shaped (Sublanguage_decl d) = (\<lambda>S. True)"
| "shaped (Sublanguage_registration k) = (\<lambda>S. True)"
| "shaped (Check_hook_decl k) = (\<lambda>S. True)"
| "shaped (Let_stmt v t e) = (\<lambda>S. True)"
| "shaped (Let_else_stmt p e b) = (\<lambda>S. True)"
| "shaped (Let_destructure_stmt d e) = (\<lambda>S. True)"
| "shaped (Const_stmt v t e) = (\<lambda>S. True)"
| "shaped (Var_stmt v t) = (\<lambda>S. True)"
| "shaped (Assign_stmt t v) = (\<lambda>S. True)"
| "shaped (Block_stmt b) = (\<lambda>S. True)"
| "shaped (Arena_stmt b) = (\<lambda>S. True)"
| "shaped (Expr_stmt e) = (\<lambda>S. True)"
| "shaped (Return_stmt vo) = (\<lambda>S. True)"
| "shaped (For_stmt v s eo b) = (\<lambda>S. True)"
| "shaped (While_stmt c p b) = (\<lambda>S. True)"
| "shaped Break_stmt = (\<lambda>S. True)"
| "shaped Continue_stmt = (\<lambda>S. True)"
| "shaped (Release_stmt v) = (\<lambda>S. True)"
| "shaped (Defer_stmt c) = (\<lambda>S. True)"
| "shaped (Select_stmt cs d t tb) = (\<lambda>S. True)"
| "shaped (Literal l) = (\<lambda>S. True)"
| "shaped (Identifier v) = (\<lambda>S. v \<notin> S)"
| "shaped (Generic_func_ref f gs) = (\<lambda>S. True)"
| "shaped (Go_expr s c) = (\<lambda>S. True)"
| "shaped (If_expr c lc t eo) = (\<lambda>S. True)"
| "shaped (Switch_expr v cs) = (\<lambda>S. True)"
| "shaped (Match_expr v cs) = (\<lambda>S. True)"
| "shaped (Unsafe_expr b) = (\<lambda>S. True)"
| "shaped (Await_expr e) = (\<lambda>S. True)"
| "shaped (Inline_asm_expr t ops) = (\<lambda>S. True)"
| "shaped (Binary_expr bop l r) = (\<lambda>S. shaped l S \<and> shaped r S)"
| "shaped (Call_expr f at gs args callee) = (\<lambda>S. True)"
| "shaped (Closure_literal ps b) = (\<lambda>S. True)"
| "shaped (Borrow_expr e) = (\<lambda>S. True)"
| "shaped (Move_expr e) = (\<lambda>S. True)"
| "shaped (Deref_expr e) = (\<lambda>S. True)"
| "shaped (Cast_expr e t) = (\<lambda>S. True)"
| "shaped (Field_expr e f) = (\<lambda>S. case identifier_name e of Some x \<Rightarrow> x \<in> S | None \<Rightarrow> True)"
| "shaped (Struct_literal t fs u) = (\<lambda>S. True)"
| "shaped (Enum_literal en vn fs) = (\<lambda>S. True)"
| "shaped (Tuple_literal es) = (\<lambda>S. True)"
| "shaped (Array_literal es) = (\<lambda>S. True)"
| "shaped (Repeat_array_literal v n) = (\<lambda>S. True)"
| "shaped (Index_expr t i) = (\<lambda>S. True)"
| "shaped (Slice_expr t s e) = (\<lambda>S. True)"
| "shaped (Try_expr e) = (\<lambda>S. True)"

definition slot :: "'a::comm_ring_1 scalars \<Rightarrow> 'a fields \<Rightarrow> string list \<Rightarrow> nat \<Rightarrow> string option \<Rightarrow> 'a" where
  "slot vs fs caps i field = (case field of None \<Rightarrow> vs (caps ! i) | Some f \<Rightarrow> fs (caps ! i) f)"

definition addend_value :: "string \<Rightarrow> string list \<Rightarrow> 'a::comm_ring_1 scalars \<Rightarrow> 'a fields \<Rightarrow> addend \<Rightarrow> 'a" where
  "addend_value bn caps vs fs a = of_int (immediate a) + of_int (awaited_coeff a) * vs bn +
     of_int (captured_coeff a) * slot vs fs caps 0 (captured_field_name a) +
     of_int (captured2_coeff a) * slot vs fs caps 1 (captured2_field_name a)"

text \<open>What the resumed state machine computes from the awaited value \<open>w\<close> and the stored captures.\<close>

definition scalar_value :: "string list \<Rightarrow> 'a::comm_ring_1 scalars \<Rightarrow> 'a fields \<Rightarrow> 'a \<Rightarrow> scalar_plan \<Rightarrow> 'a" where
  "scalar_value caps vs fs w p = of_int (sp_immediate p) + of_int (sp_awaited_coeff p) * w +
     of_int (sp_captured_coeff p) * slot vs fs caps 0 (sp_captured_field_name p) +
     of_int (sp_captured2_coeff p) * slot vs fs caps 1 (sp_captured2_field_name p)"

section \<open>Collected forms are right\<close>

lemma add_i64_Some: "add_i64 a b = Some c \<Longrightarrow> c = a + b"
  by (simp add: add_i64_def split: if_splits)

lemma mul_i64_Some: "mul_i64 a b = Some c \<Longrightarrow> c = a * b"
  by (simp add: mul_i64_def split: if_splits)

lemma captureNameIndex_Some: "captureNameIndex x caps = Some i \<Longrightarrow> i < length caps \<and> caps ! i = x"
  by (induction x caps arbitrary: i rule: captureNameIndex.induct) (auto split: if_splits)

text \<open>A captured term names the capture of its slot, with a field exactly when it is a struct.\<close>

definition sound_term :: "string set \<Rightarrow> string list \<Rightarrow> nat \<Rightarrow> string option \<times> string option \<times> int \<Rightarrow> bool" where
  "sound_term S caps i t \<longleftrightarrow> (case t of (name, field, coeff) \<Rightarrow>
     (case name of None \<Rightarrow> field = None \<and> coeff = 0
      | Some x \<Rightarrow> i < length caps \<and> caps ! i = x \<and> (x \<in> S \<longleftrightarrow> field \<noteq> None)))"

definition term_value :: "'a::comm_ring_1 scalars \<Rightarrow> 'a fields \<Rightarrow> string list \<Rightarrow> nat \<Rightarrow>
    string option \<times> string option \<times> int \<Rightarrow> 'a" where
  "term_value vs fs caps i t = (case t of (name, field, coeff) \<Rightarrow> of_int coeff * slot vs fs caps i field)"

lemma merge_term_sound:
  assumes "sound_term S caps i t" "sound_term S caps i t'" "merge_term t t' = Some u"
  shows "sound_term S caps i u \<and> term_value vs fs caps i u = term_value vs fs caps i t + term_value vs fs caps i t'"
proof -
  obtain name field coeff where t: "t = (name, field, coeff)" by (cases t)
  obtain name' field' coeff' where t': "t' = (name', field', coeff')" by (cases t')
  show ?thesis
  proof (cases name')
    case None
    with assms t t' show ?thesis by (auto simp: sound_term_def term_value_def merge_term_def)
  next
    case (Some x)
    with assms(3) t t' obtain n f c where u: "u = (n, f, c)" "merge_name name x = Some n"
      "mergeAddendFieldName field field' coeff' = Some f" "add_i64 coeff coeff' = Some c"
      by (auto simp: merge_term_def bind_eq_Some_conv)
    have c: "c = coeff + coeff'" using u(4) by (rule add_i64_Some)
    show ?thesis
    proof (cases name)
      case None
      with assms(1) t have "field = None" "coeff = 0" by (auto simp: sound_term_def)
      with None u c Some assms(2) t t' show ?thesis
        by (auto simp: sound_term_def term_value_def merge_name_def mergeAddendFieldName_def
            mergeOptionalCaptureField_def split: if_splits option.splits)
    next
      case (Some y)
      with u c assms(1,2) t t' \<open>name' = Some x\<close> have "y = x" "n = Some x" "field = None \<longleftrightarrow> field' = None"
        by (auto simp: sound_term_def merge_name_def split: if_splits)
      with Some u c assms(1,2) t t' \<open>name' = Some x\<close> show ?thesis
        by (auto simp: sound_term_def term_value_def mergeAddendFieldName_def
            mergeOptionalCaptureField_def algebra_simps split: if_splits option.splits)
    qed
  qed
qed

abbreviation first_term :: "addend \<Rightarrow> string option \<times> string option \<times> int" where
  "first_term a \<equiv> (captured_addend_name a, captured_field_name a, captured_coeff a)"

abbreviation second_term :: "addend \<Rightarrow> string option \<times> string option \<times> int" where
  "second_term a \<equiv> (captured2_addend_name a, captured2_field_name a, captured2_coeff a)"

definition sound_addend :: "string set \<Rightarrow> string list \<Rightarrow> addend \<Rightarrow> bool" where
  "sound_addend S caps a \<longleftrightarrow> sound_term S caps 0 (first_term a) \<and> sound_term S caps 1 (second_term a)"

lemma addend_value_terms: "addend_value bn caps vs fs a = of_int (immediate a) + of_int (awaited_coeff a) * vs bn +
    term_value vs fs caps 0 (first_term a) + term_value vs fs caps 1 (second_term a)"
  by (simp add: addend_value_def term_value_def)

lemma sound_no_addend [simp]: "sound_addend S caps no_addend" "addend_value bn caps vs fs no_addend = 0"
  by (simp_all add: sound_addend_def sound_term_def no_addend_def addend_value_def)

lemma add_addend_sound:
  assumes "sound_addend S caps a" "sound_addend S caps b" "addAsyncContinuationAddend a b = Some c"
  shows "sound_addend S caps c \<and> addend_value bn caps vs fs c = addend_value bn caps vs fs a + addend_value bn caps vs fs b"
proof -
  from assms(3) obtain i w t1 t2 where c: "add_i64 (immediate a) (immediate b) = Some i"
    "add_i64 (awaited_coeff a) (awaited_coeff b) = Some w"
    "merge_term (first_term a) (first_term b) = Some t1" "merge_term (second_term a) (second_term b) = Some t2"
    "immediate c = i" "awaited_coeff c = w" "first_term c = t1" "second_term c = t2"
    by (auto simp: addAsyncContinuationAddend_def bind_eq_Some_conv)
  from assms(1,2) have s: "sound_term S caps 0 (first_term a)" "sound_term S caps 1 (second_term a)"
    "sound_term S caps 0 (first_term b)" "sound_term S caps 1 (second_term b)"
    by (auto simp: sound_addend_def)
  from merge_term_sound [OF s(1,3) c(3), of vs fs] merge_term_sound [OF s(2,4) c(4), of vs fs]
  show ?thesis
    unfolding sound_addend_def addend_value_terms c(5-8) add_i64_Some [OF c(1)] add_i64_Some [OF c(2)]
    by (simp add: algebra_simps)
qed

lemma scale_sound:
  assumes "sound_addend S caps a" "scaleAsyncContinuationAddend a k = Some b"
  shows "sound_addend S caps b \<and> addend_value bn caps vs fs b = of_int k * addend_value bn caps vs fs a"
proof -
  from assms(2) obtain i w c c2 where b: "mul_i64 (immediate a) k = Some i" "mul_i64 (awaited_coeff a) k = Some w"
    "mul_i64 (captured_coeff a) k = Some c" "mul_i64 (captured2_coeff a) k = Some c2"
    "b = a\<lparr>immediate := i, awaited_coeff := w, captured_coeff := c, captured2_coeff := c2\<rparr>"
    by (auto simp: scaleAsyncContinuationAddend_def bind_eq_Some_conv)
  note eqs = b(1-4) [THEN mul_i64_Some]
  show ?thesis using assms(1)
    by (auto simp: b(5) eqs sound_addend_def sound_term_def addend_value_def algebra_simps split: option.splits)
qed

lemma captured_term_sound:
  assumes "addAsyncContinuationCapturedTerm no_addend x field 1 caps = Some a" "x \<in> S \<longleftrightarrow> field \<noteq> None"
  shows "sound_addend S caps a \<and>
    addend_value bn caps vs fs a = (case field of None \<Rightarrow> vs x | Some f \<Rightarrow> fs x f)"
proof -
  from assms(1) obtain i where i: "captureNameIndex x caps = Some i"
    by (auto simp: addAsyncContinuationCapturedTerm_def split: option.splits)
  note at = captureNameIndex_Some [OF i]
  have "i = 0 \<or> i = 1"
    using assms(1) i by (auto simp: addAsyncContinuationCapturedTerm_def split: if_splits)
  then show ?thesis
    using assms i at
    by (auto simp: addAsyncContinuationCapturedTerm_def no_addend_def merge_name_def mergeOptionalCaptureField_def
        add_i64_def sound_addend_def sound_term_def addend_value_def slot_def split: option.splits)
qed

lemma intLiteral_eval: "intLiteral e = Some i \<Longrightarrow> eval_expr e vs fs = of_int i"
  by (cases e) (auto split: literal.splits)

lemma collect_sound:
  assumes "bn \<notin> S"
  shows "collectAsyncContinuationAddend e bn caps no_addend = Some a \<Longrightarrow> shaped e S \<Longrightarrow>
     sound_addend S caps a \<and> addend_value bn caps vs fs a = eval_expr e vs fs"
    "sel = (sel :: select_case)"
    "il = (il :: if_let_cond)"
    "sc = (sc :: switch_case)"
    "mc = (mc :: match_case)"
    "sf = (sf :: struct_literal_field)"
    "ef = (ef :: enum_literal_field)"
proof (induct e and sel and il and sc and mc and sf and ef arbitrary: a
    rule: node.induct select_case.induct if_let_cond.induct switch_case.induct match_case.induct
      struct_literal_field.induct enum_literal_field.induct)
  case (Literal l)
  then show ?case
    by (auto simp: no_addend_def sound_addend_def sound_term_def addend_value_def split: literal.splits)
next
  case (Identifier v)
  show ?case
  proof (cases "v = bn")
    case True
    with Identifier show ?thesis
      by (auto simp: no_addend_def sound_addend_def sound_term_def addend_value_def)
  next
    case False
    with Identifier captured_term_sound [of v None caps a S bn vs fs] show ?thesis by simp
  qed
next
  case (Field_expr e f)
  then obtain x where "identifier_name e = Some x" by (auto split: option.splits)
  with Field_expr captured_term_sound [of x "Some f" caps a S bn vs fs] show ?case by simp
next
  case (Binary_expr bop l r)
  show ?case
  proof (cases "bop = Bop_mul")
    case True
    show ?thesis
    proof (cases "intLiteral l")
      case None
      with True Binary_expr.prems obtain j n m where j: "intLiteral r = Some j"
        "collectAsyncContinuationAddend l bn caps no_addend = Some n" "scaleAsyncContinuationAddend n j = Some m"
        "addAsyncContinuationAddend no_addend m = Some a"
        by (auto simp: bind_eq_Some_conv split: option.splits)
      from Binary_expr.hyps(1) [OF j(2)] Binary_expr.prems(2) have n: "sound_addend S caps n"
        "addend_value bn caps vs fs n = eval_expr l vs fs" by auto
      from scale_sound [OF n(1) j(3), of bn vs fs] have m: "sound_addend S caps m"
        "addend_value bn caps vs fs m = of_int j * addend_value bn caps vs fs n" by auto
      from add_addend_sound [OF sound_no_addend(1) m(1) j(4), of bn vs fs] m n intLiteral_eval [OF j(1), of vs fs] True
      show ?thesis by (simp add: mult.commute)
    next
      case (Some i)
      with True Binary_expr.prems obtain n m where j:
        "collectAsyncContinuationAddend r bn caps no_addend = Some n" "scaleAsyncContinuationAddend n i = Some m"
        "addAsyncContinuationAddend no_addend m = Some a"
        by (auto simp: bind_eq_Some_conv split: option.splits)
      from Binary_expr.hyps(2) [OF j(1)] Binary_expr.prems(2) have n: "sound_addend S caps n"
        "addend_value bn caps vs fs n = eval_expr r vs fs" by auto
      from scale_sound [OF n(1) j(2), of bn vs fs] have m: "sound_addend S caps m"
        "addend_value bn caps vs fs m = of_int i * addend_value bn caps vs fs n" by auto
      from add_addend_sound [OF sound_no_addend(1) m(1) j(3), of bn vs fs] m n intLiteral_eval [OF Some, of vs fs] True
      show ?thesis by simp
    qed
  next
    case False
    with Binary_expr.prems have bop: "bop = Bop_add \<or> bop = Bop_sub" by (auto split: if_splits)
    with False Binary_expr.prems obtain p q q' u where pq:
      "collectAsyncContinuationAddend l bn caps no_addend = Some p"
      "collectAsyncContinuationAddend r bn caps no_addend = Some q"
      "(if bop = Bop_sub then scaleAsyncContinuationAddend q (- 1) else Some q) = Some q'"
      "addAsyncContinuationAddend no_addend p = Some u" "addAsyncContinuationAddend u q' = Some a"
      by (auto simp: bind_eq_Some_conv simp del: split_paired_Ex)
    from Binary_expr.hyps(1) [OF pq(1)] Binary_expr.prems(2) have p: "sound_addend S caps p"
      "addend_value bn caps vs fs p = eval_expr l vs fs" by auto
    from Binary_expr.hyps(2) [OF pq(2)] Binary_expr.prems(2) have q: "sound_addend S caps q"
      "addend_value bn caps vs fs q = eval_expr r vs fs" by auto
    from pq(3) q scale_sound [OF q(1), of "- 1" q' bn vs fs] have q': "sound_addend S caps q'"
      "addend_value bn caps vs fs q' = (if bop = Bop_sub then - eval_expr r vs fs else eval_expr r vs fs)"
      by (auto split: if_splits)
    from add_addend_sound [OF sound_no_addend(1) p(1) pq(4), of bn vs fs] p have u: "sound_addend S caps u"
      "addend_value bn caps vs fs u = eval_expr l vs fs" by auto
    from add_addend_sound [OF u(1) q'(1) pq(5), of bn vs fs] u q' bop show ?thesis by auto
  qed
qed simp_all

lemma scalar_expr_sound:
  assumes "asyncContinuationScalarExpr e bn caps = Some a" "shaped e S" "bn \<notin> S"
  shows "sound_addend S caps a" "addend_value bn caps vs fs a = eval_expr e vs fs"
  using assms collect_sound(1) [OF assms(3), of e caps a vs fs]
  by (auto simp: asyncContinuationScalarExpr_def bind_eq_Some_conv split: if_splits)

section \<open>Composition\<close>

lemma merge_scalar_field:
  assumes "mergeScalarFieldName f b g e = Some h"
  shows "of_int (b + e) * slot vs fs caps i h = of_int b * slot vs fs caps i f + of_int e * slot vs fs caps i g"
  using assms by (auto simp: mergeScalarFieldName_def algebra_simps split: if_splits option.splits)

lemma slot_upd: "i < length caps \<or> c = 0 \<Longrightarrow> x \<notin> set caps \<Longrightarrow>
    of_int c * slot (vs(x := y)) fs caps i f = of_int c * slot vs fs caps i f"
  by (cases f) (auto simp: slot_def)

text \<open>A plan whose active slots are captures.\<close>

definition stored :: "string list \<Rightarrow> scalar_plan \<Rightarrow> bool" where
  "stored caps p \<longleftrightarrow> (sp_captured_coeff p \<noteq> 0 \<longrightarrow> 0 < length caps) \<and> (sp_captured2_coeff p \<noteq> 0 \<longrightarrow> 1 < length caps)"

lemma sound_addend_stored: "sound_addend S caps a \<Longrightarrow>
    (captured_coeff a \<noteq> 0 \<longrightarrow> captured_addend_name a = Some (caps ! 0) \<and> 0 < length caps) \<and>
    (captured2_coeff a \<noteq> 0 \<longrightarrow> captured2_addend_name a = Some (caps ! 1) \<and> 1 < length caps)"
  by (auto simp: sound_addend_def sound_term_def split: option.splits)

lemma compose_sound:
  assumes "composeContinuationScalar base a = Some p" "vs x = scalar_value caps vs' fs w base"
    "\<forall>c \<in> set caps. vs c = vs' c" "stored caps base" "sound_addend S caps a"
  shows "scalar_value caps vs' fs w p = addend_value x caps vs fs a" "stored caps p"
proof -
  from assms(1) obtain aw bc c bc2 c2 f f2 bi i where p:
    "mul_i64 (sp_awaited_coeff base) (awaited_coeff a) = Some aw"
    "mul_i64 (sp_captured_coeff base) (awaited_coeff a) = Some bc" "add_i64 bc (captured_coeff a) = Some c"
    "mul_i64 (sp_captured2_coeff base) (awaited_coeff a) = Some bc2" "add_i64 bc2 (captured2_coeff a) = Some c2"
    "mergeScalarFieldName (sp_captured_field_name base) bc (captured_field_name a) (captured_coeff a) = Some f"
    "mergeScalarFieldName (sp_captured2_field_name base) bc2 (captured2_field_name a) (captured2_coeff a) = Some f2"
    "mul_i64 (sp_immediate base) (awaited_coeff a) = Some bi" "add_i64 bi (immediate a) = Some i"
    "p = \<lparr>sp_awaited_coeff = aw, sp_captured_coeff = c, sp_captured2_coeff = c2,
         sp_captured_field_name = f, sp_captured2_field_name = f2, sp_immediate = i\<rparr>"
    by (auto simp: composeContinuationScalar_def bind_eq_Some_conv)
  note eqs = p(1,2,4,8) [THEN mul_i64_Some] p(3,5,9) [THEN add_i64_Some]
  note merged = merge_scalar_field [OF p(6), of vs' fs caps 0] merge_scalar_field [OF p(7), of vs' fs caps 1]
  have same: "of_int (captured_coeff a) * slot vs fs caps 0 (captured_field_name a) =
      of_int (captured_coeff a) * slot vs' fs caps 0 (captured_field_name a)"
    "of_int (captured2_coeff a) * slot vs fs caps 1 (captured2_field_name a) =
      of_int (captured2_coeff a) * slot vs' fs caps 1 (captured2_field_name a)"
    using sound_addend_stored [OF assms(5)] assms(3) by (auto simp: slot_def split: option.splits)
  show "scalar_value caps vs' fs w p = addend_value x caps vs fs a"
    using merged unfolding addend_value_def same assms(2) scalar_value_def p(10)
    by (simp add: eqs algebra_simps)
  show "stored caps p"
    using sound_addend_stored [OF assms(5)] assms(4) by (auto simp: stored_def p(10) eqs)
qed

section \<open>Continuations are right\<close>

text \<open>
  The statements after the \<open>await\<close> in order, then the returned expression; \<open>cmp\<close> compares values.
\<close>

fun post_values :: "node list \<Rightarrow> 'a::comm_ring_1 scalars \<Rightarrow> 'a fields \<Rightarrow> 'a scalars" where
  "post_values [] vs fs = vs"
| "post_values (s # ss) vs fs =
     (case let_payload s of Some (x, e) \<Rightarrow> post_values ss (vs(x := eval_expr e vs fs)) fs | None \<Rightarrow> vs)"

fun post_names :: "node list \<Rightarrow> string list" where
  "post_names [] = []"
| "post_names (s # ss) = (case let_payload s of Some (x, e) \<Rightarrow> x # post_names ss | None \<Rightarrow> [])"

definition post_shaped :: "node list \<Rightarrow> string set \<Rightarrow> bool" where
  "post_shaped ss S \<longleftrightarrow> (\<forall>s \<in> set ss. \<forall>x e. let_payload s = Some (x, e) \<longrightarrow> shaped e S)"

lemma post_loop_sound:
  assumes "post_loop caps ss s = Some s'" "vs (ps_name s) = scalar_value caps vs' fs w (ps_scalar s)"
    "\<forall>c \<in> set caps. vs c = vs' c" "stored caps (ps_scalar s)" "post_shaped ss S" "ps_name s \<notin> S"
    "set (post_names ss) \<inter> (set caps \<union> S) = {}"
  shows "post_values ss vs fs (ps_name s') = scalar_value caps vs' fs w (ps_scalar s') \<and>
    (\<forall>c \<in> set caps. post_values ss vs fs c = vs' c) \<and> stored caps (ps_scalar s') \<and> ps_name s' \<notin> S"
  using assms
proof (induction caps ss s arbitrary: vs rule: post_loop.induct)
  case (2 caps stmt stmts s)
  from "2.prems"(1) obtain x e a p where stmt: "let_payload stmt = Some (x, e)"
    "asyncContinuationScalarExpr e (ps_name s) caps = Some a" "\<not> (\<not> has_await_binding a \<or> awaited_coeff a = 0)"
    "composeContinuationScalar (ps_scalar s) a = Some p"
    by (auto simp: bind_eq_Some_conv split: option.splits if_splits)
  let ?s = "\<lparr>ps_name = x, ps_scalar = p,
    ps_capture_name = or_else (captured_addend_name a) (ps_capture_name s),
    ps_capture2_name = or_else (captured2_addend_name a) (ps_capture2_name s),
    ps_capture_field_name = or_else (captured_field_name a) (ps_capture_field_name s),
    ps_capture2_field_name = or_else (captured2_field_name a) (ps_capture2_field_name s)\<rparr>"
  from "2.prems"(1) stmt have loop: "post_loop caps stmts ?s = Some s'" by simp
  have "shaped e S" using "2.prems"(5) stmt(1) by (auto simp: post_shaped_def)
  note a = scalar_expr_sound [OF stmt(2) this "2.prems"(6)]
  note p = compose_sound [OF stmt(4) "2.prems"(2,3,4) a(1)]
  have x: "x \<notin> set caps" "x \<notin> S" using "2.prems"(7) stmt(1) by auto
  let ?vs = "vs(x := eval_expr e vs fs)"
  have "?vs (ps_name ?s) = scalar_value caps vs' fs w (ps_scalar ?s)"
    using p(1) a(2) [of vs fs] by simp
  moreover have "\<forall>c \<in> set caps. ?vs c = vs' c" using "2.prems"(3) x by auto
  moreover have "post_shaped stmts S" using "2.prems"(5) by (simp add: post_shaped_def)
  moreover have "set (post_names stmts) \<inter> (set caps \<union> S) = {}" using "2.prems"(7) stmt(1) by auto
  ultimately have "post_values stmts ?vs fs (ps_name s') = scalar_value caps vs' fs w (ps_scalar s') \<and>
      (\<forall>c \<in> set caps. post_values stmts ?vs fs c = vs' c) \<and> stored caps (ps_scalar s') \<and> ps_name s' \<notin> S"
    using "2.IH" [OF stmt(1) refl stmt(2) stmt(3) stmt(4) loop, of ?vs] p(2) x(2)
    by (simp del: fun_upd_apply)
  then show ?case using stmt(1) by (simp del: fun_upd_apply)
qed simp

text \<open>
  The value of the whole continuation in the source, and what the plan makes of it: a branch on the
  awaited value, or one scalar.
\<close>

definition return_value :: "(binary_op \<Rightarrow> 'a \<Rightarrow> 'a \<Rightarrow> bool) \<Rightarrow> node \<Rightarrow> 'a::comm_ring_1 scalars \<Rightarrow> 'a fields \<Rightarrow> 'a" where
  "return_value cmp ret vs fs =
     (case if_payload ret of
        Some (c, None, t, Some e) \<Rightarrow>
          (case (binary_payload c, continuationBlockTailExpr t, continuationBlockTailExpr e) of
             (Some (bop, l, r), Some t', Some e') \<Rightarrow>
               if cmp bop (eval_expr l vs fs) (eval_expr r vs fs) then eval_expr t' vs fs else eval_expr e' vs fs
           | _ \<Rightarrow> 0)
      | _ \<Rightarrow> eval_expr ret vs fs)"

definition plan_value :: "(binary_op \<Rightarrow> 'a \<Rightarrow> 'a \<Rightarrow> bool) \<Rightarrow> string list \<Rightarrow> 'a::comm_ring_1 scalars \<Rightarrow> 'a fields \<Rightarrow> 'a \<Rightarrow>
    continuation_result \<Rightarrow> 'a" where
  "plan_value cmp caps vs fs w res =
     (case cr_branch res of
        None \<Rightarrow> scalar_value caps vs fs w (cr_scalar res)
      | Some b \<Rightarrow> if cmp (br_condition_op b) w (of_int (br_threshold b))
          then scalar_value caps vs fs w (br_then_scalar b) else scalar_value caps vs fs w (br_else_scalar b))"

definition return_shaped :: "node \<Rightarrow> string set \<Rightarrow> bool" where
  "return_shaped ret S \<longleftrightarrow>
     (case if_payload ret of
        Some (c, None, t, Some e) \<Rightarrow>
          pred_option (\<lambda>x. shaped x S) (continuationBlockTailExpr t) \<and>
          pred_option (\<lambda>x. shaped x S) (continuationBlockTailExpr e)
      | _ \<Rightarrow> shaped ret S)"

lemma identifier_name_eval: "identifier_name e = Some x \<Longrightarrow> eval_expr e vs fs = vs x"
  by (cases e) auto

lemma identifier_name_return: "identifier_name e = Some x \<Longrightarrow> return_value cmp e vs fs = vs x"
  by (cases e) (auto simp: return_value_def)

lemma collected_return:
  "collectAsyncContinuationAddend e bn caps a = Some b \<Longrightarrow> if_payload e = None"
  by (cases e) auto

lemma scalar_of_addend: "scalar_value caps vs fs (vs bn) (scalarPlanFromAddend a) = addend_value bn caps vs fs a"
  by (simp add: scalar_value_def scalarPlanFromAddend_def addend_value_def)

lemma addend_value_no_captures: "sound_addend S [] a \<Longrightarrow> addend_value x [] vs fs a = addend_value x caps vs fs a"
  by (auto simp: sound_addend_def sound_term_def addend_value_def split: option.splits)

lemma sound_addend_no_captures: "sound_addend S [] a \<Longrightarrow> sound_addend S caps a"
  by (auto simp: sound_addend_def sound_term_def split: option.splits)

lemma branch_sound:
  assumes "asyncContinuationBranch ret bn capture = Some res" "return_shaped ret S" "bn \<notin> S"
    "caps = (case capture of Some c \<Rightarrow> [c] | None \<Rightarrow> [])"
  shows "plan_value cmp caps vs fs (vs bn) res = return_value cmp ret vs fs"
proof -
  from assms(1) obtain c t e where ret: "if_payload ret = Some (c, None, t, Some e)"
    by (auto simp: asyncContinuationBranch_def split: option.splits)
  with assms(1,4) obtain bop th t' e' ta ea where parts:
    "branchConditionPlan c bn = Some (bop, th)"
    "continuationBlockTailExpr t = Some t'" "continuationBlockTailExpr e = Some e'"
    "asyncContinuationScalarExpr t' bn caps = Some ta" "asyncContinuationScalarExpr e' bn caps = Some ea"
    "cr_branch res = Some \<lparr>br_condition_op = bop, br_threshold = th,
       br_then_scalar = scalarPlanFromAddend ta, br_else_scalar = scalarPlanFromAddend ea\<rparr>"
    by (auto simp: asyncContinuationBranch_def bind_eq_Some_conv Let_def)
  from parts(1) obtain l r where cond: "binary_payload c = Some (bop, l, r)" "identifier_name l = Some bn"
    "intLiteral r = Some th"
    by (auto simp: branchConditionPlan_def split: option.splits if_splits)
  have shapes: "shaped t' S" "shaped e' S"
    using assms(2) ret parts(2,3) by (auto simp: return_shaped_def)
  show ?thesis
    using scalar_expr_sound(2) [OF parts(4) shapes(1) assms(3), of vs fs]
      scalar_expr_sound(2) [OF parts(5) shapes(2) assms(3), of vs fs]
      identifier_name_eval [OF cond(2), of vs fs] intLiteral_eval [OF cond(3), of vs fs]
    by (simp add: plan_value_def return_value_def ret parts cond scalar_of_addend)
qed

text \<open>C24: the plan of a continuation computes what the source computes.  When
  \<open>asyncContinuationResult\<close> plans the code after an \<open>await\<close>, the captured structs are used through
  their fields, and the names after the \<open>await\<close> are new (the type checker rejects redeclarations),
  then for every awaited value, all captured values and every comparison, in every commutative ring,
  the coefficients of the plan give the value that the statements and the returned expression have.\<close>

theorem continuation_plan_correct:
  fixes vs :: "'a::comm_ring_1 scalars"
  assumes "asyncContinuationResult bn caps post_stmts ret = Some res"
    "bn \<notin> S" "set (post_names post_stmts) \<inter> (set caps \<union> S) = {}" "post_shaped post_stmts S"
    "return_shaped ret S"
  shows "plan_value cmp caps vs fs (vs bn) res = return_value cmp ret (post_values post_stmts vs fs) fs"
proof (cases "post_stmts = []")
  case True
  show ?thesis
  proof (cases "length caps \<le> 1 \<and>
      asyncContinuationBranch ret bn (if length caps = 1 then Some (caps ! 0) else None) \<noteq> None")
    case branch: True
    then have caps: "caps = (case (if length caps = 1 then Some (caps ! 0) else None) of Some c \<Rightarrow> [c] | None \<Rightarrow> [])"
      by (cases caps) auto
    from branch True assms(1)
    have "asyncContinuationBranch ret bn (if length caps = 1 then Some (caps ! 0) else None) = Some res"
      by (auto simp: asyncContinuationResult_def Let_def split: option.splits)
    from branch_sound [OF this assms(5,2) caps] True show ?thesis by simp
  next
    case False
    with True assms(1) obtain a where a: "asyncContinuationAddend ret bn caps = Some a"
      "cr_branch res = None" "cr_scalar res = scalarPlanFromAddend a"
      by (auto simp: asyncContinuationResult_def Let_def split: option.splits if_splits)
    then have coll: "collectAsyncContinuationAddend ret bn caps no_addend = Some a"
      by (auto simp: asyncContinuationAddend_def bind_eq_Some_conv split: if_splits)
    from collected_return [OF coll] assms(5) have "shaped ret S" by (simp add: return_shaped_def)
    with collect_sound(1) [OF assms(2) coll, of vs fs] a True collected_return [OF coll] show ?thesis
      by (simp add: plan_value_def return_value_def scalar_of_addend)
  qed
next
  case False
  define s0 where "s0 = \<lparr>ps_name = bn, ps_scalar = identity_scalar, ps_capture_name = None,
    ps_capture2_name = None, ps_capture_field_name = None, ps_capture2_field_name = None\<rparr>"
  from False assms(1) obtain s where loop: "post_loop caps post_stmts s0 = Some s"
    "(if identifier_name ret = Some (ps_name s) then Some (post_result s (ps_scalar s))
      else Option.bind (asyncContinuationScalarExpr ret (ps_name s) []) (\<lambda>a.
        if \<not> has_await_binding a \<or> awaited_coeff a = 0 then None
        else map_option (post_result s) (composeContinuationScalar (ps_scalar s) a))) = Some res"
    unfolding s0_def by (auto simp: asyncContinuationResult_def bind_eq_Some_conv split: if_splits)
  let ?vs = "post_values post_stmts vs fs"
  have "vs (ps_name s0) = scalar_value caps vs fs (vs bn) (ps_scalar s0)" "stored caps (ps_scalar s0)" "ps_name s0 \<notin> S"
    using assms(2) by (simp_all add: s0_def identity_scalar_def scalar_value_def stored_def)
  with post_loop_sound [OF loop(1), of vs vs fs "vs bn" S] assms(3,4)
  have s: "?vs (ps_name s) = scalar_value caps vs fs (vs bn) (ps_scalar s)"
    "\<forall>c \<in> set caps. ?vs c = vs c" "stored caps (ps_scalar s)" "ps_name s \<notin> S" by auto
  show ?thesis
  proof (cases "identifier_name ret = Some (ps_name s)")
    case True
    with loop(2) have "res = post_result s (ps_scalar s)" by simp
    with s(1) identifier_name_return [OF True, of cmp ?vs fs] show ?thesis
      by (simp add: plan_value_def post_result_def)
  next
    case no_name: False
    with loop(2) obtain a p where a: "asyncContinuationScalarExpr ret (ps_name s) [] = Some a"
      "composeContinuationScalar (ps_scalar s) a = Some p" "res = post_result s p"
      by (auto simp: bind_eq_Some_conv split: if_splits)
    then have "if_payload ret = None"
      using collected_return by (auto simp: asyncContinuationScalarExpr_def bind_eq_Some_conv split: if_splits)
    with assms(5) have "shaped ret S" by (simp add: return_shaped_def)
    note sound = scalar_expr_sound [OF a(1) this s(4)]
    have "scalar_value caps vs fs (vs bn) p = addend_value (ps_name s) caps ?vs fs a"
      by (rule compose_sound(1) [OF a(2) s(1,2,3) sound_addend_no_captures [OF sound(1)]])
    also have "\<dots> = eval_expr ret ?vs fs"
      using addend_value_no_captures [OF sound(1), of "ps_name s" ?vs fs caps] sound(2) [of ?vs fs] by simp
    finally show ?thesis
      using a(3) \<open>if_payload ret = None\<close> by (simp add: plan_value_def post_result_def return_value_def)
  qed
qed


lemmas continuation_eval =
  asyncContinuationResult_def asyncContinuationScalarExpr_def composeContinuationScalar_def no_addend_def
  identity_scalar_def addAsyncContinuationCapturedTerm_def addAsyncContinuationAddend_def merge_term_def
  scaleAsyncContinuationAddend_def mergeAddendFieldName_def mergeOptionalCaptureField_def merge_name_def
  mergeScalarFieldName_def addendHasInvalidCapture_def or_else_def add_i64_def mul_i64_def

text \<open>After \<open>v\<close> is awaited: \<open>let p = v * 2 + x; p + 1\<close>.\<close>

definition doubled_post :: node where
  "doubled_post = Let_stmt ''p'' None
     (Binary_expr Bop_add (Binary_expr Bop_mul (Identifier ''v'') (Literal (Int_val 2))) (Identifier ''x''))"

definition doubled_return :: node where
  "doubled_return = Binary_expr Bop_add (Identifier ''p'') (Literal (Int_val 1))"

theorem continuation_plan_correct_witness:
  "\<exists>res. asyncContinuationResult ''v'' [''x''] [doubled_post] doubled_return = Some res \<and>
    plan_value (\<lambda>_. (\<le>)) [''x''] (\<lambda>y. if y = ''v'' then 20 else 1) (\<lambda>_ _. 0) (20 :: int) res = 42"
proof -
  obtain res where res: "asyncContinuationResult ''v'' [''x''] [doubled_post] doubled_return = Some res"
    by (simp add: doubled_post_def doubled_return_def continuation_eval)
  have side: "''v'' \<notin> ({} :: string set)" "set (post_names [doubled_post]) \<inter> (set [''x''] \<union> {}) = {}"
    "post_shaped [doubled_post] {}" "return_shaped doubled_return {}"
    by (simp_all add: doubled_post_def doubled_return_def post_shaped_def return_shaped_def)
  show ?thesis
    using res continuation_plan_correct [OF res side, of "\<lambda>_. (\<le>)" "\<lambda>y. if y = ''v'' then 20 else 1 :: int" "\<lambda>_ _. 0"]
    by (simp add: doubled_post_def doubled_return_def return_value_def)
qed

end
