(* ===== verification/Sla_Parse.thy ===== *)
theory Sla_Parse
  imports Sla_Prelude Sla_Lexer Sla_Ast
begin

text \<open>
  The cursor of \<open>src/parser.zig\<close> and the grammar of types.  The scanner and the current token of the
  parser are the list of the tokens that are left, each with its lexeme, the current one first; past
  the end every token is \<open>eof\<close>.  A parsing method is a function of the state that fails, gives a
  value, or runs out of the fuel that bounds the depth of its recursion; a failure keeps the state
  it left, which a method that tries an alternative sees.  The methods that call each other are
  functions of the \<open>grammar\<close> they call; \<open>Sla_Parse_Stmt\<close> ties them together.
\<close>

section \<open>The cursor\<close>

type_synonym ltoken = "tag \<times> string"

record pstate =
  toks :: "ltoken list"
  type_bang_used :: bool
  synth_counter :: nat

datatype parser_error =
  SyntaxError | UnexpectedToken | UnexpectedInfixToken | InvalidCallTarget | UnexpectedTypeToken
| InvalidCharacter | Overflow | InlineStructNotAllowed | InlineImplNotAllowed | InlineMacroNotAllowed
| ExternBlockRequiresExtern | ExpectedDeclaration | SublanguageNotBound
| Panics  \<comment> \<open>the abort of checked arithmetic\<close>

datatype 'a outcome = Out_of_fuel | Fails parser_error pstate | Gives 'a pstate

type_synonym 'a pm = "pstate \<Rightarrow> 'a outcome"

definition ret_p :: "'a \<Rightarrow> 'a pm" where
  "ret_p x st = Gives x st"

definition fail_p :: "parser_error \<Rightarrow> 'a pm" where
  "fail_p e st = Fails e st"

definition out_p :: "'a pm" where
  "out_p st = Out_of_fuel"

definition bind_p :: "'a pm \<Rightarrow> ('a \<Rightarrow> 'b pm) \<Rightarrow> 'b pm" where
  "bind_p m f st =
     (case m st of Out_of_fuel \<Rightarrow> Out_of_fuel | Fails e st' \<Rightarrow> Fails e st' | Gives x st' \<Rightarrow> f x st')"

text \<open>\<open>m catch break :blk null\<close>.\<close>

definition attempt :: "'a pm \<Rightarrow> 'a option pm" where
  "attempt m st =
     (case m st of Out_of_fuel \<Rightarrow> Out_of_fuel | Fails e st' \<Rightarrow> Gives None st' | Gives x st' \<Rightarrow> Gives (Some x) st')"

text \<open>What the declarations before and around a body have recorded; \<open>float_of\<close> is \<open>std.fmt.parseFloat\<close>.\<close>

record scope =
  known_types :: "string list"
  known_enums :: "string list"
  known_modules :: "string list"
  current_impl_target :: "ty option"
  float_of :: "string \<Rightarrow> 64 word option"

definition tag_at :: "nat \<Rightarrow> ltoken list \<Rightarrow> tag" where
  "tag_at i ts = (if i < length ts then fst (ts ! i) else T_eof)"

definition p_peek :: "tag pm" where
  "p_peek st = Gives (tag_at 0 (toks st)) st"

definition p_look :: "(ltoken list \<Rightarrow> 'a) \<Rightarrow> 'a pm" where
  "p_look f st = Gives (f (toks st)) st"

definition p_lexeme :: "string pm" where
  "p_lexeme st = Gives (case toks st of [] \<Rightarrow> [] | t # ts \<Rightarrow> snd t) st"

definition p_advance :: "unit pm" where
  "p_advance st = Gives () (st\<lparr>toks := tl (toks st)\<rparr>)"

definition p_match :: "tag \<Rightarrow> bool pm" where
  "p_match t =
     bind_p p_peek (\<lambda>s.
     if s = t then (bind_p p_advance (\<lambda>_.
       ret_p True)) else ret_p False)"

definition p_expect :: "tag \<Rightarrow> unit pm" where
  "p_expect t =
     bind_p p_peek (\<lambda>s.
     if s \<noteq> t then fail_p SyntaxError else p_advance)"

text \<open>\<open>const tok = self.tok; try self.expect(tag); self.lexeme(tok.loc)\<close>.\<close>

definition p_take :: "tag \<Rightarrow> string pm" where
  "p_take t = bind_p p_lexeme (\<lambda>s.
     bind_p (p_expect t) (\<lambda>_.
     ret_p s))"

definition expectGenericClose :: "unit pm" where
  "expectGenericClose st =
     (case toks st of
        (t, s) # ts \<Rightarrow>
          if t = T_punct P_greater_than then Gives () (st\<lparr>toks := ts\<rparr>)
          else if t = T_punct P_greater_greater then Gives () (st\<lparr>toks := (T_punct P_greater_than, tl s) # ts\<rparr>)
          else Fails SyntaxError st
      | [] \<Rightarrow> Fails SyntaxError st)"

section \<open>Loops\<close>

text \<open>
  A loop goes through the tokens; the token \<open>>>\<close>, which \<open>expectGenericClose\<close> takes in two steps, counts
  twice.  \<open>Inl\<close> is the state of the next round, \<open>Inr\<close> the result.
\<close>

definition weight :: "ltoken list \<Rightarrow> nat" where
  "weight ts = sum_list (map (\<lambda>t. if fst t = T_punct P_greater_greater then 2 else 1) ts)"

fun loop_p :: "nat \<Rightarrow> ('s \<Rightarrow> ('s + 'r) pm) \<Rightarrow> 's \<Rightarrow> 'r pm" where
  "loop_p 0 body s = out_p"
| "loop_p (Suc n) body s =
     bind_p (body s) (\<lambda>r.
     (case r of Inl s' \<Rightarrow> loop_p n body s' | Inr x \<Rightarrow> ret_p x))"

definition while_p :: "('s \<Rightarrow> ('s + 'r) pm) \<Rightarrow> 's \<Rightarrow> 'r pm" where
  "while_p body s st = loop_p (Suc (weight (toks st))) body s st"

text \<open>
  The three shapes of list loops: up to the closing token with a comma between the items, at least
  one item, and up to the closing token with commas that may be left out.
\<close>

definition comma_step :: "tag \<Rightarrow> 'a pm \<Rightarrow> 'a list \<Rightarrow> ('a list + 'a list) pm" where
  "comma_step close item xs =
     bind_p p_peek (\<lambda>t.
     if t = close \<or> t = T_eof then ret_p (Inr xs)
       else (bind_p item (\<lambda>x.
       bind_p (p_match (T_punct P_comma)) (\<lambda>m.
       ret_p (if m then Inl (xs @ [x]) else Inr (xs @ [x]))))))"

definition comma_list :: "tag \<Rightarrow> 'a pm \<Rightarrow> 'a list pm" where
  "comma_list close item = while_p (comma_step close item) []"

definition some_step :: "'a pm \<Rightarrow> 'a list \<Rightarrow> ('a list + 'a list) pm" where
  "some_step item xs =
     bind_p item (\<lambda>x.
     bind_p (p_match (T_punct P_comma)) (\<lambda>m.
     ret_p (if m then Inl (xs @ [x]) else Inr (xs @ [x]))))"

definition some_list :: "'a pm \<Rightarrow> 'a list pm" where
  "some_list item = while_p (some_step item) []"

definition loose_step :: "tag \<Rightarrow> 'a pm \<Rightarrow> 'a list \<Rightarrow> ('a list + 'a list) pm" where
  "loose_step close item xs =
     bind_p p_peek (\<lambda>t.
     if t = close \<or> t = T_eof then ret_p (Inr xs)
       else (bind_p item (\<lambda>x.
       bind_p (p_match (T_punct P_comma)) (\<lambda>m.
       ret_p (Inl (xs @ [x]))))))"

definition loose_list :: "tag \<Rightarrow> 'a pm \<Rightarrow> 'a list pm" where
  "loose_list close item = while_p (loose_step close item) []"

section \<open>Types\<close>

text \<open>The methods that are called again at a later token.\<close>

record grammar =
  g_expr :: "nat \<Rightarrow> node pm"
  g_if :: "node pm"
  g_block :: "node list pm"
  g_stmt :: "node pm"
  g_type :: "ty pm"

definition stripNumericSeparators :: "string \<Rightarrow> string" where
  "stripNumericSeparators s = filter (\<lambda>c. c \<noteq> CHR ''_'') s"

text \<open>\<open>std.fmt.parseInt\<close> on digits without a sign, up to the bound of the type.\<close>

definition digit_value :: "char \<Rightarrow> nat option" where
  "digit_value c =
     (if is_digit c then Some (byte_val c - 48)
      else if is_lower c then Some (byte_val c - 87)
      else if is_upper c then Some (byte_val c - 55)
      else None)"

fun parse_digits :: "nat \<Rightarrow> nat \<Rightarrow> string \<Rightarrow> nat option" where
  "parse_digits base acc [] = Some acc"
| "parse_digits base acc (c # cs) =
     (case digit_value c of
        None \<Rightarrow> None
      | Some d \<Rightarrow> if d < base then parse_digits base (acc * base + d) cs else None)"

definition parse_uint :: "nat \<Rightarrow> nat \<Rightarrow> string \<Rightarrow> nat option" where
  "parse_uint bound base s =
     (if s = [] then None
      else case parse_digits base 0 s of None \<Rightarrow> None | Some n \<Rightarrow> if n < bound then Some n else None)"

definition or_fail :: "parser_error \<Rightarrow> 'a option \<Rightarrow> 'a pm" where
  "or_fail e x = (case x of None \<Rightarrow> fail_p e | Some y \<Rightarrow> ret_p y)"

definition primitive_names :: "(string \<times> primitive) list" where
  "primitive_names =
     [(''int'', P_i64), (''float'', P_f64), (''bool'', P_boolean), (''void'', P_void_type), (''ptr'', P_raw_ptr),
      (''VaList'', P_va_list), (''i8'', P_i8), (''i16'', P_i16), (''i32'', P_i32), (''i64'', P_i64),
      (''isize'', P_isize), (''u8'', P_u8), (''u16'', P_u16), (''u32'', P_u32), (''u64'', P_u64),
      (''usize'', P_usize), (''f32'', P_f32), (''f64'', P_f64)]"

definition self_type :: "scope \<Rightarrow> ty pm" where
  "self_type sc = or_fail UnexpectedTypeToken (current_impl_target sc)"

definition generic_args :: "grammar \<Rightarrow> ty list pm" where
  "generic_args g =
     bind_p (some_list (g_type g)) (\<lambda>ts.
     bind_p expectGenericClose (\<lambda>_.
     ret_p ts))"

definition named_type :: "scope \<Rightarrow> grammar \<Rightarrow> string \<Rightarrow> ty pm" where
  "named_type sc g name =
     (if name = ''Self'' then self_type sc
      else case map_of primitive_names name of
        Some p \<Rightarrow> ret_p (Ty_primitive p)
      | None \<Rightarrow>
          (bind_p (p_match (T_punct P_less_than)) (\<lambda>m.
     bind_p (if m then generic_args g else ret_p []) (\<lambda>generics.
     if name = ''future'' then
               (case generics of [t] \<Rightarrow> ret_p (Ty_future t) | _ \<Rightarrow> fail_p UnexpectedTypeToken)
             else ret_p (Ty_user_defined name generics)))))"

definition isCAbiName :: "string option \<Rightarrow> bool" where
  "isCAbiName abi = (case abi of None \<Rightarrow> True | Some name \<Rightarrow> name = ''C'' \<or> name = ''C-unwind'')"

definition parseOptionalExternAbi :: "string option pm" where
  "parseOptionalExternAbi =
     bind_p p_peek (\<lambda>t.
     if t \<noteq> T_string_literal then ret_p None
       else (bind_p (p_take T_string_literal) (\<lambda>raw.
       if length raw < 2 \<or> hd raw \<noteq> CHR 0x22 \<or> last raw \<noteq> CHR 0x22 then fail_p SyntaxError
         else ret_p (Some (butlast (tl raw))))))"

definition fn_param_step :: "grammar \<Rightarrow> string option \<Rightarrow> ty list \<Rightarrow> (ty list + ty list \<times> bool) pm" where
  "fn_param_step g abi params =
     bind_p p_peek (\<lambda>t.
     if t = T_punct P_r_paren \<or> t = T_eof then ret_p (Inr (params, False))
       else if t = T_punct P_range then
         (bind_p p_advance (\<lambda>_.
       bind_p (p_expect (T_punct P_dot)) (\<lambda>_.
       if \<not> isCAbiName abi then fail_p SyntaxError
           else if params = [] then fail_p SyntaxError
           else ret_p (Inr (params, True)))))
       else
         (bind_p (g_type g) (\<lambda>param_ty.
       bind_p (p_match (T_punct P_comma)) (\<lambda>m.
       ret_p (if m then Inl (params @ [param_ty]) else Inr (params @ [param_ty], False))))))"

definition parseFunctionType :: "grammar \<Rightarrow> string option \<Rightarrow> ty pm" where
  "parseFunctionType g abi =
     bind_p (p_expect (T_punct P_l_paren)) (\<lambda>_.
     bind_p (while_p (fn_param_step g abi) []) (\<lambda>(params, is_variadic).
     bind_p (p_expect (T_punct P_r_paren)) (\<lambda>_.
     bind_p (p_match (T_punct P_arrow)) (\<lambda>m.
     bind_p (if m then g_type g else ret_p (Ty_primitive P_void_type)) (\<lambda>ret_ty.
     ret_p (Ty_fn_ptr abi params ret_ty is_variadic))))))"

definition array_type :: "grammar \<Rightarrow> ty pm" where
  "array_type g =
     bind_p (g_type g) (\<lambda>elem.
     bind_p (p_match (T_punct P_semicolon)) (\<lambda>m.
     if m then
         (bind_p (p_take T_int_literal) (\<lambda>len_str.
       bind_p (or_fail InvalidCharacter (parse_uint (2 ^ 64) 10 (stripNumericSeparators len_str))) (\<lambda>len.
       bind_p (p_expect (T_punct P_r_bracket)) (\<lambda>_.
       ret_p (Ty_array elem len)))))
       else (bind_p (p_expect (T_punct P_r_bracket)) (\<lambda>_.
       ret_p (Ty_user_defined ''Slice'' [elem])))))"

definition paren_type :: "grammar \<Rightarrow> ty pm" where
  "paren_type g =
     bind_p (g_type g) (\<lambda>first.
     bind_p (p_match (T_punct P_comma)) (\<lambda>m.
     if m then
         (bind_p (comma_list (T_punct P_r_paren) (g_type g)) (\<lambda>rest.
       bind_p (p_expect (T_punct P_r_paren)) (\<lambda>_.
       ret_p (Ty_tuple (first # rest)))))
       else (bind_p (p_expect (T_punct P_r_paren)) (\<lambda>_.
       ret_p first))))"

definition parseTypeAtom :: "scope \<Rightarrow> grammar \<Rightarrow> ty pm" where
  "parseTypeAtom sc g =
     bind_p p_peek (\<lambda>tag.
     bind_p p_lexeme (\<lambda>name.
     bind_p p_advance (\<lambda>_.
     if tag = T_identifier then named_type sc g name
       else if tag = T_keyword K_dyn then
         (bind_p (p_take T_identifier) (\<lambda>trait_name.
       ret_p (Ty_user_defined (''__dyn_'' @ trait_name) [])))
       else if tag = T_keyword K_extern then
         (bind_p parseOptionalExternAbi (\<lambda>abi.
       bind_p (p_expect (T_keyword K_fn)) (\<lambda>_.
       parseFunctionType g abi)))
       else if tag = T_keyword K_fn then parseFunctionType g None
       else if tag = T_punct P_ampersand then (bind_p (g_type g) (\<lambda>inner.
       ret_p (Ty_borrow inner)))
       else if tag = T_punct P_asterisk then (bind_p (g_type g) (\<lambda>inner.
       ret_p (Ty_pointer inner)))
       else if tag = T_punct P_l_bracket then array_type g
       else if tag = T_punct P_l_paren then paren_type g
       else fail_p UnexpectedTypeToken)))"

definition note_bang :: "unit pm" where
  "note_bang st = Gives () (st\<lparr>type_bang_used := True\<rparr>)"

definition parseType :: "scope \<Rightarrow> grammar \<Rightarrow> ty pm" where
  "parseType sc g =
     bind_p (parseTypeAtom sc g) (\<lambda>base.
     bind_p (p_match (T_punct P_bang)) (\<lambda>m.
     if m then (bind_p note_bang (\<lambda>_.
       ret_p (Ty_user_defined ''Result'' [base, Ty_primitive P_i32])))
       else ret_p base))"

end
