(* ===== verification/Sla_Parse_Expr.thy ===== *)
theory Sla_Parse_Expr
  imports Sla_Parse
begin

text \<open>
  The grammar of expressions of \<open>src/parser.zig\<close>: \<open>parseExpr\<close> climbs over the precedences, with the
  prefix forms in \<open>parsePrefixExpr\<close> and the infix and postfix forms in \<open>parseInfixExpr\<close>; several forms are
  rewritten while they are parsed (\<open>-x\<close>, \<open>!x\<close>, \<open>a ?? b\<close>, \<open>x!\<close>, \<open>a?.f\<close>, \<open>c ? a : b\<close>, template literals).
\<close>

section \<open>Looking ahead\<close>

definition genericLookaheadBoundary :: "tag \<Rightarrow> bool" where
  "genericLookaheadBoundary t \<longleftrightarrow> t \<in> T_punct `
     {P_semicolon, P_l_brace, P_r_brace, P_r_paren, P_r_bracket, P_equal, P_plus, P_plus_equal, P_minus,
      P_minus_equal, P_asterisk, P_asterisk_equal, P_slash, P_slash_equal, P_percent, P_percent_equal,
      P_ampersand, P_amp_amp, P_ampersand_equal, P_pipe, P_pipe_pipe, P_pipe_equal, P_caret, P_less_less,
      P_less_equal, P_greater_equal, P_spaceship, P_equal_equal, P_bang_equal, P_arrow, P_fat_arrow, P_range,
      P_question_mark}"

definition genericFunctionRefBoundary :: "tag \<Rightarrow> bool" where
  "genericFunctionRefBoundary t \<longleftrightarrow>
     t \<in> {T_punct P_comma, T_punct P_semicolon, T_punct P_r_paren, T_punct P_r_brace, T_punct P_r_bracket, T_eof}"

text \<open>The loop of the four lookaheads; \<open>after\<close> tests the token behind the closing bracket.\<close>

fun generic_tail :: "(tag \<Rightarrow> bool) \<Rightarrow> nat \<Rightarrow> ltoken list \<Rightarrow> bool" where
  "generic_tail after depth [] = False"
| "generic_tail after depth (t # ts) =
     (if depth = 1 \<and> genericLookaheadBoundary (fst t) then False
      else if fst t = T_punct P_less_than then generic_tail after (depth + 1) ts
      else if fst t = T_punct P_greater_than then
        (if depth = 1 then after (tag_at 0 ts) else generic_tail after (depth - 1) ts)
      else if fst t = T_punct P_greater_greater then
        (if depth \<le> 2 then after (tag_at 0 ts) else generic_tail after (depth - 2) ts)
      else generic_tail after depth ts)"

definition looksLikeGenericStructLiteralTail :: "ltoken list \<Rightarrow> bool" where
  "looksLikeGenericStructLiteralTail ts = generic_tail (\<lambda>t. t = T_punct P_l_brace) 1 ts"

definition looksLikeGenericFunctionCallTail :: "ltoken list \<Rightarrow> bool" where
  "looksLikeGenericFunctionCallTail ts = generic_tail (\<lambda>t. t = T_punct P_l_paren) 1 ts"

definition looksLikeGenericFunctionRefTail :: "ltoken list \<Rightarrow> bool" where
  "looksLikeGenericFunctionRefTail ts = generic_tail genericFunctionRefBoundary 1 ts"

definition looksLikeGenericMethodCallTail :: "ltoken list \<Rightarrow> bool" where
  "looksLikeGenericMethodCallTail ts \<longleftrightarrow>
     tag_at 0 ts = T_punct P_less_than \<and> generic_tail (\<lambda>t. t = T_punct P_l_paren) 1 (tl ts)"

definition tokenStartsPrefixExpr :: "tag \<Rightarrow> bool" where
  "tokenStartsPrefixExpr t \<longleftrightarrow>
     t \<in> {T_int_literal, T_float_literal, T_string_literal, T_template_start, T_identifier,
       T_punct P_ampersand, T_punct P_caret, T_punct P_asterisk, T_punct P_minus, T_punct P_bang,
       T_keyword K_if, T_keyword K_switch, T_keyword K_match, T_keyword K_unsafe, T_keyword K_await,
       T_punct P_pipe, T_punct P_pipe_pipe, T_punct P_l_paren, T_punct P_l_bracket}"

definition isKnownTypeName :: "scope \<Rightarrow> string \<Rightarrow> bool" where
  "isKnownTypeName sc name \<longleftrightarrow>
     name = ''Self'' \<and> current_impl_target sc \<noteq> None \<or> name \<in> set (known_types sc)"

definition isKnownEnumName :: "scope \<Rightarrow> string \<Rightarrow> bool" where
  "isKnownEnumName sc name \<longleftrightarrow> name \<in> set (known_enums sc)"

definition isKnownModuleName :: "scope \<Rightarrow> string \<Rightarrow> bool" where
  "isKnownModuleName sc name \<longleftrightarrow> name \<in> set (known_modules sc)"

section \<open>Literals and calls\<close>

definition paren_args :: "grammar \<Rightarrow> node list pm" where
  "paren_args g =
     bind_p (comma_list (T_punct P_r_paren) (g_expr g 0)) (\<lambda>args.
     bind_p (p_expect (T_punct P_r_paren)) (\<lambda>_.
     ret_p args))"

definition plain_call :: "string \<Rightarrow> node list \<Rightarrow> node" where
  "plain_call f args = Call_expr f None [] args None"

definition named_field :: "(string \<Rightarrow> node \<Rightarrow> 'a) \<Rightarrow> grammar \<Rightarrow> 'a pm" where
  "named_field mk g =
     bind_p (p_take T_identifier) (\<lambda>field_name.
     bind_p (p_expect (T_punct P_colon)) (\<lambda>_.
     bind_p (g_expr g 0) (\<lambda>value.
     ret_p (mk field_name value))))"

definition struct_field_step :: "grammar \<Rightarrow> struct_literal_field list \<Rightarrow>
    (struct_literal_field list + struct_literal_field list \<times> node option) pm" where
  "struct_field_step g fs =
     bind_p p_peek (\<lambda>t.
     if t = T_punct P_r_brace \<or> t = T_eof then ret_p (Inr (fs, None))
       else if t = T_punct P_range then
         (bind_p p_advance (\<lambda>_.
       bind_p (g_expr g 0) (\<lambda>update_expr.
       bind_p (p_match (T_punct P_comma)) (\<lambda>_.
       ret_p (Inr (fs, Some update_expr))))))
       else
         (bind_p (named_field Struct_literal_field g) (\<lambda>f.
       bind_p (p_match (T_punct P_comma)) (\<lambda>_.
       ret_p (Inl (fs @ [f]))))))"

definition parseStructLiteral :: "grammar \<Rightarrow> ty \<Rightarrow> node pm" where
  "parseStructLiteral g ty =
     bind_p (p_expect (T_punct P_l_brace)) (\<lambda>_.
     bind_p (while_p (struct_field_step g) []) (\<lambda>(fields, update_expr).
     bind_p (p_expect (T_punct P_r_brace)) (\<lambda>_.
     ret_p (Struct_literal ty fields update_expr))))"

definition parseGenericStructLiteralTail :: "grammar \<Rightarrow> string \<Rightarrow> node pm" where
  "parseGenericStructLiteralTail g name =
     bind_p (generic_args g) (\<lambda>generics.
     parseStructLiteral g (Ty_user_defined name generics))"

definition numbered_fields :: "node list \<Rightarrow> enum_literal_field list" where
  "numbered_fields values = map (\<lambda>(i, v). Enum_literal_field (dec_nat i) v) (enumerate 0 values)"

definition parseEnumLiteralAfterName :: "grammar \<Rightarrow> string \<Rightarrow> node pm" where
  "parseEnumLiteralAfterName g enum_name =
     bind_p (p_expect (T_punct P_double_colon)) (\<lambda>_.
     bind_p (p_take T_identifier) (\<lambda>variant_name.
     bind_p (p_match (T_punct P_l_brace)) (\<lambda>brace.
     if brace then
          (bind_p (loose_list (T_punct P_r_brace) (named_field Enum_literal_field g)) (\<lambda>fields.
       bind_p (p_expect (T_punct P_r_brace)) (\<lambda>_.
       ret_p (Enum_literal enum_name variant_name fields))))
        else
          (bind_p (p_match (T_punct P_l_paren)) (\<lambda>paren.
       if paren then
               (bind_p (paren_args g) (\<lambda>values.
         ret_p (Enum_literal enum_name variant_name (numbered_fields values))))
             else ret_p (Enum_literal enum_name variant_name []))))))"

text \<open>The path of a module call: a following \<open>::\<close> is taken unless \<open><\<close> comes after it.\<close>

definition module_path_step :: "string list \<Rightarrow> (string list + string list) pm" where
  "module_path_step parts =
     bind_p (p_take T_identifier) (\<lambda>part.
     bind_p (p_look (\<lambda>ts. tag_at 0 ts = T_punct P_double_colon \<and> tag_at 1 ts \<noteq> T_punct P_less_than)) (\<lambda>more.
     if more then (bind_p p_advance (\<lambda>_.
       ret_p (Inl (parts @ [part]))))
        else ret_p (Inr (parts @ [part]))))"

fun join_with :: "string \<Rightarrow> string list \<Rightarrow> string" where
  "join_with sep [] = []"
| "join_with sep [w] = w"
| "join_with sep (w # ws) = w @ sep @ join_with sep ws"

definition parseModuleCallAfterName :: "grammar \<Rightarrow> string \<Rightarrow> node pm" where
  "parseModuleCallAfterName g module_name =
     bind_p (p_expect (T_punct P_double_colon)) (\<lambda>_.
     bind_p (while_p module_path_step [module_name]) (\<lambda>path_parts.
     bind_p (p_match (T_punct P_double_colon)) (\<lambda>_.
     bind_p (p_match (T_punct P_less_than)) (\<lambda>m.
     bind_p (if m then generic_args g else ret_p []) (\<lambda>generics.
     bind_p (p_expect (T_punct P_l_paren)) (\<lambda>_.
     bind_p (paren_args g) (\<lambda>args.
     ret_p (Call_expr (join_with ''__'' path_parts) None generics args None))))))))"

definition parseAssociatedCallAfterName :: "grammar \<Rightarrow> string \<Rightarrow> node pm" where
  "parseAssociatedCallAfterName g target_name =
     bind_p (p_expect (T_punct P_double_colon)) (\<lambda>_.
     bind_p (p_take T_identifier) (\<lambda>func_name.
     bind_p (p_expect (T_punct P_l_paren)) (\<lambda>_.
     bind_p (paren_args g) (\<lambda>args.
     ret_p (Call_expr func_name (Some target_name) [] args None)))))"

definition parseGenericCallTail :: "grammar \<Rightarrow> string \<Rightarrow> node pm" where
  "parseGenericCallTail g func_name =
     bind_p (generic_args g) (\<lambda>generics.
     bind_p (p_expect (T_punct P_l_paren)) (\<lambda>_.
     bind_p (paren_args g) (\<lambda>args.
     ret_p (Call_expr func_name None generics args None))))"

definition parseGenericFunctionRefTail :: "grammar \<Rightarrow> string \<Rightarrow> node pm" where
  "parseGenericFunctionRefTail g func_name =
     bind_p (generic_args g) (\<lambda>generics.
     ret_p (Generic_func_ref func_name generics))"

definition closure_param :: "grammar \<Rightarrow> param pm" where
  "closure_param g =
     bind_p (p_take T_identifier) (\<lambda>name.
     bind_p (p_match (T_punct P_colon)) (\<lambda>m.
     bind_p (if m then g_type g else ret_p Ty_infer) (\<lambda>ty.
     ret_p \<lparr>pm_name = name, pm_ty = ty, pm_is_borrow = False, pm_is_move = False,
          pm_is_fallible_sugar = False\<rparr>)))"

definition parseClosureLiteral :: "grammar \<Rightarrow> node pm" where
  "parseClosureLiteral g =
     bind_p (p_match (T_punct P_pipe_pipe)) (\<lambda>m.
     if m then (bind_p (g_expr g 0) (\<lambda>body.
       ret_p (Closure_literal [] body)))
        else
          (bind_p (p_expect (T_punct P_pipe)) (\<lambda>_.
       bind_p (comma_list (T_punct P_pipe) (closure_param g)) (\<lambda>params.
       bind_p (p_expect (T_punct P_pipe)) (\<lambda>_.
       bind_p (g_expr g 0) (\<lambda>body.
       ret_p (Closure_literal params body)))))))"

section \<open>Patterns and branches\<close>

definition pattern_bindings :: "string list pm" where
  "pattern_bindings =
     bind_p (p_match (T_punct P_l_brace)) (\<lambda>brace.
     if brace then
          (bind_p (loose_list (T_punct P_r_brace) (p_take T_identifier)) (\<lambda>names.
       bind_p (p_expect (T_punct P_r_brace)) (\<lambda>_.
       ret_p names)))
        else
          (bind_p (p_match (T_punct P_l_paren)) (\<lambda>paren.
       if paren then
               (bind_p (comma_list (T_punct P_r_paren) (p_take T_identifier)) (\<lambda>names.
         bind_p (p_expect (T_punct P_r_paren)) (\<lambda>_.
         ret_p names)))
             else ret_p [])))"

definition default_enum :: "string \<Rightarrow> string" where
  "default_enum name = (if name = ''Ok'' \<or> name = ''Err'' then ''Result'' else ''Option'')"

definition pattern_of :: "string \<Rightarrow> string \<Rightarrow> string list \<Rightarrow> enum_pattern" where
  "pattern_of enum variant names =
     \<lparr>ep_enum_name = enum, ep_variant_name = variant, ep_bindings = names\<rparr>"

definition parseEnumPattern :: "enum_pattern pm" where
  "parseEnumPattern =
     bind_p (p_take T_identifier) (\<lambda>first_name.
     bind_p (p_match (T_punct P_double_colon)) (\<lambda>m.
     if m then
          (bind_p (p_take T_identifier) (\<lambda>variant_name.
       bind_p pattern_bindings (\<lambda>names.
       ret_p (pattern_of first_name variant_name names))))
        else if first_name \<notin> {''Some'', ''None'', ''Ok'', ''Err''} then fail_p UnexpectedToken
        else
          (bind_p pattern_bindings (\<lambda>names.
       ret_p (pattern_of (default_enum first_name) first_name names)))))"

definition parseLetPattern :: "enum_pattern pm" where
  "parseLetPattern =
     bind_p (p_take T_identifier) (\<lambda>first_name.
     bind_p (p_match (T_punct P_double_colon)) (\<lambda>m.
     if m then
          (bind_p (p_take T_identifier) (\<lambda>variant_name.
       bind_p pattern_bindings (\<lambda>names.
       ret_p (pattern_of first_name variant_name names))))
        else
          (bind_p pattern_bindings (\<lambda>names.
       ret_p (pattern_of (default_enum first_name) first_name names)))))"

definition getInfixPrecedence :: "tag \<Rightarrow> nat" where
  "getInfixPrecedence t =
     (if t \<in> T_punct ` {P_pipe_pipe, P_pipe, P_question_question, P_question_mark} then 1
      else if t \<in> T_punct ` {P_amp_amp, P_caret} then 2
      else if t = T_punct P_ampersand then 3
      else if t \<in> T_punct ` {P_equal_equal, P_bang_equal, P_spaceship} then 4
      else if t \<in> T_punct ` {P_less_than, P_greater_than, P_less_equal, P_greater_equal} then 5
      else if t \<in> T_punct ` {P_less_less, P_greater_greater} then 6
      else if t \<in> T_punct ` {P_plus, P_minus} then 7
      else if t \<in> T_punct ` {P_asterisk, P_slash, P_percent} then 8
      else if t = T_keyword K_as then 9
      else if t \<in> T_punct ` {P_dot, P_bang, P_l_paren, P_l_bracket} then 10
      else 0)"

definition let_chain_step :: "grammar \<Rightarrow> if_let_cond list \<Rightarrow> (if_let_cond list + if_let_cond list) pm" where
  "let_chain_step g chain =
     bind_p (p_expect (T_keyword K_let)) (\<lambda>_.
     bind_p parseLetPattern (\<lambda>pattern.
     bind_p (p_expect (T_punct P_equal)) (\<lambda>_.
     bind_p (g_expr g (getInfixPrecedence (T_punct P_amp_amp))) (\<lambda>value.
     bind_p (p_match (T_punct P_amp_amp)) (\<lambda>m.
     if \<not> m then ret_p (Inr (chain @ [If_let_cond pattern value]))
        else (bind_p p_peek (\<lambda>t.
       if t \<noteq> T_keyword K_let then fail_p UnexpectedToken
          else ret_p (Inl (chain @ [If_let_cond pattern value])))))))))"

definition parseIfLetChain :: "grammar \<Rightarrow> if_let_cond list pm" where
  "parseIfLetChain g = while_p (let_chain_step g) []"

text \<open>The chain has at least one element.\<close>

definition cond_value :: "if_let_cond list \<Rightarrow> node" where
  "cond_value chain = (case hd chain of If_let_cond pattern value \<Rightarrow> value)"

definition parseIfExpr :: "grammar \<Rightarrow> node pm" where
  "parseIfExpr g =
     bind_p (p_expect (T_keyword K_if)) (\<lambda>_.
     bind_p p_peek (\<lambda>t.
     bind_p (if t = T_keyword K_let then (bind_p (parseIfLetChain g) (\<lambda>chain.
       ret_p (cond_value chain, Some chain)))
           else (bind_p (g_expr g 0) (\<lambda>cond.
       ret_p (cond, None)))) (\<lambda>(cond, let_chain).
     bind_p (g_block g) (\<lambda>then_block.
     bind_p (p_match (T_keyword K_else)) (\<lambda>m.
     if \<not> m then ret_p (If_expr cond let_chain then_block None)
        else
          (bind_p p_peek (\<lambda>u.
       if u = T_keyword K_if then
               (bind_p (g_if g) (\<lambda>nested_if.
         ret_p (If_expr cond let_chain then_block (Some [Expr_stmt nested_if]))))
             else
               (bind_p (g_block g) (\<lambda>else_block.
         ret_p (If_expr cond let_chain then_block (Some else_block)))))))))))"

definition switch_case :: "grammar \<Rightarrow> switch_case pm" where
  "switch_case g =
     bind_p (g_expr g 0) (\<lambda>pattern.
     bind_p (p_expect (T_punct P_fat_arrow)) (\<lambda>_.
     bind_p p_peek (\<lambda>t.
     if t = T_punct P_l_brace then (bind_p (g_block g) (\<lambda>body.
       ret_p (Switch_case pattern body)))
        else (bind_p (g_stmt g) (\<lambda>single.
       ret_p (Switch_case pattern [single]))))))"

definition parseSwitchExpr :: "grammar \<Rightarrow> node pm" where
  "parseSwitchExpr g =
     bind_p (p_expect (T_keyword K_switch)) (\<lambda>_.
     bind_p (g_expr g 0) (\<lambda>val.
     bind_p (p_expect (T_punct P_l_brace)) (\<lambda>_.
     bind_p (loose_list (T_punct P_r_brace) (switch_case g)) (\<lambda>cases.
     bind_p (p_expect (T_punct P_r_brace)) (\<lambda>_.
     ret_p (Switch_expr val cases))))))"

definition match_case :: "grammar \<Rightarrow> match_case pm" where
  "match_case g =
     bind_p parseEnumPattern (\<lambda>pattern.
     bind_p (p_match (T_keyword K_if)) (\<lambda>m.
     bind_p (if m then (bind_p (g_expr g 0) (\<lambda>e.
       ret_p (Some e))) else ret_p None) (\<lambda>guard.
     bind_p (p_expect (T_punct P_fat_arrow)) (\<lambda>_.
     bind_p (g_block g) (\<lambda>body.
     ret_p (Match_case pattern guard body))))))"

definition parseMatchExpr :: "grammar \<Rightarrow> node pm" where
  "parseMatchExpr g =
     bind_p (p_expect (T_keyword K_match)) (\<lambda>_.
     bind_p (g_expr g 0) (\<lambda>val.
     bind_p (p_expect (T_punct P_l_brace)) (\<lambda>_.
     bind_p (loose_list (T_punct P_r_brace) (match_case g)) (\<lambda>cases.
     bind_p (p_expect (T_punct P_r_brace)) (\<lambda>_.
     ret_p (Match_expr val cases))))))"

section \<open>Assembly, templates and go\<close>

definition asm_step :: "inline_asm_operand list \<Rightarrow> (inline_asm_operand list + inline_asm_operand list) pm" where
  "asm_step operands =
     bind_p (p_match (T_punct P_comma)) (\<lambda>m.
     bind_p p_peek (\<lambda>t.
     if \<not> m \<or> t = T_punct P_r_paren then ret_p (Inr operands)
        else
          (bind_p (p_take T_identifier) (\<lambda>constraint.
       bind_p (p_expect (T_punct P_l_paren)) (\<lambda>_.
       bind_p (p_expect T_string_literal) (\<lambda>_.
       bind_p (p_expect (T_punct P_r_paren)) (\<lambda>_.
       bind_p (p_take T_identifier) (\<lambda>value_name.
       ret_p (Inl (operands @ [\<lparr>asm_constraint = constraint, asm_var_name = value_name\<rparr>]))))))))))"

definition unquote :: "string \<Rightarrow> string" where
  "unquote raw = butlast (tl raw)"

definition parseInlineAsmExpr :: "node pm" where
  "parseInlineAsmExpr =
     bind_p (p_expect (T_punct P_l_paren)) (\<lambda>_.
     bind_p (p_take T_string_literal) (\<lambda>raw_template.
     bind_p (while_p asm_step []) (\<lambda>operands.
     bind_p (p_expect (T_punct P_r_paren)) (\<lambda>_.
     ret_p (Inline_asm_expr (unquote raw_template) operands)))))"

fun appendTemplateChunk :: "string \<Rightarrow> string" where
  "appendTemplateChunk [] = []"
| "appendTemplateChunk (c # cs) =
     (if c = CHR 0x5C then
        (case cs of
           [] \<Rightarrow> [c]
         | n # rest \<Rightarrow>
             if n = CHR ''$'' \<and> rest \<noteq> [] \<and> hd rest = CHR ''{'' then ''${'' @ appendTemplateChunk (tl rest)
             else if n = CHR 0x60 then CHR 0x60 # appendTemplateChunk rest
             else c # n # appendTemplateChunk rest)
      else if c = CHR 0x22 then CHR 0x5C # CHR 0x22 # appendTemplateChunk cs
      else if c = CHR ''{'' then ''{{'' @ appendTemplateChunk cs
      else if c = CHR ''}'' then ''}}'' @ appendTemplateChunk cs
      else c # appendTemplateChunk cs)"

definition template_step :: "grammar \<Rightarrow> string \<times> node list \<Rightarrow> ((string \<times> node list) + (string \<times> node list)) pm" where
  "template_step g = (\<lambda>(fmt, args).
     (bind_p p_peek (\<lambda>t.
     if t = T_template_string then
          (bind_p p_lexeme (\<lambda>chunk.
       bind_p p_advance (\<lambda>_.
       ret_p (Inl (fmt @ appendTemplateChunk chunk, args)))))
        else if t = T_template_interp then
          (bind_p p_advance (\<lambda>_.
       bind_p (g_expr g 0) (\<lambda>arg.
       bind_p (p_expect (T_punct P_r_brace)) (\<lambda>_.
       ret_p (Inl (fmt @ ''{}'', args @ [arg]))))))
        else if t = T_template_end then (bind_p p_advance (\<lambda>_.
       ret_p (Inr (fmt, args))))
        else fail_p UnexpectedToken)))"

definition parseTemplateLiteral :: "grammar \<Rightarrow> node pm" where
  "parseTemplateLiteral g =
     bind_p (p_expect T_template_start) (\<lambda>_.
     bind_p (while_p (template_step g) ([], [])) (\<lambda>(fmt, args).
     ret_p (if args = [] then Literal (String_val fmt)
          else plain_call ''format'' (Literal (String_val fmt) # args))))"

fun spawnable :: "node \<Rightarrow> bool" where
  "spawnable (Call_expr f t gs args callee) = (callee = None)"
| "spawnable _ = False"

definition parseGoExpr :: "grammar \<Rightarrow> node pm" where
  "parseGoExpr g =
     bind_p (p_expect (T_keyword K_go)) (\<lambda>_.
     bind_p p_lexeme (\<lambda>name.
     bind_p (p_look (\<lambda>ts. tag_at 0 ts = T_identifier \<and> name = ''supervised'' \<and> tag_at 1 ts = T_identifier)) (\<lambda>supervised.
     bind_p (if supervised then p_advance else ret_p ()) (\<lambda>_.
     bind_p (g_expr g 0) (\<lambda>operand.
     if spawnable operand then ret_p (Go_expr supervised operand) else fail_p SyntaxError)))))"

section \<open>Prefix forms\<close>

definition integerSuffixPrimitive :: "string \<Rightarrow> primitive option" where
  "integerSuffixPrimitive suffix = map_of
     [(''i8'', P_i8), (''i16'', P_i16), (''i32'', P_i32), (''i64'', P_i64), (''isize'', P_isize),
      (''u8'', P_u8), (''u16'', P_u16), (''u32'', P_u32), (''u64'', P_u64), (''usize'', P_usize)] suffix"

definition int_literal :: "string \<Rightarrow> node option" where
  "int_literal str =
     (let clean = stripNumericSeparators str;
          hex = (length clean \<ge> 2 \<and> clean ! 0 = CHR ''0'' \<and> (clean ! 1 = CHR ''x'' \<or> clean ! 1 = CHR ''X''));
          body = (if hex then drop 2 clean else clean);
          digits = takeWhile (if hex then is_hex else is_digit) body;
          suffix = dropWhile (if hex then is_hex else is_digit) body;
          base = (if hex then 16 else 10)
      in if suffix = [] then map_option (\<lambda>n. Literal (Int_val (int n))) (parse_uint (2 ^ 63) base digits)
         else case integerSuffixPrimitive suffix of
           None \<Rightarrow> None
         | Some p \<Rightarrow>
             map_option (\<lambda>n. Cast_expr (Literal (Int_val (if n < 2 ^ 63 then int n else int n - 2 ^ 64))) (Ty_primitive p))
               (parse_uint (if p = P_u64 \<or> p = P_usize then 2 ^ 64 else 2 ^ 63) base digits))"

definition path_expr :: "scope \<Rightarrow> grammar \<Rightarrow> string \<Rightarrow> node pm" where
  "path_expr sc g str =
     (if isKnownEnumName sc str then parseEnumLiteralAfterName g str
      else if isKnownModuleName sc str then parseModuleCallAfterName g str
      else
        (bind_p (p_look (\<lambda>ts. (tag_at 1 ts, tag_at 2 ts))) (\<lambda>(t1, t2).
     if t1 = T_identifier \<and> t2 = T_punct P_double_colon then parseModuleCallAfterName g str
           else if t1 = T_identifier \<and> t2 = T_punct P_l_paren then parseAssociatedCallAfterName g str
           else if t1 = T_identifier \<and> str = ''Ordering'' then
             (bind_p (p_match (T_punct P_double_colon)) (\<lambda>_.
       bind_p (p_take T_identifier) (\<lambda>name.
       ret_p (Identifier (str @ ''::'' @ name)))))
           else parseEnumLiteralAfterName g str)))"

definition name_expr :: "scope \<Rightarrow> grammar \<Rightarrow> string \<Rightarrow> node pm" where
  "name_expr sc g str =
     bind_p p_peek (\<lambda>t.
     if t = T_punct P_double_colon then path_expr sc g str
        else if t = T_punct P_l_brace \<and> isKnownTypeName sc str then
          (bind_p (if str = ''Self'' then self_type sc else ret_p (Ty_user_defined str [])) (\<lambda>ty.
       parseStructLiteral g ty))
        else if str = ''true'' then ret_p (Literal (Bool_val True))
        else if str = ''false'' then ret_p (Literal (Bool_val False))
        else ret_p (Identifier str))"

definition identifier_expr :: "scope \<Rightarrow> grammar \<Rightarrow> node pm" where
  "identifier_expr sc g =
     bind_p p_lexeme (\<lambda>str.
     bind_p p_advance (\<lambda>_.
     bind_p (if str = ''asm'' then p_match (T_punct P_bang) else ret_p False) (\<lambda>asm.
     if asm then parseInlineAsmExpr else name_expr sc g str)))"

definition prefix_operator :: "grammar \<Rightarrow> nat \<Rightarrow> (node \<Rightarrow> node) \<Rightarrow> node pm" where
  "prefix_operator g prec mk = bind_p p_advance (\<lambda>_.
     bind_p (g_expr g prec) (\<lambda>e.
     ret_p (mk e)))"

definition paren_expr :: "grammar \<Rightarrow> node pm" where
  "paren_expr g =
     bind_p p_advance (\<lambda>_.
     bind_p (g_expr g 0) (\<lambda>e.
     bind_p (p_match (T_punct P_comma)) (\<lambda>m.
     if m then
          (bind_p (comma_list (T_punct P_r_paren) (g_expr g 0)) (\<lambda>rest.
       bind_p (p_expect (T_punct P_r_paren)) (\<lambda>_.
       ret_p (Tuple_literal (e # rest)))))
        else (bind_p (p_expect (T_punct P_r_paren)) (\<lambda>_.
       ret_p e)))))"

definition element_step :: "grammar \<Rightarrow> node list \<Rightarrow> (node list + node list) pm" where
  "element_step g elements =
     bind_p p_peek (\<lambda>t.
     if t = T_punct P_r_bracket \<or> t = T_eof then ret_p (Inr elements)
        else
          (bind_p (p_match (T_punct P_comma)) (\<lambda>m.
       bind_p p_peek (\<lambda>u.
       if \<not> m \<or> u = T_punct P_r_bracket then ret_p (Inr elements)
             else (bind_p (g_expr g 0) (\<lambda>elem.
         ret_p (Inl (elements @ [elem]))))))))"

definition array_expr :: "grammar \<Rightarrow> node pm" where
  "array_expr g =
     bind_p p_advance (\<lambda>_.
     bind_p p_peek (\<lambda>t.
     if t = T_punct P_r_bracket \<or> t = T_eof then
          (bind_p (p_expect (T_punct P_r_bracket)) (\<lambda>_.
       ret_p (Array_literal [])))
        else
          (bind_p (g_expr g 0) (\<lambda>first.
       bind_p (p_match (T_punct P_semicolon)) (\<lambda>m.
       if m then
               (bind_p (p_take T_int_literal) (\<lambda>len_str.
         bind_p (or_fail InvalidCharacter
                    (parse_uint (2 ^ 64) 10 (takeWhile is_digit (stripNumericSeparators len_str)))) (\<lambda>len.
         bind_p (p_expect (T_punct P_r_bracket)) (\<lambda>_.
         ret_p (Repeat_array_literal first len)))))
             else
               (bind_p (while_p (element_step g) [first]) (\<lambda>elements.
         bind_p (p_expect (T_punct P_r_bracket)) (\<lambda>_.
         ret_p (Array_literal elements)))))))))"

definition number_expr :: "(string \<Rightarrow> node option) \<Rightarrow> node pm" where
  "number_expr value = bind_p p_lexeme (\<lambda>str.
     bind_p p_advance (\<lambda>_.
     or_fail InvalidCharacter (value str)))"

definition parsePrefixExpr :: "scope \<Rightarrow> grammar \<Rightarrow> node pm" where
  "parsePrefixExpr sc g =
     bind_p p_peek (\<lambda>t.
     if t = T_keyword K_go then parseGoExpr g
        else if t = T_int_literal then number_expr int_literal
        else if t = T_float_literal then
          number_expr (\<lambda>str. map_option (\<lambda>v. Literal (Float_val v)) (float_of sc (stripNumericSeparators str)))
        else if t = T_string_literal then
          (bind_p p_lexeme (\<lambda>raw.
       bind_p p_advance (\<lambda>_.
       ret_p (Literal (String_val (unquote raw))))))
        else if t = T_template_start then parseTemplateLiteral g
        else if t = T_identifier then identifier_expr sc g
        else if t = T_punct P_ampersand then prefix_operator g 6 Borrow_expr
        else if t = T_punct P_caret then prefix_operator g 6 Move_expr
        else if t = T_punct P_asterisk then prefix_operator g 6 Deref_expr
        else if t = T_punct P_minus then prefix_operator g 8 (Binary_expr Bop_sub (Literal (Int_val 0)))
        else if t = T_punct P_bang then
          prefix_operator g 8 (\<lambda>e. Binary_expr Bop_eq e (Literal (Bool_val False)))
        else if t = T_keyword K_if then parseIfExpr g
        else if t = T_keyword K_switch then parseSwitchExpr g
        else if t = T_keyword K_match then parseMatchExpr g
        else if t = T_keyword K_unsafe then (bind_p p_advance (\<lambda>_.
       bind_p (g_block g) (\<lambda>body.
       ret_p (Unsafe_expr body))))
        else if t = T_keyword K_await then prefix_operator g 6 Await_expr
        else if t = T_punct P_pipe \<or> t = T_punct P_pipe_pipe then parseClosureLiteral g
        else if t = T_punct P_l_paren then paren_expr g
        else if t = T_punct P_l_bracket then array_expr g
        else fail_p UnexpectedToken)"

section \<open>Infix and postfix forms\<close>

definition binary_op_of :: "tag \<Rightarrow> binary_op option" where
  "binary_op_of t = map_of
     [(T_punct P_plus, Bop_add), (T_punct P_minus, Bop_sub), (T_punct P_asterisk, Bop_mul), (T_punct P_slash, Bop_div),
      (T_punct P_percent, Bop_mod), (T_punct P_ampersand, Bop_bit_and), (T_punct P_amp_amp, Bop_logical_and),
      (T_punct P_pipe, Bop_bit_or), (T_punct P_pipe_pipe, Bop_logical_or), (T_punct P_caret, Bop_bit_xor),
      (T_punct P_less_less, Bop_shl), (T_punct P_greater_greater, Bop_shr), (T_punct P_less_than, Bop_lt),
      (T_punct P_less_equal, Bop_le), (T_punct P_greater_than, Bop_gt), (T_punct P_greater_equal, Bop_ge),
      (T_punct P_spaceship, Bop_spaceship), (T_punct P_equal_equal, Bop_eq), (T_punct P_bang_equal, Bop_ne)] t"

fun identifier_of :: "node \<Rightarrow> string option" where
  "identifier_of (Identifier name) = Some name"
| "identifier_of _ = None"

text \<open>\<open>c ? a : b\<close>, tried behind the question mark; \<open>None\<close> goes back to where it was tried.\<close>

definition ternary_tail :: "grammar \<Rightarrow> node \<Rightarrow> node pm" where
  "ternary_tail g left =
     bind_p (g_expr g 0) (\<lambda>then_expr.
     bind_p (p_expect (T_punct P_colon)) (\<lambda>_.
     bind_p (g_expr g 0) (\<lambda>else_expr.
     ret_p (If_expr left None [Expr_stmt then_expr] (Some [Expr_stmt else_expr])))))"

definition try_ternary :: "grammar \<Rightarrow> node \<Rightarrow> node option pm" where
  "try_ternary g left =
     bind_p p_peek (\<lambda>t.
     if tokenStartsPrefixExpr t then attempt (ternary_tail g left) else ret_p None)"

definition p_restore :: "ltoken list \<Rightarrow> unit pm" where
  "p_restore ts st = Gives () (st\<lparr>toks := ts\<rparr>)"

definition generic_or_binary :: "grammar \<Rightarrow> tag \<Rightarrow> binary_op \<Rightarrow> node \<Rightarrow> nat \<Rightarrow> node pm" where
  "generic_or_binary g t bop left precedence =
     bind_p (p_look id) (\<lambda>ts.
     (case (if t = T_punct P_less_than then identifier_of left else None) of
           Some name \<Rightarrow>
             if looksLikeGenericStructLiteralTail ts then parseGenericStructLiteralTail g name
             else if looksLikeGenericFunctionCallTail ts then parseGenericCallTail g name
             else if looksLikeGenericFunctionRefTail ts then parseGenericFunctionRefTail g name
             else (bind_p (g_expr g precedence) (\<lambda>right.
       ret_p (Binary_expr bop left right)))
         | None \<Rightarrow> (bind_p (g_expr g precedence) (\<lambda>right.
       ret_p (Binary_expr bop left right)))))"

definition field_name_token :: "string pm" where
  "field_name_token =
     bind_p p_peek (\<lambda>t.
     bind_p p_lexeme (\<lambda>name.
     if t \<noteq> T_identifier \<and> t \<noteq> T_int_literal then fail_p UnexpectedToken
        else (bind_p p_advance (\<lambda>_.
       ret_p name))))"

definition dot_expr :: "grammar \<Rightarrow> node \<Rightarrow> node pm" where
  "dot_expr g left =
     bind_p p_peek (\<lambda>t.
     if t = T_keyword K_await then (bind_p p_advance (\<lambda>_.
       ret_p (Await_expr left)))
        else
          (bind_p field_name_token (\<lambda>field_name.
       bind_p (p_look (\<lambda>ts. tag_at 0 ts = T_punct P_l_paren \<or> looksLikeGenericMethodCallTail ts)) (\<lambda>call.
       if call then
               (bind_p (p_match (T_punct P_less_than)) (\<lambda>m.
         bind_p (if m then generic_args g else ret_p []) (\<lambda>generics.
         bind_p (p_expect (T_punct P_l_paren)) (\<lambda>_.
         bind_p (paren_args g) (\<lambda>args.
         ret_p (Call_expr field_name None generics (left # args) None))))))
             else ret_p (Field_expr left field_name)))))"

definition bang_call :: "grammar \<Rightarrow> node \<Rightarrow> node pm" where
  "bang_call g left =
     bind_p p_peek (\<lambda>t.
     if t \<noteq> T_punct P_l_paren then fail_p UnexpectedInfixToken
        else case identifier_of left of
          None \<Rightarrow> fail_p InvalidCallTarget
        | Some name \<Rightarrow> (bind_p p_advance (\<lambda>_.
       bind_p (paren_args g) (\<lambda>args.
       ret_p (plain_call name args)))))"

fun callee_of :: "node \<Rightarrow> (string \<times> node option) option" where
  "callee_of (Identifier name) = Some (name, None)"
| "callee_of (Closure_literal ps b) = Some ([], Some (Closure_literal ps b))"
| "callee_of _ = None"

definition call_tail :: "grammar \<Rightarrow> node \<Rightarrow> node pm" where
  "call_tail g left =
     (case callee_of left of
        None \<Rightarrow> fail_p InvalidCallTarget
      | Some (func_name, callee) \<Rightarrow>
          (bind_p (paren_args g) (\<lambda>args.
     ret_p (Call_expr func_name None [] args callee))))"

definition index_tail :: "grammar \<Rightarrow> node \<Rightarrow> node pm" where
  "index_tail g left =
     bind_p (g_expr g 0) (\<lambda>start.
     bind_p (p_match (T_punct P_range)) (\<lambda>m.
     if m then (bind_p (g_expr g 0) (\<lambda>stop.
       bind_p (p_expect (T_punct P_r_bracket)) (\<lambda>_.
       ret_p (Slice_expr left start stop))))
        else (bind_p (p_expect (T_punct P_r_bracket)) (\<lambda>_.
       ret_p (Index_expr left start)))))"

definition question_tail :: "grammar \<Rightarrow> node \<Rightarrow> node pm" where
  "question_tail g left =
     bind_p (p_look id) (\<lambda>saved.
     bind_p (try_ternary g left) (\<lambda>tern.
     (case tern of Some n \<Rightarrow> ret_p n | None \<Rightarrow> (bind_p (p_restore saved) (\<lambda>_.
       ret_p (Try_expr left))))))"

definition parseInfixExpr :: "grammar \<Rightarrow> node \<Rightarrow> nat \<Rightarrow> node pm" where
  "parseInfixExpr g left precedence =
     bind_p p_peek (\<lambda>t.
     bind_p p_advance (\<lambda>_.
     (case binary_op_of t of
           Some bop \<Rightarrow> generic_or_binary g t bop left precedence
         | None \<Rightarrow>
             if t = T_punct P_dot then dot_expr g left
             else if t = T_punct P_bang then bang_call g left
             else if t = T_punct P_l_paren then call_tail g left
             else if t = T_punct P_l_bracket then index_tail g left
             else if t = T_keyword K_as then (bind_p (g_type g) (\<lambda>cast_ty.
       ret_p (Cast_expr left cast_ty)))
             else if t = T_punct P_question_mark then question_tail g left
             else fail_p UnexpectedInfixToken)))"

section \<open>Precedence climbing\<close>

definition fresh_synth :: "string \<Rightarrow> string pm" where
  "fresh_synth prefix st =
     Gives (prefix @ dec_nat (synth_counter st)) (st\<lparr>synth_counter := synth_counter st + 1\<rparr>)"

definition optional_chain :: "grammar \<Rightarrow> node \<Rightarrow> node pm" where
  "optional_chain g left =
     bind_p p_advance (\<lambda>_.
     bind_p field_name_token (\<lambda>field_name.
     bind_p (fresh_synth ''__qc'') (\<lambda>tmp_name.
     bind_p (p_match (T_punct P_l_paren)) (\<lambda>paren.
     bind_p (if paren then
             (bind_p p_peek (\<lambda>t.
       bind_p (if t \<noteq> T_punct P_r_paren \<and> t \<noteq> T_eof then some_list (g_expr g 0) else ret_p []) (\<lambda>args.
       bind_p (p_expect (T_punct P_r_paren)) (\<lambda>_.
       ret_p (plain_call field_name (Identifier tmp_name # args))))))
           else ret_p (Field_expr (Identifier tmp_name) field_name)) (\<lambda>wrapped_value.
     ret_p (If_expr left (Some [If_let_cond (pattern_of ''Option'' ''Some'' [tmp_name]) left])
          [Expr_stmt (plain_call ''Some'' [wrapped_value])] (Some [Expr_stmt (Identifier ''None'')])))))))"

text \<open>The precedence at the current token: a generic tail binds like a call.\<close>

definition infix_level :: "node \<Rightarrow> ltoken list \<Rightarrow> nat" where
  "infix_level left ts =
     (if tag_at 0 ts = T_punct P_less_than \<and> identifier_of left \<noteq> None \<and>
         (looksLikeGenericStructLiteralTail (tl ts) \<or> looksLikeGenericFunctionCallTail (tl ts) \<or>
          looksLikeGenericFunctionRefTail (tl ts)) then 10
      else getInfixPrecedence (tag_at 0 ts))"

text \<open>One round of the loop of \<open>parseExpr\<close>, first without the ternary.\<close>

definition climb_rest :: "grammar \<Rightarrow> nat \<Rightarrow> node \<Rightarrow> (node + node) pm" where
  "climb_rest g precedence left =
     bind_p p_peek (\<lambda>t.
     if t = T_punct P_question_question \<and> precedence < 1 then
          (bind_p p_advance (\<lambda>_.
       bind_p (g_expr g 1) (\<lambda>rhs.
       ret_p (Inl (plain_call ''unwrap_or'' [left, rhs])))))
        else if t = T_punct P_bang then (bind_p p_advance (\<lambda>_.
       ret_p (Inl (plain_call ''unwrap'' [left]))))
        else if t = T_punct P_question_dot then (bind_p (optional_chain g left) (\<lambda>n.
       ret_p (Inl n)))
        else
          (bind_p (p_look (infix_level left)) (\<lambda>op_prec.
       if op_prec \<le> precedence then ret_p (Inr left)
             else (bind_p (parseInfixExpr g left op_prec) (\<lambda>n.
         ret_p (Inl n))))))"

definition climb :: "grammar \<Rightarrow> nat \<Rightarrow> node \<Rightarrow> (node + node) pm" where
  "climb g precedence left =
     bind_p p_peek (\<lambda>t.
     if t = T_punct P_question_mark \<and> precedence < 1 then
          (bind_p (p_look id) (\<lambda>saved.
       bind_p p_advance (\<lambda>_.
       bind_p (try_ternary g left) (\<lambda>tern.
       (case tern of
                Some n \<Rightarrow> ret_p (Inl n)
              | None \<Rightarrow> (bind_p (p_restore saved) (\<lambda>_.
         climb_rest g precedence left)))))))
        else climb_rest g precedence left)"

definition parseExpr :: "scope \<Rightarrow> grammar \<Rightarrow> nat \<Rightarrow> node pm" where
  "parseExpr sc g precedence =
     bind_p (parsePrefixExpr sc g) (\<lambda>left.
     while_p (climb g precedence) left)"

end
