(* ===== verification/Sla_Parse_Stmt.thy ===== *)
theory Sla_Parse_Stmt
  imports Sla_Parse_Expr
begin

text \<open>
  The grammar of statements and blocks of \<open>src/parser.zig\<close>, and the knot: the methods of the parser with
  a bound on the depth of their recursion.
\<close>

section \<open>Simple statements\<close>

definition is_import_path_token :: "tag \<Rightarrow> bool" where
  "is_import_path_token t \<longleftrightarrow> t = T_identifier \<or>
     t \<in> T_punct ` {P_asterisk, P_slash, P_dot, P_range, P_minus, P_double_colon}"

definition path_step :: "string \<Rightarrow> (string + string) pm" where
  "path_step buf =
     bind_p p_peek (\<lambda>t.
     if is_import_path_token t then (bind_p p_lexeme (\<lambda>part.
       bind_p p_advance (\<lambda>_.
       ret_p (Inl (buf @ part)))))
        else ret_p (Inr buf))"

definition parseImportPathTokenSequence :: "string pm" where
  "parseImportPathTokenSequence =
     bind_p (while_p path_step []) (\<lambda>buf.
     if buf = [] then fail_p SyntaxError else ret_p buf)"

definition parseUsingDecl :: "node pm" where
  "parseUsingDecl =
     bind_p (p_expect (T_keyword K_using)) (\<lambda>_.
     bind_p parseImportPathTokenSequence (\<lambda>path.
     bind_p (p_match (T_punct P_semicolon)) (\<lambda>_.
     ret_p (Using_decl path))))"

text \<open>\<open>= value ;\<close>.\<close>

definition bound_value :: "grammar \<Rightarrow> node pm" where
  "bound_value g =
     bind_p (p_expect (T_punct P_equal)) (\<lambda>_.
     bind_p (g_expr g 0) (\<lambda>val.
     bind_p (p_expect (T_punct P_semicolon)) (\<lambda>_.
     ret_p val)))"

definition optional_type :: "grammar \<Rightarrow> ty option pm" where
  "optional_type g =
     bind_p (p_match (T_punct P_colon)) (\<lambda>m.
     if m then (bind_p (g_type g) (\<lambda>ty.
       ret_p (Some ty))) else ret_p None)"

definition let_else :: "grammar \<Rightarrow> node pm" where
  "let_else g =
     bind_p parseLetPattern (\<lambda>pattern.
     bind_p (p_expect (T_punct P_equal)) (\<lambda>_.
     bind_p (g_expr g 0) (\<lambda>val.
     bind_p (p_expect (T_keyword K_else)) (\<lambda>_.
     bind_p (g_block g) (\<lambda>else_block.
     bind_p (p_expect (T_punct P_semicolon)) (\<lambda>_.
     ret_p (Let_else_stmt pattern val else_block)))))))"

definition let_tuple :: "grammar \<Rightarrow> node pm" where
  "let_tuple g =
     bind_p p_advance (\<lambda>_.
     bind_p (comma_list (T_punct P_r_paren) (p_take T_identifier)) (\<lambda>names.
     bind_p (p_expect (T_punct P_r_paren)) (\<lambda>_.
     bind_p (bound_value g) (\<lambda>val.
     ret_p (Let_destructure_stmt
          \<lparr>ds_names = names, ds_rest_name = None, ds_rest_alias = None, ds_is_slice = False\<rparr> val)))))"

definition slice_step :: "string list \<Rightarrow> (string list + string list \<times> string option \<times> string option) pm" where
  "slice_step names =
     bind_p p_peek (\<lambda>t.
     if t = T_punct P_r_bracket \<or> t = T_eof then ret_p (Inr (names, None, None))
        else if t = T_punct P_range then
          (bind_p p_advance (\<lambda>_.
       bind_p (p_take T_identifier) (\<lambda>rest_name.
       bind_p (p_match (T_keyword K_as)) (\<lambda>m.
       bind_p (if m then (bind_p (p_take T_identifier) (\<lambda>a.
         ret_p (Some a))) else ret_p None) (\<lambda>rest_alias.
       bind_p (p_match (T_punct P_comma)) (\<lambda>_.
       ret_p (Inr (names, Some rest_name, rest_alias))))))))
        else
          (bind_p (p_take T_identifier) (\<lambda>name.
       bind_p (p_match (T_punct P_comma)) (\<lambda>m.
       ret_p (if m then Inl (names @ [name]) else Inr (names @ [name], None, None))))))"

definition let_slice :: "grammar \<Rightarrow> node pm" where
  "let_slice g =
     bind_p p_advance (\<lambda>_.
     bind_p (while_p slice_step []) (\<lambda>(names, rest_name, rest_alias).
     bind_p (p_expect (T_punct P_r_bracket)) (\<lambda>_.
     bind_p (bound_value g) (\<lambda>val.
     ret_p (Let_destructure_stmt
          \<lparr>ds_names = names, ds_rest_name = rest_name, ds_rest_alias = rest_alias, ds_is_slice = True\<rparr> val)))))"

definition let_name :: "grammar \<Rightarrow> node pm" where
  "let_name g =
     bind_p (p_take T_identifier) (\<lambda>name.
     bind_p (optional_type g) (\<lambda>ty.
     bind_p (bound_value g) (\<lambda>val.
     ret_p (Let_stmt name ty val))))"

definition starts_let_else :: "scope \<Rightarrow> string \<Rightarrow> bool" where
  "starts_let_else sc name \<longleftrightarrow>
     name \<in> {''Some'', ''None'', ''Option'', ''Ok'', ''Err'', ''Result''} \<or> isKnownEnumName sc name"

definition parseLetStmt :: "scope \<Rightarrow> grammar \<Rightarrow> node pm" where
  "parseLetStmt sc g =
     bind_p (p_expect (T_keyword K_let)) (\<lambda>_.
     bind_p p_peek (\<lambda>t.
     bind_p p_lexeme (\<lambda>first_name.
     if t = T_keyword K_mut then fail_p UnexpectedToken
        else if t = T_identifier \<and> starts_let_else sc first_name then let_else g
        else if t = T_punct P_l_paren then let_tuple g
        else if t = T_punct P_l_bracket then let_slice g
        else let_name g)))"

definition parseConstStmt :: "grammar \<Rightarrow> node pm" where
  "parseConstStmt g =
     bind_p (p_expect (T_keyword K_const)) (\<lambda>_.
     bind_p (p_take T_identifier) (\<lambda>name.
     bind_p (optional_type g) (\<lambda>ty.
     bind_p (bound_value g) (\<lambda>val.
     ret_p (Const_stmt name ty val)))))"

definition parseVarStmt :: "grammar \<Rightarrow> node pm" where
  "parseVarStmt g =
     bind_p (p_expect (T_keyword K_var)) (\<lambda>_.
     bind_p (p_take T_identifier) (\<lambda>name.
     bind_p (p_expect (T_punct P_colon)) (\<lambda>_.
     bind_p (g_type g) (\<lambda>ty.
     bind_p (p_expect (T_punct P_semicolon)) (\<lambda>_.
     ret_p (Var_stmt name ty))))))"

definition parseReturnStmt :: "grammar \<Rightarrow> node pm" where
  "parseReturnStmt g =
     bind_p (p_expect (T_keyword K_return)) (\<lambda>_.
     bind_p p_peek (\<lambda>t.
     bind_p (if t \<noteq> T_punct P_semicolon then (bind_p (g_expr g 0) (\<lambda>e.
       ret_p (Some e))) else ret_p None) (\<lambda>val.
     bind_p (p_expect (T_punct P_semicolon)) (\<lambda>_.
     ret_p (Return_stmt val)))))"

definition parseBreakStmt :: "node pm" where
  "parseBreakStmt = bind_p (p_expect (T_keyword K_break)) (\<lambda>_.
     bind_p (p_expect (T_punct P_semicolon)) (\<lambda>_.
     ret_p Break_stmt))"

definition parseContinueStmt :: "node pm" where
  "parseContinueStmt =
     bind_p (p_expect (T_keyword K_continue)) (\<lambda>_.
     bind_p (p_expect (T_punct P_semicolon)) (\<lambda>_.
     ret_p Continue_stmt))"

definition parseReleaseStmt :: "node pm" where
  "parseReleaseStmt =
     bind_p (p_expect (T_punct P_bang)) (\<lambda>_.
     bind_p (p_take T_identifier) (\<lambda>var_name.
     bind_p (p_expect (T_punct P_semicolon)) (\<lambda>_.
     ret_p (Release_stmt var_name))))"

fun is_call :: "node \<Rightarrow> bool" where
  "is_call (Call_expr f t gs args callee) = True"
| "is_call _ = False"

definition call_operand :: "grammar \<Rightarrow> node pm" where
  "call_operand g = bind_p (g_expr g 0) (\<lambda>call.
     if is_call call then ret_p call else fail_p SyntaxError)"

definition parseDeferStmt :: "grammar \<Rightarrow> node pm" where
  "parseDeferStmt g =
     bind_p (p_expect (T_keyword K_defer)) (\<lambda>_.
     bind_p (call_operand g) (\<lambda>call.
     bind_p (p_expect (T_punct P_semicolon)) (\<lambda>_.
     ret_p (Defer_stmt call))))"

section \<open>Loops, select and blocks\<close>

definition parseForStmt :: "grammar \<Rightarrow> node pm" where
  "parseForStmt g =
     bind_p (p_expect (T_keyword K_for)) (\<lambda>_.
     bind_p (p_take T_identifier) (\<lambda>var_name.
     bind_p (p_expect (T_keyword K_in)) (\<lambda>_.
     bind_p (g_expr g 0) (\<lambda>start.
     bind_p (p_match (T_punct P_range)) (\<lambda>m.
     bind_p (if m then (bind_p (g_expr g 0) (\<lambda>e.
       ret_p (Some e))) else ret_p None) (\<lambda>stop.
     bind_p (g_block g) (\<lambda>body.
     ret_p (For_stmt var_name start stop body))))))))"

definition parseWhileStmt :: "grammar \<Rightarrow> node pm" where
  "parseWhileStmt g =
     bind_p (p_expect (T_keyword K_while)) (\<lambda>_.
     bind_p (p_match (T_keyword K_let)) (\<lambda>m.
     bind_p (if m then (bind_p parseLetPattern (\<lambda>pattern.
       bind_p (p_expect (T_punct P_equal)) (\<lambda>_.
       ret_p (Some pattern))))
           else ret_p None) (\<lambda>let_pattern.
     bind_p (g_expr g 0) (\<lambda>cond.
     bind_p (g_block g) (\<lambda>body.
     ret_p (While_stmt cond let_pattern body))))))"

text \<open>\<open>let name =\<close> or \<open>let (name, closed) =\<close> in front of the call of an arm.\<close>

definition select_binding :: "(string option \<times> string option) pm" where
  "select_binding =
     bind_p (p_match (T_keyword K_let)) (\<lambda>m.
     if \<not> m then ret_p (None, None)
        else
          (bind_p (p_match (T_punct P_l_paren)) (\<lambda>paren.
       bind_p (if paren then
                  (bind_p (p_take T_identifier) (\<lambda>name.
         bind_p (p_expect (T_punct P_comma)) (\<lambda>_.
         bind_p (p_take T_identifier) (\<lambda>closed.
         bind_p (p_expect (T_punct P_r_paren)) (\<lambda>_.
         ret_p (Some name, Some closed))))))
                else (bind_p (p_take T_identifier) (\<lambda>name.
         ret_p (Some name, None)))) (\<lambda>(name, closed).
       bind_p (p_expect (T_punct P_equal)) (\<lambda>_.
       ret_p (name, closed))))))"

fun select_kind_of :: "node \<Rightarrow> select_kind option" where
  "select_kind_of (Call_expr f t gs args callee) =
     (if f = ''recv'' then Some Sel_recv else if f = ''send'' then Some Sel_send else None)"
| "select_kind_of _ = None"

definition select_arm :: "grammar \<Rightarrow> select_case pm" where
  "select_arm g =
     bind_p select_binding (\<lambda>(bind_name, bind_closed).
     bind_p (g_expr g 0) (\<lambda>call.
     (case select_kind_of call of
           None \<Rightarrow> fail_p SyntaxError
         | Some kind \<Rightarrow>
             if kind = Sel_send \<and> bind_name \<noteq> None then fail_p SyntaxError
             else (bind_p (g_block g) (\<lambda>body.
       ret_p (Select_case kind call bind_name bind_closed body))))))"

type_synonym select_state =
  "select_case list \<times> node list option \<times> node option \<times> node list option"

definition select_step :: "grammar \<Rightarrow> select_state \<Rightarrow> (select_state + select_state) pm" where
  "select_step g = (\<lambda>(cases, default_body, timeout_expr, timeout_body).
     (bind_p p_peek (\<lambda>t.
     bind_p p_lexeme (\<lambda>head.
     if t = T_punct P_r_brace \<or> t = T_eof then ret_p (Inr (cases, default_body, timeout_expr, timeout_body))
        else if t \<noteq> T_identifier then fail_p SyntaxError
        else if head = ''case'' then
          (bind_p p_advance (\<lambda>_.
       bind_p (select_arm g) (\<lambda>arm.
       ret_p (Inl (cases @ [arm], default_body, timeout_expr, timeout_body)))))
        else if head = ''default'' then
          (bind_p p_advance (\<lambda>_.
       if default_body \<noteq> None then fail_p SyntaxError
             else (bind_p (g_block g) (\<lambda>body.
         ret_p (Inl (cases, Some body, timeout_expr, timeout_body))))))
        else if head = ''timeout'' then
          (bind_p p_advance (\<lambda>_.
       if timeout_expr \<noteq> None then fail_p SyntaxError
             else
               (bind_p (p_expect (T_punct P_l_paren)) (\<lambda>_.
         bind_p (g_expr g 0) (\<lambda>e.
         bind_p (p_expect (T_punct P_r_paren)) (\<lambda>_.
         bind_p (g_block g) (\<lambda>body.
         ret_p (Inl (cases, default_body, Some e, Some body)))))))))
        else fail_p SyntaxError))))"

definition parseSelectStmt :: "grammar \<Rightarrow> node pm" where
  "parseSelectStmt g =
     bind_p (p_expect (T_keyword K_select)) (\<lambda>_.
     bind_p (p_expect (T_punct P_l_brace)) (\<lambda>_.
     bind_p (while_p (select_step g) ([], None, None, None)) (\<lambda>(cases, default_body, timeout_expr, timeout_body).
     bind_p (p_expect (T_punct P_r_brace)) (\<lambda>_.
     ret_p (Select_stmt cases default_body timeout_expr timeout_body)))))"

definition block_step :: "grammar \<Rightarrow> node list \<Rightarrow> (node list + node list) pm" where
  "block_step g stmts =
     bind_p p_peek (\<lambda>t.
     if t = T_punct P_r_brace \<or> t = T_eof then ret_p (Inr stmts)
        else (bind_p (g_stmt g) (\<lambda>stmt.
       ret_p (Inl (stmts @ [stmt])))))"

definition parseBlock :: "grammar \<Rightarrow> node list pm" where
  "parseBlock g =
     bind_p (p_expect (T_punct P_l_brace)) (\<lambda>_.
     bind_p (while_p (block_step g) []) (\<lambda>stmts.
     bind_p (p_expect (T_punct P_r_brace)) (\<lambda>_.
     ret_p stmts)))"

section \<open>Assignments and expression statements\<close>

definition chain_step :: "grammar \<Rightarrow> node list \<times> node \<Rightarrow> ((node list \<times> node) + (node list \<times> node)) pm" where
  "chain_step g = (\<lambda>(targets, rhs).
     (bind_p (p_match (T_punct P_equal)) (\<lambda>m.
     if m then (bind_p (g_expr g 0) (\<lambda>e.
       ret_p (Inl (targets @ [rhs], e))))
        else ret_p (Inr (targets, rhs)))))"

text \<open>\<open>a = b = e\<close> is a block that binds \<open>e\<close> and assigns it from the last target to the first.\<close>

definition chain_block :: "string \<Rightarrow> node list \<Rightarrow> node \<Rightarrow> node" where
  "chain_block tmp targets rhs =
     Block_stmt (Let_stmt tmp None rhs # map (\<lambda>t. Assign_stmt t (Identifier tmp)) (rev targets))"

definition assignment :: "grammar \<Rightarrow> node \<Rightarrow> node pm" where
  "assignment g target =
     bind_p (g_expr g 0) (\<lambda>first.
     bind_p (while_p (chain_step g) ([target], first)) (\<lambda>(targets, rhs).
     bind_p (p_expect (T_punct P_semicolon)) (\<lambda>_.
     if length targets > 1 then (bind_p (fresh_synth ''__chain'') (\<lambda>tmp.
       ret_p (chain_block tmp targets rhs)))
        else ret_p (Assign_stmt target rhs))))"

definition compound_op :: "tag \<Rightarrow> binary_op option" where
  "compound_op t = map_of
     [(T_punct P_plus_equal, Bop_add), (T_punct P_minus_equal, Bop_sub), (T_punct P_asterisk_equal, Bop_mul),
      (T_punct P_slash_equal, Bop_div), (T_punct P_percent_equal, Bop_mod), (T_punct P_pipe_equal, Bop_bit_or),
      (T_punct P_ampersand_equal, Bop_bit_and)] t"

definition compound_assignment :: "grammar \<Rightarrow> node \<Rightarrow> (node \<Rightarrow> node) \<Rightarrow> node pm" where
  "compound_assignment g target value =
     bind_p p_advance (\<lambda>_.
     bind_p (g_expr g 0) (\<lambda>rhs.
     bind_p (p_expect (T_punct P_semicolon)) (\<lambda>_.
     ret_p (Assign_stmt target (value rhs)))))"

definition expression_statement :: "node \<Rightarrow> node pm" where
  "expression_statement e =
     bind_p (p_match (T_punct P_semicolon)) (\<lambda>m.
     bind_p p_peek (\<lambda>t.
     if m then ret_p (Expr_stmt e)
        else if is_identifier e \<and> t = T_punct P_colon then fail_p SyntaxError
        else if t \<noteq> T_punct P_r_brace then (bind_p (p_expect (T_punct P_semicolon)) (\<lambda>_.
       ret_p (Expr_stmt e)))
        else ret_p (Expr_stmt e)))"

definition expression_first :: "grammar \<Rightarrow> node pm" where
  "expression_first g =
     bind_p (g_expr g 0) (\<lambda>e.
     bind_p p_peek (\<lambda>t.
     if t = T_punct P_equal then (bind_p p_advance (\<lambda>_.
       assignment g e))
        else case compound_op t of
          Some bop \<Rightarrow> compound_assignment g e (Binary_expr bop e)
        | None \<Rightarrow>
            if t = T_punct P_question_question_equal then
              compound_assignment g e (\<lambda>rhs. plain_call ''Some'' [plain_call ''unwrap_or'' [e, rhs]])
            else expression_statement e))"

definition atArenaBlockStart :: "ltoken list \<Rightarrow> bool" where
  "atArenaBlockStart ts \<longleftrightarrow>
     tag_at 0 ts = T_identifier \<and> snd (hd ts) = ''arena'' \<and> tag_at 1 ts = T_punct P_l_brace"

definition parseStmt :: "scope \<Rightarrow> grammar \<Rightarrow> node pm" where
  "parseStmt sc g =
     bind_p (p_look atArenaBlockStart) (\<lambda>arena.
     bind_p p_peek (\<lambda>t.
     if arena then (bind_p p_advance (\<lambda>_.
       bind_p (g_block g) (\<lambda>body.
       ret_p (Arena_stmt body))))
        else if t = T_keyword K_using then parseUsingDecl
        else if t = T_keyword K_let then parseLetStmt sc g
        else if t = T_keyword K_const then parseConstStmt g
        else if t = T_keyword K_var then parseVarStmt g
        else if t = T_keyword K_return then parseReturnStmt g
        else if t = T_keyword K_for then parseForStmt g
        else if t = T_keyword K_while then parseWhileStmt g
        else if t = T_keyword K_select then parseSelectStmt g
        else if t = T_keyword K_defer then parseDeferStmt g
        else if t = T_keyword K_break then parseBreakStmt
        else if t = T_keyword K_continue then parseContinueStmt
        else if t = T_punct P_bang then parseReleaseStmt
        else if t = T_punct P_l_brace then (bind_p (g_block g) (\<lambda>body.
       ret_p (Block_stmt body)))
        else expression_first g))"

section \<open>The knot\<close>

fun expr_at :: "scope \<Rightarrow> nat \<Rightarrow> nat \<Rightarrow> node pm"
and if_at :: "scope \<Rightarrow> nat \<Rightarrow> node pm"
and block_at :: "scope \<Rightarrow> nat \<Rightarrow> node list pm"
and stmt_at :: "scope \<Rightarrow> nat \<Rightarrow> node pm"
and type_at :: "scope \<Rightarrow> nat \<Rightarrow> ty pm"
where
  "expr_at sc 0 p st = Out_of_fuel"
| "expr_at sc (Suc n) p st = parseExpr sc \<lparr>g_expr = expr_at sc n, g_if = if_at sc n, g_block = block_at sc n,
     g_stmt = stmt_at sc n, g_type = type_at sc n\<rparr> p st"
| "if_at sc 0 st = Out_of_fuel"
| "if_at sc (Suc n) st = parseIfExpr \<lparr>g_expr = expr_at sc n, g_if = if_at sc n, g_block = block_at sc n,
     g_stmt = stmt_at sc n, g_type = type_at sc n\<rparr> st"
| "block_at sc 0 st = Out_of_fuel"
| "block_at sc (Suc n) st = parseBlock \<lparr>g_expr = expr_at sc n, g_if = if_at sc n, g_block = block_at sc n,
     g_stmt = stmt_at sc n, g_type = type_at sc n\<rparr> st"
| "stmt_at sc 0 st = Out_of_fuel"
| "stmt_at sc (Suc n) st = parseStmt sc \<lparr>g_expr = expr_at sc n, g_if = if_at sc n, g_block = block_at sc n,
     g_stmt = stmt_at sc n, g_type = type_at sc n\<rparr> st"
| "type_at sc 0 st = Out_of_fuel"
| "type_at sc (Suc n) st = parseType sc \<lparr>g_expr = expr_at sc n, g_if = if_at sc n, g_block = block_at sc n,
     g_stmt = stmt_at sc n, g_type = type_at sc n\<rparr> st"

definition grammar_at :: "scope \<Rightarrow> nat \<Rightarrow> grammar" where
  "grammar_at sc n = \<lparr>g_expr = expr_at sc n, g_if = if_at sc n, g_block = block_at sc n,
     g_stmt = stmt_at sc n, g_type = type_at sc n\<rparr>"

lemma grammar_at_sel [simp]:
  "g_expr (grammar_at sc n) = expr_at sc n" "g_if (grammar_at sc n) = if_at sc n"
  "g_block (grammar_at sc n) = block_at sc n" "g_stmt (grammar_at sc n) = stmt_at sc n"
  "g_type (grammar_at sc n) = type_at sc n"
  by (simp_all add: grammar_at_def)

lemma knot:
  "expr_at sc (Suc n) p = parseExpr sc (grammar_at sc n) p"
  "if_at sc (Suc n) = parseIfExpr (grammar_at sc n)"
  "block_at sc (Suc n) = parseBlock (grammar_at sc n)"
  "stmt_at sc (Suc n) = parseStmt sc (grammar_at sc n)"
  "type_at sc (Suc n) = parseType sc (grammar_at sc n)"
  by (simp_all add: fun_eq_iff grammar_at_def)

end
