(* ===== verification/Sla_Parse_Ends.thy ===== *)
theory Sla_Parse_Ends
  imports Sla_Parse_Stmt
begin

text \<open>
  The parser returns.  A method eats when it consumes a token whenever it gives a value; the locales
  state what a method promises to the methods that call it, for inputs up to a weight, and every
  method keeps the promise for one token more.
\<close>

section \<open>Eating and steady methods\<close>

lemma weight_simps [simp]: "weight [] = 0"
  "weight (t # ts) = (if fst t = T_punct P_greater_greater then 2 else 1) + weight ts"
  by (simp_all add: weight_def)

lemma weight_tl: "weight (tl ts) \<le> weight ts" by (cases ts) auto

lemma weight_tl_less: "tag_at 0 ts \<noteq> T_eof \<Longrightarrow> weight (tl ts) < weight ts"
  by (cases ts) (auto simp: tag_at_def)

definition at_tag :: "tag option \<Rightarrow> pstate \<Rightarrow> bool" where
  "at_tag T st \<longleftrightarrow> (\<forall>t. T = Some t \<longrightarrow> tag_at 0 (toks st) = t)"

text \<open>\<open>Q\<close> are the values with which a token must have been consumed.\<close>

primrec lands :: "('a \<Rightarrow> bool) \<Rightarrow> nat \<Rightarrow> 'a outcome \<Rightarrow> bool" where
  "lands Q w Out_of_fuel = False"
| "lands Q w (Fails e st) = (weight (toks st) \<le> w)"
| "lands Q w (Gives x st) = (weight (toks st) \<le> w \<and> (Q x \<longrightarrow> weight (toks st) < w))"

definition moves :: "('a \<Rightarrow> bool) \<Rightarrow> nat \<Rightarrow> tag option \<Rightarrow> 'a pm \<Rightarrow> bool" where
  "moves Q k T m \<longleftrightarrow>
     (\<forall>st. weight (toks st) < k \<longrightarrow> at_tag T st \<longrightarrow> lands Q (weight (toks st)) (m st))"

lemma lands_less: "lands R v r \<Longrightarrow> v < w \<Longrightarrow> lands Q w r"
  by (cases r) auto

lemma lands_le: "lands R v r \<Longrightarrow> v \<le> w \<Longrightarrow> (\<And>x. Q x \<Longrightarrow> R x) \<Longrightarrow> lands Q w r"
  by (cases r) fastforce+

definition steady_p :: "nat \<Rightarrow> 'a pm \<Rightarrow> bool" where
  "steady_p k m = moves (\<lambda>_. False) k None m"

definition eats :: "nat \<Rightarrow> tag option \<Rightarrow> 'a pm \<Rightarrow> bool" where
  "eats k T m = moves (\<lambda>_. True) k T m"

definition rounds :: "nat \<Rightarrow> tag option \<Rightarrow> ('s + 'r) pm \<Rightarrow> bool" where
  "rounds k T m = moves isl k T m"

lemmas moving = moves_def steady_p_def eats_def rounds_def at_tag_def

lemma movesD: "moves Q k T m \<Longrightarrow> weight (toks st) < k \<Longrightarrow> at_tag T st \<Longrightarrow> lands Q (weight (toks st)) (m st)"
  by (simp add: moves_def)

lemma movesI:
  "(\<And>st. weight (toks st) < k \<Longrightarrow> at_tag T st \<Longrightarrow> lands Q (weight (toks st)) (m st)) \<Longrightarrow> moves Q k T m"
  by (simp add: moves_def)

lemma at_None [simp]: "at_tag None st"
  by (simp add: at_tag_def)

lemma moves_bind_eaten:
  assumes "moves (\<lambda>_. True) k T m" "\<And>x. moves (\<lambda>_. False) (k - 1) None (f x)"
  shows "moves Q k T (bind_p m f)"
proof (rule movesI)
  fix st :: pstate assume st: "weight (toks st) < k" "at_tag T st"
  from movesD [OF assms(1) st] have m: "lands (\<lambda>_. True) (weight (toks st)) (m st)" .
  show "lands Q (weight (toks st)) (bind_p m f st)"
  proof (cases "m st")
    case (Gives x st')
    with m st(1) have less: "weight (toks st') < weight (toks st)" "weight (toks st') < k - 1" by auto
    from lands_less [OF movesD [OF assms(2) less(2)] less(1)] Gives show ?thesis by (simp add: bind_p_def)
  qed (use m in \<open>simp_all add: bind_p_def\<close>)
qed

lemma moves_bind_kept:
  assumes "\<And>st. \<exists>x st'. m st = Gives x st' \<and> toks st' = toks st" "\<And>x. moves Q k T (f x)"
  shows "moves Q k T (bind_p m f)"
proof (rule movesI)
  fix st :: pstate assume st: "weight (toks st) < k" "at_tag T st"
  obtain x st' where m: "m st = Gives x st'" "toks st' = toks st" using assms(1) by blast
  with st have "weight (toks st') < k" "at_tag T st'" by (simp_all add: at_tag_def)
  from movesD [OF assms(2) this] m show "lands Q (weight (toks st)) (bind_p m f st)"
    by (simp add: bind_p_def)
qed

lemma moves_bind_steady:
  assumes "moves (\<lambda>_. False) k T m" "\<And>x. moves (\<lambda>_. False) k None (f x)"
  shows "moves (\<lambda>_. False) k T (bind_p m f)"
proof (rule movesI)
  fix st :: pstate assume st: "weight (toks st) < k" "at_tag T st"
  from movesD [OF assms(1) st] have m: "lands (\<lambda>_. False) (weight (toks st)) (m st)" .
  show "lands (\<lambda>_. False) (weight (toks st)) (bind_p m f st)"
  proof (cases "m st")
    case (Gives x st')
    with m st(1) have le: "weight (toks st') \<le> weight (toks st)" "weight (toks st') < k" by auto
    from lands_le [OF movesD [OF assms(2) le(2)] le(1)] Gives show ?thesis by (simp add: bind_p_def)
  qed (use m in \<open>simp_all add: bind_p_def\<close>)
qed

lemma moves_peek:
  assumes "\<And>t. moves Q k (Some t) (f t)" shows "moves Q k T (bind_p p_peek f)"
proof (rule movesI)
  fix st :: pstate assume "weight (toks st) < k"
  from movesD [OF assms this, of "tag_at 0 (toks st)"] show "lands Q (weight (toks st)) (bind_p p_peek f st)"
    by (simp add: bind_p_def p_peek_def at_tag_def)
qed

lemma moves_weaken:
  assumes "moves Q k None m" "j \<le> k" "\<And>x. R x \<Longrightarrow> Q x"
  shows "moves R j U m"
proof (rule movesI)
  fix st :: pstate assume "weight (toks st) < j"
  with assms(2) have "weight (toks st) < k" by simp
  from lands_le [OF movesD [OF assms(1) this] le_refl] assms(3)
  show "lands R (weight (toks st)) (m st)" by simp
qed

lemma moves_match:
  assumes "t \<noteq> T_eof" "moves (\<lambda>_. False) (k - 1) None (f True)" "moves Q k T (f False)"
  shows "moves Q k T (bind_p (p_match t) f)"
proof (rule movesI)
  fix st :: pstate assume st: "weight (toks st) < k" "at_tag T st"
  show "lands Q (weight (toks st)) (bind_p (p_match t) f st)"
  proof (cases "tag_at 0 (toks st) = t")
    case True
    let ?st = "st\<lparr>toks := tl (toks st)\<rparr>"
    have less: "weight (toks ?st) < weight (toks st)" using weight_tl_less True assms(1) by simp
    with st have "weight (toks ?st) < k - 1" by simp
    from lands_less [OF movesD [OF assms(2) this] less] True show ?thesis
      by (simp add: p_match_def bind_p_def p_peek_def p_advance_def ret_p_def)
  next
    case False
    with movesD [OF assms(3) st] show ?thesis
      by (simp add: p_match_def bind_p_def p_peek_def p_advance_def ret_p_def)
  qed
qed

section \<open>Rules\<close>

lemma steady_less: "steady_p k m \<Longrightarrow> j \<le> k \<Longrightarrow> steady_p j m"
  unfolding steady_p_def by (rule moves_weaken) simp_all

lemma eats_steady: "eats k None m \<Longrightarrow> j \<le> k \<Longrightarrow> steady_p j m"
  unfolding steady_p_def eats_def by (rule moves_weaken) simp_all

lemma eats_any: "eats k None m \<Longrightarrow> j \<le> k \<Longrightarrow> eats j T m"
  unfolding eats_def by (rule moves_weaken) simp_all

lemma eats_less: "eats k T m \<Longrightarrow> j \<le> k \<Longrightarrow> eats j T m"
  unfolding eats_def moves_def by simp

lemma steady_bind:
  "steady_p k m \<Longrightarrow> (\<And>x. steady_p k (f x)) \<Longrightarrow> steady_p k (bind_p m f)"
  unfolding steady_p_def by (rule moves_bind_steady)

lemma eats_bind:
  "eats (Suc k) T m \<Longrightarrow> (\<And>x. steady_p k (f x)) \<Longrightarrow> eats (Suc k) T (bind_p m f)"
  unfolding steady_p_def eats_def by (rule moves_bind_eaten) simp_all

lemma eats_bind_same:
  assumes "eats k T m" "\<And>x. steady_p k (f x)" shows "eats k T (bind_p m f)"
  unfolding eats_def
  by (rule moves_bind_eaten [OF assms(1) [unfolded eats_def]])
    (rule steady_less [OF assms(2), unfolded steady_p_def], simp)

lemma rounds_bind:
  assumes "eats k T m" "\<And>x. steady_p k (f x)" shows "rounds k T (bind_p m f)"
  unfolding rounds_def
  by (rule moves_bind_eaten [OF assms(1) [unfolded eats_def]])
    (rule steady_less [OF assms(2), unfolded steady_p_def], simp)

lemma split_intro:
  "(b \<Longrightarrow> steady_p k m) \<Longrightarrow> (\<not> b \<Longrightarrow> steady_p k n) \<Longrightarrow> steady_p k (if b then m else n)"
  "(b \<Longrightarrow> eats k T m') \<Longrightarrow> (\<not> b \<Longrightarrow> eats k T n') \<Longrightarrow> eats k T (if b then m' else n')"
  "(b \<Longrightarrow> rounds k T m'') \<Longrightarrow> (\<not> b \<Longrightarrow> rounds k T n'') \<Longrightarrow> rounds k T (if b then m'' else n'')"
  by simp_all

lemma ret_fail:
  "steady_p k (ret_p x)" "steady_p k (fail_p e)" "eats k T (fail_p e)" "rounds k T (fail_p e)"
  "rounds k T (ret_p (Inr y))"
  by (simp_all add: moving ret_p_def fail_p_def)

lemma steady_or_fail: "steady_p k (or_fail e x)"
  by (simp add: or_fail_def ret_fail split: option.splits)

lemma steady_cursor:
  "steady_p k p_peek" "steady_p k p_lexeme" "steady_p k (p_look f)" "steady_p k p_advance"
  "steady_p k note_bang" "steady_p k (fresh_synth p)"
  by (simp_all add: moving p_peek_def p_lexeme_def p_look_def p_advance_def note_bang_def fresh_synth_def
      weight_tl)

lemma advance_eats: "t \<noteq> T_eof \<Longrightarrow> eats k (Some t) p_advance"
  by (auto simp: moving p_advance_def weight_tl_less weight_tl)

lemma expect_eats: "t \<noteq> T_eof \<Longrightarrow> eats k T (p_expect t)"
  by (auto simp: moving p_expect_def bind_p_def p_peek_def fail_p_def p_advance_def weight_tl_less weight_tl)

lemma take_eats: "t \<noteq> T_eof \<Longrightarrow> eats k T (p_take t)"
  by (auto simp: moving p_take_def p_expect_def p_lexeme_def ret_p_def bind_p_def p_peek_def fail_p_def
      p_advance_def weight_tl_less weight_tl)

lemma steady_cursor':
  "steady_p k (p_expect t)" "steady_p k (p_match t)" "steady_p k (p_take t)"
  by (auto simp: moving p_take_def p_expect_def p_match_def p_lexeme_def ret_p_def bind_p_def p_peek_def fail_p_def
      p_advance_def weight_tl)

lemma close_eats: "eats k T expectGenericClose"
  by (auto simp: moving expectGenericClose_def split: list.splits)

lemma close_steady: "steady_p k expectGenericClose"
  by (rule eats_steady [OF close_eats le_refl])

text \<open>Looking at the current token does not move.\<close>

lemma peek_first:
  "(\<And>t. eats k (Some t) (f t)) \<Longrightarrow> eats k T (bind_p p_peek f)"
  "(\<And>t. rounds k (Some t) (g t)) \<Longrightarrow> rounds k T (bind_p p_peek g)"
  unfolding eats_def rounds_def by (rule moves_peek, assumption)+

lemma look_first:
  "(\<And>x. eats k T (f x)) \<Longrightarrow> eats k T (bind_p p_lexeme f)"
  "(\<And>x. rounds k T (g x)) \<Longrightarrow> rounds k T (bind_p p_lexeme g)"
  "(\<And>x. eats k T (f' x)) \<Longrightarrow> eats k T (bind_p (p_look h) f')"
  "(\<And>x. rounds k T (g' x)) \<Longrightarrow> rounds k T (bind_p (p_look h') g')"
  unfolding eats_def rounds_def
  by (rule moves_bind_kept, simp add: p_lexeme_def p_look_def, assumption)+

lemma match_first:
  "t \<noteq> T_eof \<Longrightarrow> steady_p k (f True) \<Longrightarrow> eats (Suc k) T (f False) \<Longrightarrow> eats (Suc k) T (bind_p (p_match t) f)"
  "t \<noteq> T_eof \<Longrightarrow> steady_p k (g True) \<Longrightarrow> rounds k T (g False) \<Longrightarrow> rounds k T (bind_p (p_match t) g)"
proof -
  show "t \<noteq> T_eof \<Longrightarrow> steady_p k (f True) \<Longrightarrow> eats (Suc k) T (f False) \<Longrightarrow> eats (Suc k) T (bind_p (p_match t) f)"
    unfolding eats_def steady_p_def by (rule moves_match) simp_all
  assume "t \<noteq> T_eof" "steady_p k (g True)" "rounds k T (g False)"
  then show "rounds k T (bind_p (p_match t) g)"
    unfolding rounds_def using steady_less [of k "g True" "k - 1"]
    by (intro moves_match) (simp_all add: steady_p_def)
qed

section \<open>Loops\<close>

lemma loop_lands:
  assumes "\<And>s. rounds k None (body s)" "weight (toks st) < k" "weight (toks st) < n"
  shows "lands (\<lambda>_. False) (weight (toks st)) (loop_p n body s st)"
  using assms(2,3)
proof (induction n arbitrary: s st)
  case (Suc n)
  from movesD [OF assms(1) [unfolded rounds_def] Suc.prems(1)]
  have b: "lands isl (weight (toks st)) (body s st)" by simp
  show ?case
  proof (cases "body s st")
    case (Gives r st')
    show ?thesis
    proof (cases r)
      case (Inl s')
      with b Gives have less: "weight (toks st') < weight (toks st)" by simp
      from Suc.IH [of st' s'] less Suc.prems have "lands (\<lambda>_. False) (weight (toks st')) (loop_p n body s' st')"
        by simp
      from lands_less [OF this less] Gives Inl show ?thesis by (simp add: bind_p_def)
    next
      case (Inr x)
      with b Gives show ?thesis by (simp add: bind_p_def ret_p_def)
    qed
  qed (use b in \<open>simp_all add: bind_p_def\<close>)
qed simp

lemma while_steady:
  assumes "\<And>s. rounds k None (body s)" shows "steady_p k (while_p body s)"
  unfolding steady_p_def
  by (rule movesI) (simp only: while_p_def, rule loop_lands [OF assms], simp_all)

text \<open>A loop whose rounds all eat has eaten.\<close>

lemma while_eats:
  assumes "\<And>s. eats k None (body s)" shows "eats k T (while_p body s)"
  unfolding eats_def
proof (rule movesI)
  fix st :: pstate assume st: "weight (toks st) < k"
  have r: "rounds k None (body s')" for s'
    using assms unfolding rounds_def eats_def by (rule moves_weaken) simp_all
  from movesD [OF assms [unfolded eats_def] st] have b: "lands (\<lambda>_. True) (weight (toks st)) (body s st)" by simp
  show "lands (\<lambda>_. True) (weight (toks st)) (while_p body s st)"
  proof (cases "body s st")
    case (Gives x st')
    with b have less: "weight (toks st') < weight (toks st)" by simp
    show ?thesis
    proof (cases x)
      case (Inl s')
      from less st have "weight (toks st') < k" by simp
      from lands_less [OF loop_lands [OF r this less] less] Gives Inl show ?thesis
        by (simp add: while_p_def bind_p_def)
    next
      case (Inr y)
      with Gives less show ?thesis by (simp add: while_p_def bind_p_def ret_p_def)
    qed
  qed (use b in \<open>simp_all add: while_p_def bind_p_def\<close>)
qed

section \<open>The bundle of rules\<close>

lemma case_rules:
  "(x = None \<Longrightarrow> steady_p k a) \<Longrightarrow> (\<And>y. x = Some y \<Longrightarrow> steady_p k (f y)) \<Longrightarrow> steady_p k (case x of None \<Rightarrow> a | Some y \<Rightarrow> f y)"
  "(x = None \<Longrightarrow> eats k T a) \<Longrightarrow> (\<And>y. x = Some y \<Longrightarrow> eats k T (f y)) \<Longrightarrow> eats k T (case x of None \<Rightarrow> a | Some y \<Rightarrow> f y)"
  "(\<And>a b. steady_p k (h a b)) \<Longrightarrow> steady_p k (case p of (a, b) \<Rightarrow> h a b)"
  "(\<And>a b. eats k T (h a b)) \<Longrightarrow> eats k T (case p of (a, b) \<Rightarrow> h a b)"
  "(\<And>a b. rounds k T (h' a b)) \<Longrightarrow> rounds k T (case p of (a, b) \<Rightarrow> h' a b)"
  by (auto split: option.splits prod.splits)

lemma advance_fail: "eats k T (bind_p p_advance (\<lambda>_. fail_p e))"
  by (simp add: moving bind_p_def p_advance_def fail_p_def weight_tl)

lemma eats_bind_later:
  assumes "steady_p k m" "\<And>x. eats k None (f x)" shows "eats k T (bind_p m f)"
  unfolding eats_def
proof (rule movesI)
  fix st :: pstate assume st: "weight (toks st) < k"
  from movesD [OF assms(1) [unfolded steady_p_def] st] have m: "lands (\<lambda>_. False) (weight (toks st)) (m st)" by simp
  show "lands (\<lambda>_. True) (weight (toks st)) (bind_p m f st)"
  proof (cases "m st")
    case (Gives x st')
    with m st have le: "weight (toks st') \<le> weight (toks st)" "weight (toks st') < k" by auto
    from lands_le [OF movesD [OF assms(2) [unfolded eats_def] le(2)] le(1)] Gives show ?thesis
      by (simp add: bind_p_def)
  qed (use m in \<open>simp_all add: bind_p_def\<close>)
qed

lemma eats_leaf: "eats (Suc k) None m \<Longrightarrow> steady_p k m"
  by (erule eats_steady) (rule le_SucI, rule le_refl)

lemmas ends = split_intro case_rules ret_fail steady_or_fail steady_cursor steady_cursor'
  peek_first look_first match_first advance_eats expect_eats take_eats close_eats close_steady
  steady_bind eats_bind rounds_bind while_steady

lemma some_list_eats:
  assumes "eats k None item" shows "eats k T (some_list item)"
  unfolding some_list_def some_step_def
  by (rule while_eats, rule eats_bind_same, rule assms, intro ends)

lemma list_steady:
  assumes "eats k None item"
  shows "steady_p k (some_list item)" "steady_p k (comma_list close item)" "steady_p k (loose_list close item)"
proof -
  have item: "eats k T item" for T using eats_any [OF assms] by simp
  show "steady_p k (some_list item)" by (rule eats_steady [OF some_list_eats [OF assms] le_refl])
  show "steady_p k (comma_list close item)" "steady_p k (loose_list close item)"
    unfolding comma_list_def comma_step_def loose_list_def loose_step_def by (intro ends item)+
qed

text \<open>Alternatives that go back to where they began.\<close>

lemma attempt_steady: "steady_p k m \<Longrightarrow> steady_p k (attempt m)"
  unfolding steady_p_def moves_def attempt_def
  by (intro allI impI, drule spec, drule mp, assumption) (auto split: outcome.splits)

lemma retry_steady:
  assumes "steady_p k m" "steady_p k h"
  shows "steady_p k (bind_p (p_look id) (\<lambda>saved. bind_p m (\<lambda>r.
    case r of Some n \<Rightarrow> ret_p n | None \<Rightarrow> bind_p (p_restore saved) (\<lambda>_. h))))"
  unfolding steady_p_def
proof (rule movesI)
  fix st :: pstate assume st: "weight (toks st) < k"
  from movesD [OF assms(1) [unfolded steady_p_def] st] have m: "lands (\<lambda>_. False) (weight (toks st)) (m st)" by simp
  show "lands (\<lambda>_. False) (weight (toks st)) (bind_p (p_look id) (\<lambda>saved. bind_p m (\<lambda>r.
    case r of Some n \<Rightarrow> ret_p n | None \<Rightarrow> bind_p (p_restore saved) (\<lambda>_. h))) st)"
  proof (cases "m st")
    case (Gives r st')
    from movesD [OF assms(2) [unfolded steady_p_def], of "st'\<lparr>toks := toks st\<rparr>"] st m Gives show ?thesis
      by (cases r) (simp_all add: bind_p_def p_look_def p_restore_def ret_p_def)
  qed (use m in \<open>simp_all add: bind_p_def p_look_def\<close>)
qed

lemma retry_rounds:
  assumes "t \<noteq> T_eof" "steady_p k m" "rounds k None h"
  shows "rounds k (Some t) (bind_p (p_look id) (\<lambda>saved. bind_p p_advance (\<lambda>_. bind_p m (\<lambda>r.
    case r of Some n \<Rightarrow> ret_p (Inl n) | None \<Rightarrow> bind_p (p_restore saved) (\<lambda>_. h)))))"
  unfolding rounds_def
proof (rule movesI)
  fix st :: pstate assume st: "weight (toks st) < k" "at_tag (Some t) st"
  let ?st = "st\<lparr>toks := tl (toks st)\<rparr>"
  have less: "weight (toks ?st) < weight (toks st)" using st(2) assms(1) weight_tl_less by (simp add: at_tag_def)
  with st have "weight (toks ?st) < k" by simp
  from movesD [OF assms(2) [unfolded steady_p_def] this]
  have m: "lands (\<lambda>_. False) (weight (toks ?st)) (m ?st)" by simp
  show "lands isl (weight (toks st)) (bind_p (p_look id) (\<lambda>saved. bind_p p_advance (\<lambda>_. bind_p m (\<lambda>r.
    case r of Some n \<Rightarrow> ret_p (Inl n) | None \<Rightarrow> bind_p (p_restore saved) (\<lambda>_. h)))) st)"
  proof (cases "m ?st")
    case (Gives r st')
    from movesD [OF assms(3) [unfolded rounds_def], of "st'\<lparr>toks := toks st\<rparr>"] st m Gives less show ?thesis
      by (cases r) (simp_all add: bind_p_def p_look_def p_restore_def p_advance_def ret_p_def)
  qed (use m less in \<open>simp_all add: bind_p_def p_look_def p_advance_def\<close>)
qed

section \<open>What the callers rely on\<close>

text \<open>Expressions, conditionals, blocks and types eat, below the weight \<open>k\<close>.\<close>

locale expr_contract =
  fixes g :: grammar and k :: nat
  assumes exprs: "eats k None (g_expr g p)"
    and ifs: "eats k None (g_if g)"
    and blocks: "eats k None (g_block g)"
    and types: "eats k None (g_type g)"
begin

lemma calls:
  "eats k T (g_expr g p)" "eats k T (g_if g)" "eats k T (g_block g)" "eats k T (g_type g)"
  using eats_any exprs ifs blocks types by blast+

lemma calls_steady:
  "steady_p k (g_expr g p)" "steady_p k (g_if g)" "steady_p k (g_block g)" "steady_p k (g_type g)"
  using eats_steady exprs ifs blocks types by blast+

lemma types_eat: "eats k T (generic_args g)" "steady_p k (generic_args g)"
proof -
  show "eats k T (generic_args g)" for T
    unfolding generic_args_def by (rule eats_bind_same, rule some_list_eats, rule types, intro ends)
  then show "steady_p k (generic_args g)" by (rule eats_steady) simp
qed

lemma self_type_steady: "steady_p k (self_type sc)"
  unfolding self_type_def by (intro ends)

lemma named_type_steady: "steady_p k (named_type sc g name)"
  unfolding named_type_def by (intro ends self_type_steady types_eat) (simp_all split: list.splits add: ret_fail)

lemma fn_type_eats: "eats (Suc k) T (parseFunctionType g abi)"
  unfolding parseFunctionType_def fn_param_step_def
  by (intro ends calls calls_steady) simp_all

lemma type_tails_steady: "steady_p k (array_type g)" "steady_p k (paren_type g)"
  unfolding array_type_def paren_type_def by (intro ends calls_steady list_steady types)+

lemma abi_steady: "steady_p k parseOptionalExternAbi"
  unfolding parseOptionalExternAbi_def by (intro ends)

lemma type_atom_eats: "eats (Suc k) T (parseTypeAtom sc g)"
proof -
  have "eats (Suc k) (Some t) (bind_p p_lexeme (\<lambda>name. bind_p p_advance (\<lambda>_.
       if t = T_identifier then named_type sc g name
       else if t = T_keyword K_dyn then
         bind_p (p_take T_identifier) (\<lambda>trait_name. ret_p (Ty_user_defined (''__dyn_'' @ trait_name) []))
       else if t = T_keyword K_extern then
         bind_p parseOptionalExternAbi (\<lambda>abi. bind_p (p_expect (T_keyword K_fn)) (\<lambda>_. parseFunctionType g abi))
       else if t = T_keyword K_fn then parseFunctionType g None
       else if t = T_punct P_ampersand then bind_p (g_type g) (\<lambda>inner. ret_p (Ty_borrow inner))
       else if t = T_punct P_asterisk then bind_p (g_type g) (\<lambda>inner. ret_p (Ty_pointer inner))
       else if t = T_punct P_l_bracket then array_type g
       else if t = T_punct P_l_paren then paren_type g
       else fail_p UnexpectedTypeToken)))" for t
  proof (cases "t = T_eof")
    case True
    then show ?thesis by (simp add: look_first advance_fail)
  next
    case False
    then show ?thesis
      by (intro ends calls_steady types_eat named_type_steady abi_steady type_tails_steady eats_leaf [OF fn_type_eats])
  qed
  then show ?thesis unfolding parseTypeAtom_def by (rule peek_first)
qed

lemma type_eats: "eats (Suc k) T (parseType sc g)"
  unfolding parseType_def by (intro ends type_atom_eats)

lemma args_steady: "steady_p k (paren_args g)"
  unfolding paren_args_def by (intro ends list_steady exprs)

lemma named_field_eats: "eats k T (named_field mk g)"
  unfolding named_field_def by (rule eats_bind_same) ((intro ends calls_steady)[1]; simp)+

lemma struct_literal_eats: "eats (Suc k) T (parseStructLiteral g ty)"
  unfolding parseStructLiteral_def struct_field_step_def
  by (intro ends calls_steady named_field_eats) simp_all

lemma named_tails_steady:
  "steady_p k (parseGenericStructLiteralTail g name)" "steady_p k (parseGenericCallTail g name)"
  "steady_p k (parseGenericFunctionRefTail g name)" "steady_p k (parseEnumLiteralAfterName g name)"
  "steady_p k (parseModuleCallAfterName g name)" "steady_p k (parseAssociatedCallAfterName g name)"
  unfolding parseGenericStructLiteralTail_def parseGenericCallTail_def parseGenericFunctionRefTail_def
    parseEnumLiteralAfterName_def parseModuleCallAfterName_def parseAssociatedCallAfterName_def
    module_path_step_def
  by (intro ends types_eat args_steady eats_leaf [OF struct_literal_eats] list_steady named_field_eats; simp)+

lemma closure_eats: "eats (Suc k) T (parseClosureLiteral g)"
  unfolding parseClosureLiteral_def closure_param_def
  by (intro ends calls_steady list_steady eats_bind_same; simp)

lemma patterns:
  "steady_p j pattern_bindings" "eats (Suc j) T parseEnumPattern" "eats (Suc j) T parseLetPattern"
proof -
  have names: "steady_p j pattern_bindings" for j
    unfolding pattern_bindings_def by (intro ends list_steady; simp)
  then show "steady_p j pattern_bindings" .
  show "eats (Suc j) T parseEnumPattern" "eats (Suc j) T parseLetPattern"
    unfolding parseEnumPattern_def parseLetPattern_def by (intro ends names; simp)+
qed

lemma patterns_same: "eats j T parseEnumPattern" "eats j T parseLetPattern"
  by (rule eats_any [OF patterns(2) le_SucI [OF le_refl]], rule eats_any [OF patterns(3) le_SucI [OF le_refl]])

lemma if_eats: "eats (Suc k) T (parseIfExpr g)"
  unfolding parseIfExpr_def parseIfLetChain_def let_chain_step_def
  by (intro ends calls_steady eats_leaf [OF patterns(3)]; simp)

lemma match_case_eats: "eats k T (match_case g)"
  unfolding match_case_def
  by (rule eats_bind_same, rule patterns_same, (intro ends calls_steady)[1]; simp)

lemma match_eats: "eats (Suc k) T (parseMatchExpr g)"
  unfolding parseMatchExpr_def by (intro ends calls_steady list_steady match_case_eats; simp)

lemma asm_steady: "steady_p k parseInlineAsmExpr"
  unfolding parseInlineAsmExpr_def asm_step_def by (intro ends; simp)

lemma template_eats: "eats (Suc k) T (parseTemplateLiteral g)"
  unfolding parseTemplateLiteral_def template_step_def by (intro ends calls_steady; simp)

lemma go_eats: "eats (Suc k) T (parseGoExpr g)"
  unfolding parseGoExpr_def by (intro ends calls_steady; simp)

lemma path_steady: "steady_p k (path_expr sc g str)"
  unfolding path_expr_def by (intro ends named_tails_steady)

lemma name_steady: "steady_p k (name_expr sc g str)"
  unfolding name_expr_def
  by (intro ends path_steady self_type_steady eats_leaf [OF struct_literal_eats])

lemma prefix_forms_eat:
  assumes "t \<noteq> T_eof"
  shows "eats (Suc k) (Some t) (number_expr f)" "eats (Suc k) (Some t) (identifier_expr sc g)"
    "eats (Suc k) (Some t) (prefix_operator g p h)" "eats (Suc k) (Some t) (paren_expr g)"
    "eats (Suc k) (Some t) (array_expr g)"
  unfolding number_expr_def identifier_expr_def prefix_operator_def paren_expr_def array_expr_def element_step_def
  using assms by (intro ends calls calls_steady name_steady asm_steady list_steady exprs; simp)+

lemma field_name_eats: "eats (Suc k) T field_name_token"
  unfolding field_name_token_def by (intro ends; auto)

lemma ternary_steady: "steady_p k (try_ternary g left)"
  unfolding try_ternary_def ternary_tail_def by (intro ends attempt_steady calls_steady)

lemma question_steady: "steady_p k (question_tail g left)"
  unfolding question_tail_def by (rule retry_steady, rule ternary_steady, intro ends)

lemma infix_tails_steady:
  "steady_p k (generic_or_binary g t bop left p)" "steady_p k (dot_expr g left)" "steady_p k (bang_call g left)"
  "steady_p k (call_tail g left)" "steady_p k (index_tail g left)"
  unfolding generic_or_binary_def dot_expr_def bang_call_def call_tail_def index_tail_def
  by (intro ends calls_steady named_tails_steady types_eat args_steady eats_leaf [OF field_name_eats])+

lemma infix_eats: "eats (Suc k) T (parseInfixExpr g left p)"
proof -
  have "eats (Suc k) (Some t) (bind_p p_advance (\<lambda>_.
       case binary_op_of t of
         Some bop \<Rightarrow> generic_or_binary g t bop left p
       | None \<Rightarrow>
           if t = T_punct P_dot then dot_expr g left
           else if t = T_punct P_bang then bang_call g left
           else if t = T_punct P_l_paren then call_tail g left
           else if t = T_punct P_l_bracket then index_tail g left
           else if t = T_keyword K_as then bind_p (g_type g) (\<lambda>cast_ty. ret_p (Cast_expr left cast_ty))
           else if t = T_punct P_question_mark then question_tail g left
           else fail_p UnexpectedInfixToken))" for t
  proof (cases "t = T_eof")
    case True
    then show ?thesis by (simp add: binary_op_of_def advance_fail)
  next
    case False
    then show ?thesis by (intro ends infix_tails_steady question_steady calls_steady)
  qed
  then show ?thesis unfolding parseInfixExpr_def by (rule peek_first)
qed

lemma chain_eats: "t \<noteq> T_eof \<Longrightarrow> eats (Suc k) (Some t) (optional_chain g left)"
  unfolding optional_chain_def
  by (intro ends eats_leaf [OF field_name_eats] list_steady exprs; simp)

lemma climb_rounds: "rounds k T (climb g p left)"
proof -
  have rest: "rounds k U (climb_rest g p left)" for U
    unfolding climb_rest_def
    by (intro ends calls_steady eats_any [OF infix_eats] eats_less [OF chain_eats]; simp)
  have "rounds k (Some t) (if t = T_punct P_question_mark \<and> p < 1
      then bind_p (p_look id) (\<lambda>saved. bind_p p_advance (\<lambda>_. bind_p (try_ternary g left) (\<lambda>tern.
        case tern of Some n \<Rightarrow> ret_p (Inl n)
        | None \<Rightarrow> bind_p (p_restore saved) (\<lambda>_. climb_rest g p left))))
      else climb_rest g p left)" for t
    by (intro split_intro retry_rounds ternary_steady rest) auto
  then show ?thesis unfolding climb_def by (rule peek_first)
qed

text \<open>A statement eats at the same weight.\<close>

lemma bound_steady: "steady_p k (bound_value g)" "steady_p k (optional_type g)"
  unfolding bound_value_def optional_type_def by (intro ends calls_steady)+

lemma let_forms_steady:
  "steady_p k (let_else g)" "steady_p k (let_tuple g)" "steady_p k (let_slice g)" "steady_p k (let_name g)"
  unfolding let_else_def let_tuple_def let_slice_def slice_step_def let_name_def
  by (intro ends calls_steady eats_leaf [OF patterns(3)] list_steady bound_steady; simp)+

lemma using_eats: "eats (Suc k) T parseUsingDecl"
  unfolding parseUsingDecl_def parseImportPathTokenSequence_def path_step_def
  by (intro ends; auto simp: is_import_path_token_def)

lemma simple_statements_eat:
  "eats (Suc k) T (parseLetStmt sc g)" "eats (Suc k) T (parseConstStmt g)" "eats (Suc k) T (parseVarStmt g)"
  "eats (Suc k) T (parseReturnStmt g)" "eats (Suc k) T parseBreakStmt" "eats (Suc k) T parseContinueStmt"
  "eats (Suc k) T parseReleaseStmt" "eats (Suc k) T (parseDeferStmt g)"
  unfolding parseLetStmt_def parseConstStmt_def parseVarStmt_def parseReturnStmt_def parseBreakStmt_def
    parseContinueStmt_def parseReleaseStmt_def parseDeferStmt_def call_operand_def
  by (intro ends calls_steady let_forms_steady bound_steady; simp)+

lemma select_arm_steady: "steady_p k (select_arm g)"
  unfolding select_arm_def select_binding_def by (intro ends calls_steady)

lemma block_statements_eat:
  "eats (Suc k) T (parseForStmt g)" "eats (Suc k) T (parseWhileStmt g)" "eats (Suc k) T (parseSelectStmt g)"
  unfolding parseForStmt_def parseWhileStmt_def parseSelectStmt_def select_step_def
  by (intro ends calls_steady eats_leaf [OF patterns(3)] select_arm_steady; simp)+

lemma assignment_steady: "steady_p k (assignment g e)" "steady_p k (compound_assignment g e h)"
  "steady_p k (expression_statement e)"
  unfolding assignment_def chain_step_def compound_assignment_def expression_statement_def
  by (intro ends calls calls_steady; simp)+

lemma expression_first_eats: "eats k T (expression_first g)"
  unfolding expression_first_def
  by (rule eats_bind_same, rule calls, (intro ends assignment_steady)[1])

lemma stmt_eats: "eats k T (parseStmt sc g)"
proof -
  note same = eats_any [OF using_eats le_SucI [OF le_refl]]
    simple_statements_eat [THEN eats_any, OF le_SucI [OF le_refl]]
    block_statements_eat [THEN eats_any, OF le_SucI [OF le_refl]]
  have arena: "eats k U (bind_p p_advance (\<lambda>_. bind_p (g_block g) (\<lambda>body. ret_p (Arena_stmt body))))" for U
    by (rule eats_bind_later) (intro ends, rule eats_bind_same, rule calls, intro ends)
  show ?thesis
    unfolding parseStmt_def
    by (intro split_intro peek_first look_first arena same expression_first_eats eats_bind_same calls ret_fail)
qed

end

locale grammar_contract = expr_contract +
  assumes stmts: "eats k None (g_stmt g)"
begin

lemma switch_case_eats: "eats k T (switch_case g)"
  unfolding switch_case_def
  by (rule eats_bind_same, rule calls, (intro ends calls_steady eats_steady [OF stmts])[1]; simp)

lemma switch_eats: "eats (Suc k) T (parseSwitchExpr g)"
  unfolding parseSwitchExpr_def by (intro ends calls_steady list_steady switch_case_eats; simp)

lemma block_eats: "eats (Suc k) T (parseBlock g)"
  unfolding parseBlock_def block_step_def by (intro ends eats_any [OF stmts]; simp)

lemma prefix_eats: "eats (Suc k) T (parsePrefixExpr sc g)"
  unfolding parsePrefixExpr_def
  by (intro ends prefix_forms_eat go_eats template_eats if_eats switch_eats match_eats closure_eats calls_steady; simp)

lemma expr_eats: "eats (Suc k) T (parseExpr sc g p)"
  unfolding parseExpr_def by (intro ends prefix_eats climb_rounds)

end

end
