(* ===== verification/Sla_Parse_Knot.thy ===== *)
theory Sla_Parse_Knot
  imports Sla_Parse_Ends
begin

text \<open>
  The parser without a bound on its recursion.  The contracts of \<open>Sla_Parse_Ends\<close> show by induction that a
  depth of twice the weight of the tokens plus two is enough; more depth does not change a result, so
  the parser with enough depth satisfies the recursive equations of the source.
\<close>

section \<open>Enough fuel\<close>

lemma contract_less:
  assumes "expr_contract g k" "j \<le> k" shows "expr_contract g j"
  by unfold_locales (rule eats_less [OF _ assms(2)], rule expr_contract.calls [OF assms(1)])+

lemma knot_contract:
  "expr_contract (grammar_at sc n) (Suc n div 2) \<and> eats (n div 2) None (stmt_at sc n)"
proof (induction n)
  case 0
  show ?case by (simp add: expr_contract_def eats_def moves_def)
next
  case (Suc n)
  then have e: "expr_contract (grammar_at sc n) (Suc n div 2)" and s: "eats (n div 2) None (stmt_at sc n)"
    by simp_all
  have g: "grammar_contract (grammar_at sc n) (n div 2)"
    using contract_less [OF e, of "n div 2"] s by (simp add: grammar_contract_def grammar_contract_axioms_def)
  note x = grammar_contract.axioms(1) [OF g]
  have half: "Suc (Suc n) div 2 = Suc (n div 2)" by simp
  have "expr_contract (grammar_at sc (Suc n)) (Suc (n div 2))"
    by unfold_locales (simp_all only: grammar_at_sel knot grammar_contract.expr_eats [OF g]
        expr_contract.if_eats [OF x] grammar_contract.block_eats [OF g] expr_contract.type_eats [OF x])
  moreover have "eats (Suc n div 2) None (stmt_at sc (Suc n))"
    by (simp only: knot expr_contract.stmt_eats [OF e])
  ultimately show ?case unfolding half by (rule conjI)
qed

interpretation knot_at: grammar_contract "grammar_at sc n" "n div 2" for sc n
proof (unfold_locales)
qed (use contract_less [OF conjunct1 [OF knot_contract], of "n div 2" n sc] conjunct2 [OF knot_contract]
  in \<open>simp_all add: expr_contract_def\<close>)

section \<open>More fuel\<close>

definition below :: "'a pm \<Rightarrow> 'a pm \<Rightarrow> bool" where
  "below m m' \<longleftrightarrow> (\<forall>st. m st = Out_of_fuel \<or> m st = m' st)"

lemma below_refl: "below m m"
  by (simp add: below_def)

lemma below_bind:
  assumes "below m m'" "\<And>x. below (f x) (f' x)" shows "below (bind_p m f) (bind_p m' f')"
  unfolding below_def
proof
  fix st
  show "bind_p m f st = Out_of_fuel \<or> bind_p m f st = bind_p m' f' st"
  proof (cases "m st = Out_of_fuel")
    case False
    with assms(1) have "m st = m' st" by (auto simp: below_def)
    then show ?thesis
      using assms(2) by (cases "m' st") (auto simp: bind_p_def below_def)
  qed (simp add: bind_p_def)
qed

lemma below_cases:
  "(b \<Longrightarrow> below m m') \<Longrightarrow> (\<not> b \<Longrightarrow> below n n') \<Longrightarrow> below (if b then m else n) (if b then m' else n')"
  "below a a' \<Longrightarrow> (\<And>y. below (f y) (f' y)) \<Longrightarrow>
    below (case x of None \<Rightarrow> a | Some y \<Rightarrow> f y) (case x of None \<Rightarrow> a' | Some y \<Rightarrow> f' y)"
  "(\<And>u v. below (h u v) (h' u v)) \<Longrightarrow> below (case p of (u, v) \<Rightarrow> h u v) (case p of (u, v) \<Rightarrow> h' u v)"
  by (auto split: option.splits prod.splits)

lemma below_attempt: "below m m' \<Longrightarrow> below (attempt m) (attempt m')"
proof -
  assume m: "below m m'"
  show ?thesis
    unfolding below_def
  proof
    fix st
    from m have "m st = Out_of_fuel \<or> m st = m' st" by (simp add: below_def)
    then show "attempt m st = Out_of_fuel \<or> attempt m st = attempt m' st" by (auto simp: attempt_def)
  qed
qed

lemma below_loop:
  assumes "\<And>s. below (body s) (body' s)" shows "below (loop_p n body s) (loop_p n body' s)"
proof (induction n arbitrary: s)
  case (Suc n)
  then show ?case
    by (auto intro!: below_bind assms below_refl split: sum.splits)
qed (simp add: below_refl)

lemma below_while:
  assumes "\<And>s. below (body s) (body' s)" shows "below (while_p body s) (while_p body' s)"
proof -
  have "below (loop_p n body s) (loop_p n body' s)" for n by (rule below_loop [OF assms])
  then show ?thesis unfolding below_def while_p_def by blast
qed

lemma below_lists:
  assumes "below item item'"
  shows "below (some_list item) (some_list item')" "below (comma_list c item) (comma_list c item')"
    "below (loose_list c item) (loose_list c item')"
  unfolding some_list_def some_step_def comma_list_def comma_step_def loose_list_def loose_step_def
  by (intro below_while below_bind below_cases below_refl assms)+

lemmas grammar_defs = generic_args_def named_type_def fn_param_step_def parseFunctionType_def array_type_def
  paren_type_def parseTypeAtom_def parseType_def paren_args_def named_field_def struct_field_step_def
  parseStructLiteral_def parseGenericStructLiteralTail_def parseEnumLiteralAfterName_def
  parseModuleCallAfterName_def parseAssociatedCallAfterName_def parseGenericCallTail_def
  parseGenericFunctionRefTail_def closure_param_def parseClosureLiteral_def let_chain_step_def
  parseIfLetChain_def parseIfExpr_def switch_case_def parseSwitchExpr_def match_case_def
  parseMatchExpr_def template_step_def parseTemplateLiteral_def parseGoExpr_def path_expr_def
  name_expr_def identifier_expr_def prefix_operator_def paren_expr_def element_step_def array_expr_def
  parsePrefixExpr_def ternary_tail_def try_ternary_def generic_or_binary_def dot_expr_def
  bang_call_def call_tail_def index_tail_def question_tail_def parseInfixExpr_def optional_chain_def
  climb_rest_def climb_def parseExpr_def bound_value_def optional_type_def let_else_def let_tuple_def
  let_slice_def let_name_def parseLetStmt_def parseConstStmt_def parseVarStmt_def parseReturnStmt_def
  call_operand_def parseDeferStmt_def parseForStmt_def parseWhileStmt_def select_arm_def
  select_step_def parseSelectStmt_def block_step_def parseBlock_def chain_step_def assignment_def
  compound_assignment_def expression_first_def parseStmt_def

lemmas below_rules = below_cases below_bind below_attempt below_while below_lists below_refl

definition grammar_below :: "grammar \<Rightarrow> grammar \<Rightarrow> bool" where
  "grammar_below g g' \<longleftrightarrow> (\<forall>p. below (g_expr g p) (g_expr g' p)) \<and> below (g_if g) (g_if g') \<and>
     below (g_block g) (g_block g') \<and> below (g_stmt g) (g_stmt g') \<and> below (g_type g) (g_type g')"

lemma grammar_belowD:
  assumes "grammar_below g g'"
  shows "below (g_expr g p) (g_expr g' p)" "below (g_if g) (g_if g')" "below (g_block g) (g_block g')"
    "below (g_stmt g) (g_stmt g')" "below (g_type g) (g_type g')"
  using assms by (simp_all add: grammar_below_def)

lemma methods_below:
  assumes "grammar_below g g'"
  shows "below (parseExpr sc g p) (parseExpr sc g' p)" "below (parseIfExpr g) (parseIfExpr g')"
    "below (parseBlock g) (parseBlock g')" "below (parseStmt sc g) (parseStmt sc g')"
    "below (parseType sc g) (parseType sc g')"
  unfolding grammar_defs by (intro below_cases below_lists below_attempt below_while grammar_belowD [OF assms] below_bind below_refl)+

lemma knot_below: "n \<le> m \<Longrightarrow> grammar_below (grammar_at sc n) (grammar_at sc m)"
proof (induction n arbitrary: m)
  case 0
  show ?case by (simp add: grammar_below_def below_def)
next
  case (Suc n)
  then obtain j where m: "m = Suc j" "n \<le> j" by (cases m) auto
  show ?case
    unfolding grammar_below_def grammar_at_sel m(1) knot
    using methods_below [OF Suc.IH [OF m(2)]] by blast
qed

lemma below_lands: "below m m' \<Longrightarrow> lands R w (m st) \<Longrightarrow> m' st = m st"
  unfolding below_def by (metis lands.simps(1))

section \<open>The parser without a bound\<close>

text \<open>The depth that is enough for the tokens that are left.\<close>

definition depth :: "pstate \<Rightarrow> nat" where
  "depth st = 2 * weight (toks st) + 2"

definition parser_of :: "scope \<Rightarrow> grammar" where
  "parser_of sc = \<lparr>g_expr = (\<lambda>p st. expr_at sc (depth st) p st), g_if = (\<lambda>st. if_at sc (depth st) st),
     g_block = (\<lambda>st. block_at sc (depth st) st), g_stmt = (\<lambda>st. stmt_at sc (depth st) st),
     g_type = (\<lambda>st. type_at sc (depth st) st)\<rparr>"

lemma knot_lands:
  assumes "depth st \<le> n"
  shows "lands (\<lambda>_. True) (weight (toks st)) (expr_at sc n p st)"
    "lands (\<lambda>_. True) (weight (toks st)) (if_at sc n st)"
    "lands (\<lambda>_. True) (weight (toks st)) (block_at sc n st)"
    "lands (\<lambda>_. True) (weight (toks st)) (stmt_at sc n st)"
    "lands (\<lambda>_. True) (weight (toks st)) (type_at sc n st)"
proof -
  have w: "weight (toks st) < n div 2" using assms by (simp add: depth_def)
  show "lands (\<lambda>_. True) (weight (toks st)) (expr_at sc n p st)"
    "lands (\<lambda>_. True) (weight (toks st)) (if_at sc n st)"
    "lands (\<lambda>_. True) (weight (toks st)) (block_at sc n st)"
    "lands (\<lambda>_. True) (weight (toks st)) (stmt_at sc n st)"
    "lands (\<lambda>_. True) (weight (toks st)) (type_at sc n st)"
    using movesD [OF knot_at.exprs [of n sc p, unfolded eats_def] w] movesD [OF knot_at.blocks [of n sc, unfolded eats_def] w]
      movesD [OF knot_at.stmts [of n sc, unfolded eats_def] w] movesD [OF knot_at.types [of n sc, unfolded eats_def] w]
      movesD [OF knot_at.ifs [of n sc, unfolded eats_def] w]
    by simp_all
qed

lemma depth_enough:
  assumes "depth st \<le> n"
  shows "expr_at sc n p st = g_expr (parser_of sc) p st" "if_at sc n st = g_if (parser_of sc) st"
    "block_at sc n st = g_block (parser_of sc) st" "stmt_at sc n st = g_stmt (parser_of sc) st"
    "type_at sc n st = g_type (parser_of sc) st"
proof -
  note below = grammar_belowD [OF knot_below [OF assms, of sc], unfolded grammar_at_sel]
  note lands = knot_lands [OF order.refl]
  show "expr_at sc n p st = g_expr (parser_of sc) p st" "if_at sc n st = g_if (parser_of sc) st"
    "block_at sc n st = g_block (parser_of sc) st" "stmt_at sc n st = g_stmt (parser_of sc) st"
    "type_at sc n st = g_type (parser_of sc) st"
    unfolding parser_of_def grammar.simps
    by (rule below_lands [OF below(1) lands(1)] below_lands [OF below(2) lands(2)]
        below_lands [OF below(3) lands(3)] below_lands [OF below(4) lands(4)] below_lands [OF below(5) lands(5)])+
qed

lemma below_limit:
  assumes "\<And>st. depth st \<le> n \<Longrightarrow> m n st = f st" "\<And>j. n \<le> j \<Longrightarrow> below (m n) (m j)"
    "\<And>j st. depth st \<le> j \<Longrightarrow> m j st = f st"
  shows "below (m n) f"
  unfolding below_def
proof
  fix st
  show "m n st = Out_of_fuel \<or> m n st = f st"
    using assms(2) [of "max n (depth st)"] assms(3) [of st "max n (depth st)"] by (auto simp: below_def)
qed

lemma knot_below_parser: "grammar_below (grammar_at sc n) (parser_of sc)"
  unfolding grammar_below_def grammar_at_sel
  by (intro conjI allI; rule below_limit [where n = n])
    (simp_all only: depth_enough grammar_belowD [OF knot_below, of _ _ sc, unfolded grammar_at_sel])

text \<open>C13: the parser of bodies returns.  The recursion depth of twice the weight of the tokens plus two is
  enough for \<open>parseExpr\<close>, \<open>parseBlock\<close>, \<open>parseStmt\<close> and \<open>parseType\<close>, on any tokens, in any scope and at
  any precedence, and no loop runs out of rounds: each method fails, or gives a node after consuming at
  least one token.\<close>

theorem parser_returns:
  "g_expr (parser_of sc) p st \<noteq> Out_of_fuel \<and> g_block (parser_of sc) st \<noteq> Out_of_fuel \<and>
   g_stmt (parser_of sc) st \<noteq> Out_of_fuel \<and> g_type (parser_of sc) st \<noteq> Out_of_fuel \<and>
   (case g_expr (parser_of sc) p st of Gives e st' \<Rightarrow> weight (toks st') < weight (toks st) | _ \<Rightarrow> True) \<and>
   (case g_block (parser_of sc) st of Gives b st' \<Rightarrow> weight (toks st') < weight (toks st) | _ \<Rightarrow> True) \<and>
   (case g_stmt (parser_of sc) st of Gives s st' \<Rightarrow> weight (toks st') < weight (toks st) | _ \<Rightarrow> True) \<and>
   (case g_type (parser_of sc) st of Gives t st' \<Rightarrow> weight (toks st') < weight (toks st) | _ \<Rightarrow> True)"
  using knot_lands(1) [OF order.refl, of st sc p] knot_lands(3-) [OF order.refl, of st sc]
  by (auto simp: parser_of_def split: outcome.splits)

lemma parser_rec:
  "g_expr (parser_of sc) p = parseExpr sc (parser_of sc) p \<and> g_if (parser_of sc) = parseIfExpr (parser_of sc) \<and>
   g_block (parser_of sc) = parseBlock (parser_of sc) \<and> g_stmt (parser_of sc) = parseStmt sc (parser_of sc) \<and>
   g_type (parser_of sc) = parseType sc (parser_of sc)"
proof -
  have "g_expr (parser_of sc) p st = parseExpr sc (parser_of sc) p st \<and>
      g_if (parser_of sc) st = parseIfExpr (parser_of sc) st \<and>
      g_block (parser_of sc) st = parseBlock (parser_of sc) st \<and>
      g_stmt (parser_of sc) st = parseStmt sc (parser_of sc) st \<and>
      g_type (parser_of sc) st = parseType sc (parser_of sc) st" for st
  proof -
    have le: "depth st \<le> Suc (depth st)" by simp
    note below = methods_below(1,4,5) [OF knot_below_parser [of sc "depth st"], where sc = sc, folded knot]
      methods_below(2,3) [OF knot_below_parser [of sc "depth st"], folded knot]
    note lands = knot_lands [OF le]
    show ?thesis
      by (simp only: depth_enough [OF le, symmetric] below_lands [OF below(1) lands(1)] below_lands [OF below(4) lands(2)]
          below_lands [OF below(5) lands(3)] below_lands [OF below(2) lands(4)] below_lands [OF below(3) lands(5)])
  qed
  then show ?thesis by (simp add: fun_eq_iff)
qed

text \<open>The parser satisfies the recursive equations of the source, without a bound on their depth:
  every method of the parser is the method of the source that calls the parser.\<close>

lemma parser_equations:
  "g_expr (parser_of sc) p = parseExpr sc (parser_of sc) p \<and> g_if (parser_of sc) = parseIfExpr (parser_of sc) \<and>
   g_block (parser_of sc) = parseBlock (parser_of sc) \<and> g_stmt (parser_of sc) = parseStmt sc (parser_of sc) \<and>
   g_type (parser_of sc) = parseType sc (parser_of sc)"
  by (rule parser_rec)

lemmas parser_methods = parser_rec [THEN conjunct1] parser_rec [THEN conjunct2, THEN conjunct1]
  parser_rec [THEN conjunct2, THEN conjunct2, THEN conjunct1]
  parser_rec [THEN conjunct2, THEN conjunct2, THEN conjunct2, THEN conjunct1]
  parser_rec [THEN conjunct2, THEN conjunct2, THEN conjunct2, THEN conjunct2]

text \<open>The contract of the callers holds for the parser at every weight.\<close>

lemma lands_moves:
  "(\<And>st. lands (\<lambda>_. True) (weight (toks st)) (m st)) \<Longrightarrow> eats k T m"
  by (simp add: eats_def moves_def)

interpretation parser: grammar_contract "parser_of sc" k for sc k
proof (unfold_locales)
qed (simp_all add: parser_of_def lands_moves knot_lands)

text \<open>A loop that eats in every round is the recursion of the source.\<close>

lemma loop_bound_irrelevant:
  assumes "\<And>s. rounds (Suc (weight (toks st))) None (body s)" "weight (toks st) < n" "weight (toks st) < m"
  shows "loop_p n body s st = loop_p m body s st"
  using assms
proof (induction n arbitrary: m s st)
  case (Suc n)
  then obtain j where m: "m = Suc j" by (cases m) auto
  from movesD [OF Suc.prems(1) [unfolded rounds_def], of st s]
  have b: "lands isl (weight (toks st)) (body s st)" by simp
  show ?case
  proof (cases "body s st")
    case (Gives r st')
    show ?thesis
    proof (cases r)
      case (Inl s')
      with b Gives have less: "weight (toks st') < weight (toks st)" by simp
      have "rounds (Suc (weight (toks st'))) None (body u)" for u
        using Suc.prems(1) [of u] less by (simp add: rounds_def moves_def)
      from Suc.IH [of st' j s', OF this] less Suc.prems(2,3) m
      have "loop_p n body s' st' = loop_p j body s' st'" by simp
      with Gives Inl m show ?thesis by (simp add: bind_p_def)
    qed (use Gives m in \<open>simp add: bind_p_def\<close>)
  qed (use m in \<open>simp_all add: bind_p_def\<close>)
qed simp

lemma while_unfold:
  assumes "\<And>k s. rounds k None (body s)"
  shows "while_p body s = bind_p (body s) (\<lambda>r. case r of Inl s' \<Rightarrow> while_p body s' | Inr x \<Rightarrow> ret_p x)"
proof
  fix st
  have b: "lands isl (weight (toks st)) (body s st)"
    using movesD [OF assms [of "Suc (weight (toks st))" s, unfolded rounds_def], of st] by simp
  show "while_p body s st =
      bind_p (body s) (\<lambda>r. case r of Inl s' \<Rightarrow> while_p body s' | Inr x \<Rightarrow> ret_p x) st"
  proof (cases "body s st")
    case (Gives r st')
    show ?thesis
    proof (cases r)
      case (Inl s')
      with b Gives have "weight (toks st') < weight (toks st)" by simp
      then have "loop_p (weight (toks st)) body s' st' = loop_p (Suc (weight (toks st'))) body s' st'"
        by (intro loop_bound_irrelevant assms) simp_all
      with Gives Inl show ?thesis by (simp add: while_p_def bind_p_def)
    qed (use Gives in \<open>simp add: while_p_def bind_p_def\<close>)
  qed (simp_all add: while_p_def bind_p_def)
qed

end
