(* ===== verification/Sla_Parse_Print.thy ===== *)
theory Sla_Parse_Print
  imports Sla_Parse_Knot Sla_Lexer_Run
begin

text \<open>
  Printing and parsing.  Types and expressions are printed as lexemes, expressions with parentheses only
  where the precedences ask for them; the parser reads the printed lexemes back.
\<close>

section \<open>Reading printed lists\<close>

definition tok_of :: "lexeme \<Rightarrow> ltoken" where
  "tok_of x = (lexeme_tag x, spell x)"

abbreviation toks_of :: "lexeme list \<Rightarrow> ltoken list" where
  "toks_of xs \<equiv> map tok_of xs"

lemma tok_of_simps [simp]:
  "tok_of (Lex_punct p) = (T_punct p, spell_punct p)" "tok_of (Lex_number w) = (T_int_literal, w)"
  "tok_of (Lex_word w) = (checkKeyword w, w)"
  by (simp_all add: tok_of_def)

lemma tok_of_sel [simp]: "fst (tok_of x) = lexeme_tag x" "snd (tok_of x) = spell x"
  by (simp_all add: tok_of_def)

lemma tag_at_simps [simp]:
  "tag_at 0 [] = T_eof" "tag_at 0 (t # ts) = fst t" "tag_at (Suc i) (t # ts) = tag_at i ts"
  "tag_at (Suc 0) (t # ts) = tag_at 0 ts" "tag_at i [] = T_eof"
  by (simp_all add: tag_at_def)

text \<open>Evaluation of the cursor.\<close>

lemmas run = bind_p_def ret_p_def fail_p_def p_peek_def p_lexeme_def p_advance_def p_match_def p_expect_def
  p_take_def p_look_def or_fail_def

abbreviation comma :: lexeme where "comma \<equiv> Lex_punct P_comma"

text \<open>Every item is followed by a comma.\<close>

definition each_comma :: "('a \<Rightarrow> lexeme list) \<Rightarrow> 'a list \<Rightarrow> lexeme list" where
  "each_comma sh xs = concat (map (\<lambda>x. sh x @ [comma]) xs)"

text \<open>A comma between the items.\<close>

fun between_comma :: "('a \<Rightarrow> lexeme list) \<Rightarrow> 'a list \<Rightarrow> lexeme list" where
  "between_comma sh [] = []"
| "between_comma sh [x] = sh x"
| "between_comma sh (x # xs) = sh x @ comma # between_comma sh xs"

text \<open>\<open>item\<close> reads the printed \<open>x\<close> in front of a token that may follow it.\<close>

definition reads :: "'b pm \<Rightarrow> lexeme list \<Rightarrow> 'b \<Rightarrow> (tag \<Rightarrow> bool) \<Rightarrow> bool" where
  "reads item xs v may_follow \<longleftrightarrow>
     (\<forall>st rest. may_follow (tag_at 0 rest) \<longrightarrow>
        item (st\<lparr>toks := toks_of xs @ rest\<rparr>) = Gives v (st\<lparr>toks := rest\<rparr>))"

lemma readsD:
  "reads item xs v F \<Longrightarrow> F (tag_at 0 rest) \<Longrightarrow> item (st\<lparr>toks := toks_of xs @ rest\<rparr>) = Gives v (st\<lparr>toks := rest\<rparr>)"
  by (simp add: reads_def)

lemma while_next:
  assumes "\<And>k s. rounds k None (body s)" "body s st = Gives (Inl s') st'"
  shows "while_p body s st = while_p body s' st'"
  by (subst while_unfold [OF assms(1)]) (simp add: bind_p_def assms(2))

lemma while_done:
  assumes "\<And>k s. rounds k None (body s)" "body s st = Gives (Inr x) st'"
  shows "while_p body s st = Gives x st'"
  by (subst while_unfold [OF assms(1)]) (simp add: bind_p_def assms(2) ret_p_def)

lemma comma_list_reads:
  assumes "\<And>k. eats k None item"
    and "\<forall>x \<in> set xs. reads item (sh x) (val x) F"
    and "\<forall>x \<in> set xs. \<exists>y ys. sh x = y # ys \<and> lexeme_tag y \<noteq> close \<and> lexeme_tag y \<noteq> T_eof"
    and "F (T_punct P_comma)" "tag_at 0 rest = close"
  shows "comma_list close item (st\<lparr>toks := toks_of (each_comma sh xs) @ rest\<rparr>) =
    Gives (map val xs) (st\<lparr>toks := rest\<rparr>)"
proof -
  have items: "eats k T item" for k T by (rule eats_any [OF assms(1) order.refl])
  have steps: "rounds k None (comma_step close item s)" for k s
    unfolding comma_step_def by (intro ends items)
  have "while_p (comma_step close item) acc (st\<lparr>toks := toks_of (each_comma sh xs) @ rest\<rparr>) =
      Gives (acc @ map val xs) (st\<lparr>toks := rest\<rparr>)" for acc
    using assms(2,3)
  proof (induction xs arbitrary: acc)
    case Nil
    show ?case by (rule while_done [OF steps]) (simp add: comma_step_def run each_comma_def assms(5))
  next
    case (Cons x xs)
    from Cons.prems(2) obtain y ys where y: "sh x = y # ys" "lexeme_tag y \<noteq> close" "lexeme_tag y \<noteq> T_eof" by auto
    let ?rest = "tok_of comma # toks_of (each_comma sh xs) @ rest"
    have "reads item (sh x) (val x) F" using Cons.prems(1) by simp
    then have item: "item (st\<lparr>toks := toks_of (sh x) @ ?rest\<rparr>) = Gives (val x) (st\<lparr>toks := ?rest\<rparr>)"
      by (rule readsD) (use assms(4) in simp)
    have "while_p (comma_step close item) acc (st\<lparr>toks := toks_of (each_comma sh (x # xs)) @ rest\<rparr>) =
        while_p (comma_step close item) (acc @ [val x]) (st\<lparr>toks := toks_of (each_comma sh xs) @ rest\<rparr>)"
      by (rule while_next [OF steps]) (use item y in \<open>simp add: comma_step_def run each_comma_def tok_of_def\<close>)
    with Cons show ?case by simp
  qed
  from this [of "[]"] show ?thesis by (simp add: comma_list_def)
qed

lemma some_list_reads:
  assumes "\<And>k. eats k None item"
    and "\<forall>x \<in> set xs. reads item (sh x) (val x) F" "xs \<noteq> []"
    and "F (T_punct P_comma)" "F (tag_at 0 rest)" "tag_at 0 rest \<noteq> T_punct P_comma"
  shows "some_list item (st\<lparr>toks := toks_of (between_comma sh xs) @ rest\<rparr>) =
    Gives (map val xs) (st\<lparr>toks := rest\<rparr>)"
proof -
  have items: "eats k T item" for k T by (rule eats_any [OF assms(1) order.refl])
  have steps: "rounds k None (some_step item s)" for k s
    unfolding some_step_def by (intro ends items)
  have "while_p (some_step item) acc (st\<lparr>toks := toks_of (between_comma sh xs) @ rest\<rparr>) =
      Gives (acc @ map val xs) (st\<lparr>toks := rest\<rparr>)" for acc
    using assms(2,3)
  proof (induction xs arbitrary: acc)
    case (Cons x xs)
    have x: "reads item (sh x) (val x) F" using Cons.prems(1) by simp
    show ?case
    proof (cases xs)
      case Nil
      from readsD [OF x assms(5)] assms(6) Nil show ?thesis
        by (intro while_done [OF steps]) (simp add: some_step_def run)
    next
      case (Cons y ys)
      let ?rest = "tok_of comma # toks_of (between_comma sh xs) @ rest"
      from x have "item (st\<lparr>toks := toks_of (sh x) @ ?rest\<rparr>) = Gives (val x) (st\<lparr>toks := ?rest\<rparr>)"
        by (rule readsD) (use assms(4) in simp)
      then have "while_p (some_step item) acc (st\<lparr>toks := toks_of (between_comma sh (x # xs)) @ rest\<rparr>) =
          while_p (some_step item) (acc @ [val x]) (st\<lparr>toks := toks_of (between_comma sh xs) @ rest\<rparr>)"
        by (intro while_next [OF steps]) (simp add: some_step_def run Cons)
      with Cons.IH [of "acc @ [val x]"] Cons.prems Cons show ?thesis by simp
    qed
  qed simp
  from this [of "[]"] show ?thesis by (simp add: some_list_def)
qed

text \<open>The same list with the comma left out behind the last item.\<close>

lemma comma_list_between:
  assumes "\<And>k. eats k None item"
    and "\<forall>x \<in> set xs. reads item (sh x) (val x) F"
    and "\<forall>x \<in> set xs. \<exists>y ys. sh x = y # ys \<and> lexeme_tag y \<noteq> close \<and> lexeme_tag y \<noteq> T_eof"
    and "F (T_punct P_comma)" "F close" "close \<noteq> T_punct P_comma" "tag_at 0 rest = close"
  shows "comma_list close item (st\<lparr>toks := toks_of (between_comma sh xs) @ rest\<rparr>) =
    Gives (map val xs) (st\<lparr>toks := rest\<rparr>)"
proof -
  have items: "eats k T item" for k T by (rule eats_any [OF assms(1) order.refl])
  have steps: "rounds k None (comma_step close item s)" for k s
    unfolding comma_step_def by (intro ends items)
  have "while_p (comma_step close item) acc (st\<lparr>toks := toks_of (between_comma sh xs) @ rest\<rparr>) =
      Gives (acc @ map val xs) (st\<lparr>toks := rest\<rparr>)" for acc
    using assms(2,3)
  proof (induction xs arbitrary: acc)
    case Nil
    show ?case by (rule while_done [OF steps]) (simp add: comma_step_def run assms(7))
  next
    case (Cons x xs)
    from Cons.prems(2) obtain y ys where y: "sh x = y # ys" "lexeme_tag y \<noteq> close" "lexeme_tag y \<noteq> T_eof" by auto
    have x: "reads item (sh x) (val x) F" using Cons.prems(1) by simp
    show ?case
    proof (cases xs)
      case Nil
      have "item (st\<lparr>toks := toks_of (sh x) @ rest\<rparr>) = Gives (val x) (st\<lparr>toks := rest\<rparr>)"
        by (rule readsD [OF x]) (simp add: assms(5,7))
      with Nil y assms(6,7) show ?thesis
        by (intro while_done [OF steps]) (simp add: comma_step_def run)
    next
      case (Cons z zs)
      let ?rest = "tok_of comma # toks_of (between_comma sh xs) @ rest"
      from x have "item (st\<lparr>toks := toks_of (sh x) @ ?rest\<rparr>) = Gives (val x) (st\<lparr>toks := ?rest\<rparr>)"
        by (rule readsD) (use assms(4) in simp)
      then have "while_p (comma_step close item) acc (st\<lparr>toks := toks_of (between_comma sh (x # xs)) @ rest\<rparr>) =
          while_p (comma_step close item) (acc @ [val x]) (st\<lparr>toks := toks_of (between_comma sh xs) @ rest\<rparr>)"
        by (intro while_next [OF steps]) (use y in \<open>simp add: comma_step_def run Cons tok_of_def\<close>)
      with Cons.IH [of "acc @ [val x]"] Cons.prems Cons show ?thesis by simp
    qed
  qed
  from this [of "[]"] show ?thesis by (simp add: comma_list_def)
qed

lemma each_comma_Cons: "each_comma sh (x # xs) = sh x @ comma # each_comma sh xs"
  by (simp add: each_comma_def)

lemma each_comma_map: "each_comma id (map f xs) = each_comma f xs"
  by (simp add: each_comma_def o_def)

lemma between_comma_map: "between_comma id (map f xs) = between_comma f xs"
  by (induction f xs rule: between_comma.induct) simp_all

section \<open>Types\<close>

fun primitive_spelling :: "primitive \<Rightarrow> string" where
  "primitive_spelling P_i8 = ''i8''" | "primitive_spelling P_i16 = ''i16''" | "primitive_spelling P_i32 = ''i32''"
| "primitive_spelling P_i64 = ''i64''" | "primitive_spelling P_isize = ''isize''" | "primitive_spelling P_u8 = ''u8''"
| "primitive_spelling P_u16 = ''u16''" | "primitive_spelling P_u32 = ''u32''" | "primitive_spelling P_u64 = ''u64''"
| "primitive_spelling P_usize = ''usize''" | "primitive_spelling P_f32 = ''f32''" | "primitive_spelling P_f64 = ''f64''"
| "primitive_spelling P_boolean = ''bool''" | "primitive_spelling P_raw_ptr = ''ptr''"
| "primitive_spelling P_void_type = ''void''" | "primitive_spelling P_va_list = ''VaList''"
| "primitive_spelling P_integer = []" | "primitive_spelling P_float = []"

abbreviation lex_p :: "punctuator \<Rightarrow> lexeme" where "lex_p \<equiv> Lex_punct"

primrec show_ty :: "ty \<Rightarrow> lexeme list" where
  "show_ty Ty_infer = []"
| "show_ty (Ty_primitive p) = [Lex_word (primitive_spelling p)]"
| "show_ty (Ty_pointer t) = lex_p P_asterisk # show_ty t"
| "show_ty (Ty_borrow t) = lex_p P_ampersand # show_ty t"
| "show_ty (Ty_array t n) =
     lex_p P_l_bracket # show_ty t @ [lex_p P_semicolon, Lex_number (dec_nat n), lex_p P_r_bracket]"
| "show_ty (Ty_tuple ts) = lex_p P_l_paren # each_comma id (map show_ty ts) @ [lex_p P_r_paren]"
| "show_ty (Ty_future t) = Lex_word ''future'' # lex_p P_less_than # show_ty t @ [lex_p P_greater_than]"
| "show_ty (Ty_closure ps r) = []"
| "show_ty (Ty_fn_ptr abi ps r variadic) =
     Lex_word ''fn'' # lex_p P_l_paren # each_comma id (map show_ty ps) @
       (if variadic then [lex_p P_range, lex_p P_dot] else []) @ lex_p P_r_paren # lex_p P_arrow # show_ty r"
| "show_ty (Ty_user_defined n gs) = Lex_word n #
     (if gs = [] then [] else lex_p P_less_than # between_comma id (map show_ty gs) @ [lex_p P_greater_than])"

text \<open>The types that have a spelling of their own.\<close>

definition type_name :: "string \<Rightarrow> bool" where
  "type_name n \<longleftrightarrow> lexeme_ok (Lex_word n) \<and> checkKeyword n = T_identifier \<and>
     n \<notin> {''Self'', ''future''} \<and> map_of primitive_names n = None"

primrec ty_ok :: "ty \<Rightarrow> bool" where
  "ty_ok Ty_infer = False"
| "ty_ok (Ty_primitive p) \<longleftrightarrow> p \<noteq> P_integer \<and> p \<noteq> P_float"
| "ty_ok (Ty_pointer t) = ty_ok t"
| "ty_ok (Ty_borrow t) = ty_ok t"
| "ty_ok (Ty_array t n) \<longleftrightarrow> ty_ok t \<and> n < 2 ^ 64"
| "ty_ok (Ty_tuple ts) \<longleftrightarrow> ts \<noteq> [] \<and> list_all id (map ty_ok ts)"
| "ty_ok (Ty_future t) = ty_ok t"
| "ty_ok (Ty_closure ps r) = False"
| "ty_ok (Ty_fn_ptr abi ps r variadic) \<longleftrightarrow>
     abi = None \<and> list_all id (map ty_ok ps) \<and> ty_ok r \<and> (variadic \<longrightarrow> ps \<noteq> [])"
| "ty_ok (Ty_user_defined n gs) \<longleftrightarrow> type_name n \<and> list_all id (map ty_ok gs)"

definition after_type :: "tag \<Rightarrow> bool" where
  "after_type t \<longleftrightarrow> t \<noteq> T_punct P_bang \<and> t \<noteq> T_punct P_less_than"

lemma after_type_simps [simp]: "after_type (T_punct p) \<longleftrightarrow> p \<noteq> P_bang \<and> p \<noteq> P_less_than" "after_type T_eof"
  by (auto simp: after_type_def)

lemma primitive_spelling:
  assumes "p \<noteq> P_integer" "p \<noteq> P_float"
  shows "map_of primitive_names (primitive_spelling p) = Some p" "primitive_spelling p \<noteq> ''Self''"
    "checkKeyword (primitive_spelling p) = T_identifier"
  using assms by (cases p; simp add: primitive_names_def checkKeyword_def keyword_table_def)+

lemma show_ty_start:
  "ty_ok t \<Longrightarrow> \<exists>y ys. show_ty t = y # ys \<and> lexeme_tag y \<noteq> T_eof \<and>
    lexeme_tag y \<notin> T_punct ` {P_r_paren, P_range, P_r_bracket, P_r_brace}"
  by (cases t) (auto simp: primitive_spelling type_name_def checkKeyword_def keyword_table_def)

text \<open>Decimal numbers.\<close>

lemma digits_parse: "list_all is_digit s \<Longrightarrow> parse_digits 10 acc s = digits_val acc s"
proof (induction s arbitrary: acc)
  case (Cons c cs)
  then have c: "48 \<le> byte_val c" "byte_val c \<le> 57" by (simp_all add: is_digit_def)
  then have "byte_val c - 48 < 10" by simp
  with Cons show ?case by (simp add: digit_value_def mult.commute)
qed simp

lemma dec_nat_all_digits: "list_all is_digit (dec_nat n)"
  using dec_nat_digits by (simp add: list_all_iff)

lemma strip_digits: "list_all is_digit s \<Longrightarrow> stripNumericSeparators s = s"
  by (induction s) (auto simp: stripNumericSeparators_def is_digit_def)

lemma parse_dec: "n < b \<Longrightarrow> parse_uint b 10 (dec_nat n) = Some n"
  by (simp add: parse_uint_def digits_parse dec_nat_all_digits digits_val_dec_nat)

lemma strip_dec: "stripNumericSeparators (dec_nat n) = dec_nat n"
  by (rule strip_digits [OF dec_nat_all_digits])

section \<open>Types are read back\<close>

lemma type_of_atom:
  assumes "reads (parseTypeAtom sc (parser_of sc)) xs t after_type"
  shows "reads (g_type (parser_of sc)) xs t after_type"
  unfolding parser_methods(5) parseType_def
  using assms by (simp add: reads_def run after_type_def)

lemma types_list:
  assumes "\<And>t. t \<in> set ts \<Longrightarrow> ty_ok t \<Longrightarrow> reads (g_type (parser_of sc)) (show_ty t) t after_type" "\<forall>t \<in> set ts. ty_ok t"
  shows "tag_at 0 rest = T_punct P_r_paren \<Longrightarrow>
      comma_list (T_punct P_r_paren) (g_type (parser_of sc)) (st\<lparr>toks := toks_of (each_comma show_ty ts) @ rest\<rparr>) =
        Gives ts (st\<lparr>toks := rest\<rparr>)"
    "ts \<noteq> [] \<Longrightarrow> tag_at 0 rest = T_punct P_greater_than \<Longrightarrow>
      some_list (g_type (parser_of sc)) (st\<lparr>toks := toks_of (between_comma show_ty ts) @ rest\<rparr>) =
        Gives ts (st\<lparr>toks := rest\<rparr>)"
proof -
  have r: "\<forall>t \<in> set ts. reads (g_type (parser_of sc)) (show_ty t) (id t) after_type"
    using assms by simp
  have s: "\<forall>t \<in> set ts. \<exists>y ys. show_ty t = y # ys \<and> lexeme_tag y \<noteq> T_punct P_r_paren \<and> lexeme_tag y \<noteq> T_eof"
    using show_ty_start assms(2) by fastforce
  show "tag_at 0 rest = T_punct P_r_paren \<Longrightarrow>
      comma_list (T_punct P_r_paren) (g_type (parser_of sc)) (st\<lparr>toks := toks_of (each_comma show_ty ts) @ rest\<rparr>) =
        Gives ts (st\<lparr>toks := rest\<rparr>)"
    using comma_list_reads [OF parser.types r s] by simp
  show "ts \<noteq> [] \<Longrightarrow> tag_at 0 rest = T_punct P_greater_than \<Longrightarrow>
      some_list (g_type (parser_of sc)) (st\<lparr>toks := toks_of (between_comma show_ty ts) @ rest\<rparr>) =
        Gives ts (st\<lparr>toks := rest\<rparr>)"
    using some_list_reads [OF parser.types r] by simp
qed

lemma generic_args_reads:
  assumes "\<And>t. t \<in> set ts \<Longrightarrow> ty_ok t \<Longrightarrow> reads (g_type (parser_of sc)) (show_ty t) t after_type"
    "\<forall>t \<in> set ts. ty_ok t" "ts \<noteq> []"
  shows "generic_args (parser_of sc)
      (st\<lparr>toks := toks_of (between_comma show_ty ts) @ (T_punct P_greater_than, s) # rest\<rparr>) =
    Gives ts (st\<lparr>toks := rest\<rparr>)"
proof -
  have "some_list (g_type (parser_of sc))
      (st\<lparr>toks := toks_of (between_comma show_ty ts) @ (T_punct P_greater_than, s) # rest\<rparr>) =
    Gives ts (st\<lparr>toks := (T_punct P_greater_than, s) # rest\<rparr>)"
    by (rule types_list(2) [OF assms(1,2)]) (use assms(3) in simp_all)
  then show ?thesis by (simp add: generic_args_def run expectGenericClose_def)
qed

text \<open>The parameters of a function type, with \<open>...\<close> behind them when the function is variadic.\<close>

lemma fn_params_read:
  assumes "\<And>t. t \<in> set ts \<Longrightarrow> ty_ok t \<Longrightarrow> reads (g_type (parser_of sc)) (show_ty t) t after_type"
    "\<forall>t \<in> set ts. ty_ok t" "variadic \<longrightarrow> acc @ ts \<noteq> []"
  shows "while_p (fn_param_step (parser_of sc) None) acc
      (st\<lparr>toks := toks_of (each_comma show_ty ts @ (if variadic then [lex_p P_range, lex_p P_dot] else [])) @
        (T_punct P_r_paren, s) # rest\<rparr>) =
    Gives (acc @ ts, variadic) (st\<lparr>toks := (T_punct P_r_paren, s) # rest\<rparr>)"
  using assms
proof (induction ts arbitrary: acc)
  case Nil
  have steps: "rounds k None (fn_param_step (parser_of sc) None a)" for k a
    unfolding fn_param_step_def by (intro ends parser.calls) simp_all
  show ?case
    by (rule while_done [OF steps]) (use Nil in \<open>auto simp: fn_param_step_def run each_comma_def isCAbiName_def\<close>)
next
  case (Cons t ts)
  have steps: "rounds k None (fn_param_step (parser_of sc) None a)" for k a
    unfolding fn_param_step_def by (intro ends parser.calls) simp_all
  let ?tail = "toks_of (each_comma show_ty ts @ (if variadic then [lex_p P_range, lex_p P_dot] else [])) @
    (T_punct P_r_paren, s) # rest"
  from Cons.prems(2) have ok: "ty_ok t" "\<forall>t \<in> set ts. ty_ok t" by simp_all
  from show_ty_start [OF ok(1)] obtain y ys where y: "show_ty t = y # ys" "lexeme_tag y \<noteq> T_eof"
      "lexeme_tag y \<noteq> T_punct P_r_paren" "lexeme_tag y \<noteq> T_punct P_range" by auto
  have "reads (g_type (parser_of sc)) (show_ty t) t after_type"
    using Cons.prems(1) [of t] ok(1) by simp
  then have "g_type (parser_of sc) (st\<lparr>toks := toks_of (show_ty t) @ tok_of comma # ?tail\<rparr>) =
      Gives t (st\<lparr>toks := tok_of comma # ?tail\<rparr>)"
    by (rule readsD) simp
  then have step: "fn_param_step (parser_of sc) None acc
      (st\<lparr>toks := toks_of (each_comma show_ty (t # ts) @ (if variadic then [lex_p P_range, lex_p P_dot] else [])) @
        (T_punct P_r_paren, s) # rest\<rparr>) = Gives (Inl (acc @ [t])) (st\<lparr>toks := ?tail\<rparr>)"
    using y by (simp add: fn_param_step_def run each_comma_def)
  have "while_p (fn_param_step (parser_of sc) None) (acc @ [t]) (st\<lparr>toks := ?tail\<rparr>) =
      Gives ((acc @ [t]) @ ts, variadic) (st\<lparr>toks := (T_punct P_r_paren, s) # rest\<rparr>)"
    by (rule Cons.IH) (use Cons.prems(1) ok in simp_all)
  with while_next [of "fn_param_step (parser_of sc) None", OF steps step] show ?case by simp
qed

lemma type_reads: "ty_ok t \<Longrightarrow> reads (g_type (parser_of sc)) (show_ty t) t after_type"
proof (induction t)
  case (Ty_primitive p)
  show ?case
    by (rule type_of_atom)
      (use Ty_primitive in \<open>simp add: reads_def parseTypeAtom_def run primitive_spelling named_type_def\<close>)
next
  case (Ty_pointer t)
  then show ?case
    by (intro type_of_atom) (simp add: reads_def parseTypeAtom_def run)
next
  case (Ty_borrow t)
  then show ?case
    by (intro type_of_atom) (simp add: reads_def parseTypeAtom_def run)
next
  case (Ty_array t n)
  then show ?case
    by (intro type_of_atom) (simp add: reads_def parseTypeAtom_def array_type_def run strip_dec parse_dec)
next
  case (Ty_future t)
  have f: "checkKeyword ''future'' = T_identifier" "map_of primitive_names ''future'' = None"
    by (simp_all add: checkKeyword_def keyword_table_def primitive_names_def)
  have "generic_args (parser_of sc) (st\<lparr>toks := toks_of (show_ty t) @ (T_punct P_greater_than, s) # rest\<rparr>) =
      Gives [t] (st\<lparr>toks := rest\<rparr>)" for st s rest
    using generic_args_reads [where ts = "[t]" and sc = sc] Ty_future by simp
  then show ?case
    by (intro type_of_atom) (simp add: reads_def parseTypeAtom_def run named_type_def f)
next
  case (Ty_user_defined n gs)
  have n: "checkKeyword n = T_identifier" "n \<noteq> ''Self''" "n \<noteq> ''future''" "map_of primitive_names n = None"
    and gs: "\<forall>t \<in> set gs. ty_ok t"
    using Ty_user_defined.prems by (simp_all add: type_name_def list_all_iff)
  have args: "gs \<noteq> [] \<Longrightarrow>
      generic_args (parser_of sc) (st\<lparr>toks := toks_of (between_comma show_ty gs) @ (T_punct P_greater_than, s) # rest\<rparr>) =
      Gives gs (st\<lparr>toks := rest\<rparr>)" for st s rest
    by (rule generic_args_reads [OF Ty_user_defined.IH gs]) simp_all
  show ?case
    by (intro type_of_atom)
      (use args in \<open>simp add: reads_def parseTypeAtom_def run named_type_def n between_comma_map after_type_def\<close>)
next
  case (Ty_tuple ts)
  then obtain u us where ts: "ts = u # us" by (cases ts) auto
  from Ty_tuple.prems have ok: "ty_ok u" "\<forall>t \<in> set us. ty_ok t" by (simp_all add: ts list_all_iff)
  have first: "g_type (parser_of sc) (st\<lparr>toks := toks_of (show_ty u) @ tok_of comma # rest\<rparr>) =
      Gives u (st\<lparr>toks := tok_of comma # rest\<rparr>)" for st rest
    by (rule readsD [where F = after_type]) (use Ty_tuple.IH [of u] ok ts in simp_all)
  have others: "comma_list (T_punct P_r_paren) (g_type (parser_of sc))
      (st\<lparr>toks := toks_of (each_comma show_ty us) @ (T_punct P_r_paren, s) # rest\<rparr>) =
      Gives us (st\<lparr>toks := (T_punct P_r_paren, s) # rest\<rparr>)" for st s rest
    by (rule types_list(1) [OF _ ok(2)]) (use Ty_tuple.IH ts in simp_all)
  show ?case
    by (intro type_of_atom)
      (use first others in \<open>simp add: reads_def parseTypeAtom_def paren_type_def run each_comma_map ts each_comma_Cons\<close>)
next
  case (Ty_fn_ptr abi ps r variadic)
  have ok: "abi = None" "\<forall>t \<in> set ps. ty_ok t" "ty_ok r" "variadic \<longrightarrow> ps \<noteq> []"
    using Ty_fn_ptr.prems by (simp_all add: list_all_iff)
  have params: "while_p (fn_param_step (parser_of sc) None) []
      (st\<lparr>toks := toks_of (each_comma show_ty ps @ (if variadic then [lex_p P_range, lex_p P_dot] else [])) @
        (T_punct P_r_paren, s) # rest\<rparr>) =
    Gives (ps, variadic) (st\<lparr>toks := (T_punct P_r_paren, s) # rest\<rparr>)" for st s rest
    using fn_params_read [OF Ty_fn_ptr.IH(1) ok(2), of variadic "[]"] ok(4) by simp
  have fn: "checkKeyword ''fn'' = T_keyword K_fn" by (simp add: checkKeyword_def keyword_table_def)
  from Ty_fn_ptr.IH(2) ok(3) have ret: "after_type (tag_at 0 rest) \<Longrightarrow>
      g_type (parser_of sc) (st\<lparr>toks := toks_of (show_ty r) @ rest\<rparr>) = Gives r (st\<lparr>toks := rest\<rparr>)" for st rest
    by (simp add: reads_def)
  note params' = params [where s = "'')''"]
  show ?case
    by (intro type_of_atom, cases variadic)
      (use params' in \<open>simp_all add: reads_def parseTypeAtom_def parseFunctionType_def run fn ret ok(1) each_comma_map\<close>)
qed (simp_all)

end
