(* ===== verification/Sla_Parse_Surface.thy ===== *)
theory Sla_Parse_Surface
  imports Sla_Parse_Print
begin

text \<open>
  Expressions as the user writes them, with parentheses only where the precedences ask for them, and the
  syntax tree the parser makes of each.  The parser reads the printed expression back.
\<close>

section \<open>Surface expressions\<close>

datatype prefix_form = F_borrow | F_move | F_deref | F_await | F_neg | F_not

datatype surface =
  S_name string
| S_bool bool
| S_int nat
| S_binary binary_op surface surface
| S_or_else surface surface
| S_prefix prefix_form surface
| S_call string "surface list"
| S_method surface string "surface list"
| S_field surface string
| S_index surface surface
| S_slice surface surface surface
| S_cast surface ty
| S_unwrap surface
| S_try surface
| S_ternary surface surface surface
| S_tuple surface "surface list"
| S_array surface "surface list"

fun prefix_node :: "prefix_form \<Rightarrow> node \<Rightarrow> node" where
  "prefix_node F_borrow e = Borrow_expr e"
| "prefix_node F_move e = Move_expr e"
| "prefix_node F_deref e = Deref_expr e"
| "prefix_node F_await e = Await_expr e"
| "prefix_node F_neg e = Binary_expr Bop_sub (Literal (Int_val 0)) e"
| "prefix_node F_not e = Binary_expr Bop_eq e (Literal (Bool_val False))"

text \<open>The tree of an expression; the sugar of the language is gone from it.\<close>

fun node_of :: "surface \<Rightarrow> node" where
  "node_of (S_name n) = Identifier n"
| "node_of (S_bool b) = Literal (Bool_val b)"
| "node_of (S_int n) = Literal (Int_val (int n))"
| "node_of (S_binary bop l r) = Binary_expr bop (node_of l) (node_of r)"
| "node_of (S_or_else l r) = plain_call ''unwrap_or'' [node_of l, node_of r]"
| "node_of (S_prefix f e) = prefix_node f (node_of e)"
| "node_of (S_call f es) = plain_call f (map node_of es)"
| "node_of (S_method e f es) = plain_call f (node_of e # map node_of es)"
| "node_of (S_field e f) = Field_expr (node_of e) f"
| "node_of (S_index e i) = Index_expr (node_of e) (node_of i)"
| "node_of (S_slice e i j) = Slice_expr (node_of e) (node_of i) (node_of j)"
| "node_of (S_cast e t) = Cast_expr (node_of e) t"
| "node_of (S_unwrap e) = plain_call ''unwrap'' [node_of e]"
| "node_of (S_try e) = Try_expr (node_of e)"
| "node_of (S_ternary c a b) =
     If_expr (node_of c) None [Expr_stmt (node_of a)] (Some [Expr_stmt (node_of b)])"
| "node_of (S_tuple e es) = Tuple_literal (node_of e # map node_of es)"
| "node_of (S_array e es) = Array_literal (node_of e # map node_of es)"

fun op_punct :: "binary_op \<Rightarrow> punctuator" where
  "op_punct Bop_add = P_plus" | "op_punct Bop_sub = P_minus" | "op_punct Bop_mul = P_asterisk"
| "op_punct Bop_div = P_slash" | "op_punct Bop_mod = P_percent" | "op_punct Bop_eq = P_equal_equal"
| "op_punct Bop_ne = P_bang_equal" | "op_punct Bop_spaceship = P_spaceship"
| "op_punct Bop_lt = P_less_than" | "op_punct Bop_le = P_less_equal"
| "op_punct Bop_gt = P_greater_than" | "op_punct Bop_ge = P_greater_equal"
| "op_punct Bop_logical_and = P_amp_amp" | "op_punct Bop_logical_or = P_pipe_pipe"
| "op_punct Bop_bit_and = P_ampersand" | "op_punct Bop_bit_or = P_pipe" | "op_punct Bop_bit_xor = P_caret"
| "op_punct Bop_shl = P_less_less" | "op_punct Bop_shr = P_greater_greater"

fun op_level :: "binary_op \<Rightarrow> nat" where
  "op_level Bop_logical_or = 1" | "op_level Bop_bit_or = 1"
| "op_level Bop_logical_and = 2" | "op_level Bop_bit_xor = 2"
| "op_level Bop_bit_and = 3"
| "op_level Bop_eq = 4" | "op_level Bop_ne = 4" | "op_level Bop_spaceship = 4"
| "op_level Bop_lt = 5" | "op_level Bop_le = 5" | "op_level Bop_gt = 5" | "op_level Bop_ge = 5"
| "op_level Bop_shl = 6" | "op_level Bop_shr = 6"
| "op_level Bop_add = 7" | "op_level Bop_sub = 7"
| "op_level Bop_mul = 8" | "op_level Bop_div = 8" | "op_level Bop_mod = 8"

fun prefix_lexeme :: "prefix_form \<Rightarrow> lexeme" where
  "prefix_lexeme F_borrow = Lex_punct P_ampersand"
| "prefix_lexeme F_move = Lex_punct P_caret"
| "prefix_lexeme F_deref = Lex_punct P_asterisk"
| "prefix_lexeme F_await = Lex_word ''await''"
| "prefix_lexeme F_neg = Lex_punct P_minus"
| "prefix_lexeme F_not = Lex_punct P_bang"

fun prefix_level :: "prefix_form \<Rightarrow> nat" where
  "prefix_level F_neg = 8" | "prefix_level F_not = 8"
| "prefix_level f = 6"

fun level :: "surface \<Rightarrow> nat" where
  "level (S_binary bop l r) = op_level bop"
| "level (S_or_else l r) = 1"
| "level (S_prefix f e) = prefix_level f"
| "level (S_cast e t) = 9"
| "level (S_try e) = 0"
| "level (S_ternary c a b) = 0"
| "level e = 10"

definition parens :: "lexeme list \<Rightarrow> lexeme list" where
  "parens xs = lex_p P_l_paren # xs @ [lex_p P_r_paren]"

definition at_level :: "nat \<Rightarrow> nat \<Rightarrow> lexeme list \<Rightarrow> lexeme list" where
  "at_level q p xs = (if p < q then parens xs else xs)"

text \<open>
  The left operand of \<open><\<close> is always in parentheses, since the parser takes \<open>name <\<close> and \<open>as Type <\<close> for
  the beginning of a list of types.
\<close>

fun show_expr :: "surface \<Rightarrow> lexeme list" where
  "show_expr (S_name n) = [Lex_word n]"
| "show_expr (S_bool b) = [Lex_word (if b then ''true'' else ''false'')]"
| "show_expr (S_int n) = [Lex_number (dec_nat n)]"
| "show_expr (S_binary bop l r) =
     (if bop = Bop_lt then parens (show_expr l) else at_level (op_level bop) (level l) (show_expr l)) @
     lex_p (op_punct bop) # at_level (Suc (op_level bop)) (level r) (show_expr r)"
| "show_expr (S_or_else l r) =
     at_level 1 (level l) (show_expr l) @ lex_p P_question_question # at_level 2 (level r) (show_expr r)"
| "show_expr (S_prefix f e) =
     prefix_lexeme f # at_level (Suc (prefix_level f)) (level e) (show_expr e)"
| "show_expr (S_call f es) =
     Lex_word f # lex_p P_l_paren # between_comma id (map show_expr es) @ [lex_p P_r_paren]"
| "show_expr (S_method e f es) =
     at_level 10 (level e) (show_expr e) @ lex_p P_dot # Lex_word f # lex_p P_l_paren #
     between_comma id (map show_expr es) @ [lex_p P_r_paren]"
| "show_expr (S_field e f) = at_level 10 (level e) (show_expr e) @ [lex_p P_dot, Lex_word f]"
| "show_expr (S_index e i) =
     at_level 10 (level e) (show_expr e) @ lex_p P_l_bracket # show_expr i @ [lex_p P_r_bracket]"
| "show_expr (S_slice e i j) =
     at_level 10 (level e) (show_expr e) @ lex_p P_l_bracket # show_expr i @ lex_p P_range # show_expr j @
     [lex_p P_r_bracket]"
| "show_expr (S_cast e t) = at_level 9 (level e) (show_expr e) @ Lex_word ''as'' # show_ty t"
| "show_expr (S_unwrap e) = at_level 10 (level e) (show_expr e) @ [lex_p P_bang]"
| "show_expr (S_try e) = at_level 1 (level e) (show_expr e) @ [lex_p P_question_mark]"
| "show_expr (S_ternary c a b) =
     at_level 1 (level c) (show_expr c) @ lex_p P_question_mark # show_expr a @ lex_p P_colon # show_expr b"
| "show_expr (S_tuple e es) =
     lex_p P_l_paren # show_expr e @ comma # between_comma id (map show_expr es) @ [lex_p P_r_paren]"
| "show_expr (S_array e es) =
     lex_p P_l_bracket # between_comma id (show_expr e # map show_expr es) @ [lex_p P_r_bracket]"

text \<open>The expressions that are read back: names that are neither keywords nor names of types, numbers below 2^63,
  casts to types that are read back, and no bare name to the left of \<open><\<close>.\<close>

definition value_name :: "scope \<Rightarrow> string \<Rightarrow> bool" where
  "value_name sc n \<longleftrightarrow> lexeme_ok (Lex_word n) \<and> checkKeyword n = T_identifier \<and>
     n \<notin> {''asm'', ''true'', ''false''} \<and> \<not> isKnownTypeName sc n"

definition plain_word :: "string \<Rightarrow> bool" where
  "plain_word n \<longleftrightarrow> lexeme_ok (Lex_word n) \<and> checkKeyword n = T_identifier"

fun expr_ok :: "scope \<Rightarrow> surface \<Rightarrow> bool" where
  "expr_ok sc (S_name n) = value_name sc n"
| "expr_ok sc (S_bool b) \<longleftrightarrow> \<not> isKnownTypeName sc (if b then ''true'' else ''false'')"
| "expr_ok sc (S_int n) \<longleftrightarrow> n < 2 ^ 63"
| "expr_ok sc (S_binary bop l r) \<longleftrightarrow>
     expr_ok sc l \<and> expr_ok sc r \<and> (bop = Bop_lt \<longrightarrow> identifier_of (node_of l) = None)"
| "expr_ok sc (S_or_else l r) \<longleftrightarrow> expr_ok sc l \<and> expr_ok sc r"
| "expr_ok sc (S_prefix f e) = expr_ok sc e"
| "expr_ok sc (S_call f es) \<longleftrightarrow> value_name sc f \<and> list_all (expr_ok sc) es"
| "expr_ok sc (S_method e f es) \<longleftrightarrow> expr_ok sc e \<and> plain_word f \<and> list_all (expr_ok sc) es"
| "expr_ok sc (S_field e f) \<longleftrightarrow> expr_ok sc e \<and> plain_word f"
| "expr_ok sc (S_index e i) \<longleftrightarrow> expr_ok sc e \<and> expr_ok sc i"
| "expr_ok sc (S_slice e i j) \<longleftrightarrow> expr_ok sc e \<and> expr_ok sc i \<and> expr_ok sc j"
| "expr_ok sc (S_cast e t) \<longleftrightarrow> expr_ok sc e \<and> ty_ok t"
| "expr_ok sc (S_unwrap e) = expr_ok sc e"
| "expr_ok sc (S_try e) = expr_ok sc e"
| "expr_ok sc (S_ternary c a b) \<longleftrightarrow> expr_ok sc c \<and> expr_ok sc a \<and> expr_ok sc b"
| "expr_ok sc (S_tuple e es) \<longleftrightarrow> expr_ok sc e \<and> list_all (expr_ok sc) es"
| "expr_ok sc (S_array e es) \<longleftrightarrow> expr_ok sc e \<and> list_all (expr_ok sc) es"

text \<open>What may come after an expression printed at level \<open>q\<close>.\<close>

definition follows :: "nat \<Rightarrow> tag \<Rightarrow> bool" where
  "follows q t \<longleftrightarrow> getInfixPrecedence t \<le> q \<and>
     t \<notin> T_punct ` {P_question_dot, P_l_paren, P_double_colon, P_less_than} \<and> (q = 0 \<longrightarrow> \<not> tokenStartsPrefixExpr t)"

section \<open>Climbing\<close>

lemma follows_mono: "follows p t \<Longrightarrow> p \<le> q \<Longrightarrow> follows q t"
  by (auto simp: follows_def)

lemma follows_close [simp]: "follows q (T_punct P_r_paren)" "follows q (T_punct P_comma)"
  "follows q (T_punct P_r_bracket)" "follows q (T_punct P_range)" "follows q (T_punct P_colon)"
  by (auto simp: follows_def getInfixPrecedence_def tokenStartsPrefixExpr_def)

lemma climb_stop:
  assumes "follows p (tag_at 0 (toks st))" "p < 10"
  shows "climb g p left st = Gives (Inr left) st"
proof -
  let ?t = "tag_at 0 (toks st)"
  from assms have prec: "getInfixPrecedence ?t \<le> p" and t: "?t \<noteq> T_punct P_question_dot" "?t \<noteq> T_punct P_less_than"
    by (auto simp: follows_def)
  with assms(2) have bang: "?t \<noteq> T_punct P_bang" by (auto simp: getInfixPrecedence_def)
  have q: "p = 0 \<Longrightarrow> ?t \<noteq> T_punct P_question_question \<and> ?t \<noteq> T_punct P_question_mark"
    using prec by (auto simp: getInfixPrecedence_def)
  from t prec have "infix_level left (toks st) \<le> p" by (simp add: infix_level_def)
  then have "climb_rest g p left st = Gives (Inr left) st"
    using bang t q by (auto simp: climb_rest_def run)
  with q show ?thesis by (auto simp: climb_def run)
qed

lemma while_stop:
  assumes "follows p (tag_at 0 (toks st))" "p < 10"
  shows "while_p (climb (parser_of sc) p) left st = Gives left st"
  by (rule while_done [OF parser.climb_rounds climb_stop [OF assms]])

definition parses :: "scope \<Rightarrow> surface \<Rightarrow> lexeme list \<Rightarrow> nat \<Rightarrow> (tag \<Rightarrow> bool) \<Rightarrow> bool" where
  "parses sc e xs q F \<longleftrightarrow> (\<forall>p st rest. F (tag_at 0 rest) \<longrightarrow> p < q \<or> p = 0 \<longrightarrow>
     g_expr (parser_of sc) p (st\<lparr>toks := toks_of xs @ rest\<rparr>) =
       while_p (climb (parser_of sc) p) (node_of e) (st\<lparr>toks := rest\<rparr>))"

lemma parsesD:
  "parses sc e xs q F \<Longrightarrow> F (tag_at 0 rest) \<Longrightarrow> p < q \<or> p = 0 \<Longrightarrow>
    g_expr (parser_of sc) p (st\<lparr>toks := toks_of xs @ rest\<rparr>) =
      while_p (climb (parser_of sc) p) (node_of e) (st\<lparr>toks := rest\<rparr>)"
  unfolding parses_def by blast

lemma parses_weaken:
  "parses sc e xs q F \<Longrightarrow> r \<le> q \<Longrightarrow> (\<And>t. G t \<Longrightarrow> F t) \<Longrightarrow> parses sc e xs r G"
  unfolding parses_def using less_le_trans [of _ r q] by blast

lemma parses_prefix:
  assumes "\<And>st rest. F (tag_at 0 rest) \<Longrightarrow>
    parsePrefixExpr sc (parser_of sc) (st\<lparr>toks := toks_of xs @ rest\<rparr>) = Gives (node_of e) (st\<lparr>toks := rest\<rparr>)"
  shows "parses sc e xs q F"
  unfolding parses_def parser_methods(1) parseExpr_def by (simp add: bind_p_def assms)

lemma parses_operand:
  assumes "parses sc e xs q (follows q)" "p < q \<or> p = 0" "p < 10" "follows p (tag_at 0 rest)"
  shows "g_expr (parser_of sc) p (st\<lparr>toks := toks_of xs @ rest\<rparr>) = Gives (node_of e) (st\<lparr>toks := rest\<rparr>)"
proof -
  have "follows q (tag_at 0 rest)" using assms(2,4) by (auto intro: follows_mono)
  from parsesD [OF assms(1) this assms(2)] while_stop [of p] assms(3,4) show ?thesis by simp
qed

lemma parses_reads:
  "parses sc e xs q (follows q) \<Longrightarrow> reads (g_expr (parser_of sc) 0) xs (node_of e) (follows 0)"
  using parses_operand [of sc e xs q 0] by (simp add: reads_def)

lemma parses_parens:
  assumes "parses sc e xs q (follows q)" shows "parses sc e (parens xs) r F"
proof (rule parses_prefix)
  fix st :: pstate and rest
  have "g_expr (parser_of sc) 0 (st\<lparr>toks := toks_of xs @ (T_punct P_r_paren, s) # rest\<rparr>) =
      Gives (node_of e) (st\<lparr>toks := (T_punct P_r_paren, s) # rest\<rparr>)" for s
    by (rule parses_operand [OF assms]) simp_all
  then show "parsePrefixExpr sc (parser_of sc) (st\<lparr>toks := toks_of (parens xs) @ rest\<rparr>) =
      Gives (node_of e) (st\<lparr>toks := rest\<rparr>)"
    by (simp add: parens_def parsePrefixExpr_def paren_expr_def run)
qed

lemma parses_at_level:
  assumes "parses sc e xs l (follows l)" shows "parses sc e (at_level q l xs) q (follows q)"
proof (cases "l < q")
  case True
  with parses_parens [OF assms] show ?thesis by (simp add: at_level_def)
next
  case False
  then have "parses sc e xs q (follows q)" by (intro parses_weaken [OF assms]) (auto elim: follows_mono)
  with False show ?thesis by (simp add: at_level_def)
qed

lemma parses_infix:
  assumes "parses sc l xs r F" "q \<le> r" "F (lexeme_tag y)"
    and "\<And>p st rest. p < q \<or> p = 0 \<Longrightarrow> G (tag_at 0 rest) \<Longrightarrow>
      climb (parser_of sc) p (node_of l) (st\<lparr>toks := toks_of (y # ys) @ rest\<rparr>) =
        Gives (Inl (node_of e)) (st\<lparr>toks := rest\<rparr>)"
  shows "parses sc e (xs @ y # ys) q G"
  unfolding parses_def
proof (intro allI impI)
  fix p and st :: pstate and rest assume "G (tag_at 0 rest)" and p: "p < q \<or> p = 0"
  then have step: "climb (parser_of sc) p (node_of l) (st\<lparr>toks := toks_of (y # ys) @ rest\<rparr>) =
        Gives (Inl (node_of e)) (st\<lparr>toks := rest\<rparr>)" by (rule assms(4) [rotated])
  have "g_expr (parser_of sc) p (st\<lparr>toks := toks_of xs @ (toks_of (y # ys) @ rest)\<rparr>) =
      while_p (climb (parser_of sc) p) (node_of l) (st\<lparr>toks := toks_of (y # ys) @ rest\<rparr>)"
    by (rule parsesD [OF assms(1)]) (use p assms(2,3) in \<open>auto simp: tok_of_def\<close>)
  with while_next [where body = "climb (parser_of sc) p", OF parser.climb_rounds step]
  show "g_expr (parser_of sc) p (st\<lparr>toks := toks_of (xs @ y # ys) @ rest\<rparr>) =
      while_p (climb (parser_of sc) p) (node_of e) (st\<lparr>toks := rest\<rparr>)" by simp
qed

section \<open>The forms\<close>

text \<open>A step of the loop behind an operator that binds tighter than the precedence.\<close>

lemma climb_infix:
  assumes "tag_at 0 (toks st) = t" "p < getInfixPrecedence t"
    "t \<noteq> T_punct P_question_question" "t \<noteq> T_punct P_question_mark" "t \<noteq> T_punct P_bang" "t \<noteq> T_punct P_question_dot"
    "t = T_punct P_less_than \<Longrightarrow> identifier_of left = None"
  shows "climb g p left st = bind_p (parseInfixExpr g left (getInfixPrecedence t)) (\<lambda>n. ret_p (Inl n)) st"
proof -
  have "infix_level left (toks st) = getInfixPrecedence t"
    using assms(1,7) by (auto simp: infix_level_def)
  with assms(1-6) show ?thesis
    by (simp add: climb_def climb_rest_def bind_p_def [of p_peek] bind_p_def [of "p_look _"] p_peek_def p_look_def)
qed

lemma op_level: "getInfixPrecedence (T_punct (op_punct bop)) = op_level bop"
  by (cases bop) (simp_all add: getInfixPrecedence_def)

lemma op_punct_not:
  "op_punct bop \<noteq> P_question_question" "op_punct bop \<noteq> P_question_mark" "op_punct bop \<noteq> P_bang"
  "op_punct bop \<noteq> P_question_dot"
  by (cases bop; simp)+

lemma parses_binary:
  assumes "parses sc l xl r F" "op_level bop \<le> r" "F (T_punct (op_punct bop))"
    "parses sc e xr (Suc (op_level bop)) (follows (Suc (op_level bop)))"
    "bop = Bop_lt \<longrightarrow> identifier_of (node_of l) = None"
  shows "parses sc (S_binary bop l e) (xl @ lex_p (op_punct bop) # xr) (op_level bop) (follows (op_level bop))"
proof (rule parses_infix [OF assms(1,2)])
  show "F (lexeme_tag (lex_p (op_punct bop)))" using assms(3) by simp
  fix p and st :: pstate and rest
  assume p: "p < op_level bop \<or> p = 0" and rest: "follows (op_level bop) (tag_at 0 rest)"
  have lv: "0 < op_level bop" "op_level bop < 10" by (cases bop; simp)+
  then have p': "p < op_level bop" using p by auto
  have op: "binary_op_of (T_punct (op_punct bop)) = Some bop" by (cases bop; simp add: binary_op_of_def)
  have right: "g_expr (parser_of sc) (op_level bop) (st\<lparr>toks := toks_of xr @ rest\<rparr>) =
      Gives (node_of e) (st\<lparr>toks := rest\<rparr>)"
    by (rule parses_operand [OF assms(4) _ lv(2) rest]) simp
  have lt: "op_punct bop = P_less_than \<Longrightarrow> identifier_of (node_of l) = None"
    using assms(5) by (cases bop; simp)
  have "climb (parser_of sc) p (node_of l) (st\<lparr>toks := toks_of (lex_p (op_punct bop) # xr) @ rest\<rparr>) =
      bind_p (parseInfixExpr (parser_of sc) (node_of l) (op_level bop)) (\<lambda>n. ret_p (Inl n))
        (st\<lparr>toks := toks_of (lex_p (op_punct bop) # xr) @ rest\<rparr>)"
    unfolding op_level [symmetric]
    by (rule climb_infix) (use p' lv lt in \<open>simp_all add: op_level op_punct_not\<close>)
  also have "\<dots> = Gives (Inl (node_of (S_binary bop l e))) (st\<lparr>toks := rest\<rparr>)"
    using lt right by (simp add: parseInfixExpr_def run op generic_or_binary_def split: option.splits)
  finally show "climb (parser_of sc) p (node_of l) (st\<lparr>toks := toks_of (lex_p (op_punct bop) # xr) @ rest\<rparr>) =
      Gives (Inl (node_of (S_binary bop l e))) (st\<lparr>toks := rest\<rparr>)" .
qed

lemma parses_or_else:
  assumes "parses sc l xl 1 (follows 1)" "parses sc e xr 2 (follows 2)"
  shows "parses sc (S_or_else l e) (xl @ lex_p P_question_question # xr) 1 (follows 1)"
proof (rule parses_infix [OF assms(1)])
  show "follows 1 (lexeme_tag (lex_p P_question_question))"
    by (auto simp: follows_def getInfixPrecedence_def)
  fix p :: nat and st :: pstate and rest
  assume p: "p < 1 \<or> p = 0" and rest: "follows 1 (tag_at 0 rest)"
  have "g_expr (parser_of sc) 1 (st\<lparr>toks := toks_of xr @ rest\<rparr>) = Gives (node_of e) (st\<lparr>toks := rest\<rparr>)"
    by (rule parses_operand [OF assms(2) _ _ rest]) simp_all
  then show "climb (parser_of sc) p (node_of l) (st\<lparr>toks := toks_of (lex_p P_question_question # xr) @ rest\<rparr>) =
      Gives (Inl (node_of (S_or_else l e))) (st\<lparr>toks := rest\<rparr>)"
    using p by (simp add: climb_def climb_rest_def run)
qed simp

lemma parses_prefix_form:
  assumes "parses sc e xs (Suc (prefix_level f)) (follows (Suc (prefix_level f)))"
  shows "parses sc (S_prefix f e) (prefix_lexeme f # xs) q (follows (prefix_level f))"
proof (rule parses_prefix)
  fix st :: pstate and rest assume rest: "follows (prefix_level f) (tag_at 0 rest)"
  have lv: "prefix_level f < 10" by (cases f; simp)
  have e: "g_expr (parser_of sc) (prefix_level f) (st\<lparr>toks := toks_of xs @ rest\<rparr>) =
      Gives (node_of e) (st\<lparr>toks := rest\<rparr>)"
    by (rule parses_operand [OF assms _ lv rest]) simp
  have "checkKeyword ''await'' = T_keyword K_await" by (simp add: checkKeyword_def keyword_table_def)
  with e show "parsePrefixExpr sc (parser_of sc) (st\<lparr>toks := toks_of (prefix_lexeme f # xs) @ rest\<rparr>) =
      Gives (node_of (S_prefix f e)) (st\<lparr>toks := rest\<rparr>)"
    by (cases f; simp add: parsePrefixExpr_def prefix_operator_def run)
qed

text \<open>Atoms.\<close>

lemma parses_word:
  assumes "checkKeyword n = T_identifier" "n \<noteq> ''asm''" "\<not> isKnownTypeName sc n" "\<not> F (T_punct P_double_colon)"
    "node_of e = (if n = ''true'' then Literal (Bool_val True) else if n = ''false'' then Literal (Bool_val False)
      else Identifier n)"
  shows "parses sc e [Lex_word n] q F"
proof (rule parses_prefix)
  fix st :: pstate and rest assume "F (tag_at 0 rest)"
  then have "tag_at 0 rest \<noteq> T_punct P_double_colon" using assms(4) by metis
  with assms(1-3,5) show "parsePrefixExpr sc (parser_of sc) (st\<lparr>toks := toks_of [Lex_word n] @ rest\<rparr>) =
      Gives (node_of e) (st\<lparr>toks := rest\<rparr>)"
    by (simp add: parsePrefixExpr_def identifier_expr_def name_expr_def run)
qed

lemma not_follows: "\<not> follows q (T_punct P_double_colon)"
  by (simp add: follows_def)

lemma dec_digits:
  "takeWhile is_digit (dec_nat n) = dec_nat n" "dropWhile is_digit (dec_nat n) = []"
  using dec_nat_all_digits [of n] by (simp_all add: takeWhile_eq_all_conv dropWhile_eq_Nil_conv list_all_iff)

lemma int_literal_dec: "n < 2 ^ 63 \<Longrightarrow> int_literal (dec_nat n) = Some (Literal (Int_val (int n)))"
proof -
  assume n: "n < 2 ^ 63"
  have hex: "(length (dec_nat n) \<ge> 2 \<and> dec_nat n ! 0 = CHR ''0'' \<and>
      (dec_nat n ! 1 = CHR ''x'' \<or> dec_nat n ! 1 = CHR ''X'')) = False"
    using dec_nat_all_digits [of n] by (auto simp: list_all_length is_digit_def dest!: spec [of _ "Suc 0"])
  show ?thesis
    unfolding int_literal_def Let_def strip_dec hex if_False dec_digits using parse_dec [OF n] by simp
qed

lemma parses_int: "n < 2 ^ 63 \<Longrightarrow> parses sc (S_int n) [Lex_number (dec_nat n)] q F"
  by (rule parses_prefix) (simp add: parsePrefixExpr_def number_expr_def run int_literal_dec)

text \<open>Arguments.\<close>

definition parses_all :: "scope \<Rightarrow> surface list \<Rightarrow> bool" where
  "parses_all sc es \<longleftrightarrow> (\<forall>e \<in> set es. expr_ok sc e \<and> parses sc e (show_expr e) (level e) (follows (level e)))"

definition starts :: "lexeme list \<Rightarrow> bool" where
  "starts xs \<longleftrightarrow> xs \<noteq> [] \<and> tokenStartsPrefixExpr (lexeme_tag (hd xs))"

lemma starts_simps [simp]:
  "starts (Lex_number w # xs)" "starts (lex_p P_l_paren # xs)" "starts (lex_p P_l_bracket # xs)"
  "checkKeyword w = T_identifier \<Longrightarrow> starts (Lex_word w # xs)"
  "starts (prefix_lexeme f # xs)" "starts (parens ys @ xs)"
proof -
  show "starts (prefix_lexeme f # xs)"
    by (cases f) (simp_all add: starts_def tokenStartsPrefixExpr_def checkKeyword_def keyword_table_def)
qed (simp_all add: starts_def tokenStartsPrefixExpr_def parens_def)

lemma starts_append: "starts xs \<Longrightarrow> starts (xs @ ys)"
  by (simp add: starts_def)

lemma starts_at_level: "starts xs \<Longrightarrow> starts (at_level q p xs @ ys)"
  by (simp add: at_level_def starts_append)

lemma show_expr_start: "expr_ok sc e \<Longrightarrow> starts (show_expr e)"
proof (induction e)
  case (S_bool b)
  show ?case by (simp add: checkKeyword_def keyword_table_def)
qed (simp_all add: value_name_def starts_at_level)

lemma startsD: "starts xs \<Longrightarrow> \<exists>y ys. xs = y # ys \<and> tokenStartsPrefixExpr (lexeme_tag y)"
  by (cases xs) (simp_all add: starts_def)

lemma starts_not_close:
  "tokenStartsPrefixExpr t \<Longrightarrow> t \<noteq> T_eof \<and> t \<noteq> T_punct P_r_paren \<and> t \<noteq> T_punct P_r_bracket \<and> t \<noteq> T_punct P_comma"
  by (auto simp: tokenStartsPrefixExpr_def)

lemma parses_list:
  assumes "parses_all sc es"
  shows "comma_list (T_punct P_r_paren) (g_expr (parser_of sc) 0)
      (st\<lparr>toks := toks_of (between_comma show_expr es) @ (T_punct P_r_paren, s) # rest\<rparr>) =
    Gives (map node_of es) (st\<lparr>toks := (T_punct P_r_paren, s) # rest\<rparr>)"
proof -
  have r: "\<forall>e \<in> set es. reads (g_expr (parser_of sc) 0) (show_expr e) (node_of e) (follows 0)"
    using assms parses_reads by (auto simp: parses_all_def)
  have s: "\<forall>e \<in> set es. \<exists>y ys. show_expr e = y # ys \<and> lexeme_tag y \<noteq> T_punct P_r_paren \<and> lexeme_tag y \<noteq> T_eof"
    using assms startsD [OF show_expr_start] starts_not_close unfolding parses_all_def by blast
  show ?thesis by (rule comma_list_between [OF parser.exprs r s]) simp_all
qed

lemma parses_args:
  assumes "parses_all sc es"
  shows "paren_args (parser_of sc) (st\<lparr>toks := toks_of (between_comma show_expr es) @ (T_punct P_r_paren, s) # rest\<rparr>) =
    Gives (map node_of es) (st\<lparr>toks := rest\<rparr>)"
  by (simp add: paren_args_def run parses_list [OF assms])

lemma parses_call:
  assumes "value_name sc f" "parses_all sc es"
  shows "parses sc (S_call f es)
    (Lex_word f # lex_p P_l_paren # between_comma show_expr es @ [lex_p P_r_paren]) 10 (follows 10)"
proof -
  from assms(1) have f: "parses sc (S_name f) [Lex_word f] 10 (\<lambda>t. t \<noteq> T_punct P_double_colon)"
    by (intro parses_word) (simp_all add: value_name_def)
  have "parses sc (S_call f es)
      ([Lex_word f] @ lex_p P_l_paren # between_comma show_expr es @ [lex_p P_r_paren]) 10 (follows 10)"
  proof (rule parses_infix [OF f])
    fix p :: nat and st :: pstate and rest assume "p < 10 \<or> p = 0"
    then have p: "p < getInfixPrecedence (T_punct P_l_paren)" by (auto simp: getInfixPrecedence_def)
    show "climb (parser_of sc) p (node_of (S_name f))
        (st\<lparr>toks := toks_of (lex_p P_l_paren # between_comma show_expr es @ [lex_p P_r_paren]) @ rest\<rparr>) =
      Gives (Inl (node_of (S_call f es))) (st\<lparr>toks := rest\<rparr>)"
      by (subst climb_infix [OF _ p])
        (simp_all add: parseInfixExpr_def binary_op_of_def call_tail_def run parses_args [OF assms(2)] plain_call_def)
  qed simp_all
  then show ?thesis by simp
qed

lemma parses_method:
  assumes "parses sc e xs 10 (follows 10)" "plain_word f" "parses_all sc es"
  shows "parses sc (S_method e f es)
    (xs @ lex_p P_dot # Lex_word f # lex_p P_l_paren # between_comma show_expr es @ [lex_p P_r_paren]) 10 (follows 10)"
proof (rule parses_infix [OF assms(1)])
  fix p :: nat and st :: pstate and rest assume "p < 10 \<or> p = 0"
  then have p: "p < getInfixPrecedence (T_punct P_dot)" by (auto simp: getInfixPrecedence_def)
  have f: "checkKeyword f = T_identifier" using assms(2) by (simp add: plain_word_def)
  show "climb (parser_of sc) p (node_of e)
      (st\<lparr>toks := toks_of (lex_p P_dot # Lex_word f # lex_p P_l_paren # between_comma show_expr es @
        [lex_p P_r_paren]) @ rest\<rparr>) =
    Gives (Inl (node_of (S_method e f es))) (st\<lparr>toks := rest\<rparr>)"
    by (subst climb_infix [OF _ p])
      (simp_all add: parseInfixExpr_def binary_op_of_def dot_expr_def field_name_token_def run f
        parses_args [OF assms(3)] plain_call_def)
qed (auto simp: follows_def getInfixPrecedence_def)

lemma parses_field:
  assumes "parses sc e xs 10 (follows 10)" "plain_word f"
  shows "parses sc (S_field e f) (xs @ [lex_p P_dot, Lex_word f]) 10 (follows 10)"
proof (rule parses_infix [OF assms(1)])
  fix p :: nat and st :: pstate and rest assume "p < 10 \<or> p = 0" and rest: "follows 10 (tag_at 0 rest)"
  then have p: "p < getInfixPrecedence (T_punct P_dot)" by (auto simp: getInfixPrecedence_def)
  have f: "checkKeyword f = T_identifier" using assms(2) by (simp add: plain_word_def)
  have r: "tag_at 0 rest \<noteq> T_punct P_l_paren" "\<not> looksLikeGenericMethodCallTail rest"
    using rest by (auto simp: follows_def looksLikeGenericMethodCallTail_def)
  show "climb (parser_of sc) p (node_of e) (st\<lparr>toks := toks_of [lex_p P_dot, Lex_word f] @ rest\<rparr>) =
    Gives (Inl (node_of (S_field e f))) (st\<lparr>toks := rest\<rparr>)"
    by (subst climb_infix [OF _ p])
      (simp_all add: parseInfixExpr_def binary_op_of_def dot_expr_def field_name_token_def run f r)
qed (auto simp: follows_def getInfixPrecedence_def)

lemma parses_index:
  assumes "parses sc e xs 10 (follows 10)" "parses sc i ys l (follows l)"
  shows "parses sc (S_index e i) (xs @ lex_p P_l_bracket # ys @ [lex_p P_r_bracket]) 10 (follows 10)"
proof (rule parses_infix [OF assms(1)])
  fix p :: nat and st :: pstate and rest assume "p < 10 \<or> p = 0"
  then have p: "p < getInfixPrecedence (T_punct P_l_bracket)" by (auto simp: getInfixPrecedence_def)
  have i: "g_expr (parser_of sc) 0 (st\<lparr>toks := toks_of ys @ (T_punct P_r_bracket, s) # rest\<rparr>) =
      Gives (node_of i) (st\<lparr>toks := (T_punct P_r_bracket, s) # rest\<rparr>)" for st s
    by (rule parses_operand [OF assms(2)]) simp_all
  show "climb (parser_of sc) p (node_of e) (st\<lparr>toks := toks_of (lex_p P_l_bracket # ys @ [lex_p P_r_bracket]) @ rest\<rparr>) =
    Gives (Inl (node_of (S_index e i))) (st\<lparr>toks := rest\<rparr>)"
    by (subst climb_infix [OF _ p]) (simp_all add: parseInfixExpr_def binary_op_of_def index_tail_def run i)
qed (auto simp: follows_def getInfixPrecedence_def)

lemma parses_slice:
  assumes "parses sc e xs 10 (follows 10)" "parses sc i ys l (follows l)" "parses sc j zs m (follows m)"
  shows "parses sc (S_slice e i j)
    (xs @ lex_p P_l_bracket # ys @ lex_p P_range # zs @ [lex_p P_r_bracket]) 10 (follows 10)"
proof (rule parses_infix [OF assms(1)])
  fix p :: nat and st :: pstate and rest assume "p < 10 \<or> p = 0"
  then have p: "p < getInfixPrecedence (T_punct P_l_bracket)" by (auto simp: getInfixPrecedence_def)
  have i: "g_expr (parser_of sc) 0 (st\<lparr>toks := toks_of ys @ (T_punct P_range, s) # rest\<rparr>) =
      Gives (node_of i) (st\<lparr>toks := (T_punct P_range, s) # rest\<rparr>)" for st s rest
    by (rule parses_operand [OF assms(2)]) simp_all
  have j: "g_expr (parser_of sc) 0 (st\<lparr>toks := toks_of zs @ (T_punct P_r_bracket, s) # rest\<rparr>) =
      Gives (node_of j) (st\<lparr>toks := (T_punct P_r_bracket, s) # rest\<rparr>)" for st s rest
    by (rule parses_operand [OF assms(3)]) simp_all
  show "climb (parser_of sc) p (node_of e)
      (st\<lparr>toks := toks_of (lex_p P_l_bracket # ys @ lex_p P_range # zs @ [lex_p P_r_bracket]) @ rest\<rparr>) =
    Gives (Inl (node_of (S_slice e i j))) (st\<lparr>toks := rest\<rparr>)"
    by (subst climb_infix [OF _ p]) (simp_all add: parseInfixExpr_def binary_op_of_def index_tail_def run i j)
qed (auto simp: follows_def getInfixPrecedence_def)

lemma parses_cast:
  assumes "parses sc e xs 9 (follows 9)" "ty_ok t"
  shows "parses sc (S_cast e t) (xs @ Lex_word ''as'' # show_ty t) 9 (follows 9)"
proof -
  have as: "checkKeyword ''as'' = T_keyword K_as" by (simp add: checkKeyword_def keyword_table_def)
  show ?thesis
  proof (rule parses_infix [OF assms(1)])
    fix p :: nat and st :: pstate and rest assume "p < 9 \<or> p = 0" and rest: "follows 9 (tag_at 0 rest)"
    then have p: "p < getInfixPrecedence (T_keyword K_as)" by (auto simp: getInfixPrecedence_def)
    have "after_type (tag_at 0 rest)"
      using rest by (auto simp: follows_def after_type_def getInfixPrecedence_def)
    from readsD [OF type_reads [OF assms(2)] this]
    have t: "g_type (parser_of sc) (st\<lparr>toks := toks_of (show_ty t) @ rest\<rparr>) = Gives t (st\<lparr>toks := rest\<rparr>)" for st .
    show "climb (parser_of sc) p (node_of e) (st\<lparr>toks := toks_of (Lex_word ''as'' # show_ty t) @ rest\<rparr>) =
      Gives (Inl (node_of (S_cast e t))) (st\<lparr>toks := rest\<rparr>)"
      by (subst climb_infix [OF _ p]) (simp_all add: as parseInfixExpr_def binary_op_of_def run t)
  qed (auto simp: as follows_def getInfixPrecedence_def tokenStartsPrefixExpr_def)
qed

lemma parses_unwrap:
  assumes "parses sc e xs 10 (follows 10)"
  shows "parses sc (S_unwrap e) (xs @ [lex_p P_bang]) 10 (follows 10)"
  by (rule parses_infix [OF assms])
    (simp_all add: climb_def climb_rest_def run follows_def getInfixPrecedence_def)

lemma parses_try:
  assumes "parses sc e xs 1 (follows 1)"
  shows "parses sc (S_try e) (xs @ [lex_p P_question_mark]) 0 (follows 0)"
proof (rule parses_infix [OF assms])
  fix p :: nat and st :: pstate and rest assume "p < 0 \<or> p = 0" and rest: "follows 0 (tag_at 0 rest)"
  then have p: "p = 0" by simp
  have r: "\<not> tokenStartsPrefixExpr (tag_at 0 rest)" using rest by (simp add: follows_def)
  show "climb (parser_of sc) p (node_of e) (st\<lparr>toks := toks_of [lex_p P_question_mark] @ rest\<rparr>) =
      Gives (Inl (node_of (S_try e))) (st\<lparr>toks := rest\<rparr>)"
    by (simp add: p climb_def climb_rest_def run try_ternary_def p_restore_def r infix_level_def
        getInfixPrecedence_def parseInfixExpr_def binary_op_of_def question_tail_def)
qed (auto simp: follows_def getInfixPrecedence_def)

lemma parses_ternary:
  assumes "parses sc c xs 1 (follows 1)" "parses sc a ys l (follows l)" "parses sc b zs m (follows m)" "starts ys"
  shows "parses sc (S_ternary c a b) (xs @ lex_p P_question_mark # ys @ lex_p P_colon # zs) 0 (follows 0)"
proof (rule parses_infix [OF assms(1)])
  fix p :: nat and st :: pstate and rest assume "p < 0 \<or> p = 0" and rest: "follows 0 (tag_at 0 rest)"
  then have p: "p = 0" by simp
  have a: "g_expr (parser_of sc) 0 (st\<lparr>toks := toks_of ys @ (T_punct P_colon, s) # rest\<rparr>) =
      Gives (node_of a) (st\<lparr>toks := (T_punct P_colon, s) # rest\<rparr>)" for st s rest
    by (rule parses_operand [OF assms(2)]) simp_all
  have b: "g_expr (parser_of sc) 0 (st\<lparr>toks := toks_of zs @ rest\<rparr>) = Gives (node_of b) (st\<lparr>toks := rest\<rparr>)" for st
    by (rule parses_operand [OF assms(3) _ _ rest]) simp_all
  have y: "tokenStartsPrefixExpr (tag_at 0 (toks_of ys @ ts))" for ts
    using startsD [OF assms(4)] by auto
  show "climb (parser_of sc) p (node_of c)
      (st\<lparr>toks := toks_of (lex_p P_question_mark # ys @ lex_p P_colon # zs) @ rest\<rparr>) =
      Gives (Inl (node_of (S_ternary c a b))) (st\<lparr>toks := rest\<rparr>)"
    by (simp add: p climb_def run try_ternary_def y attempt_def ternary_tail_def a b)
qed (auto simp: follows_def getInfixPrecedence_def)

lemma parses_tuple:
  assumes "parses sc e xs l (follows l)" "parses_all sc es"
  shows "parses sc (S_tuple e es) (lex_p P_l_paren # xs @ comma # between_comma show_expr es @ [lex_p P_r_paren]) q F"
proof (rule parses_prefix)
  fix st :: pstate and rest
  have e: "g_expr (parser_of sc) 0 (st\<lparr>toks := toks_of xs @ (T_punct P_comma, s) # rest\<rparr>) =
      Gives (node_of e) (st\<lparr>toks := (T_punct P_comma, s) # rest\<rparr>)" for st s rest
    by (rule parses_operand [OF assms(1)]) simp_all
  show "parsePrefixExpr sc (parser_of sc)
      (st\<lparr>toks := toks_of (lex_p P_l_paren # xs @ comma # between_comma show_expr es @ [lex_p P_r_paren]) @ rest\<rparr>) =
      Gives (node_of (S_tuple e es)) (st\<lparr>toks := rest\<rparr>)"
    by (simp add: parsePrefixExpr_def paren_expr_def run e parses_list [OF assms(2)])
qed

text \<open>The elements of an array behind the first one.\<close>

lemma between_comma_Cons: "between_comma sh (x # xs) = sh x @ concat (map (\<lambda>y. comma # sh y) xs)"
  by (induction xs arbitrary: x) simp_all

lemma parses_elements:
  assumes "parses_all sc es"
  shows "while_p (element_step (parser_of sc)) acc
      (st\<lparr>toks := toks_of (concat (map (\<lambda>y. comma # show_expr y) es)) @ (T_punct P_r_bracket, s) # rest\<rparr>) =
    Gives (acc @ map node_of es) (st\<lparr>toks := (T_punct P_r_bracket, s) # rest\<rparr>)"
  using assms
proof (induction es arbitrary: acc)
  case Nil
  have steps: "rounds k None (element_step (parser_of sc) a)" for k a
    unfolding element_step_def by (intro ends parser.calls parser.calls_steady) simp_all
  show ?case by (rule while_done [OF steps]) (simp add: element_step_def run)
next
  case (Cons e es)
  have steps: "rounds k None (element_step (parser_of sc) a)" for k a
    unfolding element_step_def by (intro ends parser.calls parser.calls_steady) simp_all
  let ?tail = "toks_of (concat (map (\<lambda>y. comma # show_expr y) es)) @ (T_punct P_r_bracket, s) # rest"
  from Cons.prems have ok: "expr_ok sc e" "parses_all sc es" and
    p: "parses sc e (show_expr e) (level e) (follows (level e))" by (simp_all add: parses_all_def)
  have f: "follows 0 (tag_at 0 ?tail)" by (cases es) simp_all
  obtain y ys where y: "show_expr e = y # ys" "tokenStartsPrefixExpr (lexeme_tag y)"
    using startsD [OF show_expr_start [OF ok(1)]] by auto
  have e: "g_expr (parser_of sc) 0 (st\<lparr>toks := toks_of (show_expr e) @ ?tail\<rparr>) =
      Gives (node_of e) (st\<lparr>toks := ?tail\<rparr>)"
    by (rule parses_operand [OF p _ _ f]) simp_all
  have step: "element_step (parser_of sc) acc
      (st\<lparr>toks := toks_of (concat (map (\<lambda>y. comma # show_expr y) (e # es))) @ (T_punct P_r_bracket, s) # rest\<rparr>) =
    Gives (Inl (acc @ [node_of e])) (st\<lparr>toks := ?tail\<rparr>)"
    using starts_not_close [OF y(2)] e by (simp add: element_step_def run y(1))
  from while_next [of "element_step (parser_of sc)", OF steps step] Cons.IH [OF ok(2), of "acc @ [node_of e]"]
  show ?case by simp
qed

lemma parses_array:
  assumes "parses_all sc (e # es)"
  shows "parses sc (S_array e es) (lex_p P_l_bracket # between_comma show_expr (e # es) @ [lex_p P_r_bracket]) q F"
proof (rule parses_prefix)
  fix st :: pstate and rest
  from assms have ok: "expr_ok sc e" "parses_all sc es" and
    p: "parses sc e (show_expr e) (level e) (follows (level e))" by (simp_all add: parses_all_def)
  let ?tail = "toks_of (concat (map (\<lambda>y. comma # show_expr y) es)) @ (T_punct P_r_bracket, '']'') # rest"
  have f: "follows 0 (tag_at 0 ?tail)" "tag_at 0 ?tail \<noteq> T_punct P_semicolon" by (cases es; simp)+
  obtain y ys where y: "show_expr e = y # ys" "tokenStartsPrefixExpr (lexeme_tag y)"
    using startsD [OF show_expr_start [OF ok(1)]] by auto
  have e: "g_expr (parser_of sc) 0 (st\<lparr>toks := toks_of (show_expr e) @ ?tail\<rparr>) =
      Gives (node_of e) (st\<lparr>toks := ?tail\<rparr>)"
    by (rule parses_operand [OF p _ _ f(1)]) simp_all
  show "parsePrefixExpr sc (parser_of sc)
      (st\<lparr>toks := toks_of (lex_p P_l_bracket # between_comma show_expr (e # es) @ [lex_p P_r_bracket]) @ rest\<rparr>) =
      Gives (node_of (S_array e es)) (st\<lparr>toks := rest\<rparr>)"
    using starts_not_close [OF y(2)] e f(2)
    by (simp add: parsePrefixExpr_def array_expr_def run between_comma_Cons y(1) parses_elements [OF ok(2)])
qed

section \<open>Expressions are read back\<close>

lemma expr_parses: "expr_ok sc e \<Longrightarrow> parses sc e (show_expr e) (level e) (follows (level e))"
proof (induction e)
  case (S_name n)
  then show ?case
    by (simp only: show_expr.simps, intro parses_word) (simp_all add: value_name_def not_follows)
next
  case (S_bool b)
  then show ?case
    by (simp only: show_expr.simps, intro parses_word)
      (simp_all add: not_follows checkKeyword_def keyword_table_def)
next
  case (S_int n)
  then show ?case by (simp add: parses_int)
next
  case (S_binary bop l r)
  then have l: "parses sc l (show_expr l) (level l) (follows (level l))"
    and r: "parses sc r (show_expr r) (level r) (follows (level r))" by simp_all
  show ?case
  proof (cases "bop = Bop_lt")
    case True
    with S_binary.prems show ?thesis
      using parses_binary [where bop = bop, OF parses_parens [OF l, where r = "op_level bop" and F = "\<lambda>_. True"]
          order.refl TrueI parses_at_level [OF r]]
      by simp
  next
    case False
    have "follows (op_level bop) (T_punct (op_punct bop))"
      using False by (cases bop) (simp_all add: follows_def getInfixPrecedence_def)
    from parses_binary [OF parses_at_level [OF l] order.refl this parses_at_level [OF r]] False
    show ?thesis by simp
  qed
next
  case (S_or_else l r)
  then have "parses sc (S_or_else l r)
      (at_level 1 (level l) (show_expr l) @ lex_p P_question_question # at_level 2 (level r) (show_expr r)) 1 (follows 1)"
    by (intro parses_or_else parses_at_level) simp_all
  then show ?case by simp
next
  case (S_array e es)
  then have "parses_all sc (e # es)" by (auto simp: parses_all_def list_all_iff)
  from parses_array [OF this] show ?case
    by (simp only: show_expr.simps level.simps list.map(2) [symmetric] between_comma_map)
qed (auto intro!: parses_prefix_form parses_call parses_method parses_field parses_index parses_slice
    parses_cast parses_unwrap parses_try parses_ternary parses_tuple parses_array parses_at_level
    simp: between_comma_map parses_all_def list_all_iff show_expr_start)

text \<open>C27: round trip of types.  The lexemes of every type of the language that has a spelling of its own,
  with its arguments in angle brackets and every form of function, tuple and array type nested in each other,
  are read back by \<open>parseType\<close> as that type, in front of any token that does not continue a type; no
  token behind the type is consumed.\<close>

theorem type_read_back:
  assumes "ty_ok t" "after_type (tag_at 0 rest)"
  shows "g_type (parser_of sc) (st\<lparr>toks := toks_of (show_ty t) @ rest\<rparr>) = Gives t (st\<lparr>toks := rest\<rparr>)"
  by (rule readsD [OF type_reads [OF assms(1)] assms(2)])

definition some_scope :: scope where
  "some_scope = \<lparr>known_types = [''Point''], known_enums = [''Option''], known_modules = [''io''],
     current_impl_target = None, float_of = (\<lambda>_. None)\<rparr>"

definition cursor :: "ltoken list \<Rightarrow> pstate" where
  "cursor ts = \<lparr>toks = ts, type_bang_used = False, synth_counter = 0\<rparr>"

lemma name_facts:
  "type_name ''Map''" "value_name some_scope ''a''" "value_name some_scope ''f''" "plain_word ''len''"
  by (simp_all add: type_name_def value_name_def plain_word_def some_scope_def isKnownTypeName_def
      is_name_start_def is_name_char_def byte_class checkKeyword_def keyword_table_def primitive_names_def)

lemma small_dec: "dec_nat 0 = ''0''" "dec_nat 1 = ''1''" "dec_nat 2 = ''2''" "dec_nat 3 = ''3''"
  "dec_nat (Suc 0) = ''1''"
  by code_simp+

text \<open>\<open>fn(*Map<u8, [bool; 3]>,) -> i32 >\<close>.\<close>

theorem type_read_back_witness:
  "g_type (parser_of some_scope) (cursor (toks_of
     [Lex_word ''fn'', lex_p P_l_paren, lex_p P_asterisk, Lex_word ''Map'', lex_p P_less_than, Lex_word ''u8'', comma,
      lex_p P_l_bracket, Lex_word ''bool'', lex_p P_semicolon, Lex_number ''3'', lex_p P_r_bracket,
      lex_p P_greater_than, comma, lex_p P_r_paren, lex_p P_arrow, Lex_word ''i32'', lex_p P_greater_than])) =
   Gives (Ty_fn_ptr None [Ty_pointer (Ty_user_defined ''Map'' [Ty_primitive P_u8, Ty_array (Ty_primitive P_boolean) 3])]
     (Ty_primitive P_i32) False) (cursor [(T_punct P_greater_than, ''>'')])"
  using type_read_back [of "Ty_fn_ptr None [Ty_pointer (Ty_user_defined ''Map''
      [Ty_primitive P_u8, Ty_array (Ty_primitive P_boolean) 3])] (Ty_primitive P_i32) False"
      "[(T_punct P_greater_than, ''>'')]" some_scope "cursor []"]
  by (simp add: name_facts cursor_def each_comma_def small_dec)

section \<open>From the text\<close>

text \<open>The tokens of a text up to its end, and the expression at its start.\<close>

definition tokens_of_text :: "string \<Rightarrow> ltoken list option" where
  "tokens_of_text buf =
     (case lexer_run (Suc (length buf)) (lexer_init buf) of
        Inl p \<Rightarrow> None
      | Inr (ts, l) \<Rightarrow> Some (map (\<lambda>t. (tok_tag t, take (loc_end t - loc_start t) (drop (loc_start t) buf)))
          (takeWhile (\<lambda>t. tok_tag t \<noteq> T_eof) ts)))"

definition parse_text :: "scope \<Rightarrow> string \<Rightarrow> node outcome option" where
  "parse_text sc buf = map_option (\<lambda>ts. g_expr (parser_of sc) 0 (cursor ts)) (tokens_of_text buf)"

lemma lexer_run_add:
  "lexer_run n l = Inr (ts, m) \<Longrightarrow> lexer_run k m = Inr (us, m') \<Longrightarrow> lexer_run (n + k) l = Inr (ts @ us, m')"
  by (induction n arbitrary: l ts) (auto split: sum.splits prod.splits)

lemma lexer_run_end:
  assumes "\<not> in_template l" "index l = length (buffer l)"
  shows "\<exists>us. lexer_run k l = Inr (us, l)"
proof (induction k)
  case (Suc k)
  have "skipWhitespace (buffer l) (index l) = length (buffer l)"
    using assms by (simp add: skipWhitespace_def scan_while.simps class_at_def)
  then have "lexer_next l = Inr (\<lparr>tok_tag = T_eof, loc_start = length (buffer l), loc_end = length (buffer l)\<rparr>, l)"
    using assms by (simp add: lexer_next.simps [of l] Let_def emit_def)
  with Suc show ?case by auto
qed simp

lemma spell_nonempty: "lexeme_ok x \<Longrightarrow> spell x \<noteq> []"
  using lexeme_start(1) .

lemma length_print: "\<forall>x \<in> set xs. lexeme_ok x \<Longrightarrow> length xs \<le> length (print_lexemes xs)"
  by (induction xs) (auto simp: print_lexemes_def)

lemma lexeme_tag_not_eof: "lexeme_tag x \<noteq> T_eof"
  by (cases x) (simp_all add: checkKeyword_def keyword_table_def)

lemma place_tokens_text:
  assumes "buf = pre @ print_lexemes xs"
  shows "map (\<lambda>t. (tok_tag t, take (loc_end t - loc_start t) (drop (loc_start t) buf))) (place_tokens (length pre) xs) =
    toks_of xs"
  using assms
proof (induction xs arbitrary: pre)
  case (Cons x xs)
  then have "buf = (pre @ spell x @ '' '') @ print_lexemes xs" by (simp add: print_lexemes_def)
  from Cons.IH [OF this] Cons.prems show ?case by (simp add: print_lexemes_def tok_of_def add.assoc)
qed simp

lemma place_tokens_not_eof: "t \<in> set (place_tokens i xs) \<Longrightarrow> tok_tag t \<noteq> T_eof"
  by (induction xs arbitrary: i) (auto simp: lexeme_tag_not_eof)

lemma tokens_of_printed:
  assumes "\<forall>x \<in> set xs. lexeme_ok x"
  shows "tokens_of_text (print_lexemes xs) = Some (toks_of xs)"
proof -
  let ?buf = "print_lexemes xs"
  let ?eof = "\<lparr>tok_tag = T_eof, loc_start = length ?buf, loc_end = length ?buf\<rparr>"
  let ?stop = "(lexer_init ?buf)\<lparr>index := length ?buf\<rparr>"
  have run: "lexer_run (Suc (length xs)) (lexer_init ?buf) = Inr (place_tokens 0 xs @ [?eof], ?stop)"
    using lexer_run_lexemes [of xs "[]" "lexer_init ?buf" "[]"] assms by (simp add: lexer_init_def)
  obtain us where us: "lexer_run (length ?buf - length xs) ?stop = Inr (us, ?stop)"
    using lexer_run_end [of ?stop] by (auto simp: lexer_init_def)
  have "lexer_run (Suc (length ?buf)) (lexer_init ?buf) = Inr ((place_tokens 0 xs @ [?eof]) @ us, ?stop)"
    using lexer_run_add [OF run us] length_print [OF assms] by simp
  moreover have "takeWhile (\<lambda>t. tok_tag t \<noteq> T_eof) ((place_tokens 0 xs @ [?eof]) @ us) = place_tokens 0 xs"
    using takeWhile_append2 [of "place_tokens 0 xs" "\<lambda>t. tok_tag t \<noteq> T_eof"] place_tokens_not_eof by auto
  ultimately show ?thesis
    using place_tokens_text [of ?buf "[]" xs] by (simp add: tokens_of_text_def)
qed

text \<open>Every printed lexeme is one the scanner knows.\<close>

lemma dec_nat_lexeme: "lexeme_ok (Lex_number (dec_nat n))"
  by (simp add: dec_nat_all_digits)

abbreviation lexemes_ok :: "lexeme list \<Rightarrow> bool" where
  "lexemes_ok xs \<equiv> list_all lexeme_ok xs"

lemma lists_ok [simp]:
  "lexemes_ok (each_comma sh xs) \<longleftrightarrow> list_all (\<lambda>x. lexemes_ok (sh x)) xs"
  "lexemes_ok (between_comma sh xs) \<longleftrightarrow> list_all (\<lambda>x. lexemes_ok (sh x)) xs"
  "lexemes_ok (at_level q p ys) = lexemes_ok ys" "lexemes_ok (parens ys) = lexemes_ok ys"
proof -
  show "lexemes_ok (each_comma sh xs) \<longleftrightarrow> list_all (\<lambda>x. lexemes_ok (sh x)) xs"
    by (induction xs) (simp_all add: each_comma_def)
  show "lexemes_ok (between_comma sh xs) \<longleftrightarrow> list_all (\<lambda>x. lexemes_ok (sh x)) xs"
    by (induction sh xs rule: between_comma.induct) simp_all
qed (simp_all add: at_level_def parens_def)

lemma word_ok: "lexeme_ok (Lex_word ''future'')" "lexeme_ok (Lex_word ''fn'')" "lexeme_ok (Lex_word ''as'')"
  "lexeme_ok (Lex_word ''await'')" "lexeme_ok (Lex_word ''true'')" "lexeme_ok (Lex_word ''false'')"
  by (simp_all add: is_name_start_def is_name_char_def byte_class)

lemma primitive_ok: "p \<noteq> P_integer \<Longrightarrow> p \<noteq> P_float \<Longrightarrow> lexeme_ok (Lex_word (primitive_spelling p))"
  by (cases p) (simp_all add: is_name_start_def is_name_char_def byte_class)

lemmas printed_ok = word_ok primitive_ok dec_nat_lexeme value_name_def plain_word_def type_name_def

lemma show_ty_ok: "ty_ok t \<Longrightarrow> lexemes_ok (show_ty t)"
  by (induction t) (auto simp: printed_ok list_all_iff [of "\<lambda>x. lexemes_ok (f x)" for f] list_all_iff [of id]
      simp del: lexeme_ok.simps(1,2))

lemma show_expr_ok: "expr_ok sc e \<Longrightarrow> lexemes_ok (show_expr e)"
proof (induction e)
  case (S_prefix f e)
  then show ?case by (cases f) (simp_all add: word_ok del: lexeme_ok.simps(1))
qed (auto simp: printed_ok show_ty_ok list_all_iff [of "\<lambda>x. lexemes_ok (f x)" for f] list_all_iff [of "expr_ok sc"]
    simp del: lexeme_ok.simps(1,2))

text \<open>Round trip of expressions.  An expression printed with parentheses only where the
  table of precedences asks for them, in front of any token that does not continue an expression, is read back
  by \<open>parseExpr\<close> as its syntax tree, with the binary operators grouped to the left, the operands of the prefix
  operators as the parser takes them, and the sugar (\<open>-x\<close>, \<open>!x\<close>, \<open>a ?? b\<close>, \<open>x!\<close>, \<open>c ? a : b\<close>) rewritten; the
  tokens behind it are left as they were.\<close>

lemma expr_read_back:
  assumes "expr_ok sc e" "follows 0 (tag_at 0 rest)"
  shows "g_expr (parser_of sc) 0 (st\<lparr>toks := toks_of (show_expr e) @ rest\<rparr>) =
    Gives (node_of e) (st\<lparr>toks := rest\<rparr>)"
  by (rule parses_operand [OF expr_parses [OF assms(1)] _ _ assms(2)]) simp_all

text \<open>\<open>(a + -f(a, 2)) * (a ?? 1) }\<close>.\<close>

lemma expr_read_back_witness:
  "g_expr (parser_of some_scope) 0 (cursor (toks_of
     [lex_p P_l_paren, Lex_word ''a'', lex_p P_plus, lex_p P_minus, Lex_word ''f'', lex_p P_l_paren, Lex_word ''a'',
      comma, Lex_number ''2'', lex_p P_r_paren, lex_p P_r_paren, lex_p P_asterisk, lex_p P_l_paren, Lex_word ''a'',
      lex_p P_question_question, Lex_number ''1'', lex_p P_r_paren, lex_p P_r_brace])) =
   Gives (Binary_expr Bop_mul
     (Binary_expr Bop_add (Identifier ''a'')
       (Binary_expr Bop_sub (Literal (Int_val 0)) (plain_call ''f'' [Identifier ''a'', Literal (Int_val 2)])))
     (plain_call ''unwrap_or'' [Identifier ''a'', Literal (Int_val 1)])) (cursor [(T_punct P_r_brace, ''}'')])"
  using expr_read_back [of some_scope "S_binary Bop_mul
      (S_binary Bop_add (S_name ''a'') (S_prefix F_neg (S_call ''f'' [S_name ''a'', S_int 2])))
      (S_or_else (S_name ''a'') (S_int 1))" "[(T_punct P_r_brace, ''}'')]" "cursor []"]
  by (simp add: name_facts cursor_def small_dec at_level_def parens_def follows_def getInfixPrecedence_def
      tokenStartsPrefixExpr_def)

lemma text_parses:
  assumes "expr_ok sc e"
  shows "parse_text sc (print_lexemes (show_expr e)) = Some (Gives (node_of e) (cursor []))"
proof -
  have "follows 0 (tag_at 0 [])" by (simp add: follows_def getInfixPrecedence_def tokenStartsPrefixExpr_def)
  from parses_operand [OF expr_parses [OF assms] _ _ this, of "cursor []"]
  show ?thesis
    by (simp add: parse_text_def tokens_of_printed show_expr_ok [OF assms, unfolded list_all_iff] cursor_def)
qed



end
