(* ===== verification/Sla_Parse_Types.thy ===== *)
theory Sla_Parse_Types
  imports Sla_Parse_Surface
begin

text \<open>
  What the parser gives: the shape of the types it builds, and how far its operators reach.
\<close>

section \<open>Values of a method\<close>

definition yields :: "('a \<Rightarrow> bool) \<Rightarrow> 'a pm \<Rightarrow> bool" where
  "yields P m \<longleftrightarrow> (\<forall>st x st'. m st = Gives x st' \<longrightarrow> P x)"

lemma yieldsI: "(\<And>st x st'. m st = Gives x st' \<Longrightarrow> P x) \<Longrightarrow> yields P m"
  unfolding yields_def by blast

lemma yieldsD: "yields P m \<Longrightarrow> m st = Gives x st' \<Longrightarrow> P x"
  unfolding yields_def by blast

lemma yields_any: "yields (\<lambda>_. True) m"
  by (simp add: yields_def)

lemma yields_ret: "P x \<Longrightarrow> yields P (ret_p x)"
  by (simp add: yields_def ret_p_def)

lemma yields_fail: "yields P (fail_p e)" "yields P out_p"
  by (simp_all add: yields_def fail_p_def out_p_def)

lemma yields_or_fail: "(\<And>x. v = Some x \<Longrightarrow> P x) \<Longrightarrow> yields P (or_fail e v)"
  by (cases v) (simp_all add: or_fail_def yields_ret yields_fail)

lemma yields_bind:
  assumes "yields Q m" "\<And>x. Q x \<Longrightarrow> yields P (f x)" shows "yields P (bind_p m f)"
  using assms unfolding yields_def bind_p_def by (fastforce split: outcome.splits)

lemma yields_skip: "(\<And>x. yields P (f x)) \<Longrightarrow> yields P (bind_p m f)"
  by (rule yields_bind [OF yields_any])

lemma yields_if: "(b \<Longrightarrow> yields P m) \<Longrightarrow> (\<not> b \<Longrightarrow> yields P n) \<Longrightarrow> yields P (if b then m else n)"
  by simp

lemma yields_while:
  assumes "\<And>s. I s \<Longrightarrow> yields (case_sum I P) (body s)" "I s"
  shows "yields P (while_p body s)"
proof -
  have "I s \<Longrightarrow> yields P (loop_p n body s)" for n
  proof (induction n arbitrary: s)
    case (Suc n)
    have "yields P (case r of Inl s' \<Rightarrow> loop_p n body s' | Inr x \<Rightarrow> ret_p x)" if "case_sum I P r" for r
      using that Suc.IH by (cases r) (simp_all add: yields_ret)
    from yields_bind [OF assms(1) [OF Suc.prems] this] show ?case by simp
  qed (simp add: yields_fail)
  with assms(2) show ?thesis unfolding yields_def while_p_def by blast
qed

section \<open>The types the parser gives\<close>

text \<open>The user-defined types named \<open>Self\<close> are admitted by the first argument: inside a trait \<open>Self\<close> stands for itself.\<close>

fun ty_wf :: "bool \<Rightarrow> ty \<Rightarrow> bool" where
  "ty_wf b Ty_infer = False"
| "ty_wf b (Ty_primitive p) \<longleftrightarrow> p \<noteq> P_integer \<and> p \<noteq> P_float"
| "ty_wf b (Ty_pointer t) = ty_wf b t"
| "ty_wf b (Ty_borrow t) = ty_wf b t"
| "ty_wf b (Ty_array t n) \<longleftrightarrow> ty_wf b t \<and> n < 2 ^ 64"
| "ty_wf b (Ty_tuple ts) \<longleftrightarrow> ts \<noteq> [] \<and> list_all (ty_wf b) ts"
| "ty_wf b (Ty_future t) = ty_wf b t"
| "ty_wf b (Ty_closure ps r) = False"
| "ty_wf b (Ty_fn_ptr abi ps r variadic) \<longleftrightarrow>
     list_all (ty_wf b) ps \<and> ty_wf b r \<and> (variadic \<longrightarrow> ps \<noteq> [] \<and> isCAbiName abi)"
| "ty_wf b (Ty_user_defined n gs) \<longleftrightarrow>
     list_all (ty_wf b) gs \<and> map_of primitive_names n = None \<and> (n = ''Self'' \<longrightarrow> b) \<and> n \<noteq> ''future''"

text \<open>The scope inside a trait, where \<open>Self\<close> is the user-defined type \<open>Self\<close>.\<close>

definition in_trait :: "scope \<Rightarrow> bool" where
  "in_trait sc \<longleftrightarrow> current_impl_target sc = Some (Ty_user_defined ''Self'' [])"

definition scope_wf :: "scope \<Rightarrow> bool" where
  "scope_wf sc = pred_option (ty_wf (in_trait sc)) (current_impl_target sc)"

lemma primitive_names_wf: "map_of primitive_names n = Some p \<Longrightarrow> p \<noteq> P_integer \<and> p \<noteq> P_float"
  by (auto simp: primitive_names_def split: if_splits)

lemma special_names:
  "map_of primitive_names ''Slice'' = None" "map_of primitive_names ''Result'' = None"
  "map_of primitive_names (''__dyn_'' @ n) = None"
  by (simp_all add: primitive_names_def)

lemma yields_some_list: "yields P item \<Longrightarrow> yields (list_all P) (some_list item)"
  unfolding some_list_def some_step_def
  by (rule yields_while [where I = "list_all P"])
    (auto intro!: yields_skip yields_ret elim!: yields_bind)

lemma yields_comma_list: "yields P item \<Longrightarrow> yields (list_all P) (comma_list close item)"
  unfolding comma_list_def comma_step_def
  by (rule yields_while [where I = "list_all P"])
    (auto intro!: yields_skip yields_ret elim!: yields_bind)

lemma parseType_yields:
  assumes g: "yields (ty_wf b) (g_type g)" and sc: "pred_option (ty_wf b) (current_impl_target sc)"
  shows "yields (ty_wf b) (parseType sc g)"
proof -
  have args: "yields (list_all (ty_wf b)) (generic_args g)"
    unfolding generic_args_def
    by (rule yields_bind [OF yields_some_list [OF g]]) (intro yields_skip yields_ret)
  have named: "yields (ty_wf b) (named_type sc g n)" for n
  proof -
    have self: "yields (ty_wf b) (self_type sc)"
      unfolding self_type_def using sc by (intro yields_or_fail) simp
    have optional: "yields (list_all (ty_wf b)) (if c then generic_args g else ret_p [])" for c
      using args by (auto intro: yields_ret)
    have tail: "yields (ty_wf b) (if n = ''future'' then (case gs of [t] \<Rightarrow> ret_p (Ty_future t) | _ \<Rightarrow> fail_p UnexpectedTypeToken)
        else ret_p (Ty_user_defined n gs))"
      if "list_all (ty_wf b) gs" "n \<noteq> ''Self''" "map_of primitive_names n = None" for gs
      using that by (auto intro!: yields_ret yields_fail split: list.splits)
    show ?thesis
    proof (cases "map_of primitive_names n")
      case None
      then show ?thesis
        unfolding named_type_def
        by (auto intro!: self yields_skip yields_bind [OF optional] tail)
    next
      case (Some p)
      then show ?thesis
        using primitive_names_wf [OF Some] by (auto simp: named_type_def intro!: self yields_ret)
    qed
  qed
  have params: "yields (\<lambda>(ps, variadic). list_all (ty_wf b) ps \<and> (variadic \<longrightarrow> ps \<noteq> [] \<and> isCAbiName abi))
      (while_p (fn_param_step g abi) [])" for abi
    unfolding fn_param_step_def
    by (rule yields_while [where I = "list_all (ty_wf b)"])
      (auto intro!: yields_skip yields_ret yields_fail yields_bind [OF g] yields_if)
  have ret: "yields (ty_wf b) (if c then g_type g else ret_p (Ty_primitive P_void_type))" for c
    using g by (auto intro: yields_ret)
  have fn: "yields (ty_wf b) (parseFunctionType g abi)" for abi
    unfolding parseFunctionType_def
    by (rule yields_skip, rule yields_bind [OF params], clarify, rule yields_skip, rule yields_skip,
        rule yields_bind [OF ret], rule yields_ret) simp
  have len: "yields (\<lambda>n. n < 2 ^ 64) (or_fail InvalidCharacter (parse_uint (2 ^ 64) 10 s))" for s
    by (rule yields_or_fail) (auto simp: parse_uint_def split: if_splits option.splits)
  have array: "yields (ty_wf b) (array_type g)"
    unfolding array_type_def
    by (rule yields_bind [OF g], rule yields_skip, rule yields_if, rule yields_skip, rule yields_bind [OF len])
      (auto intro!: yields_skip yields_ret simp: special_names)
  have paren: "yields (ty_wf b) (paren_type g)"
    unfolding paren_type_def
    by (rule yields_bind [OF g], rule yields_skip, rule yields_if, rule yields_bind [OF yields_comma_list [OF g]])
      (auto intro!: yields_skip yields_ret)
  have "yields (ty_wf b) (parseTypeAtom sc g)"
    unfolding parseTypeAtom_def
    by (intro yields_if yields_fail named fn array paren
        yields_skip [of _ "\<lambda>t. bind_p p_lexeme (f t)" for f] yields_skip [of _ "\<lambda>n. bind_p p_advance (f n)" for f]
        yields_skip [of _ _ p_advance] yields_skip [of _ _ parseOptionalExternAbi] yields_skip [of _ _ "p_expect x" for x]
        yields_skip [of _ _ "p_take x" for x] yields_bind [OF g] yields_ret) (simp_all add: primitive_names_def)
  then show ?thesis
    unfolding parseType_def
    by (rule yields_bind) (auto intro!: yields_skip yields_ret simp: special_names)
qed

lemma type_at_yields:
  assumes "pred_option (ty_wf b) (current_impl_target sc)"
  shows "yields (ty_wf b) (type_at sc n)"
proof (induction n)
  case 0
  show ?case by (simp add: yields_def out_p_def)
next
  case (Suc n)
  show ?case unfolding knot by (rule parseType_yields) (simp_all add: grammar_at_sel Suc assms)
qed

lemma parser_type_yields:
  "pred_option (ty_wf b) (current_impl_target sc) \<Longrightarrow> g_type (parser_of sc) st = Gives t st' \<Longrightarrow> ty_wf b t"
  using yieldsD [OF type_at_yields] by (auto simp: parser_of_def)

text \<open>The scopes the parser of files makes: outside traits and implementations, inside a trait, and inside an
  implementation for a type that was read outside.\<close>

lemma scopes_wf:
  assumes "current_impl_target sc = None"
  shows "scope_wf sc" "scope_wf (sc\<lparr>current_impl_target := Some (Ty_user_defined ''Self'' [])\<rparr>)"
    and "g_type (parser_of sc) st = Gives t st' \<Longrightarrow> scope_wf (sc\<lparr>current_impl_target := Some t\<rparr>)"
proof -
  show "scope_wf sc" "scope_wf (sc\<lparr>current_impl_target := Some (Ty_user_defined ''Self'' [])\<rparr>)"
    using assms by (simp_all add: scope_wf_def in_trait_def primitive_names_def)
  assume "g_type (parser_of sc) st = Gives t st'"
  with assms have "ty_wf False t" by (intro parser_type_yields) simp_all
  moreover from this have "t \<noteq> Ty_user_defined ''Self'' []" by auto
  ultimately show "scope_wf (sc\<lparr>current_impl_target := Some t\<rparr>)" by (simp add: scope_wf_def in_trait_def)
qed

text \<open>C28: the types of the parser.  In every scope that is well formed, as those of \<open>scopes_wf\<close> are, every type the
  parser gives is well formed: it is neither an inferred nor a closure type nor the type of a literal, tuples have an
  element, lengths of arrays fit 64 bits, only functions of the C ABI with a parameter are variadic, and no
  user-defined type has the name of a primitive type, of \<open>future\<close> or, outside traits, of \<open>Self\<close>.\<close>

theorem parsed_types_wf:
  assumes "scope_wf sc" "g_type (parser_of sc) st = Gives t st'"
  shows "ty_wf (in_trait sc) t"
  using assms parser_type_yields by (auto simp: scope_wf_def)

text \<open>\<open>&[u8; 3]\<close> outside and \<open>&Self\<close> inside a trait.\<close>

definition trait_scope :: scope where
  "trait_scope = some_scope\<lparr>current_impl_target := Some (Ty_user_defined ''Self'' [])\<rparr>"

theorem parsed_types_wf_witness:
  "g_type (parser_of some_scope) (cursor [(T_punct P_ampersand, ''&''), (T_punct P_l_bracket, ''[''),
     (T_identifier, ''u8''), (T_punct P_semicolon, '';''), (T_int_literal, ''3''), (T_punct P_r_bracket, '']'')]) =
     Gives (Ty_borrow (Ty_array (Ty_primitive P_u8) 3)) (cursor []) \<and>
   ty_wf False (Ty_borrow (Ty_array (Ty_primitive P_u8) 3)) \<and>
   g_type (parser_of trait_scope) (cursor [(T_punct P_ampersand, ''&''), (T_identifier, ''Self'')]) =
     Gives (Ty_borrow (Ty_user_defined ''Self'' [])) (cursor []) \<and>
   ty_wf True (Ty_borrow (Ty_user_defined ''Self'' []))"
proof -
  let ?st = "cursor [(T_punct P_ampersand, ''&''), (T_punct P_l_bracket, ''[''),
     (T_identifier, ''u8''), (T_punct P_semicolon, '';''), (T_int_literal, ''3''), (T_punct P_r_bracket, '']'')]"
  have p: "g_type (parser_of some_scope) ?st = Gives (Ty_borrow (Ty_array (Ty_primitive P_u8) 3)) (cursor [])"
    using readsD [OF type_reads, of "Ty_borrow (Ty_array (Ty_primitive P_u8) 3)" "[]" some_scope "cursor []"]
    by (simp add: cursor_def small_dec checkKeyword_def keyword_table_def)
  have none: "current_impl_target some_scope = None" by (simp add: some_scope_def)
  have out: "\<not> in_trait some_scope" by (simp add: in_trait_def none)
  have ins: "in_trait trait_scope" by (simp add: in_trait_def trait_scope_def)
  have "g_type (parser_of trait_scope) (cursor [(T_identifier, ''Self'')]) = Gives (Ty_user_defined ''Self'' []) (cursor [])"
    by (subst parser_methods(5)) (simp add: parseType_def parseTypeAtom_def named_type_def self_type_def
      trait_scope_def or_fail_def run cursor_def)
  then have q: "g_type (parser_of trait_scope) (cursor [(T_punct P_ampersand, ''&''), (T_identifier, ''Self'')]) =
     Gives (Ty_borrow (Ty_user_defined ''Self'' [])) (cursor [])"
    by (subst parser_methods(5)) (simp add: parseType_def parseTypeAtom_def run cursor_def)
  from p q parsed_types_wf [OF scopes_wf(1) [OF none] p]
    parsed_types_wf [OF scopes_wf(2) [OF none, folded trait_scope_def] q] out ins
  show ?thesis by simp
qed

section \<open>How far the operators reach\<close>

text \<open>The reach of the operators.  Of the prefix operators only \<open>-\<close> and \<open>!\<close> bind tighter than \<open>+\<close>;
  \<open>&\<close>, \<open>^\<close>, \<open>*\<close> and \<open>await\<close> take the whole sum as their operand, and a \<open>?\<close> behind a sum tries the sum,
  not its last operand.\<close>

lemma operators_reach:
  assumes "value_name sc a" "value_name sc b"
  shows "parse_text sc (print_lexemes [prefix_lexeme f, Lex_word a, lex_p P_plus, Lex_word b]) =
      Some (Gives (if f = F_neg \<or> f = F_not then Binary_expr Bop_add (prefix_node f (Identifier a)) (Identifier b)
                   else prefix_node f (Binary_expr Bop_add (Identifier a) (Identifier b))) (cursor [])) \<and>
    parse_text sc (print_lexemes [Lex_word a, lex_p P_plus, Lex_word b, lex_p P_question_mark]) =
      Some (Gives (Try_expr (Binary_expr Bop_add (Identifier a) (Identifier b))) (cursor []))"
proof -
  have sum: "expr_ok sc (S_binary Bop_add (S_name a) (S_name b))" using assms by simp
  have "parse_text sc (print_lexemes [prefix_lexeme f, Lex_word a, lex_p P_plus, Lex_word b]) =
      Some (Gives (if f = F_neg \<or> f = F_not then Binary_expr Bop_add (prefix_node f (Identifier a)) (Identifier b)
                   else prefix_node f (Binary_expr Bop_add (Identifier a) (Identifier b))) (cursor []))"
    using text_parses [of sc "S_prefix f (S_binary Bop_add (S_name a) (S_name b))"]
      text_parses [of sc "S_binary Bop_add (S_prefix f (S_name a)) (S_name b)"] assms
    by (cases f) (simp_all add: at_level_def)
  moreover have "parse_text sc (print_lexemes [Lex_word a, lex_p P_plus, Lex_word b, lex_p P_question_mark]) =
      Some (Gives (Try_expr (Binary_expr Bop_add (Identifier a) (Identifier b))) (cursor []))"
    using text_parses [of sc "S_try (S_binary Bop_add (S_name a) (S_name b))"] assms by (simp add: at_level_def)
  ultimately show ?thesis ..
qed

lemma operators_reach_witness:
  "parse_text some_scope ''* a + f '' = Some (Gives (Deref_expr (Binary_expr Bop_add (Identifier ''a'') (Identifier ''f''))) (cursor [])) \<and>
   parse_text some_scope ''a + f ? '' = Some (Gives (Try_expr (Binary_expr Bop_add (Identifier ''a'') (Identifier ''f''))) (cursor []))"
  using operators_reach [of some_scope "''a''" "''f''" F_deref] by (simp add: name_facts print_lexemes_def)

lemma while_fails:
  assumes "\<And>k s. rounds k None (body s)" "body s st = Fails e st'"
  shows "while_p body s st = Fails e st'"
  by (subst while_unfold [OF assms(1)]) (simp add: bind_p_def assms(2))

lemma type_rejected:
  assumes "type_name b" "tag_at 0 rest = T_punct P_greater_than"
  shows "\<exists>st'. g_type (parser_of sc) (st\<lparr>toks := toks_of [lex_p P_l_paren, Lex_word b] @ rest\<rparr>) = Fails SyntaxError st'"
proof -
  have "g_type (parser_of sc) (st\<lparr>toks := toks_of (show_ty (Ty_user_defined b [])) @ rest\<rparr>) =
      Gives (Ty_user_defined b []) (st\<lparr>toks := rest\<rparr>)"
    by (rule readsD [OF type_reads]) (use assms in simp_all)
  with assms(2) show ?thesis
    by (subst parser_methods(5)) (simp add: parseType_def parseTypeAtom_def paren_type_def run)
qed

text \<open>A comparison that is rejected.  \<open>(a) < (b > (c || d))\<close> is a syntax error, since the lookahead behind
  a name and \<open><\<close> takes \<open>< (b >\<close> for the types of a generic call; with \<open>>\<close> in place of \<open><\<close> the comparison is read.\<close>

lemma comparison_rejected:
  assumes "value_name sc a" "value_name sc b" "type_name b" "value_name sc c" "value_name sc d"
  shows "(\<exists>st. parse_text sc (print_lexemes (show_expr (S_binary Bop_lt (S_name a)
        (S_binary Bop_gt (S_name b) (S_binary Bop_logical_or (S_name c) (S_name d)))))) = Some (Fails SyntaxError st)) \<and>
    parse_text sc (print_lexemes (show_expr (S_binary Bop_gt (S_name a)
        (S_binary Bop_gt (S_name b) (S_binary Bop_logical_or (S_name c) (S_name d)))))) =
      Some (Gives (Binary_expr Bop_gt (Identifier a) (Binary_expr Bop_gt (Identifier b)
        (Binary_expr Bop_logical_or (Identifier c) (Identifier d)))) (cursor []))"
proof
  let ?e = "S_binary Bop_gt (S_name b) (S_binary Bop_logical_or (S_name c) (S_name d))"
  let ?rest = "toks_of [lex_p P_greater_than, lex_p P_l_paren, Lex_word c, lex_p P_pipe_pipe, Lex_word d,
    lex_p P_r_paren, lex_p P_r_paren]"
  let ?tail = "toks_of [lex_p P_less_than, lex_p P_l_paren, Lex_word b] @ ?rest"
  have steps: "rounds k None (some_step (g_type (parser_of sc)) s)" for k s
    unfolding some_step_def by (intro ends parser.calls)
  obtain st where "g_type (parser_of sc) ((cursor [])\<lparr>toks := toks_of [lex_p P_l_paren, Lex_word b] @ ?rest\<rparr>) =
      Fails SyntaxError st"
    using type_rejected [OF assms(3), of ?rest] by auto
  then have "some_step (g_type (parser_of sc)) [] ((cursor [])\<lparr>toks := toks_of [lex_p P_l_paren, Lex_word b] @ ?rest\<rparr>) =
      Fails SyntaxError st"
    by (simp add: some_step_def bind_p_def)
  from while_fails [where body = "some_step (g_type (parser_of sc))", OF steps this]
  have "generic_args (parser_of sc) (cursor (toks_of [lex_p P_l_paren, Lex_word b] @ ?rest)) = Fails SyntaxError st"
    by (simp add: generic_args_def some_list_def bind_p_def cursor_def)
  moreover have "looksLikeGenericFunctionCallTail (toks_of [lex_p P_l_paren, Lex_word b] @ ?rest)"
    "\<not> looksLikeGenericStructLiteralTail (toks_of [lex_p P_l_paren, Lex_word b] @ ?rest)"
    using assms(3) by (auto simp: looksLikeGenericFunctionCallTail_def looksLikeGenericStructLiteralTail_def
        genericLookaheadBoundary_def type_name_def)
  ultimately have "climb (parser_of sc) 0 (Identifier a) (cursor ?tail) = Fails SyntaxError st"
    by (simp add: climb_def climb_rest_def run infix_level_def parseInfixExpr_def binary_op_of_def generic_or_binary_def cursor_def
        parseGenericCallTail_def)
  from while_fails [where body = "climb (parser_of sc) 0", OF parser.climb_rounds this]
  have loop: "while_p (climb (parser_of sc) 0) (Identifier a) (cursor ?tail) = Fails SyntaxError st" .
  have "parses sc (S_name a) (parens [Lex_word a]) 0 (\<lambda>_. True)"
    using parses_parens [OF expr_parses, of sc "S_name a"] assms(1) by simp
  from parsesD [OF this, where rest = ?tail and p = 0 and st = "cursor []"] loop
  have "g_expr (parser_of sc) 0 (cursor (toks_of (parens [Lex_word a]) @ ?tail)) = Fails SyntaxError st"
    by (simp add: cursor_def)
  moreover have "show_expr (S_binary Bop_lt (S_name a) ?e) = parens [Lex_word a] @
      [lex_p P_less_than, lex_p P_l_paren, Lex_word b, lex_p P_greater_than, lex_p P_l_paren, Lex_word c,
       lex_p P_pipe_pipe, Lex_word d, lex_p P_r_paren, lex_p P_r_paren]"
    by (simp add: at_level_def parens_def)
  moreover from this have "\<forall>x \<in> set (show_expr (S_binary Bop_lt (S_name a) ?e)). lexeme_ok x"
    using assms by (auto simp: value_name_def parens_def)
  ultimately show "\<exists>st. parse_text sc (print_lexemes (show_expr (S_binary Bop_lt (S_name a) ?e))) =
      Some (Fails SyntaxError st)"
    by (simp add: parse_text_def tokens_of_printed)
  show "parse_text sc (print_lexemes (show_expr (S_binary Bop_gt (S_name a) ?e))) =
      Some (Gives (Binary_expr Bop_gt (Identifier a) (Binary_expr Bop_gt (Identifier b)
        (Binary_expr Bop_logical_or (Identifier c) (Identifier d)))) (cursor []))"
    using text_parses [of sc "S_binary Bop_gt (S_name a) ?e"] assms by simp
qed

lemma comparison_rejected_witness:
  "\<exists>st. parse_text some_scope ''( a ) < ( b > ( f || a ) ) '' = Some (Fails SyntaxError st)"
proof -
  have b: "value_name some_scope ''b''" "type_name ''b''"
    by (simp_all add: type_name_def value_name_def some_scope_def isKnownTypeName_def
      is_name_start_def is_name_char_def byte_class checkKeyword_def keyword_table_def primitive_names_def)
  show ?thesis
    using comparison_rejected [of some_scope "''a''" "''b''" "''f''" "''a''"] b name_facts(2,3)
    by (simp add: at_level_def parens_def print_lexemes_def)
qed

text \<open>Macro calls are rejected.  \<open>name!(...)\<close>, which \<open>parseInfixExpr\<close> has an arm for, is refused
  whatever the arguments are: \<open>parseExpr\<close> takes the \<open>!\<close> behind the name for the unwrapping of a value first, and what it
  makes of it cannot be called.  Only \<open>asm!\<close>, which is no such name, is read before that.\<close>

lemma macro_calls_rejected:
  assumes "value_name sc a" "p < 10"
  shows "g_expr (parser_of sc) p (st\<lparr>toks := toks_of [Lex_word a, lex_p P_bang, lex_p P_l_paren] @ rest\<rparr>) =
    Fails InvalidCallTarget (st\<lparr>toks := rest\<rparr>)"
proof -
  have "parses sc (S_name a) [Lex_word a] 10 (follows 10)"
    using expr_parses [of sc "S_name a"] assms(1) by simp
  then have "parses sc (S_unwrap (S_name a)) ([Lex_word a] @ lex_p P_bang # []) 10 (\<lambda>t. t = T_punct P_l_paren)"
    by (rule parses_infix) (simp_all add: climb_def climb_rest_def run follows_def getInfixPrecedence_def)
  from parsesD [OF this, where rest = "tok_of (lex_p P_l_paren) # rest" and p = p and st = st] assms(2)
  have "g_expr (parser_of sc) p (st\<lparr>toks := toks_of [Lex_word a, lex_p P_bang, lex_p P_l_paren] @ rest\<rparr>) =
      while_p (climb (parser_of sc) p) (plain_call ''unwrap'' [Identifier a])
        (st\<lparr>toks := tok_of (lex_p P_l_paren) # rest\<rparr>)"
    by simp
  also have "climb (parser_of sc) p (plain_call ''unwrap'' [Identifier a]) (st\<lparr>toks := tok_of (lex_p P_l_paren) # rest\<rparr>) =
      Fails InvalidCallTarget (st\<lparr>toks := rest\<rparr>)"
    using assms(2)
    by (subst climb_infix [where t = "T_punct P_l_paren"])
      (simp_all add: getInfixPrecedence_def parseInfixExpr_def binary_op_of_def call_tail_def run plain_call_def)
  from while_fails [where body = "climb (parser_of sc) p", OF parser.climb_rounds this]
  have "while_p (climb (parser_of sc) p) (plain_call ''unwrap'' [Identifier a])
      (st\<lparr>toks := tok_of (lex_p P_l_paren) # rest\<rparr>) = Fails InvalidCallTarget (st\<lparr>toks := rest\<rparr>)" .
  finally show ?thesis .
qed

lemma macro_calls_rejected_witness:
  "g_expr (parser_of some_scope) 0 (cursor (toks_of [Lex_word ''f'', lex_p P_bang, lex_p P_l_paren, Lex_number ''1'',
     lex_p P_r_paren])) = Fails InvalidCallTarget (cursor (toks_of [Lex_number ''1'', lex_p P_r_paren]))"
  using macro_calls_rejected [where sc = some_scope and a = "''f''" and p = 0 and st = "cursor []"
      and rest = "toks_of [Lex_number ''1'', lex_p P_r_paren]"]
  by (simp add: name_facts cursor_def)

end
