(* ===== verification/Sla_Parse_Lookahead.thy ===== *)
theory Sla_Parse_Lookahead
  imports Sla_Parse_Types
begin

text \<open>
  How far the parser looks ahead before it decides that a name in front of \<open><\<close> is a generic call: to the end of the
  file, so that the meaning of an argument list depends on what comes behind it.
\<close>

section \<open>The lookahead\<close>

text \<open>The brackets that the lookahead counts; it skips what is not one of them once it is inside the first.\<close>

definition angle :: "ltoken \<Rightarrow> bool" where
  "angle t \<longleftrightarrow> fst t \<in> T_punct ` {P_less_than, P_greater_than, P_greater_greater}"

lemma tail_skips: "\<forall>t \<in> set mid. \<not> angle t \<Longrightarrow> n \<noteq> 1 \<Longrightarrow> generic_tail after n (mid @ rest) = generic_tail after n rest"
  by (induction mid) (auto simp: angle_def)

lemma tail_ends: "\<forall>t \<in> set mid. \<not> angle t \<Longrightarrow> n \<noteq> 1 \<Longrightarrow> \<not> generic_tail after n mid"
  using tail_skips [of mid n after "[]"] by simp

section \<open>Comparisons of names\<close>

abbreviation lt :: "string \<Rightarrow> string \<Rightarrow> node" where
  "lt a b \<equiv> Binary_expr Bop_lt (Identifier a) (Identifier b)"

lemma name_parses: "value_name sc a \<Longrightarrow> \<not> F (T_punct P_double_colon) \<Longrightarrow> parses sc (S_name a) [Lex_word a] q F"
  by (rule parses_word) (auto simp: value_name_def)

text \<open>A comparison is read where no lookahead finds a closing bracket.\<close>

lemma lt_reads:
  assumes "value_name sc a" "value_name sc b" "follows 0 (tag_at 0 rest)"
    and "\<And>after. \<not> generic_tail after 1 (toks_of [Lex_word b] @ rest)"
  shows "g_expr (parser_of sc) 0 (st\<lparr>toks := toks_of [Lex_word a, lex_p P_less_than, Lex_word b] @ rest\<rparr>) =
    Gives (lt a b) (st\<lparr>toks := rest\<rparr>)"
proof -
  have right: "g_expr (parser_of sc) 5 (st\<lparr>toks := toks_of [Lex_word b] @ rest\<rparr>) = Gives (Identifier b) (st\<lparr>toks := rest\<rparr>)"
    using parses_operand [OF name_parses [OF assms(2), of "follows 6" 6, OF not_follows], of 5 rest st] follows_mono [OF assms(3), of 5] by simp
  have "climb (parser_of sc) 0 (Identifier a) (st\<lparr>toks := toks_of [lex_p P_less_than, Lex_word b] @ rest\<rparr>) =
      Gives (Inl (lt a b)) (st\<lparr>toks := rest\<rparr>)"
    using right assms(4) by (simp add: climb_def climb_rest_def run infix_level_def parseInfixExpr_def
      binary_op_of_def generic_or_binary_def getInfixPrecedence_def looksLikeGenericFunctionCallTail_def
      looksLikeGenericStructLiteralTail_def looksLikeGenericFunctionRefTail_def del: generic_tail.simps)
  from while_next [where body = "climb (parser_of sc) 0", OF parser.climb_rounds this] while_stop [of 0 "st\<lparr>toks := rest\<rparr>"] assms(3)
  have "while_p (climb (parser_of sc) 0) (Identifier a) (st\<lparr>toks := toks_of [lex_p P_less_than, Lex_word b] @ rest\<rparr>) =
      Gives (lt a b) (st\<lparr>toks := rest\<rparr>)" by simp
  with parsesD [OF name_parses [OF assms(1), of "\<lambda>t. t \<noteq> T_punct P_double_colon"], of
      "toks_of [lex_p P_less_than, Lex_word b] @ rest" 0 1 st]
  show ?thesis by simp
qed

text \<open>Where one does, the operands are read as types.\<close>

lemma type_cut_off:
  assumes "type_name c" "type_name d" "tag_at 0 rest = T_punct P_r_paren"
  shows "\<exists>st'. g_type (parser_of sc) (st\<lparr>toks := toks_of [Lex_word c, lex_p P_less_than, Lex_word d] @ rest\<rparr>) = Fails SyntaxError st'"
proof -
  have steps: "rounds k None (some_step (g_type (parser_of sc)) s)" for k s
    unfolding some_step_def by (intro ends parser.calls)
  have "g_type (parser_of sc) (st\<lparr>toks := toks_of (show_ty (Ty_user_defined d [])) @ rest\<rparr>) =
      Gives (Ty_user_defined d []) (st\<lparr>toks := rest\<rparr>)"
    by (rule readsD [OF type_reads]) (use assms in simp_all)
  with assms(3) have "some_step (g_type (parser_of sc)) [] (st\<lparr>toks := toks_of [Lex_word d] @ rest\<rparr>) =
      Gives (Inr [Ty_user_defined d []]) (st\<lparr>toks := rest\<rparr>)"
    by (simp add: some_step_def run)
  from while_done [where body = "some_step (g_type (parser_of sc))", OF steps this] assms(3)
  have "\<exists>st'. generic_args (parser_of sc) (st\<lparr>toks := toks_of [Lex_word d] @ rest\<rparr>) = Fails SyntaxError st'"
    by (cases rest) (auto simp: generic_args_def some_list_def run expectGenericClose_def)
  moreover have "c \<noteq> ''Self''" "map_of primitive_names c = None" "lexeme_tag (Lex_word c) = T_identifier"
    using assms(1) by (auto simp: type_name_def)
  ultimately show ?thesis
    by (subst parser_methods(5)) (auto simp: parseType_def parseTypeAtom_def named_type_def run)
qed

lemma lt_breaks:
  assumes "value_name sc a" "type_name b" "type_name c" "type_name d"
    and "tag_at 0 rest = T_punct P_r_paren"
    and "generic_tail (\<lambda>t. t = T_punct P_l_paren) 2 rest" "\<not> generic_tail (\<lambda>t. t = T_punct P_l_brace) 2 rest"
  shows "\<exists>st'. g_expr (parser_of sc) 0 (st\<lparr>toks := toks_of [Lex_word a, lex_p P_less_than, Lex_word b, lex_p P_comma,
    Lex_word c, lex_p P_less_than, Lex_word d] @ rest\<rparr>) = Fails SyntaxError st'"
proof -
  let ?cd = "toks_of [Lex_word c, lex_p P_less_than, Lex_word d] @ rest"
  let ?b = "toks_of [Lex_word b, lex_p P_comma] @ ?cd"
  have steps: "rounds k None (some_step (g_type (parser_of sc)) s)" for k s
    unfolding some_step_def by (intro ends parser.calls)
  obtain st' where st': "g_type (parser_of sc) (st\<lparr>toks := ?cd\<rparr>) = Fails SyntaxError st'"
    using type_cut_off [OF assms(3-5)] by blast
  then have cut: "some_step (g_type (parser_of sc)) [Ty_user_defined b []] (st\<lparr>toks := ?cd\<rparr>) = Fails SyntaxError st'"
    by (simp add: some_step_def bind_p_def)
  have "g_type (parser_of sc) (st\<lparr>toks := toks_of (show_ty (Ty_user_defined b [])) @ toks_of [lex_p P_comma] @ ?cd\<rparr>) =
      Gives (Ty_user_defined b []) (st\<lparr>toks := toks_of [lex_p P_comma] @ ?cd\<rparr>)"
    by (rule readsD [OF type_reads]) (use assms(2) in simp_all)
  then have "some_step (g_type (parser_of sc)) [] (st\<lparr>toks := ?b\<rparr>) = Gives (Inl [Ty_user_defined b []]) (st\<lparr>toks := ?cd\<rparr>)"
    by (simp add: some_step_def run)
  from while_next [where body = "some_step (g_type (parser_of sc))", OF steps this]
    while_fails [where body = "some_step (g_type (parser_of sc))", OF steps cut]
  have "generic_args (parser_of sc) (st\<lparr>toks := ?b\<rparr>) = Fails SyntaxError st'"
    by (simp add: generic_args_def some_list_def bind_p_def)
  moreover have "looksLikeGenericFunctionCallTail ?b" "\<not> looksLikeGenericStructLiteralTail ?b"
    using assms(2-4,6,7) by (auto simp: looksLikeGenericFunctionCallTail_def looksLikeGenericStructLiteralTail_def
        genericLookaheadBoundary_def type_name_def numeral_2_eq_2)
  ultimately have "climb (parser_of sc) 0 (Identifier a) (st\<lparr>toks := toks_of [lex_p P_less_than] @ ?b\<rparr>) = Fails SyntaxError st'"
    by (simp add: climb_def climb_rest_def run infix_level_def parseInfixExpr_def binary_op_of_def generic_or_binary_def
        parseGenericCallTail_def)
  from while_fails [where body = "climb (parser_of sc) 0", OF parser.climb_rounds this]
    parsesD [OF name_parses [OF assms(1), of "\<lambda>t. t \<noteq> T_punct P_double_colon"], of
      "toks_of [lex_p P_less_than] @ ?b" 0 1 st]
  show ?thesis by simp
qed

text \<open>C21: what comes behind an argument list decides how it is read.  The lookahead of generic calls tests the tokens
  that end an expression only at its outermost bracket.  One comparison \<open>a < b)\<close> is read in front of any tokens.  Of
  \<open>a < b, c < d)\<close> the two comparisons are read when no angle bracket follows; but when, behind any tokens without one,
  \<open>>>\<close> and \<open>(\<close> follow, in the same function or a later one, the argument list is a syntax error.  This holds for
  all names that \<open>value_name\<close> and \<open>type_name\<close> admit: neither keywords nor literals nor names of types of the scope or of
  primitive types.\<close>

theorem later_tokens_break_call:
  assumes "value_name sc a" "value_name sc b" "value_name sc c" "value_name sc d" "type_name b" "type_name c" "type_name d"
    and "\<forall>t \<in> set mid. \<not> angle t"
  shows "paren_args (parser_of sc) (st\<lparr>toks := toks_of [Lex_word a, lex_p P_less_than, Lex_word b, lex_p P_r_paren] @ rest\<rparr>) =
      Gives [lt a b] (st\<lparr>toks := rest\<rparr>) \<and>
    paren_args (parser_of sc) (st\<lparr>toks := toks_of [Lex_word a, lex_p P_less_than, Lex_word b, lex_p P_comma,
        Lex_word c, lex_p P_less_than, Lex_word d, lex_p P_r_paren] @ mid\<rparr>) =
      Gives [lt a b, lt c d] (st\<lparr>toks := mid\<rparr>) \<and>
    (\<exists>st'. paren_args (parser_of sc) (st\<lparr>toks := toks_of [Lex_word a, lex_p P_less_than, Lex_word b, lex_p P_comma,
        Lex_word c, lex_p P_less_than, Lex_word d, lex_p P_r_paren] @ mid @
        toks_of [lex_p P_greater_greater, lex_p P_l_paren] @ rest\<rparr>) = Fails SyntaxError st')"
proof (intro conjI)
  let ?step = "comma_step (T_punct P_r_paren) (g_expr (parser_of sc) 0)"
  have steps: "rounds k None (?step s)" for k s
    unfolding comma_step_def by (intro ends parser.calls)
  have word: "lexeme_tag (Lex_word x) = T_identifier" if "value_name sc x" for x
    using that by (auto simp: value_name_def)
  have last: "?step xs (st\<lparr>toks := toks_of [Lex_word x, lex_p P_less_than, Lex_word y, lex_p P_r_paren] @ r\<rparr>) =
      Gives (Inr (xs @ [lt x y])) (st\<lparr>toks := toks_of [lex_p P_r_paren] @ r\<rparr>)"
    if "value_name sc x" "value_name sc y" for x y xs r
  proof -
    have "\<not> generic_tail after 1 (toks_of [Lex_word y] @ toks_of [lex_p P_r_paren] @ r)" for after
      using word [OF that(2)] by (simp add: genericLookaheadBoundary_def)
    from lt_reads [OF that _ this, where st = st] word [OF that(1)] show ?thesis
      by (simp add: comma_step_def run)
  qed
  show "paren_args (parser_of sc) (st\<lparr>toks := toks_of [Lex_word a, lex_p P_less_than, Lex_word b, lex_p P_r_paren] @ rest\<rparr>) =
      Gives [lt a b] (st\<lparr>toks := rest\<rparr>)"
    using while_done [where body = ?step, OF steps last [OF assms(1,2), of "[]" rest]]
    by (simp add: paren_args_def comma_list_def run)
  let ?cd = "[Lex_word c, lex_p P_less_than, Lex_word d, lex_p P_r_paren]"
  let ?ab = "[Lex_word a, lex_p P_less_than, Lex_word b, lex_p P_comma]"
  have "\<not> generic_tail after 1 (toks_of [Lex_word b] @ toks_of (lex_p P_comma # ?cd) @ mid)" for after
    using tail_ends [OF assms(8), of 2 after] word [OF assms(2)] word [OF assms(3)] word [OF assms(4)]
    by (simp add: genericLookaheadBoundary_def numeral_2_eq_2)
  from lt_reads [OF assms(1,2) _ this, where st = st] word [OF assms(1)]
  have "?step [] (st\<lparr>toks := toks_of (?ab @ ?cd) @ mid\<rparr>) = Gives (Inl [lt a b]) (st\<lparr>toks := toks_of ?cd @ mid\<rparr>)"
    by (simp add: comma_step_def run)
  from while_next [where body = ?step, OF steps this] while_done [where body = ?step, OF steps last [OF assms(3,4), of "[lt a b]" mid]]
  show "paren_args (parser_of sc) (st\<lparr>toks := toks_of [Lex_word a, lex_p P_less_than, Lex_word b, lex_p P_comma,
        Lex_word c, lex_p P_less_than, Lex_word d, lex_p P_r_paren] @ mid\<rparr>) = Gives [lt a b, lt c d] (st\<lparr>toks := mid\<rparr>)"
    by (simp add: paren_args_def comma_list_def run)
  let ?rest = "toks_of [lex_p P_r_paren] @ mid @ toks_of [lex_p P_greater_greater, lex_p P_l_paren] @ rest"
  have "generic_tail after 2 ?rest \<longleftrightarrow> after (T_punct P_l_paren)" for after
    using tail_skips [OF assms(8), of 2 after] by simp
  from lt_breaks [OF assms(1,5-7) _ , of ?rest st] this obtain st' where
    "g_expr (parser_of sc) 0 (st\<lparr>toks := toks_of [Lex_word a, lex_p P_less_than, Lex_word b, lex_p P_comma,
      Lex_word c, lex_p P_less_than, Lex_word d] @ ?rest\<rparr>) = Fails SyntaxError st'" by auto
  with word [OF assms(1)] have "?step [] (st\<lparr>toks := toks_of (?ab @ ?cd) @ mid @
      toks_of [lex_p P_greater_greater, lex_p P_l_paren] @ rest\<rparr>) = Fails SyntaxError st'"
    by (simp add: comma_step_def run)
  from while_fails [where body = ?step, OF steps this]
  show "\<exists>st'. paren_args (parser_of sc) (st\<lparr>toks := toks_of [Lex_word a, lex_p P_less_than, Lex_word b, lex_p P_comma,
        Lex_word c, lex_p P_less_than, Lex_word d, lex_p P_r_paren] @ mid @
        toks_of [lex_p P_greater_greater, lex_p P_l_paren] @ rest\<rparr>) = Fails SyntaxError st'"
    by (auto simp: paren_args_def comma_list_def run)
qed

text \<open>\<open>a < b, f < b)\<close> in front of \<open>; p\<close> and in front of \<open>; p >> (\<close>.\<close>

theorem later_tokens_break_call_witness:
  "paren_args (parser_of some_scope) (cursor (toks_of [Lex_word ''a'', lex_p P_less_than, Lex_word ''b'', lex_p P_comma,
      Lex_word ''f'', lex_p P_less_than, Lex_word ''b'', lex_p P_r_paren, lex_p P_semicolon, Lex_word ''p''])) =
    Gives [lt ''a'' ''b'', lt ''f'' ''b''] (cursor (toks_of [lex_p P_semicolon, Lex_word ''p''])) \<and>
   (\<exists>st'. paren_args (parser_of some_scope) (cursor (toks_of [Lex_word ''a'', lex_p P_less_than, Lex_word ''b'', lex_p P_comma,
      Lex_word ''f'', lex_p P_less_than, Lex_word ''b'', lex_p P_r_paren, lex_p P_semicolon, Lex_word ''p'',
      lex_p P_greater_greater, lex_p P_l_paren])) = Fails SyntaxError st')"
proof -
  have b: "value_name some_scope ''b''" "type_name ''b''" "type_name ''f''"
    by (simp_all add: type_name_def value_name_def some_scope_def isKnownTypeName_def
      is_name_start_def is_name_char_def byte_class checkKeyword_def keyword_table_def primitive_names_def)
  have mid: "\<forall>t \<in> set (toks_of [lex_p P_semicolon, Lex_word ''p'']). \<not> angle t"
    by (simp add: angle_def checkKeyword_def keyword_table_def)
  show ?thesis
    using later_tokens_break_call [OF name_facts(2) b(1) name_facts(3) b(1,2,3,2) mid, of "[]" "cursor []"]
    by (simp add: cursor_def)
qed

end
