(* ===== verification/Sla_Shader_Check.thy ===== *)
theory Sla_Shader_Check
  imports Sla_Shader_Ast Sla_Prelude
begin

text \<open>
  The checker of shader declarations, \<open>checkShaderDecl\<close> of \<open>src/sublanguage_shader.zig\<close>.  The first violated
  rule ends the check: its message, which the source writes to \<open>diag\<close>, is the left value of a sum.
\<close>

section \<open>State\<close>

datatype stage = St_init | St_vertex | St_fragment

datatype entry_kind = Ek_input | Ek_param | Ek_constant | Ek_variable

record shader_entry =
  en_ty :: shader_type
  en_kind :: entry_kind

record checker =
  entries :: "string \<rightharpoonup> shader_entry"
  groups :: "string \<rightharpoonup> shader_global_group"

type_synonym 'a checked = "string + 'a"

definition check_bind :: "'a checked \<Rightarrow> ('a \<Rightarrow> 'b checked) \<Rightarrow> 'b checked" where
  "check_bind m f = (case m of Inl e \<Rightarrow> Inl e | Inr x \<Rightarrow> f x)"

lemma check_bind_simps [simp]: "check_bind (Inl e) f = Inl e" "check_bind (Inr x) f = f x"
  by (simp_all add: check_bind_def)

lemma check_bind_Inr: "check_bind m f = Inr y \<longleftrightarrow> (\<exists>x. m = Inr x \<and> f x = Inr y)"
  by (cases m) (simp_all add: check_bind_def)

definition check_guard :: "bool \<Rightarrow> string \<Rightarrow> unit checked" where
  "check_guard b msg = (if b then Inr () else Inl msg)"

lemma check_guard_Inr [simp]: "check_guard b msg = Inr u \<longleftrightarrow> b"
  by (simp add: check_guard_def)

definition quoted :: "string \<Rightarrow> string" where
  "quoted s = ''`'' @ s @ ''`''"

section \<open>Names\<close>

definition declareName :: "checker \<Rightarrow> string \<Rightarrow> unit checked" where
  "declareName c name =
     (if name = ''clip_position'' \<or> name = ''frag_color'' then
        Inl (''ShaderDuplicateName: '' @ quoted name @ '' is a reserved stage output name'')
      else if entries c name \<noteq> None \<or> groups c name \<noteq> None then
        Inl (''ShaderDuplicateName: '' @ quoted name @ '' is declared more than once in this shader'')
      else Inr ())"

definition resolveWritable :: "checker \<Rightarrow> stage \<Rightarrow> string \<Rightarrow> shader_type checked" where
  "resolveWritable c stage name =
     (if name = ''clip_position'' then
        if stage \<noteq> St_vertex then
          Inl ''ShaderStageViolation: clip_position may only be written in the vertex stage''
        else Inr Sh_vec4
      else if name = ''frag_color'' then
        if stage \<noteq> St_fragment then
          Inl ''ShaderStageViolation: frag_color may only be written in the fragment stage''
        else Inr Sh_vec4
      else case entries c name of
        None \<Rightarrow> Inl (''ShaderUnknownName: '' @ quoted name @ '' is not declared in this shader'')
      | Some e \<Rightarrow>
          (case en_kind e of
             Ek_variable \<Rightarrow> Inr (en_ty e)
           | Ek_param \<Rightarrow> Inl (''ShaderReadOnlyAssign: @param '' @ quoted name @ '' is read-only'')
           | Ek_constant \<Rightarrow> Inl (''ShaderReadOnlyAssign: @const '' @ quoted name @ '' is read-only'')
           | Ek_input \<Rightarrow> Inl (''ShaderReadOnlyAssign: @input '' @ quoted name @ '' is read-only'')))"

definition resolveReadable :: "checker \<Rightarrow> stage \<Rightarrow> string \<Rightarrow> shader_type checked" where
  "resolveReadable c stage name =
     (if name = ''clip_position'' then
        if stage \<noteq> St_vertex then
          Inl ''ShaderStageViolation: clip_position is a vertex-stage output and cannot be read in this stage''
        else Inr Sh_vec4
      else if name = ''frag_color'' then
        if stage \<noteq> St_fragment then
          Inl ''ShaderStageViolation: frag_color is a fragment-stage output and cannot be read in this stage''
        else Inr Sh_vec4
      else if groups c name \<noteq> None then
        Inl (''ShaderUnqualifiedGlobal: @global struct '' @ quoted name @ '' must be accessed as `'' @ name @ ''.<field>`'')
      else case entries c name of
        None \<Rightarrow> Inl (''ShaderUnknownName: '' @ quoted name @ '' is not declared in this shader'')
      | Some e \<Rightarrow>
          if en_kind e = Ek_input \<and> stage \<noteq> St_vertex then
            Inl (''ShaderStageViolation: @input '' @ quoted name @ '' may only be read in the vertex stage'')
          else Inr (en_ty e))"

section \<open>Swizzles\<close>

fun index_of :: "char \<Rightarrow> string \<Rightarrow> nat option" where
  "index_of c [] = None"
| "index_of c (d # ds) = (if c = d then Some 0 else map_option Suc (index_of c ds))"

definition swizzle_set :: "string \<Rightarrow> string" where
  "swizzle_set sw = (if hd sw \<in> set ''rgba'' then ''rgba'' else ''xyzw'')"

text \<open>\<open>seen\<close> are the components the sw has named so far.\<close>

fun swizzle_loop :: "shader_type \<Rightarrow> string \<Rightarrow> bool \<Rightarrow> nat set \<Rightarrow> string \<Rightarrow> unit checked" where
  "swizzle_loop base_ty sw is_lvalue seen [] = Inr ()"
| "swizzle_loop base_ty sw is_lvalue seen (ch # chs) =
     (case index_of ch (swizzle_set sw) of
        None \<Rightarrow> Inl (''ShaderInvalidSwizzle: `.'' @ sw @ ''` mixes or uses unknown swizzle components'')
      | Some idx \<Rightarrow>
          if idx \<ge> components base_ty then
            Inl (''ShaderInvalidSwizzle: component '' @ quoted [ch] @ '' does not exist on '' @ shader_type_name base_ty)
          else if is_lvalue \<and> idx \<in> seen then
            Inl (''ShaderInvalidSwizzle: lvalue swizzle `.'' @ sw @ ''` repeats a component'')
          else swizzle_loop base_ty sw is_lvalue (insert idx seen) chs)"

definition checkSwizzle :: "shader_type \<Rightarrow> string \<Rightarrow> bool \<Rightarrow> shader_type checked" where
  "checkSwizzle base_ty sw is_lvalue =
     (if \<not> isVector base_ty then Inl (''ShaderInvalidSwizzle: cannot swizzle '' @ shader_type_name base_ty)
      else if sw = [] \<or> length sw > 4 then
        Inl (''ShaderInvalidSwizzle: swizzle `.'' @ sw @ ''` must have 1 to 4 components'')
      else
        check_bind (swizzle_loop base_ty sw is_lvalue {} sw) (\<lambda>_.
          case vecOf (length sw) of Some t \<Rightarrow> Inr t | None \<Rightarrow> Inl ''reached unreachable code''))"

section \<open>Expressions\<close>

definition promoteScalars :: "shader_type \<Rightarrow> shader_type \<Rightarrow> shader_type option" where
  "promoteScalars a b =
     (if a = b then Some a
      else if a = Sh_float \<and> (b = Sh_int \<or> b = Sh_uint) then Some Sh_float
      else if b = Sh_float \<and> (a = Sh_int \<or> a = Sh_uint) then Some Sh_float
      else None)"

definition mismatch :: "string \<Rightarrow> string \<Rightarrow> shader_type \<Rightarrow> shader_type \<Rightarrow> 'a checked" where
  "mismatch msg sep lhs rhs = Inl (msg @ shader_type_name lhs @ sep @ shader_type_name rhs)"

definition checkArithmetic :: "shader_type \<Rightarrow> shader_type \<Rightarrow> shader_type checked" where
  "checkArithmetic lhs rhs =
     (if isScalar lhs \<and> isScalar rhs then
        case promoteScalars lhs rhs of
          Some t \<Rightarrow> Inr t
        | None \<Rightarrow> mismatch ''ShaderTypeMismatch: cannot combine '' '' with '' lhs rhs
      else if isVector lhs \<and> rhs = Sh_float then Inr lhs
      else if isVector rhs \<and> lhs = Sh_float then Inr rhs
      else if isVector lhs \<and> isVector rhs \<and> lhs = rhs then Inr lhs
      else if isMatrix lhs \<and> rhs = Sh_float then Inr lhs
      else if isMatrix rhs \<and> lhs = Sh_float then Inr rhs
      else if lhs = Sh_mat4 \<and> rhs = Sh_vec4 then Inr Sh_vec4
      else if lhs = Sh_vec4 \<and> rhs = Sh_mat4 then Inr Sh_vec4
      else if lhs = Sh_mat3 \<and> rhs = Sh_vec3 then Inr Sh_vec3
      else if lhs = Sh_vec3 \<and> rhs = Sh_mat3 then Inr Sh_vec3
      else if isMatrix lhs \<and> lhs = rhs then Inr lhs
      else mismatch ''ShaderDimensionMismatch: cannot combine '' '' with '' lhs rhs)"

definition checkBinary :: "shader_bin_op \<Rightarrow> shader_type \<Rightarrow> shader_type \<Rightarrow> shader_type checked" where
  "checkBinary bop lhs rhs =
     (if bop = Sh_and \<or> bop = Sh_or then
        if lhs = Sh_bool \<and> rhs = Sh_bool then Inr Sh_bool
        else mismatch ''ShaderTypeMismatch: logical operators need bool operands, got '' '' and '' lhs rhs
      else if bop = Sh_eq \<or> bop = Sh_ne then
        if lhs = rhs then Inr Sh_bool
        else if isScalar lhs \<and> isScalar rhs \<and> promoteScalars lhs rhs \<noteq> None then Inr Sh_bool
        else mismatch ''ShaderTypeMismatch: cannot compare '' '' with '' lhs rhs
      else if bop = Sh_lt \<or> bop = Sh_le \<or> bop = Sh_gt \<or> bop = Sh_ge then
        if isScalar lhs \<and> isScalar rhs \<and> lhs \<noteq> Sh_bool \<and> rhs \<noteq> Sh_bool \<and> promoteScalars lhs rhs \<noteq> None then Inr Sh_bool
        else mismatch ''ShaderTypeMismatch: ordered comparison needs numeric scalars, got '' '' and '' lhs rhs
      else if bop = Sh_mod then
        if (lhs = Sh_int \<or> lhs = Sh_uint) \<and> lhs = rhs then Inr lhs
        else mismatch ''ShaderTypeMismatch: % needs matching integer operands, got '' '' and '' lhs rhs
      else checkArithmetic lhs rhs)"

definition checkUnary :: "shader_un_op \<Rightarrow> shader_type \<Rightarrow> shader_type checked" where
  "checkUnary uop inner =
     (case uop of
        Sh_neg \<Rightarrow>
          if isScalar inner \<or> isVector inner \<or> isMatrix inner then Inr inner
          else Inl (''ShaderTypeMismatch: cannot negate '' @ shader_type_name inner)
      | Sh_not \<Rightarrow>
          if inner = Sh_bool then Inr Sh_bool
          else Inl (''ShaderTypeMismatch: logical not needs bool, got '' @ shader_type_name inner))"

fun vector_total :: "shader_type \<Rightarrow> nat \<Rightarrow> shader_type list \<Rightarrow> nat checked" where
  "vector_total target tot [] = Inr tot"
| "vector_total target tot (t # ts) =
     (if isScalar t then vector_total target (tot + 1) ts
      else if isVector t then vector_total target (tot + components t) ts
      else Inl (''ShaderConstructType: cannot build '' @ shader_type_name target @ '' from '' @ shader_type_name t))"

fun matrix_total :: "shader_type \<Rightarrow> nat \<Rightarrow> shader_type list \<Rightarrow> nat checked" where
  "matrix_total target tot [] = Inr tot"
| "matrix_total target tot (t # ts) =
     (if \<not> isScalar t then
        Inl (''ShaderConstructType: cannot build '' @ shader_type_name target @ '' from '' @ shader_type_name t)
      else matrix_total target (tot + 1) ts)"

definition one_scalar :: "shader_type list \<Rightarrow> bool" where
  "one_scalar tys \<longleftrightarrow> length tys = 1 \<and> isScalar (hd tys)"

definition mat_order :: "shader_type \<Rightarrow> nat" where
  "mat_order t = (if t = Sh_mat3 then 3 else 4)"

definition checkConstruct :: "shader_type \<Rightarrow> shader_type list \<Rightarrow> shader_type checked" where
  "checkConstruct target arg_tys =
     (if isVector target then
        check_bind (vector_total target 0 arg_tys) (\<lambda>tot.
          if tot = components target \<or> one_scalar arg_tys then Inr target
          else Inl (''ShaderConstructArity: '' @ shader_type_name target @ '' needs '' @ dec_nat (components target) @
            '' components, got '' @ dec_nat tot))
      else if isMatrix target then
        if one_scalar arg_tys then Inr target
        else if length arg_tys = 1 \<and> hd arg_tys = target then Inr target
        else check_bind (matrix_total target 0 arg_tys) (\<lambda>tot.
          if tot = mat_order target * mat_order target then Inr target
          else Inl (''ShaderConstructArity: '' @ shader_type_name target @ '' needs '' @
            dec_nat (mat_order target * mat_order target) @ '' scalar components, got '' @ dec_nat tot))
      else if isScalar target then
        if one_scalar arg_tys then Inr target
        else Inl (''ShaderConstructArity: '' @ shader_type_name target @ '' construction takes one scalar argument'')
      else Inl (''ShaderInvalidConstruct: '' @ shader_type_name target @ '' cannot be constructed''))"

fun check_seq :: "'a checked list \<Rightarrow> 'a list checked" where
  "check_seq [] = Inr []"
| "check_seq (m # ms) = check_bind m (\<lambda>x. check_bind (check_seq ms) (\<lambda>xs. Inr (x # xs)))"

definition group_of :: "checker \<Rightarrow> shader_expr \<Rightarrow> shader_global_group option" where
  "group_of c base = (case base of Sh_ident name \<Rightarrow> groups c name | _ \<Rightarrow> None)"

definition group_field :: "shader_global_group \<Rightarrow> string \<Rightarrow> shader_type checked" where
  "group_field g f =
     (case find (\<lambda>x. shf_name x = f) (shg_fields g) of
        Some x \<Rightarrow> Inr (shf_ty x)
      | None \<Rightarrow> Inl (''ShaderUnknownMember: @global struct '' @ quoted (shg_name g) @ '' has no field '' @ quoted f))"

primrec checkExpr :: "checker \<Rightarrow> stage \<Rightarrow> shader_expr \<Rightarrow> shader_type checked" where
  "checkExpr c stage (Sh_float_literal v) = Inr Sh_float"
| "checkExpr c stage (Sh_int_literal v) = Inr Sh_int"
| "checkExpr c stage (Sh_bool_literal v) = Inr Sh_bool"
| "checkExpr c stage (Sh_ident name) = resolveReadable c stage name"
| "checkExpr c stage (Sh_member_access base f) =
     (case group_of c base of
        Some g \<Rightarrow> group_field g f
      | None \<Rightarrow> check_bind (checkExpr c stage base) (\<lambda>base_ty. checkSwizzle base_ty f False))"
| "checkExpr c stage (Sh_sample tex uv) =
     check_bind (checkExpr c stage tex) (\<lambda>tex_ty.
       if tex_ty \<noteq> Sh_sampler2d then
         Inl (''ShaderSampleTarget: .get() samples a sampler2D, got '' @ shader_type_name tex_ty)
       else check_bind (checkExpr c stage uv) (\<lambda>uv_ty.
         if uv_ty \<noteq> Sh_vec2 then
           Inl (''ShaderSampleCoord: sampler2D coordinates must be vec2, got '' @ shader_type_name uv_ty)
         else Inr Sh_vec4))"
| "checkExpr c stage (Sh_construct ty args) =
     check_bind (check_seq (map (checkExpr c stage) args)) (checkConstruct ty)"
| "checkExpr c stage (Sh_call name args) =
     Inl (''ShaderUnknownCall: '' @ quoted name @ '' is not a shader builtin in this subset'')"
| "checkExpr c stage (Sh_unary uop e) = check_bind (checkExpr c stage e) (checkUnary uop)"
| "checkExpr c stage (Sh_binary bop l r) =
     check_bind (checkExpr c stage l) (\<lambda>lhs. check_bind (checkExpr c stage r) (checkBinary bop lhs))"

section \<open>Statements and declarations\<close>

definition checkTarget :: "checker \<Rightarrow> stage \<Rightarrow> shader_expr \<Rightarrow> shader_type checked" where
  "checkTarget c stage target =
     (case target of
        Sh_ident name \<Rightarrow> resolveWritable c stage name
      | Sh_member_access (Sh_ident base_name) f \<Rightarrow>
          if groups c base_name \<noteq> None then
            Inl (''ShaderReadOnlyAssign: @global group '' @ quoted base_name @ '' is host-provided and cannot be assigned'')
          else check_bind (resolveWritable c stage base_name) (\<lambda>base_ty. checkSwizzle base_ty f True)
      | _ \<Rightarrow> Inl ''ShaderAssignTarget: only a variable or stage output can be assigned'')"

fun is_int_literal :: "shader_expr \<Rightarrow> bool" where
  "is_int_literal (Sh_int_literal v) = True"
| "is_int_literal _ = False"

primrec checkStmt :: "checker \<Rightarrow> stage \<Rightarrow> shader_stmt \<Rightarrow> unit checked" where
  "checkStmt c stage (Sh_assign target value) =
     check_bind (checkTarget c stage target) (\<lambda>target_ty.
     check_bind (checkExpr c stage value) (\<lambda>value_ty.
       if value_ty \<noteq> target_ty \<and> \<not> (is_int_literal value \<and> target_ty = Sh_float) then
         Inl (''ShaderAssignTypeMismatch: cannot assign '' @ shader_type_name value_ty @ '' to '' @ shader_type_name target_ty)
       else Inr ()))"
| "checkStmt c stage (Sh_if_stmt cond body) =
     check_bind (checkExpr c stage cond) (\<lambda>cond_ty.
       if cond_ty \<noteq> Sh_bool then
         Inl (''ShaderConditionType: an if condition must be bool, got '' @ shader_type_name cond_ty)
       else check_bind (check_seq (map (checkStmt c stage) body)) (\<lambda>_. Inr ()))"

definition checkStage :: "checker \<Rightarrow> stage \<Rightarrow> shader_stmt list \<Rightarrow> unit checked" where
  "checkStage c stage stmts = check_bind (check_seq (map (checkStmt c stage) stmts)) (\<lambda>_. Inr ())"

fun fields_distinct :: "string \<Rightarrow> string set \<Rightarrow> shader_field list \<Rightarrow> unit checked" where
  "fields_distinct group_name seen [] = Inr ()"
| "fields_distinct group_name seen (f # fs) =
     (if shf_name f \<in> seen then
        Inl (''ShaderDuplicateName: field '' @ quoted (shf_name f) @ '' is declared twice in @global struct '' @ quoted group_name)
      else fields_distinct group_name (insert (shf_name f) seen) fs)"

fun declare_groups :: "shader_global_group list \<Rightarrow> checker \<Rightarrow> checker checked" where
  "declare_groups [] c = Inr c"
| "declare_groups (g # gs) c =
     check_bind (declareName c (shg_name g)) (\<lambda>_.
     check_bind (fields_distinct (shg_name g) {} (shg_fields g)) (\<lambda>_.
       declare_groups gs (c\<lparr>groups := (groups c)(shg_name g \<mapsto> g)\<rparr>)))"

definition add_entry :: "string \<Rightarrow> shader_type \<Rightarrow> entry_kind \<Rightarrow> checker \<Rightarrow> checker" where
  "add_entry name ty kind c = c\<lparr>entries := (entries c)(name \<mapsto> \<lparr>en_ty = ty, en_kind = kind\<rparr>)\<rparr>"

fun declare_fields :: "entry_kind \<Rightarrow> shader_field list \<Rightarrow> checker \<Rightarrow> checker checked" where
  "declare_fields kind [] c = Inr c"
| "declare_fields kind (f # fs) c =
     check_bind (declareName c (shf_name f)) (\<lambda>_. declare_fields kind fs (add_entry (shf_name f) (shf_ty f) kind c))"

definition const_matches :: "shader_type \<Rightarrow> shader_literal \<Rightarrow> bool" where
  "const_matches ty value =
     (case value of
        Sh_boolean_lit b \<Rightarrow> ty = Sh_bool
      | Sh_float_lit v \<Rightarrow> ty = Sh_float
      | Sh_int_lit v \<Rightarrow> ty = Sh_int \<or> ty = Sh_uint \<and> v \<ge> 0)"

fun declare_consts :: "shader_const list \<Rightarrow> checker \<Rightarrow> checker checked" where
  "declare_consts [] c = Inr c"
| "declare_consts (k # ks) c =
     check_bind (declareName c (shc_name k)) (\<lambda>_.
     check_bind (check_guard (const_matches (shc_ty k) (shc_value k))
         (''ShaderConstTypeMismatch: @const '' @ quoted (shc_name k) @ '' is declared '' @ shader_type_name (shc_ty k) @
          '' but its literal default has a different type'')) (\<lambda>_.
       declare_consts ks (add_entry (shc_name k) (shc_ty k) Ek_constant c)))"

definition declarations :: "shader_decl \<Rightarrow> checker checked" where
  "declarations d =
     check_bind (declare_groups (shd_globals d) \<lparr>entries = Map.empty, groups = Map.empty\<rparr>) (\<lambda>c.
     check_bind (declare_fields Ek_input (shd_inputs d) c) (\<lambda>c.
     check_bind (declare_fields Ek_param (shd_params d) c) (\<lambda>c.
     check_bind (declare_fields Ek_variable (shd_vars d) c) (declare_consts (shd_consts d)))))"

definition checkShaderDecl :: "shader_decl \<Rightarrow> unit checked" where
  "checkShaderDecl d =
     check_bind (declarations d) (\<lambda>c.
     check_bind (checkStage c St_init (shd_init d)) (\<lambda>_.
     check_bind (checkStage c St_vertex (shd_vertex d)) (\<lambda>_.
       checkStage c St_fragment (shd_fragment d))))"

section \<open>The shaders of the tests\<close>

text \<open>The two declarations of \<open>tests/test_unit_sublanguage_shader.sla\<close>; \<open>1.0\<close> and \<open>0.5\<close> are their bit patterns.\<close>

definition base_shader :: shader_decl where
  "base_shader = \<lparr>shd_name = ''Base'', shd_priority = Some 0,
     shd_globals = [\<lparr>shg_name = ''Camera'', shg_fields = [\<lparr>shf_name = ''view_proj'', shf_ty = Sh_mat4\<rparr>]\<rparr>],
     shd_inputs = [\<lparr>shf_name = ''position'', shf_ty = Sh_vec3\<rparr>, \<lparr>shf_name = ''uv'', shf_ty = Sh_vec2\<rparr>],
     shd_params = [\<lparr>shf_name = ''base_color'', shf_ty = Sh_vec4\<rparr>, \<lparr>shf_name = ''tex'', shf_ty = Sh_sampler2d\<rparr>],
     shd_consts = [],
     shd_vars = [\<lparr>shf_name = ''v_uv'', shf_ty = Sh_vec2\<rparr>],
     shd_init = [],
     shd_vertex =
       [Sh_assign (Sh_ident ''v_uv'') (Sh_ident ''uv''),
        Sh_assign (Sh_ident ''clip_position'')
          (Sh_binary Sh_mul (Sh_member_access (Sh_ident ''Camera'') ''view_proj'')
             (Sh_construct Sh_vec4 [Sh_ident ''position'', Sh_float_literal 0x3FF0000000000000]))],
     shd_fragment =
       [Sh_assign (Sh_ident ''frag_color'')
          (Sh_binary Sh_mul (Sh_sample (Sh_ident ''tex'') (Sh_ident ''v_uv'')) (Sh_ident ''base_color''))]\<rparr>"

definition tint_shader :: shader_decl where
  "tint_shader = \<lparr>shd_name = ''Tint'', shd_priority = Some 10, shd_globals = [], shd_inputs = [],
     shd_params = [\<lparr>shf_name = ''tint'', shf_ty = Sh_vec4\<rparr>],
     shd_consts = [\<lparr>shc_name = ''USE_TINT'', shc_ty = Sh_bool, shc_value = Sh_boolean_lit True\<rparr>],
     shd_vars = [\<lparr>shf_name = ''tint_boost'', shf_ty = Sh_vec4\<rparr>, \<lparr>shf_name = ''tint_pre'', shf_ty = Sh_vec4\<rparr>],
     shd_init =
       [Sh_assign (Sh_ident ''tint_pre'') (Sh_binary Sh_add (Sh_ident ''tint_boost'') (Sh_ident ''tint'')),
        Sh_assign (Sh_ident ''tint_boost'')
          (Sh_binary Sh_mul (Sh_ident ''tint'') (Sh_float_literal 0x3FE0000000000000))],
     shd_vertex = [],
     shd_fragment =
       [Sh_if_stmt (Sh_ident ''USE_TINT'')
          [Sh_assign (Sh_ident ''frag_color'') (Sh_binary Sh_mul (Sh_ident ''frag_color'') (Sh_ident ''tint_pre''))]]\<rparr>"

lemmas check_defs = checkShaderDecl_def declarations_def declareName_def check_guard_def const_matches_def
  add_entry_def checkStage_def checkTarget_def resolveWritable_def resolveReadable_def group_of_def group_field_def
  checkBinary_def checkArithmetic_def checkConstruct_def promoteScalars_def isScalar_def isVector_def isMatrix_def
  one_scalar_def

lemma base_checked: "checkShaderDecl base_shader = Inr ()"
  by (simp add: base_shader_def check_defs)

lemma tint_checked: "checkShaderDecl tint_shader = Inr ()"
  by (simp add: tint_shader_def check_defs)

end
