(* ===== verification/Sla_Shader_Typing.thy ===== *)
theory Sla_Shader_Typing
  imports Sla_Shader_Check "HOL-Library.Multiset"
begin

text \<open>
  The typing rules of shader declarations as relations, written without the control flow and the messages of
  the checker, and the proof that \<open>checkShaderDecl\<close> accepts exactly what the rules derive.
\<close>

section \<open>Rules\<close>

definition swizzles :: "shader_type \<Rightarrow> string \<Rightarrow> bool \<Rightarrow> shader_type \<Rightarrow> bool" where
  "swizzles base_ty sw is_lvalue t \<longleftrightarrow>
     isVector base_ty \<and> vecOf (length sw) = Some t \<and>
     (set sw \<subseteq> set (take (components base_ty) ''xyzw'') \<or> set sw \<subseteq> set (take (components base_ty) ''rgba'')) \<and>
     (is_lvalue \<longrightarrow> distinct sw)"

inductive readable :: "checker \<Rightarrow> stage \<Rightarrow> string \<Rightarrow> shader_type \<Rightarrow> bool" for c where
  read_clip: "readable c St_vertex ''clip_position'' Sh_vec4"
| read_color: "readable c St_fragment ''frag_color'' Sh_vec4"
| read_entry: "n \<notin> {''clip_position'', ''frag_color''} \<Longrightarrow> groups c n = None \<Longrightarrow> entries c n = Some e \<Longrightarrow>
    (en_kind e = Ek_input \<longrightarrow> st = St_vertex) \<Longrightarrow> readable c st n (en_ty e)"

inductive writable :: "checker \<Rightarrow> stage \<Rightarrow> string \<Rightarrow> shader_type \<Rightarrow> bool" for c where
  write_clip: "writable c St_vertex ''clip_position'' Sh_vec4"
| write_color: "writable c St_fragment ''frag_color'' Sh_vec4"
| write_var: "n \<notin> {''clip_position'', ''frag_color''} \<Longrightarrow> entries c n = Some e \<Longrightarrow> en_kind e = Ek_variable \<Longrightarrow>
    writable c st n (en_ty e)"

text \<open>The wider of two scalar types; \<open>i32\<close> and \<open>u32\<close> do not mix.\<close>

inductive widens :: "shader_type \<Rightarrow> shader_type \<Rightarrow> shader_type \<Rightarrow> bool" where
  widen_same: "isScalar t \<Longrightarrow> widens t t t"
| widen_left: "isScalar t \<Longrightarrow> widens Sh_float t Sh_float"
| widen_right: "isScalar t \<Longrightarrow> widens t Sh_float Sh_float"

definition order_of :: "shader_type \<Rightarrow> nat" where
  "order_of t = (if t = Sh_mat3 then 3 else if t = Sh_mat4 then 4 else 0)"

inductive arith_type :: "shader_type \<Rightarrow> shader_type \<Rightarrow> shader_type \<Rightarrow> bool" where
  arith_scalar: "widens l r t \<Longrightarrow> arith_type l r t"
| arith_same: "isVector t \<or> isMatrix t \<Longrightarrow> arith_type t t t"
| arith_scale: "isVector t \<or> isMatrix t \<Longrightarrow> arith_type t Sh_float t"
| arith_scale': "isVector t \<or> isMatrix t \<Longrightarrow> arith_type Sh_float t t"
| arith_apply: "isMatrix m \<Longrightarrow> components v = order_of m \<Longrightarrow> arith_type m v v"
| arith_apply': "isMatrix m \<Longrightarrow> components v = order_of m \<Longrightarrow> arith_type v m v"

inductive bin_type :: "shader_bin_op \<Rightarrow> shader_type \<Rightarrow> shader_type \<Rightarrow> shader_type \<Rightarrow> bool" where
  bin_logic: "bop \<in> {Sh_and, Sh_or} \<Longrightarrow> bin_type bop Sh_bool Sh_bool Sh_bool"
| bin_equal: "bop \<in> {Sh_eq, Sh_ne} \<Longrightarrow> l = r \<or> widens l r t \<Longrightarrow> bin_type bop l r Sh_bool"
| bin_order: "bop \<in> {Sh_lt, Sh_le, Sh_gt, Sh_ge} \<Longrightarrow> widens l r t \<Longrightarrow> bin_type bop l r Sh_bool"
| bin_mod: "t \<in> {Sh_int, Sh_uint} \<Longrightarrow> bin_type Sh_mod t t t"
| bin_arith: "bop \<in> {Sh_add, Sh_sub, Sh_mul, Sh_div} \<Longrightarrow> arith_type l r t \<Longrightarrow> bin_type bop l r t"

inductive un_type :: "shader_un_op \<Rightarrow> shader_type \<Rightarrow> shader_type \<Rightarrow> bool" where
  un_neg: "isScalar t \<or> isVector t \<or> isMatrix t \<Longrightarrow> un_type Sh_neg t t"
| un_not: "un_type Sh_not Sh_bool Sh_bool"

text \<open>A scalar fills every component of what it constructs; otherwise the components are counted.\<close>

inductive construct_type :: "shader_type \<Rightarrow> shader_type list \<Rightarrow> bool" where
  con_fill: "isScalar t \<or> isVector t \<or> isMatrix t \<Longrightarrow> isScalar s \<Longrightarrow> construct_type t [s]"
| con_vector: "isVector t \<Longrightarrow> \<forall>s \<in> set ts. isScalar s \<or> isVector s \<Longrightarrow>
    sum_list (map components ts) = components t \<Longrightarrow> construct_type t ts"
| con_copy: "isMatrix t \<Longrightarrow> construct_type t [t]"
| con_matrix: "isMatrix t \<Longrightarrow> \<forall>s \<in> set ts. isScalar s \<Longrightarrow> length ts = order_of t * order_of t \<Longrightarrow> construct_type t ts"

inductive has_type :: "checker \<Rightarrow> stage \<Rightarrow> shader_expr \<Rightarrow> shader_type \<Rightarrow> bool" for c st where
  ty_float: "has_type c st (Sh_float_literal v) Sh_float"
| ty_int: "has_type c st (Sh_int_literal i) Sh_int"
| ty_bool: "has_type c st (Sh_bool_literal b) Sh_bool"
| ty_ident: "readable c st n t \<Longrightarrow> has_type c st (Sh_ident n) t"
| ty_member: "group_of c base = Some g \<Longrightarrow> map_of (map (\<lambda>x. (shf_name x, shf_ty x)) (shg_fields g)) f = Some t \<Longrightarrow>
    has_type c st (Sh_member_access base f) t"
| ty_swizzle: "group_of c base = None \<Longrightarrow> has_type c st base b \<Longrightarrow> swizzles b f False t \<Longrightarrow>
    has_type c st (Sh_member_access base f) t"
| ty_sample: "has_type c st tex Sh_sampler2d \<Longrightarrow> has_type c st uv Sh_vec2 \<Longrightarrow> has_type c st (Sh_sample tex uv) Sh_vec4"
| ty_construct: "list_all2 (has_type c st) args ts \<Longrightarrow> construct_type t ts \<Longrightarrow> has_type c st (Sh_construct t args) t"
| ty_unary: "has_type c st e s \<Longrightarrow> un_type uop s t \<Longrightarrow> has_type c st (Sh_unary uop e) t"
| ty_binary: "has_type c st e l \<Longrightarrow> has_type c st e' r \<Longrightarrow> bin_type bop l r t \<Longrightarrow> has_type c st (Sh_binary bop e e') t"

inductive target_type :: "checker \<Rightarrow> stage \<Rightarrow> shader_expr \<Rightarrow> shader_type \<Rightarrow> bool" for c st where
  target_name: "writable c st n t \<Longrightarrow> target_type c st (Sh_ident n) t"
| target_swizzle: "groups c n = None \<Longrightarrow> writable c st n b \<Longrightarrow> swizzles b f True t \<Longrightarrow>
    target_type c st (Sh_member_access (Sh_ident n) f) t"

text \<open>Only an integer literal is converted to \<open>f32\<close> by an assignment.\<close>

inductive well_typed :: "checker \<Rightarrow> stage \<Rightarrow> shader_stmt \<Rightarrow> bool" for c st where
  wt_assign: "target_type c st target t \<Longrightarrow> has_type c st value t \<Longrightarrow> well_typed c st (Sh_assign target value)"
| wt_convert: "target_type c st target Sh_float \<Longrightarrow> well_typed c st (Sh_assign target (Sh_int_literal i))"
| wt_if: "has_type c st cond Sh_bool \<Longrightarrow> list_all (well_typed c st) body \<Longrightarrow> well_typed c st (Sh_if_stmt cond body)"

inductive_cases has_typeE [elim!]:
  "has_type c st (Sh_float_literal v) t"
  "has_type c st (Sh_int_literal i) t"
  "has_type c st (Sh_bool_literal b) t"
  "has_type c st (Sh_ident n) t"
  "has_type c st (Sh_sample tex uv) t"
  "has_type c st (Sh_construct ty args) t"
  "has_type c st (Sh_call n args) t"
  "has_type c st (Sh_unary uop e) t"
  "has_type c st (Sh_binary bop e e') t"

inductive_cases member_typeE: "has_type c st (Sh_member_access base f) t"

inductive_simps readable_iff: "readable c st n t"
inductive_simps writable_iff: "writable c st n t"
inductive_simps widens_iff: "widens l r t"
inductive_simps arith_type_iff: "arith_type l r t"
inductive_simps bin_type_iff: "bin_type bop l r t"
inductive_simps un_type_iff: "un_type uop s t"
inductive_simps construct_type_iff: "construct_type t ts"
inductive_simps target_type_iff: "target_type c st e t"
inductive_simps well_typed_assign: "well_typed c st (Sh_assign target value)"
inductive_simps well_typed_if: "well_typed c st (Sh_if_stmt cond body)"

section \<open>Declarations\<close>

definition declared_names :: "shader_decl \<Rightarrow> string list" where
  "declared_names d = map shg_name (shd_globals d) @ map shf_name (shd_inputs d) @ map shf_name (shd_params d) @
     map shf_name (shd_vars d) @ map shc_name (shd_consts d)"

definition wf_declarations :: "shader_decl \<Rightarrow> bool" where
  "wf_declarations d \<longleftrightarrow>
     distinct (declared_names d) \<and>
     set (declared_names d) \<inter> {''clip_position'', ''frag_color''} = {} \<and>
     (\<forall>g \<in> set (shd_globals d). distinct (map shf_name (shg_fields g))) \<and>
     (\<forall>k \<in> set (shd_consts d). const_matches (shc_ty k) (shc_value k))"

definition field_entries :: "entry_kind \<Rightarrow> shader_field list \<Rightarrow> (string \<times> shader_entry) list" where
  "field_entries kind fs = map (\<lambda>f. (shf_name f, \<lparr>en_ty = shf_ty f, en_kind = kind\<rparr>)) fs"

definition const_entries :: "shader_const list \<Rightarrow> (string \<times> shader_entry) list" where
  "const_entries ks = map (\<lambda>k. (shc_name k, \<lparr>en_ty = shc_ty k, en_kind = Ek_constant\<rparr>)) ks"

definition environment :: "shader_decl \<Rightarrow> checker" where
  "environment d = \<lparr>
     entries = map_of (field_entries Ek_input (shd_inputs d)) ++ map_of (field_entries Ek_param (shd_params d)) ++
       map_of (field_entries Ek_variable (shd_vars d)) ++ map_of (const_entries (shd_consts d)),
     groups = map_of (map (\<lambda>g. (shg_name g, g)) (shd_globals d))\<rparr>"

definition well_typed_shader :: "shader_decl \<Rightarrow> bool" where
  "well_typed_shader d \<longleftrightarrow> wf_declarations d \<and>
     list_all (well_typed (environment d) St_init) (shd_init d) \<and>
     list_all (well_typed (environment d) St_vertex) (shd_vertex d) \<and>
     list_all (well_typed (environment d) St_fragment) (shd_fragment d)"

section \<open>Expressions: the checker computes the type\<close>

lemma resolveReadable_iff: "resolveReadable c st n = Inr t \<longleftrightarrow> readable c st n t"
  by (cases st) (auto simp: resolveReadable_def readable_iff split: option.splits)

lemma resolveWritable_iff: "resolveWritable c st n = Inr t \<longleftrightarrow> writable c st n t"
  by (cases st) (auto simp: resolveWritable_def writable_iff split: option.splits entry_kind.splits)

lemma promoteScalars_iff: "isScalar l \<Longrightarrow> isScalar r \<Longrightarrow> promoteScalars l r = Some t \<longleftrightarrow> widens l r t"
  by (cases l; cases r) (auto simp: promoteScalars_def widens_iff isScalar_def)

lemma widens_scalar: "widens l r t \<Longrightarrow> isScalar l \<and> isScalar r \<and> isScalar t"
  by (auto simp: widens_iff isScalar_def)

lemma checkArithmetic_iff: "checkArithmetic l r = Inr t \<longleftrightarrow> arith_type l r t"
  by (cases l; cases r; cases t)
    (auto simp: checkArithmetic_def arith_type_iff widens_iff promoteScalars_def isScalar_def isVector_def
      isMatrix_def order_of_def mismatch_def)

lemma checkBinary_iff: "checkBinary bop l r = Inr t \<longleftrightarrow> bin_type bop l r t"
  by (cases bop; cases l; cases r)
    (auto simp: checkBinary_def bin_type_iff checkArithmetic_iff widens_iff promoteScalars_def isScalar_def mismatch_def)

lemma checkUnary_iff: "checkUnary uop s = Inr t \<longleftrightarrow> un_type uop s t"
  by (cases uop) (auto simp: checkUnary_def un_type_iff)

subsection \<open>Swizzles\<close>

lemma index_of_take: "ch \<in> set (take n l) \<longleftrightarrow> (\<exists>i<n. index_of ch l = Some i)"
  by (induction l arbitrary: n) (auto simp: take_Cons' gr0_conv_Suc)

lemma index_of_nth: "index_of ch l = Some i \<Longrightarrow> i < length l \<and> l ! i = ch"
  by (induction l arbitrary: i) (auto split: if_splits)

lemma index_of_inj: "index_of ch l = Some i \<Longrightarrow> index_of dh l = Some i \<Longrightarrow> ch = dh"
  using index_of_nth by blast

lemma swizzle_loop_iff:
  "swizzle_loop b sw lv seen chs = Inr u \<longleftrightarrow>
     set chs \<subseteq> set (take (components b) (swizzle_set sw)) \<and>
     (lv \<longrightarrow> distinct chs \<and> (\<forall>ch \<in> set chs. \<forall>i \<in> seen. index_of ch (swizzle_set sw) \<noteq> Some i))"
  by (induction chs arbitrary: seen)
    (auto simp: index_of_take not_le split: option.splits dest: index_of_inj)

lemma swizzle_sets_disjoint: "ch \<in> set ''rgba'' \<Longrightarrow> ch \<notin> set ''xyzw''"
  by auto

lemma swizzle_set_fits:
  assumes "sw \<noteq> []"
  shows "set sw \<subseteq> set (take n (swizzle_set sw)) \<longleftrightarrow>
    set sw \<subseteq> set (take n ''xyzw'') \<or> set sw \<subseteq> set (take n ''rgba'')"
proof -
  have hd: "hd sw \<in> set sw" using assms by simp
  show ?thesis
  proof (cases "hd sw \<in> set ''rgba''")
    case True
    then have "\<not> set sw \<subseteq> set (take n ''xyzw'')"
      using hd swizzle_sets_disjoint set_take_subset by (metis subsetD)
    then show ?thesis using True by (simp only: swizzle_set_def if_True) simp
  next
    case False
    then have "\<not> set sw \<subseteq> set (take n ''rgba'')"
      using hd set_take_subset by (metis subsetD)
    then show ?thesis using False by (simp only: swizzle_set_def if_False) simp
  qed
qed

lemma vecOf_length: "vecOf n \<noteq> None \<longleftrightarrow> 1 \<le> n \<and> n \<le> 4"
  by (auto simp: vecOf_def split: if_splits)

lemma checkSwizzle_iff: "checkSwizzle b sw lv = Inr t \<longleftrightarrow> swizzles b sw lv t"
proof (cases "isVector b \<and> sw \<noteq> [] \<and> length sw \<le> 4")
  case True
  then obtain u where u: "vecOf (length sw) = Some u" using vecOf_length [of "length sw"] by (cases sw) auto
  have "checkSwizzle b sw lv = Inr t \<longleftrightarrow> swizzle_loop b sw lv {} sw = Inr () \<and> t = u"
    using True u by (auto simp: checkSwizzle_def check_bind_Inr)
  also have "\<dots> \<longleftrightarrow> swizzles b sw lv t"
    using True u swizzle_set_fits [of sw "components b"]
    by (auto simp: swizzle_loop_iff swizzles_def)
  finally show ?thesis .
next
  case False
  then have "\<not> swizzles b sw lv t" using vecOf_length [of "length sw"] by (auto simp: swizzles_def vecOf_def)
  moreover have "checkSwizzle b sw lv \<noteq> Inr t" using False by (auto simp: checkSwizzle_def)
  ultimately show ?thesis by simp
qed

subsection \<open>Construction\<close>

lemma one_scalar_iff: "one_scalar ts \<longleftrightarrow> (\<exists>s. ts = [s] \<and> isScalar s)"
  by (cases ts) (auto simp: one_scalar_def)

lemma vector_total_iff:
  "vector_total t n ts = Inr m \<longleftrightarrow>
     (\<forall>s \<in> set ts. isScalar s \<or> isVector s) \<and> m = n + sum_list (map components ts)"
  by (induction ts arbitrary: n) (auto simp: isScalar_components)

lemma matrix_total_iff:
  "matrix_total t n ts = Inr m \<longleftrightarrow> (\<forall>s \<in> set ts. isScalar s) \<and> m = n + length ts"
  by (induction ts arbitrary: n) auto

lemma kinds_exclusive:
  "isVector t \<Longrightarrow> \<not> isScalar t \<and> \<not> isMatrix t" "isMatrix t \<Longrightarrow> \<not> isScalar t"
  by (auto simp: isVector_def isScalar_def isMatrix_def)

lemma mat_order_of: "isMatrix t \<Longrightarrow> mat_order t = order_of t"
  by (auto simp: isMatrix_def mat_order_def order_of_def)

lemma single_list: "length ts = 1 \<and> hd ts = t \<longleftrightarrow> ts = [t]"
  by (cases ts) auto

lemma checkConstruct_iff: "checkConstruct t ts = Inr u \<longleftrightarrow> u = t \<and> construct_type t ts"
proof -
  consider "isVector t" | "isMatrix t" | "\<not> isVector t" "\<not> isMatrix t" by blast
  then show ?thesis
  proof cases
    case 1
    then show ?thesis
      using kinds_exclusive [of t]
      by (auto simp: checkConstruct_def construct_type_iff check_bind_Inr vector_total_iff one_scalar_iff)
  next
    case 2
    then have "\<not> isVector t" "\<not> isScalar t" using kinds_exclusive by auto
    with 2 show ?thesis
      unfolding checkConstruct_def single_list
      by (auto simp: construct_type_iff check_bind_Inr matrix_total_iff one_scalar_iff mat_order_of
          split: if_splits)
  next
    case 3
    then show ?thesis by (auto simp: checkConstruct_def construct_type_iff one_scalar_iff)
  qed
qed

subsection \<open>Expressions and statements\<close>

lemma check_seq_Inr: "check_seq ms = Inr xs \<longleftrightarrow> list_all2 (\<lambda>m x. m = Inr x) ms xs"
  by (induction ms arbitrary: xs) (auto simp: check_bind_Inr list_all2_Cons1)

lemma check_seq_map: "check_seq (map f as) = Inr xs \<longleftrightarrow> list_all2 (\<lambda>a x. f a = Inr x) as xs"
  by (simp add: check_seq_Inr list_all2_map1)

lemma check_seq_units: "(\<exists>us. check_seq (map f as) = Inr us) \<longleftrightarrow> list_all (\<lambda>a. f a = Inr ()) as"
  by (induction as) (auto simp: check_bind_Inr)

lemma group_field_iff:
  "group_field g f = Inr t \<longleftrightarrow> map_of (map (\<lambda>x. (shf_name x, shf_ty x)) (shg_fields g)) f = Some t"
proof -
  have "map_of (map (\<lambda>x. (shf_name x, shf_ty x)) fs) f = map_option shf_ty (find (\<lambda>x. shf_name x = f) fs)"
    for fs :: "shader_field list"
    by (induction fs) auto
  then show ?thesis by (auto simp: group_field_def split: option.splits)
qed

lemma checkExpr_iff: "checkExpr c st e = Inr t \<longleftrightarrow> has_type c st e t"
proof (induction e arbitrary: t)
  case (Sh_member_access base f)
  then show ?case
    by (auto simp: group_field_iff check_bind_Inr checkSwizzle_iff split: option.splits
        elim: member_typeE intro: has_type.intros)
next
  case (Sh_construct ty args)
  then have "list_all2 (\<lambda>a t. checkExpr c st a = Inr t) args ts \<longleftrightarrow> list_all2 (has_type c st) args ts" for ts
    by (auto intro: list.rel_mono_strong)
  then show ?case
    by (auto simp: check_bind_Inr check_seq_map checkConstruct_iff intro: has_type.intros)
qed (auto simp: resolveReadable_iff check_bind_Inr checkUnary_iff checkBinary_iff split: if_splits
      intro: has_type.intros)

lemma checkTarget_iff: "checkTarget c st e = Inr t \<longleftrightarrow> target_type c st e t"
  by (auto simp: checkTarget_def target_type_iff resolveWritable_iff check_bind_Inr checkSwizzle_iff
      split: shader_expr.splits)

lemma is_int_literal_iff: "is_int_literal e \<longleftrightarrow> (\<exists>i. e = Sh_int_literal i)"
  by (cases e) auto

lemma checkStmt_iff: "checkStmt c st s = Inr () \<longleftrightarrow> well_typed c st s"
proof (induction s)
  case (Sh_assign target rhs)
  then show ?case
    by (auto simp: check_bind_Inr checkTarget_iff checkExpr_iff well_typed_assign is_int_literal_iff split: if_splits
        intro: has_type.intros)
next
  case (Sh_if_stmt cond body)
  then show ?case
    by (auto simp: check_bind_Inr checkExpr_iff well_typed_if check_seq_units list_all_iff split: if_splits)
qed

lemma checkStage_iff: "checkStage c st ss = Inr u \<longleftrightarrow> list_all (well_typed c st) ss"
  by (simp add: checkStage_def check_bind_Inr check_seq_units checkStmt_iff)

section \<open>Declarations: the checker builds the environment\<close>

definition unused :: "checker \<Rightarrow> string \<Rightarrow> bool" where
  "unused c n \<longleftrightarrow> n \<notin> {''clip_position'', ''frag_color''} \<and> entries c n = None \<and> groups c n = None"

lemma declareName_iff: "declareName c n = Inr u \<longleftrightarrow> unused c n"
  by (auto simp: declareName_def unused_def)

lemma unused_add_entry: "unused (add_entry n t k c) m \<longleftrightarrow> m \<noteq> n \<and> unused c m"
  by (auto simp: unused_def add_entry_def)

lemma unused_add_group: "unused (c\<lparr>groups := (groups c)(n \<mapsto> g)\<rparr>) m \<longleftrightarrow> m \<noteq> n \<and> unused c m"
  by (auto simp: unused_def)

lemma fields_distinct_iff:
  "fields_distinct n seen fs = Inr u \<longleftrightarrow> distinct (map shf_name fs) \<and> shf_name ` set fs \<inter> seen = {}"
  by (induction fs arbitrary: seen) auto

lemma map_add_new: "k \<notin> dom m \<Longrightarrow> e(k \<mapsto> v) ++ m = e ++ m(k \<mapsto> v)"
  by (simp add: map_add_upd_left)

lemma add_entry_entries:
  assumes "n \<notin> dom m"
  shows "(add_entry n t k c)\<lparr>entries := entries (add_entry n t k c) ++ m\<rparr> =
    c\<lparr>entries := entries c ++ m(n \<mapsto> \<lparr>en_ty = t, en_kind = k\<rparr>)\<rparr>"
  unfolding add_entry_def by (cases c) (simp del: fun_upd_apply map_add_upd add: map_add_new [OF assms])

lemma dom_field_entries [simp]: "dom (map_of (field_entries k fs)) = shf_name ` set fs"
  by (auto simp: field_entries_def dom_map_of_conv_image_fst image_image)

lemma dom_const_entries [simp]: "dom (map_of (const_entries ks)) = shc_name ` set ks"
  by (auto simp: const_entries_def dom_map_of_conv_image_fst image_image)

lemma no_field_entry [simp]: "map_of (field_entries k fs) n = None \<longleftrightarrow> n \<notin> shf_name ` set fs"
  by (metis dom_field_entries domIff)

definition with_fields :: "entry_kind \<Rightarrow> shader_field list \<Rightarrow> checker \<Rightarrow> checker" where
  "with_fields k fs c = c\<lparr>entries := entries c ++ map_of (field_entries k fs)\<rparr>"

lemma unused_with_fields: "unused (with_fields k fs c) n \<longleftrightarrow> unused c n \<and> n \<notin> shf_name ` set fs"
  by (auto simp: unused_def with_fields_def)

definition with_groups :: "shader_global_group list \<Rightarrow> checker" where
  "with_groups gs = \<lparr>entries = Map.empty, groups = map_of (map (\<lambda>g. (shg_name g, g)) gs)\<rparr>"

lemma unused_with_groups:
  "unused (with_groups gs) n \<longleftrightarrow> n \<notin> {''clip_position'', ''frag_color''} \<and> n \<notin> shg_name ` set gs"
  by (auto simp: unused_def with_groups_def map_of_eq_None_iff image_image)

lemma declare_groups_iff:
  "declare_groups gs c = Inr c' \<longleftrightarrow>
     distinct (map shg_name gs) \<and> (\<forall>g \<in> set gs. unused c (shg_name g) \<and> distinct (map shf_name (shg_fields g))) \<and>
     c' = c\<lparr>groups := groups c ++ map_of (map (\<lambda>g. (shg_name g, g)) gs)\<rparr>"
proof (induction gs arbitrary: c)
  case (Cons g gs)
  define m where "m = map_of (map (\<lambda>g. (shg_name g, g)) gs)"
  have upd: "map_of (map (\<lambda>g. (shg_name g, g)) (g # gs)) = m(shg_name g \<mapsto> g)"
    by (simp add: m_def)
  show ?case
  proof (cases "shg_name g \<in> shg_name ` set gs")
    case False
    then have "shg_name g \<notin> dom m" by (simp add: m_def dom_map_of_conv_image_fst image_image)
    moreover have "\<forall>x \<in> set gs. shg_name x \<noteq> shg_name g" using False by (metis imageI)
    ultimately show ?thesis
      using False unfolding upd
      by (auto simp del: fun_upd_apply simp add: check_bind_Inr declareName_iff fields_distinct_iff Cons.IH
          unused_add_group map_add_new m_def [symmetric])
  qed (auto simp: check_bind_Inr declareName_iff fields_distinct_iff Cons.IH unused_add_group)
qed auto

lemma declare_fields_iff:
  "declare_fields k fs c = Inr c' \<longleftrightarrow>
     distinct (map shf_name fs) \<and> (\<forall>f \<in> set fs. unused c (shf_name f)) \<and>
     c' = c\<lparr>entries := entries c ++ map_of (field_entries k fs)\<rparr>"
proof (induction fs arbitrary: c)
  case Nil
  then show ?case by (auto simp: field_entries_def)
next
  case (Cons f fs)
  have upd: "map_of (field_entries k (f # fs)) = (map_of (field_entries k fs))(shf_name f \<mapsto> \<lparr>en_ty = shf_ty f, en_kind = k\<rparr>)"
    by (simp add: field_entries_def)
  show ?case
  proof (cases "shf_name f \<in> shf_name ` set fs")
    case False
    then have "\<forall>x \<in> set fs. shf_name x \<noteq> shf_name f" by (metis imageI)
    with False show ?thesis
      unfolding upd by (auto simp del: fun_upd_apply simp add: check_bind_Inr declareName_iff Cons.IH unused_add_entry add_entry_entries)
  qed (auto simp: check_bind_Inr declareName_iff Cons.IH unused_add_entry)
qed

lemma declare_consts_iff:
  "declare_consts ks c = Inr c' \<longleftrightarrow>
     distinct (map shc_name ks) \<and> (\<forall>k \<in> set ks. unused c (shc_name k) \<and> const_matches (shc_ty k) (shc_value k)) \<and>
     c' = c\<lparr>entries := entries c ++ map_of (const_entries ks)\<rparr>"
proof (induction ks arbitrary: c)
  case Nil
  then show ?case by (auto simp: const_entries_def)
next
  case (Cons k ks)
  have upd: "map_of (const_entries (k # ks)) =
      (map_of (const_entries ks))(shc_name k \<mapsto> \<lparr>en_ty = shc_ty k, en_kind = Ek_constant\<rparr>)"
    by (simp add: const_entries_def)
  show ?case
  proof (cases "shc_name k \<in> shc_name ` set ks")
    case False
    then have "\<forall>x \<in> set ks. shc_name x \<noteq> shc_name k" by (metis imageI)
    with False show ?thesis
      unfolding upd by (auto simp del: fun_upd_apply simp add: check_bind_Inr declareName_iff Cons.IH unused_add_entry add_entry_entries)
  qed (auto simp: check_bind_Inr declareName_iff Cons.IH unused_add_entry)
qed

lemma declare_groups_first:
  "declare_groups gs \<lparr>entries = Map.empty, groups = Map.empty\<rparr> = Inr c \<longleftrightarrow>
     distinct (map shg_name gs) \<and> (\<forall>g \<in> set gs. shg_name g \<notin> {''clip_position'', ''frag_color''} \<and>
       distinct (map shf_name (shg_fields g))) \<and> c = with_groups gs"
  by (simp add: declare_groups_iff unused_def with_groups_def)

lemma avoids_iff: "(\<forall>x \<in> S. f x \<notin> A) \<longleftrightarrow> f ` S \<inter> A = {}"
  by auto

lemma declarations_unused:
  "declarations d = Inr c \<longleftrightarrow> wf_declarations d \<and>
     c = (let c = with_fields Ek_variable (shd_vars d) (with_fields Ek_param (shd_params d)
            (with_fields Ek_input (shd_inputs d) (with_groups (shd_globals d))))
          in c\<lparr>entries := entries c ++ map_of (const_entries (shd_consts d))\<rparr>)"
  (is "_ \<longleftrightarrow> _ \<and> c = ?env")
proof -
  have "declarations d = Inr c \<longleftrightarrow>
      (distinct (map shg_name (shd_globals d)) \<and> (\<forall>g \<in> set (shd_globals d). shg_name g \<notin> {''clip_position'', ''frag_color''} \<and>
         distinct (map shf_name (shg_fields g)))) \<and>
      (distinct (map shf_name (shd_inputs d)) \<and>
         (\<forall>f \<in> set (shd_inputs d). unused (with_groups (shd_globals d)) (shf_name f))) \<and>
      (distinct (map shf_name (shd_params d)) \<and>
         (\<forall>f \<in> set (shd_params d). unused (with_fields Ek_input (shd_inputs d) (with_groups (shd_globals d))) (shf_name f))) \<and>
      (distinct (map shf_name (shd_vars d)) \<and>
         (\<forall>f \<in> set (shd_vars d). unused (with_fields Ek_param (shd_params d)
            (with_fields Ek_input (shd_inputs d) (with_groups (shd_globals d)))) (shf_name f))) \<and>
      (distinct (map shc_name (shd_consts d)) \<and>
         (\<forall>k \<in> set (shd_consts d). unused (with_fields Ek_variable (shd_vars d) (with_fields Ek_param (shd_params d)
            (with_fields Ek_input (shd_inputs d) (with_groups (shd_globals d))))) (shc_name k) \<and>
            const_matches (shc_ty k) (shc_value k))) \<and> c = ?env"
    by (auto simp: declarations_def check_bind_Inr declare_groups_first declare_fields_iff [folded with_fields_def]
        declare_consts_iff Let_def)
  also have "\<dots> \<longleftrightarrow> wf_declarations d \<and> c = ?env"
    unfolding unused_with_fields unused_with_groups wf_declarations_def declared_names_def distinct_append set_append
      set_map ball_conj_distrib avoids_iff
    by (simp only: Int_Un_distrib Int_Un_distrib2 Un_empty Int_commute conj_ac)
  finally show ?thesis .
qed

lemma declarations_iff: "declarations d = Inr c \<longleftrightarrow> wf_declarations d \<and> c = environment d"
  by (simp add: declarations_unused with_fields_def with_groups_def environment_def)

section \<open>What the checker accepts\<close>

definition accepted :: "shader_decl \<Rightarrow> bool" where
  "accepted d \<longleftrightarrow> checkShaderDecl d = Inr ()"

lemma accepted_iff: "accepted d \<longleftrightarrow> well_typed_shader d"
  by (auto simp: accepted_def checkShaderDecl_def check_bind_Inr declarations_iff checkStage_iff well_typed_shader_def)

text \<open>C2: the checker of shader declarations accepts a declaration exactly when the typing rules derive it: the
  declared names are distinct and not reserved, every constant has a literal of its type, and every statement of the
  three stages is well typed in the environment of the declarations.\<close>

theorem checker_decides_typing: "checkShaderDecl d = Inr () \<longleftrightarrow> well_typed_shader d"
  by (simp add: accepted_iff [unfolded accepted_def])

subsection \<open>Reads and writes\<close>

fun root_name :: "shader_expr \<Rightarrow> string option" where
  "root_name (Sh_ident n) = Some n"
| "root_name (Sh_member_access (Sh_ident n) f) = Some n"
| "root_name _ = None"

primrec assigned_names :: "shader_stmt \<Rightarrow> string option set" where
  "assigned_names (Sh_assign target rhs) = {root_name target}"
| "assigned_names (Sh_if_stmt cond body) = \<Union> (set (map assigned_names body))"

fun read_names :: "shader_expr \<Rightarrow> string set" where
  "read_names (Sh_ident n) = {n}"
| "read_names (Sh_member_access base f) = read_names base"
| "read_names (Sh_binary bop l r) = read_names l \<union> read_names r"
| "read_names (Sh_unary uop e) = read_names e"
| "read_names (Sh_construct ty args) = \<Union> (set (map read_names args))"
| "read_names (Sh_sample tex uv) = read_names tex \<union> read_names uv"
| "read_names (Sh_call f args) = \<Union> (set (map read_names args))"
| "read_names _ = {}"

primrec stmt_reads :: "shader_stmt \<Rightarrow> string set" where
  "stmt_reads (Sh_assign target rhs) = read_names rhs"
| "stmt_reads (Sh_if_stmt cond body) = read_names cond \<union> \<Union> (set (map stmt_reads body))"

definition stage_body :: "shader_decl \<Rightarrow> stage \<Rightarrow> shader_stmt list" where
  "stage_body d st = (case st of St_init \<Rightarrow> shd_init d | St_vertex \<Rightarrow> shd_vertex d | St_fragment \<Rightarrow> shd_fragment d)"

definition stage_outputs :: "stage \<Rightarrow> string set" where
  "stage_outputs st = (case st of St_init \<Rightarrow> {} | St_vertex \<Rightarrow> {''clip_position''} | St_fragment \<Rightarrow> {''frag_color''})"

lemma well_typed_stage: "well_typed_shader d \<Longrightarrow> s \<in> set (stage_body d st) \<Longrightarrow> well_typed (environment d) st s"
  by (cases st) (auto simp: well_typed_shader_def stage_body_def list_all_iff)

lemma writable_env: "writable (environment d) st n t \<Longrightarrow> n \<in> stage_outputs st \<or> n \<in> shf_name ` set (shd_vars d)"
proof -
  have "n \<in> shf_name ` set (shd_vars d)" if "entries (environment d) n = Some e" "en_kind e = Ek_variable" for e
    using that
    by (auto simp: environment_def map_add_Some_iff field_entries_def const_entries_def dest!: map_of_SomeD)
  then show "writable (environment d) st n t \<Longrightarrow> ?thesis"
    by (auto simp: writable_iff stage_outputs_def)
qed

lemma target_env: "target_type (environment d) st e t \<Longrightarrow>
    \<exists>n. root_name e = Some n \<and> (n \<in> stage_outputs st \<or> n \<in> shf_name ` set (shd_vars d))"
  by (auto simp: target_type_iff dest!: writable_env)

lemma assigned_well_typed: "well_typed (environment d) st s \<Longrightarrow>
    assigned_names s \<subseteq> Some ` (stage_outputs st \<union> shf_name ` set (shd_vars d))"
proof (induction s)
  case (Sh_assign target rhs)
  then show ?case by (auto simp: well_typed_assign dest!: target_env)
next
  case (Sh_if_stmt cond body)
  then show ?case by (fastforce simp: well_typed_if list_all_iff)
qed

text \<open>C3: an accepted shader writes nothing but its \<open>var\<close>s and the output of the stage the assignment stands in:
  inputs, parameters, constants and the host's global groups are never assigned, at any depth of \<open>if\<close>.\<close>

theorem accepted_writes:
  assumes "checkShaderDecl d = Inr ()" and "s \<in> set (stage_body d st)" and "w \<in> assigned_names s"
  shows "\<exists>n. w = Some n \<and> (n \<in> stage_outputs st \<or> n \<in> shf_name ` set (shd_vars d))"
  using assigned_well_typed [OF well_typed_stage [OF accepted_iff [THEN iffD1, unfolded accepted_def, OF assms(1)] assms(2)]]
    assms(3) by auto

theorem accepted_writes_witness:
  "checkShaderDecl tint_shader = Inr () \<and> Some ''frag_color'' \<in> assigned_names (hd (stage_body tint_shader St_fragment)) \<and>
   (\<exists>n. Some ''frag_color'' = Some n \<and> (n \<in> stage_outputs St_fragment \<or> n \<in> shf_name ` set (shd_vars tint_shader)))"
proof -
  have "hd (stage_body tint_shader St_fragment) \<in> set (stage_body tint_shader St_fragment)"
    "Some ''frag_color'' \<in> assigned_names (hd (stage_body tint_shader St_fragment))"
    by (simp_all add: tint_shader_def stage_body_def)
  then show ?thesis using accepted_writes [OF tint_checked] tint_checked by blast
qed

definition stage_sources :: "shader_decl \<Rightarrow> stage \<Rightarrow> string set" where
  "stage_sources d st = stage_outputs st \<union> (if st = St_vertex then shf_name ` set (shd_inputs d) else {}) \<union>
     shf_name ` set (shd_params d) \<union> shf_name ` set (shd_vars d) \<union> shc_name ` set (shd_consts d) \<union>
     shg_name ` set (shd_globals d)"

lemma readable_env: "readable (environment d) st n t \<Longrightarrow> n \<in> stage_sources d st"
proof -
  have "n \<in> stage_sources d st"
    if "entries (environment d) n = Some e" "en_kind e = Ek_input \<longrightarrow> st = St_vertex" for e
    using that
    by (auto simp: environment_def map_add_Some_iff field_entries_def const_entries_def stage_sources_def
        dest!: map_of_SomeD)
  then show "readable (environment d) st n t \<Longrightarrow> ?thesis"
    by (auto simp: readable_iff stage_sources_def stage_outputs_def)
qed

lemma group_of_env: "group_of (environment d) base = Some g \<Longrightarrow> \<exists>n. base = Sh_ident n \<and> n \<in> shg_name ` set (shd_globals d)"
  by (auto simp: group_of_def environment_def split: shader_expr.splits dest!: map_of_SomeD)

lemma reads_has_type: "has_type (environment d) st e t \<Longrightarrow> read_names e \<subseteq> stage_sources d st"
proof (induction rule: has_type.induct)
  case (ty_ident n t)
  then show ?case by (auto dest: readable_env)
next
  case (ty_member base g f t)
  then show ?case using group_of_env [OF ty_member(1)] by (auto simp: stage_sources_def)
next
  case (ty_construct args ts t)
  then show ?case by (fastforce simp: list_all2_conv_all_nth in_set_conv_nth)
qed auto

lemma reads_well_typed: "well_typed (environment d) st s \<Longrightarrow> stmt_reads s \<subseteq> stage_sources d st"
proof (induction s)
  case (Sh_assign target rhs)
  then show ?case by (auto simp: well_typed_assign dest: reads_has_type [THEN subsetD])
next
  case (Sh_if_stmt cond body)
  then show ?case by (fastforce simp: well_typed_if list_all_iff dest: reads_has_type)
qed

text \<open>C4: the stages of an accepted shader read only what the shader declares and the output of their own stage, and
  vertex inputs are read in the vertex stage alone.\<close>

theorem accepted_reads:
  assumes "checkShaderDecl d = Inr ()" and "s \<in> set (stage_body d st)"
  shows "stmt_reads s \<subseteq> stage_sources d st"
  by (rule reads_well_typed [OF well_typed_stage [OF accepted_iff [THEN iffD1, unfolded accepted_def, OF assms(1)] assms(2)]])

theorem accepted_reads_witness:
  "''position'' \<in> stmt_reads (shd_vertex base_shader ! 1) \<and>
   stmt_reads (shd_vertex base_shader ! 1) \<subseteq> stage_sources base_shader St_vertex"
proof -
  have "shd_vertex base_shader ! 1 \<in> set (stage_body base_shader St_vertex)"
    "''position'' \<in> stmt_reads (shd_vertex base_shader ! 1)"
    by (simp_all add: base_shader_def stage_body_def)
  then show ?thesis using accepted_reads [OF base_checked] by blast
qed

subsection \<open>Order of the declarations\<close>

definition reordered :: "shader_decl \<Rightarrow> shader_decl \<Rightarrow> bool" where
  "reordered d d' \<longleftrightarrow> mset (shd_globals d) = mset (shd_globals d') \<and> mset (shd_inputs d) = mset (shd_inputs d') \<and>
     mset (shd_params d) = mset (shd_params d') \<and> mset (shd_vars d) = mset (shd_vars d') \<and>
     mset (shd_consts d) = mset (shd_consts d') \<and> (\<forall>st. stage_body d st = stage_body d' st)"

lemma map_of_reordered:
  assumes "mset xs = mset ys" and "distinct (map f xs)"
  shows "map_of (map (\<lambda>x. (f x, g x)) xs) = map_of (map (\<lambda>x. (f x, g x)) ys)"
proof -
  have "mset (map f xs) = mset (map f ys)" using assms(1) by (metis mset_map)
  then have "distinct (map f ys)" using assms(2) by (metis mset_eq_imp_distinct_iff)
  moreover have "set xs = set ys" using assms(1) by (metis set_mset_mset)
  ultimately show ?thesis
    using assms(2) by (intro map_of_inject_set [THEN iffD2]) (auto simp: comp_def)
qed

lemma reordered_names: "reordered d d' \<Longrightarrow> mset (declared_names d) = mset (declared_names d')"
  by (simp add: reordered_def declared_names_def)

lemma reordered_wf: "reordered d d' \<Longrightarrow> wf_declarations d \<longleftrightarrow> wf_declarations d'"
proof -
  assume r: "reordered d d'"
  have names: "distinct (declared_names d) = distinct (declared_names d')" "set (declared_names d) = set (declared_names d')"
    using reordered_names [OF r] by (auto dest: mset_eq_imp_distinct_iff mset_eq_setD)
  have "set (shd_globals d) = set (shd_globals d')" "set (shd_consts d) = set (shd_consts d')"
    using r by (auto simp: reordered_def dest: mset_eq_setD)
  with names show ?thesis by (simp add: wf_declarations_def)
qed

lemma reordered_environment: "reordered d d' \<Longrightarrow> wf_declarations d \<Longrightarrow> environment d = environment d'"
  unfolding environment_def field_entries_def const_entries_def wf_declarations_def declared_names_def distinct_append
    reordered_def
  by (elim conjE) (simp only: map_of_reordered)

lemma reordered_stages:
  "reordered d d' \<Longrightarrow> shd_init d = shd_init d' \<and> shd_vertex d = shd_vertex d' \<and> shd_fragment d = shd_fragment d'"
  by (auto simp: reordered_def stage_body_def split: stage.splits dest: spec [of _ St_init])

text \<open>C5: the verdict on a shader does not depend on the order in which its declarations of one kind are written.\<close>

theorem verdict_order_free:
  assumes "reordered d d'"
  shows "checkShaderDecl d = Inr () \<longleftrightarrow> checkShaderDecl d' = Inr ()"
  using reordered_wf [OF assms] reordered_environment [OF assms] reordered_stages [OF assms]
  by (auto simp: accepted_iff [unfolded accepted_def] well_typed_shader_def)

theorem verdict_order_free_witness:
  "tint_shader\<lparr>shd_vars := rev (shd_vars tint_shader)\<rparr> \<noteq> tint_shader \<and>
   (checkShaderDecl tint_shader = Inr () \<longleftrightarrow>
    checkShaderDecl (tint_shader\<lparr>shd_vars := rev (shd_vars tint_shader)\<rparr>) = Inr ())"
proof -
  have "reordered tint_shader (tint_shader\<lparr>shd_vars := rev (shd_vars tint_shader)\<rparr>)"
    by (simp add: reordered_def stage_body_def split: stage.split)
  from verdict_order_free [OF this] show ?thesis by (simp add: tint_shader_def)
qed

end
