(* ===== verification/Sla_Shader_Sound.thy ===== *)
theory Sla_Shader_Sound
  imports Sla_Shader_Typing
begin

text \<open>
  Values for the shader types and the execution of a stage over them, and the theorem that what the checker accepts
  runs: expressions evaluate to a value of their type and a stage ends in a store of the declared types.  The
  arithmetic on floats and integers and the texture lookup are a parameter, since the source hands shaders to a
  linker that is not part of the repository; what is fixed is the shape of the values.  The two operations the checker
  admits although they have no value are the hypothesis of the theorem.
\<close>

section \<open>Values\<close>

datatype 'f shader_val =
  Sv_bool bool | Sv_int int | Sv_uint int | Sv_float 'f | Sv_vec "'f list" | Sv_mat "'f list list" | Sv_texture nat

definition square :: "nat \<Rightarrow> 'f list list \<Rightarrow> bool" where
  "square n cs \<longleftrightarrow> length cs = n \<and> list_all (\<lambda>col. length col = n) cs"

fun of_type :: "shader_type \<Rightarrow> 'f shader_val \<Rightarrow> bool" where
  "of_type Sh_float v = (case v of Sv_float x \<Rightarrow> True | _ \<Rightarrow> False)"
| "of_type Sh_int v = (case v of Sv_int x \<Rightarrow> True | _ \<Rightarrow> False)"
| "of_type Sh_uint v = (case v of Sv_uint x \<Rightarrow> True | _ \<Rightarrow> False)"
| "of_type Sh_bool v = (case v of Sv_bool x \<Rightarrow> True | _ \<Rightarrow> False)"
| "of_type Sh_sampler2d v = (case v of Sv_texture x \<Rightarrow> True | _ \<Rightarrow> False)"
| "of_type Sh_vec2 v = (case v of Sv_vec xs \<Rightarrow> length xs = 2 | _ \<Rightarrow> False)"
| "of_type Sh_vec3 v = (case v of Sv_vec xs \<Rightarrow> length xs = 3 | _ \<Rightarrow> False)"
| "of_type Sh_vec4 v = (case v of Sv_vec xs \<Rightarrow> length xs = 4 | _ \<Rightarrow> False)"
| "of_type Sh_mat3 v = (case v of Sv_mat cs \<Rightarrow> square 3 cs | _ \<Rightarrow> False)"
| "of_type Sh_mat4 v = (case v of Sv_mat cs \<Rightarrow> square 4 cs | _ \<Rightarrow> False)"

record 'f shader_ops =
  literal_f :: "64 word \<Rightarrow> 'f"
  int_f :: "int \<Rightarrow> 'f"
  f_int :: "'f \<Rightarrow> int"
  arith_f :: "shader_bin_op \<Rightarrow> 'f \<Rightarrow> 'f \<Rightarrow> 'f"
  arith_i :: "shader_bin_op \<Rightarrow> int \<Rightarrow> int \<Rightarrow> int"
  arith_u :: "shader_bin_op \<Rightarrow> int \<Rightarrow> int \<Rightarrow> int"
  compare_f :: "shader_bin_op \<Rightarrow> 'f \<Rightarrow> 'f \<Rightarrow> bool"
  compare_i :: "shader_bin_op \<Rightarrow> int \<Rightarrow> int \<Rightarrow> bool"
  texel :: "nat \<Rightarrow> 'f \<Rightarrow> 'f \<Rightarrow> 'f \<times> 'f \<times> 'f \<times> 'f"

fun as_float :: "('f, 'b) shader_ops_scheme \<Rightarrow> 'f shader_val \<Rightarrow> 'f option" where
  "as_float ops (Sv_float x) = Some x"
| "as_float ops (Sv_int i) = Some (int_f ops i)"
| "as_float ops (Sv_uint i) = Some (int_f ops i)"
| "as_float ops v = None"

definition dot_product :: "('f, 'b) shader_ops_scheme \<Rightarrow> 'f list \<Rightarrow> 'f list \<Rightarrow> 'f" where
  "dot_product ops xs ys = foldr (arith_f ops Sh_add) (map2 (arith_f ops Sh_mul) xs ys) (int_f ops 0)"

text \<open>A matrix is the list of its columns.\<close>

definition mat_row :: "'f list list \<Rightarrow> nat \<Rightarrow> 'f list" where
  "mat_row cs i = map (\<lambda>col. col ! i) cs"

definition mat_vec :: "('f, 'b) shader_ops_scheme \<Rightarrow> 'f list list \<Rightarrow> 'f list \<Rightarrow> 'f list" where
  "mat_vec ops cs xs = map (\<lambda>i. dot_product ops (mat_row cs i) xs) [0..<length cs]"

definition vec_mat :: "('f, 'b) shader_ops_scheme \<Rightarrow> 'f list \<Rightarrow> 'f list list \<Rightarrow> 'f list" where
  "vec_mat ops xs cs = map (dot_product ops xs) cs"

fun arith_val :: "('f, 'b) shader_ops_scheme \<Rightarrow> shader_bin_op \<Rightarrow> 'f shader_val \<Rightarrow> 'f shader_val \<Rightarrow> 'f shader_val option" where
  "arith_val ops bop (Sv_int i) (Sv_int j) = Some (Sv_int (arith_i ops bop i j))"
| "arith_val ops bop (Sv_uint i) (Sv_uint j) = Some (Sv_uint (arith_u ops bop i j))"
| "arith_val ops bop (Sv_float x) (Sv_vec ys) = Some (Sv_vec (map (arith_f ops bop x) ys))"
| "arith_val ops bop (Sv_vec xs) (Sv_float y) = Some (Sv_vec (map (\<lambda>x. arith_f ops bop x y) xs))"
| "arith_val ops bop (Sv_vec xs) (Sv_vec ys) =
     (if length xs = length ys then Some (Sv_vec (map2 (arith_f ops bop) xs ys)) else None)"
| "arith_val ops bop (Sv_float x) (Sv_mat cs) = Some (Sv_mat (map (map (arith_f ops bop x)) cs))"
| "arith_val ops bop (Sv_mat cs) (Sv_float y) = Some (Sv_mat (map (map (\<lambda>x. arith_f ops bop x y)) cs))"
| "arith_val ops bop (Sv_mat cs) (Sv_vec xs) =
     (if bop = Sh_mul \<and> length cs = length xs then Some (Sv_vec (mat_vec ops cs xs)) else None)"
| "arith_val ops bop (Sv_vec xs) (Sv_mat cs) =
     (if bop = Sh_mul \<and> length cs = length xs then Some (Sv_vec (vec_mat ops xs cs)) else None)"
| "arith_val ops bop (Sv_mat cs) (Sv_mat ds) =
     (if length cs \<noteq> length ds then None
      else Some (Sv_mat (if bop = Sh_mul then map (mat_vec ops cs) ds else map2 (map2 (arith_f ops bop)) cs ds)))"
| "arith_val ops bop v w =
     (case (as_float ops v, as_float ops w) of (Some x, Some y) \<Rightarrow> Some (Sv_float (arith_f ops bop x y)) | _ \<Rightarrow> None)"

definition negated :: "bool \<Rightarrow> bool \<Rightarrow> bool" where
  "negated neg b = (neg \<noteq> b)"

fun same_val :: "('f, 'b) shader_ops_scheme \<Rightarrow> 'f shader_val \<Rightarrow> 'f shader_val \<Rightarrow> bool option" where
  "same_val ops (Sv_bool a) (Sv_bool b) = Some (a = b)"
| "same_val ops (Sv_int i) (Sv_int j) = Some (i = j)"
| "same_val ops (Sv_uint i) (Sv_uint j) = Some (i = j)"
| "same_val ops (Sv_vec xs) (Sv_vec ys) =
     (if length xs = length ys then Some (list_all2 (compare_f ops Sh_eq) xs ys) else None)"
| "same_val ops (Sv_mat cs) (Sv_mat ds) =
     (if length cs = length ds then Some (list_all2 (list_all2 (compare_f ops Sh_eq)) cs ds) else None)"
| "same_val ops v w =
     (case (as_float ops v, as_float ops w) of (Some x, Some y) \<Rightarrow> Some (compare_f ops Sh_eq x y) | _ \<Rightarrow> None)"

fun order_val :: "('f, 'b) shader_ops_scheme \<Rightarrow> shader_bin_op \<Rightarrow> 'f shader_val \<Rightarrow> 'f shader_val \<Rightarrow> bool option" where
  "order_val ops bop (Sv_int i) (Sv_int j) = Some (compare_i ops bop i j)"
| "order_val ops bop (Sv_uint i) (Sv_uint j) = Some (compare_i ops bop i j)"
| "order_val ops bop v w =
     (case (as_float ops v, as_float ops w) of (Some x, Some y) \<Rightarrow> Some (compare_f ops bop x y) | _ \<Rightarrow> None)"

fun logic_val :: "shader_bin_op \<Rightarrow> 'f shader_val \<Rightarrow> 'f shader_val \<Rightarrow> 'f shader_val option" where
  "logic_val bop (Sv_bool a) (Sv_bool b) = Some (Sv_bool (if bop = Sh_and then a \<and> b else a \<or> b))"
| "logic_val bop v w = None"

fun mod_val :: "('f, 'b) shader_ops_scheme \<Rightarrow> 'f shader_val \<Rightarrow> 'f shader_val \<Rightarrow> 'f shader_val option" where
  "mod_val ops (Sv_int i) (Sv_int j) = Some (Sv_int (arith_i ops Sh_mod i j))"
| "mod_val ops (Sv_uint i) (Sv_uint j) = Some (Sv_uint (arith_u ops Sh_mod i j))"
| "mod_val ops v w = None"

definition bin_val :: "('f, 'b) shader_ops_scheme \<Rightarrow> shader_bin_op \<Rightarrow> 'f shader_val \<Rightarrow> 'f shader_val \<Rightarrow> 'f shader_val option" where
  "bin_val ops bop v w =
     (if bop \<in> {Sh_and, Sh_or} then logic_val bop v w
      else if bop \<in> {Sh_eq, Sh_ne} then map_option (\<lambda>b. Sv_bool (negated (bop = Sh_ne) b)) (same_val ops v w)
      else if bop \<in> {Sh_lt, Sh_le, Sh_gt, Sh_ge} then map_option Sv_bool (order_val ops bop v w)
      else if bop = Sh_mod then mod_val ops v w
      else arith_val ops bop v w)"

fun un_val :: "('f, 'b) shader_ops_scheme \<Rightarrow> shader_un_op \<Rightarrow> 'f shader_val \<Rightarrow> 'f shader_val option" where
  "un_val ops Sh_not v = (case v of Sv_bool b \<Rightarrow> Some (Sv_bool (\<not> b)) | _ \<Rightarrow> None)"
| "un_val ops Sh_neg (Sv_int i) = Some (Sv_int (arith_i ops Sh_sub 0 i))"
| "un_val ops Sh_neg (Sv_uint i) = Some (Sv_uint (arith_u ops Sh_sub 0 i))"
| "un_val ops Sh_neg v = arith_val ops Sh_sub (Sv_float (int_f ops 0)) v"

fun flatten_val :: "('f, 'b) shader_ops_scheme \<Rightarrow> 'f shader_val \<Rightarrow> 'f list" where
  "flatten_val ops (Sv_vec xs) = xs"
| "flatten_val ops (Sv_mat cs) = concat cs"
| "flatten_val ops v = (case as_float ops v of Some x \<Rightarrow> [x] | None \<Rightarrow> [])"

fun chunks :: "nat \<Rightarrow> nat \<Rightarrow> 'a list \<Rightarrow> 'a list list" where
  "chunks n 0 xs = []"
| "chunks n (Suc k) xs = take n xs # chunks n k (drop n xs)"

definition diagonal :: "('f, 'b) shader_ops_scheme \<Rightarrow> nat \<Rightarrow> 'f \<Rightarrow> 'f list list" where
  "diagonal ops n x = map (\<lambda>i. (replicate n (int_f ops 0))[i := x]) [0..<n]"

fun cast_val :: "('f, 'b) shader_ops_scheme \<Rightarrow> shader_type \<Rightarrow> 'f shader_val \<Rightarrow> 'f shader_val option" where
  "cast_val ops Sh_int (Sv_int i) = Some (Sv_int i)"
| "cast_val ops Sh_int (Sv_uint i) = Some (Sv_int i)"
| "cast_val ops Sh_int (Sv_float x) = Some (Sv_int (f_int ops x))"
| "cast_val ops Sh_uint (Sv_int i) = Some (Sv_uint i)"
| "cast_val ops Sh_uint (Sv_uint i) = Some (Sv_uint i)"
| "cast_val ops Sh_uint (Sv_float x) = Some (Sv_uint (f_int ops x))"
| "cast_val ops t v = (case as_float ops v of None \<Rightarrow> None | Some x \<Rightarrow>
     if t = Sh_float then Some (Sv_float x)
     else if isVector t then Some (Sv_vec (replicate (components t) x))
     else if isMatrix t then Some (Sv_mat (diagonal ops (order_of t) x)) else None)"

definition scalar_val :: "'f shader_val \<Rightarrow> bool" where
  "scalar_val v \<longleftrightarrow> of_type Sh_float v \<or> of_type Sh_int v \<or> of_type Sh_uint v"

definition construct_val :: "('f, 'b) shader_ops_scheme \<Rightarrow> shader_type \<Rightarrow> 'f shader_val list \<Rightarrow> 'f shader_val option" where
  "construct_val ops t vs =
     (if length vs = 1 \<and> scalar_val (hd vs) then cast_val ops t (hd vs)
      else let xs = concat (map (flatten_val ops) vs) in
        if isVector t \<and> length xs = components t then Some (Sv_vec xs)
        else if isMatrix t \<and> length xs = order_of t * order_of t then Some (Sv_mat (chunks (order_of t) (order_of t) xs))
        else None)"

definition swizzle_indices :: "string \<Rightarrow> nat list" where
  "swizzle_indices sw = map (\<lambda>ch. the (index_of ch (swizzle_set sw))) sw"

definition pack_vec :: "'f list \<Rightarrow> 'f shader_val" where
  "pack_vec xs = (case xs of [x] \<Rightarrow> Sv_float x | _ \<Rightarrow> Sv_vec xs)"

fun swizzle_val :: "string \<Rightarrow> 'f shader_val \<Rightarrow> 'f shader_val option" where
  "swizzle_val sw (Sv_vec xs) =
     (if list_all (\<lambda>i. i < length xs) (swizzle_indices sw) then Some (pack_vec (map (\<lambda>i. xs ! i) (swizzle_indices sw)))
      else None)"
| "swizzle_val sw v = None"

fun sample_val :: "('f, 'b) shader_ops_scheme \<Rightarrow> 'f shader_val \<Rightarrow> 'f shader_val \<Rightarrow> 'f shader_val option" where
  "sample_val ops (Sv_texture k) (Sv_vec [x, y]) = (case texel ops k x y of (r, g, b, a) \<Rightarrow> Some (Sv_vec [r, g, b, a]))"
| "sample_val ops v w = None"

section \<open>Evaluation and execution\<close>

record 'f shader_store =
  vals :: "string \<rightharpoonup> 'f shader_val"
  hosts :: "string \<rightharpoonup> (string \<rightharpoonup> 'f shader_val)"

fun all_some :: "'a option list \<Rightarrow> 'a list option" where
  "all_some [] = Some []"
| "all_some (None # ms) = None"
| "all_some (Some x # ms) = map_option ((#) x) (all_some ms)"

definition host_of :: "'f shader_store \<Rightarrow> shader_expr \<Rightarrow> (string \<rightharpoonup> 'f shader_val) option" where
  "host_of \<rho> base = (case base of Sh_ident n \<Rightarrow> hosts \<rho> n | _ \<Rightarrow> None)"

primrec eval_shader :: "('f, 'b) shader_ops_scheme \<Rightarrow> 'f shader_store \<Rightarrow> shader_expr \<Rightarrow> 'f shader_val option" where
  "eval_shader ops \<rho> (Sh_float_literal w) = Some (Sv_float (literal_f ops w))"
| "eval_shader ops \<rho> (Sh_int_literal i) = Some (Sv_int i)"
| "eval_shader ops \<rho> (Sh_bool_literal b) = Some (Sv_bool b)"
| "eval_shader ops \<rho> (Sh_ident n) = vals \<rho> n"
| "eval_shader ops \<rho> (Sh_member_access base f) =
     (case host_of \<rho> base of Some m \<Rightarrow> m f | None \<Rightarrow> Option.bind (eval_shader ops \<rho> base) (swizzle_val f))"
| "eval_shader ops \<rho> (Sh_binary bop l r) =
     Option.bind (eval_shader ops \<rho> l) (\<lambda>v. Option.bind (eval_shader ops \<rho> r) (bin_val ops bop v))"
| "eval_shader ops \<rho> (Sh_unary uop e) = Option.bind (eval_shader ops \<rho> e) (un_val ops uop)"
| "eval_shader ops \<rho> (Sh_construct t args) = Option.bind (all_some (map (eval_shader ops \<rho>) args)) (construct_val ops t)"
| "eval_shader ops \<rho> (Sh_sample tex uv) =
     Option.bind (eval_shader ops \<rho> tex) (\<lambda>v. Option.bind (eval_shader ops \<rho> uv) (sample_val ops v))"
| "eval_shader ops \<rho> (Sh_call f args) = None"

definition set_val :: "string \<Rightarrow> 'f shader_val \<Rightarrow> 'f shader_store \<Rightarrow> 'f shader_store" where
  "set_val n v \<rho> = \<rho>\<lparr>vals := (vals \<rho>)(n \<mapsto> v)\<rparr>"

text \<open>An integer stored in an \<open>f32\<close> is converted.\<close>

definition coerce :: "('f, 'b) shader_ops_scheme \<Rightarrow> 'f shader_val \<Rightarrow> 'f shader_val \<Rightarrow> 'f shader_val" where
  "coerce ops old v = (case (old, v) of (Sv_float x, Sv_int i) \<Rightarrow> Sv_float (int_f ops i) | _ \<Rightarrow> v)"

fun put_components :: "nat list \<Rightarrow> 'f list \<Rightarrow> 'f list \<Rightarrow> 'f list" where
  "put_components (i # is) (y # ys) xs = put_components is ys (xs[i := y])"
| "put_components _ _ xs = xs"

definition assign_val :: "('f, 'b) shader_ops_scheme \<Rightarrow> shader_expr \<Rightarrow> 'f shader_val \<Rightarrow> 'f shader_store \<Rightarrow> 'f shader_store option" where
  "assign_val ops target v \<rho> =
     (case target of
        Sh_ident n \<Rightarrow> map_option (\<lambda>old. set_val n (coerce ops old v) \<rho>) (vals \<rho> n)
      | Sh_member_access (Sh_ident n) sw \<Rightarrow>
          (case vals \<rho> n of
             Some (Sv_vec xs) \<Rightarrow>
               if list_all (\<lambda>i. i < length xs) (swizzle_indices sw) \<and>
                  length (flatten_val ops v) = length (swizzle_indices sw)
               then Some (set_val n (Sv_vec (put_components (swizzle_indices sw) (flatten_val ops v) xs)) \<rho>)
               else None
           | _ \<Rightarrow> None)
      | _ \<Rightarrow> None)"

fun run_all :: "('s \<Rightarrow> 's option) list \<Rightarrow> 's \<Rightarrow> 's option" where
  "run_all [] s = Some s"
| "run_all (f # fs) s = Option.bind (f s) (run_all fs)"

primrec exec_stmt :: "('f, 'b) shader_ops_scheme \<Rightarrow> shader_stmt \<Rightarrow> 'f shader_store \<Rightarrow> 'f shader_store option" where
  "exec_stmt ops (Sh_assign target rhs) = (\<lambda>\<rho>. Option.bind (eval_shader ops \<rho> rhs) (\<lambda>v. assign_val ops target v \<rho>))"
| "exec_stmt ops (Sh_if_stmt cond body) = (\<lambda>\<rho>.
     case eval_shader ops \<rho> cond of
       Some (Sv_bool b) \<Rightarrow> if b then run_all (map (exec_stmt ops) body) \<rho> else Some \<rho>
     | _ \<Rightarrow> None)"

definition exec_stage :: "('f, 'b) shader_ops_scheme \<Rightarrow> shader_stmt list \<Rightarrow> 'f shader_store \<Rightarrow> 'f shader_store option" where
  "exec_stage ops ss = run_all (map (exec_stmt ops) ss)"

section \<open>Operations keep the types\<close>

text \<open>What the checker admits and no value answers: adding, subtracting or dividing a matrix and a vector, and comparing
  two samplers.\<close>

definition undefined_op :: "shader_bin_op \<Rightarrow> shader_type \<Rightarrow> shader_type \<Rightarrow> bool" where
  "undefined_op bop l r \<longleftrightarrow>
     bop \<in> {Sh_add, Sh_sub, Sh_div} \<and> (isMatrix l \<and> isVector r \<or> isVector l \<and> isMatrix r) \<or>
     bop \<in> {Sh_eq, Sh_ne} \<and> l = Sh_sampler2d"

lemma of_vector: "isVector t \<Longrightarrow> of_type t v \<longleftrightarrow> (\<exists>xs. v = Sv_vec xs \<and> length xs = components t)"
  by (auto simp: isVector_def split: shader_val.splits)

lemma of_matrix: "isMatrix t \<Longrightarrow> of_type t v \<longleftrightarrow> (\<exists>cs. v = Sv_mat cs \<and> square (order_of t) cs)"
  by (auto simp: isMatrix_def order_of_def split: shader_val.splits)

lemma of_float: "of_type Sh_float v \<longleftrightarrow> (\<exists>x. v = Sv_float x)"
  and of_int: "of_type Sh_int v \<longleftrightarrow> (\<exists>i. v = Sv_int i)"
  and of_uint: "of_type Sh_uint v \<longleftrightarrow> (\<exists>i. v = Sv_uint i)"
  and of_bool: "of_type Sh_bool v \<longleftrightarrow> (\<exists>b. v = Sv_bool b)"
  and of_texture: "of_type Sh_sampler2d v \<longleftrightarrow> (\<exists>k. v = Sv_texture k)"
  by (auto split: shader_val.splits)

lemmas of_scalar = of_float of_int of_uint of_bool of_texture

declare of_type.simps [simp del]

lemma scalar_as_float: "isScalar t \<Longrightarrow> of_type t v \<Longrightarrow> \<exists>x. as_float ops v = Some x"
  by (auto simp: isScalar_def of_scalar)

lemma scalar_cases: "isScalar t \<Longrightarrow> t = Sh_float \<or> t = Sh_int \<or> t = Sh_uint"
  by (simp add: isScalar_def)

lemma square_map: "square n cs \<Longrightarrow> square n (map (map f) cs)"
  by (auto simp: square_def list_all_iff)

lemma square_map2: "square n cs \<Longrightarrow> square n ds \<Longrightarrow> square n (map2 (map2 f) cs ds)"
  by (auto simp: square_def list_all_iff set_zip dest: nth_mem)

lemma square_product: "square n cs \<Longrightarrow> square n ds \<Longrightarrow> square n (map (mat_vec ops cs) ds)"
  by (auto simp: square_def list_all_iff mat_vec_def)

lemma order_components: "isMatrix m \<Longrightarrow> components v = order_of m \<Longrightarrow> isVector v"
  by (auto simp: isMatrix_def order_of_def isVector_components)

lemma arith_sound:
  assumes "arith_type l r t" and "bop \<in> {Sh_add, Sh_sub, Sh_mul, Sh_div}" and "\<not> undefined_op bop l r"
    and "of_type l v" and "of_type r w"
  shows "\<exists>u. arith_val ops bop v w = Some u \<and> of_type t u"
  using assms
proof (induction rule: arith_type.induct)
  case (arith_scalar l r t)
  then show ?case by (auto simp: widens_iff of_scalar dest!: scalar_cases)
next
  case (arith_same t)
  then show ?case
    by (auto simp: of_vector of_matrix square_product square_map2) (auto simp: square_def)
next
  case (arith_scale t)
  then show ?case by (auto simp: of_vector of_matrix of_float square_map)
next
  case (arith_scale' t)
  then show ?case by (auto simp: of_vector of_matrix of_float square_map)
next
  case (arith_apply m v')
  then have "isVector v'" by (blast intro: order_components)
  with arith_apply show ?case
    by (auto simp: of_vector of_matrix undefined_op_def square_def mat_vec_def)
next
  case (arith_apply' m v')
  then have "isVector v'" by (blast intro: order_components)
  with arith_apply' show ?case
    by (auto simp: of_vector of_matrix undefined_op_def square_def vec_mat_def)
qed

lemma same_sound:
  assumes "l = r \<or> widens l r t" and "l \<noteq> Sh_sampler2d" and "of_type l v" and "of_type r w"
  shows "\<exists>b. same_val ops v w = Some b"
proof (cases "isVector l \<or> isMatrix l")
  case True
  then have "l = r" using assms(1) widens_scalar kinds_exclusive by blast
  with True assms show ?thesis by (auto simp: of_vector of_matrix square_def)
next
  case False
  then have "isScalar l \<or> l = Sh_bool" using assms(2) by (cases l) (auto simp: isVector_def isMatrix_def isScalar_def)
  with assms show ?thesis by (auto simp: widens_iff of_scalar dest!: scalar_cases)
qed

lemma bin_sound:
  assumes "bin_type bop l r t" and "\<not> undefined_op bop l r" and "of_type l v" and "of_type r w"
  shows "\<exists>u. bin_val ops bop v w = Some u \<and> of_type t u"
  using assms
proof (induction rule: bin_type.induct)
  case (bin_logic bop)
  then show ?case by (auto simp: bin_val_def of_bool)
next
  case (bin_equal bop l r t)
  then have "\<exists>b. same_val ops v w = Some b" by (intro same_sound) (auto simp: undefined_op_def)
  with bin_equal.hyps(1) show ?case by (auto simp: bin_val_def of_bool)
next
  case (bin_order bop l r t)
  then show ?case by (auto simp: bin_val_def widens_iff of_scalar dest!: scalar_cases)
next
  case (bin_mod t)
  then show ?case by (auto simp: bin_val_def of_scalar)
next
  case (bin_arith bop l r t)
  then show ?case using arith_sound [of l r t bop v w ops] by (auto simp: bin_val_def)
qed

lemma un_sound: "un_type uop s t \<Longrightarrow> of_type s v \<Longrightarrow> \<exists>u. un_val ops uop v = Some u \<and> of_type t u"
  by (induction rule: un_type.induct)
    (auto simp: of_scalar of_vector of_matrix square_map dest!: scalar_cases)

subsection \<open>Construction\<close>

lemma chunks_square: "length xs = n * k \<Longrightarrow> length (chunks n k xs) = k \<and> list_all (\<lambda>col. length col = n) (chunks n k xs)"
  by (induction n k xs rule: chunks.induct) simp_all

lemma diagonal_square: "square n (diagonal ops n x)"
  by (auto simp: square_def diagonal_def list_all_iff)

lemma concat_square: "square n cs \<Longrightarrow> length (concat cs) = n * n"
proof -
  have "list_all (\<lambda>col. length col = n) cs \<Longrightarrow> length (concat cs) = length cs * n"
    by (induction cs) simp_all
  then show "square n cs \<Longrightarrow> ?thesis" by (simp add: square_def)
qed

lemma order_positive: "isMatrix t \<Longrightarrow> order_of t \<noteq> 0"
  by (auto simp: isMatrix_def order_of_def)

lemma flatten_length: "isScalar t \<or> isVector t \<Longrightarrow> of_type t v \<Longrightarrow> length (flatten_val ops v) = components t"
  by (auto simp: isScalar_def of_scalar of_vector)

lemma flatten_all:
  assumes "list_all2 of_type ts vs" and "\<forall>t \<in> set ts. isScalar t \<or> isVector t"
  shows "length (concat (map (flatten_val ops) vs)) = sum_list (map components ts)"
  using assms by (induction rule: list_all2_induct) (auto simp: flatten_length)

lemma scalar_val_iff: "of_type t v \<Longrightarrow> scalar_val v \<longleftrightarrow> isScalar t"
  by (cases t) (auto simp: scalar_val_def isScalar_def of_scalar of_vector of_matrix isVector_def isMatrix_def)

lemma cast_sound:
  assumes "isScalar s" and "of_type s v" and "isScalar t \<or> isVector t \<or> isMatrix t"
  shows "\<exists>u. cast_val ops t v = Some u \<and> of_type t u"
  using assms
  by (cases t) (auto simp: isScalar_def of_scalar isVector_def isMatrix_def of_vector of_matrix diagonal_square)

lemma construct_sound:
  assumes "construct_type t ts" and "list_all2 of_type ts vs"
  shows "\<exists>u. construct_val ops t vs = Some u \<and> of_type t u"
proof (cases "length vs = 1 \<and> scalar_val (hd vs)")
  case True
  then obtain v where v: "vs = [v]" by (cases vs) auto
  then obtain s where s: "ts = [s]" "of_type s v" using assms(2) by (auto simp: list_all2_Cons2)
  then have "isScalar s" using True v scalar_val_iff by auto
  moreover have "isScalar t \<or> isVector t \<or> isMatrix t" using assms(1) by (auto simp: construct_type_iff)
  ultimately show ?thesis using True v s cast_sound [of s v t ops] by (simp add: construct_val_def)
next
  case False
  define xs where "xs = concat (map (flatten_val ops) vs)"
  have "isVector t \<and> length xs = components t \<or> isMatrix t \<and> length xs = order_of t * order_of t"
    using assms(1)
  proof (cases rule: construct_type.cases)
    case (con_fill s)
    then obtain v where "vs = [v]" "of_type s v" using assms(2) by (auto simp: list_all2_Cons1)
    then show ?thesis using False con_fill scalar_val_iff [of s v] by simp
  next
    case con_vector
    then show ?thesis using flatten_all [OF assms(2), of ops] by (simp add: xs_def)
  next
    case con_copy
    then obtain cs where "vs = [Sv_mat cs]" "square (order_of t) cs"
      using assms(2) by (auto simp: list_all2_Cons1 of_matrix)
    then show ?thesis using con_copy by (simp add: xs_def concat_square)
  next
    case con_matrix
    then have "length xs = sum_list (map components ts)" using flatten_all [OF assms(2), of ops] by (simp add: xs_def)
    also have "\<dots> = length ts" using con_matrix(2) by (induction ts) (auto simp: isScalar_components)
    finally show ?thesis using con_matrix by simp
  qed
  then show ?thesis
    using False kinds_exclusive [of t] order_positive [of t] chunks_square [of xs "order_of t" "order_of t"]
    by (auto simp: construct_val_def xs_def [symmetric] of_vector of_matrix square_def)
qed

subsection \<open>Swizzles\<close>

lemma pack_sound: "vecOf (length xs) = Some t \<Longrightarrow> of_type t (pack_vec xs)"
  by (cases xs rule: remdups_adj.cases) (auto simp: pack_vec_def vecOf_def of_float of_vector isVector_def split: if_splits)

lemma pack_flatten: "flatten_val ops (pack_vec xs) = xs"
  by (auto simp: pack_vec_def split: list.split)

lemma swizzle_fits:
  assumes "swizzles b sw lv t"
  shows "list_all (\<lambda>i. i < components b) (swizzle_indices sw)" "length (swizzle_indices sw) = length sw"
proof -
  have "sw \<noteq> []" using assms by (auto simp: swizzles_def vecOf_def)
  then have "set sw \<subseteq> set (take (components b) (swizzle_set sw))"
    using assms swizzle_set_fits [of sw "components b"] by (auto simp: swizzles_def)
  then show "list_all (\<lambda>i. i < components b) (swizzle_indices sw)"
    by (fastforce simp: swizzle_indices_def list_all_iff index_of_take)
  show "length (swizzle_indices sw) = length sw" by (simp add: swizzle_indices_def)
qed

lemma swizzle_sound:
  assumes "swizzles b sw lv t" and "of_type b v"
  shows "\<exists>u. swizzle_val sw v = Some u \<and> of_type t u"
proof -
  obtain xs where "v = Sv_vec xs" "length xs = components b"
    using assms by (auto simp: swizzles_def of_vector)
  then show ?thesis
    using swizzle_fits [OF assms(1)] assms(1) pack_sound [of "map (\<lambda>i. xs ! i) (swizzle_indices sw)" t]
    by (auto simp: swizzles_def)
qed

lemma put_components_length [simp]: "length (put_components is ys xs) = length xs"
  by (induction "is" ys xs rule: put_components.induct) simp_all

section \<open>Stores\<close>

definition typed_host :: "shader_global_group \<Rightarrow> (string \<rightharpoonup> 'f shader_val) \<Rightarrow> bool" where
  "typed_host g m \<longleftrightarrow> (\<forall>f t. map_of (map (\<lambda>x. (shf_name x, shf_ty x)) (shg_fields g)) f = Some t \<longrightarrow>
     (\<exists>v. m f = Some v \<and> of_type t v))"

definition typed_store :: "checker \<Rightarrow> stage \<Rightarrow> 'f shader_store \<Rightarrow> bool" where
  "typed_store c st \<rho> \<longleftrightarrow>
     (\<forall>n t. readable c st n t \<longrightarrow> (\<exists>v. vals \<rho> n = Some v \<and> of_type t v)) \<and>
     (\<forall>n. case groups c n of None \<Rightarrow> hosts \<rho> n = None | Some g \<Rightarrow> \<exists>m. hosts \<rho> n = Some m \<and> typed_host g m)"

lemma typed_readable: "typed_store c st \<rho> \<Longrightarrow> readable c st n t \<Longrightarrow> \<exists>v. vals \<rho> n = Some v \<and> of_type t v"
  by (simp add: typed_store_def)

lemma typed_group: "typed_store c st \<rho> \<Longrightarrow> group_of c base = Some g \<Longrightarrow> \<exists>m. host_of \<rho> base = Some m \<and> typed_host g m"
  by (fastforce simp: typed_store_def group_of_def host_of_def split: shader_expr.splits option.splits)

lemma typed_no_group:
  assumes "typed_store c st \<rho>" and "group_of c base = None"
  shows "host_of \<rho> base = None"
proof (cases base)
  case (Sh_ident n)
  have "case groups c n of None \<Rightarrow> hosts \<rho> n = None | Some g \<Rightarrow> \<exists>m. hosts \<rho> n = Some m \<and> typed_host g m"
    using assms(1) unfolding typed_store_def by blast
  then show ?thesis using assms(2) Sh_ident by (simp add: group_of_def host_of_def)
qed (simp_all add: host_of_def)

primrec ops_defined :: "checker \<Rightarrow> stage \<Rightarrow> shader_expr \<Rightarrow> bool" where
  "ops_defined c st (Sh_float_literal w) = True"
| "ops_defined c st (Sh_int_literal i) = True"
| "ops_defined c st (Sh_bool_literal b) = True"
| "ops_defined c st (Sh_ident n) = True"
| "ops_defined c st (Sh_member_access base f) = ops_defined c st base"
| "ops_defined c st (Sh_binary bop l r) = (ops_defined c st l \<and> ops_defined c st r \<and>
     (case (checkExpr c st l, checkExpr c st r) of (Inr a, Inr b) \<Rightarrow> \<not> undefined_op bop a b | _ \<Rightarrow> True))"
| "ops_defined c st (Sh_unary uop e) = ops_defined c st e"
| "ops_defined c st (Sh_construct t args) = list_all id (map (ops_defined c st) args)"
| "ops_defined c st (Sh_sample tex uv) = (ops_defined c st tex \<and> ops_defined c st uv)"
| "ops_defined c st (Sh_call f args) = True"

primrec stmt_defined :: "checker \<Rightarrow> stage \<Rightarrow> shader_stmt \<Rightarrow> bool" where
  "stmt_defined c st (Sh_assign target rhs) = ops_defined c st rhs"
| "stmt_defined c st (Sh_if_stmt cond body) = (ops_defined c st cond \<and> list_all id (map (stmt_defined c st) body))"

lemma all_some_sound:
  assumes "list_all2 (\<lambda>a t. \<exists>v. f a = Some v \<and> of_type t v) as ts"
  shows "\<exists>vs. all_some (map f as) = Some vs \<and> list_all2 of_type ts vs"
  using assms by (induction rule: list_all2_induct) auto

lemma sample_sound: "of_type Sh_sampler2d v \<Longrightarrow> of_type Sh_vec2 w \<Longrightarrow> \<exists>u. sample_val ops v w = Some u \<and> of_type Sh_vec4 u"
  by (auto simp: of_texture of_vector isVector_def length_Suc_conv numeral_2_eq_2 split: prod.split)

lemma eval_sound:
  assumes "has_type c st e t" and "ops_defined c st e" and "typed_store c st \<rho>"
  shows "\<exists>v. eval_shader ops \<rho> e = Some v \<and> of_type t v"
  using assms
proof (induction rule: has_type.induct)
  case (ty_ident n t)
  then show ?case by (simp add: typed_readable)
next
  case (ty_member base g f t)
  then show ?case using typed_group by (fastforce simp: typed_host_def)
next
  case (ty_swizzle base b f t)
  then obtain v where "eval_shader ops \<rho> base = Some v" "of_type b v" by auto
  then show ?case using swizzle_sound [OF ty_swizzle(3), of v] typed_no_group [OF ty_swizzle(6,1)] by auto
next
  case (ty_sample tex uv)
  then obtain v w where "eval_shader ops \<rho> tex = Some v" "of_type Sh_sampler2d v"
      "eval_shader ops \<rho> uv = Some w" "of_type Sh_vec2 w" by auto
  then show ?case using sample_sound [of v w ops] by auto
next
  case (ty_construct args ts t)
  then have "list_all2 (\<lambda>a t. \<exists>v. eval_shader ops \<rho> a = Some v \<and> of_type t v) args ts"
    by (auto simp: list_all_iff list_all2_conv_all_nth)
  then obtain vs where "all_some (map (eval_shader ops \<rho>) args) = Some vs" "list_all2 of_type ts vs"
    using all_some_sound by blast
  then show ?case using construct_sound [OF ty_construct(2), of vs ops] by simp
next
  case (ty_unary e s uop t)
  then obtain v where "eval_shader ops \<rho> e = Some v" "of_type s v" by auto
  then show ?case using un_sound [OF ty_unary(2), of v ops] by auto
next
  case (ty_binary e l e' r bop t)
  then have "\<not> undefined_op bop l r" by (simp add: checkExpr_iff [THEN iffD2])
  moreover obtain v w where "eval_shader ops \<rho> e = Some v" "of_type l v" "eval_shader ops \<rho> e' = Some w" "of_type r w"
    using ty_binary by auto
  ultimately show ?case using bin_sound [OF ty_binary(3), of v w ops] by auto
qed (simp_all add: of_scalar)

section \<open>Execution\<close>

definition separate_names :: "checker \<Rightarrow> bool" where
  "separate_names c \<longleftrightarrow> (\<forall>n. entries c n \<noteq> None \<longrightarrow> groups c n = None)"

lemma writable_readable: "separate_names c \<Longrightarrow> writable c st n t \<Longrightarrow> readable c st n t"
  by (auto simp: writable_iff readable_iff separate_names_def)

lemma readable_unique: "readable c st n t \<Longrightarrow> readable c st n u \<Longrightarrow> t = u"
  by (auto simp: readable_iff)

definition only_outputs_change :: "checker \<Rightarrow> stage \<Rightarrow> 'f shader_store \<Rightarrow> 'f shader_store \<Rightarrow> bool" where
  "only_outputs_change c st \<rho> \<rho>' \<longleftrightarrow> hosts \<rho>' = hosts \<rho> \<and> (\<forall>n. (\<nexists>t. writable c st n t) \<longrightarrow> vals \<rho>' n = vals \<rho> n)"

lemma unchanged_refl [simp, intro]: "only_outputs_change c st \<rho> \<rho>"
  by (simp add: only_outputs_change_def)

lemma unchanged_trans: "only_outputs_change c st \<rho> \<sigma> \<Longrightarrow> only_outputs_change c st \<sigma> \<tau> \<Longrightarrow> only_outputs_change c st \<rho> \<tau>"
  by (simp add: only_outputs_change_def)

lemma set_val_simps [simp]:
  "hosts (set_val n v \<rho>) = hosts \<rho>"
  "vals (set_val n v \<rho>) m = (if m = n then Some v else vals \<rho> m)"
  by (simp_all add: set_val_def)

lemma set_val_typed:
  assumes "separate_names c" and "typed_store c st \<rho>" and "writable c st n t" and "of_type t v"
  shows "typed_store c st (set_val n v \<rho>)" "only_outputs_change c st \<rho> (set_val n v \<rho>)"
  using assms readable_unique [OF writable_readable [OF assms(1,3)]]
  by (auto simp: typed_store_def only_outputs_change_def cong: option.case_cong)

definition steps_typed :: "checker \<Rightarrow> stage \<Rightarrow> ('f shader_store \<Rightarrow> 'f shader_store option) \<Rightarrow> bool" where
  "steps_typed c st f \<longleftrightarrow> (\<forall>\<rho>. typed_store c st \<rho> \<longrightarrow>
     (\<exists>\<rho>'. f \<rho> = Some \<rho>' \<and> typed_store c st \<rho>' \<and> only_outputs_change c st \<rho> \<rho>'))"

lemma steps_run_all: "list_all (steps_typed c st) fs \<Longrightarrow> steps_typed c st (run_all fs)"
proof (induction fs)
  case (Cons f fs)
  then have f: "steps_typed c st f" and fs: "steps_typed c st (run_all fs)" by simp_all
  show ?case
    unfolding steps_typed_def
  proof (intro allI impI)
    fix \<rho> :: "'a shader_store"
    assume "typed_store c st \<rho>"
    then obtain \<rho>1 where 1: "f \<rho> = Some \<rho>1" "typed_store c st \<rho>1" "only_outputs_change c st \<rho> \<rho>1"
      using f unfolding steps_typed_def by blast
    then obtain \<rho>2 where "run_all fs \<rho>1 = Some \<rho>2" "typed_store c st \<rho>2" "only_outputs_change c st \<rho>1 \<rho>2"
      using fs unfolding steps_typed_def by blast
    with 1 show "\<exists>\<rho>'. run_all (f # fs) \<rho> = Some \<rho>' \<and> typed_store c st \<rho>' \<and> only_outputs_change c st \<rho> \<rho>'"
      by (auto intro: unchanged_trans)
  qed
qed (simp add: steps_typed_def)

lemma coerce_typed:
  assumes "of_type t old" and "of_type t v \<or> t = Sh_float \<and> of_type Sh_int v"
  shows "of_type t (coerce ops old v)"
  using assms by (cases t) (auto simp: coerce_def of_type.simps split: shader_val.splits)

lemma flatten_vec: "vecOf n = Some t \<Longrightarrow> of_type t v \<or> t = Sh_float \<and> of_type Sh_int v \<Longrightarrow> length (flatten_val ops v) = n"
  by (auto simp: vecOf_def of_scalar of_vector isVector_def split: if_splits)

lemma assign_typed:
  assumes "separate_names c" and "typed_store c st \<rho>" and "target_type c st target t"
    and v: "of_type t v \<or> t = Sh_float \<and> of_type Sh_int v"
  shows "\<exists>\<rho>'. assign_val ops target v \<rho> = Some \<rho>' \<and> typed_store c st \<rho>' \<and> only_outputs_change c st \<rho> \<rho>'"
  using assms(3)
proof (cases rule: target_type.cases)
  case (target_name n)
  then obtain old where "vals \<rho> n = Some old" "of_type t old"
    using typed_readable [OF assms(2) writable_readable [OF assms(1) target_name(2)]] by blast
  then show ?thesis
    using target_name(1) set_val_typed [OF assms(1,2) target_name(2) coerce_typed [OF _ v, of old ops]] by (simp add: assign_val_def)
next
  case (target_swizzle n b f)
  then have "isVector b" by (simp add: swizzles_def)
  then obtain xs where xs: "vals \<rho> n = Some (Sv_vec xs)" "length xs = components b"
    using typed_readable [OF assms(2) writable_readable [OF assms(1) target_swizzle(3)]] by (auto simp: of_vector)
  have "length (flatten_val ops v) = length f"
    using flatten_vec [OF _ v, of "length f" ops] target_swizzle by (simp add: swizzles_def)
  then show ?thesis
    using target_swizzle(1) xs swizzle_fits [OF target_swizzle(4)] \<open>isVector b\<close>
      set_val_typed [OF assms(1,2) target_swizzle(3), of "Sv_vec (put_components (swizzle_indices f) (flatten_val ops v) xs)"]
    by (simp add: assign_val_def of_vector)
qed

lemma exec_typed:
  assumes "separate_names c"
  shows "well_typed c st s \<Longrightarrow> stmt_defined c st s \<Longrightarrow> steps_typed c st (exec_stmt ops s)"
proof (induction s)
  case (Sh_assign target rhs)
  show ?case
    unfolding steps_typed_def
  proof (intro allI impI)
    fix \<rho> :: "'a shader_store"
    assume \<rho>: "typed_store c st \<rho>"
    consider t where "target_type c st target t" "has_type c st rhs t"
      | i where "target_type c st target Sh_float" "rhs = Sh_int_literal i"
      using Sh_assign(1) by (auto simp: well_typed_assign)
    then show "\<exists>\<rho>'. exec_stmt ops (Sh_assign target rhs) \<rho> = Some \<rho>' \<and> typed_store c st \<rho>' \<and> only_outputs_change c st \<rho> \<rho>'"
    proof cases
      case 1
      then obtain v where "eval_shader ops \<rho> rhs = Some v" "of_type t v"
        using eval_sound [OF _ _ \<rho>] Sh_assign(2) by fastforce
      then show ?thesis using assign_typed [OF assms \<rho> 1(1), of v] by simp
    next
      case 2
      then show ?thesis using assign_typed [OF assms \<rho> 2(1), of "Sv_int i"] by (simp add: of_int)
    qed
  qed
next
  case (Sh_if_stmt cond body)
  then have "list_all (steps_typed c st) (map (exec_stmt ops) body)"
    by (auto simp: well_typed_if list_all_iff)
  then have body: "steps_typed c st (run_all (map (exec_stmt ops) body))" by (rule steps_run_all)
  show ?case
    unfolding steps_typed_def
  proof (intro allI impI)
    fix \<rho> :: "'a shader_store"
    assume \<rho>: "typed_store c st \<rho>"
    then obtain b where "eval_shader ops \<rho> cond = Some (Sv_bool b)"
      using eval_sound [OF _ _ \<rho>] Sh_if_stmt(2,3) by (fastforce simp: well_typed_if of_bool)
    then show "\<exists>\<rho>'. exec_stmt ops (Sh_if_stmt cond body) \<rho> = Some \<rho>' \<and> typed_store c st \<rho>' \<and> only_outputs_change c st \<rho> \<rho>'"
      using body \<rho> by (cases b) (auto simp: steps_typed_def)
  qed
qed

lemma environment_separate:
  assumes "wf_declarations d"
  shows "separate_names (environment d)"
proof -
  have "dom (entries (environment d)) = shc_name ` set (shd_consts d) \<union> (shf_name ` set (shd_vars d) \<union>
      (shf_name ` set (shd_params d) \<union> shf_name ` set (shd_inputs d)))"
    by (simp add: environment_def)
  moreover have "dom (groups (environment d)) = shg_name ` set (shd_globals d)"
    by (simp add: environment_def dom_map_of_conv_image_fst image_image)
  ultimately have "dom (entries (environment d)) \<inter> dom (groups (environment d)) = {}"
    using assms by (auto simp: wf_declarations_def declared_names_def)
  then show ?thesis by (auto simp: separate_names_def disjoint_iff domIff)
qed

text \<open>C1: an accepted shader goes right: in a store of the declared types, every stage of it runs to the end, whatever the
  arithmetic and the textures are, as long as no matrix is added to, subtracted from or divided by a vector and no
  samplers are compared; the store it ends in has the declared types, and only the shader's \<open>var\<close>s and the stage's
  output have changed.\<close>

theorem accepted_stage_runs:
  fixes ops :: "'f shader_ops"
  assumes "checkShaderDecl d = Inr ()" and "list_all (stmt_defined (environment d) st) (stage_body d st)"
    and "typed_store (environment d) st \<rho>"
  shows "\<exists>\<rho>'. exec_stage ops (stage_body d st) \<rho> = Some \<rho>' \<and> typed_store (environment d) st \<rho>' \<and>
    hosts \<rho>' = hosts \<rho> \<and>
    (\<forall>n. n \<in> stage_outputs st \<or> n \<in> shf_name ` set (shd_vars d) \<or> vals \<rho>' n = vals \<rho> n)"
proof -
  have wt: "well_typed_shader d" using assms(1) accepted_iff [unfolded accepted_def] by simp
  then have "separate_names (environment d)" by (simp add: well_typed_shader_def environment_separate)
  then have "list_all (steps_typed (environment d) st) (map (exec_stmt ops) (stage_body d st))"
    using assms(2) well_typed_stage [OF wt] exec_typed by (fastforce simp: list_all_iff)
  then have "steps_typed (environment d) st (exec_stage ops (stage_body d st))"
    unfolding exec_stage_def by (rule steps_run_all)
  then show ?thesis
    using assms(3) writable_env unfolding steps_typed_def only_outputs_change_def by blast
qed

definition counting_ops :: "int shader_ops" where
  "counting_ops = \<lparr>literal_f = (\<lambda>w. 1), int_f = id, f_int = id, arith_f = (\<lambda>bop. if bop = Sh_mul then (*) else (+)),
     arith_i = (\<lambda>bop. (+)), arith_u = (\<lambda>bop. (+)), compare_f = (\<lambda>bop x y. x = y), compare_i = (\<lambda>bop x y. x = y),
     texel = (\<lambda>k x y. (x, y, 0, 0))\<rparr>"

definition tint_store :: "int shader_store" where
  "tint_store = \<lparr>vals = [''tint'' \<mapsto> Sv_vec [1, 2, 3, 4], ''USE_TINT'' \<mapsto> Sv_bool True,
     ''tint_boost'' \<mapsto> Sv_vec [0, 0, 0, 0], ''tint_pre'' \<mapsto> Sv_vec [2, 3, 4, 5], ''frag_color'' \<mapsto> Sv_vec [1, 1, 1, 2]],
     hosts = Map.empty\<rparr>"

lemma tint_store_typed: "typed_store (environment tint_shader) St_fragment tint_store"
  by (auto simp: typed_store_def readable_iff environment_def tint_shader_def field_entries_def const_entries_def
      tint_store_def of_type.simps split: if_splits)

lemma tint_defined: "list_all (stmt_defined (environment tint_shader) St_fragment) (stage_body tint_shader St_fragment)"
  by (simp add: stage_body_def tint_shader_def environment_def field_entries_def const_entries_def resolveReadable_def
      undefined_op_def)

theorem accepted_stage_runs_witness:
  "(\<exists>\<rho>'. exec_stage counting_ops (stage_body tint_shader St_fragment) tint_store = Some \<rho>' \<and>
      typed_store (environment tint_shader) St_fragment \<rho>' \<and> hosts \<rho>' = hosts tint_store \<and>
      (\<forall>n. n \<in> stage_outputs St_fragment \<or> n \<in> shf_name ` set (shd_vars tint_shader) \<or> vals \<rho>' n = vals tint_store n)) \<and>
   map_option (\<lambda>\<rho>'. vals \<rho>' ''frag_color'') (exec_stage counting_ops (shd_fragment tint_shader) tint_store) =
     Some (Some (Sv_vec [2, 3, 4, 10]))"
proof
  show "\<exists>\<rho>'. exec_stage counting_ops (stage_body tint_shader St_fragment) tint_store = Some \<rho>' \<and>
      typed_store (environment tint_shader) St_fragment \<rho>' \<and> hosts \<rho>' = hosts tint_store \<and>
      (\<forall>n. n \<in> stage_outputs St_fragment \<or> n \<in> shf_name ` set (shd_vars tint_shader) \<or> vals \<rho>' n = vals tint_store n)"
    by (rule accepted_stage_runs [OF tint_checked tint_defined tint_store_typed])
  show "map_option (\<lambda>\<rho>'. vals \<rho>' ''frag_color'') (exec_stage counting_ops (shd_fragment tint_shader) tint_store) =
      Some (Some (Sv_vec [2, 3, 4, 10]))"
    by (simp add: exec_stage_def tint_shader_def tint_store_def assign_val_def bin_val_def counting_ops_def coerce_def)
qed

text \<open>The checker gives the four arithmetic operators one rule: a sum, a difference and a quotient of a matrix and a
  vector are accepted as vectors, as their product is, and so is the comparison of two samplers.\<close>

lemma arithmetic_ignores_operator:
  "checkBinary Sh_add l r = checkBinary Sh_mul l r \<and> checkBinary Sh_sub l r = checkBinary Sh_mul l r \<and>
   checkBinary Sh_div l r = checkBinary Sh_mul l r \<and> checkBinary Sh_add Sh_mat4 Sh_vec4 = Inr Sh_vec4 \<and>
   checkBinary Sh_div Sh_vec3 Sh_mat3 = Inr Sh_vec3 \<and> checkBinary Sh_eq Sh_sampler2d Sh_sampler2d = Inr Sh_bool"
  by (simp add: checkBinary_def checkArithmetic_def isScalar_def isVector_def isMatrix_def)

end
