(* ===== verification/Sla_Shader_Faults.thy ===== *)
theory Sla_Shader_Faults
  imports Sla_Shader_Typing
begin

text \<open>
  The diagnostics of the checker of shader declarations: which rule of \<open>Sla_Shader_Typing\<close> a rejected declaration
  violates first, as relations without the control flow of the checker, and the proof that \<open>checkShaderDecl\<close> reports
  exactly the kind of that violation, the name in front of the colon of its message.
\<close>

section \<open>Faults\<close>

definition diagnostic_name :: "string \<Rightarrow> string" where
  "diagnostic_name msg = takeWhile (\<lambda>ch. ch \<noteq> CHR '':'') msg"

text \<open>A name that is not readable, and one that is not writable, in a stage.\<close>

inductive read_fault :: "checker \<Rightarrow> stage \<Rightarrow> string \<Rightarrow> string \<Rightarrow> bool" for c st where
  rf_clip: "st \<noteq> St_vertex \<Longrightarrow> read_fault c st ''clip_position'' ''ShaderStageViolation''"
| rf_color: "st \<noteq> St_fragment \<Longrightarrow> read_fault c st ''frag_color'' ''ShaderStageViolation''"
| rf_global: "n \<notin> {''clip_position'', ''frag_color''} \<Longrightarrow> groups c n \<noteq> None \<Longrightarrow>
    read_fault c st n ''ShaderUnqualifiedGlobal''"
| rf_unknown: "n \<notin> {''clip_position'', ''frag_color''} \<Longrightarrow> groups c n = None \<Longrightarrow> entries c n = None \<Longrightarrow>
    read_fault c st n ''ShaderUnknownName''"
| rf_input: "n \<notin> {''clip_position'', ''frag_color''} \<Longrightarrow> groups c n = None \<Longrightarrow> entries c n = Some e \<Longrightarrow>
    en_kind e = Ek_input \<Longrightarrow> st \<noteq> St_vertex \<Longrightarrow> read_fault c st n ''ShaderStageViolation''"

inductive write_fault :: "checker \<Rightarrow> stage \<Rightarrow> string \<Rightarrow> string \<Rightarrow> bool" for c st where
  wf_clip: "st \<noteq> St_vertex \<Longrightarrow> write_fault c st ''clip_position'' ''ShaderStageViolation''"
| wf_color: "st \<noteq> St_fragment \<Longrightarrow> write_fault c st ''frag_color'' ''ShaderStageViolation''"
| wf_unknown: "n \<notin> {''clip_position'', ''frag_color''} \<Longrightarrow> entries c n = None \<Longrightarrow> write_fault c st n ''ShaderUnknownName''"
| wf_fixed: "n \<notin> {''clip_position'', ''frag_color''} \<Longrightarrow> entries c n = Some e \<Longrightarrow> en_kind e \<noteq> Ek_variable \<Longrightarrow>
    write_fault c st n ''ShaderReadOnlyAssign''"

text \<open>Operands without a type: only sums, products and quotients that are not of two scalars differ in dimension.\<close>

definition bin_fault :: "shader_bin_op \<Rightarrow> shader_type \<Rightarrow> shader_type \<Rightarrow> string \<Rightarrow> bool" where
  "bin_fault bop l r k \<longleftrightarrow> (\<nexists>t. bin_type bop l r t) \<and>
     k = (if bop \<in> {Sh_add, Sh_sub, Sh_mul, Sh_div} \<and> \<not> (isScalar l \<and> isScalar r)
          then ''ShaderDimensionMismatch'' else ''ShaderTypeMismatch'')"

definition un_fault :: "shader_un_op \<Rightarrow> shader_type \<Rightarrow> string \<Rightarrow> bool" where
  "un_fault uop s k \<longleftrightarrow> (\<nexists>t. un_type uop s t) \<and> k = ''ShaderTypeMismatch''"

text \<open>The types that cannot stand among the arguments of the construction of a vector or matrix.\<close>

definition unfit_arguments :: "shader_type \<Rightarrow> shader_type list \<Rightarrow> bool" where
  "unfit_arguments t ts \<longleftrightarrow>
     isVector t \<and> (\<exists>s \<in> set ts. \<not> isScalar s \<and> \<not> isVector s) \<or> isMatrix t \<and> (\<exists>s \<in> set ts. \<not> isScalar s)"

definition construct_fault :: "shader_type \<Rightarrow> shader_type list \<Rightarrow> string \<Rightarrow> bool" where
  "construct_fault t ts k \<longleftrightarrow> \<not> construct_type t ts \<and>
     k = (if \<not> isScalar t \<and> \<not> isVector t \<and> \<not> isMatrix t then ''ShaderInvalidConstruct''
          else if unfit_arguments t ts then ''ShaderConstructType'' else ''ShaderConstructArity'')"

text \<open>The first fault of an expression from the left: what stands before it has a type.\<close>

inductive expr_fault :: "checker \<Rightarrow> stage \<Rightarrow> shader_expr \<Rightarrow> string \<Rightarrow> bool" for c st where
  ef_name: "read_fault c st n k \<Longrightarrow> expr_fault c st (Sh_ident n) k"
| ef_member: "group_of c base = Some g \<Longrightarrow> f \<notin> shf_name ` set (shg_fields g) \<Longrightarrow>
    expr_fault c st (Sh_member_access base f) ''ShaderUnknownMember''"
| ef_base: "group_of c base = None \<Longrightarrow> expr_fault c st base k \<Longrightarrow> expr_fault c st (Sh_member_access base f) k"
| ef_swizzle: "group_of c base = None \<Longrightarrow> has_type c st base b \<Longrightarrow> \<nexists>t. swizzles b f False t \<Longrightarrow>
    expr_fault c st (Sh_member_access base f) ''ShaderInvalidSwizzle''"
| ef_tex: "expr_fault c st tex k \<Longrightarrow> expr_fault c st (Sh_sample tex uv) k"
| ef_target: "has_type c st tex t \<Longrightarrow> t \<noteq> Sh_sampler2d \<Longrightarrow> expr_fault c st (Sh_sample tex uv) ''ShaderSampleTarget''"
| ef_uv: "has_type c st tex Sh_sampler2d \<Longrightarrow> expr_fault c st uv k \<Longrightarrow> expr_fault c st (Sh_sample tex uv) k"
| ef_coord: "has_type c st tex Sh_sampler2d \<Longrightarrow> has_type c st uv t \<Longrightarrow> t \<noteq> Sh_vec2 \<Longrightarrow>
    expr_fault c st (Sh_sample tex uv) ''ShaderSampleCoord''"
| ef_argument: "list_all2 (has_type c st) pre ts \<Longrightarrow> expr_fault c st e k \<Longrightarrow>
    expr_fault c st (Sh_construct t (pre @ e # post)) k"
| ef_construct: "list_all2 (has_type c st) args ts \<Longrightarrow> construct_fault t ts k \<Longrightarrow> expr_fault c st (Sh_construct t args) k"
| ef_call: "expr_fault c st (Sh_call n args) ''ShaderUnknownCall''"
| ef_operand: "expr_fault c st e k \<Longrightarrow> expr_fault c st (Sh_unary uop e) k"
| ef_unary: "has_type c st e s \<Longrightarrow> un_fault uop s k \<Longrightarrow> expr_fault c st (Sh_unary uop e) k"
| ef_left: "expr_fault c st e k \<Longrightarrow> expr_fault c st (Sh_binary bop e e') k"
| ef_right: "has_type c st e l \<Longrightarrow> expr_fault c st e' k \<Longrightarrow> expr_fault c st (Sh_binary bop e e') k"
| ef_binary: "has_type c st e l \<Longrightarrow> has_type c st e' r \<Longrightarrow> bin_fault bop l r k \<Longrightarrow> expr_fault c st (Sh_binary bop e e') k"

inductive target_fault :: "checker \<Rightarrow> stage \<Rightarrow> shader_expr \<Rightarrow> string \<Rightarrow> bool" for c st where
  tf_name: "write_fault c st n k \<Longrightarrow> target_fault c st (Sh_ident n) k"
| tf_global: "groups c n \<noteq> None \<Longrightarrow> target_fault c st (Sh_member_access (Sh_ident n) f) ''ShaderReadOnlyAssign''"
| tf_base: "groups c n = None \<Longrightarrow> write_fault c st n k \<Longrightarrow> target_fault c st (Sh_member_access (Sh_ident n) f) k"
| tf_swizzle: "groups c n = None \<Longrightarrow> writable c st n b \<Longrightarrow> \<nexists>t. swizzles b f True t \<Longrightarrow>
    target_fault c st (Sh_member_access (Sh_ident n) f) ''ShaderInvalidSwizzle''"
| tf_other: "\<nexists>n. e = Sh_ident n \<Longrightarrow> \<nexists>n f. e = Sh_member_access (Sh_ident n) f \<Longrightarrow> target_fault c st e ''ShaderAssignTarget''"

text \<open>Statements: the target, the assigned value, the two together; the condition, then the statements in order.\<close>

inductive stmt_fault :: "checker \<Rightarrow> stage \<Rightarrow> shader_stmt \<Rightarrow> string \<Rightarrow> bool" for c st where
  sf_target: "target_fault c st target k \<Longrightarrow> stmt_fault c st (Sh_assign target val) k"
| sf_value: "target_type c st target t \<Longrightarrow> expr_fault c st val k \<Longrightarrow> stmt_fault c st (Sh_assign target val) k"
| sf_assign: "target_type c st target t \<Longrightarrow> has_type c st val u \<Longrightarrow> u \<noteq> t \<Longrightarrow>
    \<not> (t = Sh_float \<and> (\<exists>i. val = Sh_int_literal i)) \<Longrightarrow> stmt_fault c st (Sh_assign target val) ''ShaderAssignTypeMismatch''"
| sf_condition: "expr_fault c st cond k \<Longrightarrow> stmt_fault c st (Sh_if_stmt cond body) k"
| sf_not_bool: "has_type c st cond t \<Longrightarrow> t \<noteq> Sh_bool \<Longrightarrow> stmt_fault c st (Sh_if_stmt cond body) ''ShaderConditionType''"
| sf_body: "has_type c st cond Sh_bool \<Longrightarrow> list_all (well_typed c st) pre \<Longrightarrow> stmt_fault c st s k \<Longrightarrow>
    stmt_fault c st (Sh_if_stmt cond (pre @ s # post)) k"

text \<open>Declarations.  A constant is blamed for its type when everything declared before it and its name are in order.\<close>

definition names_ok :: "shader_decl \<Rightarrow> bool" where
  "names_ok d \<longleftrightarrow> distinct (declared_names d) \<and> set (declared_names d) \<inter> {''clip_position'', ''frag_color''} = {} \<and>
     (\<forall>g \<in> set (shd_globals d). distinct (map shf_name (shg_fields g)))"

definition const_fault :: "shader_decl \<Rightarrow> bool" where
  "const_fault d \<longleftrightarrow> (\<exists>pre x post. shd_consts d = pre @ x # post \<and> names_ok (d\<lparr>shd_consts := pre @ [x]\<rparr>) \<and>
     (\<forall>y \<in> set pre. const_matches (shc_ty y) (shc_value y)) \<and> \<not> const_matches (shc_ty x) (shc_value x))"

definition decl_fault :: "shader_decl \<Rightarrow> string \<Rightarrow> bool" where
  "decl_fault d k \<longleftrightarrow> \<not> wf_declarations d \<and> k = (if const_fault d then ''ShaderConstTypeMismatch'' else ''ShaderDuplicateName'')"

text \<open>The statements of a shader in the order of its stages.\<close>

definition staged :: "shader_decl \<Rightarrow> (stage \<times> shader_stmt) list" where
  "staged d = map (Pair St_init) (shd_init d) @ map (Pair St_vertex) (shd_vertex d) @ map (Pair St_fragment) (shd_fragment d)"

definition shader_fault :: "shader_decl \<Rightarrow> string \<Rightarrow> bool" where
  "shader_fault d k \<longleftrightarrow> decl_fault d k \<or>
     wf_declarations d \<and> (\<exists>pre st s post. staged d = pre @ (st, s) # post \<and>
       (\<forall>(st', s') \<in> set pre. well_typed (environment d) st' s') \<and> stmt_fault (environment d) st s k)"

inductive_simps read_fault_iff: "read_fault c st n k"
inductive_simps write_fault_iff: "write_fault c st n k"
inductive_simps target_fault_iff: "target_fault c st e k"

inductive_simps expr_fault_simps [simp]:
  "expr_fault c st (Sh_float_literal v) k"
  "expr_fault c st (Sh_int_literal i) k"
  "expr_fault c st (Sh_bool_literal b) k"
  "expr_fault c st (Sh_ident n) k"
  "expr_fault c st (Sh_member_access base f) k"
  "expr_fault c st (Sh_sample tex uv) k"
  "expr_fault c st (Sh_construct t args) k"
  "expr_fault c st (Sh_call n args) k"
  "expr_fault c st (Sh_unary uop e) k"
  "expr_fault c st (Sh_binary bop e e') k"

inductive_simps stmt_fault_simps:
  "stmt_fault c st (Sh_assign target val) k"
  "stmt_fault c st (Sh_if_stmt cond body) k"

section \<open>What a check is blamed for\<close>

definition blames :: "'a checked \<Rightarrow> string \<Rightarrow> bool" where
  "blames m k \<longleftrightarrow> (\<exists>msg. m = Inl msg \<and> diagnostic_name msg = k)"

lemma blames_simps [simp]: "blames (Inr x) k = False" "blames (Inl msg) k \<longleftrightarrow> diagnostic_name msg = k"
  by (auto simp: blames_def)

lemma blames_bind: "blames (check_bind m f) k \<longleftrightarrow> blames m k \<or> (\<exists>x. m = Inr x \<and> blames (f x) k)"
  by (cases m) (auto simp: check_bind_def)

lemma blames_seq:
  "blames (check_seq (map f as)) k \<longleftrightarrow>
    (\<exists>pre a post xs. as = pre @ a # post \<and> list_all2 (\<lambda>a x. f a = Inr x) pre xs \<and> blames (f a) k)"
proof (induction as)
  case (Cons b bs)
  show ?case
  proof
    assume "blames (check_seq (map f (b # bs))) k"
    then consider "blames (f b) k" | x where "f b = Inr x" "blames (check_seq (map f bs)) k"
      by (auto simp: blames_bind)
    then show "\<exists>pre a post xs. b # bs = pre @ a # post \<and> list_all2 (\<lambda>a x. f a = Inr x) pre xs \<and> blames (f a) k"
    proof cases
      case 1
      then show ?thesis by (intro exI [of _ "[]"]) simp
    next
      case 2
      then obtain pre a post xs where "bs = pre @ a # post" "list_all2 (\<lambda>a x. f a = Inr x) pre xs" "blames (f a) k"
        using Cons by blast
      with 2(1) show ?thesis by (intro exI [of _ "b # pre"] exI [of _ a] exI [of _ post] exI [of _ "x # xs"]) simp
    qed
  next
    assume "\<exists>pre a post xs. b # bs = pre @ a # post \<and> list_all2 (\<lambda>a x. f a = Inr x) pre xs \<and> blames (f a) k"
    then obtain pre a post xs where *: "b # bs = pre @ a # post" "list_all2 (\<lambda>a x. f a = Inr x) pre xs" "blames (f a) k"
      by blast
    show "blames (check_seq (map f (b # bs))) k"
    proof (cases pre)
      case Nil
      with * show ?thesis by (simp add: blames_bind)
    next
      case (Cons c pre')
      with *(1,2) obtain x xs' where "c = b" "bs = pre' @ a # post" "f b = Inr x" "list_all2 (\<lambda>a x. f a = Inr x) pre' xs'"
        by (auto simp: list_all2_Cons1)
      with *(3) Cons.IH show ?thesis by (auto simp: blames_bind)
    qed
  qed
qed simp

lemma diagnostic_name_simps [simp]:
  "diagnostic_name [] = []"
  "diagnostic_name (ch # msg) = (if ch = CHR '':'' then [] else ch # diagnostic_name msg)"
  by (simp_all add: diagnostic_name_def)

lemma blames_readable: "blames (resolveReadable c st n) k \<longleftrightarrow> read_fault c st n k"
proof (cases "n = ''clip_position'' \<or> n = ''frag_color''")
  case True
  then show ?thesis by (auto simp: resolveReadable_def read_fault_iff)
next
  case False
  then show ?thesis
    by (cases "groups c n"; cases "entries c n") (auto simp: resolveReadable_def read_fault_iff)
qed

lemma blames_writable: "blames (resolveWritable c st n) k \<longleftrightarrow> write_fault c st n k"
proof (cases "n = ''clip_position'' \<or> n = ''frag_color''")
  case True
  then show ?thesis by (auto simp: resolveWritable_def write_fault_iff)
next
  case False
  then show ?thesis
    by (cases "entries c n") (auto simp: resolveWritable_def write_fault_iff split: entry_kind.split)
qed

lemma blames_only: "(\<And>k. blames m k \<Longrightarrow> k = d) \<Longrightarrow> blames m k \<longleftrightarrow> (\<nexists>x. m = Inr x) \<and> k = d"
  by (cases m) auto

lemma blames_loop: "blames (swizzle_loop b sw lv seen chs) k \<Longrightarrow> k = ''ShaderInvalidSwizzle''"
proof (induction chs arbitrary: seen)
  case (Cons ch chs)
  then show ?case
    by (cases "index_of ch (swizzle_set sw)") (simp_all split: if_split_asm)
qed simp

lemma blames_swizzle: "blames (checkSwizzle b sw lv) k \<longleftrightarrow> (\<nexists>t. swizzles b sw lv t) \<and> k = ''ShaderInvalidSwizzle''"
  unfolding checkSwizzle_iff [symmetric]
proof (rule blames_only)
  have "vecOf (length sw) \<noteq> None" if "sw \<noteq> []" "length sw \<le> 4"
    using that vecOf_length [of "length sw"] by (cases sw) auto
  then show "blames (checkSwizzle b sw lv) k \<Longrightarrow> k = ''ShaderInvalidSwizzle''" for k
    using blames_loop [of b sw lv "{}" sw k]
    by (simp add: checkSwizzle_def not_less blames_bind split: option.splits if_split_asm)
qed

lemma blames_mismatch: "blames (mismatch msg sep l r) k \<longleftrightarrow> diagnostic_name (msg @ shader_type_name l @ sep @ shader_type_name r) = k"
  by (simp add: mismatch_def)

lemma blames_arithmetic:
  "blames (checkArithmetic l r) k \<Longrightarrow>
    k = (if isScalar l \<and> isScalar r then ''ShaderTypeMismatch'' else ''ShaderDimensionMismatch'')"
  unfolding checkArithmetic_def
  by (cases "isScalar l \<and> isScalar r"; cases "promoteScalars l r") (auto simp: blames_mismatch split: if_split_asm)

lemma blames_binary: "blames (checkBinary bop l r) k \<longleftrightarrow> bin_fault bop l r k"
  unfolding bin_fault_def checkBinary_iff [symmetric]
proof (rule blames_only)
  show "k = (if bop \<in> {Sh_add, Sh_sub, Sh_mul, Sh_div} \<and> \<not> (isScalar l \<and> isScalar r)
      then ''ShaderDimensionMismatch'' else ''ShaderTypeMismatch'')" if "blames (checkBinary bop l r) k" for k
    using that blames_arithmetic [of l r k]
    by (cases bop) (simp_all add: checkBinary_def blames_mismatch split: if_split_asm)
qed

lemma blames_unary: "blames (checkUnary uop s) k \<longleftrightarrow> un_fault uop s k"
  unfolding un_fault_def checkUnary_iff [symmetric]
  by (rule blames_only) (simp add: checkUnary_def split: shader_un_op.splits if_split_asm)

lemma blames_vector_total:
  "blames (vector_total t n ts) k \<longleftrightarrow> (\<exists>s \<in> set ts. \<not> isScalar s \<and> \<not> isVector s) \<and> k = ''ShaderConstructType''"
  by (induction ts arbitrary: n) auto

lemma blames_matrix_total:
  "blames (matrix_total t n ts) k \<longleftrightarrow> (\<exists>s \<in> set ts. \<not> isScalar s) \<and> k = ''ShaderConstructType''"
  by (induction ts arbitrary: n) auto

lemma blames_construct: "blames (checkConstruct t ts) k \<longleftrightarrow> construct_fault t ts k"
proof -
  define kind where "kind = (if \<not> isScalar t \<and> \<not> isVector t \<and> \<not> isMatrix t then ''ShaderInvalidConstruct''
      else if unfit_arguments t ts then ''ShaderConstructType'' else ''ShaderConstructArity'')"
  have "k = kind" if b: "blames (checkConstruct t ts) k" for k
  proof -
    consider "isVector t" | "isMatrix t" "\<not> isVector t" | "isScalar t" "\<not> isVector t" "\<not> isMatrix t"
      | "\<not> isScalar t" "\<not> isVector t" "\<not> isMatrix t" by blast
    then show ?thesis
    proof cases
      case 1
      with b kinds_exclusive(1) [OF 1] show ?thesis
        by (auto simp: kind_def checkConstruct_def blames_bind blames_vector_total vector_total_iff unfit_arguments_def
            split: if_split_asm)
    next
      case 2
      with b show ?thesis
        by (auto simp: kind_def checkConstruct_def blames_bind blames_matrix_total matrix_total_iff unfit_arguments_def
            split: if_split_asm)
    qed (use b in \<open>simp_all add: kind_def checkConstruct_def unfit_arguments_def split: if_split_asm\<close>)
  qed
  from blames_only [of "checkConstruct t ts", OF this] show ?thesis
    unfolding construct_fault_def checkConstruct_iff kind_def by auto
qed

section \<open>Expressions and statements\<close>

lemma no_group_field: "(\<nexists>t. group_field g f = Inr t) \<longleftrightarrow> f \<notin> shf_name ` set (shg_fields g)"
  using group_field_iff [of g f] by (auto simp: map_of_eq_None_iff image_image)

lemma blames_group_field: "blames (group_field g f) k \<longleftrightarrow> f \<notin> shf_name ` set (shg_fields g) \<and> k = ''ShaderUnknownMember''"
  unfolding no_group_field [symmetric]
  by (rule blames_only) (simp add: group_field_def split: option.splits)

lemma blames_expr: "blames (checkExpr c st e) k \<longleftrightarrow> expr_fault c st e k"
proof (induction e arbitrary: k)
  case (Sh_member_access base f)
  then show ?case
    by (cases "group_of c base") (auto simp: blames_group_field blames_bind checkExpr_iff blames_swizzle)
next
  case (Sh_construct t args)
  have typed: "list_all2 (\<lambda>a x. checkExpr c st a = Inr x) as ts \<longleftrightarrow> list_all2 (has_type c st) as ts" for as ts
    by (simp add: checkExpr_iff)
  have "blames (checkExpr c st (Sh_construct t args)) k \<longleftrightarrow>
      blames (check_seq (map (checkExpr c st) args)) k \<or> (\<exists>ts. list_all2 (has_type c st) args ts \<and> construct_fault t ts k)"
    by (simp add: blames_bind check_seq_map typed blames_construct)
  also have "blames (check_seq (map (checkExpr c st) args)) k \<longleftrightarrow>
      (\<exists>pre a post ts. args = pre @ a # post \<and> list_all2 (has_type c st) pre ts \<and> expr_fault c st a k)"
    unfolding blames_seq typed using Sh_construct by (metis in_set_conv_decomp)
  finally show ?case by auto
qed (auto simp: blames_readable blames_bind checkExpr_iff blames_unary blames_binary)

lemma blames_target: "blames (checkTarget c st e) k \<longleftrightarrow> target_fault c st e k"
proof -
  consider n where "e = Sh_ident n" | n f where "e = Sh_member_access (Sh_ident n) f"
    | "\<nexists>n. e = Sh_ident n" "\<nexists>n f. e = Sh_member_access (Sh_ident n) f" by blast
  then show ?thesis
  proof cases
    case 3
    then have "checkTarget c st e = Inl ''ShaderAssignTarget: only a variable or stage output can be assigned''"
      by (auto simp: checkTarget_def split: shader_expr.split)
    with 3 show ?thesis by (auto simp: target_fault_iff)
  qed (auto simp: checkTarget_def target_fault_iff blames_writable blames_bind blames_swizzle resolveWritable_iff)
qed

lemma blames_stmt: "blames (checkStmt c st s) k \<longleftrightarrow> stmt_fault c st s k"
proof (induction s arbitrary: k)
  case (Sh_assign target val)
  show ?case
    by (auto simp: stmt_fault_simps blames_bind blames_target blames_expr checkTarget_iff checkExpr_iff is_int_literal_iff
        split: if_split_asm)
next
  case (Sh_if_stmt cond body)
  have units: "(\<exists>us. list_all2 (\<lambda>s u. checkStmt c st s = Inr u) pre us) \<longleftrightarrow> list_all (well_typed c st) pre" for pre
    using check_seq_units [of "checkStmt c st" pre] by (simp add: check_seq_map checkStmt_iff)
  have "blames (check_seq (map (checkStmt c st) body)) k \<longleftrightarrow>
      (\<exists>pre s post. body = pre @ s # post \<and> list_all (well_typed c st) pre \<and> stmt_fault c st s k)"
    unfolding blames_seq units [symmetric] using Sh_if_stmt by (metis in_set_conv_decomp)
  then show ?case
    by (auto simp: stmt_fault_simps blames_bind blames_expr checkExpr_iff split: if_split_asm)
qed

section \<open>Declarations\<close>

lemma blames_name: "blames (declareName c n) k \<longleftrightarrow> \<not> unused c n \<and> k = ''ShaderDuplicateName''"
  by (auto simp: declareName_def unused_def)

lemma blames_fields_distinct: "blames (fields_distinct g seen fs) k \<Longrightarrow> k = ''ShaderDuplicateName''"
  by (induction fs arbitrary: seen) (auto split: if_split_asm)

lemma blames_groups: "blames (declare_groups gs c) k \<Longrightarrow> k = ''ShaderDuplicateName''"
  by (induction gs arbitrary: c) (auto simp: blames_bind blames_name dest: blames_fields_distinct)

lemma blames_fields: "blames (declare_fields kind fs c) k \<Longrightarrow> k = ''ShaderDuplicateName''"
  by (induction fs arbitrary: c) (auto simp: blames_bind blames_name)

definition mismatched_const :: "shader_const list \<Rightarrow> checker \<Rightarrow> bool" where
  "mismatched_const ks c \<longleftrightarrow> (\<exists>pre x post c'. ks = pre @ x # post \<and> declare_consts pre c = Inr c' \<and>
     unused c' (shc_name x) \<and> \<not> const_matches (shc_ty x) (shc_value x))"

lemma mismatched_Cons:
  "mismatched_const (y # ks) c \<longleftrightarrow> unused c (shc_name y) \<and> (const_matches (shc_ty y) (shc_value y) \<longrightarrow>
     mismatched_const ks (add_entry (shc_name y) (shc_ty y) Ek_constant c))" (is "?l \<longleftrightarrow> ?r")
proof
  assume ?l
  then obtain pre x post c' where *: "y # ks = pre @ x # post" "declare_consts pre c = Inr c'" "unused c' (shc_name x)"
    "\<not> const_matches (shc_ty x) (shc_value x)" unfolding mismatched_const_def by blast
  then show ?r
    by (cases pre) (auto simp: mismatched_const_def check_bind_Inr declareName_iff)
next
  assume r: ?r
  show ?l
  proof (cases "const_matches (shc_ty y) (shc_value y)")
    case True
    with r obtain pre x post c' where *: "ks = pre @ x # post" "unused c' (shc_name x)"
      "declare_consts pre (add_entry (shc_name y) (shc_ty y) Ek_constant c) = Inr c'"
      "\<not> const_matches (shc_ty x) (shc_value x)" unfolding mismatched_const_def by blast
    have "declareName c (shc_name y) = Inr ()" using r by (simp add: declareName_iff)
    with True * have "declare_consts (y # pre) c = Inr c'" by (simp add: check_guard_def)
    with * show ?thesis unfolding mismatched_const_def by (metis append_Cons)
  next
    case False
    with r show ?thesis
      unfolding mismatched_const_def by (intro exI [of _ "[]"] exI [of _ y] exI [of _ ks] exI [of _ c]) simp
  qed
qed

lemma blames_consts:
  "blames (declare_consts ks c) k \<Longrightarrow>
    (mismatched_const ks c \<longrightarrow> k = ''ShaderConstTypeMismatch'') \<and> (\<not> mismatched_const ks c \<longrightarrow> k = ''ShaderDuplicateName'')"
proof (induction ks arbitrary: c)
  case (Cons y ks)
  show ?case
    using Cons.IH [of "add_entry (shc_name y) (shc_ty y) Ek_constant c"] Cons.prems
    by (auto simp: blames_bind blames_name declareName_iff check_guard_def mismatched_Cons split: if_split_asm)
qed simp

definition named_part :: "shader_decl \<Rightarrow> checker checked" where
  "named_part d =
     check_bind (declare_groups (shd_globals d) \<lparr>entries = Map.empty, groups = Map.empty\<rparr>) (\<lambda>c.
     check_bind (declare_fields Ek_input (shd_inputs d) c) (\<lambda>c.
     check_bind (declare_fields Ek_param (shd_params d) c) (declare_fields Ek_variable (shd_vars d))))"

lemma declarations_cut: "declarations (d\<lparr>shd_consts := ks\<rparr>) = check_bind (named_part d) (declare_consts ks)"
  by (simp add: declarations_def named_part_def check_bind_def split: sum.split)

lemma blames_named_part: "blames (named_part d) k \<Longrightarrow> k = ''ShaderDuplicateName''"
  by (auto simp: named_part_def blames_bind dest: blames_groups blames_fields)

lemma wf_names_ok: "wf_declarations d \<longleftrightarrow> names_ok d \<and> (\<forall>k \<in> set (shd_consts d). const_matches (shc_ty k) (shc_value k))"
  by (auto simp: wf_declarations_def names_ok_def)

lemma unused_environment:
  "unused (environment d) n \<longleftrightarrow> n \<notin> {''clip_position'', ''frag_color''} \<and> n \<notin> set (declared_names d)"
  by (auto simp: unused_def environment_def declared_names_def map_of_eq_None_iff field_entries_def const_entries_def image_image)

lemma next_const_ok:
  "names_ok (d\<lparr>shd_consts := pre @ [x]\<rparr>) \<and> (\<forall>y \<in> set pre. const_matches (shc_ty y) (shc_value y)) \<longleftrightarrow>
    (\<exists>c. declarations (d\<lparr>shd_consts := pre\<rparr>) = Inr c \<and> unused c (shc_name x))"
  by (auto simp: declarations_iff unused_environment wf_names_ok names_ok_def declared_names_def)

lemma const_fault_iff: "const_fault d \<longleftrightarrow> (\<exists>c. named_part d = Inr c \<and> mismatched_const (shd_consts d) c)"
proof -
  have "const_fault d \<longleftrightarrow> (\<exists>pre x post. shd_consts d = pre @ x # post \<and>
      (\<exists>c. declarations (d\<lparr>shd_consts := pre\<rparr>) = Inr c \<and> unused c (shc_name x)) \<and> \<not> const_matches (shc_ty x) (shc_value x))"
    unfolding const_fault_def next_const_ok [symmetric] by blast
  then show ?thesis unfolding declarations_cut check_bind_Inr mismatched_const_def by blast
qed

lemma blames_declarations: "blames (declarations d) k \<longleftrightarrow> decl_fault d k"
proof -
  have cut: "declarations d = check_bind (named_part d) (declare_consts (shd_consts d))"
    using declarations_cut [where d = d and ks = "shd_consts d"] by simp
  have "k = (if const_fault d then ''ShaderConstTypeMismatch'' else ''ShaderDuplicateName'')"
    if b: "blames (declarations d) k" for k
  proof (cases "named_part d")
    case (Inl e)
    with b blames_named_part [of d k] show ?thesis by (simp add: cut const_fault_iff)
  next
    case (Inr c)
    with b blames_consts [of "shd_consts d" c k] show ?thesis by (simp add: cut const_fault_iff)
  qed
  from blames_only [of "declarations d", OF this] show ?thesis
    unfolding decl_fault_def declarations_iff by blast
qed

section \<open>Whole declarations\<close>

definition staged_fault :: "checker \<Rightarrow> (stage \<times> shader_stmt) list \<Rightarrow> string \<Rightarrow> bool" where
  "staged_fault c ss k \<longleftrightarrow> (\<exists>pre st s post. ss = pre @ (st, s) # post \<and>
     (\<forall>(st', s') \<in> set pre. well_typed c st' s') \<and> stmt_fault c st s k)"

lemma staged_fault_simps:
  "\<not> staged_fault c [] k"
  "staged_fault c ((st, s) # ss) k \<longleftrightarrow> stmt_fault c st s k \<or> well_typed c st s \<and> staged_fault c ss k"
proof -
  show "\<not> staged_fault c [] k" by (simp add: staged_fault_def)
  show "staged_fault c ((st, s) # ss) k \<longleftrightarrow> stmt_fault c st s k \<or> well_typed c st s \<and> staged_fault c ss k" (is "?l \<longleftrightarrow> ?r")
  proof
    assume ?l
    then obtain pre st' s' post where *: "(st, s) # ss = pre @ (st', s') # post"
      "\<forall>(st', s') \<in> set pre. well_typed c st' s'" "stmt_fault c st' s' k" unfolding staged_fault_def by blast
    then show ?r
    proof (cases pre)
      case (Cons p pre')
      with * have "ss = pre' @ (st', s') # post" "p = (st, s)" "well_typed c st s"
        "\<forall>(st', s') \<in> set pre'. well_typed c st' s'" by auto
      with *(3) show ?thesis unfolding staged_fault_def by blast
    qed simp
  next
    assume ?r
    then show ?l
    proof
      assume "stmt_fault c st s k"
      then show ?l unfolding staged_fault_def by (intro exI [of _ "[]"]) auto
    next
      assume *: "well_typed c st s \<and> staged_fault c ss k"
      then obtain pre st' s' post where "ss = pre @ (st', s') # post"
        "\<forall>(st', s') \<in> set pre. well_typed c st' s'" "stmt_fault c st' s' k" unfolding staged_fault_def by blast
      with * show ?l unfolding staged_fault_def by (intro exI [of _ "(st, s) # pre"] exI) auto
    qed
  qed
qed

lemma staged_fault_append:
  "staged_fault c (map (Pair st) ss @ ts) k \<longleftrightarrow>
    blames (checkStage c st ss) k \<or> list_all (well_typed c st) ss \<and> staged_fault c ts k"
proof (induction ss)
  case (Cons s ss)
  then show ?case
    by (auto simp: staged_fault_simps checkStage_def blames_bind blames_stmt checkStmt_iff)
qed (simp add: checkStage_def)

text \<open>C6: a rejection names the first violated rule.  \<open>checkShaderDecl\<close> rejects a shader declaration with a message of
  kind \<open>k\<close>, the name in front of its colon, exactly when the first fault of the declaration is of that kind: a name
  declared twice or reserved, a constant of another type, or, where the declarations are in order, the first fault of the
  first statement that is not well typed, with the stages in the order init, vertex, fragment.  The branch the source
  marks \<open>unreachable\<close> has no such name, so it is not taken.\<close>

theorem rejection_names_fault:
  "(\<exists>msg. checkShaderDecl d = Inl msg \<and> diagnostic_name msg = k) \<longleftrightarrow> shader_fault d k"
proof -
  have "(\<exists>msg. checkShaderDecl d = Inl msg \<and> diagnostic_name msg = k) \<longleftrightarrow> blames (checkShaderDecl d) k"
    by (simp add: blames_def)
  also have "\<dots> \<longleftrightarrow> decl_fault d k \<or> wf_declarations d \<and> staged_fault (environment d) (staged d) k"
    using staged_fault_append [of "environment d" St_fragment "shd_fragment d" "[]" k]
    by (auto simp: checkShaderDecl_def blames_bind blames_declarations declarations_iff staged_def staged_fault_append
        staged_fault_simps checkStage_iff)
  finally show ?thesis by (simp add: shader_fault_def staged_fault_def)
qed

end
