(* ===== verification/Sla_Shader_Parse.thy ===== *)
theory Sla_Shader_Parse
  imports Sla_Parse_Knot Sla_Shader_Check
begin

text \<open>
  The parser of shader declarations, \<open>parseShaderDecl\<close> of \<open>src/sublanguage_shader.zig\<close>, on the cursor of
  \<open>Sla_Parse\<close>.  The methods that are called again at a later token are the fields of \<open>shader_grammar\<close>.
\<close>

section \<open>Names, types and literals\<close>

record shader_grammar =
  sg_binary :: "nat \<Rightarrow> shader_expr pm"
  sg_unary :: "shader_expr pm"
  sg_literal :: "shader_literal pm"
  sg_block :: "shader_stmt list pm"

definition shader_type_table :: "(string \<times> shader_type) list" where
  "shader_type_table =
     [(''f32'', Sh_float), (''float'', Sh_float), (''i32'', Sh_int), (''int'', Sh_int), (''u32'', Sh_uint),
      (''uint'', Sh_uint), (''bool'', Sh_bool), (''vec2'', Sh_vec2), (''vec3'', Sh_vec3), (''vec4'', Sh_vec4),
      (''mat3'', Sh_mat3), (''mat4'', Sh_mat4), (''sampler2D'', Sh_sampler2d)]"

definition shaderTypeFromName :: "string \<Rightarrow> shader_type option" where
  "shaderTypeFromName name = map_of shader_type_table name"

definition parseShaderType :: "shader_type pm" where
  "parseShaderType =
     bind_p (p_take T_identifier) (\<lambda>name.
     or_fail SyntaxError (shaderTypeFromName name))"

definition parseShaderField :: "shader_field pm" where
  "parseShaderField =
     bind_p (p_take T_identifier) (\<lambda>name.
     bind_p (p_expect (T_punct P_colon)) (\<lambda>_.
     bind_p parseShaderType (\<lambda>ty.
     ret_p \<lparr>shf_name = name, shf_ty = ty\<rparr>)))"

text \<open>\<open>std.fmt.parseInt(i64, text, 0)\<close> on a text without a sign: the base comes from the prefix, and underscores
  between the digits are skipped.\<close>

definition int_base :: "string \<Rightarrow> nat \<times> string" where
  "int_base s =
     (if length s > 2 \<and> hd s = CHR ''0'' then
        if s ! 1 \<in> {CHR ''b'', CHR ''B''} then (2, drop 2 s)
        else if s ! 1 \<in> {CHR ''o'', CHR ''O''} then (8, drop 2 s)
        else if s ! 1 \<in> {CHR ''x'', CHR ''X''} then (16, drop 2 s)
        else (10, s)
      else (10, s))"

definition parse_i64 :: "string \<Rightarrow> nat option" where
  "parse_i64 s =
     (case int_base s of (base, ds) \<Rightarrow>
        if ds = [] \<or> hd ds = CHR ''_'' \<or> last ds = CHR ''_'' then None
        else parse_uint (2 ^ 63) base (stripNumericSeparators ds))"

definition neg_float :: "64 word \<Rightarrow> 64 word" where
  "neg_float v = xor v 0x8000000000000000"

definition parseLiteral :: "scope \<Rightarrow> shader_grammar \<Rightarrow> shader_literal pm" where
  "parseLiteral sc g =
     bind_p p_peek (\<lambda>t.
     bind_p p_lexeme (\<lambda>text.
     if t = T_int_literal then
       (bind_p p_advance (\<lambda>_.
        bind_p (or_fail Overflow (parse_i64 text)) (\<lambda>v.
        ret_p (Sh_int_lit (int v)))))
     else if t = T_float_literal then
       (bind_p p_advance (\<lambda>_.
        bind_p (or_fail SyntaxError (float_of sc text)) (\<lambda>v.
        ret_p (Sh_float_lit v))))
     else if t = T_identifier then
       (if text = ''true'' then bind_p p_advance (\<lambda>_. ret_p (Sh_boolean_lit True))
        else if text = ''false'' then bind_p p_advance (\<lambda>_. ret_p (Sh_boolean_lit False))
        else fail_p SyntaxError)
     else if t = T_punct P_minus then
       (bind_p p_advance (\<lambda>_.
        bind_p (sg_literal g) (\<lambda>inner.
        case inner of
          Sh_int_lit v \<Rightarrow> ret_p (Sh_int_lit (- v))
        | Sh_float_lit v \<Rightarrow> ret_p (Sh_float_lit (neg_float v))
        | Sh_boolean_lit b \<Rightarrow> fail_p SyntaxError)))
     else fail_p SyntaxError))"

section \<open>Expressions\<close>

definition infixOp :: "tag \<Rightarrow> (shader_bin_op \<times> nat) option" where
  "infixOp t = map_of
     [(T_punct P_pipe_pipe, (Sh_or, 1)), (T_punct P_amp_amp, (Sh_and, 2)),
      (T_punct P_equal_equal, (Sh_eq, 3)), (T_punct P_bang_equal, (Sh_ne, 3)),
      (T_punct P_less_than, (Sh_lt, 4)), (T_punct P_less_equal, (Sh_le, 4)),
      (T_punct P_greater_than, (Sh_gt, 4)), (T_punct P_greater_equal, (Sh_ge, 4)),
      (T_punct P_plus, (Sh_add, 5)), (T_punct P_minus, (Sh_sub, 5)),
      (T_punct P_asterisk, (Sh_mul, 6)), (T_punct P_slash, (Sh_div, 6)), (T_punct P_percent, (Sh_mod, 6))] t"

definition shader_args :: "shader_grammar \<Rightarrow> shader_expr list pm" where
  "shader_args g =
     bind_p p_peek (\<lambda>t.
     bind_p (if t = T_punct P_r_paren then ret_p [] else some_list (sg_binary g 0)) (\<lambda>args.
     bind_p (p_expect (T_punct P_r_paren)) (\<lambda>_.
     ret_p args)))"

definition parsePrimary :: "scope \<Rightarrow> shader_grammar \<Rightarrow> shader_expr pm" where
  "parsePrimary sc g =
     bind_p p_peek (\<lambda>t.
     bind_p p_lexeme (\<lambda>text.
     if t = T_int_literal then
       (bind_p p_advance (\<lambda>_.
        bind_p (or_fail Overflow (parse_i64 text)) (\<lambda>v.
        ret_p (Sh_int_literal (int v)))))
     else if t = T_float_literal then
       (bind_p p_advance (\<lambda>_.
        bind_p (or_fail SyntaxError (float_of sc text)) (\<lambda>v.
        ret_p (Sh_float_literal v))))
     else if t = T_punct P_l_paren then
       (bind_p p_advance (\<lambda>_.
        bind_p (sg_binary g 0) (\<lambda>inner.
        bind_p (p_expect (T_punct P_r_paren)) (\<lambda>_.
        ret_p inner))))
     else if t = T_identifier then
       (if text = ''true'' then bind_p p_advance (\<lambda>_. ret_p (Sh_bool_literal True))
        else if text = ''false'' then bind_p p_advance (\<lambda>_. ret_p (Sh_bool_literal False))
        else bind_p p_advance (\<lambda>_.
          bind_p (p_match (T_punct P_l_paren)) (\<lambda>m.
          if m then
            (bind_p (shader_args g) (\<lambda>args.
             ret_p (case shaderTypeFromName text of
                      Some ty \<Rightarrow> Sh_construct ty args
                    | None \<Rightarrow> Sh_call text args)))
          else ret_p (Sh_ident text))))
     else fail_p SyntaxError))"

definition postfix_step :: "shader_grammar \<Rightarrow> shader_expr \<Rightarrow> (shader_expr + shader_expr) pm" where
  "postfix_step g e =
     bind_p (p_match (T_punct P_dot)) (\<lambda>m.
     if \<not> m then ret_p (Inr e)
     else (bind_p (p_take T_identifier) (\<lambda>field.
       bind_p p_peek (\<lambda>t.
       if field = ''get'' \<and> t = T_punct P_l_paren then
         (bind_p p_advance (\<lambda>_.
          bind_p (sg_binary g 0) (\<lambda>uv.
          bind_p (p_expect (T_punct P_r_paren)) (\<lambda>_.
          ret_p (Inl (Sh_sample e uv))))))
       else ret_p (Inl (Sh_member_access e field))))))"

definition parsePostfix :: "scope \<Rightarrow> shader_grammar \<Rightarrow> shader_expr pm" where
  "parsePostfix sc g = bind_p (parsePrimary sc g) (while_p (postfix_step g))"

definition parseUnary :: "scope \<Rightarrow> shader_grammar \<Rightarrow> shader_expr pm" where
  "parseUnary sc g =
     bind_p p_peek (\<lambda>t.
     if t = T_punct P_minus then
       (bind_p p_advance (\<lambda>_.
        bind_p (sg_unary g) (\<lambda>inner.
        ret_p (Sh_unary Sh_neg inner))))
     else if t = T_punct P_bang then
       (bind_p p_advance (\<lambda>_.
        bind_p (sg_unary g) (\<lambda>inner.
        ret_p (Sh_unary Sh_not inner))))
     else parsePostfix sc g)"

definition binary_step :: "shader_grammar \<Rightarrow> nat \<Rightarrow> shader_expr \<Rightarrow> (shader_expr + shader_expr) pm" where
  "binary_step g min_prec lhs =
     bind_p p_peek (\<lambda>t.
     case infixOp t of
       None \<Rightarrow> ret_p (Inr lhs)
     | Some (bop, prec) \<Rightarrow>
         if prec < min_prec then ret_p (Inr lhs)
         else (bind_p p_advance (\<lambda>_.
           bind_p (sg_binary g (prec + 1)) (\<lambda>rhs.
           ret_p (Inl (Sh_binary bop lhs rhs))))))"

definition parseBinary :: "scope \<Rightarrow> shader_grammar \<Rightarrow> nat \<Rightarrow> shader_expr pm" where
  "parseBinary sc g min_prec = bind_p (parseUnary sc g) (while_p (binary_step g min_prec))"

section \<open>Statements and declarations\<close>

definition parseShaderStmt :: "scope \<Rightarrow> shader_grammar \<Rightarrow> shader_stmt pm" where
  "parseShaderStmt sc g =
     bind_p (p_match (T_keyword K_if)) (\<lambda>m.
     if m then
       (bind_p (parseBinary sc g 0) (\<lambda>cond.
        bind_p (sg_block g) (\<lambda>body.
        ret_p (Sh_if_stmt cond body))))
     else
       (bind_p (parseBinary sc g 0) (\<lambda>target.
        bind_p (p_expect (T_punct P_equal)) (\<lambda>_.
        bind_p (parseBinary sc g 0) (\<lambda>val.
        bind_p (p_expect (T_punct P_semicolon)) (\<lambda>_.
        ret_p (Sh_assign target val)))))))"

definition until_brace :: "'a pm \<Rightarrow> 'a list \<Rightarrow> ('a list + 'a list) pm" where
  "until_brace item xs =
     bind_p p_peek (\<lambda>t.
     if t = T_punct P_r_brace \<or> t = T_eof then ret_p (Inr xs)
     else (bind_p item (\<lambda>x.
       ret_p (Inl (xs @ [x])))))"

definition braced :: "'a pm \<Rightarrow> 'a list pm" where
  "braced item =
     bind_p (p_expect (T_punct P_l_brace)) (\<lambda>_.
     bind_p (while_p (until_brace item) []) (\<lambda>xs.
     bind_p (p_expect (T_punct P_r_brace)) (\<lambda>_.
     ret_p xs)))"

definition parseStageBlockInto :: "scope \<Rightarrow> shader_grammar \<Rightarrow> shader_stmt list pm" where
  "parseStageBlockInto sc g = braced (parseShaderStmt sc g)"

definition empty_shader :: "string \<Rightarrow> shader_decl" where
  "empty_shader name = \<lparr>shd_name = name, shd_priority = None, shd_globals = [], shd_inputs = [], shd_params = [],
     shd_consts = [], shd_vars = [], shd_init = [], shd_vertex = [], shd_fragment = []\<rparr>"

definition ended_field :: "shader_field pm" where
  "ended_field =
     bind_p parseShaderField (\<lambda>f.
     bind_p (p_expect (T_punct P_semicolon)) (\<lambda>_.
     ret_p f))"

definition const_item :: "scope \<Rightarrow> shader_grammar \<Rightarrow> shader_const pm" where
  "const_item sc g =
     bind_p parseShaderField (\<lambda>f.
     bind_p (p_expect (T_punct P_equal)) (\<lambda>_.
     bind_p (parseLiteral sc g) (\<lambda>v.
     bind_p (p_expect (T_punct P_semicolon)) (\<lambda>_.
     ret_p \<lparr>shc_name = shf_name f, shc_ty = shf_ty f, shc_value = v\<rparr>))))"

definition global_item :: "shader_global_group pm" where
  "global_item =
     bind_p (p_expect (T_keyword K_struct)) (\<lambda>_.
     bind_p (p_take T_identifier) (\<lambda>name.
     bind_p (braced ended_field) (\<lambda>fields.
     ret_p \<lparr>shg_name = name, shg_fields = fields\<rparr>)))"

definition at_item :: "scope \<Rightarrow> shader_grammar \<Rightarrow> shader_decl \<Rightarrow> shader_decl pm" where
  "at_item sc g d =
     bind_p (p_match (T_keyword K_const)) (\<lambda>m.
     if m then
       (bind_p (const_item sc g) (\<lambda>k.
        ret_p (d\<lparr>shd_consts := shd_consts d @ [k]\<rparr>)))
     else
       (bind_p (p_take T_identifier) (\<lambda>qual.
        if qual = ''global'' then
          (bind_p global_item (\<lambda>group.
           ret_p (d\<lparr>shd_globals := shd_globals d @ [group]\<rparr>)))
        else if qual = ''input'' then
          (bind_p ended_field (\<lambda>f.
           ret_p (d\<lparr>shd_inputs := shd_inputs d @ [f]\<rparr>)))
        else if qual = ''param'' then
          (bind_p ended_field (\<lambda>f.
           ret_p (d\<lparr>shd_params := shd_params d @ [f]\<rparr>)))
        else fail_p SyntaxError)))"

definition word_item :: "scope \<Rightarrow> shader_grammar \<Rightarrow> shader_decl \<Rightarrow> shader_decl pm" where
  "word_item sc g d =
     bind_p p_lexeme (\<lambda>kw.
     if kw = ''priority'' then
       (bind_p p_advance (\<lambda>_.
        bind_p (p_take T_int_literal) (\<lambda>text.
        bind_p (or_fail Overflow (parse_i64 text)) (\<lambda>v.
        bind_p (p_expect (T_punct P_semicolon)) (\<lambda>_.
        ret_p (d\<lparr>shd_priority := Some (int v)\<rparr>))))))
     else if kw = ''init'' then
       (bind_p p_advance (\<lambda>_.
        bind_p (parseStageBlockInto sc g) (\<lambda>ss.
        ret_p (d\<lparr>shd_init := shd_init d @ ss\<rparr>))))
     else if kw = ''vertex'' then
       (bind_p p_advance (\<lambda>_.
        bind_p (parseStageBlockInto sc g) (\<lambda>ss.
        ret_p (d\<lparr>shd_vertex := shd_vertex d @ ss\<rparr>))))
     else if kw = ''fragment'' then
       (bind_p p_advance (\<lambda>_.
        bind_p (parseStageBlockInto sc g) (\<lambda>ss.
        ret_p (d\<lparr>shd_fragment := shd_fragment d @ ss\<rparr>))))
     else fail_p SyntaxError)"

definition shader_item :: "scope \<Rightarrow> shader_grammar \<Rightarrow> shader_decl \<Rightarrow> (shader_decl + shader_decl) pm" where
  "shader_item sc g d =
     bind_p p_peek (\<lambda>t.
     if t = T_punct P_r_brace \<or> t = T_eof then ret_p (Inr d)
     else if t = T_punct P_at then
       (bind_p p_advance (\<lambda>_.
        bind_p (at_item sc g d) (\<lambda>d'.
        ret_p (Inl d'))))
     else if t = T_keyword K_var then
       (bind_p p_advance (\<lambda>_.
        bind_p ended_field (\<lambda>f.
        ret_p (Inl (d\<lparr>shd_vars := shd_vars d @ [f]\<rparr>)))))
     else if t = T_identifier then
       (bind_p (word_item sc g d) (\<lambda>d'.
        ret_p (Inl d')))
     else fail_p SyntaxError)"

definition parseShaderDecl :: "scope \<Rightarrow> shader_grammar \<Rightarrow> node pm" where
  "parseShaderDecl sc g =
     bind_p (p_expect T_identifier) (\<lambda>_.
     bind_p (p_take T_identifier) (\<lambda>name.
     bind_p (p_expect (T_punct P_l_brace)) (\<lambda>_.
     bind_p (while_p (shader_item sc g) (empty_shader name)) (\<lambda>d.
     bind_p (p_expect (T_punct P_r_brace)) (\<lambda>_.
     ret_p (Sublanguage_decl \<lparr>sl_kind = ''shader'', sl_name = name, sl_shader = d\<rparr>))))))"

section \<open>The depth of the recursion\<close>

fun shader_at :: "scope \<Rightarrow> nat \<Rightarrow> shader_grammar" where
  "shader_at sc 0 = \<lparr>sg_binary = (\<lambda>p. out_p), sg_unary = out_p, sg_literal = out_p, sg_block = out_p\<rparr>"
| "shader_at sc (Suc n) = \<lparr>sg_binary = parseBinary sc (shader_at sc n), sg_unary = parseUnary sc (shader_at sc n),
     sg_literal = parseLiteral sc (shader_at sc n), sg_block = parseStageBlockInto sc (shader_at sc n)\<rparr>"

text \<open>Every call that recurs has consumed a token.\<close>

definition shader_parser :: "scope \<Rightarrow> shader_grammar" where
  "shader_parser sc =
     (let at = (\<lambda>st. shader_at sc (Suc (weight (toks st)))) in
      \<lparr>sg_binary = (\<lambda>p st. sg_binary (at st) p st), sg_unary = (\<lambda>st. sg_unary (at st) st),
       sg_literal = (\<lambda>st. sg_literal (at st) st), sg_block = (\<lambda>st. sg_block (at st) st)\<rparr>)"

locale shader_contract =
  fixes g :: shader_grammar and k :: nat
  assumes binaries: "eats k None (sg_binary g p)"
    and unaries: "eats k None (sg_unary g)"
    and literals: "eats k None (sg_literal g)"
    and sblocks: "eats k None (sg_block g)"
begin

lemma scalls:
  "eats k T (sg_binary g p)" "eats k T (sg_unary g)" "eats k T (sg_literal g)" "eats k T (sg_block g)"
  using eats_any binaries unaries literals sblocks by blast+

lemma scalls_steady:
  "steady_p k (sg_binary g p)" "steady_p k (sg_unary g)" "steady_p k (sg_literal g)" "steady_p k (sg_block g)"
  using eats_steady binaries unaries literals sblocks by blast+

lemma sargs_steady: "steady_p k (shader_args g)"
  unfolding shader_args_def by (intro ends scalls_steady list_steady(1) binaries)

lemma type_steady: "steady_p j parseShaderType"
  unfolding parseShaderType_def by (intro ends)

lemma field_eats: "eats (Suc j) T parseShaderField"
  unfolding parseShaderField_def parseShaderType_def by (intro ends) simp_all

lemma literal_eats: "eats (Suc k) T (parseLiteral sc g)"
  unfolding parseLiteral_def
  by (intro peek_first look_first split_intro)
    (auto intro!: ends scalls_steady split: shader_literal.split)

lemma primary_eats: "eats (Suc k) T (parsePrimary sc g)"
  unfolding parsePrimary_def
  by (intro peek_first look_first split_intro)
    (auto intro!: ends scalls_steady sargs_steady)

lemma postfix_rounds: "rounds k T (postfix_step g e)"
  unfolding postfix_step_def by (intro ends scalls_steady) simp_all

lemma postfix_eats: "eats (Suc k) T (parsePostfix sc g)"
  unfolding parsePostfix_def by (intro eats_bind primary_eats while_steady postfix_rounds)

lemma unary_eats: "eats (Suc k) T (parseUnary sc g)"
  unfolding parseUnary_def
  by (intro peek_first split_intro postfix_eats) (auto intro!: ends scalls_steady)

lemma binary_rounds: "rounds k T (binary_step g p e)"
  unfolding binary_step_def by (rule peek_first) (auto intro!: ends scalls_steady simp: infixOp_def split: option.split)

lemma binary_eats: "eats (Suc k) T (parseBinary sc g p)"
  unfolding parseBinary_def by (intro eats_bind unary_eats while_steady binary_rounds)

lemma binary_steady: "steady_p k (parseBinary sc g p)"
  by (rule eats_leaf [OF binary_eats])

lemma sstmt_eats: "eats (Suc k) T (parseShaderStmt sc g)"
  unfolding parseShaderStmt_def
  by (intro match_first eats_bind binary_eats steady_bind binary_steady scalls_steady ends) simp_all

lemma braced_eats:
  assumes "\<And>T. eats j T item"
  shows "eats (Suc j) T (braced item)"
  unfolding braced_def until_brace_def by (intro ends assms) simp_all

lemma sblock_eats: "eats (Suc k) T (parseStageBlockInto sc g)"
  unfolding parseStageBlockInto_def using sstmt_eats braced_eats eats_less by (metis le_SucI le_refl)

lemma ended_field_eats: "eats (Suc j) T ended_field"
  unfolding ended_field_def by (intro ends field_eats)

lemma ended_field_steady: "steady_p j ended_field"
  by (rule eats_leaf [OF ended_field_eats])

lemma const_item_steady: "steady_p k (const_item sc g)"
  unfolding const_item_def
  by (intro ends eats_leaf [OF field_eats] eats_leaf [OF literal_eats])

lemma global_item_steady: "steady_p (Suc j) global_item"
  unfolding global_item_def
  by (intro ends eats_steady [OF braced_eats [of "Suc j"]] ended_field_eats) simp_all

lemma at_item_steady: "steady_p k (at_item sc g d)"
proof -
  have "steady_p k global_item" by (rule steady_less [OF global_item_steady [of k]]) simp
  then show ?thesis
    unfolding at_item_def by (intro ends const_item_steady ended_field_steady)
qed

lemma word_item_eats: "eats (Suc k) (Some T_identifier) (word_item sc g d)"
  unfolding word_item_def
  by (intro ends eats_leaf [OF sblock_eats]) simp_all

lemma shader_item_rounds: "rounds k T (shader_item sc g d)"
  unfolding shader_item_def
  by (intro ends at_item_steady ended_field_steady) (simp_all add: eats_less [OF word_item_eats])

lemma decl_eats: "eats (Suc k) T (parseShaderDecl sc g)"
  unfolding parseShaderDecl_def by (intro ends shader_item_rounds) simp_all

end

section \<open>The parser returns\<close>

lemma shader_at_contract: "shader_contract (shader_at sc n) n"
proof (induction n)
  case 0
  show ?case by (simp add: shader_contract_def eats_def moves_def)
next
  case (Suc n)
  show ?case
    by unfold_locales (simp_all add: shader_contract.binary_eats [OF Suc] shader_contract.unary_eats [OF Suc]
        shader_contract.literal_eats [OF Suc] shader_contract.sblock_eats [OF Suc])
qed

lemma shader_lands:
  assumes "weight (toks st) < n"
  shows "lands (\<lambda>_. True) (weight (toks st)) (sg_binary (shader_at sc n) p st)"
    "lands (\<lambda>_. True) (weight (toks st)) (sg_unary (shader_at sc n) st)"
    "lands (\<lambda>_. True) (weight (toks st)) (sg_literal (shader_at sc n) st)"
    "lands (\<lambda>_. True) (weight (toks st)) (sg_block (shader_at sc n) st)"
  by (rule movesD [OF shader_contract.binaries [OF shader_at_contract, unfolded eats_def] assms at_None]
      movesD [OF shader_contract.unaries [OF shader_at_contract, unfolded eats_def] assms at_None]
      movesD [OF shader_contract.literals [OF shader_at_contract, unfolded eats_def] assms at_None]
      movesD [OF shader_contract.sblocks [OF shader_at_contract, unfolded eats_def] assms at_None])+

interpretation shader_parser: shader_contract "shader_parser sc" k for sc k
  by unfold_locales (simp_all add: shader_parser_def Let_def lands_moves shader_lands del: shader_at.simps)

lemma stmt_eats_any: "eats k T (parseShaderStmt sc (shader_parser sc'))"
  by (rule eats_less [OF shader_parser.sstmt_eats [of k]]) simp

definition shader_below :: "shader_grammar \<Rightarrow> shader_grammar \<Rightarrow> bool" where
  "shader_below g g' \<longleftrightarrow> (\<forall>p. below (sg_binary g p) (sg_binary g' p)) \<and> below (sg_unary g) (sg_unary g') \<and>
     below (sg_literal g) (sg_literal g') \<and> below (sg_block g) (sg_block g')"

lemma shader_belowD:
  assumes "shader_below g g'"
  shows "below (sg_binary g p) (sg_binary g' p)" "below (sg_unary g) (sg_unary g')"
    "below (sg_literal g) (sg_literal g')" "below (sg_block g) (sg_block g')"
  using assms by (simp_all add: shader_below_def)

lemmas shader_grammar_defs = parseLiteral_def shader_args_def parsePrimary_def postfix_step_def parsePostfix_def
  parseUnary_def binary_step_def parseBinary_def parseShaderStmt_def until_brace_def braced_def parseStageBlockInto_def

lemma below_literal:
  "below (case v of Sh_int_lit i \<Rightarrow> a i | Sh_float_lit w \<Rightarrow> b w | Sh_boolean_lit c \<Rightarrow> d c)
     (case v of Sh_int_lit i \<Rightarrow> a i | Sh_float_lit w \<Rightarrow> b w | Sh_boolean_lit c \<Rightarrow> d c)"
  by (rule below_refl)

lemma shader_methods_below:
  assumes "shader_below g g'"
  shows "below (parseBinary sc g p) (parseBinary sc g' p)" "below (parseUnary sc g) (parseUnary sc g')"
    "below (parseLiteral sc g) (parseLiteral sc g')" "below (parseStageBlockInto sc g) (parseStageBlockInto sc g')"
  unfolding shader_grammar_defs
  by (intro below_literal below_cases below_lists below_while shader_belowD [OF assms] below_bind below_refl)+

lemma shader_at_below: "n \<le> m \<Longrightarrow> shader_below (shader_at sc n) (shader_at sc m)"
proof (induction n arbitrary: m)
  case 0
  show ?case by (simp add: shader_below_def below_def out_p_def)
next
  case (Suc n)
  then obtain j where m: "m = Suc j" "n \<le> j" by (cases m) auto
  show ?case
    using shader_methods_below [OF Suc.IH [OF m(2)]] by (simp add: shader_below_def m(1))
qed

lemma shader_depth_enough:
  assumes "weight (toks st) < n"
  shows "sg_binary (shader_at sc n) p st = sg_binary (shader_parser sc) p st"
    "sg_unary (shader_at sc n) st = sg_unary (shader_parser sc) st"
    "sg_literal (shader_at sc n) st = sg_literal (shader_parser sc) st"
    "sg_block (shader_at sc n) st = sg_block (shader_parser sc) st"
proof -
  have le: "Suc (weight (toks st)) \<le> n" using assms by simp
  note below = shader_belowD [OF shader_at_below [OF le, of sc]]
  note lands = shader_lands [OF lessI, of st sc]
  show "sg_binary (shader_at sc n) p st = sg_binary (shader_parser sc) p st"
    "sg_unary (shader_at sc n) st = sg_unary (shader_parser sc) st"
    "sg_literal (shader_at sc n) st = sg_literal (shader_parser sc) st"
    "sg_block (shader_at sc n) st = sg_block (shader_parser sc) st"
    using below_lands [OF below(1) lands(1)] below_lands [OF below(2) lands(2)]
      below_lands [OF below(3) lands(3)] below_lands [OF below(4) lands(4)]
    by (simp_all add: shader_parser_def Let_def del: shader_at.simps)
qed

lemma below_reach:
  assumes "\<And>st. \<exists>m \<ge> n. M m st = f st" and "\<And>m. n \<le> m \<Longrightarrow> below (M n) (M m)"
  shows "below (M n) f"
  unfolding below_def
proof
  fix st
  obtain m where "n \<le> m" "M m st = f st" using assms(1) by blast
  then show "M n st = Out_of_fuel \<or> M n st = f st" using assms(2) [of m] by (auto simp: below_def)
qed

lemma shader_below_parser: "shader_below (shader_at sc n) (shader_parser sc)"
proof -
  have le: "n \<le> Suc (n + weight (toks st))" "weight (toks st) < Suc (n + weight (toks st))" for st by simp_all
  note less = shader_belowD [OF shader_at_below, of _ _ sc]
  have "below (sg_binary (shader_at sc n) p) (sg_binary (shader_parser sc) p)" for p
    by (rule below_reach [where M = "\<lambda>n. sg_binary (shader_at sc n) p"])
      (blast intro: le shader_depth_enough(1) [OF le(2)], rule less)
  moreover have "below (sg_unary (shader_at sc n)) (sg_unary (shader_parser sc))"
    by (rule below_reach [where M = "\<lambda>n. sg_unary (shader_at sc n)"])
      (blast intro: le shader_depth_enough(2) [OF le(2)], rule less)
  moreover have "below (sg_literal (shader_at sc n)) (sg_literal (shader_parser sc))"
    by (rule below_reach [where M = "\<lambda>n. sg_literal (shader_at sc n)"])
      (blast intro: le shader_depth_enough(3) [OF le(2)], rule less)
  moreover have "below (sg_block (shader_at sc n)) (sg_block (shader_parser sc))"
    by (rule below_reach [where M = "\<lambda>n. sg_block (shader_at sc n)"])
      (blast intro: le shader_depth_enough(4) [OF le(2)], rule less)
  ultimately show ?thesis by (simp add: shader_below_def)
qed

lemma shader_equations:
  "sg_binary (shader_parser sc) p = parseBinary sc (shader_parser sc) p"
  "sg_unary (shader_parser sc) = parseUnary sc (shader_parser sc)"
  "sg_literal (shader_parser sc) = parseLiteral sc (shader_parser sc)"
  "sg_block (shader_parser sc) = parseStageBlockInto sc (shader_parser sc)"
proof -
  have at: "sg_binary (shader_at sc (Suc n)) p = parseBinary sc (shader_at sc n) p"
    "sg_unary (shader_at sc (Suc n)) = parseUnary sc (shader_at sc n)"
    "sg_literal (shader_at sc (Suc n)) = parseLiteral sc (shader_at sc n)"
    "sg_block (shader_at sc (Suc n)) = parseStageBlockInto sc (shader_at sc n)" for n p
    by simp_all
  have "sg_binary (shader_parser sc) p st = parseBinary sc (shader_parser sc) p st \<and>
      sg_unary (shader_parser sc) st = parseUnary sc (shader_parser sc) st \<and>
      sg_literal (shader_parser sc) st = parseLiteral sc (shader_parser sc) st \<and>
      sg_block (shader_parser sc) st = parseStageBlockInto sc (shader_parser sc) st" for st
  proof -
    define n where "n = weight (toks st)"
    note below = shader_methods_below [OF shader_below_parser [of sc n], where sc = sc, folded at]
    have less: "weight (toks st) < Suc n" by (simp add: n_def)
    note lands = shader_lands [OF less, of sc]
    show ?thesis
      by (simp only: shader_depth_enough [OF less, symmetric] below_lands [OF below(1) lands(1)]
          below_lands [OF below(2) lands(2)] below_lands [OF below(3) lands(3)] below_lands [OF below(4) lands(4)])
  qed
  then show "sg_binary (shader_parser sc) p = parseBinary sc (shader_parser sc) p"
    "sg_unary (shader_parser sc) = parseUnary sc (shader_parser sc)"
    "sg_literal (shader_parser sc) = parseLiteral sc (shader_parser sc)"
    "sg_block (shader_parser sc) = parseStageBlockInto sc (shader_parser sc)"
    by (simp_all add: fun_eq_iff)
qed

text \<open>C9: the parser of shader declarations returns on any tokens: it fails, or gives a declaration after consuming
  a token, and no recursion is deeper and no loop longer than the tokens that are left.\<close>

theorem shader_parser_returns:
  "case parseShaderDecl sc (shader_parser sc) st of
     Out_of_fuel \<Rightarrow> False
   | Fails e st' \<Rightarrow> weight (toks st') \<le> weight (toks st)
   | Gives n st' \<Rightarrow> weight (toks st') < weight (toks st)"
proof -
  have "weight (toks st) < Suc (weight (toks st))" by simp
  from movesD [OF shader_parser.decl_eats [unfolded eats_def] this at_None, of sc sc]
  show ?thesis by (cases "parseShaderDecl sc (shader_parser sc) st") simp_all
qed

end
