(* ===== verification/Sla_Shader_Print.thy ===== *)
theory Sla_Shader_Print
  imports Sla_Shader_Parse Sla_Parse_Print
begin

text \<open>
  Shader declarations as tokens, with parentheses only where the table of operators asks for them, and that
  the parser reads every one of them back.  The spelling of a float is a parameter, as its reading is.
\<close>

section \<open>Printing\<close>

definition word_tok :: "string \<Rightarrow> ltoken" where
  "word_tok n = (T_identifier, n)"

definition punct_tok :: "punctuator \<Rightarrow> ltoken" where
  "punct_tok q = (T_punct q, spell_punct q)"

definition key_tok :: "keyword \<Rightarrow> string \<Rightarrow> ltoken" where
  "key_tok k s = (T_keyword k, s)"

lemma tok_sel [simp]: "fst (word_tok n) = T_identifier" "snd (word_tok n) = n" "fst (punct_tok q) = T_punct q"
  "fst (key_tok k s) = T_keyword k"
  by (simp_all add: word_tok_def punct_tok_def key_tok_def)

definition sh_parens :: "ltoken list \<Rightarrow> ltoken list" where
  "sh_parens ts = punct_tok P_l_paren # ts @ [punct_tok P_r_paren]"

definition sh_level :: "nat \<Rightarrow> nat \<Rightarrow> ltoken list \<Rightarrow> ltoken list" where
  "sh_level q p ts = (if p < q then sh_parens ts else ts)"

fun sh_punct :: "shader_bin_op \<Rightarrow> punctuator" where
  "sh_punct Sh_or = P_pipe_pipe" | "sh_punct Sh_and = P_amp_amp" | "sh_punct Sh_eq = P_equal_equal"
| "sh_punct Sh_ne = P_bang_equal" | "sh_punct Sh_lt = P_less_than" | "sh_punct Sh_le = P_less_equal"
| "sh_punct Sh_gt = P_greater_than" | "sh_punct Sh_ge = P_greater_equal" | "sh_punct Sh_add = P_plus"
| "sh_punct Sh_sub = P_minus" | "sh_punct Sh_mul = P_asterisk" | "sh_punct Sh_div = P_slash"
| "sh_punct Sh_mod = P_percent"

fun sh_prec :: "shader_bin_op \<Rightarrow> nat" where
  "sh_prec Sh_or = 1" | "sh_prec Sh_and = 2" | "sh_prec Sh_eq = 3" | "sh_prec Sh_ne = 3"
| "sh_prec Sh_lt = 4" | "sh_prec Sh_le = 4" | "sh_prec Sh_gt = 4" | "sh_prec Sh_ge = 4"
| "sh_prec Sh_add = 5" | "sh_prec Sh_sub = 5" | "sh_prec Sh_mul = 6" | "sh_prec Sh_div = 6" | "sh_prec Sh_mod = 6"

fun level_of :: "shader_expr \<Rightarrow> nat" where
  "level_of (Sh_binary bop l r) = sh_prec bop"
| "level_of (Sh_unary uop e) = 7"
| "level_of e = 8"

fun sep_comma :: "ltoken list list \<Rightarrow> ltoken list" where
  "sep_comma [] = []"
| "sep_comma [ts] = ts"
| "sep_comma (ts # tss) = ts @ punct_tok P_comma # sep_comma tss"

primrec show_shader_expr :: "(64 word \<Rightarrow> string) \<Rightarrow> shader_expr \<Rightarrow> ltoken list" where
  "show_shader_expr fs (Sh_float_literal v) = [(T_float_literal, fs v)]"
| "show_shader_expr fs (Sh_int_literal i) = [(T_int_literal, dec_nat (nat i))]"
| "show_shader_expr fs (Sh_bool_literal b) = [word_tok (if b then ''true'' else ''false'')]"
| "show_shader_expr fs (Sh_ident n) = [word_tok n]"
| "show_shader_expr fs (Sh_member_access e f) =
     sh_level 8 (level_of e) (show_shader_expr fs e) @ [punct_tok P_dot, word_tok f]"
| "show_shader_expr fs (Sh_binary bop l r) =
     sh_level (sh_prec bop) (level_of l) (show_shader_expr fs l) @
     punct_tok (sh_punct bop) # sh_level (Suc (sh_prec bop)) (level_of r) (show_shader_expr fs r)"
| "show_shader_expr fs (Sh_unary uop e) =
     punct_tok (case uop of Sh_neg \<Rightarrow> P_minus | Sh_not \<Rightarrow> P_bang) # sh_level 7 (level_of e) (show_shader_expr fs e)"
| "show_shader_expr fs (Sh_construct ty args) =
     word_tok (shader_type_name ty) # sh_parens (sep_comma (map (show_shader_expr fs) args))"
| "show_shader_expr fs (Sh_sample tex uv) =
     sh_level 8 (level_of tex) (show_shader_expr fs tex) @
     punct_tok P_dot # word_tok ''get'' # sh_parens (show_shader_expr fs uv)"
| "show_shader_expr fs (Sh_call f args) =
     word_tok f # sh_parens (sep_comma (map (show_shader_expr fs) args))"

text \<open>The expressions with a spelling: literals are not negative, names are no literals, calls no constructions.\<close>

primrec printable :: "(string \<Rightarrow> 64 word option) \<Rightarrow> (64 word \<Rightarrow> string) \<Rightarrow> shader_expr \<Rightarrow> bool" where
  "printable rd fs (Sh_float_literal v) \<longleftrightarrow> rd (fs v) = Some v"
| "printable rd fs (Sh_int_literal i) \<longleftrightarrow> 0 \<le> i \<and> i < 2 ^ 63"
| "printable rd fs (Sh_bool_literal b) \<longleftrightarrow> True"
| "printable rd fs (Sh_ident n) \<longleftrightarrow> n \<notin> {''true'', ''false''}"
| "printable rd fs (Sh_member_access e f) = printable rd fs e"
| "printable rd fs (Sh_binary bop l r) \<longleftrightarrow> printable rd fs l \<and> printable rd fs r"
| "printable rd fs (Sh_unary uop e) = printable rd fs e"
| "printable rd fs (Sh_construct ty args) = list_all id (map (printable rd fs) args)"
| "printable rd fs (Sh_sample tex uv) \<longleftrightarrow> printable rd fs tex \<and> printable rd fs uv"
| "printable rd fs (Sh_call f args) \<longleftrightarrow>
     f \<notin> {''true'', ''false''} \<and> shaderTypeFromName f = None \<and> list_all id (map (printable rd fs) args)"

section \<open>Expressions are read back\<close>

definition ends_operand :: "tag \<Rightarrow> bool" where
  "ends_operand t \<longleftrightarrow> t \<noteq> T_punct P_dot \<and> t \<noteq> T_punct P_l_paren"

definition ends_expr :: "nat \<Rightarrow> tag \<Rightarrow> bool" where
  "ends_expr p t \<longleftrightarrow> ends_operand t \<and> (case infixOp t of None \<Rightarrow> True | Some (bop, prec) \<Rightarrow> prec < p)"

text \<open>The tokens \<open>ts\<close> of \<open>e\<close> in front of any others: as an operand to which postfix forms may be added, as the operand of
  a prefix operator, and as an operand of the operators down to the precedence \<open>q\<close>.\<close>

definition reads_postfix :: "scope \<Rightarrow> shader_expr \<Rightarrow> ltoken list \<Rightarrow> bool" where
  "reads_postfix sc e ts \<longleftrightarrow> (\<forall>st rest. tag_at 0 rest \<noteq> T_punct P_l_paren \<longrightarrow>
     parsePostfix sc (shader_parser sc) (st\<lparr>toks := ts @ rest\<rparr>) =
       while_p (postfix_step (shader_parser sc)) e (st\<lparr>toks := rest\<rparr>)) \<and>
     ts \<noteq> [] \<and> fst (hd ts) \<notin> {T_punct P_minus, T_punct P_bang}"

definition reads_unary :: "scope \<Rightarrow> shader_expr \<Rightarrow> ltoken list \<Rightarrow> bool" where
  "reads_unary sc e ts \<longleftrightarrow> (\<forall>st rest. ends_operand (tag_at 0 rest) \<longrightarrow>
     parseUnary sc (shader_parser sc) (st\<lparr>toks := ts @ rest\<rparr>) = Gives e (st\<lparr>toks := rest\<rparr>))"

definition reads_binary :: "scope \<Rightarrow> nat \<Rightarrow> shader_expr \<Rightarrow> ltoken list \<Rightarrow> bool" where
  "reads_binary sc q e ts \<longleftrightarrow> (\<forall>p \<le> q. \<forall>st rest. ends_expr (Suc q) (tag_at 0 rest) \<longrightarrow>
     parseBinary sc (shader_parser sc) p (st\<lparr>toks := ts @ rest\<rparr>) =
       while_p (binary_step (shader_parser sc) p) e (st\<lparr>toks := rest\<rparr>))"

lemma infix_table [simp]: "infixOp (T_punct (sh_punct bop)) = Some (bop, sh_prec bop)"
  by (cases bop) (simp_all add: infixOp_def)

lemma infix_none [simp]: "infixOp (T_punct P_r_paren) = None" "infixOp (T_punct P_comma) = None"
  "infixOp (T_punct P_semicolon) = None" "infixOp (T_punct P_equal) = None" "infixOp (T_punct P_l_brace) = None"
  by (simp_all add: infixOp_def)

lemma ends_simps [simp]: "ends_operand (T_punct (sh_punct bop))" "ends_expr p (T_punct P_r_paren)"
  "ends_expr p (T_punct P_comma)" "ends_expr p (T_punct P_semicolon)" "ends_expr p (T_punct P_equal)"
  "ends_expr p (T_punct P_l_brace)"
  by (cases bop) (simp_all add: ends_expr_def ends_operand_def)

lemma ends_expr_mono: "ends_expr p t \<Longrightarrow> p \<le> q \<Longrightarrow> ends_expr q t"
  by (auto simp: ends_expr_def split: option.splits)

lemma ends_exprD: "ends_expr p t \<Longrightarrow> t \<noteq> T_punct P_l_paren \<and> t \<noteq> T_punct P_dot"
  by (simp add: ends_expr_def ends_operand_def)

lemma unary_of_postfix:
  assumes "reads_postfix sc e ts"
  shows "reads_unary sc e ts"
  unfolding reads_unary_def
proof (intro allI impI)
  fix st :: pstate and rest
  assume rest: "ends_operand (tag_at 0 rest)"
  from assms obtain t us where t: "ts = t # us" "fst t \<notin> {T_punct P_minus, T_punct P_bang}"
    by (cases ts) (auto simp: reads_postfix_def)
  have "parseUnary sc (shader_parser sc) (st\<lparr>toks := ts @ rest\<rparr>) =
      parsePostfix sc (shader_parser sc) (st\<lparr>toks := ts @ rest\<rparr>)"
    using t by (simp add: parseUnary_def run)
  also have "\<dots> = while_p (postfix_step (shader_parser sc)) e (st\<lparr>toks := rest\<rparr>)"
    using assms rest by (simp add: reads_postfix_def ends_operand_def)
  also have "\<dots> = Gives e (st\<lparr>toks := rest\<rparr>)"
    by (rule while_done [OF shader_parser.postfix_rounds])
      (use rest in \<open>simp add: postfix_step_def run ends_operand_def\<close>)
  finally show "parseUnary sc (shader_parser sc) (st\<lparr>toks := ts @ rest\<rparr>) = Gives e (st\<lparr>toks := rest\<rparr>)" .
qed

lemma binary_of_unary: "reads_unary sc e ts \<Longrightarrow> reads_binary sc q e ts"
  by (simp add: reads_binary_def reads_unary_def parseBinary_def bind_p_def ends_expr_def)

lemma binary_done:
  assumes "reads_binary sc q e ts" "p \<le> q" "ends_expr p (tag_at 0 rest)"
  shows "sg_binary (shader_parser sc) p (st\<lparr>toks := ts @ rest\<rparr>) = Gives e (st\<lparr>toks := rest\<rparr>)"
proof -
  have "ends_expr (Suc q) (tag_at 0 rest)" using assms(2,3) by (auto elim: ends_expr_mono)
  then have "sg_binary (shader_parser sc) p (st\<lparr>toks := ts @ rest\<rparr>) =
      while_p (binary_step (shader_parser sc) p) e (st\<lparr>toks := rest\<rparr>)"
    using assms(1,2) by (simp add: reads_binary_def shader_equations)
  also have "\<dots> = Gives e (st\<lparr>toks := rest\<rparr>)"
    by (rule while_done [OF shader_parser.binary_rounds])
      (use assms(3) in \<open>auto simp: binary_step_def run ends_expr_def split: option.splits\<close>)
  finally show ?thesis .
qed

lemma parens_read:
  assumes "reads_binary sc q e ts"
  shows "reads_postfix sc e (sh_parens ts)"
proof -
  have "parsePrimary sc (shader_parser sc) (st\<lparr>toks := sh_parens ts @ rest\<rparr>) = Gives e (st\<lparr>toks := rest\<rparr>)" for st rest
    using binary_done [OF assms, of 0 "punct_tok P_r_paren # rest"]
    by (simp add: sh_parens_def parsePrimary_def run)
  then show ?thesis
    by (simp add: reads_postfix_def parsePostfix_def bind_p_def sh_parens_def)
qed

lemma level_read:
  assumes "reads_binary sc p e ts"
  shows "reads_binary sc q e (sh_level q p ts)"
proof (cases "p < q")
  case True
  then show ?thesis
    using binary_of_unary [OF unary_of_postfix [OF parens_read [OF assms]]] by (simp add: sh_level_def)
next
  case False
  then have "\<And>t. ends_expr (Suc q) t \<Longrightarrow> ends_expr (Suc p) t" by (auto elim: ends_expr_mono)
  then show ?thesis using assms False by (simp add: sh_level_def reads_binary_def)
qed

definition reads_shader :: "scope \<Rightarrow> (64 word \<Rightarrow> string) \<Rightarrow> shader_expr \<Rightarrow> bool" where
  "reads_shader sc fs e \<longleftrightarrow> reads_binary sc (level_of e) e (show_shader_expr fs e) \<and>
     (7 \<le> level_of e \<longrightarrow> reads_unary sc e (show_shader_expr fs e)) \<and>
     (8 \<le> level_of e \<longrightarrow> reads_postfix sc e (show_shader_expr fs e))"

lemma reads_of_postfix: "reads_postfix sc e (show_shader_expr fs e) \<Longrightarrow> reads_shader sc fs e"
  by (simp add: reads_shader_def unary_of_postfix binary_of_unary)

lemma postfix_level:
  assumes "reads_shader sc fs e"
  shows "reads_postfix sc e (sh_level 8 (level_of e) (show_shader_expr fs e))"
  using assms parens_read by (auto simp: reads_shader_def sh_level_def not_less)

lemma unary_level:
  assumes "reads_shader sc fs e"
  shows "reads_unary sc e (sh_level 7 (level_of e) (show_shader_expr fs e))"
  using assms parens_read unary_of_postfix by (auto simp: reads_shader_def sh_level_def not_less)

lemma binary_level:
  "reads_shader sc fs e \<Longrightarrow> reads_binary sc q e (sh_level q (level_of e) (show_shader_expr fs e))"
  by (simp add: reads_shader_def level_read)

lemma whole_read:
  "reads_shader sc fs e \<Longrightarrow> ends_expr 0 (tag_at 0 rest) \<Longrightarrow>
     sg_binary (shader_parser sc) 0 (st\<lparr>toks := show_shader_expr fs e @ rest\<rparr>) = Gives e (st\<lparr>toks := rest\<rparr>)"
  using binary_done [of sc "level_of e" e "show_shader_expr fs e" 0] by (simp add: reads_shader_def)

lemma atom_reads:
  assumes "\<And>st rest. tag_at 0 rest \<noteq> T_punct P_l_paren \<Longrightarrow>
      parsePrimary sc (shader_parser sc) (st\<lparr>toks := ts @ rest\<rparr>) = Gives e (st\<lparr>toks := rest\<rparr>)"
    and "ts \<noteq> []" "fst (hd ts) \<notin> {T_punct P_minus, T_punct P_bang}"
  shows "reads_postfix sc e ts"
  using assms by (simp add: reads_postfix_def parsePostfix_def bind_p_def)

lemma postfix_more:
  assumes "reads_postfix sc e ts" and "t \<noteq> T_punct P_l_paren" "us \<noteq> []" "fst (hd us) = t"
    and "\<And>st rest. tag_at 0 rest \<noteq> T_punct P_l_paren \<Longrightarrow>
      postfix_step (shader_parser sc) e (st\<lparr>toks := us @ rest\<rparr>) = Gives (Inl e') (st\<lparr>toks := rest\<rparr>)"
  shows "reads_postfix sc e' (ts @ us)"
proof -
  have "parsePostfix sc (shader_parser sc) (st\<lparr>toks := (ts @ us) @ rest\<rparr>) =
      while_p (postfix_step (shader_parser sc)) e' (st\<lparr>toks := rest\<rparr>)"
    if "tag_at 0 rest \<noteq> T_punct P_l_paren" for st rest
  proof -
    have "tag_at 0 (us @ rest) \<noteq> T_punct P_l_paren" using assms(2-4) by (cases us) auto
    then have "parsePostfix sc (shader_parser sc) (st\<lparr>toks := ts @ (us @ rest)\<rparr>) =
        while_p (postfix_step (shader_parser sc)) e (st\<lparr>toks := us @ rest\<rparr>)"
      using assms(1) by (simp add: reads_postfix_def)
    also have "\<dots> = while_p (postfix_step (shader_parser sc)) e' (st\<lparr>toks := rest\<rparr>)"
      by (rule while_next [where body = "postfix_step (shader_parser sc)", OF shader_parser.postfix_rounds])
        (rule assms(5) [OF that])
    finally show ?thesis by simp
  qed
  then show ?thesis using assms(1) by (simp add: reads_postfix_def)
qed

lemma member_reads:
  assumes "reads_shader sc fs e"
  shows "reads_postfix sc (Sh_member_access e f) (show_shader_expr fs (Sh_member_access e f))"
  unfolding show_shader_expr.simps
  by (rule postfix_more [OF postfix_level [OF assms], of "T_punct P_dot"]) (auto simp: postfix_step_def run)

lemma sample_reads:
  assumes "reads_shader sc fs tex" "reads_shader sc fs uv"
  shows "reads_postfix sc (Sh_sample tex uv) (show_shader_expr fs (Sh_sample tex uv))"
proof -
  have "sg_binary (shader_parser sc) 0 (st\<lparr>toks := show_shader_expr fs uv @ punct_tok P_r_paren # rest\<rparr>) =
      Gives uv (st\<lparr>toks := punct_tok P_r_paren # rest\<rparr>)" for st rest
    by (rule whole_read [OF assms(2)]) simp
  then show ?thesis
    unfolding show_shader_expr.simps
    by (intro postfix_more [OF postfix_level [OF assms(1)], of "T_punct P_dot"])
      (simp_all add: postfix_step_def run sh_parens_def)
qed

lemma binary_reads:
  assumes "reads_shader sc fs l" "reads_shader sc fs r"
  shows "reads_shader sc fs (Sh_binary bop l r)"
proof -
  define ls where "ls = sh_level (sh_prec bop) (level_of l) (show_shader_expr fs l)"
  define rs where "rs = sh_level (Suc (sh_prec bop)) (level_of r) (show_shader_expr fs r)"
  have l: "reads_binary sc (sh_prec bop) l ls" and r: "reads_binary sc (Suc (sh_prec bop)) r rs"
    using binary_level [OF assms(1)] binary_level [OF assms(2)] by (simp_all add: ls_def rs_def)
  have "parseBinary sc (shader_parser sc) p (st\<lparr>toks := (ls @ punct_tok (sh_punct bop) # rs) @ rest\<rparr>) =
      while_p (binary_step (shader_parser sc) p) (Sh_binary bop l r) (st\<lparr>toks := rest\<rparr>)"
    if p: "p \<le> sh_prec bop" and rest: "ends_expr (Suc (sh_prec bop)) (tag_at 0 rest)" for p st rest
  proof -
    have "ends_expr (Suc (sh_prec bop)) (T_punct (sh_punct bop))" by (simp add: ends_expr_def)
    then have "parseBinary sc (shader_parser sc) p (st\<lparr>toks := ls @ (punct_tok (sh_punct bop) # rs @ rest)\<rparr>) =
        while_p (binary_step (shader_parser sc) p) l (st\<lparr>toks := punct_tok (sh_punct bop) # rs @ rest\<rparr>)"
      using l p by (simp add: reads_binary_def)
    also have "\<dots> = while_p (binary_step (shader_parser sc) p) (Sh_binary bop l r) (st\<lparr>toks := rest\<rparr>)"
    proof (rule while_next [OF shader_parser.binary_rounds])
      show "binary_step (shader_parser sc) p l (st\<lparr>toks := punct_tok (sh_punct bop) # rs @ rest\<rparr>) =
          Gives (Inl (Sh_binary bop l r)) (st\<lparr>toks := rest\<rparr>)"
        using p binary_done [OF r order.refl rest] by (simp add: binary_step_def run)
    qed
    finally show ?thesis by simp
  qed
  moreover have "sh_prec bop < 7" by (cases bop) simp_all
  ultimately show ?thesis by (simp add: reads_shader_def reads_binary_def ls_def rs_def)
qed

lemma unary_reads:
  assumes "reads_shader sc fs e"
  shows "reads_shader sc fs (Sh_unary uop e)"
proof -
  define ts where "ts = sh_level 7 (level_of e) (show_shader_expr fs e)"
  have "sg_unary (shader_parser sc) (st\<lparr>toks := ts @ rest\<rparr>) = Gives e (st\<lparr>toks := rest\<rparr>)"
    if "ends_operand (tag_at 0 rest)" for st rest
    using unary_level [OF assms] that by (simp add: ts_def reads_unary_def shader_equations)
  then have "reads_unary sc (Sh_unary uop e) (show_shader_expr fs (Sh_unary uop e))"
    by (cases uop) (simp_all add: reads_unary_def parseUnary_def run ts_def)
  then show ?thesis by (simp add: reads_shader_def binary_of_unary)
qed

lemma args_read:
  assumes "\<forall>e \<in> set args. reads_shader sc fs e" "args \<noteq> []"
  shows "some_list (sg_binary (shader_parser sc) 0)
      (st\<lparr>toks := sep_comma (map (show_shader_expr fs) args) @ punct_tok P_r_paren # rest\<rparr>) =
    Gives args (st\<lparr>toks := punct_tok P_r_paren # rest\<rparr>)"
proof -
  let ?item = "sg_binary (shader_parser sc) 0"
  have steps: "rounds k None (some_step ?item s)" for k s
    unfolding some_step_def by (intro ends shader_parser.scalls)
  have "while_p (some_step ?item) acc
      (st\<lparr>toks := sep_comma (map (show_shader_expr fs) args) @ punct_tok P_r_paren # rest\<rparr>) =
    Gives (acc @ args) (st\<lparr>toks := punct_tok P_r_paren # rest\<rparr>)" for acc
    using assms
  proof (induction args arbitrary: acc)
    case (Cons e es)
    note read = whole_read [where sc = sc and fs = fs and e = e, OF Cons.prems(1) [THEN bspec, OF list.set_intros(1)]]
    show ?case
    proof (cases es)
      case Nil
      with read [of "punct_tok P_r_paren # rest"] Cons.prems show ?thesis
        by (intro while_done [OF steps]) (simp add: some_step_def run)
    next
      case more: (Cons f fs')
      let ?rest = "sep_comma (map (show_shader_expr fs) es) @ punct_tok P_r_paren # rest"
      have "while_p (some_step ?item) acc
          (st\<lparr>toks := sep_comma (map (show_shader_expr fs) (e # es)) @ punct_tok P_r_paren # rest\<rparr>) =
        while_p (some_step ?item) (acc @ [e]) (st\<lparr>toks := ?rest\<rparr>)"
        using read [of "punct_tok P_comma # ?rest"] Cons.prems more
        by (intro while_next [OF steps]) (simp add: some_step_def run)
      with Cons.IH [of "acc @ [e]"] Cons.prems more show ?thesis by simp
    qed
  qed simp
  from this [of "[]"] show ?thesis by (simp add: some_list_def)
qed

text \<open>The first token of an expression starts no statement and closes nothing.\<close>

definition opens :: "ltoken list \<Rightarrow> bool" where
  "opens ts \<longleftrightarrow> ts \<noteq> [] \<and> fst (hd ts) \<notin> {T_punct P_r_paren, T_punct P_r_brace, T_eof, T_keyword K_if}"

lemma opens_simps [simp]:
  "opens (t # ts) \<longleftrightarrow> fst t \<notin> {T_punct P_r_paren, T_punct P_r_brace, T_eof, T_keyword K_if}" "opens ts \<Longrightarrow> opens (ts @ us)"
  by (auto simp: opens_def)

lemma opens_level [simp]: "opens ts \<Longrightarrow> opens (sh_level q p ts @ us)"
  by (simp add: sh_level_def sh_parens_def)

lemma opens_tag: "opens ts \<Longrightarrow> tag_at 0 ts \<notin> {T_punct P_r_paren, T_punct P_r_brace, T_eof, T_keyword K_if}"
  by (cases ts) (auto simp: opens_def)

lemma show_opens: "opens (show_shader_expr fs e)"
  by (induction e) (simp_all split: shader_un_op.split)

lemma shader_args_read:
  assumes "\<forall>e \<in> set args. reads_shader sc fs e"
  shows "shader_args (shader_parser sc)
      (st\<lparr>toks := sep_comma (map (show_shader_expr fs) args) @ punct_tok P_r_paren # rest\<rparr>) =
    Gives args (st\<lparr>toks := rest\<rparr>)"
proof (cases args)
  case Nil
  then show ?thesis by (simp add: shader_args_def run)
next
  case (Cons e es)
  have "opens (sep_comma (map (show_shader_expr fs) args) @ punct_tok P_r_paren # rest)"
    using show_opens [of fs e] by (cases es) (simp_all add: Cons)
  then have "tag_at 0 (sep_comma (map (show_shader_expr fs) args) @ punct_tok P_r_paren # rest) \<noteq> T_punct P_r_paren"
    by (auto dest: opens_tag)
  then show ?thesis
    using args_read [OF assms] Cons by (simp add: shader_args_def run)
qed

lemma call_reads:
  assumes "\<forall>e \<in> set args. reads_shader sc fs e" and "n \<notin> {''true'', ''false''}"
  shows "reads_postfix sc (case shaderTypeFromName n of Some ty \<Rightarrow> Sh_construct ty args | None \<Rightarrow> Sh_call n args)
    (word_tok n # sh_parens (sep_comma (map (show_shader_expr fs) args)))"
  using assms(2) shader_args_read [OF assms(1)]
  by (intro atom_reads) (simp_all add: parsePrimary_def run sh_parens_def)

lemma type_names: "shaderTypeFromName (shader_type_name ty) = Some ty" "shader_type_name ty \<notin> {''true'', ''false''}"
  by (cases ty; simp add: shaderTypeFromName_def shader_type_table_def)+

lemma parse_i64_dec: "n < 2 ^ 63 \<Longrightarrow> parse_i64 (dec_nat n) = Some n"
proof -
  assume n: "n < 2 ^ 63"
  have ds: "\<forall>c \<in> set (dec_nat n). is_digit c" and ne: "dec_nat n \<noteq> []"
    by (simp_all add: dec_nat_digits)
  have "int_base (dec_nat n) = (10, dec_nat n)"
  proof (cases "length (dec_nat n) > 2")
    case True
    then have "is_digit (dec_nat n ! 1)" using ds by simp
    then show ?thesis by (auto simp: int_base_def is_digit_def)
  qed (simp add: int_base_def)
  moreover have "is_digit (hd (dec_nat n))" "is_digit (last (dec_nat n))"
    using ds ne by simp_all
  then have "hd (dec_nat n) \<noteq> CHR ''_''" "last (dec_nat n) \<noteq> CHR ''_''" by (auto simp: is_digit_def)
  ultimately show ?thesis
    using ne parse_dec [OF n] by (simp add: parse_i64_def strip_dec)
qed

lemma shader_expr_reads: "printable (float_of sc) fs e \<Longrightarrow> reads_shader sc fs e"
proof (induction e)
  case (Sh_float_literal v)
  then show ?case
    by (intro reads_of_postfix) (simp, intro atom_reads, simp_all add: parsePrimary_def run)
next
  case (Sh_int_literal i)
  then have "parse_i64 (dec_nat (nat i)) = Some (nat i)" by (intro parse_i64_dec) (simp add: nat_less_iff)
  with Sh_int_literal show ?case
    by (intro reads_of_postfix) (simp, intro atom_reads, simp_all add: parsePrimary_def run)
next
  case (Sh_bool_literal b)
  have "reads_postfix sc (Sh_bool_literal b) [word_tok (if b then ''true'' else ''false'')]"
    by (rule atom_reads) (cases b; simp add: parsePrimary_def run)+
  then show ?case by (intro reads_of_postfix) simp
next
  case (Sh_ident n)
  then show ?case
    by (intro reads_of_postfix) (simp, intro atom_reads, simp_all add: parsePrimary_def run)
next
  case (Sh_construct ty args)
  then have "\<forall>e \<in> set args. reads_shader sc fs e" by (simp add: list_all_iff)
  from call_reads [OF this type_names(2) [of ty]] show ?case
    by (intro reads_of_postfix) (simp add: type_names)
next
  case (Sh_call n args)
  then have "\<forall>e \<in> set args. reads_shader sc fs e" by (simp add: list_all_iff)
  from call_reads [OF this, of n] Sh_call.prems show ?case
    by (intro reads_of_postfix) simp
qed (simp_all add: binary_reads unary_reads reads_of_postfix member_reads sample_reads del: show_shader_expr.simps)

section \<open>Statements and declarations\<close>

primrec show_shader_stmt :: "(64 word \<Rightarrow> string) \<Rightarrow> shader_stmt \<Rightarrow> ltoken list" where
  "show_shader_stmt fs (Sh_assign target val) =
     show_shader_expr fs target @ punct_tok P_equal # show_shader_expr fs val @ [punct_tok P_semicolon]"
| "show_shader_stmt fs (Sh_if_stmt cond body) =
     key_tok K_if ''if'' # show_shader_expr fs cond @
     punct_tok P_l_brace # concat (map (show_shader_stmt fs) body) @ [punct_tok P_r_brace]"

primrec printable_stmt :: "(string \<Rightarrow> 64 word option) \<Rightarrow> (64 word \<Rightarrow> string) \<Rightarrow> shader_stmt \<Rightarrow> bool" where
  "printable_stmt rd fs (Sh_assign target val) \<longleftrightarrow> printable rd fs target \<and> printable rd fs val"
| "printable_stmt rd fs (Sh_if_stmt cond body) \<longleftrightarrow>
     printable rd fs cond \<and> list_all id (map (printable_stmt rd fs) body)"

definition show_braced :: "ltoken list \<Rightarrow> ltoken list" where
  "show_braced ts = punct_tok P_l_brace # ts @ [punct_tok P_r_brace]"

definition show_field :: "shader_field \<Rightarrow> ltoken list" where
  "show_field f = [word_tok (shf_name f), punct_tok P_colon, word_tok (shader_type_name (shf_ty f))]"

definition show_ended :: "shader_field \<Rightarrow> ltoken list" where
  "show_ended f = show_field f @ [punct_tok P_semicolon]"

fun show_literal :: "(64 word \<Rightarrow> string) \<Rightarrow> shader_literal \<Rightarrow> ltoken list" where
  "show_literal fs (Sh_float_lit v) =
     (if bit v 63 then [punct_tok P_minus, (T_float_literal, fs (neg_float v))] else [(T_float_literal, fs v)])"
| "show_literal fs (Sh_boolean_lit b) = [word_tok (if b then ''true'' else ''false'')]"
| "show_literal fs (Sh_int_lit i) =
     (if i < 0 then [punct_tok P_minus, (T_int_literal, dec_nat (nat (- i)))] else [(T_int_literal, dec_nat (nat i))])"

fun literal_printable :: "(string \<Rightarrow> 64 word option) \<Rightarrow> (64 word \<Rightarrow> string) \<Rightarrow> shader_literal \<Rightarrow> bool" where
  "literal_printable rd fs (Sh_float_lit v) \<longleftrightarrow> (let w = if bit v 63 then neg_float v else v in rd (fs w) = Some w)"
| "literal_printable rd fs (Sh_boolean_lit b) \<longleftrightarrow> True"
| "literal_printable rd fs (Sh_int_lit i) \<longleftrightarrow> \<bar>i\<bar> < 2 ^ 63"

definition at_tok :: "string \<Rightarrow> ltoken list" where
  "at_tok q = [punct_tok P_at, word_tok q]"

definition show_global :: "shader_global_group \<Rightarrow> ltoken list" where
  "show_global g = at_tok ''global'' @ key_tok K_struct ''struct'' # word_tok (shg_name g) #
     show_braced (concat (map show_ended (shg_fields g)))"

definition show_const :: "(64 word \<Rightarrow> string) \<Rightarrow> shader_const \<Rightarrow> ltoken list" where
  "show_const fs k = [punct_tok P_at, key_tok K_const ''const''] @
     show_field \<lparr>shf_name = shc_name k, shf_ty = shc_ty k\<rparr> @
     punct_tok P_equal # show_literal fs (shc_value k) @ [punct_tok P_semicolon]"

definition show_stage :: "(64 word \<Rightarrow> string) \<Rightarrow> string \<Rightarrow> shader_stmt list \<Rightarrow> ltoken list" where
  "show_stage fs kw ss = word_tok kw # show_braced (concat (map (show_shader_stmt fs) ss))"

definition show_items :: "(64 word \<Rightarrow> string) \<Rightarrow> shader_decl \<Rightarrow> ltoken list" where
  "show_items fs d =
     (case shd_priority d of None \<Rightarrow> []
      | Some i \<Rightarrow> [word_tok ''priority'', (T_int_literal, dec_nat (nat i)), punct_tok P_semicolon]) @
     concat (map show_global (shd_globals d)) @
     concat (map (\<lambda>f. at_tok ''input'' @ show_ended f) (shd_inputs d)) @
     concat (map (\<lambda>f. at_tok ''param'' @ show_ended f) (shd_params d)) @
     concat (map (show_const fs) (shd_consts d)) @
     concat (map (\<lambda>f. key_tok K_var ''var'' # show_ended f) (shd_vars d)) @
     show_stage fs ''init'' (shd_init d) @ show_stage fs ''vertex'' (shd_vertex d) @
     show_stage fs ''fragment'' (shd_fragment d)"

definition show_shader :: "(64 word \<Rightarrow> string) \<Rightarrow> shader_decl \<Rightarrow> ltoken list" where
  "show_shader fs d = word_tok ''shader'' # word_tok (shd_name d) # show_braced (show_items fs d)"

definition printable_shader :: "(string \<Rightarrow> 64 word option) \<Rightarrow> (64 word \<Rightarrow> string) \<Rightarrow> shader_decl \<Rightarrow> bool" where
  "printable_shader rd fs d \<longleftrightarrow>
     pred_option (\<lambda>i. 0 \<le> i \<and> i < 2 ^ 63) (shd_priority d) \<and>
     list_all (\<lambda>k. literal_printable rd fs (shc_value k)) (shd_consts d) \<and>
     list_all (printable_stmt rd fs) (shd_init d) \<and> list_all (printable_stmt rd fs) (shd_vertex d) \<and>
     list_all (printable_stmt rd fs) (shd_fragment d)"

text \<open>\<open>item\<close> reads \<open>ts\<close> as \<open>x\<close> in front of any tokens.\<close>

definition reads_item :: "'a pm \<Rightarrow> ltoken list \<Rightarrow> 'a \<Rightarrow> bool" where
  "reads_item item ts x \<longleftrightarrow> (\<forall>st rest. item (st\<lparr>toks := ts @ rest\<rparr>) = Gives x (st\<lparr>toks := rest\<rparr>))"

lemma reads_itemD: "reads_item item ts x \<Longrightarrow> item (st\<lparr>toks := ts @ rest\<rparr>) = Gives x (st\<lparr>toks := rest\<rparr>)"
  by (simp add: reads_item_def)

definition starts_item :: "ltoken list \<Rightarrow> bool" where
  "starts_item ts \<longleftrightarrow> ts \<noteq> [] \<and> fst (hd ts) \<noteq> T_punct P_r_brace \<and> fst (hd ts) \<noteq> T_eof"

lemma braced_reads:
  assumes "\<And>k T. eats k T item"
    and "\<forall>x \<in> set xs. reads_item item (sh x) x \<and> starts_item (sh x)"
  shows "reads_item (braced item) (show_braced (concat (map sh xs))) xs"
proof -
  have steps: "rounds k None (until_brace item s)" for k s
    unfolding until_brace_def by (intro ends assms(1))
  have "while_p (until_brace item) acc (st\<lparr>toks := concat (map sh xs) @ punct_tok P_r_brace # rest\<rparr>) =
      Gives (acc @ xs) (st\<lparr>toks := punct_tok P_r_brace # rest\<rparr>)" for acc st rest
    using assms(2)
  proof (induction xs arbitrary: acc)
    case Nil
    show ?case by (rule while_done [OF steps]) (simp add: until_brace_def run)
  next
    case (Cons x xs)
    let ?rest = "concat (map sh xs) @ punct_tok P_r_brace # rest"
    have "until_brace item acc (st\<lparr>toks := sh x @ ?rest\<rparr>) = Gives (Inl (acc @ [x])) (st\<lparr>toks := ?rest\<rparr>)"
      using Cons.prems reads_itemD [of item "sh x" x ?rest st]
      by (cases "sh x") (auto simp: until_brace_def run starts_item_def)
    from while_next [where body = "until_brace item", OF steps this] Cons.IH [of "acc @ [x]"] Cons.prems
    show ?case by simp
  qed
  from this [of "[]"] show ?thesis
    by (simp add: reads_item_def braced_def show_braced_def run)
qed

lemma whole_reads_binary:
  assumes "printable (float_of sc) fs e" and "ends_expr 0 (tag_at 0 rest)"
  shows "parseBinary sc (shader_parser sc) 0 (st\<lparr>toks := show_shader_expr fs e @ rest\<rparr>) = Gives e (st\<lparr>toks := rest\<rparr>)"
  using whole_read [OF shader_expr_reads [OF assms(1)] assms(2)] by (simp add: shader_equations)

lemma shown_stmt_reads:
  "printable_stmt (float_of sc) fs s \<Longrightarrow>
    reads_item (parseShaderStmt sc (shader_parser sc)) (show_shader_stmt fs s) s \<and> starts_item (show_shader_stmt fs s)"
proof (induction s)
  case (Sh_assign target val)
  have "tag_at 0 (show_shader_expr fs target @ us) \<noteq> T_keyword K_if" for us
    using opens_tag [OF opens_simps(2) [OF show_opens, of fs target us]] by simp
  moreover have "starts_item (show_shader_expr fs target @ us)" for us
    using show_opens [of fs target] by (auto simp: starts_item_def opens_def)
  ultimately show ?case
    using Sh_assign whole_reads_binary [of sc fs target] whole_reads_binary [of sc fs val]
    by (simp add: reads_item_def parseShaderStmt_def run)
next
  case (Sh_if_stmt cond body)
  have "reads_item (braced (parseShaderStmt sc (shader_parser sc))) (show_braced (concat (map (show_shader_stmt fs) body))) body"
    using Sh_if_stmt by (intro braced_reads stmt_eats_any) (auto simp: list_all_iff)
  then have "sg_block (shader_parser sc) (st\<lparr>toks := show_braced (concat (map (show_shader_stmt fs) body)) @ rest\<rparr>) =
      Gives body (st\<lparr>toks := rest\<rparr>)" for st rest
    by (simp add: shader_equations parseStageBlockInto_def reads_item_def)
  then show ?case
    using Sh_if_stmt.prems whole_reads_binary [of sc fs cond]
    by (simp add: reads_item_def parseShaderStmt_def run show_braced_def starts_item_def)
qed

lemma stage_reads:
  assumes "list_all (printable_stmt (float_of sc) fs) ss"
  shows "reads_item (parseStageBlockInto sc (shader_parser sc)) (show_braced (concat (map (show_shader_stmt fs) ss))) ss"
  unfolding parseStageBlockInto_def
  using assms shown_stmt_reads by (intro braced_reads stmt_eats_any) (auto simp: list_all_iff)

lemma field_reads: "parseShaderField (st\<lparr>toks := show_field f @ rest\<rparr>) = Gives f (st\<lparr>toks := rest\<rparr>)"
  by (simp add: show_field_def parseShaderField_def parseShaderType_def run type_names)

lemma ended_reads: "reads_item ended_field (show_ended f) f"
  by (simp add: reads_item_def ended_field_def show_ended_def field_reads bind_p_def)
    (simp add: run)

lemma neg_float_neg [simp]: "neg_float (neg_float v) = v"
  by (simp add: neg_float_def xor.assoc)

lemma literal_reads:
  assumes "literal_printable (float_of sc) fs v"
  shows "parseLiteral sc (shader_parser sc) (st\<lparr>toks := show_literal fs v @ rest\<rparr>) = Gives v (st\<lparr>toks := rest\<rparr>)"
proof (cases v)
  case (Sh_int_lit i)
  have nat: "parse_i64 (dec_nat (nat \<bar>i\<bar>)) = Some (nat \<bar>i\<bar>)"
    using assms Sh_int_lit by (intro parse_i64_dec) (simp add: nat_less_iff)
  show ?thesis
  proof (cases "i < 0")
    case True
    with nat Sh_int_lit show ?thesis by (simp add: parseLiteral_def run shader_equations)
  next
    case False
    with nat Sh_int_lit show ?thesis by (simp add: parseLiteral_def run)
  qed
next
  case (Sh_boolean_lit b)
  then show ?thesis by (cases b) (simp_all add: parseLiteral_def run)
next
  case (Sh_float_lit v)
  with assms show ?thesis
    by (cases "bit v 63") (simp_all add: Let_def parseLiteral_def run shader_equations)
qed

section \<open>Items\<close>

abbreviation item_of :: "scope \<Rightarrow> shader_decl \<Rightarrow> (shader_decl + shader_decl) pm" where
  "item_of sc \<equiv> shader_item sc (shader_parser sc)"

definition adds :: "scope \<Rightarrow> ltoken list \<Rightarrow> (shader_decl \<Rightarrow> shader_decl) \<Rightarrow> bool" where
  "adds sc ts f \<longleftrightarrow> (\<forall>d st rest. item_of sc d (st\<lparr>toks := ts @ rest\<rparr>) = Gives (Inl (f d)) (st\<lparr>toks := rest\<rparr>))"

lemma adds_next:
  "adds sc ts f \<Longrightarrow> while_p (item_of sc) d (st\<lparr>toks := ts @ rest\<rparr>) = while_p (item_of sc) (f d) (st\<lparr>toks := rest\<rparr>)"
  by (rule while_next [where body = "item_of sc", OF shader_parser.shader_item_rounds]) (simp add: adds_def)

lemma adds_all:
  assumes "\<forall>x \<in> set xs. adds sc (sh x) (f x)"
  shows "while_p (item_of sc) d (st\<lparr>toks := concat (map sh xs) @ rest\<rparr>) =
    while_p (item_of sc) (fold f xs d) (st\<lparr>toks := rest\<rparr>)"
  using assms
proof (induction xs arbitrary: d)
  case (Cons x xs)
  then show ?case using adds_next [of sc "sh x" "f x"] by simp
qed simp

lemma adds_fields:
  "adds sc (at_tok ''input'' @ show_ended f) (\<lambda>d. d\<lparr>shd_inputs := shd_inputs d @ [f]\<rparr>)"
  "adds sc (at_tok ''param'' @ show_ended f) (\<lambda>d. d\<lparr>shd_params := shd_params d @ [f]\<rparr>)"
  "adds sc (key_tok K_var ''var'' # show_ended f) (\<lambda>d. d\<lparr>shd_vars := shd_vars d @ [f]\<rparr>)"
  using ended_reads [of f] by (simp_all add: adds_def reads_item_def shader_item_def at_item_def at_tok_def run)

lemma adds_global: "adds sc (show_global g) (\<lambda>d. d\<lparr>shd_globals := shd_globals d @ [g]\<rparr>)"
proof -
  have "eats k T ended_field" for k T by (rule eats_less [OF shader_parser.ended_field_eats [of k]]) simp
  then have "reads_item (braced ended_field) (show_braced (concat (map show_ended (shg_fields g)))) (shg_fields g)"
    by (intro braced_reads) (simp_all add: ended_reads, simp add: show_ended_def show_field_def starts_item_def)
  then show ?thesis
    by (simp add: adds_def reads_item_def shader_item_def at_item_def global_item_def show_global_def at_tok_def run)
qed

lemma adds_const:
  assumes "literal_printable (float_of sc) fs (shc_value k)"
  shows "adds sc (show_const fs k) (\<lambda>d. d\<lparr>shd_consts := shd_consts d @ [k]\<rparr>)"
  using literal_reads [OF assms] field_reads
  by (simp add: adds_def shader_item_def at_item_def const_item_def show_const_def run)

lemma adds_stages:
  assumes "list_all (printable_stmt (float_of sc) fs) ss"
  shows "adds sc (show_stage fs ''init'' ss) (\<lambda>d. d\<lparr>shd_init := shd_init d @ ss\<rparr>)"
    "adds sc (show_stage fs ''vertex'' ss) (\<lambda>d. d\<lparr>shd_vertex := shd_vertex d @ ss\<rparr>)"
    "adds sc (show_stage fs ''fragment'' ss) (\<lambda>d. d\<lparr>shd_fragment := shd_fragment d @ ss\<rparr>)"
  using stage_reads [OF assms]
  by (simp_all add: adds_def reads_item_def shader_item_def word_item_def show_stage_def run)

lemma adds_priority:
  "0 \<le> i \<Longrightarrow> i < 2 ^ 63 \<Longrightarrow>
    adds sc [word_tok ''priority'', (T_int_literal, dec_nat (nat i)), punct_tok P_semicolon] (\<lambda>d. d\<lparr>shd_priority := Some i\<rparr>)"
  using parse_i64_dec [of "nat i"] by (simp add: nat_less_iff adds_def shader_item_def word_item_def run)

lemma folds:
  "fold (\<lambda>x d. d\<lparr>shd_globals := shd_globals d @ [x]\<rparr>) gs d = d\<lparr>shd_globals := shd_globals d @ gs\<rparr>"
  "fold (\<lambda>x d. d\<lparr>shd_inputs := shd_inputs d @ [x]\<rparr>) fs d = d\<lparr>shd_inputs := shd_inputs d @ fs\<rparr>"
  "fold (\<lambda>x d. d\<lparr>shd_params := shd_params d @ [x]\<rparr>) fs d = d\<lparr>shd_params := shd_params d @ fs\<rparr>"
  "fold (\<lambda>x d. d\<lparr>shd_vars := shd_vars d @ [x]\<rparr>) fs d = d\<lparr>shd_vars := shd_vars d @ fs\<rparr>"
  "fold (\<lambda>x d. d\<lparr>shd_consts := shd_consts d @ [x]\<rparr>) ks d = d\<lparr>shd_consts := shd_consts d @ ks\<rparr>"
proof -
  show "fold (\<lambda>x d. d\<lparr>shd_globals := shd_globals d @ [x]\<rparr>) gs d = d\<lparr>shd_globals := shd_globals d @ gs\<rparr>"
    by (induction gs arbitrary: d) simp_all
  show "fold (\<lambda>x d. d\<lparr>shd_inputs := shd_inputs d @ [x]\<rparr>) fs d = d\<lparr>shd_inputs := shd_inputs d @ fs\<rparr>"
    "fold (\<lambda>x d. d\<lparr>shd_params := shd_params d @ [x]\<rparr>) fs d = d\<lparr>shd_params := shd_params d @ fs\<rparr>"
    "fold (\<lambda>x d. d\<lparr>shd_vars := shd_vars d @ [x]\<rparr>) fs d = d\<lparr>shd_vars := shd_vars d @ fs\<rparr>"
    by (induction fs arbitrary: d; simp)+
  show "fold (\<lambda>x d. d\<lparr>shd_consts := shd_consts d @ [x]\<rparr>) ks d = d\<lparr>shd_consts := shd_consts d @ ks\<rparr>"
    by (induction ks arbitrary: d) simp_all
qed

lemma shader_eta:
  "\<lparr>shd_name = shd_name d, shd_priority = shd_priority d, shd_globals = shd_globals d, shd_inputs = shd_inputs d,
    shd_params = shd_params d, shd_consts = shd_consts d, shd_vars = shd_vars d, shd_init = shd_init d,
    shd_vertex = shd_vertex d, shd_fragment = shd_fragment d\<rparr> = d"
  by (cases d) simp

lemma items_read:
  assumes "printable_shader (float_of sc) fs d"
  shows "while_p (item_of sc) (empty_shader (shd_name d)) (st\<lparr>toks := show_items fs d @ punct_tok P_r_brace # rest\<rparr>) =
    Gives d (st\<lparr>toks := punct_tok P_r_brace # rest\<rparr>)"
proof -
  let ?w = "while_p (item_of sc)"
  define e where "e = (empty_shader (shd_name d))\<lparr>shd_priority := shd_priority d\<rparr>"
  have stop: "?w d (st\<lparr>toks := punct_tok P_r_brace # rest\<rparr>) = Gives d (st\<lparr>toks := punct_tok P_r_brace # rest\<rparr>)"
    by (rule while_done [OF shader_parser.shader_item_rounds]) (simp add: shader_item_def run)
  have priority_read: "?w (empty_shader (shd_name d)) (st\<lparr>toks := (case shd_priority d of None \<Rightarrow> []
      | Some i \<Rightarrow> [word_tok ''priority'', (T_int_literal, dec_nat (nat i)), punct_tok P_semicolon]) @ ts\<rparr>) =
      ?w e (st\<lparr>toks := ts\<rparr>)" for ts
    using assms adds_next [OF adds_priority, where d = "empty_shader (shd_name d)" and st = st and rest = ts]
    by (cases "shd_priority d") (auto simp: printable_shader_def e_def empty_shader_def)
  have globals_read: "?w c (st\<lparr>toks := concat (map show_global (shd_globals d)) @ ts\<rparr>) =
      ?w (c\<lparr>shd_globals := shd_globals c @ shd_globals d\<rparr>) (st\<lparr>toks := ts\<rparr>)" for c ts
    by (subst adds_all [where f = "\<lambda>x d. d\<lparr>shd_globals := shd_globals d @ [x]\<rparr>"]) (simp_all add: adds_global folds)
  have inputs_read: "?w c (st\<lparr>toks := concat (map (\<lambda>f. at_tok ''input'' @ show_ended f) (shd_inputs d)) @ ts\<rparr>) =
      ?w (c\<lparr>shd_inputs := shd_inputs c @ shd_inputs d\<rparr>) (st\<lparr>toks := ts\<rparr>)" for c ts
    by (subst adds_all [where f = "\<lambda>x d. d\<lparr>shd_inputs := shd_inputs d @ [x]\<rparr>"]) (simp_all add: adds_fields folds)
  have params_read: "?w c (st\<lparr>toks := concat (map (\<lambda>f. at_tok ''param'' @ show_ended f) (shd_params d)) @ ts\<rparr>) =
      ?w (c\<lparr>shd_params := shd_params c @ shd_params d\<rparr>) (st\<lparr>toks := ts\<rparr>)" for c ts
    by (subst adds_all [where f = "\<lambda>x d. d\<lparr>shd_params := shd_params d @ [x]\<rparr>"]) (simp_all add: adds_fields folds)
  have consts_read: "?w c (st\<lparr>toks := concat (map (show_const fs) (shd_consts d)) @ ts\<rparr>) =
      ?w (c\<lparr>shd_consts := shd_consts c @ shd_consts d\<rparr>) (st\<lparr>toks := ts\<rparr>)" for c ts
    by (subst adds_all [where f = "\<lambda>x d. d\<lparr>shd_consts := shd_consts d @ [x]\<rparr>"]) (use assms in \<open>simp_all add: adds_const folds printable_shader_def list_all_iff\<close>)
  have vars_read: "?w c (st\<lparr>toks := concat (map (\<lambda>f. key_tok K_var ''var'' # show_ended f) (shd_vars d)) @ ts\<rparr>) =
      ?w (c\<lparr>shd_vars := shd_vars c @ shd_vars d\<rparr>) (st\<lparr>toks := ts\<rparr>)" for c ts
    by (subst adds_all [where f = "\<lambda>x d. d\<lparr>shd_vars := shd_vars d @ [x]\<rparr>"]) (simp_all add: adds_fields folds)
  have stages_read: "list_all (printable_stmt (float_of sc) fs) (shd_init d)"
    "list_all (printable_stmt (float_of sc) fs) (shd_vertex d)"
    "list_all (printable_stmt (float_of sc) fs) (shd_fragment d)"
    using assms by (simp_all add: printable_shader_def)
  have "?w (empty_shader (shd_name d)) (st\<lparr>toks := show_items fs d @ punct_tok P_r_brace # rest\<rparr>) =
      ?w d (st\<lparr>toks := punct_tok P_r_brace # rest\<rparr>)"
    unfolding show_items_def append_assoc priority_read globals_read inputs_read params_read consts_read vars_read
      adds_next [OF adds_stages(1) [OF stages_read(1)]] adds_next [OF adds_stages(2) [OF stages_read(2)]]
      adds_next [OF adds_stages(3) [OF stages_read(3)]]
    by (simp add: e_def empty_shader_def shader_eta)
  with stop show ?thesis by simp
qed

lemma shown_read:
  assumes "printable_shader (float_of sc) fs d"
  shows "parseShaderDecl sc (shader_parser sc) (st\<lparr>toks := show_shader fs d @ rest\<rparr>) =
    Gives (Sublanguage_decl \<lparr>sl_kind = ''shader'', sl_name = shd_name d, sl_shader = d\<rparr>) (st\<lparr>toks := rest\<rparr>)"
  using items_read [OF assms] by (simp add: parseShaderDecl_def show_shader_def show_braced_def run)

end
