(* ===== verification/Sla_Shader_Normal.thy ===== *)
theory Sla_Shader_Normal
  imports Sla_Shader_Print Sla_Parse_Types
begin

text \<open>
  The declarations the parser of shaders gives are printable, so printing what was read and reading it again gives
  the same declaration: the printed form is a normal form.
\<close>

section \<open>What the methods give\<close>

text \<open>\<open>fs\<close> spells the floats: whatever text \<open>std.fmt.parseFloat\<close> reads a value from, with a sign or without, it reads
  that value from the spelling of the value, and the value without its sign from the spelling of that.\<close>

definition abs_float :: "64 word \<Rightarrow> 64 word" where
  "abs_float v = (if bit v 63 then neg_float v else v)"

definition spells :: "scope \<Rightarrow> (64 word \<Rightarrow> string) \<Rightarrow> bool" where
  "spells sc fs \<longleftrightarrow> (\<forall>s v. float_of sc s = Some v \<longrightarrow>
     float_of sc (fs v) = Some v \<and> float_of sc (fs (abs_float v)) = Some (abs_float v))"

lemma neg_float_sign: "bit (neg_float v) 63 = (\<not> bit v 63)"
  by (simp add: neg_float_def bit_xor_iff bit_numeral_rec)

lemma i64_yields: "yields (\<lambda>n. n < 2 ^ 63) (or_fail Overflow (parse_i64 s))"
  by (rule yields_or_fail) (auto simp: parse_i64_def parse_uint_def split: prod.splits if_splits option.splits)

lemma float_yields:
  assumes "spells sc fs"
  shows "yields (\<lambda>v. float_of sc (fs v) = Some v \<and> float_of sc (fs (abs_float v)) = Some (abs_float v))
    (or_fail SyntaxError (float_of sc s))"
  by (rule yields_or_fail) (use assms in \<open>simp add: spells_def\<close>)

locale shader_spelling =
  fixes sc :: scope and fs :: "64 word \<Rightarrow> string" and g :: shader_grammar
  assumes spells: "spells sc fs"
    and binaries: "yields (printable (float_of sc) fs) (sg_binary g p)"
    and unaries: "yields (printable (float_of sc) fs) (sg_unary g)"
    and literals: "yields (literal_printable (float_of sc) fs) (sg_literal g)"
    and sblocks: "yields (list_all (printable_stmt (float_of sc) fs)) (sg_block g)"
begin

abbreviation spelled :: "shader_expr \<Rightarrow> bool" where
  "spelled \<equiv> printable (float_of sc) fs"

abbreviation spelled_stmt :: "shader_stmt \<Rightarrow> bool" where
  "spelled_stmt \<equiv> printable_stmt (float_of sc) fs"

lemma literal_yields: "yields (literal_printable (float_of sc) fs) (parseLiteral sc g)"
proof -
  have int: "yields (literal_printable (float_of sc) fs)
      (bind_p (or_fail Overflow (parse_i64 s)) (\<lambda>v. ret_p (Sh_int_lit (int v))))" for s
    by (rule yields_bind [OF i64_yields]) (simp add: yields_ret)
  have float: "yields (literal_printable (float_of sc) fs)
      (bind_p (or_fail SyntaxError (float_of sc s)) (\<lambda>v. ret_p (Sh_float_lit v)))" for s
    by (rule yields_bind [OF float_yields [OF spells]]) (simp add: yields_ret abs_float_def Let_def)
  have minus: "yields (literal_printable (float_of sc) fs) (bind_p (sg_literal g) (\<lambda>inner. case inner of
      Sh_int_lit v \<Rightarrow> ret_p (Sh_int_lit (- v)) | Sh_float_lit v \<Rightarrow> ret_p (Sh_float_lit (neg_float v))
    | Sh_boolean_lit b \<Rightarrow> fail_p SyntaxError))"
    by (rule yields_bind [OF literals])
      (auto simp: Let_def neg_float_sign split: shader_literal.splits if_splits intro!: yields_ret yields_fail)
  show ?thesis
    unfolding parseLiteral_def by (intro yields_skip yields_if int float minus yields_fail yields_ret) simp_all
qed

lemma args_yields: "yields (list_all spelled) (shader_args g)"
proof -
  have "yields (list_all spelled) (if b then ret_p [] else some_list (sg_binary g 0))" for b
    by (rule yields_if) (simp_all add: yields_ret yields_some_list [OF binaries])
  then show ?thesis
    unfolding shader_args_def by (intro yields_skip yields_bind [of "list_all spelled"] yields_ret) simp_all
qed

lemma primary_yields: "yields spelled (parsePrimary sc g)"
proof -
  have int: "yields spelled (bind_p (or_fail Overflow (parse_i64 s)) (\<lambda>v. ret_p (Sh_int_literal (int v))))" for s
    by (rule yields_bind [OF i64_yields]) (simp add: yields_ret)
  have float: "yields spelled (bind_p (or_fail SyntaxError (float_of sc s)) (\<lambda>v. ret_p (Sh_float_literal v)))" for s
    by (rule yields_bind [OF float_yields [OF spells]]) (simp add: yields_ret)
  have paren: "yields spelled (bind_p (sg_binary g 0) (\<lambda>inner. bind_p (p_expect t) (\<lambda>_. ret_p inner)))" for t
    by (rule yields_bind [OF binaries]) (intro yields_skip yields_ret)
  have call: "yields spelled (bind_p (shader_args g) (\<lambda>args. ret_p (case shaderTypeFromName s of
      Some ty \<Rightarrow> Sh_construct ty args | None \<Rightarrow> Sh_call s args)))" if "s \<notin> {''true'', ''false''}" for s
    by (rule yields_bind [OF args_yields], rule yields_ret)
      (use that in \<open>auto simp: list.pred_map split: option.splits\<close>)
  show ?thesis
    unfolding parsePrimary_def
    by (intro yields_skip yields_if int float paren call yields_fail yields_ret) simp_all
qed

lemma postfix_yields: "yields spelled (parsePostfix sc g)"
proof -
  have get: "yields (case_sum spelled spelled) (bind_p (sg_binary g 0) (\<lambda>uv. bind_p (p_expect t) (\<lambda>_. ret_p (Inl (Sh_sample e uv)))))"
    if "spelled e" for e t
    by (rule yields_bind [OF binaries]) (use that in \<open>intro yields_skip yields_ret, simp\<close>)
  have "yields (case_sum spelled spelled) (postfix_step g e)" if "spelled e" for e
    unfolding postfix_step_def by (intro yields_skip yields_if get yields_ret that) (simp_all add: that)
  from yields_while [OF this] show ?thesis
    unfolding parsePostfix_def by (rule yields_bind [OF primary_yields])
qed

lemma unary_yields: "yields spelled (parseUnary sc g)"
proof -
  have prefix: "yields spelled (bind_p (sg_unary g) (\<lambda>inner. ret_p (Sh_unary uop inner)))" for uop
    by (rule yields_bind [OF unaries]) (simp add: yields_ret)
  show ?thesis
    unfolding parseUnary_def by (intro yields_skip yields_if prefix postfix_yields)
qed

lemma binary_yields: "yields spelled (parseBinary sc g p)"
proof -
  have rhs: "yields (case_sum spelled spelled) (bind_p (sg_binary g q) (\<lambda>rhs. ret_p (Inl (Sh_binary bop e rhs))))"
    if "spelled e" for e q bop
    by (rule yields_bind [OF binaries]) (use that in \<open>simp add: yields_ret\<close>)
  have "yields (case_sum spelled spelled) (binary_step g p e)" if e: "spelled e" for e
    unfolding binary_step_def
    by (rule yields_skip) (auto simp: e split: option.splits prod.splits intro!: yields_ret yields_skip rhs)
  from yields_while [OF this] show ?thesis
    unfolding parseBinary_def by (rule yields_bind [OF unary_yields])
qed

lemma stmt_yields: "yields spelled_stmt (parseShaderStmt sc g)"
proof -
  have branch: "yields spelled_stmt (bind_p (parseBinary sc g 0) (\<lambda>cond. bind_p (sg_block g) (\<lambda>body. ret_p (Sh_if_stmt cond body))))"
    by (rule yields_bind [OF binary_yields], rule yields_bind [OF sblocks], rule yields_ret)
      (simp add: list.pred_map)
  have assign: "yields spelled_stmt (bind_p (parseBinary sc g 0) (\<lambda>target. bind_p (p_expect t) (\<lambda>_.
      bind_p (parseBinary sc g 0) (\<lambda>val. bind_p (p_expect u) (\<lambda>_. ret_p (Sh_assign target val))))))" for t u
    by (rule yields_bind [OF binary_yields], rule yields_skip, rule yields_bind [OF binary_yields])
      (intro yields_skip yields_ret, simp)
  show ?thesis
    unfolding parseShaderStmt_def by (intro yields_skip yields_if branch assign)
qed

end

lemma braced_yields:
  assumes "yields P item"
  shows "yields (list_all P) (braced item)"
proof -
  have "yields (case_sum (list_all P) (list_all P)) (until_brace item xs)" if "list_all P xs" for xs
    unfolding until_brace_def
    by (intro yields_skip yields_if yields_ret yields_bind [OF assms]) (use that in simp_all)
  from yields_while [OF this] show ?thesis
    unfolding braced_def by (intro yields_skip yields_bind [of "list_all P"] yields_ret) simp_all
qed

section \<open>Declarations\<close>

context shader_spelling
begin

lemma stage_yields: "yields (list_all spelled_stmt) (parseStageBlockInto sc g)"
  unfolding parseStageBlockInto_def by (rule braced_yields [OF stmt_yields])

abbreviation spelled_decl :: "string \<Rightarrow> shader_decl \<Rightarrow> bool" where
  "spelled_decl name d \<equiv> shd_name d = name \<and> printable_shader (float_of sc) fs d"

lemma const_yields: "yields (\<lambda>k. literal_printable (float_of sc) fs (shc_value k)) (const_item sc g)"
  unfolding const_item_def
  by (rule yields_skip, rule yields_skip, rule yields_bind [OF literal_yields]) (intro yields_skip yields_ret, simp)

lemma at_yields:
  assumes "spelled_decl name d"
  shows "yields (spelled_decl name) (at_item sc g d)"
proof -
  have const: "yields (spelled_decl name) (bind_p (const_item sc g) (\<lambda>k. ret_p (d\<lparr>shd_consts := shd_consts d @ [k]\<rparr>)))"
    by (rule yields_bind [OF const_yields]) (use assms in \<open>simp add: yields_ret printable_shader_def\<close>)
  show ?thesis
    unfolding at_item_def
    by (intro yields_skip yields_if const yields_fail yields_ret) (use assms in \<open>simp_all add: printable_shader_def\<close>)
qed

lemma word_yields:
  assumes "spelled_decl name d"
  shows "yields (spelled_decl name) (word_item sc g d)"
proof -
  have priority: "yields (spelled_decl name) (bind_p (or_fail Overflow (parse_i64 s)) (\<lambda>v.
      bind_p (p_expect t) (\<lambda>_. ret_p (d\<lparr>shd_priority := Some (int v)\<rparr>))))" for s t
    by (rule yields_bind [OF i64_yields], rule yields_skip, rule yields_ret)
      (use assms in \<open>simp add: printable_shader_def\<close>)
  have stages: "yields (spelled_decl name) (bind_p (parseStageBlockInto sc g) (\<lambda>ss. ret_p (d\<lparr>shd_init := shd_init d @ ss\<rparr>)))"
    "yields (spelled_decl name) (bind_p (parseStageBlockInto sc g) (\<lambda>ss. ret_p (d\<lparr>shd_vertex := shd_vertex d @ ss\<rparr>)))"
    "yields (spelled_decl name) (bind_p (parseStageBlockInto sc g) (\<lambda>ss. ret_p (d\<lparr>shd_fragment := shd_fragment d @ ss\<rparr>)))"
    by (rule yields_bind [OF stage_yields], use assms in \<open>simp add: yields_ret printable_shader_def\<close>)+
  show ?thesis
    unfolding word_item_def by (intro yields_skip yields_if yields_fail priority stages)
qed

lemma item_yields:
  assumes "spelled_decl name d"
  shows "yields (case_sum (spelled_decl name) (spelled_decl name)) (shader_item sc g d)"
proof -
  have at: "yields (case_sum (spelled_decl name) (spelled_decl name)) (bind_p (at_item sc g d) (\<lambda>d'. ret_p (Inl d')))"
    by (rule yields_bind [OF at_yields [OF assms]]) (simp add: yields_ret)
  have word: "yields (case_sum (spelled_decl name) (spelled_decl name)) (bind_p (word_item sc g d) (\<lambda>d'. ret_p (Inl d')))"
    by (rule yields_bind [OF word_yields [OF assms]]) (simp add: yields_ret)
  show ?thesis
    unfolding shader_item_def
    by (intro yields_skip yields_if at word yields_fail yields_ret) (use assms in \<open>simp_all add: printable_shader_def\<close>)
qed

lemma decl_yields:
  "yields (\<lambda>n. \<exists>d. n = Sublanguage_decl \<lparr>sl_kind = ''shader'', sl_name = shd_name d, sl_shader = d\<rparr> \<and>
      printable_shader (float_of sc) fs d) (parseShaderDecl sc g)"
proof -
  have loop: "yields (spelled_decl name) (while_p (shader_item sc g) (empty_shader name))" for name
    by (rule yields_while [OF item_yields]) (simp_all add: empty_shader_def printable_shader_def)
  show ?thesis
    unfolding parseShaderDecl_def
    by (rule yields_skip, rule yields_skip, rule yields_skip, rule yields_bind [OF loop], rule yields_skip,
        rule yields_ret) auto
qed

end

lemma spelling_at:
  assumes "spells sc fs"
  shows "shader_spelling sc fs (shader_at sc n)"
proof (induction n)
  case 0
  from assms show ?case by unfold_locales (simp_all add: yields_fail)
next
  case (Suc n)
  show ?case
    by unfold_locales
      (simp_all add: assms shader_spelling.binary_yields [OF Suc] shader_spelling.unary_yields [OF Suc]
        shader_spelling.literal_yields [OF Suc] shader_spelling.stage_yields [OF Suc])
qed

lemma spelling_parser:
  assumes "spells sc fs"
  shows "shader_spelling sc fs (shader_parser sc)"
proof -
  note at = spelling_at [OF assms]
  show ?thesis
    by unfold_locales
      (use assms shader_spelling.binaries [OF at] shader_spelling.unaries [OF at] shader_spelling.literals [OF at]
        shader_spelling.sblocks [OF at] in \<open>auto simp: shader_parser_def Let_def yields_def simp del: shader_at.simps\<close>)
qed

section \<open>Inputs\<close>

text \<open>A scope whose floats are \<open>0.5\<close> and \<open>-0.5\<close>, their spelling, and \<open>shader T { fragment { x = p * 0.5; } @param p: vec4; }\<close>,
  whose items are not in the order of the printed form.\<close>

definition half_scope :: scope where
  "half_scope = \<lparr>known_types = [], known_enums = [], known_modules = [], current_impl_target = None,
     float_of = (\<lambda>s. if s = ''0.5'' then Some 0x3FE0000000000000
       else if s = ''-0.5'' then Some 0xBFE0000000000000 else None)\<rparr>"

definition half_text :: "64 word \<Rightarrow> string" where
  "half_text v = (if bit v 63 then ''-0.5'' else ''0.5'')"

definition late_stage :: "shader_stmt list" where
  "late_stage = [Sh_assign (Sh_ident ''x'') (Sh_binary Sh_mul (Sh_ident ''p'') (Sh_float_literal 0x3FE0000000000000))]"

definition late_param :: shader_field where
  "late_param = \<lparr>shf_name = ''p'', shf_ty = Sh_vec4\<rparr>"

definition late_tokens :: "ltoken list" where
  "late_tokens = word_tok ''shader'' # word_tok ''T'' # show_braced
     (show_stage half_text ''fragment'' late_stage @ at_tok ''param'' @ show_ended late_param)"

definition late_shader :: shader_decl where
  "late_shader = (empty_shader ''T'')\<lparr>shd_fragment := late_stage, shd_params := [late_param]\<rparr>"

lemma half_spelled: "spells half_scope half_text"
  by (simp add: spells_def half_scope_def half_text_def abs_float_def neg_float_def bit_numeral_rec)

interpretation half_spelling: shader_spelling half_scope half_text "shader_parser half_scope"
  by (rule spelling_parser [OF half_spelled])

lemma late_parsed:
  "parseShaderDecl half_scope (shader_parser half_scope) (cursor late_tokens) =
    Gives (Sublanguage_decl \<lparr>sl_kind = ''shader'', sl_name = ''T'', sl_shader = late_shader\<rparr>) (cursor [])"
proof -
  have stage: "list_all (printable_stmt (float_of half_scope) half_text) late_stage"
    by (simp add: late_stage_def half_scope_def half_text_def bit_numeral_rec)
  have "while_p (item_of half_scope) (empty_shader ''T'') ((cursor [])\<lparr>toks := show_stage half_text ''fragment'' late_stage @
      (at_tok ''param'' @ show_ended late_param) @ [punct_tok P_r_brace]\<rparr>) =
    Gives late_shader ((cursor [])\<lparr>toks := [punct_tok P_r_brace]\<rparr>)"
    unfolding adds_next [OF adds_stages(3) [OF stage]] adds_next [OF adds_fields(2)]
    by (rule while_done [OF shader_parser.shader_item_rounds])
      (simp add: shader_item_def run late_shader_def empty_shader_def)
  then show ?thesis
    by (simp add: parseShaderDecl_def late_tokens_def show_braced_def run cursor_def)
qed

lemma tint_printable: "printable_shader (float_of half_scope) (\<lambda>_. ''0.5'') tint_shader"
  by (simp add: printable_shader_def tint_shader_def half_scope_def)

section \<open>Round trips\<close>

text \<open>C7: round trip of shaders.  The tokens of every shader declaration, its expressions printed with parentheses only
  where the table of operators asks for them, are read back by \<open>parseShaderDecl\<close> as that declaration, in front of any
  tokens, which are left as they were.\<close>

theorem shader_read_back:
  assumes "printable_shader (float_of sc) fs d"
  shows "parseShaderDecl sc (shader_parser sc) (st\<lparr>toks := show_shader fs d @ rest\<rparr>) =
    Gives (Sublanguage_decl \<lparr>sl_kind = ''shader'', sl_name = shd_name d, sl_shader = d\<rparr>) (st\<lparr>toks := rest\<rparr>)"
  by (rule shown_read [OF assms])

theorem shader_read_back_witness:
  "parseShaderDecl half_scope (shader_parser half_scope) (cursor (show_shader (\<lambda>_. ''0.5'') tint_shader)) =
    Gives (Sublanguage_decl \<lparr>sl_kind = ''shader'', sl_name = ''Tint'', sl_shader = tint_shader\<rparr>) (cursor []) \<and>
   checkShaderDecl tint_shader = Inr ()"
  using shader_read_back [OF tint_printable, where st = "cursor []" and rest = "[]"] tint_checked
  by (simp add: cursor_def) (simp add: tint_shader_def)

text \<open>C8: printing is lossless on what was parsed.  When \<open>parseShaderDecl\<close> gives a declaration for any tokens, the
  tokens of its printed form are parsed to the same declaration, in front of any others, so two texts with one printed
  form are one declaration.  The printer has to spell the floats so that \<open>std.fmt.parseFloat\<close> reads them back, with their
  sign and without (\<open>spells\<close>); that is all that is asked of \<open>parseFloat\<close>.\<close>

theorem parsed_reprints:
  assumes "spells sc fs" "parseShaderDecl sc (shader_parser sc) st = Gives n st'"
  shows "\<exists>d. n = Sublanguage_decl \<lparr>sl_kind = ''shader'', sl_name = shd_name d, sl_shader = d\<rparr> \<and>
    (\<forall>st2 rest. parseShaderDecl sc (shader_parser sc) (st2\<lparr>toks := show_shader fs d @ rest\<rparr>) = Gives n (st2\<lparr>toks := rest\<rparr>))"
proof -
  from yieldsD [OF shader_spelling.decl_yields [OF spelling_parser [OF assms(1)]] assms(2)] obtain d where
    d: "n = Sublanguage_decl \<lparr>sl_kind = ''shader'', sl_name = shd_name d, sl_shader = d\<rparr>"
      "printable_shader (float_of sc) fs d" by blast
  with shown_read [OF d(2)] show ?thesis by (intro exI [of _ d]) simp
qed

theorem parsed_reprints_witness:
  "parseShaderDecl half_scope (shader_parser half_scope) (cursor (show_shader half_text late_shader)) =
    Gives (Sublanguage_decl \<lparr>sl_kind = ''shader'', sl_name = ''T'', sl_shader = late_shader\<rparr>) (cursor [])"
proof -
  from parsed_reprints [OF half_spelled late_parsed]
  have "\<forall>st2 rest. parseShaderDecl half_scope (shader_parser half_scope)
      (st2\<lparr>toks := show_shader half_text late_shader @ rest\<rparr>) =
    Gives (Sublanguage_decl \<lparr>sl_kind = ''shader'', sl_name = ''T'', sl_shader = late_shader\<rparr>) (st2\<lparr>toks := rest\<rparr>)"
    by auto
  from this [THEN spec, of "cursor []", THEN spec, of "[]"] show ?thesis by (simp add: cursor_def)
qed

end
