(* ===== verification/Sla_Parse_Decl.thy ===== *)
theory Sla_Parse_Decl
  imports Sla_Parse_Knot Sla_Shader_Parse Sla_Block_Span
begin

text \<open>
  The declarations of \<open>src/parser.zig\<close>, from \<open>parseProgram\<close> down, on the cursor of \<open>Sla_Parse\<close>.  What the
  declarations record in the parser is the record \<open>decl_state\<close>; a span of the buffer is the list of its tokens.
\<close>

section \<open>Options and state\<close>

text \<open>The sets of selected names are lists.  \<open>surfaces\<close> stands for the files: the types and enums that
  \<open>prescanSlaImportTypes\<close> merges for a path, in order.\<close>

record options =
  parse_function_bodies :: bool
  function_body_names :: "string list option"
  parse_macro_bodies :: bool
  macro_body_names :: "string list option"
  parse_test_bodies :: bool
  prescan_sla_import_types :: bool
  surfaces :: "string \<Rightarrow> (string list \<times> string list) list"

record decl_state =
  ds_scope :: scope
  registered_sublanguages :: "string list"
  function_body_spans :: "(node \<times> ltoken list) list"

text \<open>The parser of bodies in a scope.\<close>

type_synonym grammars = "scope \<Rightarrow> grammar"

definition clear_bang :: "unit pm" where
  "clear_bang st = Gives () (st\<lparr>type_bang_used := False\<rparr>)"

definition bang_used :: "bool pm" where
  "bang_used st = Gives (type_bang_used st) st"

section \<open>Bodies\<close>

text \<open>The loops of \<open>peekBlockSpan\<close> and \<open>skipBlockSpan\<close> on the tokens.\<close>

definition span_failure :: "span_error \<Rightarrow> parser_error" where
  "span_failure e = (case e of Syntax_error \<Rightarrow> SyntaxError | Integer_overflow \<Rightarrow> Panics)"

definition tag_token :: "tag \<Rightarrow> token" where
  "tag_token t = \<lparr>tok_tag = t, loc_start = 0, loc_end = 0\<rparr>"

fun peek_tokens :: "span_state \<Rightarrow> ltoken list \<Rightarrow> span_error + ltoken list" where
  "peek_tokens s [] = (case peek_step 0 (tag_token T_eof) s of Fail e \<Rightarrow> Inl e | _ \<Rightarrow> Inl Syntax_error)"
| "peek_tokens s (t # ts) =
     (case peek_step 0 (tag_token (fst t)) s of
        Fail e \<Rightarrow> Inl e
      | Finish e \<Rightarrow> Inr [t]
      | Continue s' \<Rightarrow> map_sum id ((#) t) (peek_tokens s' ts))"

definition peek_block :: "ltoken list pm" where
  "peek_block =
     bind_p p_peek (\<lambda>t.
     if t \<noteq> T_punct P_l_brace then fail_p SyntaxError
     else (bind_p (p_look (peek_tokens (span_init 0 0))) (\<lambda>r.
       case r of Inl e \<Rightarrow> fail_p (span_failure e) | Inr span \<Rightarrow> ret_p span)))"

definition skip_round :: "span_state \<times> ltoken list \<Rightarrow> ((span_state \<times> ltoken list) + (span_state \<times> ltoken list)) pm" where
  "skip_round = (\<lambda>(s, span).
     bind_p p_peek (\<lambda>t.
     bind_p p_lexeme (\<lambda>text.
     if s_depth s > 0 \<and> t \<noteq> T_eof then
       (case skip_step (tag_token t) s of
          Inl e \<Rightarrow> fail_p (span_failure e)
        | Inr s' \<Rightarrow> (bind_p p_advance (\<lambda>_.
            ret_p (Inl (s', span @ [(t, text)])))))
     else ret_p (Inr (s, span)))))"

definition skip_block :: "ltoken list pm" where
  "skip_block =
     bind_p p_lexeme (\<lambda>text.
     bind_p (p_expect (T_punct P_l_brace)) (\<lambda>_.
     bind_p (while_p skip_round (span_init 1 0, [(T_punct P_l_brace, text)])) (\<lambda>(s, span).
     if s_depth s \<noteq> 0 then fail_p SyntaxError else ret_p span)))"

definition selected :: "string list option \<Rightarrow> string \<Rightarrow> bool" where
  "selected names name = (case names of None \<Rightarrow> True | Some ns \<Rightarrow> name \<in> set ns)"

definition shouldParseFunctionBody :: "options \<Rightarrow> string \<Rightarrow> bool" where
  "shouldParseFunctionBody opts name \<longleftrightarrow> parse_function_bodies opts \<and> selected (function_body_names opts) name"

definition shouldParseMacroBody :: "options \<Rightarrow> string \<Rightarrow> bool" where
  "shouldParseMacroBody opts name \<longleftrightarrow> parse_macro_bodies opts \<and> selected (macro_body_names opts) name"

fun peelBorrowPointerType :: "ty \<Rightarrow> ty" where
  "peelBorrowPointerType (Ty_borrow t) = peelBorrowPointerType t"
| "peelBorrowPointerType (Ty_pointer t) = peelBorrowPointerType t"
| "peelBorrowPointerType t = t"

definition concreteTypeName :: "ty \<Rightarrow> string option" where
  "concreteTypeName t = (case peelBorrowPointerType t of Ty_user_defined name gs \<Rightarrow> Some name | _ \<Rightarrow> None)"

definition shouldParseMethodBody :: "options \<Rightarrow> ty \<Rightarrow> string option \<Rightarrow> string \<Rightarrow> bool" where
  "shouldParseMethodBody opts target_ty trait_name method_name \<longleftrightarrow>
     parse_function_bodies opts \<and>
     (case function_body_names opts of
        None \<Rightarrow> True
      | Some ns \<Rightarrow>
          (case concreteTypeName target_ty of
             None \<Rightarrow> False
           | Some type_name \<Rightarrow>
               (case trait_name of
                  Some tn \<Rightarrow> type_name @ ''__'' @ tn @ ''_'' @ method_name
                | None \<Rightarrow> type_name @ ''_'' @ method_name) \<in> set ns))"

definition parseOrCaptureFunctionBody :: "grammar \<Rightarrow> bool \<Rightarrow> (node list \<times> ltoken list) pm" where
  "parseOrCaptureFunctionBody g should_parse =
     (if should_parse then
        (bind_p peek_block (\<lambda>span.
         bind_p (g_block g) (\<lambda>body.
         ret_p (body, span))))
      else
        (bind_p skip_block (\<lambda>span.
         ret_p ([], span))))"

text \<open>\<open>parseFunctionBodySpan\<close> makes a parser of its own for the span, which knows the given types and enums.\<close>

definition parseFunctionBodySpan :: "grammars \<Rightarrow> (string \<Rightarrow> 64 word option) \<Rightarrow> ltoken list \<Rightarrow> string list \<Rightarrow>
    string list \<Rightarrow> node list outcome" where
  "parseFunctionBodySpan G fo span type_names enum_names =
     g_block (G \<lparr>known_types = type_names, known_enums = enum_names, known_modules = [],
       current_impl_target = None, float_of = fo\<rparr>)
     \<lparr>toks = span, type_bang_used = False, synth_counter = 0\<rparr>"

section \<open>Aggregates\<close>

definition plain_generics :: "string list pm" where
  "plain_generics =
     bind_p (p_match (T_punct P_less_than)) (\<lambda>m.
     if m then
       (bind_p (some_list (p_take T_identifier)) (\<lambda>gs.
        bind_p expectGenericClose (\<lambda>_.
        ret_p gs)))
     else ret_p [])"

definition field_item :: "grammar \<Rightarrow> field pm" where
  "field_item g =
     bind_p (p_take T_identifier) (\<lambda>name.
     bind_p (p_expect (T_punct P_colon)) (\<lambda>_.
     bind_p (g_type g) (\<lambda>t.
     ret_p \<lparr>field_name = name, field_ty = t\<rparr>)))"

text \<open>The fields behind \<open>{\<close> and behind \<open>(\<close>.\<close>

definition named_fields :: "grammar \<Rightarrow> field list pm" where
  "named_fields g =
     bind_p (loose_list (T_punct P_r_brace) (field_item g)) (\<lambda>fields.
     bind_p (p_expect (T_punct P_r_brace)) (\<lambda>_.
     ret_p fields))"

definition tuple_fields :: "grammar \<Rightarrow> field list pm" where
  "tuple_fields g =
     bind_p (comma_list (T_punct P_r_paren) (g_type g)) (\<lambda>ts.
     bind_p (p_expect (T_punct P_r_paren)) (\<lambda>_.
     ret_p (map (\<lambda>(i, t). \<lparr>field_name = dec_nat i, field_ty = t\<rparr>) (enumerate 0 ts))))"

definition parseAggregateDecl :: "grammar \<Rightarrow> bool \<Rightarrow> string list \<Rightarrow> node pm" where
  "parseAggregateDecl g is_union derives =
     bind_p (p_take T_identifier) (\<lambda>name.
     bind_p plain_generics (\<lambda>generics.
     bind_p (p_match (T_punct P_semicolon)) (\<lambda>is_opaque.
     bind_p (if is_opaque then ret_p []
       else (bind_p (p_match (T_punct P_l_paren)) (\<lambda>paren.
         if paren then tuple_fields g
         else (bind_p (p_expect (T_punct P_l_brace)) (\<lambda>_.
           named_fields g))))) (\<lambda>fields.
     ret_p (Struct_decl \<lparr>sd_name = name, sd_derives = derives, sd_generics = generics, sd_fields = fields,
       sd_is_union = is_union, sd_is_opaque = is_opaque\<rparr>)))))"

definition parseStructDecl :: "grammar \<Rightarrow> node pm" where
  "parseStructDecl g =
     bind_p (p_expect (T_keyword K_struct)) (\<lambda>_.
     parseAggregateDecl g False [])"

definition parseUnionDecl :: "grammar \<Rightarrow> node pm" where
  "parseUnionDecl g =
     bind_p (p_expect (T_keyword K_union)) (\<lambda>_.
     parseAggregateDecl g True [])"

definition parseDeriveDeclAfterAt :: "grammar \<Rightarrow> node pm" where
  "parseDeriveDeclAfterAt g =
     bind_p (p_expect (T_punct P_l_paren)) (\<lambda>_.
     bind_p (comma_list (T_punct P_r_paren) (p_take T_identifier)) (\<lambda>derives.
     bind_p (p_expect (T_punct P_r_paren)) (\<lambda>_.
     bind_p (p_match (T_keyword K_pub)) (\<lambda>_.
     bind_p p_peek (\<lambda>t.
     if t \<noteq> T_keyword K_struct then fail_p ExpectedDeclaration
     else (bind_p (p_expect (T_keyword K_struct)) (\<lambda>_.
       parseAggregateDecl g False derives)))))))"

definition alias_component :: "grammar \<Rightarrow> type_alias_component pm" where
  "alias_component g =
     bind_p (p_match (T_punct P_l_brace)) (\<lambda>m.
     if m then (bind_p (named_fields g) (\<lambda>fields.
       ret_p (Alias_inline_struct fields)))
     else (bind_p (g_type g) (\<lambda>t.
       ret_p (Alias_ty t))))"

definition alias_step :: "grammar \<Rightarrow> type_alias_component list \<Rightarrow>
    (type_alias_component list + type_alias_component list) pm" where
  "alias_step g cs =
     bind_p (alias_component g) (\<lambda>c.
     bind_p (p_match (T_punct P_ampersand)) (\<lambda>m.
     ret_p (if m then Inl (cs @ [c]) else Inr (cs @ [c]))))"

definition parseTypeAliasDecl :: "grammar \<Rightarrow> type_alias_decl pm" where
  "parseTypeAliasDecl g =
     bind_p (p_expect (T_keyword K_type)) (\<lambda>_.
     bind_p (p_take T_identifier) (\<lambda>name.
     bind_p (p_expect (T_punct P_equal)) (\<lambda>_.
     bind_p (while_p (alias_step g) []) (\<lambda>components.
     bind_p (p_expect (T_punct P_semicolon)) (\<lambda>_.
     ret_p \<lparr>tad_name = name, tad_components = components\<rparr>)))))"

section \<open>Enums\<close>

text \<open>The leading digits of the literal; a suffix is ignored.\<close>

definition discriminant_value :: "bool \<Rightarrow> string \<Rightarrow> int option" where
  "discriminant_value negative num_str =
     (let digits = takeWhile is_digit (stripNumericSeparators num_str)
      in map_option (\<lambda>n. if negative then - int n else int n) (parse_uint (2 ^ 63) 10 digits))"

definition variant_discriminant :: "int option pm" where
  "variant_discriminant =
     bind_p (p_match (T_punct P_equal)) (\<lambda>m.
     if m then
       (bind_p (p_match (T_punct P_minus)) (\<lambda>negative.
        bind_p (p_take T_int_literal) (\<lambda>num_str.
        bind_p (or_fail InvalidCharacter (discriminant_value negative num_str)) (\<lambda>v.
        ret_p (Some v)))))
     else ret_p None)"

definition variant_item :: "grammar \<Rightarrow> enum_variant pm" where
  "variant_item g =
     bind_p (p_take T_identifier) (\<lambda>name.
     bind_p variant_discriminant (\<lambda>discriminant.
     bind_p (p_match (T_punct P_l_brace)) (\<lambda>brace.
     bind_p (if brace then named_fields g
       else (bind_p (p_match (T_punct P_l_paren)) (\<lambda>paren.
         if paren then tuple_fields g else ret_p []))) (\<lambda>fields.
     ret_p \<lparr>ev_name = name, ev_fields = fields, ev_discriminant = discriminant\<rparr>))))"

text \<open>The check of the tags; \<open>next_auto = value + 1\<close> is checked arithmetic on an \<open>i64\<close>.\<close>

fun check_tags :: "int list \<Rightarrow> int \<Rightarrow> enum_variant list \<Rightarrow> parser_error option" where
  "check_tags seen next_auto [] = None"
| "check_tags seen next_auto (v # vs) =
     (if ev_fields v \<noteq> [] \<and> ev_discriminant v \<noteq> None then Some UnexpectedToken
      else
        (let val = (case ev_discriminant v of Some d \<Rightarrow> d | None \<Rightarrow> next_auto)
         in if val \<in> set seen then Some UnexpectedToken
            else if val = 2 ^ 63 - 1 then Some Panics
            else check_tags (seen @ [val]) (val + 1) vs))"

definition parseEnumDecl :: "grammar \<Rightarrow> node pm" where
  "parseEnumDecl g =
     bind_p (p_expect (T_keyword K_enum)) (\<lambda>_.
     bind_p (p_take T_identifier) (\<lambda>name.
     bind_p plain_generics (\<lambda>generics.
     bind_p (p_expect (T_punct P_l_brace)) (\<lambda>_.
     bind_p (loose_list (T_punct P_r_brace) (variant_item g)) (\<lambda>variants.
     bind_p (p_expect (T_punct P_r_brace)) (\<lambda>_.
     case check_tags [] 0 variants of
       Some e \<Rightarrow> fail_p e
     | None \<Rightarrow> ret_p (Enum_decl \<lparr>ed_name = name, ed_generics = generics, ed_variants = variants\<rparr>)))))))"

section \<open>Parameters\<close>

definition parseGenericParams :: "string list pm" where
  "parseGenericParams =
     bind_p (p_match (T_punct P_less_than)) (\<lambda>m.
     if m then
       (bind_p (some_list
          (bind_p (p_take T_identifier) (\<lambda>name.
           bind_p (p_match (T_punct P_colon)) (\<lambda>bound.
           if bound then (bind_p (p_expect T_identifier) (\<lambda>_.
             ret_p name))
           else ret_p name)))) (\<lambda>gs.
        bind_p expectGenericClose (\<lambda>_.
        ret_p gs)))
     else ret_p [])"

text \<open>The borrow or move sign and the name of a parameter.\<close>

definition param_head :: "(bool \<times> bool \<times> string) pm" where
  "param_head =
     bind_p (p_match (T_punct P_ampersand)) (\<lambda>is_borrow.
     bind_p (if is_borrow then ret_p False else p_match (T_punct P_caret)) (\<lambda>is_move.
     bind_p (p_take T_identifier) (\<lambda>name.
     ret_p (is_borrow, is_move, name))))"

definition param_of :: "bool \<times> bool \<times> string \<Rightarrow> ty \<Rightarrow> param" where
  "param_of = (\<lambda>(is_borrow, is_move, name) t.
     \<lparr>pm_name = name, pm_ty = t, pm_is_borrow = is_borrow, pm_is_move = is_move, pm_is_fallible_sugar = False\<rparr>)"

definition param_tail :: "grammar \<Rightarrow> bool \<times> bool \<times> string \<Rightarrow> param pm" where
  "param_tail g head =
     bind_p (p_expect (T_punct P_colon)) (\<lambda>_.
     bind_p (g_type g) (\<lambda>t.
     ret_p (param_of head t)))"

definition param_item :: "grammar \<Rightarrow> param pm" where
  "param_item g = bind_p param_head (param_tail g)"

text \<open>\<open>while (self.match(.comma))\<close>.\<close>

definition more_params_step :: "grammar \<Rightarrow> param list \<Rightarrow> (param list + param list) pm" where
  "more_params_step g ps =
     bind_p (p_match (T_punct P_comma)) (\<lambda>m.
     if \<not> m then ret_p (Inr ps)
     else (bind_p p_peek (\<lambda>t.
       if t = T_punct P_r_paren \<or> t = T_eof then ret_p (Inr ps)
       else (bind_p (param_item g) (\<lambda>p.
         ret_p (Inl (ps @ [p])))))))"

definition more_params :: "grammar \<Rightarrow> param \<Rightarrow> param list pm" where
  "more_params g first = while_p (more_params_step g) [first]"

text \<open>The parameters of a method, whose first may be \<open>self\<close> of the given type, and of an operator.\<close>

definition self_params :: "grammar \<Rightarrow> ty \<Rightarrow> param list pm" where
  "self_params g self_ty =
     bind_p p_peek (\<lambda>t.
     if t = T_punct P_r_paren \<or> t = T_eof then ret_p []
     else (bind_p param_head (\<lambda>head.
       if snd (snd head) = ''self'' then
         (bind_p (p_match (T_punct P_comma)) (\<lambda>m.
          if m then (bind_p (comma_list (T_punct P_r_paren) (param_item g)) (\<lambda>ps.
            ret_p (param_of head self_ty # ps)))
          else ret_p [param_of head self_ty]))
       else (bind_p (param_tail g head) (\<lambda>p.
         more_params g p)))))"

definition operator_params :: "grammar \<Rightarrow> param list pm" where
  "operator_params g =
     bind_p p_peek (\<lambda>t.
     if t = T_punct P_r_paren \<or> t = T_eof then ret_p []
     else (bind_p (param_item g) (more_params g)))"

definition return_type :: "grammar \<Rightarrow> ty pm" where
  "return_type g =
     bind_p (p_match (T_punct P_arrow)) (\<lambda>m.
     if m then g_type g else ret_p (Ty_primitive P_void_type))"

section \<open>Functions and methods\<close>

text \<open>A signature, its body and the span of the body.\<close>

type_synonym func = "func_sig \<times> node list \<times> ltoken list option"

definition plain_sig :: "string \<Rightarrow> string list \<Rightarrow> param list \<Rightarrow> ty \<Rightarrow> func_sig" where
  "plain_sig name generics params ret_ty =
     \<lparr>fd_name = name, fd_is_pub = False, fd_is_extern = False, fd_abi = None, fd_no_mangle = False,
      fd_is_decl_only = False, fd_generics = generics, fd_params = params, fd_ret_ty = ret_ty, fd_is_inline = False,
      fd_is_async = False, fd_is_arena = False, fd_operator = None, fd_is_variadic = False,
      fd_ret_fallible_sugar = False, fd_ret_borrow_origin = None\<rparr>"

text \<open>The type of a parameter: whether it is a \<open>VaList\<close>, the type and whether it was spelled with \<open>!\<close>.\<close>

definition func_param_type :: "grammar \<Rightarrow> (bool \<times> ty \<times> bool) pm" where
  "func_param_type g =
     bind_p (p_match (T_punct P_range)) (\<lambda>m.
     if m then
       (bind_p (p_expect (T_punct P_dot)) (\<lambda>_.
        ret_p (True, Ty_primitive P_va_list, False)))
     else
       (bind_p clear_bang (\<lambda>_.
        bind_p (g_type g) (\<lambda>t.
        bind_p bang_used (\<lambda>sugar.
        ret_p (t = Ty_primitive P_va_list, t, sugar))))))"

definition func_param_step :: "grammar \<Rightarrow> bool \<Rightarrow> bool \<Rightarrow> string option \<Rightarrow> string list \<Rightarrow> param list \<Rightarrow>
    (param list + param list \<times> bool) pm" where
  "func_param_step g is_extern is_decl_only abi generics params =
     bind_p p_peek (\<lambda>t.
     if t = T_punct P_r_paren \<or> t = T_eof then ret_p (Inr (params, False))
     else if t = T_punct P_range then
       (bind_p p_advance (\<lambda>_.
        bind_p (p_expect (T_punct P_dot)) (\<lambda>_.
        if \<not> is_extern \<or> \<not> is_decl_only \<or> \<not> isCAbiName abi then fail_p SyntaxError
        else if params = [] then fail_p SyntaxError
        else ret_p (Inr (params, True)))))
     else
       (bind_p param_head (\<lambda>head.
        bind_p (p_expect (T_punct P_colon)) (\<lambda>_.
        bind_p (func_param_type g) (\<lambda>(is_va_list, ty, sugar).
        if is_va_list then
          (if fst head \<or> fst (snd head) then fail_p SyntaxError
           else if \<not> is_extern \<or> is_decl_only \<or> \<not> isCAbiName abi \<or> generics \<noteq> [] then fail_p SyntaxError
           else if params = [] then fail_p SyntaxError
           else ret_p (Inr (params @ [param_of head ty], True)))
        else
          (bind_p p_peek (\<lambda>u.
           if u = T_punct P_equal then fail_p SyntaxError
           else
             (let params' = params @ [(param_of head ty)\<lparr>pm_is_fallible_sugar := sugar\<rparr>] in
              bind_p (p_match (T_punct P_comma)) (\<lambda>m.
              ret_p (if m then Inl params' else Inr (params', False)))))))))))"

definition borrow_origin :: "ty \<Rightarrow> string option pm" where
  "borrow_origin ret_ty =
     (case ret_ty of
        Ty_borrow t \<Rightarrow>
          (bind_p (p_match (T_punct P_l_bracket)) (\<lambda>m.
           if m then
             (bind_p (p_take T_identifier) (\<lambda>origin.
              bind_p (p_expect (T_punct P_r_bracket)) (\<lambda>_.
              ret_p (Some origin))))
           else ret_p None))
      | _ \<Rightarrow> ret_p None)"

definition func_return :: "grammar \<Rightarrow> (ty \<times> bool) pm" where
  "func_return g =
     bind_p (p_match (T_punct P_arrow)) (\<lambda>m.
     if m then
       (bind_p clear_bang (\<lambda>_.
        bind_p (g_type g) (\<lambda>t.
        bind_p bang_used (\<lambda>sugar.
        ret_p (t, sugar)))))
     else ret_p (Ty_primitive P_void_type, False))"

record modifiers =
  m_pub :: bool
  m_extern :: bool
  m_abi :: "string option"
  m_inline :: bool
  m_async :: bool

definition fn_modifiers :: "modifiers pm" where
  "fn_modifiers =
     bind_p (p_match (T_keyword K_pub)) (\<lambda>is_pub.
     bind_p (p_match (T_keyword K_extern)) (\<lambda>is_extern.
     bind_p (if is_extern then parseOptionalExternAbi else ret_p None) (\<lambda>abi.
     bind_p (p_match (T_keyword K_inline)) (\<lambda>is_inline.
     bind_p (p_match (T_keyword K_async)) (\<lambda>is_async.
     ret_p \<lparr>m_pub = is_pub, m_extern = is_extern, m_abi = abi, m_inline = is_inline, m_async = is_async\<rparr>)))))"

definition parseFuncDecl :: "options \<Rightarrow> grammar \<Rightarrow> modifiers \<Rightarrow> bool \<Rightarrow> bool \<Rightarrow> func pm" where
  "parseFuncDecl opts g m no_mangle is_decl_only =
     bind_p (p_expect (T_keyword K_fn)) (\<lambda>_.
     bind_p (p_take T_identifier) (\<lambda>name.
     bind_p parseGenericParams (\<lambda>generics.
     bind_p (p_expect (T_punct P_l_paren)) (\<lambda>_.
     bind_p (while_p (func_param_step g (m_extern m) is_decl_only (m_abi m) generics) []) (\<lambda>(params, is_variadic).
     bind_p (p_expect (T_punct P_r_paren)) (\<lambda>_.
     if is_variadic \<and> m_async m then fail_p SyntaxError
     else
       (bind_p (func_return g) (\<lambda>(ret_ty, sugar).
        bind_p (borrow_origin ret_ty) (\<lambda>origin.
        bind_p (if is_decl_only then ret_p ([], None)
          else (bind_p (parseOrCaptureFunctionBody g (shouldParseFunctionBody opts name)) (\<lambda>(body, span).
            ret_p (body, Some span)))) (\<lambda>(body, span).
        ret_p ((plain_sig name generics params ret_ty)\<lparr>fd_is_pub := m_pub m, fd_is_extern := m_extern m,
          fd_abi := m_abi m, fd_no_mangle := no_mangle, fd_is_decl_only := is_decl_only, fd_is_inline := m_inline m,
          fd_is_async := m_async m, fd_is_variadic := is_variadic, fd_ret_fallible_sugar := sugar,
          fd_ret_borrow_origin := origin\<rparr>, body, span)))))))))))"

definition parseMethodDecl :: "options \<Rightarrow> grammar \<Rightarrow> ty \<Rightarrow> string option \<Rightarrow> func pm" where
  "parseMethodDecl opts g target_ty trait_name =
     bind_p (p_expect (T_keyword K_fn)) (\<lambda>_.
     bind_p (p_take T_identifier) (\<lambda>name.
     bind_p parseGenericParams (\<lambda>generics.
     bind_p (p_expect (T_punct P_l_paren)) (\<lambda>_.
     bind_p (self_params g target_ty) (\<lambda>params.
     bind_p (p_expect (T_punct P_r_paren)) (\<lambda>_.
     bind_p (return_type g) (\<lambda>ret_ty.
     bind_p (parseOrCaptureFunctionBody g (shouldParseMethodBody opts target_ty trait_name name)) (\<lambda>(body, span).
     ret_p (plain_sig name generics params ret_ty, body, Some span)))))))))"

definition overloaded_op :: "tag \<Rightarrow> (binary_op \<times> string) option" where
  "overloaded_op t = map_of
     [(T_punct P_plus, (Bop_add, ''op_add'')), (T_punct P_minus, (Bop_sub, ''op_sub'')),
      (T_punct P_asterisk, (Bop_mul, ''op_mul'')), (T_punct P_slash, (Bop_div, ''op_div''))] t"

definition parseOverloadMethodDecl :: "options \<Rightarrow> grammar \<Rightarrow> ty \<Rightarrow> func pm" where
  "parseOverloadMethodDecl opts g target_ty =
     bind_p (p_expect (T_keyword K_fn)) (\<lambda>_.
     bind_p p_peek (\<lambda>t.
     case overloaded_op t of
       None \<Rightarrow> fail_p ExpectedDeclaration
     | Some (bop, op_name) \<Rightarrow>
         (bind_p p_advance (\<lambda>_.
          bind_p parseGenericParams (\<lambda>generics.
          bind_p (p_expect (T_punct P_l_paren)) (\<lambda>_.
          bind_p (operator_params g) (\<lambda>params.
          bind_p (p_expect (T_punct P_r_paren)) (\<lambda>_.
          bind_p (return_type g) (\<lambda>ret_ty.
          bind_p (parseOrCaptureFunctionBody g (shouldParseMethodBody opts target_ty None op_name)) (\<lambda>(body, span).
          ret_p ((plain_sig op_name generics params ret_ty)\<lparr>fd_operator := Some bop\<rparr>, body, Some span)))))))))))"

text \<open>The node of a function and \<open>rememberFunctionBodySpan\<close>.\<close>

definition func_node :: "func \<Rightarrow> node" where
  "func_node = (\<lambda>(s, body, span). Func_decl s body)"

definition func_spans :: "func \<Rightarrow> (node \<times> ltoken list) list" where
  "func_spans f = (case snd (snd f) of None \<Rightarrow> [] | Some span \<Rightarrow> [(func_node f, span)])"

definition remember :: "decl_state \<Rightarrow> func list \<Rightarrow> decl_state" where
  "remember ds fs = ds\<lparr>function_body_spans := function_body_spans ds @ concat (map func_spans fs)\<rparr>"

section \<open>Traits, implementations and operators\<close>

text \<open>The same scope inside a trait or an implementation.\<close>

definition inside :: "scope \<Rightarrow> ty \<Rightarrow> scope" where
  "inside sc target_ty = sc\<lparr>current_impl_target := Some target_ty\<rparr>"

definition trait_method_item :: "grammar \<Rightarrow> trait_method pm" where
  "trait_method_item g =
     bind_p (p_expect (T_keyword K_fn)) (\<lambda>_.
     bind_p (p_take T_identifier) (\<lambda>name.
     bind_p parseGenericParams (\<lambda>_.
     bind_p (p_expect (T_punct P_l_paren)) (\<lambda>_.
     bind_p (self_params g (Ty_user_defined ''Self'' [])) (\<lambda>params.
     bind_p (p_expect (T_punct P_r_paren)) (\<lambda>_.
     bind_p (return_type g) (\<lambda>ret_ty.
     bind_p (p_expect (T_punct P_semicolon)) (\<lambda>_.
     ret_p \<lparr>tm_name = name, tm_params = params, tm_ret_ty = ret_ty\<rparr>))))))))"

definition plus_step :: "string list \<Rightarrow> (string list + string list) pm" where
  "plus_step xs =
     bind_p (p_take T_identifier) (\<lambda>x.
     bind_p (p_match (T_punct P_plus)) (\<lambda>m.
     ret_p (if m then Inl (xs @ [x]) else Inr (xs @ [x]))))"

definition parseTraitDecl :: "grammars \<Rightarrow> scope \<Rightarrow> node pm" where
  "parseTraitDecl G sc =
     bind_p (p_expect (T_keyword K_trait)) (\<lambda>_.
     bind_p (p_take T_identifier) (\<lambda>name.
     bind_p (p_match (T_punct P_colon)) (\<lambda>m.
     bind_p (if m then while_p plus_step [] else ret_p []) (\<lambda>supertraits.
     bind_p (braced (trait_method_item (G (inside sc (Ty_user_defined ''Self'' []))))) (\<lambda>methods.
     ret_p (Trait_decl \<lparr>trd_name = name, trd_supertraits = supertraits, trd_methods = methods\<rparr>))))))"

definition with_semicolon :: "'a pm \<Rightarrow> 'a pm" where
  "with_semicolon item =
     bind_p item (\<lambda>x.
     bind_p (p_match (T_punct P_semicolon)) (\<lambda>_.
     ret_p x))"

definition impl_method :: "options \<Rightarrow> grammar \<Rightarrow> ty \<Rightarrow> string option \<Rightarrow> func pm" where
  "impl_method opts g target_ty trait_name =
     bind_p (p_match (T_keyword K_inline)) (\<lambda>is_inline.
     bind_p (p_match (T_keyword K_async)) (\<lambda>is_async.
     if is_inline \<or> is_async then fail_p ExpectedDeclaration
     else parseMethodDecl opts g target_ty trait_name))"

definition impl_head :: "grammar \<Rightarrow> (string option \<times> ty) pm" where
  "impl_head g =
     bind_p (g_type g) (\<lambda>first_ty.
     bind_p (p_match (T_keyword K_for)) (\<lambda>m.
     if \<not> m then ret_p (None, first_ty)
     else
       (case first_ty of
          Ty_user_defined name gs \<Rightarrow> (bind_p (g_type g) (\<lambda>target_ty.
            ret_p (Some name, target_ty)))
        | _ \<Rightarrow> fail_p UnexpectedTypeToken)))"

definition parseImplDecl :: "options \<Rightarrow> grammars \<Rightarrow> decl_state \<Rightarrow> (node \<times> decl_state) pm" where
  "parseImplDecl opts G ds =
     bind_p (p_expect (T_keyword K_impl)) (\<lambda>_.
     bind_p (impl_head (G (ds_scope ds))) (\<lambda>(trait_name, target_ty).
     bind_p (braced (with_semicolon (impl_method opts (G (inside (ds_scope ds) target_ty)) target_ty trait_name))) (\<lambda>methods.
     ret_p (Impl_decl trait_name target_ty (map func_node methods), remember ds methods))))"

definition parseOverloadDeclAfterAt :: "options \<Rightarrow> grammars \<Rightarrow> decl_state \<Rightarrow> (node \<times> decl_state) pm" where
  "parseOverloadDeclAfterAt opts G ds =
     bind_p (p_expect (T_keyword K_overload)) (\<lambda>_.
     bind_p (g_type (G (ds_scope ds))) (\<lambda>target_ty.
     bind_p (braced (with_semicolon (parseOverloadMethodDecl opts (G (ds_scope ds)) target_ty))) (\<lambda>methods.
     ret_p (Overload_decl target_ty (map func_node methods), remember ds methods))))"

text \<open>The functions of an \<open>extern\<close> block have no bodies.\<close>

definition extern_item :: "options \<Rightarrow> grammar \<Rightarrow> string option \<Rightarrow> func pm" where
  "extern_item opts g abi =
     bind_p (p_match (T_keyword K_pub)) (\<lambda>is_pub.
     bind_p p_peek (\<lambda>t.
     if t \<noteq> T_keyword K_fn then fail_p ExpectedDeclaration
     else parseFuncDecl opts g
       \<lparr>m_pub = is_pub, m_extern = True, m_abi = abi, m_inline = False, m_async = False\<rparr> False True))"

definition parseExternBlock :: "options \<Rightarrow> grammar \<Rightarrow> string option \<Rightarrow> node pm" where
  "parseExternBlock opts g abi =
     bind_p (braced (with_semicolon (extern_item opts g abi))) (\<lambda>decls.
     ret_p (Program (map func_node decls)))"

section \<open>Macros, tests and imports\<close>

definition macro_param :: "grammar \<Rightarrow> (string \<times> ty option) pm" where
  "macro_param g =
     bind_p (p_take T_identifier) (\<lambda>name.
     bind_p (optional_type g) (\<lambda>t.
     ret_p (name, t)))"

text \<open>A body that is parsed, or skipped and empty.\<close>

definition body_or_skip :: "grammar \<Rightarrow> bool \<Rightarrow> node list pm" where
  "body_or_skip g should_parse =
     (if should_parse then g_block g
      else (bind_p skip_block (\<lambda>_.
        ret_p [])))"

definition parseMacroDecl :: "options \<Rightarrow> grammar \<Rightarrow> node pm" where
  "parseMacroDecl opts g =
     bind_p (p_expect (T_keyword K_macro)) (\<lambda>_.
     bind_p (p_take T_identifier) (\<lambda>name.
     bind_p (p_expect (T_punct P_l_paren)) (\<lambda>_.
     bind_p (comma_list (T_punct P_r_paren) (macro_param g)) (\<lambda>ps.
     bind_p (p_expect (T_punct P_r_paren)) (\<lambda>_.
     bind_p (body_or_skip g (shouldParseMacroBody opts name)) (\<lambda>body.
     ret_p (Macro_decl \<lparr>md_name = name, md_params = map fst ps, md_param_types = map snd ps\<rparr> body)))))))"

definition quoted_text :: "string \<Rightarrow> string option" where
  "quoted_text raw =
     (if length raw < 2 \<or> hd raw \<noteq> CHR 0x22 \<or> last raw \<noteq> CHR 0x22 then None else Some (butlast (tl raw)))"

definition test_flag_step :: "bool \<times> bool \<Rightarrow> ((bool \<times> bool) + (bool \<times> bool)) pm" where
  "test_flag_step = (\<lambda>(is_ignored, should_panic).
     bind_p p_peek (\<lambda>t.
     bind_p p_lexeme (\<lambda>word.
     if t = T_identifier \<and> word = ''ignored'' then
       (bind_p p_advance (\<lambda>_. ret_p (Inl (True, should_panic))))
     else if t = T_identifier \<and> word = ''should_panic'' then
       (bind_p p_advance (\<lambda>_. ret_p (Inl (is_ignored, True))))
     else ret_p (Inr (is_ignored, should_panic)))))"

definition parseTestDeclAfterAt :: "options \<Rightarrow> grammar \<Rightarrow> node pm" where
  "parseTestDeclAfterAt opts g =
     bind_p (while_p test_flag_step (False, False)) (\<lambda>(is_ignored, should_panic).
     bind_p (p_take T_string_literal) (\<lambda>raw_name.
     bind_p (or_fail SyntaxError (quoted_text raw_name)) (\<lambda>name.
     bind_p (p_expect (T_punct P_l_paren)) (\<lambda>_.
     bind_p (p_expect (T_punct P_r_paren)) (\<lambda>_.
     bind_p (body_or_skip g (parse_test_bodies opts)) (\<lambda>body.
     ret_p (Test_decl \<lparr>td_name = name, td_is_ignored = is_ignored, td_should_panic = should_panic\<rparr> body)))))))"

text \<open>\<open>recordImportModuleName\<close>: the file name of the path up to its last dot.\<close>

definition base_name :: "string \<Rightarrow> string" where
  "base_name path = rev (takeWhile (\<lambda>c. c \<noteq> CHR ''/'') (dropWhile (\<lambda>c. c = CHR ''/'') (rev path)))"

definition stem_of :: "string \<Rightarrow> string" where
  "stem_of base =
     (case dropWhile (\<lambda>c. c \<noteq> CHR ''.'') (rev base) of [] \<Rightarrow> base | _ # r \<Rightarrow> rev r)"

definition add_module :: "string \<Rightarrow> scope \<Rightarrow> scope" where
  "add_module name sc = (if isKnownModuleName sc name then sc else sc\<lparr>known_modules := known_modules sc @ [name]\<rparr>)"

definition recordImportModuleName :: "string \<Rightarrow> scope \<Rightarrow> scope" where
  "recordImportModuleName path sc =
     (let stem = stem_of (base_name path) in if stem = [] then sc else add_module stem sc)"

definition add_new_type :: "string \<Rightarrow> scope \<Rightarrow> scope" where
  "add_new_type name sc = (if isKnownTypeName sc name then sc else sc\<lparr>known_types := known_types sc @ [name]\<rparr>)"

definition add_new_enum :: "string \<Rightarrow> scope \<Rightarrow> scope" where
  "add_new_enum name sc = (if isKnownEnumName sc name then sc else sc\<lparr>known_enums := known_enums sc @ [name]\<rparr>)"

definition mergeKnownTypeSurface :: "string list \<times> string list \<Rightarrow> scope \<Rightarrow> scope" where
  "mergeKnownTypeSurface = (\<lambda>(types, enums) sc. fold add_new_enum enums (fold add_new_type types sc))"

definition import_names :: "options \<Rightarrow> string \<Rightarrow> scope \<Rightarrow> scope" where
  "import_names opts path sc =
     (if drop (length path - 4) path = ''.sla'' then
        (let sc' = recordImportModuleName path sc
         in if prescan_sla_import_types opts then fold mergeKnownTypeSurface (surfaces opts path) sc' else sc')
      else sc)"

definition import_path :: "string pm" where
  "import_path =
     bind_p p_peek (\<lambda>t.
     if t = T_string_literal then
       (bind_p (p_take T_string_literal) (\<lambda>raw.
        or_fail SyntaxError (quoted_text raw)))
     else parseImportPathTokenSequence)"

definition parseImportDeclAfterAt :: "options \<Rightarrow> decl_state \<Rightarrow> (node \<times> decl_state) pm" where
  "parseImportDeclAfterAt opts ds =
     bind_p import_path (\<lambda>path.
     bind_p (p_match (T_punct P_semicolon)) (\<lambda>_.
     ret_p (Import_decl path, ds\<lparr>ds_scope := import_names opts path (ds_scope ds)\<rparr>)))"

section \<open>Declarations\<close>

definition isBoundSublanguageKind :: "string \<Rightarrow> bool" where
  "isBoundSublanguageKind kind \<longleftrightarrow> kind = ''shader''"

definition parseRegisteredSublanguageDecl :: "scope \<Rightarrow> string \<Rightarrow> node pm" where
  "parseRegisteredSublanguageDecl sc kind =
     (if kind = ''shader'' then parseShaderDecl sc (shader_parser sc) else fail_p SublanguageNotBound)"

definition one_func :: "decl_state \<Rightarrow> func pm \<Rightarrow> (node \<times> decl_state) pm" where
  "one_func ds m =
     bind_p m (\<lambda>f.
     ret_p (func_node f, remember ds [f]))"

definition no_names :: "decl_state \<Rightarrow> node pm \<Rightarrow> (node \<times> decl_state) pm" where
  "no_names ds m =
     bind_p m (\<lambda>n.
     ret_p (n, ds))"

definition register_kind :: "decl_state \<Rightarrow> (node \<times> decl_state) pm" where
  "register_kind ds =
     bind_p (p_take T_identifier) (\<lambda>kind.
     if \<not> isBoundSublanguageKind kind then fail_p SublanguageNotBound
     else ret_p (Sublanguage_registration kind,
       ds\<lparr>registered_sublanguages := registered_sublanguages ds @ [kind]\<rparr>))"

definition set_arena :: "func \<Rightarrow> func" where
  "set_arena = (\<lambda>(s, body, span). (s\<lparr>fd_is_arena := True\<rparr>, body, span))"

definition no_mangle_decl :: "options \<Rightarrow> grammar \<Rightarrow> func pm" where
  "no_mangle_decl opts g =
     bind_p fn_modifiers (\<lambda>m.
     bind_p p_peek (\<lambda>t.
     if t \<noteq> T_keyword K_fn then fail_p ExpectedDeclaration
     else parseFuncDecl opts g m True False))"

definition arena_decl :: "options \<Rightarrow> grammar \<Rightarrow> func pm" where
  "arena_decl opts g =
     bind_p fn_modifiers (\<lambda>m.
     bind_p p_peek (\<lambda>t.
     if m_extern m then fail_p ExpectedDeclaration
     else if t \<noteq> T_keyword K_fn then fail_p ExpectedDeclaration
     else
       (bind_p (parseFuncDecl opts g m False False) (\<lambda>f.
        ret_p (set_arena f)))))"

definition parseAtDecl :: "options \<Rightarrow> grammars \<Rightarrow> decl_state \<Rightarrow> (node \<times> decl_state) pm" where
  "parseAtDecl opts G ds =
     bind_p (p_expect (T_punct P_at)) (\<lambda>_.
     bind_p p_peek (\<lambda>t.
     if t = T_keyword K_overload then parseOverloadDeclAfterAt opts G ds
     else
       (bind_p (p_take T_identifier) (\<lambda>name.
        if name = ''test'' then no_names ds (parseTestDeclAfterAt opts (G (ds_scope ds)))
        else if name = ''import'' then parseImportDeclAfterAt opts ds
        else if name = ''sublanguage'' then register_kind ds
        else if name = ''check_hook'' then
          (bind_p (p_take T_identifier) (\<lambda>hook_name.
           ret_p (Check_hook_decl hook_name, ds)))
        else if name = ''no_mangle'' then one_func ds (no_mangle_decl opts (G (ds_scope ds)))
        else if name = ''arena'' then one_func ds (arena_decl opts (G (ds_scope ds)))
        else if name = ''derive'' then no_names ds (parseDeriveDeclAfterAt (G (ds_scope ds)))
        else fail_p SyntaxError))))"

text \<open>A declaration that takes none of the given modifiers.\<close>

definition refusing :: "bool \<Rightarrow> parser_error \<Rightarrow> 'a pm \<Rightarrow> 'a pm" where
  "refusing b e m = (if b then fail_p e else m)"

definition parseDecl :: "options \<Rightarrow> grammars \<Rightarrow> decl_state \<Rightarrow> (node \<times> decl_state) pm" where
  "parseDecl opts G ds =
     bind_p fn_modifiers (\<lambda>m.
     bind_p p_peek (\<lambda>t.
     bind_p p_lexeme (\<lambda>word.
     let g = G (ds_scope ds);
         plain = (\<lambda>e d. refusing (m_inline m) e (refusing (m_async m) ExpectedDeclaration d));
         bare = refusing (m_pub m \<or> m_extern m \<or> m_inline m \<or> m_async m) ExpectedDeclaration
     in
     if t = T_keyword K_struct then plain InlineStructNotAllowed (no_names ds (parseStructDecl g))
     else if t = T_keyword K_union then plain ExpectedDeclaration (no_names ds (parseUnionDecl g))
     else if t = T_keyword K_enum then plain ExpectedDeclaration (no_names ds (parseEnumDecl g))
     else if t = T_keyword K_trait then plain ExpectedDeclaration (no_names ds (parseTraitDecl G (ds_scope ds)))
     else if t = T_keyword K_type then
       refusing (m_inline m \<or> m_async m \<or> m_extern m) ExpectedDeclaration
         (no_names ds (bind_p (parseTypeAliasDecl g) (\<lambda>a. ret_p (Type_alias_decl a))))
     else if t = T_punct P_l_brace then
       refusing (\<not> m_extern m) ExternBlockRequiresExtern
         (plain ExpectedDeclaration (no_names ds (parseExternBlock opts g (m_abi m))))
     else if t = T_keyword K_impl then plain InlineImplNotAllowed (parseImplDecl opts G ds)
     else if t = T_keyword K_fn then one_func ds (parseFuncDecl opts g m False False)
     else if t = T_keyword K_const then plain ExpectedDeclaration (no_names ds (parseConstStmt g))
     else if t = T_keyword K_macro then plain InlineMacroNotAllowed (no_names ds (parseMacroDecl opts g))
     else if t = T_keyword K_using then bare (no_names ds parseUsingDecl)
     else if t = T_punct P_at then plain ExpectedDeclaration (parseAtDecl opts G ds)
     else if t = T_identifier \<and> word \<in> set (registered_sublanguages ds) then
       bare (no_names ds (parseRegisteredSublanguageDecl (ds_scope ds) word))
     else fail_p ExpectedDeclaration)))"

section \<open>Modules\<close>

text \<open>\<open>Inl\<close> of a declaration behind the prefix of its module.\<close>

definition mangled :: "string \<Rightarrow> string \<Rightarrow> string" where
  "mangled prefix name = prefix @ ''__'' @ name"

type_synonym modules = "string option \<Rightarrow> node list \<times> decl_state \<Rightarrow> (node list \<times> decl_state) pm"

definition rename_func :: "string \<Rightarrow> func \<Rightarrow> func" where
  "rename_func prefix = (\<lambda>(s, body, span). (s\<lparr>fd_name := mangled prefix (fd_name s)\<rparr>, body, span))"

definition rename_alias :: "string \<Rightarrow> type_alias_decl \<Rightarrow> type_alias_decl" where
  "rename_alias prefix a = a\<lparr>tad_name := mangled prefix (tad_name a)\<rparr>"

definition module_item :: "options \<Rightarrow> grammars \<Rightarrow> modules \<Rightarrow> string \<Rightarrow> node list \<times> decl_state \<Rightarrow>
    (node list \<times> decl_state) pm" where
  "module_item opts G sub prefix = (\<lambda>(decls, ds).
     bind_p p_peek (\<lambda>t.
     if t = T_keyword K_mod then sub (Some prefix) (decls, ds)
     else if t = T_keyword K_type then
       (bind_p (parseTypeAliasDecl (G (ds_scope ds))) (\<lambda>a.
        ret_p (decls @ [Type_alias_decl (rename_alias prefix a)], ds)))
     else
       (bind_p fn_modifiers (\<lambda>m.
        bind_p p_peek (\<lambda>u.
        if u \<noteq> T_keyword K_fn then fail_p ExpectedDeclaration
        else
          (bind_p (parseFuncDecl opts (G (ds_scope ds)) m False False) (\<lambda>f.
           ret_p (decls @ [func_node (rename_func prefix f)], remember ds [rename_func prefix f]))))))))"

definition module_step :: "options \<Rightarrow> grammars \<Rightarrow> modules \<Rightarrow> string \<Rightarrow> node list \<times> decl_state \<Rightarrow>
    ((node list \<times> decl_state) + (node list \<times> decl_state)) pm" where
  "module_step opts G sub prefix acc =
     bind_p p_peek (\<lambda>t.
     if t = T_punct P_r_brace \<or> t = T_eof then ret_p (Inr acc)
     else
       (bind_p (module_item opts G sub prefix acc) (\<lambda>acc'.
        bind_p (p_match (T_punct P_semicolon)) (\<lambda>_.
        ret_p (Inl acc')))))"

definition parseModuleDeclInto :: "options \<Rightarrow> grammars \<Rightarrow> modules \<Rightarrow> modules" where
  "parseModuleDeclInto opts G sub parent_prefix = (\<lambda>(decls, ds).
     bind_p (p_expect (T_keyword K_mod)) (\<lambda>_.
     bind_p (p_take T_identifier) (\<lambda>name.
     bind_p (p_expect (T_punct P_l_brace)) (\<lambda>_.
     bind_p (while_p (module_step opts G sub
         (case parent_prefix of None \<Rightarrow> name | Some prefix \<Rightarrow> mangled prefix name))
       (decls, case parent_prefix of
          None \<Rightarrow> ds\<lparr>ds_scope := add_module name (ds_scope ds)\<rparr>
        | Some prefix \<Rightarrow> ds)) (\<lambda>acc.
     bind_p (p_expect (T_punct P_r_brace)) (\<lambda>_.
     ret_p acc))))))"

fun modules_at :: "options \<Rightarrow> grammars \<Rightarrow> nat \<Rightarrow> modules" where
  "modules_at opts G 0 parent_prefix acc = out_p"
| "modules_at opts G (Suc n) parent_prefix acc = parseModuleDeclInto opts G (modules_at opts G n) parent_prefix acc"

text \<open>Modules nest at most as deep as there are tokens.\<close>

definition module_parser :: "options \<Rightarrow> grammars \<Rightarrow> modules" where
  "module_parser opts G parent_prefix acc st =
     modules_at opts G (Suc (weight (toks st))) parent_prefix acc st"

section \<open>Programs\<close>

text \<open>The names a declaration makes known to the ones after it.\<close>

fun record_decl :: "node \<Rightarrow> scope \<Rightarrow> scope" where
  "record_decl (Struct_decl d) sc = sc\<lparr>known_types := known_types sc @ [sd_name d]\<rparr>"
| "record_decl (Type_alias_decl d) sc = sc\<lparr>known_types := known_types sc @ [tad_name d]\<rparr>"
| "record_decl (Enum_decl d) sc =
     sc\<lparr>known_types := known_types sc @ [ed_name d], known_enums := known_enums sc @ [ed_name d]\<rparr>"
| "record_decl (Impl_decl trait_name target_ty methods) sc =
     (case target_ty of
        Ty_user_defined name gs \<Rightarrow> sc\<lparr>known_types := known_types sc @ [name]\<rparr>
      | _ \<Rightarrow> sc)"
| "record_decl _ sc = sc"

definition decls_of :: "node \<Rightarrow> node list" where
  "decls_of n = (case n of Program ds \<Rightarrow> ds | _ \<Rightarrow> [n])"

definition record_decls :: "node list \<Rightarrow> decl_state \<Rightarrow> decl_state" where
  "record_decls ns ds = ds\<lparr>ds_scope := fold record_decl ns (ds_scope ds)\<rparr>"

definition program_item :: "options \<Rightarrow> grammars \<Rightarrow> node list \<times> decl_state \<Rightarrow> (node list \<times> decl_state) pm" where
  "program_item opts G = (\<lambda>(decls, ds).
     bind_p (parseDecl opts G ds) (\<lambda>(n, ds').
     ret_p (decls @ decls_of n, record_decls (decls_of n) ds')))"

definition program_step :: "options \<Rightarrow> grammars \<Rightarrow> modules \<Rightarrow> node list \<times> decl_state \<Rightarrow>
    ((node list \<times> decl_state) + (node list \<times> decl_state)) pm" where
  "program_step opts G sub acc =
     bind_p p_peek (\<lambda>t.
     if t = T_eof then ret_p (Inr acc)
     else if t = T_keyword K_using then
       (bind_p parseUsingDecl (\<lambda>n.
        ret_p (Inl (fst acc @ [n], snd acc))))
     else
       (bind_p (if t = T_keyword K_mod then sub None acc else program_item opts G acc) (\<lambda>acc'.
        bind_p (p_match (T_punct P_semicolon)) (\<lambda>_.
        ret_p (Inl acc')))))"

definition parseProgram :: "options \<Rightarrow> grammars \<Rightarrow> modules \<Rightarrow> decl_state \<Rightarrow> (node \<times> decl_state) pm" where
  "parseProgram opts G sub ds =
     bind_p (while_p (program_step opts G sub) ([], ds)) (\<lambda>(decls, ds').
     ret_p (Program decls, ds'))"

text \<open>The parser of a file.\<close>

definition parse_file :: "options \<Rightarrow> decl_state \<Rightarrow> (node \<times> decl_state) pm" where
  "parse_file opts ds = parseProgram opts parser_of (module_parser opts parser_of) ds"

end
