(* ===== verification/Sla_Parse_Decl_Ends.thy ===== *)
theory Sla_Parse_Decl_Ends
  imports Sla_Parse_Decl
begin

text \<open>
  The parser of declarations returns: every declaration consumes a token, so the loop of \<open>parseProgram\<close> ends,
  and modules nest at most as deep as there are tokens.
\<close>

section \<open>Rules\<close>

lemma steady_flags: "steady_p k clear_bang" "steady_p k bang_used"
  by (simp_all add: moving clear_bang_def bang_used_def)

lemma case_sum_moves:
  "(\<And>e. x = Inl e \<Longrightarrow> steady_p k (f e)) \<Longrightarrow> (\<And>y. x = Inr y \<Longrightarrow> steady_p k (h y)) \<Longrightarrow> steady_p k (case x of Inl e \<Rightarrow> f e | Inr y \<Rightarrow> h y)"
  "(\<And>e. x = Inl e \<Longrightarrow> rounds k T (f' e)) \<Longrightarrow> (\<And>y. x = Inr y \<Longrightarrow> rounds k T (h' y)) \<Longrightarrow> rounds k T (case x of Inl e \<Rightarrow> f' e | Inr y \<Rightarrow> h' y)"
  by (auto split: sum.splits)

lemma rounds_later:
  assumes "steady_p k m" "\<And>x. rounds k None (f x)" shows "rounds k T (bind_p m f)"
  unfolding rounds_def
proof (rule movesI)
  fix st :: pstate assume st: "weight (toks st) < k"
  from movesD [OF assms(1) [unfolded steady_p_def] st] have m: "lands (\<lambda>_. False) (weight (toks st)) (m st)" by simp
  show "lands isl (weight (toks st)) (bind_p m f st)"
  proof (cases "m st")
    case (Gives x st')
    with m st have le: "weight (toks st') \<le> weight (toks st)" "weight (toks st') < k" by auto
    from lands_le [OF movesD [OF assms(2) [unfolded rounds_def] le(2)] le(1)] Gives show ?thesis
      by (simp add: bind_p_def)
  qed (use m in \<open>simp_all add: bind_p_def\<close>)
qed

lemma braces_eat:
  assumes "\<And>k. eats k None item" shows "eats k T (braced item)"
proof -
  have "eats k T item" for k T using eats_any [OF assms order.refl] .
  then have "eats (Suc k) T (braced item)" for k T
    unfolding braced_def until_brace_def by (intro ends) simp_all
  from eats_less [OF this] show ?thesis by (metis le_SucI order.refl)
qed

lemma skip_rounds: "rounds k T (skip_round p)"
proof (cases p)
  case (Pair s span)
  have round: "rounds k (Some t) (case skip_step (tag_token t) s of Inl e \<Rightarrow> fail_p (span_failure e)
      | Inr s' \<Rightarrow> bind_p p_advance (\<lambda>_. ret_p (Inl (s', span @ [(t, w)]))))" if "t \<noteq> T_eof" for t w
    using that by (intro case_sum_moves ends)
  show ?thesis
    unfolding skip_round_def Pair prod.case
    by (intro peek_first(2) look_first(2) split_intro(3) ret_fail round) simp
qed

lemma skip_block_eats: "eats (Suc k) T skip_block"
  unfolding skip_block_def by (intro ends skip_rounds) simp_all

lemma peek_block_steady: "steady_p k peek_block"
  unfolding peek_block_def by (intro ends case_sum_moves)

section \<open>Declarations eat\<close>

text \<open>A family of grammars in which every method eats, whatever the scope.\<close>

locale decl_contract =
  fixes G :: grammars
  assumes grammars: "grammar_contract (G sc) k"
begin

lemma decl_types_eat: "eats k T (g_type (G sc))"
  by (rule expr_contract.calls(4) [OF grammar_contract.axioms(1) [OF grammars]])

lemma blocks_eat: "eats k T (g_block (G sc))"
  by (rule expr_contract.calls(3) [OF grammar_contract.axioms(1) [OF grammars]])

lemma exprs_eat: "eats k T (g_expr (G sc) p)"
  by (rule expr_contract.calls(1) [OF grammar_contract.axioms(1) [OF grammars]])

lemma bodies_steady: "steady_p k (g_type (G sc))" "steady_p k (g_block (G sc))" "steady_p k (g_expr (G sc) p)"
  by (rule eats_steady [OF decl_types_eat order.refl] eats_steady [OF blocks_eat order.refl]
      eats_steady [OF exprs_eat order.refl])+

lemma abi_text_steady: "steady_p k parseOptionalExternAbi"
  unfolding parseOptionalExternAbi_def by (intro ends)

lemma capture_steady: "steady_p k (parseOrCaptureFunctionBody (G sc) b)" "steady_p k (body_or_skip (G sc) b)"
  unfolding parseOrCaptureFunctionBody_def body_or_skip_def
  by (intro ends peek_block_steady bodies_steady eats_leaf [OF skip_block_eats])+

lemma generics_steady: "steady_p k plain_generics" "steady_p k parseGenericParams"
proof -
  have item: "eats k None (bind_p (p_take T_identifier) (\<lambda>name. bind_p (p_match (T_punct P_colon)) (\<lambda>bound.
      if bound then bind_p (p_expect T_identifier) (\<lambda>_. ret_p name) else ret_p name)))" for k
    by (rule eats_bind_same, rule take_eats, simp, intro ends)
  show "steady_p k plain_generics" "steady_p k parseGenericParams"
    unfolding plain_generics_def parseGenericParams_def
    by (intro ends list_steady item take_eats; simp)+
qed

lemma decl_field_eats: "eats (Suc k) T (field_item (G sc))"
  unfolding field_item_def by (intro ends bodies_steady; simp)

lemma fields_steady: "steady_p k (named_fields (G sc))" "steady_p k (tuple_fields (G sc))"
  unfolding named_fields_def tuple_fields_def
  by (intro ends list_steady decl_types_eat eats_any [OF decl_field_eats le_SucI [OF order.refl]])+

lemma aggregate_eats: "eats (Suc k) T (parseAggregateDecl (G sc) u ds)"
  unfolding parseAggregateDecl_def by (intro ends generics_steady fields_steady; simp)

lemma alias_eats: "eats (Suc k) T (parseTypeAliasDecl (G sc))"
proof -
  have "eats (Suc k) T (alias_component (G sc))" for k T
    unfolding alias_component_def
    by (rule match_first(1), simp, simp only: if_True, intro ends fields_steady, simp only: if_False,
        rule eats_bind_same [OF decl_types_eat], rule ret_fail)
  then have "eats k T (alias_component (G sc))" for k T by (rule eats_less [OF _ le_SucI [OF order.refl]])
  then have "rounds k T (alias_step (G sc) cs)" for k T cs
    unfolding alias_step_def by (rule rounds_bind) (intro ends)
  note step = this
  show ?thesis
    unfolding parseTypeAliasDecl_def by (intro ends step; simp)
qed

lemma enum_eats: "eats (Suc k) T (parseEnumDecl (G sc))"
proof -
  have item: "eats k T (variant_item (G sc))" for k T
    unfolding variant_item_def variant_discriminant_def
    by (rule eats_bind_same, rule take_eats, simp) (intro ends fields_steady; simp)
  show ?thesis
    unfolding parseEnumDecl_def by (intro ends generics_steady list_steady item; simp)
qed

lemma head_eats: "eats k T param_head"
proof -
  have head: "eats (Suc k) T (bind_p (p_match (T_punct P_caret)) (\<lambda>is_move. bind_p (p_take T_identifier) (\<lambda>name.
      ret_p (False, is_move, name))))" for k T
    by (intro ends; simp)
  have "eats (Suc k) T param_head"
    unfolding param_head_def
    by (rule match_first(1), simp, simp only: if_True, intro ends, simp only: if_False, rule head)
  then show ?thesis by (rule eats_less) simp
qed

lemma params_eat: "eats k T (param_item (G sc))" "steady_p k (param_tail (G sc) h)"
proof -
  show tail: "steady_p k (param_tail (G sc) h)" for k h
    unfolding param_tail_def by (intro ends bodies_steady)
  show "eats k T (param_item (G sc))"
    unfolding param_item_def by (rule eats_bind_same [OF head_eats tail])
qed

lemma more_params_steady: "steady_p k (more_params (G sc) p)"
  unfolding more_params_def more_params_step_def
  by (intro ends eats_steady [OF params_eat(1) order.refl]; simp)

lemma param_lists_steady: "steady_p k (self_params (G sc) t)" "steady_p k (operator_params (G sc))"
  unfolding self_params_def operator_params_def
  by (intro ends more_params_steady params_eat(2) list_steady params_eat(1) eats_steady [OF head_eats order.refl]
      eats_steady [OF params_eat(1) order.refl])+

lemma return_steady: "steady_p k (return_type (G sc))" "steady_p k (func_return (G sc))" "steady_p k (borrow_origin t)"
proof -
  show "steady_p k (return_type (G sc))" "steady_p k (func_return (G sc))"
    unfolding return_type_def func_return_def by (intro ends steady_flags bodies_steady)+
  show "steady_p k (borrow_origin t)"
    by (cases t) (simp_all add: borrow_origin_def ret_fail, intro ends)
qed

lemma func_param_rounds: "rounds k T (func_param_step (G sc) b c abi gs ps)"
proof -
  have "steady_p k (func_param_type (G sc))" for k
    unfolding func_param_type_def by (intro ends steady_flags bodies_steady)
  then show ?thesis
    unfolding func_param_step_def Let_def
    by (intro ends head_eats; simp)
qed

lemma func_eats: "eats (Suc k) T (parseFuncDecl opts (G sc) m b c)"
  unfolding parseFuncDecl_def
  by (intro ends generics_steady func_param_rounds return_steady capture_steady; simp)

lemma method_eats: "eats (Suc k) T (parseMethodDecl opts (G sc) t tr)"
  "eats (Suc k) T (parseOverloadMethodDecl opts (G sc) t)"
  unfolding parseMethodDecl_def parseOverloadMethodDecl_def
  by (intro ends generics_steady param_lists_steady return_steady capture_steady; simp)+

lemma trait_eats: "eats (Suc k) T (parseTraitDecl G sc)"
proof -
  have item: "eats k T (trait_method_item (G s))" for k T s
    unfolding trait_method_item_def
    by (rule eats_bind_same [OF expect_eats]) (simp, intro ends generics_steady param_lists_steady return_steady)
  have "rounds k T (plus_step xs)" for k T xs
    unfolding plus_step_def by (rule rounds_bind [OF take_eats]) (simp, intro ends)
  note steps = this eats_steady [OF braces_eat [OF item] order.refl]
  show ?thesis
    unfolding parseTraitDecl_def by (intro ends steps; simp)
qed

lemma semicolon_eats: "eats k T m \<Longrightarrow> eats k T (with_semicolon m)"
  unfolding with_semicolon_def by (rule eats_bind_same) (assumption, intro ends)

lemma method_lists_steady:
  "steady_p k (braced (with_semicolon (impl_method opts (G sc) t tr)))"
  "steady_p k (braced (with_semicolon (parseOverloadMethodDecl opts (G sc) t)))"
  "eats k T (parseExternBlock opts (G sc) abi)"
proof -
  have async: "eats (Suc k) T (bind_p (p_match (T_keyword K_async)) (\<lambda>is_async.
      if False \<or> is_async then fail_p ExpectedDeclaration else parseMethodDecl opts (G sc) t tr))" for k T
    by (rule match_first(1), simp, simp only: if_True simp_thms, rule ret_fail, simp only: if_False simp_thms,
        rule method_eats)
  have "eats (Suc k) T (impl_method opts (G sc) t tr)" for k T
    unfolding impl_method_def
    by (rule match_first(1), simp, intro ends, simp, rule async)
  then have m: "eats k T (impl_method opts (G sc) t tr)" for k T by (rule eats_less [OF _ le_SucI [OF order.refl]])
  have "eats (Suc k) T (bind_p p_peek (\<lambda>u. if u \<noteq> T_keyword K_fn then fail_p ExpectedDeclaration
      else parseFuncDecl opts (G sc) x b c))" for k T x b c
    by (intro peek_first split_intro ret_fail eats_any [OF func_eats order.refl])
  note fn = this
  have "eats (Suc k) T (extern_item opts (G sc) abi)" for k T
    unfolding extern_item_def
    by (rule match_first(1), simp, rule eats_leaf [OF fn], rule fn)
  then have e: "eats k T (extern_item opts (G sc) abi)" for k T by (rule eats_less [OF _ le_SucI [OF order.refl]])
  note o = eats_less [OF method_eats(2) le_SucI [OF order.refl]]
  show "steady_p k (braced (with_semicolon (impl_method opts (G sc) t tr)))"
    "steady_p k (braced (with_semicolon (parseOverloadMethodDecl opts (G sc) t)))"
    by (rule eats_steady [OF braces_eat [OF semicolon_eats [OF m]] order.refl]
        eats_steady [OF braces_eat [OF semicolon_eats [OF o]] order.refl])+
  show "eats k T (parseExternBlock opts (G sc) abi)"
    unfolding parseExternBlock_def
    by (rule eats_bind_same [OF braces_eat [OF semicolon_eats [OF e]]]) (rule ret_fail)
qed

lemma impl_eats: "eats (Suc k) T (parseImplDecl opts G ds)" "eats (Suc k) T (parseOverloadDeclAfterAt opts G ds)"
proof -
  have "steady_p k (impl_head (G sc))" for k sc
    unfolding impl_head_def by (intro ends bodies_steady) (auto split: ty.splits simp: ret_fail intro!: ends bodies_steady)
  then show "eats (Suc k) T (parseImplDecl opts G ds)" "eats (Suc k) T (parseOverloadDeclAfterAt opts G ds)"
    unfolding parseImplDecl_def parseOverloadDeclAfterAt_def
    by (intro ends method_lists_steady bodies_steady; simp)+
qed

lemma macro_eats: "eats (Suc k) T (parseMacroDecl opts (G sc))"
proof -
  have "steady_p k (optional_type (G sc))" for k
    unfolding optional_type_def by (intro ends bodies_steady)
  then have item: "eats k T (macro_param (G sc))" for k T
    unfolding macro_param_def by (intro eats_bind_same [OF take_eats] ends) simp_all
  show ?thesis
    unfolding parseMacroDecl_def by (intro ends list_steady item capture_steady; simp)
qed

lemma at_forms_steady:
  "steady_p k (parseTestDeclAfterAt opts (G sc))" "steady_p k (parseImportDeclAfterAt opts ds)"
  "steady_p k (register_kind ds)" "steady_p k (parseDeriveDeclAfterAt (G sc))"
  "steady_p k (no_mangle_decl opts (G sc))" "steady_p k (arena_decl opts (G sc))" "steady_p k fn_modifiers"
proof -
  have flags: "rounds k T (test_flag_step p)" for k T p
    unfolding test_flag_step_def by (cases p) (simp, intro ends; auto)
  have path: "steady_p k parseImportPathTokenSequence" for k
    unfolding parseImportPathTokenSequence_def path_step_def by (intro ends; auto simp: is_import_path_token_def)
  show mods: "steady_p k fn_modifiers" for k
    unfolding fn_modifiers_def by (intro ends abi_text_steady)
  show "steady_p k (parseTestDeclAfterAt opts (G sc))"
    unfolding parseTestDeclAfterAt_def by (intro ends flags capture_steady)
  show "steady_p k (parseImportDeclAfterAt opts ds)"
    unfolding parseImportDeclAfterAt_def import_path_def by (intro ends path)
  show "steady_p k (register_kind ds)"
    unfolding register_kind_def by (intro ends)
  show "steady_p k (parseDeriveDeclAfterAt (G sc))"
    unfolding parseDeriveDeclAfterAt_def
    by (intro ends list_steady eats_leaf [OF aggregate_eats]; simp)
  show "steady_p k (no_mangle_decl opts (G sc))" "steady_p k (arena_decl opts (G sc))"
    unfolding no_mangle_decl_def arena_decl_def by (intro ends mods eats_leaf [OF func_eats])+
qed

lemma wrapped_eat:
  "eats k T m' \<Longrightarrow> eats k T (refusing b e m')" "eats k T m \<Longrightarrow> eats k T (no_names ds m)" "eats k T f \<Longrightarrow> eats k T (one_func ds f)"
  unfolding refusing_def no_names_def one_func_def
  by (simp add: ret_fail, (erule eats_bind_same, rule ret_fail)+)

lemma at_eats: "eats (Suc k) T (parseAtDecl opts G ds)"
proof -
  have w: "steady_p k m \<Longrightarrow> steady_p k (no_names ds m)" "steady_p k f \<Longrightarrow> steady_p k (one_func ds f)" for k m f
    unfolding no_names_def one_func_def by (intro ends; assumption)+
  show ?thesis
    unfolding parseAtDecl_def
    by (intro ends eats_leaf [OF impl_eats(2)] w at_forms_steady; simp)
qed

lemma declaration_eats: "eats k T (parseDecl opts G ds)"
proof -
  note same = eats_less [OF _ le_SucI [OF order.refl]]
  have const: "eats (Suc k) T (parseConstStmt (G sc))" for k T sc
    by (rule expr_contract.simple_statements_eat(2) [OF grammar_contract.axioms(1) [OF grammars]])
  have uses: "eats (Suc k) T parseUsingDecl" for k T
    by (rule expr_contract.using_eats [OF grammar_contract.axioms(1) [OF grammars]])
  have aliased: "eats (Suc k) T (bind_p (parseTypeAliasDecl (G sc)) (\<lambda>a. ret_p (Type_alias_decl a)))" for k T sc
    by (rule eats_bind_same [OF alias_eats]) (rule ret_fail)
  have agg: "eats (Suc k) T (parseStructDecl (G sc))" "eats (Suc k) T (parseUnionDecl (G sc))" for k T sc
    unfolding parseStructDecl_def parseUnionDecl_def
    by (intro ends eats_leaf [OF aggregate_eats]; simp)+
  have sub: "eats k T (parseRegisteredSublanguageDecl sc w)" for k T sc w
    unfolding parseRegisteredSublanguageDecl_def
    by (simp add: ret_fail eats_any [OF shader_parser.decl_eats le_SucI [OF order.refl]])
  show ?thesis
    unfolding parseDecl_def Let_def
    by (rule eats_bind_later, rule at_forms_steady)
      (intro peek_first look_first split_intro wrapped_eat ret_fail same [OF at_eats] same [OF enum_eats]
        same [OF trait_eats] same [OF func_eats] same [OF macro_eats] same [OF impl_eats(1)] same [OF const]
        same [OF uses] same [OF aliased] same [OF agg(1)] same [OF agg(2)] method_lists_steady sub)
qed

section \<open>Modules and programs\<close>

lemma module_item_eats:
  assumes "\<And>pre acc. eats k None (sub pre acc)" shows "eats k T (module_item opts G sub prefix acc)"
proof -
  note same = eats_less [OF _ le_SucI [OF order.refl]]
  have sub: "eats k T (sub pre acc)" for T pre acc by (rule eats_any [OF assms order.refl])
  have aliased: "eats k T (bind_p (parseTypeAliasDecl (G sc)) h)" if "\<And>x. steady_p k (h x)" for T sc h
    by (rule eats_bind_same [OF same [OF alias_eats] that])
  have func: "eats k T (bind_p fn_modifiers (\<lambda>m. bind_p p_peek (\<lambda>u. if u \<noteq> T_keyword K_fn then fail_p ExpectedDeclaration
      else bind_p (parseFuncDecl opts (G sc) m False False) (h m))))" if "\<And>m x. steady_p k (h m x)" for T sc h
    by (rule eats_bind_later, rule at_forms_steady)
      (intro peek_first split_intro ret_fail eats_bind_same [OF same [OF func_eats] that])
  show ?thesis
    unfolding module_item_def
    by (cases acc) (simp only: prod.case, intro peek_first split_intro sub aliased func ret_fail)
qed

lemma module_eats:
  assumes "\<And>pre acc. eats k None (sub pre acc)" shows "eats (Suc k) T (parseModuleDeclInto opts G sub pre acc)"
proof -
  have "rounds k T (module_step opts G sub prefix acc)" for T prefix acc
    unfolding module_step_def
    by (intro peek_first split_intro ret_fail rounds_bind module_item_eats assms) (intro ends)
  note rounds = this
  show ?thesis
    unfolding parseModuleDeclInto_def by (cases acc) (simp only: prod.case, intro ends rounds; simp)
qed

lemma modules_eat: "eats n None (modules_at opts G n pre acc)"
proof (induction n arbitrary: pre acc)
  case 0
  show ?case by (simp add: eats_def moves_def)
next
  case (Suc n)
  have "modules_at opts G (Suc n) pre acc = parseModuleDeclInto opts G (modules_at opts G n) pre acc"
    by (simp add: fun_eq_iff)
  then show ?case by (simp only:) (rule module_eats [OF Suc])
qed

lemma module_parser_eats: "eats k T (module_parser opts G pre acc)"
proof (rule lands_moves)
  fix st :: pstate
  show "lands (\<lambda>_. True) (weight (toks st)) (module_parser opts G pre acc st)"
    unfolding module_parser_def
    by (rule movesD [OF modules_eat [unfolded eats_def]]) simp_all
qed

lemma program_rounds: "rounds k T (program_step opts G (module_parser opts G) acc)"
proof -
  have item: "eats k T (program_item opts G acc)" for k T
    unfolding program_item_def
    by (cases acc) (simp only: prod.case, rule eats_bind_same [OF declaration_eats], intro ends)
  have uses: "eats (Suc k) T parseUsingDecl" for k T
    by (rule expr_contract.using_eats [OF grammar_contract.axioms(1) [OF grammars]])
  show ?thesis
    unfolding program_step_def
    by (intro peek_first split_intro ret_fail rounds_bind item module_parser_eats
        eats_less [OF uses le_SucI [OF order.refl]]) (intro ends)
qed

end

interpretation decls: decl_contract parser_of
  by unfold_locales

section \<open>The parser of files\<close>

text \<open>A loop ends where its last round did.\<close>

lemma while_last:
  assumes "\<And>s st x st'. body s st = Gives (Inr x) st' \<Longrightarrow> Q x st'" "while_p body s st = Gives x st'"
  shows "Q x st'"
proof -
  have "loop_p n body s st = Gives x st' \<Longrightarrow> Q x st'" for n s st
  proof (induction n arbitrary: s st)
    case (Suc n)
    then show ?case by (auto simp: bind_p_def ret_p_def split: outcome.splits sum.splits dest: assms(1))
  qed (simp add: out_p_def)
  with assms(2) show ?thesis by (simp only: while_p_def)
qed

text \<open>C14: the parser of files returns on any tokens: it fails, or gives a program and the names it recorded when no
  token is left.  Every declaration consumes a token, modules nest no deeper than there are tokens, and no loop runs out
  of rounds.\<close>

theorem file_parser_returns:
  "case parse_file opts ds st of
     Out_of_fuel \<Rightarrow> False
   | Fails e st' \<Rightarrow> weight (toks st') \<le> weight (toks st)
   | Gives r st' \<Rightarrow> tag_at 0 (toks st') = T_eof"
proof (cases "parse_file opts ds st")
  case (Gives r st')
  then obtain acc where "while_p (program_step opts parser_of (module_parser opts parser_of)) ([], ds) st = Gives acc st'"
    by (auto simp: parse_file_def parseProgram_def bind_p_def ret_p_def split: outcome.splits)
  then have "tag_at 0 (toks st') = T_eof"
    by (rule while_last [rotated])
      (auto simp: program_step_def bind_p_def p_peek_def ret_p_def split: outcome.splits if_splits)
  with Gives show ?thesis by simp
next
  case (Fails e st')
  have "steady_p (Suc (weight (toks st))) (parse_file opts ds)"
    unfolding parse_file_def parseProgram_def by (intro ends decls.program_rounds)
  from movesD [OF this [unfolded steady_p_def], of st] Fails show ?thesis by simp
next
  case Out_of_fuel
  have "steady_p (Suc (weight (toks st))) (parse_file opts ds)"
    unfolding parse_file_def parseProgram_def by (intro ends decls.program_rounds)
  from movesD [OF this [unfolded steady_p_def], of st] Out_of_fuel show ?thesis by simp
qed

end
