(* ===== verification/Sla_Parse_Span.thy ===== *)
theory Sla_Parse_Span
  imports Sla_Parse_Decl_Ends
begin

text \<open>
  Parsing a body and looking for its end agree.  \<open>peekBlockSpan\<close> counts braces and templates and knows nothing
  of the grammar; every method of the grammar leaves the count where it found it, so the end of the span is the
  end of the block.
\<close>

section \<open>The rest behind a span\<close>

fun past :: "span_state \<Rightarrow> ltoken list \<Rightarrow> ltoken list option" where
  "past s [] = None"
| "past s (t # ts) =
     (case peek_step 0 (tag_token (fst t)) s of
        Fail e \<Rightarrow> None
      | Finish e \<Rightarrow> Some ts
      | Continue s' \<Rightarrow> past s' ts)"

lemma past_peek: "peek_tokens s ts = Inr span \<Longrightarrow> \<exists>rest. ts = span @ rest \<and> past s ts = Some rest"
proof (induction ts arbitrary: s span)
  case Nil
  then show ?case by (simp split: span_step.splits)
next
  case (Cons t ts)
  show ?case
  proof (cases "peek_step 0 (tag_token (fst t)) s")
    case (Continue s')
    with Cons.prems obtain span' where "peek_tokens s' ts = Inr span'" "span = t # span'"
      by (cases "peek_tokens s' ts") auto
    with Cons.IH [of s' span'] Continue show ?thesis by auto
  qed (use Cons.prems in auto)
qed

text \<open>States that differ in \<open>s_end\<close> and behind the top of the stack have the same rest.\<close>

definition like :: "span_state \<Rightarrow> span_state \<Rightarrow> bool" where
  "like s s' \<longleftrightarrow> s_in_template s = s_in_template s' \<and> s_interp_depth s = s_interp_depth s' \<and>
     s_tmpl_sp s = s_tmpl_sp s' \<and> s_depth s = s_depth s' \<and> s_tmpl_sp s \<le> length (s_tmpl_stack s) \<and>
     length (s_tmpl_stack s) = length (s_tmpl_stack s') \<and> (\<forall>i < s_tmpl_sp s. s_tmpl_stack s ! i = s_tmpl_stack s' ! i)"

fun like_step :: "span_step \<Rightarrow> span_step \<Rightarrow> bool" where
  "like_step (Continue s) (Continue s') = like s s'"
| "like_step (Finish e) (Finish e') = True"
| "like_step (Fail e) (Fail e') = True"
| "like_step _ _ = False"

lemma peek_step_like: "like s s' \<Longrightarrow> like_step (peek_step b t s) (peek_step b t s')"
  unfolding like_def
  by (auto simp: peek_step_def push_template_def pop_template_def open_interp_def peek_close_brace_def
      bump_depth_def Let_def like_def nth_list_update less_Suc_eq)

lemma past_like: "like s s' \<Longrightarrow> past s ts = past s' ts"
proof (induction ts arbitrary: s s')
  case (Cons t ts)
  from peek_step_like [OF Cons.prems, of 0 "tag_token (fst t)"] Cons.IH show ?case
    by (cases "peek_step 0 (tag_token (fst t)) s"; cases "peek_step 0 (tag_token (fst t)) s'") auto
qed simp

text \<open>Between the statements of a block.\<close>

definition calm :: "span_state \<Rightarrow> bool" where
  "calm s \<longleftrightarrow> \<not> s_in_template s \<and> 0 < s_depth s \<and> s_tmpl_sp s \<le> length (s_tmpl_stack s)"

definition plain :: "tag \<Rightarrow> bool" where
  "plain t \<longleftrightarrow> t \<notin> {T_eof, T_template_start, T_template_interp, T_punct P_l_brace, T_punct P_r_brace}"

lemma past_plain:
  assumes "calm s" "plain (tag_at 0 ts)"
  shows "past s ts = past s (tl ts)"
  using assms by (cases ts) (auto simp: plain_def tag_at_def calm_def peek_step_def tag_token_def)

definition opened :: "span_state \<Rightarrow> span_state" where
  "opened s = (if s_interp_depth s > 0 then s\<lparr>s_interp_depth := s_interp_depth s + 1\<rparr> else s)
     \<lparr>s_depth := s_depth s + 1, s_end := 0\<rparr>"

lemma opened_calm: "calm s \<Longrightarrow> calm (opened s)"
  by (simp add: calm_def opened_def)

lemma past_open:
  assumes "calm s" "past s ((T_punct P_l_brace, w) # ts) = Some r"
  shows "past (opened s) ts = Some r" "s_interp_depth s \<noteq> - 1"
  using assms
  by (auto simp: calm_def peek_step_def tag_token_def bump_depth_def opened_def word_gt_0 split: if_splits)

lemma past_close:
  assumes "calm s" "s_interp_depth s \<noteq> - 1"
  shows "past (opened s) ((T_punct P_r_brace, w) # ts) = past s ts"
proof -
  define u where "u = s\<lparr>s_end := 0\<rparr>"
  have "s_interp_depth s + 1 \<noteq> 0" using assms(2) by (metis add_eq_0_iff2)
  then have "peek_close_brace 0 (tag_token (T_punct P_r_brace)) (opened s) = Continue u"
    using assms(1) by (simp add: peek_close_brace_def opened_def u_def calm_def tag_token_def word_gt_0)
  then have "past (opened s) ((T_punct P_r_brace, w) # ts) = past u ts"
    using assms(1) by (simp add: peek_step_def calm_def tag_token_def opened_def split: if_splits)
  also have "\<dots> = past s ts"
    by (rule past_like) (use assms(1) in \<open>simp add: like_def u_def calm_def\<close>)
  finally show ?thesis .
qed

section \<open>Methods that keep the count\<close>

text \<open>\<open>C\<close> says what is known of the tokens the method is called at.\<close>

definition keeps_count :: "(ltoken list \<Rightarrow> bool) \<Rightarrow> 'a pm \<Rightarrow> bool" where
  "keeps_count C m \<longleftrightarrow> (\<forall>st x st' s r. C (toks st) \<longrightarrow> m st = Gives x st' \<longrightarrow> calm s \<longrightarrow> past s (toks st) = Some r \<longrightarrow>
     past s (toks st') = Some r)"

definition closes :: "(ltoken list \<Rightarrow> bool) \<Rightarrow> 'a pm \<Rightarrow> bool" where
  "closes C m \<longleftrightarrow> (\<forall>st x st' s r. C (toks st) \<longrightarrow> m st = Gives x st' \<longrightarrow> calm s \<longrightarrow> s_interp_depth s \<noteq> - 1 \<longrightarrow>
     past (opened s) (toks st) = Some r \<longrightarrow> past s (toks st') = Some r)"

abbreviation anywhere :: "ltoken list \<Rightarrow> bool" where
  "anywhere \<equiv> \<lambda>_. True"

lemma keepsD: "keeps_count C m \<Longrightarrow> C (toks st) \<Longrightarrow> m st = Gives x st' \<Longrightarrow> calm s \<Longrightarrow> past s (toks st) = Some r \<Longrightarrow>
    past s (toks st') = Some r"
  unfolding keeps_count_def by blast

lemma closesD: "closes C m \<Longrightarrow> C (toks st) \<Longrightarrow> m st = Gives x st' \<Longrightarrow> calm s \<Longrightarrow> s_interp_depth s \<noteq> - 1 \<Longrightarrow>
    past (opened s) (toks st) = Some r \<Longrightarrow> past s (toks st') = Some r"
  unfolding closes_def by blast

lemma keepsI: "(\<And>st x st' s r. C (toks st) \<Longrightarrow> m st = Gives x st' \<Longrightarrow> calm s \<Longrightarrow> past s (toks st) = Some r \<Longrightarrow>
    past s (toks st') = Some r) \<Longrightarrow> keeps_count C m"
  unfolding keeps_count_def by blast

lemma closesI: "(\<And>st x st' s r. C (toks st) \<Longrightarrow> m st = Gives x st' \<Longrightarrow> calm s \<Longrightarrow> s_interp_depth s \<noteq> - 1 \<Longrightarrow>
    past (opened s) (toks st) = Some r \<Longrightarrow> past s (toks st') = Some r) \<Longrightarrow> closes C m"
  unfolding closes_def by blast

lemma keeps_at: "keeps_count anywhere m \<Longrightarrow> keeps_count C m"
  unfolding keeps_count_def by blast

lemma bindE:
  assumes "bind_p m f st = Gives y st''"
  obtains x st' where "m st = Gives x st'" "f x st' = Gives y st''"
  using assms by (auto simp: bind_p_def split: outcome.splits)

lemma keeps_bind:
  assumes "keeps_count C m" "\<And>x. keeps_count anywhere (f x)" shows "keeps_count C (bind_p m f)"
proof (rule keepsI)
  fix st y st'' s r
  assume h: "C (toks st)" "bind_p m f st = Gives y st''" "calm s" "past s (toks st) = Some r"
  from h(2) obtain x st' where m: "m st = Gives x st'" "f x st' = Gives y st''" by (rule bindE)
  from keepsD [OF assms(1) h(1) m(1) h(3,4)] have "past s (toks st') = Some r" .
  from keepsD [OF assms(2) TrueI m(2) h(3) this] show "past s (toks st'') = Some r" .
qed

lemma closes_bind:
  assumes "keeps_count C m" "\<And>x. closes anywhere (f x)" shows "closes C (bind_p m f)"
proof (rule closesI)
  fix st y st'' s r
  assume h: "C (toks st)" "bind_p m f st = Gives y st''" "calm s" "s_interp_depth s \<noteq> - 1" "past (opened s) (toks st) = Some r"
  from h(2) obtain x st' where m: "m st = Gives x st'" "f x st' = Gives y st''" by (rule bindE)
  from keepsD [OF assms(1) h(1) m(1) opened_calm [OF h(3)] h(5)] have "past (opened s) (toks st') = Some r" .
  from closesD [OF assms(2) TrueI m(2) h(3,4) this] show "past s (toks st'') = Some r" .
qed

text \<open>Methods that look.\<close>

lemma keeps_kept:
  assumes "\<And>st. \<exists>x st'. m st = Gives x st' \<and> toks st' = toks st" "\<And>x. keeps_count C (f x)"
  shows "keeps_count C (bind_p m f)"
proof (rule keepsI)
  fix st y st'' s r
  assume h: "C (toks st)" "bind_p m f st = Gives y st''" "calm s" "past s (toks st) = Some r"
  obtain x st' where m: "m st = Gives x st'" "toks st' = toks st" using assms(1) by blast
  with h(2) have "f x st' = Gives y st''" by (simp add: bind_p_def)
  from keepsD [OF assms(2) _ this h(3)] h(1,4) m(2) show "past s (toks st'') = Some r" by simp
qed

lemma keeps_look:
  "(\<And>t. keeps_count (\<lambda>ts. C ts \<and> tag_at 0 ts = t) (f1 t)) \<Longrightarrow> keeps_count C (bind_p p_peek f1)"
  "(\<And>x. keeps_count (\<lambda>ts. C ts \<and> h ts = x) (f2 x)) \<Longrightarrow> keeps_count C (bind_p (p_look h) f2)"
  "(\<And>x. keeps_count C (f3 x)) \<Longrightarrow> keeps_count C (bind_p p_lexeme f3)"
  "(\<And>x. keeps_count C (f4 x)) \<Longrightarrow> keeps_count C (bind_p (fresh_synth q) f4)"
  "(\<And>x. keeps_count C (f5 x)) \<Longrightarrow> keeps_count C (bind_p note_bang f5)"
  "(\<And>x. keeps_count C (f6 x)) \<Longrightarrow> keeps_count C (bind_p (ret_p y) f6)"
proof -
  show "(\<And>t. keeps_count (\<lambda>ts. C ts \<and> tag_at 0 ts = t) (f1 t)) \<Longrightarrow> keeps_count C (bind_p p_peek f1)"
    "(\<And>x. keeps_count (\<lambda>ts. C ts \<and> h ts = x) (f2 x)) \<Longrightarrow> keeps_count C (bind_p (p_look h) f2)"
    by (auto simp: keeps_count_def bind_p_def p_peek_def p_look_def)
qed (rule keeps_kept, simp add: p_lexeme_def fresh_synth_def note_bang_def ret_p_def, assumption)+

lemma closes_look:
  "(\<And>t. closes (\<lambda>ts. C ts \<and> tag_at 0 ts = t) (f t)) \<Longrightarrow> closes C (bind_p p_peek f)"
  by (auto simp: closes_def bind_p_def p_peek_def)

lemma keeps_leaf: "keeps_count C (ret_p x)" "keeps_count C (fail_p e)" "keeps_count C (or_fail e v)" "keeps_count C note_bang"
  "keeps_count C (fresh_synth q)" "keeps_count C p_lexeme" "keeps_count C p_peek" "keeps_count C (p_look h)"
  by (auto simp: keeps_count_def ret_p_def fail_p_def or_fail_def note_bang_def fresh_synth_def p_lexeme_def p_peek_def
      p_look_def split: option.splits)

lemma closes_fail: "closes C (fail_p e)"
  by (simp add: closes_def fail_p_def)

lemma keeps_split:
  "(b \<Longrightarrow> keeps_count C m) \<Longrightarrow> (\<not> b \<Longrightarrow> keeps_count C n) \<Longrightarrow> keeps_count C (if b then m else n)"
  "(v = None \<Longrightarrow> keeps_count C a) \<Longrightarrow> (\<And>y. v = Some y \<Longrightarrow> keeps_count C (f y)) \<Longrightarrow> keeps_count C (case v of None \<Rightarrow> a | Some y \<Rightarrow> f y)"
  "(\<And>a b. keeps_count C (h a b)) \<Longrightarrow> keeps_count C (case p of (a, b) \<Rightarrow> h a b)"
  by (auto split: option.splits prod.splits)

lemma closes_split:
  "(b \<Longrightarrow> closes C m) \<Longrightarrow> (\<not> b \<Longrightarrow> closes C n) \<Longrightarrow> closes C (if b then m else n)"
  "(\<And>a b. closes C (h a b)) \<Longrightarrow> closes C (case p of (a, b) \<Rightarrow> h a b)"
  by (auto split: prod.splits)

text \<open>Methods that take a token.\<close>

lemma keeps_advance: "(\<And>ts. C ts \<Longrightarrow> plain (tag_at 0 ts)) \<Longrightarrow> keeps_count C p_advance"
  by (auto simp: keeps_count_def p_advance_def past_plain)

lemma keeps_take: "plain t \<Longrightarrow> keeps_count C (p_expect t)" "plain t \<Longrightarrow> keeps_count C (p_match t)" "plain t \<Longrightarrow> keeps_count C (p_take t)"
  by (auto simp: keeps_count_def p_expect_def p_match_def p_take_def bind_p_def p_peek_def p_advance_def fail_p_def
      ret_p_def p_lexeme_def past_plain split: if_splits)

lemma keeps_generic_close: "keeps_count C expectGenericClose"
proof (rule keepsI)
  fix st x st' s r
  assume h: "expectGenericClose st = Gives x st'" "calm s" "past s (toks st) = Some r"
  then obtain t w ts where ts: "toks st = (t, w) # ts" "t = T_punct P_greater_than \<or> t = T_punct P_greater_greater"
    by (auto simp: expectGenericClose_def split: list.splits if_splits)
  have "plain (tag_at 0 ((u, v) # ts))" if "u = T_punct P_greater_than \<or> u = T_punct P_greater_greater" for u v
    using that by (auto simp: plain_def tag_at_def)
  from past_plain [OF h(2) this] have "past s ((u, v) # ts) = past s ts"
    if "u = T_punct P_greater_than \<or> u = T_punct P_greater_greater" for u v using that by simp
  with h ts show "past s (toks st') = Some r"
    by (auto simp: expectGenericClose_def split: if_splits)
qed

lemma tag_atE:
  assumes "tag_at 0 ts = t" "t \<noteq> T_eof" obtains w us where "ts = (t, w) # us"
  using assms by (cases ts) (auto simp: tag_at_def)

text \<open>An opening brace and the method that takes its closing brace.\<close>

lemma keeps_open: "(\<And>x. closes anywhere (f x)) \<Longrightarrow> keeps_count C (bind_p (p_expect (T_punct P_l_brace)) f)"
proof (rule keepsI)
  fix st y st'' s r
  assume f: "\<And>x. closes anywhere (f x)"
    and h: "bind_p (p_expect (T_punct P_l_brace)) f st = Gives y st''" "calm s" "past s (toks st) = Some r"
  from h(1) have t: "tag_at 0 (toks st) = T_punct P_l_brace" "f () (st\<lparr>toks := tl (toks st)\<rparr>) = Gives y st''"
    by (auto simp: p_expect_def bind_p_def p_peek_def p_advance_def fail_p_def split: if_splits)
  obtain w us where "toks st = (T_punct P_l_brace, w) # us" using tag_atE [OF t(1)] by auto
  with closesD [OF f TrueI t(2) h(2)] past_open [OF h(2)] h(3) show "past s (toks st'') = Some r" by simp
qed

lemma keeps_match_open:
  assumes "closes anywhere (f True)" "keeps_count C (f False)" shows "keeps_count C (bind_p (p_match (T_punct P_l_brace)) f)"
proof (rule keepsI)
  fix st y st'' s r
  assume h: "C (toks st)" "bind_p (p_match (T_punct P_l_brace)) f st = Gives y st''" "calm s" "past s (toks st) = Some r"
  show "past s (toks st'') = Some r"
  proof (cases "tag_at 0 (toks st) = T_punct P_l_brace")
    case True
    with h(2) have t: "f True (st\<lparr>toks := tl (toks st)\<rparr>) = Gives y st''"
      by (auto simp: p_match_def bind_p_def p_peek_def p_advance_def ret_p_def)
    obtain w us where "toks st = (T_punct P_l_brace, w) # us" using tag_atE [OF True] by auto
    with closesD [OF assms(1) TrueI t h(3)] past_open [OF h(3)] h(4) show ?thesis by simp
  next
    case False
    with h(2) have "f False st = Gives y st''"
      by (auto simp: p_match_def bind_p_def p_peek_def ret_p_def)
    from keepsD [OF assms(2) h(1) this h(3,4)] show ?thesis .
  qed
qed

lemma closes_expect: "(\<And>x. keeps_count anywhere (f x)) \<Longrightarrow> closes C (bind_p (p_expect (T_punct P_r_brace)) f)"
proof (rule closesI)
  fix st y st'' s r
  assume f: "\<And>x. keeps_count anywhere (f x)"
    and h: "bind_p (p_expect (T_punct P_r_brace)) f st = Gives y st''" "calm s" "s_interp_depth s \<noteq> - 1"
      "past (opened s) (toks st) = Some r"
  from h(1) have t: "tag_at 0 (toks st) = T_punct P_r_brace" "f () (st\<lparr>toks := tl (toks st)\<rparr>) = Gives y st''"
    by (auto simp: p_expect_def bind_p_def p_peek_def p_advance_def fail_p_def split: if_splits)
  obtain w us where us: "toks st = (T_punct P_r_brace, w) # us" using tag_atE [OF t(1)] by auto
  with h(4) past_close [OF h(2,3)] have "past s us = Some r" by simp
  with keepsD [OF f TrueI t(2) h(2)] us show "past s (toks st'') = Some r" by simp
qed

text \<open>Loops.\<close>

lemma while_carries:
  assumes "\<And>u st y st'. body u st = Gives (Inl y) st' \<Longrightarrow> J (toks st) \<Longrightarrow> J (toks st')"
    and "\<And>u st y st'. body u st = Gives (Inr y) st' \<Longrightarrow> J (toks st) \<Longrightarrow> K (toks st')"
    and "while_p body u st = Gives y st'" "J (toks st)"
  shows "K (toks st')"
proof -
  have "loop_p n body u st = Gives y st' \<Longrightarrow> J (toks st) \<Longrightarrow> K (toks st')" for n u st
  proof (induction n arbitrary: u st)
    case (Suc n)
    then obtain v st1 where v: "body u st = Gives v st1" "(case v of Inl u' \<Rightarrow> loop_p n body u' | Inr x \<Rightarrow> ret_p x) st1 = Gives y st'"
      by (auto elim: bindE)
    show ?case
    proof (cases v)
      case (Inl u')
      with v Suc.IH assms(1) Suc.prems(2) show ?thesis by fastforce
    next
      case (Inr x)
      with v assms(2) Suc.prems(2) show ?thesis by (fastforce simp: ret_p_def)
    qed
  qed (simp add: out_p_def)
  with assms(3,4) show ?thesis by (simp only: while_p_def)
qed

lemma keeps_while:
  assumes "\<And>u. keeps_count anywhere (body u)" shows "keeps_count C (while_p body u)"
proof (rule keepsI)
  fix st y st' s r
  assume h: "while_p body u st = Gives y st'" "calm s" "past s (toks st) = Some r"
  show "past s (toks st') = Some r"
    by (rule while_carries [where body = body and J = "\<lambda>ts. past s ts = Some r" and K = "\<lambda>ts. past s ts = Some r", OF _ _ h(1,3)])
      (rule keepsD [OF assms TrueI _ h(2)]; assumption)+
qed

lemma keeps_lists:
  assumes "keeps_count anywhere item"
  shows "keeps_count C (some_list item)" "keeps_count C (comma_list cl item)" "keeps_count C (loose_list cl item)"
  unfolding some_list_def some_step_def comma_list_def comma_step_def loose_list_def loose_step_def
  by (intro keeps_while keeps_look keeps_split keeps_leaf keeps_bind keeps_at [OF assms] keeps_take; simp add: plain_def)+

end
