(* ===== verification/Sla_Parse_Lazy.thy ===== *)
theory Sla_Parse_Lazy
  imports Sla_Parse_Span Sla_Parse_Print
begin

text \<open>
  Every method of the grammar keeps the count of \<open>peekBlockSpan\<close>, so a body that is skipped ends where it ends
  when it is parsed, and the options that leave bodies out change nothing but the bodies.
\<close>

section \<open>Rules\<close>

lemmas keep_rules = keeps_split keeps_leaf closes_fail closes_split closes_look keeps_look
  keeps_open keeps_match_open closes_expect closes_bind keeps_bind keeps_while keeps_take keeps_generic_close
  keeps_advance

lemma keeps_advance_fail: "keeps_count C (bind_p p_advance (\<lambda>_. fail_p e))"
  by (simp add: keeps_count_def bind_p_def p_advance_def fail_p_def)

lemma keeps_if_same: "keeps_count C m \<Longrightarrow> keeps_count C (if b then m else m)"
  by simp

text \<open>Going back to where an alternative was tried.\<close>

lemma keeps_attempt:
  assumes "keeps_count anywhere m" "attempt m st = Gives (Some x) st'" "calm s" "past s (toks st) = Some r"
  shows "past s (toks st') = Some r"
proof -
  from assms(2) have "m st = Gives x st'" by (auto simp: attempt_def split: outcome.splits)
  from keepsD [OF assms(1) TrueI this assms(3,4)] show ?thesis .
qed

lemma keeps_retry:
  assumes m: "\<And>st x st' s r. m st = Gives (Some x) st' \<Longrightarrow> calm s \<Longrightarrow> past s (toks st) = Some r \<Longrightarrow> past s (toks st') = Some r"
    and h: "keeps_count C h"
  shows "keeps_count C (bind_p (p_look id) (\<lambda>saved. bind_p m (\<lambda>v.
    case v of Some n \<Rightarrow> ret_p n | None \<Rightarrow> bind_p (p_restore saved) (\<lambda>_. h))))"
proof (rule keepsI)
  fix st y st'' s r
  assume g: "C (toks st)" "bind_p (p_look id) (\<lambda>saved. bind_p m (\<lambda>v.
    case v of Some n \<Rightarrow> ret_p n | None \<Rightarrow> bind_p (p_restore saved) (\<lambda>_. h))) st = Gives y st''"
    "calm s" "past s (toks st) = Some r"
  then obtain v st' where v: "m st = Gives v st'"
    "(case v of Some n \<Rightarrow> ret_p n | None \<Rightarrow> bind_p (p_restore (toks st)) (\<lambda>_. h)) st' = Gives y st''"
    by (auto simp: bind_p_def p_look_def split: outcome.splits)
  show "past s (toks st'') = Some r"
  proof (cases v)
    case (Some n)
    with v m [OF _ g(3,4)] show ?thesis by (simp add: ret_p_def)
  next
    case None
    with v have "h (st'\<lparr>toks := toks st\<rparr>) = Gives y st''" by (simp add: bind_p_def p_restore_def)
    from keepsD [OF h _ this g(3)] g(1,4) show ?thesis by simp
  qed
qed

lemma keeps_retry_behind:
  assumes m: "\<And>st x st' s r. m st = Gives (Some x) st' \<Longrightarrow> calm s \<Longrightarrow> past s (toks st) = Some r \<Longrightarrow> past s (toks st') = Some r"
    and h: "keeps_count C h" and C: "\<And>ts. C ts \<Longrightarrow> plain (tag_at 0 ts)"
  shows "keeps_count C (bind_p (p_look id) (\<lambda>saved. bind_p p_advance (\<lambda>_. bind_p m (\<lambda>v.
    case v of Some n \<Rightarrow> ret_p (Inl n) | None \<Rightarrow> bind_p (p_restore saved) (\<lambda>_. h)))))"
proof (rule keepsI)
  fix st y st'' s r
  assume g: "C (toks st)" "bind_p (p_look id) (\<lambda>saved. bind_p p_advance (\<lambda>_. bind_p m (\<lambda>v.
    case v of Some n \<Rightarrow> ret_p (Inl n) | None \<Rightarrow> bind_p (p_restore saved) (\<lambda>_. h)))) st = Gives y st''"
    "calm s" "past s (toks st) = Some r"
  let ?st = "st\<lparr>toks := tl (toks st)\<rparr>"
  from g obtain v st' where v: "m ?st = Gives v st'"
    "(case v of Some n \<Rightarrow> ret_p (Inl n) | None \<Rightarrow> bind_p (p_restore (toks st)) (\<lambda>_. h)) st' = Gives y st''"
    by (auto simp: bind_p_def p_look_def p_advance_def split: outcome.splits)
  from past_plain [OF g(3) C [OF g(1)]] g(4) have tl: "past s (toks ?st) = Some r" by simp
  show "past s (toks st'') = Some r"
  proof (cases v)
    case (Some n)
    with v m [OF _ g(3) tl] show ?thesis by (simp add: ret_p_def)
  next
    case None
    with v have "h (st'\<lparr>toks := toks st\<rparr>) = Gives y st''" by (simp add: bind_p_def p_restore_def)
    from keepsD [OF h _ this g(3)] g(1,4) show ?thesis by simp
  qed
qed

section \<open>Templates\<close>

definition in_text :: "span_state \<Rightarrow> span_state" where
  "in_text s = push_template s"

lemma past_template_start:
  assumes "calm s" "past s ((T_template_start, w) # ts) = Some r"
  shows "past (in_text s) ts = Some r" "s_tmpl_sp s < length (s_tmpl_stack s)"
  using assms by (auto simp: peek_step_def tag_token_def in_text_def split: if_splits)

lemma past_in_text:
  assumes "calm s" "s_tmpl_sp s < length (s_tmpl_stack s)"
  shows "past (in_text s) ((T_template_string, w) # ts) = past (in_text s) ts"
    "past (in_text s) ((T_template_interp, w) # ts) = past (open_interp (in_text s)) ts"
    "past (in_text s) ((T_template_end, w) # ts) = past s ts"
    "past (open_interp (in_text s)) ((T_punct P_r_brace, w) # ts) = past (in_text s) ts"
    "calm (open_interp (in_text s))"
proof -
  have "like (pop_template (in_text s)) s"
    using assms by (auto simp: like_def pop_template_def in_text_def push_template_def calm_def)
  then have "past (pop_template (in_text s)) ts = past s ts" by (rule past_like)
  moreover have "past (in_text s) ((T_template_end, w) # ts) = past (pop_template (in_text s)) ts"
    by (simp add: peek_step_def tag_token_def in_text_def push_template_def)
  ultimately show "past (in_text s) ((T_template_end, w) # ts) = past s ts" by simp
  show "past (in_text s) ((T_template_string, w) # ts) = past (in_text s) ts"
    "past (in_text s) ((T_template_interp, w) # ts) = past (open_interp (in_text s)) ts"
    by (simp_all add: peek_step_def tag_token_def in_text_def push_template_def)
  show "past (open_interp (in_text s)) ((T_punct P_r_brace, w) # ts) = past (in_text s) ts"
    by (simp add: peek_step_def tag_token_def open_interp_def in_text_def push_template_def peek_close_brace_def)
  show "calm (open_interp (in_text s))"
    using assms by (simp add: calm_def open_interp_def in_text_def push_template_def)
qed

lemma keeps_template:
  assumes g: "keeps_count anywhere (g_expr g 0)"
  shows "keeps_count C (parseTemplateLiteral g)"
proof (rule keepsI)
  fix st y st'' s r
  assume h: "parseTemplateLiteral g st = Gives y st''" "calm s" "past s (toks st) = Some r"
  from h(1) obtain st' v where st': "tag_at 0 (toks st) = T_template_start"
    "while_p (template_step g) ([], []) (st\<lparr>toks := tl (toks st)\<rparr>) = Gives v st'" "toks st'' = toks st'"
    by (auto simp: parseTemplateLiteral_def bind_p_def p_expect_def p_peek_def p_advance_def fail_p_def ret_p_def
        split: outcome.splits if_splits prod.splits)
  obtain w us where us: "toks st = (T_template_start, w) # us" using tag_atE [OF st'(1)] by auto
  note start = past_template_start [OF h(2) h(3) [unfolded us]]
  note text_rules = past_in_text [OF h(2) start(2)]
  have step: "case v of Inl _ \<Rightarrow> past (in_text s) (toks b) = Some r | Inr _ \<Rightarrow> past s (toks b) = Some r"
    if "template_step g u a = Gives v b" "past (in_text s) (toks a) = Some r" for u a v b
  proof -
    obtain fmt args where u: "u = (fmt, args)" by (cases u)
    let ?a = "a\<lparr>toks := tl (toks a)\<rparr>"
    from that(1) consider
      "tag_at 0 (toks a) = T_template_string" "v = Inl (fmt @ appendTemplateChunk (snd (hd (toks a))), args)" "b = ?a"
    | arg c where "tag_at 0 (toks a) = T_template_interp" "g_expr g 0 ?a = Gives arg c"
        "tag_at 0 (toks c) = T_punct P_r_brace" "isl v" "b = c\<lparr>toks := tl (toks c)\<rparr>"
    | "tag_at 0 (toks a) = T_template_end" "\<not> isl v" "b = ?a"
      unfolding u template_step_def
      by (cases "toks a") (auto simp: bind_p_def p_peek_def p_lexeme_def p_advance_def p_expect_def fail_p_def ret_p_def tag_at_def
          split: if_splits outcome.splits)
    then show ?thesis
    proof cases
      case 1
      obtain w1 us1 where "toks a = (T_template_string, w1) # us1" using tag_atE [OF 1(1)] by auto
      with 1 that(2) text_rules(1) show ?thesis by simp
    next
      case 2
      obtain w1 us1 where a: "toks a = (T_template_interp, w1) # us1" using tag_atE [OF 2(1)] by auto
      obtain w2 us2 where c: "toks c = (T_punct P_r_brace, w2) # us2" using tag_atE [OF 2(3)] by auto
      from a that(2) text_rules(2) have "past (open_interp (in_text s)) (toks ?a) = Some r" by simp
      from keepsD [OF g TrueI 2(2) text_rules(5) this] c text_rules(4) 2 show ?thesis by (cases v) simp_all
    next
      case 3
      obtain w1 us1 where "toks a = (T_template_end, w1) # us1" using tag_atE [OF 3(1)] by auto
      with 3 that(2) text_rules(3) show ?thesis by (cases v) simp_all
    qed
  qed
  have "past s (toks st') = Some r"
  proof (rule while_carries [where body = "template_step g" and J = "\<lambda>ts. past (in_text s) ts = Some r", OF _ _ st'(2)])
    show "past (in_text s) (toks (st\<lparr>toks := tl (toks st)\<rparr>)) = Some r" using us start by simp
  qed (use step in force)+
  with st'(3) show "past s (toks st'') = Some r" by simp
qed

section \<open>The grammar keeps the count\<close>

locale keep_contract =
  fixes g :: grammar
  assumes exprs: "keeps_count anywhere (g_expr g p)"
    and ifs: "keeps_count anywhere (g_if g)"
    and blocks: "keeps_count anywhere (g_block g)"
    and types: "keeps_count anywhere (g_type g)"
    and stmts: "keeps_count anywhere (g_stmt g)"
begin

lemmas grammar_calls = exprs [THEN keeps_at] ifs [THEN keeps_at] blocks [THEN keeps_at] types [THEN keeps_at] stmts [THEN keeps_at]

lemma generic_args_keep: "keeps_count C (generic_args g)"
  unfolding generic_args_def by (intro keep_rules keeps_lists types)

lemma named_type_keeps: "keeps_count C (named_type sc g name)"
  unfolding named_type_def self_type_def
  by (intro keep_rules generic_args_keep) (auto simp: plain_def split: list.splits intro!: keep_rules)

lemma fn_type_keeps: "keeps_count C (parseFunctionType g abi)"
  unfolding parseFunctionType_def fn_param_step_def
  by (intro keep_rules grammar_calls; auto simp: plain_def)

lemma type_tails_keep: "keeps_count C (array_type g)" "keeps_count C (paren_type g)" "keeps_count C parseOptionalExternAbi"
  unfolding array_type_def paren_type_def parseOptionalExternAbi_def
  by (intro keep_rules keeps_lists types grammar_calls; simp add: plain_def)+

lemma type_atom_keeps: "keeps_count C (parseTypeAtom sc g)"
proof -
  have "keeps_count (\<lambda>ts. C ts \<and> tag_at 0 ts = t) (bind_p p_lexeme (\<lambda>name. bind_p p_advance (\<lambda>_.
       if t = T_identifier then named_type sc g name
       else if t = T_keyword K_dyn then
         bind_p (p_take T_identifier) (\<lambda>trait_name. ret_p (Ty_user_defined (''__dyn_'' @ trait_name) []))
       else if t = T_keyword K_extern then
         bind_p parseOptionalExternAbi (\<lambda>abi. bind_p (p_expect (T_keyword K_fn)) (\<lambda>_. parseFunctionType g abi))
       else if t = T_keyword K_fn then parseFunctionType g None
       else if t = T_punct P_ampersand then bind_p (g_type g) (\<lambda>inner. ret_p (Ty_borrow inner))
       else if t = T_punct P_asterisk then bind_p (g_type g) (\<lambda>inner. ret_p (Ty_pointer inner))
       else if t = T_punct P_l_bracket then array_type g
       else if t = T_punct P_l_paren then paren_type g
       else fail_p UnexpectedTypeToken)))" for t
  proof (cases "plain t")
    case True
    then show ?thesis
      by (intro keep_rules grammar_calls named_type_keeps fn_type_keeps type_tails_keep; auto simp: plain_def)
  next
    case False
    then show ?thesis by (auto simp: plain_def intro!: keeps_look(3) keeps_advance_fail)
  qed
  then show ?thesis unfolding parseTypeAtom_def by (rule keeps_look(1))
qed

lemma type_keeps: "keeps_count C (parseType sc g)"
  unfolding parseType_def by (intro keep_rules type_atom_keeps; simp add: plain_def)

lemma args_keep: "keeps_count C (paren_args g)"
  unfolding paren_args_def by (intro keep_rules keeps_lists exprs; simp add: plain_def)

lemma named_field_keeps: "keeps_count C (named_field mk g)"
  unfolding named_field_def by (intro keep_rules grammar_calls; simp add: plain_def)

lemma struct_literal_keeps: "keeps_count C (parseStructLiteral g ty)"
  unfolding parseStructLiteral_def struct_field_step_def
  by (intro keep_rules grammar_calls named_field_keeps; auto simp: plain_def)

lemma path_step_keeps: "keeps_count C (module_path_step parts)"
  unfolding module_path_step_def by (intro keep_rules; auto simp: plain_def)

lemma named_tails_keep:
  "keeps_count C (parseGenericStructLiteralTail g name)" "keeps_count C (parseGenericCallTail g name)"
  "keeps_count C (parseGenericFunctionRefTail g name)" "keeps_count C (parseEnumLiteralAfterName g name)"
  "keeps_count C (parseModuleCallAfterName g name)" "keeps_count C (parseAssociatedCallAfterName g name)"
  unfolding parseGenericStructLiteralTail_def parseGenericCallTail_def parseGenericFunctionRefTail_def
    parseEnumLiteralAfterName_def parseModuleCallAfterName_def parseAssociatedCallAfterName_def
  by (intro keep_rules generic_args_keep args_keep struct_literal_keeps keeps_lists named_field_keeps path_step_keeps;
      simp add: plain_def)+

lemma closure_keeps: "keeps_count C (parseClosureLiteral g)"
  unfolding parseClosureLiteral_def closure_param_def
  by (intro keep_rules grammar_calls keeps_lists; simp add: plain_def)

lemma patterns_keep: "keeps_count C pattern_bindings" "keeps_count C parseEnumPattern" "keeps_count C parseLetPattern"
proof -
  show names: "keeps_count C pattern_bindings" for C
    unfolding pattern_bindings_def by (intro keep_rules keeps_lists; simp add: plain_def)
  show "keeps_count C parseEnumPattern" "keeps_count C parseLetPattern"
    unfolding parseEnumPattern_def parseLetPattern_def by (intro keep_rules names; simp add: plain_def)+
qed

lemma if_keeps: "keeps_count C (parseIfExpr g)"
  unfolding parseIfExpr_def parseIfLetChain_def let_chain_step_def
  by (intro keep_rules grammar_calls patterns_keep; simp add: plain_def)

lemma cases_keep: "keeps_count C (match_case g)" "keeps_count C (switch_case g)"
  unfolding match_case_def switch_case_def by (intro keep_rules grammar_calls patterns_keep; simp add: plain_def)+

lemma branches_keep: "keeps_count C (parseMatchExpr g)" "keeps_count C (parseSwitchExpr g)"
  unfolding parseMatchExpr_def parseSwitchExpr_def
  by (intro keep_rules grammar_calls keeps_lists cases_keep; simp add: plain_def)+

lemma asm_keeps: "keeps_count C parseInlineAsmExpr"
  unfolding parseInlineAsmExpr_def asm_step_def by (intro keep_rules; simp add: plain_def)

lemma go_keeps: "keeps_count C (parseGoExpr g)"
  unfolding parseGoExpr_def by (intro keep_rules grammar_calls; auto simp: plain_def)

lemma name_keeps: "keeps_count C (name_expr sc g str)"
proof -
  have "keeps_count C (path_expr sc g str)" for C
    unfolding path_expr_def by (intro keep_rules named_tails_keep; simp add: plain_def)
  then show ?thesis
    unfolding name_expr_def self_type_def by (intro keep_rules struct_literal_keeps)
qed

lemma prefix_forms_keep:
  assumes "\<And>ts. C ts \<Longrightarrow> plain (tag_at 0 ts)"
  shows "keeps_count C (number_expr f)" "keeps_count C (identifier_expr sc g)" "keeps_count C (prefix_operator g p h)"
    "keeps_count C (paren_expr g)" "keeps_count C (array_expr g)"
  unfolding number_expr_def identifier_expr_def prefix_operator_def paren_expr_def array_expr_def element_step_def
  by (intro keep_rules grammar_calls name_keeps asm_keeps keeps_lists exprs assms; simp add: plain_def)+

lemma prefix_keeps: "keeps_count C (parsePrefixExpr sc g)"
  unfolding parsePrefixExpr_def
  by (intro keep_rules prefix_forms_keep go_keeps keeps_template exprs if_keeps branches_keep closure_keeps grammar_calls;
      auto simp: plain_def)

lemma field_name_keeps: "keeps_count C field_name_token"
  unfolding field_name_token_def by (intro keep_rules; auto simp: plain_def)

lemma ternary_keeps:
  "try_ternary g left st = Gives (Some x) st' \<Longrightarrow> calm s \<Longrightarrow> past s (toks st) = Some r \<Longrightarrow> past s (toks st') = Some r"
proof -
  have tail: "keeps_count anywhere (ternary_tail g left)"
    unfolding ternary_tail_def by (intro keep_rules grammar_calls; simp add: plain_def)
  show "try_ternary g left st = Gives (Some x) st' \<Longrightarrow> calm s \<Longrightarrow> past s (toks st) = Some r \<Longrightarrow> past s (toks st') = Some r"
    using keeps_attempt [OF tail] by (simp add: try_ternary_def bind_p_def p_peek_def ret_p_def split: if_splits)
qed

lemma infix_tails_keep:
  "keeps_count C (generic_or_binary g t bop left p)" "keeps_count C (dot_expr g left)" "keeps_count C (call_tail g left)"
  "keeps_count C (index_tail g left)" "keeps_count C (bang_call g left)"
  unfolding generic_or_binary_def dot_expr_def call_tail_def index_tail_def bang_call_def
  by (intro keep_rules grammar_calls named_tails_keep generic_args_keep args_keep field_name_keeps; auto simp: plain_def)+

lemma question_keeps: "keeps_count C (question_tail g left)"
  unfolding question_tail_def by (rule keeps_retry [OF ternary_keeps keeps_leaf(1)])

lemma infix_keeps: "keeps_count C (parseInfixExpr g left p)"
proof -
  have "keeps_count (\<lambda>ts. C ts \<and> tag_at 0 ts = t) (bind_p p_advance (\<lambda>_.
       case binary_op_of t of
         Some bop \<Rightarrow> generic_or_binary g t bop left p
       | None \<Rightarrow>
           if t = T_punct P_dot then dot_expr g left
           else if t = T_punct P_bang then bang_call g left
           else if t = T_punct P_l_paren then call_tail g left
           else if t = T_punct P_l_bracket then index_tail g left
           else if t = T_keyword K_as then bind_p (g_type g) (\<lambda>cast_ty. ret_p (Cast_expr left cast_ty))
           else if t = T_punct P_question_mark then question_tail g left
           else fail_p UnexpectedInfixToken))" for t
  proof (cases "plain t")
    case True
    then show ?thesis
      by (intro keep_rules infix_tails_keep question_keeps grammar_calls; auto)
  next
    case False
    then show ?thesis by (auto simp: plain_def binary_op_of_def intro!: keeps_advance_fail)
  qed
  then show ?thesis unfolding parseInfixExpr_def by (rule keeps_look(1))
qed

lemma chain_keeps: "(\<And>ts. C ts \<Longrightarrow> plain (tag_at 0 ts)) \<Longrightarrow> keeps_count C (optional_chain g left)"
  unfolding optional_chain_def
  by (intro keep_rules field_name_keeps keeps_lists exprs; simp add: plain_def)

lemma climb_keeps: "keeps_count C (climb g p left)"
proof -
  have rest: "keeps_count C (climb_rest g p left)" for C
    unfolding climb_rest_def
    by (intro keep_rules grammar_calls infix_keeps chain_keeps; auto simp: plain_def)
  show ?thesis
    unfolding climb_def
    by (intro keeps_look(1) keeps_split(1) rest, rule keeps_retry_behind [OF ternary_keeps rest])
      (auto simp: plain_def)
qed

lemma expr_keeps: "keeps_count C (parseExpr sc g p)"
  unfolding parseExpr_def by (intro keep_rules prefix_keeps climb_keeps)

lemma bound_keeps: "keeps_count C (bound_value g)" "keeps_count C (optional_type g)"
  unfolding bound_value_def optional_type_def by (intro keep_rules grammar_calls; simp add: plain_def)+

lemma let_forms_keep:
  "keeps_count C (let_else g)" "keeps_count C (let_name g)"
  "(\<And>ts. C ts \<Longrightarrow> plain (tag_at 0 ts)) \<Longrightarrow> keeps_count C (let_tuple g)" "(\<And>ts. C ts \<Longrightarrow> plain (tag_at 0 ts)) \<Longrightarrow> keeps_count C (let_slice g)"
  unfolding let_else_def let_tuple_def let_slice_def slice_step_def let_name_def
  by (intro keep_rules grammar_calls patterns_keep keeps_lists bound_keeps; auto simp: plain_def)+

lemma simple_statements_keep:
  "keeps_count C (parseLetStmt sc g)" "keeps_count C (parseConstStmt g)" "keeps_count C (parseVarStmt g)"
  "keeps_count C (parseReturnStmt g)" "keeps_count C parseBreakStmt" "keeps_count C parseContinueStmt"
  "keeps_count C parseReleaseStmt" "keeps_count C (parseDeferStmt g)" "keeps_count C parseUsingDecl"
  unfolding parseLetStmt_def parseConstStmt_def parseVarStmt_def parseReturnStmt_def parseBreakStmt_def
    parseContinueStmt_def parseReleaseStmt_def parseDeferStmt_def call_operand_def parseUsingDecl_def
    parseImportPathTokenSequence_def path_step_def
  by (intro keep_rules grammar_calls let_forms_keep bound_keeps; auto simp: plain_def is_import_path_token_def)+

lemma select_arm_keeps: "keeps_count C (select_arm g)"
  unfolding select_arm_def select_binding_def by (intro keep_rules grammar_calls; simp add: plain_def)

lemma select_step_keeps: "keeps_count C (select_step g u)"
  unfolding select_step_def by (intro keep_rules grammar_calls select_arm_keeps; auto simp: plain_def)

lemma block_statements_keep: "keeps_count C (parseForStmt g)" "keeps_count C (parseWhileStmt g)" "keeps_count C (parseSelectStmt g)"
  unfolding parseForStmt_def parseWhileStmt_def parseSelectStmt_def
  by (intro keep_rules grammar_calls patterns_keep select_step_keeps; simp add: plain_def)+

lemma assignment_keeps:
  "keeps_count C (assignment g e)" "(\<And>ts. C ts \<Longrightarrow> plain (tag_at 0 ts)) \<Longrightarrow> keeps_count C (compound_assignment g e h)"
  "keeps_count C (expression_statement e)"
  unfolding assignment_def chain_step_def compound_assignment_def expression_statement_def
  by (intro keep_rules grammar_calls; simp add: plain_def)+

lemma expression_first_keeps: "keeps_count C (expression_first g)"
proof -
  have "plain t" if "compound_op t = Some bop" for t bop
    using that by (auto simp: compound_op_def plain_def split: if_splits)
  then show ?thesis
    unfolding expression_first_def
    by (intro keep_rules grammar_calls assignment_keeps; auto simp: plain_def)
qed

lemma stmt_keeps: "keeps_count C (parseStmt sc g)"
  unfolding parseStmt_def
  by (intro keep_rules grammar_calls simple_statements_keep block_statements_keep expression_first_keeps;
      auto simp: plain_def atArenaBlockStart_def)

lemma block_keeps: "keeps_count C (parseBlock g)"
  unfolding parseBlock_def block_step_def by (intro keep_rules grammar_calls)

end

lemma keep_at: "keep_contract (grammar_at sc n)"
proof (induction n)
  case 0
  show ?case by unfold_locales (simp_all add: keeps_count_def)
next
  case (Suc n)
  note k = keep_contract.expr_keeps [OF Suc] keep_contract.if_keeps [OF Suc] keep_contract.block_keeps [OF Suc]
    keep_contract.stmt_keeps [OF Suc] keep_contract.type_keeps [OF Suc]
  show ?case by unfold_locales (simp_all add: knot k)
qed

interpretation keep: keep_contract "parser_of sc" for sc
proof -
  note at = keep_at [of sc]
  show "keep_contract (parser_of sc)"
    by unfold_locales
      (use keep_contract.exprs [OF at] keep_contract.ifs [OF at] keep_contract.blocks [OF at] keep_contract.types [OF at]
        keep_contract.stmts [OF at] in \<open>auto simp: parser_of_def keeps_count_def\<close>)
qed

section \<open>A block ends where its span ends\<close>

lemma block_end:
  assumes "g_block (parser_of sc) st = Gives body st'" "peek_tokens (span_init 0 0) (toks st) = Inr span"
  shows "toks st = span @ toks st'"
proof -
  define s where "s = (span_init 0 0)\<lparr>s_depth := 1, s_end := 0\<rparr>"
  have s: "calm s" by (simp add: s_def calm_def span_init_def)
  from assms(1) obtain st1 v where v: "tag_at 0 (toks st) = T_punct P_l_brace"
    "while_p (block_step (parser_of sc)) [] (st\<lparr>toks := tl (toks st)\<rparr>) = Gives v st1"
    "tag_at 0 (toks st1) = T_punct P_r_brace" "toks st' = tl (toks st1)"
    unfolding parser_methods(3) parseBlock_def
    by (auto simp: bind_p_def p_expect_def p_peek_def p_advance_def fail_p_def ret_p_def split: outcome.splits if_splits)
  from past_peek [OF assms(2)] obtain rest where rest: "toks st = span @ rest" "past (span_init 0 0) (toks st) = Some rest"
    by blast
  obtain w us where us: "toks st = (T_punct P_l_brace, w) # us" using tag_atE [OF v(1)] by auto
  with rest(2) have start: "past s (toks (st\<lparr>toks := tl (toks st)\<rparr>)) = Some rest"
    by (simp add: peek_step_def tag_token_def bump_depth_def span_init_def s_def)
  have loop: "keeps_count anywhere (while_p (block_step (parser_of sc)) [])"
    unfolding block_step_def by (intro keep_rules keep.grammar_calls)
  have "past s (toks st1) = Some rest" using keepsD [OF loop, of "st\<lparr>toks := tl (toks st)\<rparr>"] v(2) s start by simp
  moreover obtain w1 us1 where "toks st1 = (T_punct P_r_brace, w1) # us1" using tag_atE [OF v(3)] by auto
  ultimately have "rest = tl (toks st1)"
    by (simp add: peek_step_def tag_token_def peek_close_brace_def s_def span_init_def)
  with rest(1) v(4) show ?thesis by simp
qed

section \<open>Skipping a block\<close>

lemma skip_peek_step:
  assumes "s_end s = 0" "0 < s_depth s"
  shows "case peek_step 0 (tag_token t) s of
      Fail e \<Rightarrow> True
    | Finish e \<Rightarrow> t \<noteq> T_eof \<and> (\<exists>s'. skip_step (tag_token t) s = Inr s' \<and> s_depth s' = 0)
    | Continue s' \<Rightarrow> t \<noteq> T_eof \<and> skip_step (tag_token t) s = Inr s' \<and> 0 < s_depth s' \<and> s_end s' = 0"
  using assms
  by (auto simp: peek_step_def skip_step_def tag_token_def push_template_def pop_template_def open_interp_def
      bump_depth_def peek_close_brace_def Let_def)

lemma skip_loop_span:
  assumes "peek_tokens s ts = Inr span" "s_end s = 0" "0 < s_depth s"
  shows "\<exists>s'. s_depth s' = 0 \<and> while_p skip_round (s, acc) (st\<lparr>toks := ts\<rparr>) =
    Gives (s', acc @ span) (st\<lparr>toks := drop (length span) ts\<rparr>)"
  using assms
proof (induction ts arbitrary: s span acc)
  case Nil
  then show ?case by (simp split: span_step.splits)
next
  case (Cons t ts)
  note step = skip_peek_step [OF Cons.prems(2,3), of "fst t"]
  have round: "skip_round (s, acc) (st\<lparr>toks := t # ts\<rparr>) = Gives (Inl (s', acc @ [t])) (st\<lparr>toks := ts\<rparr>)"
    if "fst t \<noteq> T_eof" "skip_step (tag_token (fst t)) s = Inr s'" for s'
    using that Cons.prems(3)
    by (simp add: skip_round_def bind_p_def p_peek_def p_lexeme_def p_advance_def ret_p_def tag_at_def)
  show ?case
  proof (cases "peek_step 0 (tag_token (fst t)) s")
    case (Continue s')
    with step have s': "fst t \<noteq> T_eof" "skip_step (tag_token (fst t)) s = Inr s'" "s_end s' = 0" "0 < s_depth s'" by simp_all
    from Cons.prems(1) Continue obtain span' where span': "peek_tokens s' ts = Inr span'" "span = t # span'"
      by (cases "peek_tokens s' ts") auto
    from Cons.IH [OF span'(1) s'(3,4), of "acc @ [t]"] while_next [where body = skip_round, OF skip_rounds round [OF s'(1,2)]] span'(2)
    show ?thesis by simp
  next
    case (Finish e)
    with step obtain s' where s': "fst t \<noteq> T_eof" "skip_step (tag_token (fst t)) s = Inr s'" "s_depth s' = 0" by auto
    have "skip_round (s', acc @ [t]) (st\<lparr>toks := ts\<rparr>) = Gives (Inr (s', acc @ [t])) (st\<lparr>toks := ts\<rparr>)"
      using s'(3) by (simp add: skip_round_def bind_p_def p_peek_def p_lexeme_def ret_p_def)
    from while_done [where body = skip_round, OF skip_rounds this] while_next [where body = skip_round, OF skip_rounds round [OF s'(1,2)]] s'(3) Finish Cons.prems(1)
    show ?thesis by auto
  qed (use Cons.prems(1) in simp)
qed

lemma skip_block_span:
  assumes "peek_block st = Gives span st'"
  shows "skip_block st = Gives span (st\<lparr>toks := drop (length span) (toks st)\<rparr>)"
proof -
  from assms have span: "tag_at 0 (toks st) = T_punct P_l_brace" "peek_tokens (span_init 0 0) (toks st) = Inr span"
    by (auto simp: peek_block_def bind_p_def p_peek_def p_look_def fail_p_def ret_p_def split: if_splits sum.splits)
  obtain w us where us: "toks st = (T_punct P_l_brace, w) # us" using tag_atE [OF span(1)] by auto
  have open_step: "peek_step 0 (tag_token (T_punct P_l_brace)) (span_init 0 0) = Continue (span_init 1 0)"
    by (simp add: peek_step_def tag_token_def bump_depth_def span_init_def)
  with span(2) us obtain span' where span': "peek_tokens (span_init 1 0) us = Inr span'" "span = (T_punct P_l_brace, w) # span'"
    by (cases "peek_tokens (span_init 1 0) us") auto
  from skip_loop_span [OF span'(1), where acc = "[(T_punct P_l_brace, w)]" and st = st]
  obtain s' where "s_depth s' = 0" "while_p skip_round (span_init 1 0, [(T_punct P_l_brace, w)]) (st\<lparr>toks := us\<rparr>) =
      Gives (s', (T_punct P_l_brace, w) # span') (st\<lparr>toks := drop (length span') us\<rparr>)"
    by (auto simp: span_init_def)
  with us span'(2) show ?thesis
    by (simp add: skip_block_def bind_p_def p_lexeme_def p_expect_def p_peek_def p_advance_def ret_p_def tag_at_def)
qed

text \<open>The two ways through \<open>parseOrCaptureFunctionBody\<close>.\<close>

lemma capture_agrees:
  assumes "parseOrCaptureFunctionBody (parser_of sc) True st = Gives (body, span) st1"
  shows "\<exists>st2. parseOrCaptureFunctionBody (parser_of sc) False st = Gives ([], span) st2 \<and> toks st2 = toks st1 \<and>
    toks st = span @ toks st1"
proof -
  from assms have p: "peek_block st = Gives span st" "g_block (parser_of sc) st = Gives body st1"
    by (auto simp: parseOrCaptureFunctionBody_def peek_block_def bind_p_def p_peek_def p_look_def fail_p_def ret_p_def
        split: outcome.splits if_splits sum.splits)
  then have "peek_tokens (span_init 0 0) (toks st) = Inr span"
    by (auto simp: peek_block_def bind_p_def p_peek_def p_look_def fail_p_def ret_p_def split: if_splits sum.splits)
  from block_end [OF p(2) this] have st: "toks st = span @ toks st1" .
  with skip_block_span [OF p(1)] show ?thesis
    by (intro exI [of _ "st\<lparr>toks := toks st1\<rparr>"])
      (simp add: parseOrCaptureFunctionBody_def bind_p_def ret_p_def)
qed

section \<open>Functions without their bodies\<close>

text \<open>The second parser reads what the first reads, but for the bodies.\<close>

definition skips :: "func pm \<Rightarrow> func pm \<Rightarrow> bool" where
  "skips m m' \<longleftrightarrow> (\<forall>st s body span st1. m st = Gives (s, body, span) st1 \<longrightarrow>
     (\<exists>st2. m' st = Gives (s, [], span) st2 \<and> toks st2 = toks st1))"

lemma skips_bind: "(\<And>x. skips (f x) (f' x)) \<Longrightarrow> skips (bind_p m f) (bind_p m f')"
  unfolding skips_def bind_p_def by (auto split: outcome.split)

lemma skips_fail: "skips (fail_p e) (fail_p e)"
  by (simp add: skips_def fail_p_def)

lemma skips_if: "(b \<Longrightarrow> skips m m') \<Longrightarrow> (\<not> b \<Longrightarrow> skips n n') \<Longrightarrow> skips (if b then m else n) (if b then m' else n')"
  by simp

lemma capture_gives:
  assumes "parseOrCaptureFunctionBody (parser_of sc) b st = Gives (body, span) st1"
  shows "\<exists>st2. parseOrCaptureFunctionBody (parser_of sc) False st = Gives ([], span) st2 \<and> toks st2 = toks st1"
proof (cases b)
  case True
  with assms capture_agrees [of sc st body span st1] show ?thesis by auto
next
  case False
  with assms have "body = []" by (auto simp: parseOrCaptureFunctionBody_def bind_p_def ret_p_def split: outcome.splits)
  with assms False show ?thesis by simp
qed

lemma skips_body:
  "skips (bind_p (parseOrCaptureFunctionBody (parser_of sc) b) (\<lambda>(body, span). ret_p (s, body, Some span)))
     (bind_p (parseOrCaptureFunctionBody (parser_of sc) False) (\<lambda>(body, span). ret_p (s, body, Some span)))"
  unfolding skips_def
proof (intro allI impI)
  fix st s' body span st1
  assume "bind_p (parseOrCaptureFunctionBody (parser_of sc) b) (\<lambda>(body, span). ret_p (s, body, Some span)) st
    = Gives (s', body, span) st1"
  then obtain sp where "parseOrCaptureFunctionBody (parser_of sc) b st = Gives (body, sp) st1" "span = Some sp" "s' = s"
    by (cases "parseOrCaptureFunctionBody (parser_of sc) b st") (auto simp: bind_p_def ret_p_def split: prod.splits)
  with capture_gives show "\<exists>st2. bind_p (parseOrCaptureFunctionBody (parser_of sc) False)
      (\<lambda>(body, span). ret_p (s, body, Some span)) st = Gives (s', [], span) st2 \<and> toks st2 = toks st1"
    by (fastforce simp: bind_p_def ret_p_def)
qed

definition no_bodies :: "options \<Rightarrow> options" where
  "no_bodies opts = opts\<lparr>parse_function_bodies := False\<rparr>"

lemma no_bodies [simp]:
  "shouldParseFunctionBody (no_bodies opts) name = False" "shouldParseMethodBody (no_bodies opts) t tr name = False"
  by (simp_all add: no_bodies_def shouldParseFunctionBody_def shouldParseMethodBody_def)

lemma skips_again: "skips (bind_p (ret_p ([], None)) (\<lambda>(body, span). ret_p (s, body, span)))
    (bind_p (ret_p ([], None)) (\<lambda>(body, span). ret_p (s, body, span)))"
  by (simp add: skips_def bind_p_def ret_p_def)

lemma bind_ret: "bind_p (bind_p m (\<lambda>(body, span). ret_p (body, Some span))) (\<lambda>(body, span). ret_p (s, body, span)) =
    bind_p m (\<lambda>(body, span). ret_p (s, body, Some span))"
  by (auto simp: bind_p_def ret_p_def fun_eq_iff split: outcome.split prod.split)

lemma skips_func: "skips (parseFuncDecl opts (parser_of sc) m nm d) (parseFuncDecl (no_bodies opts) (parser_of sc) m nm d)"
  unfolding parseFuncDecl_def
  by (intro skips_bind)
    (auto simp: bind_ret split: prod.splits intro!: skips_bind skips_fail skips_again skips_body)

lemma skips_method:
  "skips (parseMethodDecl opts (parser_of sc) t tr) (parseMethodDecl (no_bodies opts) (parser_of sc) t tr)"
  unfolding parseMethodDecl_def by (intro skips_bind) (simp add: skips_body)

lemma skips_overload:
  "skips (parseOverloadMethodDecl opts (parser_of sc) t) (parseOverloadMethodDecl (no_bodies opts) (parser_of sc) t)"
  unfolding parseOverloadMethodDecl_def
  by (intro skips_bind) (auto simp: skips_body split: option.split prod.split intro!: skips_bind skips_fail)

end
