(* ===== verification/Sla_Parse_File.thy ===== *)
theory Sla_Parse_File
  imports Sla_Parse_Lazy Sla_Parse_Decl_Ends Sla_Parse_Types Sla_Shader_Normal Sla_Layout
begin

text \<open>
  What the declarations of a file promise the rest of the compiler: the tags of an enum are distinct, what a module
  declares carries its name, the names a file makes known are the ones it declares, shaders are read back, and leaving
  bodies out changes nothing else.
\<close>

section \<open>Enums\<close>

lemma yields_loose_list: "yields P item \<Longrightarrow> yields (list_all P) (loose_list close item)"
  unfolding loose_list_def loose_step_def
  by (rule yields_while [where I = "list_all P"])
    (auto intro!: yields_skip yields_ret elim!: yields_bind)

definition in_i64 :: "enum_variant \<Rightarrow> bool" where
  "in_i64 v \<longleftrightarrow> pred_option (\<lambda>d. - (2 ^ 63) < d \<and> d < 2 ^ 63) (ev_discriminant v)"

lemma variant_yields: "yields in_i64 (variant_item g)"
proof -
  have v: "yields (\<lambda>d. - (2 ^ 63) < d \<and> d < 2 ^ 63) (or_fail e (discriminant_value negative s))" for e negative s
    by (rule yields_or_fail) (auto simp: discriminant_value_def parse_uint_def Let_def split: if_splits option.splits)
  have "yields (pred_option (\<lambda>d. - (2 ^ 63) < d \<and> d < 2 ^ 63)) variant_discriminant"
    unfolding variant_discriminant_def
    by (intro yields_skip yields_if yields_bind [OF v] yields_ret) simp_all
  then show ?thesis
    unfolding variant_item_def
    by (rule yields_skip [OF yields_bind]) (intro yields_skip yields_ret, simp add: in_i64_def)
qed

lemma enum_yields:
  "yields (\<lambda>n. \<exists>d. n = Enum_decl d \<and> check_tags [] 0 (ed_variants d) = None \<and> list_all in_i64 (ed_variants d))
     (parseEnumDecl g)"
  unfolding parseEnumDecl_def
  by (rule yields_skip, rule yields_skip, rule yields_skip, rule yields_skip,
      rule yields_bind [OF yields_loose_list [OF variant_yields]])
    (auto split: option.split intro!: yields_skip yields_fail yields_ret)

lemma checked_tags:
  assumes "check_tags seen n vs = None" "list_all in_i64 vs" "- (2 ^ 63) < n" "n < 2 ^ 63" "a \<in> ev_name ` set vs"
  shows "\<exists>t. variant_value vs a n = Tag_value (Some t) \<and> t \<notin> set seen \<and> - (2 ^ 63) < t \<and> t < 2 ^ 63 - 1 \<and>
    (\<forall>b \<in> ev_name ` set vs. b \<noteq> a \<longrightarrow> variant_value vs b n \<noteq> Tag_value (Some t))"
  using assms
proof (induction vs arbitrary: seen n a)
  case (Cons v vs)
  define t where "t = (case ev_discriminant v of Some d \<Rightarrow> d | None \<Rightarrow> n)"
  have t: "- (2 ^ 63) < t" "t < 2 ^ 63 - 1" "t \<notin> set seen" "check_tags (seen @ [t]) (t + 1) vs = None"
    using Cons.prems by (auto simp: t_def in_i64_def Let_def split: if_splits option.splits)
  have later: "\<exists>u. variant_value vs b (t + 1) = Tag_value (Some u) \<and> u \<notin> set (seen @ [t]) \<and> - (2 ^ 63) < u \<and>
      u < 2 ^ 63 - 1 \<and> (\<forall>c \<in> ev_name ` set vs. c \<noteq> b \<longrightarrow> variant_value vs c (t + 1) \<noteq> Tag_value (Some u))"
    if "b \<in> ev_name ` set vs" for b
    using Cons.prems(2) t that by (intro Cons.IH) simp_all
  have val: "variant_value (v # vs) b n =
      (if b = ev_name v then Tag_value (Some t) else variant_value vs b (t + 1))" for b
    using t(2) by (simp add: Let_def flip: t_def)
  show ?case
  proof (cases "a = ev_name v")
    case True
    with t(1-3) later show ?thesis unfolding val by fastforce
  next
    case False
    with Cons.prems(5) have "a \<in> ev_name ` set vs" by simp
    from later [OF this] False show ?thesis unfolding val by auto
  qed
qed simp

text \<open>C19: the comment of \<open>enumVariantValue\<close> is right about the parser.  In an enum that \<open>parseEnumDecl\<close> gives, every
  variant has a tag, computed without overflow, which no variant of another name has; so \<open>match\<close> arms never confuse
  two variants.\<close>

theorem enum_tags_distinct:
  assumes "parseEnumDecl g st = Gives (Enum_decl d) st'" "a \<in> ev_name ` set (ed_variants d)"
  shows "\<exists>t. enumVariantValue d a = Tag_value (Some t) \<and> - (2 ^ 63) < t \<and> t < 2 ^ 63 - 1 \<and>
    (\<forall>b \<in> ev_name ` set (ed_variants d). b \<noteq> a \<longrightarrow> enumVariantValue d b \<noteq> Tag_value (Some t))"
proof -
  from yieldsD [OF enum_yields assms(1)] have "check_tags [] 0 (ed_variants d) = None" "list_all in_i64 (ed_variants d)"
    by auto
  from checked_tags [OF this _ _ assms(2)] show ?thesis by (simp add: enumVariantValue_def)
qed

section \<open>The names a file makes known\<close>

definition same_names :: "decl_state \<Rightarrow> decl_state \<Rightarrow> bool" where
  "same_names ds ds' \<longleftrightarrow> known_types (ds_scope ds') = known_types (ds_scope ds) \<and>
     known_enums (ds_scope ds') = known_enums (ds_scope ds)"

lemma same_names [simp]: "same_names ds ds" "same_names ds (remember ds' fs) = same_names ds ds'"
  "same_names ds (ds'\<lparr>ds_scope := add_module m (ds_scope ds')\<rparr>) = same_names ds ds'"
  "same_names (ds'\<lparr>ds_scope := add_module m (ds_scope ds')\<rparr>) ds = same_names ds' ds"
  by (simp_all add: same_names_def remember_def add_module_def)

lemma same_names_trans: "same_names a b \<Longrightarrow> same_names b c \<Longrightarrow> same_names a c"
  by (simp add: same_names_def)

text \<open>The names of types and of enums a declaration introduces.\<close>

fun declared_enums :: "node \<Rightarrow> string list" where
  "declared_enums (Enum_decl d) = [ed_name d]"
| "declared_enums n = []"

fun declared_types :: "node \<Rightarrow> string list" where
  "declared_types (Struct_decl d) = [sd_name d]"
| "declared_types (Type_alias_decl d) = [tad_name d]"
| "declared_types (Enum_decl d) = [ed_name d]"
| "declared_types (Impl_decl tr (Ty_user_defined name gs) ms) = [name]"
| "declared_types n = []"

fun is_alias :: "node \<Rightarrow> bool" where
  "is_alias (Type_alias_decl d) = True"
| "is_alias n = False"

lemma record_decl_names:
  "known_types (record_decl n sc) = known_types sc @ declared_types n"
  "known_enums (record_decl n sc) = known_enums sc @ declared_enums n"
proof -
  show "known_types (record_decl n sc) = known_types sc @ declared_types n"
    by (cases n rule: declared_types.cases) (auto split: ty.split)
  show "known_enums (record_decl n sc) = known_enums sc @ declared_enums n"
    by (cases n rule: declared_types.cases) (auto split: ty.split)
qed

lemma record_decls_names:
  "known_types (ds_scope (record_decls ns ds)) = known_types (ds_scope ds) @ concat (map declared_types ns)"
  "known_enums (ds_scope (record_decls ns ds)) = known_enums (ds_scope ds) @ concat (map declared_enums ns)"
proof -
  have "known_types (fold record_decl ns sc) = known_types sc @ concat (map declared_types ns) \<and>
      known_enums (fold record_decl ns sc) = known_enums sc @ concat (map declared_enums ns)" for sc
    by (induction ns arbitrary: sc) (simp_all add: record_decl_names)
  then show "known_types (ds_scope (record_decls ns ds)) = known_types (ds_scope ds) @ concat (map declared_types ns)"
    "known_enums (ds_scope (record_decls ns ds)) = known_enums (ds_scope ds) @ concat (map declared_enums ns)"
    by (simp_all add: record_decls_def)
qed

abbreviation keeps_names :: "decl_state \<Rightarrow> (node \<times> decl_state) pm \<Rightarrow> bool" where
  "keeps_names ds \<equiv> yields (\<lambda>(n, ds'). same_names ds ds')"

lemma simple_keep_names: "keeps_names ds (no_names ds m)" "keeps_names ds (one_func ds f)"
  unfolding no_names_def one_func_def by (intro yields_skip yields_ret; simp)+

lemma groups_keep_names: "keeps_names ds (parseImplDecl opts G ds)" "keeps_names ds (parseOverloadDeclAfterAt opts G ds)"
  unfolding parseImplDecl_def parseOverloadDeclAfterAt_def
  by (intro yields_skip; auto intro!: yields_skip yields_ret)+

lemma import_names_plain:
  "\<not> prescan_sla_import_types opts \<Longrightarrow> import_names opts path sc = sc \<or> (\<exists>m. import_names opts path sc = add_module m sc)"
  by (auto simp: import_names_def recordImportModuleName_def Let_def)

lemma at_keeps_names:
  assumes "\<not> prescan_sla_import_types opts" shows "keeps_names ds (parseAtDecl opts G ds)"
proof -
  have "same_names ds (ds\<lparr>ds_scope := import_names opts path (ds_scope ds)\<rparr>)" for path
    using import_names_plain [OF assms, of path "ds_scope ds"] by (auto simp: same_names_def add_module_def)
  then have "keeps_names ds (parseImportDeclAfterAt opts ds)"
    unfolding parseImportDeclAfterAt_def by (intro yields_skip yields_ret) simp
  moreover have "keeps_names ds (register_kind ds)"
    unfolding register_kind_def by (intro yields_skip yields_if yields_fail yields_ret) (simp add: same_names_def)
  ultimately show ?thesis
    unfolding parseAtDecl_def
    by (intro yields_skip yields_if simple_keep_names groups_keep_names yields_fail yields_ret) simp_all
qed

lemma decl_keeps_names: "\<not> prescan_sla_import_types opts \<Longrightarrow> keeps_names ds (parseDecl opts G ds)"
  unfolding parseDecl_def refusing_def Let_def
  by (intro yields_skip yields_if simple_keep_names groups_keep_names at_keeps_names yields_fail)

section \<open>Modules\<close>

fun declared_name :: "node \<Rightarrow> string option" where
  "declared_name (Func_decl s body) = Some (fd_name s)"
| "declared_name (Type_alias_decl a) = Some (tad_name a)"
| "declared_name n = None"

text \<open>What a module appends carries its prefix.\<close>

definition carries :: "string \<Rightarrow> node list \<times> decl_state \<Rightarrow> node list \<times> decl_state \<Rightarrow> bool" where
  "carries prefix acc acc' \<longleftrightarrow> same_names (snd acc) (snd acc') \<and>
     (\<exists>new. fst acc' = fst acc @ new \<and> (\<forall>n \<in> set new. \<exists>r. declared_name n = Some (mangled prefix r)))"

lemma carries_same [simp]: "carries prefix acc acc"
  by (simp add: carries_def)

lemma carries_trans: "carries prefix a b \<Longrightarrow> carries prefix b c \<Longrightarrow> carries prefix a c"
  unfolding carries_def by (fastforce intro: same_names_trans)

lemma carries_inner: "carries (mangled prefix name) a b \<Longrightarrow> carries prefix a b"
  unfolding carries_def mangled_def by fastforce

lemma module_loop_adds:
  assumes "\<And>acc. yields (carries prefix acc) (sub (Some prefix) acc)"
  shows "yields (carries prefix acc) (while_p (module_step opts G sub prefix) acc)"
proof -
  have item: "yields (carries prefix acc) (module_item opts G sub prefix acc)" for acc
    unfolding module_item_def
    by (cases acc)
      (auto intro!: yields_skip yields_if assms yields_fail yields_ret
        simp: carries_def rename_func_def rename_alias_def func_node_def split: prod.split)
  have "yields (case_sum (carries prefix acc0) (carries prefix acc0)) (module_step opts G sub prefix acc)"
    if acc: "carries prefix acc0 acc" for acc0 acc
    unfolding module_step_def
  proof (rule yields_skip, rule yields_if)
    show "yields (case_sum (carries prefix acc0) (carries prefix acc0)) (bind_p (module_item opts G sub prefix acc) (\<lambda>acc'.
        bind_p (p_match (T_punct P_semicolon)) (\<lambda>_. ret_p (Inl acc'))))"
      by (rule yields_bind [OF item]) (use carries_trans [OF acc] in \<open>auto intro!: yields_skip yields_ret\<close>)
  qed (simp add: yields_ret acc)
  then show ?thesis by (rule yields_while) simp_all
qed

lemma yields_tail: "yields P m \<Longrightarrow> yields P (bind_p m (\<lambda>x. bind_p e (\<lambda>_. ret_p x)))"
  by (erule yields_bind) (intro yields_skip yields_ret)

lemma inner_module_adds:
  assumes "\<And>prefix acc. yields (carries prefix acc) (sub (Some prefix) acc)"
  shows "yields (carries prefix acc) (parseModuleDeclInto opts G sub (Some prefix) acc)"
proof (cases acc)
  case (Pair decls ds)
  have loop: "yields (carries prefix acc) (while_p (module_step opts G sub (mangled prefix name)) acc)" for name
  proof -
    have "yields (carries (mangled prefix name) acc) (while_p (module_step opts G sub (mangled prefix name)) acc)"
      by (rule module_loop_adds) (rule assms)
    with carries_inner show ?thesis unfolding yields_def by blast
  qed
  show ?thesis
    unfolding parseModuleDeclInto_def Pair prod.case option.case
    by (rule yields_skip, rule yields_skip, rule yields_skip, rule yields_tail, rule loop [unfolded Pair])
qed

lemma modules_add: "yields (carries prefix acc) (modules_at opts G n (Some prefix) acc)"
proof (induction n arbitrary: prefix acc)
  case (Suc n)
  have "modules_at opts G (Suc n) (Some prefix) acc = parseModuleDeclInto opts G (modules_at opts G n) (Some prefix) acc"
    by (simp add: fun_eq_iff)
  with inner_module_adds [OF Suc] show ?case by simp
qed (simp add: yields_def out_p_def)

text \<open>The first two tokens of a module are \<open>mod\<close> and its name.\<close>

lemma module_starts:
  assumes "parseModuleDeclInto opts G sub None (decls, ds) st = Gives acc' st'"
  shows "\<exists>st1 st2. while_p (module_step opts G sub (snd (toks st ! 1)))
    (decls, ds\<lparr>ds_scope := add_module (snd (toks st ! 1)) (ds_scope ds)\<rparr>) st1 = Gives acc' st2"
proof -
  from assms have tags: "tag_at 0 (toks st) = T_keyword K_mod" "tag_at 0 (tl (toks st)) = T_identifier"
    by (auto simp: parseModuleDeclInto_def bind_p_def p_expect_def p_take_def p_peek_def p_lexeme_def p_advance_def
        fail_p_def ret_p_def split: outcome.splits if_splits)
  obtain w us where us: "toks st = (T_keyword K_mod, w) # us" using tag_atE [OF tags(1)] by auto
  with tags(2) obtain x vs where "us = (T_identifier, x) # vs" using tag_atE [of us T_identifier] by auto
  with us assms show ?thesis
    by (auto simp: parseModuleDeclInto_def bind_p_def p_expect_def p_take_def p_peek_def p_lexeme_def p_advance_def
        fail_p_def ret_p_def split: outcome.splits if_splits)
qed

text \<open>C20: modules keep their declarations apart.  Everything a module appends to the program is a function or a type
  alias whose name is the name of the module, two underscores and a rest, however deep the module it stands in is nested,
  and the types and enums that are known stay the same.\<close>

theorem module_names_prefixed:
  assumes "module_parser opts G None (decls, ds) st = Gives (decls', ds') st'"
  shows "\<exists>new. decls' = decls @ new \<and> (\<forall>n \<in> set new. \<exists>r. declared_name n = Some (snd (toks st ! 1) @ ''__'' @ r)) \<and>
    known_types (ds_scope ds') = known_types (ds_scope ds) \<and> known_enums (ds_scope ds') = known_enums (ds_scope ds)"
proof -
  from assms obtain n where "parseModuleDeclInto opts G (modules_at opts G n) None (decls, ds) st = Gives (decls', ds') st'"
    by (auto simp: module_parser_def)
  from module_starts [OF this] yieldsD [OF module_loop_adds [where prefix = "snd (toks st ! 1)"]]
  have "carries (snd (toks st ! 1)) (decls, ds\<lparr>ds_scope := add_module (snd (toks st ! 1)) (ds_scope ds)\<rparr>) (decls', ds')"
    using modules_add by blast
  then show ?thesis by (simp add: carries_def same_names_def mangled_def add_module_def split: if_splits)
qed

section \<open>The surface of a file\<close>

definition known_surface :: "decl_state \<Rightarrow> node list \<times> decl_state \<Rightarrow> bool" where
  "known_surface ds acc \<longleftrightarrow>
     known_enums (ds_scope (snd acc)) = known_enums (ds_scope ds) @ concat (map declared_enums (fst acc)) \<and>
     set (known_types (ds_scope (snd acc))) \<subseteq> set (known_types (ds_scope ds)) \<union> (\<Union>n \<in> set (fst acc). set (declared_types n)) \<and>
     set (known_types (ds_scope ds)) \<union> (\<Union>n \<in> {n \<in> set (fst acc). \<not> is_alias n}. set (declared_types n))
       \<subseteq> set (known_types (ds_scope (snd acc)))"

lemma surface_start: "known_surface ds ([], ds)"
  by (simp add: known_surface_def)

lemma surface_declared:
  assumes "known_surface ds0 (decls, ds)" "same_names ds ds'"
  shows "known_surface ds0 (decls @ ns, record_decls ns ds')"
  using assms by (auto simp: known_surface_def same_names_def record_decls_names)

lemma surface_nameless:
  assumes "known_surface ds0 acc" "fst acc' = fst acc @ new" "same_names (snd acc) (snd acc')"
    and "\<forall>n \<in> set new. declared_enums n = [] \<and> (is_alias n \<or> declared_types n = [])"
  shows "known_surface ds0 acc'"
proof -
  from assms(4) have "concat (map declared_enums new) = []" by (induction new) simp_all
  moreover from assms(4) have "(\<Union>n \<in> {n \<in> set new. \<not> is_alias n}. set (declared_types n)) = {}" by auto
  moreover have "{n \<in> set (fst acc @ new). \<not> is_alias n} = {n \<in> set (fst acc). \<not> is_alias n} \<union> {n \<in> set new. \<not> is_alias n}"
    by auto
  ultimately show ?thesis
    using assms(1) unfolding known_surface_def assms(2) assms(3) [unfolded same_names_def, THEN conjunct1]
      assms(3) [unfolded same_names_def, THEN conjunct2] by auto
qed

lemma declared_nameless: "declared_name n = Some x \<Longrightarrow> declared_enums n = [] \<and> (is_alias n \<or> declared_types n = [])"
  by (cases n) simp_all

lemma module_surface:
  assumes "known_surface ds0 acc" "module_parser opts G None acc st = Gives acc' st'"
  shows "known_surface ds0 acc'"
proof -
  obtain decls ds where acc: "acc = (decls, ds)" by (cases acc)
  from assms(2) obtain n where "parseModuleDeclInto opts G (modules_at opts G n) None (decls, ds) st = Gives acc' st'"
    by (auto simp: module_parser_def acc)
  from module_starts [OF this] yieldsD [OF module_loop_adds [where prefix = "snd (toks st ! 1)"]]
  have c: "carries (snd (toks st ! 1)) (decls, ds\<lparr>ds_scope := add_module (snd (toks st ! 1)) (ds_scope ds)\<rparr>) acc'"
    using modules_add by blast
  then obtain new where "fst acc' = fst acc @ new" "\<forall>n \<in> set new. \<exists>r. declared_name n = Some (mangled (snd (toks st ! 1)) r)"
    by (auto simp: carries_def acc)
  moreover from c have "same_names (snd acc) (snd acc')" by (simp add: carries_def acc)
  ultimately show ?thesis using surface_nameless [OF assms(1)] declared_nameless by blast
qed

lemma using_nameless: "yields (\<lambda>n. declared_enums n = [] \<and> declared_types n = []) parseUsingDecl"
  unfolding parseUsingDecl_def by (intro yields_skip yields_ret) simp

lemma program_surface:
  assumes "\<not> prescan_sla_import_types opts"
  shows "yields (known_surface ds) (while_p (program_step opts parser_of (module_parser opts parser_of)) ([], ds))"
proof (rule yields_while [where I = "known_surface ds"])
  fix acc assume acc: "known_surface ds acc"
  have item: "yields (known_surface ds) (program_item opts parser_of acc)"
    unfolding program_item_def
    by (cases acc, simp only: prod.case, rule yields_bind [OF decl_keeps_names [OF assms]])
      (use acc surface_declared in \<open>auto intro!: yields_ret\<close>)
  have module: "yields (known_surface ds) (module_parser opts parser_of None acc)"
    by (rule yieldsI) (rule module_surface [OF acc])
  have decl: "yields (case_sum (known_surface ds) (known_surface ds))
      (bind_p (if t = T_keyword K_mod then module_parser opts parser_of None acc else program_item opts parser_of acc) (\<lambda>acc'.
        bind_p (p_match (T_punct P_semicolon)) (\<lambda>_. ret_p (Inl acc'))))" for t
    by (rule yields_bind [where Q = "known_surface ds"]) (auto intro: item module intro!: yields_skip yields_ret)
  have uses: "yields (case_sum (known_surface ds) (known_surface ds)) (bind_p parseUsingDecl (\<lambda>n. ret_p (Inl (fst acc @ [n], snd acc))))"
    by (rule yields_bind [OF using_nameless], rule yields_ret)
      (use acc surface_nameless [where acc' = "(fst acc @ [n], snd acc)" for n] in auto)
  show "yields (case_sum (known_surface ds) (known_surface ds)) (program_step opts parser_of (module_parser opts parser_of) acc)"
    unfolding program_step_def
    by (rule yields_skip, rule yields_if, simp add: yields_ret acc, rule yields_if) (rule uses, rule decl)
qed (simp add: surface_start)

text \<open>C18: the surface of a file is what the file declares.  Without prescanned imports, the enums known behind a file
  are those known before and then the declared ones in order; every known type was known before or is declared by a
  struct, an alias, an enum or as the target of an implementation; and all of these but aliases in modules are known.
  So an import merges nothing the file does not declare.\<close>

theorem file_surface:
  assumes "parse_file opts ds st = Gives (Program decls, ds') st'" "\<not> prescan_sla_import_types opts"
  shows "known_enums (ds_scope ds') = known_enums (ds_scope ds) @ concat (map declared_enums decls) \<and>
    set (known_types (ds_scope ds')) \<subseteq> set (known_types (ds_scope ds) @ concat (map declared_types decls)) \<and>
    set (known_types (ds_scope ds) @ concat (map declared_types (filter (\<lambda>n. \<not> is_alias n) decls)))
      \<subseteq> set (known_types (ds_scope ds'))"
proof -
  from assms(1) obtain st1 where
    "while_p (program_step opts parser_of (module_parser opts parser_of)) ([], ds) st = Gives (decls, ds') st1"
    by (auto simp: parse_file_def parseProgram_def bind_p_def ret_p_def split: outcome.splits)
  from yieldsD [OF program_surface [OF assms(2)] this] show ?thesis by (simp add: known_surface_def)
qed

section \<open>Files of shaders\<close>

definition shader_node :: "shader_decl \<Rightarrow> node" where
  "shader_node d = Sublanguage_decl \<lparr>sl_kind = ''shader'', sl_name = shd_name d, sl_shader = d\<rparr>"

definition shader_file :: "(64 word \<Rightarrow> string) \<Rightarrow> shader_decl list \<Rightarrow> ltoken list" where
  "shader_file fs ds = (T_punct P_at, ''@'') # word_tok ''sublanguage'' # word_tok ''shader'' # (T_punct P_semicolon, '';'') #
     concat (map (show_shader fs) ds) @ [(T_eof, [])]"

definition with_shaders :: "decl_state \<Rightarrow> decl_state" where
  "with_shaders s = s\<lparr>registered_sublanguages := registered_sublanguages s @ [''shader'']\<rparr>"

lemma file_next:
  assumes "program_step opts parser_of (module_parser opts parser_of) acc st = Gives (Inl acc') st'"
  shows "while_p (program_step opts parser_of (module_parser opts parser_of)) acc st =
    while_p (program_step opts parser_of (module_parser opts parser_of)) acc' st'"
  by (rule while_next) (rule decls.program_rounds, rule assms)

lemma record_nothing: "record_decls [Sublanguage_registration k] s = s" "record_decls [shader_node d] s = s"
  by (simp_all add: record_decls_def shader_node_def)

lemma register_step:
  assumes "tag_at 0 rest \<noteq> T_punct P_semicolon"
  shows "program_step opts G sub (decls, s) (st\<lparr>toks := (T_punct P_at, ''@'') # word_tok ''sublanguage'' # word_tok ''shader'' #
      (T_punct P_semicolon, '';'') # rest\<rparr>) =
    Gives (Inl (decls @ [Sublanguage_registration ''shader''], with_shaders s)) (st\<lparr>toks := rest\<rparr>)"
  by (simp add: program_step_def program_item_def parseDecl_def fn_modifiers_def refusing_def parseAtDecl_def
      register_kind_def isBoundSublanguageKind_def decls_of_def record_nothing with_shaders_def word_tok_def run Let_def)

lemma shader_step:
  assumes "printable_shader (float_of (ds_scope s)) fs d" "''shader'' \<in> set (registered_sublanguages s)"
    and "tag_at 0 rest \<noteq> T_punct P_semicolon"
  shows "program_step opts G sub (decls, s) (st\<lparr>toks := show_shader fs d @ rest\<rparr>) =
    Gives (Inl (decls @ [shader_node d], s)) (st\<lparr>toks := rest\<rparr>)"
proof -
  note read = shown_read [OF assms(1), where st = st and rest = rest, folded shader_node_def]
  have hd: "show_shader fs d @ rest = (T_identifier, ''shader'') # tl (show_shader fs d) @ rest"
    by (simp add: show_shader_def word_tok_def)
  have decls_of: "decls_of (shader_node d) = [shader_node d]" by (simp add: decls_of_def shader_node_def)
  show ?thesis
    using read assms(2,3) unfolding hd
    by (simp add: program_step_def program_item_def parseDecl_def fn_modifiers_def refusing_def no_names_def
        parseRegisteredSublanguageDecl_def decls_of record_nothing run Let_def)
qed

lemma shaders_loop:
  assumes "list_all (printable_shader (float_of (ds_scope s)) fs) ds" "''shader'' \<in> set (registered_sublanguages s)"
  shows "while_p (program_step opts parser_of (module_parser opts parser_of)) (decls, s)
      (st\<lparr>toks := concat (map (show_shader fs) ds) @ [(T_eof, [])]\<rparr>) =
    Gives (decls @ map shader_node ds, s) (st\<lparr>toks := [(T_eof, [])]\<rparr>)"
  using assms(1)
proof (induction ds arbitrary: decls)
  case Nil
  show ?case
    by (rule while_done [OF decls.program_rounds]) (simp add: program_step_def run)
next
  case (Cons d ds)
  have rest: "tag_at 0 (concat (map (show_shader fs) ds) @ [(T_eof, [])]) \<noteq> T_punct P_semicolon"
    by (cases ds) (simp_all add: show_shader_def word_tok_def)
  from Cons.prems shader_step [OF _ assms(2) rest, of fs d opts parser_of "module_parser opts parser_of" decls st]
  have "program_step opts parser_of (module_parser opts parser_of) (decls, s)
      (st\<lparr>toks := show_shader fs d @ concat (map (show_shader fs) ds) @ [(T_eof, [])]\<rparr>) =
    Gives (Inl (decls @ [shader_node d], s)) (st\<lparr>toks := concat (map (show_shader fs) ds) @ [(T_eof, [])]\<rparr>)" by simp
  from file_next [OF this] Cons.IH [of "decls @ [shader_node d]"] Cons.prems show ?case by simp
qed

text \<open>C17: the parser of files and the parser of shaders compose.  A file that registers the shader sublanguage and then
  holds the printed tokens of any shaders is parsed to the registration and exactly those declarations, in order, and
  nothing but the registration is recorded.\<close>

theorem shader_file_read_back:
  assumes "list_all (printable_shader (float_of (ds_scope s)) fs) ds"
  shows "parse_file opts s (st\<lparr>toks := shader_file fs ds\<rparr>) =
    Gives (Program (Sublanguage_registration ''shader'' # map shader_node ds), with_shaders s)
      (st\<lparr>toks := [(T_eof, [])]\<rparr>)"
proof -
  let ?step = "program_step opts parser_of (module_parser opts parser_of)"
  have rest: "tag_at 0 (concat (map (show_shader fs) ds) @ [(T_eof, [])]) \<noteq> T_punct P_semicolon"
    by (cases ds) (simp_all add: show_shader_def word_tok_def)
  have "while_p ?step ([], s) (st\<lparr>toks := shader_file fs ds\<rparr>) =
      while_p ?step ([Sublanguage_registration ''shader''], with_shaders s)
        (st\<lparr>toks := concat (map (show_shader fs) ds) @ [(T_eof, [])]\<rparr>)"
    unfolding shader_file_def using file_next [OF register_step [OF rest]] by simp
  also have "\<dots> = Gives (Sublanguage_registration ''shader'' # map shader_node ds, with_shaders s) (st\<lparr>toks := [(T_eof, [])]\<rparr>)"
    using shaders_loop [where s = "with_shaders s"] assms by (simp add: with_shaders_def)
  finally show ?thesis by (simp add: parse_file_def parseProgram_def run)
qed

section \<open>Leaving bodies out\<close>

text \<open>The three forms of functions.\<close>

datatype func_form = Function modifiers bool bool | Method ty "string option" | Operator ty

fun parse_func :: "options \<Rightarrow> grammar \<Rightarrow> func_form \<Rightarrow> func pm" where
  "parse_func opts g (Function m no_mangle is_decl_only) = parseFuncDecl opts g m no_mangle is_decl_only"
| "parse_func opts g (Method target_ty trait_name) = parseMethodDecl opts g target_ty trait_name"
| "parse_func opts g (Operator target_ty) = parseOverloadMethodDecl opts g target_ty"

text \<open>C16: skipping a body is parsing it and forgetting it.  Whenever a block can be parsed and its span looked up, the
  span holds exactly the tokens the block was parsed from, and skipping the block gives the same span and ends at the
  same token.  So braces of templates and of expressions never mislead the two loops that count them.\<close>

theorem block_span_exact:
  assumes "g_block (parser_of sc) st = Gives body st'" "peek_block st = Gives span st"
  shows "toks st = span @ toks st' \<and> skip_block st = Gives span (st\<lparr>toks := toks st'\<rparr>)"
proof -
  from assms(2) have "peek_tokens (span_init 0 0) (toks st) = Inr span"
    by (auto simp: peek_block_def bind_p_def p_peek_def p_look_def fail_p_def ret_p_def split: if_splits sum.splits)
  from block_end [OF assms(1) this] have "toks st = span @ toks st'" .
  with skip_block_span [OF assms(2)] show ?thesis by simp
qed

text \<open>C15: the option to leave bodies out, with which imports are prescanned, refines the full parser.  Whenever a
  function, a method or an operator is parsed, with or without its body, the parser that parses no bodies gives the same
  signature and the same span with an empty body and leaves the same tokens.\<close>

theorem bodiless_refines:
  assumes "parse_func opts (parser_of sc) form st = Gives (s, body, span) st1"
  shows "\<exists>st2. parse_func (no_bodies opts) (parser_of sc) form st = Gives (s, [], span) st2 \<and> toks st2 = toks st1"
proof -
  have "skips (parse_func opts (parser_of sc) form) (parse_func (no_bodies opts) (parser_of sc) form)"
    by (cases form) (simp_all add: skips_func skips_method skips_overload)
  with assms show ?thesis by (simp add: skips_def)
qed

section \<open>Examples\<close>

text \<open>Every body is parsed and nothing is imported; \<open>0.5\<close> is the only float.\<close>

definition all_bodies :: options where
  "all_bodies = \<lparr>parse_function_bodies = True, function_body_names = None, parse_macro_bodies = True,
     macro_body_names = None, parse_test_bodies = True, prescan_sla_import_types = False, surfaces = (\<lambda>_. [])\<rparr>"

definition new_state :: decl_state where
  "new_state = \<lparr>ds_scope = half_scope, registered_sublanguages = [], function_body_spans = []\<rparr>"

definition whole :: "ltoken list \<Rightarrow> pstate" where
  "whole ts = \<lparr>toks = ts @ [(T_eof, [])], type_bang_used = False, synth_counter = 0\<rparr>"

definition sym :: "punctuator \<Rightarrow> ltoken" where
  "sym p = (T_punct p, [])"

definition kw :: "keyword \<Rightarrow> ltoken" where
  "kw k = (T_keyword k, [])"

text \<open>\<open>fn name() body\<close>.\<close>

definition fn_tokens :: "string \<Rightarrow> ltoken list \<Rightarrow> ltoken list" where
  "fn_tokens name body = [kw K_fn, word_tok name, sym P_l_paren, sym P_r_paren] @ body"

definition fn_sig :: "string \<Rightarrow> func_sig" where
  "fn_sig name = plain_sig name [] [] (Ty_primitive P_void_type)"

fun file_result :: "(node \<times> decl_state) outcome \<Rightarrow> (parser_error + node \<times> (node \<times> ltoken list) list) option" where
  "file_result Out_of_fuel = None"
| "file_result (Fails e st) = Some (Inl e)"
| "file_result (Gives (n, ds) st) = Some (Inr (n, function_body_spans ds))"

lemma file_result_Gives: "file_result r = Some (Inr (n, spans)) \<Longrightarrow> \<exists>ds st. r = Gives (n, ds) st \<and> function_body_spans ds = spans"
  by (cases r rule: file_result.cases) auto

text \<open>\<open>{ let a: Self = b; }\<close> and \<open>impl P { fn m() ... }\<close>.\<close>

definition self_body :: "ltoken list" where
  "self_body = [sym P_l_brace, kw K_let, word_tok ''a'', sym P_colon, word_tok ''Self'', sym P_equal, word_tok ''b'',
     sym P_semicolon, sym P_r_brace]"

definition self_impl :: "ltoken list" where
  "self_impl = [kw K_impl, word_tok ''P'', sym P_l_brace] @ fn_tokens ''m'' self_body @ [sym P_r_brace]"

definition self_method :: node where
  "self_method = Func_decl (fn_sig ''m'') [Let_stmt ''a'' (Some (Ty_user_defined ''P'' [])) (Identifier ''b'')]"

lemma self_impl_parsed:
  "file_result (parse_file all_bodies new_state (whole self_impl)) =
    Some (Inr (Program [Impl_decl None (Ty_user_defined ''P'' []) [self_method]], [(self_method, self_body)]))"
  by code_simp

text \<open>\<open>parseFunctionBodySpan\<close> does not know the type of the implementation: the method that is parsed in its file
  cannot be parsed from the span the file recorded for it, with the types the file knows.\<close>

lemma self_span_rejected:
  "case parseFunctionBodySpan parser_of (float_of half_scope) self_body [''P''] [] of
     Fails e st \<Rightarrow> e = UnexpectedTypeToken | _ \<Rightarrow> False"
  by code_simp

text \<open>\<open>{ f(a < b, c < d); }\<close> and \<open>{ p >> (q); }\<close>.\<close>

definition call_fn :: "ltoken list" where
  "call_fn = fn_tokens ''m'' [sym P_l_brace, word_tok ''f'', sym P_l_paren, word_tok ''a'', sym P_less_than, word_tok ''b'',
     sym P_comma, word_tok ''c'', sym P_less_than, word_tok ''d'', sym P_r_paren, sym P_semicolon, sym P_r_brace]"

definition shift_fn :: "ltoken list" where
  "shift_fn = fn_tokens ''g'' [sym P_l_brace, word_tok ''p'', sym P_greater_greater, sym P_l_paren, word_tok ''q'',
     sym P_r_paren, sym P_semicolon, sym P_r_brace]"

definition call_node :: node where
  "call_node = Func_decl (fn_sig ''m'') [Expr_stmt (Call_expr ''f'' None []
     [Binary_expr Bop_lt (Identifier ''a'') (Identifier ''b''), Binary_expr Bop_lt (Identifier ''c'') (Identifier ''d'')] None)]"

definition shift_node :: node where
  "shift_node = Func_decl (fn_sig ''g'') [Expr_stmt (Binary_expr Bop_shr (Identifier ''p'') (Identifier ''q''))]"

definition file_program :: "ltoken list \<Rightarrow> (parser_error + node) option" where
  "file_program ts = map_option (map_sum id fst) (file_result (parse_file all_bodies new_state (whole ts)))"

lemma call_alone: "file_program call_fn = Some (Inr (Program [call_node]))"
  by code_simp

lemma shift_alone: "file_program shift_fn = Some (Inr (Program [shift_node]))"
  by code_simp

lemma shift_then_call: "file_program (shift_fn @ call_fn) = Some (Inr (Program [shift_node, call_node]))"
  by code_simp

lemma call_then_shift: "file_program (call_fn @ shift_fn) = Some (Inl SyntaxError)"
  by code_simp

text \<open>What a file means is not the sum of its declarations.  The lookahead of generic calls looks for boundaries
  only at its outermost angle bracket, so it runs past the end of a function: \<open>fn m() { f(a < b, c < d); }\<close> is parsed in
  a file of its own, and so is \<open>fn g() { p >> (q); }\<close>, and so is the second before the first, but the first before the
  second is a syntax error.\<close>

lemma later_function_breaks_call:
  "file_program call_fn = Some (Inr (Program [call_node])) \<and>
   file_program shift_fn = Some (Inr (Program [shift_node])) \<and>
   file_program (shift_fn @ call_fn) = Some (Inr (Program [shift_node, call_node])) \<and>
   file_program (call_fn @ shift_fn) = Some (Inl SyntaxError)"
  by (intro conjI call_alone shift_alone shift_then_call call_then_shift)

text \<open>The smallest \<open>i64\<close> cannot be written, and the largest overflows the counter of the check.\<close>

lemma extreme_discriminants:
  "discriminant_value True ''9223372036854775808'' = None"
  "check_tags [] 0 [\<lparr>ev_name = ''A'', ev_fields = [], ev_discriminant = discriminant_value False ''9223372036854775807''\<rparr>] =
     Some Panics"
  by (simp_all add: discriminant_value_def stripNumericSeparators_def parse_uint_def digit_value_def is_digit_def)

section \<open>Witnesses\<close>

definition shift_body :: "ltoken list" where
  "shift_body = drop 4 shift_fn"

definition plain_modifiers :: modifiers where
  "plain_modifiers = \<lparr>m_pub = False, m_extern = False, m_abi = None, m_inline = False, m_async = False\<rparr>"

theorem block_span_exact_witness:
  "toks (whole shift_body) = shift_body @ [(T_eof, [])] \<and> skip_block (whole shift_body) = Gives shift_body (whole [])"
proof -
  have b: "g_block (parser_of half_scope) (whole shift_body) =
      Gives [Expr_stmt (Binary_expr Bop_shr (Identifier ''p'') (Identifier ''q''))] (whole [])" by code_simp
  have p: "peek_block (whole shift_body) = Gives shift_body (whole shift_body)" by code_simp
  from block_span_exact [OF b p] show ?thesis by (simp add: whole_def)
qed

theorem bodiless_refines_witness:
  "\<exists>st2. parse_func (no_bodies all_bodies) (parser_of half_scope) (Function plain_modifiers False False) (whole shift_fn) =
    Gives (fn_sig ''g'', [], Some shift_body) st2 \<and> toks st2 = [(T_eof, [])]"
proof -
  have "parse_func all_bodies (parser_of half_scope) (Function plain_modifiers False False) (whole shift_fn) =
      Gives (fn_sig ''g'', [Expr_stmt (Binary_expr Bop_shr (Identifier ''p'') (Identifier ''q''))], Some shift_body) (whole [])"
    by code_simp
  from bodiless_refines [OF this] show ?thesis by (simp add: whole_def)
qed

text \<open>\<open>enum E { A, B }\<close>.\<close>

definition two_tokens :: "ltoken list" where
  "two_tokens = [kw K_enum, word_tok ''E'', sym P_l_brace, word_tok ''A'', sym P_comma, word_tok ''B'', sym P_r_brace]"

definition two_enum :: enum_decl where
  "two_enum = \<lparr>ed_name = ''E'', ed_generics = [], ed_variants = [\<lparr>ev_name = ''A'', ev_fields = [], ev_discriminant = None\<rparr>,
     \<lparr>ev_name = ''B'', ev_fields = [], ev_discriminant = None\<rparr>]\<rparr>"

theorem enum_tags_distinct_witness:
  "\<exists>t. enumVariantValue two_enum ''B'' = Tag_value (Some t) \<and> - (2 ^ 63) < t \<and> t < 2 ^ 63 - 1 \<and>
    enumVariantValue two_enum ''A'' \<noteq> Tag_value (Some t)"
proof -
  have "parseEnumDecl (parser_of half_scope) (whole two_tokens) = Gives (Enum_decl two_enum) (whole [])" by code_simp
  from enum_tags_distinct [OF this, of "''B''"] show ?thesis by (simp add: two_enum_def)
qed

text \<open>\<open>mod m { mod n { fn f() {} } }\<close>.\<close>

definition nested_tokens :: "ltoken list" where
  "nested_tokens = [kw K_mod, word_tok ''m'', sym P_l_brace, kw K_mod, word_tok ''n'', sym P_l_brace] @
     fn_tokens ''f'' [sym P_l_brace, sym P_r_brace] @ [sym P_r_brace, sym P_r_brace]"

fun decls_given :: "(node list \<times> decl_state) outcome \<Rightarrow> node list option" where
  "decls_given (Gives (decls, ds) st) = Some decls"
| "decls_given r = None"

theorem module_names_prefixed_witness:
  "\<exists>ds st. module_parser all_bodies parser_of None ([], new_state) (whole nested_tokens) =
    Gives ([Func_decl (fn_sig ''m__n__f'') []], ds) st \<and> known_types (ds_scope ds) = []"
proof -
  have "decls_given (module_parser all_bodies parser_of None ([], new_state) (whole nested_tokens)) =
      Some [Func_decl (fn_sig ''m__n__f'') []]" by code_simp
  then obtain ds st where r: "module_parser all_bodies parser_of None ([], new_state) (whole nested_tokens) =
      Gives ([Func_decl (fn_sig ''m__n__f'') []], ds) st"
    by (cases "module_parser all_bodies parser_of None ([], new_state) (whole nested_tokens)") auto
  from module_names_prefixed [OF r] have "known_types (ds_scope ds) = []" by (simp add: new_state_def half_scope_def)
  with r show ?thesis by blast
qed

theorem file_surface_witness:
  "\<exists>ds st. parse_file all_bodies new_state (whole (two_tokens @ self_impl)) =
    Gives (Program [Enum_decl two_enum, Impl_decl None (Ty_user_defined ''P'' []) [self_method]], ds) st \<and>
    known_enums (ds_scope ds) = [''E''] \<and> set (known_types (ds_scope ds)) = {''E'', ''P''}"
proof -
  have "file_result (parse_file all_bodies new_state (whole (two_tokens @ self_impl))) =
      Some (Inr (Program [Enum_decl two_enum, Impl_decl None (Ty_user_defined ''P'' []) [self_method]],
        [(self_method, self_body)]))" by code_simp
  from file_result_Gives [OF this] obtain ds st where r: "parse_file all_bodies new_state (whole (two_tokens @ self_impl)) =
      Gives (Program [Enum_decl two_enum, Impl_decl None (Ty_user_defined ''P'' []) [self_method]], ds) st" by blast
  from file_surface [OF r] have "known_enums (ds_scope ds) = [''E''] \<and> set (known_types (ds_scope ds)) = {''E'', ''P''}"
    by (simp add: all_bodies_def new_state_def half_scope_def two_enum_def) blast
  with r show ?thesis by blast
qed

theorem shader_file_read_back_witness:
  "parse_file all_bodies new_state (whole [] \<lparr>toks := shader_file (\<lambda>_. ''0.5'') [tint_shader]\<rparr>) =
    Gives (Program [Sublanguage_registration ''shader'', shader_node tint_shader], with_shaders new_state) (whole [])"
proof -
  have "list_all (printable_shader (float_of (ds_scope new_state)) (\<lambda>_. ''0.5'')) [tint_shader]"
    using tint_printable by (simp add: new_state_def)
  from shader_file_read_back [OF this, where st = "whole []" and opts = all_bodies] show ?thesis by (simp add: whole_def)
qed

end
