(* ===== verification/Sla_Rust.thy ===== *)
theory Sla_Rust
  imports Sla_Prelude "HOL-Library.Signed_Division"
begin

text \<open>
  The Rust that the reference programs of \<open>demos/rosetta\<close> use.  A computation of type
  \<open>'a rust\<close> is a value or a panic; integers are \<open>int\<close> with the range checks of the debug
  profile, so an arithmetic overflow, a division by zero and an index out of range are panics.
  Operators take computations, evaluated from left to right.  A \<open>main\<close> is what it prints and
  how it ends.
\<close>

section \<open>Values and panics\<close>

datatype rust_panic =
  Arith_overflow | Div_by_zero | Index_out_of_bounds | Unwrap_none | Unwrap_err
| Assert_failed | Explicit_panic string

type_synonym 'a rust = "rust_panic + 'a"

abbreviation Val :: "'a \<Rightarrow> 'a rust" where
  "Val \<equiv> Inr"

definition bind_r :: "'a rust \<Rightarrow> ('a \<Rightarrow> 'b rust) \<Rightarrow> 'b rust" where
  "bind_r m f = (case m of Inl p \<Rightarrow> Inl p | Inr x \<Rightarrow> f x)"

definition map_r :: "('a \<Rightarrow> 'b) \<Rightarrow> 'a rust \<Rightarrow> 'b rust" where
  "map_r f m = bind_r m (\<lambda>x. Inr (f x))"

definition lift2 :: "('a \<Rightarrow> 'b \<Rightarrow> 'c rust) \<Rightarrow> 'a rust \<Rightarrow> 'b rust \<Rightarrow> 'c rust" where
  "lift2 f m n = bind_r m (\<lambda>a. bind_r n (\<lambda>b. f a b))"

named_theorems rust_eval

lemma bind_r_simps [simp, rust_eval]:
  "bind_r (Inr x) f = f x" "bind_r (Inl p) f = Inl p"
  by (simp_all add: bind_r_def)

lemma map_r_simps [simp, rust_eval]: "map_r f (Inr x) = Inr (f x)" "map_r f (Inl p) = Inl p"
  by (simp_all add: map_r_def)

lemma lift2_simps [simp, rust_eval]:
  "lift2 f (Inr a) (Inr b) = f a b" "lift2 f (Inl p) n = Inl p" "lift2 f (Inr a) (Inl p) = Inl p"
  by (simp_all add: lift2_def)

lemma bind_r_assoc: "bind_r (bind_r m f) g = bind_r m (\<lambda>x. bind_r (f x) g)"
  by (cases m) simp_all

section \<open>Integers\<close>

text \<open>A result at its type: out of range is an overflow panic.\<close>

definition ranged :: "int \<Rightarrow> int \<Rightarrow> int \<Rightarrow> int rust" where
  "ranged lo hi x = (if lo \<le> x \<and> x \<le> hi then Inr x else Inl Arith_overflow)"

definition i32 :: "int \<Rightarrow> int rust" where "i32 x = ranged (- 2147483648) 2147483647 x"
definition u32 :: "int \<Rightarrow> int rust" where "u32 x = ranged 0 4294967295 x"
definition u8 :: "int \<Rightarrow> int rust" where "u8 x = ranged 0 255 x"
definition usize :: "int \<Rightarrow> int rust" where "usize x = ranged 0 18446744073709551615 x"

definition is_i32 :: "int \<Rightarrow> bool" where
  "is_i32 x \<longleftrightarrow> - 2147483648 \<le> x \<and> x \<le> 2147483647"

lemma i32_in [simp, rust_eval]: "is_i32 x \<Longrightarrow> i32 x = Inr x"
  by (simp add: i32_def ranged_def is_i32_def)

lemma i32_out: "\<not> is_i32 x \<Longrightarrow> i32 x = Inl Arith_overflow"
  by (simp add: i32_def ranged_def is_i32_def)

lemma i32_cases: "i32 x = (if is_i32 x then Inr x else Inl Arith_overflow)"
  by (simp add: i32_out)

abbreviation i32_add :: "int rust \<Rightarrow> int rust \<Rightarrow> int rust" where
  "i32_add \<equiv> lift2 (\<lambda>a b. i32 (a + b))"
abbreviation i32_sub :: "int rust \<Rightarrow> int rust \<Rightarrow> int rust" where
  "i32_sub \<equiv> lift2 (\<lambda>a b. i32 (a - b))"
abbreviation i32_mul :: "int rust \<Rightarrow> int rust \<Rightarrow> int rust" where
  "i32_mul \<equiv> lift2 (\<lambda>a b. i32 (a * b))"

text \<open>\<open>/\<close> and \<open>%\<close> truncate towards zero and panic on a zero divisor and on \<open>MIN / -1\<close>.\<close>

abbreviation i32_div :: "int rust \<Rightarrow> int rust \<Rightarrow> int rust" where
  "i32_div \<equiv> lift2 (\<lambda>a b. if b = 0 then Inl Div_by_zero else i32 (a sdiv b))"
abbreviation i32_rem :: "int rust \<Rightarrow> int rust \<Rightarrow> int rust" where
  "i32_rem \<equiv> lift2 (\<lambda>a b. if b = 0 then Inl Div_by_zero
     else if a = - 2147483648 \<and> b = - 1 then Inl Arith_overflow else Inr (a smod b))"

abbreviation u8_add :: "int rust \<Rightarrow> int rust \<Rightarrow> int rust" where
  "u8_add \<equiv> lift2 (\<lambda>a b. u8 (a + b))"
abbreviation u32_add :: "int rust \<Rightarrow> int rust \<Rightarrow> int rust" where
  "u32_add \<equiv> lift2 (\<lambda>a b. u32 (a + b))"
abbreviation usize_add :: "int rust \<Rightarrow> int rust \<Rightarrow> int rust" where
  "usize_add \<equiv> lift2 (\<lambda>a b. usize (a + b))"

lemma i32_numeral [rust_eval]:
  "is_i32 (numeral n) \<longleftrightarrow> (numeral n :: int) \<le> 2147483647"
  "is_i32 (- numeral n) \<longleftrightarrow> (numeral n :: int) \<le> 2147483648" "is_i32 0" "is_i32 1" "is_i32 (- 1)"
  by (simp_all add: is_i32_def)

text \<open>\<open>as i32\<close> wraps, from \<open>bool\<close> it is 0 or 1.\<close>

definition as_i32 :: "int \<Rightarrow> int" where
  "as_i32 x = (x + 2147483648) mod 4294967296 - 2147483648"

definition bool_i32 :: "bool \<Rightarrow> int" where
  "bool_i32 b = (if b then 1 else 0)"

lemma as_i32_id: "is_i32 x \<Longrightarrow> as_i32 x = x"
  by (simp add: as_i32_def is_i32_def)

section \<open>Slices and iterators\<close>

definition index_r :: "'a list \<Rightarrow> nat \<Rightarrow> 'a rust" where
  "index_r xs i = (if i < length xs then Inr (xs ! i) else Inl Index_out_of_bounds)"

definition store_r :: "'a list \<Rightarrow> nat \<Rightarrow> 'a \<Rightarrow> 'a list rust" where
  "store_r xs i y = (if i < length xs then Inr (xs[i := y]) else Inl Index_out_of_bounds)"

text \<open>\<open>iter().sum()\<close> on \<open>i32\<close>: from 0, from the left, every partial sum checked.\<close>

definition sum_i32 :: "int list \<Rightarrow> int rust" where
  "sum_i32 xs = foldl (\<lambda>acc x. i32_add acc (Val x)) (Val 0) xs"

fun map_all :: "('a \<Rightarrow> 'b rust) \<Rightarrow> 'a list \<Rightarrow> 'b list rust" where
  "map_all f [] = Inr []"
| "map_all f (x # xs) = bind_r (f x) (\<lambda>y. map_r ((#) y) (map_all f xs))"

text \<open>A loop body over the elements, with an accumulator: \<open>for x in xs\<close>.\<close>

fun for_r :: "'a list \<Rightarrow> 's \<Rightarrow> ('s \<Rightarrow> 'a \<Rightarrow> 's rust) \<Rightarrow> 's rust" where
  "for_r [] s f = Inr s"
| "for_r (x # xs) s f = bind_r (f s x) (\<lambda>s'. for_r xs s' f)"

lemma foldl_panic: "foldl (\<lambda>acc x. i32_add acc (Val x)) (Inl p) xs = Inl p"
  by (induction xs) simp_all

lemma sum_i32_from:
  assumes "\<forall>k \<le> length xs. is_i32 (a + sum_list (take k xs))"
  shows "foldl (\<lambda>acc x. i32_add acc (Val x)) (Val a) xs = Val (a + sum_list xs)"
  using assms
proof (induction xs arbitrary: a)
  case (Cons x xs)
  have "is_i32 (a + x)" using Cons.prems [rule_format, of 1] by simp
  moreover have "\<forall>k \<le> length xs. is_i32 (a + x + sum_list (take k xs))"
    using Cons.prems by (metis Suc_le_mono add.assoc length_Cons sum_list.Cons take_Suc_Cons)
  ultimately show ?case using Cons.IH [of "a + x"] by (simp add: add.assoc)
qed simp

section \<open>Programs\<close>

type_synonym rust_run = "string \<times> rust_panic option"

definition line :: "string \<Rightarrow> string" where
  "line s = s @ [CHR 0x0A]"

definition println :: "string rust \<Rightarrow> rust_run" where
  "println m = (case m of Inl p \<Rightarrow> ([], Some p) | Inr s \<Rightarrow> (line s, None))"

definition println_i :: "int rust \<Rightarrow> rust_run" where
  "println_i m = println (map_r dec_int m)"

definition println_b :: "bool rust \<Rightarrow> rust_run" where
  "println_b m = println (map_r (\<lambda>b. if b then ''true'' else ''false'') m)"

definition and_then :: "rust_run \<Rightarrow> rust_run \<Rightarrow> rust_run" where
  "and_then a b = (case snd a of Some p \<Rightarrow> a | None \<Rightarrow> (fst a @ fst b, snd b))"

definition with_r :: "'a rust \<Rightarrow> ('a \<Rightarrow> rust_run) \<Rightarrow> rust_run" where
  "with_r m f = (case m of Inl p \<Rightarrow> ([], Some p) | Inr x \<Rightarrow> f x)"

definition prints :: "rust_run \<Rightarrow> string \<Rightarrow> bool" where
  "prints r s \<longleftrightarrow> r = (line s, None)"

lemma with_r_simps [simp, rust_eval]: "with_r (Inr x) f = f x" "with_r (Inl p) f = ([], Some p)"
  by (simp_all add: with_r_def)

lemma println_simps [simp, rust_eval]:
  "println (Inr s) = (line s, None)" "println (Inl p) = ([], Some p)"
  "println_i (Inr i) = (line (dec_int i), None)" "println_i (Inl p) = ([], Some p)"
  "println_b (Inr b) = (line (if b then ''true'' else ''false''), None)"
  by (simp_all add: println_def println_i_def println_b_def)

lemma prints_println [simp, rust_eval]:
  "prints (line s, None) t \<longleftrightarrow> s = t" "prints (u, Some p) t = False"
  by (simp_all add: prints_def line_def)

lemma dec_int_simps [rust_eval]:
  "dec_int (numeral n) = dec_nat (numeral n)" "dec_int 0 = dec_nat 0" "dec_int 1 = dec_nat 1"
  "dec_int (- numeral n) = CHR ''-'' # dec_nat (numeral n)" "dec_int (- 1) = CHR ''-'' # dec_nat 1"
  by (simp_all add: dec_int_def)

lemma dec_int_inj: "dec_int i = dec_int j \<Longrightarrow> i = j"
proof -
  have minus: "CHR ''-'' # u \<noteq> dec_nat n" for u n
  proof
    assume "CHR ''-'' # u = dec_nat n"
    then have "is_digit (CHR ''-'')" by (metis dec_nat_digits list.set_intros(1))
    then show False by (simp add: is_digit_def)
  qed
  assume "dec_int i = dec_int j"
  then show "i = j"
    by (auto simp: dec_int_def minus minus [symmetric] dest!: dec_nat_inj split: if_splits)
qed

end
