(* ===== verification/Rosetta_Basics.thy ===== *)
theory Rosetta_Basics
  imports Sla_Rust
begin

text \<open>
  The reference programs \<open>demos/rosetta/01\<close> to \<open>60\<close>: expressions, control flow, structs,
  enums, iterators and small state.  A name ends in the number of its program.
\<close>

section \<open>Values and control flow (01 to 10)\<close>

definition main_01 :: rust_run where
  "main_01 = println (Val ''hello, saasm'')"

definition main_02 :: rust_run where
  "main_02 = (let x = (10 :: int); before = x; x = 20 in println_i (Val x))"

definition max_03 :: "int \<Rightarrow> int \<Rightarrow> int" where
  "max_03 a b = (if a > b then a else b)"

definition main_03 :: rust_run where
  "main_03 = (let result = max_03 10 20 in println_i (Val result))"

definition fill_zero_04 :: "int list \<Rightarrow> int list rust" where
  "fill_zero_04 arr = for_r [0 ..< 4] arr (\<lambda>arr i. store_r arr i 0)"

definition show_list :: "int list \<Rightarrow> string" where
  "show_list xs = (case xs of [] \<Rightarrow> [] | y # ys \<Rightarrow>
     dec_int y @ concat (map (\<lambda>z. '','' @ dec_int z) ys))"

definition main_04 :: rust_run where
  "main_04 = println (map_r (\<lambda>buffer. ''['' @ show_list buffer @ '']'') (fill_zero_04 [1, 2, 3, 4]))"

record point_05 = x_05 :: int y_05 :: int

definition create_point_05 :: "int \<Rightarrow> int \<Rightarrow> point_05" where
  "create_point_05 x y = \<lparr>x_05 = x, y_05 = y\<rparr>"

definition main_05 :: rust_run where
  "main_05 = (let p = create_point_05 10 20 in
     println (Val (''('' @ dec_int (x_05 p) @ '','' @ dec_int (y_05 p) @ '')'')))"

datatype message_06 = Quit_06 | Move_06 int int

fun process_msg_06 :: "message_06 \<Rightarrow> int rust" where
  "process_msg_06 Quit_06 = Val 0"
| "process_msg_06 (Move_06 x y) = i32_add (Val x) (Val y)"

definition main_06 :: rust_run where
  "main_06 = println_i (process_msg_06 (Move_06 10 20))"

record button_07 = id_07 :: int

text \<open>A \<open>&dyn Draw\<close>: the value with the implementation its vtable names.\<close>

datatype dyn_draw_07 = Draw_button button_07

definition draw_button_07 :: "button_07 \<Rightarrow> int" where
  "draw_button_07 b = id_07 b"

fun render_07 :: "dyn_draw_07 \<Rightarrow> int" where
  "render_07 (Draw_button b) = draw_button_07 b"

definition main_07 :: rust_run where
  "main_07 = (let button = \<lparr>id_07 = 77\<rparr> in println_i (Val (render_07 (Draw_button button))))"

definition main_08 :: rust_run where
  "main_08 = (let offset = 5; add_offset = (\<lambda>x. i32_add x (Val offset)) in
     println_i (add_offset (Val 10)))"

record 'a option_value_10 = is_some_10 :: bool value_10 :: 'a

definition unwrap_or_10 :: "int option_value_10 \<Rightarrow> int \<Rightarrow> int" where
  "unwrap_or_10 opt d = (if is_some_10 opt then value_10 opt else d)"

definition main_10 :: rust_run where
  "main_10 = println_i (Val (unwrap_or_10 \<lparr>is_some_10 = True, value_10 = 42\<rparr> 0))"

section \<open>Tuples, slices, methods, options (11 to 20)\<close>

definition main_11 :: rust_run where
  "main_11 = (let pair = (3, 4) in
     println (Val (''('' @ dec_int (fst pair) @ '', '' @ dec_int (snd pair) @ '')'')))"

definition main_12 :: rust_run where
  "main_12 = (let (x, y) = (2, 5) in println_i (i32_add (Val x) (Val y)))"

definition main_13 :: rust_run where
  "main_13 = println_i (sum_i32 [1, 2, 3, 4])"

text \<open>\<open>values[1..3]\<close>: the slice, a panic when the range leaves the array.\<close>

definition slice_r :: "'a list \<Rightarrow> nat \<Rightarrow> nat \<Rightarrow> 'a list rust" where
  "slice_r xs i j =
     (if i \<le> j \<and> j \<le> length xs then Inr (take (j - i) (drop i xs)) else Inl Index_out_of_bounds)"

definition main_14 :: rust_run where
  "main_14 = println_i (bind_r (slice_r [1, 2, 3, 4] 1 3) sum_i32)"

definition main_15 :: rust_run where
  "main_15 = (let word = ''rust'' in println_i (Val (int (length word))))"

record vec2_16 = x_16 :: int y_16 :: int

definition square_len_16 :: "vec2_16 \<Rightarrow> int rust" where
  "square_len_16 v = i32_add (i32_mul (Val (x_16 v)) (Val (x_16 v)))
                             (i32_mul (Val (y_16 v)) (Val (y_16 v)))"

definition main_16 :: rust_run where
  "main_16 = println_i (square_len_16 \<lparr>x_16 = 3, y_16 = 4\<rparr>)"

record counter_17 = value_17 :: int

definition new_17 :: "int \<Rightarrow> counter_17 rust" where
  "new_17 seed = map_r (\<lambda>v. \<lparr>value_17 = v\<rparr>) (i32_add (Val seed) (Val 2))"

definition main_17 :: rust_run where
  "main_17 = println_i (map_r value_17 (new_17 40))"

definition main_18 :: rust_run where
  "main_18 = println_i (case Some 3 of Some x \<Rightarrow> i32_add (Val x) (Val 5) | None \<Rightarrow> Val 0)"

text \<open>A \<open>Result<i32, i32>\<close> is a sum; the error on the left.\<close>

definition triple_ok_19 :: "int \<Rightarrow> (int + int) rust" where
  "triple_ok_19 x = map_r Inr (i32_mul (Val x) (Val 3))"

definition compute_19 :: "(int + int) rust" where
  "compute_19 = bind_r (triple_ok_19 7) (\<lambda>r. case r of Inl e \<Rightarrow> Val (Inl e) | Inr value \<Rightarrow> Val (Inr value))"

definition unwrap_or_result :: "int \<Rightarrow> int + int \<Rightarrow> int" where
  "unwrap_or_result d r = (case r of Inl e \<Rightarrow> d | Inr v \<Rightarrow> v)"

definition main_19 :: rust_run where
  "main_19 = println_i (map_r (unwrap_or_result (- 1)) compute_19)"

definition main_20 :: rust_run where
  "main_20 = (let value = 9 in println_i (Val value))"

section \<open>Loops and recursion (21 to 25)\<close>

text \<open>\<open>while i <= 5 { sum += i; i += 1; }\<close>\<close>

function while_21 :: "int \<Rightarrow> int \<Rightarrow> int rust" where
  "while_21 i acc =
     (if i \<le> 5 then
        bind_r (i32 (acc + i)) (\<lambda>acc. bind_r (i32 (i + 1)) (\<lambda>_. while_21 (i + 1) acc))
      else Val acc)"
  by pat_completeness auto
termination
  by (relation "measure (\<lambda>(i, acc). nat (6 - i))") auto

definition main_21 :: rust_run where
  "main_21 = println_i (while_21 1 0)"

text \<open>\<open>loop\<close> with \<open>continue\<close> on even and \<open>break\<close> above 5, on \<open>i\<close> and \<open>acc\<close>.\<close>

lemma smod_2_eq_0: "i smod 2 = 0 \<longleftrightarrow> even (i :: int)"
  by (auto simp: signed_modulo_int_def sgn_if dvd_eq_mod_eq_0 zmod_zminus1_eq_if split: if_splits)

function loop_22 :: "int \<Rightarrow> int \<Rightarrow> int rust" where
  "loop_22 i acc =
     bind_r (i32 (i + 1)) (\<lambda>_.
       if (i + 1) smod 2 = 0 then loop_22 (i + 1) acc
       else if i + 1 > 5 then Val acc
       else bind_r (i32 (acc + (i + 1))) (\<lambda>acc. loop_22 (i + 1) acc))"
  by pat_completeness auto
termination
  by (relation "measure (\<lambda>(i, acc). 2 * nat (7 - i) + (if even i then 0 else 1))")
    (auto simp: smod_2_eq_0)

definition main_22 :: rust_run where
  "main_22 = println_i (loop_22 0 0)"

definition main_23 :: rust_run where
  "main_23 = println_i
     (for_r [1, 2] 0 (\<lambda>acc y. for_r [1, 2, 3] acc (\<lambda>acc x.
        i32_add (Val acc) (i32_mul (Val x) (Val y)))))"

function factorial_24 :: "int \<Rightarrow> int rust" where
  "factorial_24 n = (if n \<le> 1 then Val 1 else i32_mul (Val n) (factorial_24 (n - 1)))"
  by pat_completeness auto
termination
  by (relation "measure nat") auto

definition main_24 :: rust_run where
  "main_24 = println_i (factorial_24 5)"

function fib_25 :: "int \<Rightarrow> int rust" where
  "fib_25 n = (if n \<le> 1 then Val n else i32_add (fib_25 (n - 1)) (fib_25 (n - 2)))"
  by pat_completeness auto
termination
  by (relation "measure nat") auto

definition main_25 :: rust_run where
  "main_25 = println_i (fib_25 8)"

declare while_21.simps [simp del] loop_22.simps [simp del] factorial_24.simps [simp del]
  fib_25.simps [simp del]

section \<open>References, data, guards, traits (26 to 40)\<close>

definition choose_left_26 :: "int \<Rightarrow> int \<Rightarrow> int" where
  "choose_left_26 left right = left"

definition main_26 :: rust_run where
  "main_26 = (let left = 9; right = 4; chosen = choose_left_26 left right in println_i (Val chosen))"

record data_27 = value_27 :: int

definition consume_27 :: "data_27 \<Rightarrow> int" where
  "consume_27 d = value_27 d"

definition main_27 :: rust_run where
  "main_27 = println_i (Val (consume_27 \<lparr>value_27 = 11\<rparr>))"

definition read_twice_28 :: "int \<Rightarrow> int rust" where
  "read_twice_28 v = i32_add (Val v) (Val v)"

definition main_28 :: rust_run where
  "main_28 = println_i (read_twice_28 6)"

definition values_29 :: "int list" where
  "values_29 = [1, 2, 3]"

definition main_29 :: rust_run where
  "main_29 = println_i (sum_i32 values_29)"

definition guard_branch_30 :: "int option \<Rightarrow> int" where
  "guard_branch_30 v = (case v of Some x \<Rightarrow> if x > 3 then x else 0 | None \<Rightarrow> - 1)"

definition main_30 :: rust_run where
  "main_30 = println_i (Val (guard_branch_30 (Some 5)))"

record square_31 = side_31 :: int

definition area_31 :: "square_31 \<Rightarrow> int rust" where
  "area_31 s = i32_mul (Val (side_31 s)) (Val (side_31 s))"

text \<open>The bound \<open>T: Area\<close> is the method that the static dispatch selects.\<close>

definition area_of_31 :: "('t \<Rightarrow> int rust) \<Rightarrow> 't \<Rightarrow> int rust" where
  "area_of_31 area v = area v"

definition main_31 :: rust_run where
  "main_31 = println_i (area_of_31 area_31 \<lparr>side_31 = 4\<rparr>)"

datatype dyn_score_32 = Add_one_32 int | Add_two_32 int

fun score_32 :: "dyn_score_32 \<Rightarrow> int rust" where
  "score_32 (Add_one_32 v) = i32_add (Val v) (Val 1)"
| "score_32 (Add_two_32 v) = i32_add (Val v) (Val 2)"

definition main_32 :: rust_run where
  "main_32 = println_i (bind_r (map_all score_32 [Add_one_32 4, Add_two_32 5]) sum_i32)"

definition main_33 :: rust_run where
  "main_33 = println_i (bind_r (map_all (\<lambda>x. i32_mul (Val x) (Val 2)) [1, 2, 3]) sum_i32)"

definition main_34 :: rust_run where
  "main_34 = println_i (sum_i32 (filter (\<lambda>x. x smod 2 = 0) [1, 2, 3, 4, 5]))"

definition main_35 :: rust_run where
  "main_35 = println_i (for_r [''sa'', ''asm'', ''!!''] 0
     (\<lambda>acc item. usize_add (Val acc) (Val (int (length item)))))"

record color_36 = red_36 :: int green_36 :: int blue_36 :: int

definition main_36 :: rust_run where
  "main_36 = (let color = \<lparr>red_36 = 2, green_36 = 4, blue_36 = 8\<rparr> in
     println_i (i32_add (i32_add (Val (as_i32 (red_36 color))) (Val (as_i32 (green_36 color))))
                        (Val (as_i32 (blue_36 color)))))"

record user_id_37 = uid_37 :: int

definition main_37 :: rust_run where
  "main_37 = (let user = \<lparr>uid_37 = 42\<rparr> in println_i (Val (uid_37 user)))"

record 'a wrapper_38 = value_38 :: 'a

definition main_38 :: rust_run where
  "main_38 = println_i (Val (value_38 \<lparr>value_38 = 31\<rparr>))"

datatype 'a maybe_39 = Value_39 'a | Empty_39

fun maybe_value_39 :: "int maybe_39 \<Rightarrow> int" where
  "maybe_value_39 (Value_39 v) = v"
| "maybe_value_39 Empty_39 = 0"

definition main_39 :: rust_run where
  "main_39 = println_i (Val (maybe_value_39 (Value_39 7)))"

record account_40 = balance_40 :: int

definition deposit_40 :: "account_40 \<Rightarrow> int \<Rightarrow> account_40 rust" where
  "deposit_40 a amount =
     map_r (\<lambda>b. a\<lparr>balance_40 := b\<rparr>) (i32_add (Val (balance_40 a)) (Val amount))"

definition main_40 :: rust_run where
  "main_40 = println_i (map_r balance_40 (deposit_40 \<lparr>balance_40 = 10\<rparr> 5))"

section \<open>Modules, unions, configuration (41 to 50)\<close>

definition double_41 :: "int \<Rightarrow> int rust" where
  "double_41 x = i32_mul (Val x) (Val 2)"

definition main_41 :: rust_run where
  "main_41 = println_i (double_41 21)"

definition exported_value_42 :: int where "exported_value_42 = 7"
definition internal_value_42 :: int where "internal_value_42 = 5"

definition main_42 :: rust_run where
  "main_42 = println_i (i32_add (Val exported_value_42) (Val internal_value_42))"

datatype shape_43 = Circle_43 int | Square_43 int

fun area_43 :: "shape_43 \<Rightarrow> int rust" where
  "area_43 (Circle_43 r) = i32_mul (i32_mul (Val r) (Val r)) (Val 3)"
| "area_43 (Square_43 s) = i32_mul (Val s) (Val s)"

definition main_43 :: rust_run where
  "main_43 = println_i (area_43 (Square_43 6))"

definition sum_44 :: "int list \<Rightarrow> int rust" where
  "sum_44 xs = sum_i32 xs"

definition main_44 :: rust_run where
  "main_44 = println_i (sum_44 [1, 2, 3, 4])"

record config_45 = threads_45 :: int level_45 :: int

definition merge_45 :: "config_45 \<Rightarrow> config_45 \<Rightarrow> config_45" where
  "merge_45 base over =
     \<lparr>threads_45 = (if threads_45 over = 0 then threads_45 base else threads_45 over),
      level_45 = (if level_45 over = 0 then level_45 base else level_45 over)\<rparr>"

definition main_45 :: rust_run where
  "main_45 = (let merged = merge_45 \<lparr>threads_45 = 4, level_45 = 1\<rparr> \<lparr>threads_45 = 0, level_45 = 3\<rparr>
     in println (Val (dec_int (threads_45 merged) @ '' '' @ dec_int (level_45 merged))))"

definition unwrap_or_option :: "'a option \<Rightarrow> 'a \<Rightarrow> 'a" where
  "unwrap_or_option opt d = (case opt of Some v \<Rightarrow> v | None \<Rightarrow> d)"

definition choose_46 :: "int option \<Rightarrow> int \<Rightarrow> int" where
  "choose_46 opt fallback = unwrap_or_option opt fallback"

definition main_46 :: rust_run where
  "main_46 = println_i (Val (choose_46 (Some 9) 1))"

definition swap_47 :: "int \<times> int \<Rightarrow> int \<times> int" where
  "swap_47 a = (snd a, fst a)"

definition main_47 :: rust_run where
  "main_47 = (let pair = swap_47 (3, 8) in
     println (Val (dec_int (fst pair) @ '','' @ dec_int (snd pair))))"

definition pair_sum_48 :: "'t \<Rightarrow> 't \<Rightarrow> 't \<times> 't" where
  "pair_sum_48 a b = (a, b)"

definition main_48 :: rust_run where
  "main_48 = (let pair = pair_sum_48 11 31 in
     println (Val (dec_int (fst pair) @ '','' @ dec_int (snd pair))))"

definition main_49 :: rust_run where
  "main_49 = println_i (bind_r (map_all (\<lambda>x. i32_mul (Val x) (Val 2)) [1, 2, 3]) sum_i32)"

definition parse_ok_50 :: "int + int" where
  "parse_ok_50 = Inr 7"

definition unwrap_result :: "'e + 'a \<Rightarrow> 'a rust" where
  "unwrap_result r = (case r of Inl e \<Rightarrow> Inl Unwrap_err | Inr v \<Rightarrow> Inr v)"

definition main_50 :: rust_run where
  "main_50 = println_i (i32_add (unwrap_result parse_ok_50) (Val 5))"

section \<open>Shared data, queues, state machines (51 to 60)\<close>

definition main_51 :: rust_run where
  "main_51 = (let v = 5; clone = v in println_i (i32_add (Val v) (Val clone)))"

text \<open>\<open>VecDeque::rotate_left(k)\<close> panics when \<open>k\<close> exceeds the length.\<close>

definition rotate_left_52 :: "nat \<Rightarrow> 'a list \<Rightarrow> 'a list rust" where
  "rotate_left_52 k q =
     (if k \<le> length q then Inr (drop k q @ take k q) else Inl Assert_failed)"

definition main_52 :: rust_run where
  "main_52 = println (bind_r (rotate_left_52 1 [1, 2, 3]) (\<lambda>queue.
     bind_r (index_r queue 0) (\<lambda>a. bind_r (index_r queue 1) (\<lambda>b. bind_r (index_r queue 2) (\<lambda>c.
       Val (show_list [a, b, c]))))))"

definition main_53 :: rust_run where
  "main_53 = (let cache = Map.empty(''a'' \<mapsto> 3); hit = unwrap_or_option (cache ''a'') 0
     in println_i (Val hit))"

definition main_54 :: rust_run where
  "main_54 = (let data = replicate 4 (0 :: int); data = map (\<lambda>_. 7) data in println (Val (show_list data)))"

record request_55 = method_55 :: string path_55 :: string

record builder_55 = bmethod_55 :: string bpath_55 :: string

definition new_55 :: builder_55 where
  "new_55 = \<lparr>bmethod_55 = ''GET'', bpath_55 = ''/''\<rparr>"

definition set_method_55 :: "builder_55 \<Rightarrow> string \<Rightarrow> builder_55" where
  "set_method_55 b m = b\<lparr>bmethod_55 := m\<rparr>"

definition set_path_55 :: "builder_55 \<Rightarrow> string \<Rightarrow> builder_55" where
  "set_path_55 b p = b\<lparr>bpath_55 := p\<rparr>"

definition build_55 :: "builder_55 \<Rightarrow> request_55" where
  "build_55 b = \<lparr>method_55 = bmethod_55 b, path_55 = bpath_55 b\<rparr>"

definition main_55 :: rust_run where
  "main_55 = (let req = build_55 (set_path_55 (set_method_55 new_55 ''POST'') ''/api'') in
     println (Val (method_55 req @ '' '' @ path_55 req)))"

datatype state_56 = Idle_56 | Running_56 | Done_56

definition main_56 :: rust_run where
  "main_56 = (let state = Done_56 in
     (case state of Idle_56 \<Rightarrow> println (Val ''0'') | Running_56 \<Rightarrow> println (Val ''1'')
      | Done_56 \<Rightarrow> println (Val ''2'')))"

datatype event_57 = Tick_57 int | Reset_57 | Tick_after_reset_57 int

fun step_57 :: "int \<Rightarrow> event_57 \<Rightarrow> int rust" where
  "step_57 acc (Tick_57 v) = i32_add (Val acc) (Val v)"
| "step_57 acc Reset_57 = Val 0"
| "step_57 acc (Tick_after_reset_57 v) = i32_add (Val acc) (Val v)"

definition run_loop_57 :: "event_57 list \<Rightarrow> int rust" where
  "run_loop_57 events = for_r events 0 step_57"

definition main_57 :: rust_run where
  "main_57 = println_i (run_loop_57 [Tick_57 2, Tick_57 3, Reset_57, Tick_after_reset_57 4])"

definition bump_58 :: "int \<Rightarrow> int rust" where
  "bump_58 v = i32_add (Val v) (Val 1)"

definition main_58 :: rust_run where
  "main_58 = println_i (bump_58 9)"

record counter_59 = count_59 :: int

definition inc_59 :: "counter_59 \<Rightarrow> counter_59 rust" where
  "inc_59 c = map_r (\<lambda>v. c\<lparr>count_59 := v\<rparr>) (i32_add (Val (count_59 c)) (Val 1))"

definition main_59 :: rust_run where
  "main_59 = println_i (map_r count_59 (inc_59 \<lparr>count_59 = 3\<rparr>))"

datatype flag_60 = A_60 | B_60

definition main_60 :: rust_run where
  "main_60 = (let flag = B_60; value = (case flag of A_60 \<Rightarrow> 1 | B_60 \<Rightarrow> 2) in println_i (Val value))"

section \<open>Recursion at its width\<close>

fun fib_nat :: "nat \<Rightarrow> nat" where
  "fib_nat 0 = 0"
| "fib_nat (Suc 0) = 1"
| "fib_nat (Suc (Suc n)) = fib_nat (Suc n) + fib_nat n"

lemma fib_nat_mono: "m \<le> n \<Longrightarrow> fib_nat m \<le> fib_nat n"
proof (induction "n - m" arbitrary: n)
  case (Suc k)
  then obtain n' where n: "n = Suc n'" "m \<le> n'" by (cases n) auto
  have "fib_nat n' \<le> fib_nat (Suc n')" by (cases n' rule: fib_nat.cases) simp_all
  with Suc n show ?case by (metis Suc_diff_le diff_Suc_Suc nat.inject order_trans)
qed simp

text \<open>The Fibonacci numbers by a running pair, to evaluate the bound.\<close>

fun fib_pair :: "nat \<Rightarrow> int \<times> int" where
  "fib_pair 0 = (0, 1)"
| "fib_pair (Suc n) = (let (a, b) = fib_pair n in (b, a + b))"

lemma fib_pair_nat: "fib_pair n = (int (fib_nat n), int (fib_nat (Suc n)))"
  by (induction n) simp_all

lemma fib_nat_46: "fib_nat 46 = 1836311903" and fib_nat_47: "fib_nat 47 = 2971215073"
proof -
  have "fib_pair 46 = (1836311903, 2971215073)" by code_simp
  then show "fib_nat 46 = 1836311903" "fib_nat 47 = 2971215073"
    using fib_pair_nat [of 46] by simp_all
qed

lemma fib_25_nat:
  "fib_25 (int n) = (if n \<le> 46 then Val (int (fib_nat n)) else Inl Arith_overflow)"
proof (induction n rule: fib_nat.induct)
  case (3 n)
  have r: "fib_25 (int (Suc (Suc n))) = i32_add (fib_25 (int (Suc n))) (fib_25 (int n))"
    using fib_25.simps [of "2 + int n"] by simp
  consider "Suc (Suc n) \<le> 46" | "Suc (Suc n) = 47" | "47 \<le> Suc n" by linarith
  then show ?case
  proof cases
    case 1
    then have "fib_nat (Suc (Suc n)) \<le> 1836311903"
      using fib_nat_mono [of "Suc (Suc n)" 46] by (simp add: fib_nat_46)
    with 1 show ?thesis unfolding r using 3 by (simp add: is_i32_def)
  next
    case 2
    then have "fib_nat (Suc n) + fib_nat n = 2971215073"
      by (metis fib_nat.simps(3) fib_nat_47)
    with 2 show ?thesis unfolding r using 3 by (simp add: i32_out is_i32_def)
  next
    case 3
    with "3.IH" show ?thesis unfolding r by simp
  qed
qed (simp_all add: fib_25.simps)

text \<open>\<open>fib\<close> computes the Fibonacci numbers as long as they fit.  On an \<open>i32\<close> argument the
  recursion returns the argument below 2, the Fibonacci number up to 46, and panics with an
  arithmetic overflow from 47 on.\<close>

lemma fib_25_correct:
  "fib_25 n = (if n \<le> 1 then Val n else if n \<le> 46 then Val (int (fib_nat (nat n)))
               else Inl Arith_overflow)"
  using fib_25_nat [of "nat n"] by (auto simp: fib_25.simps [of n])

lemma factorial_24_nat:
  "factorial_24 (int n) = (if n \<le> 12 then Val (fact n) else Inl Arith_overflow)"
proof (induction n)
  case (Suc n)
  have r: "factorial_24 (int (Suc n)) =
      (if n = 0 then Val 1 else i32_mul (Val (int (Suc n))) (factorial_24 (int n)))"
    using factorial_24.simps [of "1 + int n"] by simp
  consider "n = 0" | "0 < n" "Suc n \<le> 12" | "n = 12" | "12 < n" by linarith
  then show ?case
  proof cases
    case 2
    have "fact (Suc n) \<le> (fact 12 :: int)" using 2 by (intro fact_mono) simp
    then have "is_i32 (fact (Suc n))"
      by (simp add: is_i32_def fact_numeral order_trans [of _ 0])
    with 2 show ?thesis unfolding r Suc by (simp add: algebra_simps)
  next
    case 3
    then show ?thesis unfolding r Suc by (simp add: fact_numeral i32_out is_i32_def)
  next
    case 1
    then show ?thesis unfolding r by simp
  next
    case 4
    then show ?thesis unfolding r Suc by simp
  qed
qed (simp add: factorial_24.simps)

text \<open>\<open>factorial\<close> returns \<open>n!\<close> exactly for the arguments up to 12, 1 below 2, and panics
  with an arithmetic overflow from 13 on.\<close>

lemma factorial_24_correct:
  "factorial_24 n = (if n \<le> 1 then Val 1 else if n \<le> 12 then Val (fact (nat n))
                     else Inl Arith_overflow)"
  using factorial_24_nat [of "nat n"] by (auto simp: factorial_24.simps [of n])

section \<open>Functions and their contracts\<close>

primrec tick_57 :: "event_57 \<Rightarrow> int" where
  "tick_57 (Tick_57 v) = v"
| "tick_57 Reset_57 = 0"
| "tick_57 (Tick_after_reset_57 v) = v"

lemma for_r_append: "for_r (xs @ ys) s f = bind_r (for_r xs s f) (\<lambda>s'. for_r ys s' f)"
  by (induction xs arbitrary: s) (simp_all add: bind_r_assoc)

lemma for_step_57:
  assumes "Reset_57 \<notin> set ts"
    and "\<forall>k \<le> length ts. is_i32 (a + sum_list (map tick_57 (take k ts)))"
  shows "for_r ts a step_57 = Val (a + sum_list (map tick_57 ts))"
  using assms
proof (induction ts arbitrary: a)
  case (Cons t ts)
  have "is_i32 (a + tick_57 t)" using Cons.prems(2) [rule_format, of 1] by simp
  moreover from this Cons.prems(1) have "step_57 a t = Val (a + tick_57 t)" by (cases t) auto
  moreover have "\<forall>k \<le> length ts. is_i32 (a + tick_57 t + sum_list (map tick_57 (take k ts)))"
    using Cons.prems(2)
    by (metis Suc_le_mono add.assoc length_Cons list.simps(9) sum_list.Cons take_Suc_Cons)
  ultimately show ?case using Cons by (simp add: add.assoc)
qed simp

text \<open>\<open>run_loop\<close> forgets what came before the last reset: as long as no partial sum leaves
  the \<open>i32\<close> range, its result is the sum of the ticks after the last \<open>Reset\<close>.\<close>

lemma run_loop_57_reset:
  assumes "run_loop_57 es = Val a" and "Reset_57 \<notin> set ts"
    and "\<forall>k \<le> length ts. is_i32 (sum_list (map tick_57 (take k ts)))"
  shows "run_loop_57 (es @ Reset_57 # ts) = Val (sum_list (map tick_57 ts))"
  using assms for_step_57 [of ts 0] by (simp add: run_loop_57_def for_r_append)

lemma run_loop_57_reset_witness:
  "run_loop_57 ([Tick_57 2, Tick_57 3] @ Reset_57 # [Tick_after_reset_57 4]) =
    Val (sum_list (map tick_57 [Tick_after_reset_57 4]))"
proof (rule run_loop_57_reset [of _ 5])
  show "\<forall>k \<le> length [Tick_after_reset_57 4]. is_i32 (sum_list (map tick_57 (take k [Tick_after_reset_57 4])))"
    by (simp add: le_Suc_eq is_i32_def)
qed (simp_all add: run_loop_57_def is_i32_def)

text \<open>The reference programs 01 to 60 (09 apart) run without a panic and print these
  lines.\<close>

lemma basics_print:
  "list_all (\<lambda>(program, out). prints program out)
    [(main_01, ''hello, saasm''), (main_02, ''20''), (main_03, ''20''),
    (main_04, ''[0,0,0,0]''), (main_05, ''(10,20)''), (main_06, ''30''), (main_07, ''77''),
    (main_08, ''15''), (main_10, ''42''), (main_11, ''(3, 4)''), (main_12, ''7''),
    (main_13, ''10''), (main_14, ''5''), (main_15, ''4''), (main_16, ''25''),
    (main_17, ''42''), (main_18, ''8''), (main_19, ''21''), (main_20, ''9''),
    (main_21, ''15''), (main_22, ''9''), (main_23, ''18''), (main_24, ''120''),
    (main_25, ''21''), (main_26, ''9''), (main_27, ''11''), (main_28, ''12''),
    (main_29, ''6''), (main_30, ''5''), (main_31, ''16''), (main_32, ''12''),
    (main_33, ''12''), (main_34, ''6''), (main_35, ''7''), (main_36, ''14''),
    (main_37, ''42''), (main_38, ''31''), (main_39, ''7''), (main_40, ''15''),
    (main_41, ''42''), (main_42, ''12''), (main_43, ''36''), (main_44, ''10''),
    (main_45, ''4 3''), (main_46, ''9''), (main_47, ''8,3''), (main_48, ''11,31''),
    (main_49, ''12''), (main_50, ''12''), (main_51, ''10''), (main_52, ''2,3,1''),
    (main_53, ''3''), (main_54, ''7,7,7,7''), (main_55, ''POST /api''), (main_56, ''2''),
    (main_57, ''4''), (main_58, ''10''), (main_59, ''4''), (main_60, ''2'')]"
  by code_simp

end
