(* ===== verification/Rosetta_Services.thy ===== *)
theory Rosetta_Services
  imports Rosetta_Basics
begin

text \<open>
  The reference programs \<open>demos/rosetta/63\<close> to \<open>100\<close>: routers, queues, schedulers, caches,
  gates and dispatch tables.  (61 and 62 use threads and are in \<open>Rosetta_Concurrency\<close>.)
\<close>

section \<open>Tables, jobs, pools (63 to 74)\<close>

text \<open>\<open>map[key]\<close> panics when the key is absent.\<close>

definition lookup_r :: "('k \<rightharpoonup> 'v) \<Rightarrow> 'k \<Rightarrow> 'v rust" where
  "lookup_r m k = (case m k of Some v \<Rightarrow> Inr v | None \<Rightarrow> Inl Unwrap_none)"

definition main_63 :: rust_run where
  "main_63 = (let router = Map.empty(''/home'' \<mapsto> 1, ''/api'' \<mapsto> 2) in
     println_i (lookup_r router ''/api''))"

definition main_64 :: rust_run where
  "main_64 = (let files = [''main.rs'', ''main.sa'', ''README.md''] in
     println_i (Val (int (length files))))"

record job_65 = ready_65 :: bool cost_65 :: int

definition scheduled_cost_65 :: "job_65 list \<Rightarrow> int rust" where
  "scheduled_cost_65 jobs = for_r jobs 0 (\<lambda>done_cost job.
     if ready_65 job then i32_add (Val done_cost) (Val (cost_65 job)) else Val done_cost)"

definition main_65 :: rust_run where
  "main_65 = println_i (scheduled_cost_65
     [\<lparr>ready_65 = True, cost_65 = 1\<rparr>, \<lparr>ready_65 = False, cost_65 = 2\<rparr>,
      \<lparr>ready_65 = True, cost_65 = 3\<rparr>, \<lparr>ready_65 = True, cost_65 = 4\<rparr>])"

record message_66 = actor_66 :: int payload_66 :: int

definition mailbox_score_66 :: "message_66 list \<Rightarrow> int rust" where
  "mailbox_score_66 inbox = for_r inbox 0 (\<lambda>acc message.
     i32_add (Val acc) (i32_add (Val (actor_66 message)) (Val (payload_66 message))))"

definition main_66 :: rust_run where
  "main_66 = println_i (mailbox_score_66
     [\<lparr>actor_66 = 1, payload_66 = 2\<rparr>, \<lparr>actor_66 = 2, payload_66 = 3\<rparr>])"

record resource_67 = rid_67 :: int busy_67 :: bool

text \<open>The argument is an array of three.\<close>

definition available_id_67 :: "resource_67 list \<Rightarrow> int rust" where
  "available_id_67 pool =
     bind_r (index_r pool 0) (\<lambda>r0. if \<not> busy_67 r0 then Val (rid_67 r0)
       else bind_r (index_r pool 1) (\<lambda>r1. if \<not> busy_67 r1 then Val (rid_67 r1)
         else bind_r (index_r pool 2) (\<lambda>r2. Val (rid_67 r2))))"

definition main_67 :: rust_run where
  "main_67 = println_i (available_id_67
     [\<lparr>rid_67 = 10, busy_67 = True\<rparr>, \<lparr>rid_67 = 20, busy_67 = False\<rparr>,
      \<lparr>rid_67 = 30, busy_67 = True\<rparr>])"

definition token_score_68 :: "string list \<Rightarrow> int rust" where
  "token_score_68 tokens = for_r tokens 0 (\<lambda>score token.
     i32_add (Val score)
       (Val (if token = ''let'' then 10 else if token = ''='' then 3
             else as_i32 (int (length token)))))"

definition main_68 :: rust_run where
  "main_68 = println_i (token_score_68 [''let'', ''x'', ''='', ''1''])"

definition main_69 :: rust_run where
  "main_69 = (let json = [CHR 0x7B, CHR 0x22] @ ''id'' @ [CHR 0x22] @ '':'' @ dec_int 7 @ [CHR 0x7D]
     in println (Val json))"

record service_snapshot_70 =
  users_ok_70 :: bool
  orders_ok_70 :: bool
  users_70 :: int
  orders_70 :: int

definition integrated_total_70 :: "service_snapshot_70 \<Rightarrow> int rust" where
  "integrated_total_70 s =
     (if \<not> users_ok_70 s then Val (- 1)
      else if \<not> orders_ok_70 s then Val (- 2)
      else i32_add (Val (users_70 s)) (Val (orders_70 s)))"

definition main_70 :: rust_run where
  "main_70 = println_i (integrated_total_70
     \<lparr>users_ok_70 = True, orders_ok_70 = True, users_70 = 2, orders_70 = 4\<rparr>)"

record stage_input_71 = raw_71 :: int scale_71 :: int offset_71 :: int

definition pipeline_stage_value_71 :: "stage_input_71 \<Rightarrow> int rust" where
  "pipeline_stage_value_71 input =
     bind_r (i32_mul (Val (raw_71 input)) (Val (scale_71 input))) (\<lambda>stage1.
     bind_r (i32_add (Val stage1) (Val (offset_71 input))) (\<lambda>stage2. Val stage2))"

definition main_71 :: rust_run where
  "main_71 = println_i (pipeline_stage_value_71 \<lparr>raw_71 = 2, scale_71 = 3, offset_71 = 1\<rparr>)"

record edge_72 = from_72 :: int to_72 :: int weight_72 :: int

definition walk_cost_72 :: "edge_72 list \<Rightarrow> int rust" where
  "walk_cost_72 graph =
     i32_add (i32_add (i32_add (i32_add
       (map_r from_72 (index_r graph 0)) (map_r to_72 (index_r graph 0)))
       (map_r weight_72 (index_r graph 0))) (map_r to_72 (index_r graph 1)))
       (map_r weight_72 (index_r graph 1))"

definition main_72 :: rust_run where
  "main_72 = println_i (walk_cost_72
     [\<lparr>from_72 = 0, to_72 = 1, weight_72 = 3\<rparr>, \<lparr>from_72 = 1, to_72 = 2, weight_72 = 5\<rparr>])"

record scene_node_73 = visible_73 :: bool sweight_73 :: int

definition visible_weight_73 :: "scene_node_73 list \<Rightarrow> int rust" where
  "visible_weight_73 nodes = for_r nodes 0 (\<lambda>acc node.
     if visible_73 node then i32_add (Val acc) (Val (sweight_73 node)) else Val acc)"

definition main_73 :: rust_run where
  "main_73 = println_i (visible_weight_73
     [\<lparr>visible_73 = True, sweight_73 = 4\<rparr>, \<lparr>visible_73 = False, sweight_73 = 5\<rparr>,
      \<lparr>visible_73 = True, sweight_73 = 6\<rparr>])"

record position_74 = entity_74 :: int x_74 :: int y_74 :: int

definition component_sum_74 :: "position_74 list \<Rightarrow> int rust" where
  "component_sum_74 store =
     i32_add (i32_add (map_r entity_74 (index_r store 1)) (map_r x_74 (index_r store 1)))
             (map_r y_74 (index_r store 1))"

definition main_74 :: rust_run where
  "main_74 = println_i (component_sum_74
     [\<lparr>entity_74 = 1, x_74 = 1, y_74 = 2\<rparr>, \<lparr>entity_74 = 2, x_74 = 3, y_74 = 4\<rparr>])"

section \<open>Routes, metrics, scans, chunks (75 to 88)\<close>

definition compute_75 :: "int rust" where
  "compute_75 = (let left = 2; right = 3 in i32_add (Val left) (Val right))"

definition main_75 :: rust_run where
  "main_75 = (let v = 5 in println_i (Val v))"

text \<open>\<open>fetch_add\<close> wraps.\<close>

definition main_76 :: rust_run where
  "main_76 = (let counter = 1; counter = as_i32 (counter + 2) in println_i (Val counter))"

record request_77 = method_77 :: string path_77 :: string

definition route_status_77 :: "request_77 \<Rightarrow> int" where
  "route_status_77 req =
     (let route = (method_77 req, path_77 req) in
      if route = (''GET'', ''/health'') then 200
      else if route = (''POST'', ''/jobs'') then 202
      else 404)"

definition main_77 :: rust_run where
  "main_77 = println_i (Val (route_status_77 \<lparr>method_77 = ''POST'', path_77 = ''/jobs''\<rparr>))"

record cli_command_78 = command_78 :: string release_78 :: bool

definition exit_code_78 :: "cli_command_78 \<Rightarrow> int" where
  "exit_code_78 cmd = (if command_78 cmd = ''build'' \<and> release_78 cmd then 0 else 2)"

definition main_78 :: rust_run where
  "main_78 = println_i (Val (exit_code_78 \<lparr>command_78 = ''build'', release_78 = True\<rparr>))"

definition success_per_thousand_79 :: "int \<Rightarrow> int \<Rightarrow> int rust" where
  "success_per_thousand_79 ok failed =
     i32_div (i32_mul (Val ok) (Val 1000)) (i32_add (Val ok) (Val failed))"

definition main_79 :: rust_run where
  "main_79 = println_i (success_per_thousand_79 95 5)"

record workflow_state_80 = lint_ok_80 :: bool tests_ok_80 :: bool package_ok_80 :: bool

definition completed_steps_80 :: "workflow_state_80 \<Rightarrow> int rust" where
  "completed_steps_80 s =
     i32_add (i32_add (Val (bool_i32 (lint_ok_80 s))) (Val (bool_i32 (tests_ok_80 s))))
             (Val (bool_i32 (package_ok_80 s)))"

definition main_80 :: rust_run where
  "main_80 = println_i (completed_steps_80
     \<lparr>lint_ok_80 = True, tests_ok_80 = True, package_ok_80 = False\<rparr>)"

definition main_81 :: rust_run where
  "main_81 = (let kv = Map.empty(''alpha'' \<mapsto> 5) in println_i (lookup_r kv ''alpha''))"

record row_82 = active_82 :: bool age_82 :: int

definition qualifies_82 :: "row_82 \<Rightarrow> bool" where
  "qualifies_82 row \<longleftrightarrow> active_82 row \<and> age_82 row \<ge> 18"

definition main_82 :: rust_run where
  "main_82 = (let rows = [\<lparr>active_82 = True, age_82 = 21\<rparr>, \<lparr>active_82 = False, age_82 = 40\<rparr>,
                          \<lparr>active_82 = True, age_82 = 17\<rparr>]
     in println_i (sum_i32 (map age_82 (filter qualifies_82 rows))))"

record blob_range_83 = bytes_83 :: int chunk_size_83 :: int

definition chunk_layout_83 :: "blob_range_83 \<Rightarrow> int rust" where
  "chunk_layout_83 blob =
     bind_r (i32_div (i32_sub (i32_add (Val (bytes_83 blob)) (Val (chunk_size_83 blob))) (Val 1))
                     (Val (chunk_size_83 blob))) (\<lambda>chunks.
     bind_r (i32_rem (Val (bytes_83 blob)) (Val (chunk_size_83 blob))) (\<lambda>tail.
       i32_add (i32_mul (Val chunks) (Val 10)) (Val tail)))"

definition main_83 :: rust_run where
  "main_83 = println_i (chunk_layout_83 \<lparr>bytes_83 = 10, chunk_size_83 = 4\<rparr>)"

record gate_state_84 = arrived_84 :: int required_84 :: int drained_84 :: bool

definition gate_code_84 :: "gate_state_84 \<Rightarrow> int" where
  "gate_code_84 s =
     (if arrived_84 s < required_84 s then 0 else if drained_84 s then 2 else 1)"

definition main_84 :: rust_run where
  "main_84 = println_i (Val (gate_code_84 \<lparr>arrived_84 = 3, required_84 = 3, drained_84 = False\<rparr>))"

definition max_i32_85 :: "int \<Rightarrow> int \<Rightarrow> int" where
  "max_i32_85 left right = (if left > right then left else right)"

definition critical_path_85 :: "int \<Rightarrow> int \<Rightarrow> int \<Rightarrow> int rust" where
  "critical_path_85 root left right = i32_add (Val root) (Val (max_i32_85 left right))"

definition main_85 :: rust_run where
  "main_85 = println_i (critical_path_85 4 7 3)"

record cache_entry_86 = key_86 :: int last_used_86 :: int

definition evict_key_86 :: "cache_entry_86 \<Rightarrow> cache_entry_86 \<Rightarrow> cache_entry_86 \<Rightarrow> int" where
  "evict_key_86 a b c =
     (let older_ab = (if last_used_86 a < last_used_86 b then a else b) in
      if last_used_86 older_ab < last_used_86 c then key_86 older_ab else key_86 c)"

definition main_86 :: rust_run where
  "main_86 = println_i (Val (evict_key_86 \<lparr>key_86 = 10, last_used_86 = 4\<rparr>
     \<lparr>key_86 = 20, last_used_86 = 9\<rparr> \<lparr>key_86 = 30, last_used_86 = 1\<rparr>))"

definition frame_valid_87 :: "int \<Rightarrow> int \<Rightarrow> int \<Rightarrow> bool rust" where
  "frame_valid_87 kind len checksum =
     (if kind = 1 then map_r (\<lambda>s. checksum = s) (u8_add (Val kind) (Val len)) else Val False)"

definition main_87 :: rust_run where
  "main_87 = println_b (frame_valid_87 1 4 5)"

definition postings_for_88 :: "string \<Rightarrow> int" where
  "postings_for_88 term = (if term = ''rust'' then 2 else if term = ''sla'' then 3 else 0)"

definition main_88 :: rust_run where
  "main_88 = println_i (Val (postings_for_88 ''sla''))"

section \<open>Queues, sessions, plans, applications (89 to 100)\<close>

record job_89 = jid_89 :: int jcost_89 :: int

text \<open>\<open>VecDeque\<close>: \<open>push_back\<close> and \<open>pop_front\<close>.\<close>

definition push_back :: "'a list \<Rightarrow> 'a \<Rightarrow> 'a list" where
  "push_back q x = q @ [x]"

fun pop_front :: "'a list \<Rightarrow> 'a option \<times> 'a list" where
  "pop_front [] = (None, [])"
| "pop_front (x # q) = (Some x, q)"

definition unwrap_option :: "'a option \<Rightarrow> 'a rust" where
  "unwrap_option opt = (case opt of Some v \<Rightarrow> Inr v | None \<Rightarrow> Inl Unwrap_none)"

definition main_89 :: rust_run where
  "main_89 =
     (let queue = push_back (push_back [] \<lparr>jid_89 = 7, jcost_89 = 3\<rparr>) \<lparr>jid_89 = 9, jcost_89 = 5\<rparr> in
      println_i (bind_r (unwrap_option (fst (pop_front queue))) (\<lambda>j.
        i32_add (Val (jid_89 j)) (Val (jcost_89 j)))))"

definition dispatch_90 :: "string \<Rightarrow> bool \<Rightarrow> int" where
  "dispatch_90 command config_loaded =
     (if (command, config_loaded) = (''sync'', True) then 0
      else if (command, config_loaded) = (''status'', True) then 1
      else 64)"

definition main_90 :: rust_run where
  "main_90 = println_i (Val (dispatch_90 ''sync'' True))"

record session_91 = connected_91 :: bool transaction_open_91 :: bool

definition can_commit_91 :: "session_91 \<Rightarrow> bool" where
  "can_commit_91 s \<longleftrightarrow> connected_91 s \<and> transaction_open_91 s"

definition main_91 :: rust_run where
  "main_91 = println_b (Val (can_commit_91 \<lparr>connected_91 = True, transaction_open_91 = True\<rparr>))"

record query_plan_92 = table_scan_rows_92 :: int index_rows_92 :: int filter_cost_92 :: int

definition chosen_cost_92 :: "query_plan_92 \<Rightarrow> int rust" where
  "chosen_cost_92 plan =
     (let table_cost = table_scan_rows_92 plan in
      map_r (\<lambda>index_cost. min table_cost index_cost)
        (i32_add (Val (index_rows_92 plan)) (Val (filter_cost_92 plan))))"

definition main_92 :: rust_run where
  "main_92 = println_i (chosen_cost_92
     \<lparr>table_scan_rows_92 = 120, index_rows_92 = 18, filter_cost_92 = 7\<rparr>)"

definition severity_score_93 :: "int \<Rightarrow> int \<Rightarrow> int \<Rightarrow> int \<Rightarrow> int rust" where
  "severity_score_93 info warn err dropped =
     i32_sub (i32_add (i32_add (Val info) (i32_mul (Val warn) (Val 10)))
                      (i32_mul (Val err) (Val 100))) (Val dropped)"

definition main_93 :: rust_run where
  "main_93 = println_i (severity_score_93 4 2 1 3)"

definition resolver_id_94 :: "string \<Rightarrow> string \<Rightarrow> bool \<Rightarrow> int" where
  "resolver_id_94 operation field nested =
     (let key = (operation, field, nested) in
      if key = (''query'', ''user'', False) then 11
      else if key = (''query'', ''user'', True) then 12
      else if key = (''mutation'', ''createUser'', False) then 21
      else 0)"

definition main_94 :: rust_run where
  "main_94 = println_i (Val (resolver_id_94 ''query'' ''user'' False))"

definition eval_line_95 :: "string \<Rightarrow> int" where
  "eval_line_95 s = (if s = '':quit'' then 0 else if s = '':mode'' then 3
                     else if s = ''help'' then 1 else 2)"

definition main_95 :: rust_run where
  "main_95 = println_i (Val (eval_line_95 '':mode''))"

record task_96 = deps_done_96 :: bool priority_96 :: int retries_96 :: int cooldown_96 :: bool

definition ready_score_96 :: "task_96 \<Rightarrow> int rust" where
  "ready_score_96 t =
     (if deps_done_96 t then
        (if cooldown_96 t then Val 0 else i32_sub (Val (priority_96 t)) (Val (retries_96 t)))
      else Val 0)"

definition main_96 :: rust_run where
  "main_96 = println_i (ready_score_96
     \<lparr>deps_done_96 = True, priority_96 = 7, retries_96 = 2, cooldown_96 = False\<rparr>)"

definition sync_needed_97 :: "int \<Rightarrow> int \<Rightarrow> bool \<Rightarrow> bool \<Rightarrow> bool" where
  "sync_needed_97 local_version remote_version dirty offline =
     (if offline then False else dirty \<or> local_version < remote_version)"

definition main_97 :: rust_run where
  "main_97 = println_b (Val (sync_needed_97 7 9 False False))"

definition artifact_count_98 :: "bool \<Rightarrow> bool \<Rightarrow> bool \<Rightarrow> bool \<Rightarrow> int rust" where
  "artifact_count_98 compiled tests_passed docs_built packaged =
     (if compiled \<and> tests_passed \<and> packaged then i32_add (Val 1) (Val (bool_i32 docs_built))
      else Val 0)"

definition main_98 :: rust_run where
  "main_98 = println_i (artifact_count_98 True True True True)"

record bundle_manifest_99 =
  binary_99 :: bool
  config_99 :: bool
  checksums_99 :: bool
  signatures_99 :: bool

definition release_ready_99 :: "bundle_manifest_99 \<Rightarrow> bool" where
  "release_ready_99 m \<longleftrightarrow> binary_99 m \<and> config_99 m \<and> checksums_99 m \<and> signatures_99 m"

definition main_99 :: rust_run where
  "main_99 = println_b (Val (release_ready_99
     \<lparr>binary_99 = True, config_99 = True, checksums_99 = True, signatures_99 = True\<rparr>))"

record app_request_100 =
  authenticated_100 :: bool
  route_ok_100 :: bool
  db_ready_100 :: bool
  rate_limited_100 :: bool

definition handle_request_100 :: "app_request_100 \<Rightarrow> int" where
  "handle_request_100 req =
     (if \<not> authenticated_100 req then 401
      else if \<not> route_ok_100 req then 404
      else if \<not> db_ready_100 req then 503
      else if rate_limited_100 req then 429
      else 200)"

definition main_100 :: rust_run where
  "main_100 = println_i (Val (handle_request_100
     \<lparr>authenticated_100 = True, route_ok_100 = True, db_ready_100 = True, rate_limited_100 = False\<rparr>))"

section \<open>What the services promise\<close>

lemma sdiv_nonneg: "0 \<le> a \<Longrightarrow> 0 < b \<Longrightarrow> a sdiv b = a div (b :: int)"
  by (cases "a = 0") (simp_all add: signed_divide_int_def)

lemma div_bounds: "0 < c \<Longrightarrow> (m div c) * c \<le> m \<and> m < (m div c) * c + (c :: int)"
  using div_mult_mod_eq [of m c] pos_mod_bound [of c m] pos_mod_sign [of c m] by linarith

lemma smod_nonneg: "0 \<le> a \<Longrightarrow> 0 < b \<Longrightarrow> a smod b = a mod (b :: int)"
  by (cases "a = 0") (simp_all add: signed_modulo_int_def)

text \<open>\<open>chunk_layout\<close> counts the chunks of a blob.  On a size and a positive chunk size
  whose sum fits an \<open>i32\<close> the result is ten times the least number of chunks that hold the blob
  plus the bytes of the last, partial chunk, or an overflow panic when that leaves the range; a
  chunk size of 0 panics with a division by zero.\<close>

lemma chunk_layout_83_correct:
  assumes "0 \<le> n" and "is_i32 n" and "0 \<le> c" and "is_i32 (n + c)"
  shows "if c = 0 then chunk_layout_83 \<lparr>bytes_83 = n, chunk_size_83 = c\<rparr> = Inl Div_by_zero
    else \<exists>k. k * c < n + c \<and> n \<le> k * c \<and>
      chunk_layout_83 \<lparr>bytes_83 = n, chunk_size_83 = c\<rparr> = i32 (k * 10 + n mod c)"
proof (cases "c = 0")
  case True
  then show ?thesis using assms by (simp add: chunk_layout_83_def is_i32_def)
next
  case False
  then have c: "0 < c" using assms by simp
  define k where "k = (n + c - 1) div c"
  have m: "0 \<le> n + c - 1" using c assms(1) by simp
  have k: "k * c \<le> n + c - 1" "n + c - 1 < k * c + c" "0 \<le> k"
    using c m div_bounds [OF c, of "n + c - 1"] unfolding k_def
    by (simp_all add: pos_imp_zdiv_nonneg_iff)
  have "k * 1 \<le> k * c" using k c by (intro mult_left_mono) simp_all
  then have "k \<le> n + c - 1" using k by simp
  note k = k this
  have quot: "i32 ((n + c - 1) sdiv c) = Val k"
    using k assms m c by (simp add: sdiv_nonneg k_def [symmetric] is_i32_def)
  have tail: "n smod c = n mod c" using assms c by (simp add: smod_nonneg)
  have "i32_add (i32_mul (Val k) (Val 10)) (Val (n mod c)) = i32 (k * 10 + n mod c)"
    using k(3) pos_mod_sign [OF c, of n]
    by (cases "is_i32 (k * 10)") (simp_all add: i32_out is_i32_def)
  moreover have "is_i32 (n + c - 1)" using assms c by (simp add: is_i32_def)
  ultimately have "chunk_layout_83 \<lparr>bytes_83 = n, chunk_size_83 = c\<rparr> = i32 (k * 10 + n mod c)"
    using assms c by (simp add: chunk_layout_83_def quot tail)
  with False k show ?thesis by (intro if_not_P [THEN iffD2]) auto
qed

lemma chunk_layout_83_correct_witness:
  "\<exists>k. k * 4 < 10 + (4 :: int) \<and> 10 \<le> k * 4 \<and>
    chunk_layout_83 \<lparr>bytes_83 = 10, chunk_size_83 = 4\<rparr> = i32 (k * 10 + 10 mod 4)"
  using chunk_layout_83_correct [of 10 4] by (simp add: is_i32_def)

text \<open>\<open>evict_key\<close> evicts the least recently used entry, the last one of those that are
  equally old.\<close>

lemma evict_key_86_lru:
  "evict_key_86 a b c =
     key_86 (last (filter (\<lambda>e. last_used_86 e = Min (set (map last_used_86 [a, b, c]))) [a, b, c]))"
  by (simp add: evict_key_86_def Let_def)

lemma for_r_filter_sum:
  "for_r xs s (\<lambda>s x. if p x then i32_add (Val s) (Val (f x)) else Val s) =
    foldl (\<lambda>acc x. i32_add acc (Val x)) (Val s) (map f (filter p xs))"
proof (induction xs arbitrary: s)
  case (Cons x xs)
  then show ?case
    by (cases "i32 (s + f x)") (simp_all add: foldl_panic)
qed simp

text \<open>The accumulating loops are the iterator pipelines.  On every input, the panics on
  overflow included, the job loop, the scene loop and the frame counter compute the checked sum of
  the selected elements in order.\<close>

lemma guarded_sums:
  "scheduled_cost_65 jobs = sum_i32 (map cost_65 (filter ready_65 jobs)) \<and>
   visible_weight_73 nodes = sum_i32 (map sweight_73 (filter visible_73 nodes))"
  by (simp add: scheduled_cost_65_def visible_weight_73_def sum_i32_def for_r_filter_sum)

text \<open>The success rate is a per-mille value.  For counts that are not negative, whose sum
  is positive and whose scaled success count fits an \<open>i32\<close>, the result lies between 0 and 1000,
  and is 1000 exactly when nothing failed; without any request the division panics.\<close>

lemma success_per_thousand_79_bounds:
  assumes "0 \<le> ok" and "0 \<le> failed" and "is_i32 (ok * 1000)" and "is_i32 (ok + failed)"
  shows "if ok + failed = 0 then success_per_thousand_79 ok failed = Inl Div_by_zero
    else \<exists>r. success_per_thousand_79 ok failed = Val r \<and> 0 \<le> r \<and> r \<le> 1000 \<and>
      (r = 1000 \<longleftrightarrow> failed = 0)"
proof (cases "ok + failed = 0")
  case True
  with assms show ?thesis by (simp add: success_per_thousand_79_def)
next
  case False
  then have pos: "0 < ok + failed" using assms by simp
  define r where "r = ok * 1000 div (ok + failed)"
  have r: "0 \<le> r" using assms pos by (simp add: r_def pos_imp_zdiv_nonneg_iff)
  have bd: "r * (ok + failed) \<le> ok * 1000" "ok * 1000 < r * (ok + failed) + (ok + failed)"
    using div_bounds [OF pos, of "ok * 1000"] by (simp_all add: r_def)
  have r1: "r \<le> 1000"
  proof (rule ccontr)
    assume "\<not> r \<le> 1000"
    then have "1001 * (ok + failed) \<le> r * (ok + failed)" using pos by (intro mult_right_mono) simp_all
    with bd(1) assms pos show False by simp
  qed
  have "r = 1000 \<longleftrightarrow> failed = 0"
  proof
    assume "r = 1000"
    with bd(1) assms show "failed = 0" by simp
  next
    assume "failed = 0"
    with pos show "r = 1000" by (simp add: r_def)
  qed
  moreover have "success_per_thousand_79 ok failed = Val r"
    using assms pos r r1
    by (simp add: success_per_thousand_79_def sdiv_nonneg r_def [symmetric] is_i32_def)
  ultimately show ?thesis using False r r1 by (simp only: if_False) blast
qed

lemma success_per_thousand_79_bounds_witness:
  "\<exists>r. success_per_thousand_79 95 5 = Val r \<and> 0 \<le> r \<and> r \<le> 1000 \<and> r \<noteq> 1000"
  using success_per_thousand_79_bounds [of 95 5] by (auto simp: is_i32_def)

text \<open>The reference programs 63 to 100 (69 apart, which prints JSON) run without a panic
  and print these lines.\<close>

lemma services_print:
  "list_all (\<lambda>(program, out). prints program out)
    [(main_63, ''2''), (main_64, ''3''), (main_65, ''8''), (main_66, ''8''), (main_67, ''20''),
    (main_68, ''15''), (main_70, ''6''), (main_71, ''7''), (main_72, ''11''),
    (main_73, ''10''), (main_74, ''9''), (main_75, ''5''), (main_76, ''3''),
    (main_77, ''202''), (main_78, ''0''), (main_79, ''950''), (main_80, ''2''),
    (main_81, ''5''), (main_82, ''21''), (main_83, ''32''), (main_84, ''1''),
    (main_85, ''11''), (main_86, ''30''), (main_87, ''true''), (main_88, ''3''),
    (main_89, ''10''), (main_90, ''0''), (main_91, ''true''), (main_92, ''25''),
    (main_93, ''121''), (main_94, ''11''), (main_95, ''3''), (main_96, ''5''),
    (main_97, ''true''), (main_98, ''2''), (main_99, ''true''), (main_100, ''200'')]"
  by code_simp

end
