(* ===== verification/Rosetta_Concurrency.thy ===== *)
theory Rosetta_Concurrency
  imports Rosetta_Services Sla_Systems "HOL-Library.Multiset"
begin

text \<open>
  The reference programs of \<open>demos/rosetta\<close> with threads, locks, channels and futures (09, 61, 62,
  121 to 136, 140).  Where the interleaving matters the program is a step relation on the state of
  its threads, and what it prints is the value in the final state of every run; where the threads
  are joined before anything else runs, it is a function.
\<close>

section \<open>Futures (09, 133 to 136, 140)\<close>

datatype 'a poll = Ready 'a | Pending

text \<open>\<open>block_on\<close>: poll until the future is ready.  A future is a state with its \<open>poll\<close>.\<close>

partial_function (option) block_on_09 :: "('s \<Rightarrow> 's \<times> 'a poll) \<Rightarrow> 's \<Rightarrow> 'a option" where
  "block_on_09 poll_future s =
     (case poll_future s of (s', Ready v) \<Rightarrow> Some v | (s', Pending) \<Rightarrow> block_on_09 poll_future s')"

text \<open>\<open>step_one_after_delay\<close> on the two readings of the system clock.\<close>

definition step_one_after_delay_09 :: "nat \<Rightarrow> nat \<Rightarrow> int rust" where
  "step_one_after_delay_09 unix_before unix_after =
     (if unix_after \<ge> unix_before then Val 1 else Inl Assert_failed)"

text \<open>\<open>run\<close>, with the time elapsed in milliseconds; the awaited future is ready at once.\<close>

definition run_09 :: "nat \<Rightarrow> nat \<Rightarrow> nat \<Rightarrow> int rust" where
  "run_09 unix_before unix_after elapsed =
     bind_r (step_one_after_delay_09 unix_before unix_after) (\<lambda>v.
       if elapsed \<ge> 1 then i32_add (Val v) (Val 1) else Inl Assert_failed)"

definition main_09 :: "nat \<Rightarrow> nat \<Rightarrow> nat \<Rightarrow> rust_run option" where
  "main_09 unix_before unix_after elapsed =
     map_option println_i (block_on_09 (\<lambda>s. (s, Ready (run_09 unix_before unix_after elapsed))) ())"

text \<open>\<open>select!\<close> with \<open>biased\<close>: the first branch that is ready, in order.\<close>

fun select_biased :: "'a poll list \<Rightarrow> 'a option" where
  "select_biased [] = None"
| "select_biased (Ready v # bs) = Some v"
| "select_biased (Pending # bs) = select_biased bs"

definition branch_a_133 :: "int poll" where "branch_a_133 = Ready 11"
definition branch_b_133 :: "int poll" where "branch_b_133 = Ready 22"
definition branch_c_133 :: "int poll" where "branch_c_133 = Ready 33"

definition main_133 :: rust_run where
  "main_133 = (case select_biased [branch_a_133, branch_b_133, branch_c_133] of
     Some winner \<Rightarrow> println_i (Val winner) | None \<Rightarrow> ([], None))"

definition job_a_134 :: "int rust" where "job_a_134 = Val 1"
definition job_b_134 :: "int rust" where "job_b_134 = Val 2"
definition job_c_134 :: "int rust" where "job_c_134 = Val 3"

definition main_134 :: rust_run where
  "main_134 = (let a = job_a_134; b = job_b_134; c = job_c_134 in println_i (i32_add (i32_add a b) c))"

text \<open>\<open>while let Some(value) = stream.next().await\<close>.\<close>

fun drain_135 :: "int list \<Rightarrow> int \<Rightarrow> int rust" where
  "drain_135 [] tot = Val tot"
| "drain_135 (v # stream) tot = bind_r (i32_add (Val tot) (Val v)) (drain_135 stream)"

definition numbers_135 :: "int list" where "numbers_135 = [1, 2, 3]"

definition main_135 :: rust_run where
  "main_135 = println_i (drain_135 numbers_135 0)"

text \<open>The executor pops the newest task of the vector until it is empty.\<close>

function run_queue_136 :: "int rust list \<Rightarrow> int \<Rightarrow> int rust" where
  "run_queue_136 queue tot =
     (if queue = [] then Val tot
      else bind_r (i32_add (Val tot) (last queue)) (\<lambda>tot. run_queue_136 (butlast queue) tot))"
  by pat_completeness auto
termination
  by (relation "measure (\<lambda>(queue, tot). length queue)") (auto simp: length_butlast)

declare run_queue_136.simps [simp del]

definition task_one_136 :: "int rust" where "task_one_136 = Val 1"
definition task_two_136 :: "int rust" where "task_two_136 = Val 2"
definition task_three_136 :: "int rust" where "task_three_136 = Val 3"

definition main_136 :: rust_run where
  "main_136 = println_i (run_queue_136 [task_one_136, task_two_136, task_three_136] 0)"

text \<open>
  tokio's \<open>yield_now\<close> and the runtime that \<open>tokio::main\<close> starts are not in the repository: they are
  the arguments \<open>yield_now\<close>, a future, and \<open>run\<close>.
\<close>

definition yield_once_140 :: "('s \<Rightarrow> 's \<times> unit poll) \<Rightarrow> 's \<Rightarrow> 's \<times> int poll" where
  "yield_once_140 yield_now s =
     (case yield_now s of (s', Ready _) \<Rightarrow> (s', Ready 2) | (s', Pending) \<Rightarrow> (s', Pending))"

definition main_140 ::
  "(('s \<Rightarrow> 's \<times> int poll) \<Rightarrow> 's \<Rightarrow> int option) \<Rightarrow> ('s \<Rightarrow> 's \<times> unit poll) \<Rightarrow> 's \<Rightarrow> rust_run option" where
  "main_140 run yield_now s = map_option (\<lambda>v. println_i (Val v)) (run (yield_once_140 yield_now) s)"

text \<open>A future that is pending once.\<close>

definition pending_once :: "bool \<Rightarrow> bool \<times> unit poll" where
  "pending_once yielded = (True, if yielded then Ready () else Pending)"

lemma block_on_09_ready: "p s = (s', Ready v) \<Longrightarrow> block_on_09 p s = Some v"
  and block_on_09_pending: "p s = (s', Pending) \<Longrightarrow> block_on_09 p s = block_on_09 p s'"
  by (simp_all add: block_on_09.simps [of p s])

section \<open>Joined threads, locks and cells (61, 62, 121, 124 to 129, 131, 132)\<close>

definition worker_score_61 :: "int \<Rightarrow> int \<Rightarrow> int rust" where
  "worker_score_61 base delta = i32_add (Val base) (Val delta)"

definition main_61 :: rust_run where
  "main_61 = (let a = worker_score_61 1 2; b = worker_score_61 2 3; c = worker_score_61 3 4 in
     println_i (i32_add (i32_add a b) c))"

text \<open>A channel is its queue; \<open>recv\<close> on an empty channel of this single thread would block.\<close>

definition round_trip_62 :: "int rust" where
  "round_trip_62 =
     (let chan = push_back [] 8; (got, chan) = pop_front chan in
      bind_r (unwrap_option got) (\<lambda>v. bind_r (i32_add (Val v) (Val 1)) (\<lambda>v'.
        let chan = push_back chan v'; (got, chan) = pop_front chan in unwrap_option got)))"

definition main_62 :: rust_run where
  "main_62 = println_i round_trip_62"

definition main_121 :: rust_run where
  "main_121 = (let shared = 1; first = shared in
     println_i (bind_r (i32_add (Val shared) (Val 2)) (\<lambda>shared.
       let second = shared in i32_add (Val first) (Val second))))"

definition main_124 :: rust_run where
  "main_124 = println_i (bind_r (i32_add (Val 6) (Val 2)) (\<lambda>v. Val v))"

text \<open>\<open>OnceLock::get_or_init\<close>: the first initialiser wins.\<close>

definition get_or_init :: "'a \<Rightarrow> 'a option \<Rightarrow> 'a \<times> 'a option" where
  "get_or_init v cell = (case cell of Some w \<Rightarrow> (w, cell) | None \<Rightarrow> (v, Some v))"

definition main_125 :: rust_run where
  "main_125 = (let cell = None; (first, cell) = get_or_init 42 cell; (second, cell) = get_or_init 99 cell
     in println_i (i32_add (Val first) (Val second)))"

text \<open>A pointer is an index into the heap.\<close>

definition main_127 :: rust_run where
  "main_127 = (let heap = [9]; shared = 0; loaded = shared; hazard = loaded;
       still_protected = (hazard = loaded) in
     println_i (i32_add (index_r heap loaded) (Val (bool_i32 still_protected))))"

definition main_128 :: rust_run where
  "main_128 = (let old_snapshot = 1; reader_seen = old_snapshot in
     println_i (bind_r (i32_add (Val old_snapshot) (Val 1)) (\<lambda>new_snapshot.
       let updater_seen = new_snapshot in i32_add (Val reader_seen) (Val updater_seen))))"

definition main_129 :: rust_run where
  "main_129 =
     (let version = 0; data = (0 :: int); version = as_i32 (version + 1); data = 10;
          version = as_i32 (version + 1); begin_v = version; v = data; end_v = version;
          stable = (begin_v = end_v \<and> begin_v smod 2 = 0) in
      println_i (if stable then i32_add (Val v) (Val end_v) else Val 0))"

text \<open>The waker's vtable: every entry but \<open>drop\<close> counts.\<close>

datatype waker_op = Waker_clone | Waker_wake | Waker_wake_by_ref | Waker_drop

definition waker_131 :: "waker_op \<Rightarrow> nat \<Rightarrow> nat" where
  "waker_131 op n = (if op = Waker_drop then n else n + 1)"

text \<open>\<open>wake\<close> consumes the clone; the original is dropped after the last line.\<close>

definition main_131 :: rust_run where
  "main_131 = println_i (Val (int (fold waker_131 [Waker_clone, Waker_wake_by_ref, Waker_wake] 0)))"

definition main_132 :: rust_run where
  "main_132 = (let pinned = 8; before = (0 :: nat); after = 0 in
     println_i (i32_add (Val pinned) (Val (bool_i32 (before = after)))))"

section \<open>Two producers and one channel (126)\<close>

text \<open>What is left to send by each producer, and the queue of the channel.\<close>

inductive send_126 :: "int list \<times> int list \<times> int list \<Rightarrow> int list \<times> int list \<times> int list \<Rightarrow> bool" where
  send_a: "send_126 (x # xs, ys, q) (xs, ys, q @ [x])"
| send_b: "send_126 (xs, y # ys, q) (xs, ys, q @ [y])"

inductive_cases send_126_cases [elim!]: "send_126 (xs, ys, q) s'"

definition start_126 :: "int list \<times> int list \<times> int list" where
  "start_126 = ([1, 2], [3, 4], [])"

text \<open>After both joins the receiver sums the first four.\<close>

definition received_126 :: "int list \<Rightarrow> int rust" where
  "received_126 q = sum_i32 (take 4 q)"

definition inv_126 :: "int list \<times> int list \<times> int list \<Rightarrow> bool" where
  "inv_126 s = (case s of (xs, ys, q) \<Rightarrow>
     filter (\<lambda>v. v \<in> {1, 2}) q @ xs = [1, 2] \<and> filter (\<lambda>v. v \<in> {3, 4}) q @ ys = [3, 4] \<and>
     set q \<subseteq> {1, 2, 3, 4})"

lemma mem_of_append: "us @ x # vs = ws \<Longrightarrow> x \<in> set ws"
  by auto

lemma inv_126_step:
  assumes "inv_126 s" and "send_126 s s'"
  shows "inv_126 s'"
  using assms(2)
proof (cases rule: send_126.cases)
  case (send_a x xs ys q)
  with assms(1) have "filter (\<lambda>v. v \<in> {1, 2}) q @ x # xs = [1, 2]" by (simp add: inv_126_def)
  from mem_of_append [OF this] have "x \<in> set [1, 2]" .
  then consider "x = 1" | "x = 2" by auto
  then show ?thesis using send_a assms(1) by cases (simp_all add: inv_126_def)
next
  case (send_b xs y ys q)
  with assms(1) have "filter (\<lambda>v. v \<in> {3, 4}) q @ y # ys = [3, 4]" by (simp add: inv_126_def)
  from mem_of_append [OF this] have "y \<in> set [3, 4]" .
  then consider "y = 3" | "y = 4" by auto
  then show ?thesis using send_b assms(1) by cases (simp_all add: inv_126_def)
qed

interpretation producers: ending_system "\<lambda>s. s = start_126" send_126 inv_126
  "\<lambda>(xs, ys, q). xs = [] \<and> ys = []" "\<lambda>(xs, ys, q). length xs + length ys"
proof unfold_locales
  show "inv_126 s \<Longrightarrow> send_126 s s' \<Longrightarrow> inv_126 s'" for s s' by (rule inv_126_step)
  show "s = start_126 \<Longrightarrow> inv_126 s" for s by (simp add: start_126_def inv_126_def)
  show "\<not> (case s of (xs, ys, q) \<Rightarrow> xs = [] \<and> ys = []) \<Longrightarrow> \<exists>s'. send_126 s s'" for s
    by (cases s) (auto simp: neq_Nil_conv intro: send_126.intros)
  show "send_126 s s' \<Longrightarrow> (case s' of (xs, ys, q) \<Rightarrow> length xs + length ys)
      < (case s of (xs, ys, q) \<Rightarrow> length xs + length ys)" for s s'
    by (cases s) auto
qed

lemma sum_list_filter2:
  "set q \<subseteq> {1, 2, 3, 4} \<Longrightarrow>
    sum_list (filter (\<lambda>v. v \<in> {1, 2}) q) + sum_list (filter (\<lambda>v. v \<in> {3, 4}) q) = sum_list (q :: int list)"
  "set q \<subseteq> {1, 2, 3, 4} \<Longrightarrow>
    length (filter (\<lambda>v. v \<in> {1, 2}) q) + length (filter (\<lambda>v. v \<in> {3, 4 :: int}) q) = length q"
  by (induction q) auto

lemma sum_list_take_bounds:
  assumes "\<forall>v \<in> set q. 0 \<le> (v :: int)"
  shows "0 \<le> sum_list (take k q) \<and> sum_list (take k q) \<le> sum_list q"
proof -
  have "sum_list q = sum_list (take k q) + sum_list (drop k q)"
    by (metis append_take_drop_id sum_list.append)
  moreover have "0 \<le> sum_list (take k q)" "0 \<le> sum_list (drop k q)"
    using assms by (auto intro!: sum_list_nonneg dest: in_set_takeD in_set_dropD)
  ultimately show ?thesis by simp
qed

text \<open>C37: the channel program prints 10 for every interleaving of its producers.  Every run of the
  two producers ends after at most four sends, in a state where both are finished; then each
  producer's values are in the queue in its order, and the receiver's checked sum is 10.\<close>

theorem mpmc_126_sum:
  "((send_126 ^^ n) start_126 s \<longrightarrow> n \<le> 4) \<and>
   (send_126\<^sup>*\<^sup>* start_126 s \<and> (\<nexists>s'. send_126 s s') \<longrightarrow>
     (\<exists>q. s = ([], [], q) \<and> filter (\<lambda>v. v \<in> {1, 2}) q = [1, 2] \<and>
       filter (\<lambda>v. v \<in> {3, 4}) q = [3, 4] \<and> received_126 q = Val 10))"
proof (intro conjI impI)
  assume "(send_126 ^^ n) start_126 s"
  then show "n \<le> 4" using producers.ends [of start_126 n s] by (simp add: start_126_def)
next
  assume "send_126\<^sup>*\<^sup>* start_126 s \<and> (\<nexists>s'. send_126 s s')"
  then have "inv_126 s" "case s of (xs, ys, q) \<Rightarrow> xs = [] \<and> ys = []"
    using producers.ends [of start_126 n s] producers.reachable_inv [of start_126 s] by auto
  then obtain q where q: "s = ([], [], q)" "filter (\<lambda>v. v \<in> {1, 2}) q = [1, 2]"
    "filter (\<lambda>v. v \<in> {3, 4}) q = [3, 4]" "set q \<subseteq> {1, 2, 3, 4}"
    by (cases s) (auto simp: inv_126_def)
  have total: "sum_list q = 10" "length q = 4"
    using sum_list_filter2 [OF q(4), unfolded q(2,3)] by simp_all
  have "\<forall>v \<in> set q. 0 \<le> v" using q(4) by auto
  note b = sum_list_take_bounds [OF this]
  have "is_i32 (0 + sum_list (take k q))" for k
    using b [of k] total by (simp add: is_i32_def)
  then have "received_126 q = Val 10"
    using sum_i32_from [of q 0] total by (simp add: received_126_def sum_i32_def)
  with q show "\<exists>q. s = ([], [], q) \<and> filter (\<lambda>v. v \<in> {1, 2}) q = [1, 2] \<and>
      filter (\<lambda>v. v \<in> {3, 4}) q = [3, 4] \<and> received_126 q = Val 10" by blast
qed

theorem mpmc_126_sum_witness: "received_126 [1, 3, 2, 4] = Val 10"
proof -
  have "send_126 start_126 ([2], [3, 4], [1])" "send_126 ([2], [3, 4], [1]) ([2], [4], [1, 3])"
    "send_126 ([2], [4], [1, 3]) ([], [4], [1, 3, 2])"
    "send_126 ([], [4], [1, 3, 2]) ([], [], [1, 3, 2, 4])"
    using send_a [of 1 "[2]" "[3, 4]" "[]"] send_b [of "[2]" 3 "[4]" "[1]"]
      send_a [of 2 "[]" "[4]" "[1, 3]"] send_b [of "[]" 4 "[]" "[1, 3, 2]"]
    by (simp_all add: start_126_def)
  then have "send_126\<^sup>*\<^sup>* start_126 ([], [], [1, 3, 2, 4])"
    by (meson converse_rtranclp_into_rtranclp rtranclp.rtrancl_refl)
  then show ?thesis using mpmc_126_sum [of 0 "([], [], [1, 3, 2, 4])"] by blast
qed

section \<open>A condition variable (122)\<close>

text \<open>
  The notifier locks, sets the flag, notifies, and unlocks at the end of its closure.  The main thread locks, and
  \<open>wait_while\<close> is the loop of the library: while the flag is false it releases the lock and sleeps, and when it was
  woken it locks again and looks at the flag again.  A sleeper is woken by the notification, or by nothing at all, which
  \<open>Condvar::wait\<close> allows: \<open>wakes\<close> counts those wake-ups, and the program does not read it.  The lock is held by at most
  one of the threads; the main thread holds it in \<open>W_checked\<close> too, where it has left the loop.
\<close>

datatype notifier_122 = N_start | N_locked | N_set | N_notified | N_done
datatype waiter_122 = W_start | W_locked | W_sleeping | W_woken | W_checked | W_done int

record condvar_122 =
  notifier :: notifier_122
  waiter :: waiter_122
  locked :: bool
  ready :: bool
  wakes :: nat

inductive step_122 :: "condvar_122 \<Rightarrow> condvar_122 \<Rightarrow> bool" where
  n_lock: "notifier s = N_start \<Longrightarrow> \<not> locked s \<Longrightarrow>
     step_122 s (s\<lparr>notifier := N_locked, locked := True\<rparr>)"
| n_set: "notifier s = N_locked \<Longrightarrow> step_122 s (s\<lparr>notifier := N_set, ready := True\<rparr>)"
| n_notify: "notifier s = N_set \<Longrightarrow>
     step_122 s (s\<lparr>notifier := N_notified,
                   waiter := (if waiter s = W_sleeping then W_woken else waiter s)\<rparr>)"
| n_unlock: "notifier s = N_notified \<Longrightarrow> step_122 s (s\<lparr>notifier := N_done, locked := False\<rparr>)"
| w_lock: "waiter s = W_start \<Longrightarrow> \<not> locked s \<Longrightarrow>
     step_122 s (s\<lparr>waiter := W_locked, locked := True\<rparr>)"
| w_sleep: "waiter s = W_locked \<Longrightarrow> \<not> ready s \<Longrightarrow>
     step_122 s (s\<lparr>waiter := W_sleeping, locked := False\<rparr>)"
| w_spurious: "waiter s = W_sleeping \<Longrightarrow> step_122 s (s\<lparr>waiter := W_woken, wakes := wakes s + 1\<rparr>)"
| w_relock: "waiter s = W_woken \<Longrightarrow> \<not> locked s \<Longrightarrow>
     step_122 s (s\<lparr>waiter := W_locked, locked := True\<rparr>)"
| w_leave: "waiter s = W_locked \<Longrightarrow> ready s \<Longrightarrow> step_122 s (s\<lparr>waiter := W_checked\<rparr>)"
| w_finish: "waiter s = W_checked \<Longrightarrow>
     step_122 s (s\<lparr>waiter := W_done (if ready s then 4 else 0), locked := False\<rparr>)"

inductive_simps step_122_simps: "step_122 s s'"

definition start_122 :: condvar_122 where
  "start_122 = \<lparr>notifier = N_start, waiter = W_start, locked = False, ready = False, wakes = 0\<rparr>"

definition inv_122 :: "condvar_122 \<Rightarrow> bool" where
  "inv_122 s \<longleftrightarrow>
     (ready s \<longleftrightarrow> notifier s \<in> {N_set, N_notified, N_done}) \<and>
     (locked s \<longleftrightarrow> notifier s \<in> {N_locked, N_set, N_notified} \<or> waiter s \<in> {W_locked, W_checked}) \<and>
     \<not> (notifier s \<in> {N_locked, N_set, N_notified} \<and> waiter s \<in> {W_locked, W_checked}) \<and>
     (waiter s = W_sleeping \<longrightarrow> notifier s \<in> {N_start, N_locked, N_set}) \<and>
     (waiter s = W_checked \<longrightarrow> ready s) \<and>
     (\<forall>v. waiter s = W_done v \<longrightarrow> v = 4)"

definition final_122 :: "condvar_122 \<Rightarrow> bool" where
  "final_122 s \<longleftrightarrow> notifier s = N_done \<and> waiter s = W_done 4"

fun todo_notifier :: "notifier_122 \<Rightarrow> nat" where
  "todo_notifier N_start = 4" | "todo_notifier N_locked = 3" | "todo_notifier N_set = 2"
| "todo_notifier N_notified = 1" | "todo_notifier N_done = 0"

text \<open>The steps left to the main thread without further wake-ups for nothing, before and after the flag is set.\<close>

fun todo_waiter :: "bool \<Rightarrow> waiter_122 \<Rightarrow> nat" where
  "todo_waiter r W_start = 5"
| "todo_waiter r W_locked = (if r then 2 else 4)"
| "todo_waiter r W_sleeping = 3"
| "todo_waiter r W_woken = (if r then 3 else 5)"
| "todo_waiter r W_checked = 1"
| "todo_waiter r (W_done _) = 0"

definition todo_122 :: "condvar_122 \<Rightarrow> nat" where
  "todo_122 s = todo_notifier (notifier s) + todo_waiter (ready s) (waiter s)"

text \<open>A step that is not a wake-up for nothing.\<close>

definition quiet_122 :: "condvar_122 \<Rightarrow> condvar_122 \<Rightarrow> bool" where
  "quiet_122 s s' \<longleftrightarrow> step_122 s s' \<and> wakes s' = wakes s"

lemma inv_122_step: "inv_122 s \<Longrightarrow> step_122 s s' \<Longrightarrow> inv_122 s'"
  by (erule step_122.cases; cases "notifier s") (auto simp: inv_122_def)

lemma inv_122_start: "inv_122 start_122"
  by (simp add: inv_122_def start_122_def)

interpretation condvar: safe_system "\<lambda>s. s = start_122" step_122 inv_122
  by unfold_locales (auto intro: inv_122_step inv_122_start)

lemma todo_waiter_set: "todo_waiter True w \<le> todo_waiter False w"
  by (cases w) simp_all

text \<open>A wake-up for nothing costs three steps: the wake-up, the lock, and sleeping again.\<close>

lemma step_122_paid:
  assumes "inv_122 s" "step_122 s s'"
  shows "todo_122 s' + 3 * wakes s < todo_122 s + 3 * wakes s'"
  using assms(2,1) by cases (use todo_waiter_set [of "waiter s"] in \<open>auto simp: inv_122_def todo_122_def\<close>)

text \<open>Left alone, the threads finish from every state they can be in.\<close>

interpretation condvar_quiet: ending_system inv_122 quiet_122 inv_122 final_122 todo_122
proof unfold_locales
  show "inv_122 s \<Longrightarrow> quiet_122 s s' \<Longrightarrow> inv_122 s'" for s s'
    by (auto simp: quiet_122_def intro: inv_122_step)
  show "inv_122 s \<Longrightarrow> \<not> final_122 s \<Longrightarrow> \<exists>s'. quiet_122 s s'" for s
    by (cases "notifier s"; cases "waiter s")
      (auto simp: inv_122_def final_122_def quiet_122_def step_122_simps)
  show "inv_122 s \<Longrightarrow> quiet_122 s s' \<Longrightarrow> todo_122 s' < todo_122 s" for s s'
    using step_122_paid [of s s'] by (auto simp: quiet_122_def)
qed

lemma run_122_paid: "(step_122 ^^ n) start_122 s \<Longrightarrow> inv_122 s \<and> n + todo_122 s \<le> 9 + 3 * wakes s"
proof (induction n arbitrary: s)
  case 0
  then have "s = start_122" by simp
  then show ?case by (simp add: inv_122_start) (simp add: start_122_def todo_122_def)
next
  case (Suc n)
  then obtain u where "(step_122 ^^ n) start_122 u" "step_122 u s" by auto
  with Suc.IH [of u] step_122_paid [of u s] inv_122_step [of u s] show ?case by simp
qed

text \<open>C38: the condition variable loses no wake-up, and wake-ups for nothing do no harm.  After any run of the notifier
  and the main thread, with any number of wake-ups for nothing: the steps taken are at most nine and three for each of
  those wake-ups; whatever the main thread has printed is 4; where no step is left both threads have finished; and both
  can finish from there.\<close>

theorem condvar_122_prints:
  assumes "(step_122 ^^ n) start_122 s"
  shows "n \<le> 9 + 3 * wakes s \<and>
    (\<forall>v. waiter s = W_done v \<longrightarrow> prints (println_i (Val v)) ''4'') \<and>
    ((\<nexists>s'. step_122 s s') \<longrightarrow> notifier s = N_done \<and> (\<exists>v. waiter s = W_done v)) \<and>
    (\<exists>s'. step_122\<^sup>*\<^sup>* s s' \<and> wakes s' = wakes s \<and> notifier s' = N_done \<and> (\<exists>v. waiter s' = W_done v))"
proof -
  have prints: "prints (println_i (Val 4)) ''4''" by code_simp
  from run_122_paid [OF assms] have inv: "inv_122 s" and n: "n \<le> 9 + 3 * wakes s" by auto
  have stuck: "final_122 s" if "\<nexists>s'. step_122 s s'"
    using condvar_quiet.progress [OF inv] that by (auto simp: quiet_122_def)
  have quiet: "quiet_122\<^sup>*\<^sup>* s u \<Longrightarrow> step_122\<^sup>*\<^sup>* s u \<and> wakes u = wakes s" for u
    by (induction rule: rtranclp_induct) (auto simp: quiet_122_def intro: rtranclp.rtrancl_into_rtrancl)
  from condvar_quiet.can_finish [OF inv] obtain u where "quiet_122\<^sup>*\<^sup>* s u" "final_122 u" by blast
  then have u: "step_122\<^sup>*\<^sup>* s u \<and> wakes u = wakes s \<and> notifier u = N_done \<and> (\<exists>v. waiter u = W_done v)"
    using quiet [of u] unfolding final_122_def by blast
  from inv have "\<forall>v. waiter s = W_done v \<longrightarrow> v = 4" unfolding inv_122_def by blast
  with prints have four: "\<forall>v. waiter s = W_done v \<longrightarrow> prints (println_i (Val v)) ''4''" by blast
  from stuck have ended: "(\<nexists>s'. step_122 s s') \<longrightarrow> notifier s = N_done \<and> (\<exists>v. waiter s = W_done v)"
    by (auto simp: final_122_def)
  show ?thesis using n four ended exI [of "\<lambda>s'. step_122\<^sup>*\<^sup>* s s' \<and> wakes s' = wakes s \<and>
      notifier s' = N_done \<and> (\<exists>v. waiter s' = W_done v)", OF u] by simp
qed

text \<open>A run with a wake-up for nothing: the main thread sleeps, wakes, looks at the flag and sleeps again.\<close>

definition slept_122 :: condvar_122 where
  "slept_122 = start_122\<lparr>waiter := W_sleeping, wakes := 1\<rparr>"

lemma slept_122_run: "(step_122 ^^ 5) start_122 slept_122"
proof -
  have "step_122 start_122 (start_122\<lparr>waiter := W_locked, locked := True\<rparr>)"
    "step_122 (start_122\<lparr>waiter := W_locked, locked := True\<rparr>) (start_122\<lparr>waiter := W_sleeping\<rparr>)"
    "step_122 (start_122\<lparr>waiter := W_sleeping\<rparr>) (slept_122\<lparr>waiter := W_woken\<rparr>)"
    "step_122 (slept_122\<lparr>waiter := W_woken\<rparr>) (slept_122\<lparr>waiter := W_locked, locked := True\<rparr>)"
    "step_122 (slept_122\<lparr>waiter := W_locked, locked := True\<rparr>) slept_122"
    by (simp_all add: step_122_simps start_122_def slept_122_def)
  then show ?thesis by (simp add: eval_nat_numeral) blast
qed

theorem condvar_122_prints_witness:
  "\<exists>s v. step_122\<^sup>*\<^sup>* slept_122 s \<and> wakes s = 1 \<and> notifier s = N_done \<and> waiter s = W_done v"
  using condvar_122_prints [OF slept_122_run] by (auto simp: slept_122_def)

section \<open>A barrier (123)\<close>

text \<open>Each thread arrives, waits until all have arrived, and returns 1.\<close>

datatype party_123 = Before | Waiting | Returned

inductive step_123 :: "party_123 list \<Rightarrow> party_123 list \<Rightarrow> bool" where
  arrive: "i < length ps \<Longrightarrow> ps ! i = Before \<Longrightarrow> step_123 ps (ps[i := Waiting])"
| leave: "i < length ps \<Longrightarrow> ps ! i = Waiting \<Longrightarrow> Before \<notin> set ps \<Longrightarrow> step_123 ps (ps[i := Returned])"

inductive_cases step_123_cases: "step_123 ps ps'"

definition inv_123 :: "nat \<Rightarrow> party_123 list \<Rightarrow> bool" where
  "inv_123 n ps \<longleftrightarrow> length ps = n \<and> (Returned \<in> set ps \<longrightarrow> Before \<notin> set ps)"

lemma inv_123_step:
  assumes "inv_123 n ps" and "step_123 ps ps'"
  shows "inv_123 n ps'"
  using assms(2)
proof (cases rule: step_123.cases)
  case (arrive i)
  then have "Before \<in> set ps" by (metis nth_mem)
  with assms(1) have "Returned \<notin> set ps" by (simp add: inv_123_def)
  with arrive assms(1) set_update_subset_insert [of ps i Waiting] show ?thesis
    by (auto simp: inv_123_def)
next
  case (leave i)
  with assms(1) set_update_subset_insert [of ps i Returned] show ?thesis
    by (auto simp: inv_123_def)
qed

lemma progress_123:
  assumes "\<not> set ps \<subseteq> {Returned}"
  shows "\<exists>ps'. step_123 ps ps'"
proof (cases "Before \<in> set ps")
  case True
  then show ?thesis by (auto simp: in_set_conv_nth intro: step_123.arrive)
next
  case False
  from assms obtain p where "p \<in> set ps" "p \<noteq> Returned" by auto
  with False have "Waiting \<in> set ps" by (cases p) auto
  with False show ?thesis by (metis in_set_conv_nth step_123.leave)
qed

fun todo_party :: "party_123 \<Rightarrow> nat" where
  "todo_party Before = 2" | "todo_party Waiting = 1" | "todo_party Returned = 0"

lemma sum_list_update_less:
  "i < length xs \<Longrightarrow> f y < f (xs ! i) \<Longrightarrow>
    sum_list (map f (xs[i := y])) < (sum_list (map f xs) :: nat)"
  by (induction xs arbitrary: i) (auto split: nat.splits)

interpretation barrier: ending_system "\<lambda>ps. ps = replicate n Before" step_123 "inv_123 n"
  "\<lambda>ps. set ps \<subseteq> {Returned}" "\<lambda>ps. sum_list (map todo_party ps)" for n
proof unfold_locales
  show "ps = replicate n Before \<Longrightarrow> inv_123 n ps" for ps by (auto simp: inv_123_def)
  show "inv_123 n ps \<Longrightarrow> step_123 ps ps' \<Longrightarrow> inv_123 n ps'" for ps ps'
    by (rule inv_123_step)
  show "inv_123 n ps \<Longrightarrow> \<not> set ps \<subseteq> {Returned} \<Longrightarrow> \<exists>ps'. step_123 ps ps'" for ps
    by (rule progress_123)
  show "inv_123 n ps \<Longrightarrow> step_123 ps ps' \<Longrightarrow>
      sum_list (map todo_party ps') < sum_list (map todo_party ps)" for ps ps'
    by (erule step_123_cases) (auto intro!: sum_list_update_less)
qed

text \<open>The values that the returned threads hand to \<open>join\<close>.\<close>

definition joined_123 :: "party_123 list \<Rightarrow> int list" where
  "joined_123 ps = map (\<lambda>_. 1) (filter (\<lambda>p. p = Returned) ps)"

text \<open>Nobody passes the barrier early and everybody passes it in the end.  In every reachable
  state in which a thread has returned, all have arrived; every run of the three threads ends
  within six steps with all of them returned, and the sum of their values prints 3.\<close>

lemma barrier_123_prints:
  "(step_123\<^sup>*\<^sup>* (replicate 3 Before) ps \<and> Returned \<in> set ps \<longrightarrow> Before \<notin> set ps) \<and>
   ((step_123 ^^ n) (replicate 3 Before) ps \<longrightarrow> n \<le> 6) \<and>
   (step_123\<^sup>*\<^sup>* (replicate 3 Before) ps \<and> (\<nexists>ps'. step_123 ps ps') \<longrightarrow>
     ps = replicate 3 Returned \<and> prints (println_i (sum_i32 (joined_123 ps))) ''3'')"
proof -
  have out: "prints (println_i (sum_i32 (joined_123 (replicate 3 Returned)))) ''3''" by code_simp
  have fin: "ps = replicate 3 Returned" if "length ps = 3" "set ps \<subseteq> {Returned}"
    using that by (metis in_mono replicate_length_same singletonD)
  have inv: "step_123\<^sup>*\<^sup>* (replicate 3 Before) ps \<Longrightarrow> inv_123 3 ps"
    by (rule barrier.reachable_inv) auto
  have "sum_list (map todo_party (replicate 3 Before)) = 6" by code_simp
  then have ends: "((step_123 ^^ n) (replicate 3 Before) ps \<longrightarrow> n \<le> 6) \<and>
      (step_123\<^sup>*\<^sup>* (replicate 3 Before) ps \<and> (\<nexists>ps'. step_123 ps ps') \<longrightarrow> set ps \<subseteq> {Returned})"
    using barrier.ends [of "replicate 3 Before" 3 n ps] by metis
  show ?thesis
  proof (intro conjI impI, goal_cases)
    case 1
    with inv show ?case by (simp add: inv_123_def)
  next
    case 2
    with ends show ?case by blast
  next
    case 3
    with inv ends fin show ?case by (simp add: inv_123_def)
  next
    case 4
    with inv ends fin out show ?case by (metis inv_123_def)
  qed
qed

lemma barrier_123_prints_witness:
  "step_123\<^sup>*\<^sup>* (replicate 3 Before) (replicate 3 Returned) \<and>
    prints (println_i (sum_i32 (joined_123 (replicate 3 Returned)))) ''3''"
proof -
  obtain ps where ps: "step_123\<^sup>*\<^sup>* (replicate 3 Before) ps" "set ps \<subseteq> {Returned}"
    using barrier.ends [of "replicate 3 Before"] by blast
  then have "\<nexists>ps'. step_123 ps ps'"
    by (auto elim!: step_123_cases dest!: nth_mem)
  with ps barrier_123_prints [of ps 0] show ?thesis by blast
qed

section \<open>Park and unpark (130)\<close>

text \<open>
  The worker sends its handle and parks; \<open>unpark\<close> stores a token, and \<open>park\<close> takes the token or
  blocks until there is one, or until it returns for no reason, which the library allows.
\<close>

datatype worker_130 = W130_start | W130_sent | W130_done
datatype main_pc_130 = M130_start | M130_got | M130_unparked | M130_done int

record park_130 =
  worker_pc :: worker_130
  main_pc :: main_pc_130
  handle_sent :: bool
  token :: bool

inductive step_130 :: "park_130 \<Rightarrow> park_130 \<Rightarrow> bool" where
  w_send: "worker_pc s = W130_start \<Longrightarrow> step_130 s (s\<lparr>worker_pc := W130_sent, handle_sent := True\<rparr>)"
| w_park: "worker_pc s = W130_sent \<Longrightarrow> token s \<Longrightarrow> step_130 s (s\<lparr>worker_pc := W130_done, token := False\<rparr>)"
| w_wake: "worker_pc s = W130_sent \<Longrightarrow> step_130 s (s\<lparr>worker_pc := W130_done\<rparr>)"
| m_recv: "main_pc s = M130_start \<Longrightarrow> handle_sent s \<Longrightarrow> step_130 s (s\<lparr>main_pc := M130_got\<rparr>)"
| m_unpark: "main_pc s = M130_got \<Longrightarrow> step_130 s (s\<lparr>main_pc := M130_unparked, token := True\<rparr>)"
| m_join: "main_pc s = M130_unparked \<Longrightarrow> worker_pc s = W130_done \<Longrightarrow> step_130 s (s\<lparr>main_pc := M130_done 1\<rparr>)"

inductive_simps step_130_simps: "step_130 s s'"

definition start_130 :: park_130 where
  "start_130 = \<lparr>worker_pc = W130_start, main_pc = M130_start, handle_sent = False, token = False\<rparr>"

definition inv_130 :: "park_130 \<Rightarrow> bool" where
  "inv_130 s \<longleftrightarrow>
     (handle_sent s \<longleftrightarrow> worker_pc s \<noteq> W130_start) \<and>
     (main_pc s \<noteq> M130_start \<longrightarrow> handle_sent s) \<and>
     (main_pc s = M130_unparked \<and> worker_pc s \<noteq> W130_done \<longrightarrow> token s) \<and>
     (\<forall>v. main_pc s = M130_done v \<longrightarrow> v = 1 \<and> worker_pc s = W130_done)"

fun todo_worker_130 :: "worker_130 \<Rightarrow> nat" where
  "todo_worker_130 W130_start = 2" | "todo_worker_130 W130_sent = 1" | "todo_worker_130 W130_done = 0"

fun todo_main_130 :: "main_pc_130 \<Rightarrow> nat" where
  "todo_main_130 M130_start = 3" | "todo_main_130 M130_got = 2" | "todo_main_130 M130_unparked = 1"
| "todo_main_130 (M130_done _) = 0"

interpretation park: ending_system "\<lambda>s. s = start_130" step_130 inv_130
  "\<lambda>s. main_pc s = M130_done 1" "\<lambda>s. todo_worker_130 (worker_pc s) + todo_main_130 (main_pc s)"
proof unfold_locales
  show "s = start_130 \<Longrightarrow> inv_130 s" for s by (simp add: inv_130_def start_130_def)
  show "inv_130 s \<Longrightarrow> step_130 s s' \<Longrightarrow> inv_130 s'" for s s'
    by (erule step_130.cases) (auto simp: inv_130_def)
  show "inv_130 s \<Longrightarrow> main_pc s \<noteq> M130_done 1 \<Longrightarrow> \<exists>s'. step_130 s s'" for s
    by (cases "worker_pc s"; cases "main_pc s") (auto simp: inv_130_def step_130_simps)
  show "step_130 s s' \<Longrightarrow> todo_worker_130 (worker_pc s') + todo_main_130 (main_pc s')
      < todo_worker_130 (worker_pc s) + todo_main_130 (main_pc s)" for s s'
    by (erule step_130.cases) auto
qed

text \<open>The parked worker is always woken.  Whichever of \<open>park\<close> and \<open>unpark\<close> comes first, every
  run ends within five steps with the main thread joined to the value 1.\<close>

lemma park_130_joins:
  "((step_130 ^^ n) start_130 s \<longrightarrow> n \<le> 5) \<and>
   (step_130\<^sup>*\<^sup>* start_130 s \<and> (\<nexists>s'. step_130 s s') \<longrightarrow> main_pc s = M130_done 1)"
  using park.ends [of start_130 n s] by (auto simp: start_130_def)

lemma park_130_joins_witness: "\<exists>s. step_130\<^sup>*\<^sup>* start_130 s \<and> main_pc s = M130_done 1"
proof -
  obtain s where s: "step_130\<^sup>*\<^sup>* start_130 s" "main_pc s = M130_done 1"
    using park.ends [of start_130] by blast
  moreover have "inv_130 s" using s park.reachable_inv by blast
  ultimately have "\<nexists>s'. step_130 s s'" by (auto simp: step_130_simps inv_130_def)
  with s park_130_joins [of 0 s] show ?thesis by blast
qed

section \<open>Polling and printing\<close>

fun polls :: "('s \<Rightarrow> 's \<times> 'a poll) \<Rightarrow> nat \<Rightarrow> 's \<Rightarrow> 's" where
  "polls p 0 s = s"
| "polls p (Suc n) s = polls p n (fst (p s))"

text \<open>\<open>block_on\<close> returns the value of the first poll that is ready, and does not return when
  every poll is pending.\<close>

lemma block_on_09_first_ready:
  "block_on_09 p s = Some v \<longleftrightarrow>
    (\<exists>n. snd (p (polls p n s)) = Ready v \<and> (\<forall>k < n. snd (p (polls p k s)) = Pending))"
proof
  assume "\<exists>n. snd (p (polls p n s)) = Ready v \<and> (\<forall>k < n. snd (p (polls p k s)) = Pending)"
  then obtain n where "snd (p (polls p n s)) = Ready v" "\<forall>k < n. snd (p (polls p k s)) = Pending"
    by blast
  then show "block_on_09 p s = Some v"
  proof (induction n arbitrary: s)
    case 0
    then show ?case by (simp add: block_on_09.simps [of p s] case_prod_unfold)
  next
    case (Suc n)
    then have "snd (p s) = Pending" by (metis polls.simps(1) zero_less_Suc)
    moreover have "\<forall>k < n. snd (p (polls p k (fst (p s)))) = Pending"
      using Suc.prems(2) by (metis Suc_mono polls.simps(2))
    ultimately show ?case
      using Suc.IH [of "fst (p s)"] Suc.prems(1)
      by (simp add: block_on_09.simps [of p s] case_prod_unfold)
  qed
next
  let ?P = "\<lambda>p s v. \<exists>n. snd (p (polls p n s)) = Ready v \<and> (\<forall>k < n. snd (p (polls p k s)) = Pending)"
  assume "block_on_09 p s = Some v"
  then show "?P p s v"
  proof (rule block_on_09.raw_induct [where P = ?P, rotated])
    fix f p s v
    assume IH: "\<And>p s v. f p s = Some v \<Longrightarrow> ?P p s v"
      and "(case p s of (s', Ready v) \<Rightarrow> Some v | (s', Pending) \<Rightarrow> f p s') = Some v"
    then show "?P p s v"
    proof (cases "snd (p s)")
      case (Ready w)
      with \<open>_ = Some v\<close> show ?thesis by (intro exI [of _ 0]) (auto split: prod.splits)
    next
      case Pending
      with \<open>_ = Some v\<close> have "f p (fst (p s)) = Some v" by (auto split: prod.splits)
      from IH [OF this] obtain n where "snd (p (polls p n (fst (p s)))) = Ready v"
        "\<forall>k < n. snd (p (polls p k (fst (p s)))) = Pending" by blast
      with Pending show ?thesis
        by (intro exI [of _ "Suc n"]) (auto simp: less_Suc_eq_0_disj)
    qed
  qed
qed

lemma block_on_09_first_ready_witness:
  "block_on_09 (yield_once_140 pending_once) False = Some 2"
proof -
  have "snd (yield_once_140 pending_once (polls (yield_once_140 pending_once) 1 False)) = Ready 2"
    "\<forall>k < 1. snd (yield_once_140 pending_once (polls (yield_once_140 pending_once) k False)) = Pending"
    by (simp_all add: yield_once_140_def pending_once_def numeral_1_eq_Suc_0)
  then show ?thesis
    using block_on_09_first_ready [of "yield_once_140 pending_once" False 2] by blast
qed

text \<open>The programs with threads and futures that are functions print these lines; 09 prints 2
  whenever its clocks go forward, and panics when its assertions see them go back.\<close>

lemma concurrency_print:
  "list_all (\<lambda>(program, out). prints program out)
    [(main_61, ''15''), (main_62, ''9''), (main_121, ''4''), (main_124, ''8''),
     (main_125, ''84''), (main_127, ''10''), (main_128, ''3''), (main_129, ''12''),
     (main_131, ''3''), (main_132, ''9''), (main_133, ''11''), (main_134, ''6''),
     (main_135, ''6''), (main_136, ''6'')] \<and>
   map_option (\<lambda>r. prints r ''2'') (main_140 block_on_09 pending_once False) = Some True \<and>
   map_option (\<lambda>r. prints r ''2'') (main_09 100 105 5) = Some True \<and>
   main_09 100 99 5 = Some ([], Some Assert_failed)"
proof (intro conjI)
  show "list_all (\<lambda>(program, out). prints program out)
    [(main_61, ''15''), (main_62, ''9''), (main_121, ''4''), (main_124, ''8''),
     (main_125, ''84''), (main_127, ''10''), (main_128, ''3''), (main_129, ''12''),
     (main_131, ''3''), (main_132, ''9''), (main_133, ''11''), (main_134, ''6''),
     (main_135, ''6''), (main_136, ''6'')]" by code_simp
  have "main_140 block_on_09 pending_once False = Some (println_i (Val 2))"
    by (simp add: main_140_def yield_once_140_def pending_once_def block_on_09_ready [where s = True]
        block_on_09_pending [where s = False and s' = True])
  moreover have "prints (println_i (Val 2)) ''2''" by code_simp
  ultimately show "map_option (\<lambda>r. prints r ''2'') (main_140 block_on_09 pending_once False) = Some True"
    by (metis option.map(2))
  have *: "main_09 a b c = Some (println_i (run_09 a b c))" for a b c
    by (simp add: main_09_def block_on_09_ready)
  moreover have "prints (println_i (run_09 100 105 5)) ''2''" by code_simp
  ultimately show "map_option (\<lambda>r. prints r ''2'') (main_09 100 105 5) = Some True" by simp
  have "println_i (run_09 100 99 5) = ([], Some Assert_failed)" by code_simp
  with * show "main_09 100 99 5 = Some ([], Some Assert_failed)" by simp
qed

end
