(* ===== verification/Rosetta_Effects.thy ===== *)
theory Rosetta_Effects
  imports Rosetta_Basics
begin

text \<open>
  The reference programs \<open>demos/rosetta/101\<close> to \<open>120\<close> and \<open>137\<close> to \<open>170\<close>: destructors and
  guards, labelled loops, interior mutability, unsafe memory and foreign calls, queues with a
  bound, and layout.  Foreign functions are parameters of the programs that call them.
\<close>

section \<open>Destructors, guards, labels (101 to 105)\<close>

text \<open>\<open>Cell<i32>\<close> shared by the guards: dropping a guard adds its value to the tally.\<close>

record guard_101 = gvalue_101 :: int

definition drop_guard_101 :: "guard_101 \<Rightarrow> int \<Rightarrow> int rust" where
  "drop_guard_101 g tally = i32_add (Val tally) (Val (gvalue_101 g))"

text \<open>
  The labelled loop: its result and the tally after it; the inner guard is dropped at every
  \<open>break\<close> out of the block that holds it.
\<close>

definition outer_loop_101 :: "int option \<Rightarrow> int option \<Rightarrow> int \<Rightarrow> (int \<times> int) rust" where
  "outer_loop_101 left right tally =
     (case (left, right) of
        (Some x, Some y) \<Rightarrow>
          (let inner = \<lparr>gvalue_101 = 10\<rparr> in
           bind_r (map_r Some (i32_add (Val x) (Val y))) (\<lambda>s.
           case s of
             None \<Rightarrow> map_r (\<lambda>t. (0, t)) (drop_guard_101 inner tally)
           | Some sm \<Rightarrow> map_r (\<lambda>t. (sm, t)) (drop_guard_101 inner tally)))
      | _ \<Rightarrow> Val (0, tally))"

definition compute_101 :: "int rust" where
  "compute_101 =
     (let tally = 0; outer = \<lparr>gvalue_101 = 1\<rparr> in
      bind_r (outer_loop_101 (Some 2) (Some 3) tally) (\<lambda>(result, tally).
      bind_r (drop_guard_101 outer tally) (\<lambda>tally. i32_add (Val tally) (Val result))))"

definition main_101 :: rust_run where
  "main_101 = println_i compute_101"

text \<open>\<open>inspect\<close> under the mutex: the value returned and the counter it leaves.\<close>

definition inspect_102 :: "int \<Rightarrow> bool \<Rightarrow> (int \<times> int) rust" where
  "inspect_102 counter skip =
     (if skip then Val (counter, counter)
      else map_r (\<lambda>c. (c, c)) (i32_add (Val counter) (Val 3)))"

definition main_102 :: rust_run where
  "main_102 = println_i
     (bind_r (inspect_102 0 True) (\<lambda>(first, counter).
      bind_r (inspect_102 counter False) (\<lambda>(second, counter). i32_add (Val first) (Val second))))"

text \<open>The inner loop ends by the break of the outer one (\<open>True\<close>) or by its own.\<close>

function inner_loop_103 :: "int \<Rightarrow> int \<Rightarrow> int \<Rightarrow> (bool \<times> int) rust" where
  "inner_loop_103 outer inner tot =
     bind_r (i32 (inner + 1)) (\<lambda>_.
       if outer = 2 \<and> inner + 1 = 2 then Val (True, tot)
       else bind_r (i32_add (Val tot) (i32_add (Val outer) (Val (inner + 1)))) (\<lambda>tot.
         if inner + 1 \<ge> 3 then Val (False, tot) else inner_loop_103 outer (inner + 1) tot))"
  by pat_completeness auto
termination
  by (relation "measure (\<lambda>(outer, inner, tot). nat (3 - inner))") auto

function outer_loop_103 :: "int \<Rightarrow> int \<Rightarrow> int rust" where
  "outer_loop_103 outer tot =
     bind_r (i32 (outer + 1)) (\<lambda>_.
       bind_r (inner_loop_103 (outer + 1) 0 tot) (\<lambda>(broken, tot).
         if broken then Val tot else if outer + 1 \<ge> 3 then Val tot
         else outer_loop_103 (outer + 1) tot))"
  by pat_completeness auto
termination
  by (relation "measure (\<lambda>(outer, tot). nat (3 - outer))") auto

declare inner_loop_103.simps [simp del] outer_loop_103.simps [simp del]

definition main_103 :: rust_run where
  "main_103 = println_i (outer_loop_103 0 0)"

definition main_104 :: rust_run where
  "main_104 = (let left = Some 2; middle = Some 3; right = Some 4 in
     println_i (case left of Some x \<Rightarrow> (case middle of Some y \<Rightarrow> (case right of
       Some z \<Rightarrow> i32_add (i32_add (Val x) (Val y)) (Val z)
       | None \<Rightarrow> Val 0) | None \<Rightarrow> Val 0) | None \<Rightarrow> Val 0))"

definition main_105 :: rust_run where
  "main_105 = (case Some 5 of Some x \<Rightarrow> println_i (Val x) | None \<Rightarrow> println (Val ''0''))"

section \<open>Interior mutability, atomics, supertraits (106 to 110)\<close>

definition main_106 :: rust_run where
  "main_106 = (let v = 10; first = v; v = 20; second = v in println_i (i32_add (Val first) (Val second)))"

text \<open>
  A \<open>RefCell\<close>: its value and the count of shared borrows, \<open>-1\<close> when it is borrowed mutably.
  Borrowing against the discipline panics.
\<close>

record ref_cell = cell_value :: int cell_borrows :: int

definition borrow_r :: "ref_cell \<Rightarrow> ref_cell rust" where
  "borrow_r c = (if cell_borrows c < 0 then Inl (Explicit_panic ''already mutably borrowed'')
     else Inr (c\<lparr>cell_borrows := cell_borrows c + 1\<rparr>))"

definition release_r :: "ref_cell \<Rightarrow> ref_cell" where
  "release_r c = c\<lparr>cell_borrows := cell_borrows c - 1\<rparr>"

definition borrow_mut_set :: "int \<Rightarrow> ref_cell \<Rightarrow> ref_cell rust" where
  "borrow_mut_set v c = (if cell_borrows c \<noteq> 0 then Inl (Explicit_panic ''already borrowed'')
     else Inr (c\<lparr>cell_value := v\<rparr>))"

definition main_107 :: rust_run where
  "main_107 = with_r (borrow_r \<lparr>cell_value = 7, cell_borrows = 0\<rparr>) (\<lambda>c.
     and_then (println_i (Val (cell_value c)))
       (with_r (borrow_mut_set 9 (release_r c)) (\<lambda>c.
          with_r (borrow_r c) (\<lambda>c. println_i (Val (cell_value c))))))"

text \<open>\<open>compare_exchange\<close>: the old value as \<open>Ok\<close> or \<open>Err\<close>, and the new content.\<close>

definition compare_exchange :: "int \<Rightarrow> int \<Rightarrow> int \<Rightarrow> (int + int) \<times> int" where
  "compare_exchange expected new cur = (if cur = expected then (Inr cur, new) else (Inl cur, cur))"

text \<open>The spin loop on a lock word nobody else writes: a loop that may not end.\<close>

partial_function (option) spin_108 :: "int \<Rightarrow> int option" where
  "spin_108 lock =
     (case compare_exchange 0 1 lock of (Inr _, lock) \<Rightarrow> Some lock | (Inl _, lock) \<Rightarrow> spin_108 lock)"

declare spin_108.simps [code]

text \<open>\<open>None\<close> when the program does not end.\<close>

definition main_108 :: "rust_run option" where
  "main_108 = (case spin_108 0 of None \<Rightarrow> None | Some lock \<Rightarrow>
     (let lock = (0 :: int) in Some (println (Val ''1''))))"

text \<open>\<open>fetch_add\<close> returns the old value and wraps.\<close>

definition fetch_add :: "int \<Rightarrow> int \<Rightarrow> int \<times> int" where
  "fetch_add d cur = (cur, as_i32 (cur + d))"

definition main_109 :: rust_run where
  "main_109 = (let (old, v) = fetch_add 3 5; new = v in println_i (i32_add (Val old) (Val new)))"

record item_110 = ivalue_110 :: int

definition a_110 :: "item_110 \<Rightarrow> int" where
  "a_110 i = ivalue_110 i"

definition b_110 :: "item_110 \<Rightarrow> int rust" where
  "b_110 i = i32_add (Val (ivalue_110 i)) (Val 1)"

definition main_110 :: rust_run where
  "main_110 = (let item = \<lparr>ivalue_110 = 7\<rparr> in println_i (i32_add (Val (a_110 item)) (b_110 item)))"

section \<open>Unsafe memory and foreign code (111 to 120)\<close>

definition add_pair_111 :: "int \<Rightarrow> int \<Rightarrow> int rust" where
  "add_pair_111 a b = i32_add (Val a) (Val b)"

definition main_111 :: rust_run where
  "main_111 = println_i (add_pair_111 11 12)"

text \<open>A pointer into an array is an offset; reading outside it is undefined, here a panic.\<close>

definition main_112 :: rust_run where
  "main_112 = println_i (index_r [1, 2, 3, 4] (0 + 2))"

text \<open>A \<open>#[repr(C)]\<close> union of an \<open>i32\<close> and a \<open>u8\<close>: four little-endian bytes.\<close>

definition payload_i_113 :: "int \<Rightarrow> int list" where
  "payload_i_113 i = map (\<lambda>k. (i div 256 ^ k) mod 256) [0, 1, 2, 3]"

definition read_i_113 :: "int list \<Rightarrow> int" where
  "read_i_113 bs = as_i32 (foldr (\<lambda>b acc. b + 256 * acc) bs 0)"

definition main_113 :: rust_run where
  "main_113 = println_i (Val (read_i_113 (payload_i_113 36)))"

definition add_one_114 :: "int \<Rightarrow> int rust" where
  "add_one_114 x = i32_add (Val x) (Val 1)"

definition apply_114 :: "(int \<Rightarrow> int rust) \<Rightarrow> int \<Rightarrow> int rust" where
  "apply_114 cb v = cb v"

definition main_114 :: rust_run where
  "main_114 = println_i (apply_114 add_one_114 41)"

text \<open>\<open>opaque_value\<close> is a foreign function on a pointer, given the null pointer (0).\<close>

definition main_115 :: "(int \<Rightarrow> int) \<Rightarrow> rust_run" where
  "main_115 opaque_value = (let ptr = 0; ignored = opaque_value ptr in println (Val ''0''))"

definition sum_116 :: "int list \<Rightarrow> int rust" where
  "sum_116 nums = sum_i32 nums"

definition main_116 :: rust_run where
  "main_116 = println_i (sum_116 [1, 2, 3])"

definition main_118 :: rust_run where
  "main_118 = println_i (i32_add (i32_add (Val 0) (Val 2)) (Val 3))"

definition main_119 :: rust_run where
  "main_119 = (let lanes = [1, 2, 3, 4] in println_i (sum_i32 lanes))"

definition main_120 :: rust_run where
  "main_120 = (let v = 5; seen = v in println_i (Val seen))"

section \<open>Bounded queues and cancellation (137 to 139)\<close>

record submission_queue_137 = depth_137 :: nat submitted_137 :: nat

definition submit_137 :: "submission_queue_137 \<Rightarrow> submission_queue_137" where
  "submit_137 q =
     (if submitted_137 q < depth_137 q then q\<lparr>submitted_137 := submitted_137 q + 1\<rparr> else q)"

definition main_137 :: rust_run where
  "main_137 = println_i (Val (int (submitted_137
     (submit_137 (submit_137 (submit_137 \<lparr>depth_137 = 2, submitted_137 = 0\<rparr>))))))"

record event_138 = token_138 :: int eready_138 :: bool

definition main_138 :: rust_run where
  "main_138 = (let events = [\<lparr>token_138 = 1, eready_138 = True\<rparr>, \<lparr>token_138 = 2, eready_138 = True\<rparr>,
                             \<lparr>token_138 = 4, eready_138 = False\<rparr>]
     in println_i (sum_i32 (map token_138 (filter eready_138 events))))"

record reservation_139 = rvalue_139 :: int committed_139 :: bool

definition drop_139 :: "reservation_139 \<Rightarrow> reservation_139" where
  "drop_139 r = (if \<not> committed_139 r then r\<lparr>rvalue_139 := 0\<rparr> else r)"

text \<open>\<open>commit\<close> consumes the reservation: the value returned, and what its drop leaves.\<close>

definition commit_139 :: "reservation_139 \<Rightarrow> int \<times> reservation_139" where
  "commit_139 r = (let r = r\<lparr>committed_139 := True\<rparr> in (rvalue_139 r, drop_139 r))"

definition main_139 :: rust_run where
  "main_139 = println_i (Val (fst (commit_139 \<lparr>rvalue_139 = 4, committed_139 = False\<rparr>)))"

section \<open>Types and layout (141 to 170)\<close>

definition main_141 :: rust_run where
  "main_141 = (let bytes = ''hi'' in println_i (Val (int (length bytes))))"

definition process_142 :: "unit \<Rightarrow> int" where "process_142 u = 42"

definition main_142 :: rust_run where
  "main_142 = (let u = (); res = process_142 u in println_i (Val res))"

definition fail_143 :: "unit rust" where "fail_143 = Inl (Explicit_panic ''boom'')"

definition main_143 :: rust_run where
  "main_143 = (let safe = True in with_r (if \<not> safe then fail_143 else Val ()) (\<lambda>_. println (Val ''0'')))"

record wrapper_144 = id_144 :: int

definition main_144 :: rust_run where
  "main_144 = println_i (Val (id_144 \<lparr>id_144 = 7\<rparr>))"

definition make_145 :: "unit \<Rightarrow> int" where "make_145 item = 5"

definition main_145 :: rust_run where
  "main_145 = (let item = () in println_i (Val (make_145 item)))"

definition main_146 :: rust_run where
  "main_146 = println_i (case Some 1 of Some v \<Rightarrow> Val v | None \<Rightarrow> Inl (Explicit_panic ''unreachable''))"

definition custom_dst_pointer_bytes_len_surrogate_147 :: int where
  "custom_dst_pointer_bytes_len_surrogate_147 = int (length ''abc'')"

definition main_147 :: rust_run where
  "main_147 = println_i (Val custom_dst_pointer_bytes_len_surrogate_147)"

datatype wrap_148 = Wrap_148 (unwrap_148: int)

definition main_148 :: rust_run where
  "main_148 = println_i (Val (unwrap_148 (Wrap_148 7)))"

record pair_149 = a_149 :: int b_149 :: int

definition main_149 :: rust_run where
  "main_149 = (let pair = \<lparr>a_149 = 1, b_149 = 2\<rparr> in println_i (u8_add (Val (a_149 pair)) (Val (b_149 pair))))"

record pair_150 = a_150 :: int b_150 :: int

definition main_150 :: rust_run where
  "main_150 = (let pair = \<lparr>a_150 = 1, b_150 = 2\<rparr> in println_i (u32_add (Val (a_150 pair)) (Val (b_150 pair))))"

definition main_151 :: rust_run where
  "main_151 = (let v = 5 in println_i (Val v))"

definition main_152 :: rust_run where
  "main_152 = (let size = 8; align = 4 in println_i (usize_add (Val size) (Val align)))"

text \<open>Boxes and raw pointers on a heap: an address is an index into it.\<close>

definition into_raw :: "int list \<Rightarrow> int \<Rightarrow> int list \<times> nat" where
  "into_raw heap v = (heap @ [v], length heap)"

definition main_153 :: rust_run where
  "main_153 = (let (heap, raw) = into_raw [] 9 in println_i (index_r heap raw))"

definition main_154 :: rust_run where
  "main_154 = (let (heap, raw) = into_raw [] 11; boxed = index_r heap raw in println_i boxed)"

definition main_155 :: rust_run where
  "main_155 = (let a = 1; b = 2 in println_i (i32_add (Val a) (Val b)))"

definition main_156 :: rust_run where
  "main_156 = (let node1 = 1; node2 = 2 in println_i (i32_add (Val node1) (Val node2)))"

definition aligned_simd_lane_count_surrogate_157 :: int where
  "aligned_simd_lane_count_surrogate_157 =
     (let alignment_bytes = 16; lane_bytes = 4 in alignment_bytes div lane_bytes)"

definition main_157 :: rust_run where
  "main_157 = println_i (Val aligned_simd_lane_count_surrogate_157)"

definition custom_dst_alloc_len_surrogate_158 :: int where
  "custom_dst_alloc_len_surrogate_158 = (let owned = ''hey'' in int (length owned))"

definition main_158 :: rust_run where
  "main_158 = println_i (Val custom_dst_alloc_len_surrogate_158)"

definition main_159 :: rust_run where
  "main_159 = (let forgotten = (9 :: int) in println (Val ''9''))"

definition main_160 :: rust_run where
  "main_160 = (let slot = 11; v = slot in println_i (Val v))"

record int_provider_161 = val_161 :: int

definition get_161 :: "int_provider_161 \<Rightarrow> int" where "get_161 p = val_161 p"

definition main_161 :: rust_run where
  "main_161 = (let p = \<lparr>val_161 = 42\<rparr>; item = get_161 p in println_i (Val item))"

record data_162 = val_162 :: int

definition require_send_162 :: "'t \<Rightarrow> int" where "require_send_162 v = 42"

definition main_162 :: rust_run where
  "main_162 = (let d = \<lparr>val_162 = 0\<rparr>; res = require_send_162 d in println_i (Val res))"

record item_163 = value_163 :: int

definition draw_163 :: "item_163 \<Rightarrow> int" where "draw_163 i = value_163 i"

datatype dyn_draw_163 = Draw_item_163 item_163

fun render_163 :: "dyn_draw_163 \<Rightarrow> int" where
  "render_163 (Draw_item_163 i) = draw_163 i"

definition main_163 :: rust_run where
  "main_163 = (let item = \<lparr>value_163 = 4\<rparr> in println_i (Val (render_163 (Draw_item_163 item))))"

definition a_164 :: "unit \<Rightarrow> int" where "a_164 item = 2"
definition b_164 :: "unit \<Rightarrow> int" where "b_164 item = 3"

definition main_164 :: rust_run where
  "main_164 = (let item = () in println_i (i32_add (Val (a_164 item)) (Val (b_164 item))))"

text \<open>The trait's \<open>len\<close> on the array is found before the slice's.\<close>

definition len_165 :: "int list \<Rightarrow> int" where "len_165 arr = 2"

definition main_165 :: rust_run where
  "main_165 = (let arr = [1, 2] in println_i (Val (len_165 arr)))"

datatype scored_166 = I32_166 int | Other_166

fun score_166 :: "scored_166 \<Rightarrow> int" where
  "score_166 (I32_166 _) = 2"
| "score_166 Other_166 = 0"

definition main_166 :: rust_run where
  "main_166 = (let specialized = score_166 (I32_166 1); fallback = score_166 Other_166 in
     println_i (i32_add (Val specialized) (Val fallback)))"

definition array_len_167 :: "int list \<Rightarrow> int" where "array_len_167 arr = int (length arr)"

definition main_167 :: rust_run where
  "main_167 = println_i (Val (array_len_167 [1, 2, 3, 4]))"

definition make_iter_168 :: "int list" where "make_iter_168 = [1, 2, 3]"

definition main_168 :: rust_run where
  "main_168 = (let iter = make_iter_168 in println (Val ''0''))"

definition main_169 :: rust_run where
  "main_169 = println (Val ''0'')"

record data_170 = val_170 :: int

definition process_170 :: "'t \<Rightarrow> int" where "process_170 item = 42"

definition main_170 :: rust_run where
  "main_170 = (let d = \<lparr>val_170 = 42\<rparr>; res = process_170 d in println_i (Val res))"

section \<open>What the programs promise\<close>

lemma submit_137_iter:
  "submitted_137 q \<le> depth_137 q \<Longrightarrow>
    (submit_137 ^^ n) q = q\<lparr>submitted_137 := min (depth_137 q) (submitted_137 q + n)\<rparr>"
  by (induction n) (auto simp: submit_137_def min_def)

text \<open>The submission queue never holds more than its depth: after any number of calls of
  \<open>submit\<close> it holds the calls made so far, up to the depth, and the depth is unchanged.\<close>

lemma submission_queue_bounded:
  assumes "submitted_137 q \<le> depth_137 q"
  shows "submitted_137 ((submit_137 ^^ n) q) = min (depth_137 q) (submitted_137 q + n) \<and>
    depth_137 ((submit_137 ^^ n) q) = depth_137 q"
  using submit_137_iter [OF assms] by simp

lemma submission_queue_bounded_witness:
  "submitted_137 ((submit_137 ^^ 3) \<lparr>depth_137 = 2, submitted_137 = 0\<rparr>) = min 2 (0 + 3) \<and>
    depth_137 ((submit_137 ^^ 3) \<lparr>depth_137 = 2, submitted_137 = 0\<rparr>) = 2"
  using submission_queue_bounded [of "\<lparr>depth_137 = 2, submitted_137 = 0\<rparr>" 3] by simp

text \<open>A reservation survives its commit and nothing else.  \<open>commit\<close> returns the value it
  held and its drop leaves that value; a reservation dropped before the commit is worth 0, and
  dropping it again changes nothing.\<close>

lemma reservation_commit:
  "commit_139 r = (rvalue_139 r, r\<lparr>committed_139 := True\<rparr>) \<and>
   rvalue_139 (drop_139 r) = (if committed_139 r then rvalue_139 r else 0) \<and>
   drop_139 (drop_139 r) = drop_139 r"
  by (simp add: commit_139_def drop_139_def)

text \<open>The spin lock is acquired at once when the lock word is 0 (and then holds 1); on any
  other word, which nobody releases, the loop does not end.\<close>

lemma spin_lock_acquires:
  "spin_108 lock = (if lock = 0 then Some 1 else None)"
proof (cases "lock = 0")
  case True
  then show ?thesis by (simp add: spin_108.simps compare_exchange_def)
next
  case False
  have "spin_108 lock = Some l \<Longrightarrow> lock = 0" for l
    by (rule spin_108.raw_induct [where P = "\<lambda>lock l. lock = 0", rotated])
      (auto simp: compare_exchange_def split: if_splits)
  with False show ?thesis by (cases "spin_108 lock") auto
qed

text \<open>The union is read as it was written: for every \<open>i32\<close>, the four bytes of the payload
  decode to it.\<close>

lemma union_roundtrip:
  assumes "is_i32 i"
  shows "read_i_113 (payload_i_113 i) = i"
proof -
  define q1 q2 q3 q4 where "q1 = i div 256" and "q2 = q1 div 256" and "q3 = q2 div 256"
    and "q4 = q3 div 256"
  note qs = q1_def q2_def q3_def q4_def
  have d: "i div 65536 = q2" "i div 16777216 = q3"
    by (simp_all add: qs flip: zdiv_zmult2_eq)
  have "i = 256 * q1 + i mod 256" "q1 = 256 * q2 + q1 mod 256" "q2 = 256 * q3 + q2 mod 256"
    "q3 = 256 * q4 + q3 mod 256"
    by (simp_all add: qs)
  then have "foldr (\<lambda>b acc. b + 256 * acc) (payload_i_113 i) 0 + 2147483648 =
      i + 2147483648 + (- q4) * 4294967296"
    by (simp add: payload_i_113_def d power_numeral_reduce flip: q1_def) 
  then have "(foldr (\<lambda>b acc. b + 256 * acc) (payload_i_113 i) 0 + 2147483648) mod 4294967296 =
      i + 2147483648"
    using assms by (simp only: mod_mult_self1) (simp add: is_i32_def)
  then show ?thesis by (simp add: read_i_113_def as_i32_def)
qed

lemma union_roundtrip_witness: "read_i_113 (payload_i_113 (- 5)) = - 5"
  using union_roundtrip [of "- 5"] by (simp add: is_i32_def)

text \<open>The reference programs 101 to 170 that are modelled here run without a panic and print
  these lines.\<close>

lemma effects_print:
  "list_all (\<lambda>(program, out). prints program out)
    [(main_101, ''16''), (main_102, ''3''), (main_103, ''12''), (main_104, ''9''),
    (main_105, ''5''), (main_106, ''30''), (main_109, ''13''), (main_110, ''15''),
    (main_111, ''23''), (main_112, ''3''), (main_113, ''36''), (main_114, ''42''),
    (main_116, ''6''), (main_118, ''5''), (main_119, ''10''), (main_120, ''5''),
    (main_137, ''2''), (main_138, ''3''), (main_139, ''4''), (main_141, ''2''),
    (main_142, ''42''), (main_143, ''0''), (main_144, ''7''), (main_145, ''5''),
    (main_146, ''1''), (main_147, ''3''), (main_148, ''7''), (main_149, ''3''),
    (main_150, ''3''), (main_151, ''5''), (main_152, ''12''), (main_153, ''9''),
    (main_154, ''11''), (main_155, ''3''), (main_156, ''3''), (main_157, ''4''),
    (main_158, ''3''), (main_159, ''9''), (main_160, ''11''), (main_161, ''42''),
    (main_162, ''42''), (main_163, ''4''), (main_164, ''5''), (main_165, ''2''),
    (main_166, ''2''), (main_167, ''4''), (main_168, ''0''), (main_169, ''0''),
    (main_170, ''42'')]"
  by code_simp

end
