(* ===== verification/Rosetta_Errors.thy ===== *)
theory Rosetta_Errors
  imports Rosetta_Basics "HOL-Library.Word"
begin

text \<open>
  The reference programs \<open>demos/rosetta/171\<close> to \<open>199\<close>: errors as results, panics and hooks,
  foreign resources, decoders and encoders; and \<open>304\<close> to \<open>313\<close>: operators and patterns.
\<close>

section \<open>Errors and panics (171 to 180)\<close>

text \<open>\<open>Result<T, E>\<close> is a sum with the error on the left.\<close>

definition result_map :: "('a \<Rightarrow> 'b) \<Rightarrow> 'e + 'a \<Rightarrow> 'e + 'b" where
  "result_map f r = (case r of Inl e \<Rightarrow> Inl e | Inr v \<Rightarrow> Inr (f v))"

definition fail_171 :: "string + string" where "fail_171 = Inl ''anyhow''"

definition unwrap_or_default_171 :: "int \<Rightarrow> 'e + int \<Rightarrow> int" where
  "unwrap_or_default_171 d r = (case r of Inl _ \<Rightarrow> d | Inr v \<Rightarrow> v)"

definition main_171 :: rust_run where
  "main_171 = (let result = result_map (\<lambda>msg. int (length msg)) fail_171 in
     println_i (Val (unwrap_or_default_171 0 result)))"

definition render_context_line_172 :: "string \<Rightarrow> string" where
  "render_context_line_172 message = ''context: '' @ message"

definition main_172 :: rust_run where
  "main_172 = (let context_line = render_context_line_172 ''boom'' in
     println_i (Val (int (length context_line))))"

text \<open>\<open>catch_unwind\<close> turns a panic into an \<open>Err\<close>.\<close>

definition catch_unwind :: "'a rust \<Rightarrow> rust_panic + 'a" where "catch_unwind m = m"

definition main_173 :: rust_run where
  "main_173 = (let result = catch_unwind (Inl (Explicit_panic ''stop'') :: unit rust);
       got = (case result of Inr _ \<Rightarrow> 1 | Inl _ \<Rightarrow> 0) in println_i (Val got))"

definition synthetic_backtrace_depth_174 :: "int list \<Rightarrow> int rust" where
  "synthetic_backtrace_depth_174 frames = for_r frames 0 (\<lambda>depth frame.
     if frame \<noteq> 0 then i32_add (Val depth) (Val 1) else Val depth)"

definition main_174 :: rust_run where
  "main_174 = println_i (synthetic_backtrace_depth_174 [101, 202, 303, 0])"

definition config_error_message_175 :: "string \<Rightarrow> string" where
  "config_error_message_175 path = ''invalid config: '' @ path"

definition main_175 :: rust_run where
  "main_175 = println (Val (config_error_message_175 ''oops''))"

fun flatten_result_176 :: "'e + ('e + 'a) \<Rightarrow> 'e + 'a" where
  "flatten_result_176 (Inr inner) = inner"
| "flatten_result_176 (Inl err) = Inl err"

definition main_176 :: rust_run where
  "main_176 = (let nested = Inr (Inr 2) :: int + (int + int) in
     println_i (Val (unwrap_or_result (- 1) (flatten_result_176 nested))))"

definition unwrap_err :: "'e + 'a \<Rightarrow> 'e rust" where
  "unwrap_err r = (case r of Inl e \<Rightarrow> Inr e | Inr v \<Rightarrow> Inl Unwrap_err)"

definition unwrap_some :: "'a option \<Rightarrow> 'a rust" where
  "unwrap_some v = (case v of Some x \<Rightarrow> Inr x | None \<Rightarrow> Inl Unwrap_none)"

definition main_177 :: rust_run where
  "main_177 = println_i (i32_add (unwrap_some (Some 5)) (unwrap_err (Inl 7 :: int + int)))"

text \<open>The panic hook prints before the panic unwinds out of \<open>main\<close>.\<close>

definition panic_with_hook :: "string \<Rightarrow> string \<Rightarrow> rust_run" where
  "panic_with_hook hook_line msg = (line hook_line, Some (Explicit_panic msg))"

definition main_178 :: rust_run where
  "main_178 = panic_with_hook ''1'' ''trigger''"

definition assert_r :: "bool \<Rightarrow> unit rust" where
  "assert_r b = (if b then Inr () else Inl Assert_failed)"

definition main_179 :: rust_run where
  "main_179 = with_r (bind_r (i32_add (Val 1) (Val 1)) (\<lambda>v. assert_r (v = 2)))
     (\<lambda>_. println (Val ''2''))"

definition add_one_180 :: "int option \<Rightarrow> int option rust" where
  "add_one_180 v = (case v of None \<Rightarrow> Val None | Some inner \<Rightarrow> map_r Some (i32_add (Val inner) (Val 1)))"

definition main_180 :: rust_run where
  "main_180 = println_i (bind_r (add_one_180 (Some 2)) unwrap_some)"

section \<open>Resources and codecs (181 to 199)\<close>

text \<open>\<open>File::open(..).unwrap()\<close> and \<open>as_raw_fd\<close>: the operating system answers with a file
  descriptor or an error.\<close>

definition main_181 :: "(string \<Rightarrow> unit + int) \<Rightarrow> rust_run" where
  "main_181 os_open = println_i (unwrap_result (os_open ''/dev/null''))"

definition main_182 :: "(string \<Rightarrow> unit + int) \<Rightarrow> rust_run" where
  "main_182 os_open = println_i (i32_add (unwrap_result (os_open ''/dev/zero'')) (Val 1))"

definition main_183 :: rust_run where
  "main_183 = (let sig = 2 in println_i (Val sig))"

definition worker_184 :: "int \<Rightarrow> int rust" where
  "worker_184 v = i32_add (Val v) (Val 4)"

text \<open>\<open>join\<close> waits for the thread and hands over its value, or its panic.\<close>

definition main_184 :: rust_run where
  "main_184 = (let handle = worker_184 1; joined = handle in println_i joined)"

text \<open>\<open>dlopen\<close>, \<open>dlsym\<close> and \<open>dlclose\<close> are foreign; their answers are ignored.\<close>

definition main_185 :: "(string \<Rightarrow> int \<Rightarrow> 'h) \<Rightarrow> ('h \<Rightarrow> string \<Rightarrow> 's) \<Rightarrow> ('h \<Rightarrow> int) \<Rightarrow> rust_run" where
  "main_185 dlopen dlsym dlclose =
     (let handle = dlopen ''libdemo.so'' 2; symbol = dlsym handle ''demo_entry'';
          ignored = dlclose handle in println_i (Val 1))"

record row_186 = id_186 :: int count_186 :: int pad_186 :: int

definition main_186 :: "(row_186 \<Rightarrow> int) \<Rightarrow> rust_run" where
  "main_186 sqlite_insert =
     (let row = \<lparr>id_186 = 7, count_186 = 1, pad_186 = 0\<rparr>; code = sqlite_insert row in
      println_i (Val code))"

definition main_187 :: "('c \<Rightarrow> int) \<Rightarrow> ('c \<Rightarrow> int) \<Rightarrow> 'c \<Rightarrow> rust_run" where
  "main_187 gl_make_current gl_swap_buffers null_ctx =
     (let ctx = null_ctx; ignored1 = gl_make_current ctx; ignored2 = gl_swap_buffers ctx in
      println_i (Val 1))"

definition main_188 :: rust_run where
  "main_188 = (let fin = True; opcode = 1 :: int; masked = False; payload_len = 3 :: int in
     println_i (Val (if fin \<and> opcode = 1 \<and> \<not> masked \<and> payload_len = 3 then 1 else 0)))"

text \<open>The three groups of a varint, seven bits each, in \<open>u32\<close>.\<close>

definition varint_189 :: "32 word \<Rightarrow> 32 word \<Rightarrow> 32 word \<Rightarrow> 32 word" where
  "varint_189 b0 b1 b2 =
     (let v = 0;
          v = or v (push_bit 0 (and b0 0x7f));
          v = or v (push_bit 7 (and b1 0x7f));
          v = or v (push_bit 14 (and b2 0x7f))
      in v)"

definition main_189 :: rust_run where
  "main_189 = println_i (Val (uint (varint_189 6 0 0)))"

definition b64_190 :: string where
  "b64_190 = ''ABCDEFGHIJKLMNOPQRSTUVWXYZabcdefghijklmnopqrstuvwxyz0123456789+/''"

text \<open>The four sextets of three bytes, as \<open>main\<close> computes them on \<open>u8\<close>.\<close>

definition sextets_190 :: "int \<Rightarrow> int \<Rightarrow> int \<Rightarrow> int rust list" where
  "sextets_190 a b c =
     [Val (a div 4),
      u8_add (bind_r (u8 ((a mod 4) * 16)) Val) (Val (b div 16)),
      u8_add (bind_r (u8 ((b mod 16) * 4)) Val) (Val (c div 64)),
      Val (c mod 64)]"

definition encode_190 :: "int \<Rightarrow> int \<Rightarrow> int \<Rightarrow> string rust" where
  "encode_190 a b c =
     map_all (\<lambda>q. bind_r q (\<lambda>q. index_r b64_190 (nat q))) (sextets_190 a b c)"

definition main_190 :: rust_run where
  "main_190 = (let input = map (\<lambda>ch. int (of_char ch)) ''Man'' in
     println (bind_r (index_r input 0) (\<lambda>a. bind_r (index_r input 1) (\<lambda>b. bind_r (index_r input 2)
       (\<lambda>c. encode_190 a b c)))))"

definition emit_sum_191 :: "int rust \<Rightarrow> int rust \<Rightarrow> int rust" where
  "emit_sum_191 a b = i32_add a b"

definition main_191 :: rust_run where
  "main_191 = (let left = 1; right = 2; tot = emit_sum_191 (Val left) (Val right) in
     println_i (i32_add (i32_add tot (Val left)) (Val right)))"

record pair_192 = left_192 :: int right_192 :: int

definition main_192 :: rust_run where
  "main_192 = (let pair = \<lparr>left_192 = 1, right_192 = 2\<rparr>; copy = pair in
     println_i (i32_add (Val (left_192 copy)) (Val (right_192 copy))))"

text \<open>Both conditional branches of 194; the target decides which one is compiled.\<close>

definition main_194 :: "bool \<Rightarrow> rust_run" where
  "main_194 target_x86_64 =
     (if target_x86_64 then (let arch = ''x86'' in println (Val arch))
      else (let arch = ''fallback'' in println (Val arch)))"

text \<open>The generated constant of 195.\<close>

definition main_195 :: "int \<Rightarrow> rust_run" where
  "main_195 generated = println_i (Val generated)"

definition leaf_196 :: "int rust \<Rightarrow> int rust \<Rightarrow> int rust" where
  "leaf_196 a b = i32_add a b"

definition inner_196 :: "int rust \<Rightarrow> int rust" where
  "inner_196 x = i32_add (leaf_196 x (Val 1)) (leaf_196 x (Val 2))"

definition cold_path_196 :: "int rust \<Rightarrow> int rust" where
  "cold_path_196 x = i32_add (inner_196 x) (leaf_196 (Val 3) (Val 4))"

definition main_196 :: rust_run where
  "main_196 = (let hot = inner_196 (Val 1); cold = cold_path_196 (Val 2) in println_i (i32_add hot cold))"

definition hot_197 :: int where "hot_197 = 3"
definition cold_197 :: int where "cold_197 = 1"

definition main_197 :: rust_run where
  "main_197 = println_i (bind_r (for_r [0 ..< 3] 0 (\<lambda>tot _. i32_add (Val tot) (Val hot_197)))
     (\<lambda>tot. i32_add (Val tot) (Val cold_197)))"

definition guarded_target_198 :: "int \<Rightarrow> int rust" where
  "guarded_target_198 x = i32_add (Val x) (Val 1)"

definition main_198 :: rust_run where
  "main_198 = (let fp = guarded_target_198 in println_i (fp 1))"

definition main_199 :: rust_run where
  "main_199 = println_i
     (bind_r (store_r (replicate 4 0) 0 1) (\<lambda>buf. bind_r (store_r buf 1 2) (\<lambda>buf.
      bind_r (store_r buf 2 3) (\<lambda>buf. bind_r (store_r buf 3 4) (\<lambda>buf.
        u8_add (index_r buf 0) (index_r buf 3))))))"

text \<open>The quine of 200 prints its own source, which the compiler embeds.\<close>

definition main_200 :: "string \<Rightarrow> rust_run" where
  "main_200 source = (source, None)"

section \<open>Operators and patterns (304 to 313)\<close>

record point_304 = x_304 :: int y_304 :: int

definition eq_304 :: "point_304 \<Rightarrow> point_304 \<Rightarrow> bool" where
  "eq_304 a b \<longleftrightarrow> x_304 a = x_304 b \<and> y_304 a = y_304 b"

definition show_bool :: "bool \<Rightarrow> string" where
  "show_bool b = (if b then ''true'' else ''false'')"

definition main_304 :: rust_run where
  "main_304 =
     (let a = \<lparr>x_304 = 10, y_304 = 20\<rparr>; b = \<lparr>x_304 = 10, y_304 = 20\<rparr>; c = \<lparr>x_304 = 99, y_304 = 0\<rparr> in
      with_r (bind_r (assert_r (eq_304 a b)) (\<lambda>_. assert_r (\<not> eq_304 a c))) (\<lambda>_.
        println (Val (''a == b: '' @ show_bool (eq_304 a b) @ '', a != c: '' @ show_bool (\<not> eq_304 a c)))))"

definition grade_305 :: "int \<Rightarrow> int" where
  "grade_305 score =
     (if 0 \<le> score \<and> score \<le> 59 then 0 else if 60 \<le> score \<and> score \<le> 79 then 1
      else if 80 \<le> score \<and> score \<le> 89 then 2 else if 90 \<le> score \<and> score \<le> 100 then 3 else - 1)"

definition main_305 :: rust_run where
  "main_305 = println (Val (show_list
     [grade_305 45, grade_305 72, grade_305 85, grade_305 95, grade_305 101]))"

datatype color_306 = Red_306 | Green_306 | Blue_306 | Yellow_306 | Cyan_306 | Magenta_306

definition is_primary_306 :: "color_306 \<Rightarrow> bool" where
  "is_primary_306 c = (case c of Red_306 \<Rightarrow> True | Green_306 \<Rightarrow> True | Blue_306 \<Rightarrow> True | _ \<Rightarrow> False)"

definition main_306 :: rust_run where
  "main_306 = println_i (Val (int (length
     (filter is_primary_306 [Red_306, Yellow_306, Blue_306, Cyan_306]))))"

definition transform_307 :: "int \<Rightarrow> int rust" where
  "transform_307 x =
     (if 1 \<le> x \<and> x \<le> 5 then i32_mul (Val x) (Val 10)
      else if 6 \<le> x \<and> x \<le> 10 then i32_mul (Val x) (Val 100)
      else Val 0)"

definition main_307 :: rust_run where
  "main_307 = println (bind_r (transform_307 3) (\<lambda>a. bind_r (transform_307 8) (\<lambda>b.
     bind_r (transform_307 15) (\<lambda>c. Val (show_list [a, b, c])))))"

fun sum_first_two_308 :: "int list \<Rightarrow> int rust" where
  "sum_first_two_308 (a # b # _) = i32_add (Val a) (Val b)"
| "sum_first_two_308 _ = Val 0"

fun head_308 :: "int \<times> int \<times> int \<Rightarrow> int" where
  "head_308 (first, _) = first"

definition main_308 :: rust_run where
  "main_308 = println (bind_r (sum_first_two_308 [10, 20, 30, 40]) (\<lambda>s.
     let h = head_308 (100, 200, 300) in Val (show_list [s, h])))"

text \<open>
  \<open>str::parse::<i32>()\<close>: an optional sign and at least one digit; the digits from the left, each
  checked first as a digit, then for the range.
\<close>

fun i32_digits :: "bool \<Rightarrow> int \<Rightarrow> string \<Rightarrow> string + int" where
  "i32_digits neg acc [] = Inr acc"
| "i32_digits neg acc (c # cs) =
     (let d = int (byte_val c) - 48; acc' = (if neg then acc * 10 - d else acc * 10 + d) in
      if \<not> is_digit c then Inl ''invalid digit found in string''
      else if is_i32 (acc * 10) \<and> is_i32 acc' then i32_digits neg acc' cs
      else if neg then Inl ''number too small to fit in target type''
      else Inl ''number too large to fit in target type'')"

definition parse_i32 :: "string \<Rightarrow> string + int" where
  "parse_i32 s =
     (case s of
        [] \<Rightarrow> Inl ''cannot parse integer from empty string''
      | c # cs \<Rightarrow>
          if (c = CHR ''-'' \<or> c = CHR ''+'') \<and> cs = [] then Inl ''invalid digit found in string''
          else if c = CHR ''-'' then i32_digits True 0 cs
          else if c = CHR ''+'' then i32_digits False 0 cs
          else i32_digits False 0 s)"

definition parse_num_309 :: "string \<Rightarrow> string + int" where
  "parse_num_309 s = parse_i32 s"

text \<open>The \<open>try\<close> block: the first error leaves it; the addition is checked.\<close>

definition compute_309 :: "(string + int) rust" where
  "compute_309 =
     (case parse_num_309 ''10'' of Inl e \<Rightarrow> Val (Inl e) | Inr a \<Rightarrow>
       (case parse_num_309 ''20'' of Inl e \<Rightarrow> Val (Inl e) | Inr b \<Rightarrow>
         map_r Inr (i32_add (Val a) (Val b))))"

definition main_309 :: rust_run where
  "main_309 = with_r compute_309 (\<lambda>r. case r of
     Inr v \<Rightarrow> println_i (Val v) | Inl e \<Rightarrow> println (Val (''err: '' @ e)))"

definition double_311 :: "int \<Rightarrow> int rust" where
  "double_311 v = i32_add (Val v) (Val v)"

definition scale_311 :: "int \<Rightarrow> int \<Rightarrow> int rust" where
  "scale_311 v factor = i32_mul (Val v) (Val factor)"

record transform_313 = tx_313 :: int ty_313 :: int
record velocity_313 = vx_313 :: int vy_313 :: int

record bullet_data_313 =
  bx_313 :: int
  by_313 :: int
  bvx_313 :: int
  bvy_313 :: int
  damage_313 :: int

definition spawn_bullet_313 :: "int rust" where
  "spawn_bullet_313 =
     (let bullet = \<lparr>bx_313 = tx_313 \<lparr>tx_313 = 10, ty_313 = 20\<rparr>,
                    by_313 = ty_313 \<lparr>tx_313 = 10, ty_313 = 20\<rparr>,
                    bvx_313 = vx_313 \<lparr>vx_313 = 30, vy_313 = 40\<rparr>,
                    bvy_313 = vy_313 \<lparr>vx_313 = 30, vy_313 = 40\<rparr>,
                    damage_313 = 50\<rparr> in
      i32_add (i32_add (i32_add (i32_add (Val (bx_313 bullet)) (Val (by_313 bullet)))
        (Val (bvx_313 bullet))) (Val (bvy_313 bullet))) (Val (damage_313 bullet)))"

definition main_313 :: rust_run where
  "main_313 = println_i spawn_bullet_313"

section \<open>What the programs promise\<close>

text \<open>The base64 program encodes every group of three bytes: it never panics, and the four
  letters stand for the four sextets of the 24-bit group, most significant first.\<close>

lemma encode_190_correct:
  assumes "0 \<le> a" "a < 256" "0 \<le> b" "b < 256" "0 \<le> c" "c < 256"
  shows "\<exists>q0 q1 q2 q3. encode_190 a b c = Val [b64_190 ! q0, b64_190 ! q1, b64_190 ! q2, b64_190 ! q3] \<and>
    q0 < 64 \<and> q1 < 64 \<and> q2 < 64 \<and> q3 < 64 \<and>
    ((int q0 * 64 + int q1) * 64 + int q2) * 64 + int q3 = (a * 256 + b) * 256 + c"
proof -
  have len: "length b64_190 = 64" by (simp add: b64_190_def)
  define q0 q1 q2 q3 where q: "q0 = a div 4" "q1 = (a mod 4) * 16 + b div 16"
    "q2 = (b mod 16) * 4 + c div 64" "q3 = c mod 64"
  have r: "0 \<le> q0" "q0 < 64" "0 \<le> q1" "q1 < 64" "0 \<le> q2" "q2 < 64" "0 \<le> q3" "q3 < 64"
    and u: "(a mod 4) * 16 \<le> 255" "(b mod 16) * 4 \<le> 255"
    using assms unfolding q by presburger+
  have "encode_190 a b c =
      Val [b64_190 ! nat q0, b64_190 ! nat q1, b64_190 ! nat q2, b64_190 ! nat q3]"
    using r u len assms
    by (simp add: encode_190_def sextets_190_def u8_def ranged_def index_r_def nat_less_iff flip: q)
  moreover have "((q0 * 64 + q1) * 64 + q2) * 64 + q3 = (a * 256 + b) * 256 + c"
    unfolding q by presburger
  ultimately show ?thesis
    using r by (intro exI [of _ "nat q0"] exI [of _ "nat q1"] exI [of _ "nat q2"] exI [of _ "nat q3"])
      (simp add: nat_less_iff)
qed

lemma encode_190_correct_witness:
  "\<exists>q0 q1 q2 q3. encode_190 77 97 110 = Val [b64_190 ! q0, b64_190 ! q1, b64_190 ! q2, b64_190 ! q3] \<and>
    q0 < 64 \<and> q1 < 64 \<and> q2 < 64 \<and> q3 < 64 \<and>
    ((int q0 * 64 + int q1) * 64 + int q2) * 64 + int q3 = (77 * 256 + 97) * 256 + 110"
  using encode_190_correct [of 77 97 110] by simp

text \<open>The value of a numeral with its sign, and what parsing answers outside the range.\<close>

definition signed_nat :: "bool \<Rightarrow> nat \<Rightarrow> int" where
  "signed_nat neg m = (if neg then - int m else int m)"

definition out_of_range :: "bool \<Rightarrow> string" where
  "out_of_range neg = (if neg then ''number too small to fit in target type''
     else ''number too large to fit in target type'')"

lemma digits_val_ge: "digits_val m xs = Some w \<Longrightarrow> m \<le> w"
  by (induction m xs rule: digits_val.induct) (auto split: if_splits)

lemma is_i32_signed_le: "is_i32 (signed_nat neg n) \<Longrightarrow> m \<le> n \<Longrightarrow> is_i32 (signed_nat neg m)"
  by (auto simp: is_i32_def signed_nat_def split: if_splits)

lemma i32_digits_of_dec:
  assumes "\<forall>c \<in> set ds. is_digit c" "is_i32 (signed_nat neg m)" "digits_val m ds = Some v"
  shows "i32_digits neg (signed_nat neg m) ds =
    (if is_i32 (signed_nat neg v) then Inr (signed_nat neg v) else Inl (out_of_range neg))"
  using assms
proof (induction ds arbitrary: m)
  case (Cons c cs)
  have d: "is_digit c" using Cons.prems by simp
  then have c: "48 \<le> byte_val c" by (simp add: is_digit_def)
  define m' where "m' = 10 * m + (byte_val c - 48)"
  have v: "digits_val m' cs = Some v" using Cons.prems(3) d by (simp add: m'_def)
  have acc: "(if neg then signed_nat neg m * 10 - (int (byte_val c) - 48)
      else signed_nat neg m * 10 + (int (byte_val c) - 48)) = signed_nat neg m'"
    using c by (simp add: signed_nat_def m'_def)
  have ten: "signed_nat neg m * 10 = signed_nat neg (10 * m)" by (simp add: signed_nat_def)
  have step: "i32_digits neg (signed_nat neg m) (c # cs) =
      (if is_i32 (signed_nat neg m') then i32_digits neg (signed_nat neg m') cs else Inl (out_of_range neg))"
    using is_i32_signed_le [of neg m' "10 * m"] d
    by (simp add: Let_def acc ten m'_def out_of_range_def)
  show ?case
  proof (cases "is_i32 (signed_nat neg m')")
    case True
    with Cons.IH [OF _ True v] Cons.prems(1) show ?thesis by (simp only: step) simp
  next
    case False
    with is_i32_signed_le [of neg v m'] digits_val_ge [OF v] show ?thesis by (simp only: step) auto
  qed
qed simp

text \<open>Parsing undoes printing.  On the text that \<open>println\<close> shows of any integer, \<open>parse_num\<close>
  answers that integer when it is an \<open>i32\<close>, and otherwise the error that says on which side it is
  out of range.\<close>

lemma parse_num_roundtrip:
  "parse_num_309 (dec_int i) =
    (if is_i32 i then Inr i
     else Inl (if i < 0 then ''number too small to fit in target type''
               else ''number too large to fit in target type''))"
proof -
  define n where "n = nat \<bar>i\<bar>"
  have zero: "is_i32 (signed_nat (i < 0) 0)" by (simp add: signed_nat_def is_i32_def)
  have i: "signed_nat (i < 0) n = i" by (simp add: signed_nat_def n_def)
  obtain c cs where c: "dec_nat n = c # cs" by (cases "dec_nat n") auto
  have ds: "\<forall>c \<in> set (dec_nat n). is_digit c" by (simp add: dec_nat_digits)
  then have "c \<noteq> CHR ''-''" "c \<noteq> CHR ''+''" using c by (auto simp: is_digit_def)
  then have "parse_num_309 (dec_int i) = i32_digits (i < 0) 0 (dec_nat n)"
    using c by (cases "i < 0") (simp_all add: parse_num_309_def parse_i32_def dec_int_def n_def
        del: i32_digits.simps)
  also have "\<dots> = i32_digits (i < 0) (signed_nat (i < 0) 0) (dec_nat n)" by (simp add: signed_nat_def)
  also have "\<dots> = (if is_i32 i then Inr i else Inl (out_of_range (i < 0)))"
    using i32_digits_of_dec [OF ds zero digits_val_dec_nat] by (simp add: i)
  finally show ?thesis by (simp add: out_of_range_def)
qed

text \<open>The references 171 to 313 that are modelled here run without a panic and print these
  lines; the hook of 178 prints before its panic leaves \<open>main\<close>.\<close>

lemma errors_print:
  "list_all (\<lambda>(program, out). prints program out)
    [(main_171, ''0''), (main_172, ''13''), (main_173, ''0''), (main_174, ''3''),
    (main_175, ''invalid config: oops''), (main_176, ''2''), (main_177, ''12''),
    (main_179, ''2''), (main_180, ''3''), (main_183, ''2''), (main_184, ''5''),
    (main_188, ''1''), (main_189, ''6''), (main_190, ''TWFu''), (main_191, ''6''),
    (main_192, ''3''), (main_196, ''19''), (main_197, ''10''), (main_198, ''2''),
    (main_199, ''5''), (main_304, ''a == b: true, a != c: true''),
    (main_305, ''0,1,2,3,-1''), (main_306, ''2''), (main_307, ''30,800,0''),
    (main_308, ''30,100''), (main_309, ''30''), (main_313, ''150'')] \<and>
   main_178 = (line ''1'', Some (Explicit_panic ''trigger''))"
  by code_simp

end
