(* ===== verification/Rosetta_Extensions.thy ===== *)
theory Rosetta_Extensions
  imports Rosetta_Errors
begin

text \<open>
  The reference programs whose meaning rests on something outside the repository or outside Rust
  itself: 117 (inline assembly), 193 (an attribute macro), 301 to 303 (\<open>f32\<close> vectors), and 310 to
  312, which \<open>rustc\<close> does not accept as they stand (a rest pattern written \<open>..rest\<close>, a method call
  on an \<open>i32\<close> that means a function of \<open>math\<close>, a \<open>main\<close> that returns an \<open>i32\<close>) and which are read
  as the language of the repository reads the same text.
\<close>

section \<open>Escapes (117, 193)\<close>

text \<open>The assembly is a comment, with the variable in \<open>eax\<close> before and after.\<close>

definition main_117 :: rust_run where
  "main_117 = (let v = 7; eax = v; v = eax in println_i (Val v))"

text \<open>The attribute macro \<open>rewrite\<close> is not in the repository: it is a function on functions.\<close>

definition rewrite_value_193 :: "int \<Rightarrow> int rust" where
  "rewrite_value_193 v = i32_add (Val v) (Val 0)"

definition main_193 :: "((int \<Rightarrow> int rust) \<Rightarrow> int \<Rightarrow> int rust) \<Rightarrow> rust_run" where
  "main_193 rewrite = (let v = 2 in with_r (rewrite rewrite_value_193 v) (\<lambda>v. println_i (Val v)))"

section \<open>Vectors of f32 (301 to 303)\<close>

text \<open>
  The arithmetic of \<open>f32\<close> is a parameter: its operations, its literals with an integral value, and
  how a value is displayed.
\<close>

record 'f f32_ops =
  f_lit :: "int \<Rightarrow> 'f"
  f_add :: "'f \<Rightarrow> 'f \<Rightarrow> 'f"
  f_mul :: "'f \<Rightarrow> 'f \<Rightarrow> 'f"
  f_neg :: "'f \<Rightarrow> 'f"
  f_eq :: "'f \<Rightarrow> 'f \<Rightarrow> bool"
  f_show :: "'f \<Rightarrow> string"

record 'f vec3_301 = x_301 :: 'f y_301 :: 'f z_301 :: 'f
record 'f vec3_302 = x_302 :: 'f y_302 :: 'f z_302 :: 'f
record 'f vec3_303 = x_303 :: 'f y_303 :: 'f z_303 :: 'f

definition add_301 :: "'f f32_ops \<Rightarrow> 'f vec3_301 \<Rightarrow> 'f vec3_301 \<Rightarrow> 'f vec3_301" where
  "add_301 F self other = \<lparr>x_301 = f_add F (x_301 self) (x_301 other),
     y_301 = f_add F (y_301 self) (y_301 other), z_301 = f_add F (z_301 self) (z_301 other)\<rparr>"

definition neg_302 :: "'f f32_ops \<Rightarrow> 'f vec3_302 \<Rightarrow> 'f vec3_302" where
  "neg_302 F self = \<lparr>x_302 = f_neg F (x_302 self), y_302 = f_neg F (y_302 self),
     z_302 = f_neg F (z_302 self)\<rparr>"

definition mul_303 :: "'f f32_ops \<Rightarrow> 'f vec3_303 \<Rightarrow> 'f \<Rightarrow> 'f vec3_303" where
  "mul_303 F self s = \<lparr>x_303 = f_mul F (x_303 self) s, y_303 = f_mul F (y_303 self) s,
     z_303 = f_mul F (z_303 self) s\<rparr>"

definition show_triple :: "'f f32_ops \<Rightarrow> 'f \<Rightarrow> 'f \<Rightarrow> 'f \<Rightarrow> string" where
  "show_triple F x y z = ''('' @ f_show F x @ '', '' @ f_show F y @ '', '' @ f_show F z @ '')''"

definition assert_run :: "bool \<Rightarrow> rust_run" where
  "assert_run b = (if b then ([], None) else ([], Some Assert_failed))"

definition main_301 :: "'f f32_ops \<Rightarrow> rust_run" where
  "main_301 F =
     (let a = \<lparr>x_301 = f_lit F 1, y_301 = f_lit F 2, z_301 = f_lit F 3\<rparr>;
          b = \<lparr>x_301 = f_lit F 4, y_301 = f_lit F 5, z_301 = f_lit F 6\<rparr>;
          c = add_301 F a b in
      and_then (println (Val (show_triple F (x_301 c) (y_301 c) (z_301 c))))
        (assert_run (f_eq F (x_301 c) (f_lit F 5) \<and> f_eq F (y_301 c) (f_lit F 7) \<and>
           f_eq F (z_301 c) (f_lit F 9))))"

definition main_302 :: "'f f32_ops \<Rightarrow> rust_run" where
  "main_302 F =
     (let a = \<lparr>x_302 = f_lit F 1, y_302 = f_neg F (f_lit F 2), z_302 = f_lit F 3\<rparr>;
          b = neg_302 F a in
      and_then (println (Val (show_triple F (x_302 b) (y_302 b) (z_302 b))))
        (assert_run (f_eq F (x_302 b) (f_neg F (f_lit F 1)) \<and> f_eq F (y_302 b) (f_lit F 2) \<and>
           f_eq F (z_302 b) (f_neg F (f_lit F 3)))))"

definition main_303 :: "'f f32_ops \<Rightarrow> rust_run" where
  "main_303 F =
     (let a = \<lparr>x_303 = f_lit F 1, y_303 = f_lit F 2, z_303 = f_lit F 3\<rparr>;
          b = mul_303 F a (f_lit F 4) in
      and_then (println (Val (show_triple F (x_303 b) (y_303 b) (z_303 b))))
        (assert_run (f_eq F (x_303 b) (f_lit F 4) \<and> f_eq F (y_303 b) (f_lit F 8) \<and>
           f_eq F (z_303 b) (f_lit F 12))))"

section \<open>Patterns and operators (310 to 312)\<close>

record pair_310 = first_310 :: int second_310 :: int third_310 :: int

text \<open>\<open>[_, second, ..rest]\<close> skips the first element, names the second and the slice after it.\<close>

definition blank_identifier_demo_310 :: "int rust" where
  "blank_identifier_demo_310 =
     (let ignored = \<lparr>first_310 = 1, second_310 = 2, third_310 = 3\<rparr>;
          array = [10, 20, 30, 40] in
      bind_r (index_r array 1) (\<lambda>second.
        let rest = drop 2 array; (w2, _) = (7, 8 :: int) in
        i32_add (i32_add (Val second) (index_r rest 0)) (Val w2)))"

definition main_310 :: rust_run where
  "main_310 = with_r blank_identifier_demo_310 (\<lambda>got. assert_run (got = 57))"

record meter_311 = value_311 :: int

text \<open>\<open>use math\<close> makes the functions of \<open>math\<close> methods of their first argument.\<close>

definition meter_double_311 :: "meter_311 \<Rightarrow> int rust" where
  "meter_double_311 m = double_311 (value_311 m)"

definition meter_scale_311 :: "meter_311 \<Rightarrow> int \<Rightarrow> int rust" where
  "meter_scale_311 m factor = scale_311 (value_311 m) factor"

definition main_311 :: rust_run where
  "main_311 =
     (let m = \<lparr>value_311 = 7\<rparr> in
      and_then (with_r (meter_double_311 m) (\<lambda>d. assert_run (d = 14)))
        (with_r (meter_scale_311 m 3) (\<lambda>s. assert_run (s = 21))))"

record vec2_312 = x_312 :: int y_312 :: int

definition add_312 :: "vec2_312 \<Rightarrow> vec2_312 \<Rightarrow> vec2_312 rust" where
  "add_312 self other =
     bind_r (i32_add (Val (x_312 self)) (Val (x_312 other))) (\<lambda>x.
     bind_r (i32_add (Val (y_312 self)) (Val (y_312 other))) (\<lambda>y.
       Inr \<lparr>x_312 = x, y_312 = y\<rparr>))"

text \<open>What \<open>main\<close> prints and the value it returns.\<close>

definition main_312 :: "rust_run \<times> int option" where
  "main_312 =
     (let a = \<lparr>x_312 = 4, y_312 = 6\<rparr>; b = \<lparr>x_312 = 1, y_312 = 3\<rparr> in
      case add_312 a b of
        Inl p \<Rightarrow> (([], Some p), None)
      | Inr c \<Rightarrow>
          (println (Val (''('' @ dec_int (x_312 c) @ '', '' @ dec_int (y_312 c) @ '')'')),
           Some (if x_312 c \<noteq> 5 then 0 else if y_312 c \<noteq> 9 then 0 else 59)))"

definition operator_overload_block_adds_vectors_312 :: rust_run where
  "operator_overload_block_adds_vectors_312 =
     with_r (add_312 \<lparr>x_312 = 4, y_312 = 6\<rparr> \<lparr>x_312 = 1, y_312 = 3\<rparr>) (\<lambda>c.
       and_then (assert_run (x_312 c = 5)) (assert_run (y_312 c = 9)))"

section \<open>What the programs promise\<close>

text \<open>
  What IEEE 754 promises of binary32 on the integers up to \<open>2 ^ 24\<close>: sums, non-zero products and
  negations of non-zero values are exact, different integers are different, and an integer is
  displayed without a fraction.
\<close>

definition exact_f32 :: "'f f32_ops \<Rightarrow> bool" where
  "exact_f32 F \<longleftrightarrow>
     (\<forall>i j. \<bar>i\<bar> \<le> 2 ^ 24 \<and> \<bar>j\<bar> \<le> 2 ^ 24 \<longrightarrow>
       (f_eq F (f_lit F i) (f_lit F j) \<longleftrightarrow> i = j) \<and>
       (\<bar>i + j\<bar> \<le> 2 ^ 24 \<longrightarrow> f_add F (f_lit F i) (f_lit F j) = f_lit F (i + j)) \<and>
       (0 < \<bar>i * j\<bar> \<and> \<bar>i * j\<bar> \<le> 2 ^ 24 \<longrightarrow> f_mul F (f_lit F i) (f_lit F j) = f_lit F (i * j)) \<and>
       (i \<noteq> 0 \<longrightarrow> f_neg F (f_lit F i) = f_lit F (- i)) \<and>
       f_show F (f_lit F i) = dec_int i)"

lemma exact_f32_rules:
  assumes "exact_f32 F" and "\<bar>i\<bar> \<le> 2 ^ 24"
  shows "\<bar>j\<bar> \<le> 2 ^ 24 \<Longrightarrow> \<bar>i + j\<bar> \<le> 2 ^ 24 \<Longrightarrow> f_add F (f_lit F i) (f_lit F j) = f_lit F (i + j)"
    and "\<bar>j\<bar> \<le> 2 ^ 24 \<Longrightarrow> 0 < \<bar>i * j\<bar> \<Longrightarrow> \<bar>i * j\<bar> \<le> 2 ^ 24 \<Longrightarrow>
      f_mul F (f_lit F i) (f_lit F j) = f_lit F (i * j)"
    and "i \<noteq> 0 \<Longrightarrow> f_neg F (f_lit F i) = f_lit F (- i)"
    and "\<bar>j\<bar> \<le> 2 ^ 24 \<Longrightarrow> f_eq F (f_lit F i) (f_lit F j) \<longleftrightarrow> i = j"
    and "f_show F (f_lit F i) = dec_int i"
  using assms unfolding exact_f32_def by blast+

lemma shown_numbers:
  "dec_nat 1 = ''1''" "dec_nat 2 = ''2''" "dec_nat 3 = ''3''" "dec_nat 4 = ''4''" "dec_nat 5 = ''5''"
  "dec_nat 7 = ''7''" "dec_nat 8 = ''8''" "dec_nat 9 = ''9''" "dec_nat 12 = ''12''"
  by code_simp+

text \<open>The overloaded operators compute on their operands.  Whatever \<open>f32\<close> does beyond the exact
  integers, the three vector programs print the sum, the negation and the multiple of their
  vectors, and their assertions hold.\<close>

lemma vectors_print:
  assumes "exact_f32 F"
  shows "prints (main_301 F) ''(5, 7, 9)'' \<and> prints (main_302 F) ''(-1, 2, -3)'' \<and>
    prints (main_303 F) ''(4, 8, 12)''"
  using assms
  by (simp add: main_301_def main_302_def main_303_def add_301_def neg_302_def mul_303_def
      show_triple_def assert_run_def and_then_def exact_f32_rules rust_eval shown_numbers
      del: One_nat_def)

text \<open>The integers themselves satisfy the hypothesis.\<close>

definition int_f32 :: "int f32_ops" where
  "int_f32 = \<lparr>f_lit = id, f_add = (+), f_mul = (*), f_neg = uminus, f_eq = (=), f_show = dec_int\<rparr>"

lemma vectors_print_witness: "prints (main_301 int_f32) ''(5, 7, 9)''"
  using vectors_print [of int_f32] by (simp add: exact_f32_def int_f32_def)

text \<open>The programs that only assert run to their end; the macro of 193 may only replace
  its function by one that agrees with it on the argument; and 312 prints the sum and returns 59.\<close>

lemma extensions_run:
  "prints main_117 ''7'' \<and> main_310 = ([], None) \<and> main_311 = ([], None) \<and>
   prints (fst main_312) ''(5, 9)'' \<and> snd main_312 = Some 59 \<and>
   operator_overload_block_adds_vectors_312 = ([], None) \<and>
   (prints (main_193 rewrite) ''2'' \<longleftrightarrow> rewrite rewrite_value_193 2 = Val 2)"
proof -
  have "prints main_117 ''7''" "main_310 = ([], None)" "main_311 = ([], None)"
    "prints (fst main_312) ''(5, 9)''" "snd main_312 = Some 59"
    "operator_overload_block_adds_vectors_312 = ([], None)" by code_simp+
  moreover have "dec_int v = ''2'' \<longleftrightarrow> v = 2" for v
    using dec_int_inj [of v 2] shown_numbers(2) by (auto simp: rust_eval)
  then have "prints (main_193 rewrite) ''2'' \<longleftrightarrow> rewrite rewrite_value_193 2 = Val 2"
    by (cases "rewrite rewrite_value_193 2") (auto simp: main_193_def)
  ultimately show ?thesis by blast
qed

end
