(* ===== verification/Rosetta_Packages.thy ===== *)
theory Rosetta_Packages
  imports Sla_Rust
begin

text \<open>
  The reference programs \<open>demos/rosetta/201\<close> to \<open>250\<close>: each embeds files of its demo with
  \<open>include_str!\<close> and checks their contents.  The embedded files are the argument \<open>fs\<close>, a map from
  the path as written to the contents.
\<close>

section \<open>Checkers\<close>

definition accepts :: "((string \<Rightarrow> string) \<Rightarrow> rust_run) \<Rightarrow> (string \<Rightarrow> string) \<Rightarrow> bool" where
  "accepts m fs \<longleftrightarrow> prints (m fs) ''1''"

text \<open>
  A monotone checker rejects empty files, and what it accepts it still accepts when the files
  have grown, whatever was added before or after their text.
\<close>

definition monotone_checker :: "((string \<Rightarrow> string) \<Rightarrow> rust_run) \<Rightarrow> bool" where
  "monotone_checker m \<longleftrightarrow>
     \<not> accepts m (\<lambda>_. []) \<and>
     (\<forall>fs gs. (\<forall>p. str_contains (gs p) (fs p)) \<longrightarrow> accepts m fs \<longrightarrow> accepts m gs)"

lemma dec_int_0_1 [simp]: "dec_int 0 = ''0''" "dec_int 1 = ''1''"
  by code_simp+

lemma accepts_bool [simp]:
  "dec_int (bool_i32 b) = ''1'' \<longleftrightarrow> b" "dec_int (if b then 1 else 0) = ''1'' \<longleftrightarrow> b"
  by (simp_all add: bool_i32_def dec_int_0_1)

lemma str_contains_trans: "str_contains g f \<Longrightarrow> str_contains f n \<Longrightarrow> str_contains g n"
  unfolding str_contains_iff by (metis append.assoc)

lemma str_contains_Nil [simp]: "str_contains [] n \<longleftrightarrow> n = []"
  by (simp add: str_contains_iff)

lemma monotone_checkerI:
  assumes "\<not> prints (m (\<lambda>_. [])) ''1''"
    and "\<And>fs gs. (\<And>p n. str_contains (fs p) n \<Longrightarrow> str_contains (gs p) n) \<Longrightarrow>
      prints (m fs) ''1'' \<Longrightarrow> prints (m gs) ''1''"
  shows "monotone_checker m"
  using assms unfolding monotone_checker_def accepts_def by (blast intro: str_contains_trans)

section \<open>The programs\<close>

definition main_202 :: "(string \<Rightarrow> string) \<Rightarrow> rust_run" where
  "main_202 fs =
     (let pkg = fs ''sa.pkg'';
          dep_src = fs ''pkg/local_dep.sa'';
          has_local_path = (str_contains pkg (''path = '' @ [CHR 0x22] @ ''pkg/local_dep.sa'' @ [CHR 0x22]));
          has_local_symbol = (str_contains dep_src ''@local_dep_value()'');
          result = (if has_local_path \<and> has_local_symbol then 1 else 0)
      in println_i (Val result))"

lemma main_202_mono: "monotone_checker main_202"
  by (rule monotone_checkerI) (simp_all add: main_202_def Let_def)

definition main_203 :: "(string \<Rightarrow> string) \<Rightarrow> rust_run" where
  "main_203 fs =
     (let pkg = fs ''sa.pkg'';
          vendor = fs ''vendor/git_dep.sa'';
          has_git_url = (str_contains pkg (''git = '' @ [CHR 0x22] @ ''https://example.invalid/demo-203.git'' @ [CHR 0x22]));
          has_rev = (str_contains pkg (''rev = '' @ [CHR 0x22] @ ''d17c0de'' @ [CHR 0x22]));
          has_vendor_checkout = (str_contains vendor ''@git_dep_value()'');
          result = (if has_git_url \<and> has_rev \<and> has_vendor_checkout then 1 else 0)
      in println_i (Val result))"

lemma main_203_mono: "monotone_checker main_203"
  by (rule monotone_checkerI) (simp_all add: main_203_def Let_def)

definition main_204 :: "(string \<Rightarrow> string) \<Rightarrow> rust_run" where
  "main_204 fs =
     (let pkg = fs ''sa.pkg'';
          codec = fs ''registry/codec.sa'';
          has_registry = (str_contains pkg (''registry = '' @ [CHR 0x22] @ ''sa-lang'' @ [CHR 0x22]));
          has_version = (str_contains pkg (''version = '' @ [CHR 0x22] @ ''1.2.3'' @ [CHR 0x22]));
          has_cached_codec = (str_contains codec ''@codec_value()'');
          result = (if has_registry \<and> has_version \<and> has_cached_codec then 1 else 0)
      in println_i (Val result))"

lemma main_204_mono: "monotone_checker main_204"
  by (rule monotone_checkerI) (simp_all add: main_204_def Let_def)

definition main_205 :: "(string \<Rightarrow> string) \<Rightarrow> rust_run" where
  "main_205 fs =
     (let pkg_a = fs ''pkg_a/main.sa'';
          pkg_b = fs ''pkg_b/main.sa'';
          a_imports_b = (str_contains pkg_a (''@import '' @ [CHR 0x22] @ ''pkg_a/../pkg_b/main.sa'' @ [CHR 0x22]));
          b_imports_a = (str_contains pkg_b (''@import '' @ [CHR 0x22] @ ''pkg_b/../pkg_a/main.sa'' @ [CHR 0x22]));
          result = (if a_imports_b \<and> b_imports_a then 1 else 0)
      in println_i (Val result))"

lemma main_205_mono: "monotone_checker main_205"
  by (rule monotone_checkerI) (simp_all add: main_205_def Let_def)

definition main_207 :: "(string \<Rightarrow> string) \<Rightarrow> rust_run" where
  "main_207 fs =
     (let root = fs ''sa.pkg'';
          resolver = fs ''resolver/index.sa'';
          v1_pkg = fs ''packages/v1_0_0/sa.pkg'';
          v2_pkg = fs ''packages/v2_0_0/sa.pkg'';
          v1_leaf = fs ''packages/v1_0_0/leaf.sa'';
          v2_leaf = fs ''packages/v2_0_0/leaf.sa'';
          same_package = (
            str_contains v1_pkg (''name = '' @ [CHR 0x22] @ ''demo-207-dep'' @ [CHR 0x22]) \<and>
            str_contains v2_pkg (''name = '' @ [CHR 0x22] @ ''demo-207-dep'' @ [CHR 0x22]));
          incompatible_versions = (
            str_contains v1_pkg (''version = '' @ [CHR 0x22] @ ''1.0.0'' @ [CHR 0x22]) \<and>
            str_contains v2_pkg (''version = '' @ [CHR 0x22] @ ''2.0.0'' @ [CHR 0x22]));
          resolver_imports_both = (
            str_contains resolver ''v1_0_0/index.sa'' \<and>
            str_contains resolver ''v2_0_0/index.sa'');
          duplicate_symbol = (
            str_contains v1_leaf ''@dep_value()'' \<and>
            str_contains v2_leaf ''@dep_value()'');
          declared_conflict = (str_contains root ''same public symbol in two versioned packages'');
          conflict_reported = (
            same_package \<and>
            incompatible_versions \<and>
            resolver_imports_both \<and>
            duplicate_symbol \<and>
            declared_conflict)
      in println_i (Val (bool_i32 conflict_reported)))"

lemma main_207_mono: "monotone_checker main_207"
  by (rule monotone_checkerI) (simp_all add: main_207_def Let_def)

definition main_208 :: "(string \<Rightarrow> string) \<Rightarrow> rust_run" where
  "main_208 fs =
     (let pkg = fs ''sa.pkg'';
          main_src = fs ''src/index.sa'';
          dev_test = fs ''dev/tests/index.sa'';
          dev_helper = fs ''dev/helpers/index.sa'';
          declares_dev_dep = (
            str_contains pkg ''dev-dependencies'' \<and>
            str_contains pkg ''dev/helpers'');
          release_path_avoids_dev = (\<not> str_contains main_src ''dev/'');
          dev_path_reuses_helper_flags = (str_contains dev_helper ''src/helpers/flags.sal'');
          dev_tests_use_dev_helpers = (str_contains dev_test ''dev/tests/../helpers/index.sa'');
          result = (
            declares_dev_dep \<and>
            release_path_avoids_dev \<and>
            dev_path_reuses_helper_flags \<and>
            dev_tests_use_dev_helpers)
      in println_i (Val (bool_i32 result)))"

definition main_209 :: "(string \<Rightarrow> string) \<Rightarrow> rust_run" where
  "main_209 fs =
     (let pkg = fs ''sa.pkg'';
          src = fs ''src/index.sa'';
          generated = fs ''build/generated/index.sa'';
          generated_consts = fs ''build/generated/generated.sal'';
          declares_build_dep = (
            str_contains pkg ''build-dependencies'' \<and>
            str_contains pkg ''build/generated'');
          src_imports_generated = (str_contains src ''build/generated/index.sa'');
          generated_uses_artifact = (
            str_contains generated ''generated.sal'' \<and>
            str_contains generated ''@generated_artifact_offset()'');
          artifact_value = (str_contains generated_consts ''BUILD_ARTIFACT_OFFSET = 9'');
          result = (
            declares_build_dep \<and>
            src_imports_generated \<and>
            generated_uses_artifact \<and>
            artifact_value)
      in println_i (Val (bool_i32 result)))"

lemma main_209_mono: "monotone_checker main_209"
  by (rule monotone_checkerI) (simp_all add: main_209_def Let_def)

definition main_210 :: "(string \<Rightarrow> string) \<Rightarrow> rust_run" where
  "main_210 fs =
     (let root = fs ''sa.pkg'';
          workspace = fs ''workspace/index.sa'';
          alpha_pkg = fs ''workspace/members/alpha/sa.pkg'';
          beta_pkg = fs ''workspace/members/beta/sa.pkg'';
          root_lists_alpha = (str_contains root ''workspace/members/alpha'');
          root_lists_beta = (str_contains root ''workspace/members/beta'');
          workspace_imports_members = (
            str_contains workspace ''alpha/index.sa'' \<and>
            str_contains workspace ''beta/index.sa'');
          named_members = (
            str_contains alpha_pkg ''demo-210-alpha'' \<and>
            str_contains beta_pkg ''demo-210-beta'');
          result = (
            root_lists_alpha \<and>
            root_lists_beta \<and>
            workspace_imports_members \<and>
            named_members)
      in println_i (Val (bool_i32 result)))"

lemma main_210_mono: "monotone_checker main_210"
  by (rule monotone_checkerI) (simp_all add: main_210_def Let_def)

definition main_211 :: "(string \<Rightarrow> string) \<Rightarrow> rust_run" where
  "main_211 fs =
     (let root = fs ''sa.pkg'';
          workspace = fs ''workspace/index.sa'';
          shared_config = fs ''workspace/shared/config.sal'';
          shared_pkg = fs ''workspace/shared/sa.pkg'';
          app_pkg = fs ''workspace/members/app/sa.pkg'';
          tool_pkg = fs ''workspace/members/tool/sa.pkg'';
          app_helper = fs ''workspace/members/app/helpers/index.sa'';
          tool_helper = fs ''workspace/members/tool/helpers/index.sa'';
          members_declared = (
            str_contains root ''workspace/members/app'' \<and>
            str_contains root ''workspace/members/tool'');
          shared_imported = (
            str_contains workspace ''workspace/shared/index.sa'' \<and>
            str_contains shared_pkg ''workspace-shared'');
          shared_constants = (
            str_contains shared_config ''WORKSPACE_BASE = 100'' \<and>
            str_contains shared_config ''WORKSPACE_SHARED = 11'');
          members_named = (
            str_contains app_pkg ''demo-211-app'' \<and>
            str_contains tool_pkg ''demo-211-tool'');
          helpers_take_shared_values = (
            str_contains app_helper ''shared: i32'' \<and>
            str_contains tool_helper ''base: i32'');
          inherited = (
            members_declared \<and>
            shared_imported \<and>
            shared_constants \<and>
            members_named \<and>
            helpers_take_shared_values)
      in println_i (Val (bool_i32 inherited)))"

lemma main_211_mono: "monotone_checker main_211"
  by (rule monotone_checkerI) (simp_all add: main_211_def Let_def)

definition main_212 :: "(string \<Rightarrow> string) \<Rightarrow> rust_run" where
  "main_212 fs =
     (let pkg = fs ''sa.pkg'';
          root = fs ''src/index.sa'';
          flags = fs ''src/flags/index.sa'';
          flag_defs = fs ''src/flags/helpers/flags.sal'';
          helper = fs ''src/flags/helpers/index.sa'';
          package_named = (str_contains pkg (''name = '' @ [CHR 0x22] @ ''demo-212'' @ [CHR 0x22]));
          nested_feature_module = (
            str_contains root ''src/flags/index.sa'' \<and>
            str_contains flags ''src/flags/helpers/index.sa'');
          feature_constants = (
            str_contains flag_defs ''FLAG_ALPHA'' \<and>
            str_contains flag_defs ''FLAG_BETA'' \<and>
            str_contains flag_defs ''FLAG_GAMMA'');
          helper_combines_flags = (
            str_contains helper ''FLAG_ALPHA'' \<and>
            str_contains helper ''FLAG_BETA'' \<and>
            str_contains helper ''FLAG_GAMMA'');
          feature_layout = (
            package_named \<and>
            nested_feature_module \<and>
            feature_constants \<and>
            helper_combines_flags)
      in println_i (Val (bool_i32 feature_layout)))"

lemma main_212_mono: "monotone_checker main_212"
  by (rule monotone_checkerI) (simp_all add: main_212_def Let_def)

definition main_213 :: "(string \<Rightarrow> string) \<Rightarrow> rust_run" where
  "main_213 fs =
     (let pkg = fs ''sa.pkg'';
          root = fs ''src/index.sa'';
          defaults = fs ''src/defaults/index.sa'';
          default_defs = fs ''src/defaults/helpers/defaults.sal'';
          helper = fs ''src/defaults/helpers/index.sa'';
          package_named = (str_contains pkg (''name = '' @ [CHR 0x22] @ ''demo-213'' @ [CHR 0x22]));
          nested_defaults_module = (
            str_contains root ''src/defaults/index.sa'' \<and>
            str_contains defaults ''src/defaults/helpers/index.sa'');
          default_constant = (str_contains default_defs ''DEFAULT_OFFSET = 13'');
          helper_uses_default = (str_contains helper ''DEFAULT_OFFSET'');
          default_layout = (
            package_named \<and>
            nested_defaults_module \<and>
            default_constant \<and>
            helper_uses_default)
      in println_i (Val (bool_i32 default_layout)))"

lemma main_213_mono: "monotone_checker main_213"
  by (rule monotone_checkerI) (simp_all add: main_213_def Let_def)

definition main_214 :: "(string \<Rightarrow> string) \<Rightarrow> rust_run" where
  "main_214 fs =
     (let pkg = fs ''sa.pkg'';
          root = fs ''src/index.sa'';
          target_index = fs ''src/targets/index.sa'';
          target_defs = fs ''src/targets/helpers/target.sal'';
          helper = fs ''src/targets/helpers/index.sa'';
          native = fs ''src/targets/helpers/native.sa'';
          portable = fs ''src/targets/helpers/portable.sa'';
          package_named = (str_contains pkg (''name = '' @ [CHR 0x22] @ ''demo-214'' @ [CHR 0x22]));
          target_module = (
            str_contains root ''src/targets/index.sa'' \<and>
            str_contains target_index ''target.sal'');
          target_switch = (
            str_contains target_defs ''TARGET_NATIVE = 1'' \<and>
            str_contains helper ''L_NATIVE'' \<and>
            str_contains helper ''L_PORTABLE'');
          both_branches_present = (
            str_contains native ''@native_target_value()'' \<and>
            str_contains portable ''@portable_target_value()'');
          target_specific = (
            package_named \<and>
            target_module \<and>
            target_switch \<and>
            both_branches_present)
      in println_i (Val (bool_i32 target_specific)))"

lemma main_214_mono: "monotone_checker main_214"
  by (rule monotone_checkerI) (simp_all add: main_214_def Let_def)

definition main_215 :: "(string \<Rightarrow> string) \<Rightarrow> rust_run" where
  "main_215 fs =
     (let pkg = fs ''sa.pkg'';
          root = fs ''src/index.sa'';
          patches = fs ''src/patches/index.sa'';
          helper = fs ''src/patches/helpers/index.sa'';
          upstream = fs ''src/patches/helpers/upstream.sa'';
          override_src = fs ''src/patches/helpers/override.sa'';
          patch_defs = fs ''src/patches/helpers/patch.sal'';
          package_named = (str_contains pkg (''name = '' @ [CHR 0x22] @ ''demo-215'' @ [CHR 0x22]));
          patch_module = (
            str_contains root ''src/patches/index.sa'' \<and>
            str_contains patches ''src/patches/helpers/index.sa'');
          override_wraps_upstream = (
            str_contains helper ''override.sa'' \<and>
            str_contains override_src ''upstream.sa'' \<and>
            str_contains upstream ''@upstream_patch_value()'');
          patch_bias = (
            str_contains patch_defs ''PATCH_BIAS = 5'' \<and>
            str_contains override_src ''PATCH_BIAS'');
          patched = (
            package_named \<and>
            patch_module \<and>
            override_wraps_upstream \<and>
            patch_bias)
      in println_i (Val (bool_i32 patched)))"

lemma main_215_mono: "monotone_checker main_215"
  by (rule monotone_checkerI) (simp_all add: main_215_def Let_def)

definition main_216 :: "(string \<Rightarrow> string) \<Rightarrow> rust_run" where
  "main_216 fs =
     (let pkg = fs ''sa.pkg'';
          root = fs ''src/index.sa'';
          profile = fs ''src/profiles/release/index.sa'';
          helper = fs ''src/profiles/release/helpers/index.sa'';
          profile_defs = fs ''src/profiles/release/helpers/profile.sal'';
          package_named = (str_contains pkg (''name = '' @ [CHR 0x22] @ ''demo-216'' @ [CHR 0x22]));
          release_tree = (
            str_contains root ''src/profiles/release/index.sa'' \<and>
            str_contains profile ''helpers/index.sa'');
          release_helper = (
            str_contains helper ''@release_helper_value()'' \<and>
            str_contains helper ''PROFILE_OFFSET'');
          release_constant = (str_contains profile_defs ''PROFILE_OFFSET = 16'');
          release_profile = (
            package_named \<and>
            release_tree \<and>
            release_helper \<and>
            release_constant)
      in println_i (Val (bool_i32 release_profile)))"

lemma main_216_mono: "monotone_checker main_216"
  by (rule monotone_checkerI) (simp_all add: main_216_def Let_def)

definition main_217 :: "(string \<Rightarrow> string) \<Rightarrow> rust_run" where
  "main_217 fs =
     (let pkg = fs ''sa.pkg'';
          root = fs ''src/index.sa'';
          profile = fs ''src/profiles/debug/index.sa'';
          helper = fs ''src/profiles/debug/helpers/index.sa'';
          profile_defs = fs ''src/profiles/debug/helpers/profile.sal'';
          package_named = (str_contains pkg (''name = '' @ [CHR 0x22] @ ''demo-217'' @ [CHR 0x22]));
          debug_tree = (
            str_contains root ''src/profiles/debug/index.sa'' \<and>
            str_contains profile ''helpers/index.sa'');
          debug_helper = (
            str_contains helper ''@debug_helper_value()'' \<and>
            str_contains helper ''PROFILE_OFFSET'');
          debug_constant = (str_contains profile_defs ''PROFILE_OFFSET = 17'');
          debug_profile = (
            package_named \<and>
            debug_tree \<and>
            debug_helper \<and>
            debug_constant)
      in println_i (Val (bool_i32 debug_profile)))"

lemma main_217_mono: "monotone_checker main_217"
  by (rule monotone_checkerI) (simp_all add: main_217_def Let_def)

definition main_218 :: "(string \<Rightarrow> string) \<Rightarrow> rust_run" where
  "main_218 fs =
     (let pkg = fs ''sa.pkg'';
          root = fs ''src/index.sa'';
          metadata = fs ''src/metadata/index.sa'';
          helper = fs ''src/metadata/helpers/index.sa'';
          metadata_defs = fs ''src/metadata/helpers/metadata.sal'';
          package_named = (str_contains pkg (''name = '' @ [CHR 0x22] @ ''demo-218'' @ [CHR 0x22]));
          custom_metadata = (str_contains pkg (''custom-key = '' @ [CHR 0x22] @ ''metadata tree'' @ [CHR 0x22]));
          metadata_tree = (
            str_contains root ''src/metadata/index.sa'' \<and>
            str_contains metadata ''helpers/index.sa'');
          metadata_helper = (
            str_contains helper ''@metadata_helper_value()'' \<and>
            str_contains metadata_defs ''METADATA_OFFSET = 18'');
          metadata_layout = (
            package_named \<and>
            custom_metadata \<and>
            metadata_tree \<and>
            metadata_helper)
      in println_i (Val (bool_i32 metadata_layout)))"

lemma main_218_mono: "monotone_checker main_218"
  by (rule monotone_checkerI) (simp_all add: main_218_def Let_def)

definition main_219 :: "(string \<Rightarrow> string) \<Rightarrow> rust_run" where
  "main_219 fs =
     (let pkg = fs ''sa.pkg'';
          bins = fs ''bin/index.sa'';
          alpha = fs ''bin/alpha/index.sa'';
          beta = fs ''bin/beta/index.sa'';
          alpha_defs = fs ''bin/alpha/helpers/alpha.sal'';
          beta_defs = fs ''bin/beta/helpers/beta.sal'';
          package_named = (str_contains pkg (''name = '' @ [CHR 0x22] @ ''demo-219'' @ [CHR 0x22]));
          declares_both_bins = (str_contains pkg ''bin/alpha'' \<and> str_contains pkg ''bin/beta'');
          aggregate_imports_both = (
            str_contains bins ''bin/alpha/index.sa'' \<and>
            str_contains bins ''bin/beta/index.sa'');
          bin_entries_exist = (
            str_contains alpha ''@alpha_bin_value()'' \<and>
            str_contains beta ''@beta_bin_value()'');
          bin_values_defined = (
            str_contains alpha_defs ''ALPHA_BIN_VALUE = 100'' \<and>
            str_contains beta_defs ''BETA_BIN_VALUE = 119'');
          multiple_bins = (
            package_named \<and>
            declares_both_bins \<and>
            aggregate_imports_both \<and>
            bin_entries_exist \<and>
            bin_values_defined)
      in println_i (Val (bool_i32 multiple_bins)))"

lemma main_219_mono: "monotone_checker main_219"
  by (rule monotone_checkerI) (simp_all add: main_219_def Let_def)

definition main_220 :: "(string \<Rightarrow> string) \<Rightarrow> rust_run" where
  "main_220 fs =
     (let pkg = fs ''sa.pkg'';
          host = fs ''host/index.sa'';
          host_defs = fs ''host/helpers/host.sal'';
          iface = fs ''lib/iface.sai'';
          lib = fs ''lib/index.sa'';
          lib_impl = fs ''lib/impl/index.sa'';
          lib_defs = fs ''lib/impl/helpers/lib.sal'';
          package_split = (
            str_contains pkg (''library = '' @ [CHR 0x22] @ ''lib'' @ [CHR 0x22]) \<and>
            str_contains pkg (''host = '' @ [CHR 0x22] @ ''host'' @ [CHR 0x22]));
          host_consumes_iface = (
            str_contains host ''lib/iface.sai'' \<and>
            str_contains iface ''@extern sa_library_dynamic_value()'');
          lib_exports_iface = (
            str_contains lib ''@export sa_library_dynamic_value()'' \<and>
            str_contains lib_impl ''helpers/index.sa'');
          values_defined = (
            str_contains host_defs ''HOST_WRAPPER_BONUS = 40'' \<and>
            str_contains lib_defs ''LIB_DYNAMIC_VALUE = 180'');
          dynamic_layout = (
            package_split \<and>
            host_consumes_iface \<and>
            lib_exports_iface \<and>
            values_defined)
      in println_i (Val (bool_i32 dynamic_layout)))"

lemma main_220_mono: "monotone_checker main_220"
  by (rule monotone_checkerI) (simp_all add: main_220_def Let_def)

definition main_221 :: "(string \<Rightarrow> string) \<Rightarrow> rust_run" where
  "main_221 fs =
     (let helper = fs ''helper.sa'';
          step = fs ''chain/step.sa'';
          seed = fs ''chain/deeper/seed.sa'';
          helper_imports_step = (
            str_contains helper (''@import '' @ [CHR 0x22] @ ''chain/step.sa'' @ [CHR 0x22]) \<and>
            str_contains helper ''@helper_value()'');
          step_imports_seed = (
            str_contains step (''@import '' @ [CHR 0x22] @ ''chain/deeper/seed.sa'' @ [CHR 0x22]) \<and>
            str_contains step ''@export step_value()'');
          seed_exports_value = (str_contains seed ''@export seed_value()'');
          relative_chain = (
            helper_imports_step \<and>
            step_imports_seed \<and>
            seed_exports_value)
      in println_i (Val (bool_i32 relative_chain)))"

lemma main_221_mono: "monotone_checker main_221"
  by (rule monotone_checkerI) (simp_all add: main_221_def Let_def)

definition main_222 :: "(string \<Rightarrow> string) \<Rightarrow> rust_run" where
  "main_222 fs =
     (let root = fs ''shared/root/index.sa'';
          codec = fs ''shared/root/codec/index.sa'';
          leaf = fs ''shared/root/codec/leaf.sa'';
          root_imports_codec = (
            str_contains root (''@import '' @ [CHR 0x22] @ ''shared/root/codec/index.sa'' @ [CHR 0x22]) \<and>
            str_contains root ''@export shared_root_value()'');
          codec_imports_leaf = (
            str_contains codec (''@import '' @ [CHR 0x22] @ ''shared/root/codec/leaf.sa'' @ [CHR 0x22]) \<and>
            str_contains codec ''@export shared_root_codec()'');
          leaf_exports_value = (str_contains leaf ''@export shared_root_leaf()'');
          absolute_tree = (
            root_imports_codec \<and>
            codec_imports_leaf \<and>
            leaf_exports_value)
      in println_i (Val (bool_i32 absolute_tree)))"

lemma main_222_mono: "monotone_checker main_222"
  by (rule monotone_checkerI) (simp_all add: main_222_def Let_def)

definition main_223 :: "(string \<Rightarrow> string) \<Rightarrow> rust_run" where
  "main_223 fs =
     (let public = fs ''public/index.sa'';
          bridge = fs ''internal/bridge.sa'';
          seed = fs ''internal/detail/seed.sa'';
          public_wraps_internal = (
            str_contains public ''public/../internal/bridge.sa'' \<and>
            str_contains public ''@export public_value()'');
          internal_imports_detail = (
            str_contains bridge ''internal/detail/seed.sa'' \<and>
            str_contains bridge ''@export internal_value()'');
          private_detail_exists = (str_contains seed ''@export private_seed()'');
          public_file_avoids_detail = (
            \<not> str_contains public ''internal/detail/seed.sa'' \<and>
            \<not> str_contains public ''private_seed'');
          visibility_layout = (
            public_wraps_internal \<and>
            internal_imports_detail \<and>
            private_detail_exists \<and>
            public_file_avoids_detail)
      in println_i (Val (bool_i32 visibility_layout)))"

definition main_224 :: "(string \<Rightarrow> string) \<Rightarrow> rust_run" where
  "main_224 fs =
     (let bridge = fs ''bridge/index.sa'';
          value = fs ''bridge/deep/value.sa'';
          seed = fs ''bridge/deep/seed.sa'';
          bridge_reexports_deep = (
            str_contains bridge ''bridge/deep/value.sa'' \<and>
            str_contains bridge ''@export bridge_value()'');
          deep_value_imports_seed = (
            str_contains value ''bridge/deep/seed.sa'' \<and>
            str_contains value ''@export deep_value()'');
          seed_exports_value = (str_contains seed ''@export deep_seed()'');
          public_surface_hides_seed = (\<not> str_contains bridge ''deep_seed'');
          reexport_layout = (
            bridge_reexports_deep \<and>
            deep_value_imports_seed \<and>
            seed_exports_value \<and>
            public_surface_hides_seed)
      in println_i (Val (bool_i32 reexport_layout)))"

definition main_225 :: "(string \<Rightarrow> string) \<Rightarrow> rust_run" where
  "main_225 fs =
     (let index = fs ''ns/prefix/index.sa'';
          alpha = fs ''ns/prefix/alpha.sa'';
          beta = fs ''ns/prefix/beta.sa'';
          namespace_folder = (
            str_contains index ''ns/prefix/alpha.sa'' \<and>
            str_contains index ''ns/prefix/beta.sa'');
          namespace_exports = (str_contains index ''@export ns_prefix_value()'');
          prefixed_symbols = (
            str_contains alpha ''@export ns_prefix_alpha()'' \<and>
            str_contains beta ''@export ns_prefix_beta()'');
          namespace_layout = (namespace_folder \<and> namespace_exports \<and> prefixed_symbols)
      in println_i (Val (bool_i32 namespace_layout)))"

lemma main_225_mono: "monotone_checker main_225"
  by (rule monotone_checkerI) (simp_all add: main_225_def Let_def)

definition main_226 :: "(string \<Rightarrow> string) \<Rightarrow> rust_run" where
  "main_226 fs =
     (let entry = fs ''cycle/index.sa'';
          core = fs ''cycle/core/index.sa'';
          a = fs ''cycle/core/a.sa'';
          b = fs ''cycle/core/b.sa'';
          alpha = fs ''cycle/alpha/index.sa'';
          beta = fs ''cycle/beta/index.sa'';
          gamma = fs ''cycle/gamma/index.sa'';
          entry_reaches_core = (
            str_contains entry ''cycle/core/index.sa'' \<and>
            str_contains core ''cycle/core/a.sa'');
          core_cycle = (
            str_contains a ''cycle/core/b.sa'' \<and>
            str_contains b ''cycle/core/a.sa'');
          sibling_cycle = (
            str_contains alpha ''../beta/index.sa'' \<and>
            str_contains beta ''../gamma/index.sa'' \<and>
            str_contains gamma ''../alpha/index.sa'');
          diagnostic_fixture = (entry_reaches_core \<and> core_cycle \<and> sibling_cycle)
      in println_i (Val (bool_i32 diagnostic_fixture)))"

lemma main_226_mono: "monotone_checker main_226"
  by (rule monotone_checkerI) (simp_all add: main_226_def Let_def)

definition main_227 :: "(string \<Rightarrow> string) \<Rightarrow> rust_run" where
  "main_227 fs =
     (let registry = fs ''shadow/registry/index.sa'';
          left = fs ''shadow/left/index.sa'';
          right = fs ''shadow/right/index.sa'';
          left_layout = fs ''shadow/left/layout.sal'';
          right_layout = fs ''shadow/right/layout.sal'';
          registry_imports_both = (
            str_contains registry ''../left/index.sa'' \<and>
            str_contains registry ''../right/index.sa'');
          both_use_layouts = (
            str_contains left ''shadow/left/layout.sal'' \<and>
            str_contains right ''shadow/right/layout.sal'');
          duplicate_defs = (
            str_contains left_layout ''#def SHADOW_SIZE'' \<and>
            str_contains right_layout ''#def SHADOW_SIZE'');
          conflicting_values = (
            str_contains left_layout ''SHADOW_SIZE = 227'' \<and>
            str_contains right_layout ''SHADOW_SIZE = 900'');
          shadow_fixture = (
            registry_imports_both \<and>
            both_use_layouts \<and>
            duplicate_defs \<and>
            conflicting_values)
      in println_i (Val (bool_i32 shadow_fixture)))"

lemma main_227_mono: "monotone_checker main_227"
  by (rule monotone_checkerI) (simp_all add: main_227_def Let_def)

definition main_228 :: "(string \<Rightarrow> string) \<Rightarrow> rust_run" where
  "main_228 fs =
     (let api = fs ''api/contract.sai'';
          layout = fs ''layout/contract.sal'';
          implementation = fs ''impl/contract.sa'';
          iface_declared = (
            str_contains api ''@extern contract_score_contract'' \<and>
            str_contains api ''ptr'');
          layout_declared = (
            str_contains layout ''Contract_SIZE = 4'' \<and>
            str_contains layout ''Contract_value = +0'');
          impl_exports_score = (
            str_contains implementation ''@export contract_score'' \<and>
            str_contains implementation ''Contract_value'');
          separated_layers = (iface_declared \<and> layout_declared \<and> impl_exports_score)
      in println_i (Val (bool_i32 separated_layers)))"

lemma main_228_mono: "monotone_checker main_228"
  by (rule monotone_checkerI) (simp_all add: main_228_def Let_def)

definition main_229 :: "(string \<Rightarrow> string) \<Rightarrow> rust_run" where
  "main_229 fs =
     (let api = fs ''api/record.sai'';
          layout = fs ''layout/record.sal'';
          bridge = fs ''bridge/record.sa'';
          iface_declared = (
            str_contains api ''@extern record_mix_contract'' \<and>
            str_contains api ''ptr'');
          layout_declared = (
            str_contains layout ''Record_SIZE = 8'' \<and>
            str_contains layout ''Record_lo = +0'' \<and>
            str_contains layout ''Record_hi = +4'');
          wrapper_uses_layout = (
            str_contains bridge ''@ffi_wrapper record_mix'' \<and>
            str_contains bridge ''Record_lo'' \<and>
            str_contains bridge ''Record_hi'');
          layout_injected = (iface_declared \<and> layout_declared \<and> wrapper_uses_layout)
      in println_i (Val (bool_i32 layout_injected)))"

lemma main_229_mono: "monotone_checker main_229"
  by (rule monotone_checkerI) (simp_all add: main_229_def Let_def)

definition main_230 :: "(string \<Rightarrow> string) \<Rightarrow> rust_run" where
  "main_230 fs =
     (let prelude = fs ''prelude/index.sa'';
          iface = fs ''prelude/index.sai'';
          layout = fs ''prelude/index.sal'';
          seed = fs ''prelude/core/seed.sa'';
          prelude_imports_layers = (
            str_contains prelude ''prelude/index.sai'' \<and>
            str_contains prelude ''prelude/index.sal'' \<and>
            str_contains prelude ''prelude/core/seed.sa'');
          iface_declares_contracts = (
            str_contains iface ''prelude_seed_contract'' \<and>
            str_contains iface ''prelude_value_contract'');
          layout_declares_slot = (
            str_contains layout ''Prelude_SIZE = 4'' \<and>
            str_contains layout ''Prelude_value = +0'');
          seed_exported = (str_contains seed ''@export prelude_seed()'');
          prelude_layout = (
            prelude_imports_layers \<and>
            iface_declares_contracts \<and>
            layout_declares_slot \<and>
            seed_exported)
      in println_i (Val (bool_i32 prelude_layout)))"

lemma main_230_mono: "monotone_checker main_230"
  by (rule monotone_checkerI) (simp_all add: main_230_def Let_def)

definition main_231 :: "(string \<Rightarrow> string) \<Rightarrow> rust_run" where
  "main_231 fs =
     (let module_root = fs ''module/index.sa'';
          module_leaf = fs ''module/leaf.sa'';
          tree_root = fs ''module/tree/index.sa'';
          tree_leaf = fs ''module/tree/leaf.sa'';
          root_imports_tree = (
            str_contains module_root ''module/tree/index.sa'' \<and>
            str_contains module_root ''@export directory_value()'');
          tree_imports_leaf = (
            str_contains tree_root ''module/tree/leaf.sa'' \<and>
            str_contains tree_root ''@export module_tree_value()'');
          tree_leaf_exports = (str_contains tree_leaf ''@export module_leaf_value()'');
          sibling_leaf_is_separate = (
            str_contains module_leaf ''@leaf_value()'' \<and>
            \<not> str_contains module_root ''module/leaf.sa'');
          directory_module = (
            root_imports_tree \<and>
            tree_imports_leaf \<and>
            tree_leaf_exports \<and>
            sibling_leaf_is_separate)
      in println_i (Val (bool_i32 directory_module)))"

definition main_232 :: "(string \<Rightarrow> string) \<Rightarrow> rust_run" where
  "main_232 fs =
     (let selector = fs ''profiles/index.sa'';
          native = fs ''profiles/native/index.sa'';
          native_seed = fs ''profiles/native/detail/seed.sa'';
          portable = fs ''profiles/portable/index.sa'';
          portable_seed = fs ''profiles/portable/detail/seed.sa'';
          selector_has_both_branches = (
            str_contains selector ''profiles/native/index.sa'' \<and>
            str_contains selector ''profiles/portable/index.sa'');
          selector_chooses_native = (
            str_contains selector ''call @native_value()'' \<and>
            \<not> str_contains selector ''call @portable_value()'');
          native_branch_complete = (
            str_contains native ''native/detail/seed.sa'' \<and>
            str_contains native_seed ''@export native_seed()'');
          portable_branch_complete = (
            str_contains portable ''portable/detail/seed.sa'' \<and>
            str_contains portable_seed ''@export portable_seed()'');
          conditional_import = (
            selector_has_both_branches \<and>
            selector_chooses_native \<and>
            native_branch_complete \<and>
            portable_branch_complete)
      in println_i (Val (bool_i32 conditional_import)))"

definition main_233 :: "(string \<Rightarrow> string) \<Rightarrow> rust_run" where
  "main_233 fs =
     (let alias = fs ''alias/index.sa'';
          deep = fs ''alias/deep/index.sa'';
          seed = fs ''alias/deep/seed.sa'';
          alias_wraps_deep = (
            str_contains alias ''alias/deep/index.sa'' \<and>
            str_contains alias ''@export alias_value()'');
          deep_imports_seed = (
            str_contains deep ''alias/deep/seed.sa'' \<and>
            str_contains deep ''@export alias_deep_value()'');
          seed_exported = (str_contains seed ''@export alias_seed()'');
          short_surface_hides_seed = (\<not> str_contains alias ''alias_seed'');
          alias_import = (
            alias_wraps_deep \<and>
            deep_imports_seed \<and>
            seed_exported \<and>
            short_surface_hides_seed)
      in println_i (Val (bool_i32 alias_import)))"

definition main_234 :: "(string \<Rightarrow> string) \<Rightarrow> rust_run" where
  "main_234 fs =
     (let lint = fs ''lint/index.sa'';
          used = fs ''lint/used/index.sa'';
          used_seed = fs ''lint/used/detail/seed.sa'';
          unused = fs ''lint/unused/index.sa'';
          unused_seed = fs ''lint/unused/detail/seed.sa'';
          imports_both = (
            str_contains lint ''lint/used/index.sa'' \<and>
            str_contains lint ''lint/unused/index.sa'');
          only_used_called = (
            str_contains lint ''call @lint_used_value()'' \<and>
            \<not> str_contains lint ''call @lint_unused_value()'');
          used_branch_complete = (
            str_contains used ''lint/used/detail/seed.sa'' \<and>
            str_contains used_seed ''@export lint_used_seed()'');
          unused_branch_complete = (
            str_contains unused ''lint/unused/detail/seed.sa'' \<and>
            str_contains unused_seed ''@export lint_unused_seed()'');
          unused_lint_fixture = (
            imports_both \<and>
            only_used_called \<and>
            used_branch_complete \<and>
            unused_branch_complete)
      in println_i (Val (bool_i32 unused_lint_fixture)))"

definition main_235 :: "(string \<Rightarrow> string) \<Rightarrow> rust_run" where
  "main_235 fs =
     (let dep = fs ''dep/index.sa'';
          mid = fs ''dep/mid.sa'';
          leaf = fs ''dep/leaf.sa'';
          legacy_mid = fs ''mid.sa'';
          legacy_leaf = fs ''leaf.sa'';
          dep_imports_mid = (
            str_contains dep ''dep/mid.sa'' \<and>
            str_contains dep ''@export transitive_value()'');
          mid_imports_leaf = (
            str_contains mid ''dep/leaf.sa'' \<and>
            str_contains mid ''@export dep_mid_value()'');
          leaf_exports_value = (str_contains leaf ''@export dep_leaf_value()'');
          older_flat_path_kept = (
            str_contains legacy_mid (''@import '' @ [CHR 0x22] @ ''leaf.sa'' @ [CHR 0x22]) \<and>
            str_contains legacy_leaf ''@leaf_value()'');
          transitive_dependency = (
            dep_imports_mid \<and>
            mid_imports_leaf \<and>
            leaf_exports_value \<and>
            older_flat_path_kept)
      in println_i (Val (bool_i32 transitive_dependency)))"

lemma main_235_mono: "monotone_checker main_235"
  by (rule monotone_checkerI) (simp_all add: main_235_def Let_def)

definition main_236 :: "(string \<Rightarrow> string) \<Rightarrow> rust_run" where
  "main_236 fs =
     (let group = fs ''ffi/group/index.sa'';
          iface = fs ''ffi/group/index.sai'';
          layout = fs ''ffi/group/layout.sal'';
          bridge = fs ''ffi/group/bridge.sa'';
          seed = fs ''ffi/group/core/seed.sa'';
          group_imports_layers = (
            str_contains group ''index.sai'' \<and>
            str_contains group ''layout.sal'' \<and>
            str_contains group ''bridge.sa'');
          grouped_contracts = (
            str_contains iface ''ffi_probe_contract'' \<and>
            str_contains iface ''ffi_reset_contract'');
          shared_layout = (
            str_contains layout ''Group_SIZE = 4'' \<and>
            str_contains layout ''Group_value = +0'');
          bridge_exports_both = (
            str_contains bridge ''@export ffi_probe'' \<and>
            str_contains bridge ''@export ffi_reset'' \<and>
            str_contains bridge ''core/seed.sa'');
          seed_exported = (str_contains seed ''@export ffi_seed()'');
          extern_group = (
            group_imports_layers \<and>
            grouped_contracts \<and>
            shared_layout \<and>
            bridge_exports_both \<and>
            seed_exported)
      in println_i (Val (bool_i32 extern_group)))"

lemma main_236_mono: "monotone_checker main_236"
  by (rule monotone_checkerI) (simp_all add: main_236_def Let_def)

definition main_237 :: "(string \<Rightarrow> string) \<Rightarrow> rust_run" where
  "main_237 fs =
     (let submodule = fs ''submodule/index.sa'';
          inline = fs ''submodule/inline/index.sa'';
          seed = fs ''submodule/inline/deep/seed.sa'';
          outer_imports_inline = (
            str_contains submodule ''submodule/inline/index.sa'' \<and>
            str_contains submodule ''@export submodule_value()'');
          inline_imports_seed = (
            str_contains inline ''submodule/inline/deep/seed.sa'' \<and>
            str_contains inline ''@export inline_value()'');
          seed_exported = (str_contains seed ''@export inline_seed()'');
          inline_submodule = (outer_imports_inline \<and> inline_imports_seed \<and> seed_exported)
      in println_i (Val (bool_i32 inline_submodule)))"

lemma main_237_mono: "monotone_checker main_237"
  by (rule monotone_checkerI) (simp_all add: main_237_def Let_def)

definition main_239 :: "(string \<Rightarrow> string) \<Rightarrow> rust_run" where
  "main_239 fs =
     (let versions = fs ''versions/index.sa'';
          v1 = fs ''versions/v1/index.sa'';
          v1_layout = fs ''versions/v1/layout.sal'';
          v1_seed = fs ''versions/v1/seed.sa'';
          v2 = fs ''versions/v2/index.sa'';
          v2_layout = fs ''versions/v2/layout.sal'';
          v2_seed = fs ''versions/v2/seed.sa'';
          aggregate_imports_both = (
            str_contains versions ''versions/v1/index.sa'' \<and>
            str_contains versions ''versions/v2/index.sa'');
          v1_isolated = (
            str_contains v1 ''versions/v1/layout.sal'' \<and>
            str_contains v1_layout ''V1_SIZE'' \<and>
            str_contains v1_seed ''@export v1_seed()'');
          v2_isolated = (
            str_contains v2 ''versions/v2/layout.sal'' \<and>
            str_contains v2_layout ''V2_SIZE'' \<and>
            str_contains v2_seed ''@export v2_seed()'');
          no_cross_layout = (\<not> str_contains v1 ''V2_'' \<and> \<not> str_contains v2 ''V1_'');
          version_isolation = (
            aggregate_imports_both \<and>
            v1_isolated \<and>
            v2_isolated \<and>
            no_cross_layout)
      in println_i (Val (bool_i32 version_isolation)))"

definition main_240 :: "(string \<Rightarrow> string) \<Rightarrow> rust_run" where
  "main_240 fs =
     (let entry = fs ''entry/index.sa'';
          default = fs ''entry/default/index.sa'';
          default_seed = fs ''entry/default/detail/seed.sa'';
          override_entry = fs ''entry/override/index.sa'';
          override_seed = fs ''entry/override/detail/seed.sa'';
          entry_has_both = (
            str_contains entry ''entry/default/index.sa'' \<and>
            str_contains entry ''entry/override/index.sa'');
          override_selected = (
            str_contains entry ''call @override_entry_value()'' \<and>
            \<not> str_contains entry ''call @default_entry_value()'');
          default_branch_complete = (
            str_contains default ''entry/default/detail/seed.sa'' \<and>
            str_contains default_seed ''@export default_seed()'');
          override_branch_complete = (
            str_contains override_entry ''entry/override/detail/seed.sa'' \<and>
            str_contains override_seed ''@export override_seed()'');
          entry_override = (
            entry_has_both \<and>
            override_selected \<and>
            default_branch_complete \<and>
            override_branch_complete)
      in println_i (Val (bool_i32 entry_override)))"

definition main_241 :: "(string \<Rightarrow> string) \<Rightarrow> rust_run" where
  "main_241 fs =
     (let layout = fs ''layout/point.sal'';
          bridge = fs ''bridge/point_bridge.sa'';
          consumer = fs ''consumer/point_consumer.sa'';
          stable_offsets = (
            str_contains layout ''#def Point_SIZE = 16'' \<and>
            str_contains layout ''#def Point_x = +0'' \<and>
            str_contains layout ''#def Point_y = +8'');
          bridge_uses_same_offsets = (
            str_contains bridge ''BridgePoint_x = +0'' \<and>
            str_contains bridge ''BridgePoint_y = +8'' \<and>
            str_contains bridge ''load point+BridgePoint_x'' \<and>
            str_contains bridge ''load point+BridgePoint_y'');
          consumer_exercises_layout = (
            str_contains consumer ''layout/point.sal'' \<and>
            str_contains consumer ''bridge/point_bridge.sa'' \<and>
            str_contains consumer ''store point+Point_x, 24'' \<and>
            str_contains consumer ''store point+Point_y, 217'');
          contract_layout = (
            stable_offsets \<and>
            bridge_uses_same_offsets \<and>
            consumer_exercises_layout)
      in println_i (Val (bool_i32 contract_layout)))"

lemma main_241_mono: "monotone_checker main_241"
  by (rule monotone_checkerI) (simp_all add: main_241_def Let_def)

definition main_242 :: "(string \<Rightarrow> string) \<Rightarrow> rust_run" where
  "main_242 fs =
     (let public_layout = fs ''layout/public.sal'';
          private_layout = fs ''layout/private.sal'';
          bridge = fs ''bridge/opaque_bridge.sa'';
          consumer = fs ''consumer/opaque_consumer.sa'';
          public_is_opaque = (
            str_contains public_layout ''#def Opaque_SIZE = 16'' \<and>
            \<not> str_contains public_layout ''Opaque_payload'' \<and>
            \<not> str_contains public_layout ''Opaque_tag'');
          private_has_hidden_fields = (
            str_contains private_layout ''#def Opaque_tag = +0'' \<and>
            str_contains private_layout ''#def Opaque_payload = +8'');
          bridge_can_touch_private_payload = (
            str_contains bridge ''layout/private.sal'' \<and>
            str_contains bridge ''store slot+Opaque_payload, 242'' \<and>
            str_contains bridge ''load slot+Opaque_payload'');
          consumer_only_imports_public_layout = (
            str_contains consumer ''layout/public.sal'' \<and>
            str_contains consumer ''bridge/opaque_bridge.sa'' \<and>
            \<not> str_contains consumer ''Opaque_payload'');
          opaque_contract = (
            public_is_opaque \<and>
            private_has_hidden_fields \<and>
            bridge_can_touch_private_payload \<and>
            consumer_only_imports_public_layout)
      in println_i (Val (bool_i32 opaque_contract)))"

definition main_243 :: "(string \<Rightarrow> string) \<Rightarrow> rust_run" where
  "main_243 fs =
     (let iface_layout = fs ''layout/slot.sal'';
          target = fs ''bridge/link_target.sa'';
          consumer = fs ''consumer/broken_consumer.sa'';
          target_takes_i32 = (str_contains target ''@export link_target(slot: i32) -> i32'');
          consumer_allocates_slot_ptr = (
            str_contains iface_layout ''#def Slot_SIZE = 4'' \<and>
            str_contains consumer ''slot = alloc Slot_SIZE'' \<and>
            str_contains consumer ''store slot+Slot_value, 1 as i32'');
          mismatch_is_explicit = (
            str_contains consumer ''Intentional mismatch'' \<and>
            str_contains consumer ''call @link_target(&slot)'');
          signature_mismatch_fixture = (
            target_takes_i32 \<and>
            consumer_allocates_slot_ptr \<and>
            mismatch_is_explicit)
      in println_i (Val (bool_i32 signature_mismatch_fixture)))"

lemma main_243_mono: "monotone_checker main_243"
  by (rule monotone_checkerI) (simp_all add: main_243_def Let_def)

definition main_244 :: "(string \<Rightarrow> string) \<Rightarrow> rust_run" where
  "main_244 fs =
     (let bridge = fs ''bridge/button_vtable.sa'';
          consumer = fs ''consumer/vtable_consumer.sa'';
          vtable_layout = (
            str_contains bridge ''#def DynDraw_DATA = +0'' \<and>
            str_contains bridge ''#def DynDraw_VTABLE = +8'' \<and>
            str_contains bridge ''#def VTable_draw = +0'');
          exported_vtable = (
            str_contains bridge ''@export button_draw(&self: ptr) -> i32'' \<and>
            str_contains bridge (''@const BUTTON_VT = vtable '' @ [CHR 0x7B] @ '' draw = @button_draw '' @ [CHR 0x7D]));
          indirect_consumer = (
            str_contains consumer ''load item+DynDraw_DATA as ptr'' \<and>
            str_contains consumer ''load item+DynDraw_VTABLE as ptr'' \<and>
            str_contains consumer ''call_indirect draw_fn(&data_ptr)'' \<and>
            str_contains consumer ''store fat+DynDraw_VTABLE, &BUTTON_VT as ptr'');
          vtable_contract = (vtable_layout \<and> exported_vtable \<and> indirect_consumer)
      in println_i (Val (bool_i32 vtable_contract)))"

lemma main_244_mono: "monotone_checker main_244"
  by (rule monotone_checkerI) (simp_all add: main_244_def Let_def)

definition main_245 :: "(string \<Rightarrow> string) \<Rightarrow> rust_run" where
  "main_245 fs =
     (let iface = fs ''iface/generic.sai'';
          implementation = fs ''impl/generic_impl.sa'';
          consumer = fs ''consumer/generic_consumer.sa'';
          iface_declares_shared_value = (str_contains iface ''@extern shared_value(seed: i32) -> i32'');
          impl_exports_same_symbol = (
            str_contains implementation ''@export shared_value(seed: i32) -> i32'' \<and>
            str_contains implementation ''value = add seed, 0'');
          consumer_imports_impl_once = (
            str_contains consumer ''impl/generic_impl.sa'' \<and>
            str_contains consumer ''call @shared_value(245)'');
          shared_contract = (
            iface_declares_shared_value \<and>
            impl_exports_same_symbol \<and>
            consumer_imports_impl_once)
      in println_i (Val (bool_i32 shared_contract)))"

lemma main_245_mono: "monotone_checker main_245"
  by (rule monotone_checkerI) (simp_all add: main_245_def Let_def)

definition main_246 :: "(string \<Rightarrow> string) \<Rightarrow> rust_run" where
  "main_246 fs =
     (let iface = fs ''iface/minor.sai'';
          implementation = fs ''impl/minor_impl.sa'';
          consumer = fs ''consumer/minor_consumer.sa'';
          iface_keeps_original = (str_contains iface ''@extern minor_value() -> i32'');
          iface_adds_extension = (str_contains iface ''@extern minor_extension() -> i32'');
          impl_exports_both = (
            str_contains implementation ''@export minor_value() -> i32'' \<and>
            str_contains implementation ''@export minor_extension() -> i32'');
          consumer_accepts_added_api = (
            str_contains consumer ''call @minor_value()'' \<and>
            str_contains consumer ''call @minor_extension()'');
          semver_minor_contract = (
            iface_keeps_original \<and>
            iface_adds_extension \<and>
            impl_exports_both \<and>
            consumer_accepts_added_api)
      in println_i (Val (bool_i32 semver_minor_contract)))"

lemma main_246_mono: "monotone_checker main_246"
  by (rule monotone_checkerI) (simp_all add: main_246_def Let_def)

definition main_247 :: "(string \<Rightarrow> string) \<Rightarrow> rust_run" where
  "main_247 fs =
     (let v1 = fs ''iface/v1.sai'';
          v2 = fs ''iface/v2.sai'';
          implementation = fs ''bridge/major_break_impl.sa'';
          consumer = fs ''consumer/major_consumer.sa'';
          old_signature = (str_contains v1 ''@extern major_value(slot: i32) -> i32'');
          new_signature = (str_contains v2 ''@extern major_value(handle: ptr) -> i32'');
          impl_uses_new_signature = (str_contains implementation ''@export major_value(handle: ptr) -> i32'');
          consumer_allocates_handle = (
            str_contains consumer ''handle = alloc 8'' \<and>
            str_contains consumer ''call @major_value(handle)'');
          major_break_contract = (
            old_signature \<and>
            new_signature \<and>
            impl_uses_new_signature \<and>
            consumer_allocates_handle)
      in println_i (Val (bool_i32 major_break_contract)))"

lemma main_247_mono: "monotone_checker main_247"
  by (rule monotone_checkerI) (simp_all add: main_247_def Let_def)

definition main_248 :: "(string \<Rightarrow> string) \<Rightarrow> rust_run" where
  "main_248 fs =
     (let layout = fs ''layout/slot.sal'';
          bridge = fs ''bridge/boundary.sa'';
          consumer = fs ''consumer/boundary_consumer.sa'';
          layout_defines_slot = (
            str_contains layout ''#def Slot_SIZE = 4'' \<and>
            str_contains layout ''#def Slot_value = +0'');
          ffi_wrapper_marks_boundary = (
            str_contains bridge ''@ffi_wrapper boundary(*raw: ptr) -> i32'' \<and>
            str_contains bridge ''assume_borrow raw'' \<and>
            str_contains bridge ''assume_safe raw'' \<and>
            str_contains bridge ''store safe+0, next as i32'');
          consumer_crosses_raw_edge = (
            str_contains consumer ''bridge/boundary.sa'' \<and>
            str_contains consumer ''call @boundary(*slot)'' \<and>
            str_contains consumer ''store slot+Slot_value, 248'');
          boundary_contract = (
            layout_defines_slot \<and>
            ffi_wrapper_marks_boundary \<and>
            consumer_crosses_raw_edge)
      in println_i (Val (bool_i32 boundary_contract)))"

lemma main_248_mono: "monotone_checker main_248"
  by (rule monotone_checkerI) (simp_all add: main_248_def Let_def)

definition main_249 :: "(string \<Rightarrow> string) \<Rightarrow> rust_run" where
  "main_249 fs =
     (let macros = fs ''macros/store.sa'';
          bridge = fs ''bridge/macro_bridge.sa'';
          consumer = fs ''consumer/macro_consumer.sa'';
          macro_is_exported_fixture = (
            str_contains macros ''[MACRO] STORE_I32 %base, %value'' \<and>
            str_contains macros ''store %base+0, %value as i32'' \<and>
            str_contains macros ''[END_MACRO]'');
          bridge_exports_helper = (str_contains bridge ''@export macro_value() -> i32'');
          consumer_expands_macro = (
            str_contains consumer ''macros/store.sa'' \<and>
            str_contains consumer ''EXPAND STORE_I32 cell, 249'' \<and>
            str_contains consumer ''call @macro_value()'');
          macro_contract = (
            macro_is_exported_fixture \<and>
            bridge_exports_helper \<and>
            consumer_expands_macro)
      in println_i (Val (bool_i32 macro_contract)))"

lemma main_249_mono: "monotone_checker main_249"
  by (rule monotone_checkerI) (simp_all add: main_249_def Let_def)

definition main_250 :: "(string \<Rightarrow> string) \<Rightarrow> rust_run" where
  "main_250 fs =
     (let iface = fs ''iface/consts.sai'';
          implementation = fs ''impl/const_impl.sa'';
          consumer = fs ''consumer/const_consumer.sa'';
          iface_declares_const_value = (str_contains iface ''@extern const_value() -> i32'');
          impl_exports_text_const = (str_contains implementation (''@const EXPORTED_TEXT = utf8:'' @ [CHR 0x22] @ ''250'' @ [CHR 0x5C] @ ''n'' @ [CHR 0x22]));
          impl_exports_value = (str_contains implementation ''@export const_value() -> i32'');
          consumer_reads_export = (
            str_contains consumer ''impl/const_impl.sa'' \<and>
            str_contains consumer ''call @const_value()'');
          const_contract = (
            iface_declares_const_value \<and>
            impl_exports_text_const \<and>
            impl_exports_value \<and>
            consumer_reads_export)
      in println_i (Val (bool_i32 const_contract)))"

lemma main_250_mono: "monotone_checker main_250"
  by (rule monotone_checkerI) (simp_all add: main_250_def Let_def)

text \<open>201 counts the conditions that hold.\<close>

definition main_201 :: "(string \<Rightarrow> string) \<Rightarrow> rust_run" where
  "main_201 fs =
     (let pkg = fs ''sa.pkg'';
          has_name = str_contains pkg (''name = '' @ [CHR 0x22] @ ''demo-201'' @ [CHR 0x22]);
          has_version = str_contains pkg (''version = '' @ [CHR 0x22] @ ''0.1.0'' @ [CHR 0x22]);
          has_entry = str_contains pkg (''entry = '' @ [CHR 0x22] @ ''main.sa'' @ [CHR 0x22]);
          result = i32_add (i32_add (Val (bool_i32 has_name)) (Val (bool_i32 has_version)))
                           (Val (bool_i32 has_entry))
      in println_i result)"

text \<open>238 compares the places of two imports; an import that is absent (\<open>None\<close>) comes first.\<close>

definition option_less :: "nat option \<Rightarrow> nat option \<Rightarrow> bool" where
  "option_less a b = (case (a, b) of
     (_, None) \<Rightarrow> False | (None, Some _) \<Rightarrow> True | (Some x, Some y) \<Rightarrow> x < y)"

definition main_238 :: "(string \<Rightarrow> string) \<Rightarrow> rust_run" where
  "main_238 fs =
     (let paths = fs ''paths/index.sa'';
          first = fs ''paths/first/index.sa'';
          first_seed = fs ''paths/first/deep/seed.sa'';
          second = fs ''paths/second/index.sa'';
          second_seed = fs ''paths/second/deep/seed.sa'';
          explicit_order = option_less (str_find paths ''paths/first/index.sa'')
            (str_find paths ''paths/second/index.sa'');
          aggregate_imports_both = (str_contains paths ''@export path_value()'' \<and>
            str_contains paths ''paths/first/index.sa'' \<and> str_contains paths ''paths/second/index.sa'');
          first_branch_complete = (str_contains first ''paths/first/deep/seed.sa'' \<and>
            str_contains first_seed ''@export first_seed()'');
          second_branch_complete = (str_contains second ''paths/second/deep/seed.sa'' \<and>
            str_contains second_seed ''@export second_seed()'');
          path_order = (explicit_order \<and> aggregate_imports_both \<and> first_branch_complete \<and>
            second_branch_complete)
      in println_i (Val (bool_i32 path_order)))"

section \<open>Version resolution (206)\<close>

text \<open>\<open>str::lines\<close>: split at line feeds, without the empty piece after the last, and without a
  carriage return at the end of a line.\<close>

definition strip_cr :: "string \<Rightarrow> string" where
  "strip_cr l = (if l \<noteq> [] \<and> last l = CHR 0x0D then butlast l else l)"

fun line_pieces :: "string list \<Rightarrow> string list" where
  "line_pieces [] = []"
| "line_pieces [w] = (if w = [] then [] else [w])"
| "line_pieces (w # ws) = strip_cr w # line_pieces ws"

definition lines :: "string \<Rightarrow> string list" where
  "lines text = line_pieces (split_on (CHR 0x0A) text)"

text \<open>\<open>trim_start\<close> on ASCII text.\<close>

definition is_rust_space :: "char \<Rightarrow> bool" where
  "is_rust_space c \<longleftrightarrow> c = CHR '' '' \<or> (9 \<le> byte_val c \<and> byte_val c \<le> 13)"

definition trim_start :: "string \<Rightarrow> string" where
  "trim_start s = dropWhile is_rust_space s"

text \<open>The first, second and third part of the version, each parsed; a missing or bad part ends it.\<close>

definition manifest_version_206 :: "string \<Rightarrow> (nat \<times> nat \<times> nat) option" where
  "manifest_version_206 text =
     Option.bind (find (\<lambda>l. starts_with (trim_start l) ''version = '') (lines text)) (\<lambda>version_line.
       let qs = split_on (CHR 0x22) version_line in
       Option.bind (if 1 < length qs then Some (qs ! 1) else None) (\<lambda>version.
         let parts = map parse_u32 (split_on (CHR ''.'') version);
             part = (\<lambda>i. if i < length parts then parts ! i else None) in
         Option.bind (part 0) (\<lambda>a. Option.bind (part 1) (\<lambda>b. Option.bind (part 2) (\<lambda>c.
           Some (a, b, c))))))"

definition version_less :: "nat \<times> nat \<times> nat \<Rightarrow> nat \<times> nat \<times> nat \<Rightarrow> bool" where
  "version_less v w = (case (v, w) of ((a, b, c), (a', b', c')) \<Rightarrow>
     a < a' \<or> a = a' \<and> (b < b' \<or> b = b' \<and> c < c'))"

definition expect_r :: "string \<Rightarrow> 'a option \<Rightarrow> 'a rust" where
  "expect_r msg v = (case v of Some x \<Rightarrow> Inr x | None \<Rightarrow> Inl (Explicit_panic msg))"

definition main_206 :: "(string \<Rightarrow> string) \<Rightarrow> rust_run" where
  "main_206 fs =
     (let root = fs ''sa.pkg'';
          old_pkg = fs ''versions/v1_2_3/sa.pkg'';
          new_pkg = fs ''versions/v1_4_0/sa.pkg'';
          resolver = fs ''resolver/index.sa'';
          root_lists_both = (str_contains root ''versions/v1_2_3'' \<and> str_contains root ''versions/v1_4_0'');
          resolver_imports_both = (str_contains resolver ''v1_2_3/index.sa'' \<and>
            str_contains resolver ''v1_4_0/index.sa'')
      in with_r (expect_r ''old version manifest'' (manifest_version_206 old_pkg)) (\<lambda>old_version.
         with_r (expect_r ''new version manifest'' (manifest_version_206 new_pkg)) (\<lambda>new_version.
           println_i (Val (if root_lists_both \<and> resolver_imports_both \<and> version_less old_version new_version
             then as_i32 (int (fst (snd new_version))) else - 1)))))"

text \<open>A manifest line that declares a version.\<close>

definition version_line :: "nat \<times> nat \<times> nat \<Rightarrow> string" where
  "version_line v = (case v of (a, b, c) \<Rightarrow> ''version = '' @ [CHR 0x22] @ dec_nat a @ ''.'' @ dec_nat b @
     ''.'' @ dec_nat c @ [CHR 0x22])"

lemma dec_nat_no: "\<not> is_digit d \<Longrightarrow> d \<notin> set (dec_nat n)"
  using dec_nat_digits by blast

lemma split_version_line:
  "split_on (CHR 0x22) (version_line (a, b, c)) =
    [''version = '', dec_nat a @ ''.'' @ dec_nat b @ ''.'' @ dec_nat c, []]"
proof -
  let ?v = "dec_nat a @ ''.'' @ dec_nat b @ ''.'' @ dec_nat c"
  have v: "CHR 0x22 \<notin> set ?v" by (simp add: dec_nat_no is_digit_def)
  have "version_line (a, b, c) = ''version = '' @ CHR 0x22 # ?v @ CHR 0x22 # []"
    by (simp add: version_line_def)
  moreover have "split_on (CHR 0x22) (''version = '' @ CHR 0x22 # ?v @ CHR 0x22 # []) =
      ''version = '' # split_on (CHR 0x22) (?v @ CHR 0x22 # [])"
    by (rule split_on_append) simp
  moreover have "split_on (CHR 0x22) (?v @ CHR 0x22 # []) = ?v # [[]]"
    using split_on_append [OF v, of "[]"] by simp
  ultimately show ?thesis by simp
qed

lemma split_version:
  "split_on (CHR ''.'') (dec_nat a @ CHR ''.'' # dec_nat b @ CHR ''.'' # dec_nat c) =
    [dec_nat a, dec_nat b, dec_nat c]"
  by (simp add: split_on_append split_on_absent dec_nat_no is_digit_def)

lemma lines_line:
  assumes "CHR 0x0A \<notin> set l"
  shows "lines (line l @ r) = strip_cr l # lines r"
proof -
  obtain w ws where "split_on (CHR 0x0A) r = w # ws" by (cases "split_on (CHR 0x0A) r") auto
  then show ?thesis using assms by (simp add: lines_def line_def split_on_append)
qed

lemma strip_cr_id: "CHR 0x0D \<notin> set l \<Longrightarrow> strip_cr l = l"
  by (auto simp: strip_cr_def dest: last_in_set)

definition plain_line :: "string \<Rightarrow> bool" where
  "plain_line l \<longleftrightarrow>
     CHR 0x0A \<notin> set l \<and> CHR 0x0D \<notin> set l \<and> \<not> starts_with (trim_start l) ''version = ''"

lemma find_version:
  assumes "list_all plain_line pre"
  shows "find (\<lambda>l. starts_with (trim_start l) ''version = '')
      (lines (concat (map line pre) @ line (version_line v) @ post)) = Some (version_line v)"
  using assms
proof (induction pre)
  case Nil
  obtain a b c where v: "v = (a, b, c)" by (cases v)
  have "CHR 0x0A \<notin> set (version_line v)" "CHR 0x0D \<notin> set (version_line v)"
    by (simp_all add: v version_line_def dec_nat_no is_digit_def)
  moreover have "starts_with (trim_start (version_line v)) ''version = ''"
    by (simp add: v version_line_def trim_start_def is_rust_space_def)
  ultimately show ?case by (simp add: lines_line strip_cr_id)
qed (simp add: lines_line strip_cr_id plain_line_def)

text \<open>\<open>manifest_version\<close> reads back the version that a manifest declares: whatever lines
  without a version come before it and whatever follows, the three numbers of the first version
  line, as long as they fit \<open>u32\<close>.\<close>

lemma manifest_version_206_roundtrip:
  assumes "list_all plain_line pre" and "a < 2 ^ 32" "b < 2 ^ 32" "c < 2 ^ 32"
  shows "manifest_version_206 (concat (map line pre) @ line (version_line (a, b, c)) @ post) =
    Some (a, b, c)"
  using assms
  by (simp add: manifest_version_206_def find_version split_version_line split_version Let_def
      parse_u32_dec_nat)

lemma manifest_version_206_roundtrip_witness:
  "manifest_version_206 (concat (map line [''[package]'', ''name = dep'']) @
     line (version_line (1, 4, 0)) @ []) = Some (1, 4, 0)"
  by (rule manifest_version_206_roundtrip) (simp_all add: plain_line_def trim_start_def is_rust_space_def)

section \<open>Growing files\<close>

definition package_checkers :: "((string \<Rightarrow> string) \<Rightarrow> rust_run) list" where
  "package_checkers =
    [main_202, main_203, main_204, main_205, main_207, main_209, main_210, main_211, main_212,
     main_213, main_214, main_215, main_216, main_217, main_218, main_219, main_220, main_221,
     main_222, main_225, main_226, main_227, main_228, main_229, main_230, main_235, main_236,
     main_237, main_241, main_243, main_244, main_245, main_246, main_247, main_248, main_249,
     main_250]"

text \<open>The checkers of the package and module demos that only look for text are monotone: they reject
  empty files, and adding text to the files never makes an accepted demo rejected.\<close>

lemma package_checkers_monotone: "list_all monotone_checker package_checkers"
  by (simp add: package_checkers_def
      main_202_mono main_203_mono main_204_mono main_205_mono main_207_mono main_209_mono
      main_210_mono main_211_mono main_212_mono main_213_mono main_214_mono main_215_mono
      main_216_mono main_217_mono main_218_mono main_219_mono main_220_mono main_221_mono
      main_222_mono main_225_mono main_226_mono main_227_mono main_228_mono main_229_mono
      main_230_mono main_235_mono main_236_mono main_237_mono main_241_mono main_243_mono
      main_244_mono main_245_mono main_246_mono main_247_mono main_248_mono main_249_mono
      main_250_mono)

end
