(* ===== verification/Rosetta_Builds.thy ===== *)
theory Rosetta_Builds
  imports Rosetta_Packages
begin

text \<open>
  The reference programs \<open>demos/rosetta/251\<close> to \<open>300\<close>, in the form of \<open>Rosetta_Packages\<close>:
  contracts, build scripts, foreign interfaces and ecosystem demos.
\<close>

definition main_251 :: "(string \<Rightarrow> string) \<Rightarrow> rust_run" where
  "main_251 fs =
     (let iface = fs ''iface/ownership.sai'';
          bridge = fs ''bridge/ownership_bridge.sa'';
          consumer = fs ''consumer/ownership_consumer.sa'';
          iface_declares_ownership_transfer = (str_contains iface ''@extern take_ownership(handle: ptr) -> i32'');
          bridge_mutates_owned_handle = (
            str_contains bridge ''@export take_ownership(handle: ptr) -> i32'' \<and>
            str_contains bridge ''load handle+0 as i32'' \<and>
            str_contains bridge ''store handle+0, next as i32'');
          consumer_passes_handle = (
            str_contains consumer ''store handle+0, 251 as i32'' \<and>
            str_contains consumer ''call @take_ownership(handle)'');
          ownership_contract = (
            iface_declares_ownership_transfer \<and>
            bridge_mutates_owned_handle \<and>
            consumer_passes_handle)
      in println_i (Val (bool_i32 ownership_contract)))"

lemma main_251_mono: "monotone_checker main_251"
  by (rule monotone_checkerI) (simp_all add: main_251_def Let_def)

definition main_252 :: "(string \<Rightarrow> string) \<Rightarrow> rust_run" where
  "main_252 fs =
     (let iface = fs ''iface/error_codes.sai'';
          bridge = fs ''bridge/error_map.sa'';
          consumer = fs ''consumer/error_consumer.sa'';
          iface_declares_mapping = (str_contains iface ''@extern map_error(code: i32) -> i32'');
          bridge_branches_on_code = (
            str_contains bridge ''@export map_error(code: i32) -> i32'' \<and>
            str_contains bridge ''ok = eq code, 252'' \<and>
            str_contains bridge ''L_MATCH'' \<and>
            str_contains bridge ''L_MISS'');
          consumer_uses_mapping = (
            str_contains consumer ''bridge/error_map.sa'' \<and>
            str_contains consumer ''call @map_error(252)'');
          error_contract = (
            iface_declares_mapping \<and>
            bridge_branches_on_code \<and>
            consumer_uses_mapping)
      in println_i (Val (bool_i32 error_contract)))"

lemma main_252_mono: "monotone_checker main_252"
  by (rule monotone_checkerI) (simp_all add: main_252_def Let_def)

definition main_253 :: "(string \<Rightarrow> string) \<Rightarrow> rust_run" where
  "main_253 fs =
     (let bridge = fs ''bridge/callback_vtable.sa'';
          consumer = fs ''consumer/callback_consumer.sa'';
          callback_vtable_layout = (
            str_contains bridge (''@const CALLBACK_VT = vtable '' @ [CHR 0x7B] @ '' call = @callback '' @ [CHR 0x7D]) \<and>
            str_contains bridge ''#def Slot_DATA = +0'' \<and>
            str_contains bridge ''#def Slot_VTABLE = +8'' \<and>
            str_contains bridge ''#def VTable_call = +0'');
          register_uses_indirect_call = (
            str_contains bridge ''@register(&slot: ptr) -> i32'' \<and>
            str_contains bridge ''load vt+VTable_call as ptr'' \<and>
            str_contains bridge ''call_indirect fn(5)'');
          consumer_registers_vtable = (
            str_contains consumer ''store slot+Slot_VTABLE, &CALLBACK_VT as ptr'' \<and>
            str_contains consumer ''call @register(&slot)'');
          callback_contract = (
            callback_vtable_layout \<and>
            register_uses_indirect_call \<and>
            consumer_registers_vtable)
      in println_i (Val (bool_i32 callback_contract)))"

lemma main_253_mono: "monotone_checker main_253"
  by (rule monotone_checkerI) (simp_all add: main_253_def Let_def)

definition main_254 :: "(string \<Rightarrow> string) \<Rightarrow> rust_run" where
  "main_254 fs =
     (let host = fs ''host/plugin_host.sa'';
          implementation = fs ''impl/plugin_impl.sa'';
          consumer = fs ''consumer/plugin_consumer.sa'';
          host_declares_dispatch = (str_contains host ''@extern plugin_dispatch(tag: i32) -> i32'');
          impl_exports_dispatch = (
            str_contains implementation ''@export plugin_dispatch(tag: i32) -> i32'' \<and>
            str_contains implementation ''return 254'');
          consumer_loads_plugin_impl = (
            str_contains consumer ''impl/plugin_impl.sa'' \<and>
            str_contains consumer ''call @plugin_dispatch(254)'');
          plugin_contract = (
            host_declares_dispatch \<and>
            impl_exports_dispatch \<and>
            consumer_loads_plugin_impl)
      in println_i (Val (bool_i32 plugin_contract)))"

lemma main_254_mono: "monotone_checker main_254"
  by (rule monotone_checkerI) (simp_all add: main_254_def Let_def)

definition main_255 :: "(string \<Rightarrow> string) \<Rightarrow> rust_run" where
  "main_255 fs =
     (let iface = fs ''iface/allocator.sai'';
          bridge = fs ''bridge/allocator_bridge.sa'';
          consumer = fs ''consumer/allocator_consumer.sa'';
          iface_declares_allocator_swap = (str_contains iface ''@extern allocator_swap(handle: ptr) -> i32'');
          bridge_mutates_handle = (
            str_contains bridge ''@export allocator_swap(handle: ptr) -> i32'' \<and>
            str_contains bridge ''load handle+0 as i32'' \<and>
            str_contains bridge ''store handle+0, next as i32'');
          consumer_selects_bridge = (
            str_contains consumer ''bridge/allocator_bridge.sa'' \<and>
            str_contains consumer ''store handle+0, 255 as i32'' \<and>
            str_contains consumer ''call @allocator_swap(handle)'');
          allocator_contract = (
            iface_declares_allocator_swap \<and>
            bridge_mutates_handle \<and>
            consumer_selects_bridge)
      in println_i (Val (bool_i32 allocator_contract)))"

lemma main_255_mono: "monotone_checker main_255"
  by (rule monotone_checkerI) (simp_all add: main_255_def Let_def)

definition main_256 :: "(string \<Rightarrow> string) \<Rightarrow> rust_run" where
  "main_256 fs =
     (let iface = fs ''iface/panic.sai'';
          host = fs ''host/panic_handler.sa'';
          consumer = fs ''consumer/panic_consumer.sa'';
          iface_declares_hook = (str_contains iface ''@extern panic_hook(code: i32) -> i32'');
          host_exports_hook = (
            str_contains host ''@export panic_hook(code: i32) -> i32'' \<and>
            str_contains host ''ok = eq code, 256'' \<and>
            str_contains host ''L_OK'' \<and>
            str_contains host ''L_ERR'');
          consumer_routes_to_host = (
            str_contains consumer ''host/panic_handler.sa'' \<and>
            str_contains consumer ''call @panic_hook(256)'');
          panic_contract = (
            iface_declares_hook \<and>
            host_exports_hook \<and>
            consumer_routes_to_host)
      in println_i (Val (bool_i32 panic_contract)))"

lemma main_256_mono: "monotone_checker main_256"
  by (rule monotone_checkerI) (simp_all add: main_256_def Let_def)

definition main_257 :: "(string \<Rightarrow> string) \<Rightarrow> rust_run" where
  "main_257 fs =
     (let iface = fs ''iface/log.sai'';
          bridge = fs ''bridge/log_bridge.sa'';
          consumer = fs ''consumer/log_consumer.sa'';
          iface_declares_log_emit = (str_contains iface ''@extern log_emit(level: i32, msg: ptr, len: u64) -> i32'');
          bridge_keeps_message_signature = (
            str_contains bridge ''@export log_emit(level: i32, msg: ptr, len: u64) -> i32'' \<and>
            str_contains bridge ''ok = eq level, 257'');
          consumer_passes_message = (
            str_contains consumer (''@const LOG_MESSAGE = utf8:'' @ [CHR 0x22] @ ''257'' @ [CHR 0x5C] @ ''n'' @ [CHR 0x22]) \<and>
            str_contains consumer ''call @log_emit(257, &LOG_MESSAGE, 4)'');
          log_contract = (
            iface_declares_log_emit \<and>
            bridge_keeps_message_signature \<and>
            consumer_passes_message)
      in println_i (Val (bool_i32 log_contract)))"

lemma main_257_mono: "monotone_checker main_257"
  by (rule monotone_checkerI) (simp_all add: main_257_def Let_def)

definition main_258 :: "(string \<Rightarrow> string) \<Rightarrow> rust_run" where
  "main_258 fs =
     (let layout = fs ''layout/tls.sal'';
          bridge = fs ''bridge/tls_bridge.sa'';
          consumer = fs ''consumer/tls_consumer.sa'';
          tls_layout = (
            str_contains layout ''#def TLS_SIZE = 8'' \<and>
            str_contains layout ''#def TLS_value = +0'');
          bridge_updates_slot = (
            str_contains bridge ''@export tls_write(&slot: ptr) -> i32'' \<and>
            str_contains bridge ''load slot+0 as i32'' \<and>
            str_contains bridge ''store slot+0, next as i32'');
          consumer_allocates_tls = (
            str_contains consumer ''layout/tls.sal'' \<and>
            str_contains consumer ''tls = alloc TLS_SIZE'' \<and>
            str_contains consumer ''call @tls_write(&tls)'');
          tls_contract = (tls_layout \<and> bridge_updates_slot \<and> consumer_allocates_tls)
      in println_i (Val (bool_i32 tls_contract)))"

lemma main_258_mono: "monotone_checker main_258"
  by (rule monotone_checkerI) (simp_all add: main_258_def Let_def)

definition main_259 :: "(string \<Rightarrow> string) \<Rightarrow> rust_run" where
  "main_259 fs =
     (let layout = fs ''layout/init_order.sal'';
          bridge = fs ''bridge/init_bridge.sa'';
          consumer = fs ''consumer/init_consumer.sa'';
          init_layout = (
            str_contains layout ''#def Init_first = +0'' \<and>
            str_contains layout ''#def Init_second = +8'');
          bridge_exports_ordered_steps = (
            str_contains bridge ''@export init_first() -> i32'' \<and>
            str_contains bridge ''@export init_second() -> i32'');
          consumer_stores_in_order = (
            str_contains consumer ''first = call @init_first()'' \<and>
            str_contains consumer ''store state+Init_first, first as i32'' \<and>
            str_contains consumer ''second = call @init_second()'' \<and>
            str_contains consumer ''store state+Init_second, second as i32'');
          init_contract = (
            init_layout \<and>
            bridge_exports_ordered_steps \<and>
            consumer_stores_in_order)
      in println_i (Val (bool_i32 init_contract)))"

lemma main_259_mono: "monotone_checker main_259"
  by (rule monotone_checkerI) (simp_all add: main_259_def Let_def)

definition main_260 :: "(string \<Rightarrow> string) \<Rightarrow> rust_run" where
  "main_260 fs =
     (let iface = fs ''iface/deprecated.sai'';
          bridge = fs ''bridge/deprecated_bridge.sa'';
          consumer = fs ''consumer/deprecated_consumer.sa'';
          iface_exposes_legacy_symbol = (str_contains iface ''@extern legacy_value() -> i32'');
          bridge_marks_deprecation = (
            str_contains bridge (''@const DEPRECATED_NOTE = utf8:'' @ [CHR 0x22] @ ''legacy'' @ [CHR 0x22]) \<and>
            str_contains bridge ''@export legacy_value() -> i32'');
          consumer_still_calls_legacy = (
            str_contains consumer ''bridge/deprecated_bridge.sa'' \<and>
            str_contains consumer ''call @legacy_value()'');
          deprecated_contract = (
            iface_exposes_legacy_symbol \<and>
            bridge_marks_deprecation \<and>
            consumer_still_calls_legacy)
      in println_i (Val (bool_i32 deprecated_contract)))"

lemma main_260_mono: "monotone_checker main_260"
  by (rule monotone_checkerI) (simp_all add: main_260_def Let_def)

definition main_261 :: "(string \<Rightarrow> string) \<Rightarrow> rust_run" where
  "main_261 fs =
     (let plan = fs ''build/codegen-plan.txt'';
          config = fs ''build/codegen.toml'';
          generated = fs ''generated/codegen.sa'';
          plan_has_steps = (
            str_contains plan ''read the manifest'' \<and>
            str_contains plan ''emit the generated SA-ASM module'' \<and>
            str_contains plan ''keep the output under generated/'');
          config_wires_input_output = (
            str_contains config (''input = '' @ [CHR 0x22] @ ''build/codegen-plan.txt'' @ [CHR 0x22]) \<and>
            str_contains config (''output = '' @ [CHR 0x22] @ ''generated/codegen.sa'' @ [CHR 0x22]));
          generated_mentions_source = (
            str_contains generated ''build/codegen.toml'' \<and>
            str_contains generated ''build/codegen-plan.txt'' \<and>
            str_contains generated ''@codegen_value() -> i32'');
          codegen_contract = (
            plan_has_steps \<and>
            config_wires_input_output \<and>
            generated_mentions_source)
      in println_i (Val (bool_i32 codegen_contract)))"

lemma main_261_mono: "monotone_checker main_261"
  by (rule monotone_checkerI) (simp_all add: main_261_def Let_def)

definition main_262 :: "(string \<Rightarrow> string) \<Rightarrow> rust_run" where
  "main_262 fs =
     (let config = fs ''bindgen/bindgen.toml'';
          header_api = fs ''bindgen/include/ffi_api.h'';
          header_platform = fs ''bindgen/include/ffi_platform.h'';
          generated = fs ''generated/bindings.sa'';
          config_lists_headers = (
            str_contains config ''bindgen/include/ffi_api.h'' \<and>
            str_contains config ''bindgen/include/ffi_platform.h'' \<and>
            str_contains config (''output = '' @ [CHR 0x22] @ ''generated/bindings.sa'' @ [CHR 0x22]));
          headers_define_version_and_name = (
            str_contains header_api ''#define FFI_API_VERSION 262'' \<and>
            str_contains header_api ''int ffi_api_version(void);'' \<and>
            str_contains header_platform (''#define FFI_PLATFORM_NAME '' @ [CHR 0x22] @ ''saasm-bindgen'' @ [CHR 0x22]));
          generated_mentions_headers = (
            str_contains generated ''bindgen/bindgen.toml'' \<and>
            str_contains generated ''bindgen/include/*.h'' \<and>
            str_contains generated ''@bindgen_value() -> i32'');
          bindgen_contract = (
            config_lists_headers \<and>
            headers_define_version_and_name \<and>
            generated_mentions_headers)
      in println_i (Val (bool_i32 bindgen_contract)))"

lemma main_262_mono: "monotone_checker main_262"
  by (rule monotone_checkerI) (simp_all add: main_262_def Let_def)

definition main_263 :: "(string \<Rightarrow> string) \<Rightarrow> rust_run" where
  "main_263 fs =
     (let logo = fs ''assets/text/logo.txt'';
          tagline = fs ''assets/text/tagline.txt'';
          manifest = fs ''bundle/manifest.toml'';
          generated = fs ''generated/asset_bundle.sa'';
          assets_are_real = (
            str_contains logo ''SA-ASM asset bundle'' \<and>
            str_contains tagline ''bundled from assets/text'');
          manifest_lists_assets = (
            str_contains manifest ''assets/text/logo.txt'' \<and>
            str_contains manifest ''assets/text/tagline.txt'' \<and>
            str_contains manifest (''output = '' @ [CHR 0x22] @ ''generated/asset_bundle.sa'' @ [CHR 0x22]));
          generated_mentions_sources = (
            str_contains generated ''bundle/manifest.toml'' \<and>
            str_contains generated ''assets/text/*.txt'' \<and>
            str_contains generated ''@asset_bundle_value() -> i32'');
          bundle_contract = (
            assets_are_real \<and>
            manifest_lists_assets \<and>
            generated_mentions_sources)
      in println_i (Val (bool_i32 bundle_contract)))"

lemma main_263_mono: "monotone_checker main_263"
  by (rule monotone_checkerI) (simp_all add: main_263_def Let_def)

definition main_264 :: "(string \<Rightarrow> string) \<Rightarrow> rust_run" where
  "main_264 fs =
     (let config = fs ''build/env.toml'';
          dev = fs ''env/dev.env'';
          release = fs ''env/release.env'';
          generated = fs ''generated/env_profile.sa'';
          config_selects_release = (
            str_contains config (''profile = '' @ [CHR 0x22] @ ''release'' @ [CHR 0x22]) \<and>
            str_contains config ''env/dev.env'' \<and>
            str_contains config ''env/release.env'');
          env_files_capture_profile = (
            str_contains dev ''SA_PROFILE=dev'' \<and>
            str_contains dev ''SA_FEATURE_LOGGING=1'' \<and>
            str_contains release ''SA_PROFILE=release'' \<and>
            str_contains release ''SA_FEATURE_LOGGING=0'');
          generated_mentions_env_inputs = (
            str_contains generated ''build/env.toml'' \<and>
            str_contains generated ''env/*.env'' \<and>
            str_contains generated ''@env_profile_value() -> i32'');
          env_contract = (
            config_selects_release \<and>
            env_files_capture_profile \<and>
            generated_mentions_env_inputs)
      in println_i (Val (bool_i32 env_contract)))"

lemma main_264_mono: "monotone_checker main_264"
  by (rule monotone_checkerI) (simp_all add: main_264_def Let_def)

definition main_265 :: "(string \<Rightarrow> string) \<Rightarrow> rust_run" where
  "main_265 fs =
     (let config = fs ''build/linker.toml'';
          script = fs ''linker/linker.ld'';
          memory = fs ''linker/memory.x'';
          generated = fs ''generated/link_plan.sa'';
          config_wires_linker_inputs = (
            str_contains config (''script = '' @ [CHR 0x22] @ ''linker/linker.ld'' @ [CHR 0x22]) \<and>
            str_contains config (''memory = '' @ [CHR 0x22] @ ''linker/memory.x'' @ [CHR 0x22]) \<and>
            str_contains config (''output = '' @ [CHR 0x22] @ ''generated/link_plan.sa'' @ [CHR 0x22]));
          linker_files_are_real = (
            str_contains script ''ENTRY(_start)'' \<and>
            str_contains script (''.text : '' @ [CHR 0x7B] @ '' *(.text*) '' @ [CHR 0x7D]) \<and>
            str_contains memory ''FLASH : ORIGIN = 0x00000000, LENGTH = 64K'' \<and>
            str_contains memory ''RAM   : ORIGIN = 0x20000000, LENGTH = 16K'');
          generated_mentions_linker_sources = (
            str_contains generated ''build/linker.toml'' \<and>
            str_contains generated ''linker/*.x, linker/*.ld'' \<and>
            str_contains generated ''@link_plan_value() -> i32'');
          linker_contract = (
            config_wires_linker_inputs \<and>
            linker_files_are_real \<and>
            generated_mentions_linker_sources)
      in println_i (Val (bool_i32 linker_contract)))"

lemma main_265_mono: "monotone_checker main_265"
  by (rule monotone_checkerI) (simp_all add: main_265_def Let_def)

definition main_266 :: "(string \<Rightarrow> string) \<Rightarrow> rust_run" where
  "main_266 fs =
     (let config = fs ''build/pre-hooks.toml'';
          script = fs ''hooks/pre-compile.sh'';
          notes = fs ''hooks/pre-compile.txt'';
          generated = fs ''generated/precompile.sa'';
          config_points_to_hook = (
            str_contains config (''pre_compile = '' @ [CHR 0x22] @ ''hooks/pre-compile.sh'' @ [CHR 0x22]) \<and>
            str_contains config (''output = '' @ [CHR 0x22] @ ''generated/precompile.sa'' @ [CHR 0x22]));
          hook_script_mentions_generation = (
            str_contains script ''prepare generated/precompile.sa'' \<and>
            str_contains script ''pre-compile hook prepares inputs before SA-ASM compilation'');
          hook_notes_match = (
            str_contains notes ''pre-compile hook'' \<and>
            str_contains notes ''prepare source metadata'' \<and>
            str_contains notes ''emit generated/precompile.sa'');
          generated_mentions_hook = (
            str_contains generated ''hooks/pre-compile.sh'' \<and>
            str_contains generated ''build/pre-hooks.toml'' \<and>
            str_contains generated ''@precompile_value() -> i32'');
          precompile_contract = (
            config_points_to_hook \<and>
            hook_script_mentions_generation \<and>
            hook_notes_match \<and>
            generated_mentions_hook)
      in println_i (Val (bool_i32 precompile_contract)))"

lemma main_266_mono: "monotone_checker main_266"
  by (rule monotone_checkerI) (simp_all add: main_266_def Let_def)

definition main_267 :: "(string \<Rightarrow> string) \<Rightarrow> rust_run" where
  "main_267 fs =
     (let config = fs ''build/post-hooks.toml'';
          script = fs ''hooks/post-compile.sh'';
          manifest = fs ''artifacts/post-build/manifest.json'';
          report = fs ''artifacts/post-build/report.txt'';
          generated = fs ''generated/postcompile.sa'';
          config_points_to_post_hook = (
            str_contains config (''post_compile = '' @ [CHR 0x22] @ ''hooks/post-compile.sh'' @ [CHR 0x22]) \<and>
            str_contains config (''artifact_manifest = '' @ [CHR 0x22] @ ''artifacts/post-build/manifest.json'' @ [CHR 0x22]) \<and>
            str_contains config (''output = '' @ [CHR 0x22] @ ''generated/postcompile.sa'' @ [CHR 0x22]));
          post_hook_writes_report = (
            str_contains script ''collect artifacts/post-build/report.txt'' \<and>
            str_contains script ''writes reports after the SA-ASM output exists'');
          artifacts_are_real = (
            str_contains manifest ([CHR 0x22] @ ''stage'' @ [CHR 0x22] @ '': '' @ [CHR 0x22] @ ''post-compile'' @ [CHR 0x22]) \<and>
            str_contains manifest ''generated/postcompile.sa'' \<and>
            str_contains report ''post-compile report for 267'');
          generated_mentions_post_hook = (
            str_contains generated ''hooks/post-compile.sh'' \<and>
            str_contains generated ''build/post-hooks.toml'' \<and>
            str_contains generated ''@postcompile_value() -> i32'');
          postcompile_contract = (
            config_points_to_post_hook \<and>
            post_hook_writes_report \<and>
            artifacts_are_real \<and>
            generated_mentions_post_hook)
      in println_i (Val (bool_i32 postcompile_contract)))"

lemma main_267_mono: "monotone_checker main_267"
  by (rule monotone_checkerI) (simp_all add: main_267_def Let_def)

definition main_268 :: "(string \<Rightarrow> string) \<Rightarrow> rust_run" where
  "main_268 fs =
     (let target = fs ''build/wasm/target.toml'';
          generated = fs ''generated/wasm/profile.sa'';
          target_is_wasm = (
            str_contains target (''triple = '' @ [CHR 0x22] @ ''wasm32-unknown-unknown'' @ [CHR 0x22]) \<and>
            str_contains target (''linker = '' @ [CHR 0x22] @ ''rust-lld'' @ [CHR 0x22]));
          generated_tracks_target = (
            str_contains generated ''build/wasm/target.toml'' \<and>
            str_contains generated ''#def WASM_PROFILE_COUNT = 2'' \<and>
            str_contains generated ''@wasm_profile_value() -> i32'' \<and>
            str_contains generated ''@wasm_profile_count() -> i32'');
          wasm_contract = (target_is_wasm \<and> generated_tracks_target)
      in println_i (Val (bool_i32 wasm_contract)))"

lemma main_268_mono: "monotone_checker main_268"
  by (rule monotone_checkerI) (simp_all add: main_268_def Let_def)

definition main_269 :: "(string \<Rightarrow> string) \<Rightarrow> rust_run" where
  "main_269 fs =
     (let target = fs ''build/windows/target.toml'';
          generated = fs ''generated/windows/profile.sa'';
          target_is_windows = (
            str_contains target (''triple = '' @ [CHR 0x22] @ ''x86_64-pc-windows-msvc'' @ [CHR 0x22]) \<and>
            str_contains target (''subsystem = '' @ [CHR 0x22] @ ''console'' @ [CHR 0x22]));
          generated_tracks_target = (
            str_contains generated ''build/windows/target.toml'' \<and>
            str_contains generated ''#def WINDOWS_PROFILE_COUNT = 2'' \<and>
            str_contains generated ''@windows_profile_value() -> i32'' \<and>
            str_contains generated ''@windows_profile_count() -> i32'');
          windows_contract = (target_is_windows \<and> generated_tracks_target)
      in println_i (Val (bool_i32 windows_contract)))"

lemma main_269_mono: "monotone_checker main_269"
  by (rule monotone_checkerI) (simp_all add: main_269_def Let_def)

definition main_270 :: "(string \<Rightarrow> string) \<Rightarrow> rust_run" where
  "main_270 fs =
     (let config = fs ''build/sysroot.toml'';
          stdio = fs ''include/sysroot/stdio.h'';
          stdlib = fs ''include/sysroot/stdlib.h'';
          generated = fs ''generated/sysroot/layout.sa'';
          config_points_to_sysroot = (
            str_contains config (''target = '' @ [CHR 0x22] @ ''freestanding'' @ [CHR 0x22]) \<and>
            str_contains config (''include = '' @ [CHR 0x22] @ ''include/sysroot'' @ [CHR 0x22]));
          headers_define_custom_surface = (
            str_contains stdio ''int sa_puts(const char *s);'' \<and>
            str_contains stdlib ''void *sa_alloc(unsigned long size);'');
          generated_mentions_sysroot = (
            str_contains generated ''build/sysroot.toml'' \<and>
            str_contains generated ''include/sysroot/*.h'' \<and>
            str_contains generated ''#def SYSROOT_LAYOUT_COUNT = 2'');
          sysroot_contract = (
            config_points_to_sysroot \<and>
            headers_define_custom_surface \<and>
            generated_mentions_sysroot)
      in println_i (Val (bool_i32 sysroot_contract)))"

lemma main_270_mono: "monotone_checker main_270"
  by (rule monotone_checkerI) (simp_all add: main_270_def Let_def)

definition main_272 :: "(string \<Rightarrow> string) \<Rightarrow> rust_run" where
  "main_272 fs =
     (let build_config = fs ''build/sanitizer.toml'';
          flags_config = fs ''config/sanitizer/flags.toml'';
          generated = fs ''generated/sanitizer/flags.sa'';
          build_requests_sanitizers = (
            str_contains build_config ''address'' \<and>
            str_contains build_config ''undefined'');
          flags_enable_both = (
            str_contains flags_config ''address = true'' \<and>
            str_contains flags_config ''undefined = true'');
          generated_counts_flags = (
            str_contains generated ''build/sanitizer.toml'' \<and>
            str_contains generated ''config/sanitizer/flags.toml'' \<and>
            str_contains generated ''#def SANITIZER_FLAG_COUNT = 2'');
          sanitizer_contract = (
            build_requests_sanitizers \<and>
            flags_enable_both \<and>
            generated_counts_flags)
      in println_i (Val (bool_i32 sanitizer_contract)))"

lemma main_272_mono: "monotone_checker main_272"
  by (rule monotone_checkerI) (simp_all add: main_272_def Let_def)

definition main_273 :: "(string \<Rightarrow> string) \<Rightarrow> rust_run" where
  "main_273 fs =
     (let manifest = fs ''harness/manifest.toml'';
          basic = fs ''harness/cases/basic.toml'';
          ffi = fs ''harness/cases/ffi.toml'';
          generated = fs ''generated/harness/index.sa'';
          manifest_lists_cases = (str_contains manifest (''cases = ['' @ [CHR 0x22] @ ''basic'' @ [CHR 0x22] @ '', '' @ [CHR 0x22] @ ''ffi'' @ [CHR 0x22] @ '']''));
          cases_have_commands = (
            str_contains basic (''name = '' @ [CHR 0x22] @ ''basic'' @ [CHR 0x22]) \<and>
            str_contains basic (''command = '' @ [CHR 0x22] @ ''run'' @ [CHR 0x22]) \<and>
            str_contains ffi (''name = '' @ [CHR 0x22] @ ''ffi'' @ [CHR 0x22]) \<and>
            str_contains ffi (''command = '' @ [CHR 0x22] @ ''run-ffi'' @ [CHR 0x22]));
          generated_indexes_cases = (
            str_contains generated ''harness/manifest.toml'' \<and>
            str_contains generated ''harness/cases/*.toml'' \<and>
            str_contains generated ''#def HARNESS_CASE_COUNT = 2'');
          harness_contract = (
            manifest_lists_cases \<and>
            cases_have_commands \<and>
            generated_indexes_cases)
      in println_i (Val (bool_i32 harness_contract)))"

lemma main_273_mono: "monotone_checker main_273"
  by (rule monotone_checkerI) (simp_all add: main_273_def Let_def)

definition main_274 :: "(string \<Rightarrow> string) \<Rightarrow> rust_run" where
  "main_274 fs =
     (let manifest = fs ''bench/manifest.toml'';
          throughput = fs ''bench/cases/throughput.toml'';
          latency = fs ''bench/cases/latency.toml'';
          generated = fs ''generated/bench/runner.sa'';
          manifest_lists_bench_cases = (
            str_contains manifest ''throughput'' \<and>
            str_contains manifest ''latency'');
          cases_have_sample_counts = (
            str_contains throughput (''name = '' @ [CHR 0x22] @ ''throughput'' @ [CHR 0x22]) \<and>
            str_contains throughput ''samples = 128'' \<and>
            str_contains latency (''name = '' @ [CHR 0x22] @ ''latency'' @ [CHR 0x22]) \<and>
            str_contains latency ''samples = 32'');
          generated_counts_bench_cases = (
            str_contains generated ''bench/manifest.toml'' \<and>
            str_contains generated ''bench/cases/*.toml'' \<and>
            str_contains generated ''#def BENCHMARK_CASE_COUNT = 2'');
          bench_contract = (
            manifest_lists_bench_cases \<and>
            cases_have_sample_counts \<and>
            generated_counts_bench_cases)
      in println_i (Val (bool_i32 bench_contract)))"

lemma main_274_mono: "monotone_checker main_274"
  by (rule monotone_checkerI) (simp_all add: main_274_def Let_def)

definition main_275 :: "(string \<Rightarrow> string) \<Rightarrow> rust_run" where
  "main_275 fs =
     (let config = fs ''build/docgen.toml'';
          spec = fs ''docs/spec.md'';
          api_index = fs ''docs/api/index.md'';
          generated = fs ''generated/docs/index.sa'';
          config_sets_doc_paths = (
            str_contains config (''source = '' @ [CHR 0x22] @ ''docs'' @ [CHR 0x22]) \<and>
            str_contains config (''output = '' @ [CHR 0x22] @ ''generated/docs'' @ [CHR 0x22]));
          docs_contain_sources = (
            str_contains spec ''collects interface comments'' \<and>
            str_contains api_index ''sa_print_bytes'' \<and>
            str_contains api_index ''generated doc sections'');
          generated_mentions_docs = (
            str_contains generated ''build/docgen.toml'' \<and>
            str_contains generated ''docs/api/index.md'' \<and>
            str_contains generated ''#def DOC_PAGE_COUNT = 2'');
          doc_contract = (
            config_sets_doc_paths \<and>
            docs_contain_sources \<and>
            generated_mentions_docs)
      in println_i (Val (bool_i32 doc_contract)))"

lemma main_275_mono: "monotone_checker main_275"
  by (rule monotone_checkerI) (simp_all add: main_275_def Let_def)

definition main_276 :: "(string \<Rightarrow> string) \<Rightarrow> rust_run" where
  "main_276 fs =
     (let config = fs ''build/cache.toml'';
          index = fs ''cache/index.json'';
          hashes = fs ''cache/hashes.txt'';
          generated = fs ''generated/cache/state.sa'';
          config_selects_incremental = (
            str_contains config (''strategy = '' @ [CHR 0x22] @ ''incremental'' @ [CHR 0x22]) \<and>
            str_contains config (''index = '' @ [CHR 0x22] @ ''cache/index.json'' @ [CHR 0x22]));
          cache_records_hashes = (
            str_contains index ([CHR 0x22] @ ''packages'' @ [CHR 0x22] @ '': ['' @ [CHR 0x22] @ ''core'' @ [CHR 0x22] @ '', '' @ [CHR 0x22] @ ''extras'' @ [CHR 0x22] @ '']'') \<and>
            str_contains index ''cache/hashes.txt'' \<and>
            str_contains hashes ''core=9f4d'' \<and>
            str_contains hashes ''extras=18ac'');
          generated_counts_cache_entries = (
            str_contains generated ''build/cache.toml'' \<and>
            str_contains generated ''cache/index.json'' \<and>
            str_contains generated ''#def CACHE_ENTRY_COUNT = 2'');
          cache_contract = (
            config_selects_incremental \<and>
            cache_records_hashes \<and>
            generated_counts_cache_entries)
      in println_i (Val (bool_i32 cache_contract)))"

lemma main_276_mono: "monotone_checker main_276"
  by (rule monotone_checkerI) (simp_all add: main_276_def Let_def)

definition main_277 :: "(string \<Rightarrow> string) \<Rightarrow> rust_run" where
  "main_277 fs =
     (let parse_job = fs ''build/parallel/jobs/parse.toml'';
          codegen_job = fs ''build/parallel/jobs/codegen.toml'';
          generated = fs ''generated/parallel/schedule.sa'';
          jobs_are_parallel_inputs = (
            str_contains parse_job (''name = '' @ [CHR 0x22] @ ''parse'' @ [CHR 0x22]) \<and>
            str_contains parse_job ''lane = 0'' \<and>
            str_contains codegen_job (''name = '' @ [CHR 0x22] @ ''codegen'' @ [CHR 0x22]) \<and>
            str_contains codegen_job ''lane = 1'');
          generated_mentions_jobs = (
            str_contains generated ''build/parallel/jobs/*.toml'' \<and>
            str_contains generated ''#def PARALLEL_JOB_COUNT = 2'' \<and>
            str_contains generated ''@parallel_schedule_count() -> i32'');
          parallel_contract = (jobs_are_parallel_inputs \<and> generated_mentions_jobs)
      in println_i (Val (bool_i32 parallel_contract)))"

lemma main_277_mono: "monotone_checker main_277"
  by (rule monotone_checkerI) (simp_all add: main_277_def Let_def)

definition main_278 :: "(string \<Rightarrow> string) \<Rightarrow> rust_run" where
  "main_278 fs =
     (let seed = fs ''build/repro/seed.toml'';
          fingerprint = fs ''cache/repro/fingerprint.txt'';
          generated = fs ''generated/repro/build.sa'';
          seed_is_fixed = (
            str_contains seed ''seed = 424242'' \<and>
            str_contains seed ''epoch = 0'');
          fingerprint_matches_seed = (
            str_contains fingerprint ''seed=424242'' \<and>
            str_contains fingerprint ''epoch=0'');
          generated_mentions_repro_sources = (
            str_contains generated ''build/repro/seed.toml'' \<and>
            str_contains generated ''cache/repro/fingerprint.txt'' \<and>
            str_contains generated ''#def REPRO_ARTIFACT_COUNT = 2'');
          repro_contract = (
            seed_is_fixed \<and>
            fingerprint_matches_seed \<and>
            generated_mentions_repro_sources)
      in println_i (Val (bool_i32 repro_contract)))"

lemma main_278_mono: "monotone_checker main_278"
  by (rule monotone_checkerI) (simp_all add: main_278_def Let_def)

definition main_279 :: "(string \<Rightarrow> string) \<Rightarrow> rust_run" where
  "main_279 fs =
     (let index = fs ''cache/remote/index.json'';
          state = fs ''cache/remote/state.txt'';
          generated = fs ''generated/remote/cache.sa'';
          remote_index_declares_backend = (
            str_contains index ([CHR 0x22] @ ''backend'' @ [CHR 0x22] @ '': '' @ [CHR 0x22] @ ''sccache'' @ [CHR 0x22]) \<and>
            str_contains index ([CHR 0x22] @ ''bucket'' @ [CHR 0x22] @ '': '' @ [CHR 0x22] @ ''sa-asm-builds'' @ [CHR 0x22]));
          remote_state_matches_index = (
            str_contains state ''backend=sccache'' \<and>
            str_contains state ''bucket=sa-asm-builds'');
          generated_mentions_remote_cache = (
            str_contains generated ''cache/remote/index.json'' \<and>
            str_contains generated ''cache/remote/state.txt'' \<and>
            str_contains generated ''#def REMOTE_CACHE_COUNT = 2'');
          remote_cache_contract = (
            remote_index_declares_backend \<and>
            remote_state_matches_index \<and>
            generated_mentions_remote_cache)
      in println_i (Val (bool_i32 remote_cache_contract)))"

lemma main_279_mono: "monotone_checker main_279"
  by (rule monotone_checkerI) (simp_all add: main_279_def Let_def)

definition main_280 :: "(string \<Rightarrow> string) \<Rightarrow> rust_run" where
  "main_280 fs =
     (let config = fs ''build/ci.toml'';
          release = fs ''ci/workflows/release.yml'';
          verify = fs ''ci/workflows/verify.yml'';
          generated = fs ''generated/ci/pipeline.sa'';
          config_points_to_pipeline = (
            str_contains config (''pipeline = '' @ [CHR 0x22] @ ''release'' @ [CHR 0x22]) \<and>
            str_contains config (''artifact = '' @ [CHR 0x22] @ ''generated/ci/pipeline.sa'' @ [CHR 0x22]));
          workflows_cover_push_and_pr = (
            str_contains release ''name: release'' \<and>
            str_contains release ''push:'' \<and>
            str_contains release ''branches:'' \<and>
            str_contains verify ''name: verify'' \<and>
            str_contains verify (''pull_request: '' @ [CHR 0x7B] @ [CHR 0x7D]));
          generated_counts_workflows = (
            str_contains generated ''build/ci.toml'' \<and>
            str_contains generated ''ci/workflows/*.yml'' \<and>
            str_contains generated ''#def CI_WORKFLOW_COUNT = 2'');
          ci_contract = (
            config_points_to_pipeline \<and>
            workflows_cover_push_and_pr \<and>
            generated_counts_workflows)
      in println_i (Val (bool_i32 ci_contract)))"

lemma main_280_mono: "monotone_checker main_280"
  by (rule monotone_checkerI) (simp_all add: main_280_def Let_def)

definition main_281 :: "(string \<Rightarrow> string) \<Rightarrow> rust_run" where
  "main_281 fs =
     (let bridge = fs ''bridge/libc_gate.sa'';
          layout = fs ''bridge/libc_gate.sal'';
          ffi = fs ''ffi/libc.sai'';
          header = fs ''host/libc.h'';
          linker = fs ''host/linker/system-libc.ld'';
          pkg = fs ''host/system-libc.pc'';
          bridge_uses_libc_ffi = (
            str_contains bridge ''ffi/libc.sai'' \<and>
            str_contains bridge ''@ffi_wrapper libc_probe_gate(*probe: ptr) -> i32'' \<and>
            str_contains bridge ''load view+LibcProbe_tag as i32'');
          layout_matches_probe = (
            str_contains layout ''#def LibcProbe_SIZE = 4'' \<and>
            str_contains layout ''#def LibcProbe_tag = +0'');
          host_declares_system_probe = (
            str_contains ffi ''@extern system_probe(tag: i32) -> i32'' \<and>
            str_contains header ''int system_probe(int tag);'');
          link_metadata = (
            str_contains linker ''GROUP(-lc)'' \<and>
            str_contains pkg ''Name: demo-281-system-libc'' \<and>
            str_contains pkg ''Libs: -lc'');
          libc_contract = (
            bridge_uses_libc_ffi \<and>
            layout_matches_probe \<and>
            host_declares_system_probe \<and>
            link_metadata)
      in println_i (Val (bool_i32 libc_contract)))"

lemma main_281_mono: "monotone_checker main_281"
  by (rule monotone_checkerI) (simp_all add: main_281_def Let_def)

definition main_282 :: "(string \<Rightarrow> string) \<Rightarrow> rust_run" where
  "main_282 fs =
     (let bridge = fs ''bridge/static_gate.sa'';
          layout = fs ''bridge/static_gate.sal'';
          ffi = fs ''ffi/static_lib.sai'';
          header = fs ''host/include/staticlib.h'';
          archive = fs ''host/libstatic.a.note'';
          linker = fs ''host/linker/staticlib.ld'';
          bridge_uses_static_ffi = (
            str_contains bridge ''ffi/static_lib.sai'' \<and>
            str_contains bridge ''@ffi_wrapper static_probe_gate(*slot: ptr) -> i32'' \<and>
            str_contains bridge ''load view+StaticProbe_tag as i32'');
          layout_matches_static_probe = (
            str_contains layout ''#def StaticProbe_SIZE = 4'' \<and>
            str_contains layout ''#def StaticProbe_tag = +0'');
          host_declares_static_probe = (
            str_contains ffi ''@extern staticlib_probe(tag: i32) -> i32'' \<and>
            str_contains header ''int staticlib_probe(int tag);'');
          archive_linked = (
            str_contains archive ''static archive'' \<and>
            str_contains linker ''INPUT(libstatic.a)'' \<and>
            str_contains linker ''GROUP(-lc)'');
          static_contract = (
            bridge_uses_static_ffi \<and>
            layout_matches_static_probe \<and>
            host_declares_static_probe \<and>
            archive_linked)
      in println_i (Val (bool_i32 static_contract)))"

lemma main_282_mono: "monotone_checker main_282"
  by (rule monotone_checkerI) (simp_all add: main_282_def Let_def)

definition main_283 :: "(string \<Rightarrow> string) \<Rightarrow> rust_run" where
  "main_283 fs =
     (let bridge = fs ''bridge/dynamic_gate.sa'';
          layout = fs ''bridge/dynamic_gate.sal'';
          ffi = fs ''ffi/dynamic_lib.sai'';
          header = fs ''host/include/dynamiclib.h'';
          rpath = fs ''host/loader/rpath.txt'';
          pkg = fs ''host/pkgconfig/dynamiclib.pc'';
          bridge_uses_dynamic_ffi = (
            str_contains bridge ''ffi/dynamic_lib.sai'' \<and>
            str_contains bridge ''@ffi_wrapper dynamic_probe_gate(*slot: ptr) -> i32'' \<and>
            str_contains bridge ''load view+DynamicProbe_tag as i32'');
          layout_matches_dynamic_probe = (
            str_contains layout ''#def DynamicProbe_SIZE = 4'' \<and>
            str_contains layout ''#def DynamicProbe_tag = +0'');
          host_declares_dynamic_probe = (
            str_contains ffi ''@extern dynamiclib_probe(tag: i32) -> i32'' \<and>
            str_contains header ''int dynamiclib_probe(int tag);'');
          dynamic_loader_metadata = (
            str_contains rpath ''loader=dlopen'' \<and>
            str_contains rpath ''rpath=$ORIGIN'' \<and>
            str_contains pkg ''Libs: -ldynamic'');
          dynamic_contract = (
            bridge_uses_dynamic_ffi \<and>
            layout_matches_dynamic_probe \<and>
            host_declares_dynamic_probe \<and>
            dynamic_loader_metadata)
      in println_i (Val (bool_i32 dynamic_contract)))"

lemma main_283_mono: "monotone_checker main_283"
  by (rule monotone_checkerI) (simp_all add: main_283_def Let_def)

definition main_284 :: "(string \<Rightarrow> string) \<Rightarrow> rust_run" where
  "main_284 fs =
     (let config = fs ''config/pkg-config.toml'';
          bridge = fs ''bridge/pkg_config_gate.sa'';
          layout = fs ''bridge/pkg_config_gate.sal'';
          ffi = fs ''ffi/pkg_config.sai'';
          header = fs ''host/include/pkg_config.h'';
          pc = fs ''host/pkgconfig/demo284.pc'';
          config_points_to_pkgconfig = (
            str_contains config (''name = '' @ [CHR 0x22] @ ''demo-284-pkg-config'' @ [CHR 0x22]) \<and>
            str_contains config (''libdir = '' @ [CHR 0x22] @ ''host/pkgconfig'' @ [CHR 0x22]));
          bridge_uses_pkg_config_ffi = (
            str_contains bridge ''ffi/pkg_config.sai'' \<and>
            str_contains bridge ''@ffi_wrapper pkg_config_probe_gate(*probe: ptr) -> i32'' \<and>
            str_contains layout ''#def PkgConfigProbe_tag = +0'');
          host_declares_pkg_config_probe = (
            str_contains ffi ''@extern pkg_config_probe(tag: i32) -> i32'' \<and>
            str_contains header ''int pkg_config_probe(int tag);'');
          pc_exports_paths = (
            str_contains pc ''Name: demo-284-pkg-config'' \<and>
            str_contains pc ''Libs: -ldemo284'' \<and>
            str_contains pc (''Cflags: -I$'' @ [CHR 0x7B] @ ''includedir'' @ [CHR 0x7D]));
          pkg_config_contract = (
            config_points_to_pkgconfig \<and>
            bridge_uses_pkg_config_ffi \<and>
            host_declares_pkg_config_probe \<and>
            pc_exports_paths)
      in println_i (Val (bool_i32 pkg_config_contract)))"

lemma main_284_mono: "monotone_checker main_284"
  by (rule monotone_checkerI) (simp_all add: main_284_def Let_def)

definition main_285 :: "(string \<Rightarrow> string) \<Rightarrow> rust_run" where
  "main_285 fs =
     (let bridge = fs ''bridge/objc_gate.sa'';
          layout = fs ''bridge/objc_gate.sal'';
          ffi = fs ''ffi/objective_c.sai'';
          header = fs ''host/framework/DemoKit.framework/Headers/DemoKit.h'';
          modulemap = fs ''host/framework/DemoKit.framework/Modules/module.modulemap'';
          binary_note = fs ''host/framework/DemoKit.framework/DemoKit.tbd.note'';
          bridge_uses_framework_layout = (
            str_contains bridge ''@ffi_wrapper objc_framework_gate(*frame: ptr) -> i32'' \<and>
            str_contains bridge ''load view+ObjCFrame_framework as i32'' \<and>
            str_contains layout ''#def ObjCFrame_framework = +4'');
          ffi_and_header_match = (
            str_contains ffi ''@extern objc_framework_probe(tag: i32) -> i32'' \<and>
            str_contains header ''int objc_framework_probe(int tag);'');
          framework_bundle_metadata = (
            str_contains modulemap ''framework module DemoKit'' \<and>
            str_contains modulemap (''header '' @ [CHR 0x22] @ ''DemoKit.h'' @ [CHR 0x22]) \<and>
            str_contains binary_note ''.framework bundle'');
          objc_contract = (
            bridge_uses_framework_layout \<and>
            ffi_and_header_match \<and>
            framework_bundle_metadata)
      in println_i (Val (bool_i32 objc_contract)))"

lemma main_285_mono: "monotone_checker main_285"
  by (rule monotone_checkerI) (simp_all add: main_285_def Let_def)

definition main_286 :: "(string \<Rightarrow> string) \<Rightarrow> rust_run" where
  "main_286 fs =
     (let bridge = fs ''bridge/rust_static_gate.sa'';
          layout = fs ''bridge/rust_static_gate.sal'';
          ffi = fs ''ffi/rust_staticlib.sai'';
          cargo = fs ''host/rust/cargo-bridge.toml'';
          header = fs ''host/rust/include/demo286.h'';
          archive = fs ''host/rust/libdemo286.a.note'';
          bridge_uses_rust_staticlib = (
            str_contains bridge ''ffi/rust_staticlib.sai'' \<and>
            str_contains bridge ''@ffi_wrapper rust_staticlib_gate(*slot: ptr) -> i32'' \<and>
            str_contains bridge ''load view+RustStaticProbe_minor as i32'');
          layout_has_two_fields = (
            str_contains layout ''#def RustStaticProbe_tag = +0'' \<and>
            str_contains layout ''#def RustStaticProbe_minor = +4'');
          rust_host_metadata = (
            str_contains ffi ''@extern rust_staticlib_probe(tag: i32) -> i32'' \<and>
            str_contains cargo (''name = '' @ [CHR 0x22] @ ''demo286-bridge'' @ [CHR 0x22]) \<and>
            str_contains header ''int rust_staticlib_probe(int tag);'' \<and>
            str_contains archive ''Rust build would hand to the linker'');
          rust_staticlib_contract = (
            bridge_uses_rust_staticlib \<and>
            layout_has_two_fields \<and>
            rust_host_metadata)
      in println_i (Val (bool_i32 rust_staticlib_contract)))"

lemma main_286_mono: "monotone_checker main_286"
  by (rule monotone_checkerI) (simp_all add: main_286_def Let_def)

definition main_287 :: "(string \<Rightarrow> string) \<Rightarrow> rust_run" where
  "main_287 fs =
     (let guest = fs ''guest/zig_export.sa'';
          layout = fs ''guest/zig_export.sal'';
          bridge = fs ''host/zig/bridge.txt'';
          build_note = fs ''host/zig/build.zig.note'';
          header = fs ''host/zig/exported.h'';
          guest_exports_entry = (
            str_contains guest ''@export zig_entry() -> i32'' \<and>
            str_contains guest ''return ZigExport_VALUE'' \<and>
            str_contains layout ''#def ZigExport_VALUE = 287'');
          zig_host_mentions_import = (
            str_contains bridge ''Zig host would call the exported SA entrypoint'' \<and>
            str_contains build_note ''Zig build script'' \<and>
            str_contains header ''int zig_entry(void);'');
          zig_contract = (guest_exports_entry \<and> zig_host_mentions_import)
      in println_i (Val (bool_i32 zig_contract)))"

lemma main_287_mono: "monotone_checker main_287"
  by (rule monotone_checkerI) (simp_all add: main_287_def Let_def)

definition main_288 :: "(string \<Rightarrow> string) \<Rightarrow> rust_run" where
  "main_288 fs =
     (let bridge = fs ''bridge/cxx_gate.sa'';
          layout = fs ''bridge/cxx_gate.sal'';
          ffi = fs ''ffi/cxx_name.sai'';
          header = fs ''host/cxx/include/demo.hpp'';
          map = fs ''host/cxx/linker.map'';
          nm = fs ''host/cxx/nm.txt'';
          bridge_uses_cxx_probe = (
            str_contains bridge ''ffi/cxx_name.sai'' \<and>
            str_contains bridge ''@ffi_wrapper cxx_name_gate(*probe: ptr) -> i32'' \<and>
            str_contains layout ''#def CxxProbe_suffix = +4'');
          extern_c_surface = (
            str_contains ffi ''@extern cxx_name_probe(tag: i32) -> i32'' \<and>
            str_contains header (''extern '' @ [CHR 0x22] @ ''C'' @ [CHR 0x22] @ '' int cxx_name_probe(int tag);''));
          symbol_map_is_explicit = (
            str_contains map ''cxx_name_probe;'' \<and>
            str_contains map ''local:'' \<and>
            str_contains nm ''T cxx_name_probe'' \<and>
            str_contains nm ''T cxx_name_probe_wrapper'');
          cxx_contract = (
            bridge_uses_cxx_probe \<and>
            extern_c_surface \<and>
            symbol_map_is_explicit)
      in println_i (Val (bool_i32 cxx_contract)))"

lemma main_288_mono: "monotone_checker main_288"
  by (rule monotone_checkerI) (simp_all add: main_288_def Let_def)

definition main_289 :: "(string \<Rightarrow> string) \<Rightarrow> rust_run" where
  "main_289 fs =
     (let bridge = fs ''bridge/handle_gate.sa'';
          layout = fs ''bridge/handle_gate.sal'';
          ffi = fs ''ffi/handle.sai'';
          header = fs ''host/include/handle.h'';
          manifest = fs ''host/ownership/handle.manifest'';
          notes = fs ''host/ownership/notes.md'';
          bridge_reads_handle_slot = (
            str_contains bridge ''@ffi_wrapper handle_gate(*slot: ptr) -> i32'' \<and>
            str_contains bridge ''load view+HandleSlot_refcount as i32'' \<and>
            str_contains layout ''#def HandleSlot_refcount = +4'');
          ffi_declares_open_close = (
            str_contains ffi ''@extern handle_open(id: i32) -> ptr'' \<and>
            str_contains ffi ''@extern handle_close(handle: ptr) -> i32'');
          host_marks_opaque_external = (
            str_contains header ''typedef struct DemoHandle DemoHandle;'' \<and>
            str_contains header ''DemoHandle *handle_open(int id);'' \<and>
            str_contains manifest ''opaque-handle = true'' \<and>
            str_contains manifest ''ownership = external'' \<and>
            str_contains notes ''host owns the real handle lifetime'');
          handle_contract = (
            bridge_reads_handle_slot \<and>
            ffi_declares_open_close \<and>
            host_marks_opaque_external)
      in println_i (Val (bool_i32 handle_contract)))"

lemma main_289_mono: "monotone_checker main_289"
  by (rule monotone_checkerI) (simp_all add: main_289_def Let_def)

definition main_290 :: "(string \<Rightarrow> string) \<Rightarrow> rust_run" where
  "main_290 fs =
     (let bridge = fs ''bridge/callback_thunk.sa'';
          layout = fs ''bridge/callback_thunk.sal'';
          ffi = fs ''ffi/callback.sai'';
          registry = fs ''host/callback/registry.h'';
          loader = fs ''host/callback/loader.note'';
          thunk = fs ''host/callback/thunk.md'';
          bridge_defines_callback_vtable = (
            str_contains bridge (''@const CALLBACK_VT = vtable '' @ [CHR 0x7B] @ '' call = @callback_step '' @ [CHR 0x7D]) \<and>
            str_contains bridge ''call_indirect fn(value)'' \<and>
            str_contains bridge ''store view+CallbackState_value, result as i32'');
          layout_defines_state_and_vtable = (
            str_contains layout ''#def CallbackState_vtable = +8'' \<and>
            str_contains layout ''#def CallbackVTable_call = +0'');
          host_declares_registration = (
            str_contains ffi ''@extern host_register_callback(cb: ptr) -> i32'' \<and>
            str_contains registry ''typedef int (*Demo290Callback)(int);'' \<and>
            str_contains registry ''int host_register_callback(Demo290Callback cb);'');
          host_documents_thunk = (
            str_contains loader ''loader-side registration path'' \<and>
            str_contains thunk ''thunk pointer'' \<and>
            str_contains thunk ''callback registry'');
          callback_contract = (
            bridge_defines_callback_vtable \<and>
            layout_defines_state_and_vtable \<and>
            host_declares_registration \<and>
            host_documents_thunk)
      in println_i (Val (bool_i32 callback_contract)))"

lemma main_290_mono: "monotone_checker main_290"
  by (rule monotone_checkerI) (simp_all add: main_290_def Let_def)

definition main_291 :: "(string \<Rightarrow> string) \<Rightarrow> rust_run" where
  "main_291 fs =
     (let guest = fs ''guest/guest_entry.sa'';
          layout = fs ''guest/guest_entry.sal'';
          imports = fs ''host/host_imports.sai'';
          wit = fs ''host/imports.wit.md'';
          docs = fs ''docs/runtime.md'';
          guest_imports_host_surface = (
            str_contains guest ''host/host_imports.sai'' \<and>
            str_contains guest ''@ffi_wrapper wasm_guest_gate(*frame: ptr) -> i32'' \<and>
            str_contains guest ''@export wasm_guest_entry() -> i32'');
          layout_defines_frame = (
            str_contains layout ''#def WasmHostFrame_tag = +0'' \<and>
            str_contains layout ''#def WasmHostFrame_status = +4'');
          host_imports_are_explicit = (
            str_contains imports ''@extern host_log(tag: i32) -> i32'' \<and>
            str_contains imports ''@extern host_clock_ms() -> i32'' \<and>
            str_contains wit ''host-side imports'' \<and>
            str_contains docs ''host import table separate'');
          wasm_import_contract = (
            guest_imports_host_surface \<and>
            layout_defines_frame \<and>
            host_imports_are_explicit)
      in println_i (Val (bool_i32 wasm_import_contract)))"

lemma main_291_mono: "monotone_checker main_291"
  by (rule monotone_checkerI) (simp_all add: main_291_def Let_def)

definition main_292 :: "(string \<Rightarrow> string) \<Rightarrow> rust_run" where
  "main_292 fs =
     (let guest = fs ''guest/memory_export.sa'';
          layout = fs ''guest/memory_export.sal'';
          asset = fs ''assets/memory-layout.json'';
          note = fs ''host/memory_export.note'';
          map = fs ''host/memory_map.txt'';
          guest_exports_memory_entry = (
            str_contains guest ''@ffi_wrapper memory_gate(*view: ptr) -> i32'' \<and>
            str_contains guest ''@export wasm_memory_export() -> i32'');
          layout_defines_view = (
            str_contains layout ''#def MemoryView_value = +0'' \<and>
            str_contains layout ''#def MemoryView_marker = +4'');
          host_documents_memory = (
            str_contains asset ([CHR 0x22] @ ''memory'' @ [CHR 0x22] @ '': '' @ [CHR 0x22] @ ''exported'' @ [CHR 0x22]) \<and>
            str_contains asset ([CHR 0x22] @ ''pages'' @ [CHR 0x22] @ '': 1'') \<and>
            str_contains note ''map this guest memory'' \<and>
            str_contains map ''linear-memory = guest-owned'');
          memory_contract = (
            guest_exports_memory_entry \<and>
            layout_defines_view \<and>
            host_documents_memory)
      in println_i (Val (bool_i32 memory_contract)))"

lemma main_292_mono: "monotone_checker main_292"
  by (rule monotone_checkerI) (simp_all add: main_292_def Let_def)

definition main_293 :: "(string \<Rightarrow> string) \<Rightarrow> rust_run" where
  "main_293 fs =
     (let startup = fs ''guest/startup.sa'';
          layout = fs ''guest/startup.sal'';
          docs = fs ''docs/board.md'';
          linker = fs ''host/board/linker.ld'';
          map = fs ''host/board/memory-map.txt'';
          startup_exports_entry = (
            str_contains startup ''@ffi_wrapper embedded_gate(*state: ptr) -> i32'' \<and>
            str_contains startup ''@export embedded_start() -> i32'');
          layout_defines_state = (
            str_contains layout ''#def EmbeddedState_tag = +0'' \<and>
            str_contains layout ''#def EmbeddedState_status = +4'');
          board_metadata = (
            str_contains docs ''startup, memory map, and linker notes'' \<and>
            str_contains linker ''ENTRY(_start)'' \<and>
            str_contains linker ''FLASH (rx)'' \<and>
            str_contains map ''startup = guest/startup.sa'');
          embedded_contract = (
            startup_exports_entry \<and>
            layout_defines_state \<and>
            board_metadata)
      in println_i (Val (bool_i32 embedded_contract)))"

lemma main_293_mono: "monotone_checker main_293"
  by (rule monotone_checkerI) (simp_all add: main_293_def Let_def)

definition main_294 :: "(string \<Rightarrow> string) \<Rightarrow> rust_run" where
  "main_294 fs =
     (let module = fs ''kernel/module.sa'';
          layout = fs ''kernel/module.sal'';
          manifest = fs ''host/module/kernel-module.manifest'';
          insmod = fs ''host/module/insmod.txt'';
          linker = fs ''linker/kernel-module.ld'';
          kernel_exports_entry = (
            str_contains module ''@ffi_wrapper kernel_gate(*record: ptr) -> i32'' \<and>
            str_contains module ''@export kernel_module_entry() -> i32'');
          layout_defines_record = (
            str_contains layout ''#def KernelRecord_major = +0'' \<and>
            str_contains layout ''#def KernelRecord_minor = +4'');
          host_kernel_metadata = (
            str_contains manifest (''module = '' @ [CHR 0x22] @ ''demo-294'' @ [CHR 0x22]) \<and>
            str_contains manifest (''type = '' @ [CHR 0x22] @ ''kernel'' @ [CHR 0x22]) \<and>
            str_contains insmod ''load the kernel module artifact'' \<and>
            str_contains linker (''.text : '' @ [CHR 0x7B] @ '' *(.text*) '' @ [CHR 0x7D]));
          kernel_contract = (
            kernel_exports_entry \<and>
            layout_defines_record \<and>
            host_kernel_metadata)
      in println_i (Val (bool_i32 kernel_contract)))"

lemma main_294_mono: "monotone_checker main_294"
  by (rule monotone_checkerI) (simp_all add: main_294_def Let_def)

definition main_295 :: "(string \<Rightarrow> string) \<Rightarrow> rust_run" where
  "main_295 fs =
     (let program = fs ''guest/program.sa'';
          layout = fs ''guest/program.sal'';
          docs = fs ''docs/bytecode.md'';
          attach = fs ''host/trace/attach.txt'';
          pin = fs ''host/trace/pin.json'';
          program_exports_entry = (
            str_contains program ''@ffi_wrapper ebpf_gate(*packet: ptr) -> i32'' \<and>
            str_contains program ''@export ebpf_guest_entry() -> i32'');
          layout_defines_packet = (
            str_contains layout ''#def BpfPacket_kind = +0'' \<and>
            str_contains layout ''#def BpfPacket_value = +4'');
          host_trace_metadata = (
            str_contains docs ''source, attach metadata, and pinned path'' \<and>
            str_contains attach ''attach = demo-295'' \<and>
            str_contains attach ''program = guest/program.sa'' \<and>
            str_contains pin ''/sys/fs/bpf/demo-295'');
          ebpf_contract = (
            program_exports_entry \<and>
            layout_defines_packet \<and>
            host_trace_metadata)
      in println_i (Val (bool_i32 ebpf_contract)))"

lemma main_295_mono: "monotone_checker main_295"
  by (rule monotone_checkerI) (simp_all add: main_295_def Let_def)

definition main_296 :: "(string \<Rightarrow> string) \<Rightarrow> rust_run" where
  "main_296 fs =
     (let shader = fs ''guest/shader.sa'';
          layout = fs ''guest/shader.sal'';
          args = fs ''assets/kernel-args.txt'';
          launch = fs ''host/launch/launch.json'';
          ptx = fs ''host/ptx/kernel.ptx.note'';
          shader_exports_entry = (
            str_contains shader ''@ffi_wrapper gpu_shader_gate(*uniform: ptr) -> i32'' \<and>
            str_contains shader ''@export gpu_shader_entry() -> i32'');
          layout_defines_uniform = (
            str_contains layout ''#def ShaderUniform_lane = +0'' \<and>
            str_contains layout ''#def ShaderUniform_seed = +4'');
          host_launch_metadata = (
            str_contains args ''lane=296'' \<and>
            str_contains launch ([CHR 0x22] @ ''gpu'' @ [CHR 0x22] @ '': '' @ [CHR 0x22] @ ''ptx'' @ [CHR 0x22]) \<and>
            str_contains launch ([CHR 0x22] @ ''entry'' @ [CHR 0x22] @ '': '' @ [CHR 0x22] @ ''gpu_shader_entry'' @ [CHR 0x22]) \<and>
            str_contains ptx ''PTX kernel text'');
          gpu_contract = (
            shader_exports_entry \<and>
            layout_defines_uniform \<and>
            host_launch_metadata)
      in println_i (Val (bool_i32 gpu_contract)))"

lemma main_296_mono: "monotone_checker main_296"
  by (rule monotone_checkerI) (simp_all add: main_296_def Let_def)

definition main_297 :: "(string \<Rightarrow> string) \<Rightarrow> rust_run" where
  "main_297 fs =
     (let world = fs ''engine/world.sa'';
          layout = fs ''engine/world.sal'';
          docs = fs ''docs/ecs.md'';
          assets = fs ''host/scene/assets.list'';
          scene = fs ''host/scene/world.scene.txt'';
          world_steps_entity = (
            str_contains world ''@step_entity(&entity: ptr) -> i32'' \<and>
            str_contains world ''store entity+Entity_X, next_x as i32'' \<and>
            str_contains world ''@export engine_scene_step() -> i32'');
          layout_defines_ecs_components = (
            str_contains layout ''#def Entity_X = +0'' \<and>
            str_contains layout ''#def Entity_Y = +4'' \<and>
            str_contains layout ''#def Entity_VX = +8'' \<and>
            str_contains layout ''#def Entity_VY = +12'');
          scene_metadata = (
            str_contains docs ''layout, step logic, and scene assets'' \<and>
            str_contains assets ''entity_sprite.png'' \<and>
            str_contains assets ''level0.json'' \<and>
            str_contains scene ''world = engine/world.sa'');
          ecs_contract = (
            world_steps_entity \<and>
            layout_defines_ecs_components \<and>
            scene_metadata)
      in println_i (Val (bool_i32 ecs_contract)))"

lemma main_297_mono: "monotone_checker main_297"
  by (rule monotone_checkerI) (simp_all add: main_297_def Let_def)

definition main_298 :: "(string \<Rightarrow> string) \<Rightarrow> rust_run" where
  "main_298 fs =
     (let hash = fs ''crypto/hash.sa'';
          layout = fs ''crypto/hash.sal'';
          docs = fs ''docs/simd.md'';
          header = fs ''host/include/crypto.h'';
          bench = fs ''bench/hash_bench.txt'';
          hash_exports_entry = (
            str_contains hash ''@ffi_wrapper crypto_hash_gate(*state: ptr) -> i32'' \<and>
            str_contains hash ''@export crypto_hash_entry() -> i32'');
          layout_defines_hash_state = (
            str_contains layout ''#def HashState_round = +0'' \<and>
            str_contains layout ''#def HashState_lane = +4'');
          host_crypto_metadata = (
            str_contains docs ''benchmark and public header'' \<and>
            str_contains header ''int crypto_hash_entry(void);'' \<and>
            str_contains bench ''rounds = 298'');
          crypto_contract = (
            hash_exports_entry \<and>
            layout_defines_hash_state \<and>
            host_crypto_metadata)
      in println_i (Val (bool_i32 crypto_contract)))"

lemma main_298_mono: "monotone_checker main_298"
  by (rule monotone_checkerI) (simp_all add: main_298_def Let_def)

definition main_299 :: "(string \<Rightarrow> string) \<Rightarrow> rust_run" where
  "main_299 fs =
     (let server = fs ''lsp/server.sa'';
          layout = fs ''lsp/server.sal'';
          docs = fs ''docs/server.md'';
          capabilities = fs ''host/protocol/capabilities.md'';
          lsp = fs ''host/protocol/lsp.json'';
          server_exports_entry = (
            str_contains server ''@ffi_wrapper lsp_server_gate(*state: ptr) -> i32'' \<and>
            str_contains server ''@export lsp_server_entry() -> i32'');
          layout_defines_lsp_state = (
            str_contains layout ''#def LspState_req = +0'' \<and>
            str_contains layout ''#def LspState_seq = +4'');
          protocol_metadata = (
            str_contains docs ''wire protocol and client-facing docs'' \<and>
            str_contains capabilities ''protocol surface'' \<and>
            str_contains lsp ([CHR 0x22] @ ''jsonrpc'' @ [CHR 0x22] @ '': '' @ [CHR 0x22] @ ''2.0'' @ [CHR 0x22]) \<and>
            str_contains lsp ''textDocument/completion'');
          lsp_contract = (
            server_exports_entry \<and>
            layout_defines_lsp_state \<and>
            protocol_metadata)
      in println_i (Val (bool_i32 lsp_contract)))"

lemma main_299_mono: "monotone_checker main_299"
  by (rule monotone_checkerI) (simp_all add: main_299_def Let_def)

definition main_300 :: "(string \<Rightarrow> string) \<Rightarrow> rust_run" where
  "main_300 fs =
     (let publish = fs ''registry/publish.sa'';
          layout = fs ''registry/publish.sal'';
          docs = fs ''docs/publish.md'';
          registry = fs ''host/registry/registry.json'';
          log = fs ''host/registry/publish.log'';
          publish_exports_entry = (
            str_contains publish ''@ffi_wrapper registry_publish_gate(*pkg: ptr) -> i32'' \<and>
            str_contains publish ''@export registry_publish_entry() -> i32'');
          layout_defines_package = (
            str_contains layout ''#def Package_name = +0'' \<and>
            str_contains layout ''#def Package_version = +4'');
          registry_metadata = (
            str_contains docs ''registry publish step'' \<and>
            str_contains registry ([CHR 0x22] @ ''registry'' @ [CHR 0x22] @ '': '' @ [CHR 0x22] @ ''sa-lang.org'' @ [CHR 0x22]) \<and>
            str_contains registry ([CHR 0x22] @ ''package'' @ [CHR 0x22] @ '': '' @ [CHR 0x22] @ ''demo-300'' @ [CHR 0x22]) \<and>
            str_contains log ''publish demo-300 to sa-lang.org/registry'');
          registry_contract = (
            publish_exports_entry \<and>
            layout_defines_package \<and>
            registry_metadata)
      in println_i (Val (bool_i32 registry_contract)))"

lemma main_300_mono: "monotone_checker main_300"
  by (rule monotone_checkerI) (simp_all add: main_300_def Let_def)

definition main_271 :: "(string \<Rightarrow> string) \<Rightarrow> rust_run" where
  "main_271 fs =
     (let config = fs ''build/optimizations/passes.toml'';
          order = fs ''cache/optimizations/order.txt'';
          generated = fs ''generated/optimizations/passes.sa'';
          config_lists_passes = (str_contains config ''inline'' \<and> str_contains config ''const-prop'' \<and>
            str_contains config ''dce'');
          order_preserves_sequence = starts_with order (line ''inline'' @ line ''const-prop'' @ ''dce'');
          generated_counts_passes = (str_contains generated ''build/optimizations/passes.toml'' \<and>
            str_contains generated ''cache/optimizations/order.txt'' \<and>
            str_contains generated ''#def OPTIMIZATION_PASS_COUNT = 3'' \<and>
            str_contains generated ''@optimization_passes_count() -> i32'');
          optimization_contract = (config_lists_passes \<and> order_preserves_sequence \<and>
            generated_counts_passes)
      in println_i (Val (bool_i32 optimization_contract)))"

section \<open>Growing files\<close>

definition build_checkers :: "((string \<Rightarrow> string) \<Rightarrow> rust_run) list" where
  "build_checkers =
    [main_251, main_252, main_253, main_254, main_255, main_256, main_257, main_258, main_259,
     main_260, main_261, main_262, main_263, main_264, main_265, main_266, main_267, main_268,
     main_269, main_270, main_272, main_273, main_274, main_275, main_276, main_277, main_278,
     main_279, main_280, main_281, main_282, main_283, main_284, main_285, main_286, main_287,
     main_288, main_289, main_290, main_291, main_292, main_293, main_294, main_295, main_296,
     main_297, main_298, main_299, main_300]"

text \<open>The checkers of the contract, build, foreign and ecosystem demos that only look for text are monotone: they reject
  empty files, and adding text to the files never makes an accepted demo rejected.\<close>

lemma build_checkers_monotone: "list_all monotone_checker build_checkers"
  by (simp add: build_checkers_def
      main_251_mono main_252_mono main_253_mono main_254_mono main_255_mono main_256_mono
      main_257_mono main_258_mono main_259_mono main_260_mono main_261_mono main_262_mono
      main_263_mono main_264_mono main_265_mono main_266_mono main_267_mono main_268_mono
      main_269_mono main_270_mono main_272_mono main_273_mono main_274_mono main_275_mono
      main_276_mono main_277_mono main_278_mono main_279_mono main_280_mono main_281_mono
      main_282_mono main_283_mono main_284_mono main_285_mono main_286_mono main_287_mono
      main_288_mono main_289_mono main_290_mono main_291_mono main_292_mono main_293_mono
      main_294_mono main_295_mono main_296_mono main_297_mono main_298_mono main_299_mono
      main_300_mono)

section \<open>The checked-in files of 277\<close>

text \<open>The two job files and the schedule, as they are in the demo.\<close>

definition files_277 :: "string \<Rightarrow> string" where
  "files_277 p =
    (if p = ''build/parallel/jobs/parse.toml'' then
       line ''[job]'' @
       line (''name = '' @ [CHR 0x22] @ ''parse'' @ [CHR 0x22]) @
       line ''weight = 1''
     else if p = ''build/parallel/jobs/codegen.toml'' then
       line ''[job]'' @
       line (''name = '' @ [CHR 0x22] @ ''codegen'' @ [CHR 0x22]) @
       line ''weight = 2''
     else if p = ''generated/parallel/schedule.sa'' then
       line ''// Generated from build/parallel/jobs/*.toml.'' @
       line ''#def PARALLEL_JOB_COUNT = 2'' @
       line [] @
       line ''@parallel_schedule_value() -> i32:'' @
       line ''L_ENTRY:'' @
       line ''    value = add 276, 1'' @
       line ''    !value'' @
       line ''    return 277'' @
       line [] @
       line ''@parallel_schedule_count() -> i32:'' @
       line ''L_ENTRY:'' @
       line ''    count = add 1, 1'' @
       line ''    !count'' @
       line ''    return PARALLEL_JOB_COUNT''
     else [])"

text \<open>The reference of 277 rejects its own files: the jobs declare a weight where the program
  looks for a lane, so it prints 0; with the lanes in place of the weights it prints 1.\<close>

lemma main_277_rejects_checked_in:
  "prints (main_277 files_277) ''0'' \<and>
   prints (main_277 (files_277
     (''build/parallel/jobs/parse.toml'' := files_277 ''build/parallel/jobs/parse.toml'' @ ''lane = 0'',
      ''build/parallel/jobs/codegen.toml'' := files_277 ''build/parallel/jobs/codegen.toml'' @ ''lane = 1''))) ''1''"
  by code_simp

end
