(* ===== verification/Spec2Isabelle.thy ===== *)
theory Spec2Isabelle
  imports Sla_Control_Flow Sla_Block_Span Sla_Defer_Gone Sla_Stability Sla_Layout
    Sla_Loop_Rules Sla_Async Sla_Parse_Lookahead Sla_Shader_Sound Sla_Shader_Faults Sla_Shader_Normal Sla_Parse_File Rosetta_Concurrency
    Rosetta_Effects Rosetta_Extensions Rosetta_Packages Rosetta_Builds
begin

text \<open>
  The development of the \<open>sa_plugin_sla\<close> repository: the compiler of the language Sla (Zig, under
  \<open>src/src\<close>) and its reference programs (Rust, under \<open>src/demos/rosetta\<close>).

  \<^bold>\<open>The program.\<close>  The compiler scans a buffer (\<open>lexer.zig\<close>), parses it into a tree (\<open>parser.zig\<close>,
  \<open>ast.zig\<close>), expands imports and macros, replaces \<open>defer\<close> statements (\<open>defer_desugar.zig\<close>),
  checks types and emits code; both emitters follow \<open>control_flow_rules.zig\<close>.  Beside it,
  \<open>stability_metadata.zig\<close> validates the manifests of downstream projects.  Every directory of
  \<open>demos/rosetta\<close> holds a program in Sla and the Rust program (\<open>main.rs\<close>) it is compared with.

  \<^bold>\<open>The theories of the compiler.\<close>
  \<^item> \<open>Sla_Prelude\<close>: bytes, substrings and decimal numbers as the sources use them; \<open>Sla_Systems\<close>:
    the locales of step relations with an invariant, and of those that in addition end.
  \<^item> \<open>Sla_Lexer\<close>, \<open>Sla_Lexer_Run\<close>: the struct \<open>Lexer\<close> as a record with the fields of the source,
    \<open>lexer_next\<close> for the method \<open>next\<close>, the keyword table and the punctuators.  The lemmas show that
    \<open>next\<close> returns, keeps the invariant and moves on; that scanning does not depend on what comes
    before the buffer position; and that printed lexemes are scanned back.
  \<^item> \<open>Sla_Block_Span\<close>: \<open>peekBlockSpan\<close> and \<open>skipBlockSpan\<close> of the parser, which run the scanner to
    find the end of a block; when they return, when they do not, and that they agree.
  \<^item> \<open>Sla_Parse\<close>, \<open>Sla_Parse_Expr\<close>, \<open>Sla_Parse_Stmt\<close>: the recursive descent over types, expressions and
    statements, a definition per method of the struct \<open>Parser\<close>.  The fields \<open>lex\<close> and \<open>tok\<close> are the list of
    the tokens left with their lexemes, \<open>try\<close> is the binding of a state-and-error monad, and a method
    that the grammar calls again at a later token is a field of the record \<open>grammar\<close>.
    \<open>Sla_Parse_Ends\<close>: the locales \<open>expr_contract\<close> and \<open>grammar_contract\<close> say what the callers of a method
    rely on, that it consumes a token whenever it gives a value.  \<open>Sla_Parse_Knot\<close>: the contracts by induction on the
    depth, and \<open>parser_of\<close>, the parser without a bound, which satisfies the equations of the source.
    \<open>Sla_Parse_Print\<close>, \<open>Sla_Parse_Surface\<close>: types and expressions as the user writes them, their
    printers, and that the parser, and the scanner and the parser together, read them back.
    \<open>Sla_Parse_Types\<close>: the types the parser gives are well formed, in the scopes of files, traits and
    implementations; how far its operators reach, and which expressions it rejects.  \<open>Sla_Parse_Lookahead\<close>: how
    what follows an argument list decides whether it is read as comparisons or as a generic call.
  \<^item> \<open>Sla_Shader_Ast\<close>, \<open>Sla_Ast\<close>: the syntax tree, a datatype with the tags of \<open>Node\<close>.
  \<^item> \<open>Sla_Shader_Check\<close>: the checker of shader declarations of \<open>sublanguage_shader.zig\<close>; the two name
    tables of \<open>Checker\<close> are partial maps, and the diagnostic of the first violated rule is the left value of a sum.
    \<open>Sla_Shader_Typing\<close>: the typing rules as inductive relations and that the checker decides them; what an
    accepted shader reads and writes; that the order of declarations does not matter.  \<open>Sla_Shader_Sound\<close>:
    values for the shader types, and that an accepted shader runs without getting stuck.  \<open>Sla_Shader_Faults\<close>:
    the faults of expressions, targets, statements and declarations as conditions on the tree, and that a rejection
    names the first fault in the order of the source.
  \<^item> \<open>Sla_Shader_Parse\<close>: the parser of shader declarations, on the cursor of \<open>Sla_Parse\<close>, with the locale
    \<open>shader_contract\<close> for what the callers of its methods rely on.  \<open>Sla_Shader_Print\<close>: a printer of declarations
    as tokens and that the parser reads them back.  \<open>Sla_Shader_Normal\<close>: what the parser gives is printable
    (locale \<open>shader_spelling\<close>), so printing what was parsed loses nothing.
  \<^item> \<open>Sla_Parse_Decl\<close>: the declarations of \<open>parser.zig\<close>, from \<open>parseProgram\<close> (\<open>parse_file\<close>) down: aggregates, enums,
    functions, traits, implementations, modules, macros, tests, imports and registered sublanguages.  What declarations
    record in the parser is the record \<open>decl_state\<close>, a recorded span of the buffer the list of its tokens, and
    \<open>rememberFunctionBodySpan\<close> a list of nodes with their spans.  \<open>Sla_Parse_Decl_Ends\<close>: the locale
    \<open>decl_contract\<close>, and that the parser of files returns.  \<open>Sla_Parse_Span\<close>, \<open>Sla_Parse_Lazy\<close>: every method keeps
    the brace count of \<open>peekBlockSpan\<close> (locale \<open>keep_contract\<close>), so a block ends where its span does.
    \<open>Sla_Parse_File\<close>: what files promise (the tags of enums, the names that become known, the prefixes of modules,
    files of shaders, functions without bodies), and a file whose meaning depends on the order of its functions.
  \<^item> \<open>Sla_Control_Flow\<close>: the merging of value states over branches, the cleanup plan at a function
    exit and the analysis of macro parameters, with a path semantics of macro bodies against which
    the analysis is proved sound on a fragment, and examples outside the fragment where it is not.
    A \<open>switch\<close> without a default may take none of its cases there, which the analysis overlooks.
  \<^item> \<open>Sla_Defer\<close>: the pass of \<open>defer_desugar.zig\<close>, with the counter of \<open>freshName\<close> threaded through;
    \<open>handlers\<close> is \<open>processStmtChildren\<close> and \<open>processExpr\<close> of a node, \<open>process_stmts\<close> the loop of
    \<open>processBlock\<close>.  \<open>Sla_Defer_Runs\<close>: what blocks with \<open>defer\<close> mean, as sets of traces: a
    returned value, a name included, is read before the deferred calls run.
    \<open>Sla_Defer_Refines\<close>: the desugared block has the traces of the original, by a simulation that
    reads the synthetic names back.  \<open>Sla_Defer_Gone\<close>: the same for whole programs, that no \<open>defer\<close>
    is left, and what the pass does not do.
  \<^item> \<open>Sla_Stability\<close>: the validator and the report writers of \<open>stability_metadata.zig\<close>, and the schema
    \<open>schema_json\<close> of the same file as a value with the meaning of the JSON Schema keywords it uses; the locale
    \<open>entry_checker\<close> is the contract of the check of one entry of an array.  The validator accepts what the schema
    does not (fields it does not name), which the theorem states exactly.
  \<^item> \<open>Sla_Layout\<close>, \<open>Sla_Loop_Rules\<close>, \<open>Sla_Async\<close>: the rules of \<open>lowering_rules.zig\<close> that both emitters
    follow.  \<open>Sla_Layout\<close>: sizes and field offsets of tuples, structs and enums, with checked
    \<open>usize\<close> arithmetic; the fields of an aggregate lie in it and apart, those of eight bytes
    aligned (the others are not: that is what the code does).  \<open>Sla_Loop_Rules\<close>: which
    blocks terminate and which loops are left by \<open>break\<close> or \<open>continue\<close>, against the ways control can
    leave a tree.  \<open>Sla_Async\<close>: the linear form into which the code after an \<open>await\<close> is planned, against
    the evaluation of the code in an arbitrary commutative ring.

  \<^bold>\<open>The theories of the reference programs.\<close>  \<open>Sla_Rust\<close> holds the Rust they use: values and panics,
  checked integers, what a \<open>main\<close> prints.  \<open>Rosetta_Basics\<close> (01 to 60), \<open>Rosetta_Services\<close> (63 to
  100), \<open>Rosetta_Effects\<close> (101 to 170), \<open>Rosetta_Errors\<close> (171 to 200, 304 to 313) and
  \<open>Rosetta_Extensions\<close> (programs outside plain Rust) model every program function by function, the
  number of the program at the end of the name, and prove what the functions compute and what the
  programs print.  \<open>Rosetta_Concurrency\<close> models threads, locks, channels, parking and executors as
  step relations, interpretations of \<open>safe_system\<close> and \<open>ending_system\<close>; a condition variable and \<open>park\<close> may
  wake up for no reason, as their documentation says, which the bounds on the number of steps count.  \<open>Rosetta_Packages\<close> (201 to 250) and
  \<open>Rosetta_Builds\<close> (251 to 300) model the programs that check the text of embedded files; the files
  are an argument.

  \<^bold>\<open>Errors, bounds and fuel.\<close>  A panic, an error return and a failed pass are left values of a sum.
  The depth of interpolations in the scanner is a \<open>16 word\<close> whose overflow is an error; buffers below
  64 KiB cannot reach it, which is the bound of the scanner's properties.  The loops over
  the scanner's tokens are \<open>partial_function (option)\<close>: not returning is \<open>None\<close>, and returning is
  proved where it holds.  The number of \<open>lexer_run\<close> is the number of calls.  The methods of the parser
  recurse to the depth \<open>depth st\<close>, twice the weight of the tokens plus two, where the weight counts every
  token once and \<open>>>\<close> twice, since it can be closed in two steps; their loops run at most once more than
  the weight.  Both are enough: \<open>parser_returns\<close> shows that no method runs out of them.  The
  parser of shaders recurses at most once more than the weight (\<open>shader_parser_returns\<close>), and modules
  nest at most that deep (\<open>file_parser_returns\<close>).  These bounds hold for tokens that end; a text whose tokens do not,
  an unterminated template, is the subject of \<open>Sla_Block_Span\<close>.  A structured body, in the properties of the defer pass, is one built from lets,
  assignments, expressions that can be copied, blocks, \<open>unsafe\<close>, \<open>if\<close>, \<open>match\<close>, \<open>switch\<close>, loops,
  jumps and \<open>defer\<close> of calls of such expressions, with no \<open>return\<close> inside a loop, no bare name returned
  while deferred calls are pending (on both the pass is wrong, as \<open>Sla_Defer_Gone\<close> shows) and no name that
  starts like a synthetic one.  Its traces record the evaluation of whole expressions, not what they
  compute; an expression that the pass may copy has no blocks in it.

  \<^bold>\<open>Parameters.\<close>  The arithmetic of shader values, the conversions between them and the texture lookup, in the
  record \<open>shader_ops\<close>, \<open>std.fmt.parseFloat\<close> and the names known before, in the record \<open>scope\<close> of the
  parser, the types and enums that the files behind an import declare, the field \<open>surfaces\<close> of \<open>options\<close>, the parser of JSON in \<open>validateManifestText\<close>, \<open>f32\<close> arithmetic and the attribute macro
  in \<open>Rosetta_Extensions\<close>, the \<open>extern\<close> functions and the embedded files of the reference programs.

  \<^bold>\<open>Not modelled.\<close>  The files that \<open>prescanSlaImportTypes\<close> opens and its cache, and the texts of the diagnostics
  (\<open>last_expected\<close>, \<open>printDiagnostic\<close>) of \<open>parser.zig\<close>, the type checker, the other plans of
  \<open>lowering_rules.zig\<close>, monomorphisation, the two code generators and their audit (some 90,000 lines that rewrite and
  print trees; they emit nothing for shaders), and the file system, process and command-line parts of the
  plugin.  Memory allocation and its failure are left out everywhere.
\<close>

end
